(* ===== verification/IBox_Prelude.thy ===== *)
theory IBox_Prelude
  imports Main "HOL-Library.Word"
begin

text \<open>
  Shared vocabulary of the iBoxClient development: the machine types of the firmware, C strings
  as byte lists (\<open>strstr\<close>, decimal formatting), and the list, option and word lemmas
  that the component theories use.  The collections \<open>ibox_defs\<close> (operations that are
  unfolded when a component is analysed), \<open>ibox_inv\<close> (preservation facts) and
  \<open>ibox_len\<close> (length facts) are filled by the components.
\<close>

unbundle bit_operations_syntax

named_theorems ibox_defs
named_theorems ibox_inv
named_theorems ibox_len

section \<open>Machine types\<close>

type_synonym u8 = "8 word"
type_synonym u16 = "16 word"
type_synonym u32 = "32 word"
type_synonym bytes = "u8 list"

text \<open>
  Reading an array element past its end is undefined in C; the operations that may do so
  return this error.
\<close>

datatype c_fault = OutOfBounds

type_synonym 'a c_result = "c_fault + 'a"

definition buf_at :: "bytes \<Rightarrow> nat \<Rightarrow> u8 c_result" where
  "buf_at b i = (if i < length b then Inr (b ! i) else Inl OutOfBounds)"

text \<open>Bytes stored into an array from an index on.\<close>

definition store_at :: "bytes \<Rightarrow> nat \<Rightarrow> bytes \<Rightarrow> bytes c_result" where
  "store_at arr i bs =
     (if i + length bs \<le> length arr then Inr (take i arr @ bs @ drop (i + length bs) arr) else Inl OutOfBounds)"

text \<open>Sequencing of operations that may fault.\<close>

definition bindR :: "'a c_result \<Rightarrow> ('a \<Rightarrow> 'b c_result) \<Rightarrow> 'b c_result" where
  "bindR m f = (case m of Inl e \<Rightarrow> Inl e | Inr x \<Rightarrow> f x)"

lemma bindR_simps [simp]: "bindR (Inl e) f = Inl e" "bindR (Inr x) f = f x"
  by (simp_all add: bindR_def)

lemma bindR_eq_Inr: "bindR m f = Inr y \<longleftrightarrow> (\<exists>x. m = Inr x \<and> f x = Inr y)"
  by (cases m) auto

lemma bindR_cong [fundef_cong]:
  "m = m' \<Longrightarrow> (\<And>x. m' = Inr x \<Longrightarrow> f x = g x) \<Longrightarrow> bindR m f = bindR m' g"
  by (cases m') auto

section \<open>C strings as byte lists\<close>

definition str_bytes :: "string \<Rightarrow> bytes" where
  "str_bytes s = map of_char s"

definition crlf :: bytes where
  "crlf = [13, 10]"

definition at_cmd :: "string \<Rightarrow> bytes" where
  "at_cmd s = str_bytes s @ crlf"

text \<open>The C string that starts at the front of a buffer ends before the first NUL byte.\<close>

definition cstr :: "bytes \<Rightarrow> bytes" where
  "cstr b = takeWhile (\<lambda>x. x \<noteq> 0) b"

text \<open>The C library's \<open>strstr\<close>: the offset of the first occurrence, \<open>None\<close> for NULL.\<close>

fun strstr :: "bytes \<Rightarrow> bytes \<Rightarrow> nat option" where
  "strstr [] n = (if n = [] then Some 0 else None)"
| "strstr (h # hs) n =
     (if take (length n) (h # hs) = n then Some 0 else map_option Suc (strstr hs n))"

lemma strstr_SomeD:
  "strstr h n = Some i \<Longrightarrow> i + length n \<le> length h \<and> take (length n) (drop i h) = n"
proof (induction h arbitrary: i)
  case Nil
  then show ?case by (simp split: if_splits)
next
  case (Cons x xs)
  show ?case
  proof (cases "take (length n) (x # xs) = n")
    case True
    then have "length n \<le> length (x # xs)"
      by (metis length_take min.cobounded1)
    with True Cons.prems show ?thesis by simp
  next
    case False
    with Cons.prems obtain j where "strstr xs n = Some j" "i = Suc j" by auto
    with Cons.IH show ?thesis by simp
  qed
qed

lemma strstr_NoneI:
  assumes "strstr h n = None"
  shows "take (length n) (drop i h) \<noteq> n"
  using assms
proof (induction h arbitrary: i)
  case Nil
  then show ?case by (simp split: if_splits)
next
  case (Cons x xs)
  then have "take (length n) (x # xs) \<noteq> n" and "strstr xs n = None"
    by (simp_all split: if_splits)
  with Cons.IH show ?case by (cases i) auto
qed

lemma strstr_append_hit:
  "\<exists>i. strstr (p @ n @ s) n = Some i \<and> i \<le> length p"
proof (induction p)
  case Nil
  show ?case
  proof (cases "n @ s")
    case Nil
    then show ?thesis by simp
  next
    case (Cons y ys)
    then have "take (length n) (y # ys) = n" by (metis append_eq_conv_conj)
    with Cons show ?thesis by simp
  qed
next
  case (Cons x p)
  then show ?case by auto
qed

section \<open>Decimal formatting\<close>

text \<open>
  \<open>sprintf\<close> with \<open>%d\<close> of a non-negative value, and with a minimal field width
  filled by zeros (\<open>%02d\<close>, \<open>%010d\<close>).
\<close>

fun dec :: "nat \<Rightarrow> bytes" where
  "dec n = (if n < 10 then [of_nat (48 + n)] else dec (n div 10) @ [of_nat (48 + n mod 10)])"

declare dec.simps [simp del]

definition dec_pad :: "nat \<Rightarrow> nat \<Rightarrow> bytes" where
  "dec_pad w n = (let d = dec n in replicate (w - length d) 48 @ d)"

lemma dec_length: "0 < k \<Longrightarrow> n < 10 ^ k \<Longrightarrow> length (dec n) \<le> k"
proof (induction n arbitrary: k rule: dec.induct)
  case (1 n)
  show ?case
  proof (cases "n < 10")
    case True
    then show ?thesis using "1.prems" by (simp add: dec.simps [of n])
  next
    case False
    then have "k \<noteq> 1" using "1.prems"(2) by auto
    then obtain j where "k = Suc j" "0 < j" using "1.prems"(1) by (cases k) auto
    then show ?thesis
      using False "1.IH" [of j] "1.prems"(2) by (simp add: dec.simps [of n] less_mult_imp_div_less mult.commute)
  qed
qed

lemma dec_u16_length: "length (dec (unat (w :: u16))) \<le> 5"
proof (rule dec_length)
  have "unat w < 65536" using unsigned_less [of w, where ?'a = nat] by simp
  then show "unat w < 10 ^ 5" by simp
qed simp

definition digit_val :: "u8 \<Rightarrow> int" where
  "digit_val b = uint b - 48"

fun undec :: "int \<Rightarrow> bytes \<Rightarrow> int" where
  "undec acc [] = acc"
| "undec acc (b # bs) = undec (acc * 10 + digit_val b) bs"

lemma undec_append [simp]: "undec acc (xs @ ys) = undec (undec acc xs) ys"
  by (induction xs arbitrary: acc) auto

lemma digit_val_of_nat [simp]:
  assumes "d < 10"
  shows "digit_val (48 + of_nat d) = int d"
proof -
  have "uint (of_nat (48 + d) :: u8) = int (48 + d)"
    using assms by (simp only: unsigned_of_nat of_nat_take_bit) (simp add: take_bit_int_eq_self)
  then show ?thesis by (simp add: digit_val_def)
qed

lemma undec_dec: "undec 0 (dec n) = int n"
proof (induction n rule: dec.induct)
  case (1 n)
  show ?case
  proof (cases "n < 10")
    case True
    then show ?thesis by (simp add: dec.simps [of n])
  next
    case False
    with "1.IH" have "undec 0 (dec (n div 10)) = int (n div 10)" by simp
    with False show ?thesis
      by (simp add: dec.simps [of n] zdiv_int zmod_int)
  qed
qed

section \<open>Lists\<close>

lemma drop_ConsD: "drop cp msg = b # r \<Longrightarrow> cp < length msg \<and> msg ! cp = b \<and> drop (Suc cp) msg = r"
  by (metis drop_eq_Nil2 list.distinct(1) linorder_not_le Cons_nth_drop_Suc list.inject)

lemma take_Suc_drop_nth:
  "i < length xs \<Longrightarrow> take (Suc 0) (drop i xs) = [xs ! i]"
  by (simp add: take_Suc_conv_app_nth Cons_nth_drop_Suc [symmetric])

lemma map_upt_cong:
  "(\<And>i. i < n \<Longrightarrow> f i = g i) \<Longrightarrow> map f [0..<n] = map g [0..<n]"
  by simp

lemma map_upt_tl:
  "map f [0..<Suc n] = f 0 # map (\<lambda>i. f (Suc i)) [0..<n]"
  by (simp add: upt_conv_Cons map_Suc_upt [symmetric] o_def del: upt_Suc)

section \<open>Modular arithmetic of ring indices\<close>

lemma mod_ring_inj_le:
  assumes "i \<le> j" and "j < n" and "(b + i) mod n = (b + j) mod (n::nat)"
  shows "i = j"
proof -
  have "n dvd (b + j) - (b + i)"
    using assms(1,3) mod_eq_dvd_iff_nat [of "b + i" "b + j" n] by simp
  then have "n dvd j - i" by simp
  with assms(1,2) show ?thesis by (auto dest: dvd_imp_le)
qed

lemma mod_ring_eq_iff:
  assumes "i < n" and "j < n"
  shows "(b + i) mod n = (b + j) mod (n::nat) \<longleftrightarrow> i = j"
  using mod_ring_inj_le [of i j n b] mod_ring_inj_le [of j i n b] assms
  by (metis linorder_le_cases)

lemma Suc_mod_ring: "(Suc (b mod n) + i) mod n = (b + Suc i) mod (n::nat)"
  by (metis add_Suc_shift mod_Suc_eq mod_add_left_eq add_Suc add_Suc_right)

section \<open>Words\<close>

lemma unat_of_nat_u16 [simp]: "n < 65536 \<Longrightarrow> unat (of_nat n :: u16) = n"
  by (simp add: unat_of_nat)

lemma unat_minus_one_u16 [simp]: "unat (- 1 :: u16) = 65535"
  by (simp add: unsigned_minus_1_eq_mask mask_eq_exp_minus_1)

lemma unat_inc_u16: "unat i + 1 < 65536 \<Longrightarrow> unat (i + 1 :: u16) = unat i + 1"
  by (subst unat_add_lem [THEN iffD1]) simp_all

lemma eq_of_nat_u16: "n < 65536 \<Longrightarrow> (i :: u16) = of_nat n \<longleftrightarrow> unat i = n"
  by (simp add: word_unat_eq_iff)

lemma unat_dec: "x \<noteq> 0 \<Longrightarrow> unat (x - 1) = unat x - 1"
  by (rule unat_minus_one)

text \<open>A wrapping decrement that does not reach zero decreases this measure.\<close>

lemma u16_dec_measure:
  fixes x :: u16
  assumes "0 < x - 1"
  shows "(if x - 1 = 0 then 65536 else unat (x - 1)) < (if x = 0 then 65536 else unat x)"
proof (cases "x = 0")
  case True
  then show ?thesis using unsigned_less [of "x - 1", where ?'a = nat] by simp
next
  case False
  then have "unat (x - 1) < unat x" by (simp add: unat_dec unat_gt_0 word_neq_0_conv)
  with False assms show ?thesis by auto
qed

lemma unat_u16_lt [simp]: "unat (x :: u16) < 65536"
  using unsigned_less [of x, where ?'a = nat] by simp

lemma unat_u8_lt [simp]: "unat (x :: u8) < 256"
  using unsigned_less [of x, where ?'a = nat] by simp

lemma unat_u32_lt [simp]: "unat (x :: u32) < 4294967296"
  using unsigned_less [of x, where ?'a = nat] by simp

end
