(* ===== verification/Ring_Spec.thy ===== *)
theory Ring_Spec
  imports IBox_Prelude
begin

text \<open>
  The queue interfaces of the firmware and the index arithmetic of its ring buffers.
  \<open>bounded_fifo\<close> is the contract of the two \<open>Begin\<close>/\<open>End\<close> rings (the network FIFO of
  \<open>Application/src/network.c\<close> and the radio FIFO of \<open>SX1276/src/config/fifo.c\<close>);
  \<open>lossy_ring\<close> is the contract of the interrupt-driven UART receive rings, whose producer
  never blocks.  Both are stated against the list of unread elements; the clients' facts are
  proved once here, inside the locales.
\<close>

section \<open>Runs of queue operations\<close>

primrec pop_n :: "('q \<Rightarrow> 'a \<times> 'q) \<Rightarrow> nat \<Rightarrow> 'q \<Rightarrow> 'a list \<times> 'q" where
  "pop_n pop 0 q = ([], q)"
| "pop_n pop (Suc n) q =
     (let (x, q') = pop q; (xs, q'') = pop_n pop n q' in (x # xs, q''))"

section \<open>Bounded FIFO queues\<close>

locale bounded_fifo =
  fixes invar :: "'q \<Rightarrow> bool"
    and elems :: "'q \<Rightarrow> 'a list"
    and cap :: "'q \<Rightarrow> nat"
    and push :: "'q \<Rightarrow> 'a \<Rightarrow> 'q"
    and pop :: "'q \<Rightarrow> 'a \<times> 'q"
    and is_empty :: "'q \<Rightarrow> bool"
    and is_full :: "'q \<Rightarrow> bool"
    and flush :: "'q \<Rightarrow> 'q"
  assumes elems_le_cap: "invar q \<Longrightarrow> length (elems q) \<le> cap q"
    and is_empty_iff: "invar q \<Longrightarrow> is_empty q \<longleftrightarrow> elems q = []"
    and is_full_iff: "invar q \<Longrightarrow> is_full q \<longleftrightarrow> length (elems q) = cap q"
    and push_invar: "invar q \<Longrightarrow> invar (push q x)"
    and push_cap: "invar q \<Longrightarrow> cap (push q x) = cap q"
    and push_elems: "invar q \<Longrightarrow> \<not> is_full q \<Longrightarrow> elems (push q x) = elems q @ [x]"
    and push_overrun: "invar q \<Longrightarrow> is_full q \<Longrightarrow> elems (push q x) = []"
    and pop_invar: "invar q \<Longrightarrow> elems q \<noteq> [] \<Longrightarrow> invar (snd (pop q))"
    and pop_cap: "invar q \<Longrightarrow> cap (snd (pop q)) = cap q"
    and pop_fst: "invar q \<Longrightarrow> elems q \<noteq> [] \<Longrightarrow> fst (pop q) = hd (elems q)"
    and pop_elems: "invar q \<Longrightarrow> elems q \<noteq> [] \<Longrightarrow> elems (snd (pop q)) = tl (elems q)"
    and flush_invar: "invar q \<Longrightarrow> invar (flush q)"
    and flush_elems: "invar q \<Longrightarrow> elems (flush q) = []"
begin

lemma push_all:
  assumes "invar q" and "length (elems q) + length xs \<le> cap q"
  shows "invar (foldl push q xs) \<and> cap (foldl push q xs) = cap q \<and>
    elems (foldl push q xs) = elems q @ xs"
  using assms
proof (induction xs arbitrary: q)
  case Nil
  then show ?case by simp
next
  case (Cons x xs)
  then have "\<not> is_full q" by (simp add: is_full_iff)
  with Cons.prems have "elems (push q x) = elems q @ [x]" by (simp add: push_elems)
  with Cons.prems Cons.IH [of "push q x"] show ?case
    by (simp add: push_invar push_cap)
qed

lemma pop_all:
  assumes "invar q" and "n \<le> length (elems q)"
  shows "invar (snd (pop_n pop n q)) \<and> cap (snd (pop_n pop n q)) = cap q \<and>
    fst (pop_n pop n q) = take n (elems q) \<and> elems (snd (pop_n pop n q)) = drop n (elems q)"
  using assms
proof (induction n arbitrary: q)
  case 0
  then show ?case by simp
next
  case (Suc n)
  then have ne: "elems q \<noteq> []" by auto
  obtain y ys where e: "elems q = y # ys" using ne by (cases "elems q") auto
  from Suc.prems(1) ne have *: "invar (snd (pop q))" "cap (snd (pop q)) = cap q"
    "fst (pop q) = y" "elems (snd (pop q)) = ys"
    using e by (simp_all add: pop_invar pop_cap pop_fst pop_elems)
  with Suc.prems e Suc.IH [of "snd (pop q)"] show ?case
    by (auto simp: split_beta)
qed

lemma fifo_order:
  assumes "invar q" and "elems q = []" and "length xs \<le> cap q"
  shows "fst (pop_n pop (length xs) (foldl push q xs)) = xs"
  using push_all [OF assms(1), of xs] pop_all [of "foldl push q xs" "length xs"] assms by simp

end

section \<open>Lossy receive rings\<close>

text \<open>
  A receive interrupt always stores the byte.  \<open>spill\<close> says what the ring holds after
  the byte that fills it has been stored: the whole content is dropped by the UART3 and UART4
  handlers, the oldest byte by the console's.
\<close>

locale lossy_ring =
  fixes invar :: "'q \<Rightarrow> bool"
    and elems :: "'q \<Rightarrow> 'a list"
    and cap :: nat
    and rx :: "'q \<Rightarrow> 'a \<Rightarrow> 'q"
    and get :: "'q \<Rightarrow> 'a \<times> 'q"
    and spill :: "'a list \<Rightarrow> 'a list"
  assumes elems_lt_cap: "invar q \<Longrightarrow> length (elems q) < cap"
    and rx_invar: "invar q \<Longrightarrow> invar (rx q x)"
    and rx_elems: "invar q \<Longrightarrow> elems (rx q x) =
      (if Suc (length (elems q)) = cap then spill (elems q @ [x]) else elems q @ [x])"
    and get_invar: "invar q \<Longrightarrow> elems q \<noteq> [] \<Longrightarrow> invar (snd (get q))"
    and get_fst: "invar q \<Longrightarrow> elems q \<noteq> [] \<Longrightarrow> fst (get q) = hd (elems q)"
    and get_elems: "invar q \<Longrightarrow> elems q \<noteq> [] \<Longrightarrow> elems (snd (get q)) = tl (elems q)"
begin

lemma rx_all:
  assumes "invar q" and "length (elems q) + length xs < cap"
  shows "invar (foldl rx q xs) \<and> elems (foldl rx q xs) = elems q @ xs"
  using assms
proof (induction xs arbitrary: q)
  case Nil
  then show ?case by simp
next
  case (Cons x xs)
  then have "elems (rx q x) = elems q @ [x]" by (simp add: rx_elems)
  with Cons.prems Cons.IH [of "rx q x"] show ?case by (simp add: rx_invar)
qed

lemma rx_all_invar: "invar q \<Longrightarrow> invar (foldl rx q xs)"
  by (induction xs arbitrary: q) (simp_all add: rx_invar)

lemma get_Cons:
  "invar q \<Longrightarrow> elems q = x # xs \<Longrightarrow>
     fst (get q) = x \<and> elems (snd (get q)) = xs \<and> invar (snd (get q))"
  by (simp add: get_fst get_elems get_invar)

end

section \<open>Rings between two indices\<close>

text \<open>
  One slot stays free: the unread elements are at the indices after \<open>b\<close> up to
  \<open>e\<close>, and \<open>b = e\<close> means empty.
\<close>

definition ring_len :: "nat \<Rightarrow> nat \<Rightarrow> nat \<Rightarrow> nat" where
  "ring_len n b e = (if b \<le> e then e - b else e + n - b)"

definition ring_elems :: "'a list \<Rightarrow> nat \<Rightarrow> nat \<Rightarrow> nat \<Rightarrow> 'a list" where
  "ring_elems d n b e = map (\<lambda>i. d ! ((b + Suc i) mod n)) [0..<ring_len n b e]"

lemma length_ring_elems [simp]: "length (ring_elems d n b e) = ring_len n b e"
  by (simp add: ring_elems_def)

lemma ring_len_lt: "b < n \<Longrightarrow> e < n \<Longrightarrow> ring_len n b e < n"
  by (auto simp: ring_len_def)

lemma ring_len_0 [simp]: "b < n \<Longrightarrow> ring_len n b e = 0 \<longleftrightarrow> b = e"
  by (auto simp: ring_len_def)

lemma ring_elems_Nil [simp]: "b < n \<Longrightarrow> ring_elems d n b e = [] \<longleftrightarrow> b = e"
  using length_ring_elems [of d n b e] by (metis length_0_conv ring_len_0)

lemma ring_next: "e < n \<Longrightarrow> Suc e mod n = (if Suc e = n then 0 else Suc e)"
  by auto

lemma ring_full_iff:
  "b < n \<Longrightarrow> e < n \<Longrightarrow> (e + 1) mod n = b \<longleftrightarrow> ring_len n b e = n - 1"
  by (auto simp: ring_next ring_len_def split: if_splits)

lemma ring_len_push:
  "b < n \<Longrightarrow> e < n \<Longrightarrow> (e + 1) mod n \<noteq> b \<Longrightarrow>
     ring_len n b ((e + 1) mod n) = Suc (ring_len n b e)"
  by (auto simp: ring_next ring_len_def split: if_splits)

lemma ring_end: "b < n \<Longrightarrow> e < n \<Longrightarrow> (b + ring_len n b e) mod n = e"
  by (auto simp: ring_len_def)

lemma ring_elems_push:
  assumes "b < n" "e < n" "length d = n" "(e + 1) mod n \<noteq> b"
  shows "ring_elems (d[(e + 1) mod n := x]) n b ((e + 1) mod n) = ring_elems d n b e @ [x]"
proof -
  let ?l = "ring_len n b e"
  have slot: "(e + 1) mod n = (b + Suc ?l) mod n"
    using ring_end [OF assms(1,2)] by (metis add_Suc_right mod_Suc_eq Suc_eq_plus1)
  have l: "Suc ?l < n"
    using assms ring_full_iff [of b n e] ring_len_lt [of b n e] by linarith
  have "d[(e + 1) mod n := x] ! ((b + Suc i) mod n) = d ! ((b + Suc i) mod n)"
    if "i < ?l" for i
    using that l slot mod_ring_eq_iff [of "Suc i" n "Suc ?l" b] by (metis less_Suc_eq
      less_irrefl_nat less_trans Suc_less_eq nth_list_update_neq)
  moreover have "d[(e + 1) mod n := x] ! ((b + Suc ?l) mod n) = x"
    using assms slot by (metis mod_less_divisor nth_list_update_eq gr_implies_not_zero gr0I)
  ultimately show ?thesis
    unfolding ring_elems_def ring_len_push [OF assms(1,2,4)] by simp
qed

lemma ring_elems_pop:
  assumes "b < n" "e < n" "b \<noteq> e"
  shows "ring_elems d n b e = d ! ((b + 1) mod n) # ring_elems d n ((b + 1) mod n) e"
proof -
  have "ring_len n b e = Suc (ring_len n ((b + 1) mod n) e)"
    using assms by (auto simp: ring_next ring_len_def split: if_splits)
  then show ?thesis
    unfolding ring_elems_def
    by (simp only: map_upt_tl) (simp add: Suc_mod_ring [simplified] mod_simps)
qed

section \<open>Rings with an element counter\<close>

definition cnt_elems :: "'a list \<Rightarrow> nat \<Rightarrow> nat \<Rightarrow> nat \<Rightarrow> 'a list" where
  "cnt_elems d n r c = map (\<lambda>i. d ! ((r + i) mod n)) [0..<c]"

lemma length_cnt_elems [simp]: "length (cnt_elems d n r c) = c"
  by (simp add: cnt_elems_def)

lemma cnt_elems_0 [simp]: "cnt_elems d n r 0 = []"
  by (simp add: cnt_elems_def)

lemma cnt_elems_push:
  assumes "c < n" "length d = n"
  shows "cnt_elems (d[(r + c) mod n := x]) n r (Suc c) = cnt_elems d n r c @ [x]"
proof -
  have "d[(r + c) mod n := x] ! ((r + i) mod n) = d ! ((r + i) mod n)" if "i < c" for i
    using that assms mod_ring_eq_iff [of i n c r] by simp
  moreover have "d[(r + c) mod n := x] ! ((r + c) mod n) = x"
    using assms by (simp add: mod_less_divisor gr_implies_not_zero)
  ultimately show ?thesis by (simp add: cnt_elems_def)
qed

lemma cnt_elems_pop:
  "cnt_elems d n r (Suc c) = d ! (r mod n) # cnt_elems d n ((r + 1) mod n) c"
  unfolding cnt_elems_def
  by (simp only: map_upt_tl) (simp add: mod_simps)


section \<open>16-bit indices of counter rings\<close>

text \<open>The drivers advance an index by an increment and a compare-and-reset.\<close>

definition ring_succ :: "nat \<Rightarrow> u16 \<Rightarrow> u16" where
  "ring_succ n i = (if i + 1 = of_nat n then 0 else i + 1)"

lemma unat_ring_succ:
  assumes "unat i < n" "n < 65536"
  shows "unat (ring_succ n i) = Suc (unat i) mod n"
proof -
  have u: "unat (i + 1) = Suc (unat i)"
    using assms by (simp add: unat_inc_u16)
  have "i + 1 = of_nat n \<longleftrightarrow> unat (i + 1) = n"
    using assms by (simp add: eq_of_nat_u16)
  with u assms show ?thesis by (auto simp: ring_succ_def mod_Suc)
qed

definition cnt_ring :: "nat \<Rightarrow> 'a list \<Rightarrow> u16 \<Rightarrow> u16 \<Rightarrow> u16 \<Rightarrow> bool" where
  "cnt_ring n buf wr cnt re \<longleftrightarrow> length buf = n \<and> unat re < n \<and> unat cnt < n \<and>
     unat wr = (unat re + unat cnt) mod n"

lemma cnt_ring_store:
  assumes "cnt_ring n buf wr cnt re" and "n < 65536"
  shows "cnt + 1 = of_nat n \<longleftrightarrow> Suc (unat cnt) = n"
    and "Suc (unat cnt) \<noteq> n \<Longrightarrow>
      cnt_ring n (buf[unat wr := d]) (ring_succ n wr) (cnt + 1) re \<and>
      cnt_elems (buf[unat wr := d]) n (unat re) (unat (cnt + 1)) =
        cnt_elems buf n (unat re) (unat cnt) @ [d]"
proof -
  have i: "length buf = n" "unat re < n" "unat cnt < n" "unat wr = (unat re + unat cnt) mod n"
    using assms(1) by (simp_all add: cnt_ring_def)
  have c: "unat (cnt + 1) = Suc (unat cnt)" using i assms(2) by (simp add: unat_inc_u16)
  then show "cnt + 1 = of_nat n \<longleftrightarrow> Suc (unat cnt) = n" using assms(2) by (simp add: eq_of_nat_u16)
  have "unat (ring_succ n wr) = Suc (unat wr) mod n"
    using i assms(2) by (intro unat_ring_succ) simp_all
  then show "Suc (unat cnt) \<noteq> n \<Longrightarrow>
      cnt_ring n (buf[unat wr := d]) (ring_succ n wr) (cnt + 1) re \<and>
      cnt_elems (buf[unat wr := d]) n (unat re) (unat (cnt + 1)) =
        cnt_elems buf n (unat re) (unat cnt) @ [d]"
    using i c cnt_elems_push [OF i(3,1), of "unat re" d] by (simp add: cnt_ring_def mod_simps)
qed

lemma cnt_ring_fetch:
  assumes "cnt_ring n buf wr cnt re" and "n < 65536"
    and "cnt_elems buf n (unat re) (unat cnt) = x # xs"
  shows "buf ! unat re = x \<and> cnt_ring n buf wr (cnt - 1) (ring_succ n re) \<and>
    cnt_elems buf n (unat (ring_succ n re)) (unat (cnt - 1)) = xs"
proof -
  have i: "length buf = n" "unat re < n" "unat cnt < n" "unat wr = (unat re + unat cnt) mod n"
    using assms(1) by (simp_all add: cnt_ring_def)
  have c: "unat cnt = Suc (length xs)"
    using arg_cong [OF assms(3), of length] by simp
  then have c': "unat (cnt - 1) = length xs" by (subst unat_dec) auto
  have r: "unat (ring_succ n re) = Suc (unat re) mod n"
    using i assms(2) by (intro unat_ring_succ)
  have el: "buf ! unat re # cnt_elems buf n (Suc (unat re) mod n) (length xs) = x # xs"
    using assms(3) c cnt_elems_pop [of buf n "unat re" "length xs"] i by simp
  have "(Suc (unat re) mod n + length xs) mod n = (unat re + Suc (length xs)) mod n"
    by (simp add: mod_simps)
  with r el i c c' show ?thesis by (simp add: cnt_ring_def)
qed

end
