(* ===== verification/Lora_Fifo.thy ===== *)
theory Lora_Fifo
  imports Ring_Spec
begin

text \<open>
  The radio FIFO of \<open>Drivers/BSP/SX1276/src/config/fifo.c\<close>: a ring of 16-bit values
  between the indices \<open>Begin\<close> and \<open>End\<close>.  Its operations are interpreted as a
  \<open>bounded_fifo\<close> of capacity \<open>Size - 1\<close>.
\<close>

section \<open>Data and operations\<close>

record tFifo =
  tf_Begin :: u16
  tf_End :: u16
  tf_Data :: "u16 list"
  tf_Size :: u16

text \<open>The sum is computed at the width of \<open>int\<close>, so \<open>index + 1\<close> does not wrap.\<close>

definition FifoNext :: "tFifo \<Rightarrow> u16 \<Rightarrow> u16" where
  "FifoNext fifo index = of_nat ((unat index + 1) mod unat (tf_Size fifo))"

definition FifoInit :: "tFifo \<Rightarrow> u16 list \<Rightarrow> u16 \<Rightarrow> tFifo" where
  "FifoInit fifo buffer sz =
     fifo\<lparr>tf_Begin := 0, tf_End := 0, tf_Data := buffer, tf_Size := sz\<rparr>"

definition FifoPush :: "tFifo \<Rightarrow> u16 \<Rightarrow> tFifo" where
  "FifoPush fifo d =
     (let fifo' = fifo\<lparr>tf_End := FifoNext fifo (tf_End fifo)\<rparr>
      in fifo'\<lparr>tf_Data := (tf_Data fifo')[unat (tf_End fifo') := d]\<rparr>)"

definition FifoPop :: "tFifo \<Rightarrow> u16 \<times> tFifo" where
  "FifoPop fifo =
     (let d = tf_Data fifo ! unat (FifoNext fifo (tf_Begin fifo))
      in (d, fifo\<lparr>tf_Begin := FifoNext fifo (tf_Begin fifo)\<rparr>))"

definition FifoFlush :: "tFifo \<Rightarrow> tFifo" where
  "FifoFlush fifo = fifo\<lparr>tf_Begin := 0, tf_End := 0\<rparr>"

definition IsFifoEmpty :: "tFifo \<Rightarrow> bool" where
  "IsFifoEmpty fifo \<longleftrightarrow> tf_Begin fifo = tf_End fifo"

definition IsFifoFull :: "tFifo \<Rightarrow> bool" where
  "IsFifoFull fifo \<longleftrightarrow> FifoNext fifo (tf_End fifo) = tf_Begin fifo"

section \<open>Abstraction\<close>

definition tFifo_inv :: "tFifo \<Rightarrow> bool" where
  "tFifo_inv f \<longleftrightarrow> length (tf_Data f) = unat (tf_Size f) \<and>
     unat (tf_Begin f) < unat (tf_Size f) \<and> unat (tf_End f) < unat (tf_Size f)"

definition tFifo_elems :: "tFifo \<Rightarrow> u16 list" where
  "tFifo_elems f =
     ring_elems (tf_Data f) (unat (tf_Size f)) (unat (tf_Begin f)) (unat (tf_End f))"

definition tFifo_cap :: "tFifo \<Rightarrow> nat" where
  "tFifo_cap f = unat (tf_Size f) - 1"

lemmas tFifo_defs = tFifo_inv_def tFifo_elems_def tFifo_cap_def FifoNext_def FifoPush_def
  FifoPop_def FifoFlush_def IsFifoEmpty_def IsFifoFull_def Let_def

lemma unat_FifoNext:
  "0 < unat (tf_Size f) \<Longrightarrow> unat (FifoNext f i) = (unat i + 1) mod unat (tf_Size f)"
  unfolding FifoNext_def
  by (rule unat_of_nat_u16) (use mod_less_divisor unat_u16_lt less_trans in blast)

lemma FifoNext_eq_iff:
  "0 < unat (tf_Size f) \<Longrightarrow> FifoNext f i = j \<longleftrightarrow> (unat i + 1) mod unat (tf_Size f) = unat j"
  by (metis unat_FifoNext word_unat_eq_iff)

lemma FifoInit_inv:
  "length b = unat n \<Longrightarrow> 0 < unat n \<Longrightarrow> tFifo_inv (FifoInit f b n) \<and> tFifo_elems (FifoInit f b n) = []"
  by (simp add: FifoInit_def tFifo_inv_def tFifo_elems_def)

interpretation lora: bounded_fifo tFifo_inv tFifo_elems tFifo_cap FifoPush FifoPop
  IsFifoEmpty IsFifoFull FifoFlush
proof unfold_locales
  fix q x
  assume q: "tFifo_inv q"
  then have n: "0 < unat (tf_Size q)" and b: "unat (tf_Begin q) < unat (tf_Size q)"
    and e: "unat (tf_End q) < unat (tf_Size q)" and l: "length (tf_Data q) = unat (tf_Size q)"
    by (auto simp: tFifo_inv_def)
  note ix = unat_FifoNext [OF n]
  show "length (tFifo_elems q) \<le> tFifo_cap q"
    using ring_len_lt [OF b e] by (simp add: tFifo_elems_def tFifo_cap_def)
  show "IsFifoEmpty q \<longleftrightarrow> tFifo_elems q = []"
    using b by (simp add: IsFifoEmpty_def tFifo_elems_def word_unat_eq_iff)
  show full: "IsFifoFull q \<longleftrightarrow> length (tFifo_elems q) = tFifo_cap q"
    using ring_full_iff [OF b e]
    by (simp add: IsFifoFull_def tFifo_elems_def tFifo_cap_def FifoNext_eq_iff n)
  have fulls: "IsFifoFull q \<longleftrightarrow> (unat (tf_End q) + 1) mod unat (tf_Size q) = unat (tf_Begin q)"
    by (simp add: IsFifoFull_def FifoNext_eq_iff n)
  show "tFifo_inv (FifoPush q x)"
    using q n ix by (simp add: tFifo_inv_def FifoPush_def Let_def)
  show "tFifo_cap (FifoPush q x) = tFifo_cap q"
    by (simp add: tFifo_cap_def FifoPush_def Let_def)
  show "tFifo_elems (FifoPush q x) = tFifo_elems q @ [x]" if "\<not> IsFifoFull q"
    using that fulls ix ring_elems_push [OF b e l]
    by (simp add: tFifo_elems_def FifoPush_def Let_def)
  show "tFifo_elems (FifoPush q x) = []" if "IsFifoFull q"
    using that fulls ix b by (simp add: tFifo_elems_def FifoPush_def Let_def)
  show "tFifo_cap (snd (FifoPop q)) = tFifo_cap q"
    by (simp add: tFifo_cap_def FifoPop_def Let_def)
  show "tFifo_inv (FifoFlush q)" and "tFifo_elems (FifoFlush q) = []"
    using q n by (simp_all add: tFifo_inv_def tFifo_elems_def FifoFlush_def)
  assume ne: "tFifo_elems q \<noteq> []"
  then have be: "unat (tf_Begin q) \<noteq> unat (tf_End q)"
    using b by (simp add: tFifo_elems_def)
  show "tFifo_inv (snd (FifoPop q))"
    using q n ix by (simp add: tFifo_inv_def FifoPop_def Let_def)
  show "fst (FifoPop q) = hd (tFifo_elems q)" and "tFifo_elems (snd (FifoPop q)) = tl (tFifo_elems q)"
    using ring_elems_pop [OF b e be, of "tf_Data q"] ix
    by (simp_all add: tFifo_elems_def FifoPop_def Let_def)
qed

section \<open>Properties\<close>

text \<open>
  the radio FIFO delivers in first-in first-out order.  Whatever the buffer size
  (non-zero), pushing at most \<open>Size - 1\<close> values into a freshly initialised FIFO and
  popping as many returns exactly those values, in order.
\<close>

theorem lora_fifo_order:
  assumes "length buffer = unat sz" and "0 < unat sz" and "length xs < unat sz"
  shows "fst (pop_n FifoPop (length xs) (foldl FifoPush (FifoInit fifo buffer sz) xs)) = xs"
  using lora.fifo_order [of "FifoInit fifo buffer sz" xs] FifoInit_inv [of buffer sz fifo] assms
  by (simp add: tFifo_cap_def FifoInit_def)

theorem lora_fifo_order_witness:
  "fst (pop_n FifoPop (length [7, 8, 9 :: u16])
     (foldl FifoPush (FifoInit \<lparr>tf_Begin = 0, tf_End = 0, tf_Data = [], tf_Size = 0\<rparr>
        (replicate 4 0) 4) [7, 8, 9])) = [7, 8, 9]"
  by (rule lora_fifo_order) simp_all

end
