(* ===== verification/Sx1276.thy ===== *)
theory Sx1276
  imports IBox_Prelude
begin

text \<open>
  The LoRa modem settings of the SX1276 driver: the register access of \<open>SX1276/src/config/sx1276-Hal.c\<close>,
  the setters and getters of \<open>SX1276/src/radio/sx1276-LoRaMisc.c\<close>, and the initialisation in
  \<open>sx1276-LoRa.c\<close> and \<open>sx1276.c\<close>.  The chip's registers are the values that answer over SPI: what was
  written last, or what the chip itself reports.
\<close>

section \<open>Registers\<close>

text \<open>Addresses of registers in the chip.\<close>

definition REG_LR_OPMODE :: nat where "REG_LR_OPMODE = 0x01"
definition REG_LR_FRFMSB :: nat where "REG_LR_FRFMSB = 0x06"
definition REG_LR_PACONFIG :: nat where "REG_LR_PACONFIG = 0x09"
definition REG_LR_PARAMP :: nat where "REG_LR_PARAMP = 0x0A"
definition REG_LR_LNA :: nat where "REG_LR_LNA = 0x0C"
definition REG_LR_FIFOADDRPTR :: nat where "REG_LR_FIFOADDRPTR = 0x0D"
definition REG_LR_FIFOTXBASEADDR :: nat where "REG_LR_FIFOTXBASEADDR = 0x0E"
definition REG_LR_FIFORXCURRENTADDR :: nat where "REG_LR_FIFORXCURRENTADDR = 0x10"
definition REG_LR_IRQFLAGSMASK :: nat where "REG_LR_IRQFLAGSMASK = 0x11"
definition REG_LR_IRQFLAGS :: nat where "REG_LR_IRQFLAGS = 0x12"
definition REG_LR_NBRXBYTES :: nat where "REG_LR_NBRXBYTES = 0x13"
definition REG_LR_PKTSNRVALUE :: nat where "REG_LR_PKTSNRVALUE = 0x19"
definition REG_LR_PKTRSSIVALUE :: nat where "REG_LR_PKTRSSIVALUE = 0x1A"
definition REG_LR_RSSIVALUE :: nat where "REG_LR_RSSIVALUE = 0x1B"
definition REG_LR_HOPCHANNEL :: nat where "REG_LR_HOPCHANNEL = 0x1C"
definition REG_LR_MODEMCONFIG1 :: nat where "REG_LR_MODEMCONFIG1 = 0x1D"
definition REG_LR_MODEMCONFIG2 :: nat where "REG_LR_MODEMCONFIG2 = 0x1E"
definition REG_LR_PREAMBLEMSB :: nat where "REG_LR_PREAMBLEMSB = 0x20"
definition REG_LR_PAYLOADLENGTH :: nat where "REG_LR_PAYLOADLENGTH = 0x22"
definition REG_LR_HOPPERIOD :: nat where "REG_LR_HOPPERIOD = 0x24"
definition REG_LR_MODEMCONFIG3 :: nat where "REG_LR_MODEMCONFIG3 = 0x26"
definition REG_LR_LORADETECTOPTIMIZE :: nat where "REG_LR_LORADETECTOPTIMIZE = 0x31"
definition REG_LR_DIOMAPPING1 :: nat where "REG_LR_DIOMAPPING1 = 0x40"
definition REG_LR_VERSION :: nat where "REG_LR_VERSION = 0x42"
definition REG_LR_PADAC :: nat where "REG_LR_PADAC = 0x4D"

lemmas reg_addr = REG_LR_OPMODE_def REG_LR_FRFMSB_def REG_LR_PACONFIG_def REG_LR_PARAMP_def REG_LR_LNA_def
  REG_LR_FIFOADDRPTR_def REG_LR_FIFOTXBASEADDR_def REG_LR_FIFORXCURRENTADDR_def REG_LR_IRQFLAGSMASK_def REG_LR_IRQFLAGS_def
  REG_LR_NBRXBYTES_def REG_LR_PKTSNRVALUE_def REG_LR_PKTRSSIVALUE_def REG_LR_RSSIVALUE_def REG_LR_HOPCHANNEL_def
  REG_LR_MODEMCONFIG1_def REG_LR_MODEMCONFIG2_def REG_LR_PREAMBLEMSB_def REG_LR_PAYLOADLENGTH_def REG_LR_HOPPERIOD_def
  REG_LR_MODEMCONFIG3_def REG_LR_LORADETECTOPTIMIZE_def REG_LR_DIOMAPPING1_def REG_LR_VERSION_def REG_LR_PADAC_def

text \<open>
  Offsets of the members of \<open>tSX1276LR\<close> in the copy \<open>SX1276Regs\<close>.  Up to 0x2A they are the addresses; the
  reserved arrays are each one byte short, so later members lie before their address.
\<close>

definition RegOpMode :: nat where "RegOpMode = 0x01"
definition RegFrfMsb :: nat where "RegFrfMsb = 0x06"
definition RegPaConfig :: nat where "RegPaConfig = 0x09"
definition RegPaRamp :: nat where "RegPaRamp = 0x0A"
definition RegLna :: nat where "RegLna = 0x0C"
definition RegFifoAddrPtr :: nat where "RegFifoAddrPtr = 0x0D"
definition RegFifoTxBaseAddr :: nat where "RegFifoTxBaseAddr = 0x0E"
definition RegFifoRxBaseAddr :: nat where "RegFifoRxBaseAddr = 0x0F"
definition RegFifoRxCurrentAddr :: nat where "RegFifoRxCurrentAddr = 0x10"
definition RegIrqFlagsMask :: nat where "RegIrqFlagsMask = 0x11"
definition RegIrqFlags :: nat where "RegIrqFlags = 0x12"
definition RegNbRxBytes :: nat where "RegNbRxBytes = 0x13"
definition RegPktRssiValue :: nat where "RegPktRssiValue = 0x1A"
definition RegRssiValue :: nat where "RegRssiValue = 0x1B"
definition RegHopChannel :: nat where "RegHopChannel = 0x1C"
definition RegModemConfig1 :: nat where "RegModemConfig1 = 0x1D"
definition RegModemConfig2 :: nat where "RegModemConfig2 = 0x1E"
definition RegPreambleMsb :: nat where "RegPreambleMsb = 0x20"
definition RegPayloadLength :: nat where "RegPayloadLength = 0x22"
definition RegHopPeriod :: nat where "RegHopPeriod = 0x24"
definition RegModemConfig3 :: nat where "RegModemConfig3 = 0x26"
definition RegDetectOptimize :: nat where "RegDetectOptimize = 0x30"
definition RegDioMapping1 :: nat where "RegDioMapping1 = 0x3D"
definition RegVersion :: nat where "RegVersion = 0x3F"
definition RegPaDac :: nat where "RegPaDac = 0x49"

lemmas reg_off = RegOpMode_def RegFrfMsb_def RegPaConfig_def RegPaRamp_def RegLna_def RegFifoAddrPtr_def RegFifoTxBaseAddr_def
  RegFifoRxBaseAddr_def RegFifoRxCurrentAddr_def RegIrqFlagsMask_def RegIrqFlags_def RegNbRxBytes_def RegPktRssiValue_def
  RegRssiValue_def RegHopChannel_def RegModemConfig1_def RegModemConfig2_def RegPreambleMsb_def RegPayloadLength_def
  RegHopPeriod_def RegModemConfig3_def RegDetectOptimize_def RegDioMapping1_def RegVersion_def RegPaDac_def

record tLoRaSettings =
  RFFrequency :: u32
  Power :: int
  SignalBw :: u8
  SpreadingFactor :: u8
  ErrorCoding :: u8
  CrcOn :: bool
  ImplicitHeaderOn :: bool
  RxSingleOn :: bool
  FreqHopOn :: bool
  HopPeriod :: u8
  TxPacketTimeout :: u32
  RxPacketTimeout :: u32
  PayloadLength :: u8

definition LoRaSettings_default :: tLoRaSettings where
  "LoRaSettings_default = \<lparr>RFFrequency = 480000000, Power = 20, SignalBw = 9, SpreadingFactor = 7, ErrorCoding = 2, CrcOn = True,
     ImplicitHeaderOn = False, RxSingleOn = True, FreqHopOn = False, HopPeriod = 4, TxPacketTimeout = 100, RxPacketTimeout = 100,
     PayloadLength = 128\<rparr>"

text \<open>The copy of the registers, the chip, the settings and the state of the antenna switch.\<close>

record sx1276 =
  Regs :: "nat \<Rightarrow> u8"
  Chip :: "nat \<Rightarrow> u8"
  LoRaSettings :: tLoRaSettings
  antennaSwitchTxOnPrev :: bool
  LoRaOn :: bool
  LoRaOnState :: bool

section \<open>Register access\<close>

text \<open>A burst goes to consecutive addresses.\<close>

definition SX1276WriteBuffer :: "nat \<Rightarrow> nat \<Rightarrow> nat \<Rightarrow> sx1276 \<Rightarrow> sx1276" where
  "SX1276WriteBuffer addr off n s =
     s\<lparr>Chip := (\<lambda>a. if addr \<le> a \<and> a < addr + n then Regs s (off + (a - addr)) else Chip s a)\<rparr>"

definition SX1276ReadBuffer :: "nat \<Rightarrow> nat \<Rightarrow> nat \<Rightarrow> sx1276 \<Rightarrow> sx1276" where
  "SX1276ReadBuffer addr off n s =
     s\<lparr>Regs := (\<lambda>a. if off \<le> a \<and> a < off + n then Chip s (addr + (a - off)) else Regs s a)\<rparr>"

definition SX1276Write :: "nat \<Rightarrow> u8 \<Rightarrow> sx1276 \<Rightarrow> sx1276" where
  "SX1276Write addr d s = s\<lparr>Chip := (Chip s)(addr := d)\<rparr>"

definition SX1276Read :: "nat \<Rightarrow> nat \<Rightarrow> sx1276 \<Rightarrow> sx1276" where
  "SX1276Read addr off s = s\<lparr>Regs := (Regs s)(off := Chip s addr)\<rparr>"

definition put_reg :: "nat \<Rightarrow> u8 \<Rightarrow> sx1276 \<Rightarrow> sx1276" where
  "put_reg off v s = s\<lparr>Regs := (Regs s)(off := v)\<rparr>"

text \<open>Read a register into its copy, change the copy, write it back.\<close>

definition modify_reg :: "nat \<Rightarrow> nat \<Rightarrow> (u8 \<Rightarrow> u8) \<Rightarrow> sx1276 \<Rightarrow> sx1276" where
  "modify_reg addr off f s =
     (let s1 = SX1276Read addr off s; s2 = put_reg off (f (Regs s1 off)) s1
      in SX1276Write addr (Regs s2 off) s2)"

definition upd_settings :: "(tLoRaSettings \<Rightarrow> tLoRaSettings) \<Rightarrow> sx1276 \<Rightarrow> sx1276" where
  "upd_settings f s = s\<lparr>LoRaSettings := f (LoRaSettings s)\<rparr>"

section \<open>Frequency and power\<close>

text \<open>
  \<open>FREQ_STEP\<close> is 15625/256, which a \<open>double\<close> represents exactly.  A quotient that is not a whole number is
  at least 1/15625 away from one, so the truncated \<open>double\<close> quotient and product are these integer ones.
\<close>

definition SX1276LoRaSetRFFrequency :: "u32 \<Rightarrow> sx1276 \<Rightarrow> sx1276" where
  "SX1276LoRaSetRFFrequency freq s =
     (let s1 = upd_settings (\<lambda>c. c\<lparr>RFFrequency := freq\<rparr>) s;
          f = of_nat (unat freq * 256 div 15625) :: u32;
          s2 = put_reg (RegFrfMsb + 2) (ucast f) (put_reg (RegFrfMsb + 1) (ucast (drop_bit 8 f)) (put_reg RegFrfMsb (ucast (drop_bit 16 f)) s1))
      in SX1276WriteBuffer REG_LR_FRFMSB RegFrfMsb 3 s2)"

definition SX1276LoRaGetRFFrequency :: "sx1276 \<Rightarrow> u32 \<times> sx1276" where
  "SX1276LoRaGetRFFrequency s =
     (let s1 = SX1276ReadBuffer REG_LR_FRFMSB RegFrfMsb 3 s;
          f = push_bit 16 (ucast (Regs s1 RegFrfMsb)) OR push_bit 8 (ucast (Regs s1 (RegFrfMsb + 1))) OR ucast (Regs s1 (RegFrfMsb + 2)) :: u32;
          g = of_nat (unat f * 15625 div 256) :: u32
      in (g, upd_settings (\<lambda>c. c\<lparr>RFFrequency := g\<rparr>) s1))"

definition power_bits :: "int \<Rightarrow> u8 \<Rightarrow> u8" where
  "power_bits p r = (((r AND 0x8F) OR 0x70) AND 0xF0) OR (word_of_int p AND 0x0F)"

definition clamp :: "int \<Rightarrow> int \<Rightarrow> int \<Rightarrow> int" where
  "clamp lo hi p = (if p < lo then lo else if p > hi then hi else p)"

definition SX1276LoRaSetRFPower :: "int \<Rightarrow> sx1276 \<Rightarrow> sx1276" where
  "SX1276LoRaSetRFPower pw s =
     (let s1 = SX1276Read REG_LR_PADAC RegPaDac (SX1276Read REG_LR_PACONFIG RegPaConfig s);
          (p, base) =
            (if Regs s1 RegPaConfig AND 0x80 = 0x80 then
               (if Regs s1 RegPaDac AND 0x87 = 0x87 then (clamp 5 20 pw, -5) else (clamp 2 17 pw, -2))
             else (clamp (-1) 14 pw, 1));
          s2 = put_reg RegPaConfig (power_bits (p + base) (Regs s1 RegPaConfig)) s1
      in upd_settings (\<lambda>c. c\<lparr>Power := p\<rparr>) (SX1276Write REG_LR_PACONFIG (Regs s2 RegPaConfig) s2))"

definition SX1276LoRaGetRFPower :: "sx1276 \<Rightarrow> int \<times> sx1276" where
  "SX1276LoRaGetRFPower s =
     (let s1 = SX1276Read REG_LR_PADAC RegPaDac (SX1276Read REG_LR_PACONFIG RegPaConfig s);
          v = uint (Regs s1 RegPaConfig AND 0x0F);
          p = (if Regs s1 RegPaConfig AND 0x80 = 0x80 then (if Regs s1 RegPaDac AND 0x07 = 0x07 then 5 + v else 2 + v) else -1 + v)
      in (p, upd_settings (\<lambda>c. c\<lparr>Power := p\<rparr>) s1))"

section \<open>Modem configuration\<close>

definition SX1276LoRaSetSignalBandwidth :: "u8 \<Rightarrow> sx1276 \<Rightarrow> sx1276" where
  "SX1276LoRaSetSignalBandwidth bw s =
     upd_settings (\<lambda>c. c\<lparr>SignalBw := bw\<rparr>) (modify_reg REG_LR_MODEMCONFIG1 RegModemConfig1 (\<lambda>r. (r AND 0x0F) OR push_bit 4 bw) s)"

definition SX1276LoRaGetSignalBandwidth :: "sx1276 \<Rightarrow> u8 \<times> sx1276" where
  "SX1276LoRaGetSignalBandwidth s =
     (let s1 = SX1276Read REG_LR_MODEMCONFIG1 RegModemConfig1 s; v = drop_bit 4 (Regs s1 RegModemConfig1 AND 0xF0)
      in (v, upd_settings (\<lambda>c. c\<lparr>SignalBw := v\<rparr>) s1))"

definition SX1276LoRaSetNbTrigPeaks :: "u8 \<Rightarrow> sx1276 \<Rightarrow> sx1276" where
  "SX1276LoRaSetNbTrigPeaks v s = modify_reg 0x31 RegDetectOptimize (\<lambda>r. (r AND 0xF8) OR v) s"

definition SX1276LoRaGetNbTrigPeaks :: "sx1276 \<Rightarrow> u8 \<times> sx1276" where
  "SX1276LoRaGetNbTrigPeaks s = (let s1 = SX1276Read 0x31 RegDetectOptimize s in (Regs s1 RegDetectOptimize AND 0x07, s1))"

definition SX1276LoRaSetSpreadingFactor :: "u8 \<Rightarrow> sx1276 \<Rightarrow> sx1276" where
  "SX1276LoRaSetSpreadingFactor factor s =
     (let f = (if factor > 12 then 12 else if factor < 6 then 6 else factor);
          s1 = (if f = 6 then SX1276LoRaSetNbTrigPeaks 5 s else SX1276LoRaSetNbTrigPeaks 3 s)
      in upd_settings (\<lambda>c. c\<lparr>SpreadingFactor := f\<rparr>) (modify_reg REG_LR_MODEMCONFIG2 RegModemConfig2 (\<lambda>r. (r AND 0x0F) OR push_bit 4 f) s1))"

definition SX1276LoRaGetSpreadingFactor :: "sx1276 \<Rightarrow> u8 \<times> sx1276" where
  "SX1276LoRaGetSpreadingFactor s =
     (let s1 = SX1276Read REG_LR_MODEMCONFIG2 RegModemConfig2 s; v = drop_bit 4 (Regs s1 RegModemConfig2 AND 0xF0)
      in (v, upd_settings (\<lambda>c. c\<lparr>SpreadingFactor := v\<rparr>) s1))"

definition SX1276LoRaSetErrorCoding :: "u8 \<Rightarrow> sx1276 \<Rightarrow> sx1276" where
  "SX1276LoRaSetErrorCoding v s =
     upd_settings (\<lambda>c. c\<lparr>ErrorCoding := v\<rparr>) (modify_reg REG_LR_MODEMCONFIG1 RegModemConfig1 (\<lambda>r. (r AND 0xF1) OR push_bit 1 v) s)"

definition SX1276LoRaGetErrorCoding :: "sx1276 \<Rightarrow> u8 \<times> sx1276" where
  "SX1276LoRaGetErrorCoding s =
     (let s1 = SX1276Read REG_LR_MODEMCONFIG1 RegModemConfig1 s; v = drop_bit 1 (Regs s1 RegModemConfig1 AND 0x0E)
      in (v, upd_settings (\<lambda>c. c\<lparr>ErrorCoding := v\<rparr>) s1))"

definition SX1276LoRaSetPacketCrcOn :: "bool \<Rightarrow> sx1276 \<Rightarrow> sx1276" where
  "SX1276LoRaSetPacketCrcOn enable s =
     upd_settings (\<lambda>c. c\<lparr>CrcOn := enable\<rparr>)
       (modify_reg REG_LR_MODEMCONFIG2 RegModemConfig2 (\<lambda>r. (r AND 0xFB) OR push_bit 2 (of_bool enable)) s)"

definition SX1276LoRaGetPacketCrcOn :: "sx1276 \<Rightarrow> bool \<times> sx1276" where
  "SX1276LoRaGetPacketCrcOn s =
     (let s1 = SX1276Read REG_LR_MODEMCONFIG2 RegModemConfig2 s; v = (drop_bit 1 (Regs s1 RegModemConfig2 AND 0x04) \<noteq> 0)
      in (v, upd_settings (\<lambda>c. c\<lparr>CrcOn := v\<rparr>) s1))"

definition SX1276LoRaSetPreambleLength :: "u16 \<Rightarrow> sx1276 \<Rightarrow> sx1276" where
  "SX1276LoRaSetPreambleLength v s =
     (let s1 = SX1276ReadBuffer REG_LR_PREAMBLEMSB RegPreambleMsb 2 s;
          s2 = put_reg (RegPreambleMsb + 1) (ucast v) (put_reg RegPreambleMsb (ucast (drop_bit 8 v)) s1)
      in SX1276WriteBuffer REG_LR_PREAMBLEMSB RegPreambleMsb 2 s2)"

definition SX1276LoRaGetPreambleLength :: "sx1276 \<Rightarrow> u16 \<times> sx1276" where
  "SX1276LoRaGetPreambleLength s =
     (let s1 = SX1276ReadBuffer REG_LR_PREAMBLEMSB RegPreambleMsb 2 s
      in (push_bit 8 (ucast (Regs s1 RegPreambleMsb)) OR ucast (Regs s1 (RegPreambleMsb + 1)), s1))"

definition SX1276LoRaSetImplicitHeaderOn :: "bool \<Rightarrow> sx1276 \<Rightarrow> sx1276" where
  "SX1276LoRaSetImplicitHeaderOn enable s =
     upd_settings (\<lambda>c. c\<lparr>ImplicitHeaderOn := enable\<rparr>)
       (modify_reg REG_LR_MODEMCONFIG1 RegModemConfig1 (\<lambda>r. (r AND 0xFE) OR of_bool enable) s)"

definition SX1276LoRaGetImplicitHeaderOn :: "sx1276 \<Rightarrow> bool \<times> sx1276" where
  "SX1276LoRaGetImplicitHeaderOn s =
     (let s1 = SX1276Read REG_LR_MODEMCONFIG1 RegModemConfig1 s; v = (Regs s1 RegModemConfig1 AND 0x01 \<noteq> 0)
      in (v, upd_settings (\<lambda>c. c\<lparr>ImplicitHeaderOn := v\<rparr>) s1))"

definition SX1276LoRaSetHopPeriod :: "u8 \<Rightarrow> sx1276 \<Rightarrow> sx1276" where
  "SX1276LoRaSetHopPeriod v s =
     upd_settings (\<lambda>c. c\<lparr>HopPeriod := v\<rparr>) (SX1276Write REG_LR_HOPPERIOD v (put_reg RegHopPeriod v s))"

definition SX1276LoRaGetHopPeriod :: "sx1276 \<Rightarrow> u8 \<times> sx1276" where
  "SX1276LoRaGetHopPeriod s =
     (let s1 = SX1276Read REG_LR_HOPPERIOD RegHopPeriod s; v = Regs s1 RegHopPeriod
      in (v, upd_settings (\<lambda>c. c\<lparr>HopPeriod := v\<rparr>) s1))"

definition SX1276LoRaSetPayloadLength :: "u8 \<Rightarrow> sx1276 \<Rightarrow> sx1276" where
  "SX1276LoRaSetPayloadLength v s =
     upd_settings (\<lambda>c. c\<lparr>PayloadLength := v\<rparr>) (SX1276Write REG_LR_PAYLOADLENGTH v (put_reg RegPayloadLength v s))"

definition SX1276LoRaGetPayloadLength :: "sx1276 \<Rightarrow> u8 \<times> sx1276" where
  "SX1276LoRaGetPayloadLength s =
     (let s1 = SX1276Read REG_LR_PAYLOADLENGTH RegPayloadLength s; v = Regs s1 RegPayloadLength
      in (v, upd_settings (\<lambda>c. c\<lparr>PayloadLength := v\<rparr>) s1))"

definition SX1276LoRaSetPa20dBm :: "bool \<Rightarrow> sx1276 \<Rightarrow> sx1276" where
  "SX1276LoRaSetPa20dBm enale s =
     (let s1 = SX1276Read REG_LR_PACONFIG RegPaConfig (SX1276Read REG_LR_PADAC RegPaDac s);
          s2 = (if Regs s1 RegPaConfig AND 0x80 = 0x80 then (if enale then put_reg RegPaDac 0x87 s1 else s1)
                else put_reg RegPaDac 0x84 s1)
      in SX1276Write REG_LR_PADAC (Regs s2 RegPaDac) s2)"

definition SX1276LoRaGetPa20dBm :: "sx1276 \<Rightarrow> bool \<times> sx1276" where
  "SX1276LoRaGetPa20dBm s = (let s1 = SX1276Read REG_LR_PADAC RegPaDac s in (Regs s1 RegPaDac AND 0x07 = 0x07, s1))"

definition SX1276LoRaSetPAOutput :: "u8 \<Rightarrow> sx1276 \<Rightarrow> sx1276" where
  "SX1276LoRaSetPAOutput outputPin s = modify_reg REG_LR_PACONFIG RegPaConfig (\<lambda>r. (r AND 0x7F) OR outputPin) s"

definition SX1276LoRaGetPAOutput :: "sx1276 \<Rightarrow> u8 \<times> sx1276" where
  "SX1276LoRaGetPAOutput s = (let s1 = SX1276Read REG_LR_PACONFIG RegPaConfig s in (Regs s1 RegPaConfig AND 0x80, s1))"

definition SX1276LoRaSetPaRamp :: "u8 \<Rightarrow> sx1276 \<Rightarrow> sx1276" where
  "SX1276LoRaSetPaRamp v s = modify_reg REG_LR_PARAMP RegPaRamp (\<lambda>r. (r AND 0xF0) OR (v AND 0x0F)) s"

definition SX1276LoRaGetPaRamp :: "sx1276 \<Rightarrow> u8 \<times> sx1276" where
  "SX1276LoRaGetPaRamp s = (let s1 = SX1276Read REG_LR_PARAMP RegPaRamp s in (Regs s1 RegPaRamp AND 0x0F, s1))"

definition SX1276LoRaSetSymbTimeout :: "u16 \<Rightarrow> sx1276 \<Rightarrow> sx1276" where
  "SX1276LoRaSetSymbTimeout v s =
     (let s1 = SX1276ReadBuffer REG_LR_MODEMCONFIG2 RegModemConfig2 2 s;
          s2 = put_reg RegModemConfig2 ((Regs s1 RegModemConfig2 AND 0xFC) OR (ucast (drop_bit 8 v) AND 0x03)) s1;
          s3 = put_reg (RegModemConfig2 + 1) (ucast v) s2
      in SX1276WriteBuffer REG_LR_MODEMCONFIG2 RegModemConfig2 2 s3)"

definition SX1276LoRaGetSymbTimeout :: "sx1276 \<Rightarrow> u16 \<times> sx1276" where
  "SX1276LoRaGetSymbTimeout s =
     (let s1 = SX1276ReadBuffer REG_LR_MODEMCONFIG2 RegModemConfig2 2 s
      in (push_bit 8 (ucast (Regs s1 RegModemConfig2 AND 0x03)) OR ucast (Regs s1 (RegModemConfig2 + 1)), s1))"

definition SX1276LoRaSetLowDatarateOptimize :: "bool \<Rightarrow> sx1276 \<Rightarrow> sx1276" where
  "SX1276LoRaSetLowDatarateOptimize enable s =
     modify_reg REG_LR_MODEMCONFIG3 RegModemConfig3 (\<lambda>r. (r AND 0xF7) OR push_bit 3 (of_bool enable)) s"

definition SX1276LoRaGetLowDatarateOptimize :: "sx1276 \<Rightarrow> bool \<times> sx1276" where
  "SX1276LoRaGetLowDatarateOptimize s =
     (let s1 = SX1276Read REG_LR_MODEMCONFIG3 RegModemConfig3 s in (drop_bit 3 (Regs s1 RegModemConfig3 AND 0x08) \<noteq> 0, s1))"

text \<open>Settings that only concern the driver.\<close>

definition SX1276LoRaSetRxSingleOn :: "bool \<Rightarrow> sx1276 \<Rightarrow> sx1276" where
  "SX1276LoRaSetRxSingleOn enable = upd_settings (\<lambda>c. c\<lparr>RxSingleOn := enable\<rparr>)"

definition SX1276LoRaGetRxSingleOn :: "sx1276 \<Rightarrow> bool" where
  "SX1276LoRaGetRxSingleOn s = RxSingleOn (LoRaSettings s)"

definition SX1276LoRaSetFreqHopOn :: "bool \<Rightarrow> sx1276 \<Rightarrow> sx1276" where
  "SX1276LoRaSetFreqHopOn enable = upd_settings (\<lambda>c. c\<lparr>FreqHopOn := enable\<rparr>)"

definition SX1276LoRaGetFreqHopOn :: "sx1276 \<Rightarrow> bool" where
  "SX1276LoRaGetFreqHopOn s = FreqHopOn (LoRaSettings s)"

definition SX1276LoRaSetTxPacketTimeout :: "u32 \<Rightarrow> sx1276 \<Rightarrow> sx1276" where
  "SX1276LoRaSetTxPacketTimeout v = upd_settings (\<lambda>c. c\<lparr>TxPacketTimeout := v\<rparr>)"

definition SX1276LoRaGetTxPacketTimeout :: "sx1276 \<Rightarrow> u32" where
  "SX1276LoRaGetTxPacketTimeout s = TxPacketTimeout (LoRaSettings s)"

definition SX1276LoRaSetRxPacketTimeout :: "u32 \<Rightarrow> sx1276 \<Rightarrow> sx1276" where
  "SX1276LoRaSetRxPacketTimeout v = upd_settings (\<lambda>c. c\<lparr>RxPacketTimeout := v\<rparr>)"

definition SX1276LoRaGetRxPacketTimeout :: "sx1276 \<Rightarrow> u32" where
  "SX1276LoRaGetRxPacketTimeout s = RxPacketTimeout (LoRaSettings s)"

section \<open>Operating mode and initialisation\<close>

text \<open>The calls of \<open>RXTX\<close> are returned.\<close>

definition SX1276LoRaSetOpMode :: "u8 \<Rightarrow> sx1276 \<Rightarrow> sx1276 \<times> bool list" where
  "SX1276LoRaSetOpMode opMode s =
     (if opMode \<noteq> Regs s RegOpMode AND 0x07 then
        (let on = (opMode = 0x03);
             sw = (on \<noteq> antennaSwitchTxOnPrev s);
             s1 = s\<lparr>antennaSwitchTxOnPrev := if sw then on else antennaSwitchTxOnPrev s\<rparr>;
             s2 = put_reg RegOpMode ((Regs s1 RegOpMode AND 0xF8) OR opMode) s1
         in (SX1276Write REG_LR_OPMODE (Regs s2 RegOpMode) s2, if sw then [on] else []))
      else (s, []))"

definition SX1276LoRaGetOpMode :: "sx1276 \<Rightarrow> u8 \<times> sx1276" where
  "SX1276LoRaGetOpMode s = (let s1 = SX1276Read REG_LR_OPMODE RegOpMode s in (Regs s1 RegOpMode AND 0x07, s1))"

definition SX1276LoRaReadRxGain :: "sx1276 \<Rightarrow> u8 \<times> sx1276" where
  "SX1276LoRaReadRxGain s = (let s1 = SX1276Read REG_LR_LNA RegLna s in (drop_bit 5 (Regs s1 RegLna) AND 0x07, s1))"

definition SX1276LoRaSetDefaults :: "sx1276 \<Rightarrow> sx1276" where
  "SX1276LoRaSetDefaults s = SX1276Read REG_LR_VERSION RegVersion s"

text \<open>The board has the module SX1276RF1KAS.\<close>

definition lora_power :: "sx1276 \<Rightarrow> sx1276" where
  "lora_power s =
     (let (pin, boost, p) = (if RFFrequency (LoRaSettings s) > 860000000 then (0x00, False, 14) else (0x80, True, 20));
          s1 = SX1276LoRaSetPa20dBm boost (SX1276LoRaSetPAOutput pin s);
          s2 = upd_settings (\<lambda>c. c\<lparr>Power := p\<rparr>) s1
      in SX1276LoRaSetRFPower (Power (LoRaSettings s2)) s2)"

definition SX1276LoRaInit :: "sx1276 \<Rightarrow> sx1276 \<times> bool list" where
  "SX1276LoRaInit s0 =
     (let s1 = SX1276ReadBuffer REG_LR_OPMODE 1 (0x70 - 1) (SX1276LoRaSetDefaults s0);
          s2 = SX1276WriteBuffer REG_LR_OPMODE 1 (0x70 - 1) (put_reg RegLna 0x20 s1);
          s3 = SX1276LoRaSetRFFrequency (RFFrequency (LoRaSettings s2)) s2;
          s4 = SX1276LoRaSetSpreadingFactor (SpreadingFactor (LoRaSettings s3)) s3;
          s5 = SX1276LoRaSetErrorCoding (ErrorCoding (LoRaSettings s4)) s4;
          s6 = SX1276LoRaSetPacketCrcOn (CrcOn (LoRaSettings s5)) s5;
          s7 = SX1276LoRaSetSignalBandwidth (SignalBw (LoRaSettings s6)) s6;
          s8 = SX1276LoRaSetImplicitHeaderOn (ImplicitHeaderOn (LoRaSettings s7)) s7;
          s9 = SX1276LoRaSetSymbTimeout 0x3FF s8;
          s10 = SX1276LoRaSetPayloadLength (PayloadLength (LoRaSettings s9)) s9;
          s11 = SX1276LoRaSetLowDatarateOptimize True s10
      in SX1276LoRaSetOpMode 0x01 (lora_power s11))"

definition SX1276SetLoRaOn :: "bool \<Rightarrow> sx1276 \<Rightarrow> sx1276 \<times> bool list" where
  "SX1276SetLoRaOn enable s =
     (if LoRaOnState s = enable then (s, [])
      else
        (let s1 = s\<lparr>LoRaOnState := enable, LoRaOn := enable\<rparr>;
             (s2, a) = SX1276LoRaSetOpMode 0x00 s1;
             s3 = put_reg RegOpMode ((Regs s2 RegOpMode AND 0x7F) OR (if enable then 0x80 else 0x00)) s2;
             s4 = SX1276Write REG_LR_OPMODE (Regs s3 RegOpMode) s3;
             (s5, b) = SX1276LoRaSetOpMode 0x01 s4;
             s6 = (if enable then SX1276WriteBuffer REG_LR_DIOMAPPING1 RegDioMapping1 2 (put_reg (RegDioMapping1 + 1) 0 (put_reg RegDioMapping1 0 s5)) else s5)
         in (SX1276ReadBuffer REG_LR_OPMODE 1 (0x70 - 1) s6, a @ b)))"

end
