(* ===== verification/Sx1276_Config.thy ===== *)
theory Sx1276_Config
  imports Sx1276
begin

text \<open>
  The configuration of the LoRa modem.  \<open>view\<close> reads the registers of the chip as the settings they encode;
  each setter of \<open>sx1276-LoRaMisc.c\<close> refines the update of one field of that record, each getter the reading of
  one.  The interface of a setting is the locale \<open>modem_setting\<close>, interpreted for ten pairs of setter and getter.
\<close>

section \<open>Bits of a byte\<close>

lemma u8_bits_eq: "(a::u8) = b \<longleftrightarrow> bit a 0 = bit b 0 \<and> bit a 1 = bit b 1 \<and> bit a 2 = bit b 2 \<and> bit a 3 = bit b 3 \<and>
   bit a 4 = bit b 4 \<and> bit a 5 = bit b 5 \<and> bit a 6 = bit b 6 \<and> bit a 7 = bit b 7" (is "_ \<longleftrightarrow> ?bits")
proof
  assume *: ?bits
  show "a = b"
  proof (rule bit_word_eqI)
    fix n assume "n < LENGTH(8)"
    then have "n < 8" by simp
    then have "n = 0 \<or> n = 1 \<or> n = 2 \<or> n = 3 \<or> n = 4 \<or> n = 5 \<or> n = 6 \<or> n = 7" by linarith
    with * show "bit a n = bit b n" by auto
  qed
qed simp

lemma u8_small:
  assumes "v < (16 :: u8)"
  shows "\<not> bit v 4" "\<not> bit v 5" "\<not> bit v 6" "\<not> bit v 7"
proof -
  have "unat v \<in> set [0..<16]" using assms by (simp add: word_less_nat_alt)
  moreover have "\<forall>n \<in> set [0..<16]. \<not> bit (of_nat n::u8) 4 \<and> \<not> bit (of_nat n::u8) 5 \<and> \<not> bit (of_nat n::u8) 6 \<and> \<not> bit (of_nat n::u8) 7"
    by code_simp
  ultimately have "\<not> bit (of_nat (unat v) :: u8) 4 \<and> \<not> bit (of_nat (unat v) :: u8) 5 \<and> \<not> bit (of_nat (unat v) :: u8) 6 \<and> \<not> bit (of_nat (unat v) :: u8) 7"
    by (rule bspec [rotated])
  then show "\<not> bit v 4" "\<not> bit v 5" "\<not> bit v 6" "\<not> bit v 7" by simp_all
qed

lemma u8_small3: "v < (8 :: u8) \<Longrightarrow> \<not> bit v 3"
proof -
  assume "v < 8"
  then have "unat v \<in> set [0..<8]" by (simp add: word_less_nat_alt)
  moreover have "\<forall>n \<in> set [0..<8]. \<not> bit (of_nat n::u8) 3" by code_simp
  ultimately have "\<not> bit (of_nat (unat v) :: u8) 3" by (rule bspec [rotated])
  then show ?thesis by simp
qed

section \<open>The configuration the chip holds\<close>

record modem =
  m_mode :: u8
  m_frf :: u32
  m_boost :: bool
  m_power :: u8
  m_ramp :: u8
  m_bw :: u8
  m_cr :: u8
  m_implicit :: bool
  m_sf :: u8
  m_crc :: bool
  m_symb :: u16
  m_preamble :: u16
  m_payload :: u8
  m_hop :: u8
  m_lowrate :: bool
  m_peaks :: u8
  m_dac :: u8

definition view :: "(nat \<Rightarrow> u8) \<Rightarrow> modem" where
  "view c = \<lparr>m_mode = c 0x01 AND 0x07,
     m_frf = push_bit 16 (ucast (c 0x06)) OR push_bit 8 (ucast (c 0x07)) OR ucast (c 0x08),
     m_boost = (c 0x09 AND 0x80 = 0x80), m_power = c 0x09 AND 0x0F, m_ramp = c 0x0A AND 0x0F,
     m_bw = drop_bit 4 (c 0x1D AND 0xF0), m_cr = drop_bit 1 (c 0x1D AND 0x0E), m_implicit = bit (c 0x1D) 0,
     m_sf = drop_bit 4 (c 0x1E AND 0xF0), m_crc = bit (c 0x1E) 2,
     m_symb = push_bit 8 (ucast (c 0x1E AND 0x03)) OR ucast (c 0x1F),
     m_preamble = push_bit 8 (ucast (c 0x20)) OR ucast (c 0x21),
     m_payload = c 0x22, m_hop = c 0x24, m_lowrate = bit (c 0x26) 3, m_peaks = c 0x31 AND 0x07, m_dac = c 0x4D\<rparr>"

abbreviation modem_of :: "sx1276 \<Rightarrow> modem" where "modem_of s \<equiv> view (Chip s)"

lemma Chip_simps [simp]:
  "Chip (SX1276Read a k s) = Chip s" "Chip (SX1276ReadBuffer a k n s) = Chip s" "Chip (put_reg k v s) = Chip s"
  "Chip (upd_settings f s) = Chip s" "Chip (SX1276Write a v s) = (Chip s)(a := v)"
  "Chip (modify_reg a k g s) = (Chip s)(a := g (Chip s a))"
  by (simp_all add: SX1276Read_def SX1276ReadBuffer_def put_reg_def upd_settings_def SX1276Write_def modify_reg_def)

lemma Regs_simps [simp]:
  "Regs (SX1276Read a k s) = (Regs s)(k := Chip s a)" "Regs (put_reg k v s) = (Regs s)(k := v)"
  "Regs (upd_settings f s) = Regs s" "Regs (SX1276Write a v s) = Regs s"
  by (simp_all add: SX1276Read_def put_reg_def upd_settings_def SX1276Write_def)

lemma burst2: "SX1276WriteBuffer a k 2 s = s\<lparr>Chip := (Chip s)(a := Regs s k, Suc a := Regs s (Suc k))\<rparr>"
  by (auto simp: SX1276WriteBuffer_def fun_eq_iff less_Suc_eq numeral_2_eq_2)

lemma burst3: "SX1276WriteBuffer a k 3 s = s\<lparr>Chip := (Chip s)(a := Regs s k, Suc a := Regs s (Suc k), Suc (Suc a) := Regs s (Suc (Suc k)))\<rparr>"
  by (auto simp: SX1276WriteBuffer_def fun_eq_iff less_Suc_eq numeral_3_eq_3)

lemma bit_times2: "bit (v * 2 :: u8) n \<longleftrightarrow> 0 < n \<and> n < 8 \<and> bit v (n - 1)"
  by (auto simp: mult.commute [of v] bit_double_iff possible_bit_word)

lemma low2_kept: "((r AND 0xFB) OR push_bit 2 (of_bool e)) AND 0x03 = r AND (0x03 :: u8)" "((r AND 0x0F) OR push_bit 4 v) AND 0x03 = r AND (0x03 :: u8)"
  by (simp_all add: u8_bits_eq bit_simps)

lemmas setter_simps = bit_times2 reg_addr reg_off view_def u8_bits_eq bit_simps u8_small u8_small3

lemma set_bw: "v < 16 \<Longrightarrow> modem_of (SX1276LoRaSetSignalBandwidth v s) = (modem_of s)\<lparr>m_bw := v\<rparr>"
  by (simp add: SX1276LoRaSetSignalBandwidth_def setter_simps)

lemma set_cr:
  assumes "v < 8"
  shows "modem_of (SX1276LoRaSetErrorCoding v s) = (modem_of s)\<lparr>m_cr := v\<rparr>"
proof -
  have "v < 16" using assms by (simp add: word_less_nat_alt)
  then show ?thesis using assms by (simp add: SX1276LoRaSetErrorCoding_def setter_simps numeral_2_eq_2)
qed

lemma set_implicit: "modem_of (SX1276LoRaSetImplicitHeaderOn e s) = (modem_of s)\<lparr>m_implicit := e\<rparr>"
  by (simp add: SX1276LoRaSetImplicitHeaderOn_def setter_simps)

lemma set_crc: "modem_of (SX1276LoRaSetPacketCrcOn e s) = (modem_of s)\<lparr>m_crc := e\<rparr>"
  by (simp add: SX1276LoRaSetPacketCrcOn_def reg_addr reg_off view_def low2_kept) (simp add: u8_bits_eq bit_simps)

lemma set_lowrate: "modem_of (SX1276LoRaSetLowDatarateOptimize e s) = (modem_of s)\<lparr>m_lowrate := e\<rparr>"
  by (simp add: SX1276LoRaSetLowDatarateOptimize_def setter_simps)

lemma set_hop: "modem_of (SX1276LoRaSetHopPeriod v s) = (modem_of s)\<lparr>m_hop := v\<rparr>"
  by (simp add: SX1276LoRaSetHopPeriod_def reg_addr reg_off view_def)

lemma set_payload: "modem_of (SX1276LoRaSetPayloadLength v s) = (modem_of s)\<lparr>m_payload := v\<rparr>"
  by (simp add: SX1276LoRaSetPayloadLength_def reg_addr reg_off view_def)

lemma set_ramp: "modem_of (SX1276LoRaSetPaRamp v s) = (modem_of s)\<lparr>m_ramp := v AND 0x0F\<rparr>"
  by (simp add: SX1276LoRaSetPaRamp_def setter_simps)

lemma set_peaks: "v \<in> {3, 5} \<Longrightarrow> modem_of (SX1276LoRaSetNbTrigPeaks v s) = (modem_of s)\<lparr>m_peaks := v\<rparr>"
  by (auto simp: SX1276LoRaSetNbTrigPeaks_def setter_simps)

definition sf_clamp :: "u8 \<Rightarrow> u8" where
  "sf_clamp v = (if v > 12 then 12 else if v < 6 then 6 else v)"

lemma sf_clamp_lt: "sf_clamp v < 16"
  by (auto simp: sf_clamp_def word_less_nat_alt)

lemma set_sf: "modem_of (SX1276LoRaSetSpreadingFactor v s) = (modem_of s)\<lparr>m_sf := sf_clamp v, m_peaks := if sf_clamp v = 6 then 5 else 3\<rparr>"
proof -
  let ?f = "sf_clamp v" let ?s = "SX1276LoRaSetNbTrigPeaks (if ?f = 6 then 5 else 3) s"
  have "SX1276LoRaSetSpreadingFactor v s =
      upd_settings (\<lambda>c. c\<lparr>SpreadingFactor := ?f\<rparr>) (modify_reg REG_LR_MODEMCONFIG2 RegModemConfig2 (\<lambda>r. (r AND 0x0F) OR push_bit 4 ?f) ?s)"
    by (simp add: SX1276LoRaSetSpreadingFactor_def sf_clamp_def Let_def)
  moreover have "view ((Chip ?s)(0x1E := (Chip ?s 0x1E AND 0x0F) OR push_bit 4 ?f)) = (modem_of ?s)\<lparr>m_sf := ?f\<rparr>"
    using sf_clamp_lt [of v] by (simp add: view_def low2_kept) (simp add: u8_bits_eq bit_simps u8_small)
  moreover have "modem_of ?s = (modem_of s)\<lparr>m_peaks := if ?f = 6 then 5 else 3\<rparr>" by (rule set_peaks) simp
  ultimately show ?thesis by (simp add: reg_addr)
qed

lemma set_preamble: "modem_of (SX1276LoRaSetPreambleLength v s) = (modem_of s)\<lparr>m_preamble := v\<rparr>"
proof -
  have "push_bit 8 (ucast (ucast (drop_bit 8 v) :: u8)) OR ucast (ucast v :: u8) = v"
    by (rule bit_word_eqI) (auto simp: bit_simps)
  then show ?thesis by (simp add: SX1276LoRaSetPreambleLength_def burst2 reg_addr reg_off view_def Let_def)
qed

lemma word_upper_bits: "unat (v :: 'a::len word) < 2 ^ k \<Longrightarrow> bit v n \<Longrightarrow> n < k"
proof -
  assume "unat v < 2 ^ k" "bit v n"
  then have "take_bit k v = v" by (simp add: word_unat_eq_iff unsigned_take_bit_eq take_bit_nat_eq_self)
  with \<open>bit v n\<close> show "n < k" by (metis bit_take_bit_iff)
qed

lemma set_symb:
  assumes "v < 0x400"
  shows "modem_of (SX1276LoRaSetSymbTimeout v s) = (modem_of s)\<lparr>m_symb := v\<rparr>"
proof -
  have v: "bit v n \<Longrightarrow> n < 10" for n using assms word_upper_bits [of v 10 n] by (simp add: word_less_nat_alt)
  have low: "((r AND 0xFC) OR (x AND 0x03)) AND 0x03 = take_bit 2 (x :: u8)" for r x
    by (simp add: u8_bits_eq bit_simps)
  have hi: "drop_bit 4 (((r AND 0xFC) OR (x AND 0x03)) AND 0xF0) = drop_bit 4 (r AND 0xF0)"
    "bit ((r AND 0xFC) OR (x AND 0x03)) 2 = bit r 2" for r x :: u8
    by (simp_all add: u8_bits_eq bit_simps)
  have "push_bit 8 (ucast (take_bit 2 (ucast (drop_bit 8 v)) :: u8)) OR ucast (ucast v :: u8) = v"
    by (rule bit_word_eqI) (auto simp: bit_simps dest: v)
  then show ?thesis
    by (simp add: SX1276LoRaSetSymbTimeout_def SX1276ReadBuffer_def burst2 reg_addr reg_off view_def Let_def low hi)
qed

lemma set_frf:
  assumes "freq < 1024000000"
  shows "modem_of (SX1276LoRaSetRFFrequency freq s) = (modem_of s)\<lparr>m_frf := of_nat (unat freq * 256 div 15625)\<rparr>"
proof -
  define f :: u32 where "f = of_nat (unat freq * 256 div 15625)"
  have "unat freq * 256 div 15625 < 2 ^ 24" using assms by (simp add: word_less_nat_alt)
  then have "unat f < 2 ^ 24" by (simp add: f_def unat_of_nat)
  then have v: "bit f n \<Longrightarrow> n < 24" for n by (rule word_upper_bits)
  have "push_bit 16 (ucast (ucast (drop_bit 16 f) :: u8)) OR push_bit 8 (ucast (ucast (drop_bit 8 f) :: u8)) OR ucast (ucast f :: u8) = f" (is "?b = f")
  proof (rule bit_word_eqI)
    fix n :: nat
    consider "n < 8" | "8 \<le> n" "n < 16" | "16 \<le> n" by linarith
    then show "bit ?b n = bit f n"
      by cases (auto simp: bit_simps dest: v)
  qed
  then show ?thesis
    by (simp add: SX1276LoRaSetRFFrequency_def burst3 reg_addr reg_off view_def Let_def f_def [symmetric])
qed

text \<open>The power amplifier: output pin, 20 dBm option and power.\<close>

lemma set_pa: "modem_of (SX1276LoRaSetPAOutput (if e then 0x80 else 0) s) = (modem_of s)\<lparr>m_boost := e\<rparr>"
  by (simp add: SX1276LoRaSetPAOutput_def reg_addr reg_off view_def u8_bits_eq bit_simps)

lemma set_dac: "modem_of (SX1276LoRaSetPa20dBm e s) =
    (modem_of s)\<lparr>m_dac := if m_boost (modem_of s) then (if e then 0x87 else m_dac (modem_of s)) else 0x84\<rparr>"
  by (simp add: SX1276LoRaSetPa20dBm_def reg_addr reg_off view_def Let_def)

definition power_range :: "modem \<Rightarrow> int \<times> int" where
  "power_range m = (if m_boost m then (if m_dac m AND 0x87 = 0x87 then (5, 20) else (2, 17)) else (-1, 14))"

lemma power_bits_view: "power_bits p r AND 0x0F = word_of_int p AND 0x0F" "(power_bits p r AND 0x80 = 0x80) = (r AND 0x80 = 0x80)"
  by (simp_all add: power_bits_def u8_bits_eq bit_simps)

lemma set_power: "modem_of (SX1276LoRaSetRFPower p s) =
    (let (lo, hi) = power_range (modem_of s) in (modem_of s)\<lparr>m_power := word_of_int (clamp lo hi p - lo) AND 0x0F\<rparr>)"
  by (simp add: SX1276LoRaSetRFPower_def reg_addr reg_off view_def Let_def power_bits_view power_range_def)

text \<open>The operating mode is compared with the copy of its register, which has to agree with the chip.\<close>

lemma set_mode:
  assumes "Regs s 1 = Chip s 1" "v < 8"
  shows "modem_of (fst (SX1276LoRaSetOpMode v s)) = (modem_of s)\<lparr>m_mode := v\<rparr>"
    "Regs (fst (SX1276LoRaSetOpMode v s)) 1 = Chip (fst (SX1276LoRaSetOpMode v s)) 1"
proof -
  have "v < 16" using assms(2) by (simp add: word_less_nat_alt)
  then have "((r AND 0xF8) OR v) AND 0x07 = v" for r
    using assms(2) by (simp add: u8_bits_eq bit_simps u8_small u8_small3)
  with assms(1) show "modem_of (fst (SX1276LoRaSetOpMode v s)) = (modem_of s)\<lparr>m_mode := v\<rparr>"
    "Regs (fst (SX1276LoRaSetOpMode v s)) 1 = Chip (fst (SX1276LoRaSetOpMode v s)) 1"
    by (simp_all add: SX1276LoRaSetOpMode_def reg_addr reg_off view_def Let_def put_reg_def SX1276Write_def)
qed

text \<open>The getters read the same configuration.\<close>

lemma getters:
  "fst (SX1276LoRaGetSignalBandwidth s) = m_bw (modem_of s)" "fst (SX1276LoRaGetErrorCoding s) = m_cr (modem_of s)"
  "fst (SX1276LoRaGetPacketCrcOn s) = m_crc (modem_of s)" "fst (SX1276LoRaGetImplicitHeaderOn s) = m_implicit (modem_of s)"
  "fst (SX1276LoRaGetLowDatarateOptimize s) = m_lowrate (modem_of s)" "fst (SX1276LoRaGetPreambleLength s) = m_preamble (modem_of s)"
  "fst (SX1276LoRaGetSymbTimeout s) = m_symb (modem_of s)" "fst (SX1276LoRaGetPayloadLength s) = m_payload (modem_of s)"
  "fst (SX1276LoRaGetHopPeriod s) = m_hop (modem_of s)" "fst (SX1276LoRaGetPaRamp s) = m_ramp (modem_of s)"
  "fst (SX1276LoRaGetSpreadingFactor s) = m_sf (modem_of s)" "fst (SX1276LoRaGetOpMode s) = m_mode (modem_of s)"
  "fst (SX1276LoRaGetRFFrequency s) = of_nat (unat (m_frf (modem_of s)) * 15625 div 256)"
  "fst (SX1276LoRaGetRFPower s) = (if m_boost (modem_of s) then (if m_dac (modem_of s) AND 0x07 = 0x07 then 5 else 2) else -1) + uint (m_power (modem_of s))"
  by (simp_all add: SX1276LoRaGetSignalBandwidth_def SX1276LoRaGetErrorCoding_def SX1276LoRaGetPacketCrcOn_def
      SX1276LoRaGetImplicitHeaderOn_def SX1276LoRaGetLowDatarateOptimize_def SX1276LoRaGetPreambleLength_def SX1276LoRaGetSymbTimeout_def
      SX1276LoRaGetPayloadLength_def SX1276LoRaGetHopPeriod_def SX1276LoRaGetPaRamp_def SX1276LoRaGetSpreadingFactor_def SX1276LoRaGetOpMode_def
      SX1276LoRaGetRFFrequency_def SX1276LoRaGetRFPower_def SX1276ReadBuffer_def reg_addr reg_off view_def Let_def)
    (simp_all add: u8_bits_eq bit_simps numeral_2_eq_2)

lemma getter_chip:
  "Chip (snd (SX1276LoRaGetSignalBandwidth s)) = Chip s" "Chip (snd (SX1276LoRaGetErrorCoding s)) = Chip s"
  "Chip (snd (SX1276LoRaGetPacketCrcOn s)) = Chip s" "Chip (snd (SX1276LoRaGetImplicitHeaderOn s)) = Chip s"
  "Chip (snd (SX1276LoRaGetLowDatarateOptimize s)) = Chip s" "Chip (snd (SX1276LoRaGetPreambleLength s)) = Chip s"
  "Chip (snd (SX1276LoRaGetSymbTimeout s)) = Chip s" "Chip (snd (SX1276LoRaGetPayloadLength s)) = Chip s"
  "Chip (snd (SX1276LoRaGetHopPeriod s)) = Chip s" "Chip (snd (SX1276LoRaGetPaRamp s)) = Chip s"
  by (simp_all add: SX1276LoRaGetSignalBandwidth_def SX1276LoRaGetErrorCoding_def SX1276LoRaGetPacketCrcOn_def
      SX1276LoRaGetImplicitHeaderOn_def SX1276LoRaGetLowDatarateOptimize_def SX1276LoRaGetPreambleLength_def SX1276LoRaGetSymbTimeout_def
      SX1276LoRaGetPayloadLength_def SX1276LoRaGetHopPeriod_def SX1276LoRaGetPaRamp_def Let_def)

section \<open>A setting as an interface\<close>

text \<open>
  A setting of the modem: its setter changes exactly its field of the configuration the chip holds, its
  getter returns that field and changes nothing in the chip.
\<close>

locale modem_setting =
  fixes set :: "'v \<Rightarrow> sx1276 \<Rightarrow> sx1276" and get :: "sx1276 \<Rightarrow> 'v \<times> sx1276"
    and field :: "modem \<Rightarrow> 'v" and put :: "'v \<Rightarrow> modem \<Rightarrow> modem" and valid :: "'v \<Rightarrow> bool"
  assumes set_view: "valid v \<Longrightarrow> modem_of (set v s) = put v (modem_of s)"
    and get_field: "fst (get s) = field (modem_of s)"
    and get_chip: "Chip (snd (get s)) = Chip s"
    and field_put: "field (put v m) = v"
    and put_put: "put w (put v m) = put w m"
begin

lemma get_set: "valid v \<Longrightarrow> fst (get (set v s)) = v"
  by (simp add: get_field set_view field_put)

lemma set_set: "valid v \<Longrightarrow> valid w \<Longrightarrow> modem_of (set w (set v s)) = modem_of (set w s)"
  by (simp add: set_view put_put)

lemma get_keeps: "fst (get (snd (get s))) = fst (get s)"
  by (simp add: get_field get_chip)

end

interpretation bandwidth: modem_setting SX1276LoRaSetSignalBandwidth SX1276LoRaGetSignalBandwidth m_bw "\<lambda>v m :: modem. m\<lparr>m_bw := v\<rparr>" "\<lambda>v. v < 16"
  by unfold_locales (simp_all add: set_bw getters getter_chip)

interpretation coding: modem_setting SX1276LoRaSetErrorCoding SX1276LoRaGetErrorCoding m_cr "\<lambda>v m :: modem. m\<lparr>m_cr := v\<rparr>" "\<lambda>v. v < 8"
  by unfold_locales (simp_all add: set_cr getters getter_chip)

interpretation crc: modem_setting SX1276LoRaSetPacketCrcOn SX1276LoRaGetPacketCrcOn m_crc "\<lambda>v m :: modem. m\<lparr>m_crc := v\<rparr>" "\<lambda>v. True"
  by unfold_locales (simp_all add: set_crc getters getter_chip)

interpretation header: modem_setting SX1276LoRaSetImplicitHeaderOn SX1276LoRaGetImplicitHeaderOn m_implicit "\<lambda>v m :: modem. m\<lparr>m_implicit := v\<rparr>" "\<lambda>v. True"
  by unfold_locales (simp_all add: set_implicit getters getter_chip)

interpretation lowrate: modem_setting SX1276LoRaSetLowDatarateOptimize SX1276LoRaGetLowDatarateOptimize m_lowrate "\<lambda>v m :: modem. m\<lparr>m_lowrate := v\<rparr>" "\<lambda>v. True"
  by unfold_locales (simp_all add: set_lowrate getters getter_chip)

interpretation preamble: modem_setting SX1276LoRaSetPreambleLength SX1276LoRaGetPreambleLength m_preamble "\<lambda>v m :: modem. m\<lparr>m_preamble := v\<rparr>" "\<lambda>v. True"
  by unfold_locales (simp_all add: set_preamble getters getter_chip)

interpretation symbols: modem_setting SX1276LoRaSetSymbTimeout SX1276LoRaGetSymbTimeout m_symb "\<lambda>v m :: modem. m\<lparr>m_symb := v\<rparr>" "\<lambda>v. v < 0x400"
  by unfold_locales (simp_all add: set_symb getters getter_chip)

interpretation payload: modem_setting SX1276LoRaSetPayloadLength SX1276LoRaGetPayloadLength m_payload "\<lambda>v m :: modem. m\<lparr>m_payload := v\<rparr>" "\<lambda>v. True"
  by unfold_locales (simp_all add: set_payload getters getter_chip)

interpretation hop: modem_setting SX1276LoRaSetHopPeriod SX1276LoRaGetHopPeriod m_hop "\<lambda>v m :: modem. m\<lparr>m_hop := v\<rparr>" "\<lambda>v. True"
  by unfold_locales (simp_all add: set_hop getters getter_chip)

interpretation ramp: modem_setting SX1276LoRaSetPaRamp SX1276LoRaGetPaRamp m_ramp "\<lambda>v m :: modem. m\<lparr>m_ramp := v\<rparr>" "\<lambda>v. v AND 0x0F = v"
  by unfold_locales (simp_all add: set_ramp getters getter_chip)



section \<open>Initialisation\<close>

text \<open>Every setter leaves the copy of the operating mode as it is in the chip.\<close>

lemmas setter_defs = SX1276LoRaSetRFFrequency_def SX1276LoRaSetSpreadingFactor_def SX1276LoRaSetNbTrigPeaks_def SX1276LoRaSetErrorCoding_def
  SX1276LoRaSetPacketCrcOn_def SX1276LoRaSetSignalBandwidth_def SX1276LoRaSetImplicitHeaderOn_def SX1276LoRaSetSymbTimeout_def
  SX1276LoRaSetPayloadLength_def SX1276LoRaSetLowDatarateOptimize_def SX1276LoRaSetPAOutput_def SX1276LoRaSetPa20dBm_def SX1276LoRaSetRFPower_def
  Let_def

lemmas access_defs = SX1276WriteBuffer_def SX1276ReadBuffer_def SX1276Write_def SX1276Read_def put_reg_def modify_reg_def upd_settings_def

lemma setter_opmode [simp]:
  "Chip (SX1276LoRaSetRFFrequency f s) (Suc 0) = Chip s (Suc 0)" "Regs (SX1276LoRaSetRFFrequency f s) (Suc 0) = Regs s (Suc 0)"
  "Chip (SX1276LoRaSetSpreadingFactor v s) (Suc 0) = Chip s (Suc 0)" "Regs (SX1276LoRaSetSpreadingFactor v s) (Suc 0) = Regs s (Suc 0)"
  "Chip (SX1276LoRaSetErrorCoding v s) (Suc 0) = Chip s (Suc 0)" "Regs (SX1276LoRaSetErrorCoding v s) (Suc 0) = Regs s (Suc 0)"
  "Chip (SX1276LoRaSetPacketCrcOn e s) (Suc 0) = Chip s (Suc 0)" "Regs (SX1276LoRaSetPacketCrcOn e s) (Suc 0) = Regs s (Suc 0)"
  "Chip (SX1276LoRaSetSignalBandwidth v s) (Suc 0) = Chip s (Suc 0)" "Regs (SX1276LoRaSetSignalBandwidth v s) (Suc 0) = Regs s (Suc 0)"
  "Chip (SX1276LoRaSetImplicitHeaderOn e s) (Suc 0) = Chip s (Suc 0)" "Regs (SX1276LoRaSetImplicitHeaderOn e s) (Suc 0) = Regs s (Suc 0)"
  "Chip (SX1276LoRaSetSymbTimeout w s) (Suc 0) = Chip s (Suc 0)" "Regs (SX1276LoRaSetSymbTimeout w s) (Suc 0) = Regs s (Suc 0)"
  "Chip (SX1276LoRaSetPayloadLength v s) (Suc 0) = Chip s (Suc 0)" "Regs (SX1276LoRaSetPayloadLength v s) (Suc 0) = Regs s (Suc 0)"
  "Chip (SX1276LoRaSetLowDatarateOptimize e s) (Suc 0) = Chip s (Suc 0)" "Regs (SX1276LoRaSetLowDatarateOptimize e s) (Suc 0) = Regs s (Suc 0)"
  "Chip (SX1276LoRaSetPAOutput v s) (Suc 0) = Chip s (Suc 0)" "Regs (SX1276LoRaSetPAOutput v s) (Suc 0) = Regs s (Suc 0)"
  "Chip (SX1276LoRaSetPa20dBm e s) (Suc 0) = Chip s (Suc 0)" "Regs (SX1276LoRaSetPa20dBm e s) (Suc 0) = Regs s (Suc 0)"
  "Chip (SX1276LoRaSetRFPower p s) (Suc 0) = Chip s (Suc 0)" "Regs (SX1276LoRaSetRFPower p s) (Suc 0) = Regs s (Suc 0)"
  by (simp_all add: setter_defs access_defs reg_addr reg_off)

lemma setter_settings [simp]:
  "LoRaSettings (SX1276LoRaSetRFFrequency f s) = (LoRaSettings s)\<lparr>RFFrequency := f\<rparr>"
  "LoRaSettings (SX1276LoRaSetSpreadingFactor v s) = (LoRaSettings s)\<lparr>SpreadingFactor := sf_clamp v\<rparr>"
  "LoRaSettings (SX1276LoRaSetErrorCoding v s) = (LoRaSettings s)\<lparr>ErrorCoding := v\<rparr>"
  "LoRaSettings (SX1276LoRaSetPacketCrcOn e s) = (LoRaSettings s)\<lparr>CrcOn := e\<rparr>"
  "LoRaSettings (SX1276LoRaSetSignalBandwidth v s) = (LoRaSettings s)\<lparr>SignalBw := v\<rparr>"
  "LoRaSettings (SX1276LoRaSetImplicitHeaderOn e s) = (LoRaSettings s)\<lparr>ImplicitHeaderOn := e\<rparr>"
  "LoRaSettings (SX1276LoRaSetSymbTimeout w s) = LoRaSettings s"
  "LoRaSettings (SX1276LoRaSetPayloadLength v s) = (LoRaSettings s)\<lparr>PayloadLength := v\<rparr>"
  "LoRaSettings (SX1276LoRaSetLowDatarateOptimize e s) = LoRaSettings s"
  "LoRaSettings (SX1276LoRaSetPAOutput v s) = LoRaSettings s"
  "LoRaSettings (SX1276LoRaSetPa20dBm e s) = LoRaSettings s"
  "LoRaSettings (upd_settings g s) = g (LoRaSettings s)"
  by (simp_all add: setter_defs access_defs sf_clamp_def)

text \<open>What the settings ask of the modem.\<close>

definition lora_config :: "tLoRaSettings \<Rightarrow> modem \<Rightarrow> modem" where
  "lora_config c m =
     m\<lparr>m_mode := 1, m_frf := of_nat (unat (RFFrequency c) * 256 div 15625), m_sf := sf_clamp (SpreadingFactor c),
       m_peaks := if sf_clamp (SpreadingFactor c) = 6 then 5 else 3, m_cr := ErrorCoding c, m_crc := CrcOn c, m_bw := SignalBw c,
       m_implicit := ImplicitHeaderOn c, m_symb := 0x3FF, m_payload := PayloadLength c, m_lowrate := True,
       m_boost := RFFrequency c \<le> 860000000, m_dac := if RFFrequency c \<le> 860000000 then 0x87 else 0x84, m_power := 15\<rparr>"

lemma lora_power_view:
  "modem_of (lora_power s) = (let low = RFFrequency (LoRaSettings s) \<le> 860000000
     in (modem_of s)\<lparr>m_boost := low, m_dac := if low then 0x87 else 0x84, m_power := 15\<rparr>)"
  "Chip (lora_power s) (Suc 0) = Chip s (Suc 0)" "Regs (lora_power s) (Suc 0) = Regs s (Suc 0)"
  using set_pa [of True s] set_pa [of False s]
  by (simp_all add: lora_power_def Let_def set_power set_dac power_range_def clamp_def not_le not_less)

lemma lora_init_view:
  assumes "RFFrequency (LoRaSettings s) < 1024000000" "SignalBw (LoRaSettings s) < 16" "ErrorCoding (LoRaSettings s) < 8"
  shows "modem_of (fst (SX1276LoRaInit s)) = lora_config (LoRaSettings s) (modem_of s)"
proof -
  define s2 where "s2 = SX1276WriteBuffer REG_LR_OPMODE 1 (0x70 - 1) (put_reg RegLna 0x20 (SX1276ReadBuffer REG_LR_OPMODE 1 (0x70 - 1) (SX1276LoRaSetDefaults s)))"
  have s2: "LoRaSettings s2 = LoRaSettings s" "modem_of s2 = modem_of s" "Regs s2 (Suc 0) = Chip s2 (Suc 0)"
    by (simp_all add: s2_def access_defs SX1276LoRaSetDefaults_def reg_addr reg_off view_def)
  show ?thesis
    unfolding SX1276LoRaInit_def Let_def s2_def [symmetric]
    using assms
    by (simp add: s2 set_mode set_frf set_sf set_cr set_crc set_bw set_implicit set_symb
        set_payload set_lowrate lora_power_view lora_config_def)
qed


text \<open>
  the initialisation of the LoRa modem programs exactly the settings: the registers of the chip then encode the
  frequency, spreading factor (with the detection setting it needs), coding rate, CRC, bandwidth, header mode and payload
  length of \<open>LoRaSettings\<close>, the symbol time-out 0x3FF, the low data rate option, the amplifier for the band at its
  highest power, and standby; the ramp, preamble and hop period keep their values.
\<close>

theorem lora_init_configures:
  assumes "RFFrequency (LoRaSettings s) < 1024000000" "SignalBw (LoRaSettings s) < 16" "ErrorCoding (LoRaSettings s) < 8"
  shows "modem_of (fst (SX1276LoRaInit s)) = lora_config (LoRaSettings s) (modem_of s)"
  using assms by (rule lora_init_view)

definition lora_reset :: sx1276 where
  "lora_reset = \<lparr>Regs = (\<lambda>_. 0), Chip = (\<lambda>_. 0), LoRaSettings = LoRaSettings_default, antennaSwitchTxOnPrev = True,
     LoRaOn = False, LoRaOnState = False\<rparr>"

theorem lora_init_configures_witness:
  "modem_of (fst (SX1276LoRaInit lora_reset)) = lora_config LoRaSettings_default (modem_of lora_reset) \<and>
   m_frf (lora_config LoRaSettings_default (modem_of lora_reset)) = 7864320"
  using lora_init_configures [of lora_reset] by (simp add: lora_reset_def LoRaSettings_default_def lora_config_def)

text \<open>
  the frequency read back from the chip is never above the one that was set and at most 62 Hz below it, for
  every frequency the 24 bits of the register can hold.
\<close>

theorem lora_frequency_accuracy:
  assumes "freq < 1024000000"
  shows "let g = fst (SX1276LoRaGetRFFrequency (SX1276LoRaSetRFFrequency freq s)) in g \<le> freq \<and> freq - g \<le> 62"
proof -
  define k where "k = unat freq * 256 div 15625"
  have k: "k * 15625 \<le> unat freq * 256" "unat freq * 256 < k * 15625 + 15625" and lt: "k < 2 ^ 24"
    using assms by (auto simp: k_def word_less_nat_alt)
  define g where "g = fst (SX1276LoRaGetRFFrequency (SX1276LoRaSetRFFrequency freq s))"
  have "g = of_nat (k * 15625 div 256)"
    using lt by (simp add: g_def getters set_frf [OF assms] k_def [symmetric] unat_of_nat)
  moreover have "k * 15625 div 256 < 2 ^ 32" using lt by simp
  ultimately have g: "unat g = k * 15625 div 256" by (simp add: unat_of_nat)
  have le: "unat g \<le> unat freq" "unat freq - unat g \<le> 62" using k unfolding g by linarith+
  then have "g \<le> freq" by (simp add: word_le_nat_alt)
  then have "freq - g \<le> 62" using le(2) by (simp add: word_le_nat_alt unat_sub)
  with \<open>g \<le> freq\<close> show ?thesis by (simp add: g_def)
qed

theorem lora_frequency_accuracy_witness:
  "fst (SX1276LoRaGetRFFrequency (SX1276LoRaSetRFFrequency 433920000 lora_reset)) \<le> 433920000"
  using lora_frequency_accuracy [of 433920000 lora_reset] by (simp add: Let_def)

lemma nibble: "0 \<le> x \<Longrightarrow> x < 16 \<Longrightarrow> uint (word_of_int x AND 0x0F :: u8) = x"
proof -
  assume x: "0 \<le> x" "x < 16"
  then have "take_bit 8 x = x" by (simp add: take_bit_eq_mod)
  moreover have "x AND 15 = x" using x mask_eq_exp_minus_1 [of 4, where 'a = int] take_bit_eq_mask [of 4 x] by (simp add: take_bit_eq_mod)
  ultimately show ?thesis by (simp add: uint_and uint_word_of_int_eq)
qed

text \<open>
  with the amplifier option at one of the two values the driver writes, the power read back is the power asked for,
  limited to the range of the selected output: 5 to 20 dBm with the 20 dBm option, 2 to 17 dBm without it, -1 to 14 dBm
  on the other pin.
\<close>

theorem lora_power_roundtrip:
  assumes "m_dac (modem_of s) \<in> {0x84, 0x87}"
  shows "fst (SX1276LoRaGetRFPower (SX1276LoRaSetRFPower p s)) = (let (lo, hi) = power_range (modem_of s) in clamp lo hi p)"
proof -
  have "uint (word_of_int (clamp lo (lo + 15) p - lo) AND 0x0F :: u8) = clamp lo (lo + 15) p - lo" for lo
    by (rule nibble) (auto simp: clamp_def)
  from this [of 5] this [of 2] this [of "-1"] assms show ?thesis
    by (auto simp: getters set_power power_range_def Let_def)
qed

theorem lora_power_roundtrip_witness:
  "fst (SX1276LoRaGetRFPower (SX1276LoRaSetRFPower 30 (fst (SX1276LoRaInit lora_reset)))) = 20"
  using lora_power_roundtrip [of "fst (SX1276LoRaInit lora_reset)" 30] lora_init_view [of lora_reset]
  by (simp add: lora_config_def lora_reset_def LoRaSettings_default_def power_range_def clamp_def)

section \<open>Sequences of settings\<close>

datatype lora_call = Frequency u32 | RFPower int | Bandwidth u8 | Spreading u8 | Coding u8 | Crc bool | Preamble u16 | Header bool
  | Hop u8 | Payload u8 | Pa20 bool | PaOutput u8 | Ramp u8 | Symbols u16 | LowRate bool | TrigPeaks u8
  | RxSingle bool | FreqHop bool | TxTimeout u32 | RxTimeout u32

text \<open>All setters of \<open>sx1276-LoRaMisc.c\<close>.\<close>

fun run_call :: "lora_call \<Rightarrow> sx1276 \<Rightarrow> sx1276" where
  "run_call (Frequency v) = SX1276LoRaSetRFFrequency v"
| "run_call (RFPower v) = SX1276LoRaSetRFPower v"
| "run_call (Bandwidth v) = SX1276LoRaSetSignalBandwidth v"
| "run_call (Spreading v) = SX1276LoRaSetSpreadingFactor v"
| "run_call (Coding v) = SX1276LoRaSetErrorCoding v"
| "run_call (Crc v) = SX1276LoRaSetPacketCrcOn v"
| "run_call (Preamble v) = SX1276LoRaSetPreambleLength v"
| "run_call (Header v) = SX1276LoRaSetImplicitHeaderOn v"
| "run_call (Hop v) = SX1276LoRaSetHopPeriod v"
| "run_call (Payload v) = SX1276LoRaSetPayloadLength v"
| "run_call (Pa20 v) = SX1276LoRaSetPa20dBm v"
| "run_call (PaOutput v) = SX1276LoRaSetPAOutput v"
| "run_call (Ramp v) = SX1276LoRaSetPaRamp v"
| "run_call (Symbols v) = SX1276LoRaSetSymbTimeout v"
| "run_call (LowRate v) = SX1276LoRaSetLowDatarateOptimize v"
| "run_call (TrigPeaks v) = SX1276LoRaSetNbTrigPeaks v"
| "run_call (RxSingle v) = SX1276LoRaSetRxSingleOn v"
| "run_call (FreqHop v) = SX1276LoRaSetFreqHopOn v"
| "run_call (TxTimeout v) = SX1276LoRaSetTxPacketTimeout v"
| "run_call (RxTimeout v) = SX1276LoRaSetRxPacketTimeout v"

text \<open>
  What a call does to the configuration the chip holds, for every value of its argument: a value that does not fit loses its upper bits,
  except that those of a coding rate are ORed into the bandwidth and those of an output pin into the power.
\<close>

fun ask_chip :: "lora_call \<Rightarrow> modem \<Rightarrow> modem" where
  "ask_chip (Frequency v) m = m\<lparr>m_frf := take_bit 24 (of_nat (unat v * 256 div 15625))\<rparr>"
| "ask_chip (RFPower v) m = (let (lo, hi) = power_range m in m\<lparr>m_power := word_of_int (clamp lo hi v - lo) AND 0x0F\<rparr>)"
| "ask_chip (Bandwidth v) m = m\<lparr>m_bw := v AND 0x0F\<rparr>"
| "ask_chip (Spreading v) m = m\<lparr>m_sf := sf_clamp v, m_peaks := if sf_clamp v = 6 then 5 else 3\<rparr>"
| "ask_chip (Coding v) m = m\<lparr>m_cr := v AND 0x07, m_bw := m_bw m OR (drop_bit 3 v AND 0x0F)\<rparr>"
| "ask_chip (Crc v) m = m\<lparr>m_crc := v\<rparr>"
| "ask_chip (Preamble v) m = m\<lparr>m_preamble := v\<rparr>"
| "ask_chip (Header v) m = m\<lparr>m_implicit := v\<rparr>"
| "ask_chip (Hop v) m = m\<lparr>m_hop := v\<rparr>"
| "ask_chip (Payload v) m = m\<lparr>m_payload := v\<rparr>"
| "ask_chip (Pa20 v) m = m\<lparr>m_dac := if m_boost m then (if v then 0x87 else m_dac m) else 0x84\<rparr>"
| "ask_chip (PaOutput v) m = m\<lparr>m_boost := bit v 7, m_power := m_power m OR (v AND 0x0F)\<rparr>"
| "ask_chip (Ramp v) m = m\<lparr>m_ramp := v AND 0x0F\<rparr>"
| "ask_chip (Symbols v) m = m\<lparr>m_symb := v AND 0x3FF\<rparr>"
| "ask_chip (LowRate v) m = m\<lparr>m_lowrate := v\<rparr>"
| "ask_chip (TrigPeaks v) m = m\<lparr>m_peaks := v AND 0x07\<rparr>"
| "ask_chip _ m = m"

text \<open>What it does to the settings the driver keeps.\<close>

fun ask_driver :: "lora_call \<Rightarrow> modem \<Rightarrow> tLoRaSettings \<Rightarrow> tLoRaSettings" where
  "ask_driver (Frequency v) m c = c\<lparr>RFFrequency := v\<rparr>"
| "ask_driver (RFPower v) m c = (let (lo, hi) = power_range m in c\<lparr>Power := clamp lo hi v\<rparr>)"
| "ask_driver (Bandwidth v) m c = c\<lparr>SignalBw := v\<rparr>"
| "ask_driver (Spreading v) m c = c\<lparr>SpreadingFactor := sf_clamp v\<rparr>"
| "ask_driver (Coding v) m c = c\<lparr>ErrorCoding := v\<rparr>"
| "ask_driver (Crc v) m c = c\<lparr>CrcOn := v\<rparr>"
| "ask_driver (Header v) m c = c\<lparr>ImplicitHeaderOn := v\<rparr>"
| "ask_driver (Hop v) m c = c\<lparr>HopPeriod := v\<rparr>"
| "ask_driver (Payload v) m c = c\<lparr>PayloadLength := v\<rparr>"
| "ask_driver (RxSingle v) m c = c\<lparr>RxSingleOn := v\<rparr>"
| "ask_driver (FreqHop v) m c = c\<lparr>FreqHopOn := v\<rparr>"
| "ask_driver (TxTimeout v) m c = c\<lparr>TxPacketTimeout := v\<rparr>"
| "ask_driver (RxTimeout v) m c = c\<lparr>RxPacketTimeout := v\<rparr>"
| "ask_driver _ m c = c"

definition ask_call :: "lora_call \<Rightarrow> modem \<times> tLoRaSettings \<Rightarrow> modem \<times> tLoRaSettings" where
  "ask_call x mc = (ask_chip x (fst mc), ask_driver x (fst mc) (snd mc))"

text \<open>The setters for arguments of any value.\<close>

lemma any_bw: "modem_of (SX1276LoRaSetSignalBandwidth v s) = (modem_of s)\<lparr>m_bw := v AND 0x0F\<rparr>"
  by (simp add: SX1276LoRaSetSignalBandwidth_def setter_simps)

lemma any_cr: "modem_of (SX1276LoRaSetErrorCoding v s) = (modem_of s)\<lparr>m_cr := v AND 0x07, m_bw := m_bw (modem_of s) OR (drop_bit 3 v AND 0x0F)\<rparr>"
  by (simp add: SX1276LoRaSetErrorCoding_def setter_simps numeral_2_eq_2)

lemma any_peaks: "modem_of (SX1276LoRaSetNbTrigPeaks v s) = (modem_of s)\<lparr>m_peaks := v AND 0x07\<rparr>"
  by (simp add: SX1276LoRaSetNbTrigPeaks_def setter_simps)

lemma any_pa: "modem_of (SX1276LoRaSetPAOutput v s) = (modem_of s)\<lparr>m_boost := bit v 7, m_power := m_power (modem_of s) OR (v AND 0x0F)\<rparr>"
  by (simp add: SX1276LoRaSetPAOutput_def setter_simps)

lemma any_symb: "modem_of (SX1276LoRaSetSymbTimeout v s) = (modem_of s)\<lparr>m_symb := v AND 0x3FF\<rparr>"
proof -
  have low: "((r AND 0xFC) OR (x AND 0x03)) AND 0x03 = take_bit 2 (x :: u8)" for r x
    by (simp add: u8_bits_eq bit_simps)
  have hi: "drop_bit 4 (((r AND 0xFC) OR (x AND 0x03)) AND 0xF0) = drop_bit 4 (r AND 0xF0)"
    "bit ((r AND 0xFC) OR (x AND 0x03)) 2 = bit r 2" for r x :: u8
    by (simp_all add: u8_bits_eq bit_simps)
  have m: "v AND 0x3FF = take_bit 10 v" by (simp add: take_bit_eq_mask mask_eq_exp_minus_1)
  have "push_bit 8 (ucast (take_bit 2 (ucast (drop_bit 8 v)) :: u8)) OR ucast (ucast v :: u8) = take_bit 10 v"
    by (rule bit_word_eqI) (auto simp: bit_simps)
  then show ?thesis
    by (simp add: SX1276LoRaSetSymbTimeout_def SX1276ReadBuffer_def burst2 reg_addr reg_off view_def Let_def low hi m)
qed

lemma any_frf: "modem_of (SX1276LoRaSetRFFrequency freq s) = (modem_of s)\<lparr>m_frf := take_bit 24 (of_nat (unat freq * 256 div 15625))\<rparr>"
proof -
  define f :: u32 where "f = of_nat (unat freq * 256 div 15625)"
  have "push_bit 16 (ucast (ucast (drop_bit 16 f) :: u8)) OR push_bit 8 (ucast (ucast (drop_bit 8 f) :: u8)) OR ucast (ucast f :: u8) = take_bit 24 f"
    (is "?b = _")
  proof (rule bit_word_eqI)
    fix n :: nat
    consider "n < 8" | "8 \<le> n" "n < 16" | "16 \<le> n" by linarith
    then show "bit ?b n = bit (take_bit 24 f) n"
      by cases (auto simp: bit_simps)
  qed
  then show ?thesis
    by (simp add: SX1276LoRaSetRFFrequency_def burst3 reg_addr reg_off view_def Let_def f_def [symmetric])
qed

lemmas driver_setters = SX1276LoRaSetRxSingleOn_def SX1276LoRaSetFreqHopOn_def SX1276LoRaSetTxPacketTimeout_def SX1276LoRaSetRxPacketTimeout_def

lemma run_call_chip: "modem_of (run_call x s) = ask_chip x (modem_of s)"
  by (cases x) (simp_all add: any_bw any_cr any_peaks any_pa any_symb any_frf set_power set_sf set_crc set_preamble set_implicit set_hop
    set_payload set_dac set_ramp set_lowrate driver_setters)

lemma power_setting:
  "LoRaSettings (SX1276LoRaSetRFPower p s) = (let (lo, hi) = power_range (modem_of s) in (LoRaSettings s)\<lparr>Power := clamp lo hi p\<rparr>)"
  by (simp add: SX1276LoRaSetRFPower_def reg_addr reg_off view_def Let_def power_range_def)
    (simp add: access_defs)

lemma run_call_driver: "LoRaSettings (run_call x s) = ask_driver x (modem_of s) (LoRaSettings s)"
  by (cases x) (simp_all add: power_setting driver_setters SX1276LoRaSetPreambleLength_def SX1276LoRaSetHopPeriod_def SX1276LoRaSetPaRamp_def
    SX1276LoRaSetNbTrigPeaks_def Let_def, simp_all add: access_defs)

text \<open>
  C34: any sequence of calls of the setters of \<open>sx1276-LoRaMisc.c\<close>, with any arguments, leaves the chip and the driver with the
  configuration that the calls ask for one after the other.  Although settings share registers, a setter changes its own setting and no
  other, with three exceptions: the spreading factor sets the number of detection peaks as well, a coding rate of 8 or more can set bits of the
  bandwidth, and an output pin with bits below the uppermost sets bits of the power.
\<close>

theorem lora_settings_refine:
  "(modem_of (fold run_call cs s), LoRaSettings (fold run_call cs s)) = fold ask_call cs (modem_of s, LoRaSettings s)"
proof (induction cs arbitrary: s)
  case (Cons c cs)
  then show ?case by (simp add: run_call_chip run_call_driver ask_call_def)
qed simp

theorem lora_settings_refine_witness:
  "let s = fold run_call [Symbols 0x3FF, Spreading 6, Crc True, Coding 0x0A, TxTimeout 7, Spreading 99] lora_reset in
     modem_of s = (modem_of lora_reset)\<lparr>m_symb := 0x3FF, m_crc := True, m_sf := 12, m_peaks := 3, m_cr := 2, m_bw := 1\<rparr> \<and>
     TxPacketTimeout (LoRaSettings s) = 7 \<and> ErrorCoding (LoRaSettings s) = 0x0A"
  using lora_settings_refine [of "[Symbols 0x3FF, Spreading 6, Crc True, Coding 0x0A, TxTimeout 7, Spreading 99]" lora_reset]
  by (auto simp: sf_clamp_def ask_call_def lora_reset_def view_def Let_def)

text \<open>
  after setters that change other settings, the symbol time-out and the CRC option, which share the register
  ModemConfig2 with the spreading factor, are read back as they were set.
\<close>

theorem lora_settings_roundtrip:
  assumes "w < 0x400"
  shows "fst (SX1276LoRaGetSymbTimeout (SX1276LoRaSetPacketCrcOn e (SX1276LoRaSetSpreadingFactor f (SX1276LoRaSetSymbTimeout w s)))) = w \<and>
    fst (SX1276LoRaGetPacketCrcOn (SX1276LoRaSetSymbTimeout w (SX1276LoRaSetSpreadingFactor f (SX1276LoRaSetPacketCrcOn e s)))) = e \<and>
    fst (SX1276LoRaGetSpreadingFactor (SX1276LoRaSetSymbTimeout w (SX1276LoRaSetPacketCrcOn e (SX1276LoRaSetSpreadingFactor f s)))) = sf_clamp f"
  using assms by (simp add: symbols.get_field crc.get_field symbols.set_view crc.set_view set_sf getters(11))

theorem lora_settings_roundtrip_witness:
  "fst (SX1276LoRaGetSymbTimeout (SX1276LoRaSetPacketCrcOn True (SX1276LoRaSetSpreadingFactor 9 (SX1276LoRaSetSymbTimeout 0x3FF lora_reset)))) = 0x3FF"
  using lora_settings_roundtrip [where w = "0x3FF" and s = lora_reset and e = True and f = 9] by simp

end
