(* ===== verification/Sx1276_Process.thy ===== *)
theory Sx1276_Process
  imports Sx1276_Config
begin

text \<open>
  The state machine of the LoRa modem, \<open>SX1276LoRaProcess\<close> in \<open>sx1276-LoRa.c\<close>, the packet calls around it, the dispatch of
  \<open>sx1276.c\<close>, \<open>lora_init\<close> of \<open>ibox_lora.c\<close> and the loop of \<open>lora_thread.c\<close>.  A call of the state machine takes
  what the hardware shows during it: the registers of the chip, the DIO pins, the readings of the tick counter and the bytes
  its FIFO answers.  \<open>None\<close> is a memory error: an access outside an array.
\<close>

section \<open>State\<close>

datatype tRFLRStates = RFLR_STATE_IDLE | RFLR_STATE_RX_INIT | RFLR_STATE_RX_RUNNING | RFLR_STATE_RX_DONE | RFLR_STATE_RX_TIMEOUT
  | RFLR_STATE_TX_INIT | RFLR_STATE_TX_RUNNING | RFLR_STATE_TX_DONE | RFLR_STATE_TX_TIMEOUT | RFLR_STATE_CAD_INIT | RFLR_STATE_CAD_RUNNING

datatype tRFProcessReturnCodes = RF_IDLE | RF_BUSY | RF_RX_DONE | RF_RX_TIMEOUT | RF_TX_DONE | RF_TX_TIMEOUT | RF_LEN_ERROR
  | RF_CHANNEL_EMPTY | RF_CHANNEL_ACTIVITY_DETECTED

definition RF_BUFFER_SIZE :: nat where "RF_BUFFER_SIZE = 256"

text \<open>The RSSI of a packet is kept in units of 0.0001 dB, in which every value the driver computes is whole.\<close>

record rf_state =
  Radio :: sx1276
  RFBuffer :: "u8 list"
  RFLRState :: tRFLRStates
  RxPacketSize :: u16
  RxPacketSnrEstimate :: int
  RxPacketRssiValue :: int
  RxGain :: u8
  RxTimeoutTimer :: u32
  PacketTimeout :: u32
  TxPacketSize :: u16

text \<open>\<open>tick_dio0\<close>, \<open>tick_dio2\<close> and \<open>tick_now\<close> are the readings of the tick counter at the three places that take one.\<close>

record rf_input =
  in_regs :: "nat \<Rightarrow> u8"
  in_fifo :: "nat \<Rightarrow> u8"
  DIO0 :: bool
  DIO2 :: bool
  DIO3 :: bool
  tick_dio0 :: u32
  tick_dio2 :: u32
  tick_now :: u32

definition on_radio :: "(sx1276 \<Rightarrow> sx1276) \<Rightarrow> rf_state \<Rightarrow> rf_state" where
  "on_radio f st = st\<lparr>Radio := f (Radio st)\<rparr>"

definition set_opmode :: "u8 \<Rightarrow> rf_state \<Rightarrow> rf_state" where
  "set_opmode m = on_radio (\<lambda>s. fst (SX1276LoRaSetOpMode m s))"

text \<open>Assign the copy of a register and write it.\<close>

definition store_reg :: "nat \<Rightarrow> nat \<Rightarrow> u8 \<Rightarrow> rf_state \<Rightarrow> rf_state" where
  "store_reg addr off v = on_radio (\<lambda>s. SX1276Write addr v (put_reg off v s))"

section \<open>Frequency hopping\<close>

definition HoppingFrequencies :: "nat list" where
  "HoppingFrequencies = [
     916500000, 923500000, 906500000, 917500000, 917500000, 909000000, 903000000, 916000000, 912500000, 926000000,
     925000000, 909500000, 913000000, 918500000, 918500000, 902500000, 911500000, 926500000, 902500000, 922000000,
     924000000, 903500000, 913000000, 922000000, 926000000, 910000000, 920000000, 922500000, 911000000, 922000000,
     909500000, 926000000, 922000000, 918000000, 925500000, 908000000, 917500000, 926500000, 908500000, 916000000,
     905500000, 916000000, 903000000, 905000000, 915000000, 913000000, 907000000, 910000000, 926500000, 925500000,
     911000000]"

definition hop_frequency :: "rf_state \<Rightarrow> rf_state option" where
  "hop_frequency st =
     (let s1 = SX1276Read REG_LR_HOPCHANNEL RegHopChannel (Radio st);
          k = unat (Regs s1 RegHopChannel AND 0x3F)
      in if k < length HoppingFrequencies
         then Some (st\<lparr>Radio := SX1276LoRaSetRFFrequency (of_nat (HoppingFrequencies ! k)) s1\<rparr>) else None)"

definition hop_if_on :: "rf_state \<Rightarrow> rf_state option" where
  "hop_if_on st = (if FreqHopOn (LoRaSettings (Radio st)) then hop_frequency st else Some st)"

section \<open>The FIFO of the chip\<close>

definition SX1276ReadFifo :: "u8 \<Rightarrow> rf_input \<Rightarrow> rf_state \<Rightarrow> rf_state" where
  "SX1276ReadFifo n i st = st\<lparr>RFBuffer := map (in_fifo i) [0..<unat n] @ drop (unat n) (RFBuffer st)\<rparr>"

definition SX1276WriteFifo :: "u8 \<Rightarrow> rf_state \<Rightarrow> u8 list" where
  "SX1276WriteFifo n st = take (unat n) (RFBuffer st)"

section \<open>Reception\<close>

definition dio_mapping :: "u8 \<Rightarrow> u8 \<Rightarrow> rf_state \<Rightarrow> rf_state" where
  "dio_mapping a b = on_radio (\<lambda>s. SX1276WriteBuffer REG_LR_DIOMAPPING1 RegDioMapping1 2 (put_reg (RegDioMapping1 + 1) b (put_reg RegDioMapping1 a s)))"

text \<open>The hop period, and the frequency of the channel when the driver hops.\<close>

definition rx_hop :: "rf_state \<Rightarrow> rf_state option" where
  "rx_hop st = (if FreqHopOn (LoRaSettings (Radio st))
            then hop_frequency (on_radio (put_reg RegHopPeriod (HopPeriod (LoRaSettings (Radio st)))) st)
            else Some (on_radio (put_reg RegHopPeriod 255) st))"

definition rx_mode :: "rf_state \<Rightarrow> rf_state" where
  "rx_mode st = (if RxSingleOn (LoRaSettings (Radio st)) then set_opmode 0x06 st
                      else set_opmode 0x05 (store_reg REG_LR_FIFOADDRPTR RegFifoAddrPtr (Regs (Radio st) RegFifoRxBaseAddr) st))"

definition rx_init :: "rf_input \<Rightarrow> rf_state \<Rightarrow> rf_state option" where
  "rx_init i st =
     (case rx_hop (store_reg REG_LR_IRQFLAGSMASK RegIrqFlagsMask 0x9D (set_opmode 0x01 st)) of
        None \<Rightarrow> None
      | Some st2 \<Rightarrow>
          (let st5 = rx_mode (dio_mapping 0x00 0x00 (on_radio (\<lambda>s. SX1276Write REG_LR_HOPPERIOD (Regs s RegHopPeriod) s) st2))
           in Some (st5\<lparr>RFBuffer := replicate RF_BUFFER_SIZE 0, PacketTimeout := RxPacketTimeout (LoRaSettings (Radio st5)),
                       RxTimeoutTimer := tick_now i, RFLRState := RFLR_STATE_RX_RUNNING\<rparr>)))"

definition rx_dio0 :: "rf_input \<Rightarrow> rf_state \<Rightarrow> rf_state option" where
  "rx_dio0 i st =
     (if DIO0 i then
        (case hop_if_on (st\<lparr>RxTimeoutTimer := tick_dio0 i\<rparr>) of
           None \<Rightarrow> None
         | Some st1 \<Rightarrow> Some ((on_radio (SX1276Write REG_LR_IRQFLAGS 0x40) st1)\<lparr>RFLRState := RFLR_STATE_RX_DONE\<rparr>))
      else Some st)"

definition rx_dio2 :: "rf_input \<Rightarrow> rf_state \<Rightarrow> rf_state option" where
  "rx_dio2 i st =
     (if DIO2 i then
        (case hop_if_on (st\<lparr>RxTimeoutTimer := tick_dio2 i\<rparr>) of
           None \<Rightarrow> None
         | Some st1 \<Rightarrow>
             (let (g, s) = SX1276LoRaReadRxGain (SX1276Write REG_LR_IRQFLAGS 0x02 (Radio st1)) in Some (st1\<lparr>Radio := s, RxGain := g\<rparr>)))
      else Some st)"

definition rx_running :: "rf_input \<Rightarrow> rf_state \<Rightarrow> rf_state option" where
  "rx_running i st =
     (case rx_dio0 i st of None \<Rightarrow> None
      | Some st1 \<Rightarrow>
     (case rx_dio2 i st1 of None \<Rightarrow> None
      | Some st2 \<Rightarrow>
          Some (if RxSingleOn (LoRaSettings (Radio st2)) \<and> tick_now i - RxTimeoutTimer st2 > PacketTimeout st2
                then st2\<lparr>RFLRState := RFLR_STATE_RX_TIMEOUT\<rparr> else st2)))"

definition snr_estimate :: "u8 \<Rightarrow> int" where
  "snr_estimate x = (if x AND 0x80 \<noteq> 0 then - uint (drop_bit 2 (NOT x + 1)) else uint (drop_bit 2 x))"

definition packet_rssi :: "u32 \<Rightarrow> int \<Rightarrow> u8 \<Rightarrow> int" where
  "packet_rssi freq snr r =
     (if freq < 860000000
      then (if snr < 0 then -1640000 + 10000 * uint r + 10000 * snr else -1640000 + 10666 * uint r)
      else (if snr < 0 then -1570000 + 10000 * uint r + 10000 * snr else -1570000 + 10666 * uint r))"

definition rx_again :: "rf_state \<Rightarrow> rf_state" where
  "rx_again st = st\<lparr>RFLRState := if RxSingleOn (LoRaSettings (Radio st)) then RFLR_STATE_RX_INIT else RFLR_STATE_RX_RUNNING\<rparr>"

text \<open>The length of the packet: of the copy of the payload length with an implicit header, else as the chip reports it.\<close>

definition rx_length :: "rf_state \<Rightarrow> u8 \<times> rf_state" where
  "rx_length st =
     (if ImplicitHeaderOn (LoRaSettings (Radio st)) then (Regs (Radio st) RegPayloadLength, st)
      else (let st1 = on_radio (SX1276Read REG_LR_NBRXBYTES RegNbRxBytes) st in (Regs (Radio st1) RegNbRxBytes, st1)))"

definition rx_fetch :: "rf_input \<Rightarrow> rf_state \<Rightarrow> rf_state" where
  "rx_fetch i st =
     (if RxSingleOn (LoRaSettings (Radio st)) then
        (let st1 = store_reg REG_LR_FIFOADDRPTR RegFifoAddrPtr (Regs (Radio st) RegFifoRxBaseAddr) st;
             (n, st2) = rx_length st1
         in SX1276ReadFifo n i (st2\<lparr>RxPacketSize := ucast n\<rparr>))
      else
        (let st1 = on_radio (SX1276Read REG_LR_FIFORXCURRENTADDR RegFifoRxCurrentAddr) st;
             (n, st2) = rx_length st1;
             st3 = store_reg REG_LR_FIFOADDRPTR RegFifoAddrPtr (Regs (Radio st2) RegFifoRxCurrentAddr) (st2\<lparr>RxPacketSize := ucast n\<rparr>)
         in SX1276ReadFifo n i st3))"

definition rx_done :: "rf_input \<Rightarrow> rf_state \<Rightarrow> tRFProcessReturnCodes \<times> rf_state" where
  "rx_done i st =
     (let st1 = on_radio (SX1276Read REG_LR_IRQFLAGS RegIrqFlags) st in
      if Regs (Radio st1) RegIrqFlags AND 0x20 = 0x20
      then (RF_BUSY, rx_again (on_radio (SX1276Write REG_LR_IRQFLAGS 0x20) st1))
      else
        (let snr = snr_estimate (Chip (Radio st1) REG_LR_PKTSNRVALUE);
             st2 = on_radio (SX1276Read REG_LR_PKTRSSIVALUE RegPktRssiValue) (st1\<lparr>RxPacketSnrEstimate := snr\<rparr>);
             st3 = st2\<lparr>RxPacketRssiValue := packet_rssi (RFFrequency (LoRaSettings (Radio st2))) snr (Regs (Radio st2) RegPktRssiValue)\<rparr>
         in (RF_RX_DONE, rx_again (rx_fetch i st3))))"

section \<open>Transmission and channel activity\<close>

text \<open>The bytes written to the FIFO are returned.\<close>

definition tx_hop :: "rf_state \<Rightarrow> rf_state option" where
  "tx_hop st =
     (if FreqHopOn (LoRaSettings (Radio st))
      then hop_frequency (on_radio (\<lambda>s. put_reg RegHopPeriod (HopPeriod (LoRaSettings s)) (put_reg RegIrqFlagsMask 0xF5 s)) st)
      else Some (on_radio (\<lambda>s. put_reg RegHopPeriod 0 (put_reg RegIrqFlagsMask 0xF7 s)) st))"

definition tx_load :: "rf_state \<Rightarrow> rf_state" where
  "tx_load st =
     (let st1 = store_reg REG_LR_PAYLOADLENGTH RegPayloadLength (ucast (TxPacketSize st)) st;
          st2 = store_reg REG_LR_FIFOTXBASEADDR RegFifoTxBaseAddr 0x00 st1
      in store_reg REG_LR_FIFOADDRPTR RegFifoAddrPtr (Regs (Radio st2) RegFifoTxBaseAddr) st2)"

definition tx_init :: "rf_state \<Rightarrow> (rf_state \<times> u8 list) option" where
  "tx_init st =
     (case tx_hop (set_opmode 0x01 st) of
        None \<Rightarrow> None
      | Some st2 \<Rightarrow>
          (let st3 = on_radio (\<lambda>s. SX1276Write REG_LR_IRQFLAGSMASK (Regs s RegIrqFlagsMask) (SX1276Write REG_LR_HOPPERIOD (Regs s RegHopPeriod) s)) st2;
               st6 = tx_load st3;
               out = SX1276WriteFifo (Regs (Radio st6) RegPayloadLength) st6;
               st7 = set_opmode 0x03 (dio_mapping 0x41 0x40 st6)
           in Some (st7\<lparr>RFLRState := RFLR_STATE_TX_RUNNING\<rparr>, out)))"

definition tx_running :: "rf_input \<Rightarrow> rf_state \<Rightarrow> rf_state option" where
  "tx_running i st =
     (let st1 = (if DIO0 i then (on_radio (SX1276Write REG_LR_IRQFLAGS 0x08) st)\<lparr>RFLRState := RFLR_STATE_TX_DONE\<rparr> else st) in
      if DIO2 i then
        (case hop_if_on st1 of None \<Rightarrow> None | Some st2 \<Rightarrow> Some (on_radio (SX1276Write REG_LR_IRQFLAGS 0x02) st2))
      else Some st1)"

definition cad_init :: "rf_state \<Rightarrow> rf_state" where
  "cad_init st =
     (set_opmode 0x07 (dio_mapping 0x00 0x00 (store_reg REG_LR_IRQFLAGSMASK RegIrqFlagsMask 0xFA (set_opmode 0x01 st))))
       \<lparr>RFLRState := RFLR_STATE_CAD_RUNNING\<rparr>"

text \<open>The board does not connect DIO4: its read returns 0.\<close>

definition DIO4 :: bool where "DIO4 = False"

definition cad_running :: "rf_input \<Rightarrow> rf_state \<Rightarrow> tRFProcessReturnCodes \<times> rf_state" where
  "cad_running i st =
     (if DIO3 i then
        (let st1 = on_radio (SX1276Write REG_LR_IRQFLAGS 0x04) st in
         if DIO4 then (RF_CHANNEL_ACTIVITY_DETECTED, (on_radio (SX1276Write REG_LR_IRQFLAGS 0x01) st1)\<lparr>RFLRState := RFLR_STATE_RX_INIT\<rparr>)
         else (RF_CHANNEL_EMPTY, st1\<lparr>RFLRState := RFLR_STATE_IDLE\<rparr>))
      else (RF_BUSY, st))"

section \<open>The state machine\<close>

type_synonym process_result = "(tRFProcessReturnCodes \<times> rf_state \<times> u8 list) option"

definition busy :: "rf_state option \<Rightarrow> process_result" where
  "busy r = map_option (\<lambda>st. (RF_BUSY, st, [])) r"

definition SX1276LoRaProcess :: "rf_input \<Rightarrow> rf_state \<Rightarrow> process_result" where
  "SX1276LoRaProcess i st0 =
     (let st = on_radio (\<lambda>s. s\<lparr>Chip := in_regs i\<rparr>) st0 in
      case RFLRState st of
        RFLR_STATE_RX_INIT \<Rightarrow> busy (rx_init i st)
      | RFLR_STATE_RX_RUNNING \<Rightarrow> busy (rx_running i st)
      | RFLR_STATE_RX_DONE \<Rightarrow> (let (c, st1) = rx_done i st in Some (c, st1, []))
      | RFLR_STATE_RX_TIMEOUT \<Rightarrow> Some (RF_RX_TIMEOUT, st\<lparr>RFLRState := RFLR_STATE_RX_INIT\<rparr>, [])
      | RFLR_STATE_TX_INIT \<Rightarrow> map_option (\<lambda>(st1, out). (RF_BUSY, st1, out)) (tx_init st)
      | RFLR_STATE_TX_RUNNING \<Rightarrow> busy (tx_running i st)
      | RFLR_STATE_TX_DONE \<Rightarrow> Some (RF_TX_DONE, (set_opmode 0x01 st)\<lparr>RFLRState := RFLR_STATE_IDLE\<rparr>, [])
      | RFLR_STATE_CAD_INIT \<Rightarrow> Some (RF_BUSY, cad_init st, [])
      | RFLR_STATE_CAD_RUNNING \<Rightarrow> (let (c, st1) = cad_running i st in Some (c, st1, []))
      | _ \<Rightarrow> Some (RF_BUSY, st, []))"

section \<open>Packets\<close>

definition SX1276LoRaSetRFState :: "tRFLRStates \<Rightarrow> rf_state \<Rightarrow> rf_state" where
  "SX1276LoRaSetRFState x st = st\<lparr>RFLRState := x\<rparr>"

definition SX1276LoRaGetRFState :: "rf_state \<Rightarrow> tRFLRStates" where
  "SX1276LoRaGetRFState st = RFLRState st"

definition SX1276LoRaStartRx :: "rf_state \<Rightarrow> rf_state" where
  "SX1276LoRaStartRx st = SX1276LoRaSetRFState RFLR_STATE_RX_INIT st"

text \<open>Copies into the caller's buffer; both have to hold the packet.\<close>

definition SX1276LoRaGetRxPacket :: "u8 list \<Rightarrow> rf_state \<Rightarrow> (u8 list \<times> u16 \<times> rf_state) option" where
  "SX1276LoRaGetRxPacket buffer st =
     (let n = unat (RxPacketSize st) in
      if n \<le> length buffer \<and> n \<le> length (RFBuffer st)
      then Some (take n (RFBuffer st) @ drop n buffer, RxPacketSize st, st\<lparr>RxPacketSize := 0\<rparr>) else None)"

definition SX1276LoRaSetTxPacket :: "u8 list \<Rightarrow> u16 \<Rightarrow> rf_state \<Rightarrow> rf_state option" where
  "SX1276LoRaSetTxPacket buffer sz st =
     (let n = unat sz in
      if n \<le> length buffer \<and> n \<le> length (RFBuffer st)
      then Some (st\<lparr>TxPacketSize := sz, RFBuffer := take n buffer @ drop n (RFBuffer st), RFLRState := RFLR_STATE_TX_INIT\<rparr>) else None)"

section \<open>The radio and its thread\<close>

text \<open>
  The functions of \<open>sx1276.c\<close> that choose the modem.  The build selects LoRa; a call that would reach the FSK modem, which has a
  state of its own (\<open>Fsk_Process\<close>), gives \<open>None\<close>.
\<close>

definition SX1276Process :: "rf_input \<Rightarrow> rf_state \<Rightarrow> process_result" where
  "SX1276Process i st = (if \<not> LoRaOn (Radio st) then None else SX1276LoRaProcess i st)"

definition SX1276GetRxPacket :: "u8 list \<Rightarrow> rf_state \<Rightarrow> (u8 list \<times> u16 \<times> rf_state) option" where
  "SX1276GetRxPacket buffer st = (if \<not> LoRaOn (Radio st) then None else SX1276LoRaGetRxPacket buffer st)"

definition SX1276SetTxPacket :: "u8 list \<Rightarrow> u16 \<Rightarrow> rf_state \<Rightarrow> rf_state option" where
  "SX1276SetTxPacket buffer sz st = (if \<not> LoRaOn (Radio st) then None else SX1276LoRaSetTxPacket buffer sz st)"

definition SX1276SetRFState :: "tRFLRStates \<Rightarrow> rf_state \<Rightarrow> rf_state option" where
  "SX1276SetRFState x st = (if \<not> LoRaOn (Radio st) then None else Some (SX1276LoRaSetRFState x st))"

definition SX1276StartRx :: "rf_state \<Rightarrow> rf_state option" where
  "SX1276StartRx st = (if \<not> LoRaOn (Radio st) then None else Some (SX1276LoRaSetRFState RFLR_STATE_RX_INIT st))"

text \<open>After the reset the registers of the chip are \<open>por\<close>.\<close>

definition SX1276Init :: "(nat \<Rightarrow> u8) \<Rightarrow> rf_state \<Rightarrow> rf_state" where
  "SX1276Init por st =
     (let st1 = on_radio (\<lambda>s. s\<lparr>Chip := por, LoRaOn := True\<rparr>) st;
          st2 = on_radio (\<lambda>s. fst (SX1276SetLoRaOn (LoRaOn s) s)) st1
      in (on_radio (\<lambda>s. fst (SX1276LoRaInit s)) st2)\<lparr>RFLRState := RFLR_STATE_IDLE\<rparr>)"

definition lora_init :: "(nat \<Rightarrow> u8) \<Rightarrow> rf_state \<Rightarrow> rf_state option" where
  "lora_init por st = SX1276SetRFState RFLR_STATE_RX_INIT (SX1276Init por st)"

record lora_thread =
  rf :: rf_state
  lora_rx_buf :: "u8 list"
  lora_rx_len :: u16

definition LORA_RX_SIZE :: nat where "LORA_RX_SIZE = 256"

text \<open>One turn of the loop of the thread.\<close>

definition lora_turn :: "rf_input \<Rightarrow> lora_thread \<Rightarrow> lora_thread option" where
  "lora_turn i t =
     (case SX1276Process i (rf t) of
        None \<Rightarrow> None
      | Some (c, st, _) \<Rightarrow>
          (if c = RF_RX_DONE then
             (case SX1276GetRxPacket (lora_rx_buf t) st of
                None \<Rightarrow> None
              | Some (b, n, st1) \<Rightarrow> Some (t\<lparr>rf := st1, lora_rx_buf := b, lora_rx_len := n\<rparr>))
           else Some (t\<lparr>rf := st\<rparr>)))"

fun lora_thread_entry :: "rf_input list \<Rightarrow> lora_thread \<Rightarrow> lora_thread option" where
  "lora_thread_entry [] t = Some t"
| "lora_thread_entry (i # is) t = (case lora_turn i t of None \<Rightarrow> None | Some t1 \<Rightarrow> lora_thread_entry is t1)"

end
