(* ===== verification/Lora_Radio.thy ===== *)
theory Lora_Radio
  imports Sx1276_Process
begin

text \<open>
  Correctness of the LoRa state machine: the protocol its states follow, the invariant of the driver and its consequence that no
  call touches memory outside its buffers, what is received and sent, time-outs, and the thread that collects the packets.
\<close>

section \<open>What the steps leave alone\<close>

lemma on_radio_simps [simp]:
  "Radio (on_radio f st) = f (Radio st)" "RFBuffer (on_radio f st) = RFBuffer st" "RFLRState (on_radio f st) = RFLRState st"
  "RxPacketSize (on_radio f st) = RxPacketSize st" "RxTimeoutTimer (on_radio f st) = RxTimeoutTimer st"
  "PacketTimeout (on_radio f st) = PacketTimeout st" "TxPacketSize (on_radio f st) = TxPacketSize st"
  by (simp_all add: on_radio_def)

lemma on_radio_state [simp]: "(on_radio f st)\<lparr>RFLRState := x\<rparr> = on_radio f (st\<lparr>RFLRState := x\<rparr>)"
  by (simp add: on_radio_def)

lemma access_modem [simp]:
  "LoRaOn (SX1276Write a v s) = LoRaOn s" "LoRaOn (SX1276Read a k s) = LoRaOn s" "LoRaOn (put_reg k v s) = LoRaOn s"
  "LoRaOn (SX1276WriteBuffer a k n s) = LoRaOn s" "LoRaOn (fst (SX1276LoRaSetOpMode m s)) = LoRaOn s" "LoRaOn (upd_settings g s) = LoRaOn s"
  "LoRaOn (SX1276LoRaSetRFFrequency f s) = LoRaOn s" "LoRaOn (snd (SX1276LoRaReadRxGain s)) = LoRaOn s"
  by (simp_all add: access_defs SX1276LoRaSetOpMode_def SX1276LoRaSetRFFrequency_def SX1276LoRaReadRxGain_def Let_def)

lemma access_settings [simp]:
  "LoRaSettings (SX1276Write a v s) = LoRaSettings s" "LoRaSettings (SX1276Read a k s) = LoRaSettings s"
  "LoRaSettings (put_reg k v s) = LoRaSettings s" "LoRaSettings (SX1276WriteBuffer a k n s) = LoRaSettings s"
  "LoRaSettings (fst (SX1276LoRaSetOpMode m s)) = LoRaSettings s" "LoRaSettings (snd (SX1276LoRaReadRxGain s)) = LoRaSettings s"
  by (simp_all add: access_defs SX1276LoRaSetOpMode_def SX1276LoRaReadRxGain_def Let_def)

text \<open>The operating mode in the copy of the registers.\<close>

definition opmode :: "sx1276 \<Rightarrow> u8" where
  "opmode s = Regs s 1 AND 0x07"

definition lora_bit :: "sx1276 \<Rightarrow> bool" where
  "lora_bit s \<longleftrightarrow> bit (Regs s 1) 7"

lemma access_opmode [simp]:
  "Regs (SX1276WriteBuffer a k n s) = Regs s" "Regs (snd (SX1276LoRaReadRxGain s)) 1 = Regs s 1" "Regs (SX1276LoRaSetRFFrequency f s) 1 = Regs s 1"
  by (simp_all add: access_defs SX1276LoRaReadRxGain_def SX1276LoRaSetRFFrequency_def Let_def reg_addr reg_off)

lemma opmode_bits: "v < 8 \<Longrightarrow> ((r AND 0xF8) OR v) AND 0x07 = (v :: u8)" "v < 8 \<Longrightarrow> bit ((r AND 0xF8) OR v) 7 \<longleftrightarrow> bit r 7"
proof -
  assume "v < 8"
  moreover from this have "v < 16" by (simp add: word_less_nat_alt)
  ultimately show "((r AND 0xF8) OR v) AND 0x07 = v" "bit ((r AND 0xF8) OR v) 7 \<longleftrightarrow> bit r 7"
    by (simp_all add: u8_bits_eq bit_simps u8_small u8_small3)
qed

lemma set_opmode_copy [simp]:
  assumes "m < 8"
  shows "opmode (fst (SX1276LoRaSetOpMode m s)) = m" "lora_bit (fst (SX1276LoRaSetOpMode m s)) = lora_bit s"
  using opmode_bits [OF assms, of "Regs s 1"]
  by (simp_all add: SX1276LoRaSetOpMode_def opmode_def lora_bit_def Let_def reg_addr reg_off put_reg_def SX1276Write_def)

lemma copy_kept [simp]:
  "opmode (SX1276Write a v s) = opmode s" "lora_bit (SX1276Write a v s) = lora_bit s"
  "opmode (SX1276WriteBuffer a k n s) = opmode s" "lora_bit (SX1276WriteBuffer a k n s) = lora_bit s"
  "opmode (SX1276LoRaSetRFFrequency f s) = opmode s" "lora_bit (SX1276LoRaSetRFFrequency f s) = lora_bit s"
  "opmode (snd (SX1276LoRaReadRxGain s)) = opmode s" "lora_bit (snd (SX1276LoRaReadRxGain s)) = lora_bit s"
  "opmode (s\<lparr>Chip := h\<rparr>) = opmode s" "lora_bit (s\<lparr>Chip := h\<rparr>) = lora_bit s"
  "1 < k \<Longrightarrow> opmode (put_reg k v s) = opmode s" "1 < k \<Longrightarrow> lora_bit (put_reg k v s) = lora_bit s"
  "1 < k \<Longrightarrow> opmode (SX1276Read a k s) = opmode s" "1 < k \<Longrightarrow> lora_bit (SX1276Read a k s) = lora_bit s"
  by (simp_all only: opmode_def lora_bit_def access_opmode) (simp_all)

section \<open>The invariant\<close>

text \<open>While the modem receives, sends or listens for activity, the copy of its mode register says so.\<close>

definition mode_ok :: "tRFLRStates \<Rightarrow> u8 \<Rightarrow> bool" where
  "mode_ok x m =
     (if x \<in> {RFLR_STATE_RX_RUNNING, RFLR_STATE_RX_DONE, RFLR_STATE_RX_TIMEOUT} then m \<in> {5, 6}
      else if x \<in> {RFLR_STATE_TX_RUNNING, RFLR_STATE_TX_DONE} then m = 3
      else if x = RFLR_STATE_CAD_RUNNING then m = 7 else True)"

definition lora_wf :: "rf_state \<Rightarrow> bool" where
  "lora_wf st \<longleftrightarrow> length (RFBuffer st) = RF_BUFFER_SIZE \<and> RxPacketSize st < 256 \<and> LoRaOn (Radio st) \<and> lora_bit (Radio st) \<and>
     mode_ok (RFLRState st) (opmode (Radio st))"

text \<open>Steps that do not end the hopping table.\<close>

definition hopping :: "rf_state \<Rightarrow> bool" where
  "hopping st \<longleftrightarrow> FreqHopOn (LoRaSettings (Radio st))"

lemma hop_if_on_off: "\<not> hopping st \<Longrightarrow> hop_if_on st = Some st"
  by (simp add: hop_if_on_def hopping_def)

text \<open>What the register accesses of the state machine keep of the driver.\<close>

definition same_driver :: "rf_state \<Rightarrow> rf_state \<Rightarrow> bool" where
  "same_driver st st' \<longleftrightarrow> RFBuffer st' = RFBuffer st \<and> RxPacketSize st' = RxPacketSize st \<and> PacketTimeout st' = PacketTimeout st \<and>
     TxPacketSize st' = TxPacketSize st \<and> LoRaOn (Radio st') = LoRaOn (Radio st) \<and> lora_bit (Radio st') = lora_bit (Radio st) \<and>
     RxSingleOn (LoRaSettings (Radio st')) = RxSingleOn (LoRaSettings (Radio st)) \<and>
     ImplicitHeaderOn (LoRaSettings (Radio st')) = ImplicitHeaderOn (LoRaSettings (Radio st)) \<and>
     RxPacketTimeout (LoRaSettings (Radio st')) = RxPacketTimeout (LoRaSettings (Radio st)) \<and> hopping st' = hopping st"

lemma same_refl [simp, intro]: "same_driver st st"
  by (simp add: same_driver_def)

lemma same_trans [trans]: "same_driver st st1 \<Longrightarrow> same_driver st1 st2 \<Longrightarrow> same_driver st st2"
  by (simp add: same_driver_def)

text \<open>Beside these, the mode and the state of the machine.\<close>

definition calm :: "rf_state \<Rightarrow> rf_state \<Rightarrow> bool" where
  "calm st st' \<longleftrightarrow> same_driver st st' \<and> opmode (Radio st') = opmode (Radio st) \<and> RFLRState st' = RFLRState st \<and> RxTimeoutTimer st' = RxTimeoutTimer st"

lemma calm_trans [trans]: "calm st st1 \<Longrightarrow> calm st1 st2 \<Longrightarrow> calm st st2"
  by (auto simp: calm_def intro: same_trans)

lemma calm_steps [simp, intro]:
  "calm st st" "1 < k \<Longrightarrow> calm st (store_reg a k v st)" "1 < k \<Longrightarrow> calm st (on_radio (put_reg k v) st)"
  "calm st (on_radio (SX1276Write a v) st)" "1 < k \<Longrightarrow> calm st (on_radio (SX1276Read a k) st)"
  "calm st (dio_mapping v w st)" "calm st (on_radio (\<lambda>s. s\<lparr>Chip := h\<rparr>) st)"
  by (simp_all add: calm_def same_driver_def store_reg_def dio_mapping_def hopping_def RegDioMapping1_def)

lemma calm_hop: "hop_frequency st = Some st1 \<Longrightarrow> calm st st1"
  by (auto simp: calm_def same_driver_def hop_frequency_def hopping_def Let_def RegHopChannel_def split: if_splits)

lemma calm_hop_if_on: "hop_if_on st = Some st1 \<Longrightarrow> calm st st1"
  by (auto simp: hop_if_on_def calm_hop split: if_splits)

lemma set_opmode_same [simp]:
  "m < 8 \<Longrightarrow> same_driver st (set_opmode m st)" "m < 8 \<Longrightarrow> opmode (Radio (set_opmode m st)) = m" "RFLRState (set_opmode m st) = RFLRState st"
  by (simp_all add: same_driver_def set_opmode_def hopping_def)

lemma calm_same: "calm st st1 \<Longrightarrow> same_driver st st1"
  by (simp add: calm_def)

lemma wf_same: "lora_wf st \<Longrightarrow> same_driver st st1 \<Longrightarrow> mode_ok (RFLRState st1) (opmode (Radio st1)) \<Longrightarrow> lora_wf st1"
  by (simp add: lora_wf_def same_driver_def)

lemma wf_calm: "lora_wf st \<Longrightarrow> calm st st1 \<Longrightarrow> lora_wf st1"
  by (simp add: lora_wf_def calm_def same_driver_def)

section \<open>Receiving: set-up\<close>

lemma rx_hop_calm:
  assumes "rx_hop st = Some st1"
  shows "calm st st1"
proof (cases "FreqHopOn (LoRaSettings (Radio st))")
  case True
  with assms have "calm (on_radio (put_reg RegHopPeriod (HopPeriod (LoRaSettings (Radio st)))) st) st1"
    by (simp add: rx_hop_def calm_hop)
  then show ?thesis by (rule calm_trans [rotated]) (simp add: RegHopPeriod_def)
qed (use assms in \<open>auto simp: rx_hop_def RegHopPeriod_def\<close>)

lemma rx_mode_same: "same_driver st (rx_mode st)" "opmode (Radio (rx_mode st)) = (if RxSingleOn (LoRaSettings (Radio st)) then 6 else 5)"
proof -
  have "same_driver st (store_reg REG_LR_FIFOADDRPTR RegFifoAddrPtr v st)" for v by (rule calm_same) (simp add: RegFifoAddrPtr_def)
  then show "same_driver st (rx_mode st)" by (auto simp: rx_mode_def intro: same_trans [OF _ set_opmode_same(1)])
qed (simp add: rx_mode_def)

lemma on_radio_write_calm [simp]: "calm st (on_radio (\<lambda>s. SX1276Write a (Regs s k) s) st)"
  by (simp add: calm_def same_driver_def hopping_def)

lemma rx_init_result:
  assumes "rx_init i st = Some st1"
  shows "same_driver st (st1\<lparr>RFBuffer := RFBuffer st, PacketTimeout := PacketTimeout st\<rparr>)"
    "RFBuffer st1 = replicate RF_BUFFER_SIZE 0" "PacketTimeout st1 = RxPacketTimeout (LoRaSettings (Radio st))" "RxTimeoutTimer st1 = tick_now i"
    "RFLRState st1 = RFLR_STATE_RX_RUNNING" "opmode (Radio st1) = (if RxSingleOn (LoRaSettings (Radio st)) then 6 else 5)"
proof -
  let ?a = "store_reg REG_LR_IRQFLAGSMASK RegIrqFlagsMask 0x9D (set_opmode 0x01 st)"
  obtain st2 where st2: "rx_hop ?a = Some st2"
    and st1: "st1 = (let st5 = rx_mode (dio_mapping 0x00 0x00 (on_radio (\<lambda>s. SX1276Write REG_LR_HOPPERIOD (Regs s RegHopPeriod) s) st2))
         in (st5\<lparr>RFBuffer := replicate RF_BUFFER_SIZE 0, PacketTimeout := RxPacketTimeout (LoRaSettings (Radio st5)),
                       RxTimeoutTimer := tick_now i, RFLRState := RFLR_STATE_RX_RUNNING\<rparr>))"
    using assms unfolding rx_init_def by (auto simp: Let_def split: option.splits)
  let ?b = "dio_mapping 0x00 0x00 (on_radio (\<lambda>s. SX1276Write REG_LR_HOPPERIOD (Regs s RegHopPeriod) s) st2)"
  have "same_driver st (set_opmode 0x01 st)" by simp
  also have "same_driver (set_opmode 0x01 st) ?a" by (rule calm_same) (simp add: RegIrqFlagsMask_def)
  also have "same_driver ?a st2" by (rule calm_same [OF rx_hop_calm [OF st2]])
  also have "same_driver st2 (on_radio (\<lambda>s. SX1276Write REG_LR_HOPPERIOD (Regs s RegHopPeriod) s) st2)" by (rule calm_same) simp
  also have "same_driver (on_radio (\<lambda>s. SX1276Write REG_LR_HOPPERIOD (Regs s RegHopPeriod) s) st2) ?b" by (rule calm_same) simp
  finally have b: "same_driver st ?b" .
  then have c: "same_driver st (rx_mode ?b)" using rx_mode_same(1) by (rule same_trans)
  have m: "opmode (Radio (rx_mode ?b)) = (if RxSingleOn (LoRaSettings (Radio st)) then 6 else 5)"
    using b rx_mode_same(2) by (simp add: same_driver_def)
  show "same_driver st (st1\<lparr>RFBuffer := RFBuffer st, PacketTimeout := PacketTimeout st\<rparr>)"
    "RFBuffer st1 = replicate RF_BUFFER_SIZE 0" "PacketTimeout st1 = RxPacketTimeout (LoRaSettings (Radio st))" "RxTimeoutTimer st1 = tick_now i"
    "RFLRState st1 = RFLR_STATE_RX_RUNNING" "opmode (Radio st1) = (if RxSingleOn (LoRaSettings (Radio st)) then 6 else 5)"
    using c m by (simp_all add: st1 Let_def same_driver_def hopping_def)
qed

section \<open>Receiving: the packet\<close>

lemma rx_dio0_result:
  assumes "rx_dio0 i st = Some st1"
  shows "same_driver st st1" "opmode (Radio st1) = opmode (Radio st)" "RFLRState st1 = (if DIO0 i then RFLR_STATE_RX_DONE else RFLRState st)"
    "RxTimeoutTimer st1 = (if DIO0 i then tick_dio0 i else RxTimeoutTimer st)"
proof -
  have "same_driver st st1 \<and> opmode (Radio st1) = opmode (Radio st) \<and> RFLRState st1 = (if DIO0 i then RFLR_STATE_RX_DONE else RFLRState st) \<and>
    RxTimeoutTimer st1 = (if DIO0 i then tick_dio0 i else RxTimeoutTimer st)"
  proof (cases "DIO0 i")
    case True
    with assms obtain st2 where "hop_if_on (st\<lparr>RxTimeoutTimer := tick_dio0 i\<rparr>) = Some st2"
      "st1 = (on_radio (SX1276Write REG_LR_IRQFLAGS 0x40) st2)\<lparr>RFLRState := RFLR_STATE_RX_DONE\<rparr>"
      by (auto simp: rx_dio0_def split: option.splits)
    then show ?thesis using True calm_hop_if_on by (fastforce simp: calm_def same_driver_def hopping_def)
  qed (use assms in \<open>simp add: rx_dio0_def\<close>)
  then show "same_driver st st1" "opmode (Radio st1) = opmode (Radio st)" "RFLRState st1 = (if DIO0 i then RFLR_STATE_RX_DONE else RFLRState st)"
    "RxTimeoutTimer st1 = (if DIO0 i then tick_dio0 i else RxTimeoutTimer st)" by auto
qed

lemma rx_dio2_result:
  assumes "rx_dio2 i st = Some st1"
  shows "same_driver st st1" "opmode (Radio st1) = opmode (Radio st)" "RFLRState st1 = RFLRState st"
    "RxTimeoutTimer st1 = (if DIO2 i then tick_dio2 i else RxTimeoutTimer st)"
proof -
  have "same_driver st st1 \<and> opmode (Radio st1) = opmode (Radio st) \<and> RFLRState st1 = RFLRState st \<and>
    RxTimeoutTimer st1 = (if DIO2 i then tick_dio2 i else RxTimeoutTimer st)"
  proof (cases "DIO2 i")
    case True
    with assms obtain st2 where "hop_if_on (st\<lparr>RxTimeoutTimer := tick_dio2 i\<rparr>) = Some st2"
      "Radio st1 = snd (SX1276LoRaReadRxGain (SX1276Write REG_LR_IRQFLAGS 0x02 (Radio st2)))"
      "RFBuffer st1 = RFBuffer st2" "RxPacketSize st1 = RxPacketSize st2" "PacketTimeout st1 = PacketTimeout st2" "TxPacketSize st1 = TxPacketSize st2"
      "RFLRState st1 = RFLRState st2" "RxTimeoutTimer st1 = RxTimeoutTimer st2"
      by (auto simp: rx_dio2_def split_beta Let_def split: option.splits)
    then show ?thesis using True calm_hop_if_on by (fastforce simp: calm_def same_driver_def hopping_def)
  qed (use assms in \<open>simp add: rx_dio2_def\<close>)
  then show "same_driver st st1" "opmode (Radio st1) = opmode (Radio st)" "RFLRState st1 = RFLRState st"
    "RxTimeoutTimer st1 = (if DIO2 i then tick_dio2 i else RxTimeoutTimer st)" by auto
qed

text \<open>The time a reception has been waiting, as the driver counts it: the timer restarts with each event of the call.\<close>

definition rx_waited :: "rf_input \<Rightarrow> rf_state \<Rightarrow> u32" where
  "rx_waited i st = tick_now i - (if DIO2 i then tick_dio2 i else if DIO0 i then tick_dio0 i else RxTimeoutTimer st)"

definition rx_late :: "rf_input \<Rightarrow> rf_state \<Rightarrow> bool" where
  "rx_late i st \<longleftrightarrow> RxSingleOn (LoRaSettings (Radio st)) \<and> rx_waited i st > PacketTimeout st"

lemma rx_running_result:
  assumes "rx_running i st = Some st1"
  shows "same_driver st st1" "opmode (Radio st1) = opmode (Radio st)"
    "RFLRState st1 = (if rx_late i st then RFLR_STATE_RX_TIMEOUT else if DIO0 i then RFLR_STATE_RX_DONE else RFLRState st)"
proof -
  obtain sa sb where sa: "rx_dio0 i st = Some sa" and sb: "rx_dio2 i sa = Some sb"
    and st1: "st1 = (if RxSingleOn (LoRaSettings (Radio sb)) \<and> tick_now i - RxTimeoutTimer sb > PacketTimeout sb
                then sb\<lparr>RFLRState := RFLR_STATE_RX_TIMEOUT\<rparr> else sb)"
    using assms by (auto simp: rx_running_def split: option.splits)
  note a = rx_dio0_result [OF sa] and b = rx_dio2_result [OF sb]
  have same: "same_driver st sb" using a(1) b(1) by (rule same_trans)
  then show "same_driver st st1" "opmode (Radio st1) = opmode (Radio st)"
    using a(2) b(2) by (auto simp: st1 same_driver_def hopping_def)
  show "RFLRState st1 = (if rx_late i st then RFLR_STATE_RX_TIMEOUT else if DIO0 i then RFLR_STATE_RX_DONE else RFLRState st)"
    using same a(3,4) b(3,4) by (auto simp: st1 rx_late_def rx_waited_def same_driver_def)
qed

text \<open>The bytes a reception of \<open>n\<close> bytes leaves in the buffer.\<close>

definition rx_bytes :: "u8 \<Rightarrow> rf_input \<Rightarrow> rf_state \<Rightarrow> u8 list" where
  "rx_bytes n i st = map (in_fifo i) [0..<unat n] @ drop (unat n) (RFBuffer st)"

text \<open>The length the packet has: the configured one with an implicit header, else the one the chip reports.\<close>

definition rx_count :: "rf_state \<Rightarrow> u8" where
  "rx_count st = (if ImplicitHeaderOn (LoRaSettings (Radio st)) then Regs (Radio st) RegPayloadLength else Chip (Radio st) REG_LR_NBRXBYTES)"

lemma rx_length_result:
  "fst (rx_length st) = rx_count st" "calm st (snd (rx_length st))"
  by (simp_all add: rx_length_def rx_count_def Let_def RegNbRxBytes_def)

lemma rx_fetch_result:
  "RFBuffer (rx_fetch i st) = rx_bytes (rx_count st) i st \<and> RxPacketSize (rx_fetch i st) = ucast (rx_count st) \<and>
   LoRaOn (Radio (rx_fetch i st)) = LoRaOn (Radio st) \<and> lora_bit (Radio (rx_fetch i st)) = lora_bit (Radio st) \<and>
   opmode (Radio (rx_fetch i st)) = opmode (Radio st) \<and> LoRaSettings (Radio (rx_fetch i st)) = LoRaSettings (Radio st) \<and>
   PacketTimeout (rx_fetch i st) = PacketTimeout st"
  by (simp add: rx_fetch_def rx_length_def rx_count_def rx_bytes_def SX1276ReadFifo_def store_reg_def Let_def reg_addr reg_off)

lemma rx_done_crc:
  assumes "Chip (Radio st) REG_LR_IRQFLAGS AND 0x20 = 0x20"
  shows "rx_done i st = (RF_BUSY, rx_again (on_radio (SX1276Write REG_LR_IRQFLAGS 0x20) (on_radio (SX1276Read REG_LR_IRQFLAGS RegIrqFlags) st)))"
  using assms by (simp add: rx_done_def Let_def)

lemma rx_done_packet:
  assumes "Chip (Radio st) REG_LR_IRQFLAGS AND 0x20 \<noteq> 0x20" "rx_done i st = (c, st1)"
  shows "c = RF_RX_DONE" "RFBuffer st1 = rx_bytes (rx_count st) i st" "RxPacketSize st1 = ucast (rx_count st)"
    "LoRaOn (Radio st1) = LoRaOn (Radio st)" "lora_bit (Radio st1) = lora_bit (Radio st)" "opmode (Radio st1) = opmode (Radio st)"
    "LoRaSettings (Radio st1) = LoRaSettings (Radio st)"
    "RFLRState st1 = (if RxSingleOn (LoRaSettings (Radio st)) then RFLR_STATE_RX_INIT else RFLR_STATE_RX_RUNNING)"
proof -
  define snr where "snr = snr_estimate (Chip (Radio st) REG_LR_PKTSNRVALUE)"
  define sa where "sa = on_radio (SX1276Read REG_LR_PKTRSSIVALUE RegPktRssiValue) ((on_radio (SX1276Read REG_LR_IRQFLAGS RegIrqFlags) st)\<lparr>RxPacketSnrEstimate := snr\<rparr>)"
  define sb where "sb = sa\<lparr>RxPacketRssiValue := packet_rssi (RFFrequency (LoRaSettings (Radio sa))) snr (Regs (Radio sa) RegPktRssiValue)\<rparr>"
  have eq: "rx_done i st = (RF_RX_DONE, rx_again (rx_fetch i sb))"
    using assms(1) by (simp add: rx_done_def Let_def sb_def sa_def snr_def)
  have sb: "LoRaOn (Radio sb) = LoRaOn (Radio st)" "lora_bit (Radio sb) = lora_bit (Radio st)" "opmode (Radio sb) = opmode (Radio st)"
    "LoRaSettings (Radio sb) = LoRaSettings (Radio st)" "rx_count sb = rx_count st" "rx_bytes n i sb = rx_bytes n i st" for n
    by (simp_all add: sb_def sa_def rx_count_def rx_bytes_def reg_off)
  have st1: "c = RF_RX_DONE" "st1 = rx_again (rx_fetch i sb)" using assms(2) eq by simp_all
  show "c = RF_RX_DONE" "RFBuffer st1 = rx_bytes (rx_count st) i st" "RxPacketSize st1 = ucast (rx_count st)"
    "LoRaOn (Radio st1) = LoRaOn (Radio st)" "lora_bit (Radio st1) = lora_bit (Radio st)" "opmode (Radio st1) = opmode (Radio st)"
    "LoRaSettings (Radio st1) = LoRaSettings (Radio st)"
    "RFLRState st1 = (if RxSingleOn (LoRaSettings (Radio st)) then RFLR_STATE_RX_INIT else RFLR_STATE_RX_RUNNING)"
    using rx_fetch_result [of i sb] by (simp_all add: st1 sb rx_again_def)
qed

lemma u8_lt: "unat (n :: u8) < 256"
proof -
  have "unat n < 2 ^ LENGTH(8)" by (rule unsigned_less)
  then show ?thesis by simp
qed

lemma rx_bytes_length: "length (RFBuffer st) = RF_BUFFER_SIZE \<Longrightarrow> length (rx_bytes n i st) = RF_BUFFER_SIZE"
  by (simp add: rx_bytes_def RF_BUFFER_SIZE_def le_add_diff_inverse [OF less_imp_le [OF u8_lt]])

lemma u8_to_u16: "(ucast (n :: u8) :: u16) < 256" "unat (ucast (n :: u8) :: u16) = unat n"
proof -
  have "unat n < 256" by (rule u8_lt)
  then show "unat (ucast n :: u16) = unat n" by (simp add: unsigned_ucast_eq take_bit_nat_eq_self [OF less_trans [OF u8_lt]])
  with \<open>unat n < 256\<close> show "(ucast n :: u16) < 256" by (simp add: word_less_nat_alt)
qed

section \<open>Sending\<close>

lemma tx_hop_calm:
  assumes "tx_hop st = Some st1"
  shows "calm st st1"
proof -
  let ?p = "\<lambda>h m. on_radio (\<lambda>s. put_reg RegHopPeriod (h s) (put_reg RegIrqFlagsMask m s)) st"
  have q: "calm st (?p h m)" for h m by (simp add: calm_def same_driver_def hopping_def reg_off)
  show ?thesis
  proof (cases "FreqHopOn (LoRaSettings (Radio st))")
    case True
    with assms have "calm (?p (\<lambda>s. HopPeriod (LoRaSettings s)) 0xF5) st1" by (simp add: tx_hop_def calm_hop)
    with q show ?thesis by (rule calm_trans)
  qed (use assms q [of "\<lambda>_. 0"] in \<open>auto simp: tx_hop_def\<close>)
qed

lemma tx_load_result:
  "calm st (tx_load st)" "Regs (Radio (tx_load st)) RegPayloadLength = ucast (TxPacketSize st)"
  "Chip (Radio (tx_load st)) REG_LR_PAYLOADLENGTH = ucast (TxPacketSize st)"
  by (simp_all add: tx_load_def calm_def same_driver_def hopping_def store_reg_def Let_def reg_addr reg_off)

lemma tx_init_result:
  assumes "tx_init st = Some (st1, out)"
  shows "same_driver st st1" "opmode (Radio st1) = 3" "RFLRState st1 = RFLR_STATE_TX_RUNNING"
    "out = take (unat (ucast (TxPacketSize st) :: u8)) (RFBuffer st)"
proof -
  obtain sa where sa: "tx_hop (set_opmode 0x01 st) = Some sa" using assms by (auto simp: tx_init_def split: option.splits)
  let ?b = "on_radio (\<lambda>s. SX1276Write REG_LR_IRQFLAGSMASK (Regs s RegIrqFlagsMask) (SX1276Write REG_LR_HOPPERIOD (Regs s RegHopPeriod) s)) sa"
  have eq: "st1 = (set_opmode 0x03 (dio_mapping 0x41 0x40 (tx_load ?b)))\<lparr>RFLRState := RFLR_STATE_TX_RUNNING\<rparr>"
    "out = SX1276WriteFifo (Regs (Radio (tx_load ?b)) RegPayloadLength) (tx_load ?b)"
    using assms sa by (simp_all add: tx_init_def Let_def)
  have "same_driver st (set_opmode 0x01 st)" by simp
  also have "same_driver (set_opmode 0x01 st) sa" by (rule calm_same [OF tx_hop_calm [OF sa]])
  also have b: "same_driver sa ?b" by (simp add: same_driver_def hopping_def)
  finally have "same_driver st ?b" .
  also have "same_driver ?b (tx_load ?b)" by (rule calm_same [OF tx_load_result(1)])
  finally have load: "same_driver st (tx_load ?b)" .
  also have "same_driver (tx_load ?b) (dio_mapping 0x41 0x40 (tx_load ?b))" by (rule calm_same) simp
  also have "same_driver (dio_mapping 0x41 0x40 (tx_load ?b)) (set_opmode 0x03 (dio_mapping 0x41 0x40 (tx_load ?b)))" by simp
  finally show "same_driver st st1" by (simp add: eq same_driver_def hopping_def)
  show "opmode (Radio st1) = 3" "RFLRState st1 = RFLR_STATE_TX_RUNNING" by (simp_all add: eq)
  show "out = take (unat (ucast (TxPacketSize st) :: u8)) (RFBuffer st)"
    using \<open>same_driver st ?b\<close> load by (simp add: eq SX1276WriteFifo_def tx_load_result same_driver_def)
qed

lemma tx_running_result:
  assumes "tx_running i st = Some st1"
  shows "same_driver st st1" "opmode (Radio st1) = opmode (Radio st)" "RFLRState st1 = (if DIO0 i then RFLR_STATE_TX_DONE else RFLRState st)"
proof -
  define sa where "sa = (if DIO0 i then (on_radio (SX1276Write REG_LR_IRQFLAGS 0x08) st)\<lparr>RFLRState := RFLR_STATE_TX_DONE\<rparr> else st)"
  have sa: "same_driver st sa" "opmode (Radio sa) = opmode (Radio st)" "RFLRState sa = (if DIO0 i then RFLR_STATE_TX_DONE else RFLRState st)"
    by (simp_all add: sa_def same_driver_def hopping_def)
  have "calm sa st1"
  proof (cases "DIO2 i")
    case True
    with assms obtain sb where sb: "hop_if_on sa = Some sb" "st1 = on_radio (SX1276Write REG_LR_IRQFLAGS 0x02) sb"
      by (auto simp: tx_running_def Let_def sa_def [symmetric] split: option.splits)
    then have "calm sa sb" by (simp add: calm_hop_if_on)
    then show ?thesis by (rule calm_trans) (simp add: sb)
  qed (use assms in \<open>simp add: tx_running_def Let_def sa_def [symmetric]\<close>)
  with sa show "same_driver st st1" "opmode (Radio st1) = opmode (Radio st)" "RFLRState st1 = (if DIO0 i then RFLR_STATE_TX_DONE else RFLRState st)"
    by (auto simp: calm_def intro: same_trans)
qed

lemma cad_init_result: "same_driver st (cad_init st)" "opmode (Radio (cad_init st)) = 7" "RFLRState (cad_init st) = RFLR_STATE_CAD_RUNNING"
proof -
  let ?a = "store_reg REG_LR_IRQFLAGSMASK RegIrqFlagsMask 0xFA (set_opmode 0x01 st)"
  have "same_driver st (set_opmode 0x01 st)" by simp
  also have "same_driver (set_opmode 0x01 st) ?a" by (rule calm_same) (simp add: RegIrqFlagsMask_def)
  also have "same_driver ?a (dio_mapping 0x00 0x00 ?a)" by (rule calm_same) simp
  also have "same_driver (dio_mapping 0x00 0x00 ?a) (set_opmode 0x07 (dio_mapping 0x00 0x00 ?a))" by simp
  finally show "same_driver st (cad_init st)" by (simp add: cad_init_def same_driver_def hopping_def)
qed (simp_all add: cad_init_def)

section \<open>The protocol\<close>

text \<open>The transitions of the state machine: the state before, the code a call returns, the state after.\<close>

definition lora_next :: "(tRFLRStates \<times> tRFProcessReturnCodes \<times> tRFLRStates) list" where
  "lora_next = [
     (RFLR_STATE_IDLE, RF_BUSY, RFLR_STATE_IDLE),
     (RFLR_STATE_RX_INIT, RF_BUSY, RFLR_STATE_RX_RUNNING),
     (RFLR_STATE_RX_RUNNING, RF_BUSY, RFLR_STATE_RX_RUNNING),
     (RFLR_STATE_RX_RUNNING, RF_BUSY, RFLR_STATE_RX_DONE),
     (RFLR_STATE_RX_RUNNING, RF_BUSY, RFLR_STATE_RX_TIMEOUT),
     (RFLR_STATE_RX_DONE, RF_BUSY, RFLR_STATE_RX_INIT),
     (RFLR_STATE_RX_DONE, RF_BUSY, RFLR_STATE_RX_RUNNING),
     (RFLR_STATE_RX_DONE, RF_RX_DONE, RFLR_STATE_RX_INIT),
     (RFLR_STATE_RX_DONE, RF_RX_DONE, RFLR_STATE_RX_RUNNING),
     (RFLR_STATE_RX_TIMEOUT, RF_RX_TIMEOUT, RFLR_STATE_RX_INIT),
     (RFLR_STATE_TX_INIT, RF_BUSY, RFLR_STATE_TX_RUNNING),
     (RFLR_STATE_TX_RUNNING, RF_BUSY, RFLR_STATE_TX_RUNNING),
     (RFLR_STATE_TX_RUNNING, RF_BUSY, RFLR_STATE_TX_DONE),
     (RFLR_STATE_TX_DONE, RF_TX_DONE, RFLR_STATE_IDLE),
     (RFLR_STATE_TX_TIMEOUT, RF_BUSY, RFLR_STATE_TX_TIMEOUT),
     (RFLR_STATE_CAD_INIT, RF_BUSY, RFLR_STATE_CAD_RUNNING),
     (RFLR_STATE_CAD_RUNNING, RF_BUSY, RFLR_STATE_CAD_RUNNING),
     (RFLR_STATE_CAD_RUNNING, RF_CHANNEL_EMPTY, RFLR_STATE_IDLE)]"

abbreviation sense :: "rf_input \<Rightarrow> rf_state \<Rightarrow> rf_state" where
  "sense i st \<equiv> on_radio (\<lambda>s. s\<lparr>Chip := in_regs i\<rparr>) st"

lemma sense_wf [simp]: "lora_wf (sense i st) = lora_wf st"
  by (simp add: lora_wf_def)

lemma rx_again_state: "RFLRState (rx_again st) \<in> {RFLR_STATE_RX_INIT, RFLR_STATE_RX_RUNNING}"
  by (simp add: rx_again_def)

lemma rx_done_code:
  assumes "rx_done i st = (c, st1)"
  shows "(RFLR_STATE_RX_DONE, c, RFLRState st1) \<in> set lora_next"
proof (cases "Chip (Radio st) REG_LR_IRQFLAGS AND 0x20 = 0x20")
  case True
  then show ?thesis using assms by (auto simp: rx_done_crc rx_again_def lora_next_def split: if_splits)
next
  case False
  then show ?thesis using rx_done_packet [OF False assms] by (simp add: lora_next_def)
qed

lemma cad_running_result:
  assumes "cad_running i st = (c, st1)"
  shows "same_driver st st1" "(c, RFLRState st1) = (if DIO3 i then (RF_CHANNEL_EMPTY, RFLR_STATE_IDLE) else (RF_BUSY, RFLRState st))"
    "opmode (Radio st1) = opmode (Radio st)"
  using assms by (auto simp: cad_running_def DIO4_def same_driver_def hopping_def Let_def split: if_splits)

lemma process_follows_protocol:
  assumes "SX1276LoRaProcess i st = Some (c, st1, out)"
  shows "(RFLRState st, c, RFLRState st1) \<in> set lora_next"
proof (cases "RFLRState st")
  case RFLR_STATE_RX_INIT
  with assms have "c = RF_BUSY" "rx_init i (sense i st) = Some st1" by (auto simp: SX1276LoRaProcess_def busy_def)
  then show ?thesis using rx_init_result(5) RFLR_STATE_RX_INIT by (simp add: lora_next_def)
next
  case RFLR_STATE_RX_RUNNING
  with assms have "c = RF_BUSY" "rx_running i (sense i st) = Some st1" by (auto simp: SX1276LoRaProcess_def busy_def)
  then show ?thesis using rx_running_result(3) [of i "sense i st" st1] RFLR_STATE_RX_RUNNING by (simp add: lora_next_def split: if_splits)
next
  case RFLR_STATE_RX_DONE
  with assms have "rx_done i (sense i st) = (c, st1)" by (auto simp: SX1276LoRaProcess_def split_beta Let_def)
  then show ?thesis using rx_done_code RFLR_STATE_RX_DONE by simp
next
  case RFLR_STATE_TX_INIT
  with assms have "c = RF_BUSY" "tx_init (sense i st) = Some (st1, out)" by (auto simp: SX1276LoRaProcess_def)
  then show ?thesis using tx_init_result(3) RFLR_STATE_TX_INIT by (simp add: lora_next_def)
next
  case RFLR_STATE_TX_RUNNING
  with assms have "c = RF_BUSY" "tx_running i (sense i st) = Some st1" by (auto simp: SX1276LoRaProcess_def busy_def)
  then show ?thesis using tx_running_result(3) [of i "sense i st" st1] RFLR_STATE_TX_RUNNING by (simp add: lora_next_def split: if_splits)
next
  case RFLR_STATE_CAD_RUNNING
  with assms have "cad_running i (sense i st) = (c, st1)" by (auto simp: SX1276LoRaProcess_def split_beta Let_def)
  then show ?thesis using cad_running_result(2) [of i "sense i st" c st1] RFLR_STATE_CAD_RUNNING by (simp add: lora_next_def split: if_splits)
qed (use assms in \<open>auto simp: SX1276LoRaProcess_def lora_next_def cad_init_result\<close>)

end
