(* ===== verification/Lora_Thread.thy ===== *)
theory Lora_Thread
  imports Lora_Radio
begin

text \<open>
  The properties of the LoRa radio: the reachable states of the driver, what a packet goes through on its way in and out, and the
  loop of the thread.
\<close>

section \<open>The invariant\<close>

lemma wf_state: "lora_wf st \<Longrightarrow> same_driver st st1 \<Longrightarrow> opmode (Radio st1) = opmode (Radio st) \<Longrightarrow>
   mode_ok (RFLRState st) (opmode (Radio st)) \<longrightarrow> mode_ok (RFLRState st1) (opmode (Radio st)) \<Longrightarrow> lora_wf st1"
  by (rule wf_same) (auto simp: lora_wf_def)

lemma rx_done_wf:
  assumes "lora_wf st" "RFLRState st = RFLR_STATE_RX_DONE" "rx_done i st = (c, st1)"
  shows "lora_wf st1" "hopping st1 = hopping st"
proof -
  have m: "opmode (Radio st) \<in> {5, 6}" using assms by (simp add: lora_wf_def mode_ok_def)
  have "lora_wf st1 \<and> hopping st1 = hopping st"
  proof (cases "Chip (Radio st) REG_LR_IRQFLAGS AND 0x20 = 0x20")
    case True
    with assms(3) have "st1 = rx_again (on_radio (SX1276Write REG_LR_IRQFLAGS 0x20) (on_radio (SX1276Read REG_LR_IRQFLAGS RegIrqFlags) st))"
      by (simp add: rx_done_crc)
    then show ?thesis using assms(1) m by (simp add: rx_again_def lora_wf_def mode_ok_def hopping_def RegIrqFlags_def)
  next
    case False
    note r = rx_done_packet [OF False assms(3)]
    have "length (RFBuffer st1) = RF_BUFFER_SIZE" "RxPacketSize st1 < 256"
      using assms(1) by (simp_all add: r rx_bytes_length lora_wf_def u8_to_u16)
    then show ?thesis using assms(1) m by (simp add: lora_wf_def mode_ok_def hopping_def r)
  qed
  then show "lora_wf st1" "hopping st1 = hopping st" by simp_all
qed

lemma process_keeps:
  assumes "lora_wf st" "SX1276LoRaProcess i st = Some (c, st1, out)"
  shows "lora_wf st1 \<and> hopping st1 = hopping st"
proof (cases "RFLRState st")
  case RFLR_STATE_RX_INIT
  with assms have "rx_init i (sense i st) = Some st1" by (auto simp: SX1276LoRaProcess_def busy_def)
  note r = rx_init_result [OF this]
  show ?thesis using r assms(1) by (simp add: lora_wf_def same_driver_def hopping_def mode_ok_def)
next
  case RFLR_STATE_RX_RUNNING
  with assms have "rx_running i (sense i st) = Some st1" by (auto simp: SX1276LoRaProcess_def busy_def)
  note r = rx_running_result [OF this]
  show ?thesis using r assms(1) RFLR_STATE_RX_RUNNING by (simp add: lora_wf_def same_driver_def hopping_def mode_ok_def)
next
  case RFLR_STATE_RX_DONE
  with assms have "rx_done i (sense i st) = (c, st1)" by (auto simp: SX1276LoRaProcess_def split_beta Let_def)
  then show ?thesis using rx_done_wf [of "sense i st" i c st1] assms(1) RFLR_STATE_RX_DONE by (simp add: hopping_def)
next
  case RFLR_STATE_TX_INIT
  with assms have "tx_init (sense i st) = Some (st1, out)" by (auto simp: SX1276LoRaProcess_def)
  note r = tx_init_result [OF this]
  show ?thesis using r assms(1) by (simp add: lora_wf_def same_driver_def hopping_def mode_ok_def)
next
  case RFLR_STATE_TX_RUNNING
  with assms have "tx_running i (sense i st) = Some st1" by (auto simp: SX1276LoRaProcess_def busy_def)
  note r = tx_running_result [OF this]
  show ?thesis using r assms(1) RFLR_STATE_TX_RUNNING by (simp add: lora_wf_def same_driver_def hopping_def mode_ok_def)
next
  case RFLR_STATE_CAD_INIT
  with assms have "st1 = cad_init (sense i st)" by (auto simp: SX1276LoRaProcess_def)
  then show ?thesis using cad_init_result [of "sense i st"] assms(1) by (simp add: lora_wf_def same_driver_def hopping_def mode_ok_def)
next
  case RFLR_STATE_CAD_RUNNING
  with assms have "cad_running i (sense i st) = (c, st1)" by (auto simp: SX1276LoRaProcess_def split_beta Let_def)
  note r = cad_running_result [OF this]
  show ?thesis using r assms(1) RFLR_STATE_CAD_RUNNING by (auto simp: lora_wf_def same_driver_def hopping_def mode_ok_def split: if_splits)
next
  case RFLR_STATE_TX_DONE
  with assms have "st1 = (set_opmode 0x01 (sense i st))\<lparr>RFLRState := RFLR_STATE_IDLE\<rparr>" by (auto simp: SX1276LoRaProcess_def)
  then show ?thesis using set_opmode_same(1) [of 1 "sense i st"] assms(1) by (simp add: lora_wf_def same_driver_def hopping_def mode_ok_def)
qed (use assms in \<open>auto simp: SX1276LoRaProcess_def lora_wf_def hopping_def mode_ok_def\<close>)

text \<open>Without frequency hopping every call returns.\<close>

lemma calm_hopping: "calm st st1 \<Longrightarrow> hopping st1 = hopping st"
  by (simp add: calm_def same_driver_def)

lemma process_total:
  assumes "\<not> hopping st"
  shows "\<exists>c st1 out. SX1276LoRaProcess i st = Some (c, st1, out)"
proof -
  have h: "\<not> hopping (sense i st)" using assms by (simp add: hopping_def)
  have "rx_init i (sense i st) \<noteq> None"
    using h by (simp add: rx_init_def rx_hop_def hopping_def store_reg_def set_opmode_def Let_def)
  moreover have "tx_init (sense i st) \<noteq> None"
    using h by (simp add: tx_init_def tx_hop_def hopping_def set_opmode_def Let_def)
  moreover have "rx_running i (sense i st) \<noteq> None"
    using h by (simp add: rx_running_def rx_dio0_def rx_dio2_def hop_if_on_def hopping_def split_beta Let_def)
  moreover have "tx_running i (sense i st) \<noteq> None"
    using h by (simp add: tx_running_def hop_if_on_def hopping_def Let_def)
  ultimately show ?thesis
    by (cases "RFLRState st") (auto simp: SX1276LoRaProcess_def busy_def split_beta Let_def)
qed

section \<open>The mode register of the chip\<close>

text \<open>
  Of the registers of the chip the invariant knows only what its copy in the driver says.  A call of the state machine that changes the
  mode writes it through: after it the chip's register is the copy.  Every other call leaves the register as the chip shows it.
\<close>

definition chip_mode :: "rf_state \<Rightarrow> u8" where
  "chip_mode st = Chip (Radio st) 1"

lemma chip_one [simp]:
  "a \<noteq> 1 \<Longrightarrow> Chip (SX1276Write a v s) (Suc 0) = Chip s (Suc 0)" "1 < a \<Longrightarrow> Chip (SX1276WriteBuffer a k n s) (Suc 0) = Chip s (Suc 0)"
  "Chip (SX1276Read a k s) = Chip s" "Chip (put_reg k v s) = Chip s" "Chip (upd_settings f s) = Chip s"
  "Chip (snd (SX1276LoRaReadRxGain s)) = Chip s" "Chip (SX1276LoRaSetRFFrequency v32 s) (Suc 0) = Chip s (Suc 0)"
  by (simp_all add: access_defs SX1276LoRaReadRxGain_def SX1276LoRaSetRFFrequency_def Let_def reg_addr)

lemma chip_mode_simps [simp]:
  "chip_mode (on_radio f st) = Chip (f (Radio st)) (Suc 0)" "chip_mode (st\<lparr>RFLRState := x\<rparr>) = chip_mode st"
  "chip_mode (st\<lparr>RFBuffer := b\<rparr>) = chip_mode st" "chip_mode (st\<lparr>RxPacketSize := n\<rparr>) = chip_mode st"
  "chip_mode (st\<lparr>RxTimeoutTimer := t\<rparr>) = chip_mode st" "chip_mode (st\<lparr>PacketTimeout := t\<rparr>) = chip_mode st"
  "chip_mode (st\<lparr>RxPacketSnrEstimate := r\<rparr>) = chip_mode st" "chip_mode (st\<lparr>RxPacketRssiValue := r\<rparr>) = chip_mode st"
  "chip_mode (st\<lparr>RxGain := g\<rparr>) = chip_mode st" "chip_mode (st\<lparr>Radio := s\<rparr>) = Chip s (Suc 0)"
  "Chip (Radio st) (Suc 0) = chip_mode st"
  by (simp_all add: chip_mode_def)

lemma mode_kept [simp]:
  "a \<noteq> 1 \<Longrightarrow> chip_mode (store_reg a k v st) = chip_mode st" "chip_mode (dio_mapping v w st) = chip_mode st"
  by (simp_all add: store_reg_def dio_mapping_def reg_addr)

lemma mode_hop: "hop_frequency st = Some st1 \<Longrightarrow> chip_mode st1 = chip_mode st"
  by (auto simp: hop_frequency_def Let_def split: if_splits)

lemma mode_hop_if_on: "hop_if_on st = Some st1 \<Longrightarrow> chip_mode st1 = chip_mode st"
  by (auto simp: hop_if_on_def mode_hop split: if_splits)

lemma mode_dio0: "rx_dio0 i st = Some st1 \<Longrightarrow> chip_mode st1 = chip_mode st"
  by (auto simp: rx_dio0_def reg_addr dest!: mode_hop_if_on split: if_splits option.splits)

lemma mode_dio2: "rx_dio2 i st = Some st1 \<Longrightarrow> chip_mode st1 = chip_mode st"
  by (auto simp: rx_dio2_def reg_addr split_beta Let_def dest!: mode_hop_if_on split: if_splits option.splits)

lemma mode_rx_running: "rx_running i st = Some st1 \<Longrightarrow> chip_mode st1 = chip_mode st"
  by (auto simp: rx_running_def dest!: mode_dio0 mode_dio2 split: option.splits)

lemma mode_rx_length: "chip_mode (snd (rx_length st)) = chip_mode st"
  by (simp add: rx_length_def Let_def)

lemma mode_rx_fetch: "chip_mode (rx_fetch i st) = chip_mode st"
  by (simp add: rx_fetch_def SX1276ReadFifo_def split_beta Let_def mode_rx_length reg_addr)

lemma mode_rx_done: "chip_mode (snd (rx_done i st)) = chip_mode st"
  by (simp add: rx_done_def rx_again_def Let_def mode_rx_fetch reg_addr)

lemma mode_tx_running: "tx_running i st = Some st1 \<Longrightarrow> chip_mode st1 = chip_mode st"
  by (auto simp: tx_running_def reg_addr Let_def dest!: mode_hop_if_on split: if_splits option.splits)

lemma mode_cad_running: "chip_mode (snd (cad_running i st)) = chip_mode st"
  by (simp add: cad_running_def DIO4_def Let_def reg_addr)

lemma mode_written: "opmode (Radio st) \<noteq> m \<Longrightarrow> chip_mode (set_opmode m st) = Regs (Radio (set_opmode m st)) 1"
  by (simp add: set_opmode_def opmode_def chip_mode_def SX1276LoRaSetOpMode_def Let_def reg_addr reg_off access_defs)

text \<open>The calls of the states below end in the setting of a mode that differs from the one before.\<close>

definition sets_mode :: "tRFLRStates \<Rightarrow> bool" where
  "sets_mode x \<longleftrightarrow> x \<in> {RFLR_STATE_RX_INIT, RFLR_STATE_TX_INIT, RFLR_STATE_CAD_INIT, RFLR_STATE_TX_DONE}"

lemma mode_rx_mode:
  assumes "opmode (Radio st) = 1"
  shows "chip_mode (rx_mode st) = Regs (Radio (rx_mode st)) 1"
proof -
  have "opmode (Radio (store_reg REG_LR_FIFOADDRPTR RegFifoAddrPtr v st)) = 1" for v
    using assms by (simp add: store_reg_def RegFifoAddrPtr_def)
  then show ?thesis using assms mode_written [of _ 5] mode_written [of st 6] by (simp add: rx_mode_def)
qed

lemma mode_rx_init:
  assumes "rx_init i st = Some st1"
  shows "chip_mode st1 = Regs (Radio st1) 1"
proof -
  obtain st2 where st2: "rx_hop (store_reg REG_LR_IRQFLAGSMASK RegIrqFlagsMask 0x9D (set_opmode 0x01 st)) = Some st2"
    and eq: "Radio st1 = Radio (rx_mode (dio_mapping 0x00 0x00 (on_radio (\<lambda>s. SX1276Write REG_LR_HOPPERIOD (Regs s RegHopPeriod) s) st2)))"
    using assms unfolding rx_init_def by (auto simp: Let_def split: option.splits)
  have "opmode (Radio (store_reg REG_LR_IRQFLAGSMASK RegIrqFlagsMask 0x9D (set_opmode 0x01 st))) = 1"
    by (simp add: store_reg_def RegIrqFlagsMask_def)
  then have "opmode (Radio st2) = 1" using rx_hop_calm [OF st2] by (simp add: calm_def)
  then have "opmode (Radio (dio_mapping 0x00 0x00 (on_radio (\<lambda>s. SX1276Write REG_LR_HOPPERIOD (Regs s RegHopPeriod) s) st2))) = 1"
    by (simp add: dio_mapping_def RegDioMapping1_def)
  note mode_rx_mode [OF this]
  then show ?thesis by (simp only: chip_mode_def eq)
qed

lemma mode_tx_init:
  assumes "tx_init st = Some (st1, out)"
  shows "chip_mode st1 = Regs (Radio st1) 1"
proof -
  obtain sa where sa: "tx_hop (set_opmode 0x01 st) = Some sa" using assms by (auto simp: tx_init_def split: option.splits)
  define b where "b = on_radio (\<lambda>s. SX1276Write REG_LR_IRQFLAGSMASK (Regs s RegIrqFlagsMask) (SX1276Write REG_LR_HOPPERIOD (Regs s RegHopPeriod) s)) sa"
  have eq: "st1 = (set_opmode 0x03 (dio_mapping 0x41 0x40 (tx_load b)))\<lparr>RFLRState := RFLR_STATE_TX_RUNNING\<rparr>"
    using assms sa by (simp add: tx_init_def Let_def b_def)
  have "opmode (Radio sa) = 1" using tx_hop_calm [OF sa] by (simp add: calm_def)
  then have "opmode (Radio b) = 1" by (simp add: b_def)
  then have "opmode (Radio (dio_mapping 0x41 0x40 (tx_load b))) = 1"
    using tx_load_result(1) [of b] by (simp add: calm_def dio_mapping_def RegDioMapping1_def)
  then have "chip_mode (set_opmode 0x03 (dio_mapping 0x41 0x40 (tx_load b))) = Regs (Radio (set_opmode 0x03 (dio_mapping 0x41 0x40 (tx_load b)))) 1"
    by (intro mode_written) simp
  then show ?thesis by (simp add: eq)
qed

lemma mode_cad_init: "chip_mode (cad_init st) = Regs (Radio (cad_init st)) 1"
proof -
  have "opmode (Radio (dio_mapping 0x00 0x00 (store_reg REG_LR_IRQFLAGSMASK RegIrqFlagsMask 0xFA (set_opmode 0x01 st)))) = 1"
    by (simp add: dio_mapping_def store_reg_def reg_off)
  then show ?thesis
    using mode_written [of "dio_mapping 0x00 0x00 (store_reg REG_LR_IRQFLAGSMASK RegIrqFlagsMask 0xFA (set_opmode 0x01 st))" 7]
    by (simp add: cad_init_def)
qed

lemma process_mode:
  assumes "lora_wf st" "SX1276LoRaProcess i st = Some (c, st1, out)"
  shows "chip_mode st1 = (if sets_mode (RFLRState st) then Regs (Radio st1) 1 else in_regs i 1)"
proof (cases "RFLRState st")
  case RFLR_STATE_RX_INIT
  with assms have "rx_init i (sense i st) = Some st1" by (auto simp: SX1276LoRaProcess_def busy_def)
  then show ?thesis using mode_rx_init RFLR_STATE_RX_INIT by (simp add: sets_mode_def)
next
  case RFLR_STATE_RX_RUNNING
  with assms have "rx_running i (sense i st) = Some st1" by (auto simp: SX1276LoRaProcess_def busy_def)
  then show ?thesis using mode_rx_running RFLR_STATE_RX_RUNNING by (fastforce simp: sets_mode_def)
next
  case RFLR_STATE_RX_DONE
  with assms have "st1 = snd (rx_done i (sense i st))" by (auto simp: SX1276LoRaProcess_def split_beta Let_def)
  then show ?thesis using RFLR_STATE_RX_DONE by (simp add: sets_mode_def mode_rx_done)
next
  case RFLR_STATE_TX_INIT
  with assms have "tx_init (sense i st) = Some (st1, out)" by (auto simp: SX1276LoRaProcess_def)
  then show ?thesis using mode_tx_init RFLR_STATE_TX_INIT by (simp add: sets_mode_def)
next
  case RFLR_STATE_TX_RUNNING
  with assms have "tx_running i (sense i st) = Some st1" by (auto simp: SX1276LoRaProcess_def busy_def)
  then show ?thesis using mode_tx_running RFLR_STATE_TX_RUNNING by (fastforce simp: sets_mode_def)
next
  case RFLR_STATE_CAD_INIT
  with assms have "st1 = cad_init (sense i st)" by (auto simp: SX1276LoRaProcess_def)
  then show ?thesis using RFLR_STATE_CAD_INIT by (simp add: sets_mode_def mode_cad_init)
next
  case RFLR_STATE_CAD_RUNNING
  with assms have "st1 = snd (cad_running i (sense i st))" by (auto simp: SX1276LoRaProcess_def split_beta Let_def)
  then show ?thesis using RFLR_STATE_CAD_RUNNING by (simp add: sets_mode_def mode_cad_running)
next
  case RFLR_STATE_TX_DONE
  with assms have "st1 = (set_opmode 0x01 (sense i st))\<lparr>RFLRState := RFLR_STATE_IDLE\<rparr>" by (auto simp: SX1276LoRaProcess_def)
  moreover have "opmode (Radio (sense i st)) = 3" using assms(1) RFLR_STATE_TX_DONE by (simp add: lora_wf_def mode_ok_def)
  ultimately show ?thesis using mode_written [of "sense i st" 1] RFLR_STATE_TX_DONE by (simp add: sets_mode_def)
qed (use assms(2) in \<open>auto simp: SX1276LoRaProcess_def sets_mode_def\<close>)

section \<open>Start-up\<close>

definition rf_boot :: rf_state where
  "rf_boot = \<lparr>Radio = lora_reset, RFBuffer = replicate RF_BUFFER_SIZE 0, RFLRState = RFLR_STATE_IDLE, RxPacketSize = 0,
     RxPacketSnrEstimate = 0, RxPacketRssiValue = 0, RxGain = 1, RxTimeoutTimer = 0, PacketTimeout = 0, TxPacketSize = 0\<rparr>"

lemma set_power_settings [simp]:
  "FreqHopOn (LoRaSettings (SX1276LoRaSetRFPower p s)) = FreqHopOn (LoRaSettings s)"
  "RxSingleOn (LoRaSettings (SX1276LoRaSetRFPower p s)) = RxSingleOn (LoRaSettings s)"
  "ImplicitHeaderOn (LoRaSettings (SX1276LoRaSetRFPower p s)) = ImplicitHeaderOn (LoRaSettings s)"
  "RxPacketTimeout (LoRaSettings (SX1276LoRaSetRFPower p s)) = RxPacketTimeout (LoRaSettings s)"
  by (simp_all add: SX1276LoRaSetRFPower_def split_beta Let_def)

lemma setter_LoRaOn [simp]:
  "LoRaOn (SX1276LoRaSetSpreadingFactor v s) = LoRaOn s" "LoRaOn (SX1276LoRaSetErrorCoding v s) = LoRaOn s"
  "LoRaOn (SX1276LoRaSetPacketCrcOn e s) = LoRaOn s" "LoRaOn (SX1276LoRaSetSignalBandwidth v s) = LoRaOn s"
  "LoRaOn (SX1276LoRaSetImplicitHeaderOn e s) = LoRaOn s" "LoRaOn (SX1276LoRaSetSymbTimeout w s) = LoRaOn s"
  "LoRaOn (SX1276LoRaSetPayloadLength v s) = LoRaOn s" "LoRaOn (SX1276LoRaSetLowDatarateOptimize e s) = LoRaOn s"
  "LoRaOn (SX1276LoRaSetPAOutput v s) = LoRaOn s" "LoRaOn (SX1276LoRaSetPa20dBm e s) = LoRaOn s" "LoRaOn (SX1276LoRaSetRFPower p s) = LoRaOn s"
  by (simp_all add: setter_defs access_defs)

lemma lora_power_keeps [simp]:
  "LoRaOn (lora_power s) = LoRaOn s" "FreqHopOn (LoRaSettings (lora_power s)) = FreqHopOn (LoRaSettings s)"
  "RxSingleOn (LoRaSettings (lora_power s)) = RxSingleOn (LoRaSettings s)"
  "ImplicitHeaderOn (LoRaSettings (lora_power s)) = ImplicitHeaderOn (LoRaSettings s)"
  "RxPacketTimeout (LoRaSettings (lora_power s)) = RxPacketTimeout (LoRaSettings s)"
  by (simp_all add: lora_power_def split_beta Let_def)

lemma read_buffer_simps [simp]:
  "LoRaOn (SX1276ReadBuffer a k n s) = LoRaOn s" "LoRaSettings (SX1276ReadBuffer a k n s) = LoRaSettings s"
  "Chip (SX1276ReadBuffer a k n s) = Chip s"
  by (simp_all add: SX1276ReadBuffer_def)

lemma lora_init_keeps:
  "LoRaOn (fst (SX1276LoRaInit s)) = LoRaOn s" "FreqHopOn (LoRaSettings (fst (SX1276LoRaInit s))) = FreqHopOn (LoRaSettings s)"
  "RxSingleOn (LoRaSettings (fst (SX1276LoRaInit s))) = RxSingleOn (LoRaSettings s)"
  "ImplicitHeaderOn (LoRaSettings (fst (SX1276LoRaInit s))) = ImplicitHeaderOn (LoRaSettings s)"
  "RxPacketTimeout (LoRaSettings (fst (SX1276LoRaInit s))) = RxPacketTimeout (LoRaSettings s)"
  by (simp_all add: SX1276LoRaInit_def Let_def SX1276LoRaSetDefaults_def)

lemma lora_init_bit: "lora_bit (fst (SX1276LoRaInit s)) = bit (Chip s 1) 7"
proof -
  define s2 where "s2 = SX1276WriteBuffer REG_LR_OPMODE 1 (0x70 - 1) (put_reg RegLna 0x20 (SX1276ReadBuffer REG_LR_OPMODE 1 (0x70 - 1) (SX1276LoRaSetDefaults s)))"
  have "Regs s2 (Suc 0) = Chip s 1" by (simp add: s2_def access_defs SX1276LoRaSetDefaults_def reg_addr reg_off)
  moreover have c: "lora_bit (fst (SX1276LoRaSetOpMode 0x01 x)) = lora_bit x" for x by simp
  ultimately show ?thesis
    unfolding SX1276LoRaInit_def Let_def s2_def [symmetric] c
    by (simp add: lora_bit_def lora_power_view)
qed

lemma lora_on_boot:
  assumes "Regs s 1 = 0" "\<not> LoRaOnState s" "LoRaOn s"
  shows "LoRaOn (fst (SX1276SetLoRaOn True s))" "LoRaSettings (fst (SX1276SetLoRaOn True s)) = LoRaSettings s"
    "Chip (fst (SX1276SetLoRaOn True s)) 1 = 0x81"
  using assms
  by (simp_all add: SX1276SetLoRaOn_def SX1276LoRaSetOpMode_def Let_def reg_addr reg_off access_defs)

lemma lora_init_start:
  "\<exists>st. lora_init por rf_boot = Some st \<and> lora_wf st \<and> \<not> hopping st \<and> RFLRState st = RFLR_STATE_RX_INIT \<and>
     RxSingleOn (LoRaSettings (Radio st)) \<and> \<not> ImplicitHeaderOn (LoRaSettings (Radio st)) \<and> RxPacketTimeout (LoRaSettings (Radio st)) = 100"
proof -
  define s1 where "s1 = fst (SX1276SetLoRaOn True (lora_reset\<lparr>Chip := por, LoRaOn := True\<rparr>))"
  define st where "st = SX1276LoRaSetRFState RFLR_STATE_RX_INIT (SX1276Init por rf_boot)"
  have s1: "LoRaOn s1" "LoRaSettings s1 = LoRaSettings_default" "Chip s1 1 = 0x81"
    using lora_on_boot [of "lora_reset\<lparr>Chip := por, LoRaOn := True\<rparr>"] by (simp_all add: s1_def lora_reset_def)
  have radio: "Radio (SX1276Init por rf_boot) = fst (SX1276LoRaInit s1)"
    by (simp add: SX1276Init_def s1_def rf_boot_def Let_def)
  have "lora_init por rf_boot = Some st"
    by (simp add: lora_init_def SX1276SetRFState_def st_def radio lora_init_keeps s1)
  moreover have "RFBuffer st = RFBuffer rf_boot" "RxPacketSize st = 0" "RFLRState st = RFLR_STATE_RX_INIT" "Radio st = fst (SX1276LoRaInit s1)"
    by (simp_all add: st_def SX1276LoRaSetRFState_def radio) (simp_all add: SX1276Init_def Let_def rf_boot_def)
  moreover have "bit (0x81 :: u8) 7" by simp
  ultimately show ?thesis
    using s1 by (simp add: lora_wf_def mode_ok_def hopping_def lora_init_keeps lora_init_bit rf_boot_def LoRaSettings_default_def)
qed

section \<open>Reachable states\<close>

text \<open>
  The states of the driver after \<open>lora_init\<close> and any calls of the state machine and of the packet functions that return.  A call of
  \<open>SX1276SetTxPacket\<close> with more bytes than the buffer holds, which the function does not check, ends a run: \<open>radio_run\<close> below
  keeps these calls.
\<close>

inductive lora_run :: "(nat \<Rightarrow> u8) \<Rightarrow> rf_state \<Rightarrow> bool" for por where
  start: "lora_init por rf_boot = Some st \<Longrightarrow> lora_run por st"
| turn: "lora_run por st \<Longrightarrow> SX1276Process i st = Some (c, st1, out) \<Longrightarrow> lora_run por st1"
| collect: "lora_run por st \<Longrightarrow> SX1276GetRxPacket b st = Some (b1, n, st1) \<Longrightarrow> lora_run por st1"
| send: "lora_run por st \<Longrightarrow> SX1276SetTxPacket b sz st = Some st1 \<Longrightarrow> lora_run por st1"
| listen: "lora_run por st \<Longrightarrow> SX1276StartRx st = Some st1 \<Longrightarrow> lora_run por st1"

lemma collect_wf:
  assumes "lora_wf st" "SX1276GetRxPacket b st = Some (b1, n, st1)"
  shows "lora_wf st1 \<and> hopping st1 = hopping st"
proof -
  have "st1 = st\<lparr>RxPacketSize := 0\<rparr>"
    using assms(2) by (auto simp: SX1276GetRxPacket_def SX1276LoRaGetRxPacket_def Let_def split: if_splits)
  then show ?thesis using assms(1) by (simp add: lora_wf_def hopping_def)
qed

lemma send_wf:
  assumes "lora_wf st" "SX1276SetTxPacket b sz st = Some st1"
  shows "lora_wf st1 \<and> hopping st1 = hopping st"
proof -
  have "st1 = st\<lparr>TxPacketSize := sz, RFBuffer := take (unat sz) b @ drop (unat sz) (RFBuffer st), RFLRState := RFLR_STATE_TX_INIT\<rparr>"
    "unat sz \<le> length b" "unat sz \<le> length (RFBuffer st)"
    using assms by (auto simp: SX1276SetTxPacket_def SX1276LoRaSetTxPacket_def Let_def split: if_splits)
  then show ?thesis using assms(1) by (simp add: lora_wf_def hopping_def mode_ok_def)
qed

lemma listen_wf:
  assumes "lora_wf st" "SX1276StartRx st = Some st1"
  shows "lora_wf st1 \<and> hopping st1 = hopping st"
proof -
  have "st1 = st\<lparr>RFLRState := RFLR_STATE_RX_INIT\<rparr>"
    using assms(2) by (auto simp: SX1276StartRx_def SX1276LoRaSetRFState_def split: if_splits)
  then show ?thesis using assms(1) by (simp add: lora_wf_def hopping_def mode_ok_def)
qed

lemma lora_run_wf: "lora_run por st \<Longrightarrow> lora_wf st \<and> \<not> hopping st"
proof (induction rule: lora_run.induct)
  case (start st)
  then show ?case using lora_init_start [of por] by auto
next
  case (turn st i c st1 out)
  then show ?case using process_keeps [of st i c st1 out] by (auto simp: SX1276Process_def split: if_splits)
qed (use collect_wf send_wf listen_wf in blast)+

lemma wf_collects:
  assumes "lora_wf st" "length b = LORA_RX_SIZE"
  shows "SX1276GetRxPacket b st = Some (take (unat (RxPacketSize st)) (RFBuffer st) @ drop (unat (RxPacketSize st)) b, RxPacketSize st, st\<lparr>RxPacketSize := 0\<rparr>)"
  using assms by (simp add: SX1276GetRxPacket_def SX1276LoRaGetRxPacket_def lora_wf_def LORA_RX_SIZE_def RF_BUFFER_SIZE_def word_less_nat_alt Let_def)

lemma wf_turn:
  assumes "lora_wf st" "\<not> hopping st"
  shows "\<exists>c st1 out. SX1276Process i st = Some (c, st1, out) \<and> lora_wf st1 \<and> \<not> hopping st1"
  using process_total [OF assms(2), of i] process_keeps [OF assms(1)] assms by (metis SX1276Process_def lora_wf_def)

text \<open>The calls of the driver after its start, in any order; \<open>None\<close> is a call that leaves an array.\<close>

datatype radio_call = Turn rf_input | Collect "u8 list" | Hand "u8 list" u16 | Listen

fun radio_step :: "radio_call \<Rightarrow> rf_state \<Rightarrow> rf_state option" where
  "radio_step (Turn i) st = map_option (\<lambda>(c, st1, out). st1) (SX1276Process i st)"
| "radio_step (Collect b) st = map_option (\<lambda>(b1, n, st1). st1) (SX1276GetRxPacket b st)"
| "radio_step (Hand d sz) st = SX1276SetTxPacket d sz st"
| "radio_step Listen st = SX1276StartRx st"

fun radio_run :: "radio_call list \<Rightarrow> rf_state \<Rightarrow> rf_state option" where
  "radio_run [] st = Some st"
| "radio_run (x # xs) st = (case radio_step x st of None \<Rightarrow> None | Some st1 \<Rightarrow> radio_run xs st1)"

text \<open>The caller's side: a packet is collected into a buffer as long as the thread's, and the size handed over is that of the caller's bytes.\<close>

fun call_ok :: "radio_call \<Rightarrow> bool" where
  "call_ok (Collect b) = (length b = LORA_RX_SIZE)"
| "call_ok (Hand d sz) = (unat sz \<le> length d)"
| "call_ok _ = True"

fun overlong :: "radio_call \<Rightarrow> bool" where
  "overlong (Hand d sz) = (RF_BUFFER_SIZE < unat sz)"
| "overlong _ = False"

lemma overlong_iff: "overlong x \<longleftrightarrow> (\<exists>d sz. x = Hand d sz \<and> RF_BUFFER_SIZE < unat sz)"
  by (cases x) simp_all

lemma radio_step_wf:
  assumes "lora_wf st" "\<not> hopping st" "call_ok x"
  shows "if overlong x then radio_step x st = None else \<exists>st1. radio_step x st = Some st1 \<and> lora_wf st1 \<and> \<not> hopping st1"
proof (cases x)
  case (Turn i)
  then show ?thesis using wf_turn [OF assms(1,2), of i] by auto
next
  case (Collect b)
  then show ?thesis using wf_collects [OF assms(1), of b] collect_wf [OF assms(1), of b] assms(2,3) by simp
next
  case (Hand d sz)
  have "SX1276SetTxPacket d sz st = None \<longleftrightarrow> RF_BUFFER_SIZE < unat sz"
    using assms Hand by (simp add: SX1276SetTxPacket_def SX1276LoRaSetTxPacket_def lora_wf_def Let_def not_le)
  then show ?thesis using Hand send_wf [OF assms(1), of d sz] assms(2) by auto
next
  case Listen
  then show ?thesis using listen_wf [OF assms(1), of "SX1276LoRaSetRFState RFLR_STATE_RX_INIT st"] assms(1,2)
    by (simp add: SX1276StartRx_def lora_wf_def)
qed

lemma radio_run_wf:
  "lora_wf st \<Longrightarrow> \<not> hopping st \<Longrightarrow> \<forall>x \<in> set xs. call_ok x \<Longrightarrow>
   (radio_run xs st = None \<longleftrightarrow> (\<exists>x \<in> set xs. overlong x)) \<and> (\<forall>st1. radio_run xs st = Some st1 \<longrightarrow> lora_wf st1 \<and> \<not> hopping st1)"
proof (induction xs arbitrary: st)
  case (Cons x xs)
  have ok: "call_ok x" "\<forall>x \<in> set xs. call_ok x" using Cons.prems(3) by simp_all
  show ?case
  proof (cases "overlong x")
    case True
    then show ?thesis using radio_step_wf [OF Cons.prems(1,2) ok(1)] by simp
  next
    case False
    with radio_step_wf [OF Cons.prems(1,2) ok(1)] obtain st1 where "radio_step x st = Some st1" "lora_wf st1" "\<not> hopping st1" by auto
    then show ?thesis using False Cons.IH [OF _ _ ok(2), of st1] by simp
  qed
qed simp

lemma radio_run_append: "radio_run (xs @ ys) st = (case radio_run xs st of None \<Rightarrow> None | Some st1 \<Rightarrow> radio_run ys st1)"
  by (induction xs arbitrary: st) (auto split: option.splits)

lemma lora_run_calls: "lora_run por st \<longleftrightarrow> (\<exists>s0 xs. lora_init por rf_boot = Some s0 \<and> radio_run xs s0 = Some st)"
proof
  have snoc: "radio_step x st = Some st1 \<Longrightarrow> radio_run xs s0 = Some st \<Longrightarrow> radio_run (xs @ [x]) s0 = Some st1" for x st st1 xs s0
    by (simp add: radio_run_append)
  assume "lora_run por st"
  then show "\<exists>s0 xs. lora_init por rf_boot = Some s0 \<and> radio_run xs s0 = Some st"
  proof (induction rule: lora_run.induct)
    case (start st)
    then show ?case using radio_run.simps(1) by blast
  next
    case (turn st i c st1 out)
    then show ?case using snoc [of "Turn i" st st1] by auto
  next
    case (collect st b b1 n st1)
    then show ?case using snoc [of "Collect b" st st1] by auto
  next
    case (send st b sz st1)
    then show ?case using snoc [of "Hand b sz" st st1] by auto
  next
    case (listen st st1)
    then show ?case using snoc [of Listen st st1] by auto
  qed
next
  have one: "lora_run por st \<Longrightarrow> radio_step x st = Some st1 \<Longrightarrow> lora_run por st1" for st st1 x
    by (cases x) (auto intro: lora_run.intros)
  have "lora_run por s0 \<Longrightarrow> radio_run xs s0 = Some st \<Longrightarrow> lora_run por st" for s0 xs
    by (induction xs arbitrary: s0) (auto intro: one split: option.splits)
  then show "\<exists>s0 xs. lora_init por rf_boot = Some s0 \<and> radio_run xs s0 = Some st \<Longrightarrow> lora_run por st"
    using lora_run.start by blast
qed

text \<open>
  C30: after the start of the LoRa driver, any series of calls of the state machine, \<open>SX1276GetRxPacket\<close>, \<open>SX1276SetTxPacket\<close> and
  \<open>SX1276StartRx\<close>, with whatever the chip, the pins and the clock show at each, leaves an array exactly when a packet of more than 256
  bytes is handed over.  Otherwise the invariant holds at the end and the next call of the state machine returns and keeps it; when the call
  starts or ends a reception, a transmission or the channel check, the mode register of the chip is afterwards the driver's copy, and every
  other call leaves the register as the chip shows it.
\<close>

theorem lora_driver_safe:
  assumes "\<forall>x \<in> set xs. call_ok x"
  shows "\<exists>s0. lora_init por rf_boot = Some s0 \<and>
    (case radio_run xs s0 of
       None \<Rightarrow> \<exists>d sz. Hand d sz \<in> set xs \<and> 256 < unat sz
     | Some st \<Rightarrow> (\<forall>d sz. Hand d sz \<in> set xs \<longrightarrow> unat sz \<le> 256) \<and> lora_wf st \<and>
         (\<exists>c st1 out. SX1276Process i st = Some (c, st1, out) \<and> lora_wf st1 \<and>
            chip_mode st1 = (if sets_mode (RFLRState st) then Regs (Radio st1) 1 else in_regs i 1)))"
proof -
  obtain s0 where s0: "lora_init por rf_boot = Some s0" "lora_wf s0" "\<not> hopping s0" using lora_init_start by blast
  have long: "(\<exists>x \<in> set xs. overlong x) \<longleftrightarrow> (\<exists>d sz. Hand d sz \<in> set xs \<and> 256 < unat sz)"
    unfolding overlong_iff RF_BUFFER_SIZE_def by blast
  note run = radio_run_wf [OF s0(2,3) assms]
  show ?thesis
  proof (cases "radio_run xs s0")
    case None
    then show ?thesis using s0(1) run long by simp
  next
    case (Some st)
    then have st: "lora_wf st" "\<not> hopping st" "\<forall>d sz. Hand d sz \<in> set xs \<longrightarrow> unat sz \<le> 256" using run long by (auto simp: not_less [symmetric])
    obtain c st1 out where t: "SX1276Process i st = Some (c, st1, out)" "lora_wf st1" using wf_turn [OF st(1,2), of i] by blast
    then have "chip_mode st1 = (if sets_mode (RFLRState st) then Regs (Radio st1) 1 else in_regs i 1)"
      using process_mode [OF st(1)] by (simp add: SX1276Process_def split: if_splits)
    with s0(1) Some st(1,3) t show ?thesis by simp
  qed
qed

definition idle_input :: rf_input where
  "idle_input = \<lparr>in_regs = (\<lambda>_. 0), in_fifo = (\<lambda>k. of_nat k), DIO0 = False, DIO2 = False, DIO3 = False, tick_dio0 = 0, tick_dio2 = 0, tick_now = 0\<rparr>"

text \<open>Turns, a packet handed over and collected; and the same with a packet of 257 bytes, which ends in an overrun.\<close>

definition demo_calls :: "radio_call list" where
  "demo_calls = [Turn idle_input, Turn idle_input, Collect (replicate LORA_RX_SIZE 0), Hand [1, 2, 3] 3, Turn idle_input, Listen]"

theorem lora_driver_safe_witness:
  "\<exists>s0. lora_init (\<lambda>_. 0x09) rf_boot = Some s0 \<and> radio_run (demo_calls @ [Hand (replicate 257 0) 257]) s0 = None \<and>
     (\<exists>st st1. radio_run demo_calls s0 = Some st \<and> RFLRState st = RFLR_STATE_RX_INIT \<and> SX1276Process idle_input st = Some (RF_BUSY, st1, []) \<and>
        chip_mode st1 = Regs (Radio st1) 1)"
proof -
  have ok: "\<forall>x \<in> set demo_calls. call_ok x" "\<forall>x \<in> set (demo_calls @ [Hand (replicate 257 0) 257]). call_ok x" by (simp_all add: demo_calls_def)
  obtain s0 where s0: "lora_init (\<lambda>_. 0x09) rf_boot = Some s0" using lora_init_start by blast
  have none: "radio_run (demo_calls @ [Hand (replicate 257 0) 257]) s0 = None"
    using lora_driver_safe [OF ok(2), of "\<lambda>_. 0x09" idle_input] s0 by (auto split: option.splits)
  have "radio_run demo_calls s0 \<noteq> None"
    using lora_driver_safe [OF ok(1), of "\<lambda>_. 0x09" idle_input] s0 by (auto simp: demo_calls_def split: option.splits)
  then obtain st where st: "radio_run demo_calls s0 = Some st" by blast
  then have x: "RFLRState st = RFLR_STATE_RX_INIT"
    by (auto simp: demo_calls_def SX1276StartRx_def SX1276LoRaSetRFState_def split: option.splits if_splits)
  obtain c st1 out where t: "SX1276Process idle_input st = Some (c, st1, out)" "chip_mode st1 = Regs (Radio st1) 1"
    using lora_driver_safe [OF ok(1), of "\<lambda>_. 0x09" idle_input] s0 st x by (auto simp: sets_mode_def)
  moreover have "c = RF_BUSY \<and> out = []" using t(1) x by (auto simp: SX1276Process_def SX1276LoRaProcess_def busy_def split: if_splits)
  ultimately show ?thesis using s0 none st x by blast
qed

text \<open>
  C31: a call of the state machine follows the protocol: from each state it returns one of the codes and reaches one of the states the table
  of transitions has for it.  The table has neither \<open>RF_IDLE\<close>, \<open>RF_TX_TIMEOUT\<close>, \<open>RF_LEN_ERROR\<close> nor \<open>RF_CHANNEL_ACTIVITY_DETECTED\<close>.
\<close>

theorem lora_process_protocol:
  assumes "SX1276LoRaProcess i st = Some (c, st1, out)"
  shows "(RFLRState st, c, RFLRState st1) \<in> set lora_next \<and> c \<in> {RF_BUSY, RF_RX_DONE, RF_RX_TIMEOUT, RF_TX_DONE, RF_CHANNEL_EMPTY}"
  using process_follows_protocol [OF assms] by (auto simp: lora_next_def)

lemma timeout_turn:
  "RFLRState st = RFLR_STATE_RX_TIMEOUT \<Longrightarrow> SX1276LoRaProcess i st = Some (RF_RX_TIMEOUT, (sense i st)\<lparr>RFLRState := RFLR_STATE_RX_INIT\<rparr>, [])"
  by (simp add: SX1276LoRaProcess_def)

theorem lora_process_protocol_witness:
  "(RFLR_STATE_RX_TIMEOUT, RF_RX_TIMEOUT, RFLR_STATE_RX_INIT) \<in> set lora_next"
  using lora_process_protocol [OF timeout_turn [of "rf_boot\<lparr>RFLRState := RFLR_STATE_RX_TIMEOUT\<rparr>" idle_input]] by simp

end
