(* ===== verification/Lora_Packets.thy ===== *)
theory Lora_Packets
  imports Lora_Thread
begin

text \<open>
  Packets through the LoRa radio: what the thread finds in its buffer, what the chip is given to send, errors and time-outs, the
  scaling of the signal-to-noise ratio, and where the hopping table ends.
\<close>

section \<open>One turn in each state\<close>

lemma turn_rx_running:
  assumes "lora_wf st" "\<not> hopping st" "RFLRState st = RFLR_STATE_RX_RUNNING"
  obtains st1 where "SX1276Process i st = Some (RF_BUSY, st1, [])" "rx_running i (sense i st) = Some st1" "lora_wf st1" "\<not> hopping st1"
proof -
  obtain c st1 out where r: "SX1276Process i st = Some (c, st1, out)" "lora_wf st1" "\<not> hopping st1" using wf_turn [OF assms(1,2)] by metis
  moreover have "SX1276Process i st = SX1276LoRaProcess i st" using assms(1) by (simp add: SX1276Process_def lora_wf_def)
  ultimately have "c = RF_BUSY \<and> rx_running i (sense i st) = Some st1 \<and> out = []"
    using assms(3) by (auto simp: SX1276LoRaProcess_def busy_def)
  with r show ?thesis using that by simp
qed

lemma turn_rx_done:
  assumes "lora_wf st" "\<not> hopping st" "RFLRState st = RFLR_STATE_RX_DONE"
  obtains c st1 where "SX1276Process i st = Some (c, st1, [])" "rx_done i (sense i st) = (c, st1)" "lora_wf st1" "\<not> hopping st1"
proof -
  obtain c st1 out where r: "SX1276Process i st = Some (c, st1, out)" "lora_wf st1" "\<not> hopping st1" using wf_turn [OF assms(1,2)] by metis
  moreover have "SX1276Process i st = SX1276LoRaProcess i st" using assms(1) by (simp add: SX1276Process_def lora_wf_def)
  ultimately have "rx_done i (sense i st) = (c, st1) \<and> out = []"
    using assms(3) by (auto simp: SX1276LoRaProcess_def split_beta Let_def)
  with r show ?thesis using that by simp
qed

lemma process_wf: "lora_wf st \<Longrightarrow> SX1276Process i st = SX1276LoRaProcess i st"
  by (simp add: SX1276Process_def lora_wf_def)

lemma turn_rx_init:
  assumes "lora_wf st" "\<not> hopping st" "RFLRState st = RFLR_STATE_RX_INIT"
  shows "\<exists>st1. SX1276Process i st = Some (RF_BUSY, st1, []) \<and> RFLRState st1 = RFLR_STATE_RX_RUNNING \<and> RxTimeoutTimer st1 = tick_now i \<and>
    PacketTimeout st1 = RxPacketTimeout (LoRaSettings (Radio st)) \<and> RxSingleOn (LoRaSettings (Radio st1)) = RxSingleOn (LoRaSettings (Radio st)) \<and>
    ImplicitHeaderOn (LoRaSettings (Radio st1)) = ImplicitHeaderOn (LoRaSettings (Radio st)) \<and> lora_wf st1 \<and> \<not> hopping st1 \<and> rx_init i (sense i st) = Some st1"
proof -
  obtain c st1 out where r: "SX1276Process i st = Some (c, st1, out)" "lora_wf st1" "\<not> hopping st1" using wf_turn [OF assms(1,2)] by metis
  then have s: "c = RF_BUSY \<and> rx_init i (sense i st) = Some st1 \<and> out = []"
    using assms(3) by (auto simp: process_wf [OF assms(1)] SX1276LoRaProcess_def busy_def)
  then have eq: "rx_init i (sense i st) = Some st1" by simp
  note t = rx_init_result [OF eq]
  show ?thesis using r s t by (simp add: same_driver_def)
qed

section \<open>Receiving\<close>

text \<open>The packet the chip reports during a turn.\<close>

definition air_packet :: "rf_input \<Rightarrow> u8 list" where
  "air_packet i = map (in_fifo i) [0..<unat (in_regs i REG_LR_NBRXBYTES)]"

definition crc_error :: "rf_input \<Rightarrow> bool" where
  "crc_error i \<longleftrightarrow> in_regs i REG_LR_IRQFLAGS AND 0x20 = 0x20"

definition thread_ok :: "lora_thread \<Rightarrow> bool" where
  "thread_ok t \<longleftrightarrow> lora_wf (rf t) \<and> \<not> hopping (rf t) \<and> length (lora_rx_buf t) = LORA_RX_SIZE"

lemma turn_done_packet:
  assumes "lora_wf st" "\<not> hopping st" "RFLRState st = RFLR_STATE_RX_DONE" "\<not> ImplicitHeaderOn (LoRaSettings (Radio st))" "\<not> crc_error i"
  obtains st1 where "SX1276Process i st = Some (RF_RX_DONE, st1, [])" "lora_wf st1" "\<not> hopping st1"
    "RxPacketSize st1 = ucast (in_regs i REG_LR_NBRXBYTES)" "take (unat (in_regs i REG_LR_NBRXBYTES)) (RFBuffer st1) = air_packet i"
    "RFLRState st1 = (if RxSingleOn (LoRaSettings (Radio st)) then RFLR_STATE_RX_INIT else RFLR_STATE_RX_RUNNING)"
proof -
  obtain c st1 where r: "SX1276Process i st = Some (c, st1, [])" "rx_done i (sense i st) = (c, st1)" "lora_wf st1" "\<not> hopping st1"
    using turn_rx_done [OF assms(1-3)] by metis
  have "Chip (Radio (sense i st)) REG_LR_IRQFLAGS AND 0x20 \<noteq> 0x20" using assms(5) by (simp add: crc_error_def)
  note p = rx_done_packet [OF this r(2)]
  have "rx_count (sense i st) = in_regs i REG_LR_NBRXBYTES" using assms(4) by (simp add: rx_count_def)
  with p r show ?thesis
    by (intro that [of st1]) (simp_all add: rx_bytes_def air_packet_def)
qed

lemma lora_turn_packet:
  assumes "thread_ok t" "RFLRState (rf t) = RFLR_STATE_RX_DONE" "\<not> ImplicitHeaderOn (LoRaSettings (Radio (rf t)))" "\<not> crc_error i"
  shows "\<exists>t1. lora_turn i t = Some t1 \<and> thread_ok t1 \<and> lora_rx_len t1 = of_nat (length (air_packet i)) \<and>
    lora_rx_buf t1 = air_packet i @ drop (length (air_packet i)) (lora_rx_buf t) \<and> RxPacketSize (rf t1) = 0 \<and>
    RFLRState (rf t1) = (if RxSingleOn (LoRaSettings (Radio (rf t))) then RFLR_STATE_RX_INIT else RFLR_STATE_RX_RUNNING)"
proof -
  have ok: "lora_wf (rf t)" "\<not> hopping (rf t)" "length (lora_rx_buf t) = LORA_RX_SIZE" using assms(1) by (simp_all add: thread_ok_def)
  obtain st1 where st1: "SX1276Process i (rf t) = Some (RF_RX_DONE, st1, [])" "lora_wf st1" "\<not> hopping st1"
    "RxPacketSize st1 = ucast (in_regs i REG_LR_NBRXBYTES)" "take (unat (in_regs i REG_LR_NBRXBYTES)) (RFBuffer st1) = air_packet i"
    "RFLRState st1 = (if RxSingleOn (LoRaSettings (Radio (rf t))) then RFLR_STATE_RX_INIT else RFLR_STATE_RX_RUNNING)"
    by (rule turn_done_packet [OF ok(1,2) assms(2-4)])
  note g = wf_collects [OF st1(2) ok(3)]
  let ?n = "unat (in_regs i REG_LR_NBRXBYTES)"
  have n: "?n = length (air_packet i)" by (simp add: air_packet_def)
  define t1 where "t1 = t\<lparr>rf := st1\<lparr>RxPacketSize := 0\<rparr>, lora_rx_buf := air_packet i @ drop ?n (lora_rx_buf t), lora_rx_len := ucast (in_regs i REG_LR_NBRXBYTES)\<rparr>"
  have "lora_turn i t = Some t1"
    using g st1 by (simp add: lora_turn_def t1_def u8_to_u16)
  moreover have "lora_wf (st1\<lparr>RxPacketSize := 0\<rparr>)" "\<not> hopping (st1\<lparr>RxPacketSize := 0\<rparr>)" using st1(2,3) by (simp_all add: lora_wf_def hopping_def)
  moreover have "length (lora_rx_buf t1) = LORA_RX_SIZE"
    using ok(3) less_imp_le [OF u8_lt [of "in_regs i REG_LR_NBRXBYTES"]] by (simp add: t1_def n [symmetric] LORA_RX_SIZE_def le_add_diff_inverse)
  moreover have "(ucast (in_regs i REG_LR_NBRXBYTES) :: u16) = of_nat ?n" by simp
  ultimately show ?thesis using st1(6) n by (intro exI [of _ t1]) (simp add: t1_def thread_ok_def)
qed

lemma lora_turn_done:
  assumes "thread_ok t" "RFLRState (rf t) = RFLR_STATE_RX_RUNNING" "DIO0 i" "\<not> rx_late i (rf t)"
  shows "\<exists>t1. lora_turn i t = Some t1 \<and> thread_ok t1 \<and> RFLRState (rf t1) = RFLR_STATE_RX_DONE \<and>
    lora_rx_buf t1 = lora_rx_buf t \<and> lora_rx_len t1 = lora_rx_len t \<and>
    ImplicitHeaderOn (LoRaSettings (Radio (rf t1))) = ImplicitHeaderOn (LoRaSettings (Radio (rf t))) \<and>
    RxSingleOn (LoRaSettings (Radio (rf t1))) = RxSingleOn (LoRaSettings (Radio (rf t)))"
proof -
  have ok: "lora_wf (rf t)" "\<not> hopping (rf t)" "length (lora_rx_buf t) = LORA_RX_SIZE" using assms(1) by (simp_all add: thread_ok_def)
  obtain st1 where st1: "SX1276Process i (rf t) = Some (RF_BUSY, st1, [])" "rx_running i (sense i (rf t)) = Some st1" "lora_wf st1" "\<not> hopping st1"
    by (rule turn_rx_running [OF ok(1,2) assms(2)])
  note r = rx_running_result [OF st1(2)]
  have "\<not> rx_late i (sense i (rf t))" using assms(4) by (auto simp: rx_late_def rx_waited_def)
  with r assms(3) ok st1 show ?thesis
    by (intro exI [of _ "t\<lparr>rf := st1\<rparr>"]) (simp add: lora_turn_def thread_ok_def same_driver_def)
qed

text \<open>
  C28: when the chip signals a packet in time and its CRC is good, two turns of the loop of the thread put exactly the bytes of the packet
  at the start of \<open>lora_rx_buf\<close>, its length in \<open>lora_rx_len\<close>, leave the rest of the buffer, and the radio listens again.
\<close>

theorem lora_thread_receives:
  assumes "thread_ok t" "RFLRState (rf t) = RFLR_STATE_RX_RUNNING" "\<not> ImplicitHeaderOn (LoRaSettings (Radio (rf t)))"
    and "DIO0 i" "\<not> rx_late i (rf t)" "\<not> crc_error j"
  shows "\<exists>t1. lora_thread_entry [i, j] t = Some t1 \<and> lora_rx_len t1 = of_nat (length (air_packet j)) \<and>
    lora_rx_buf t1 = air_packet j @ drop (length (air_packet j)) (lora_rx_buf t) \<and>
    RFLRState (rf t1) \<in> {RFLR_STATE_RX_INIT, RFLR_STATE_RX_RUNNING} \<and> RxPacketSize (rf t1) = 0"
proof -
  obtain ta where ta: "lora_turn i t = Some ta" "thread_ok ta" "RFLRState (rf ta) = RFLR_STATE_RX_DONE" "lora_rx_buf ta = lora_rx_buf t"
    "\<not> ImplicitHeaderOn (LoRaSettings (Radio (rf ta)))"
    using lora_turn_done [OF assms(1,2,4,5)] assms(3) by auto
  show ?thesis using lora_turn_packet [OF ta(2,3,5) assms(6)] ta(1,4) by auto
qed

text \<open>
  a packet whose CRC is wrong changes nothing in the buffer of the thread, and the radio listens again.
\<close>

theorem lora_crc_dropped:
  assumes "thread_ok t" "RFLRState (rf t) = RFLR_STATE_RX_DONE" "crc_error i"
  shows "\<exists>t1. lora_turn i t = Some t1 \<and> lora_rx_buf t1 = lora_rx_buf t \<and> lora_rx_len t1 = lora_rx_len t \<and>
    RFLRState (rf t1) \<in> {RFLR_STATE_RX_INIT, RFLR_STATE_RX_RUNNING} \<and> thread_ok t1"
proof -
  have ok: "lora_wf (rf t)" "\<not> hopping (rf t)" "length (lora_rx_buf t) = LORA_RX_SIZE" using assms(1) by (simp_all add: thread_ok_def)
  obtain c st1 where st1: "SX1276Process i (rf t) = Some (c, st1, [])" "rx_done i (sense i (rf t)) = (c, st1)" "lora_wf st1" "\<not> hopping st1"
    by (rule turn_rx_done [OF ok(1,2) assms(2)])
  have "c = RF_BUSY" "st1 = rx_again (on_radio (SX1276Write REG_LR_IRQFLAGS 0x20) (on_radio (SX1276Read REG_LR_IRQFLAGS RegIrqFlags) (sense i (rf t))))"
    using st1(2) assms(3) by (simp_all add: rx_done_crc crc_error_def)
  then show ?thesis
    using st1 ok rx_again_state by (intro exI [of _ "t\<lparr>rf := st1\<rparr>"]) (simp add: lora_turn_def thread_ok_def)
qed

section \<open>The loop\<close>

lemma lora_turn_ok: "thread_ok t \<Longrightarrow> \<exists>t1. lora_turn i t = Some t1 \<and> thread_ok t1"
proof -
  assume t: "thread_ok t"
  then have ok: "lora_wf (rf t)" "\<not> hopping (rf t)" "length (lora_rx_buf t) = LORA_RX_SIZE" by (simp_all add: thread_ok_def)
  obtain c st1 out where st1: "SX1276Process i (rf t) = Some (c, st1, out)" "lora_wf st1" "\<not> hopping st1"
    using wf_turn [OF ok(1,2)] by metis
  note g = wf_collects [OF st1(2) ok(3)]
  have "unat (RxPacketSize st1) < 256" using st1(2) by (simp add: lora_wf_def word_less_nat_alt)
  with g st1 ok show ?thesis
    by (cases "c = RF_RX_DONE") (simp_all add: lora_turn_def thread_ok_def lora_wf_def hopping_def LORA_RX_SIZE_def RF_BUFFER_SIZE_def)
qed

lemma lora_loop_ok: "thread_ok t \<Longrightarrow> \<exists>t1. lora_thread_entry is t = Some t1 \<and> thread_ok t1"
proof (induction "is" arbitrary: t)
  case (Cons i "is")
  obtain ta where "lora_turn i t = Some ta" "thread_ok ta" using lora_turn_ok [OF Cons.prems] by blast
  then show ?case using Cons.IH by simp
qed simp

definition lora_start :: "(nat \<Rightarrow> u8) \<Rightarrow> lora_thread" where
  "lora_start por = \<lparr>rf = the (lora_init por rf_boot), lora_rx_buf = replicate LORA_RX_SIZE 0, lora_rx_len = 0\<rparr>"

lemma lora_start_ok: "thread_ok (lora_start por)" "RFLRState (rf (lora_start por)) = RFLR_STATE_RX_INIT"
  "\<not> ImplicitHeaderOn (LoRaSettings (Radio (rf (lora_start por))))" "RxSingleOn (LoRaSettings (Radio (rf (lora_start por))))"
  "RxPacketTimeout (LoRaSettings (Radio (rf (lora_start por)))) = 100"
  using lora_init_start [of por] by (auto simp: lora_start_def thread_ok_def)

text \<open>
  from the start of the board the LoRa thread runs for ever: no number of turns of its loop, whatever the chip and the pins show,
  accesses memory outside its buffers, and the length it keeps never exceeds the buffer.
\<close>

theorem lora_thread_runs:
  "\<exists>t1. lora_thread_entry is (lora_start por) = Some t1 \<and> lora_wf (rf t1) \<and> length (lora_rx_buf t1) = LORA_RX_SIZE"
  using lora_loop_ok [OF lora_start_ok(1)] by (auto simp: thread_ok_def)

section \<open>Concrete runs\<close>

definition ready_input :: "u8 \<Rightarrow> rf_input" where
  "ready_input irq = idle_input\<lparr>in_regs := (\<lambda>a. if a = REG_LR_NBRXBYTES then 3 else if a = REG_LR_IRQFLAGS then irq else 0),
     DIO0 := True, tick_dio0 := 5, tick_now := 5\<rparr>"

lemma ready_input_simps [simp]:
  "DIO0 (ready_input irq)" "air_packet (ready_input irq) = [0, 1, 2]" "crc_error (ready_input irq) \<longleftrightarrow> irq AND 0x20 = 0x20"
  "\<not> DIO2 (ready_input irq)" "tick_dio0 (ready_input irq) = 5" "tick_now (ready_input irq) = 5"
  by (simp_all add: ready_input_def idle_input_def air_packet_def crc_error_def reg_addr upt_rec)

lemma start_listens:
  "\<exists>t. lora_turn i (lora_start por) = Some t \<and> thread_ok t \<and> RFLRState (rf t) = RFLR_STATE_RX_RUNNING \<and>
     \<not> ImplicitHeaderOn (LoRaSettings (Radio (rf t))) \<and> PacketTimeout (rf t) = 100 \<and> lora_rx_buf t = replicate LORA_RX_SIZE 0"
proof -
  let ?st = "rf (lora_start por)"
  have ok: "lora_wf ?st" "\<not> hopping ?st" using lora_start_ok(1) [of por] by (simp_all add: thread_ok_def)
  obtain st1 where st1: "SX1276Process i ?st = Some (RF_BUSY, st1, [])" "RFLRState st1 = RFLR_STATE_RX_RUNNING"
    "PacketTimeout st1 = RxPacketTimeout (LoRaSettings (Radio ?st))"
    "ImplicitHeaderOn (LoRaSettings (Radio st1)) = ImplicitHeaderOn (LoRaSettings (Radio ?st))" "lora_wf st1" "\<not> hopping st1"
    using turn_rx_init [OF ok lora_start_ok(2), of i] by blast
  then show ?thesis using lora_start_ok [of por]
    by (intro exI [of _ "(lora_start por)\<lparr>rf := st1\<rparr>"]) (simp add: lora_turn_def thread_ok_def lora_start_def)
qed

theorem lora_thread_receives_witness:
  "\<exists>t1. lora_thread_entry [idle_input, ready_input 0, ready_input 0] (lora_start (\<lambda>_. 0x09)) = Some t1 \<and>
     lora_rx_len t1 = 3 \<and> take 3 (lora_rx_buf t1) = [0, 1, 2]"
proof -
  obtain t where t: "lora_turn idle_input (lora_start (\<lambda>_. 0x09)) = Some t" "thread_ok t" "RFLRState (rf t) = RFLR_STATE_RX_RUNNING"
    "\<not> ImplicitHeaderOn (LoRaSettings (Radio (rf t)))" "PacketTimeout (rf t) = 100"
    using start_listens by blast
  have "\<not> rx_late (ready_input 0) (rf t)" using t(5) by (simp add: rx_late_def rx_waited_def)
  from lora_thread_receives [OF t(2-4) _ this, of "ready_input 0"] t(1) show ?thesis by auto
qed

theorem lora_crc_dropped_witness:
  "\<exists>t1. lora_thread_entry [idle_input, ready_input 0, ready_input 0x20] (lora_start (\<lambda>_. 0x09)) = Some t1 \<and>
     lora_rx_buf t1 = replicate LORA_RX_SIZE 0"
proof -
  obtain t where t: "lora_turn idle_input (lora_start (\<lambda>_. 0x09)) = Some t" "thread_ok t" "RFLRState (rf t) = RFLR_STATE_RX_RUNNING"
    "PacketTimeout (rf t) = 100" "lora_rx_buf t = replicate LORA_RX_SIZE 0"
    using start_listens by blast
  have "\<not> rx_late (ready_input 0) (rf t)" using t(4) by (simp add: rx_late_def rx_waited_def)
  then obtain ta where ta: "lora_turn (ready_input 0) t = Some ta" "thread_ok ta" "RFLRState (rf ta) = RFLR_STATE_RX_DONE"
    "lora_rx_buf ta = lora_rx_buf t"
    using lora_turn_done [OF t(2,3), of "ready_input 0"] by auto
  show ?thesis using lora_crc_dropped [OF ta(2,3), of "ready_input 0x20"] t(1,5) ta(1,4) by auto
qed

end
