(* ===== verification/Lora_Air.thy ===== *)
theory Lora_Air
  imports Lora_Packets
begin

text \<open>
  Sending, waiting and listening: what the chip is given to send, the wait for an end of transmission that has no time-out, the time-out
  of a reception, the way from the start of the board to listening, the signal-to-noise ratio and the end of the hopping table.
\<close>

section \<open>Sending\<close>

text \<open>The length of the packet in the register of the chip, which has eight bits for it.\<close>

lemma tx_init_length:
  assumes "tx_init st = Some (st1, out)"
  shows "Chip (Radio st1) REG_LR_PAYLOADLENGTH = ucast (TxPacketSize st)"
proof -
  obtain sa where sa: "tx_hop (set_opmode 0x01 st) = Some sa" using assms by (auto simp: tx_init_def split: option.splits)
  define b where "b = on_radio (\<lambda>s. SX1276Write REG_LR_IRQFLAGSMASK (Regs s RegIrqFlagsMask) (SX1276Write REG_LR_HOPPERIOD (Regs s RegHopPeriod) s)) sa"
  have eq: "st1 = (set_opmode 0x03 (dio_mapping 0x41 0x40 (tx_load b)))\<lparr>RFLRState := RFLR_STATE_TX_RUNNING\<rparr>"
    using assms sa by (simp add: tx_init_def Let_def b_def)
  have kept: "Chip (fst (SX1276LoRaSetOpMode 3 s)) REG_LR_PAYLOADLENGTH = Chip s REG_LR_PAYLOADLENGTH"
    "Chip (SX1276WriteBuffer REG_LR_DIOMAPPING1 k n s) REG_LR_PAYLOADLENGTH = Chip s REG_LR_PAYLOADLENGTH" for k n s
    by (simp_all add: SX1276LoRaSetOpMode_def Let_def access_defs reg_addr)
  have "TxPacketSize sa = TxPacketSize st" using tx_hop_calm [OF sa] set_opmode_same(1) [of 1 st] by (simp add: calm_def same_driver_def)
  then show ?thesis
    using tx_load_result(3) [of b] by (simp add: eq set_opmode_def dio_mapping_def kept b_def)
qed

lemma turn_tx_init:
  assumes "lora_wf st" "\<not> hopping st" "RFLRState st = RFLR_STATE_TX_INIT"
  shows "\<exists>st1. SX1276Process i st = Some (RF_BUSY, st1, take (unat (ucast (TxPacketSize st) :: u8)) (RFBuffer st)) \<and>
    RFLRState st1 = RFLR_STATE_TX_RUNNING \<and> lora_wf st1 \<and> \<not> hopping st1 \<and> Chip (Radio st1) REG_LR_PAYLOADLENGTH = ucast (TxPacketSize st)"
proof -
  obtain c st1 out where r: "SX1276Process i st = Some (c, st1, out)" "lora_wf st1" "\<not> hopping st1" using wf_turn [OF assms(1,2)] by metis
  then have s: "c = RF_BUSY \<and> tx_init (sense i st) = Some (st1, out)"
    using assms(3) by (auto simp: process_wf [OF assms(1)] SX1276LoRaProcess_def)
  then have "tx_init (sense i st) = Some (st1, out)" by simp
  note t = tx_init_result [OF this] tx_init_length [OF this]
  show ?thesis using r s t by simp
qed

lemma turn_tx_running:
  assumes "lora_wf st" "\<not> hopping st" "RFLRState st = RFLR_STATE_TX_RUNNING"
  shows "\<exists>st1. SX1276Process i st = Some (RF_BUSY, st1, []) \<and>
    RFLRState st1 = (if DIO0 i then RFLR_STATE_TX_DONE else RFLR_STATE_TX_RUNNING) \<and> lora_wf st1 \<and> \<not> hopping st1"
proof -
  obtain c st1 out where r: "SX1276Process i st = Some (c, st1, out)" "lora_wf st1" "\<not> hopping st1" using wf_turn [OF assms(1,2)] by metis
  then have s: "c = RF_BUSY \<and> tx_running i (sense i st) = Some st1 \<and> out = []"
    using assms(3) by (auto simp: process_wf [OF assms(1)] SX1276LoRaProcess_def busy_def)
  then have "tx_running i (sense i st) = Some st1" by simp
  note t = tx_running_result [OF this]
  show ?thesis using r s t assms(3) by simp
qed

lemma turn_tx_done:
  assumes "lora_wf st" "RFLRState st = RFLR_STATE_TX_DONE"
  shows "\<exists>st1. SX1276Process i st = Some (RF_TX_DONE, st1, []) \<and> RFLRState st1 = RFLR_STATE_IDLE \<and> opmode (Radio st1) = 1"
  using assms by (simp add: process_wf SX1276LoRaProcess_def)

text \<open>The codes a series of calls of the state machine returns, and the state after it.\<close>

fun process_all :: "rf_input list \<Rightarrow> rf_state \<Rightarrow> (tRFProcessReturnCodes list \<times> rf_state) option" where
  "process_all [] st = Some ([], st)"
| "process_all (i # is) st =
     (case SX1276Process i st of None \<Rightarrow> None
      | Some (c, st1, _) \<Rightarrow> map_option (\<lambda>(cs, st2). (c # cs, st2)) (process_all is st1))"

lemma lora_tx_waits:
  "lora_wf st \<Longrightarrow> \<not> hopping st \<Longrightarrow> RFLRState st = RFLR_STATE_TX_RUNNING \<Longrightarrow> \<forall>i \<in> set is. \<not> DIO0 i \<Longrightarrow>
   \<exists>st1. process_all is st = Some (replicate (length is) RF_BUSY, st1) \<and> RFLRState st1 = RFLR_STATE_TX_RUNNING \<and> lora_wf st1 \<and> \<not> hopping st1"
proof (induction "is" arbitrary: st)
  case (Cons i "is")
  obtain st1 where "SX1276Process i st = Some (RF_BUSY, st1, [])" "RFLRState st1 = RFLR_STATE_TX_RUNNING" "lora_wf st1" "\<not> hopping st1"
    using turn_tx_running [OF Cons.prems(1-3), of i] Cons.prems(4) by auto
  then show ?case using Cons.IH [of st1] Cons.prems(4) by auto
qed simp

text \<open>
  C29: a packet handed to the radio, of any length a 16 bit size can say, is accepted when it has at most 256 bytes; a longer one
  overruns the buffer of the driver.  The next call of the state machine writes it to the FIFO of the chip byte for byte with its length
  in the length register when it has at most 255 bytes; of a packet of 256 bytes it writes none, with the length 0.  Then every call
  returns \<open>RF_BUSY\<close> as long as the chip does not report the end of the transmission, and after the report two more calls return
  \<open>RF_TX_DONE\<close> and leave the modem idle in standby.
\<close>

theorem lora_sends_packet:
  assumes "lora_run por st" "length d < 65536" "\<forall>i \<in> set is. \<not> DIO0 i" "DIO0 i2"
  shows "if 256 < length d then SX1276SetTxPacket d (of_nat (length d)) st = None
    else \<exists>s1 s2 s3 s4 s5. SX1276SetTxPacket d (of_nat (length d)) st = Some s1 \<and>
      SX1276Process i1 s1 = Some (RF_BUSY, s2, if length d < 256 then d else []) \<and>
      Chip (Radio s2) REG_LR_PAYLOADLENGTH = of_nat (length d) \<and>
      process_all is s2 = Some (replicate (length is) RF_BUSY, s3) \<and>
      SX1276Process i2 s3 = Some (RF_BUSY, s4, []) \<and> SX1276Process i3 s4 = Some (RF_TX_DONE, s5, []) \<and>
      RFLRState s5 = RFLR_STATE_IDLE \<and> opmode (Radio s5) = 1"
proof (cases "256 < length d")
  case False
  have wf: "lora_wf st" "\<not> hopping st" using lora_run_wf [OF assms(1)] by simp_all
  define s1 where "s1 = st\<lparr>TxPacketSize := of_nat (length d), RFBuffer := d @ drop (length d) (RFBuffer st), RFLRState := RFLR_STATE_TX_INIT\<rparr>"
  have n: "unat (of_nat (length d) :: u16) = length d" "(ucast (of_nat (length d) :: u16) :: u8) = of_nat (length d)"
    using assms(2) by (simp_all add: word_unat_eq_iff unsigned_ucast_eq unat_of_nat take_bit_eq_mod)
  have short: "take (unat (of_nat (length d) :: u8)) (RFBuffer s1) = (if length d < 256 then d else [])"
    using False by (auto simp: s1_def unat_of_nat)
  have set: "SX1276SetTxPacket d (of_nat (length d)) st = Some s1"
    using wf False by (simp add: SX1276SetTxPacket_def SX1276LoRaSetTxPacket_def Let_def n s1_def lora_wf_def RF_BUFFER_SIZE_def)
  with wf have wf1: "lora_wf s1" "\<not> hopping s1" using send_wf by blast+
  have "TxPacketSize s1 = of_nat (length d)" "RFLRState s1 = RFLR_STATE_TX_INIT" by (simp_all add: s1_def)
  with turn_tx_init [OF wf1, of i1] obtain s2 where s2: "SX1276Process i1 s1 = Some (RF_BUSY, s2, if length d < 256 then d else [])"
    "RFLRState s2 = RFLR_STATE_TX_RUNNING" "lora_wf s2" "\<not> hopping s2" "Chip (Radio s2) REG_LR_PAYLOADLENGTH = of_nat (length d)"
    by (auto simp: n short)
  obtain s3 where s3: "process_all is s2 = Some (replicate (length is) RF_BUSY, s3)" "RFLRState s3 = RFLR_STATE_TX_RUNNING" "lora_wf s3" "\<not> hopping s3"
    using lora_tx_waits [OF s2(3,4,2) assms(3)] by blast
  obtain s4 where s4: "SX1276Process i2 s3 = Some (RF_BUSY, s4, [])" "RFLRState s4 = RFLR_STATE_TX_DONE" "lora_wf s4"
    using turn_tx_running [OF s3(3,4,2), of i2] assms(4) by auto
  obtain s5 where "SX1276Process i3 s4 = Some (RF_TX_DONE, s5, [])" "RFLRState s5 = RFLR_STATE_IDLE" "opmode (Radio s5) = 1"
    using turn_tx_done [OF s4(3,2)] by blast
  then show ?thesis using False set s2(1,5) s3(1) s4(1) by auto
next
  case True
  have "unat (of_nat (length d) :: u16) = length d" using assms(2) by (simp add: unat_of_nat)
  then show ?thesis
    using True lora_run_wf [OF assms(1)] by (simp add: SX1276SetTxPacket_def SX1276LoRaSetTxPacket_def Let_def lora_wf_def RF_BUFFER_SIZE_def)
qed

text \<open>
  so a packet of 256 bytes, which the buffer of the driver holds, is accepted and never sent: no byte of it reaches the chip, the call
  returns \<open>RF_BUSY\<close> and so does every later one while the chip reports nothing.
\<close>

theorem lora_full_packet_lost:
  assumes "lora_run por st" "length d = 256" "\<forall>i \<in> set is. \<not> DIO0 i"
  shows "\<exists>s1 s2 s3. SX1276SetTxPacket d 256 st = Some s1 \<and> SX1276Process i s1 = Some (RF_BUSY, s2, []) \<and>
    process_all is s2 = Some (replicate (length is) RF_BUSY, s3) \<and> RFLRState s3 = RFLR_STATE_TX_RUNNING"
proof -
  have wf: "lora_wf st" "\<not> hopping st" using lora_run_wf [OF assms(1)] by simp_all
  obtain s1 where s1: "SX1276SetTxPacket d 256 st = Some s1" "TxPacketSize s1 = 256" "RFLRState s1 = RFLR_STATE_TX_INIT"
    using wf assms(2) by (simp add: SX1276SetTxPacket_def SX1276LoRaSetTxPacket_def Let_def lora_wf_def RF_BUFFER_SIZE_def)
  with wf have wf1: "lora_wf s1" "\<not> hopping s1" using send_wf by blast+
  obtain s2 where "SX1276Process i s1 = Some (RF_BUSY, s2, [])" "RFLRState s2 = RFLR_STATE_TX_RUNNING" "lora_wf s2" "\<not> hopping s2"
    using turn_tx_init [OF wf1 s1(3), of i] s1(2) by auto
  then show ?thesis using lora_tx_waits [OF _ _ _ assms(3), of s2] s1(1) by blast
qed

section \<open>Waiting\<close>

text \<open>
  a transmission has no time-out: as long as the pin of the chip does not report its end, every call returns \<open>RF_BUSY\<close> and the state
  machine stays in \<open>RFLR_STATE_TX_RUNNING\<close>, however many calls and whatever time passes.
\<close>

theorem lora_tx_never_times_out:
  assumes "lora_wf st" "\<not> hopping st" "RFLRState st = RFLR_STATE_TX_RUNNING" "\<forall>i \<in> set is. \<not> DIO0 i"
  shows "\<exists>st1. process_all is st = Some (replicate (length is) RF_BUSY, st1) \<and> RFLRState st1 = RFLR_STATE_TX_RUNNING"
  using lora_tx_waits [OF assms] by blast

text \<open>
  a reception in single mode ends in a time-out exactly when, with no event of the chip, more ticks than the time-out have passed since
  listening began, also when the tick counter has wrapped; the calls then report \<open>RF_RX_TIMEOUT\<close> and listen again.
\<close>

theorem lora_rx_timeout:
  assumes "lora_wf st" "\<not> hopping st" "RFLRState st = RFLR_STATE_RX_INIT" "RxSingleOn (LoRaSettings (Radio st))" "\<not> DIO0 i2" "\<not> DIO2 i2"
  shows "\<exists>s2. process_all [i1, i2] st = Some ([RF_BUSY, RF_BUSY], s2) \<and>
    (if RxPacketTimeout (LoRaSettings (Radio st)) < tick_now i2 - tick_now i1
     then (\<exists>s3. SX1276Process i3 s2 = Some (RF_RX_TIMEOUT, s3, []) \<and> RFLRState s3 = RFLR_STATE_RX_INIT)
     else RFLRState s2 = RFLR_STATE_RX_RUNNING)"
proof -
  obtain s1 where s1: "SX1276Process i1 st = Some (RF_BUSY, s1, [])" "RFLRState s1 = RFLR_STATE_RX_RUNNING" "RxTimeoutTimer s1 = tick_now i1"
    "PacketTimeout s1 = RxPacketTimeout (LoRaSettings (Radio st))" "RxSingleOn (LoRaSettings (Radio s1))" "lora_wf s1" "\<not> hopping s1"
    using turn_rx_init [OF assms(1-3), of i1] assms(4) by auto
  obtain s2 where s2: "SX1276Process i2 s1 = Some (RF_BUSY, s2, [])" "rx_running i2 (sense i2 s1) = Some s2" "lora_wf s2" "\<not> hopping s2"
    by (rule turn_rx_running [OF s1(6,7,2)])
  have "RFLRState s2 = (if RxPacketTimeout (LoRaSettings (Radio st)) < tick_now i2 - tick_now i1 then RFLR_STATE_RX_TIMEOUT else RFLR_STATE_RX_RUNNING)"
    using rx_running_result(3) [OF s2(2)] s1 assms(5,6) by (simp add: rx_late_def rx_waited_def)
  then show ?thesis
    using s1(1) s2(1) timeout_turn [of s2 i3] by (simp add: process_wf [OF s2(3)])
qed

section \<open>From the start of the board to listening\<close>

lemma view_irrelevant:
  "modem_of (SX1276Write REG_LR_IRQFLAGSMASK v s) = modem_of s"
  "modem_of (SX1276WriteBuffer REG_LR_DIOMAPPING1 k 2 s) = modem_of s"
  "modem_of (SX1276Write REG_LR_HOPPERIOD v s) = (modem_of s)\<lparr>m_hop := v\<rparr>"
  by (simp_all add: burst2 view_def reg_addr)

lemma modem_put [simp]: "modem_of (put_reg k v s) = modem_of s" "modem_of (s\<lparr>LoRaOn := b\<rparr>) = modem_of s"
  by (simp_all add: put_reg_def)

lemma opmode_agree_init: "Regs (fst (SX1276LoRaInit s)) 1 = Chip (fst (SX1276LoRaInit s)) 1"
proof -
  define s2 where "s2 = SX1276WriteBuffer REG_LR_OPMODE 1 (0x70 - 1) (put_reg RegLna 0x20 (SX1276ReadBuffer REG_LR_OPMODE 1 (0x70 - 1) (SX1276LoRaSetDefaults s)))"
  have "Regs s2 (Suc 0) = Chip s2 (Suc 0)" by (simp add: s2_def access_defs SX1276LoRaSetDefaults_def reg_addr reg_off)
  moreover have "Regs x 1 = Chip x 1 \<Longrightarrow> Regs (fst (SX1276LoRaSetOpMode 0x01 x)) 1 = Chip (fst (SX1276LoRaSetOpMode 0x01 x)) 1" for x
    by (rule set_mode(2)) simp_all
  ultimately show ?thesis
    unfolding SX1276LoRaInit_def Let_def s2_def [symmetric]
    by (simp add: lora_power_view)
qed

lemma rx_init_view:
  assumes "rx_init i st = Some st1" "\<not> hopping st" "RxSingleOn (LoRaSettings (Radio st))" "Regs (Radio st) 1 = Chip (Radio st) 1"
  shows "modem_of (Radio st1) = (modem_of (Radio st))\<lparr>m_mode := 6, m_hop := 255\<rparr>"
proof -
  let ?a = "store_reg REG_LR_IRQFLAGSMASK RegIrqFlagsMask 0x9D (set_opmode 0x01 st)"
  let ?c = "dio_mapping 0x00 0x00 (on_radio (\<lambda>s. SX1276Write REG_LR_HOPPERIOD (Regs s RegHopPeriod) s) (on_radio (put_reg RegHopPeriod 255) ?a))"
  have off: "\<not> FreqHopOn (LoRaSettings (Radio ?a))" "RxSingleOn (LoRaSettings (Radio ?c))" using assms(2,3)
    by (simp_all add: hopping_def store_reg_def set_opmode_def dio_mapping_def)
  have r: "Radio st1 = fst (SX1276LoRaSetOpMode 0x06 (Radio ?c))"
    using assms(1) off by (auto simp: rx_init_def rx_hop_def rx_mode_def Let_def set_opmode_def)
  have v: "modem_of (Radio (set_opmode 0x01 st)) = (modem_of (Radio st))\<lparr>m_mode := 1\<rparr>"
    "Regs (Radio (set_opmode 0x01 st)) 1 = Chip (Radio (set_opmode 0x01 st)) 1"
    using set_mode [OF assms(4), of 1] by (simp_all add: set_opmode_def)
  have c: "modem_of (Radio ?c) = (modem_of (Radio st))\<lparr>m_mode := 1, m_hop := 255\<rparr>"
    using v(1) unfolding dio_mapping_def store_reg_def on_radio_simps view_irrelevant modem_put by (simp add: reg_off)
  have agree: "Regs (Radio ?c) 1 = Chip (Radio ?c) 1"
    using v(2) by (simp add: dio_mapping_def store_reg_def burst2 reg_off reg_addr)
  show ?thesis unfolding r using set_mode(1) [OF agree, of 6] c by simp
qed

lemma init_radio:
  "\<exists>s. Radio (rf (lora_start por)) = fst (SX1276LoRaInit s) \<and> LoRaSettings s = LoRaSettings_default \<and> lora_config c (modem_of s) = lora_config c (view por)"
proof -
  define s1 where "s1 = fst (SX1276SetLoRaOn True (lora_reset\<lparr>Chip := por, LoRaOn := True\<rparr>))"
  have s1: "LoRaOn s1" "LoRaSettings s1 = LoRaSettings_default"
    using lora_on_boot [of "lora_reset\<lparr>Chip := por, LoRaOn := True\<rparr>"] by (simp_all add: s1_def lora_reset_def)
  have radio: "Radio (SX1276Init por rf_boot) = fst (SX1276LoRaInit s1)"
    by (simp add: SX1276Init_def s1_def rf_boot_def Let_def)
  then have "Radio (rf (lora_start por)) = fst (SX1276LoRaInit s1)"
    by (simp add: lora_start_def lora_init_def SX1276SetRFState_def SX1276LoRaSetRFState_def lora_init_keeps s1)
  moreover have "Chip s1 = por(1 := 0x81, 0x40 := 0, 0x41 := 0)"
    by (simp add: s1_def SX1276SetLoRaOn_def SX1276LoRaSetOpMode_def Let_def reg_addr reg_off lora_reset_def burst2 put_reg_def SX1276Write_def fun_eq_iff)
  ultimately show ?thesis using s1 by (intro exI [of _ s1]) (simp add: lora_config_def view_def)
qed

text \<open>
  after the start of the board and one turn of the state machine, with the registers as the driver left them, the chip listens in
  single mode with the default settings: 480 MHz, spreading factor 7, bandwidth code 9, coding rate 2, explicit header and CRC.
\<close>

theorem lora_board_listens:
  assumes "in_regs i = Chip (Radio (rf (lora_start por)))"
  shows "\<exists>st1. SX1276Process i (rf (lora_start por)) = Some (RF_BUSY, st1, []) \<and> RFLRState st1 = RFLR_STATE_RX_RUNNING \<and>
    modem_of (Radio st1) = (lora_config LoRaSettings_default (view por))\<lparr>m_mode := 6, m_hop := 255\<rparr>"
proof -
  let ?st = "rf (lora_start por)"
  obtain s where s: "Radio ?st = fst (SX1276LoRaInit s)" "LoRaSettings s = LoRaSettings_default"
    "lora_config LoRaSettings_default (modem_of s) = lora_config LoRaSettings_default (view por)" using init_radio by blast
  have ok: "lora_wf ?st" "\<not> hopping ?st" using lora_start_ok(1) [of por] by (simp_all add: thread_ok_def)
  obtain st1 where st1: "SX1276Process i ?st = Some (RF_BUSY, st1, [])" "RFLRState st1 = RFLR_STATE_RX_RUNNING" "rx_init i (sense i ?st) = Some st1"
    using turn_rx_init [OF ok lora_start_ok(2), of i] by blast
  have same: "Radio (sense i ?st) = Radio ?st" using assms by simp
  have "\<not> hopping (sense i ?st)" "RxSingleOn (LoRaSettings (Radio (sense i ?st)))" "Regs (Radio (sense i ?st)) 1 = Chip (Radio (sense i ?st)) 1"
    using ok(2) lora_start_ok(4) [of por] opmode_agree_init [of s] s(1) unfolding same by (simp_all add: hopping_def)
  note view = rx_init_view [OF st1(3) this, unfolded same]
  have "modem_of (Radio ?st) = lora_config LoRaSettings_default (view por)"
    using lora_init_view [of s] s by (simp add: LoRaSettings_default_def)
  then have "modem_of (Radio st1) = (lora_config LoRaSettings_default (view por))\<lparr>m_mode := 6, m_hop := 255\<rparr>"
    using view by simp
  with st1 show ?thesis by blast
qed

section \<open>Signal-to-noise ratio\<close>

text \<open>
  the estimate of the signal-to-noise ratio, which the driver computes by complement and shift on the magnitude, is the
  two's complement value of the register divided by four and rounded towards zero.
\<close>

theorem lora_snr_is_quarter:
  "snr_estimate x = (if sint x < 0 then - (- sint x div 4) else sint x div 4)"
proof -
  have top: "x AND 0x80 \<noteq> 0 \<longleftrightarrow> bit x 7" by (simp add: u8_bits_eq bit_simps)
  have sign: "bit x 7 \<longleftrightarrow> sint x < 0" by (simp add: bit_last_iff [of x, simplified])
  have val: "sint x = uint x - 256 * of_bool (bit x 7)"
    by (simp add: sint_uint signed_take_bit_eq_take_bit_minus bit_uint_iff bintr_uint)
  have quarter: "uint (drop_bit 2 y) = uint y div 4" for y :: u8 by (simp add: drop_bit_eq_div uint_div_distrib)
  show ?thesis
  proof (cases "bit x 7")
    case True
    then have "x \<noteq> 0" by auto
    have "uint x < 2 ^ LENGTH(8)" by (rule unsigned_less)
    then have "uint x mod 256 = uint x" by (intro mod_pos_pos_trivial) simp_all
    then have "uint (- x) = 256 - uint x" using \<open>x \<noteq> 0\<close> by (simp add: uint_word_ariths zmod_zminus1_eq_if uint_0_iff)
    moreover have "NOT x + 1 = - x" by (simp add: minus_eq_not_plus_1)
    ultimately have "snr_estimate x = - ((256 - uint x) div 4)"
      unfolding snr_estimate_def top using True by (simp only: quarter if_True)
    moreover have "sint x < 0" using True sign by blast
    moreover have "- sint x = 256 - uint x" using True val by simp
    ultimately show ?thesis by (simp only: if_True)
  next
    case False
    then have "snr_estimate x = uint x div 4" unfolding snr_estimate_def top by (simp only: quarter if_False)
    moreover have "\<not> sint x < 0" using False sign by blast
    moreover have "sint x = uint x" using False val by simp
    ultimately show ?thesis by (simp only: if_False)
  qed
qed

section \<open>Hopping\<close>

text \<open>
  with frequency hopping on, a channel number the chip can report but the table does not have, 51 to 63, makes the next call
  read behind the end of the table.
\<close>

theorem lora_hop_outside_table:
  assumes "LoRaOn (Radio st)" "hopping st" "RFLRState st = RFLR_STATE_RX_INIT" "unat (in_regs i REG_LR_HOPCHANNEL AND 0x3F) \<ge> 51"
  shows "SX1276Process i st = None"
proof -
  have "length HoppingFrequencies = 51" by (simp add: HoppingFrequencies_def)
  then have "hop_frequency st' = None" if "Chip (Radio st') REG_LR_HOPCHANNEL = in_regs i REG_LR_HOPCHANNEL" for st'
    using assms(4) that by (simp add: hop_frequency_def Let_def)
  moreover have "Chip (fst (SX1276LoRaSetOpMode m s)) REG_LR_HOPCHANNEL = Chip s REG_LR_HOPCHANNEL" for m s
    by (simp add: SX1276LoRaSetOpMode_def Let_def reg_addr reg_off)
  moreover have "REG_LR_HOPCHANNEL \<noteq> REG_LR_IRQFLAGSMASK" by (simp add: reg_addr)
  ultimately show ?thesis
    using assms(1-3) by (simp add: SX1276Process_def SX1276LoRaProcess_def rx_init_def rx_hop_def hopping_def store_reg_def set_opmode_def busy_def Let_def)
qed

section \<open>Concrete runs\<close>

abbreviation board_start :: rf_state where
  "board_start \<equiv> rf (lora_start (\<lambda>_. 0x09))"

lemma board_run: "lora_run (\<lambda>_. 0x09) board_start"
  using lora_init_start [of "\<lambda>_. 0x09"] by (auto simp: lora_start_def intro: lora_run.start)

lemma board_ok: "lora_wf board_start" "\<not> hopping board_start"
  using lora_run_wf [OF board_run] by simp_all

theorem lora_sends_packet_witness:
  "(\<exists>s1 s2. SX1276SetTxPacket [0xAA, 0x55] 2 board_start = Some s1 \<and> SX1276Process idle_input s1 = Some (RF_BUSY, s2, [0xAA, 0x55]) \<and>
     Chip (Radio s2) REG_LR_PAYLOADLENGTH = 2) \<and>
   (\<exists>s1 s2. SX1276SetTxPacket (replicate 256 7) 256 board_start = Some s1 \<and> SX1276Process idle_input s1 = Some (RF_BUSY, s2, []) \<and>
     Chip (Radio s2) REG_LR_PAYLOADLENGTH = 0) \<and>
   SX1276SetTxPacket (replicate 257 7) 257 board_start = None"
proof (intro conjI)
  have i: "\<forall>i \<in> set [idle_input]. \<not> DIO0 i" "DIO0 (ready_input 0)" by (simp_all add: idle_input_def)
  show "\<exists>s1 s2. SX1276SetTxPacket [0xAA, 0x55] 2 board_start = Some s1 \<and> SX1276Process idle_input s1 = Some (RF_BUSY, s2, [0xAA, 0x55]) \<and>
     Chip (Radio s2) REG_LR_PAYLOADLENGTH = 2"
    using lora_sends_packet [OF board_run _ i, of "[0xAA, 0x55]" idle_input idle_input] by auto
  show "\<exists>s1 s2. SX1276SetTxPacket (replicate 256 7) 256 board_start = Some s1 \<and> SX1276Process idle_input s1 = Some (RF_BUSY, s2, []) \<and>
     Chip (Radio s2) REG_LR_PAYLOADLENGTH = 0"
    using lora_sends_packet [OF board_run _ i, of "replicate 256 7" idle_input idle_input] by auto
  show "SX1276SetTxPacket (replicate 257 7) 257 board_start = None"
    using lora_sends_packet [OF board_run _ i, of "replicate 257 7" idle_input idle_input] by simp
qed

theorem lora_full_packet_lost_witness:
  "\<exists>s1 s2 s3. SX1276SetTxPacket (replicate 256 7) 256 board_start = Some s1 \<and> SX1276Process idle_input s1 = Some (RF_BUSY, s2, []) \<and>
     process_all [idle_input] s2 = Some ([RF_BUSY], s3)"
  using lora_full_packet_lost [OF board_run, of "replicate 256 7" "[idle_input]" idle_input] by (auto simp: idle_input_def)

theorem lora_tx_never_times_out_witness:
  "\<exists>st st1. RFLRState st = RFLR_STATE_TX_RUNNING \<and> process_all [idle_input, idle_input] st = Some ([RF_BUSY, RF_BUSY], st1)"
proof -
  let ?st = "board_start\<lparr>RFLRState := RFLR_STATE_TX_INIT\<rparr>"
  have "lora_wf ?st" "\<not> hopping ?st" using board_ok by (simp_all add: lora_wf_def mode_ok_def hopping_def)
  then obtain st where st: "RFLRState st = RFLR_STATE_TX_RUNNING" "lora_wf st" "\<not> hopping st"
    using turn_tx_init [of ?st idle_input] by auto
  have "\<forall>i \<in> set [idle_input, idle_input]. \<not> DIO0 i" by (simp add: idle_input_def)
  from lora_tx_never_times_out [OF st(2,3,1) this] st(1) show ?thesis by auto
qed

theorem lora_rx_timeout_witness:
  "\<exists>s2 s3. process_all [idle_input\<lparr>tick_now := 0xFFFFFFF0\<rparr>, idle_input\<lparr>tick_now := 0x80\<rparr>] board_start = Some ([RF_BUSY, RF_BUSY], s2) \<and>
     SX1276Process idle_input s2 = Some (RF_RX_TIMEOUT, s3, [])"
  using lora_rx_timeout [OF board_ok lora_start_ok(2,4), of "idle_input\<lparr>tick_now := 0x80\<rparr>" "idle_input\<lparr>tick_now := 0xFFFFFFF0\<rparr>" idle_input]
  by (auto simp: idle_input_def lora_start_ok(5))

theorem lora_board_listens_witness:
  "\<exists>st1. SX1276Process (idle_input\<lparr>in_regs := Chip (Radio board_start)\<rparr>) board_start = Some (RF_BUSY, st1, []) \<and>
     m_mode (modem_of (Radio st1)) = 6 \<and> m_frf (modem_of (Radio st1)) = 7864320"
  using lora_board_listens [of "idle_input\<lparr>in_regs := Chip (Radio board_start)\<rparr>" "\<lambda>_. 0x09"]
  by (auto simp: lora_config_def LoRaSettings_default_def)

definition hop_state :: rf_state where
  "hop_state = rf_boot\<lparr>Radio := lora_reset\<lparr>LoRaOn := True, LoRaSettings := LoRaSettings_default\<lparr>FreqHopOn := True\<rparr>\<rparr>, RFLRState := RFLR_STATE_RX_INIT\<rparr>"

theorem lora_hop_outside_table_witness: "SX1276Process (idle_input\<lparr>in_regs := (\<lambda>_. 51)\<rparr>) hop_state = None"
  using lora_hop_outside_table [of hop_state "idle_input\<lparr>in_regs := (\<lambda>_. 51)\<rparr>"]
  by (simp add: hop_state_def hopping_def)

end
