(* ===== verification/Fsk_Modem.thy ===== *)
theory Fsk_Modem
  imports Sx1276 Complex_Main
begin

text \<open>
  The FSK modem of the SX1276 driver: the setters and getters of \<open>SX1276/src/radio/sx1276-FskMisc.c\<close>, the readings, the operating mode
  and the initialisation of \<open>sx1276-Fsk.c\<close>.  The driver is compiled beside the LoRa modem and shares the copy of the registers with
  it.
\<close>

section \<open>Registers and settings\<close>

text \<open>Addresses.  Up to 0x58 a member of \<open>tSX1276\<close> lies at the address of its register, so the address is the offset as well.\<close>

definition REG_OPMODE :: nat where "REG_OPMODE = 0x01"
definition REG_BITRATEMSB :: nat where "REG_BITRATEMSB = 0x02"
definition REG_FDEVMSB :: nat where "REG_FDEVMSB = 0x04"
definition REG_FRFMSB :: nat where "REG_FRFMSB = 0x06"
definition REG_PACONFIG :: nat where "REG_PACONFIG = 0x09"
definition REG_PARAMP :: nat where "REG_PARAMP = 0x0A"
definition REG_LNA :: nat where "REG_LNA = 0x0C"
definition REG_RXCONFIG :: nat where "REG_RXCONFIG = 0x0D"
definition REG_RSSICONFIG :: nat where "REG_RSSICONFIG = 0x0E"
definition REG_RSSITHRESH :: nat where "REG_RSSITHRESH = 0x10"
definition REG_RSSIVALUE :: nat where "REG_RSSIVALUE = 0x11"
definition REG_RXBW :: nat where "REG_RXBW = 0x12"
definition REG_AFCBW :: nat where "REG_AFCBW = 0x13"
definition REG_AFCMSB :: nat where "REG_AFCMSB = 0x1B"
definition REG_FEIMSB :: nat where "REG_FEIMSB = 0x1D"
definition REG_PREAMBLEDETECT :: nat where "REG_PREAMBLEDETECT = 0x1F"
definition REG_PREAMBLEMSB :: nat where "REG_PREAMBLEMSB = 0x25"
definition REG_PREAMBLELSB :: nat where "REG_PREAMBLELSB = 0x26"
definition REG_SYNCCONFIG :: nat where "REG_SYNCCONFIG = 0x27"
definition REG_SYNCVALUE1 :: nat where "REG_SYNCVALUE1 = 0x28"
definition REG_PACKETCONFIG1 :: nat where "REG_PACKETCONFIG1 = 0x30"
definition REG_PAYLOADLENGTH :: nat where "REG_PAYLOADLENGTH = 0x32"
definition REG_FIFOTHRESH :: nat where "REG_FIFOTHRESH = 0x35"
definition REG_IMAGECAL :: nat where "REG_IMAGECAL = 0x3B"
definition REG_TEMP :: nat where "REG_TEMP = 0x3C"
definition REG_DIOMAPPING1 :: nat where "REG_DIOMAPPING1 = 0x40"
definition REG_VERSION :: nat where "REG_VERSION = 0x42"
definition REG_PADAC :: nat where "REG_PADAC = 0x4D"

lemmas fsk_addr = REG_OPMODE_def REG_BITRATEMSB_def REG_FDEVMSB_def REG_FRFMSB_def REG_PACONFIG_def REG_PARAMP_def REG_LNA_def
  REG_RXCONFIG_def REG_RSSICONFIG_def REG_RSSITHRESH_def REG_RSSIVALUE_def REG_RXBW_def REG_AFCBW_def REG_AFCMSB_def REG_FEIMSB_def
  REG_PREAMBLEDETECT_def REG_PREAMBLEMSB_def REG_PREAMBLELSB_def REG_SYNCCONFIG_def REG_SYNCVALUE1_def REG_PACKETCONFIG1_def
  REG_PAYLOADLENGTH_def REG_FIFOTHRESH_def REG_IMAGECAL_def REG_TEMP_def REG_DIOMAPPING1_def REG_VERSION_def REG_PADAC_def

record tFskSettings =
  Fs_RFFrequency :: u32
  Fs_Bitrate :: u32
  Fs_Fdev :: u32
  Fs_Power :: int
  Fs_RxBw :: u32
  Fs_RxBwAfc :: u32
  Fs_CrcOn :: bool
  Fs_AfcOn :: bool
  Fs_PayloadLength :: u8

definition FskSettings_default :: tFskSettings where
  "FskSettings_default = \<lparr>Fs_RFFrequency = 870000000, Fs_Bitrate = 9600, Fs_Fdev = 50000, Fs_Power = 20, Fs_RxBw = 100000,
     Fs_RxBwAfc = 150000, Fs_CrcOn = True, Fs_AfcOn = True, Fs_PayloadLength = 255\<rparr>"

record fsk_modem =
  fsk_chip :: sx1276
  FskSettings :: tFskSettings
  fsk_antennaPrev :: bool

abbreviation fsk_reg :: "fsk_modem \<Rightarrow> nat \<Rightarrow> u8" where
  "fsk_reg s a \<equiv> Regs (fsk_chip s) a"

definition on_chip :: "(sx1276 \<Rightarrow> sx1276) \<Rightarrow> fsk_modem \<Rightarrow> fsk_modem" where
  "on_chip f s = s\<lparr>fsk_chip := f (fsk_chip s)\<rparr>"

definition upd_fsk :: "(tFskSettings \<Rightarrow> tFskSettings) \<Rightarrow> fsk_modem \<Rightarrow> fsk_modem" where
  "upd_fsk f s = s\<lparr>FskSettings := f (FskSettings s)\<rparr>"

text \<open>A register read into its copy, a copy assigned, a copy written, \<open>n\<close> of them at once, and all three in a row.\<close>

definition fsk_read :: "nat \<Rightarrow> fsk_modem \<Rightarrow> fsk_modem" where
  "fsk_read a = on_chip (SX1276Read a a)"

definition fsk_read_n :: "nat \<Rightarrow> nat \<Rightarrow> fsk_modem \<Rightarrow> fsk_modem" where
  "fsk_read_n a n = on_chip (SX1276ReadBuffer a a n)"

definition fsk_put :: "nat \<Rightarrow> u8 \<Rightarrow> fsk_modem \<Rightarrow> fsk_modem" where
  "fsk_put a v = on_chip (put_reg a v)"

definition fsk_write :: "nat \<Rightarrow> fsk_modem \<Rightarrow> fsk_modem" where
  "fsk_write a = on_chip (\<lambda>s. SX1276Write a (Regs s a) s)"

definition fsk_write_n :: "nat \<Rightarrow> nat \<Rightarrow> fsk_modem \<Rightarrow> fsk_modem" where
  "fsk_write_n a n = on_chip (SX1276WriteBuffer a a n)"

definition fsk_modify :: "nat \<Rightarrow> (u8 \<Rightarrow> u8) \<Rightarrow> fsk_modem \<Rightarrow> fsk_modem" where
  "fsk_modify a f s = (let s1 = fsk_read a s in fsk_write a (fsk_put a (f (fsk_reg s1 a)) s1))"

lemmas fsk_defs = on_chip_def upd_fsk_def fsk_read_def fsk_read_n_def fsk_put_def fsk_write_def fsk_write_n_def fsk_modify_def
  SX1276Read_def SX1276ReadBuffer_def SX1276Write_def SX1276WriteBuffer_def put_reg_def

section \<open>Frequency, bit rate and deviation\<close>

definition SX1276FskSetRFFrequency :: "u32 \<Rightarrow> fsk_modem \<Rightarrow> fsk_modem" where
  "SX1276FskSetRFFrequency freq s =
     (let s1 = upd_fsk (\<lambda>c. c\<lparr>Fs_RFFrequency := freq\<rparr>) s;
          f = of_nat (unat freq * 256 div 15625) :: u32
      in fsk_write_n REG_FRFMSB 3 (fsk_put (REG_FRFMSB + 2) (ucast f) (fsk_put (REG_FRFMSB + 1) (ucast (drop_bit 8 f))
           (fsk_put REG_FRFMSB (ucast (drop_bit 16 f)) s1))))"

definition SX1276FskGetRFFrequency :: "fsk_modem \<Rightarrow> u32 \<times> fsk_modem" where
  "SX1276FskGetRFFrequency s =
     (let s1 = fsk_read_n REG_FRFMSB 3 s;
          f = push_bit 16 (ucast (fsk_reg s1 REG_FRFMSB)) OR push_bit 8 (ucast (fsk_reg s1 (REG_FRFMSB + 1)))
            OR ucast (fsk_reg s1 (REG_FRFMSB + 2)) :: u32;
          g = of_nat (unat f * 15625 div 256) :: u32
      in (g, upd_fsk (\<lambda>c. c\<lparr>Fs_RFFrequency := g\<rparr>) s1))"

text \<open>The conversion of a \<open>double\<close> to \<open>uint16_t\<close>: what is out of range is undefined.\<close>

definition to_u16 :: "nat \<Rightarrow> u16 option" where
  "to_u16 n = (if n < 65536 then Some (of_nat n) else None)"

definition XTAL_FREQ :: nat where "XTAL_FREQ = 32000000"

definition SX1276FskSetBitrate :: "u32 \<Rightarrow> fsk_modem \<Rightarrow> fsk_modem option" where
  "SX1276FskSetBitrate bitrate s =
     (if bitrate = 0 then None
      else map_option (\<lambda>b. fsk_write_n REG_BITRATEMSB 2 (fsk_put (REG_BITRATEMSB + 1) (ucast b) (fsk_put REG_BITRATEMSB (ucast (drop_bit 8 b))
          (upd_fsk (\<lambda>c. c\<lparr>Fs_Bitrate := bitrate\<rparr>) s))))
        (to_u16 (XTAL_FREQ div unat bitrate)))"

definition SX1276FskGetBitrate :: "fsk_modem \<Rightarrow> (u32 \<times> fsk_modem) option" where
  "SX1276FskGetBitrate s =
     (let s1 = fsk_read_n REG_BITRATEMSB 2 s;
          r = push_bit 8 (ucast (fsk_reg s1 REG_BITRATEMSB)) OR ucast (fsk_reg s1 (REG_BITRATEMSB + 1)) :: u32
      in if r = 0 then None
         else map_option (\<lambda>b. (ucast b, upd_fsk (\<lambda>c. c\<lparr>Fs_Bitrate := ucast b\<rparr>) s1)) (to_u16 (XTAL_FREQ div unat r)))"

definition SX1276FskSetFdev :: "u32 \<Rightarrow> fsk_modem \<Rightarrow> fsk_modem option" where
  "SX1276FskSetFdev fdev s =
     map_option (\<lambda>f.
        let s1 = fsk_read REG_FDEVMSB (upd_fsk (\<lambda>c. c\<lparr>Fs_Fdev := fdev\<rparr>) s);
            s2 = fsk_put REG_FDEVMSB ((fsk_reg s1 REG_FDEVMSB AND 0xC0) OR (ucast (drop_bit 8 f) AND NOT 0xC0)) s1
        in fsk_write_n REG_FDEVMSB 2 (fsk_put (REG_FDEVMSB + 1) (ucast f) s2))
      (to_u16 (unat fdev * 256 div 15625))"

text \<open>The mask is applied after the shift.\<close>

definition SX1276FskGetFdev :: "fsk_modem \<Rightarrow> (u32 \<times> fsk_modem) option" where
  "SX1276FskGetFdev s =
     (let s1 = fsk_read_n REG_FDEVMSB 2 s;
          r = (push_bit 8 (ucast (fsk_reg s1 REG_FDEVMSB)) AND NOT 0xC0) OR ucast (fsk_reg s1 (REG_FDEVMSB + 1)) :: u32
      in map_option (\<lambda>f. (ucast f, upd_fsk (\<lambda>c. c\<lparr>Fs_Fdev := ucast f\<rparr>) s1)) (to_u16 (unat r * 15625 div 256)))"

section \<open>Power\<close>

definition SX1276FskSetRFPower :: "int \<Rightarrow> fsk_modem \<Rightarrow> fsk_modem" where
  "SX1276FskSetRFPower pw s =
     (let s1 = fsk_read REG_PADAC (fsk_read REG_PACONFIG s);
          (p, base) =
            (if fsk_reg s1 REG_PACONFIG AND 0x80 = 0x80 then
               (if fsk_reg s1 REG_PADAC AND 0x87 = 0x87 then (clamp 5 20 pw, -5) else (clamp 2 17 pw, -2))
             else (clamp (-1) 14 pw, 1));
          s2 = fsk_put REG_PACONFIG (power_bits (p + base) (fsk_reg s1 REG_PACONFIG)) s1
      in upd_fsk (\<lambda>c. c\<lparr>Fs_Power := p\<rparr>) (fsk_write REG_PACONFIG s2))"

definition SX1276FskGetRFPower :: "fsk_modem \<Rightarrow> int \<times> fsk_modem" where
  "SX1276FskGetRFPower s =
     (let s1 = fsk_read REG_PADAC (fsk_read REG_PACONFIG s);
          v = uint (fsk_reg s1 REG_PACONFIG AND NOT 0xF0);
          p = (if fsk_reg s1 REG_PACONFIG AND 0x80 = 0x80 then (if fsk_reg s1 REG_PADAC AND 0x07 = 0x07 then 5 + v else 2 + v) else -1 + v)
      in (p, upd_fsk (\<lambda>c. c\<lparr>Fs_Power := p\<rparr>) s1))"

definition SX1276FskSetPa20dBm :: "bool \<Rightarrow> fsk_modem \<Rightarrow> fsk_modem" where
  "SX1276FskSetPa20dBm enale s =
     (let s1 = fsk_read REG_PACONFIG (fsk_read REG_PADAC s)
      in fsk_write REG_PADAC
           (if fsk_reg s1 REG_PACONFIG AND 0x80 = 0x80 then (if enale then fsk_put REG_PADAC 0x87 s1 else s1) else fsk_put REG_PADAC 0x84 s1))"

definition SX1276FskGetPa20dBm :: "fsk_modem \<Rightarrow> bool \<times> fsk_modem" where
  "SX1276FskGetPa20dBm s = (let s1 = fsk_read REG_PADAC s in (fsk_reg s1 REG_PADAC AND 0x07 = 0x07, s1))"

definition SX1276FskSetPAOutput :: "u8 \<Rightarrow> fsk_modem \<Rightarrow> fsk_modem" where
  "SX1276FskSetPAOutput outputPin = fsk_modify REG_PACONFIG (\<lambda>r. (r AND 0x7F) OR outputPin)"

definition SX1276FskGetPAOutput :: "fsk_modem \<Rightarrow> u8 \<times> fsk_modem" where
  "SX1276FskGetPAOutput s = (let s1 = fsk_read REG_PACONFIG s in (fsk_reg s1 REG_PACONFIG AND NOT 0x7F, s1))"

definition SX1276FskSetPaRamp :: "u8 \<Rightarrow> fsk_modem \<Rightarrow> fsk_modem" where
  "SX1276FskSetPaRamp v = fsk_modify REG_PARAMP (\<lambda>r. (r AND 0xF0) OR (v AND NOT 0xF0))"

definition SX1276FskGetPaRamp :: "fsk_modem \<Rightarrow> u8 \<times> fsk_modem" where
  "SX1276FskGetPaRamp s = (let s1 = fsk_read REG_PARAMP s in (fsk_reg s1 REG_PARAMP AND NOT 0xF0, s1))"

section \<open>Bandwidth\<close>

text \<open>
  The bandwidth of a mantissa and an exponent.  The test of the modulation in \<open>SX1276FskComputeRxBw\<close> compares with
  \<open>RF_OPMODE_MODULATIONTYPE_FSK\<close>, which is 0, and always holds.  The differences of these fractions to a whole number are whole
  multiples of 1/12, so comparing them in \<open>double\<close> and exactly decide the same minimum.
\<close>

definition fsk_bandwidth :: "u8 \<Rightarrow> nat \<Rightarrow> nat \<Rightarrow> rat" where
  "fsk_bandwidth opmode mantisse exponent =
     (if opmode AND 0x00 = 0x00 then of_nat XTAL_FREQ / of_nat (mantisse * 2 ^ (exponent + 2))
      else of_nat XTAL_FREQ / of_nat (mantisse * 2 ^ (exponent + 3)))"

text \<open>The division by a mantissa of 0 is undefined.\<close>

definition SX1276FskComputeRxBw :: "nat \<Rightarrow> nat \<Rightarrow> fsk_modem \<Rightarrow> u32 option" where
  "SX1276FskComputeRxBw mantisse exponent s =
     (if mantisse = 0 then None else Some (of_int \<lfloor>fsk_bandwidth (fsk_reg s REG_OPMODE) mantisse exponent\<rfloor>))"

text \<open>The candidates in the order of the two loops, and a step of the inner one.\<close>

definition mant_exps :: "(nat \<times> nat) list" where
  "mant_exps = concat (map (\<lambda>e. map (\<lambda>m. (m, e)) [16, 20, 24]) [0..<8])"

definition mant_exp_step :: "u8 \<Rightarrow> u32 \<Rightarrow> nat \<times> nat \<Rightarrow> rat \<times> nat \<times> nat \<Rightarrow> rat \<times> nat \<times> nat" where
  "mant_exp_step opmode v me best =
     (let d = \<bar>fsk_bandwidth opmode (fst me) (snd me) - of_nat (unat v)\<bar> in if d < fst best then (d, me) else best)"

definition SX1276FskComputeRxBwMantExp :: "u32 \<Rightarrow> fsk_modem \<Rightarrow> nat \<times> nat" where
  "SX1276FskComputeRxBwMantExp v s = snd (fold (mant_exp_step (fsk_reg s REG_OPMODE) v) mant_exps (10000000, 0, 0))"

definition mant_bits :: "nat \<times> nat \<Rightarrow> u8" where
  "mant_bits me =
     (case me of (m, e) \<Rightarrow>
        if m = 16 then 0x00 OR (of_nat e AND 0x07) else if m = 20 then 0x08 OR (of_nat e AND 0x07)
        else if m = 24 then 0x10 OR (of_nat e AND 0x07) else 0)"

text \<open>The pointer is that of \<open>RegRxBw\<close> or that of \<open>RegAfcBw\<close>.\<close>

definition SX1276FskSetDccBw :: "nat \<Rightarrow> u32 \<Rightarrow> u32 \<Rightarrow> fsk_modem \<Rightarrow> fsk_modem" where
  "SX1276FskSetDccBw reg dccValue rxBwValue s =
     (let s1 = fsk_put reg ((if reg = REG_RXBW then ucast dccValue AND 0x60 else 0) OR mant_bits (SX1276FskComputeRxBwMantExp rxBwValue s)) s
      in if reg = REG_RXBW then upd_fsk (\<lambda>c. c\<lparr>Fs_RxBw := rxBwValue\<rparr>) (on_chip (SX1276Write REG_RXBW (fsk_reg s1 reg)) s1)
         else upd_fsk (\<lambda>c. c\<lparr>Fs_RxBwAfc := rxBwValue\<rparr>) (on_chip (SX1276Write REG_AFCBW (fsk_reg s1 reg)) s1))"

definition SX1276FskGetBw :: "nat \<Rightarrow> fsk_modem \<Rightarrow> (u32 \<times> fsk_modem) option" where
  "SX1276FskGetBw reg s =
     (let c = drop_bit 3 (fsk_reg s reg AND 0x18);
          mantisse = (if c = 0 then 16 else if c = 1 then 20 else if c = 2 then 24 else 0)
      in map_option (\<lambda>v. (v, upd_fsk (\<lambda>c. if reg = REG_RXBW then c\<lparr>Fs_RxBw := v\<rparr> else c\<lparr>Fs_RxBwAfc := v\<rparr>) s))
           (SX1276FskComputeRxBw mantisse (unat (fsk_reg s reg AND 0x07)) s))"

section \<open>Packets, receiver and RSSI\<close>

definition SX1276FskSetPacketCrcOn :: "bool \<Rightarrow> fsk_modem \<Rightarrow> fsk_modem" where
  "SX1276FskSetPacketCrcOn enable s =
     upd_fsk (\<lambda>c. c\<lparr>Fs_CrcOn := enable\<rparr>) (fsk_modify REG_PACKETCONFIG1 (\<lambda>r. (r AND 0xEF) OR push_bit 4 (of_bool enable)) s)"

definition SX1276FskGetPacketCrcOn :: "fsk_modem \<Rightarrow> bool \<times> fsk_modem" where
  "SX1276FskGetPacketCrcOn s =
     (let s1 = fsk_read REG_PACKETCONFIG1 s; v = (drop_bit 4 (fsk_reg s1 REG_PACKETCONFIG1 AND 0x10) \<noteq> 0)
      in (v, upd_fsk (\<lambda>c. c\<lparr>Fs_CrcOn := v\<rparr>) s1))"

definition SX1276FskSetAfcOn :: "bool \<Rightarrow> fsk_modem \<Rightarrow> fsk_modem" where
  "SX1276FskSetAfcOn enable s =
     upd_fsk (\<lambda>c. c\<lparr>Fs_AfcOn := enable\<rparr>) (fsk_modify REG_RXCONFIG (\<lambda>r. (r AND 0xEF) OR push_bit 4 (of_bool enable)) s)"

definition SX1276FskGetAfcOn :: "fsk_modem \<Rightarrow> bool \<times> fsk_modem" where
  "SX1276FskGetAfcOn s =
     (let s1 = fsk_read REG_RXCONFIG s; v = (drop_bit 4 (fsk_reg s1 REG_RXCONFIG AND 0x10) \<noteq> 0)
      in (v, upd_fsk (\<lambda>c. c\<lparr>Fs_AfcOn := v\<rparr>) s1))"

definition SX1276FskSetPayloadLength :: "u8 \<Rightarrow> fsk_modem \<Rightarrow> fsk_modem" where
  "SX1276FskSetPayloadLength v s =
     upd_fsk (\<lambda>c. c\<lparr>Fs_PayloadLength := v\<rparr>) (fsk_write REG_PAYLOADLENGTH (fsk_put REG_PAYLOADLENGTH v s))"

definition SX1276FskGetPayloadLength :: "fsk_modem \<Rightarrow> u8 \<times> fsk_modem" where
  "SX1276FskGetPayloadLength s =
     (let s1 = fsk_read REG_PAYLOADLENGTH s; v = fsk_reg s1 REG_PAYLOADLENGTH in (v, upd_fsk (\<lambda>c. c\<lparr>Fs_PayloadLength := v\<rparr>) s1))"

text \<open>The offset is an \<open>int8_t\<close>; it is added to what the register holds by OR.\<close>

definition SX1276FskSetRssiOffset :: "int \<Rightarrow> fsk_modem \<Rightarrow> fsk_modem" where
  "SX1276FskSetRssiOffset offset =
     (let o' = (if offset < 0 then - ((NOT offset AND 0x1F) + 1) else offset)
      in fsk_modify REG_RSSICONFIG (\<lambda>r. r OR word_of_int (push_bit 3 (o' AND 0x1F))))"

definition SX1276FskGetRssiOffset :: "fsk_modem \<Rightarrow> int \<times> fsk_modem" where
  "SX1276FskGetRssiOffset s =
     (let s1 = fsk_read REG_RSSICONFIG s; o' = uint (drop_bit 3 (fsk_reg s1 REG_RSSICONFIG))
      in (if o' AND 0x10 = 0x10 then - ((NOT o' AND 0x1F) + 1) else o', s1))"

section \<open>Readings\<close>

text \<open>\<open>FREQ_STEP\<close> times an unsigned 16-bit register, cut to a whole number; the RSSI in half decibels.\<close>

definition step_hz :: "u8 \<Rightarrow> u8 \<Rightarrow> int" where
  "step_hz msb lsb = int (unat (push_bit 8 (ucast msb) OR ucast lsb :: u16) * 15625 div 256)"

definition SX1276FskReadFei :: "fsk_modem \<Rightarrow> int \<times> fsk_modem" where
  "SX1276FskReadFei s = (let s1 = fsk_read_n REG_FEIMSB 2 s in (step_hz (fsk_reg s1 REG_FEIMSB) (fsk_reg s1 (REG_FEIMSB + 1)), s1))"

definition SX1276FskReadAfc :: "fsk_modem \<Rightarrow> int \<times> fsk_modem" where
  "SX1276FskReadAfc s = (let s1 = fsk_read_n REG_AFCMSB 2 s in (step_hz (fsk_reg s1 REG_AFCMSB) (fsk_reg s1 (REG_AFCMSB + 1)), s1))"

definition SX1276FskReadRxGain :: "fsk_modem \<Rightarrow> u8 \<times> fsk_modem" where
  "SX1276FskReadRxGain s = (let s1 = fsk_read REG_LNA s in (drop_bit 5 (fsk_reg s1 REG_LNA) AND 0x07, s1))"

definition SX1276FskReadRssi :: "fsk_modem \<Rightarrow> int \<times> fsk_modem" where
  "SX1276FskReadRssi s = (let s1 = fsk_read REG_RSSIVALUE s in (- uint (fsk_reg s1 REG_RSSIVALUE), s1))"

section \<open>Operating mode, calibration and temperature\<close>

text \<open>The antenna switch has no pin on the board.\<close>

definition SX1276FskSetOpMode :: "u8 \<Rightarrow> fsk_modem \<Rightarrow> fsk_modem" where
  "SX1276FskSetOpMode opMode s =
     (if opMode \<noteq> fsk_reg s REG_OPMODE AND NOT 0xF8
      then fsk_write REG_OPMODE (fsk_put REG_OPMODE ((fsk_reg s REG_OPMODE AND 0xF8) OR opMode) (s\<lparr>fsk_antennaPrev := (opMode = 0x03)\<rparr>))
      else s)"

definition SX1276FskGetOpMode :: "fsk_modem \<Rightarrow> u8 \<times> fsk_modem" where
  "SX1276FskGetOpMode s = (let s1 = fsk_read REG_OPMODE s in (fsk_reg s1 REG_OPMODE AND NOT 0xF8, s1))"

text \<open>The loop that reads \<open>RegImageCal\<close> until the calibration has ended, on what the chip answers; \<open>None\<close> while it goes on.\<close>

fun cal_wait :: "u8 list \<Rightarrow> fsk_modem \<Rightarrow> fsk_modem option" where
  "cal_wait [] s = None"
| "cal_wait (v # vs) s =
     (let s1 = fsk_put REG_IMAGECAL v s in if v AND 0x20 = 0x20 then cal_wait vs s1 else Some s1)"

definition SX1276FskRxCalibrate :: "u8 list \<Rightarrow> fsk_modem \<Rightarrow> fsk_modem option" where
  "SX1276FskRxCalibrate cal s =
     (let regPaConfigInitVal = Chip (fsk_chip s) REG_PACONFIG;
          (initialFreq, s1) = SX1276FskGetRFFrequency s;
          s2 = SX1276FskSetRFFrequency 860000000 (fsk_write REG_PACONFIG (fsk_put REG_PACONFIG 0 s1));
          s3 = fsk_modify REG_IMAGECAL (\<lambda>r. (r AND 0xBF) OR 0x40) s2
      in map_option (\<lambda>s4. SX1276FskSetRFFrequency initialFreq (fsk_write REG_PACONFIG (fsk_put REG_PACONFIG regPaConfigInitVal s4)))
           (cal_wait cal s3))"

text \<open>The wait of one tick on the readings of the counter, and what the temperature register holds after it.\<close>

fun tick_wait :: "u32 \<Rightarrow> u32 \<Rightarrow> u32 list \<Rightarrow> bool" where
  "tick_wait start n [] \<longleftrightarrow> False"
| "tick_wait start n (t # ts) \<longleftrightarrow> (if t - start < n then tick_wait start n ts else True)"

definition raw_temp :: "u8 \<Rightarrow> int" where
  "raw_temp r = (if r AND 0x80 = 0x80 then - uint (r AND 0x7F) else uint (r AND 0x7F))"

definition SX1276FskGetRawTemp :: "u32 \<Rightarrow> u32 list \<Rightarrow> u8 \<Rightarrow> fsk_modem \<Rightarrow> (int \<times> fsk_modem) option" where
  "SX1276FskGetRawTemp start ticks reading s =
     (let s1 = fsk_read REG_OPMODE (fsk_modify REG_IMAGECAL (\<lambda>r. (r AND 0xFE) OR 0x00) s);
          previousOpMode = fsk_reg s1 REG_OPMODE;
          s2 = fsk_write REG_OPMODE (fsk_put REG_OPMODE 0x04 s1)
      in if tick_wait start 1 ticks
         then (let s3 = fsk_put REG_TEMP reading (fsk_modify REG_IMAGECAL (\<lambda>r. (r AND 0xFE) OR 0x01) s2)
               in Some (raw_temp (fsk_reg s3 REG_TEMP), on_chip (SX1276Write REG_OPMODE previousOpMode) s3))
         else None)"

definition to_int8 :: "int \<Rightarrow> int" where
  "to_int8 v = sint (word_of_int v :: u8)"

definition SX1276FskCalibreateTemp :: "int \<Rightarrow> u32 \<Rightarrow> u32 list \<Rightarrow> u8 \<Rightarrow> fsk_modem \<Rightarrow> (int \<times> fsk_modem) option" where
  "SX1276FskCalibreateTemp actualTemp start ticks reading s =
     map_option (\<lambda>(t, s). (to_int8 (actualTemp - t), s)) (SX1276FskGetRawTemp start ticks reading s)"

definition SX1276FskGetTemp :: "int \<Rightarrow> u32 \<Rightarrow> u32 list \<Rightarrow> u8 \<Rightarrow> fsk_modem \<Rightarrow> (int \<times> fsk_modem) option" where
  "SX1276FskGetTemp compensationFactor start ticks reading s =
     map_option (\<lambda>(t, s). (to_int8 (t + compensationFactor), s)) (SX1276FskGetRawTemp start ticks reading s)"

section \<open>Initialisation\<close>

definition SX1276FskSetDefaults :: "fsk_modem \<Rightarrow> fsk_modem" where
  "SX1276FskSetDefaults = fsk_read REG_VERSION"

text \<open>The copies of the registers up to the write of all of them.\<close>

definition fsk_init_regs :: "fsk_modem \<Rightarrow> fsk_modem" where
  "fsk_init_regs s0 =
     (let s1 = fsk_read_n REG_OPMODE (0x70 - 1) (SX1276FskSetDefaults s0);
          s2 = fsk_write REG_OPMODE (fsk_put REG_OPMODE 0x00 s1);
          s3 = fsk_write REG_LNA (fsk_put REG_LNA 0x20 (fsk_write REG_PARAMP (fsk_put REG_PARAMP 0x20 s2)));
          s4 = fsk_put REG_RXCONFIG (if Fs_AfcOn (FskSettings s3) then 0x00 OR 0x10 OR 0x08 OR 0x06 else 0x00 OR 0x00 OR 0x08 OR 0x06) s3;
          s5 = fsk_put REG_RSSITHRESH 0xFF (fsk_put REG_PREAMBLEDETECT (0x80 OR 0x20 OR 0x0A) (fsk_put REG_PREAMBLELSB 8 s4));
          s6 = fsk_put REG_SYNCCONFIG (0x80 OR 0x00 OR 0x10 OR 0x03) s5;
          s7 = fsk_put (REG_SYNCVALUE1 + 3) 0x96 (fsk_put (REG_SYNCVALUE1 + 2) 0x7E (fsk_put (REG_SYNCVALUE1 + 1) 0x81 (fsk_put REG_SYNCVALUE1 0x69 s6)));
          s8 = fsk_put REG_PACKETCONFIG1 (0x80 OR push_bit 4 (of_bool (Fs_CrcOn (FskSettings s7)))) s7;
          s9 = snd (SX1276FskGetPacketCrcOn s8)
      in fsk_write_n REG_OPMODE (0x70 - 1) (fsk_put REG_PAYLOADLENGTH (Fs_PayloadLength (FskSettings s9)) s9))"

text \<open>The board has the module SX1276RF1KAS.\<close>

definition fsk_power :: "fsk_modem \<Rightarrow> fsk_modem" where
  "fsk_power s =
     (let (pin, boost, p) = (if Fs_RFFrequency (FskSettings s) > 860000000 then (0x00, False, 14) else (0x80, True, 20));
          s1 = SX1276FskSetPa20dBm boost (SX1276FskSetPAOutput pin s);
          s2 = upd_fsk (\<lambda>c. c\<lparr>Fs_Power := p\<rparr>) s1
      in SX1276FskSetRFPower (Fs_Power (FskSettings s2)) s2)"

definition fsk_init_bands :: "fsk_modem \<Rightarrow> fsk_modem" where
  "fsk_init_bands s =
     (let s1 = SX1276FskSetDccBw REG_RXBW 0 (Fs_RxBw (FskSettings s)) s;
          s2 = SX1276FskSetDccBw REG_AFCBW 0 (Fs_RxBwAfc (FskSettings s1)) s1
      in SX1276FskSetOpMode 0x01 (fsk_power (SX1276FskSetRssiOffset 0 s2)))"

definition fsk_init_modem :: "u8 list \<Rightarrow> fsk_modem \<Rightarrow> fsk_modem option" where
  "fsk_init_modem cal s0 =
     (let s1 = fsk_init_regs s0; s2 = SX1276FskSetRFFrequency (Fs_RFFrequency (FskSettings s1)) s1
      in Option.bind (SX1276FskSetBitrate (Fs_Bitrate (FskSettings s2)) s2) (\<lambda>s3.
         Option.bind (SX1276FskSetFdev (Fs_Fdev (FskSettings s3)) s3) (\<lambda>s4.
         SX1276FskRxCalibrate cal (fsk_init_bands s4))))"

end
