(* ===== verification/Fsk_Settings.thy ===== *)
theory Fsk_Settings
  imports Fsk_Modem
begin

text \<open>
  What the settings of the FSK modem do: the bandwidth that is chosen is the nearest there is and is read back; settings that are read
  back as they were set, and the ones that are not; and what the initialisation leaves in the chip.
\<close>

section \<open>Bandwidth\<close>

abbreviation bw_error :: "u8 \<Rightarrow> u32 \<Rightarrow> nat \<times> nat \<Rightarrow> rat" where
  "bw_error op v me \<equiv> \<bar>fsk_bandwidth op (fst me) (snd me) - of_nat (unat v)\<bar>"

lemma mant_exp_step_cases:
  "mant_exp_step op v me best = (if bw_error op v me < fst best then (bw_error op v me, me) else best)"
  by (simp add: mant_exp_step_def Let_def)

text \<open>The search finds the first of the nearest candidates, or keeps what it has.\<close>

lemma search_min:
  assumes "r = fold (mant_exp_step op v) xs best"
  shows "(r = best \<or> (\<exists>me \<in> set xs. r = (bw_error op v me, me))) \<and> fst r \<le> fst best \<and> (\<forall>me \<in> set xs. fst r \<le> bw_error op v me)"
  using assms
proof (induction xs arbitrary: best)
  case (Cons x xs)
  let ?b = "mant_exp_step op v x best"
  have "fst ?b \<le> fst best" "fst ?b \<le> bw_error op v x" "?b = best \<or> ?b = (bw_error op v x, x)"
    by (auto simp: mant_exp_step_cases not_less)
  with Cons.IH [of ?b] Cons.prems show ?case by (auto intro: order_trans)
qed simp

lemma mant_exps_members: "(m, e) \<in> set mant_exps \<longleftrightarrow> m \<in> {16, 20, 24} \<and> e < 8"
  by (auto simp: mant_exps_def)

lemma bandwidth_choice:
  assumes "unat v \<le> 10000000"
  shows "SX1276FskComputeRxBwMantExp v s \<in> set mant_exps \<and>
    (\<forall>me \<in> set mant_exps. bw_error (fsk_reg s REG_OPMODE) v (SX1276FskComputeRxBwMantExp v s) \<le> bw_error (fsk_reg s REG_OPMODE) v me)"
proof -
  let ?op = "fsk_reg s REG_OPMODE"
  let ?r = "fold (mant_exp_step ?op v) mant_exps (10000000, 0, 0)"
  have m: "(16, 0) \<in> set mant_exps" by (simp add: mant_exps_members)
  have "(of_nat (unat v) :: rat) \<le> of_nat 10000000" using assms by (rule of_nat_mono)
  moreover have "0 \<le> (of_nat (unat v) :: rat)" by (rule of_nat_0_le_iff)
  moreover have b: "fsk_bandwidth ?op (fst (16, 0)) (snd (16, 0)) = 500000" by (simp add: fsk_bandwidth_def XTAL_FREQ_def)
  ultimately have "bw_error ?op v (16, 0) < 10000000" unfolding b abs_less_iff by linarith
  moreover have "fst ?r \<le> bw_error ?op v (16, 0)" using search_min [OF HOL.refl, of ?op v mant_exps "(10000000, 0, 0)"] m by blast
  ultimately have "?r \<noteq> (10000000, 0, 0)" by auto
  then obtain me where "me \<in> set mant_exps" "?r = (bw_error ?op v me, me)"
    using search_min [OF HOL.refl, of ?op v mant_exps "(10000000, 0, 0)"] by blast
  then show ?thesis
    using search_min [OF HOL.refl, of ?op v mant_exps "(10000000, 0, 0)"] by (auto simp: SX1276FskComputeRxBwMantExp_def)
qed

lemma and_or_mask:
  fixes a b x m :: u8
  shows "x AND m = 0 \<Longrightarrow> ((a AND x) OR b) AND m = b AND m"
  by (simp add: bit.conj_disj_distrib2 and.assoc)

lemma mant_bits_decode:
  assumes "(m, e) \<in> set mant_exps"
  shows "drop_bit 3 (mant_bits (m, e) AND 0x18) = (if m = 16 then 0 else if m = 20 then 1 else 2)" and "unat (mant_bits (m, e) AND 0x07) = e"
proof -
  have "e \<in> {0, 1, 2, 3, 4, 5, 6, 7}" "m \<in> {16, 20, 24}" using assms by (auto simp: mant_exps_members)
  then show "drop_bit 3 (mant_bits (m, e) AND 0x18) = (if m = 16 then 0 else if m = 20 then 1 else 2)" "unat (mant_bits (m, e) AND 0x07) = e"
    by (auto simp: mant_bits_def)
qed

text \<open>
  The bandwidth that is set is the nearest of the 24 the chip has, and it is what \<open>SX1276FskGetBw\<close> returns, cut to whole hertz; for
  the register of the receiver and for that of the frequency correction.
\<close>

theorem fsk_bandwidth_nearest:
  assumes "unat v \<le> 10000000" and "reg = REG_RXBW \<or> reg = REG_AFCBW"
  shows "\<exists>m e s'. (m, e) \<in> set mant_exps \<and> (\<forall>(m', e') \<in> set mant_exps.
      \<bar>fsk_bandwidth (fsk_reg s REG_OPMODE) m e - of_nat (unat v)\<bar> \<le> \<bar>fsk_bandwidth (fsk_reg s REG_OPMODE) m' e' - of_nat (unat v)\<bar>) \<and>
    SX1276FskGetBw reg (SX1276FskSetDccBw reg dcc v s) = Some (of_int \<lfloor>fsk_bandwidth (fsk_reg s REG_OPMODE) m e\<rfloor>, s')"
proof -
  obtain m e where me: "SX1276FskComputeRxBwMantExp v s = (m, e)" by (cases "SX1276FskComputeRxBwMantExp v s")
  have c: "(m, e) \<in> set mant_exps" "\<forall>me \<in> set mant_exps. bw_error (fsk_reg s REG_OPMODE) v (m, e) \<le> bw_error (fsk_reg s REG_OPMODE) v me"
    using bandwidth_choice [OF assms(1), of s] unfolding me by auto
  let ?s = "SX1276FskSetDccBw reg dcc v s"
  have r: "fsk_reg ?s reg = (if reg = REG_RXBW then ucast dcc AND 0x60 else 0) OR mant_bits (m, e)" "fsk_reg ?s REG_OPMODE = fsk_reg s REG_OPMODE"
    using assms(2) me by (auto simp: SX1276FskSetDccBw_def fsk_defs Let_def fsk_addr)
  have masks: "fsk_reg ?s reg AND 0x18 = mant_bits (m, e) AND 0x18" "fsk_reg ?s reg AND 0x07 = mant_bits (m, e) AND 0x07"
    using and_or_mask [of "0x60" "0x18"] and_or_mask [of "0x60" "0x07"] by (simp_all add: r(1))
  have "\<exists>s'. SX1276FskGetBw reg ?s = Some (of_int \<lfloor>fsk_bandwidth (fsk_reg s REG_OPMODE) m e\<rfloor>, s')"
    using mant_bits_decode [OF c(1)] c(1) r(2) by (auto simp: SX1276FskGetBw_def masks SX1276FskComputeRxBw_def mant_exps_members Let_def)
  then show ?thesis using c by (intro exI [of _ m] exI [of _ e]) auto
qed

definition demo_modem :: fsk_modem where
  "demo_modem = \<lparr>fsk_chip = \<lparr>Regs = (\<lambda>a. 0), Chip = (\<lambda>a. if a = 0x30 then 0x90 else 0), LoRaSettings = LoRaSettings_default,
       antennaSwitchTxOnPrev = True, LoRaOn = False, LoRaOnState = False\<rparr>,
     FskSettings = FskSettings_default\<lparr>Fs_CrcOn := False\<rparr>, fsk_antennaPrev = True\<rparr>"

theorem fsk_bandwidth_nearest_witness:
  "\<exists>m e s'. (m, e) \<in> set mant_exps \<and> SX1276FskGetBw REG_RXBW (SX1276FskSetDccBw REG_RXBW 0 100000 demo_modem) =
    Some (of_int \<lfloor>fsk_bandwidth (fsk_reg demo_modem REG_OPMODE) m e\<rfloor>, s')"
  using fsk_bandwidth_nearest [of 100000 REG_RXBW demo_modem 0] by auto

section \<open>Offset and temperature\<close>

text \<open>An offset is read back from a register that had none; a second one is mixed into the first.\<close>

lemma rssi_offset_roundtrip:
  assumes "-16 \<le> x" and "x \<le> 15" and "Chip (fsk_chip s) REG_RSSICONFIG = 0"
  shows "fst (SX1276FskGetRssiOffset (SX1276FskSetRssiOffset x s)) = x"
proof -
  have x: "x \<in> set [-16..15]" using assms(1,2) by (simp only: set_upto atLeastAtMost_iff)
  have all: "[-16..15] = [-16, -15, -14, -13, -12, -11, -10, -9, -8, -7, -6, -5, -4, -3, -2, -1, 0, 1, 2, 3, 4, 5, 6, 7, 8, 9, 10, 11,
      12, 13, 14, 15 :: int]" by code_simp
  from x [unfolded all] show ?thesis using assms(3)
    by (auto simp: SX1276FskGetRssiOffset_def SX1276FskSetRssiOffset_def fsk_defs Let_def mask_eq_exp_minus_1)
qed

lemma rssi_offset_mixed:
  assumes "Chip (fsk_chip s) REG_RSSICONFIG = 0"
  shows "fst (SX1276FskGetRssiOffset (SX1276FskSetRssiOffset 2 (SX1276FskSetRssiOffset 1 s))) = 3"
  using assms by (simp add: SX1276FskGetRssiOffset_def SX1276FskSetRssiOffset_def fsk_defs Let_def)

text \<open>
  After a reading of the temperature the chip is in its mode of before, while the copy of the register still says synthesizer: the
  change to that mode is then skipped.
\<close>

lemma raw_temp_mode:
  assumes "tick_wait start 1 ticks"
  shows "\<exists>s'. SX1276FskGetRawTemp start ticks reading s = Some (raw_temp reading, s') \<and>
    Chip (fsk_chip s') REG_OPMODE = Chip (fsk_chip s) REG_OPMODE \<and> fsk_reg s' REG_OPMODE = 4 \<and> SX1276FskSetOpMode 4 s' = s'"
  using assms by (simp add: SX1276FskGetRawTemp_def SX1276FskSetOpMode_def fsk_defs fsk_addr Let_def)


section \<open>Bit rate and deviation\<close>

text \<open>What is set is read back up to the rounding of two divisions, as long as it fits into the 16 bits of the conversion.\<close>

lemma bitrate_readback:
  assumes "489 \<le> unat b" and "unat b < 65000"
  shows "\<exists>s1 s2. SX1276FskSetBitrate b s = Some s1 \<and> SX1276FskGetBitrate s1 = Some (of_nat (32000000 div (32000000 div unat b)), s2)"
proof -
  let ?r = "32000000 div unat b"
  have "unat b * 492 \<le> 32000000" using assms(2) by simp
  then have lo: "492 \<le> ?r" using assms(1) by (simp add: less_eq_div_iff_mult_less_eq mult.commute)
  have hi: "?r < 65536" using assms(1) by (simp add: less_mult_imp_div_less)
  have "32000000 div ?r \<le> 32000000 div 492" using lo by (rule div_le_mono2 [rotated]) simp
  then have again: "32000000 div ?r < 65536" by simp
  let ?w = "of_nat ?r :: u16"
  have w: "unat ?w = ?r" using hi by simp
  have "push_bit 8 (ucast (ucast (drop_bit 8 ?w) :: u8)) OR ucast (ucast ?w :: u8) = (ucast ?w :: u32)"
    by (rule bit_word_eqI) (auto simp: bit_simps)
  moreover have "ucast ?w \<noteq> (0 :: u32)" "unat (ucast ?w :: u32) = ?r"
    using w lo hi by (simp_all add: unsigned_ucast_eq take_bit_nat_eq_self flip: unat_eq_0)
  moreover have "b \<noteq> 0" using assms(1) by auto
  moreover have "(ucast (of_nat (32000000 div ?r) :: u16) :: u32) = of_nat (32000000 div ?r)"
    using again by (simp add: unsigned_of_nat take_bit_nat_eq_self)
  ultimately show ?thesis
    using hi again by (simp add: SX1276FskSetBitrate_def SX1276FskGetBitrate_def to_u16_def XTAL_FREQ_def fsk_defs Let_def REG_BITRATEMSB_def)
qed

text \<open>A bit rate of 100 kb/s can be set; to read it back is undefined.\<close>

lemma bitrate_not_readback:
  "\<exists>s1. SX1276FskSetBitrate 100000 s = Some s1 \<and> SX1276FskGetBitrate s1 = None"
  by (simp add: SX1276FskSetBitrate_def SX1276FskGetBitrate_def to_u16_def XTAL_FREQ_def fsk_defs Let_def REG_BITRATEMSB_def)

lemma fdev_not_readback:
  assumes "Chip (fsk_chip s) REG_FDEVMSB = 0"
  shows "\<exists>s1. SX1276FskSetFdev 70000 s = Some s1 \<and> SX1276FskGetFdev s1 = None"
  using assms by (simp add: SX1276FskSetFdev_def SX1276FskGetFdev_def to_u16_def fsk_defs Let_def REG_FDEVMSB_def)

section \<open>Initialisation\<close>

text \<open>A register, its copy and the setting of the CRC are as before.\<close>

definition unchanged :: "nat \<Rightarrow> fsk_modem \<Rightarrow> fsk_modem \<Rightarrow> bool" where
  "unchanged a s s' \<longleftrightarrow> Chip (fsk_chip s') a = Chip (fsk_chip s) a \<and> fsk_reg s' a = fsk_reg s a \<and>
     Fs_CrcOn (FskSettings s') = Fs_CrcOn (FskSettings s)"

lemma unchanged_trans: "unchanged a s s1 \<Longrightarrow> unchanged a s1 s2 \<Longrightarrow> unchanged a s s2"
  by (simp add: unchanged_def)

lemma set_frequency_unchanged: "a < 6 \<or> 8 < a \<Longrightarrow> unchanged a s (SX1276FskSetRFFrequency f s)"
  by (auto simp: unchanged_def SX1276FskSetRFFrequency_def fsk_defs Let_def REG_FRFMSB_def)

lemma set_bitrate_unchanged: "a < 2 \<or> 3 < a \<Longrightarrow> SX1276FskSetBitrate b s = Some s' \<Longrightarrow> unchanged a s s'"
  by (auto simp: unchanged_def SX1276FskSetBitrate_def fsk_defs REG_BITRATEMSB_def split: if_splits)

lemma set_fdev_unchanged: "a < 4 \<or> 5 < a \<Longrightarrow> SX1276FskSetFdev f s = Some s' \<Longrightarrow> unchanged a s s'"
  by (auto simp: unchanged_def SX1276FskSetFdev_def fsk_defs Let_def REG_FDEVMSB_def)

lemma set_bw_unchanged: "a \<noteq> reg \<Longrightarrow> a \<noteq> REG_RXBW \<Longrightarrow> a \<noteq> REG_AFCBW \<Longrightarrow> unchanged a s (SX1276FskSetDccBw reg d v s)"
  by (auto simp: unchanged_def SX1276FskSetDccBw_def fsk_defs Let_def)

lemma set_rssi_unchanged: "a \<noteq> REG_RSSICONFIG \<Longrightarrow> unchanged a s (SX1276FskSetRssiOffset x s)"
  by (simp add: unchanged_def SX1276FskSetRssiOffset_def fsk_defs Let_def)

lemma pa20_unchanged: "a \<noteq> REG_PACONFIG \<Longrightarrow> a \<noteq> REG_PADAC \<Longrightarrow> unchanged a s (SX1276FskSetPa20dBm x s)"
  by (simp add: unchanged_def SX1276FskSetPa20dBm_def fsk_defs Let_def)

lemma output_unchanged: "a \<noteq> REG_PACONFIG \<Longrightarrow> unchanged a s (SX1276FskSetPAOutput x s)"
  by (simp add: unchanged_def SX1276FskSetPAOutput_def fsk_defs Let_def)

lemma set_power_unchanged: "a \<noteq> REG_PACONFIG \<Longrightarrow> a \<noteq> REG_PADAC \<Longrightarrow> unchanged a s (SX1276FskSetRFPower x s)"
  by (simp add: unchanged_def SX1276FskSetRFPower_def fsk_defs Let_def split: prod.splits)

lemma power_unchanged:
  assumes "a \<noteq> REG_PACONFIG" and "a \<noteq> REG_PADAC"
  shows "unchanged a s (fsk_power s)"
proof -
  obtain pin boost p where c: "(if Fs_RFFrequency (FskSettings s) > 860000000 then (0x00, False, 14) else (0x80, True, 20)) = (pin :: u8, boost, p :: int)"
    by (metis prod_cases3)
  let ?s1 = "SX1276FskSetPa20dBm boost (SX1276FskSetPAOutput pin s)" let ?s2 = "upd_fsk (\<lambda>c. c\<lparr>Fs_Power := p\<rparr>) ?s1"
  have "fsk_power s = SX1276FskSetRFPower p ?s2" unfolding fsk_power_def c by (simp add: upd_fsk_def Let_def)
  moreover have "unchanged a ?s1 ?s2" by (simp add: unchanged_def upd_fsk_def)
  ultimately show ?thesis
    using output_unchanged [OF assms(1), of s pin] pa20_unchanged [OF assms, of "SX1276FskSetPAOutput pin s" boost]
      set_power_unchanged [OF assms, of ?s2 p] by (metis unchanged_trans)
qed

lemma opmode_unchanged: "a \<noteq> REG_OPMODE \<Longrightarrow> unchanged a s (SX1276FskSetOpMode m s)"
  by (simp add: unchanged_def SX1276FskSetOpMode_def fsk_defs)

lemma cal_wait_some: "\<exists>s'. cal_wait (replicate k 0x20 @ [0]) s = Some s' \<and> (\<forall>a. a \<noteq> REG_IMAGECAL \<longrightarrow> unchanged a s s')"
proof (induction k arbitrary: s)
  case 0
  then show ?case by (simp add: unchanged_def fsk_defs Let_def)
next
  case (Suc k)
  from Suc.IH [of "fsk_put REG_IMAGECAL 0x20 s"] show ?case by (auto simp: unchanged_def fsk_defs Let_def)
qed

lemma get_frequency_unchanged: "a < 6 \<or> 8 < a \<Longrightarrow> unchanged a s (snd (SX1276FskGetRFFrequency s))"
  by (auto simp: unchanged_def SX1276FskGetRFFrequency_def fsk_defs Let_def REG_FRFMSB_def)

lemma calibrate_some:
  "\<exists>s'. SX1276FskRxCalibrate (replicate k 0x20 @ [0]) s = Some s' \<and>
     (\<forall>a. (a < 6 \<or> 8 < a) \<and> a \<noteq> REG_PACONFIG \<and> a \<noteq> REG_IMAGECAL \<longrightarrow> unchanged a s s')"
proof -
  obtain f s1 where f: "SX1276FskGetRFFrequency s = (f, s1)" by (cases "SX1276FskGetRFFrequency s")
  let ?s2 = "SX1276FskSetRFFrequency 860000000 (fsk_write REG_PACONFIG (fsk_put REG_PACONFIG 0 s1))"
  let ?s3 = "fsk_modify REG_IMAGECAL (\<lambda>r. (r AND 0xBF) OR 0x40) ?s2"
  obtain s4 where s4: "cal_wait (replicate k 0x20 @ [0]) ?s3 = Some s4" "\<And>a. a \<noteq> REG_IMAGECAL \<Longrightarrow> unchanged a ?s3 s4"
    using cal_wait_some [of k ?s3] by blast
  let ?p = "fsk_write REG_PACONFIG (fsk_put REG_PACONFIG (Chip (fsk_chip s) REG_PACONFIG) s4)"
  have "unchanged a s (SX1276FskSetRFFrequency f ?p)" if a: "(a < 6 \<or> 8 < a) \<and> a \<noteq> REG_PACONFIG \<and> a \<noteq> REG_IMAGECAL" for a
  proof -
    have "unchanged a s s1" using get_frequency_unchanged [of a s] a f by simp
    moreover have "unchanged a s1 ?s2"
      using set_frequency_unchanged [of a "fsk_write REG_PACONFIG (fsk_put REG_PACONFIG 0 s1)"] a by (simp add: unchanged_def fsk_defs)
    moreover have "unchanged a ?s2 ?s3" using a by (simp add: unchanged_def fsk_defs Let_def)
    moreover have "unchanged a s4 ?p" using a by (simp add: unchanged_def fsk_defs)
    ultimately show ?thesis using s4(2) [of a] set_frequency_unchanged [of a ?p] a by (meson unchanged_trans)
  qed
  then show ?thesis using f s4(1) by (simp add: SX1276FskRxCalibrate_def Let_def)
qed

lemma put_sel:
  "fsk_reg (fsk_put a v s) b = (if b = a then v else fsk_reg s b)" "Chip (fsk_chip (fsk_put a v s)) = Chip (fsk_chip s)"
  "FskSettings (fsk_put a v s) = FskSettings s"
  by (simp_all add: fsk_defs)

lemma write_sel:
  "fsk_reg (fsk_write a s) = fsk_reg s" "Chip (fsk_chip (fsk_write a s)) b = (if b = a then fsk_reg s a else Chip (fsk_chip s) b)"
  "FskSettings (fsk_write a s) = FskSettings s"
  by (simp_all add: fsk_defs)

lemma read_sel:
  "fsk_reg (fsk_read a s) b = (if b = a then Chip (fsk_chip s) a else fsk_reg s b)" "Chip (fsk_chip (fsk_read a s)) = Chip (fsk_chip s)"
  "FskSettings (fsk_read a s) = FskSettings s"
  by (simp_all add: fsk_defs)

lemma read_n_sel:
  "fsk_reg (fsk_read_n a n s) b = (if a \<le> b \<and> b < a + n then Chip (fsk_chip s) b else fsk_reg s b)"
  "Chip (fsk_chip (fsk_read_n a n s)) = Chip (fsk_chip s)" "FskSettings (fsk_read_n a n s) = FskSettings s"
  by (simp_all add: fsk_defs)

lemma write_n_sel:
  "fsk_reg (fsk_write_n a n s) = fsk_reg s"
  "Chip (fsk_chip (fsk_write_n a n s)) b = (if a \<le> b \<and> b < a + n then fsk_reg s b else Chip (fsk_chip s) b)"
  "FskSettings (fsk_write_n a n s) = FskSettings s"
  by (simp_all add: fsk_defs)

lemmas access_sel = put_sel write_sel read_sel read_n_sel write_n_sel

abbreviation crc_bit :: "u8 \<Rightarrow> bool" where
  "crc_bit r \<equiv> drop_bit 4 (r AND 0x10) \<noteq> 0"

lemma init_regs_packet:
  "fsk_reg (fsk_init_regs s) REG_PACKETCONFIG1 = Chip (fsk_chip s) REG_PACKETCONFIG1"
  "Chip (fsk_chip (fsk_init_regs s)) REG_PACKETCONFIG1 = Chip (fsk_chip s) REG_PACKETCONFIG1"
  "FskSettings (fsk_init_regs s) = (FskSettings s)\<lparr>Fs_CrcOn := crc_bit (Chip (fsk_chip s) REG_PACKETCONFIG1)\<rparr>"
  by (simp_all add: fsk_init_regs_def SX1276FskSetDefaults_def SX1276FskGetPacketCrcOn_def upd_fsk_def access_sel fsk_addr Let_def)

lemma init_regs_chip:
  "Chip (fsk_chip (fsk_init_regs s)) REG_SYNCCONFIG = 0x93" "Chip (fsk_chip (fsk_init_regs s)) REG_PAYLOADLENGTH = Fs_PayloadLength (FskSettings s)"
  "fsk_reg (fsk_init_regs s) REG_OPMODE = 0x00"
  by (simp_all add: fsk_init_regs_def SX1276FskSetDefaults_def SX1276FskGetPacketCrcOn_def upd_fsk_def access_sel fsk_addr Let_def)

text \<open>
  The initialisation sets the format of packets in the copy of its register and then reads the register to update the setting of the CRC,
  which puts the value of the chip into the copy: the format and the CRC are those of the reset, whatever the settings say.  The sync
  word, the payload length and standby are set.
\<close>

theorem fsk_init_keeps_packet_format:
  assumes "FskSettings s = FskSettings_default\<lparr>Fs_CrcOn := crc\<rparr>"
  shows "\<exists>s'. fsk_init_modem (replicate k 0x20 @ [0]) s = Some s' \<and>
    Chip (fsk_chip s') REG_PACKETCONFIG1 = Chip (fsk_chip s) REG_PACKETCONFIG1 \<and>
    Fs_CrcOn (FskSettings s') = crc_bit (Chip (fsk_chip s) REG_PACKETCONFIG1) \<and> Chip (fsk_chip s') REG_SYNCCONFIG = 0x93 \<and>
    Chip (fsk_chip s') REG_PAYLOADLENGTH = 255 \<and> Chip (fsk_chip s') REG_OPMODE = 0x01"
proof -
  let ?s1 = "fsk_init_regs s" let ?s2 = "SX1276FskSetRFFrequency (Fs_RFFrequency (FskSettings ?s1)) ?s1"
  have f1: "Fs_Bitrate (FskSettings ?s1) = 9600" "Fs_Fdev (FskSettings ?s1) = 50000" "Fs_PayloadLength (FskSettings s) = 255"
    using assms by (simp_all add: init_regs_packet(3) FskSettings_default_def)
  have f2: "Fs_Bitrate (FskSettings ?s2) = 9600" "Fs_Fdev (FskSettings ?s2) = 50000"
    using f1 by (simp_all add: SX1276FskSetRFFrequency_def upd_fsk_def access_sel Let_def)
  obtain s3 where s3: "SX1276FskSetBitrate 9600 ?s2 = Some s3" "Fs_Fdev (FskSettings s3) = 50000"
    using f2(2) by (simp add: SX1276FskSetBitrate_def to_u16_def XTAL_FREQ_def upd_fsk_def access_sel)
  obtain s4 where s4: "SX1276FskSetFdev 50000 s3 = Some s4" by (simp add: SX1276FskSetFdev_def to_u16_def)
  obtain s5 where s5: "SX1276FskRxCalibrate (replicate k 0x20 @ [0]) (fsk_init_bands s4) = Some s5"
    "\<And>a. (a < 6 \<or> 8 < a) \<and> a \<noteq> REG_PACONFIG \<and> a \<noteq> REG_IMAGECAL \<Longrightarrow> unchanged a (fsk_init_bands s4) s5"
    using calibrate_some by blast
  have run: "fsk_init_modem (replicate k 0x20 @ [0]) s = Some s5"
    using f2 s3 s4 s5(1) by (simp add: fsk_init_modem_def Let_def)
  let ?b1 = "SX1276FskSetDccBw REG_RXBW 0 (Fs_RxBw (FskSettings s4)) s4"
  let ?b2 = "SX1276FskSetDccBw REG_AFCBW 0 (Fs_RxBwAfc (FskSettings ?b1)) ?b1"
  let ?b3 = "fsk_power (SX1276FskSetRssiOffset 0 ?b2)"
  have mid: "unchanged a ?s1 ?b3" if "a = REG_OPMODE \<or> 0x20 \<le> a \<and> a < 0x3B" for a
  proof -
    have a: "a < 6 \<or> 8 < a" "a < 2 \<or> 3 < a" "a < 4 \<or> 5 < a" "a \<noteq> REG_RXBW" "a \<noteq> REG_AFCBW" "a \<noteq> REG_RSSICONFIG" "a \<noteq> REG_PACONFIG" "a \<noteq> REG_PADAC"
      using that by (auto simp: fsk_addr)
    show ?thesis
      using set_frequency_unchanged [OF a(1)] set_bitrate_unchanged [OF a(2) s3(1)] set_fdev_unchanged [OF a(3) s4] set_bw_unchanged [OF a(4,4,5), of s4]
        set_bw_unchanged [OF a(5,4,5), of ?b1] set_rssi_unchanged [OF a(6), of ?b2] power_unchanged [OF a(7,8)] by (meson unchanged_trans)
  qed
  have rest: "unchanged a ?s1 s5" if "0x20 \<le> a" "a < 0x3B" for a
    using mid [of a] opmode_unchanged [of a ?b3 "0x01"] s5(2) [of a] that
    by (simp add: fsk_init_bands_def Let_def fsk_addr unchanged_def)
  have "Chip (fsk_chip (SX1276FskSetOpMode 0x01 ?b3)) REG_OPMODE = 0x01"
    using mid [of REG_OPMODE] init_regs_chip(3) [of s] by (simp add: SX1276FskSetOpMode_def unchanged_def fsk_defs)
  then have "Chip (fsk_chip s5) REG_OPMODE = 0x01"
    using s5(2) [of REG_OPMODE] by (simp add: fsk_init_bands_def Let_def fsk_addr unchanged_def)
  then show ?thesis
    using run rest [of REG_PACKETCONFIG1] rest [of REG_SYNCCONFIG] rest [of REG_PAYLOADLENGTH] init_regs_packet [of s] init_regs_chip [of s] f1(3)
    by (simp add: unchanged_def fsk_addr)
qed


text \<open>With settings that ask for no CRC it is switched on.\<close>

theorem fsk_init_keeps_packet_format_witness:
  "\<exists>s'. fsk_init_modem [0x20, 0x20, 0] demo_modem = Some s' \<and> \<not> Fs_CrcOn (FskSettings demo_modem) \<and> Fs_CrcOn (FskSettings s')"
proof -
  have "replicate 2 0x20 @ [0] = [0x20, 0x20, 0 :: u8]" by (simp add: numeral_2_eq_2)
  then show ?thesis using fsk_init_keeps_packet_format [of demo_modem False 2] by (auto simp: demo_modem_def REG_PACKETCONFIG1_def)
qed

end
