(* ===== verification/Fsk_Process.thy ===== *)
theory Fsk_Process
  imports Fsk_Modem Sx1276_Process
begin

text \<open>
  The state machine of the FSK modem, \<open>SX1276FskProcess\<close> of \<open>sx1276-Fsk.c\<close>, and the packet calls around it.  A call takes what the
  hardware shows during it: the registers of the chip, the bytes that have come into its FIFO, what it answers when the FIFO is empty, the
  pins and the readings of the tick counter.  \<open>None\<close> is an access outside the packet buffer or a conversion that is undefined.
\<close>

section \<open>State\<close>

datatype tRFStates = RF_STATE_IDLE | RF_STATE_RX_INIT | RF_STATE_RX_SYNC | RF_STATE_RX_RUNNING | RF_STATE_RX_DONE | RF_STATE_RX_TIMEOUT
  | RF_STATE_RX_LEN_ERROR | RF_STATE_TX_INIT | RF_STATE_TX_READY_WAIT | RF_STATE_TX_RUNNING | RF_STATE_TX_DONE | RF_STATE_TX_TIMEOUT

text \<open>\<open>fk_fifo\<close> are the bytes that wait in the FIFO of the chip.\<close>

record fsk_state =
  fk_modem :: fsk_modem
  fk_fifo :: "u8 list"
  fk_buffer :: "u8 list"
  fk_state :: tRFStates
  fk_chunk :: u8
  fk_packet_timeout :: u32
  fk_p2s_timeout :: u32
  fk_preamble :: bool
  fk_sync :: bool
  fk_packet :: bool
  fk_rx_size :: u16
  fk_rx_read :: u8
  fk_tx_sent :: u8
  fk_rssi :: int
  fk_afc :: u32
  fk_gain :: u8
  fk_rx_timer :: u32
  fk_p2s_timer :: u32
  fk_tx_size :: u16
  fk_tx_timer :: u32

text \<open>The ticks are the readings at the preamble, at the sync word or the end of the packet, and at the two tests of a time-out.\<close>

record fsk_input =
  fi_regs :: "nat \<Rightarrow> u8"
  fi_fifo :: "u8 list"
  fi_empty :: "nat \<Rightarrow> u8"
  fi_dio0 :: bool
  fi_dio1 :: bool
  fi_dio2 :: bool
  fi_dio3 :: bool
  fi_tick_preamble :: u32
  fi_tick_event :: u32
  fi_tick_p2s :: u32
  fi_tick :: u32

definition on_modem :: "(fsk_modem \<Rightarrow> fsk_modem) \<Rightarrow> fsk_state \<Rightarrow> fsk_state" where
  "on_modem f st = st\<lparr>fk_modem := f (fk_modem st)\<rparr>"

abbreviation fk_reg :: "fsk_state \<Rightarrow> nat \<Rightarrow> u8" where
  "fk_reg st a \<equiv> fsk_reg (fk_modem st) a"

section \<open>Time-outs\<close>

text \<open>
  A \<open>double\<close> operation rounds its exact result to 53 binary digits, to the even one of two that are equally near.  For a positive number
  that is \<open>a / b\<close>.
\<close>

fun bits :: "nat \<Rightarrow> nat" where
  "bits n = (if n = 0 then 0 else Suc (bits (n div 2)))"

declare bits.simps [simp del]

lemma bits_numeral: "bits 0 = 0" "bits (Suc 0) = 1" "bits (numeral k) = 1 + bits (numeral k div 2)"
  by (simp_all add: bits.simps [of 0] bits.simps [of "Suc 0"] bits.simps [of "numeral k"])

definition round_even :: "nat \<Rightarrow> nat \<Rightarrow> nat" where
  "round_even a b = (let q = a div b; r = a mod b in if 2 * r < b \<or> 2 * r = b \<and> even q then q else q + 1)"

text \<open>Scale by a power of two to a quotient of 53 digits, round it, and scale back; the result is again a fraction.\<close>

definition double :: "nat \<times> nat \<Rightarrow> nat \<times> nat" where
  "double x =
     (case x of (a, b) \<Rightarrow>
        let k0 = 53 + bits b; k = (if bits ((a * 2 ^ k0) div (b * 2 ^ bits a)) > 53 then k0 - 1 else k0)
        in (round_even (a * 2 ^ k) (b * 2 ^ bits a) * 2 ^ bits a, 2 ^ k))"

text \<open>\<open>round(8.0 * n / r * 1000.0) + 1.0\<close>, converted to \<open>uint16_t\<close>.\<close>

definition packet_time :: "u16 \<Rightarrow> u32 \<Rightarrow> u16 option" where
  "packet_time n r =
     (if r = 0 then None
      else let (a, b) = double (8 * unat n, unat r); (c, d) = double (a * 1000, b) in to_u16 ((2 * c + d) div (2 * d) + 1))"

definition SX1276FskGetPacketPayloadSize :: "fsk_state \<Rightarrow> u16" where
  "SX1276FskGetPacketPayloadSize st =
     (let syncSize = ucast (fk_reg st REG_SYNCCONFIG AND 0x07) + 1;
          variableSize = (if fk_reg st REG_PACKETCONFIG1 AND 0x80 = 0x80 then 1 else 0);
          addressSize = (if fk_reg st REG_PACKETCONFIG1 AND 0x06 \<noteq> 0 then 1 else 0);
          payloadSize = ucast (fk_reg st REG_PAYLOADLENGTH);
          crcSize = (if fk_reg st REG_PACKETCONFIG1 AND 0x10 = 0x10 then 2 else 0)
      in syncSize + variableSize + addressSize + payloadSize + crcSize)"

definition SX1276FskGetPacketHeaderSize :: "fsk_state \<Rightarrow> u16" where
  "SX1276FskGetPacketHeaderSize st =
     (push_bit 8 (ucast (fk_reg st REG_PREAMBLEMSB)) OR ucast (fk_reg st REG_PREAMBLELSB)) + (ucast (fk_reg st REG_SYNCCONFIG AND 0x07) + 1)"

section \<open>The FIFO\<close>

definition fk_read_fifo :: "fsk_input \<Rightarrow> nat \<Rightarrow> fsk_state \<Rightarrow> u8 list \<times> fsk_state" where
  "fk_read_fifo i n st =
     (map (\<lambda>k. if k < length (fk_fifo st) then fk_fifo st ! k else fi_empty i k) [0..<n], st\<lparr>fk_fifo := drop n (fk_fifo st)\<rparr>)"

text \<open>Bytes read to the buffer behind those read before; bytes written from it.\<close>

definition fk_fetch :: "fsk_input \<Rightarrow> u8 \<Rightarrow> fsk_state \<Rightarrow> fsk_state option" where
  "fk_fetch i n st =
     (let pos = unat (fk_rx_read st); (bs, st1) = fk_read_fifo i (unat n) st
      in if pos + unat n \<le> length (fk_buffer st)
         then Some (st1\<lparr>fk_buffer := take pos (fk_buffer st) @ bs @ drop (pos + unat n) (fk_buffer st), fk_rx_read := fk_rx_read st + n\<rparr>)
         else None)"

definition fk_send :: "nat \<Rightarrow> u8 \<Rightarrow> fsk_state \<Rightarrow> u8 list option" where
  "fk_send pos n st = (if pos + unat n \<le> length (fk_buffer st) then Some (take (unat n) (drop pos (fk_buffer st))) else None)"

section \<open>Reception\<close>

definition fk_dio_mapping :: "u8 \<Rightarrow> u8 \<Rightarrow> fsk_state \<Rightarrow> fsk_state" where
  "fk_dio_mapping a b = on_modem (\<lambda>s. fsk_write_n REG_DIOMAPPING1 2 (fsk_put (REG_DIOMAPPING1 + 1) b (fsk_put REG_DIOMAPPING1 a s)))"

definition fk_threshold :: "u8 \<Rightarrow> fsk_state \<Rightarrow> fsk_state" where
  "fk_threshold v = on_modem (\<lambda>s. fsk_write REG_FIFOTHRESH (fsk_put REG_FIFOTHRESH v s))"

definition fk_rx_init :: "fsk_input \<Rightarrow> fsk_state \<Rightarrow> fsk_state option" where
  "fk_rx_init i st =
     (let st1 = on_modem (SX1276FskSetOpMode 0x05)
                 (fk_dio_mapping (if fk_reg st REG_PACKETCONFIG1 AND 0x10 = 0x10 then 0x4C else 0x0C) (0xC0 OR 0x20 OR 0x01) st)
      in map_option (\<lambda>t. let t1 = ucast t + drop_bit 1 (ucast t) :: u32 in
            (fk_threshold (0x80 OR 0x20) (st1\<lparr>fk_buffer := replicate RF_BUFFER_SIZE 0, fk_packet_timeout := t1, fk_p2s_timeout := t1,
               fk_p2s_timer := fi_tick i, fk_rx_timer := fi_tick i\<rparr>))
              \<lparr>fk_preamble := False, fk_sync := False, fk_packet := False, fk_rx_read := 0, fk_rx_size := 0, fk_state := RF_STATE_RX_SYNC\<rparr>)
          (packet_time (SX1276FskGetPacketPayloadSize st1) (Fs_Bitrate (FskSettings (fk_modem st1)))))"

definition fk_restart_rx :: "fsk_state \<Rightarrow> fsk_state" where
  "fk_restart_rx = on_modem (\<lambda>s. on_chip (SX1276Write REG_RXCONFIG (fsk_reg s REG_RXCONFIG OR 0x20)) s)"

text \<open>The preamble shows at DIO4, which the board does not connect.\<close>

definition fk_preamble_test :: "fsk_input \<Rightarrow> fsk_state \<Rightarrow> fsk_state" where
  "fk_preamble_test i st = (if DIO4 \<and> \<not> fk_preamble st then st\<lparr>fk_preamble := True, fk_p2s_timer := fi_tick_preamble i\<rparr> else st)"

definition fk_sync_test :: "fsk_input \<Rightarrow> fsk_state \<Rightarrow> fsk_state" where
  "fk_sync_test i st =
     (if fi_dio2 i \<and> fk_preamble st \<and> \<not> fk_sync st
      then (let (r, s1) = SX1276FskReadRssi (fk_modem st); (a, s2) = SX1276FskReadAfc s1; (g, s3) = SX1276FskReadRxGain s2
            in st\<lparr>fk_modem := s3, fk_sync := True, fk_rssi := r, fk_afc := of_int a, fk_gain := g, fk_p2s_timer := fi_tick_event i,
                 fk_rx_timer := fi_tick_event i, fk_state := RF_STATE_RX_RUNNING\<rparr>)
      else st)"

definition fk_rx_sync :: "fsk_input \<Rightarrow> fsk_state \<Rightarrow> fsk_state" where
  "fk_rx_sync i st =
     (let st1 = fk_sync_test i (fk_preamble_test i st);
          st2 = (if \<not> fk_sync st1 \<and> fk_preamble st1 \<and> fi_tick_p2s i - fk_p2s_timer st1 > fk_p2s_timeout st1
                 then fk_restart_rx (st1\<lparr>fk_state := RF_STATE_RX_INIT\<rparr>) else st1)
      in if \<not> fk_sync st2 \<and> \<not> fk_preamble st2 \<and> \<not> fk_packet st2 \<and> fi_tick i - fk_rx_timer st2 > fk_packet_timeout st2
         then st2\<lparr>fk_state := RF_STATE_RX_TIMEOUT\<rparr> else st2)"

text \<open>The size of the packet: its first byte, stored to the low byte of the 16-bit variable, or the payload length.\<close>

definition fk_rx_length :: "fsk_input \<Rightarrow> fsk_state \<Rightarrow> fsk_state" where
  "fk_rx_length i st =
     (if fk_rx_size st = 0 \<and> fk_rx_read st = 0 then
        (if fk_reg st REG_PACKETCONFIG1 AND 0x80 = 0x80
         then (let (bs, st1) = fk_read_fifo i 1 st in st1\<lparr>fk_rx_size := (fk_rx_size st AND 0xFF00) OR ucast (hd bs)\<rparr>)
         else st\<lparr>fk_rx_size := ucast (fk_reg st REG_PAYLOADLENGTH)\<rparr>)
      else st)"

definition fk_rest :: "fsk_state \<Rightarrow> int" where
  "fk_rest st = int (unat (fk_rx_size st)) - int (unat (fk_rx_read st))"

definition fk_rx_level :: "fsk_input \<Rightarrow> fsk_state \<Rightarrow> fsk_state option" where
  "fk_rx_level i st =
     (if fi_dio1 i then
        (let st1 = fk_rx_length i st; thr = fk_reg st1 REG_FIFOTHRESH AND 0x3F
         in if fk_rest st1 > uint thr then fk_fetch i thr st1 else fk_fetch i (of_int (fk_rest st1)) st1)
      else Some st)"

definition fk_rx_ready :: "fsk_input \<Rightarrow> fsk_state \<Rightarrow> fsk_state option" where
  "fk_rx_ready i st =
     (if fi_dio0 i then
        (let st1 = fk_rx_length i (st\<lparr>fk_rx_timer := fi_tick_event i\<rparr>)
         in map_option (\<lambda>st2. st2\<lparr>fk_packet := True, fk_state := RF_STATE_RX_DONE\<rparr>) (fk_fetch i (of_int (fk_rest st1)) st1))
      else Some st)"

definition fk_rx_running :: "fsk_input \<Rightarrow> fsk_state \<Rightarrow> fsk_state option" where
  "fk_rx_running i st =
     (if fk_rx_size st > 256 then Some (st\<lparr>fk_state := RF_STATE_RX_LEN_ERROR\<rparr>)
      else Option.bind (fk_rx_level i st) (\<lambda>st1.
        map_option (\<lambda>st2. if \<not> fk_packet st2 \<and> fi_tick i - fk_rx_timer st2 > fk_packet_timeout st2
                          then st2\<lparr>fk_state := RF_STATE_RX_TIMEOUT\<rparr> else st2) (fk_rx_ready i st1)))"

definition fk_rx_fail :: "fsk_state \<Rightarrow> fsk_state" where
  "fk_rx_fail st = (fk_restart_rx (st\<lparr>fk_rx_read := 0, fk_rx_size := 0\<rparr>))\<lparr>fk_state := RF_STATE_RX_INIT\<rparr>"

section \<open>Transmission\<close>

text \<open>The bytes written to the FIFO are returned.\<close>

definition fk_tx_init :: "fsk_state \<Rightarrow> fsk_state" where
  "fk_tx_init st =
     (on_modem (SX1276FskSetOpMode 0x03) (fk_threshold (0x80 OR 0x18) (fk_dio_mapping 0x01 0x20 st)))
       \<lparr>fk_state := RF_STATE_TX_READY_WAIT, fk_tx_sent := 0\<rparr>"

definition fk_tx_ready_wait :: "fsk_input \<Rightarrow> fsk_state \<Rightarrow> (fsk_state \<times> u8 list) option" where
  "fk_tx_ready_wait i st =
     (if fi_dio3 i then
        (let len = (if fk_reg st REG_PACKETCONFIG1 AND 0x80 = 0x80 then [ucast (fk_tx_size st)] else []);
             chunk = (if fk_tx_size st > 0 \<and> fk_tx_size st \<le> 64 then ucast (fk_tx_size st) else 32)
         in map_option (\<lambda>bs. (st\<lparr>fk_chunk := chunk, fk_tx_sent := fk_tx_sent st + chunk, fk_tx_timer := fi_tick_event i,
                                fk_state := RF_STATE_TX_RUNNING\<rparr>, len @ bs)) (fk_send 0 chunk st))
      else Some (st, []))"

definition fk_unsent :: "fsk_state \<Rightarrow> int" where
  "fk_unsent st = int (unat (fk_tx_size st)) - int (unat (fk_tx_sent st))"

definition fk_tx_level :: "fsk_input \<Rightarrow> fsk_state \<Rightarrow> (fsk_state \<times> u8 list) option" where
  "fk_tx_level i st =
     (if \<not> fi_dio1 i then
        (let n = (if fk_unsent st > uint (fk_chunk st) then fk_chunk st else of_int (fk_unsent st))
         in map_option (\<lambda>bs. (st\<lparr>fk_tx_sent := fk_tx_sent st + n\<rparr>, bs)) (fk_send (unat (fk_tx_sent st)) n st))
      else Some (st, []))"

definition fk_tx_running :: "fsk_input \<Rightarrow> fsk_state \<Rightarrow> (fsk_state \<times> u8 list) option" where
  "fk_tx_running i st =
     map_option (\<lambda>(st1, bs).
       let st2 = (if fi_dio0 i then on_modem (SX1276FskSetOpMode 0x01) (st1\<lparr>fk_tx_timer := fi_tick_event i, fk_state := RF_STATE_TX_DONE\<rparr>)
                  else st1)
       in (if fi_tick i - fk_tx_timer st2 > 1000 then st2\<lparr>fk_state := RF_STATE_TX_TIMEOUT\<rparr> else st2, bs))
     (fk_tx_level i st)"

section \<open>The state machine and the packet calls\<close>

type_synonym fsk_result = "(tRFProcessReturnCodes \<times> fsk_state \<times> u8 list) option"

definition SX1276FskProcess :: "fsk_input \<Rightarrow> fsk_state \<Rightarrow> fsk_result" where
  "SX1276FskProcess i st0 =
     (let st = on_modem (on_chip (\<lambda>s. s\<lparr>Chip := fi_regs i\<rparr>)) (st0\<lparr>fk_fifo := fk_fifo st0 @ fi_fifo i\<rparr>) in
      case fk_state st of
        RF_STATE_IDLE \<Rightarrow> Some (RF_BUSY, st, [])
      | RF_STATE_RX_INIT \<Rightarrow> map_option (\<lambda>st1. (RF_BUSY, st1, [])) (fk_rx_init i st)
      | RF_STATE_RX_SYNC \<Rightarrow> Some (RF_BUSY, fk_rx_sync i st, [])
      | RF_STATE_RX_RUNNING \<Rightarrow> map_option (\<lambda>st1. (RF_BUSY, st1, [])) (fk_rx_running i st)
      | RF_STATE_RX_DONE \<Rightarrow> Some (RF_RX_DONE, st\<lparr>fk_rx_read := 0, fk_state := RF_STATE_RX_INIT\<rparr>, [])
      | RF_STATE_RX_TIMEOUT \<Rightarrow> Some (RF_RX_TIMEOUT, fk_rx_fail st, [])
      | RF_STATE_RX_LEN_ERROR \<Rightarrow> Some (RF_LEN_ERROR, fk_rx_fail st, [])
      | RF_STATE_TX_INIT \<Rightarrow> Some (RF_BUSY, fk_tx_init st, [])
      | RF_STATE_TX_READY_WAIT \<Rightarrow> map_option (\<lambda>(st1, bs). (RF_BUSY, st1, bs)) (fk_tx_ready_wait i st)
      | RF_STATE_TX_RUNNING \<Rightarrow> map_option (\<lambda>(st1, bs). (RF_BUSY, st1, bs)) (fk_tx_running i st)
      | RF_STATE_TX_DONE \<Rightarrow> Some (RF_TX_DONE, st\<lparr>fk_state := RF_STATE_IDLE\<rparr>, [])
      | RF_STATE_TX_TIMEOUT \<Rightarrow> Some (RF_TX_TIMEOUT, st\<lparr>fk_state := RF_STATE_IDLE\<rparr>, []))"

definition SX1276FskSetRFState :: "tRFStates \<Rightarrow> fsk_state \<Rightarrow> fsk_state" where
  "SX1276FskSetRFState x st = st\<lparr>fk_state := x\<rparr>"

definition SX1276FskGetRFState :: "fsk_state \<Rightarrow> tRFStates" where
  "SX1276FskGetRFState st = fk_state st"

definition SX1276FskGetPacketRxGain :: "fsk_state \<Rightarrow> u8" where
  "SX1276FskGetPacketRxGain st = fk_gain st"

text \<open>In half decibels.\<close>

definition SX1276FskGetPacketRssi :: "fsk_state \<Rightarrow> int" where
  "SX1276FskGetPacketRssi st = fk_rssi st"

definition SX1276FskGetPacketAfc :: "fsk_state \<Rightarrow> u32" where
  "SX1276FskGetPacketAfc st = fk_afc st"

definition SX1276FskStartRx :: "fsk_state \<Rightarrow> fsk_state" where
  "SX1276FskStartRx = SX1276FskSetRFState RF_STATE_RX_INIT"

definition SX1276FskGetRxPacket :: "u8 list \<Rightarrow> fsk_state \<Rightarrow> (u8 list \<times> u16 \<times> fsk_state) option" where
  "SX1276FskGetRxPacket buffer st =
     (let n = unat (fk_rx_size st) in
      if n \<le> length buffer \<and> n \<le> length (fk_buffer st)
      then Some (take n (fk_buffer st) @ drop n buffer, fk_rx_size st, st\<lparr>fk_rx_size := 0\<rparr>) else None)"

definition SX1276FskSetTxPacket :: "u8 list \<Rightarrow> u16 \<Rightarrow> fsk_state \<Rightarrow> fsk_state option" where
  "SX1276FskSetTxPacket buffer sz st =
     (let n = unat sz in
      if n \<le> length buffer \<and> n \<le> length (fk_buffer st)
      then Some (st\<lparr>fk_tx_size := sz, fk_buffer := take n buffer @ drop n (fk_buffer st), fk_state := RF_STATE_TX_INIT\<rparr>) else None)"

definition SX1276FskInit :: "u8 list \<Rightarrow> fsk_state \<Rightarrow> fsk_state option" where
  "SX1276FskInit cal st = map_option (\<lambda>s. st\<lparr>fk_state := RF_STATE_IDLE, fk_modem := s\<rparr>) (fsk_init_modem cal (fk_modem st))"

lemma packet_time_default: "packet_time 262 9600 = Some 219"
proof -
  have "bits 2096 = 12" "bits 9600 = 14" by (simp_all add: bits_numeral)
  then have d1: "double (2096, 9600) = (32220312982079348736, 147573952589676412928)" by (simp add: double_def round_even_def bits_numeral)
  have "bits 32220312982079348736000 = 75" "bits 147573952589676412928 = 68" by (simp_all add: bits_numeral)
  then have d2: "double (32220312982079348736000, 147573952589676412928) = (290214779079706607064709966189767426048, 1329227995784915872903807060280344576)" by (simp add: double_def round_even_def bits_numeral)
  show ?thesis by (simp add: packet_time_def d1 d2 to_u16_def)
qed

end
