(* ===== verification/Fsk_Radio.thy ===== *)
theory Fsk_Radio
  imports Fsk_Process
begin

text \<open>
  What the FSK modem does over many calls: a packet of 1 to 255 bytes is sent completely whatever the level of the FIFO, one of 256 bytes
  is sent again and again; a packet that comes into the FIFO is put together from its pieces; but on this board the receiver never gets
  that far, since the pin of the preamble is not connected.
\<close>

section \<open>Runs\<close>

text \<open>The codes that are returned and the bytes that are written to the FIFO.\<close>

fun fsk_run :: "fsk_input list \<Rightarrow> fsk_state \<Rightarrow> (tRFProcessReturnCodes list \<times> u8 list \<times> fsk_state) option" where
  "fsk_run [] st = Some ([], [], st)"
| "fsk_run (i # is) st =
     Option.bind (SX1276FskProcess i st) (\<lambda>(c, st1, bs). map_option (\<lambda>(cs, out, st2). (c # cs, bs @ out, st2)) (fsk_run is st1))"

lemma fsk_run_append:
  "fsk_run (is @ js) st =
     Option.bind (fsk_run is st) (\<lambda>(cs, out, st1). map_option (\<lambda>(cs', out', st2). (cs @ cs', out @ out', st2)) (fsk_run js st1))"
  by (induction "is" arbitrary: st) (auto split: option.splits Option.bind_splits simp: Option.map_option_case)

text \<open>What a call finds: the registers and the FIFO as the chip has them now.\<close>

definition sees :: "fsk_input \<Rightarrow> fsk_state \<Rightarrow> fsk_state" where
  "sees i st = on_modem (on_chip (\<lambda>s. s\<lparr>Chip := fi_regs i\<rparr>)) (st\<lparr>fk_fifo := fk_fifo st @ fi_fifo i\<rparr>)"

lemma sees_sel [simp]:
  "fk_state (sees i st) = fk_state st" "fk_buffer (sees i st) = fk_buffer st" "fk_chunk (sees i st) = fk_chunk st"
  "fk_tx_size (sees i st) = fk_tx_size st" "fk_tx_sent (sees i st) = fk_tx_sent st" "fk_tx_timer (sees i st) = fk_tx_timer st"
  "fk_rx_size (sees i st) = fk_rx_size st" "fk_rx_read (sees i st) = fk_rx_read st" "fk_rx_timer (sees i st) = fk_rx_timer st"
  "fk_packet_timeout (sees i st) = fk_packet_timeout st" "fk_packet (sees i st) = fk_packet st" "fk_preamble (sees i st) = fk_preamble st"
  "fk_sync (sees i st) = fk_sync st" "fk_fifo (sees i st) = fk_fifo st @ fi_fifo i" "fk_reg (sees i st) a = fk_reg st a"
  "FskSettings (fk_modem (sees i st)) = FskSettings (fk_modem st)"
  by (simp_all add: sees_def on_modem_def on_chip_def)

lemma on_modem_sel [simp]:
  "fk_state (on_modem f st) = fk_state st" "fk_buffer (on_modem f st) = fk_buffer st" "fk_chunk (on_modem f st) = fk_chunk st"
  "fk_tx_size (on_modem f st) = fk_tx_size st" "fk_tx_sent (on_modem f st) = fk_tx_sent st" "fk_tx_timer (on_modem f st) = fk_tx_timer st"
  "fk_rx_size (on_modem f st) = fk_rx_size st" "fk_rx_read (on_modem f st) = fk_rx_read st" "fk_rx_timer (on_modem f st) = fk_rx_timer st"
  "fk_packet (on_modem f st) = fk_packet st" "fk_preamble (on_modem f st) = fk_preamble st" "fk_sync (on_modem f st) = fk_sync st"
  "fk_fifo (on_modem f st) = fk_fifo st" "fk_modem (on_modem f st) = f (fk_modem st)"
  by (simp_all add: on_modem_def)

lemmas process_case = SX1276FskProcess_def [folded sees_def, unfolded Let_def]

section \<open>Transmission\<close>

text \<open>The calls at which the FIFO is below its threshold.\<close>

definition low_calls :: "fsk_input list \<Rightarrow> nat" where
  "low_calls is = length (filter (\<lambda>i. \<not> fi_dio1 i) is)"

lemma low_calls_simps [simp]:
  "low_calls [] = 0" "low_calls (i # is) = (if fi_dio1 i then low_calls is else Suc (low_calls is))"
  "low_calls (is @ js) = low_calls is + low_calls js"
  by (simp_all add: low_calls_def)

text \<open>The transmission of the first \<open>n\<close> bytes of the buffer stands at \<open>k\<close>, in chunks of \<open>c\<close>.\<close>

definition tx_at :: "nat \<Rightarrow> nat \<Rightarrow> nat \<Rightarrow> u8 list \<Rightarrow> fsk_state \<Rightarrow> bool" where
  "tx_at n c k b st \<longleftrightarrow> unat (fk_tx_size st) = n \<and> unat (fk_chunk st) = c \<and> unat (fk_tx_sent st) = k \<and> fk_buffer st = b"

lemma unat_of_nat_u8: "m < 256 \<Longrightarrow> unat (of_nat m :: u8) = m"
  by (simp add: unat_of_nat)

lemma tx_level_step:
  assumes "tx_at n c k b st" and "k \<le> n" and "n < 256" and "n \<le> length b"
  shows "\<exists>st' k'. fk_tx_level i st = Some (st', take (k' - k) (drop k b)) \<and> k' = (if fi_dio1 i then k else min n (k + c)) \<and>
    st' = st\<lparr>fk_tx_sent := of_nat k'\<rparr> \<and> tx_at n c k' b st'"
proof (cases "fi_dio1 i")
  case True
  have "of_nat k = fk_tx_sent st" using assms(1) by (auto simp: tx_at_def)
  then show ?thesis using True assms(1) by (simp add: fk_tx_level_def)
next
  case False
  let ?d = "min n (k + c) - k"
  have c: "c < 256" using assms(1) unat_u8_lt [of "fk_chunk st"] by (simp add: tx_at_def)
  let ?n = "if fk_unsent st > uint (fk_chunk st) then fk_chunk st else of_int (fk_unsent st)"
  have u: "fk_unsent st = int (n - k)" "uint (fk_chunk st) = int c" using assms(1,2) by (auto simp: tx_at_def fk_unsent_def uint_nat)
  have "unat ?n = ?d"
  proof (cases "n - k > c")
    case True
    then have "fk_unsent st > uint (fk_chunk st)" unfolding u by linarith
    then show ?thesis using True assms(1,2) by (simp add: tx_at_def)
  next
    case False
    have "unat (of_int (int (n - k)) :: u8) = n - k" using assms(3) unat_of_nat_u8 [of "n - k"] by simp
    moreover have "\<not> fk_unsent st > uint (fk_chunk st)" unfolding u using False by linarith
    ultimately show ?thesis using False assms(2) by (simp only: u) simp
  qed
  moreover have "fk_tx_sent st + ?n = of_nat (k + ?d)"
  proof -
    have "fk_tx_sent st = of_nat k" using assms(1) by (auto simp: tx_at_def)
    moreover have "?n = of_nat (unat ?n)" by simp
    ultimately show ?thesis unfolding \<open>unat ?n = ?d\<close> by (simp only: of_nat_add)
  qed
  moreover have "k + ?d = min n (k + c)" using assms(2) by simp
  moreover have "unat (of_nat (min n (k + c)) :: u8) = min n (k + c)" using assms(3) by (simp add: unat_of_nat_u8)
  ultimately show ?thesis
    using False assms by (auto simp: fk_tx_level_def fk_send_def tx_at_def Let_def)
qed


text \<open>A call of the running transmission without the packet sent and without a time-out.\<close>

definition tx_quiet :: "u32 \<Rightarrow> fsk_input \<Rightarrow> bool" where
  "tx_quiet t0 i \<longleftrightarrow> \<not> fi_dio0 i \<and> fi_tick i - t0 \<le> 1000"

lemma tx_call:
  assumes "tx_at n c k b st" and "k \<le> n" and "n < 256" and "n \<le> length b" and "fk_state st = RF_STATE_TX_RUNNING"
    and "tx_quiet (fk_tx_timer st) i"
  shows "\<exists>st' k'. SX1276FskProcess i st = Some (RF_BUSY, st', take (k' - k) (drop k b)) \<and> k' = (if fi_dio1 i then k else min n (k + c)) \<and>
    tx_at n c k' b st' \<and> fk_state st' = RF_STATE_TX_RUNNING \<and> fk_tx_timer st' = fk_tx_timer st"
proof -
  have "tx_at n c k b (sees i st)" using assms(1) by (simp add: tx_at_def)
  from tx_level_step [OF this assms(2-4), of i]
  obtain st' k' where l: "fk_tx_level i (sees i st) = Some (st', take (k' - k) (drop k b))" "k' = (if fi_dio1 i then k else min n (k + c))"
    "st' = (sees i st)\<lparr>fk_tx_sent := of_nat k'\<rparr>" "tx_at n c k' b st'" by blast
  have "SX1276FskProcess i st = Some (RF_BUSY, st', take (k' - k) (drop k b))"
    using assms(5,6) l(1,3) by (simp add: process_case fk_tx_running_def tx_quiet_def linorder_not_less [symmetric])
  then show ?thesis using l assms(5) by auto
qed

lemma tx_calls:
  assumes "tx_at n c k b st" and "k \<le> n" and "n < 256" and "n \<le> length b" and "fk_state st = RF_STATE_TX_RUNNING"
    and "\<forall>i \<in> set is. tx_quiet (fk_tx_timer st) i"
  shows "\<exists>st' k'. fsk_run is st = Some (replicate (length is) RF_BUSY, take (k' - k) (drop k b), st') \<and> k' = min n (k + c * low_calls is) \<and>
    tx_at n c k' b st' \<and> fk_state st' = RF_STATE_TX_RUNNING \<and> fk_tx_timer st' = fk_tx_timer st"
  using assms
proof (induction "is" arbitrary: st k)
  case Nil
  then show ?case by simp
next
  case (Cons i "is")
  obtain s1 k1 where s1: "SX1276FskProcess i st = Some (RF_BUSY, s1, take (k1 - k) (drop k b))" "k1 = (if fi_dio1 i then k else min n (k + c))"
    "tx_at n c k1 b s1" "fk_state s1 = RF_STATE_TX_RUNNING" "fk_tx_timer s1 = fk_tx_timer st"
    using tx_call [OF Cons.prems(1-5), of i] Cons.prems(6) by auto
  have k1: "k \<le> k1" "k1 \<le> n" using s1(2) Cons.prems(2) by auto
  obtain s2 k2 where s2: "fsk_run is s1 = Some (replicate (length is) RF_BUSY, take (k2 - k1) (drop k1 b), s2)"
    "k2 = min n (k1 + c * low_calls is)" "tx_at n c k2 b s2" "fk_state s2 = RF_STATE_TX_RUNNING" "fk_tx_timer s2 = fk_tx_timer st"
    using Cons.IH [OF s1(3) k1(2) Cons.prems(3,4) s1(4)] Cons.prems(6) s1(5) by auto
  have k2: "k1 \<le> k2" using s2(2) k1 by auto
  have "take (k1 - k) (drop k b) @ take (k2 - k1) (drop k1 b) = take (k2 - k) (drop k b)"
    using take_add [of "k1 - k" "k2 - k1" "drop k b"] k1 k2 by simp
  moreover have "k2 = min n (k + c * low_calls (i # is))" using s1(2) s2(2) by auto
  ultimately show ?case using s1(1) s2 by (intro exI [of _ s2] exI [of _ k2]) simp
qed


text \<open>Before the first byte: the packet of \<open>n\<close> bytes is in the buffer, in the format with a variable length.\<close>

definition tx_before :: "nat \<Rightarrow> u8 list \<Rightarrow> fsk_state \<Rightarrow> bool" where
  "tx_before n b st \<longleftrightarrow> unat (fk_tx_size st) = n \<and> fk_tx_sent st = 0 \<and> fk_buffer st = b \<and>
     fk_reg st REG_PACKETCONFIG1 AND 0x80 = 0x80 \<and> fk_state st = RF_STATE_TX_READY_WAIT"

lemma opmode_regs: "a \<noteq> REG_OPMODE \<Longrightarrow> fsk_reg (SX1276FskSetOpMode m s) a = fsk_reg s a"
  by (simp add: SX1276FskSetOpMode_def fsk_defs)

lemma opmode_settings [simp]: "FskSettings (SX1276FskSetOpMode m s) = FskSettings s"
  by (simp add: SX1276FskSetOpMode_def fsk_defs)

lemma mapping_regs: "a \<noteq> REG_DIOMAPPING1 \<Longrightarrow> a \<noteq> REG_DIOMAPPING1 + 1 \<Longrightarrow> fk_reg (fk_dio_mapping x y st) a = fk_reg st a"
  by (simp add: fk_dio_mapping_def fsk_defs)

lemma threshold_regs: "fk_reg (fk_threshold v st) a = (if a = REG_FIFOTHRESH then v else fk_reg st a)"
  by (simp add: fk_threshold_def fsk_defs)

lemma mapping_sel [simp]:
  "fk_buffer (fk_dio_mapping x y st) = fk_buffer st" "fk_tx_size (fk_dio_mapping x y st) = fk_tx_size st"
  "FskSettings (fk_modem (fk_dio_mapping x y st)) = FskSettings (fk_modem st)"
  by (simp_all add: fk_dio_mapping_def fsk_defs)

lemma threshold_sel [simp]:
  "fk_buffer (fk_threshold v st) = fk_buffer st" "fk_tx_size (fk_threshold v st) = fk_tx_size st"
  "FskSettings (fk_modem (fk_threshold v st)) = FskSettings (fk_modem st)"
  by (simp_all add: fk_threshold_def fsk_defs)

lemma tx_init_call:
  assumes "fk_state st = RF_STATE_TX_INIT" and "fk_reg st REG_PACKETCONFIG1 AND 0x80 = 0x80"
  shows "\<exists>st'. SX1276FskProcess i st = Some (RF_BUSY, st', []) \<and> tx_before (unat (fk_tx_size st)) (fk_buffer st) st'"
  using assms by (simp add: process_case tx_before_def fk_tx_init_def opmode_regs threshold_regs mapping_regs fsk_addr)

lemma tx_waits:
  "tx_before n b st \<Longrightarrow> \<forall>i \<in> set ws. \<not> fi_dio3 i \<Longrightarrow>
     \<exists>st'. fsk_run ws st = Some (replicate (length ws) RF_BUSY, [], st') \<and> tx_before n b st'"
proof (induction ws arbitrary: st)
  case (Cons i ws)
  have "SX1276FskProcess i st = Some (RF_BUSY, sees i st, [])"
    using Cons.prems by (simp add: process_case tx_before_def fk_tx_ready_wait_def)
  moreover have "tx_before n b (sees i st)" using Cons.prems(1) by (simp add: tx_before_def)
  ultimately show ?case using Cons.IH [of "sees i st"] Cons.prems(2) by auto
qed simp

lemma tx_first:
  assumes "tx_before n b st" and "fi_dio3 i" and "0 < n" and "n < 256" and "n \<le> length b" and "length b = 256"
  shows "\<exists>st' c. SX1276FskProcess i st = Some (RF_BUSY, st', of_nat n # take c b) \<and> c = (if n \<le> 64 then n else 32) \<and> tx_at n c c b st' \<and>
    fk_state st' = RF_STATE_TX_RUNNING \<and> fk_tx_timer st' = fi_tick_event i"
proof -
  let ?c = "if n \<le> 64 then n else 32"
  have z: "fk_tx_size st = of_nat n" using assms(1) by (auto simp: tx_before_def)
  have s: "fk_tx_size st > 0" "fk_tx_size st \<le> 64 \<longleftrightarrow> n \<le> 64"
    using assms(1,3,4) by (auto simp: tx_before_def word_less_nat_alt word_le_nat_alt)
  have u: "ucast (fk_tx_size st) = (of_nat n :: u8)"
    using assms(4) by (simp add: z unsigned_of_nat take_bit_nat_eq_self)
  have c: "unat (if n \<le> 64 then of_nat n else 32 :: u8) = ?c" using assms(4) by (simp add: unat_of_nat_u8)
  have "take ?c (drop 0 b) = take ?c b" "?c \<le> length b" using assms(6) by auto
  then show ?thesis
    using assms(1,2) s u c by (auto simp: process_case tx_before_def fk_tx_ready_wait_def fk_send_def tx_at_def Let_def)
qed

lemma tx_last:
  assumes "tx_at n c k b st" and "k \<le> n" and "n < 256" and "n \<le> length b" and "fk_state st = RF_STATE_TX_RUNNING"
    and "fi_dio0 i" and "fi_tick i - fi_tick_event i \<le> 1000"
  shows "\<exists>st' k'. SX1276FskProcess i st = Some (RF_BUSY, st', take (k' - k) (drop k b)) \<and> k' = (if fi_dio1 i then k else min n (k + c)) \<and>
    fk_state st' = RF_STATE_TX_DONE"
proof -
  have "tx_at n c k b (sees i st)" using assms(1) by (simp add: tx_at_def)
  from tx_level_step [OF this assms(2-4), of i]
  obtain st' k' where l: "fk_tx_level i (sees i st) = Some (st', take (k' - k) (drop k b))" "k' = (if fi_dio1 i then k else min n (k + c))"
    "st' = (sees i st)\<lparr>fk_tx_sent := of_nat k'\<rparr>" by blast
  then show ?thesis
    using assms(5-7) by (auto simp: process_case fk_tx_running_def linorder_not_less [symmetric] Let_def)
qed

lemma bind_Some_iff: "Option.bind m f = Some y \<longleftrightarrow> (\<exists>x. m = Some x \<and> f x = Some y)"
  by (cases m) auto

text \<open>
  C39: A packet of 1 to 255 bytes is sent: with the transmitter ready at the call \<open>iw\<close>, the bytes written are its length and all its bytes, in
  their order and each once, whatever the level of the FIFO at the calls \<open>rs\<close>, as long as enough of them find it below the threshold
  before the chip reports the packet sent at \<open>ie\<close>; the call after it returns \<open>RF_TX_DONE\<close>.
\<close>

theorem fsk_sends_packet:
  assumes "SX1276FskSetTxPacket packet (of_nat n) st = Some st1" and "0 < n" and "n < 256" and "length (fk_buffer st) = 256"
    and "fk_reg st REG_PACKETCONFIG1 AND 0x80 = 0x80" and "\<forall>i \<in> set ws. \<not> fi_dio3 i" and "fi_dio3 iw"
    and "\<forall>i \<in> set rs. tx_quiet (fi_tick_event iw) i" and "fi_dio0 ie" and "fi_tick ie - fi_tick_event ie \<le> 1000"
    and "n \<le> 64 \<or> n \<le> 32 * Suc (low_calls (rs @ [ie]))"
  shows "\<exists>st'. fsk_run (i0 # ws @ iw # rs @ [ie, il]) st1 =
      Some (replicate (length ws + length rs + 3) RF_BUSY @ [RF_TX_DONE], of_nat n # take n packet, st') \<and> fk_state st' = RF_STATE_IDLE"
proof -
  have n: "unat (of_nat n :: u16) = n" using assms(3) by simp
  have st1: "fk_state st1 = RF_STATE_TX_INIT" "unat (fk_tx_size st1) = n" "length (fk_buffer st1) = 256" "take n (fk_buffer st1) = take n packet"
    "fk_reg st1 REG_PACKETCONFIG1 = fk_reg st REG_PACKETCONFIG1"
    using assms(1,3,4) by (auto simp: SX1276FskSetTxPacket_def n Let_def split: if_splits)
  let ?b = "fk_buffer st1"
  have nb: "n \<le> length ?b" using assms(3) st1(3) by simp
  obtain s0 where s0: "SX1276FskProcess i0 st1 = Some (RF_BUSY, s0, [])" "tx_before n ?b s0"
    using tx_init_call [OF st1(1), of i0] st1(2,5) assms(5) by auto
  obtain sw where sw: "fsk_run ws s0 = Some (replicate (length ws) RF_BUSY, [], sw)" "tx_before n ?b sw"
    using tx_waits [OF s0(2) assms(6)] by blast
  obtain sr c where sr: "SX1276FskProcess iw sw = Some (RF_BUSY, sr, of_nat n # take c ?b)" "c = (if n \<le> 64 then n else 32)"
    "tx_at n c c ?b sr" "fk_state sr = RF_STATE_TX_RUNNING" "fk_tx_timer sr = fi_tick_event iw"
    using tx_first [OF sw(2) assms(7,2,3) nb st1(3)] by blast
  have cn: "c \<le> n" using sr(2) by auto
  obtain sd k where sd: "fsk_run rs sr = Some (replicate (length rs) RF_BUSY, take (k - c) (drop c ?b), sd)" "k = min n (c + c * low_calls rs)"
    "tx_at n c k ?b sd" "fk_state sd = RF_STATE_TX_RUNNING"
    using tx_calls [OF sr(3) cn assms(3) nb sr(4), of rs] assms(8) sr(5) by auto
  have kn: "k \<le> n" using sd(2) by simp
  obtain se k' where se: "SX1276FskProcess ie sd = Some (RF_BUSY, se, take (k' - k) (drop k ?b))" "k' = (if fi_dio1 ie then k else min n (k + c))"
    "fk_state se = RF_STATE_TX_DONE"
    using tx_last [OF sd(3) kn assms(3) nb sd(4) assms(9,10)] by blast
  have "k' = min n (c + c * low_calls (rs @ [ie]))" using sd(2) se(2) by auto
  then have k': "k' = n" using assms(11) sr(2) by auto
  have "take c ?b @ take (k - c) (drop c ?b) @ take (k' - k) (drop k ?b) = take n ?b"
  proof -
    have "take c ?b @ take (k - c) (drop c ?b) = take k ?b" using take_add [of c "k - c" ?b] sd(2) cn by simp
    then show ?thesis using take_add [of k "n - k" ?b] kn k' by (simp flip: append_assoc)
  qed
  then have out: "take c ?b @ take (k - c) (drop c ?b) @ take (k' - k) (drop k ?b) = take n packet" using st1(4) by simp
  have "SX1276FskProcess il se = Some (RF_TX_DONE, (sees il se)\<lparr>fk_state := RF_STATE_IDLE\<rparr>, [])" using se(3) by (simp add: process_case)
  then show ?thesis
    using s0(1) sw(1) sr(1) sd(1) se(1) out
    by (simp add: fsk_run_append replicate_add numeral_3_eq_3 replicate_app_Cons_same)
qed


section \<open>A packet that fills the buffer\<close>

text \<open>The chunk with the number \<open>j\<close> of the transmission of 256 bytes.\<close>

definition chunk_no :: "u8 list \<Rightarrow> nat \<Rightarrow> u8 list" where
  "chunk_no b j = take 32 (drop (32 * (j mod 8)) b)"

definition tx256_at :: "nat \<Rightarrow> u8 list \<Rightarrow> fsk_state \<Rightarrow> bool" where
  "tx256_at j b st \<longleftrightarrow> fk_tx_size st = 256 \<and> fk_chunk st = 32 \<and> unat (fk_tx_sent st) = 32 * (j mod 8) \<and> fk_buffer st = b \<and>
     fk_state st = RF_STATE_TX_RUNNING"

lemma tx256_call:
  assumes "tx256_at j b st" and "length b = 256" and "tx_quiet (fk_tx_timer st) i"
  shows "\<exists>st'. SX1276FskProcess i st = Some (RF_BUSY, st', if fi_dio1 i then [] else chunk_no b j) \<and>
    tx256_at (if fi_dio1 i then j else Suc j) b st' \<and> fk_tx_timer st' = fk_tx_timer st"
proof -
  let ?n = "if fk_unsent (sees i st) > uint (fk_chunk (sees i st)) then fk_chunk (sees i st) else of_int (fk_unsent (sees i st))"
  have "j mod 8 < 8" by simp
  then have u: "fk_unsent st = 256 - 32 * int (j mod 8)" "32 * (j mod 8) + 32 \<le> 256"
    using assms(1) by (simp_all add: tx256_at_def fk_unsent_def)
  have su: "fk_unsent (sees i st) = fk_unsent st" "fk_chunk (sees i st) = 32"
    using assms(1) by (simp_all add: fk_unsent_def tx256_at_def)
  have n: "?n = 32"
  proof (cases "j mod 8 = 7")
    case True
    then have "fk_unsent st = 32" using u(1) by simp
    then show ?thesis unfolding su by simp
  next
    case False
    then have "fk_unsent st > 32" using u(1) \<open>j mod 8 < 8\<close> by linarith
    then show ?thesis unfolding su by simp
  qed
  have "fk_tx_sent st = of_nat (32 * (j mod 8))" using assms(1) by (metis tx256_at_def word_nat_cases unat_of_nat_u8 unat_u8_lt of_nat_unat ucast_id)
  then have "fk_tx_sent st + 32 = of_nat (32 * (j mod 8) + 32)" by simp
  then have "unat (fk_tx_sent st + 32) = (32 * (j mod 8) + 32) mod 256" by (simp only: unat_of_nat) simp
  then have "unat (fk_tx_sent st + 32) = 32 * (Suc j mod 8)" using \<open>j mod 8 < 8\<close> by (auto simp: mod_Suc)
  then show ?thesis
    using assms u(2) n by (auto simp: process_case fk_tx_running_def fk_tx_level_def fk_send_def tx_quiet_def tx256_at_def chunk_no_def
      linorder_not_less [symmetric] Let_def)
qed


lemma tx256_calls:
  assumes "tx256_at j b st" and "length b = 256" and "\<forall>i \<in> set is. tx_quiet (fk_tx_timer st) i"
  shows "\<exists>st'. fsk_run is st = Some (replicate (length is) RF_BUSY, concat (map (chunk_no b) [j..<j + low_calls is]), st') \<and>
    tx256_at (j + low_calls is) b st'"
  using assms
proof (induction "is" arbitrary: st j)
  case (Cons i "is")
  let ?j = "if fi_dio1 i then j else Suc j"
  obtain s1 where s1: "SX1276FskProcess i st = Some (RF_BUSY, s1, if fi_dio1 i then [] else chunk_no b j)" "tx256_at ?j b s1"
    "fk_tx_timer s1 = fk_tx_timer st" using tx256_call [OF Cons.prems(1,2), of i] Cons.prems(3) by auto
  obtain s2 where s2: "fsk_run is s1 = Some (replicate (length is) RF_BUSY, concat (map (chunk_no b) [?j..<?j + low_calls is]), s2)"
    "tx256_at (?j + low_calls is) b s2" using Cons.IH [OF s1(2) Cons.prems(2)] Cons.prems(3) s1(3) by auto
  then show ?case using s1(1) by (cases "fi_dio1 i") (auto simp: upt_conv_Cons simp del: upt_Suc)
qed simp

text \<open>
  A packet of 256 bytes, which the buffer holds and the call accepts, is never sent: its length byte is 0, and the counter of the bytes
  sent wraps around after the last chunk, so that the first one follows again, as often as the FIFO falls below its threshold.
\<close>

theorem fsk_256_repeats:
  assumes "SX1276FskSetTxPacket packet 256 st = Some st1" and "length (fk_buffer st) = 256"
    and "fk_reg st REG_PACKETCONFIG1 AND 0x80 = 0x80" and "\<forall>i \<in> set ws. \<not> fi_dio3 i" and "fi_dio3 iw"
    and "\<forall>i \<in> set rs. tx_quiet (fi_tick_event iw) i"
  shows "\<exists>st'. fsk_run (i0 # ws @ iw # rs) st1 = Some (replicate (length ws + length rs + 2) RF_BUSY,
      0 # concat (map (chunk_no (take 256 packet)) [0..<Suc (low_calls rs)]), st') \<and> fk_state st' = RF_STATE_TX_RUNNING"
proof -
  let ?b = "take 256 packet"
  have st1: "fk_state st1 = RF_STATE_TX_INIT" "unat (fk_tx_size st1) = 256" "fk_buffer st1 = ?b" "length ?b = 256"
    "fk_reg st1 REG_PACKETCONFIG1 = fk_reg st REG_PACKETCONFIG1"
    using assms(1,2) by (auto simp: SX1276FskSetTxPacket_def Let_def split: if_splits)
  obtain s0 where s0: "SX1276FskProcess i0 st1 = Some (RF_BUSY, s0, [])" "tx_before 256 ?b s0"
    using tx_init_call [OF st1(1), of i0] st1(2,3,5) assms(3) by auto
  obtain sw where sw: "fsk_run ws s0 = Some (replicate (length ws) RF_BUSY, [], sw)" "tx_before 256 ?b sw"
    using tx_waits [OF s0(2) assms(4)] by blast
  have z: "fk_tx_size sw = 256" using sw(2) by (simp add: tx_before_def word_unat_eq_iff)
  obtain sr where sr: "SX1276FskProcess iw sw = Some (RF_BUSY, sr, 0 # chunk_no ?b 0)" "tx256_at 1 ?b sr" "fk_tx_timer sr = fi_tick_event iw"
    using sw(2) assms(5) z st1(4)
    by (simp add: process_case tx_before_def fk_tx_ready_wait_def fk_send_def tx256_at_def chunk_no_def Let_def)
  obtain sd where sd: "fsk_run rs sr = Some (replicate (length rs) RF_BUSY, concat (map (chunk_no ?b) [1..<1 + low_calls rs]), sd)"
    "tx256_at (1 + low_calls rs) ?b sd" using tx256_calls [OF sr(2) st1(4), of rs] assms(6) sr(3) by auto
  have "concat (map (chunk_no ?b) [0..<Suc (low_calls rs)]) = chunk_no ?b 0 @ concat (map (chunk_no ?b) [1..<1 + low_calls rs])"
    by (subst upt_rec) simp
  then show ?thesis using s0(1) sw(1) sr(1) sd
    by (simp add: fsk_run_append replicate_add replicate_app_Cons_same tx256_at_def del: upt_Suc)
qed

section \<open>A board without the preamble pin\<close>

definition listening :: "fsk_state \<Rightarrow> bool" where
  "listening st \<longleftrightarrow> packet_time (SX1276FskGetPacketPayloadSize st) (Fs_Bitrate (FskSettings (fk_modem st))) \<noteq> None \<and>
     (fk_state st = RF_STATE_RX_INIT \<or> fk_state st = RF_STATE_RX_TIMEOUT \<or> fk_state st = RF_STATE_RX_SYNC \<and> \<not> fk_preamble st)"

lemma payload_size_regs:
  "fk_reg st' REG_SYNCCONFIG = fk_reg st REG_SYNCCONFIG \<Longrightarrow> fk_reg st' REG_PACKETCONFIG1 = fk_reg st REG_PACKETCONFIG1 \<Longrightarrow>
     fk_reg st' REG_PAYLOADLENGTH = fk_reg st REG_PAYLOADLENGTH \<Longrightarrow>
     SX1276FskGetPacketPayloadSize st' = SX1276FskGetPacketPayloadSize st"
  by (simp add: SX1276FskGetPacketPayloadSize_def)

lemma payload_size_mapped [simp]:
  "SX1276FskGetPacketPayloadSize (sees i st) = SX1276FskGetPacketPayloadSize st"
  "SX1276FskGetPacketPayloadSize (on_modem (SX1276FskSetOpMode m) (fk_dio_mapping x y st)) = SX1276FskGetPacketPayloadSize st"
  by (rule payload_size_regs; simp add: opmode_regs mapping_regs fsk_addr)+

lemma restart_sel [simp]:
  "fk_reg (fk_restart_rx st) a = fk_reg st a" "FskSettings (fk_modem (fk_restart_rx st)) = FskSettings (fk_modem st)"
  "fk_sync (fk_restart_rx st) = fk_sync st" "fk_preamble (fk_restart_rx st) = fk_preamble st"
  by (simp_all add: fk_restart_rx_def fsk_defs)

lemma rx_init_step:
  assumes "packet_time (SX1276FskGetPacketPayloadSize st) (Fs_Bitrate (FskSettings (fk_modem st))) = Some t"
  shows "\<exists>st'. fk_rx_init i st = Some st' \<and> fk_state st' = RF_STATE_RX_SYNC \<and> \<not> fk_preamble st' \<and>
    SX1276FskGetPacketPayloadSize st' = SX1276FskGetPacketPayloadSize st \<and> FskSettings (fk_modem st') = FskSettings (fk_modem st)"
  using assms by (auto simp: fk_rx_init_def Let_def threshold_regs opmode_regs mapping_regs fsk_addr intro!: payload_size_regs)

lemma listening_call:
  assumes "listening st"
  shows "\<exists>c st'. SX1276FskProcess i st = Some (c, st', []) \<and> (c = RF_BUSY \<or> c = RF_RX_TIMEOUT) \<and> listening st'"
proof -
  obtain t where t: "packet_time (SX1276FskGetPacketPayloadSize st) (Fs_Bitrate (FskSettings (fk_modem st))) = Some t"
    using assms by (auto simp: listening_def)
  consider (init) "fk_state st = RF_STATE_RX_INIT" | (timeout) "fk_state st = RF_STATE_RX_TIMEOUT"
    | (sync) "fk_state st = RF_STATE_RX_SYNC" "\<not> fk_preamble st" using assms by (auto simp: listening_def)
  then show ?thesis
  proof cases
    case init
    then show ?thesis using rx_init_step [of "sees i st" t i] t by (auto simp: process_case listening_def)
  next
    case timeout
    have "SX1276FskGetPacketPayloadSize (fk_rx_fail (sees i st)) = SX1276FskGetPacketPayloadSize st"
      by (rule payload_size_regs) (simp_all add: fk_rx_fail_def)
    then show ?thesis using timeout t by (simp add: process_case listening_def fk_rx_fail_def)
  next
    case sync
    have "fk_sync_test i (fk_preamble_test i (sees i st)) = sees i st"
      using sync by (simp add: fk_sync_test_def fk_preamble_test_def DIO4_def)
    then have "fk_rx_sync i (sees i st) = sees i st \<or> fk_rx_sync i (sees i st) = (sees i st)\<lparr>fk_state := RF_STATE_RX_TIMEOUT\<rparr>"
      using sync by (simp add: fk_rx_sync_def Let_def)
    moreover have "SX1276FskGetPacketPayloadSize ((sees i st)\<lparr>fk_state := RF_STATE_RX_TIMEOUT\<rparr>) = SX1276FskGetPacketPayloadSize st"
      by (rule payload_size_regs) simp_all
    ultimately show ?thesis using sync t by (auto simp: process_case listening_def)
  qed
qed

text \<open>
  C40: The receiver of this board never receives.  Started with any settings of which the time of a packet can be computed, and whatever
  the chip, its FIFO, the pins and the clock show, it returns \<open>RF_BUSY\<close> and \<open>RF_RX_TIMEOUT\<close> only and never waits for a packet: the
  preamble is read from a pin that is not connected.
\<close>

theorem fsk_never_receives:
  assumes "packet_time (SX1276FskGetPacketPayloadSize st) (Fs_Bitrate (FskSettings (fk_modem st))) \<noteq> None"
  shows "\<exists>cs st'. fsk_run is (SX1276FskStartRx st) = Some (cs, [], st') \<and> length cs = length is \<and> set cs \<subseteq> {RF_BUSY, RF_RX_TIMEOUT} \<and>
    fk_state st' \<noteq> RF_STATE_RX_RUNNING \<and> fk_state st' \<noteq> RF_STATE_RX_DONE"
proof -
  have "\<exists>cs st'. fsk_run is s = Some (cs, [], st') \<and> length cs = length is \<and> set cs \<subseteq> {RF_BUSY, RF_RX_TIMEOUT} \<and> listening st'"
    if "listening s" for s using that
  proof (induction "is" arbitrary: s)
    case (Cons i "is")
    obtain c s1 where s1: "SX1276FskProcess i s = Some (c, s1, [])" "c = RF_BUSY \<or> c = RF_RX_TIMEOUT" "listening s1"
      using listening_call [OF Cons.prems] by blast
    then show ?case using Cons.IH [OF s1(3)] by auto
  qed simp
  moreover have "listening (SX1276FskStartRx st)"
    using assms payload_size_regs [of "SX1276FskStartRx st" st] by (simp add: listening_def SX1276FskStartRx_def SX1276FskSetRFState_def)
  ultimately show ?thesis by (fastforce simp: listening_def)
qed


section \<open>A packet from the FIFO\<close>

text \<open>
  The reception stands at \<open>p\<close>: of the length byte and the \<open>n\<close> bytes \<open>d\<close> of the packet, \<open>p\<close> bytes have been read, \<open>f\<close> have come into the
  FIFO.
\<close>

definition rx_at :: "u8 list \<Rightarrow> nat \<Rightarrow> nat \<Rightarrow> fsk_state \<Rightarrow> bool" where
  "rx_at d p f st \<longleftrightarrow> fk_state st = RF_STATE_RX_RUNNING \<and> length (fk_buffer st) = 256 \<and> \<not> fk_packet st \<and>
     fk_reg st REG_PACKETCONFIG1 AND 0x80 = 0x80 \<and> fk_reg st REG_FIFOTHRESH AND 0x3F = 32 \<and>
     p \<le> f \<and> f \<le> Suc (length d) \<and> fk_fifo st = drop p (take f (of_nat (length d) # d)) \<and>
     unat (fk_rx_size st) = (if p = 0 then 0 else length d) \<and> unat (fk_rx_read st) = p - 1 \<and> take (p - 1) (fk_buffer st) = take (p - 1) d"

lemma fetch_bytes:
  assumes "unat n \<le> length (fk_fifo st)" and "unat (fk_rx_read st) + unat n \<le> length (fk_buffer st)" and "unat (fk_rx_read st) + unat n < 256"
  shows "\<exists>b. fk_fetch i n st = Some (st\<lparr>fk_fifo := drop (unat n) (fk_fifo st), fk_buffer := b, fk_rx_read := fk_rx_read st + n\<rparr>) \<and>
    length b = length (fk_buffer st) \<and>
    take (unat (fk_rx_read st) + unat n) b = take (unat (fk_rx_read st)) (fk_buffer st) @ take (unat n) (fk_fifo st) \<and>
    unat (fk_rx_read st + n) = unat (fk_rx_read st) + unat n"
proof -
  have "map (\<lambda>k. if k < length (fk_fifo st) then fk_fifo st ! k else fi_empty i k) [0..<unat n] = take (unat n) (fk_fifo st)"
    using assms(1) by (intro nth_equalityI) auto
  moreover have "unat (fk_rx_read st + n) = unat (fk_rx_read st) + unat n" using assms(3) by (simp add: unat_word_ariths)
  ultimately show ?thesis using assms
    by (intro exI [of _ "take (unat (fk_rx_read st)) (fk_buffer st) @ take (unat n) (fk_fifo st) @ drop (unat (fk_rx_read st) + unat n) (fk_buffer st)"])
      (simp add: fk_fetch_def fk_read_fifo_def Let_def)
qed

lemma rx_length_first:
  assumes "rx_at d 0 f st" and "0 < f" and "length d < 256"
  shows "\<exists>st'. fk_rx_length i st = st' \<and> rx_at d 1 f st' \<and> fk_rx_timer st' = fk_rx_timer st \<and> fk_packet_timeout st' = fk_packet_timeout st"
proof -
  have z: "fk_rx_size st = 0" "fk_rx_read st = 0" using assms(1) by (simp_all add: rx_at_def unat_eq_0)
  obtain g where f: "f = Suc g" using assms(2) by (cases f) auto
  have "unat ((0 AND 0xFF00) OR ucast (of_nat (length d) :: u8) :: u16) = length d"
    using assms(3) by (simp add: unsigned_ucast_eq unat_of_nat_u8 take_bit_nat_eq_self)
  then show ?thesis using assms(1) z by (simp add: fk_rx_length_def fk_read_fifo_def rx_at_def f)
qed


lemma rx_length_step:
  assumes "rx_at d p f st" and "p \<noteq> 1" and "0 < f" and "length d < 256"
  obtains "rx_at d (max p 1) f (fk_rx_length i st)" "fk_rx_timer (fk_rx_length i st) = fk_rx_timer st"
    "fk_packet_timeout (fk_rx_length i st) = fk_packet_timeout st"
proof (cases "p = 0")
  case True
  then show thesis using rx_length_first [of d f st i] assms that by auto
next
  case False
  then have "fk_rx_read st \<noteq> 0" using assms(1,2) by (auto simp: rx_at_def)
  moreover have "max p 1 = p" using False by simp
  ultimately show thesis using assms(1) that by (simp add: fk_rx_length_def)
qed

text \<open>A fetch of \<open>k\<close> bytes that are there.\<close>

lemma rx_fetch_step:
  assumes "rx_at d p f st" and "0 < p" and "unat k \<le> f - p" and "length d < 256"
  shows "\<exists>st'. fk_fetch i k st = Some st' \<and> rx_at d (p + unat k) f st' \<and> fk_rx_timer st' = fk_rx_timer st \<and>
    fk_packet_timeout st' = fk_packet_timeout st"
proof -
  have r: "p \<le> f" "f \<le> Suc (length d)" "fk_fifo st = drop p (take f (of_nat (length d) # d))" "unat (fk_rx_read st) = p - 1"
    "take (p - 1) (fk_buffer st) = take (p - 1) d" "length (fk_buffer st) = 256" using assms(1) by (simp_all add: rx_at_def)
  have l: "unat k \<le> length (fk_fifo st)" "unat (fk_rx_read st) + unat k \<le> length (fk_buffer st)" "unat (fk_rx_read st) + unat k < 256"
    using r assms(2-4) by auto
  obtain b where b: "fk_fetch i k st = Some (st\<lparr>fk_fifo := drop (unat k) (fk_fifo st), fk_buffer := b, fk_rx_read := fk_rx_read st + k\<rparr>)"
    "length b = length (fk_buffer st)" "take (p - 1 + unat k) b = take (p - 1) d @ take (unat k) (fk_fifo st)"
    "unat (fk_rx_read st + k) = p - 1 + unat k"
    using fetch_bytes [OF l, of i] unfolding r(4,5) by blast
  obtain q where q: "p = Suc q" using assms(2) by (cases p) auto
  obtain g where g: "f = Suc g" using r(1) q by (cases f) auto
  have "take (unat k) (fk_fifo st) = take (unat k) (drop q d)"
    using r(1,3) assms(3) q g by (simp add: drop_take min_def)
  then have "take (q + unat k) b = take (q + unat k) d" using b(3) q by (simp add: take_add)
  then show ?thesis using b assms(1,3) q r(1) by (auto simp: rx_at_def add.commute [of "unat k"])
qed

lemma rest_at: "rx_at d p f st \<Longrightarrow> 0 < p \<Longrightarrow> fk_rest st = int (Suc (length d)) - int p"
  by (auto simp: rx_at_def fk_rest_def)

lemma rx_level_step:
  assumes "rx_at d p f st" and "p \<noteq> 1" and "fi_dio1 i" and "32 < f - p" and "length d < 256"
  shows "\<exists>st'. fk_rx_level i st = Some st' \<and> rx_at d (max p 1 + 32) f st' \<and> fk_rx_timer st' = fk_rx_timer st \<and>
    fk_packet_timeout st' = fk_packet_timeout st"
proof -
  have f: "0 < f" using assms(4) by simp
  from rx_length_step [OF assms(1,2) f assms(5), of i]
  have s: "rx_at d (max p 1) f (fk_rx_length i st)" "fk_rx_timer (fk_rx_length i st) = fk_rx_timer st"
    "fk_packet_timeout (fk_rx_length i st) = fk_packet_timeout st" by blast+
  have thr: "fk_reg (fk_rx_length i st) REG_FIFOTHRESH AND 0x3F = 32" "f \<le> Suc (length d)" using s(1) by (simp_all add: rx_at_def)
  have rest: "fk_rest (fk_rx_length i st) = int (Suc (length d)) - int (max p 1)" by (rule rest_at [OF s(1)]) simp
  have "fk_rest (fk_rx_length i st) \<ge> 32" unfolding rest using assms(4) thr(2) by linarith
  then have "fk_rx_level i st = fk_fetch i 32 (fk_rx_length i st)"
    using assms(3) thr(1) by (cases "fk_rest (fk_rx_length i st) = 32") (simp_all add: fk_rx_level_def Let_def)
  moreover have "unat (32 :: u8) \<le> f - max p 1" using assms(4) by simp
  ultimately show ?thesis using rx_fetch_step [OF s(1) _ _ assms(5), of 32 i] s(2,3) by simp
qed


lemma rx_ready_step:
  assumes "rx_at d p (Suc (length d)) st" and "p \<noteq> 1" and "fi_dio0 i" and "length d < 256"
  shows "\<exists>st'. fk_rx_ready i st = Some st' \<and> fk_state st' = RF_STATE_RX_DONE \<and> fk_packet st' \<and> unat (fk_rx_size st') = length d \<and>
    take (length d) (fk_buffer st') = d \<and> length (fk_buffer st') = 256"
proof -
  let ?s = "st\<lparr>fk_rx_timer := fi_tick_event i\<rparr>"
  have "rx_at d p (Suc (length d)) ?s" using assms(1) by (simp add: rx_at_def)
  from rx_length_step [OF this assms(2) _ assms(4), of i]
  have s: "rx_at d (max p 1) (Suc (length d)) (fk_rx_length i ?s)" by blast
  have p: "max p 1 \<le> Suc (length d)" "0 < max p 1" using s by (simp_all add: rx_at_def)
  let ?k = "of_int (fk_rest (fk_rx_length i ?s)) :: u8"
  have rest: "fk_rest (fk_rx_length i ?s) = int (Suc (length d) - max p 1)" using rest_at [OF s p(2)] p(1) by (simp add: of_nat_diff)
  have "Suc (length d) - max p 1 < 256" using assms(4) by simp
  then have k: "unat ?k = Suc (length d) - max p 1" unfolding rest by (simp add: unat_of_nat_u8 flip: of_nat_diff)
  obtain st' where st': "fk_fetch i ?k (fk_rx_length i ?s) = Some st'" "rx_at d (max p 1 + unat ?k) (Suc (length d)) st'"
    using rx_fetch_step [OF s p(2) _ assms(4), of ?k i] k by auto
  have "rx_at d (Suc (length d)) (Suc (length d)) st'" using st'(2) p(1) unfolding k by simp
  then show ?thesis using st'(1) assms(3) by (simp add: fk_rx_ready_def Let_def rx_at_def)
qed

text \<open>
  How the calls may find the FIFO: with the level bit there are more bytes in it than the threshold of 32; \<open>l\<close> of them are left from
  before, and the first read takes the length as well.
\<close>

fun levels :: "bool \<Rightarrow> nat \<Rightarrow> fsk_input list \<Rightarrow> bool" where
  "levels first l [] \<longleftrightarrow> True"
| "levels first l (i # is) \<longleftrightarrow>
     (let l' = l + length (fi_fifo i)
      in if fi_dio1 i then 32 < l' \<and> levels False (l' - (if first then 33 else 32)) is else levels first l' is)"

definition rx_quiet :: "fsk_state \<Rightarrow> fsk_input \<Rightarrow> bool" where
  "rx_quiet st i \<longleftrightarrow> \<not> fi_dio0 i \<and> fi_tick i - fk_rx_timer st \<le> fk_packet_timeout st"

lemma drop_after:
  assumes "a @ b = drop f s"
  shows "a = take (length a) (drop f s)" and "b = drop (f + length a) s"
proof -
  show "a = take (length a) (drop f s)" unfolding assms [symmetric] by simp
  have "drop (length a) (drop f s) = b" unfolding assms [symmetric] by simp
  then show "b = drop (f + length a) s" by (simp add: add.commute)
qed

lemma rx_at_sees:
  assumes "rx_at d p f st" and "fi_fifo i = take g (drop f (of_nat (length d) # d))" and "g = length (fi_fifo i)"
  shows "rx_at d p (f + g) (sees i st)"
proof -
  let ?s = "of_nat (length d) # d"
  have "g \<le> length ?s - f" using assms(2,3) by (metis length_drop length_take min.cobounded1)
  moreover have "f \<le> Suc (length d)" using assms(1) by (simp add: rx_at_def)
  ultimately have "f + g \<le> Suc (length d)" by simp
  moreover have "drop p (take f ?s) @ take g (drop f ?s) = drop p (take (f + g) ?s)"
    using assms(1) by (simp add: rx_at_def take_add min_def)
  ultimately show ?thesis using assms(1,2) by (simp add: rx_at_def)
qed

lemma rx_waits:
  assumes "rx_at d p f st" and "p = 0 \<or> 32 < p" and "length d < 256" and "levels (p = 0) (f - p) (is @ js)"
    and "\<forall>i \<in> set is. rx_quiet st i" and "concat (map fi_fifo is) @ rest = drop f (of_nat (length d) # d)"
  shows "\<exists>st' p'. fsk_run is st = Some (replicate (length is) RF_BUSY, [], st') \<and> (p' = 0 \<or> 32 < p') \<and>
    rx_at d p' (f + length (concat (map fi_fifo is))) st' \<and> levels (p' = 0) (f + length (concat (map fi_fifo is)) - p') js \<and> fk_rx_timer st' = fk_rx_timer st \<and> fk_packet_timeout st' = fk_packet_timeout st"
  using assms
proof (induction "is" arbitrary: st p f)
  case Nil
  then show ?case by auto
next
  case (Cons i "is")
  let ?g = "length (fi_fifo i)"
  have all: "fi_fifo i @ (concat (map fi_fifo is) @ rest) = drop f (of_nat (length d) # d)" using Cons.prems(6) by simp
  note g = drop_after(1) [OF all] and rest = drop_after(2) [OF all]
  have s: "rx_at d p (f + ?g) (sees i st)" using rx_at_sees [OF Cons.prems(1) g] by simp
  have pf: "p \<le> f" using Cons.prems(1) by (simp add: rx_at_def)
  have quiet: "rx_quiet st i" "\<not> fi_dio0 i" using Cons.prems(5) by (auto simp: rx_quiet_def)
  have run: "SX1276FskProcess i st = Some (RF_BUSY, st', [])"
    if "fk_rx_level i (sees i st) = Some st'" "rx_at d q (f + ?g) st'" "fk_rx_timer st' = fk_rx_timer st"
      "fk_packet_timeout st' = fk_packet_timeout st" for st' q
  proof -
    have "fk_rx_size (sees i st) \<le> 256" using Cons.prems(1,3) by (auto simp: rx_at_def word_le_nat_alt split: if_splits)
    then have "fk_rx_running i (sees i st) = Some st'"
      using that quiet by (auto simp: fk_rx_running_def fk_rx_ready_def rx_quiet_def linorder_not_less [symmetric])
    then show ?thesis using Cons.prems(1) by (simp add: process_case rx_at_def)
  qed
  show ?case
  proof (cases "fi_dio1 i")
    case True
    then have l: "32 < f + ?g - p" using Cons.prems(4) pf by (simp add: Let_def)
    have p1: "p \<noteq> 1" using Cons.prems(2) by auto
    let ?p = "max p 1 + 32"
    obtain s1 where s1: "fk_rx_level i (sees i st) = Some s1" "rx_at d ?p (f + ?g) s1" "fk_rx_timer s1 = fk_rx_timer st"
      "fk_packet_timeout s1 = fk_packet_timeout st" using rx_level_step [OF s p1 True l Cons.prems(3)] by auto
    have big: "0 < max p (Suc 0)" by (simp add: less_max_iff_disj)
    have "levels (?p = 0) (f + ?g - ?p) (is @ js)" using Cons.prems(2,4) True pf by (cases "p = 0") (auto simp: Let_def)
    then obtain s2 p2 where "fsk_run is s1 = Some (replicate (length is) RF_BUSY, [], s2)" "p2 = 0 \<or> 32 < p2"
      "rx_at d p2 (f + ?g + length (concat (map fi_fifo is))) s2"
      "levels (p2 = 0) (f + ?g + length (concat (map fi_fifo is)) - p2) js" "fk_rx_timer s2 = fk_rx_timer st" "fk_packet_timeout s2 = fk_packet_timeout st"
      using Cons.IH [OF s1(2) _ Cons.prems(3) _ _ rest] big Cons.prems(5) s1(3,4) by (auto simp: rx_quiet_def)
    then show ?thesis using run [OF s1] by (intro exI [of _ s2] exI [of _ p2]) (simp add: add.assoc)
  next
    case False
    then have "fk_rx_level i (sees i st) = Some (sees i st)" by (simp add: fk_rx_level_def)
    from run [OF this s] have r: "SX1276FskProcess i st = Some (RF_BUSY, sees i st, [])" by simp
    have "levels (p = 0) (f + ?g - p) (is @ js)" using Cons.prems(4) False pf by (simp add: Let_def)
    then obtain s2 p2 where "fsk_run is (sees i st) = Some (replicate (length is) RF_BUSY, [], s2)" "p2 = 0 \<or> 32 < p2"
      "rx_at d p2 (f + ?g + length (concat (map fi_fifo is))) s2"
      "levels (p2 = 0) (f + ?g + length (concat (map fi_fifo is)) - p2) js" "fk_rx_timer s2 = fk_rx_timer st" "fk_packet_timeout s2 = fk_packet_timeout st"
      using Cons.IH [OF s Cons.prems(2,3) _ _ rest] Cons.prems(5) by (auto simp: rx_quiet_def)
    then show ?thesis using r by (intro exI [of _ s2] exI [of _ p2]) (simp add: add.assoc)
  qed
qed


text \<open>
  Once the sync word has been found, a packet that comes into the FIFO in any pieces is put together: at the call \<open>ie\<close> that shows the
  packet complete the rest is read, the next one returns \<open>RF_RX_DONE\<close>, and \<open>SX1276FskGetRxPacket\<close> gives the packet.
\<close>

theorem fsk_reads_packet:
  assumes "rx_at d 0 0 st" and "length d < 256" and "levels True 0 (is @ [ie])" and "\<forall>i \<in> set is. rx_quiet st i" and "fi_dio0 ie"
    and "concat (map fi_fifo (is @ [ie])) = of_nat (length d) # d" and "length d \<le> length b"
  shows "\<exists>st1 st2. fsk_run (is @ [ie, il]) st = Some (replicate (Suc (length is)) RF_BUSY @ [RF_RX_DONE], [], st1) \<and>
    SX1276FskGetRxPacket b st1 = Some (d @ drop (length d) b, of_nat (length d), st2)"
proof -
  let ?f = "length (concat (map fi_fifo is))" let ?n = "Suc (length d)"
  have all: "concat (map fi_fifo is) @ fi_fifo ie = drop 0 (of_nat (length d) # d)" using assms(6) by simp
  obtain s1 p where s1: "fsk_run is st = Some (replicate (length is) RF_BUSY, [], s1)" "p = 0 \<or> 32 < p" "rx_at d p ?f s1"
    "levels (p = 0) (?f - p) [ie]" using rx_waits [OF assms(1) _ assms(2) _ assms(4) all, of "[ie]"] assms(3) by auto
  have "fi_fifo ie = drop ?f (of_nat (length d) # d)" using drop_after(2) [OF all] by simp
  then have "fi_fifo ie = take (length (fi_fifo ie)) (drop ?f (of_nat (length d) # d))" by simp
  from rx_at_sees [OF s1(3) this] have "rx_at d p (?f + length (fi_fifo ie)) (sees ie s1)" by simp
  moreover have f: "?f + length (fi_fifo ie) = ?n" using assms(6) by (metis concat_append length_Cons length_append map_append concat.simps append_Nil2 list.simps(8,9))
  ultimately have s: "rx_at d p ?n (sees ie s1)" by simp
  have pf: "p \<le> ?f" using s1(3) by (simp add: rx_at_def)
  have p1: "p \<noteq> 1" using s1(2) by auto
  obtain s2 q where s2: "fk_rx_level ie (sees ie s1) = Some s2" "rx_at d q ?n s2" "q \<noteq> 1"
  proof (cases "fi_dio1 ie")
    case True
    then have "32 < ?n - p" using s1(4) f pf by (simp add: Let_def)
    then obtain s2 where "fk_rx_level ie (sees ie s1) = Some s2" "rx_at d (max p 1 + 32) ?n s2"
      using rx_level_step [OF s p1 True _ assms(2)] by blast
    then show thesis using that [of s2 "max p 1 + 32"] by simp
  next
    case False
    then show thesis using that [OF _ s p1] by (simp add: fk_rx_level_def)
  qed
  obtain s3 where s3: "fk_rx_ready ie s2 = Some s3" "fk_state s3 = RF_STATE_RX_DONE" "fk_packet s3" "unat (fk_rx_size s3) = length d"
    "take (length d) (fk_buffer s3) = d" "length (fk_buffer s3) = 256" using rx_ready_step [OF s2(2,3) assms(5,2)] by blast
  have "fk_rx_size (sees ie s1) \<le> 256" using s assms(2) by (auto simp: rx_at_def word_le_nat_alt split: if_splits)
  then have run: "SX1276FskProcess ie s1 = Some (RF_BUSY, s3, [])"
    using s1(3) s2(1) s3(1,3) by (simp add: process_case rx_at_def fk_rx_running_def linorder_not_less [symmetric])
  let ?e = "(sees il s3)\<lparr>fk_rx_read := 0, fk_state := RF_STATE_RX_INIT\<rparr>"
  have "SX1276FskProcess il s3 = Some (RF_RX_DONE, ?e, [])" using s3(2) by (simp add: process_case)
  then have "fsk_run (is @ [ie, il]) st = Some (replicate (Suc (length is)) RF_BUSY @ [RF_RX_DONE], [], ?e)"
    using s1(1) run by (simp add: fsk_run_append replicate_app_Cons_same)
  moreover have "fk_rx_size s3 = of_nat (length d)" using s3(4) by (metis of_nat_unat ucast_id)
  then have "SX1276FskGetRxPacket b ?e = Some (d @ drop (length d) b, of_nat (length d), ?e\<lparr>fk_rx_size := 0\<rparr>)"
    using s3(4-6) assms(2,7) by (simp add: SX1276FskGetRxPacket_def Let_def)
  ultimately show ?thesis by blast
qed


section \<open>Examples\<close>

definition demo_fsk :: fsk_state where
  "demo_fsk = \<lparr>fk_modem = \<lparr>fsk_chip = \<lparr>Regs = (\<lambda>a. if a = 0x27 then 0x93 else if a = 0x30 then 0x90 else if a = 0x32 then 255 else
         if a = 0x35 then 0xA0 else 0), Chip = (\<lambda>a. 0), LoRaSettings = LoRaSettings_default, antennaSwitchTxOnPrev = True, LoRaOn = False,
       LoRaOnState = False\<rparr>, FskSettings = FskSettings_default, fsk_antennaPrev = True\<rparr>, fk_fifo = [], fk_buffer = replicate 256 0,
     fk_state = RF_STATE_RX_RUNNING, fk_chunk = 32, fk_packet_timeout = 328, fk_p2s_timeout = 328, fk_preamble = False, fk_sync = False,
     fk_packet = False, fk_rx_size = 0, fk_rx_read = 0, fk_tx_sent = 0, fk_rssi = 0, fk_afc = 0, fk_gain = 1, fk_rx_timer = 0,
     fk_p2s_timer = 0, fk_tx_size = 0, fk_tx_timer = 0\<rparr>"

definition demo_input :: "bool \<Rightarrow> bool \<Rightarrow> bool \<Rightarrow> u8 list \<Rightarrow> fsk_input" where
  "demo_input d0 d1 d3 f = \<lparr>fi_regs = (\<lambda>a. 0), fi_fifo = f, fi_empty = (\<lambda>k. 0), fi_dio0 = d0, fi_dio1 = d1, fi_dio2 = False, fi_dio3 = d3,
     fi_tick_preamble = 0, fi_tick_event = 0, fi_tick_p2s = 0, fi_tick = 0\<rparr>"

lemma demo_input_sel [simp]:
  "fi_fifo (demo_input d0 d1 d3 f) = f" "fi_dio0 (demo_input d0 d1 d3 f) = d0" "fi_dio1 (demo_input d0 d1 d3 f) = d1"
  "fi_dio3 (demo_input d0 d1 d3 f) = d3" "fi_tick (demo_input d0 d1 d3 f) = 0" "fi_tick_event (demo_input d0 d1 d3 f) = 0"
  by (simp_all add: demo_input_def)

lemma demo_fsk_sel [simp]:
  "fk_buffer demo_fsk = replicate 256 0" "fk_rx_timer demo_fsk = 0" "fk_packet_timeout demo_fsk = 328"
  "fk_reg demo_fsk REG_PACKETCONFIG1 = 0x90" "FskSettings (fk_modem demo_fsk) = FskSettings_default"
  "fk_reg demo_fsk REG_SYNCCONFIG = 0x93" "fk_reg demo_fsk REG_PAYLOADLENGTH = 255"
  by (simp_all add: demo_fsk_def fsk_addr)

text \<open>A packet of 70 bytes goes out in three chunks.\<close>

theorem fsk_sends_packet_witness:
  "\<exists>st1 st'. SX1276FskSetTxPacket (replicate 70 65) (of_nat 70) demo_fsk = Some st1 \<and>
    fsk_run (demo_input False False False [] # [] @ demo_input False False True [] # [demo_input False False False []] @
        [demo_input True False False [], demo_input False False False []]) st1 =
      Some (replicate (length ([] :: fsk_input list) + length [demo_input False False False []] + 3) RF_BUSY @ [RF_TX_DONE],
        of_nat 70 # take 70 (replicate 70 65), st')"
proof -
  obtain st1 where st1: "SX1276FskSetTxPacket (replicate 70 65) (of_nat 70) demo_fsk = Some st1"
    by (simp add: SX1276FskSetTxPacket_def Let_def)
  show ?thesis
    using fsk_sends_packet [OF st1, of "[]" "demo_input False False True []" "[demo_input False False False []]" "demo_input True False False []"
        "demo_input False False False []" "demo_input False False False []"] st1
    by (auto simp: tx_quiet_def)
qed

theorem fsk_256_repeats_witness:
  "\<exists>st1 st'. SX1276FskSetTxPacket (replicate 256 65) 256 demo_fsk = Some st1 \<and>
    fsk_run (demo_input False False False [] # [] @ demo_input False False True [] # replicate 8 (demo_input False False False [])) st1 =
      Some (replicate 10 RF_BUSY, 0 # concat (map (chunk_no (take 256 (replicate 256 65))) [0..<9]), st')"
proof -
  obtain st1 where st1: "SX1276FskSetTxPacket (replicate 256 65) 256 demo_fsk = Some st1"
    by (simp add: SX1276FskSetTxPacket_def Let_def)
  have l: "low_calls (replicate 8 (demo_input False False False [])) = 8" by (simp add: low_calls_def)
  have "\<exists>st'. fsk_run (demo_input False False False [] # [] @ demo_input False False True [] # replicate 8 (demo_input False False False [])) st1 =
      Some (replicate 10 RF_BUSY, 0 # concat (map (chunk_no (take 256 (replicate 256 65))) [0..<9]), st') \<and> fk_state st' = RF_STATE_TX_RUNNING"
    using fsk_256_repeats [OF st1, of "[]" "demo_input False False True []" "replicate 8 (demo_input False False False [])"
        "demo_input False False False []"] unfolding l by (simp add: tx_quiet_def del: replicate.simps upt_Suc)
  then show ?thesis using st1 by blast
qed

lemma demo_payload: "SX1276FskGetPacketPayloadSize demo_fsk = 262"
  by (simp add: SX1276FskGetPacketPayloadSize_def)

theorem fsk_never_receives_witness:
  "\<exists>cs st'. fsk_run (replicate 1000 (demo_input True True True [1, 2, 3])) (SX1276FskStartRx demo_fsk) = Some (cs, [], st') \<and>
    set cs \<subseteq> {RF_BUSY, RF_RX_TIMEOUT}"
  using fsk_never_receives [of demo_fsk "replicate 1000 (demo_input True True True [1, 2, 3])"]
  by (auto simp: demo_payload FskSettings_default_def packet_time_default simp del: replicate.simps)

theorem fsk_reads_packet_witness:
  "\<exists>st1 st2. fsk_run ([demo_input False False False [3, 7]] @ [demo_input True False False [8, 9], demo_input False False False []]) demo_fsk =
      Some (replicate (Suc (length [demo_input False False False [3, 7]])) RF_BUSY @ [RF_RX_DONE], [], st1) \<and>
    SX1276FskGetRxPacket [0, 0, 0, 0] st1 = Some ([7, 8, 9] @ drop (length [7, 8, 9 :: u8]) [0, 0, 0, 0], of_nat (length [7, 8, 9 :: u8]), st2)"
proof (rule fsk_reads_packet)
  show "rx_at [7, 8, 9] 0 0 demo_fsk" by (simp add: rx_at_def) (simp add: demo_fsk_def fsk_addr)
qed (simp_all add: rx_quiet_def)

end
