(* ===== verification/Radio_Dispatch.thy ===== *)
theory Radio_Dispatch
  imports Fsk_Process
begin

text \<open>
  The rest of the radio interface: the readings of the LoRa modem, and the functions
  of \<open>sx1276.c\<close> over both modems.  The modems keep their own variables and share the registers of the chip and the copy of them.
\<close>

section \<open>Readings of the LoRa modem\<close>

text \<open>In decibels; the sum of whole numbers is exact in a \<open>double\<close>.\<close>

definition SX1276LoRaReadRssi :: "sx1276 \<Rightarrow> int \<times> sx1276" where
  "SX1276LoRaReadRssi s =
     (let s1 = SX1276Read REG_LR_RSSIVALUE RegRssiValue s
      in (if RFFrequency (LoRaSettings s1) < 860000000 then -164 + uint (Regs s1 RegRssiValue) else -157 + uint (Regs s1 RegRssiValue), s1))"

definition SX1276LoRaGetPacketRxGain :: "rf_state \<Rightarrow> u8" where
  "SX1276LoRaGetPacketRxGain st = RxGain st"

definition SX1276LoRaGetPacketSnr :: "rf_state \<Rightarrow> int" where
  "SX1276LoRaGetPacketSnr st = RxPacketSnrEstimate st"

definition SX1276LoRaGetPacketRssi :: "rf_state \<Rightarrow> int" where
  "SX1276LoRaGetPacketRssi st = RxPacketRssiValue st"

section \<open>Both modems\<close>

text \<open>The registers and their copy are those of the LoRa part; a call of the FSK modem works on them.\<close>

record radio =
  ra_lora :: rf_state
  ra_fsk :: fsk_state

definition fsk_view :: "radio \<Rightarrow> fsk_state" where
  "fsk_view r = (ra_fsk r)\<lparr>fk_modem := (fk_modem (ra_fsk r))\<lparr>fsk_chip := Radio (ra_lora r)\<rparr>\<rparr>"

definition fsk_put_back :: "fsk_state \<Rightarrow> radio \<Rightarrow> radio" where
  "fsk_put_back st r = r\<lparr>ra_fsk := st, ra_lora := (ra_lora r)\<lparr>Radio := fsk_chip (fk_modem st)\<rparr>\<rparr>"

definition SX1276GetLoRaOn :: "radio \<Rightarrow> bool" where
  "SX1276GetLoRaOn r = LoRaOn (Radio (ra_lora r))"

definition SX1276SetOpMode :: "u8 \<Rightarrow> radio \<Rightarrow> radio" where
  "SX1276SetOpMode opMode r =
     (if \<not> SX1276GetLoRaOn r then fsk_put_back (on_modem (SX1276FskSetOpMode opMode) (fsk_view r)) r
      else r\<lparr>ra_lora := set_opmode opMode (ra_lora r)\<rparr>)"

definition SX1276GetOpMode :: "radio \<Rightarrow> u8 \<times> radio" where
  "SX1276GetOpMode r =
     (if \<not> SX1276GetLoRaOn r
      then (let (m, s) = SX1276FskGetOpMode (fk_modem (fsk_view r)) in (m, fsk_put_back ((fsk_view r)\<lparr>fk_modem := s\<rparr>) r))
      else (let (m, s) = SX1276LoRaGetOpMode (Radio (ra_lora r)) in (m, r\<lparr>ra_lora := (ra_lora r)\<lparr>Radio := s\<rparr>\<rparr>)))"

text \<open>In half decibels.\<close>

definition SX1276ReadRssi :: "radio \<Rightarrow> int \<times> radio" where
  "SX1276ReadRssi r =
     (if \<not> SX1276GetLoRaOn r
      then (let (v, s) = SX1276FskReadRssi (fk_modem (fsk_view r)) in (v, fsk_put_back ((fsk_view r)\<lparr>fk_modem := s\<rparr>) r))
      else (let (v, s) = SX1276LoRaReadRssi (Radio (ra_lora r)) in (2 * v, r\<lparr>ra_lora := (ra_lora r)\<lparr>Radio := s\<rparr>\<rparr>)))"

definition SX1276ReadRxGain :: "radio \<Rightarrow> u8 \<times> radio" where
  "SX1276ReadRxGain r =
     (if \<not> SX1276GetLoRaOn r
      then (let (g, s) = SX1276FskReadRxGain (fk_modem (fsk_view r)) in (g, fsk_put_back ((fsk_view r)\<lparr>fk_modem := s\<rparr>) r))
      else (let (g, s) = SX1276LoRaReadRxGain (Radio (ra_lora r)) in (g, r\<lparr>ra_lora := (ra_lora r)\<lparr>Radio := s\<rparr>\<rparr>)))"

definition SX1276GetPacketRxGain :: "radio \<Rightarrow> u8" where
  "SX1276GetPacketRxGain r = (if \<not> SX1276GetLoRaOn r then SX1276FskGetPacketRxGain (ra_fsk r) else SX1276LoRaGetPacketRxGain (ra_lora r))"

text \<open>In the other mode these two never return.\<close>

definition SX1276GetPacketSnr :: "radio \<Rightarrow> int option" where
  "SX1276GetPacketSnr r = (if \<not> SX1276GetLoRaOn r then None else Some (SX1276LoRaGetPacketSnr (ra_lora r)))"

definition SX1276GetPacketAfc :: "radio \<Rightarrow> u32 option" where
  "SX1276GetPacketAfc r = (if \<not> SX1276GetLoRaOn r then Some (SX1276FskGetPacketAfc (ra_fsk r)) else None)"

text \<open>In units of 0.0001 dB.\<close>

definition SX1276GetPacketRssi :: "radio \<Rightarrow> int" where
  "SX1276GetPacketRssi r = (if \<not> SX1276GetLoRaOn r then 5000 * SX1276FskGetPacketRssi (ra_fsk r) else SX1276LoRaGetPacketRssi (ra_lora r))"

definition SX1276GetRFState :: "radio \<Rightarrow> tRFStates + tRFLRStates" where
  "SX1276GetRFState r = (if \<not> SX1276GetLoRaOn r then Inl (SX1276FskGetRFState (ra_fsk r)) else Inr (SX1276LoRaGetRFState (ra_lora r)))"

definition radio_start_rx :: "radio \<Rightarrow> radio" where
  "radio_start_rx r =
     (if \<not> SX1276GetLoRaOn r then r\<lparr>ra_fsk := SX1276FskSetRFState RF_STATE_RX_INIT (ra_fsk r)\<rparr>
      else r\<lparr>ra_lora := SX1276LoRaSetRFState RFLR_STATE_RX_INIT (ra_lora r)\<rparr>)"

text \<open>A state is a number in the code, read as one of the modem that is on; here the caller gives the state of either.\<close>

definition radio_set_rf_state :: "tRFStates \<Rightarrow> tRFLRStates \<Rightarrow> radio \<Rightarrow> radio" where
  "radio_set_rf_state f l r =
     (if \<not> SX1276GetLoRaOn r then r\<lparr>ra_fsk := SX1276FskSetRFState f (ra_fsk r)\<rparr>
      else r\<lparr>ra_lora := SX1276LoRaSetRFState l (ra_lora r)\<rparr>)"

definition radio_get_rx_packet :: "u8 list \<Rightarrow> radio \<Rightarrow> (u8 list \<times> u16 \<times> radio) option" where
  "radio_get_rx_packet buffer r =
     (if \<not> SX1276GetLoRaOn r then map_option (\<lambda>(b, n, st). (b, n, r\<lparr>ra_fsk := st\<rparr>)) (SX1276FskGetRxPacket buffer (ra_fsk r))
      else map_option (\<lambda>(b, n, st). (b, n, r\<lparr>ra_lora := st\<rparr>)) (SX1276LoRaGetRxPacket buffer (ra_lora r)))"

definition radio_set_tx_packet :: "u8 list \<Rightarrow> u16 \<Rightarrow> radio \<Rightarrow> radio option" where
  "radio_set_tx_packet buffer sz r =
     (if \<not> SX1276GetLoRaOn r then map_option (\<lambda>st. r\<lparr>ra_fsk := st\<rparr>) (SX1276FskSetTxPacket buffer sz (ra_fsk r))
      else map_option (\<lambda>st. r\<lparr>ra_lora := st\<rparr>) (SX1276LoRaSetTxPacket buffer sz (ra_lora r)))"

definition radio_process :: "rf_input \<Rightarrow> fsk_input \<Rightarrow> radio \<Rightarrow> (tRFProcessReturnCodes \<times> radio \<times> u8 list) option" where
  "radio_process i j r =
     (if \<not> SX1276GetLoRaOn r then map_option (\<lambda>(c, st, out). (c, fsk_put_back st r, out)) (SX1276FskProcess j (fsk_view r))
      else map_option (\<lambda>(c, st, out). (c, r\<lparr>ra_lora := st\<rparr>, out)) (SX1276LoRaProcess i (ra_lora r)))"

section \<open>The modem that is on\<close>

text \<open>A modem does not touch the variables of the other one; the functions that know the LoRa modem only are those over both while it is on.\<close>

lemma fsk_process_keeps_lora:
  "\<not> SX1276GetLoRaOn r \<Longrightarrow> radio_process i j r = Some (c, r', out) \<Longrightarrow>
     ra_lora r' = (ra_lora r)\<lparr>Radio := fsk_chip (fk_modem (ra_fsk r'))\<rparr>"
  by (auto simp: radio_process_def fsk_put_back_def)

lemma lora_process_keeps_fsk:
  "SX1276GetLoRaOn r \<Longrightarrow> radio_process i j r = Some (c, r', out) \<Longrightarrow> ra_fsk r' = ra_fsk r"
  by (auto simp: radio_process_def)

text \<open>To the thread, which knows the LoRa modem only, the radio over both is that of \<open>Sx1276_Process\<close>.\<close>

lemma lora_only_process:
  "SX1276GetLoRaOn r \<Longrightarrow> radio_process i j r = map_option (\<lambda>(c, st, out). (c, r\<lparr>ra_lora := st\<rparr>, out)) (SX1276Process i (ra_lora r))"
  by (simp add: radio_process_def SX1276Process_def SX1276GetLoRaOn_def)

lemma lora_only_packets:
  "SX1276GetLoRaOn r \<Longrightarrow> radio_get_rx_packet b r = map_option (\<lambda>(b, n, st). (b, n, r\<lparr>ra_lora := st\<rparr>)) (SX1276GetRxPacket b (ra_lora r))"
  "SX1276GetLoRaOn r \<Longrightarrow> radio_set_tx_packet b n r = map_option (\<lambda>st. r\<lparr>ra_lora := st\<rparr>) (SX1276SetTxPacket b n (ra_lora r))"
  "SX1276GetLoRaOn r \<Longrightarrow> Some (radio_start_rx r) = map_option (\<lambda>st. r\<lparr>ra_lora := st\<rparr>) (SX1276StartRx (ra_lora r))"
  by (simp_all add: radio_get_rx_packet_def radio_set_tx_packet_def radio_start_rx_def SX1276GetRxPacket_def SX1276SetTxPacket_def
    SX1276StartRx_def SX1276SetRFState_def SX1276GetLoRaOn_def)

text \<open>The operating mode that is set is the one that is read, in either modem, as long as the copy of its register is that of the chip.\<close>

lemma opmode_roundtrip:
  assumes "Regs (Radio (ra_lora r)) 1 = Chip (Radio (ra_lora r)) 1" and "m < 8"
  shows "fst (SX1276GetOpMode (SX1276SetOpMode m r)) = m"
proof -
  have "m \<in> {0, 1, 2, 3, 4, 5, 6, 7}" using assms(2) by (simp add: word_less_nat_alt, simp add: word_unat_eq_iff, arith)
  then have m: "((x AND 0xF8) OR m) AND 0x07 = m" "((x AND 0xF8) OR m) AND NOT 0xF8 = m" for x :: u8
    by (auto simp: bit.conj_disj_distrib2 and.assoc)
  have n: "NOT 0xF8 = (0x07 :: u8)" by simp
  show ?thesis
    using assms(1) m n by (auto simp: SX1276GetOpMode_def SX1276SetOpMode_def SX1276GetLoRaOn_def fsk_view_def fsk_put_back_def on_modem_def
      SX1276FskSetOpMode_def SX1276FskGetOpMode_def set_opmode_def on_radio_def SX1276LoRaSetOpMode_def SX1276LoRaGetOpMode_def fsk_defs
      fsk_addr reg_addr reg_off Let_def)
qed

end
