(* ===== verification/Uart.thy ===== *)
theory Uart
  imports Ring_Spec
begin

text \<open>
  The UART drivers of \<open>Drivers/BSP/src/ibox_uart.c\<close> (UART1: console, UART3: GPRS/WiFi
  module) and \<open>Drivers/BSP/src/ibox_485.c\<close> (UART4: RS-485).  A receive interrupt is one
  step on the ring; its argument is the byte in the data register when RXNE is set.  The three
  rings interpret \<open>lossy_ring\<close>.  The line readers are refined to functions on the list of
  unread bytes.
\<close>

section \<open>UART3: the modem line\<close>

definition UART3_RX_SIZE :: nat where
  "UART3_RX_SIZE = 1460"

record uart3_rx =
  u3_buf :: bytes
  u3_wr_index :: u16
  u3_count :: u16
  u3_re_index :: u16

definition uart3_rx_buf_clear :: "uart3_rx \<Rightarrow> uart3_rx" where
  "uart3_rx_buf_clear q =
     q\<lparr>u3_wr_index := 0, u3_count := 0, u3_re_index := 0, u3_buf := replicate UART3_RX_SIZE 0\<rparr>"

text \<open>
  \<open>USART3_IRQHandler\<close> with RXNE set; without it the handler leaves the ring alone (the
  overrun branch only clears the hardware flag).
\<close>

definition USART3_rx :: "uart3_rx \<Rightarrow> u8 \<Rightarrow> uart3_rx" where
  "USART3_rx q d =
     (let q1 = q\<lparr>u3_buf := (u3_buf q)[unat (u3_wr_index q) := d], u3_wr_index := u3_wr_index q + 1\<rparr>;
          q2 = (if u3_wr_index q1 = of_nat UART3_RX_SIZE then q1\<lparr>u3_wr_index := 0\<rparr> else q1);
          q3 = q2\<lparr>u3_count := u3_count q2 + 1\<rparr>
      in if u3_count q3 = of_nat UART3_RX_SIZE then uart3_rx_buf_clear q3 else q3)"

definition USART3_IRQHandler :: "bool \<Rightarrow> u8 \<Rightarrow> uart3_rx \<Rightarrow> uart3_rx" where
  "USART3_IRQHandler rxne d q = (if rxne then USART3_rx q d else q)"

text \<open>The body of \<open>get_char_form_uart3\<close> after its wait for \<open>uart3_rx_count\<close>.\<close>

definition uart3_get :: "uart3_rx \<Rightarrow> u8 \<times> uart3_rx" where
  "uart3_get q =
     (let d = u3_buf q ! unat (u3_re_index q);
          q1 = q\<lparr>u3_re_index := u3_re_index q + 1\<rparr>;
          q2 = (if u3_re_index q1 = of_nat UART3_RX_SIZE then q1\<lparr>u3_re_index := 0\<rparr> else q1)
      in (d, q2\<lparr>u3_count := u3_count q2 - 1\<rparr>))"

text \<open>With no byte unread the function spins until the interrupt stores one: \<open>None\<close>.\<close>

definition get_char_form_uart3 :: "uart3_rx \<Rightarrow> (u8 \<times> uart3_rx) option" where
  "get_char_form_uart3 q = (if u3_count q = 0 then None else Some (uart3_get q))"

text \<open>
  \<open>get_line_from_uart3\<close>: the bytes it stores before the terminating NUL (their number is
  its result) and the ring afterwards.
\<close>

function line3_loop :: "uart3_rx \<Rightarrow> bytes \<Rightarrow> bytes \<times> uart3_rx" where
  "line3_loop q out =
     (if u3_count q = 0 then (out, q)
      else (let (d, q') = uart3_get q
            in if d = 0x0a then line3_loop q' out
               else if d = 0x0d then (out, q')
               else line3_loop q' (out @ [d])))"
  by pat_completeness auto
termination
  by (relation "measure (\<lambda>(q, out). unat (u3_count q))")
    (auto simp: uart3_get_def Let_def unat_dec unat_gt_0 split: if_splits)

declare line3_loop.simps [simp del]

definition get_line_from_uart3 :: "uart3_rx \<Rightarrow> bytes \<times> uart3_rx" where
  "get_line_from_uart3 q = line3_loop q []"

fun uart3_send_data :: "bytes \<Rightarrow> nat \<Rightarrow> bytes c_result" where
  "uart3_send_data d 0 = Inr []"
| "uart3_send_data [] (Suc len) = Inl OutOfBounds"
| "uart3_send_data (b # bs) (Suc len) =
     (case uart3_send_data bs len of Inl e \<Rightarrow> Inl e | Inr out \<Rightarrow> Inr (b # out))"

fun uart3_send_str :: "bytes \<Rightarrow> bytes" where
  "uart3_send_str [] = []"
| "uart3_send_str (b # bs) = (if b = 0 then [] else b # uart3_send_str bs)"

subsection \<open>The ring\<close>

lemma UART3_RX_SIZE_lt: "UART3_RX_SIZE < 65536"
  by (simp add: UART3_RX_SIZE_def)

definition uart3_inv :: "uart3_rx \<Rightarrow> bool" where
  "uart3_inv q \<longleftrightarrow>
     cnt_ring UART3_RX_SIZE (u3_buf q) (u3_wr_index q) (u3_count q) (u3_re_index q)"

definition uart3_elems :: "uart3_rx \<Rightarrow> bytes" where
  "uart3_elems q = cnt_elems (u3_buf q) UART3_RX_SIZE (unat (u3_re_index q)) (unat (u3_count q))"

lemma uart3_clear [simp]: "uart3_inv (uart3_rx_buf_clear q)" "uart3_elems (uart3_rx_buf_clear q) = []"
  by (simp_all add: uart3_inv_def uart3_elems_def uart3_rx_buf_clear_def UART3_RX_SIZE_def cnt_ring_def)

lemma USART3_rx_step:
  assumes "uart3_inv q"
  shows "uart3_inv (USART3_rx q d) \<and> uart3_elems (USART3_rx q d) =
    (if Suc (length (uart3_elems q)) = UART3_RX_SIZE then [] else uart3_elems q @ [d])"
proof -
  let ?n = UART3_RX_SIZE
  have r: "cnt_ring ?n (u3_buf q) (u3_wr_index q) (u3_count q) (u3_re_index q)"
    using assms by (simp add: uart3_inv_def)
  note st = cnt_ring_store(1) [OF r UART3_RX_SIZE_lt] cnt_ring_store(2) [OF r UART3_RX_SIZE_lt, of d]
  let ?q = "q\<lparr>u3_buf := (u3_buf q)[unat (u3_wr_index q) := d],
    u3_wr_index := ring_succ ?n (u3_wr_index q), u3_count := u3_count q + 1\<rparr>"
  have e: "USART3_rx q d = (if u3_count q + 1 = of_nat ?n then uart3_rx_buf_clear ?q else ?q)"
    by (auto simp: USART3_rx_def Let_def uart3_rx_buf_clear_def ring_succ_def)
  have l: "length (uart3_elems q) = unat (u3_count q)" by (simp add: uart3_elems_def)
  show ?thesis
    using st by (simp add: e l) (simp add: uart3_inv_def uart3_elems_def)
qed

lemma uart3_get_step:
  assumes "uart3_inv q" "uart3_elems q = x # xs"
  shows "fst (uart3_get q) = x \<and> uart3_elems (snd (uart3_get q)) = xs \<and> uart3_inv (snd (uart3_get q))"
proof -
  have r: "cnt_ring UART3_RX_SIZE (u3_buf q) (u3_wr_index q) (u3_count q) (u3_re_index q)"
    using assms by (simp add: uart3_inv_def)
  have "uart3_get q = (u3_buf q ! unat (u3_re_index q),
      q\<lparr>u3_re_index := ring_succ UART3_RX_SIZE (u3_re_index q), u3_count := u3_count q - 1\<rparr>)"
    by (auto simp: uart3_get_def Let_def ring_succ_def)
  with cnt_ring_fetch [OF r UART3_RX_SIZE_lt, of x xs] assms(2) show ?thesis
    by (simp add: uart3_inv_def uart3_elems_def)
qed

interpretation u3: lossy_ring uart3_inv uart3_elems UART3_RX_SIZE USART3_rx uart3_get "\<lambda>_. []"
proof unfold_locales
  fix q x
  assume q: "uart3_inv q"
  show "length (uart3_elems q) < UART3_RX_SIZE"
    using q by (simp add: uart3_inv_def uart3_elems_def cnt_ring_def)
  show "uart3_inv (USART3_rx q x)" using USART3_rx_step [OF q] by blast
  show "uart3_elems (USART3_rx q x) =
      (if Suc (length (uart3_elems q)) = UART3_RX_SIZE then [] else uart3_elems q @ [x])"
    using USART3_rx_step [OF q] by blast
  assume "uart3_elems q \<noteq> []"
  then obtain y ys where e: "uart3_elems q = y # ys" by (cases "uart3_elems q") auto
  show "uart3_inv (snd (uart3_get q))" "fst (uart3_get q) = hd (uart3_elems q)"
    "uart3_elems (snd (uart3_get q)) = tl (uart3_elems q)"
    using uart3_get_step [OF q e] e by simp_all
qed

subsection \<open>Lines\<close>

text \<open>
  What a line reader does to the unread bytes: up to the first carriage return, without the line
  feeds.
\<close>

fun take_line :: "bytes \<Rightarrow> bytes \<times> bytes" where
  "take_line [] = ([], [])"
| "take_line (b # bs) =
     (if b = 0x0a then take_line bs
      else if b = 0x0d then ([], bs)
      else (let (l, r) = take_line bs in (b # l, r)))"

lemma take_line_length: "length (fst (take_line bs)) + length (snd (take_line bs)) \<le> length bs"
  by (induction bs) (auto simp: split_beta)

lemma take_line_no_eol: "b \<in> set (fst (take_line bs)) \<Longrightarrow> b \<noteq> 0x0a \<and> b \<noteq> 0x0d"
  by (induction bs) (auto simp: split_beta split: if_splits)

lemma take_line_append:
  "0x0d \<notin> set l \<Longrightarrow> 0x0a \<notin> set l \<Longrightarrow> take_line (l @ 0x0d # r) = (l, r)"
  by (induction l) auto

lemma uart3_count_0: "uart3_inv q \<Longrightarrow> u3_count q = 0 \<longleftrightarrow> uart3_elems q = []"
  unfolding uart3_elems_def by (metis length_0_conv length_cnt_elems unat_eq_zero)

lemma line3_loop_take_line:
  assumes "uart3_inv q"
  shows "fst (line3_loop q out) = out @ fst (take_line (uart3_elems q)) \<and>
    uart3_elems (snd (line3_loop q out)) = snd (take_line (uart3_elems q)) \<and>
    uart3_inv (snd (line3_loop q out))"
  using assms
proof (induction q out rule: line3_loop.induct)
  case (1 q out)
  show ?case
  proof (cases "uart3_elems q")
    case Nil
    then show ?thesis using "1.prems" by (simp add: line3_loop.simps [of q] uart3_count_0)
  next
    case (Cons x xs)
    obtain q' where g: "uart3_get q = (x, q')" and q': "uart3_elems q' = xs" "uart3_inv q'"
      using uart3_get_step [OF "1.prems" Cons] by (metis prod.collapse)
    have c: "u3_count q \<noteq> 0" using Cons uart3_count_0 [OF "1.prems"] by simp
    consider "x = 0x0a" | "x \<noteq> 0x0a" "x = 0x0d" | "x \<noteq> 0x0a" "x \<noteq> 0x0d" by blast
    then show ?thesis
    proof cases
      case 1
      then show ?thesis using "1.IH"(1) [OF c g [symmetric] refl] q' c g Cons
        by (simp add: line3_loop.simps [of q])
    next
      case 2
      then show ?thesis using q' c g Cons by (simp add: line3_loop.simps [of q])
    next
      case 3
      then show ?thesis using "1.IH"(2) [OF c g [symmetric] refl] q' c g Cons
        by (simp add: line3_loop.simps [of q] split_beta)
    qed
  qed
qed

lemma get_line_from_uart3_inv [ibox_inv]:
  "uart3_inv q \<Longrightarrow> uart3_inv (snd (get_line_from_uart3 q))"
  by (simp add: get_line_from_uart3_def line3_loop_take_line)

lemma get_line_from_uart3_length [ibox_len]:
  assumes "uart3_inv q"
  shows "length (fst (get_line_from_uart3 q)) < UART3_RX_SIZE"
  using line3_loop_take_line [OF assms, of "[]"] take_line_length [of "uart3_elems q"]
    u3.elems_lt_cap [OF assms] by (simp add: get_line_from_uart3_def)


section \<open>UART1: the console\<close>

definition UART1_RX_SIZE :: nat where
  "UART1_RX_SIZE = 256"

record uart1_rx =
  u1_buf :: bytes
  u1_wr_index :: u16
  u1_re_index :: u16

text \<open>
  \<open>USART1_IRQHandler\<close> with RXNE set: the byte is stored, and when the write index has
  caught up with the read index the oldest byte is given up.
\<close>

definition USART1_rx :: "uart1_rx \<Rightarrow> u8 \<Rightarrow> uart1_rx" where
  "USART1_rx q d =
     (let q1 = q\<lparr>u1_buf := (u1_buf q)[unat (u1_wr_index q) := d], u1_wr_index := u1_wr_index q + 1\<rparr>;
          q2 = (if u1_wr_index q1 \<ge> of_nat UART1_RX_SIZE then q1\<lparr>u1_wr_index := 0\<rparr> else q1)
      in if u1_wr_index q2 = u1_re_index q2 then
           (let q3 = q2\<lparr>u1_re_index := u1_re_index q2 + 1\<rparr>
            in if u1_re_index q3 \<ge> of_nat UART1_RX_SIZE then q3\<lparr>u1_re_index := 0\<rparr> else q3)
         else q2)"

definition USART1_IRQHandler :: "bool \<Rightarrow> u8 \<Rightarrow> uart1_rx \<Rightarrow> uart1_rx" where
  "USART1_IRQHandler rxne d q = (if rxne then USART1_rx q d else q)"

definition uart1_get :: "uart1_rx \<Rightarrow> u8 \<times> uart1_rx" where
  "uart1_get q =
     (let d = u1_buf q ! unat (u1_re_index q);
          q1 = q\<lparr>u1_re_index := u1_re_index q + 1\<rparr>
      in (d, if u1_re_index q1 \<ge> of_nat UART1_RX_SIZE then q1\<lparr>u1_re_index := 0\<rparr> else q1))"

definition get_char_form_uart1 :: "uart1_rx \<Rightarrow> (u8 \<times> uart1_rx) option" where
  "get_char_form_uart1 q = (if u1_re_index q \<noteq> u1_wr_index q then Some (uart1_get q) else None)"

definition uart1_inv :: "uart1_rx \<Rightarrow> bool" where
  "uart1_inv q \<longleftrightarrow> length (u1_buf q) = UART1_RX_SIZE \<and>
     unat (u1_wr_index q) < UART1_RX_SIZE \<and> unat (u1_re_index q) < UART1_RX_SIZE"

definition uart1_elems :: "uart1_rx \<Rightarrow> bytes" where
  "uart1_elems q = cnt_elems (u1_buf q) UART1_RX_SIZE (unat (u1_re_index q))
     (ring_len UART1_RX_SIZE (unat (u1_re_index q)) (unat (u1_wr_index q)))"

lemma u1_succ:
  "unat i < UART1_RX_SIZE \<Longrightarrow>
     (if i + 1 \<ge> of_nat UART1_RX_SIZE then 0 else i + 1) = ring_succ UART1_RX_SIZE i"
  using unat_inc_u16 [of i]
  by (auto simp: ring_succ_def UART1_RX_SIZE_def word_le_nat_alt word_unat_eq_iff)

lemma u1_unat_succ:
  "unat i < UART1_RX_SIZE \<Longrightarrow> unat (ring_succ UART1_RX_SIZE i) = Suc (unat i) mod UART1_RX_SIZE"
  by (rule unat_ring_succ) (simp_all add: UART1_RX_SIZE_def)

lemma USART1_rx_eq:
  assumes "uart1_inv q"
  shows "USART1_rx q d = q\<lparr>u1_buf := (u1_buf q)[unat (u1_wr_index q) := d],
      u1_wr_index := ring_succ UART1_RX_SIZE (u1_wr_index q),
      u1_re_index := (if ring_succ UART1_RX_SIZE (u1_wr_index q) = u1_re_index q
        then ring_succ UART1_RX_SIZE (u1_re_index q) else u1_re_index q)\<rparr>"
proof -
  have s: "(if u1_wr_index q + 1 \<ge> of_nat UART1_RX_SIZE then 0 else u1_wr_index q + 1) =
      ring_succ UART1_RX_SIZE (u1_wr_index q)"
    "(if u1_re_index q + 1 \<ge> of_nat UART1_RX_SIZE then 0 else u1_re_index q + 1) =
      ring_succ UART1_RX_SIZE (u1_re_index q)"
    using assms by (simp_all only: uart1_inv_def u1_succ)
  have z: "ring_succ UART1_RX_SIZE 0 = 1" "\<not> of_nat UART1_RX_SIZE \<le> (1 :: u16)"
    by (simp_all add: ring_succ_def UART1_RX_SIZE_def word_le_nat_alt)
  show ?thesis
    by (simp add: USART1_rx_def Let_def s [symmetric] z)
qed

lemma uart1_get_eq:
  "uart1_inv q \<Longrightarrow> uart1_get q =
     (u1_buf q ! unat (u1_re_index q), q\<lparr>u1_re_index := ring_succ UART1_RX_SIZE (u1_re_index q)\<rparr>)"
  using u1_succ [of "u1_re_index q"] by (auto simp: uart1_get_def Let_def uart1_inv_def)

lemma u1_len_store:
  fixes r w n :: nat
  assumes "r < n" "w < n"
  shows "Suc w mod n \<noteq> r \<Longrightarrow> ring_len n r (Suc w mod n) = Suc (ring_len n r w)"
    and "Suc w mod n = r \<Longrightarrow> Suc (ring_len n r w) = n"
    and "Suc w mod n = r \<Longrightarrow> 1 < n \<Longrightarrow> ring_len n (Suc r mod n) (Suc w mod n) = n - 1"
    and "r \<noteq> w \<Longrightarrow> ring_len n r w = Suc (ring_len n (Suc r mod n) w)"
  using assms by (auto simp: ring_len_def ring_next split: if_splits)

lemma USART1_rx_step:
  assumes "uart1_inv q"
  shows "uart1_inv (USART1_rx q d) \<and> uart1_elems (USART1_rx q d) =
    (if Suc (length (uart1_elems q)) = UART1_RX_SIZE then tl (uart1_elems q @ [d])
     else uart1_elems q @ [d])"
proof -
  let ?n = UART1_RX_SIZE and ?r = "unat (u1_re_index q)" and ?w = "unat (u1_wr_index q)"
  let ?l = "ring_len ?n ?r ?w" and ?b = "(u1_buf q)[?w := d]"
  have i: "length (u1_buf q) = ?n" "?w < ?n" "?r < ?n" using assms by (simp_all add: uart1_inv_def)
  have n: "1 < ?n" by (simp add: UART1_RX_SIZE_def)
  have l: "?l < ?n" and e: "(?r + ?l) mod ?n = ?w"
    using ring_len_lt [OF i(3,2)] ring_end [OF i(3,2)] by simp_all
  have st: "cnt_elems ?b ?n ?r (Suc ?l) = uart1_elems q @ [d]"
    using cnt_elems_push [OF l i(1), of ?r d] by (simp add: e uart1_elems_def)
  have full: "ring_succ ?n (u1_wr_index q) = u1_re_index q \<longleftrightarrow> Suc ?w mod ?n = ?r"
    using u1_unat_succ [OF i(2)] by (metis word_unat_eq_iff)
  show ?thesis
  proof (cases "Suc ?w mod ?n = ?r")
    case True
    have "cnt_elems ?b ?n (Suc ?r mod ?n) ?l = tl (uart1_elems q @ [d])"
      using st cnt_elems_pop [of ?b ?n ?r ?l] by (metis list.sel(3) Suc_eq_plus1)
    moreover have "?l = ?n - 1" using u1_len_store(2) [OF i(3,2) True] by simp
    ultimately show ?thesis
      using True i n full u1_unat_succ [OF i(2)] u1_unat_succ [OF i(3)] u1_len_store(3) [OF i(3,2) True n]
      by (simp add: USART1_rx_eq [OF assms] uart1_inv_def uart1_elems_def)
  next
    case False
    have ll: "ring_len ?n ?r (Suc ?w mod ?n) = Suc ?l" by (rule u1_len_store(1) [OF i(3,2) False])
    moreover have "Suc ?l < ?n"
      using ll ring_len_lt [of ?r ?n "Suc ?w mod ?n"] i by simp
    ultimately show ?thesis
      using False i n full u1_unat_succ [OF i(2)] st
      by (simp add: USART1_rx_eq [OF assms] uart1_inv_def uart1_elems_def)
  qed
qed

lemma uart1_get_step:
  assumes "uart1_inv q" "uart1_elems q = x # xs"
  shows "fst (uart1_get q) = x \<and> uart1_elems (snd (uart1_get q)) = xs \<and> uart1_inv (snd (uart1_get q))"
proof -
  let ?n = UART1_RX_SIZE and ?r = "unat (u1_re_index q)" and ?w = "unat (u1_wr_index q)"
  have i: "length (u1_buf q) = ?n" "?w < ?n" "?r < ?n" using assms by (simp_all add: uart1_inv_def)
  have "ring_len ?n ?r ?w \<noteq> 0" using arg_cong [OF assms(2), of length] by (simp add: uart1_elems_def)
  then have ne: "?r \<noteq> ?w" using i by simp
  have "x # xs = u1_buf q ! ?r # cnt_elems (u1_buf q) ?n (Suc ?r mod ?n) (ring_len ?n (Suc ?r mod ?n) ?w)"
    using assms(2) u1_len_store(4) [OF i(3,2) ne] cnt_elems_pop [of "u1_buf q" ?n ?r] i
    by (simp add: uart1_elems_def)
  then show ?thesis
    using i u1_unat_succ [OF i(3)] by (simp add: uart1_get_eq [OF assms(1)] uart1_inv_def uart1_elems_def)
qed

interpretation u1: lossy_ring uart1_inv uart1_elems UART1_RX_SIZE USART1_rx uart1_get tl
proof unfold_locales
  fix q x
  assume q: "uart1_inv q"
  show "length (uart1_elems q) < UART1_RX_SIZE"
    using q ring_len_lt by (simp add: uart1_inv_def uart1_elems_def)
  show "uart1_inv (USART1_rx q x)" using USART1_rx_step [OF q] by blast
  show "uart1_elems (USART1_rx q x) =
      (if Suc (length (uart1_elems q)) = UART1_RX_SIZE then tl (uart1_elems q @ [x]) else uart1_elems q @ [x])"
    using USART1_rx_step [OF q] by blast
  assume "uart1_elems q \<noteq> []"
  then obtain y ys where e: "uart1_elems q = y # ys" by (cases "uart1_elems q") auto
  show "uart1_inv (snd (uart1_get q))" "fst (uart1_get q) = hd (uart1_elems q)"
    "uart1_elems (snd (uart1_get q)) = tl (uart1_elems q)"
    using uart1_get_step [OF q e] e by simp_all
qed

section \<open>Properties\<close>

text \<open>
  a line the modem sends reaches the reader unchanged.  If the ring is empty and the bytes of
  a line (no CR, no LF, NUL allowed) followed by CR arrive through the receive interrupt, fewer
  than \<open>UART3_RX_SIZE\<close> in all, \<open>get_line_from_uart3\<close> returns exactly that line, and
  the bytes after the CR stay unread.
\<close>

theorem uart3_line_roundtrip:
  assumes "uart3_inv q" and "uart3_elems q = []"
    and "0x0d \<notin> set l" and "0x0a \<notin> set l" and "length l + 1 + length r < UART3_RX_SIZE"
  shows "fst (get_line_from_uart3 (foldl USART3_rx q (l @ 0x0d # r))) = l \<and>
    uart3_elems (snd (get_line_from_uart3 (foldl USART3_rx q (l @ 0x0d # r)))) = r"
  using u3.rx_all [OF assms(1), of "l @ 0x0d # r"] assms
    line3_loop_take_line [of "foldl USART3_rx q (l @ 0x0d # r)" "[]"]
  by (simp add: get_line_from_uart3_def take_line_append)

definition uart3_reset :: uart3_rx where
  "uart3_reset = \<lparr>u3_buf = replicate UART3_RX_SIZE 0, u3_wr_index = 0, u3_count = 0, u3_re_index = 0\<rparr>"

lemma uart3_reset_ring: "uart3_inv uart3_reset" "uart3_elems uart3_reset = []"
  by (simp_all add: uart3_inv_def uart3_elems_def uart3_reset_def UART3_RX_SIZE_def cnt_ring_def)

theorem uart3_line_roundtrip_witness:
  "fst (get_line_from_uart3 (foldl USART3_rx uart3_reset (str_bytes ''OK'' @ 0x0d # [0x0a]))) = str_bytes ''OK'' \<and>
    uart3_elems (snd (get_line_from_uart3 (foldl USART3_rx uart3_reset (str_bytes ''OK'' @ 0x0d # [0x0a])))) = [0x0a]"
  by (rule uart3_line_roundtrip [OF uart3_reset_ring])
    (simp_all add: str_bytes_def UART3_RX_SIZE_def)

text \<open>
  the UART3 ring survives any traffic.  After any sequence of received bytes the indices are
  in range and consistent with the counter, a line read from it fits the 1460-byte buffer of the
  callers with room for the terminating NUL, and it contains neither CR nor LF.
\<close>

theorem uart3_any_traffic_safe:
  assumes "uart3_inv q"
  shows "uart3_inv (snd (get_line_from_uart3 (foldl USART3_rx q bs))) \<and>
    length (fst (get_line_from_uart3 (foldl USART3_rx q bs))) + 1 \<le> UART3_RX_SIZE \<and>
    0x0d \<notin> set (fst (get_line_from_uart3 (foldl USART3_rx q bs))) \<and>
    0x0a \<notin> set (fst (get_line_from_uart3 (foldl USART3_rx q bs)))"
proof -
  have q: "uart3_inv (foldl USART3_rx q bs)" using assms by (rule u3.rx_all_invar)
  then show ?thesis
    using get_line_from_uart3_inv [OF q] get_line_from_uart3_length [OF q] line3_loop_take_line [OF q, of "[]"]
    by (auto simp: get_line_from_uart3_def dest: take_line_no_eol)
qed

theorem uart3_any_traffic_safe_witness:
  "uart3_inv (snd (get_line_from_uart3 (foldl USART3_rx uart3_reset [65, 0x0d, 66]))) \<and>
    length (fst (get_line_from_uart3 (foldl USART3_rx uart3_reset [65, 0x0d, 66]))) + 1 \<le> UART3_RX_SIZE \<and>
    0x0d \<notin> set (fst (get_line_from_uart3 (foldl USART3_rx uart3_reset [65, 0x0d, 66]))) \<and>
    0x0a \<notin> set (fst (get_line_from_uart3 (foldl USART3_rx uart3_reset [65, 0x0d, 66])))"
  by (rule uart3_any_traffic_safe [OF uart3_reset_ring(1)])

end
