(* ===== verification/Rs485.thy ===== *)
theory Rs485
  imports Uart
begin

text \<open>
  The RS-485 driver of \<open>Drivers/BSP/src/ibox_485.c\<close>: a UART4 receive ring with a counter of
  complete lines, and its line reader.
\<close>

section \<open>Data and operations\<close>

definition UART4_RX_SIZE :: nat where
  "UART4_RX_SIZE = 1024"

record uart4_rx =
  u4_buf :: bytes
  u4_wr_index :: u16
  u4_lines :: u16
  u4_count :: u16
  u4_re_index :: u16

definition uart4_rx_buf_clear :: "uart4_rx \<Rightarrow> uart4_rx" where
  "uart4_rx_buf_clear q =
     q\<lparr>u4_wr_index := 0, u4_lines := 0, u4_count := 0, u4_re_index := 0,
       u4_buf := replicate UART4_RX_SIZE 0\<rparr>"

definition UART4_rx :: "uart4_rx \<Rightarrow> u8 \<Rightarrow> uart4_rx" where
  "UART4_rx q d =
     (let q0 = (if d = 0x0d then q\<lparr>u4_lines := u4_lines q + 1\<rparr> else q);
          q1 = q0\<lparr>u4_buf := (u4_buf q0)[unat (u4_wr_index q0) := d], u4_wr_index := u4_wr_index q0 + 1\<rparr>;
          q2 = (if u4_wr_index q1 = of_nat UART4_RX_SIZE then q1\<lparr>u4_wr_index := 0\<rparr> else q1);
          q3 = q2\<lparr>u4_count := u4_count q2 + 1\<rparr>
      in if u4_count q3 = of_nat UART4_RX_SIZE then uart4_rx_buf_clear q3 else q3)"

definition UART4_IRQHandler :: "bool \<Rightarrow> u8 \<Rightarrow> uart4_rx \<Rightarrow> uart4_rx" where
  "UART4_IRQHandler rxne d q = (if rxne then UART4_rx q d else q)"

definition uart4_get :: "uart4_rx \<Rightarrow> u8 \<times> uart4_rx" where
  "uart4_get q =
     (let d = u4_buf q ! unat (u4_re_index q);
          q1 = q\<lparr>u4_re_index := u4_re_index q + 1\<rparr>;
          q2 = (if u4_re_index q1 = of_nat UART4_RX_SIZE then q1\<lparr>u4_re_index := 0\<rparr> else q1)
      in (d, q2\<lparr>u4_count := u4_count q2 - 1\<rparr>))"

definition get_char_form_uart4 :: "uart4_rx \<Rightarrow> (u8 \<times> uart4_rx) option" where
  "get_char_form_uart4 q = (if u4_count q = 0 then None else Some (uart4_get q))"

text \<open>
  \<open>get_line_from_uart4\<close>: its result, the bytes it stored and the ring afterwards.  When the
  ring runs dry before a CR it forgets the lines and returns 0, with the bytes already stored.
\<close>

function line4_loop :: "uart4_rx \<Rightarrow> bytes \<Rightarrow> nat \<times> bytes \<times> uart4_rx" where
  "line4_loop q out =
     (if u4_count q = 0 then (0, out, q\<lparr>u4_lines := 0\<rparr>)
      else (let (d, q') = uart4_get q
            in if d = 0x0a then line4_loop q' out
               else if d = 0x0d then (length out, out, q'\<lparr>u4_lines := u4_lines q' - 1\<rparr>)
               else line4_loop q' (out @ [d])))"
  by pat_completeness auto
termination
  by (relation "measure (\<lambda>(q, out). unat (u4_count q))")
    (auto simp: uart4_get_def Let_def unat_dec unat_gt_0 split: if_splits)

declare line4_loop.simps [simp del]

definition get_line_from_uart4 :: "uart4_rx \<Rightarrow> nat \<times> bytes \<times> uart4_rx" where
  "get_line_from_uart4 q = (if u4_lines q = 0 then (0, [], q) else line4_loop q [])"

text \<open>
  \<open>max485_send_data\<close>: the direction pin is raised, the bytes up to the NUL are written to
  the data register, and the pin is lowered after a delay.
\<close>

datatype rs485_action = Dir_output | Tx u8 | Delay_ms nat | Dir_input

fun max485_send_bytes :: "bytes \<Rightarrow> rs485_action list" where
  "max485_send_bytes [] = []"
| "max485_send_bytes (b # bs) = (if b = 0 then [] else Tx b # max485_send_bytes bs)"

definition max485_send_data :: "bytes \<Rightarrow> rs485_action list" where
  "max485_send_data d = [Dir_output] @ max485_send_bytes d @ [Delay_ms 1, Dir_input]"

section \<open>The ring\<close>

lemma UART4_RX_SIZE_lt: "UART4_RX_SIZE < 65536"
  by (simp add: UART4_RX_SIZE_def)

definition uart4_elems :: "uart4_rx \<Rightarrow> bytes" where
  "uart4_elems q = cnt_elems (u4_buf q) UART4_RX_SIZE (unat (u4_re_index q)) (unat (u4_count q))"

definition uart4_ring :: "uart4_rx \<Rightarrow> bool" where
  "uart4_ring q \<longleftrightarrow>
     cnt_ring UART4_RX_SIZE (u4_buf q) (u4_wr_index q) (u4_count q) (u4_re_index q)"

text \<open>The line counter is the number of unread carriage returns.\<close>

definition uart4_inv :: "uart4_rx \<Rightarrow> bool" where
  "uart4_inv q \<longleftrightarrow> uart4_ring q \<and> unat (u4_lines q) = count_list (uart4_elems q) 0x0d"

lemma uart4_clear [simp]: "uart4_inv (uart4_rx_buf_clear q)" "uart4_elems (uart4_rx_buf_clear q) = []"
  by (simp_all add: uart4_inv_def uart4_ring_def uart4_elems_def uart4_rx_buf_clear_def
      UART4_RX_SIZE_def cnt_ring_def)

lemma uart4_lines_upd [simp]:
  "uart4_ring (q\<lparr>u4_lines := l\<rparr>) = uart4_ring q"
  "uart4_elems (q\<lparr>u4_lines := l\<rparr>) = uart4_elems q"
  by (simp_all add: uart4_ring_def uart4_elems_def)

lemma uart4_elems_lt: "uart4_ring q \<Longrightarrow> length (uart4_elems q) < UART4_RX_SIZE"
  by (simp add: uart4_ring_def uart4_elems_def cnt_ring_def)

lemma UART4_rx_step:
  assumes "uart4_inv q"
  shows "uart4_inv (UART4_rx q d) \<and> uart4_elems (UART4_rx q d) =
    (if Suc (length (uart4_elems q)) = UART4_RX_SIZE then [] else uart4_elems q @ [d])"
proof -
  let ?n = UART4_RX_SIZE
  have r: "cnt_ring ?n (u4_buf q) (u4_wr_index q) (u4_count q) (u4_re_index q)"
    and ls: "unat (u4_lines q) = count_list (uart4_elems q) 0x0d"
    using assms by (simp_all add: uart4_inv_def uart4_ring_def)
  note st = cnt_ring_store(1) [OF r UART4_RX_SIZE_lt] cnt_ring_store(2) [OF r UART4_RX_SIZE_lt, of d]
  let ?l = "if d = 0x0d then u4_lines q + 1 else u4_lines q"
  let ?q = "q\<lparr>u4_buf := (u4_buf q)[unat (u4_wr_index q) := d], u4_lines := ?l,
    u4_wr_index := ring_succ ?n (u4_wr_index q), u4_count := u4_count q + 1\<rparr>"
  have e: "UART4_rx q d = (if u4_count q + 1 = of_nat ?n then uart4_rx_buf_clear ?q else ?q)"
    by (auto simp: UART4_rx_def Let_def uart4_rx_buf_clear_def ring_succ_def)
  have len: "length (uart4_elems q) = unat (u4_count q)" by (simp add: uart4_elems_def)
  have "unat (u4_lines q) \<le> length (uart4_elems q)" unfolding ls by (rule count_le_length)
  moreover have "length (uart4_elems q) < 1024"
    using assms uart4_elems_lt [of q] by (simp add: uart4_inv_def UART4_RX_SIZE_def)
  ultimately have "unat (u4_lines q + 1) = unat (u4_lines q) + 1"
    by (intro unat_inc_u16) linarith
  then have li: "unat ?l = unat (u4_lines q) + (if d = 0x0d then 1 else 0)" by simp
  show ?thesis
  proof (cases "Suc (unat (u4_count q)) = ?n")
    case True
    with st(1) show ?thesis by (simp add: e len)
  next
    case False
    with st have "uart4_ring ?q" and el: "uart4_elems ?q = uart4_elems q @ [d]"
      by (simp_all add: uart4_ring_def uart4_elems_def)
    moreover have "UART4_rx q d = ?q" using False st(1) by (simp add: e)
    ultimately show ?thesis using False li ls by (simp add: uart4_inv_def len)
  qed
qed

lemma uart4_get_step:
  assumes "uart4_ring q" "uart4_elems q = x # xs"
  shows "fst (uart4_get q) = x \<and> uart4_elems (snd (uart4_get q)) = xs \<and>
    uart4_ring (snd (uart4_get q)) \<and> u4_lines (snd (uart4_get q)) = u4_lines q"
proof -
  have r: "cnt_ring UART4_RX_SIZE (u4_buf q) (u4_wr_index q) (u4_count q) (u4_re_index q)"
    using assms by (simp add: uart4_ring_def)
  have "uart4_get q = (u4_buf q ! unat (u4_re_index q),
      q\<lparr>u4_re_index := ring_succ UART4_RX_SIZE (u4_re_index q), u4_count := u4_count q - 1\<rparr>)"
    by (auto simp: uart4_get_def Let_def ring_succ_def)
  with cnt_ring_fetch [OF r UART4_RX_SIZE_lt, of x xs] assms(2) show ?thesis
    by (simp add: uart4_ring_def uart4_elems_def)
qed

lemma UART4_rx_ring:
  assumes "uart4_ring q"
  shows "uart4_ring (UART4_rx q d) \<and> uart4_elems (UART4_rx q d) =
    (if Suc (length (uart4_elems q)) = UART4_RX_SIZE then [] else uart4_elems q @ [d])"
proof -
  \<comment> \<open>The line counter has no influence on the ring.\<close>
  let ?q = "q\<lparr>u4_lines := of_nat (count_list (uart4_elems q) 0x0d)\<rparr>"
  have "count_list (uart4_elems q) 0x0d < 65536"
    using le_less_trans [OF count_le_length uart4_elems_lt [OF assms]]
    by (rule less_trans) (simp add: UART4_RX_SIZE_def)
  then have "uart4_inv ?q"
    using assms by (simp add: uart4_inv_def uart4_ring_def uart4_elems_def)
  from UART4_rx_step [OF this, of d]
  have "uart4_ring (UART4_rx ?q d) \<and> uart4_elems (UART4_rx ?q d) =
    (if Suc (length (uart4_elems q)) = UART4_RX_SIZE then [] else uart4_elems q @ [d])"
    by (simp add: uart4_inv_def uart4_elems_def)
  moreover have "uart4_ring (UART4_rx (q\<lparr>u4_lines := l\<rparr>) d) = uart4_ring (UART4_rx q d) \<and>
      uart4_elems (UART4_rx (q\<lparr>u4_lines := l\<rparr>) d) = uart4_elems (UART4_rx q d)" for l
    by (simp add: UART4_rx_def Let_def uart4_rx_buf_clear_def uart4_ring_def uart4_elems_def)
  ultimately show ?thesis by simp
qed

interpretation u4: lossy_ring uart4_ring uart4_elems UART4_RX_SIZE UART4_rx uart4_get "\<lambda>_. []"
proof unfold_locales
  fix q x
  assume q: "uart4_ring q"
  show "length (uart4_elems q) < UART4_RX_SIZE" by (rule uart4_elems_lt [OF q])
  show "uart4_ring (UART4_rx q x)" using UART4_rx_ring [OF q] by blast
  show "uart4_elems (UART4_rx q x) =
      (if Suc (length (uart4_elems q)) = UART4_RX_SIZE then [] else uart4_elems q @ [x])"
    using UART4_rx_ring [OF q] by blast
  assume "uart4_elems q \<noteq> []"
  then obtain y ys where e: "uart4_elems q = y # ys" by (cases "uart4_elems q") auto
  show "uart4_ring (snd (uart4_get q))" "fst (uart4_get q) = hd (uart4_elems q)"
    "uart4_elems (snd (uart4_get q)) = tl (uart4_elems q)"
    using uart4_get_step [OF q e] e by simp_all
qed

section \<open>Lines\<close>

lemma uart4_rx_all_inv: "uart4_inv q \<Longrightarrow> uart4_inv (foldl UART4_rx q bs)"
  by (induction bs arbitrary: q) (simp_all add: UART4_rx_step)

text \<open>The loop with a complete line ahead of it; \<open>l\<close> is the counter it starts from.\<close>

lemma line4_loop_take_line:
  assumes "uart4_ring q" and "0x0d \<in> set (uart4_elems q)"
  shows "\<exists>q'. line4_loop q out =
      (length (out @ fst (take_line (uart4_elems q))), out @ fst (take_line (uart4_elems q)), q') \<and>
    uart4_ring q' \<and> uart4_elems q' = snd (take_line (uart4_elems q)) \<and> u4_lines q' = u4_lines q - 1"
  using assms
proof (induction q out rule: line4_loop.induct)
  case (1 q out)
  then obtain x xs where e: "uart4_elems q = x # xs" by (cases "uart4_elems q") auto
  then have c: "u4_count q \<noteq> 0"
    unfolding uart4_elems_def by (metis cnt_elems_0 list.distinct(1) unat_0)
  obtain q' where g: "uart4_get q = (x, q')"
    and q': "uart4_elems q' = xs" "uart4_ring q'" "u4_lines q' = u4_lines q"
    using uart4_get_step [OF "1.prems"(1) e] by (metis prod.collapse)
  note unf = line4_loop.simps [of q] c g e
  consider "x = 0x0a" | "x \<noteq> 0x0a" "x = 0x0d" | "x \<noteq> 0x0a" "x \<noteq> 0x0d" by blast
  then show ?case
  proof cases
    case 1
    with "1.prems" e q' have "0x0d \<in> set (uart4_elems q')" by auto
    with 1 "1.IH"(1) [OF c g [symmetric] refl] q' show ?thesis by (simp add: unf)
  next
    case 2
    with q' show ?thesis by (simp add: unf)
  next
    case 3
    with "1.prems" e q' have "0x0d \<in> set (uart4_elems q')" by auto
    with 3 "1.IH"(2) [OF c g [symmetric] refl] q' show ?thesis by (simp add: unf split_beta)
  qed
qed

lemma take_line_count_cr:
  "0x0d \<in> set bs \<Longrightarrow> Suc (count_list (snd (take_line bs)) 0x0d) = count_list bs 0x0d"
  by (induction bs) (auto simp: split_beta)

section \<open>Properties\<close>

text \<open>
  the line counter of the RS-485 driver is exact, so its reader never gives up on a line.
  After any received bytes the counter equals the number of unread carriage returns; when it is
  not zero \<open>get_line_from_uart4\<close> returns the complete next line and its length, and
  leaves the rest of the ring with an exact counter.
\<close>

theorem uart4_line_complete:
  assumes "uart4_inv q" and "u4_lines (foldl UART4_rx q bs) \<noteq> 0"
  shows "\<exists>q'. get_line_from_uart4 (foldl UART4_rx q bs) =
      (length (fst (take_line (uart4_elems (foldl UART4_rx q bs)))),
       fst (take_line (uart4_elems (foldl UART4_rx q bs))), q') \<and>
    uart4_inv q' \<and> uart4_elems q' = snd (take_line (uart4_elems (foldl UART4_rx q bs)))"
proof -
  let ?q = "foldl UART4_rx q bs"
  have i: "uart4_inv ?q" using assms(1) by (rule uart4_rx_all_inv)
  then have ls: "unat (u4_lines ?q) = count_list (uart4_elems ?q) 0x0d" and r: "uart4_ring ?q"
    by (simp_all add: uart4_inv_def)
  then have cr: "0x0d \<in> set (uart4_elems ?q)"
    using assms(2) by (metis count_notin unat_eq_zero)
  obtain q' where q': "line4_loop ?q [] = (length (fst (take_line (uart4_elems ?q))),
      fst (take_line (uart4_elems ?q)), q')" "uart4_ring q'"
    "uart4_elems q' = snd (take_line (uart4_elems ?q))" "u4_lines q' = u4_lines ?q - 1"
    using line4_loop_take_line [OF r cr, of "[]"] by auto
  have "uart4_inv q'"
    using q' ls take_line_count_cr [OF cr] assms(2) by (simp add: uart4_inv_def unat_dec)
  with q' assms(2) show ?thesis by (simp add: get_line_from_uart4_def)
qed

definition uart4_reset :: uart4_rx where
  "uart4_reset = \<lparr>u4_buf = replicate UART4_RX_SIZE 0, u4_wr_index = 0, u4_lines = 0, u4_count = 0,
     u4_re_index = 0\<rparr>"

lemma uart4_reset_inv: "uart4_inv uart4_reset" "uart4_elems uart4_reset = []"
  by (simp_all add: uart4_inv_def uart4_ring_def uart4_elems_def uart4_reset_def UART4_RX_SIZE_def
      cnt_ring_def)

theorem uart4_line_complete_witness:
  "\<exists>q'. get_line_from_uart4 (foldl UART4_rx uart4_reset [65, 0x0d]) =
      (length (fst (take_line (uart4_elems (foldl UART4_rx uart4_reset [65, 0x0d])))),
       fst (take_line (uart4_elems (foldl UART4_rx uart4_reset [65, 0x0d]))), q') \<and>
    uart4_inv q' \<and> uart4_elems q' = snd (take_line (uart4_elems (foldl UART4_rx uart4_reset [65, 0x0d])))"
proof (rule uart4_line_complete [OF uart4_reset_inv(1)])
  have i: "uart4_inv (foldl UART4_rx uart4_reset [65, 0x0d])"
    by (rule uart4_rx_all_inv [OF uart4_reset_inv(1)])
  have "uart4_elems (foldl UART4_rx uart4_reset [65, 0x0d]) = [65, 0x0d]"
    using u4.rx_all [of uart4_reset "[65, 0x0d]"] uart4_reset_inv
    by (simp add: uart4_inv_def UART4_RX_SIZE_def)
  with i have "unat (u4_lines (foldl UART4_rx uart4_reset [65, 0x0d])) = 1"
    by (simp add: uart4_inv_def)
  then show "u4_lines (foldl UART4_rx uart4_reset [65, 0x0d]) \<noteq> 0"
    by (metis unat_0 zero_neq_one)
qed

end
