(* ===== verification/Uart_Interrupts.thy ===== *)
theory Uart_Interrupts
  imports Rs485
begin

text \<open>
  The receive rings with the interrupt between any two memory accesses of the reader.  The other theories take a call of the reader as
  one step; here \<open>get_char_form_uart3\<close> is run access by access, and the interrupt handler, which nothing interrupts, comes in
  between wherever it is not masked.  Without an overflow of the ring every byte is delivered once and in order; an overflow inside the
  call leaves a wrong count.  The line counter of the RS-485 driver is decremented without masking the interrupt and can lose a line.
\<close>

section \<open>The reader of UART3\<close>

text \<open>
  Where the reader stands: at the test of the count, before the load of the byte, at the increment of the index (load, store, the
  comparison with the end), at the switching off of the interrupt, at the decrement of the count (load, store) and at the switching on.
  A value that has been loaded and not yet stored is an argument.
\<close>

datatype reader_at = At_test | At_fetch | At_load_index | At_store_index u16 | At_wrap u16 | At_mask | At_load_count | At_store_count u16
  | At_unmask

text \<open>\<open>sent\<close> are the bytes the interrupts have stored, \<open>got\<close> those the reader has returned; \<open>full\<close> records that the ring has overflowed.\<close>

record reader =
  ring :: uart3_rx
  pc :: reader_at
  rd_data :: u8
  masked :: bool
  sent :: bytes
  got :: bytes
  full :: bool

definition overflows :: "uart3_rx \<Rightarrow> bool" where
  "overflows q \<longleftrightarrow> u3_count q + 1 = of_nat UART3_RX_SIZE"

text \<open>The next access of the reader; at the test it stays while there is no byte.\<close>

definition reader_step :: "reader \<Rightarrow> reader" where
  "reader_step s =
     (case pc s of
        At_test \<Rightarrow> if u3_count (ring s) = 0 then s else s\<lparr>pc := At_fetch\<rparr>
      | At_fetch \<Rightarrow> s\<lparr>rd_data := u3_buf (ring s) ! unat (u3_re_index (ring s)), pc := At_load_index\<rparr>
      | At_load_index \<Rightarrow> s\<lparr>pc := At_store_index (u3_re_index (ring s) + 1)\<rparr>
      | At_store_index v \<Rightarrow> s\<lparr>ring := (ring s)\<lparr>u3_re_index := v\<rparr>, pc := At_wrap v\<rparr>
      | At_wrap v \<Rightarrow> s\<lparr>ring := if v = of_nat UART3_RX_SIZE then (ring s)\<lparr>u3_re_index := 0\<rparr> else ring s, pc := At_mask\<rparr>
      | At_mask \<Rightarrow> s\<lparr>masked := True, pc := At_load_count\<rparr>
      | At_load_count \<Rightarrow> s\<lparr>pc := At_store_count (u3_count (ring s) - 1)\<rparr>
      | At_store_count v \<Rightarrow> s\<lparr>ring := (ring s)\<lparr>u3_count := v\<rparr>, pc := At_unmask\<rparr>
      | At_unmask \<Rightarrow> s\<lparr>masked := False, got := got s @ [rd_data s], pc := At_test\<rparr>)"

definition interrupt :: "u8 \<Rightarrow> reader \<Rightarrow> reader" where
  "interrupt d s = s\<lparr>ring := USART3_rx (ring s) d, sent := sent s @ [d], full := full s \<or> overflows (ring s)\<rparr>"

inductive interleaved :: "reader \<Rightarrow> reader \<Rightarrow> bool" for s0 where
  start: "interleaved s0 s0"
| access: "interleaved s0 s \<Longrightarrow> interleaved s0 (reader_step s)"
| irq: "interleaved s0 s \<Longrightarrow> \<not> masked s \<Longrightarrow> interleaved s0 (interrupt d s)"

text \<open>Alone, the accesses of a call are the call.\<close>

lemma reader_alone:
  assumes "pc s = At_test" and "u3_count (ring s) \<noteq> 0" and "\<not> masked s"
  shows "(reader_step ^^ 9) s = s\<lparr>ring := snd (uart3_get (ring s)), rd_data := fst (uart3_get (ring s)), got := got s @ [fst (uart3_get (ring s))]\<rparr>"
  using assms by (simp add: numeral_eq_Suc reader_step_def uart3_get_def Let_def)

lemma rest_of_call:
  assumes "pc s = At_fetch" and "\<not> masked s"
  shows "(reader_step ^^ 8) s = s\<lparr>pc := At_test, ring := snd (uart3_get (ring s)), rd_data := fst (uart3_get (ring s)),
    got := got s @ [fst (uart3_get (ring s))]\<rparr>"
  using assms by (simp add: numeral_eq_Suc reader_step_def uart3_get_def Let_def)

section \<open>The invariant\<close>

definition fresh :: "uart3_rx \<Rightarrow> reader" where
  "fresh q = \<lparr>ring = q, pc = At_test, rd_data = 0, masked = False, sent = [], got = [], full = False\<rparr>"

text \<open>The ring as it was before the call, with the old read index and count.\<close>

definition before :: "u16 \<Rightarrow> u16 \<Rightarrow> uart3_rx \<Rightarrow> uart3_rx" where
  "before re cnt q = q\<lparr>u3_re_index := re, u3_count := cnt\<rparr>"

definition at_ok :: "u16 \<Rightarrow> u16 \<Rightarrow> reader \<Rightarrow> bool" where
  "at_ok re cnt s \<longleftrightarrow>
     (let i = u3_re_index (ring s); n = u3_count (ring s); next = ring_succ UART3_RX_SIZE re
      in case pc s of
           At_test \<Rightarrow> i = re \<and> n = cnt
         | At_fetch \<Rightarrow> i = re \<and> n = cnt
         | At_load_index \<Rightarrow> i = re \<and> n = cnt
         | At_store_index v \<Rightarrow> i = re \<and> n = cnt \<and> v = re + 1
         | At_wrap v \<Rightarrow> i = re + 1 \<and> n = cnt \<and> v = re + 1
         | At_mask \<Rightarrow> i = next \<and> n = cnt
         | At_load_count \<Rightarrow> i = next \<and> n = cnt
         | At_store_count v \<Rightarrow> i = next \<and> n = cnt \<and> v = cnt - 1
         | At_unmask \<Rightarrow> i = next \<and> n = cnt - 1)"

definition taken :: "reader_at \<Rightarrow> bool" where
  "taken p \<longleftrightarrow> p \<noteq> At_test \<and> p \<noteq> At_fetch"

definition reader_inv :: "reader \<Rightarrow> bool" where
  "reader_inv s \<longleftrightarrow>
     (masked s \<longleftrightarrow> pc s = At_load_count \<or> (\<exists>v. pc s = At_store_count v) \<or> pc s = At_unmask) \<and>
     (\<exists>re cnt. at_ok re cnt s \<and> uart3_inv (before re cnt (ring s)) \<and> sent s = got s @ uart3_elems (before re cnt (ring s)) \<and>
       (pc s \<noteq> At_test \<longrightarrow> cnt \<noteq> 0) \<and> (taken (pc s) \<longrightarrow> rd_data s = hd (uart3_elems (before re cnt (ring s)))))"

lemma before_sel [simp]:
  "u3_buf (before re cnt q) = u3_buf q" "u3_re_index (before re cnt q) = re" "u3_count (before re cnt q) = cnt"
  "u3_wr_index (before re cnt q) = u3_wr_index q" "before re cnt (q\<lparr>u3_re_index := v\<rparr>) = before re cnt q"
  "before re cnt (q\<lparr>u3_count := v\<rparr>) = before re cnt q"
  by (simp_all add: before_def)

lemma before_id: "u3_re_index q = re \<Longrightarrow> u3_count q = cnt \<Longrightarrow> before re cnt q = q"
  by (auto simp: before_def)

lemma length_before: "length (uart3_elems (before re cnt q)) = unat cnt"
  by (simp add: uart3_elems_def)

lemma before_get:
  assumes "uart3_inv (before re cnt q)" and "cnt \<noteq> 0"
  shows "uart3_inv (before (ring_succ UART3_RX_SIZE re) (cnt - 1) q)"
    and "uart3_elems (before re cnt q) = u3_buf q ! unat re # uart3_elems (before (ring_succ UART3_RX_SIZE re) (cnt - 1) q)"
proof -
  have "uart3_elems (before re cnt q) \<noteq> []" using length_before [of re cnt q] assms(2) by (auto simp: unat_eq_0)
  then obtain x xs where e: "uart3_elems (before re cnt q) = x # xs" by (cases "uart3_elems (before re cnt q)") auto
  have "uart3_get (before re cnt q) = (u3_buf q ! unat re, before (ring_succ UART3_RX_SIZE re) (cnt - 1) q)"
    by (auto simp: uart3_get_def Let_def ring_succ_def before_def)
  with uart3_get_step [OF assms(1) e] e
  show "uart3_inv (before (ring_succ UART3_RX_SIZE re) (cnt - 1) q)"
    and "uart3_elems (before re cnt q) = u3_buf q ! unat re # uart3_elems (before (ring_succ UART3_RX_SIZE re) (cnt - 1) q)" by simp_all
qed

lemma before_rx:
  assumes "uart3_inv (before re cnt q)" and "u3_count q = cnt" and "\<not> overflows q"
  shows "uart3_inv (before re (cnt + 1) (USART3_rx q d))"
    and "uart3_elems (before re (cnt + 1) (USART3_rx q d)) = uart3_elems (before re cnt q) @ [d]"
    and "u3_re_index (USART3_rx q d) = u3_re_index q" and "u3_count (USART3_rx q d) = cnt + 1"
proof -
  have n: "cnt + 1 \<noteq> of_nat UART3_RX_SIZE" using assms(2,3) by (simp add: overflows_def)
  have b: "USART3_rx (before re cnt q) d = before re (cnt + 1) (USART3_rx q d)"
    using n assms(2) by (simp add: USART3_rx_def before_def Let_def)
  have "unat cnt < UART3_RX_SIZE" using assms(1) by (simp add: uart3_inv_def cnt_ring_def)
  then have "Suc (unat cnt) \<noteq> UART3_RX_SIZE"
    using n by (auto simp: word_unat_eq_iff UART3_RX_SIZE_def unat_word_ariths)
  then show "uart3_inv (before re (cnt + 1) (USART3_rx q d))"
    and "uart3_elems (before re (cnt + 1) (USART3_rx q d)) = uart3_elems (before re cnt q) @ [d]"
    using USART3_rx_step [OF assms(1), of d] unfolding b length_before by simp_all
  show "u3_re_index (USART3_rx q d) = u3_re_index q" "u3_count (USART3_rx q d) = cnt + 1"
    using n assms(2) by (simp_all add: USART3_rx_def Let_def)
qed

lemma interrupt_inv:
  assumes "reader_inv s" and "\<not> masked s" and "\<not> full (interrupt d s)"
  shows "reader_inv (interrupt d s)"
proof -
  obtain re cnt where r: "at_ok re cnt s" "uart3_inv (before re cnt (ring s))" "sent s = got s @ uart3_elems (before re cnt (ring s))"
    "pc s \<noteq> At_test \<longrightarrow> cnt \<noteq> 0" "taken (pc s) \<longrightarrow> rd_data s = hd (uart3_elems (before re cnt (ring s)))"
    using assms(1) by (auto simp: reader_inv_def)
  have n: "u3_count (ring s) = cnt" using r(1) assms(1,2) by (auto simp: at_ok_def reader_inv_def Let_def split: reader_at.splits)
  note rx = before_rx [OF r(2) n, of d]
  have o: "\<not> overflows (ring s)" using assms(3) by (simp add: interrupt_def)
  have ne: "taken (pc s) \<longrightarrow> uart3_elems (before re cnt (ring s)) \<noteq> []"
    using r(4) length_before [of re cnt "ring s"] by (auto simp: taken_def unat_eq_0)
  have "cnt + 1 \<noteq> 0"
  proof -
    have "unat cnt < UART3_RX_SIZE" using r(2) by (simp add: uart3_inv_def cnt_ring_def)
    then show ?thesis by (auto simp: word_unat_eq_iff UART3_RX_SIZE_def unat_word_ariths)
  qed
  moreover have "at_ok re (cnt + 1) (interrupt d s)"
    using r(1) n rx(3,4) [OF o] assms(1,2) by (auto simp: at_ok_def interrupt_def Let_def reader_inv_def split: reader_at.splits)
  moreover have "taken (pc s) \<longrightarrow> rd_data s = hd (uart3_elems (before re cnt (ring s)) @ [d])" using r(5) ne by simp
  moreover have "masked (interrupt d s) = masked s" "pc (interrupt d s) = pc s" "got (interrupt d s) = got s"
    "sent (interrupt d s) = sent s @ [d]" "ring (interrupt d s) = USART3_rx (ring s) d" "rd_data (interrupt d s) = rd_data s"
    by (simp_all add: interrupt_def)
  ultimately show ?thesis
    using assms(1) r(3) rx(1,2) [OF o] unfolding reader_inv_def
    by (intro conjI exI [of _ re] exI [of _ "cnt + 1"]) simp_all
qed

lemma access_inv:
  assumes "reader_inv s"
  shows "reader_inv (reader_step s)"
proof -
  obtain re cnt where r: "at_ok re cnt s" "uart3_inv (before re cnt (ring s))" "sent s = got s @ uart3_elems (before re cnt (ring s))"
    "pc s \<noteq> At_test \<longrightarrow> cnt \<noteq> 0" "taken (pc s) \<longrightarrow> rd_data s = hd (uart3_elems (before re cnt (ring s)))"
    and m: "masked s \<longleftrightarrow> pc s = At_load_count \<or> (\<exists>v. pc s = At_store_count v) \<or> pc s = At_unmask"
    using assms by (auto simp: reader_inv_def)
  have keep: "reader_inv t" if "masked t \<longleftrightarrow> pc t = At_load_count \<or> (\<exists>v. pc t = At_store_count v) \<or> pc t = At_unmask"
    "at_ok re cnt t" "before re cnt (ring t) = before re cnt (ring s)" "sent t = sent s" "got t = got s"
    "pc t \<noteq> At_test \<longrightarrow> cnt \<noteq> 0" "taken (pc t) \<longrightarrow> rd_data t = hd (uart3_elems (before re cnt (ring s)))" for t
    using that r(2,3) unfolding reader_inv_def by (intro conjI exI [of _ re] exI [of _ cnt]) auto
  show ?thesis
  proof (cases "pc s")
    case At_unmask
    let ?re = "ring_succ UART3_RX_SIZE re" and ?cnt = "cnt - 1"
    have c: "cnt \<noteq> 0" using r(4) At_unmask by simp
    note g = before_get [OF r(2) c]
    have "at_ok ?re ?cnt (reader_step s)" using r(1) At_unmask by (simp add: at_ok_def reader_step_def Let_def)
    moreover have "rd_data s = u3_buf (ring s) ! unat re" using r(5) At_unmask g(2) by (simp add: taken_def)
    ultimately show ?thesis using g r(3) At_unmask unfolding reader_inv_def
      by (intro conjI exI [of _ ?re] exI [of _ ?cnt]) (auto simp: reader_step_def taken_def)
  next
    case At_fetch
    have c: "cnt \<noteq> 0" using r(4) At_fetch by simp
    show ?thesis using r(1) At_fetch m c before_get(2) [OF r(2) c]
      by (intro keep) (auto simp: reader_step_def at_ok_def Let_def)
  qed (use r m in \<open>auto intro!: keep simp: reader_step_def at_ok_def Let_def taken_def ring_succ_def split: if_splits\<close>)
qed

section \<open>Every byte once and in order\<close>

lemma full_mono: "full (reader_step s) = full s" "\<not> full (interrupt d s) \<Longrightarrow> \<not> full s"
  by (auto simp: reader_step_def interrupt_def split: reader_at.splits)

lemma interleaved_inv:
  assumes "interleaved s0 s" and "reader_inv s0" and "\<not> full s"
  shows "reader_inv s"
  using assms(1,3)
proof induction
  case (irq s d)
  then show ?case using interrupt_inv full_mono(2) by blast
qed (use assms(2) access_inv full_mono(1) in auto)

lemma fresh_inv: "uart3_inv q \<Longrightarrow> uart3_elems q = [] \<Longrightarrow> reader_inv (fresh q)"
  unfolding reader_inv_def
  by (intro conjI exI [of _ "u3_re_index q"] exI [of _ "u3_count q"]) (simp_all add: fresh_def at_ok_def before_id taken_def)

lemma at_test:
  assumes "reader_inv s" and "pc s = At_test"
  shows "uart3_inv (ring s)" and "sent s = got s @ uart3_elems (ring s)" and "\<not> masked s"
  using assms by (auto simp: reader_inv_def at_ok_def before_id)

text \<open>The reader alone gets from everywhere back to the test.\<close>

fun accesses_left :: "reader_at \<Rightarrow> nat" where
  "accesses_left At_test = 0"
| "accesses_left At_fetch = 8"
| "accesses_left At_load_index = 7"
| "accesses_left (At_store_index v) = 6"
| "accesses_left (At_wrap v) = 5"
| "accesses_left At_mask = 4"
| "accesses_left At_load_count = 3"
| "accesses_left (At_store_count v) = 2"
| "accesses_left At_unmask = 1"

lemma back_to_test:
  "\<exists>k. pc ((reader_step ^^ k) s) = At_test \<and> sent ((reader_step ^^ k) s) = sent s \<and> (reader_inv s \<longrightarrow> reader_inv ((reader_step ^^ k) s))"
proof (induction "accesses_left (pc s)" arbitrary: s)
  case 0
  then have "pc s = At_test" by (cases "pc s") auto
  then show ?case by (intro exI [of _ 0]) simp
next
  case (Suc n)
  then have "n = accesses_left (pc (reader_step s))" "sent (reader_step s) = sent s"
    by (cases "pc s"; simp add: reader_step_def)+
  from Suc.hyps(1) [OF this(1)] this(2) access_inv [of s]
  obtain k where "pc ((reader_step ^^ k) (reader_step s)) = At_test" "sent ((reader_step ^^ k) (reader_step s)) = sent s"
    "reader_inv s \<longrightarrow> reader_inv ((reader_step ^^ k) (reader_step s))" by auto
  then show ?case by (intro exI [of _ "Suc k"]) (simp add: funpow_swap1)
qed

lemma reads_all:
  assumes "reader_inv s" and "pc s = At_test"
  shows "\<exists>k. got ((reader_step ^^ k) s) = sent s"
  using assms
proof (induction "uart3_elems (ring s)" arbitrary: s)
  case Nil
  then show ?case using at_test(2) [OF Nil(2,3)] by (intro exI [of _ 0]) simp
next
  case (Cons x xs)
  let ?t = "(reader_step ^^ 9) s"
  note t = at_test [OF Cons.prems]
  have "u3_count (ring s) \<noteq> 0" using Cons.hyps(2) by (auto simp: uart3_elems_def)
  note a = reader_alone [OF Cons.prems(2) this t(3)]
  note g = uart3_get_step [OF t(1), of x xs]
  have "xs = uart3_elems (ring ?t)" "pc ?t = At_test" "sent ?t = sent s" using g Cons.hyps(2) Cons.prems(2) unfolding a by simp_all
  moreover have "reader_inv ((reader_step ^^ n) s)" for n using Cons.prems(1) access_inv by (induction n) auto
  ultimately obtain k where "got ((reader_step ^^ k) ?t) = sent s" using Cons.hyps(1) [of ?t] by metis
  then show ?case by (intro exI [of _ "k + 9"]) (simp add: funpow_add)
qed

text \<open>
  C36: whatever the interrupt does between the accesses of the reader, as long as the ring has not overflowed the bytes returned are the
  first of those received, in their order and each once; between two calls the rest is what the ring holds; and the reader left alone
  returns all of it.
\<close>

theorem uart3_reader_interleaved:
  assumes "interleaved (fresh q) s" and "uart3_inv q" and "uart3_elems q = []" and "\<not> full s"
  shows "(\<exists>rest. sent s = got s @ rest \<and> (pc s = At_test \<longrightarrow> uart3_inv (ring s) \<and> rest = uart3_elems (ring s))) \<and>
    (\<exists>k. got ((reader_step ^^ k) s) = sent s)"
proof -
  have i: "reader_inv s" using interleaved_inv [OF assms(1) fresh_inv [OF assms(2,3)] assms(4)] .
  obtain j where j: "pc ((reader_step ^^ j) s) = At_test" "sent ((reader_step ^^ j) s) = sent s" "reader_inv ((reader_step ^^ j) s)"
    using back_to_test [of s] i by blast
  from reads_all [OF j(3,1)] j(2) obtain k where "got ((reader_step ^^ (k + j)) s) = sent s" by (auto simp: funpow_add)
  moreover have "\<exists>rest. sent s = got s @ rest \<and> (pc s = At_test \<longrightarrow> uart3_inv (ring s) \<and> rest = uart3_elems (ring s))"
    using i at_test [OF i] by (cases "pc s = At_test") (auto simp: reader_inv_def)
  ultimately show ?thesis by blast
qed

section \<open>An overflow inside a call\<close>

lemma interleaved_accesses: "interleaved s0 s \<Longrightarrow> interleaved s0 ((reader_step ^^ k) s)"
  by (induction k) (auto intro: interleaved.access)

lemma interleaved_irqs:
  "interleaved s0 s \<Longrightarrow> \<not> masked s \<Longrightarrow> interleaved s0 (fold interrupt ds s)"
proof (induction ds arbitrary: s)
  case (Cons d ds)
  have "\<not> masked (interrupt d s)" using Cons.prems(2) by (simp add: interrupt_def)
  then show ?case using Cons.IH [of "interrupt d s"] Cons.prems interleaved.irq by simp
qed simp

lemma irqs_sel:
  "pc (fold interrupt ds s) = pc s" "masked (fold interrupt ds s) = masked s" "ring (fold interrupt ds s) = fold (\<lambda>d q. USART3_rx q d) ds (ring s)"
  by (induction ds arbitrary: s) (simp_all add: interrupt_def)

lemma ring_fills:
  "uart3_inv q \<Longrightarrow> length (uart3_elems q) + length ds < UART3_RX_SIZE \<Longrightarrow>
     uart3_inv (fold (\<lambda>d q. USART3_rx q d) ds q) \<and> uart3_elems (fold (\<lambda>d q. USART3_rx q d) ds q) = uart3_elems q @ ds"
proof (induction ds arbitrary: q)
  case (Cons d ds)
  from Cons.IH [of "USART3_rx q d"] USART3_rx_step [OF Cons.prems(1), of d] Cons.prems(2) show ?case by simp
qed simp

text \<open>A count beyond the bytes there are: the line reader takes a zero for each.\<close>

lemma line3_loop_zeros:
  assumes "u3_buf q = replicate UART3_RX_SIZE 0" and "unat (u3_re_index q) < UART3_RX_SIZE"
  shows "fst (line3_loop q out) = out @ replicate (unat (u3_count q)) 0"
  using assms
proof (induction "unat (u3_count q)" arbitrary: q out)
  case 0
  then show ?case by (simp add: line3_loop.simps [of q] unat_eq_0)
next
  case (Suc n)
  have c: "u3_count q \<noteq> 0" using Suc.hyps(2) by auto
  obtain p where g: "uart3_get q = (0, p)" "u3_buf p = u3_buf q" "u3_count p = u3_count q - 1"
    "u3_re_index p = ring_succ UART3_RX_SIZE (u3_re_index q)"
    using Suc.prems by (simp add: uart3_get_def Let_def ring_succ_def)
  have n: "n = unat (u3_count p)" using Suc.hyps(2) c by (simp add: g(3) unat_dec)
  have "unat (u3_re_index p) < UART3_RX_SIZE"
    using unat_ring_succ [of "u3_re_index q" UART3_RX_SIZE] Suc.prems(2) by (simp add: g(4) UART3_RX_SIZE_def)
  from Suc.hyps(1) [OF n _ this, of "out @ [0]"] g(2) Suc.prems(1)
  have "fst (line3_loop p (out @ [0])) = (out @ [0]) @ replicate n 0" using n by simp
  moreover have "line3_loop q out = line3_loop p (out @ [0])"
    using c by (subst line3_loop.simps) (simp add: g(1))
  ultimately show ?case by (simp flip: Suc.hyps(2))
qed

text \<open>
  C37: an overflow of the ring between the test of the count and its decrement breaks the ring: the handler clears the count, the reader
  decrements it to 65535, and the next line that is read is 65535 bytes long, more than the array of \<open>UART3_RX_SIZE\<close> bytes it is
  stored to holds.
\<close>

theorem uart3_overflow_race:
  assumes "uart3_inv q" and "uart3_elems q = []" and "length ds = UART3_RX_SIZE - 1"
  shows "\<exists>s. interleaved (fresh q) s \<and> pc s = At_test \<and> sent s = ds @ [d] \<and> u3_count (ring s) = 65535 \<and>
    length (fst (get_line_from_uart3 (ring s))) = 65535 \<and> UART3_RX_SIZE < 65535"
proof -
  let ?s1 = "fold interrupt ds (fresh q)" let ?s2 = "reader_step ?s1" let ?s3 = "interrupt d ?s2" let ?s4 = "(reader_step ^^ 8) ?s3"
  have f: "pc (fresh q) = At_test" "\<not> masked (fresh q)" "ring (fresh q) = q" "sent (fresh q) = []" by (simp_all add: fresh_def)
  have s1: "interleaved (fresh q) ?s1" using interleaved_irqs [OF interleaved.start] f(2) by blast
  have q1: "uart3_inv (ring ?s1)" "uart3_elems (ring ?s1) = ds"
    using ring_fills [OF assms(1), of ds] assms(2,3) f(3) by (simp_all add: irqs_sel UART3_RX_SIZE_def)
  have n: "unat (u3_count (ring ?s1)) = 1459"
    using q1(2) assms(3) by (auto simp: uart3_elems_def UART3_RX_SIZE_def dest: arg_cong [of _ _ length])
  then have "u3_count (ring ?s1) = 1459" by (simp add: word_unat_eq_iff)
  then have c: "overflows (ring ?s1)" "u3_count (ring ?s1) \<noteq> 0" by (simp_all add: overflows_def UART3_RX_SIZE_def)
  have snt: "sent (fold interrupt xs s) = sent s @ xs" for xs s by (induction xs arbitrary: s) (simp_all add: interrupt_def)
  have s2: "?s2 = ?s1\<lparr>pc := At_fetch\<rparr>" using c(2) f(1) by (simp add: reader_step_def irqs_sel)
  have clear: "USART3_rx (ring ?s1) d = uart3_rx_buf_clear (ring ?s1)"
    using c(1) by (simp add: USART3_rx_def overflows_def uart3_rx_buf_clear_def Let_def)
  have s3: "ring ?s3 = uart3_rx_buf_clear (ring ?s1)" "pc ?s3 = At_fetch" "\<not> masked ?s3" "sent ?s3 = ds @ [d]"
    using clear f(2,4) by (simp_all add: s2 interrupt_def irqs_sel snt)
  have "\<not> masked ?s2" using f(2) by (simp add: s2 irqs_sel)
  then have "interleaved (fresh q) ?s3" by (rule interleaved.irq [OF interleaved.access [OF s1]])
  then have r: "interleaved (fresh q) ?s4" by (rule interleaved_accesses)
  have size: "(1 :: u16) \<noteq> of_nat UART3_RX_SIZE" "1 < UART3_RX_SIZE" "UART3_RX_SIZE < 65535" by (simp_all add: UART3_RX_SIZE_def)
  have s4: "pc ?s4 = At_test" "sent ?s4 = ds @ [d]" "ring ?s4 = (uart3_rx_buf_clear (ring ?s1))\<lparr>u3_re_index := 1, u3_count := 65535\<rparr>"
    using size(1) s3 by (simp_all only: rest_of_call [OF s3(2,3)]) (simp_all add: uart3_get_def uart3_rx_buf_clear_def Let_def)
  have "fst (get_line_from_uart3 (ring ?s4)) = replicate (unat (65535 :: u16)) 0"
    using line3_loop_zeros [of "ring ?s4" "[]"] s4(3) size(2) by (simp add: get_line_from_uart3_def uart3_rx_buf_clear_def)
  then have "length (fst (get_line_from_uart3 (ring ?s4))) = 65535" by simp
  with r s4 size(3) show ?thesis by (intro exI [of _ ?s4]) simp
qed

theorem uart3_reader_interleaved_witness:
  "\<exists>k. got ((reader_step ^^ k) (interrupt 66 (reader_step (reader_step (interrupt 65 (fresh uart3_reset)))))) = [65, 66]"
proof -
  let ?s = "interrupt 66 (reader_step (reader_step (interrupt 65 (fresh uart3_reset))))"
  have m: "\<not> masked (fresh uart3_reset)" "\<not> masked (interrupt 65 (fresh uart3_reset))" "\<not> full (fresh uart3_reset)"
    by (simp_all add: fresh_def interrupt_def)
  have "\<not> masked (reader_step (reader_step (interrupt 65 (fresh uart3_reset))))"
    by (simp add: fresh_def interrupt_def reader_step_def)
  then have r: "interleaved (fresh uart3_reset) ?s" using m by (intro interleaved.intros)
  have "u3_count uart3_reset = 0" "of_nat UART3_RX_SIZE = (1460 :: u16)" by (simp_all add: uart3_reset_def UART3_RX_SIZE_def)
  then have c: "\<not> overflows uart3_reset" "\<not> overflows (USART3_rx uart3_reset 65)"
    by (simp_all add: overflows_def USART3_rx_def Let_def)
  have s: "ring (reader_step (reader_step (interrupt 65 (fresh uart3_reset)))) = USART3_rx uart3_reset 65"
    "full (reader_step (reader_step (interrupt 65 (fresh uart3_reset)))) = overflows uart3_reset" "sent ?s = [65, 66]"
    by (simp_all add: fresh_def interrupt_def reader_step_def)
  have "\<not> full ?s" using c s(1,2) unfolding interrupt_def [of 66] by simp
  from uart3_reader_interleaved [OF r _ _ this] uart3_reset_ring s(3) show ?thesis by auto
qed

theorem uart3_overflow_race_witness:
  "\<exists>s. interleaved (fresh uart3_reset) s \<and> pc s = At_test \<and> u3_count (ring s) = 65535 \<and>
    length (fst (get_line_from_uart3 (ring s))) = 65535"
  using uart3_overflow_race [of uart3_reset "replicate (UART3_RX_SIZE - 1) 65"] uart3_reset_ring by auto

section \<open>The line counter of the RS-485 driver\<close>

text \<open>
  The line reader of UART4: outside a call, in the loop, and at the decrement of the line counter (load, store).  The bytes are fetched
  as in the other theories; the decrement is done with the interrupt on.
\<close>

datatype line_at = Outside | In_loop | At_load_lines | At_store_lines u16

record line_reader =
  lr_ring :: uart4_rx
  lr_at :: line_at
  lr_line :: bytes

definition line_step :: "line_reader \<Rightarrow> line_reader" where
  "line_step s =
     (case lr_at s of
        Outside \<Rightarrow> if u4_lines (lr_ring s) = 0 then s else s\<lparr>lr_at := In_loop, lr_line := []\<rparr>
      | In_loop \<Rightarrow>
          if u4_count (lr_ring s) = 0 then s\<lparr>lr_ring := (lr_ring s)\<lparr>u4_lines := 0\<rparr>, lr_at := Outside\<rparr>
          else let (d, q) = uart4_get (lr_ring s)
               in if d = 0x0a then s\<lparr>lr_ring := q\<rparr>
                  else if d = 0x0d then s\<lparr>lr_ring := q, lr_at := At_load_lines\<rparr>
                  else s\<lparr>lr_ring := q, lr_line := lr_line s @ [d]\<rparr>
      | At_load_lines \<Rightarrow> s\<lparr>lr_at := At_store_lines (u4_lines (lr_ring s) - 1)\<rparr>
      | At_store_lines v \<Rightarrow> s\<lparr>lr_ring := (lr_ring s)\<lparr>u4_lines := v\<rparr>, lr_at := Outside\<rparr>)"

inductive line_run :: "line_reader \<Rightarrow> line_reader \<Rightarrow> bool" for s0 where
  start: "line_run s0 s0"
| access: "line_run s0 s \<Longrightarrow> line_run s0 (line_step s)"
| irq: "line_run s0 s \<Longrightarrow> line_run s0 (s\<lparr>lr_ring := UART4_rx (lr_ring s) d\<rparr>)"

text \<open>Alone, the steps of a call are the call.\<close>

lemma line_alone:
  assumes "lr_at s = In_loop" and "lr_ring s = q" and "lr_line s = out"
  shows "\<exists>k. (line_step ^^ k) s =
    s\<lparr>lr_ring := snd (snd (line4_loop q out)), lr_line := fst (snd (line4_loop q out)), lr_at := Outside\<rparr>"
  using assms
proof (induction q out arbitrary: s rule: line4_loop.induct)
  case (1 q out)
  obtain d p where g: "uart4_get q = (d, p)" by (cases "uart4_get q")
  have again: "\<exists>k. (line_step ^^ k) s = t" if "\<exists>k. (line_step ^^ k) (line_step s) = t" for t
    using that by (metis funpow_swap1 funpow.simps(2) comp_apply)
  note unf = line4_loop.simps [of q] g "1.prems"
  consider "u4_count q = 0" | "u4_count q \<noteq> 0" "d = 0x0a" | "u4_count q \<noteq> 0" "d \<noteq> 0x0a" "d = 0x0d"
    | "u4_count q \<noteq> 0" "d \<noteq> 0x0a" "d \<noteq> 0x0d" by blast
  then show ?case
  proof cases
    case 1
    then show ?thesis by (intro exI [of _ "Suc 0"]) (simp add: line_step_def unf)
  next
    case 2
    have "line_step s = s\<lparr>lr_ring := p\<rparr>" using 2 by (simp add: line_step_def unf)
    then show ?thesis using "1.IH"(1) [OF 2(1) g [symmetric] HOL.refl 2(2), of "s\<lparr>lr_ring := p\<rparr>"] 2
      by (intro again) (simp add: unf)
  next
    case 3
    then show ?thesis by (intro exI [of _ "Suc (Suc (Suc 0))"]) (simp add: line_step_def unf)
  next
    case 4
    have "line_step s = s\<lparr>lr_ring := p, lr_line := out @ [d]\<rparr>" using 4 by (simp add: line_step_def unf)
    then show ?thesis using "1.IH"(2) [OF 4(1) g [symmetric] HOL.refl 4(2,3), of "s\<lparr>lr_ring := p, lr_line := out @ [d]\<rparr>"] 4
      by (intro again) (simp add: unf)
  qed
qed

lemma line_accesses: "line_run s0 s \<Longrightarrow> line_run s0 ((line_step ^^ k) s)"
  by (induction k) (auto intro: line_run.access)

lemma line_irqs: "line_run s0 s \<Longrightarrow> line_run s0 (s\<lparr>lr_ring := foldl UART4_rx (lr_ring s) ds\<rparr>)"
proof (induction ds arbitrary: s)
  case (Cons d ds)
  from Cons.IH [OF line_run.irq [OF Cons.prems, of d]] show ?case by simp
qed simp

lemma ring4_fills:
  "uart4_ring q \<Longrightarrow> length (uart4_elems q) + length ds < UART4_RX_SIZE \<Longrightarrow>
     uart4_ring (foldl UART4_rx q ds) \<and> uart4_elems (foldl UART4_rx q ds) = uart4_elems q @ ds"
proof (induction ds arbitrary: q)
  case (Cons d ds)
  from Cons.IH [of "UART4_rx q d"] UART4_rx_ring [OF Cons.prems(1), of d] Cons.prems(2) show ?case by simp
qed simp

text \<open>The loop takes a line without line ends up to its carriage return.\<close>

lemma loop_takes:
  assumes "uart4_ring q" and "uart4_elems q = l @ [0x0d]" and "0x0d \<notin> set l" and "0x0a \<notin> set l"
  shows "\<exists>k p. (line_step ^^ k) \<lparr>lr_ring = q, lr_at = In_loop, lr_line = out\<rparr> = \<lparr>lr_ring = p, lr_at = At_load_lines, lr_line = out @ l\<rparr> \<and>
    uart4_ring p \<and> uart4_elems p = [] \<and> u4_lines p = u4_lines q"
  using assms
proof (induction l arbitrary: q out)
  case Nil
  then have c: "u4_count q \<noteq> 0" by (auto simp: uart4_elems_def)
  obtain p where g: "uart4_get q = (0x0d, p)" "uart4_ring p" "uart4_elems p = []" "u4_lines p = u4_lines q"
    using uart4_get_step [OF Nil.prems(1), of "0x0d" "[]"] Nil.prems(2) by (cases "uart4_get q") auto
  then show ?case using c by (intro exI [of _ "Suc 0"] exI [of _ p]) (simp add: line_step_def)
next
  case (Cons x l)
  then have c: "u4_count q \<noteq> 0" by (auto simp: uart4_elems_def)
  obtain p where g: "uart4_get q = (x, p)" "uart4_ring p" "uart4_elems p = l @ [0x0d]" "u4_lines p = u4_lines q"
    using uart4_get_step [OF Cons.prems(1), of x "l @ [0x0d]"] Cons.prems(2) by (cases "uart4_get q") auto
  obtain k r where "(line_step ^^ k) \<lparr>lr_ring = p, lr_at = In_loop, lr_line = out @ [x]\<rparr> =
      \<lparr>lr_ring = r, lr_at = At_load_lines, lr_line = (out @ [x]) @ l\<rparr>" "uart4_ring r" "uart4_elems r = []" "u4_lines r = u4_lines p"
    using Cons.IH [OF g(2,3), of "out @ [x]"] Cons.prems(3,4) by auto
  moreover have "line_step \<lparr>lr_ring = q, lr_at = In_loop, lr_line = out\<rparr> = \<lparr>lr_ring = p, lr_at = In_loop, lr_line = out @ [x]\<rparr>"
    using c g(1) Cons.prems(3,4) by (simp add: line_step_def)
  ultimately show ?case using g(4) by (intro exI [of _ "Suc k"] exI [of _ r]) (simp add: funpow_swap1)
qed

text \<open>
  C38: a line can be lost on the RS-485 bus.  If the carriage return of a line \<open>m\<close> arrives between the load and the store of the decrement
  with which the reader finishes the line \<open>l\<close> before it, the line counter is zero while the ring holds the complete line \<open>m\<close>, and the
  reader returns nothing.
\<close>

theorem uart4_line_lost:
  assumes "uart4_inv q" and "uart4_elems q = []" and "0x0d \<notin> set (l @ m)" and "0x0a \<notin> set l" and "length l + length m + 2 < UART4_RX_SIZE"
  shows "\<exists>s. line_run \<lparr>lr_ring = q, lr_at = Outside, lr_line = []\<rparr> s \<and> lr_at s = Outside \<and> lr_line s = l \<and>
    uart4_elems (lr_ring s) = m @ [0x0d] \<and> get_line_from_uart4 (lr_ring s) = (0, [], lr_ring s)"
proof -
  let ?init = "\<lparr>lr_ring = q, lr_at = Outside, lr_line = []\<rparr>"
  let ?q1 = "foldl UART4_rx q (l @ [0x0d])"
  have ring: "uart4_ring q" using assms(1) by (simp add: uart4_inv_def)
  have q1: "uart4_ring ?q1" "uart4_elems ?q1 = l @ [0x0d]"
    using ring4_fills [OF ring, of "l @ [0x0d]"] assms(2,5) by auto
  have i1: "uart4_inv ?q1" using assms(1) by (rule uart4_rx_all_inv)
  have "count_list (l @ [0x0d]) 0x0d = 1" using assms(3) by (simp add: count_notin)
  then have n: "unat (u4_lines ?q1) = 1" using q1(2) i1 by (simp add: uart4_inv_def)
  then have n1: "u4_lines ?q1 = 1" by (simp add: word_unat_eq_iff)
  have "line_run ?init (?init\<lparr>lr_ring := ?q1\<rparr>)" using line_irqs [OF line_run.start [of ?init], of "l @ [0x0d]"] by simp
  then have r1: "line_run ?init \<lparr>lr_ring = ?q1, lr_at = In_loop, lr_line = []\<rparr>"
    using line_run.access [of ?init "?init\<lparr>lr_ring := ?q1\<rparr>"] n1 by (simp add: line_step_def)
  obtain k p where p: "(line_step ^^ k) \<lparr>lr_ring = ?q1, lr_at = In_loop, lr_line = []\<rparr> = \<lparr>lr_ring = p, lr_at = At_load_lines, lr_line = [] @ l\<rparr>"
    "uart4_ring p" "uart4_elems p = []" "u4_lines p = u4_lines ?q1"
    using loop_takes [OF q1(1,2), of "[]"] assms(3,4) by auto
  have "line_run ?init \<lparr>lr_ring = p, lr_at = At_load_lines, lr_line = l\<rparr>" using line_accesses [OF r1, of k] p(1) by simp
  from line_run.access [OF this] have "line_run ?init \<lparr>lr_ring = p, lr_at = At_store_lines (u4_lines p - 1), lr_line = l\<rparr>"
    by (simp add: line_step_def)
  from line_irqs [OF this, of "m @ [0x0d]"]
  have r2: "line_run ?init \<lparr>lr_ring = foldl UART4_rx p (m @ [0x0d]), lr_at = At_store_lines (u4_lines p - 1), lr_line = l\<rparr>" by simp
  let ?s = "\<lparr>lr_ring = (foldl UART4_rx p (m @ [0x0d]))\<lparr>u4_lines := u4_lines p - 1\<rparr>, lr_at = Outside, lr_line = l\<rparr>"
  from line_run.access [OF r2] have "line_run ?init ?s" by (simp add: line_step_def)
  moreover have "uart4_elems (lr_ring ?s) = m @ [0x0d]"
    using ring4_fills [OF p(2), of "m @ [0x0d]"] p(3) assms(5) by simp
  moreover have "u4_lines p = 1" using n1 p(4) by simp
  ultimately show ?thesis by (intro exI [of _ ?s]) (simp add: get_line_from_uart4_def)
qed

theorem uart4_line_lost_witness:
  "\<exists>s. line_run \<lparr>lr_ring = uart4_reset, lr_at = Outside, lr_line = []\<rparr> s \<and> lr_line s = [65] \<and>
    uart4_elems (lr_ring s) = [66, 0x0d] \<and> get_line_from_uart4 (lr_ring s) = (0, [], lr_ring s)"
  using uart4_line_lost [OF uart4_reset_inv, of "[65]" "[66]"] by (auto simp: UART4_RX_SIZE_def)

end
