(* ===== verification/Net_Layer.thy ===== *)
theory Net_Layer
  imports Ring_Spec
begin

text \<open>
  The network layer of \<open>Application/src/network.c\<close>: the receive FIFO between the
  wireless thread and the MQTT client, the transmit and receive staging buffers, and the body of
  the network thread.  Results of kernel calls that may block (\<open>rt_sem_take\<close>,
  \<open>rt_mutex_take\<close>, \<open>rt_event_recv\<close>) are arguments of the operations; the kernel
  calls an operation makes are returned in order.
\<close>

section \<open>The receive FIFO\<close>

record net_fifo_t =
  nf_Begin :: u16
  nf_End :: u16
  nf_Data :: bytes
  nf_Size :: u16

definition fifo_next :: "net_fifo_t \<Rightarrow> u16 \<Rightarrow> u16" where
  "fifo_next fifo index = of_nat ((unat index + 1) mod unat (nf_Size fifo))"

definition fifo_init :: "net_fifo_t \<Rightarrow> bytes \<Rightarrow> u16 \<Rightarrow> net_fifo_t" where
  "fifo_init fifo buffer sz =
     fifo\<lparr>nf_Begin := 0, nf_End := 0, nf_Data := buffer, nf_Size := sz\<rparr>"

definition fifo_push :: "net_fifo_t \<Rightarrow> u8 \<Rightarrow> net_fifo_t" where
  "fifo_push fifo d =
     (let fifo' = fifo\<lparr>nf_End := fifo_next fifo (nf_End fifo)\<rparr>
      in fifo'\<lparr>nf_Data := (nf_Data fifo')[unat (nf_End fifo') := d]\<rparr>)"

definition fifo_pop :: "net_fifo_t \<Rightarrow> u8 \<times> net_fifo_t" where
  "fifo_pop fifo =
     (let d = nf_Data fifo ! unat (fifo_next fifo (nf_Begin fifo))
      in (d, fifo\<lparr>nf_Begin := fifo_next fifo (nf_Begin fifo)\<rparr>))"

definition fifo_flush :: "net_fifo_t \<Rightarrow> net_fifo_t" where
  "fifo_flush fifo = fifo\<lparr>nf_Begin := 0, nf_End := 0\<rparr>"

definition is_fifo_empty :: "net_fifo_t \<Rightarrow> bool" where
  "is_fifo_empty fifo \<longleftrightarrow> nf_Begin fifo = nf_End fifo"

definition is_fifo_full :: "net_fifo_t \<Rightarrow> bool" where
  "is_fifo_full fifo \<longleftrightarrow> fifo_next fifo (nf_End fifo) = nf_Begin fifo"

definition net_fifo_inv :: "net_fifo_t \<Rightarrow> bool" where
  "net_fifo_inv f \<longleftrightarrow> length (nf_Data f) = unat (nf_Size f) \<and>
     unat (nf_Begin f) < unat (nf_Size f) \<and> unat (nf_End f) < unat (nf_Size f)"

definition net_fifo_elems :: "net_fifo_t \<Rightarrow> bytes" where
  "net_fifo_elems f =
     ring_elems (nf_Data f) (unat (nf_Size f)) (unat (nf_Begin f)) (unat (nf_End f))"

definition net_fifo_cap :: "net_fifo_t \<Rightarrow> nat" where
  "net_fifo_cap f = unat (nf_Size f) - 1"

lemma unat_fifo_next:
  "0 < unat (nf_Size f) \<Longrightarrow> unat (fifo_next f i) = (unat i + 1) mod unat (nf_Size f)"
  unfolding fifo_next_def
  by (rule unat_of_nat_u16) (use mod_less_divisor unat_u16_lt less_trans in blast)

lemma fifo_next_eq_iff:
  "0 < unat (nf_Size f) \<Longrightarrow> fifo_next f i = j \<longleftrightarrow> (unat i + 1) mod unat (nf_Size f) = unat j"
  by (metis unat_fifo_next word_unat_eq_iff)

lemma fifo_init_inv:
  "length b = unat n \<Longrightarrow> 0 < unat n \<Longrightarrow>
     net_fifo_inv (fifo_init f b n) \<and> net_fifo_elems (fifo_init f b n) = [] \<and>
     net_fifo_cap (fifo_init f b n) = unat n - 1"
  by (simp add: fifo_init_def net_fifo_inv_def net_fifo_elems_def net_fifo_cap_def)

interpretation net: bounded_fifo net_fifo_inv net_fifo_elems net_fifo_cap fifo_push fifo_pop
  is_fifo_empty is_fifo_full fifo_flush
proof unfold_locales
  fix q x
  assume q: "net_fifo_inv q"
  then have n: "0 < unat (nf_Size q)" and b: "unat (nf_Begin q) < unat (nf_Size q)"
    and e: "unat (nf_End q) < unat (nf_Size q)" and l: "length (nf_Data q) = unat (nf_Size q)"
    by (auto simp: net_fifo_inv_def)
  note ix = unat_fifo_next [OF n]
  have fulls: "is_fifo_full q \<longleftrightarrow> (unat (nf_End q) + 1) mod unat (nf_Size q) = unat (nf_Begin q)"
    by (simp add: is_fifo_full_def fifo_next_eq_iff n)
  show "length (net_fifo_elems q) \<le> net_fifo_cap q"
    using ring_len_lt [OF b e] by (simp add: net_fifo_elems_def net_fifo_cap_def)
  show "is_fifo_empty q \<longleftrightarrow> net_fifo_elems q = []"
    using b by (simp add: is_fifo_empty_def net_fifo_elems_def word_unat_eq_iff)
  show "is_fifo_full q \<longleftrightarrow> length (net_fifo_elems q) = net_fifo_cap q"
    using ring_full_iff [OF b e] fulls by (simp add: net_fifo_elems_def net_fifo_cap_def)
  show "net_fifo_inv (fifo_push q x)"
    using q n ix by (simp add: net_fifo_inv_def fifo_push_def Let_def)
  show "net_fifo_cap (fifo_push q x) = net_fifo_cap q"
    by (simp add: net_fifo_cap_def fifo_push_def Let_def)
  show "net_fifo_elems (fifo_push q x) = net_fifo_elems q @ [x]" if "\<not> is_fifo_full q"
    using that fulls ix ring_elems_push [OF b e l]
    by (simp add: net_fifo_elems_def fifo_push_def Let_def)
  show "net_fifo_elems (fifo_push q x) = []" if "is_fifo_full q"
    using that fulls ix b by (simp add: net_fifo_elems_def fifo_push_def Let_def)
  show "net_fifo_cap (snd (fifo_pop q)) = net_fifo_cap q"
    by (simp add: net_fifo_cap_def fifo_pop_def Let_def)
  show "net_fifo_inv (fifo_flush q)" and "net_fifo_elems (fifo_flush q) = []"
    using q n by (simp_all add: net_fifo_inv_def net_fifo_elems_def fifo_flush_def)
  assume ne: "net_fifo_elems q \<noteq> []"
  then have be: "unat (nf_Begin q) \<noteq> unat (nf_End q)"
    using b by (simp add: net_fifo_elems_def)
  show "net_fifo_inv (snd (fifo_pop q))"
    using q n ix by (simp add: net_fifo_inv_def fifo_pop_def Let_def)
  show "fst (fifo_pop q) = hd (net_fifo_elems q)"
    and "net_fifo_elems (snd (fifo_pop q)) = tl (net_fifo_elems q)"
    using ring_elems_pop [OF b e be, of "nf_Data q"] ix
    by (simp_all add: net_fifo_elems_def fifo_pop_def Let_def)
qed

section \<open>State of the network layer\<close>

definition NET_TX_BUF_SIZE :: nat where
  "NET_TX_BUF_SIZE = 1460"

definition NET_RX_BUF_SIZE :: nat where
  "NET_RX_BUF_SIZE = 1460"

definition NET_RX_BUF_WRITE_EVENT :: u32 where
  "NET_RX_BUF_WRITE_EVENT = push_bit 0 1"

definition NET_TX_BUF_WRITE_EVENT :: u32 where
  "NET_TX_BUF_WRITE_EVENT = push_bit 1 1"

datatype net_sem = Net_rx_sem | Net_tx_sem | Net_fifo_sem

text \<open>The kernel calls an operation makes.\<close>

datatype kcall =
    Rt_sem_release net_sem
  | Rt_event_send u32
  | Rt_mutex_release

record network =
  net_tx_len :: u16
  net_rx_len :: u16
  net_tx_buf :: bytes
  net_rx_buf :: bytes
  net_rx_fifo :: net_fifo_t
  net_wifi_tx_len :: u16
  net_uart3_tx_buf :: bytes

text \<open>\<open>memcpy\<close>: copying past the end of either array is out of bounds.\<close>

definition memcpy :: "bytes \<Rightarrow> bytes \<Rightarrow> nat \<Rightarrow> bytes c_result" where
  "memcpy dst src n =
     (if n \<le> length dst \<and> n \<le> length src then Inr (take n src @ drop n dst)
      else Inl OutOfBounds)"

section \<open>Operations\<close>

definition net_tx_write :: "bool \<Rightarrow> bytes \<Rightarrow> u16 \<Rightarrow> network \<Rightarrow> (u8 \<times> network \<times> kcall list) c_result" where
  "net_tx_write sem_ok prt len s =
     (if sem_ok then
        case memcpy (replicate NET_TX_BUF_SIZE 0) prt (unat len) of
          Inl e \<Rightarrow> Inl e
        | Inr b \<Rightarrow> Inr (1, s\<lparr>net_tx_len := len, net_tx_buf := b\<rparr>,
                        [Rt_event_send NET_TX_BUF_WRITE_EVENT])
      else Inr (0, s, []))"

definition net_rx_write :: "bool \<Rightarrow> bytes \<Rightarrow> u16 \<Rightarrow> network \<Rightarrow> (u8 \<times> network \<times> kcall list) c_result" where
  "net_rx_write sem_ok prt len s =
     (if sem_ok then
        case memcpy (replicate NET_RX_BUF_SIZE 0) prt (unat len) of
          Inl e \<Rightarrow> Inl e
        | Inr b \<Rightarrow> Inr (1, s\<lparr>net_rx_len := len, net_rx_buf := b\<rparr>,
                        [Rt_event_send NET_RX_BUF_WRITE_EVENT])
      else Inr (0, s, []))"

text \<open>
  The copy loop of \<open>push_data_to_net_fifo\<close>.  It is a \<^verbatim>\<open>do ... while (len > 0)\<close>
  over a \<open>uint16_t\<close>, so it runs at least once and \<open>len--\<close> wraps at zero; the index
  \<open>net_rx_len - len\<close> is an \<open>int\<close> and negative when \<open>len\<close> is the larger.
\<close>

definition rx_byte :: "bytes \<Rightarrow> u16 \<Rightarrow> u16 \<Rightarrow> u8 c_result" where
  "rx_byte rxbuf rxlen len =
     (if unat len \<le> unat rxlen then buf_at rxbuf (unat rxlen - unat len) else Inl OutOfBounds)"

function push_loop :: "bytes \<Rightarrow> u16 \<Rightarrow> u16 \<Rightarrow> net_fifo_t \<Rightarrow> net_fifo_t c_result" where
  "push_loop rxbuf rxlen len fifo =
     (case rx_byte rxbuf rxlen len of
        Inl e \<Rightarrow> Inl e
      | Inr d \<Rightarrow>
          (let fifo' = fifo_push fifo d; len' = len - 1
           in if is_fifo_full fifo' then Inr fifo'
              else if len' > 0 then push_loop rxbuf rxlen len' fifo'
              else Inr fifo'))"
  by pat_completeness auto
termination
proof (relation "measure (\<lambda>(b, r, len, f). if len = 0 then 65536 else unat (len :: u16))")
  fix rxbuf rxlen and len :: u16 and fifo d x y
  assume "y = len - 1" and "0 < y"
  then show "((rxbuf, rxlen, y, x), rxbuf, rxlen, len, fifo)
    \<in> measure (\<lambda>(b, r, len, f). if len = 0 then 65536 else unat (len :: u16))"
    using u16_dec_measure [of len] by simp
qed simp

declare push_loop.simps [simp del]

definition push_data_to_net_fifo :: "bool \<Rightarrow> network \<Rightarrow> (network \<times> kcall list) c_result" where
  "push_data_to_net_fifo mutex_ok s =
     (if mutex_ok then
        case push_loop (net_rx_buf s) (net_rx_len s) (net_rx_len s) (net_rx_fifo s) of
          Inl e \<Rightarrow> Inl e
        | Inr f \<Rightarrow> Inr (s\<lparr>net_rx_fifo := f\<rparr>, [Rt_mutex_release])
      else Inr (s, []))"

fun read_loop :: "nat \<Rightarrow> net_fifo_t \<Rightarrow> bytes \<times> net_fifo_t" where
  "read_loop 0 fifo = ([], fifo)"
| "read_loop (Suc count) fifo =
     (let (d, fifo') = fifo_pop fifo
      in if is_fifo_empty fifo' then ([d], fifo')
         else (let (ds, fifo'') = read_loop count fifo' in (d # ds, fifo'')))"

text \<open>\<open>net_fifo_read\<close> returns the bytes it stored into \<open>buf\<close>; their number is its result.\<close>

definition net_fifo_read :: "bool \<Rightarrow> nat \<Rightarrow> net_fifo_t \<Rightarrow> bytes \<times> net_fifo_t" where
  "net_fifo_read mutex_ok count fifo =
     (if is_fifo_empty fifo then ([], fifo)
      else if mutex_ok then read_loop count fifo
      else ([], fifo))"

definition net_tx_sem_release :: "kcall list" where
  "net_tx_sem_release = [Rt_sem_release Net_tx_sem]"

definition net_rx_sem_release :: "kcall list" where
  "net_rx_sem_release = [Rt_sem_release Net_rx_sem]"

text \<open>
  One round of the network thread after \<open>rt_event_recv\<close> returned \<open>RT_EOK\<close> with the
  received set \<open>opt\<close>.
\<close>

definition net_rx_event :: "bool \<Rightarrow> network \<Rightarrow> (network \<times> kcall list) c_result" where
  "net_rx_event mutex_ok s =
     (case push_data_to_net_fifo mutex_ok s of
        Inl e \<Rightarrow> Inl e
      | Inr (s', ks) \<Rightarrow>
          Inr (s', ks @ [Rt_sem_release Net_rx_sem, Rt_sem_release Net_fifo_sem]))"

definition net_tx_event :: "network \<Rightarrow> (network \<times> kcall list) c_result" where
  "net_tx_event s =
     (case memcpy (net_uart3_tx_buf s) (net_tx_buf s) (unat (net_tx_len s)) of
        Inl e \<Rightarrow> Inl e
      | Inr b \<Rightarrow> Inr (s\<lparr>net_wifi_tx_len := net_tx_len s, net_uart3_tx_buf := b\<rparr>, []))"

definition network_thread_step :: "bool \<Rightarrow> u32 \<Rightarrow> network \<Rightarrow> (network \<times> kcall list) c_result" where
  "network_thread_step mutex_ok opt s =
     (case (if opt AND NET_RX_BUF_WRITE_EVENT \<noteq> 0 then net_rx_event mutex_ok s else Inr (s, [])) of
        Inl e \<Rightarrow> Inl e
      | Inr (s', ks) \<Rightarrow>
          (if opt AND NET_TX_BUF_WRITE_EVENT \<noteq> 0 then
             (case net_tx_event s' of
                Inl e \<Rightarrow> Inl e
              | Inr (s'', ks') \<Rightarrow> Inr (s'', ks @ ks'))
           else Inr (s', ks)))"


section \<open>The FIFO as a byte queue\<close>

lemma memcpy_InrD: "memcpy dst src n = Inr b \<Longrightarrow> length b = length dst \<and> take n b = take n src \<and> n \<le> length dst"
  by (auto simp: memcpy_def split: if_splits)

lemma rx_byte_Inr:
  "unat len \<le> unat rxlen \<Longrightarrow> 0 < unat len \<Longrightarrow> unat rxlen \<le> length rxbuf \<Longrightarrow>
     rx_byte rxbuf rxlen len = Inr (rxbuf ! (unat rxlen - unat len))"
  by (simp add: rx_byte_def buf_at_def)

text \<open>The bytes still to be copied when the loop counter is \<open>len\<close>.\<close>

definition rx_rest :: "bytes \<Rightarrow> u16 \<Rightarrow> u16 \<Rightarrow> bytes" where
  "rx_rest rxbuf rxlen len = take (unat len) (drop (unat rxlen - unat len) rxbuf)"

lemma rx_rest_Cons:
  assumes "unat len \<le> unat rxlen" "0 < unat len" "unat rxlen \<le> length rxbuf"
  shows "rx_rest rxbuf rxlen len =
    rxbuf ! (unat rxlen - unat len) # rx_rest rxbuf rxlen (len - 1)"
proof -
  have d: "unat (len - 1) = unat len - 1"
    using assms(2) by (intro unat_dec) (auto simp: unat_gt_0)
  have "unat rxlen - unat len < length rxbuf" using assms by linarith
  then have "drop (unat rxlen - unat len) rxbuf =
      rxbuf ! (unat rxlen - unat len) # drop (Suc (unat rxlen - unat len)) rxbuf"
    by (simp add: Cons_nth_drop_Suc)
  moreover have "Suc (unat rxlen - unat len) = unat rxlen - unat (len - 1)"
    using assms d by simp
  ultimately show ?thesis
    using assms(2) d by (simp add: rx_rest_def take_Cons')
qed

lemma rx_rest_0 [simp]: "rx_rest b r 0 = []"
  by (simp add: rx_rest_def)

lemma push_loop_queue:
  assumes "net_fifo_inv f" "\<not> is_fifo_full f"
    and "unat len \<le> unat rxlen" "0 < unat len" "unat rxlen \<le> length rxbuf"
  shows "\<exists>f'. push_loop rxbuf rxlen len f = Inr f' \<and> net_fifo_inv f' \<and>
    net_fifo_cap f' = net_fifo_cap f \<and>
    net_fifo_elems f' = take (net_fifo_cap f) (net_fifo_elems f @ rx_rest rxbuf rxlen len)"
  using assms
proof (induction rxbuf rxlen len f rule: push_loop.induct)
  case (1 rxbuf rxlen len f)
  let ?d = "rxbuf ! (unat rxlen - unat len)"
  let ?f = "fifo_push f ?d"
  have b: "rx_byte rxbuf rxlen len = Inr ?d"
    using "1.prems" by (intro rx_byte_Inr)
  have q: "net_fifo_inv ?f" "net_fifo_cap ?f = net_fifo_cap f"
    "net_fifo_elems ?f = net_fifo_elems f @ [?d]"
    using "1.prems" by (simp_all add: net.push_invar net.push_cap net.push_elems)
  have le: "Suc (length (net_fifo_elems f)) \<le> net_fifo_cap f"
    using net.elems_le_cap [OF q(1)] q by simp
  have rest: "rx_rest rxbuf rxlen len = ?d # rx_rest rxbuf rxlen (len - 1)"
    using "1.prems" by (intro rx_rest_Cons)
  note unf = push_loop.simps [of rxbuf rxlen len f] b Let_def
  consider "is_fifo_full ?f" | "\<not> is_fifo_full ?f" "len - 1 > 0" | "\<not> is_fifo_full ?f" "len - 1 = 0"
    using word_neq_0_conv [of "len - 1"] by metis
  then show ?case
  proof cases
    case 1
    then have "net_fifo_cap f = Suc (length (net_fifo_elems f))"
      using net.is_full_iff [OF q(1)] q by simp
    with 1 q rest show ?thesis by (simp add: unf)
  next
    case 2
    have d: "unat (len - 1) = unat len - 1"
      using "1.prems" by (intro unat_dec) (auto simp: unat_gt_0)
    have "0 < unat (len - 1)" using 2 by (simp add: unat_gt_0 word_gt_0)
    moreover have "unat (len - 1) \<le> unat rxlen" using d "1.prems" by simp
    ultimately show ?thesis
      using "1.IH" [OF b refl refl 2(1,2) q(1) 2(1)] "1.prems" q rest 2 by (simp add: unf)
  next
    case 3
    have "push_loop rxbuf rxlen len f = Inr ?f"
      by (simp only: unf sum.case 3 if_False less_irrefl)
    moreover have "rx_rest rxbuf rxlen len = [?d]" using rest 3 by simp
    ultimately show ?thesis using q le by simp
  qed
qed

lemma read_loop_queue:
  assumes "net_fifo_inv f" "net_fifo_elems f \<noteq> []"
  shows "fst (read_loop n f) = take n (net_fifo_elems f) \<and>
    net_fifo_elems (snd (read_loop n f)) = drop n (net_fifo_elems f) \<and>
    net_fifo_inv (snd (read_loop n f)) \<and> net_fifo_cap (snd (read_loop n f)) = net_fifo_cap f"
  using assms
proof (induction n arbitrary: f)
  case 0
  then show ?case by simp
next
  case (Suc n)
  obtain d f' where p: "fifo_pop f = (d, f')" by (cases "fifo_pop f")
  obtain y ys where e: "net_fifo_elems f = y # ys" using Suc.prems by (cases "net_fifo_elems f") auto
  have q: "d = y" "net_fifo_elems f' = ys" "net_fifo_inv f'" "net_fifo_cap f' = net_fifo_cap f"
    using Suc.prems net.pop_fst [of f] net.pop_elems [of f] net.pop_invar [of f] net.pop_cap [of f] p e
    by simp_all
  show ?case
  proof (cases "is_fifo_empty f'")
    case True
    with q have "ys = []" by (simp add: net.is_empty_iff)
    with True p q e show ?thesis by simp
  next
    case False
    with q have "ys \<noteq> []" by (simp add: net.is_empty_iff)
    with Suc.IH [of f'] q False p e show ?thesis by (auto simp: split_beta)
  qed
qed

lemma net_fifo_read_queue:
  assumes "net_fifo_inv f"
  shows "fst (net_fifo_read True n f) = take n (net_fifo_elems f) \<and>
    net_fifo_elems (snd (net_fifo_read True n f)) = drop n (net_fifo_elems f) \<and>
    net_fifo_inv (snd (net_fifo_read True n f)) \<and>
    net_fifo_cap (snd (net_fifo_read True n f)) = net_fifo_cap f"
  using assms read_loop_queue [OF assms, of n]
  by (simp add: net_fifo_read_def net.is_empty_iff)

lemma push_loop_overrun:
  assumes "net_fifo_inv f" "is_fifo_full f" "0 < unat len" "unat len \<le> unat rxlen"
    "unat rxlen \<le> length rxbuf"
  shows "\<exists>f'. push_loop rxbuf rxlen len f = Inr f' \<and> net_fifo_inv f' \<and>
    net_fifo_cap f' = net_fifo_cap f \<and>
    net_fifo_elems f' = take (net_fifo_cap f) (tl (rx_rest rxbuf rxlen len))"
proof -
  let ?d = "rxbuf ! (unat rxlen - unat len)"
  let ?f = "fifo_push f ?d"
  have b: "rx_byte rxbuf rxlen len = Inr ?d" using assms by (intro rx_byte_Inr)
  have q: "net_fifo_inv ?f" "net_fifo_cap ?f = net_fifo_cap f" "net_fifo_elems ?f = []"
    using assms by (simp_all add: net.push_invar net.push_cap net.push_overrun)
  have rest: "rx_rest rxbuf rxlen len = ?d # rx_rest rxbuf rxlen (len - 1)"
    using assms by (intro rx_rest_Cons)
  have d: "unat (len - 1) = unat len - 1"
    using assms by (intro unat_dec) (auto simp: unat_gt_0)
  show ?thesis
  proof (cases "is_fifo_full ?f \<or> len - 1 = 0")
    case True
    then have "net_fifo_cap f = 0 \<or> len - 1 = 0" using net.is_full_iff [OF q(1)] q by auto
    with True q rest show ?thesis
      by (auto simp: push_loop.simps [of rxbuf rxlen len f] b Let_def)
  next
    case False
    then have "0 < unat (len - 1)" by (simp add: unat_gt_0)
    moreover have "unat (len - 1) \<le> unat rxlen" using d assms by simp
    ultimately have "\<exists>f'. push_loop rxbuf rxlen (len - 1) ?f = Inr f' \<and> net_fifo_inv f' \<and>
        net_fifo_cap f' = net_fifo_cap f \<and>
        net_fifo_elems f' = take (net_fifo_cap f) (rx_rest rxbuf rxlen (len - 1))"
      using push_loop_queue [of ?f "len - 1" rxlen rxbuf] False assms q by simp
    with False rest show ?thesis
      by (simp add: push_loop.simps [of rxbuf rxlen len f] b Let_def word_gt_0)
  qed
qed


section \<open>Invariant of the network layer\<close>

definition network_inv :: "network \<Rightarrow> bool" where
  "network_inv s \<longleftrightarrow> net_fifo_inv (net_rx_fifo s) \<and>
     length (net_tx_buf s) = NET_TX_BUF_SIZE \<and> length (net_rx_buf s) = NET_RX_BUF_SIZE \<and>
     length (net_uart3_tx_buf s) = 1460 \<and>
     unat (net_rx_len s) \<le> NET_RX_BUF_SIZE \<and> unat (net_tx_len s) \<le> NET_TX_BUF_SIZE"

lemmas net_sizes = NET_TX_BUF_SIZE_def NET_RX_BUF_SIZE_def

lemma net_tx_write_inv [ibox_inv]:
  "network_inv s \<Longrightarrow> net_tx_write ok p n s = Inr (r, s', ks) \<Longrightarrow> network_inv s'"
  by (auto simp: net_tx_write_def network_inv_def net_sizes dest!: memcpy_InrD
      split: if_splits sum.splits)

lemma net_rx_write_inv [ibox_inv]:
  "network_inv s \<Longrightarrow> net_rx_write ok p n s = Inr (r, s', ks) \<Longrightarrow> network_inv s'"
  by (auto simp: net_rx_write_def network_inv_def net_sizes dest!: memcpy_InrD
      split: if_splits sum.splits)

lemma push_data_cases:
  assumes "network_inv s" and "0 < unat (net_rx_len s)"
  shows "\<exists>f'. push_data_to_net_fifo True s = Inr (s\<lparr>net_rx_fifo := f'\<rparr>, [Rt_mutex_release]) \<and>
    net_fifo_inv f' \<and> net_fifo_cap f' = net_fifo_cap (net_rx_fifo s) \<and>
    net_fifo_elems f' = take (net_fifo_cap (net_rx_fifo s))
      (if is_fifo_full (net_rx_fifo s) then tl (take (unat (net_rx_len s)) (net_rx_buf s))
       else net_fifo_elems (net_rx_fifo s) @ take (unat (net_rx_len s)) (net_rx_buf s))"
proof -
  let ?f = "net_rx_fifo s"
  have "\<exists>f'. push_loop (net_rx_buf s) (net_rx_len s) (net_rx_len s) ?f = Inr f' \<and>
    net_fifo_inv f' \<and> net_fifo_cap f' = net_fifo_cap ?f \<and>
    net_fifo_elems f' = take (net_fifo_cap ?f)
      (if is_fifo_full ?f then tl (take (unat (net_rx_len s)) (net_rx_buf s))
       else net_fifo_elems ?f @ take (unat (net_rx_len s)) (net_rx_buf s))"
    using push_loop_queue [of ?f "net_rx_len s" "net_rx_len s" "net_rx_buf s"]
      push_loop_overrun [of ?f "net_rx_len s" "net_rx_len s" "net_rx_buf s"] assms
    by (cases "is_fifo_full ?f") (simp_all add: network_inv_def net_sizes rx_rest_def)
  then obtain f' where f': "push_loop (net_rx_buf s) (net_rx_len s) (net_rx_len s) ?f = Inr f'"
    and r: "net_fifo_inv f'" "net_fifo_cap f' = net_fifo_cap ?f"
    "net_fifo_elems f' = take (net_fifo_cap ?f)
      (if is_fifo_full ?f then tl (take (unat (net_rx_len s)) (net_rx_buf s))
       else net_fifo_elems ?f @ take (unat (net_rx_len s)) (net_rx_buf s))"
    by blast
  show ?thesis
    by (intro exI [of _ f'] conjI r) (simp add: push_data_to_net_fifo_def f')
qed

lemma push_data_inv [ibox_inv]:
  assumes "network_inv s" and "0 < unat (net_rx_len s)"
    and "push_data_to_net_fifo ok s = Inr (s', ks)"
  shows "network_inv s'"
  using push_data_cases [OF assms(1,2)] assms
  by (cases ok) (auto simp: network_inv_def push_data_to_net_fifo_def)

lemma net_tx_event_inv [ibox_inv]:
  "network_inv s \<Longrightarrow> \<exists>b. net_tx_event s = Inr (s\<lparr>net_wifi_tx_len := net_tx_len s, net_uart3_tx_buf := b\<rparr>, [])
     \<and> length b = 1460 \<and> take (unat (net_tx_len s)) b = take (unat (net_tx_len s)) (net_tx_buf s)"
  by (auto simp: net_tx_event_def memcpy_def network_inv_def net_sizes)

section \<open>Properties\<close>

text \<open>
  C22: one pass of \<open>push_data_to_net_fifo\<close> over a staged packet is exactly "append as much as
  fits" on the queue of unread bytes, as long as the FIFO was not full on entry; when it
  was full, the first store makes \<open>End\<close> meet \<open>Begin\<close>, so every unread byte and the
  first byte of the packet are lost and only the rest of the packet is queued.
\<close>

theorem push_data_to_net_fifo_refines:
  assumes "network_inv s" and "0 < unat (net_rx_len s)"
  shows "\<exists>f'. push_data_to_net_fifo True s = Inr (s\<lparr>net_rx_fifo := f'\<rparr>, [Rt_mutex_release]) \<and>
    network_inv (s\<lparr>net_rx_fifo := f'\<rparr>) \<and>
    net_fifo_elems f' = take (net_fifo_cap (net_rx_fifo s))
      (if is_fifo_full (net_rx_fifo s) then tl (take (unat (net_rx_len s)) (net_rx_buf s))
       else net_fifo_elems (net_rx_fifo s) @ take (unat (net_rx_len s)) (net_rx_buf s))"
  using push_data_cases [OF assms] assms(1) by (auto simp: network_inv_def)

definition demo_fifo :: net_fifo_t where
  "demo_fifo = fifo_init \<lparr>nf_Begin = 0, nf_End = 0, nf_Data = [], nf_Size = 0\<rparr> (replicate 2048 0) 2048"

definition demo_network :: "u16 \<Rightarrow> bytes \<Rightarrow> network" where
  "demo_network n b = \<lparr>net_tx_len = 0, net_rx_len = n, net_tx_buf = replicate 1460 0,
     net_rx_buf = b @ replicate (1460 - length b) 0, net_rx_fifo = demo_fifo, net_wifi_tx_len = 0,
     net_uart3_tx_buf = replicate 1460 0\<rparr>"

lemma demo_fifo_queue: "net_fifo_inv demo_fifo \<and> net_fifo_elems demo_fifo = [] \<and> net_fifo_cap demo_fifo = 2047"
  using fifo_init_inv [of "replicate 2048 0" 2048] by (simp add: demo_fifo_def)

lemma demo_network_inv: "length b \<le> 1460 \<Longrightarrow> unat n \<le> 1460 \<Longrightarrow> network_inv (demo_network n b)"
  using demo_fifo_queue by (simp add: network_inv_def demo_network_def net_sizes)

lemma demo_network_sel [simp]:
  "net_rx_fifo (demo_network n b) = demo_fifo" "net_rx_len (demo_network n b) = n"
  "net_rx_buf (demo_network n b) = b @ replicate (1460 - length b) 0"
  by (simp_all add: demo_network_def)

theorem push_data_to_net_fifo_refines_witness:
  "\<exists>f'. push_data_to_net_fifo True (demo_network 3 [1, 2, 3]) =
     Inr ((demo_network 3 [1, 2, 3])\<lparr>net_rx_fifo := f'\<rparr>, [Rt_mutex_release]) \<and>
     net_fifo_elems f' = [1, 2, 3]"
proof -
  have nf: "\<not> is_fifo_full demo_fifo"
    using demo_fifo_queue net.is_full_iff [of demo_fifo] by simp
  show ?thesis
    using push_data_to_net_fifo_refines [OF demo_network_inv [of "[1, 2, 3]" 3]] nf demo_fifo_queue
    by auto
qed

lemma net_thread_moves:
  assumes inv: "network_inv s1" and bs: "0 < length bs" "length bs \<le> NET_RX_BUF_SIZE"
    and st: "net_rx_len s1 = of_nat (length bs)" "take (length bs) (net_rx_buf s1) = bs"
    and fits: "length (net_fifo_elems (net_rx_fifo s1)) + length bs \<le> net_fifo_cap (net_rx_fifo s1)"
  shows "\<exists>f'. network_thread_step True NET_RX_BUF_WRITE_EVENT s1 =
      Inr (s1\<lparr>net_rx_fifo := f'\<rparr>, [Rt_mutex_release, Rt_sem_release Net_rx_sem, Rt_sem_release Net_fifo_sem]) \<and>
    net_fifo_inv f' \<and> net_fifo_elems f' = net_fifo_elems (net_rx_fifo s1) @ bs"
proof -
  have n: "unat (net_rx_len s1) = length bs" using bs st(1) by (simp add: net_sizes)
  have nf: "\<not> is_fifo_full (net_rx_fifo s1)"
  proof -
    have "length (net_fifo_elems (net_rx_fifo s1)) < net_fifo_cap (net_rx_fifo s1)"
      using fits bs(1) by linarith
    then show ?thesis using net.is_full_iff inv by (simp add: network_inv_def)
  qed
  obtain f' where f': "push_data_to_net_fifo True s1 = Inr (s1\<lparr>net_rx_fifo := f'\<rparr>, [Rt_mutex_release])"
    "net_fifo_inv f'" "net_fifo_elems f' = net_fifo_elems (net_rx_fifo s1) @ bs"
    using push_data_cases [OF inv] bs n nf fits st(2) by auto
  have t: "network_thread_step True NET_RX_BUF_WRITE_EVENT s1 =
      Inr (s1\<lparr>net_rx_fifo := f'\<rparr>, [Rt_mutex_release, Rt_sem_release Net_rx_sem, Rt_sem_release Net_fifo_sem])"
    by (simp add: network_thread_step_def net_rx_event_def f'(1) NET_RX_BUF_WRITE_EVENT_def
        NET_TX_BUF_WRITE_EVENT_def)
  show ?thesis using t f'(2,3) by blast
qed

text \<open>
  the receive path as a whole is a faithful byte pipe.  A packet of 1 to 1460 bytes handed to
  \<open>net_rx_write\<close> and moved by the network thread on \<open>NET_RX_BUF_WRITE_EVENT\<close> is
  what the client reads from \<open>net_fifo_read\<close>, behind the bytes that were already
  unread, provided they fit together.
\<close>

theorem net_rx_pipe:
  assumes inv: "network_inv s" and bs: "0 < length bs" "length bs \<le> NET_RX_BUF_SIZE"
    and fits: "length (net_fifo_elems (net_rx_fifo s)) + length bs \<le> net_fifo_cap (net_rx_fifo s)"
  shows "\<exists>s1 ks1 s2 ks2. net_rx_write True bs (of_nat (length bs)) s = Inr (1, s1, ks1) \<and>
    ks1 = [Rt_event_send NET_RX_BUF_WRITE_EVENT] \<and>
    network_thread_step True NET_RX_BUF_WRITE_EVENT s1 = Inr (s2, ks2) \<and>
    ks2 = [Rt_mutex_release, Rt_sem_release Net_rx_sem, Rt_sem_release Net_fifo_sem] \<and>
    fst (net_fifo_read True (length (net_fifo_elems (net_rx_fifo s)) + length bs) (net_rx_fifo s2)) =
      net_fifo_elems (net_rx_fifo s) @ bs"
proof -
  let ?n = "of_nat (length bs) :: u16"
  have n: "unat ?n = length bs" using bs by (simp add: net_sizes)
  let ?s1 = "s\<lparr>net_rx_len := ?n, net_rx_buf := bs @ replicate (1460 - length bs) 0\<rparr>"
  have w: "net_rx_write True bs ?n s = Inr (1, ?s1, [Rt_event_send NET_RX_BUF_WRITE_EVENT])"
    using bs n by (simp add: net_rx_write_def memcpy_def net_sizes)
  have i1: "network_inv ?s1" using net_rx_write_inv [OF inv w] .
  obtain f' where "network_thread_step True NET_RX_BUF_WRITE_EVENT ?s1 =
      Inr (?s1\<lparr>net_rx_fifo := f'\<rparr>, [Rt_mutex_release, Rt_sem_release Net_rx_sem, Rt_sem_release Net_fifo_sem])"
      "net_fifo_inv f'" "net_fifo_elems f' = net_fifo_elems (net_rx_fifo s) @ bs"
    using net_thread_moves [OF i1 bs] fits by auto
  with w net_fifo_read_queue [of f'] show ?thesis by (intro exI conjI) auto
qed

theorem net_rx_pipe_witness:
  "\<exists>s1 ks1 s2 ks2. net_rx_write True [65, 66] (of_nat (length [65, 66 :: u8])) (demo_network 0 []) = Inr (1, s1, ks1) \<and>
    ks1 = [Rt_event_send NET_RX_BUF_WRITE_EVENT] \<and>
    network_thread_step True NET_RX_BUF_WRITE_EVENT s1 = Inr (s2, ks2) \<and>
    ks2 = [Rt_mutex_release, Rt_sem_release Net_rx_sem, Rt_sem_release Net_fifo_sem] \<and>
    fst (net_fifo_read True (length (net_fifo_elems (net_rx_fifo (demo_network 0 []))) +
      length [65, 66 :: u8]) (net_rx_fifo s2)) =
      net_fifo_elems (net_rx_fifo (demo_network 0 [])) @ [65, 66]"
proof (rule net_rx_pipe)
  show "network_inv (demo_network 0 [])" by (rule demo_network_inv) simp_all
  show "length (net_fifo_elems (net_rx_fifo (demo_network 0 []))) + length [65, 66 :: u8]
      \<le> net_fifo_cap (net_rx_fifo (demo_network 0 []))"
    using demo_fifo_queue by (simp add: demo_network_def)
qed (simp_all add: net_sizes)

text \<open>
  a staged packet of length zero is not a no-op.  The copy loop tests its counter after the
  first byte, so the counter wraps from 0 to 65535 and the next index is negative: with at least
  two free slots in the FIFO the pass reads outside \<open>net_rx_buf\<close>.
\<close>

theorem push_data_zero_length_out_of_bounds:
  assumes "network_inv s" and "net_rx_len s = 0"
    and "length (net_fifo_elems (net_rx_fifo s)) + 2 \<le> net_fifo_cap (net_rx_fifo s)"
  shows "push_data_to_net_fifo True s = Inl OutOfBounds"
proof -
  let ?f = "net_rx_fifo s" and ?b = "net_rx_buf s"
  let ?f' = "fifo_push ?f (?b ! 0)"
  have i: "net_fifo_inv ?f" and l: "0 < length ?b" using assms(1) by (auto simp: network_inv_def net_sizes)
  then have nf: "\<not> is_fifo_full ?f" using net.is_full_iff assms(3) by simp
  have nf': "\<not> is_fifo_full ?f'"
    using net.is_full_iff [of ?f'] net.push_invar [OF i] net.push_cap [OF i] net.push_elems [OF i nf]
      assms(3) by simp
  have "push_loop ?b 0 0 ?f = push_loop ?b 0 (- 1) ?f'"
    using nf' l by (simp add: push_loop.simps [of ?b 0 0] rx_byte_def buf_at_def Let_def word_gt_0)
  also have "\<dots> = Inl OutOfBounds"
    by (simp add: push_loop.simps [of ?b 0 "- 1"] rx_byte_def)
  finally show ?thesis by (simp add: push_data_to_net_fifo_def assms(2))
qed

theorem push_data_zero_length_out_of_bounds_witness:
  "push_data_to_net_fifo True (demo_network 0 []) = Inl OutOfBounds"
proof (rule push_data_zero_length_out_of_bounds)
  show "network_inv (demo_network 0 [])" by (rule demo_network_inv) simp_all
  show "net_rx_len (demo_network 0 []) = 0" by (simp add: demo_network_def)
  show "length (net_fifo_elems (net_rx_fifo (demo_network 0 []))) + 2
      \<le> net_fifo_cap (net_rx_fifo (demo_network 0 []))"
    using demo_fifo_queue by (simp add: demo_network_def)
qed

end
