(* ===== verification/Mqtt_Packet.thy ===== *)
theory Mqtt_Packet
  imports Net_Layer "HOL-Library.Signed_Division"
begin

text \<open>
  The packet primitives of \<open>Middlewares/MQTT/MQTTPacket/MQTTPacket.c\<close>: bit fields of the
  fixed header, the variable-length remaining length, integers and length-prefixed strings, and
  the blocking packet reader.

  A writer is the list of bytes it stores from its pointer on (the pointer advances by the length
  of the list).  A reader works on a cursor: the bytes from the pointer to the end of the object,
  and the distance \<open>enddata - ptr\<close> as an integer.  Reading past the object is the fault
  \<open>OutOfBounds\<close>.
\<close>

section \<open>Bit fields\<close>

text \<open>
  The bit fields of \<open>MQTTHeader\<close>, \<open>MQTTConnectFlags\<close> and \<open>MQTTConnackFlags\<close>, least
  significant field first.  Storing a value into a field keeps its low bits.
\<close>

definition get_field :: "nat \<Rightarrow> nat \<Rightarrow> u8 \<Rightarrow> u8" where
  "get_field lo w b = take_bit w (drop_bit lo b)"

definition set_field :: "nat \<Rightarrow> nat \<Rightarrow> u8 \<Rightarrow> u8 \<Rightarrow> u8" where
  "set_field lo w v b = (b AND NOT (push_bit lo (mask w))) OR push_bit lo (take_bit w v)"

lemma bit_get_field: "bit (get_field lo w b) i \<longleftrightarrow> i < w \<and> bit b (lo + i)"
  by (auto simp: get_field_def bit_simps add.commute)

lemma bit_set_field:
  "bit (set_field lo w v b) i \<longleftrightarrow>
     i < 8 \<and> (if lo \<le> i \<and> i < lo + w then bit v (i - lo) else bit b i)"
  by (auto simp: set_field_def bit_simps dest: bit_imp_le_length)

lemma get_set_field:
  assumes "lo + w \<le> 8"
  shows "get_field lo w (set_field lo w v b) = take_bit w v"
  using assms by (intro bit_eqI) (auto simp: bit_get_field bit_set_field bit_simps)

lemma get_set_field_other:
  assumes "lo' + w' \<le> lo \<or> lo + w \<le> lo'"
  shows "get_field lo' w' (set_field lo w v b) = get_field lo' w' b"
  using assms
  by (intro bit_eqI) (auto simp: bit_get_field bit_set_field dest: bit_imp_le_length)

lemmas bitfield_simps = get_set_field get_set_field_other

definition hdr_retain :: "u8 \<Rightarrow> u8" where "hdr_retain = get_field 0 1"
definition hdr_qos :: "u8 \<Rightarrow> u8" where "hdr_qos = get_field 1 2"
definition hdr_dup :: "u8 \<Rightarrow> u8" where "hdr_dup = get_field 3 1"
definition hdr_type :: "u8 \<Rightarrow> u8" where "hdr_type = get_field 4 4"

definition set_retain :: "u8 \<Rightarrow> u8 \<Rightarrow> u8" where "set_retain = set_field 0 1"
definition set_qos :: "u8 \<Rightarrow> u8 \<Rightarrow> u8" where "set_qos = set_field 1 2"
definition set_dup :: "u8 \<Rightarrow> u8 \<Rightarrow> u8" where "set_dup = set_field 3 1"
definition set_type :: "u8 \<Rightarrow> u8 \<Rightarrow> u8" where "set_type = set_field 4 4"

lemmas hdr_defs = hdr_retain_def hdr_qos_def hdr_dup_def hdr_type_def
  set_retain_def set_qos_def set_dup_def set_type_def

lemma hdr_set [simp]:
  "hdr_type (set_type t b) = take_bit 4 t" "hdr_type (set_dup d b) = hdr_type b"
  "hdr_type (set_qos q b) = hdr_type b" "hdr_type (set_retain r b) = hdr_type b"
  "hdr_dup (set_dup d b) = take_bit 1 d" "hdr_dup (set_type t b) = hdr_dup b"
  "hdr_dup (set_qos q b) = hdr_dup b" "hdr_dup (set_retain r b) = hdr_dup b"
  "hdr_qos (set_qos q b) = take_bit 2 q" "hdr_qos (set_type t b) = hdr_qos b"
  "hdr_qos (set_dup d b) = hdr_qos b" "hdr_qos (set_retain r b) = hdr_qos b"
  "hdr_retain (set_retain r b) = take_bit 1 r" "hdr_retain (set_type t b) = hdr_retain b"
  "hdr_retain (set_dup d b) = hdr_retain b" "hdr_retain (set_qos q b) = hdr_retain b"
  by (simp_all add: hdr_defs bitfield_simps)

section \<open>Packet types and error codes\<close>

definition MQTTPACKET_BUFFER_TOO_SHORT :: int where "MQTTPACKET_BUFFER_TOO_SHORT = -2"
definition MQTTPACKET_READ_ERROR :: int where "MQTTPACKET_READ_ERROR = -1"

definition CONNECT :: u8 where "CONNECT = 1"
definition CONNACK :: u8 where "CONNACK = 2"
definition PUBLISH :: u8 where "PUBLISH = 3"
definition PUBACK :: u8 where "PUBACK = 4"
definition PUBREC :: u8 where "PUBREC = 5"
definition PUBREL :: u8 where "PUBREL = 6"
definition PUBCOMP :: u8 where "PUBCOMP = 7"
definition SUBSCRIBE :: u8 where "SUBSCRIBE = 8"
definition SUBACK :: u8 where "SUBACK = 9"
definition UNSUBSCRIBE :: u8 where "UNSUBSCRIBE = 10"
definition UNSUBACK :: u8 where "UNSUBACK = 11"
definition PINGREQ :: u8 where "PINGREQ = 12"
definition PINGRESP :: u8 where "PINGRESP = 13"
definition DISCONNECT :: u8 where "DISCONNECT = 14"

lemmas msgTypes_defs [ibox_defs] = CONNECT_def CONNACK_def PUBLISH_def PUBACK_def PUBREC_def
  PUBREL_def PUBCOMP_def SUBSCRIBE_def SUBACK_def UNSUBSCRIBE_def UNSUBACK_def PINGREQ_def
  PINGRESP_def DISCONNECT_def

section \<open>Remaining length\<close>

text \<open>
  \<open>MQTTPacket_encode\<close> with C's truncating division, so that a negative length writes one
  byte.
\<close>

function MQTTPacket_encode :: "int \<Rightarrow> bytes" where
  "MQTTPacket_encode len =
     (let d = of_int (len smod 128); len' = len sdiv 128
      in if len' > 0 then (d OR 0x80) # MQTTPacket_encode len' else [d])"
  by pat_completeness auto
termination
proof (relation "measure nat")
  fix len :: int and x :: u8 and y
  assume "y = len sdiv 128" and "0 < y"
  then show "(y, len) \<in> measure nat"
    by (auto simp: signed_divide_int_def sgn_if split: if_splits)
qed simp

declare MQTTPacket_encode.simps [simp del]

text \<open>
  A \<open>getfn\<close> reads \<open>count\<close> bytes: its result, the bytes it stored and the state of the
  source afterwards.
\<close>

type_synonym 'w getfn = "int \<Rightarrow> 'w \<Rightarrow> (int \<times> bytes \<times> 'w) c_result"

definition MAX_NO_OF_REMAINING_LENGTH_BYTES :: nat where
  "MAX_NO_OF_REMAINING_LENGTH_BYTES = 4"

function decode_loop :: "'w getfn \<Rightarrow> nat \<Rightarrow> int \<Rightarrow> int \<Rightarrow> 'w \<Rightarrow> (nat \<times> int \<times> 'w) c_result" where
  "decode_loop getcharfn len multiplier value w =
     (if Suc len > MAX_NO_OF_REMAINING_LENGTH_BYTES then Inr (Suc len, value, w)
      else bindR (getcharfn 1 w) (\<lambda>(rc, bs, w').
        if rc \<noteq> 1 then Inr (Suc len, value, w')
        else let c = hd bs; value' = value + uint (c AND 127) * multiplier
             in if c AND 128 \<noteq> 0 then decode_loop getcharfn (Suc len) (multiplier * 128) value' w'
                else Inr (Suc len, value', w')))"
  by pat_completeness auto
termination
  by (relation "measure (\<lambda>(g, len, m, v, w). MAX_NO_OF_REMAINING_LENGTH_BYTES - len)") auto

declare decode_loop.simps [simp del]

definition MQTTPacket_decode :: "'w getfn \<Rightarrow> 'w \<Rightarrow> (nat \<times> int \<times> 'w) c_result" where
  "MQTTPacket_decode getcharfn w = decode_loop getcharfn 0 1 0 w"

definition MQTTPacket_len :: "int \<Rightarrow> int" where
  "MQTTPacket_len rem_len =
     (let r = rem_len + 1
      in if r < 128 then r + 1 else if r < 16384 then r + 2 else if r < 2097151 then r + 3 else r + 4)"

text \<open>\<open>bufchar\<close> stores every byte at the same address: the last one stays.\<close>

definition bufchar :: "bytes getfn" where
  "bufchar count bufptr =
     (if count \<le> 0 then Inr (count, [], bufptr)
      else if nat count \<le> length bufptr
      then Inr (count, [bufptr ! (nat count - 1)], drop (nat count) bufptr)
      else Inl OutOfBounds)"

definition MQTTPacket_decodeBuf :: "bytes \<Rightarrow> (nat \<times> int) c_result" where
  "MQTTPacket_decodeBuf buf =
     bindR (MQTTPacket_decode bufchar buf) (\<lambda>(len, value, _). Inr (len, value))"

section \<open>Cursors\<close>

type_synonym cursor = "bytes \<times> int"

definition readInt :: "cursor \<Rightarrow> (int \<times> cursor) c_result" where
  "readInt c = (case fst c of
       a # b # r \<Rightarrow> Inr (256 * uint a + uint b, r, snd c - 2)
     | _ \<Rightarrow> Inl OutOfBounds)"

definition readChar :: "cursor \<Rightarrow> (u8 \<times> cursor) c_result" where
  "readChar c = (case fst c of a # r \<Rightarrow> Inr (a, r, snd c - 1) | [] \<Rightarrow> Inl OutOfBounds)"

text \<open>Moving the pointer by \<open>n\<close> without reading.\<close>

definition skip :: "nat \<Rightarrow> cursor \<Rightarrow> cursor c_result" where
  "skip n c = (if n \<le> length (fst c) then Inr (drop n (fst c), snd c - int n) else Inl OutOfBounds)"

definition writeInt :: "int \<Rightarrow> bytes" where
  "writeInt anInt = [of_int (anInt sdiv 256), of_int (anInt smod 256)]"

definition writeCString :: "bytes \<Rightarrow> bytes" where
  "writeCString string = writeInt (int (length string)) @ string"

definition getLenStringLen :: "bytes \<Rightarrow> int c_result" where
  "getLenStringLen p = (case p of
       a # b # _ \<Rightarrow> Inr (256 * uint a + uint b)
     | _ \<Rightarrow> Inl OutOfBounds)"

section \<open>Strings\<close>

text \<open>
  \<open>MQTTString\<close>: a pointer is the bytes it points to, \<open>None\<close> is NULL; a C string is
  without its NUL.
\<close>

record MQTTString =
  cstring :: "bytes option"
  ls_len :: int
  ls_data :: "bytes option"

definition MQTTString_initializer :: MQTTString where
  "MQTTString_initializer = \<lparr>cstring = None, ls_len = 0, ls_data = None\<rparr>"

definition copy_from :: "bytes option \<Rightarrow> int \<Rightarrow> bytes c_result" where
  "copy_from src n = (case src of
       Some d \<Rightarrow> if 0 \<le> n \<and> n \<le> int (length d) then Inr (take (nat n) d) else Inl OutOfBounds
     | None \<Rightarrow> if n = 0 then Inr [] else Inl OutOfBounds)"

definition writeMQTTString :: "MQTTString \<Rightarrow> bytes c_result" where
  "writeMQTTString s =
     (if ls_len s > 0 then
        bindR (copy_from (ls_data s) (ls_len s)) (\<lambda>d. Inr (writeInt (ls_len s) @ d))
      else case cstring s of
             Some c \<Rightarrow> Inr (writeCString c)
           | None \<Rightarrow> Inr (writeInt 0))"

text \<open>
  \<open>readMQTTLenString\<close>: whether it succeeded, the string as left in \<open>*mqttstring\<close> and
  the cursor.  When the length does not fit, the length field is set all the same.
\<close>

definition readMQTTLenString :: "MQTTString \<Rightarrow> cursor \<Rightarrow> (bool \<times> MQTTString \<times> cursor) c_result" where
  "readMQTTLenString s c =
     (if snd c > 1 then
        bindR (readInt c) (\<lambda>(n, c').
          if n \<le> snd c' then
            bindR (copy_from (Some (fst c')) n) (\<lambda>d.
            bindR (skip (nat n) c') (\<lambda>c''.
              Inr (True, s\<lparr>ls_len := n, ls_data := Some d, cstring := None\<rparr>, c'')))
          else Inr (False, s\<lparr>ls_len := n, cstring := None\<rparr>, c'))
      else Inr (False, s\<lparr>cstring := None\<rparr>, c))"

definition MQTTstrlen :: "MQTTString \<Rightarrow> int" where
  "MQTTstrlen s = (case cstring s of Some c \<Rightarrow> int (length c) | None \<Rightarrow> ls_len s)"

text \<open>
  \<open>MQTTPacket_equals\<close>: \<open>strncmp\<close> over equal lengths stops at a common NUL.
\<close>

fun strncmp_eq :: "nat \<Rightarrow> bytes \<Rightarrow> bytes \<Rightarrow> bool" where
  "strncmp_eq 0 a b = True"
| "strncmp_eq (Suc n) (a # as) (b # bs) = (a = b \<and> (a = 0 \<or> strncmp_eq n as bs))"
| "strncmp_eq (Suc n) _ _ = False"

definition MQTTPacket_equals :: "MQTTString \<Rightarrow> bytes \<Rightarrow> bool" where
  "MQTTPacket_equals a bptr =
     (let (aptr, alen) = (case cstring a of
            Some c \<Rightarrow> (c, int (length c))
          | None \<Rightarrow> (case ls_data a of Some d \<Rightarrow> d | None \<Rightarrow> [], ls_len a))
      in alen = int (length bptr) \<and> strncmp_eq (nat alen) aptr bptr)"

section \<open>Reading a packet\<close>

text \<open>
  \<open>MQTTPacket_read\<close>: its result, the bytes stored from the start of \<open>buf\<close>, and the
  source afterwards.
\<close>

definition MQTTPacket_read :: "int \<Rightarrow> 'w getfn \<Rightarrow> 'w \<Rightarrow> (int \<times> bytes \<times> 'w) c_result" where
  "MQTTPacket_read buflen getfn w =
     bindR (getfn 1 w) (\<lambda>(rc, h, w1).
       if rc \<noteq> 1 then Inr (-1, h, w1)
       else bindR (MQTTPacket_decode getfn w1) (\<lambda>(_, rem_len, w2).
         let b = h @ MQTTPacket_encode rem_len; len = 1 + int (length (MQTTPacket_encode rem_len))
         in if rem_len + len > buflen then Inr (-1, b, w2)
            else if rem_len = 0 then Inr (uint (hdr_type (hd h)), b, w2)
            else bindR (getfn rem_len w2) (\<lambda>(rc', d, w3).
              if rc' \<noteq> rem_len then Inr (-1, b @ d, w3)
              else Inr (uint (hdr_type (hd h)), b @ d, w3))))"

section \<open>Facts about the primitives\<close>

lemma encode_nonneg:
  assumes "0 \<le> n"
  shows "MQTTPacket_encode n =
    (if n < 128 then [of_int n] else (of_int (n mod 128) OR 0x80) # MQTTPacket_encode (n div 128))"
proof -
  have "n sdiv 128 = n div 128" "n smod 128 = n mod 128"
    using assms by (auto simp: signed_divide_int_def signed_modulo_int_def sgn_if)
  moreover have "0 < n div 128 \<longleftrightarrow> \<not> n < 128" using assms by arith
  ultimately show ?thesis
    using assms by (simp add: MQTTPacket_encode.simps [of n] Let_def)
qed

lemma encode_length_le:
  "0 \<le> n \<Longrightarrow> n < 128 ^ Suc k \<Longrightarrow> length (MQTTPacket_encode n) \<le> Suc k"
proof (induction k arbitrary: n)
  case 0
  then show ?case by (simp add: encode_nonneg)
next
  case (Suc k)
  have "x div 128 < K" if "x < 128 * K" for x K :: int using that by arith
  with Suc.prems have "n div 128 < 128 ^ Suc k" by simp
  with Suc show ?case by (auto simp: encode_nonneg [of n])
qed

lemma encode_fits:
  assumes "0 \<le> n" and "n < 268435456"
  shows "1 + int (length (MQTTPacket_encode n)) + n \<le> MQTTPacket_len n"
  using assms encode_length_le [of n 0] encode_length_le [of n 1] encode_length_le [of n 2]
    encode_length_le [of n 3] by (auto simp: MQTTPacket_len_def Let_def)

text \<open>The digits of the encoding, as the decoder reads them.\<close>

lemma u8_and_127: "uint (x AND 127 :: u8) = uint x mod 128"
proof -
  have "(127 :: u8) = mask 7" by (simp add: mask_eq_exp_minus_1)
  then have "x AND 127 = take_bit 7 x" by (simp only: take_bit_eq_mask)
  then show ?thesis by (simp only: unsigned_take_bit_eq) (simp add: take_bit_eq_mod)
qed

lemma u8_and_128: "x AND 128 = (0 :: u8) \<longleftrightarrow> \<not> bit x 7"
proof -
  have "(128 :: u8) = 2 ^ 7" by simp
  then show ?thesis by (simp only: and_exp_eq_0_iff_not_bit)
qed

lemma digit_last:
  assumes "0 \<le> n" and "n < 128"
  shows "uint ((of_int n :: u8) AND 127) = n" and "(of_int n :: u8) AND 128 = 0"
proof -
  have "uint (of_int n :: u8) = n" using assms by (simp add: unsigned_of_int take_bit_int_eq_self)
  then show "uint ((of_int n :: u8) AND 127) = n" using assms by (simp add: u8_and_127)
  have "\<not> bit n 7" using assms by (simp add: bit_iff_odd)
  then show "(of_int n :: u8) AND 128 = 0" by (simp only: u8_and_128 bit_simps) simp
qed

lemma digit_more:
  assumes "0 \<le> d" and "d < 128"
  shows "uint (((of_int d :: u8) OR 0x80) AND 127) = d" and "((of_int d :: u8) OR 0x80) AND 128 \<noteq> 0"
proof -
  have e: "(0x80 :: u8) = push_bit 7 1" by simp
  have "((of_int d :: u8) OR 0x80) AND 127 = of_int d AND 127"
    by (simp add: bit.conj_disj_distrib2)
  then show "uint (((of_int d :: u8) OR 0x80) AND 127) = d" using digit_last(1) [OF assms] by simp
  show "((of_int d :: u8) OR 0x80) AND 128 \<noteq> 0"
    by (simp only: u8_and_128 e) (simp add: bit_simps)
qed

lemma digit_sum:
  fixes n a b m v :: int
  assumes "n = a + b * 128"
  shows "v + a * m + b * (m * 128) = v + n * m"
  unfolding assms by (simp add: distrib_right)

section \<open>Byte sources\<close>

text \<open>
  What the packet layer relies on: with enough unread bytes, \<open>getfn\<close> delivers the number of
  bytes it was asked for, in order.  The decoder only asks for single bytes.
\<close>

locale byte_getter =
  fixes invar :: "'w \<Rightarrow> bool"
    and unread :: "'w \<Rightarrow> bytes"
    and getfn :: "'w getfn"
  assumes get_byte: "invar w \<Longrightarrow> unread w = b # bs \<Longrightarrow>
    \<exists>w'. getfn 1 w = Inr (1, [b], w') \<and> invar w' \<and> unread w' = bs"
begin

lemma decode_loop_encode:
  assumes "invar w" and "unread w = MQTTPacket_encode n @ rest" and "0 \<le> n"
    and "len + length (MQTTPacket_encode n) \<le> MAX_NO_OF_REMAINING_LENGTH_BYTES"
  shows "\<exists>w'. decode_loop getfn len m v w =
      Inr (len + length (MQTTPacket_encode n), v + n * m, w') \<and> invar w' \<and> unread w' = rest"
  using assms
proof (induction n arbitrary: len m v w rule: MQTTPacket_encode.induct)
  case (1 n)
  show ?case
  proof (cases "n < 128")
    case True
    then have e: "MQTTPacket_encode n = [of_int n]" using "1.prems" by (simp add: encode_nonneg)
    then obtain w' where "getfn 1 w = Inr (1, [of_int n], w')" "invar w'" "unread w' = rest"
      using get_byte [of w "of_int n" rest] "1.prems" by auto
    then show ?thesis
      using "1.prems" e True digit_last [of n] by (simp add: decode_loop.simps [of _ len])
  next
    case False
    let ?d = "of_int (n mod 128) OR 0x80 :: u8"
    have e: "MQTTPacket_encode n = ?d # MQTTPacket_encode (n div 128)"
      using False "1.prems" by (simp add: encode_nonneg [of n])
    obtain w' where g: "getfn 1 w = Inr (1, [?d], w')" "invar w'"
      "unread w' = MQTTPacket_encode (n div 128) @ rest"
      using get_byte [of w ?d] "1.prems" e by auto
    have q: "n sdiv 128 = n div 128" and "0 < n div 128"
      using False "1.prems"(3) by (auto simp: signed_divide_int_def sgn_if)
    then obtain w'' where "decode_loop getfn (Suc len) (m * 128) (v + (n mod 128) * m) w' =
        Inr (Suc len + length (MQTTPacket_encode (n div 128)),
          v + (n mod 128) * m + n div 128 * (m * 128), w'')" "invar w''" "unread w'' = rest"
      using "1.IH" [OF refl refl _ g(2), of "Suc len" "m * 128" "v + (n mod 128) * m"] g(3) e "1.prems"(4)
      by auto
    moreover have "v + (n mod 128) * m + n div 128 * (m * 128) = v + n * m"
      by (rule digit_sum) simp
    ultimately show ?thesis
      using e g(1) "1.prems"(4) digit_more [of "n mod 128"]
      by (simp add: decode_loop.simps [of _ len])
  qed
qed

lemma decode_encode:
  assumes "invar w" and "unread w = MQTTPacket_encode n @ rest" and "0 \<le> n" and "n < 268435456"
  shows "\<exists>w'. MQTTPacket_decode getfn w = Inr (length (MQTTPacket_encode n), n, w') \<and>
    invar w' \<and> unread w' = rest"
  using decode_loop_encode [OF assms(1-3), of 0 1 0] encode_length_le [of n 3] assms(3,4)
  by (simp add: MQTTPacket_decode_def MAX_NO_OF_REMAINING_LENGTH_BYTES_def)

end

locale byte_source = byte_getter +
  assumes get_bytes: "invar w \<Longrightarrow> unread w = bs @ rest \<Longrightarrow> bs \<noteq> [] \<Longrightarrow>
    \<exists>w'. getfn (int (length bs)) w = Inr (int (length bs), bs, w') \<and> invar w' \<and> unread w' = rest"
begin

lemma read_packet:
  assumes "invar w" and "unread w = h # MQTTPacket_encode (int (length d)) @ d @ rest"
    and "length d < 268435456" and "1 + length (MQTTPacket_encode (int (length d))) + length d \<le> n"
    and "int n \<le> buflen"
  shows "\<exists>w'. MQTTPacket_read buflen getfn w =
      Inr (uint (hdr_type h), h # MQTTPacket_encode (int (length d)) @ d, w') \<and>
    invar w' \<and> unread w' = rest"
proof -
  obtain w1 where w1: "getfn 1 w = Inr (1, [h], w1)" "invar w1"
    "unread w1 = MQTTPacket_encode (int (length d)) @ d @ rest"
    using get_byte [OF assms(1,2)] by auto
  obtain w2 where w2: "MQTTPacket_decode getfn w1 =
      Inr (length (MQTTPacket_encode (int (length d))), int (length d), w2)" "invar w2" "unread w2 = d @ rest"
    using decode_encode [OF w1(2,3)] assms(3) by auto
  show ?thesis
  proof (cases "d = []")
    case True
    then show ?thesis using w1 w2 assms(4,5) by (simp add: MQTTPacket_read_def)
  next
    case False
    then obtain w3 where "getfn (int (length d)) w2 = Inr (int (length d), d, w3)" "invar w3" "unread w3 = rest"
      using get_bytes [OF w2(2,3)] by auto
    then show ?thesis using w1 w2 False assms(4,5) by (simp add: MQTTPacket_read_def)
  qed
qed

end

text \<open>The buffer reader delivers single bytes only.\<close>

interpretation bufsrc: byte_getter "\<lambda>_. True" "\<lambda>p. p" bufchar
  by unfold_locales (simp add: bufchar_def)

lemma decodeBuf_encode:
  assumes "0 \<le> n" and "n < 268435456"
  shows "MQTTPacket_decodeBuf (MQTTPacket_encode n @ rest) = Inr (length (MQTTPacket_encode n), n)"
  using bufsrc.decode_encode [of "MQTTPacket_encode n @ rest" n rest] assms
  by (auto simp: MQTTPacket_decodeBuf_def)

end
