(* ===== verification/Mqtt_Serialize.thy ===== *)
theory Mqtt_Serialize
  imports Mqtt_Packet
begin

text \<open>
  The packet serializers and deserializers of \<open>Middlewares/MQTT/MQTTPacket\<close>:
  \<open>MQTTConnectClient.c\<close>, \<open>MQTTConnectServer.c\<close>, \<open>MQTTSerializePublish.c\<close>,
  \<open>MQTTDeserializePublish.c\<close>, \<open>MQTTSubscribeClient.c\<close>, \<open>MQTTSubscribeServer.c\<close>,
  \<open>MQTTUnsubscribeClient.c\<close> and \<open>MQTTUnsubscribeServer.c\<close>.

  A serializer returns its result code and the bytes it stored from the start of the buffer.  A
  deserializer takes the buffer and the previous values of its output parameters and returns its
  result code and their new values.  \<open>char\<close> is unsigned, as on the target.
\<close>

lemma readChar_less: "readChar c = Inr (x, c') \<Longrightarrow> snd c' = snd c - 1"
  by (auto simp: readChar_def split: list.splits)

lemma readInt_less: "readInt c = Inr (n, c') \<Longrightarrow> snd c' = snd c - 2 \<and> 0 \<le> n"
  by (auto simp: readInt_def split: list.splits)

lemma skip_less: "skip n c = Inr c' \<Longrightarrow> snd c' = snd c - int n"
  by (auto simp: skip_def split: if_splits)

lemma readMQTTLenString_less: "readMQTTLenString s c = Inr (True, t, c') \<Longrightarrow> 1 < snd c \<and> snd c' \<le> snd c - 2"
  by (auto simp: readMQTTLenString_def bindR_eq_Inr split: if_splits dest!: readInt_less skip_less)

section \<open>CONNECT and CONNACK\<close>

definition cf_cleansession :: "u8 \<Rightarrow> u8" where "cf_cleansession = get_field 1 1"
definition cf_will :: "u8 \<Rightarrow> u8" where "cf_will = get_field 2 1"
definition cf_willQoS :: "u8 \<Rightarrow> u8" where "cf_willQoS = get_field 3 2"
definition cf_willRetain :: "u8 \<Rightarrow> u8" where "cf_willRetain = get_field 5 1"
definition cf_password :: "u8 \<Rightarrow> u8" where "cf_password = get_field 6 1"
definition cf_username :: "u8 \<Rightarrow> u8" where "cf_username = get_field 7 1"

lemmas cf_defs = cf_cleansession_def cf_will_def cf_willQoS_def cf_willRetain_def cf_password_def
  cf_username_def

text \<open>
  \<open>MQTTPacket_willOptions\<close> and \<open>MQTTPacket_connectData\<close>; the eye-catcher and structure
  version fields are never read.
\<close>

record MQTTPacket_willOptions =
  w_topicName :: MQTTString
  w_message :: MQTTString
  w_retained :: u8
  w_qos :: u8

record MQTTPacket_connectData =
  MQTTVersion :: u8
  clientID :: MQTTString
  keepAliveInterval :: u16
  cleansession :: u8
  willFlag :: u8
  will :: MQTTPacket_willOptions
  username :: MQTTString
  password :: MQTTString

definition MQTTPacket_willOptions_initializer :: MQTTPacket_willOptions where
  "MQTTPacket_willOptions_initializer =
     \<lparr>w_topicName = MQTTString_initializer, w_message = MQTTString_initializer, w_retained = 0, w_qos = 0\<rparr>"

definition MQTTPacket_connectData_initializer :: MQTTPacket_connectData where
  "MQTTPacket_connectData_initializer =
     \<lparr>MQTTVersion = 4, clientID = MQTTString_initializer, keepAliveInterval = 60, cleansession = 1,
      willFlag = 0, will = MQTTPacket_willOptions_initializer,
      username = MQTTString_initializer, password = MQTTString_initializer\<rparr>"

definition has_str :: "MQTTString \<Rightarrow> bool" where
  "has_str s \<longleftrightarrow> cstring s \<noteq> None \<or> ls_data s \<noteq> None"

definition MQTTSerialize_connectLength :: "MQTTPacket_connectData \<Rightarrow> int" where
  "MQTTSerialize_connectLength ou =
     (if MQTTVersion ou = 3 then 12 else if MQTTVersion ou = 4 then 10 else 0)
     + (MQTTstrlen (clientID ou) + 2)
     + (if willFlag ou \<noteq> 0
        then MQTTstrlen (w_topicName (will ou)) + 2 + MQTTstrlen (w_message (will ou)) + 2 else 0)
     + (if has_str (username ou) then MQTTstrlen (username ou) + 2 else 0)
     + (if has_str (password ou) then MQTTstrlen (password ou) + 2 else 0)"

definition connect_flags :: "MQTTPacket_connectData \<Rightarrow> u8" where
  "connect_flags ou =
     (let f0 = set_field 1 1 (cleansession ou) 0;
          f1 = set_field 2 1 (if willFlag ou \<noteq> 0 then 1 else 0) f0;
          f2 = (if cf_will f1 \<noteq> 0
                then set_field 5 1 (w_retained (will ou)) (set_field 3 2 (w_qos (will ou)) f1) else f1);
          f3 = (if has_str (username ou) then set_field 7 1 1 f2 else f2)
      in if has_str (password ou) then set_field 6 1 1 f3 else f3)"

definition write_if :: "bool \<Rightarrow> MQTTString \<Rightarrow> bytes c_result" where
  "write_if c s = (if c then writeMQTTString s else Inr [])"

definition MQTTSerialize_connect :: "int \<Rightarrow> MQTTPacket_connectData \<Rightarrow> (int \<times> bytes) c_result" where
  "MQTTSerialize_connect buflen ou =
     (let len = MQTTSerialize_connectLength ou; flags = connect_flags ou
      in if MQTTPacket_len len > buflen then Inr (MQTTPACKET_BUFFER_TOO_SHORT, [])
         else bindR (writeMQTTString (clientID ou)) (\<lambda>cid.
              bindR (write_if (willFlag ou \<noteq> 0) (w_topicName (will ou))) (\<lambda>wt.
              bindR (write_if (willFlag ou \<noteq> 0) (w_message (will ou))) (\<lambda>wm.
              bindR (write_if (cf_username flags \<noteq> 0) (username ou)) (\<lambda>un.
              bindR (write_if (cf_password flags \<noteq> 0) (password ou)) (\<lambda>pw.
                let b = set_type CONNECT 0 # MQTTPacket_encode len
                  @ (if MQTTVersion ou = 4 then writeCString (str_bytes ''MQTT'') @ [4]
                     else writeCString (str_bytes ''MQIsdp'') @ [3])
                  @ [flags] @ writeInt (uint (keepAliveInterval ou)) @ cid @ wt @ wm @ un @ pw
                in Inr (int (length b), b)))))))"

text \<open>
  The remaining length at the cursor \<open>p\<close>, and the cursor behind it with \<open>enddata\<close> set
  from it; the first component is what \<open>MQTTPacket_decodeBuf\<close> returned.
\<close>

definition body_cursor :: "bytes \<Rightarrow> (int \<times> cursor) c_result" where
  "body_cursor p =
     bindR (MQTTPacket_decodeBuf p) (\<lambda>(n, mylen).
     bindR (skip n (p, int n + mylen)) (\<lambda>c. Inr (int n, c)))"

record connack_out =
  co_sessionPresent :: u8
  co_rc :: u8

definition MQTTDeserialize_connack :: "bytes \<Rightarrow> connack_out \<Rightarrow> (int \<times> connack_out) c_result" where
  "MQTTDeserialize_connack buf ou =
     bindR (readChar (buf, 0)) (\<lambda>(header, c0).
       if hdr_type header \<noteq> CONNACK then Inr (0, ou)
       else bindR (body_cursor (fst c0)) (\<lambda>(rc, c).
         if snd c < 2 then Inr (rc, ou)
         else bindR (readChar c) (\<lambda>(flags, c1).
              bindR (readChar c1) (\<lambda>(r, _).
                Inr (1, ou\<lparr>co_sessionPresent := get_field 0 1 flags, co_rc := r\<rparr>)))))"

definition MQTTSerialize_zero :: "int \<Rightarrow> u8 \<Rightarrow> int \<times> bytes" where
  "MQTTSerialize_zero buflen packettype =
     (if buflen < 2 then (MQTTPACKET_BUFFER_TOO_SHORT, [])
      else let b = set_type packettype 0 # MQTTPacket_encode 0 in (int (length b), b))"

definition MQTTSerialize_disconnect :: "int \<Rightarrow> int \<times> bytes" where
  "MQTTSerialize_disconnect buflen = MQTTSerialize_zero buflen DISCONNECT"

definition MQTTSerialize_pingreq :: "int \<Rightarrow> int \<times> bytes" where
  "MQTTSerialize_pingreq buflen = MQTTSerialize_zero buflen PINGREQ"

text \<open>\<open>memcmp\<close> over the first \<open>n\<close> bytes; the object must hold them.\<close>

definition memcmp_eq :: "bytes option \<Rightarrow> bytes \<Rightarrow> int \<Rightarrow> bool c_result" where
  "memcmp_eq a b n = bindR (copy_from a n) (\<lambda>x. Inr (x = take (nat n) b))"

definition MQTTPacket_checkVersion :: "MQTTString \<Rightarrow> int \<Rightarrow> int c_result" where
  "MQTTPacket_checkVersion protocol version =
     bindR (if version = 3 then memcmp_eq (ls_data protocol) (str_bytes ''MQIsdp'') (min 6 (ls_len protocol))
            else Inr False) (\<lambda>r3.
     if r3 then Inr 1
     else bindR (if version = 4 then memcmp_eq (ls_data protocol) (str_bytes ''MQTT'') (min 4 (ls_len protocol))
                 else Inr False) (\<lambda>r4. Inr (if r4 then 1 else 0)))"

text \<open>
  The two ends of \<open>MQTTDeserialize_connect\<close>: the will, and the credentials; \<open>False\<close> is
  the \<open>goto exit\<close>.
\<close>

definition connect_will :: "u8 \<Rightarrow> MQTTPacket_connectData \<Rightarrow> cursor \<Rightarrow>
    (bool \<times> MQTTPacket_connectData \<times> cursor) c_result" where
  "connect_will flags d c =
     (if cf_will flags = 0 then Inr (True, d, c)
      else let d1 = d\<lparr>will := (will d)\<lparr>w_qos := cf_willQoS flags, w_retained := cf_willRetain flags\<rparr>\<rparr>
           in bindR (readMQTTLenString (w_topicName (will d1)) c) (\<lambda>(ok, t, c1).
              let d2 = d1\<lparr>will := (will d1)\<lparr>w_topicName := t\<rparr>\<rparr>
              in if \<not> ok then Inr (False, d2, c1)
                 else bindR (readMQTTLenString (w_message (will d2)) c1) (\<lambda>(ok', m, c2).
                   Inr (ok', d2\<lparr>will := (will d2)\<lparr>w_message := m\<rparr>\<rparr>, c2))))"

definition connect_user :: "u8 \<Rightarrow> MQTTPacket_connectData \<Rightarrow> cursor \<Rightarrow>
    (bool \<times> MQTTPacket_connectData) c_result" where
  "connect_user flags d c =
     (if cf_username flags \<noteq> 0 then
        (if snd c < 3 then Inr (False, d)
         else bindR (readMQTTLenString (username d) c) (\<lambda>(ok, u, c1).
           let d1 = d\<lparr>username := u\<rparr>
           in if \<not> ok then Inr (False, d1)
              else if cf_password flags \<noteq> 0 then
                (if snd c1 < 3 then Inr (False, d1)
                 else bindR (readMQTTLenString (password d1) c1) (\<lambda>(ok', p, c2).
                   Inr (ok', d1\<lparr>password := p\<rparr>)))
              else Inr (True, d1)))
      else Inr (cf_password flags = 0, d))"

definition MQTTDeserialize_connect ::
    "bytes \<Rightarrow> int \<Rightarrow> MQTTPacket_connectData \<Rightarrow> (int \<times> MQTTPacket_connectData) c_result" where
  "MQTTDeserialize_connect buf len d =
     bindR (readChar (buf, len)) (\<lambda>(header, c0).
       if hdr_type header \<noteq> CONNECT then Inr (0, d)
       else bindR (MQTTPacket_decodeBuf (fst c0)) (\<lambda>(n, mylen).
            bindR (skip n c0) (\<lambda>c1.
            bindR (readMQTTLenString MQTTString_initializer c1) (\<lambda>(ok, Protocol, c2).
              if \<not> ok \<or> snd c2 < 0 then Inr (0, d)
              else bindR (readChar c2) (\<lambda>(version, c3).
                   bindR (MQTTPacket_checkVersion Protocol (uint version)) (\<lambda>v.
                     if v = 0 then Inr (0, d)
                     else bindR (readChar c3) (\<lambda>(flags, c4).
                          bindR (readInt c4) (\<lambda>(k, c5).
                          let d1 = d\<lparr>cleansession := cf_cleansession flags, keepAliveInterval := of_int k\<rparr>
                          in bindR (readMQTTLenString (clientID d1) c5) (\<lambda>(ok', cid, c6).
                             let d2 = d1\<lparr>clientID := cid\<rparr>
                             in if \<not> ok' then Inr (0, d2)
                                else bindR (connect_will flags (d2\<lparr>willFlag := cf_will flags\<rparr>) c6) (\<lambda>(ok'', d3, c7).
                                  if \<not> ok'' then Inr (0, d3)
                                  else bindR (connect_user flags d3 c7) (\<lambda>(ok3, d4).
                                    Inr (if ok3 then 1 else 0, d4))))))))))))"

definition MQTTSerialize_connack :: "int \<Rightarrow> u8 \<Rightarrow> u8 \<Rightarrow> int \<times> bytes" where
  "MQTTSerialize_connack buflen connack_rc sessionPresent =
     (if buflen < 2 then (MQTTPACKET_BUFFER_TOO_SHORT, [])
      else let b = set_type CONNACK 0 # MQTTPacket_encode 2
                     @ [set_field 0 1 sessionPresent 0, connack_rc]
           in (int (length b), b))"

section \<open>PUBLISH and acknowledgements\<close>

definition MQTTSerialize_publishLength :: "int \<Rightarrow> MQTTString \<Rightarrow> int \<Rightarrow> int" where
  "MQTTSerialize_publishLength qos topicName payloadlen =
     2 + MQTTstrlen topicName + payloadlen + (if qos > 0 then 2 else 0)"

definition MQTTSerialize_publish ::
    "int \<Rightarrow> u8 \<Rightarrow> int \<Rightarrow> u8 \<Rightarrow> u16 \<Rightarrow> MQTTString \<Rightarrow> bytes \<Rightarrow> int \<Rightarrow> (int \<times> bytes) c_result" where
  "MQTTSerialize_publish buflen dup qos retained packetid topicName payload payloadlen =
     (let rem_len = MQTTSerialize_publishLength qos topicName payloadlen
      in if MQTTPacket_len rem_len > buflen then Inr (MQTTPACKET_BUFFER_TOO_SHORT, [])
         else bindR (writeMQTTString topicName) (\<lambda>t.
              bindR (copy_from (Some payload) payloadlen) (\<lambda>d.
                let b = set_retain retained (set_qos (of_int qos) (set_dup dup (set_type PUBLISH 0)))
                  # MQTTPacket_encode rem_len @ t
                  @ (if qos > 0 then writeInt (uint packetid) else []) @ d
                in Inr (int (length b), b))))"

definition MQTTSerialize_ack :: "int \<Rightarrow> u8 \<Rightarrow> u8 \<Rightarrow> u16 \<Rightarrow> int \<times> bytes" where
  "MQTTSerialize_ack buflen packettype dup packetid =
     (if buflen < 4 then (MQTTPACKET_BUFFER_TOO_SHORT, [])
      else let b = set_qos (if packettype = PUBREL then 1 else 0) (set_dup dup (set_type packettype 0))
                     # MQTTPacket_encode 2 @ writeInt (uint packetid)
           in (int (length b), b))"

definition MQTTSerialize_puback :: "int \<Rightarrow> u16 \<Rightarrow> int \<times> bytes" where
  "MQTTSerialize_puback buflen packetid = MQTTSerialize_ack buflen PUBACK 0 packetid"

definition MQTTSerialize_pubrel :: "int \<Rightarrow> u8 \<Rightarrow> u16 \<Rightarrow> int \<times> bytes" where
  "MQTTSerialize_pubrel buflen dup packetid = MQTTSerialize_ack buflen PUBREL dup packetid"

definition MQTTSerialize_pubcomp :: "int \<Rightarrow> u16 \<Rightarrow> int \<times> bytes" where
  "MQTTSerialize_pubcomp buflen packetid = MQTTSerialize_ack buflen PUBCOMP 0 packetid"

text \<open>
  The outputs of \<open>MQTTDeserialize_publish\<close>; the payload pointer is the rest of the buffer
  from there, of which \<open>po_payloadlen\<close> bytes are the payload.
\<close>

record publish_out =
  po_dup :: u8
  po_qos :: int
  po_retained :: u8
  po_packetid :: u16
  po_topicName :: MQTTString
  po_payload :: bytes
  po_payloadlen :: int

definition MQTTDeserialize_publish :: "bytes \<Rightarrow> publish_out \<Rightarrow> (int \<times> publish_out) c_result" where
  "MQTTDeserialize_publish buf ou =
     bindR (readChar (buf, 0)) (\<lambda>(header, c0).
       if hdr_type header \<noteq> PUBLISH then Inr (0, ou)
       else let o1 = ou\<lparr>po_dup := hdr_dup header, po_qos := uint (hdr_qos header), po_retained := hdr_retain header\<rparr>
            in bindR (body_cursor (fst c0)) (\<lambda>(rc, c).
               bindR (readMQTTLenString (po_topicName o1) c) (\<lambda>(ok, t, c1).
                 let o2 = o1\<lparr>po_topicName := t\<rparr>
                 in if \<not> ok \<or> snd c1 < 0 then Inr (rc, o2)
                    else bindR (if po_qos o2 > 0
                                then bindR (readInt c1) (\<lambda>(k, c2). Inr (o2\<lparr>po_packetid := of_int k\<rparr>, c2))
                                else Inr (o2, c1)) (\<lambda>(o3, c3).
                      Inr (1, o3\<lparr>po_payloadlen := snd c3, po_payload := fst c3\<rparr>)))))"

record ack_out =
  ao_packettype :: u8
  ao_dup :: u8
  ao_packetid :: u16

definition MQTTDeserialize_ack :: "bytes \<Rightarrow> ack_out \<Rightarrow> (int \<times> ack_out) c_result" where
  "MQTTDeserialize_ack buf ou =
     bindR (readChar (buf, 0)) (\<lambda>(header, c0).
       let o1 = ou\<lparr>ao_dup := hdr_dup header, ao_packettype := hdr_type header\<rparr>
       in bindR (body_cursor (fst c0)) (\<lambda>(rc, c).
         if snd c < 2 then Inr (rc, o1)
         else bindR (readInt c) (\<lambda>(k, _). Inr (1, o1\<lparr>ao_packetid := of_int k\<rparr>))))"

section \<open>SUBSCRIBE and SUBACK\<close>

text \<open>Loops over the first \<open>count\<close> elements of the caller's arrays.\<close>

fun topics_len :: "int \<Rightarrow> nat \<Rightarrow> MQTTString list \<Rightarrow> int c_result" where
  "topics_len extra 0 ts = Inr 0"
| "topics_len extra (Suc n) (t # ts) =
     bindR (topics_len extra n ts) (\<lambda>l. Inr (2 + MQTTstrlen t + extra + l))"
| "topics_len extra (Suc n) [] = Inl OutOfBounds"

definition MQTTSerialize_subscribeLength :: "int \<Rightarrow> MQTTString list \<Rightarrow> int c_result" where
  "MQTTSerialize_subscribeLength count topicFilters =
     bindR (topics_len 1 (nat count) topicFilters) (\<lambda>l. Inr (2 + l))"

fun write_topics_qos :: "nat \<Rightarrow> MQTTString list \<Rightarrow> int list \<Rightarrow> bytes c_result" where
  "write_topics_qos 0 ts qs = Inr []"
| "write_topics_qos (Suc n) (t # ts) (q # qs) =
     bindR (writeMQTTString t) (\<lambda>a. bindR (write_topics_qos n ts qs) (\<lambda>r. Inr (a @ of_int q # r)))"
| "write_topics_qos (Suc n) _ _ = Inl OutOfBounds"

definition MQTTSerialize_subscribe ::
    "int \<Rightarrow> u8 \<Rightarrow> u16 \<Rightarrow> int \<Rightarrow> MQTTString list \<Rightarrow> int list \<Rightarrow> (int \<times> bytes) c_result" where
  "MQTTSerialize_subscribe buflen dup packetid count topicFilters requestedQoSs =
     bindR (MQTTSerialize_subscribeLength count topicFilters) (\<lambda>rem_len.
       if MQTTPacket_len rem_len > buflen then Inr (MQTTPACKET_BUFFER_TOO_SHORT, [])
       else bindR (write_topics_qos (nat count) topicFilters requestedQoSs) (\<lambda>ts.
         let b = set_qos 1 (set_dup dup (set_type SUBSCRIBE 0)) # MQTTPacket_encode rem_len
                   @ writeInt (uint packetid) @ ts
         in Inr (int (length b), b)))"

text \<open>
  \<open>MQTTDeserialize_suback\<close> stores into the caller's array \<open>grantedQoSs\<close>; an index past
  its end is out of bounds.
\<close>

record suback_out =
  so_packetid :: u16
  so_count :: nat
  so_grantedQoSs :: "int list"

function suback_loop :: "int \<Rightarrow> cursor \<Rightarrow> suback_out \<Rightarrow> (bool \<times> suback_out) c_result" where
  "suback_loop maxcount c ou =
     (if snd c > 0 then
        (if int (so_count ou) > maxcount then Inr (False, ou)
         else bindR (readChar c) (\<lambda>(q, c').
           if so_count ou < length (so_grantedQoSs ou)
           then suback_loop maxcount c'
             (ou\<lparr>so_grantedQoSs := (so_grantedQoSs ou)[so_count ou := uint q], so_count := Suc (so_count ou)\<rparr>)
           else Inl OutOfBounds))
      else Inr (True, ou))"
  by pat_completeness auto
termination
  by (relation "measure (\<lambda>(m, c, ou). nat (snd c))")
    (auto dest!: readChar_less)

declare suback_loop.simps [simp del]

definition MQTTDeserialize_suback :: "bytes \<Rightarrow> int \<Rightarrow> suback_out \<Rightarrow> (int \<times> suback_out) c_result" where
  "MQTTDeserialize_suback buf maxcount ou =
     bindR (readChar (buf, 0)) (\<lambda>(header, c0).
       if hdr_type header \<noteq> SUBACK then Inr (0, ou)
       else bindR (body_cursor (fst c0)) (\<lambda>(rc, c).
         if snd c < 2 then Inr (rc, ou)
         else bindR (readInt c) (\<lambda>(k, c1).
              bindR (suback_loop maxcount c1 (ou\<lparr>so_packetid := of_int k, so_count := 0\<rparr>)) (\<lambda>(ok, o1).
                Inr (if ok then 1 else -1, o1)))))"

record subscribe_out =
  sb_dup :: u8
  sb_packetid :: u16
  sb_count :: nat
  sb_topicFilters :: "MQTTString list"
  sb_requestedQoSs :: "int list"

function subscribe_loop :: "cursor \<Rightarrow> subscribe_out \<Rightarrow> (bool \<times> subscribe_out) c_result" where
  "subscribe_loop c ou =
     (if snd c > 0 then
        (if sb_count ou < length (sb_topicFilters ou) \<and> sb_count ou < length (sb_requestedQoSs ou) then
           bindR (readMQTTLenString (sb_topicFilters ou ! sb_count ou) c) (\<lambda>(ok, t, c1).
             let o1 = ou\<lparr>sb_topicFilters := (sb_topicFilters ou)[sb_count ou := t]\<rparr>
             in if \<not> ok \<or> snd c1 \<le> 0 then Inr (False, o1)
                else bindR (readChar c1) (\<lambda>(q, c2).
                  subscribe_loop c2 (o1\<lparr>sb_requestedQoSs := (sb_requestedQoSs o1)[sb_count o1 := uint q],
                    sb_count := Suc (sb_count o1)\<rparr>)))
         else Inl OutOfBounds)
      else Inr (True, ou))"
  by pat_completeness auto
termination
  by (relation "measure (\<lambda>(c, ou). nat (snd c))")
    (auto dest!: readMQTTLenString_less readChar_less)

declare subscribe_loop.simps [simp del]

definition MQTTDeserialize_subscribe :: "bytes \<Rightarrow> subscribe_out \<Rightarrow> (int \<times> subscribe_out) c_result" where
  "MQTTDeserialize_subscribe buf ou =
     bindR (readChar (buf, 0)) (\<lambda>(header, c0).
       if hdr_type header \<noteq> SUBSCRIBE then Inr (-1, ou)
       else let o1 = ou\<lparr>sb_dup := hdr_dup header\<rparr>
            in bindR (body_cursor (fst c0)) (\<lambda>(rc, c).
               bindR (readInt c) (\<lambda>(k, c1).
               bindR (subscribe_loop c1 (o1\<lparr>sb_packetid := of_int k, sb_count := 0\<rparr>)) (\<lambda>(ok, o2).
                 Inr (if ok then 1 else rc, o2)))))"

fun write_codes :: "nat \<Rightarrow> int list \<Rightarrow> bytes c_result" where
  "write_codes 0 qs = Inr []"
| "write_codes (Suc n) (q # qs) = bindR (write_codes n qs) (\<lambda>r. Inr (of_int q # r))"
| "write_codes (Suc n) [] = Inl OutOfBounds"

definition MQTTSerialize_suback :: "int \<Rightarrow> u16 \<Rightarrow> int \<Rightarrow> int list \<Rightarrow> (int \<times> bytes) c_result" where
  "MQTTSerialize_suback buflen packetid count grantedQoSs =
     (if buflen < 2 + count then Inr (MQTTPACKET_BUFFER_TOO_SHORT, [])
      else bindR (write_codes (nat count) grantedQoSs) (\<lambda>qs.
        let b = set_type SUBACK 0 # MQTTPacket_encode (2 + count) @ writeInt (uint packetid) @ qs
        in Inr (int (length b), b)))"

section \<open>UNSUBSCRIBE and UNSUBACK\<close>

definition MQTTSerialize_unsubscribeLength :: "int \<Rightarrow> MQTTString list \<Rightarrow> int c_result" where
  "MQTTSerialize_unsubscribeLength count topicFilters =
     bindR (topics_len 0 (nat count) topicFilters) (\<lambda>l. Inr (2 + l))"

fun write_topics :: "nat \<Rightarrow> MQTTString list \<Rightarrow> bytes c_result" where
  "write_topics 0 ts = Inr []"
| "write_topics (Suc n) (t # ts) =
     bindR (writeMQTTString t) (\<lambda>a. bindR (write_topics n ts) (\<lambda>r. Inr (a @ r)))"
| "write_topics (Suc n) [] = Inl OutOfBounds"

definition MQTTSerialize_unsubscribe ::
    "int \<Rightarrow> u8 \<Rightarrow> u16 \<Rightarrow> int \<Rightarrow> MQTTString list \<Rightarrow> (int \<times> bytes) c_result" where
  "MQTTSerialize_unsubscribe buflen dup packetid count topicFilters =
     bindR (MQTTSerialize_unsubscribeLength count topicFilters) (\<lambda>rem_len.
       if MQTTPacket_len rem_len > buflen then Inr (MQTTPACKET_BUFFER_TOO_SHORT, [])
       else bindR (write_topics (nat count) topicFilters) (\<lambda>ts.
         let b = set_qos 1 (set_dup dup (set_type UNSUBSCRIBE 0)) # MQTTPacket_encode rem_len
                   @ writeInt (uint packetid) @ ts
         in Inr (int (length b), b)))"

definition MQTTDeserialize_unsuback :: "bytes \<Rightarrow> u16 \<Rightarrow> (int \<times> u16) c_result" where
  "MQTTDeserialize_unsuback buf packetid =
     bindR (MQTTDeserialize_ack buf \<lparr>ao_packettype = 0, ao_dup = 0, ao_packetid = packetid\<rparr>) (\<lambda>(rc, ou).
       Inr (if ao_packettype ou = UNSUBACK then 1 else rc, ao_packetid ou))"

record unsubscribe_out =
  ub_dup :: u8
  ub_packetid :: u16
  ub_count :: nat
  ub_topicFilters :: "MQTTString list"

function unsubscribe_loop :: "cursor \<Rightarrow> unsubscribe_out \<Rightarrow> (bool \<times> unsubscribe_out) c_result" where
  "unsubscribe_loop c ou =
     (if snd c > 0 then
        (if ub_count ou < length (ub_topicFilters ou) then
           bindR (readMQTTLenString (ub_topicFilters ou ! ub_count ou) c) (\<lambda>(ok, t, c1).
             let o1 = ou\<lparr>ub_topicFilters := (ub_topicFilters ou)[ub_count ou := t]\<rparr>
             in if \<not> ok then Inr (False, o1)
                else unsubscribe_loop c1 (o1\<lparr>ub_count := Suc (ub_count o1)\<rparr>))
         else Inl OutOfBounds)
      else Inr (True, ou))"
  by pat_completeness auto
termination
  by (relation "measure (\<lambda>(c, ou). nat (snd c))")
    (auto dest!: readMQTTLenString_less readChar_less)

declare unsubscribe_loop.simps [simp del]

definition MQTTDeserialize_unsubscribe :: "bytes \<Rightarrow> unsubscribe_out \<Rightarrow> (int \<times> unsubscribe_out) c_result" where
  "MQTTDeserialize_unsubscribe buf ou =
     bindR (readChar (buf, 0)) (\<lambda>(header, c0).
       if hdr_type header \<noteq> UNSUBSCRIBE then Inr (0, ou)
       else let o1 = ou\<lparr>ub_dup := hdr_dup header\<rparr>
            in bindR (body_cursor (fst c0)) (\<lambda>(rc, c).
               bindR (readInt c) (\<lambda>(k, c1).
               bindR (unsubscribe_loop c1 (o1\<lparr>ub_packetid := of_int k, ub_count := 0\<rparr>)) (\<lambda>(ok, o2).
                 Inr (if ok then 1 else rc, o2)))))"

definition MQTTSerialize_unsuback :: "int \<Rightarrow> u16 \<Rightarrow> int \<times> bytes" where
  "MQTTSerialize_unsuback buflen packetid =
     (if buflen < 2 then (MQTTPACKET_BUFFER_TOO_SHORT, [])
      else let b = set_type UNSUBACK 0 # MQTTPacket_encode 2 @ writeInt (uint packetid)
           in (int (length b), b))"

end
