(* ===== verification/Mqtt_Roundtrip.thy ===== *)
theory Mqtt_Roundtrip
  imports Mqtt_Serialize
begin

text \<open>
  What the MQTT serializers promise: they stay inside the buffer, and the deserializers read back
  what they wrote, whatever follows the packet in the buffer.  The places where the packet layer
  breaks a promise of its comments are stated at the end.
\<close>

section \<open>Well-formed strings\<close>

definition str_content :: "MQTTString \<Rightarrow> bytes" where
  "str_content s = (case cstring s of
       Some c \<Rightarrow> c
     | None \<Rightarrow> take (nat (ls_len s)) (case ls_data s of Some d \<Rightarrow> d | None \<Rightarrow> []))"

text \<open>
  A string the packet layer can send: a C string with no length-delimited one beside it, or a
  length-delimited one inside its object; at most 65535 bytes.
\<close>

definition str_ok :: "MQTTString \<Rightarrow> bool" where
  "str_ok s \<longleftrightarrow> length (str_content s) < 65536 \<and>
     (case cstring s of
        Some c \<Rightarrow> ls_len s \<le> 0
      | None \<Rightarrow> ls_len s = 0 \<or>
          (0 < ls_len s \<and> (case ls_data s of Some d \<Rightarrow> ls_len s \<le> int (length d) | None \<Rightarrow> False)))"

definition len_str :: "bytes \<Rightarrow> MQTTString \<Rightarrow> MQTTString" where
  "len_str d s = s\<lparr>ls_len := int (length d), ls_data := Some d, cstring := None\<rparr>"

lemma str_content_len_str [simp]: "str_content (len_str d s) = d"
  by (simp add: str_content_def len_str_def)

lemma MQTTstrlen_ok: "str_ok s \<Longrightarrow> MQTTstrlen s = int (length (str_content s))"
  by (auto simp: str_ok_def MQTTstrlen_def str_content_def split: option.splits)

lemma length_writeInt [simp]: "length (writeInt n) = 2"
  by (simp add: writeInt_def)

lemma readInt_writeInt:
  assumes "0 \<le> n" and "n < 65536"
  shows "readInt (writeInt n @ r, e) = Inr (n, r, e - 2)"
proof -
  have q: "n sdiv 256 = n div 256" "n smod 256 = n mod 256"
    using assms by (auto simp: signed_divide_int_def signed_modulo_int_def sgn_if)
  have "uint (of_int (n div 256) :: u8) = n div 256" "uint (of_int (n mod 256) :: u8) = n mod 256"
    using assms by (simp_all add: unsigned_of_int take_bit_int_eq_self)
  then show ?thesis by (simp add: readInt_def writeInt_def q)
qed

lemma readInt_u16 [simp]: "readInt (writeInt (uint (p :: u16)) @ r, e) = Inr (uint p, r, e - 2)"
  using unsigned_less [of p, where ?'a = int] by (intro readInt_writeInt) simp_all

text \<open>
  The cursor of a deserializer whose packet ends after \<open>r\<close>, with \<open>junk\<close> behind it in
  the buffer, and the bytes of a length-prefixed string.
\<close>

definition cur :: "bytes \<Rightarrow> bytes \<Rightarrow> cursor" where
  "cur r junk = (r @ junk, int (length r))"

definition wstr :: "bytes \<Rightarrow> bytes" where
  "wstr d = writeInt (int (length d)) @ d"

lemma writeMQTTString_ok:
  assumes "str_ok s"
  shows "writeMQTTString s = Inr (wstr (str_content s))"
  using assms
  by (auto simp: wstr_def str_ok_def writeMQTTString_def writeCString_def copy_from_def str_content_def
      split: option.splits)

lemma cur_sel [simp]: "fst (cur r junk) = r @ junk" "snd (cur r junk) = int (length r)"
  by (simp_all add: cur_def)

lemma length_wstr [simp]: "length (wstr d) = 2 + length d"
  by (simp add: wstr_def)

lemma readChar_cur [simp]: "readChar (cur (b # r) junk) = Inr (b, cur r junk)"
  by (simp add: cur_def readChar_def)

lemma readInt_cur [simp]: "readInt (cur (writeInt (uint (p :: u16)) @ r) junk) = Inr (uint p, cur r junk)"
  by (simp add: cur_def)

lemma readMQTTLenString_cur:
  assumes "length d < 65536"
  shows "readMQTTLenString s (cur (wstr d @ r) junk) = Inr (True, len_str d s, cur r junk)"
  using assms
  by (simp add: cur_def wstr_def readMQTTLenString_def readInt_writeInt copy_from_def skip_def len_str_def)

lemma body_cursor_cur:
  assumes "length r < 268435456" and "n = int (length r)"
  shows "body_cursor (MQTTPacket_encode n @ r @ junk) = Inr (int (length (MQTTPacket_encode n)), cur r junk)"
  using assms by (simp add: body_cursor_def decodeBuf_encode skip_def cur_def)

lemma readChar_Cons [simp]: "readChar (b # r, e) = Inr (b, r, e - 1)"
  by (simp add: readChar_def)

lemma encode_2: "MQTTPacket_encode 2 = [2]" and encode_0: "MQTTPacket_encode 0 = [0]"
  by (simp_all add: encode_nonneg)

lemma MQTTPacket_len_ge: "n + 2 \<le> MQTTPacket_len n"
  by (simp add: MQTTPacket_len_def Let_def)

lemma packet_fits:
  assumes "0 \<le> n" and "MQTTPacket_len n \<le> buflen" and "buflen < 268435456"
  shows "1 + int (length (MQTTPacket_encode n)) + n \<le> buflen" and "n < 268435456"
  using encode_fits [of n] MQTTPacket_len_ge [of n] assms by linarith+

lemma take_bit_small:
  fixes x :: u8
  assumes "unat x < 2 ^ n"
  shows "take_bit n x = x"
  using assms by (simp add: word_unat_eq_iff unsigned_take_bit_eq take_bit_nat_eq_self)

text \<open>The bytes of a packet with the fixed header \<open>h\<close> and the body \<open>d\<close>.\<close>

definition packet :: "u8 \<Rightarrow> bytes \<Rightarrow> bytes" where
  "packet h d = h # MQTTPacket_encode (int (length d)) @ d"

section \<open>PUBLISH\<close>

definition publish_header :: "u8 \<Rightarrow> int \<Rightarrow> u8 \<Rightarrow> u8" where
  "publish_header dup qos retained =
     set_retain retained (set_qos (of_int qos) (set_dup dup (set_type PUBLISH 0)))"

lemma publish_header_fields:
  assumes "dup \<in> {0, 1}" and "retained \<in> {0, 1}" and "0 \<le> qos" and "qos < 4"
  shows "hdr_type (publish_header dup qos retained) = PUBLISH"
    and "hdr_dup (publish_header dup qos retained) = dup"
    and "uint (hdr_qos (publish_header dup qos retained)) = qos"
    and "hdr_retain (publish_header dup qos retained) = retained"
proof -
  have "uint (take_bit 2 (of_int qos :: u8)) = qos"
    using assms(3,4) by (simp add: unsigned_take_bit_eq unsigned_of_int take_bit_int_eq_self)
  then show "uint (hdr_qos (publish_header dup qos retained)) = qos" by (simp add: publish_header_def)
  show "hdr_type (publish_header dup qos retained) = PUBLISH"
    by (simp add: publish_header_def PUBLISH_def)
  show "hdr_dup (publish_header dup qos retained) = dup"
    "hdr_retain (publish_header dup qos retained) = retained"
    using assms(1,2) by (auto simp: publish_header_def)
qed

definition publish_body :: "MQTTString \<Rightarrow> int \<Rightarrow> u16 \<Rightarrow> bytes \<Rightarrow> int \<Rightarrow> bytes" where
  "publish_body topicName qos pid payload plen =
     wstr (str_content topicName) @ (if qos > 0 then writeInt (uint pid) else []) @ take (nat plen) payload"

lemma publish_packet:
  assumes "str_ok topicName" and "0 \<le> plen" and "plen \<le> int (length payload)"
    and "0 \<le> qos" and "qos \<le> 2" and "dup \<in> {0, 1}" and "retained \<in> {0, 1}"
    and "MQTTPacket_len (MQTTSerialize_publishLength qos topicName plen) \<le> buflen"
    and "buflen < 268435456"
    and "b = packet (publish_header dup qos retained) (publish_body topicName qos pid payload plen)"
  shows "MQTTSerialize_publish buflen dup qos retained pid topicName payload plen = Inr (int (length b), b) \<and>
    int (length b) \<le> buflen"
proof -
  let ?r = "publish_body topicName qos pid payload plen"
  have n: "MQTTSerialize_publishLength qos topicName plen = int (length ?r)"
    using assms(2,3) by (simp add: MQTTSerialize_publishLength_def MQTTstrlen_ok [OF assms(1)] publish_body_def)
  have "MQTTSerialize_publish buflen dup qos retained pid topicName payload plen = Inr (int (length b), b)"
    using assms(2,3,8)
    by (simp add: MQTTSerialize_publish_def Let_def writeMQTTString_ok [OF assms(1)] copy_from_def
        publish_header_def assms(10) packet_def n [symmetric])
      (simp add: publish_body_def n)
  moreover have "int (length b) \<le> buflen"
    using packet_fits(1) [OF _ assms(8,9)] n by (simp add: assms(10) packet_def)
  ultimately show ?thesis by blast
qed

lemma publish_parse:
  assumes "str_ok topicName" and "0 \<le> plen" and "plen \<le> int (length payload)"
    and "0 \<le> qos" and "qos \<le> 2" and "dup \<in> {0, 1}" and "retained \<in> {0, 1}"
    and "length (publish_body topicName qos pid payload plen) < 268435456"
  shows "MQTTDeserialize_publish
      (packet (publish_header dup qos retained) (publish_body topicName qos pid payload plen) @ junk) ou =
    Inr (1, ou\<lparr>po_dup := dup, po_qos := qos, po_retained := retained,
      po_packetid := (if qos > 0 then pid else po_packetid ou),
      po_topicName := len_str (str_content topicName) (po_topicName ou),
      po_payload := take (nat plen) payload @ junk, po_payloadlen := plen\<rparr>)"
proof -
  let ?r = "publish_body topicName qos pid payload plen"
  have t: "length (str_content topicName) < 65536" using assms(1) by (simp add: str_ok_def)
  have "body_cursor (MQTTPacket_encode (int (length ?r)) @ ?r @ junk) =
      Inr (int (length (MQTTPacket_encode (int (length ?r)))), cur ?r junk)"
    by (intro body_cursor_cur assms(8) refl)
  then show ?thesis
    using assms(2-5) publish_header_fields [OF assms(6,7,4)]
    by (simp add: MQTTDeserialize_publish_def Let_def packet_def)
      (simp add: publish_body_def readMQTTLenString_cur [OF t])
qed

text \<open>
  C7: a PUBLISH packet round-trips.  With a sendable topic, QoS 0 to 2 and a payload inside its
  object, and a buffer the packet fits into, \<open>MQTTSerialize_publish\<close> writes at most
  \<open>buflen\<close> bytes, returns their number, and \<open>MQTTDeserialize_publish\<close> of the
  buffer returns 1 with the same flags, topic, packet identifier (for QoS 1 and 2) and payload,
  whatever follows the packet.
\<close>

theorem publish_roundtrip:
  assumes "str_ok topicName" and "0 \<le> plen" and "plen \<le> int (length payload)"
    and "0 \<le> qos" and "qos \<le> 2" and "dup \<in> {0, 1}" and "retained \<in> {0, 1}"
    and "MQTTPacket_len (MQTTSerialize_publishLength qos topicName plen) \<le> buflen"
    and "buflen < 268435456"
  shows "\<exists>b. MQTTSerialize_publish buflen dup qos retained pid topicName payload plen =
      Inr (int (length b), b) \<and> int (length b) \<le> buflen \<and>
    MQTTDeserialize_publish (b @ junk) ou = Inr (1, ou\<lparr>po_dup := dup, po_qos := qos, po_retained := retained,
      po_packetid := (if qos > 0 then pid else po_packetid ou),
      po_topicName := len_str (str_content topicName) (po_topicName ou),
      po_payload := take (nat plen) payload @ junk, po_payloadlen := plen\<rparr>)"
proof -
  let ?b = "packet (publish_header dup qos retained) (publish_body topicName qos pid payload plen)"
  note ser = publish_packet [OF assms(1-9) refl, of pid]
  have "length (publish_body topicName qos pid payload plen) < length ?b" by (simp add: packet_def)
  then have "length (publish_body topicName qos pid payload plen) < 268435456" using ser assms(9) by linarith
  from publish_parse [OF assms(1-7) this] ser show ?thesis by blast
qed

definition demo_topic :: MQTTString where
  "demo_topic = MQTTString_initializer\<lparr>cstring := Some (str_bytes ''mqtt/msg'')\<rparr>"

lemma demo_topic_ok: "str_ok demo_topic" "str_content demo_topic = str_bytes ''mqtt/msg''"
    "MQTTstrlen demo_topic = 8"
  by (simp_all add: str_ok_def demo_topic_def MQTTString_initializer_def str_content_def str_bytes_def
      MQTTstrlen_def)

definition demo_publish_out :: publish_out where
  "demo_publish_out = \<lparr>po_dup = 0, po_qos = 0, po_retained = 0, po_packetid = 0,
     po_topicName = MQTTString_initializer, po_payload = [], po_payloadlen = 0\<rparr>"

theorem publish_roundtrip_witness:
  "\<exists>b. MQTTSerialize_publish 1024 0 1 0 7 demo_topic [1, 2, 3] 3 = Inr (int (length b), b) \<and>
    int (length b) \<le> 1024 \<and>
    MQTTDeserialize_publish (b @ [9]) demo_publish_out = Inr (1, demo_publish_out\<lparr>po_dup := 0, po_qos := 1,
      po_retained := 0, po_packetid := (if 1 > (0 :: int) then 7 else po_packetid demo_publish_out),
      po_topicName := len_str (str_content demo_topic) (po_topicName demo_publish_out),
      po_payload := take (nat 3) [1, 2, 3] @ [9], po_payloadlen := 3\<rparr>)"
  by (rule publish_roundtrip [OF demo_topic_ok(1)])
    (simp_all add: MQTTSerialize_publishLength_def demo_topic_ok MQTTPacket_len_def)

section \<open>CONNECT\<close>

lemma take_bit_1_u8: "take_bit (Suc 0) (1 :: u8) = 1" "x \<in> {0, 1} \<Longrightarrow> take_bit (Suc 0) x = (x :: u8)"
  by auto

lemma connect_flags_fields:
  "cf_cleansession (connect_flags ou) = take_bit 1 (cleansession ou)"
  "cf_will (connect_flags ou) = (if willFlag ou \<noteq> 0 then 1 else 0)"
  "willFlag ou \<noteq> 0 \<Longrightarrow> cf_willQoS (connect_flags ou) = take_bit 2 (w_qos (will ou))"
  "willFlag ou \<noteq> 0 \<Longrightarrow> cf_willRetain (connect_flags ou) = take_bit 1 (w_retained (will ou))"
  "cf_username (connect_flags ou) = (if has_str (username ou) then 1 else 0)"
  "cf_password (connect_flags ou) = (if has_str (password ou) then 1 else 0)"
  by (simp_all add: connect_flags_def Let_def cf_defs bitfield_simps take_bit_1_u8)
     (simp_all add: get_field_def)

text \<open>
  Options that a CONNECT packet can carry: protocol version 3 or 4, sendable strings, one-bit
  flags, and, when they are present, a non-empty user name and password, the latter not without
  the former.
\<close>

definition connect_ok :: "MQTTPacket_connectData \<Rightarrow> bool" where
  "connect_ok ou \<longleftrightarrow> MQTTVersion ou \<in> {3, 4} \<and> str_ok (clientID ou) \<and>
     str_ok (w_topicName (will ou)) \<and> str_ok (w_message (will ou)) \<and>
     str_ok (username ou) \<and> str_ok (password ou) \<and>
     cleansession ou \<in> {0, 1} \<and> willFlag ou \<in> {0, 1} \<and> w_retained (will ou) \<in> {0, 1} \<and>
     unat (w_qos (will ou)) < 4 \<and>
     (has_str (username ou) \<longrightarrow> str_content (username ou) \<noteq> []) \<and>
     (has_str (password ou) \<longrightarrow> str_content (password ou) \<noteq> [] \<and> has_str (username ou))"

definition proto_bytes :: "MQTTPacket_connectData \<Rightarrow> bytes" where
  "proto_bytes ou = (if MQTTVersion ou = 4 then str_bytes ''MQTT'' else str_bytes ''MQIsdp'')"

definition will_bytes :: "MQTTPacket_connectData \<Rightarrow> bytes" where
  "will_bytes ou = (if willFlag ou \<noteq> 0
     then wstr (str_content (w_topicName (will ou))) @ wstr (str_content (w_message (will ou))) else [])"

definition user_bytes :: "MQTTPacket_connectData \<Rightarrow> bytes" where
  "user_bytes ou = (if has_str (username ou) then wstr (str_content (username ou)) else [])
     @ (if has_str (password ou) then wstr (str_content (password ou)) else [])"

definition connect_body :: "MQTTPacket_connectData \<Rightarrow> bytes" where
  "connect_body ou = wstr (proto_bytes ou)
     @ [MQTTVersion ou] @ [connect_flags ou] @ writeInt (uint (keepAliveInterval ou))
     @ wstr (str_content (clientID ou)) @ will_bytes ou @ user_bytes ou"

lemma connect_length: "connect_ok ou \<Longrightarrow> MQTTSerialize_connectLength ou = int (length (connect_body ou))"
  by (auto simp: MQTTSerialize_connectLength_def connect_ok_def connect_body_def MQTTstrlen_ok
      str_bytes_def proto_bytes_def will_bytes_def user_bytes_def)

lemma serialize_connect_body:
  assumes "connect_ok ou" and "MQTTPacket_len (MQTTSerialize_connectLength ou) \<le> buflen"
  shows "MQTTSerialize_connect buflen ou =
    (let b = set_type CONNECT 0 # MQTTPacket_encode (MQTTSerialize_connectLength ou) @ connect_body ou
     in Inr (int (length b), b))"
proof -
  have ok: "str_ok (clientID ou)" "str_ok (w_topicName (will ou))" "str_ok (w_message (will ou))"
    "str_ok (username ou)" "str_ok (password ou)" "MQTTVersion ou = 3 \<or> MQTTVersion ou = 4"
    using assms(1) by (auto simp: connect_ok_def)
  show ?thesis
    using assms(2) ok(6)
    by (auto simp: MQTTSerialize_connect_def Let_def ok(1-5) [THEN writeMQTTString_ok] write_if_def
        connect_flags_fields connect_body_def writeCString_def wstr_def proto_bytes_def
        will_bytes_def user_bytes_def)
qed

text \<open>What the server side leaves in its \<open>data\<close> for the options of the client.\<close>

definition received_will :: "MQTTPacket_connectData \<Rightarrow> MQTTPacket_connectData \<Rightarrow> MQTTPacket_connectData" where
  "received_will ou d = (if willFlag ou \<noteq> 0
     then d\<lparr>will := (will d)\<lparr>w_qos := w_qos (will ou), w_retained := w_retained (will ou),
       w_topicName := len_str (str_content (w_topicName (will ou))) (w_topicName (will d)),
       w_message := len_str (str_content (w_message (will ou))) (w_message (will d))\<rparr>\<rparr>
     else d)"

definition received_user :: "MQTTPacket_connectData \<Rightarrow> MQTTPacket_connectData \<Rightarrow> MQTTPacket_connectData" where
  "received_user ou d =
     (let d1 = (if has_str (username ou)
                then d\<lparr>username := len_str (str_content (username ou)) (username d)\<rparr> else d)
      in if has_str (password ou)
         then d1\<lparr>password := len_str (str_content (password ou)) (password d)\<rparr> else d1)"

definition connect_received :: "MQTTPacket_connectData \<Rightarrow> MQTTPacket_connectData \<Rightarrow> MQTTPacket_connectData" where
  "connect_received ou d = received_user ou (received_will ou
     (d\<lparr>cleansession := cleansession ou, keepAliveInterval := keepAliveInterval ou,
        clientID := len_str (str_content (clientID ou)) (clientID d), willFlag := willFlag ou\<rparr>))"

lemma checkVersion_proto:
  "connect_ok ou \<Longrightarrow>
     MQTTPacket_checkVersion (len_str (proto_bytes ou) s) (uint (MQTTVersion ou)) = Inr 1"
  by (auto simp: connect_ok_def MQTTPacket_checkVersion_def memcmp_eq_def copy_from_def len_str_def
      proto_bytes_def str_bytes_def)

lemma connect_will_cur:
  assumes "connect_ok ou"
  shows "connect_will (connect_flags ou) d (cur (will_bytes ou @ r) junk) = Inr (True, received_will ou d, cur r junk)"
proof -
  have "length (str_content (w_topicName (will ou))) < 65536" "length (str_content (w_message (will ou))) < 65536"
    "take_bit (Suc 0) (w_retained (will ou)) = w_retained (will ou)" "take_bit 2 (w_qos (will ou)) = w_qos (will ou)"
    using assms by (auto simp: connect_ok_def str_ok_def intro!: take_bit_small)
  then show ?thesis
    by (simp add: connect_will_def connect_flags_fields will_bytes_def received_will_def Let_def readMQTTLenString_cur)
qed

lemma connect_user_cur:
  assumes "connect_ok ou"
  shows "connect_user (connect_flags ou) d (cur (user_bytes ou) junk) = Inr (True, received_user ou d)"
proof -
  have l: "length (str_content (username ou)) < 65536" "length (str_content (password ou)) < 65536"
    and ne: "has_str (username ou) \<Longrightarrow> Suc 0 \<le> length (str_content (username ou))"
      "has_str (password ou) \<Longrightarrow> Suc 0 \<le> length (str_content (password ou)) \<and> has_str (username ou)"
    using assms by (auto simp: connect_ok_def str_ok_def Suc_le_eq)
  note rd = l [THEN readMQTTLenString_cur] l(1) [THEN readMQTTLenString_cur, of _ "[]", simplified]
    l(2) [THEN readMQTTLenString_cur, of _ "[]", simplified]
  show ?thesis
  proof (cases "has_str (username ou)")
    case True
    then show ?thesis
      using ne by (auto simp: connect_user_def connect_flags_fields user_bytes_def received_user_def Let_def rd)
  next
    case False
    then have "\<not> has_str (password ou)" using ne by blast
    with False show ?thesis
      by (simp add: connect_user_def connect_flags_fields user_bytes_def received_user_def Let_def)
  qed
qed

text \<open>
  C8: a CONNECT packet round-trips.  For admissible options that fit the buffer,
  \<open>MQTTSerialize_connect\<close> stays inside the buffer and \<open>MQTTDeserialize_connect\<close>
  accepts the packet and recovers the clean-session flag, keep-alive interval, client identifier,
  will and credentials.
\<close>

theorem connect_roundtrip:
  assumes "connect_ok ou" and "MQTTPacket_len (MQTTSerialize_connectLength ou) \<le> buflen"
    and "buflen < 268435456"
  shows "\<exists>b. MQTTSerialize_connect buflen ou = Inr (int (length b), b) \<and> int (length b) \<le> buflen \<and>
    MQTTDeserialize_connect (b @ junk) (int (length b)) d = Inr (1, connect_received ou d)"
proof -
  let ?n = "MQTTSerialize_connectLength ou"
  let ?b = "set_type CONNECT 0 # MQTTPacket_encode ?n @ connect_body ou"
  have n: "?n = int (length (connect_body ou))" by (rule connect_length [OF assms(1)])
  then have n0: "0 \<le> ?n" by simp
  note fits = packet_fits [OF n0 assms(2,3)]
  have dec: "MQTTPacket_decodeBuf (MQTTPacket_encode ?n @ connect_body ou @ junk) =
      Inr (length (MQTTPacket_encode ?n), ?n)"
    by (rule decodeBuf_encode [OF n0 fits(2)])
  have sk: "skip (length (MQTTPacket_encode ?n)) (cur (MQTTPacket_encode ?n @ connect_body ou) junk) =
      Inr (cur (connect_body ou) junk)"
    by (simp add: skip_def cur_def)
  have c: "(?b @ junk, int (length ?b)) = cur ?b junk" by (simp add: cur_def)
  have lens: "length (str_content (clientID ou)) < 65536" "length (proto_bytes ou) < 65536"
    and fl: "cleansession ou mod 2 = cleansession ou" "(if willFlag ou \<noteq> 0 then 1 else 0) = willFlag ou"
    using assms(1) by (auto simp: connect_ok_def str_ok_def proto_bytes_def str_bytes_def)
  have "MQTTDeserialize_connect (?b @ junk) (int (length ?b)) d = Inr (1, connect_received ou d)"
    unfolding MQTTDeserialize_connect_def c
    by (simp add: Let_def CONNECT_def dec sk)
      (simp add: Let_def connect_body_def lens [THEN readMQTTLenString_cur] checkVersion_proto [OF assms(1)]
        connect_flags_fields(1,2) connect_will_cur [OF assms(1)] connect_user_cur [OF assms(1)] fl
        connect_received_def del: if_split)
  moreover have "int (length ?b) \<le> buflen" using fits(1) n by simp
  ultimately show ?thesis using serialize_connect_body [OF assms(1,2)] by (auto simp: Let_def)
qed

definition demo_cstr :: "string \<Rightarrow> MQTTString" where
  "demo_cstr x = MQTTString_initializer\<lparr>cstring := Some (str_bytes x)\<rparr>"

lemma demo_cstr: "length x < 65536 \<Longrightarrow> str_ok (demo_cstr x)" "str_content (demo_cstr x) = str_bytes x"
    "has_str (demo_cstr x)" "MQTTstrlen (demo_cstr x) = int (length x)"
  by (simp_all add: demo_cstr_def MQTTString_initializer_def str_ok_def str_content_def str_bytes_def
      has_str_def MQTTstrlen_def)

definition demo_options :: MQTTPacket_connectData where
  "demo_options = MQTTPacket_connectData_initializer
     \<lparr>clientID := demo_cstr ''iBoxClient'', username := demo_cstr ''u'', password := demo_cstr ''p'', willFlag := 1,
      will := \<lparr>w_topicName = demo_cstr ''/mqtt/will'', w_message = demo_cstr ''Goodbye!'', w_retained = 0, w_qos = 1\<rparr>\<rparr>"

lemma demo_options_ok: "connect_ok demo_options" "MQTTSerialize_connectLength demo_options = 50"
proof -
  show "connect_ok demo_options"
    by (simp add: connect_ok_def demo_options_def MQTTPacket_connectData_initializer_def demo_cstr)
      (simp add: str_bytes_def)
  show "MQTTSerialize_connectLength demo_options = 50"
    by (simp add: MQTTSerialize_connectLength_def demo_options_def MQTTPacket_connectData_initializer_def demo_cstr)
qed

theorem connect_roundtrip_witness:
  "\<exists>b. MQTTSerialize_connect 1024 demo_options = Inr (int (length b), b) \<and> int (length b) \<le> 1024 \<and>
    MQTTDeserialize_connect (b @ [7]) (int (length b)) MQTTPacket_connectData_initializer =
      Inr (1, connect_received demo_options MQTTPacket_connectData_initializer)"
  by (rule connect_roundtrip [OF demo_options_ok(1)])
    (simp_all add: demo_options_ok(2) MQTTPacket_len_def)

section \<open>Acknowledgements\<close>

lemma ack_body: "body_cursor (2 # writeInt (uint (pid :: u16)) @ junk) = Inr (1, cur (writeInt (uint pid)) junk)"
  using body_cursor_cur [of "writeInt (uint pid)" 2 junk] by (simp add: encode_2)

lemma readInt_cur_end [simp]: "readInt (cur (writeInt (uint (p :: u16))) junk) = Inr (uint p, cur [] junk)"
  using readInt_cur [of p "[]" junk] by simp

text \<open>
  the acknowledgement packets round-trip.  For every packet type, duplicate flag and packet
  identifier and a buffer of at least four bytes, \<open>MQTTDeserialize_ack\<close> recovers type, flag
  and identifier from what \<open>MQTTSerialize_ack\<close> wrote, and only a PUBREL carries QoS 1.
\<close>

theorem ack_roundtrip:
  assumes "4 \<le> buflen" and "unat packettype < 16" and "dup \<in> {0, 1}"
  shows "\<exists>b. MQTTSerialize_ack buflen packettype dup pid = (4, b) \<and> length b = 4 \<and>
    uint (hdr_qos (hd b)) = (if packettype = PUBREL then 1 else 0) \<and>
    MQTTDeserialize_ack (b @ junk) ou =
      Inr (1, ou\<lparr>ao_packettype := packettype, ao_dup := dup, ao_packetid := pid\<rparr>)"
proof -
  have "take_bit 4 packettype = packettype" "dup mod 2 = dup"
    using assms(2,3) by (auto intro!: take_bit_small)
  then show ?thesis
    using assms(1)
    by (auto simp: MQTTSerialize_ack_def MQTTDeserialize_ack_def Let_def encode_2 ack_body)
qed

theorem ack_roundtrip_witness:
  "\<exists>b. MQTTSerialize_ack 1024 PUBREL 0 513 = (4, b) \<and> length b = 4 \<and>
    uint (hdr_qos (hd b)) = (if PUBREL = PUBREL then 1 else 0) \<and>
    MQTTDeserialize_ack (b @ [5]) \<lparr>ao_packettype = 0, ao_dup = 1, ao_packetid = 0\<rparr> =
      Inr (1, \<lparr>ao_packettype = 0, ao_dup = 1, ao_packetid = 0\<rparr>
        \<lparr>ao_packettype := PUBREL, ao_dup := 0, ao_packetid := 513\<rparr>)"
  by (rule ack_roundtrip) (simp_all add: PUBREL_def)

section \<open>SUBSCRIBE\<close>

fun subs_bytes :: "MQTTString list \<Rightarrow> int list \<Rightarrow> bytes" where
  "subs_bytes (t # ts) (q # qs) = wstr (str_content t) @ of_int q # subs_bytes ts qs"
| "subs_bytes _ _ = []"

lemma take_Suc_update: "n < length xs \<Longrightarrow> take (Suc n) (xs[n := x]) = take n xs @ [x]"
  by (simp add: take_Suc_conv_app_nth)

lemma subscribe_write:
  assumes "length qs = length ts" and "\<forall>t \<in> set ts. str_ok t"
  shows "write_topics_qos (length ts) ts qs = Inr (subs_bytes ts qs)"
    and "topics_len 1 (length ts) ts = Inr (int (length (subs_bytes ts qs)))"
  using assms
  by (induction qs ts rule: list_induct2) (auto simp: writeMQTTString_ok MQTTstrlen_ok)

lemma subscribe_loop_cur:
  assumes "length qs = length ts" and "\<forall>t \<in> set ts. str_ok t" and "\<forall>q \<in> set qs. 0 \<le> q \<and> q < 256"
    and "sb_count ou + length ts \<le> length (sb_topicFilters ou)"
    and "sb_count ou + length ts \<le> length (sb_requestedQoSs ou)"
  shows "\<exists>ou'. subscribe_loop (cur (subs_bytes ts qs) junk) ou = Inr (True, ou') \<and>
    sb_count ou' = sb_count ou + length ts \<and> sb_dup ou' = sb_dup ou \<and> sb_packetid ou' = sb_packetid ou \<and>
    map str_content (take (sb_count ou') (sb_topicFilters ou')) =
      map str_content (take (sb_count ou) (sb_topicFilters ou)) @ map str_content ts \<and>
    take (sb_count ou') (sb_requestedQoSs ou') = take (sb_count ou) (sb_requestedQoSs ou) @ qs"
  using assms
proof (induction qs ts arbitrary: ou rule: list_induct2)
  case Nil
  then show ?case by (simp add: subscribe_loop.simps [of "cur [] junk"])
next
  case (Cons q qs t ts)
  let ?k = "sb_count ou"
  let ?ou = "ou\<lparr>sb_topicFilters := (sb_topicFilters ou)[?k := len_str (str_content t) (sb_topicFilters ou ! ?k)],
    sb_requestedQoSs := (sb_requestedQoSs ou)[?k := q], sb_count := Suc ?k\<rparr>"
  have t: "length (str_content t) < 65536" and k: "?k < length (sb_topicFilters ou)" "?k < length (sb_requestedQoSs ou)"
    using Cons.prems by (simp_all add: str_ok_def)
  have q: "uint (of_int q :: u8) = q"
    using Cons.prems(2) by (simp add: unsigned_of_int take_bit_int_eq_self)
  have "subscribe_loop (cur (subs_bytes (t # ts) (q # qs)) junk) ou = subscribe_loop (cur (subs_bytes ts qs) junk) ?ou"
    using k q by (simp add: subscribe_loop.simps [of "cur (wstr (str_content t) @ of_int q # subs_bytes ts qs) junk"]
        readMQTTLenString_cur [OF t] Let_def)
  moreover have "map str_content (take (Suc ?k) (sb_topicFilters ?ou)) =
      map str_content (take ?k (sb_topicFilters ou)) @ [str_content t]"
    "take (Suc ?k) (sb_requestedQoSs ?ou) = take ?k (sb_requestedQoSs ou) @ [q]"
    using k by (simp_all add: take_Suc_update)
  ultimately show ?case using Cons.IH [of ?ou] Cons.prems by auto
qed

lemma sub_header_fields:
  "take_bit 4 SUBSCRIBE = SUBSCRIBE" "take_bit 4 UNSUBSCRIBE = UNSUBSCRIBE"
  "dup \<in> {0, 1} \<Longrightarrow> dup mod 2 = (dup :: u8)"
  by (auto simp: SUBSCRIBE_def UNSUBSCRIBE_def)

text \<open>
  a SUBSCRIBE packet round-trips for any number of topic filters the caller's arrays can
  hold: the server recovers the packet identifier, the filters and the requested QoS in order, and
  the packet stays inside the buffer.
\<close>

theorem subscribe_roundtrip:
  assumes "length qs = length ts" and "\<forall>t \<in> set ts. str_ok t" and "\<forall>q \<in> set qs. 0 \<le> q \<and> q < 256"
    and "length ts \<le> length (sb_topicFilters ou)" and "length ts \<le> length (sb_requestedQoSs ou)"
    and "dup \<in> {0, 1}" and "buflen < 268435456"
    and "MQTTSerialize_subscribeLength (int (length ts)) ts = Inr n" and "MQTTPacket_len n \<le> buflen"
  shows "\<exists>b ou'. MQTTSerialize_subscribe buflen dup pid (int (length ts)) ts qs = Inr (int (length b), b) \<and>
    int (length b) \<le> buflen \<and> MQTTDeserialize_subscribe (b @ junk) ou = Inr (1, ou') \<and>
    sb_dup ou' = dup \<and> sb_packetid ou' = pid \<and> sb_count ou' = length ts \<and>
    map str_content (take (length ts) (sb_topicFilters ou')) = map str_content ts \<and>
    take (length ts) (sb_requestedQoSs ou') = qs"
proof -
  let ?r = "writeInt (uint pid) @ subs_bytes ts qs"
  let ?h = "set_qos 1 (set_dup dup (set_type SUBSCRIBE 0))"
  let ?b = "?h # MQTTPacket_encode n @ ?r"
  have n: "n = int (length ?r)"
    using assms(8) subscribe_write(2) [OF assms(1,2)] by (simp add: MQTTSerialize_subscribeLength_def)
  then have n0: "0 \<le> n" by simp
  note fits = packet_fits [OF n0 assms(9,7)]
  have ser: "MQTTSerialize_subscribe buflen dup pid (int (length ts)) ts qs = Inr (int (length ?b), ?b)"
    using assms(8,9) subscribe_write(1) [OF assms(1,2)] by (simp add: MQTTSerialize_subscribe_def Let_def)
  obtain ou' where l: "subscribe_loop (cur (subs_bytes ts qs) junk) (ou\<lparr>sb_dup := dup, sb_packetid := pid, sb_count := 0\<rparr>) =
      Inr (True, ou')" "sb_count ou' = length ts" "sb_dup ou' = dup" "sb_packetid ou' = pid"
      "map str_content (take (length ts) (sb_topicFilters ou')) = map str_content ts"
      "take (length ts) (sb_requestedQoSs ou') = qs"
    using subscribe_loop_cur [OF assms(1-3), of "ou\<lparr>sb_dup := dup, sb_packetid := pid, sb_count := 0\<rparr>" junk] assms(4,5)
    by auto
  have "body_cursor (MQTTPacket_encode n @ ?r @ junk) = Inr (int (length (MQTTPacket_encode n)), cur ?r junk)"
    using fits(2) n by (intro body_cursor_cur) linarith+
  then have "MQTTDeserialize_subscribe (?b @ junk) ou = Inr (1, ou')"
    using l(1) by (simp add: MQTTDeserialize_subscribe_def Let_def sub_header_fields(1) sub_header_fields(3) [OF assms(6)])
  moreover have "int (length ?b) \<le> buflen" using fits(1) n by simp
  ultimately show ?thesis using ser l by blast
qed

definition demo_subscribe_out :: subscribe_out where
  "demo_subscribe_out = \<lparr>sb_dup = 0, sb_packetid = 0, sb_count = 0,
     sb_topicFilters = replicate 2 MQTTString_initializer, sb_requestedQoSs = [0, 0]\<rparr>"

theorem subscribe_roundtrip_witness:
  "\<exists>b ou'. MQTTSerialize_subscribe 1024 0 5 (int (length [demo_cstr ''a'', demo_cstr ''b/c''])) [demo_cstr ''a'', demo_cstr ''b/c''] [1, 2] =
      Inr (int (length b), b) \<and>
    int (length b) \<le> 1024 \<and> MQTTDeserialize_subscribe (b @ []) demo_subscribe_out = Inr (1, ou') \<and>
    sb_dup ou' = 0 \<and> sb_packetid ou' = 5 \<and> sb_count ou' = length [demo_cstr ''a'', demo_cstr ''b/c''] \<and>
    map str_content (take (length [demo_cstr ''a'', demo_cstr ''b/c'']) (sb_topicFilters ou')) =
      map str_content [demo_cstr ''a'', demo_cstr ''b/c''] \<and>
    take (length [demo_cstr ''a'', demo_cstr ''b/c'']) (sb_requestedQoSs ou') = [1, 2]"
  by (rule subscribe_roundtrip [where n = 12])
    (simp_all add: demo_cstr demo_subscribe_out_def MQTTSerialize_subscribeLength_def MQTTPacket_len_def numeral_2_eq_2)

section \<open>UNSUBSCRIBE\<close>

lemma unsubscribe_write:
  assumes "\<forall>t \<in> set ts. str_ok t"
  shows "write_topics (length ts) ts = Inr (concat (map (\<lambda>t. wstr (str_content t)) ts))"
    and "topics_len 0 (length ts) ts = Inr (int (length (concat (map (\<lambda>t. wstr (str_content t)) ts))))"
  using assms by (induction ts) (auto simp: writeMQTTString_ok MQTTstrlen_ok)

lemma unsubscribe_loop_cur:
  assumes "\<forall>t \<in> set ts. str_ok t" and "ub_count ou + length ts \<le> length (ub_topicFilters ou)"
  shows "\<exists>ou'. unsubscribe_loop (cur (concat (map (\<lambda>t. wstr (str_content t)) ts)) junk) ou = Inr (True, ou') \<and>
    ub_count ou' = ub_count ou + length ts \<and> ub_dup ou' = ub_dup ou \<and> ub_packetid ou' = ub_packetid ou \<and>
    map str_content (take (ub_count ou') (ub_topicFilters ou')) =
      map str_content (take (ub_count ou) (ub_topicFilters ou)) @ map str_content ts"
  using assms
proof (induction ts arbitrary: ou)
  case Nil
  then show ?case by (simp add: unsubscribe_loop.simps [of "cur [] junk"])
next
  case (Cons t ts)
  let ?k = "ub_count ou" and ?r = "concat (map (\<lambda>t. wstr (str_content t)) ts)"
  let ?ou = "ou\<lparr>ub_topicFilters := (ub_topicFilters ou)[?k := len_str (str_content t) (ub_topicFilters ou ! ?k)],
    ub_count := Suc ?k\<rparr>"
  have t: "length (str_content t) < 65536" and k: "?k < length (ub_topicFilters ou)"
    using Cons.prems by (simp_all add: str_ok_def)
  have "unsubscribe_loop (cur (wstr (str_content t) @ ?r) junk) ou = unsubscribe_loop (cur ?r junk) ?ou"
    using k by (simp add: unsubscribe_loop.simps [of "cur (wstr (str_content t) @ ?r) junk"]
        readMQTTLenString_cur [OF t] Let_def)
  moreover have "map str_content (take (Suc ?k) (ub_topicFilters ?ou)) =
      map str_content (take ?k (ub_topicFilters ou)) @ [str_content t]"
    using k by (simp add: take_Suc_update)
  ultimately show ?case using Cons.IH [of ?ou] Cons.prems by auto
qed

text \<open>
  an UNSUBSCRIBE packet round-trips for any number of topic filters the caller's array can
  hold.
\<close>

theorem unsubscribe_roundtrip:
  assumes "\<forall>t \<in> set ts. str_ok t" and "length ts \<le> length (ub_topicFilters ou)"
    and "dup \<in> {0, 1}" and "buflen < 268435456"
    and "MQTTSerialize_unsubscribeLength (int (length ts)) ts = Inr n" and "MQTTPacket_len n \<le> buflen"
  shows "\<exists>b ou'. MQTTSerialize_unsubscribe buflen dup pid (int (length ts)) ts = Inr (int (length b), b) \<and>
    int (length b) \<le> buflen \<and> MQTTDeserialize_unsubscribe (b @ junk) ou = Inr (1, ou') \<and>
    ub_dup ou' = dup \<and> ub_packetid ou' = pid \<and> ub_count ou' = length ts \<and>
    map str_content (take (length ts) (ub_topicFilters ou')) = map str_content ts"
proof -
  let ?s = "concat (map (\<lambda>t. wstr (str_content t)) ts)"
  let ?r = "writeInt (uint pid) @ ?s" and ?h = "set_qos 1 (set_dup dup (set_type UNSUBSCRIBE 0))"
  let ?b = "?h # MQTTPacket_encode n @ ?r"
  have n: "n = int (length ?r)"
    using assms(5) unsubscribe_write(2) [OF assms(1)] by (simp add: MQTTSerialize_unsubscribeLength_def)
  then have n0: "0 \<le> n" by simp
  note fits = packet_fits [OF n0 assms(6,4)]
  have ser: "MQTTSerialize_unsubscribe buflen dup pid (int (length ts)) ts = Inr (int (length ?b), ?b)"
    using assms(5,6) unsubscribe_write(1) [OF assms(1)] by (simp add: MQTTSerialize_unsubscribe_def Let_def)
  obtain ou' where l: "unsubscribe_loop (cur ?s junk) (ou\<lparr>ub_dup := dup, ub_packetid := pid, ub_count := 0\<rparr>) =
      Inr (True, ou')" "ub_count ou' = length ts" "ub_dup ou' = dup" "ub_packetid ou' = pid"
      "map str_content (take (length ts) (ub_topicFilters ou')) = map str_content ts"
    using unsubscribe_loop_cur [OF assms(1), of "ou\<lparr>ub_dup := dup, ub_packetid := pid, ub_count := 0\<rparr>" junk] assms(2)
    by auto
  have "body_cursor (MQTTPacket_encode n @ ?r @ junk) = Inr (int (length (MQTTPacket_encode n)), cur ?r junk)"
    using fits(2) n by (intro body_cursor_cur) linarith+
  then have "MQTTDeserialize_unsubscribe (?b @ junk) ou = Inr (1, ou')"
    using l(1) by (simp add: MQTTDeserialize_unsubscribe_def Let_def sub_header_fields(2) sub_header_fields(3) [OF assms(3)])
  moreover have "int (length ?b) \<le> buflen" using fits(1) n by simp
  ultimately show ?thesis using ser l by blast
qed

theorem unsubscribe_roundtrip_witness:
  "\<exists>b ou'. MQTTSerialize_unsubscribe 64 0 5 (int (length [demo_cstr ''a''])) [demo_cstr ''a''] = Inr (int (length b), b) \<and>
    int (length b) \<le> 64 \<and> MQTTDeserialize_unsubscribe (b @ [])
      \<lparr>ub_dup = 1, ub_packetid = 0, ub_count = 0, ub_topicFilters = [MQTTString_initializer]\<rparr> = Inr (1, ou') \<and>
    ub_dup ou' = 0 \<and> ub_packetid ou' = 5 \<and> ub_count ou' = length [demo_cstr ''a''] \<and>
    map str_content (take (length [demo_cstr ''a'']) (ub_topicFilters ou')) = map str_content [demo_cstr ''a'']"
  by (rule unsubscribe_roundtrip [where n = 5])
    (simp_all add: demo_cstr MQTTSerialize_unsubscribeLength_def MQTTPacket_len_def)

section \<open>SUBACK\<close>

lemma suback_write: "write_codes (length qs) qs = Inr (map of_int qs)"
  by (induction qs) auto

lemma suback_loop_cur:
  assumes "\<forall>q \<in> set qs. 0 \<le> q \<and> q < 256" and "so_count ou + length qs \<le> length (so_grantedQoSs ou)"
    and "int (so_count ou + length qs) \<le> maxcount + 1"
  shows "\<exists>ou'. suback_loop maxcount (cur (map of_int qs) junk) ou = Inr (True, ou') \<and>
    so_count ou' = so_count ou + length qs \<and> so_packetid ou' = so_packetid ou \<and>
    take (so_count ou') (so_grantedQoSs ou') = take (so_count ou) (so_grantedQoSs ou) @ qs"
  using assms
proof (induction qs arbitrary: ou)
  case Nil
  then show ?case by (simp add: suback_loop.simps [of _ "cur [] junk"])
next
  case (Cons q qs)
  let ?k = "so_count ou"
  let ?ou = "ou\<lparr>so_grantedQoSs := (so_grantedQoSs ou)[?k := q], so_count := Suc ?k\<rparr>"
  have k: "?k < length (so_grantedQoSs ou)" using Cons.prems by simp
  have q: "uint (of_int q :: u8) = q"
    using Cons.prems(1) by (simp add: unsigned_of_int take_bit_int_eq_self)
  have "suback_loop maxcount (cur (of_int q # map of_int qs) junk) ou = suback_loop maxcount (cur (map of_int qs) junk) ?ou"
    using k q Cons.prems(3) by (simp add: suback_loop.simps [of _ "cur (of_int q # map of_int qs) junk"])
  moreover have "take (Suc ?k) (so_grantedQoSs ?ou) = take ?k (so_grantedQoSs ou) @ [q]"
    using k by (simp add: take_Suc_update)
  ultimately show ?case using Cons.IH [of ?ou] Cons.prems by auto
qed

text \<open>
  a SUBACK round-trips when the client's array can hold the return codes: identifier, count
  and codes are recovered.
\<close>

theorem suback_roundtrip:
  assumes "\<forall>q \<in> set qs. 0 \<le> q \<and> q < 256" and "length qs \<le> length (so_grantedQoSs ou)"
    and "int (length qs) \<le> maxcount" and "length qs < 268435454" and "2 + int (length qs) \<le> buflen"
  shows "\<exists>b ou'. MQTTSerialize_suback buflen pid (int (length qs)) qs = Inr (int (length b), b) \<and>
    MQTTDeserialize_suback (b @ junk) maxcount ou = Inr (1, ou') \<and>
    so_packetid ou' = pid \<and> so_count ou' = length qs \<and> take (length qs) (so_grantedQoSs ou') = qs"
proof -
  let ?r = "writeInt (uint pid) @ map of_int qs" and ?n = "2 + int (length qs)"
  let ?b = "set_type SUBACK 0 # MQTTPacket_encode ?n @ ?r"
  have ser: "MQTTSerialize_suback buflen pid (int (length qs)) qs = Inr (int (length ?b), ?b)"
    using assms(5) by (simp add: MQTTSerialize_suback_def Let_def suback_write)
  obtain ou' where l: "suback_loop maxcount (cur (map of_int qs) junk) (ou\<lparr>so_packetid := pid, so_count := 0\<rparr>) = Inr (True, ou')"
      "so_count ou' = length qs" "so_packetid ou' = pid" "take (length qs) (so_grantedQoSs ou') = qs"
    using suback_loop_cur [OF assms(1), of "ou\<lparr>so_packetid := pid, so_count := 0\<rparr>" maxcount junk] assms(2,3) by auto
  have "body_cursor (MQTTPacket_encode ?n @ ?r @ junk) = Inr (int (length (MQTTPacket_encode ?n)), cur ?r junk)"
    using assms(4) by (intro body_cursor_cur) simp_all
  then have "MQTTDeserialize_suback (?b @ junk) maxcount ou = Inr (1, ou')"
    using l(1) by (simp add: MQTTDeserialize_suback_def SUBACK_def)
  with ser l show ?thesis by blast
qed

theorem suback_roundtrip_witness:
  "\<exists>b ou'. MQTTSerialize_suback 64 9 (int (length [1, 128 :: int])) [1, 128] = Inr (int (length b), b) \<and>
    MQTTDeserialize_suback (b @ [0]) 2 \<lparr>so_packetid = 0, so_count = 0, so_grantedQoSs = [0, 0]\<rparr> = Inr (1, ou') \<and>
    so_packetid ou' = 9 \<and> so_count ou' = length [1, 128 :: int] \<and> take (length [1, 128 :: int]) (so_grantedQoSs ou') = [1, 128]"
  by (rule suback_roundtrip) simp_all

section \<open>Where the packet layer breaks its own promises\<close>

text \<open>
  a CONNACK that is too short is reported as received.  When the remaining length is 0 or 1,
  \<open>MQTTDeserialize_connack\<close> leaves with the value of \<open>MQTTPacket_decodeBuf\<close>, which is
  1, its code for success, and has not written the return code; the caller has preset it to 0,
  connection accepted.
\<close>

theorem connack_short_accepted:
  assumes "0 \<le> n" and "n < 2"
  shows "MQTTDeserialize_connack (set_type CONNACK 0 # MQTTPacket_encode n @ r) ou = Inr (1, ou)"
proof -
  have "MQTTPacket_encode n = [of_int n]" using assms by (simp add: encode_nonneg)
  moreover have "body_cursor (MQTTPacket_encode n @ r) = Inr (int (length (MQTTPacket_encode n)), r, n)"
    using assms by (simp add: body_cursor_def decodeBuf_encode skip_def)
  ultimately show ?thesis
    using assms by (simp add: MQTTDeserialize_connack_def CONNACK_def)
qed

theorem connack_short_accepted_witness:
  "MQTTDeserialize_connack (set_type CONNACK 0 # MQTTPacket_encode 0 @ [])
     \<lparr>co_sessionPresent = 0, co_rc = 0\<rparr> = Inr (1, \<lparr>co_sessionPresent = 0, co_rc = 0\<rparr>)"
  by (rule connack_short_accepted) simp_all

text \<open>
  a PUBLISH with QoS 1 or 2 whose topic fills the packet is accepted with a negative payload
  length: the packet identifier is read from behind the packet, and \<open>payloadlen\<close> is
  \<open>- 2\<close>.
\<close>

theorem publish_negative_payload:
  assumes "length t < 65536" and "0 < qos" and "qos < 4"
  shows "\<exists>ou'. MQTTDeserialize_publish
      (publish_header 0 qos 0 # MQTTPacket_encode (int (length (wstr t))) @ wstr t @ writeInt (uint pid) @ r) ou =
      Inr (1, ou') \<and> po_payloadlen ou' = -2 \<and> po_packetid ou' = pid"
proof -
  have "body_cursor (MQTTPacket_encode (int (length (wstr t))) @ wstr t @ writeInt (uint pid) @ r) =
      Inr (int (length (MQTTPacket_encode (int (length (wstr t))))), cur (wstr t) (writeInt (uint pid) @ r))"
    using assms(1) by (intro body_cursor_cur) simp_all
  moreover have "readMQTTLenString s (cur (wstr t) j) = Inr (True, len_str t s, cur [] j)" for s j
    using readMQTTLenString_cur [OF assms(1), of s "[]" j] by simp
  moreover have "readInt (cur [] (writeInt (uint pid) @ r)) = Inr (uint pid, r, -2)"
    by (simp add: cur_def)
  ultimately show ?thesis
    using publish_header_fields [of 0 0 qos] assms(2,3) by (simp add: MQTTDeserialize_publish_def Let_def)
qed

theorem publish_negative_payload_witness:
  "\<exists>ou'. MQTTDeserialize_publish
      (publish_header 0 1 0 # MQTTPacket_encode (int (length (wstr [97]))) @ wstr [97] @ writeInt (uint (3 :: u16)) @ [])
      demo_publish_out = Inr (1, ou') \<and> po_payloadlen ou' = -2 \<and> po_packetid ou' = 3"
  by (rule publish_negative_payload) simp_all

text \<open>
  \<open>MQTTDeserialize_suback\<close> with the client's one-element array overruns it when the
  broker sends one return code more than the array holds: the guard compares with \<open>>\<close>.
\<close>

theorem suback_overrun:
  assumes "int (length (so_grantedQoSs ou)) = maxcount" and "\<forall>q \<in> set qs. 0 \<le> q \<and> q < 256"
    and "length qs = Suc (length (so_grantedQoSs ou))" and "length qs < 268435454"
  shows "MQTTDeserialize_suback (set_type SUBACK 0 # MQTTPacket_encode (2 + int (length qs))
    @ writeInt (uint (pid :: u16)) @ map of_int qs @ junk) maxcount ou = Inl OutOfBounds"
proof -
  obtain us q where qs: "qs = us @ [q]" using assms(3) by (cases qs rule: rev_cases) auto
  have over: "suback_loop maxcount (cur (map of_int vs @ [of_int q]) junk) v = Inl OutOfBounds"
    if "so_count v + length vs = length (so_grantedQoSs v)" "int (length (so_grantedQoSs v)) = maxcount" for vs v
    using that
  proof (induction vs arbitrary: v)
    case Nil
    then show ?case by (simp add: suback_loop.simps [of _ "cur [of_int q] junk"])
  next
    case (Cons x xs)
    then show ?case
      by (simp add: suback_loop.simps [of _ "cur (of_int x # map of_int xs @ [of_int q]) junk"])
  qed
  have "body_cursor (MQTTPacket_encode (2 + int (length qs)) @ (writeInt (uint pid) @ map of_int qs) @ junk) =
      Inr (int (length (MQTTPacket_encode (2 + int (length qs)))), cur (writeInt (uint pid) @ map of_int qs) junk)"
    using assms(4) by (intro body_cursor_cur) simp_all
  then show ?thesis
    using over [of "ou\<lparr>so_packetid := pid, so_count := 0\<rparr>" us] assms(1,3) qs
    by (simp add: MQTTDeserialize_suback_def SUBACK_def)
qed

theorem suback_overrun_witness:
  "MQTTDeserialize_suback (set_type SUBACK 0 # MQTTPacket_encode (2 + int (length [0, 1 :: int]))
    @ writeInt (uint (7 :: u16)) @ map of_int [0, 1 :: int] @ []) 1 \<lparr>so_packetid = 0, so_count = 0, so_grantedQoSs = [0]\<rparr> =
    Inl OutOfBounds"
  by (rule suback_overrun) simp_all

text \<open>
  the CONNACK and UNSUBACK serializers only ask for two bytes and write four: in a buffer of
  two or three bytes they write past its end.
\<close>

theorem connack_unsuback_overrun:
  assumes "2 \<le> buflen" and "buflen < 4"
  shows "int (length (snd (MQTTSerialize_connack buflen rc sp))) = 4 \<and> fst (MQTTSerialize_connack buflen rc sp) = 4 \<and>
    int (length (snd (MQTTSerialize_unsuback buflen pid))) = 4 \<and> fst (MQTTSerialize_unsuback buflen pid) = 4"
  using assms by (simp add: MQTTSerialize_connack_def MQTTSerialize_unsuback_def Let_def encode_2)

theorem connack_unsuback_overrun_witness:
  "int (length (snd (MQTTSerialize_connack 2 0 0))) = 4 \<and> fst (MQTTSerialize_connack 2 0 0) = 4 \<and>
    int (length (snd (MQTTSerialize_unsuback 2 1))) = 4 \<and> fst (MQTTSerialize_unsuback 2 1) = 4"
  by (rule connack_unsuback_overrun) simp_all

end
