(* ===== verification/Mqtt_Client.thy ===== *)
theory Mqtt_Client
  imports Mqtt_Roundtrip
begin

text \<open>
  The MQTT client of \<open>Middlewares/MQTT/MQTTClient-C/MQTTClient_iBox.c\<close> on top of the
  packet layer and the network layer.  A client call passes the client object and the network
  state; what the rest of the system decides (semaphores, mutexes, the clock, what other threads
  do while the call waits) is an argument.  Topic filters are kept as pointers, as in the code:
  \<open>mem\<close> gives the C string a pointer points to.
\<close>

section \<open>Timeouts\<close>

text \<open>\<open>now\<close> is the value of \<open>get_sys_time_ms\<close>; \<open>long\<close> has 32 bits on the target.\<close>

definition timeout_init :: "u32 \<Rightarrow> u32 \<Rightarrow> u32" where
  "timeout_init now count = now + count"

definition timeout_conundown :: "u32 \<Rightarrow> u32 \<Rightarrow> u32" where
  "timeout_conundown timeout_tick count = timeout_tick + count"

definition is_timeout :: "u32 \<Rightarrow> u32 \<Rightarrow> u8" where
  "is_timeout timeout_tick now =
     (let left_time = sint (timeout_tick - now) in if left_time < 0 then 0 else of_int left_time)"

section \<open>The client object\<close>

definition MAX_PACKET_ID :: u32 where "MAX_PACKET_ID = 65535"
definition MAX_MESSAGE_HANDLERS :: nat where "MAX_MESSAGE_HANDLERS = 5"
definition MQTT_FAILURE :: int where "MQTT_FAILURE = -1"
definition MQTT_SUCCESS :: int where "MQTT_SUCCESS = 0"

record MQTTMessage =
  m_qos :: int
  m_retained :: u8
  m_dup :: u8
  m_id :: u16
  m_payload :: bytes
  m_payloadlen :: u32

record ('p, 'h) MQTTClient =
  condata :: MQTTPacket_connectData
  next_packetid :: u32
  command_timeout_ms :: u32
  buf_size :: nat
  readbuf_size :: nat
  buf :: bytes
  readbuf :: bytes
  mc_keepAliveInterval :: u32
  ping_outstanding :: u8
  isconnected :: int
  mc_cleansession :: int
  tick_ping :: u32
  messageHandlers :: "('p option \<times> 'h option) list"
  defaultMessageHandler :: "'h option"

definition getNextPacketId :: "('p, 'h) MQTTClient \<Rightarrow> u32 \<times> ('p, 'h) MQTTClient" where
  "getNextPacketId c =
     (let n = (if next_packetid c = MAX_PACKET_ID then 1 else next_packetid c + 1)
      in (n, c\<lparr>next_packetid := n\<rparr>))"

text \<open>Bytes stored from the start of an array; the rest of it keeps its contents.\<close>

definition store_front :: "bytes \<Rightarrow> bytes \<Rightarrow> bytes c_result" where
  "store_front b arr =
     (if length b \<le> length arr then Inr (b @ drop (length b) arr) else Inl OutOfBounds)"

definition sendPacket :: "bool \<Rightarrow> ('p, 'h) MQTTClient \<Rightarrow> int \<Rightarrow> network \<Rightarrow> (int \<times> network \<times> kcall list) c_result" where
  "sendPacket sem_ok c len net =
     bindR (net_tx_write sem_ok (buf c) (of_int len) net) (\<lambda>(r, net', ks).
       Inr (if r \<noteq> 0 then MQTT_SUCCESS else MQTT_FAILURE, net', ks))"

text \<open>Serializing into \<open>c->buf\<close>.\<close>

definition into_buf :: "('p, 'h) MQTTClient \<Rightarrow> int \<times> bytes \<Rightarrow> (int \<times> ('p, 'h) MQTTClient) c_result" where
  "into_buf c lb = bindR (store_front (snd lb) (buf c)) (\<lambda>b. Inr (fst lb, c\<lparr>buf := b\<rparr>))"

text \<open>
  The receive FIFO as a byte source of the packet reader.  \<open>net_fifo_read\<close> takes the mutex anew for each read, and the network thread
  may fill the FIFO in between: a turn is what the rest of the firmware has done to the FIFO since the last read and whether this read gets
  the mutex.  The reader has a turn per read in \<open>readPacket_turns\<close>.  \<open>readPacket\<close>, on which the calls of the client are built, is that
  with one outcome of the mutex for all reads and nothing in between (\<open>readPacket_turns_same\<close>); what happens between two of its calls
  is up to their environment.
\<close>

definition net_getfn :: "bool \<Rightarrow> net_fifo_t getfn" where
  "net_getfn mutex_ok count f =
     (let (ds, f') = net_fifo_read mutex_ok (nat count) f in Inr (int (length ds), ds, f'))"

record read_turn =
  rt_env :: "net_fifo_t \<Rightarrow> net_fifo_t"
  rt_mutex :: bool

definition turn_getfn :: "(nat \<Rightarrow> read_turn) \<Rightarrow> (nat \<times> net_fifo_t) getfn" where
  "turn_getfn ts count w =
     (let t = ts (fst w) in
      bindR (net_getfn (rt_mutex t) count (rt_env t (snd w))) (\<lambda>(rc, ds, f). Inr (rc, ds, Suc (fst w), f)))"

definition readPacket_turns :: "(nat \<Rightarrow> read_turn) \<Rightarrow> bool \<Rightarrow> ('p, 'h) MQTTClient \<Rightarrow> network \<Rightarrow>
    (int \<times> ('p, 'h) MQTTClient \<times> network) c_result" where
  "readPacket_turns ts sem_ok c net =
     (if sem_ok then
        bindR (MQTTPacket_read (int (readbuf_size c)) (turn_getfn ts) (0, net_rx_fifo net)) (\<lambda>(rc, b, k, f').
        bindR (store_front b (readbuf c)) (\<lambda>rb.
          Inr (rc, c\<lparr>readbuf := rb\<rparr>, net\<lparr>net_rx_fifo := f'\<rparr>)))
      else Inr (0, c, net))"

definition readPacket :: "bool \<Rightarrow> bool \<Rightarrow> ('p, 'h) MQTTClient \<Rightarrow> network \<Rightarrow>
    (int \<times> ('p, 'h) MQTTClient \<times> network) c_result" where
  "readPacket sem_ok mutex_ok c net =
     (if sem_ok then
        bindR (MQTTPacket_read (int (readbuf_size c)) (net_getfn mutex_ok) (net_rx_fifo net)) (\<lambda>(rc, b, f').
        bindR (store_front b (readbuf c)) (\<lambda>rb.
          Inr (rc, c\<lparr>readbuf := rb\<rparr>, net\<lparr>net_rx_fifo := f'\<rparr>)))
      else Inr (0, c, net))"

section \<open>Topics\<close>

text \<open>
  \<open>isTopicMatched\<close>: the rest of the filter and of the name.  A \<open>+\<close> moves to the last
  character before the next separator, and the common increment to the separator.
\<close>

fun topic_loop :: "bytes \<Rightarrow> bytes \<Rightarrow> bytes \<times> bytes" where
  "topic_loop (f # fs) (n # ns) =
     (if n = 47 \<and> f \<noteq> 47 then (f # fs, n # ns)
      else if f \<noteq> 43 \<and> f \<noteq> 35 \<and> f \<noteq> n then (f # fs, n # ns)
      else if f = 43 then topic_loop fs (dropWhile (\<lambda>x. x \<noteq> 47) ns)
      else if f = 35 then topic_loop fs []
      else topic_loop fs ns)"
| "topic_loop fs ns = (fs, ns)"

definition topic_data :: "MQTTString \<Rightarrow> bytes" where
  "topic_data s = take (nat (ls_len s)) (case ls_data s of Some d \<Rightarrow> d | None \<Rightarrow> [])"

definition isTopicMatched :: "bytes \<Rightarrow> MQTTString \<Rightarrow> bool" where
  "isTopicMatched topicFilter topicName =
     (let (fs, ns) = topic_loop topicFilter (topic_data topicName) in ns = [] \<and> fs = [])"

text \<open>
  \<open>deliverMessage\<close>: its result and the callbacks it makes, each with the topic and message.
\<close>

definition handler_matches :: "('p \<Rightarrow> bytes) \<Rightarrow> MQTTString \<Rightarrow> 'p option \<times> 'h option \<Rightarrow> bool" where
  "handler_matches mem topicName slot = (case fst slot of
       None \<Rightarrow> False
     | Some p \<Rightarrow> MQTTPacket_equals topicName (mem p) \<or> isTopicMatched (mem p) topicName)"

fun deliver_loop :: "('p \<Rightarrow> bytes) \<Rightarrow> MQTTString \<Rightarrow> ('p option \<times> 'h option) list \<Rightarrow> 'h list" where
  "deliver_loop mem topicName [] = []"
| "deliver_loop mem topicName (slot # slots) =
     (if handler_matches mem topicName slot
      then (case snd slot of Some h \<Rightarrow> [h] | None \<Rightarrow> []) @ deliver_loop mem topicName slots
      else deliver_loop mem topicName slots)"

definition deliverMessage :: "('p \<Rightarrow> bytes) \<Rightarrow> ('p, 'h) MQTTClient \<Rightarrow> MQTTString \<Rightarrow> int \<times> 'h list" where
  "deliverMessage mem c topicName =
     (let calls = deliver_loop mem topicName (messageHandlers c)
      in if calls \<noteq> [] then (MQTT_SUCCESS, calls)
         else case defaultMessageHandler c of
                Some h \<Rightarrow> (MQTT_SUCCESS, [h])
              | None \<Rightarrow> (MQTT_FAILURE, []))"

section \<open>Session\<close>

definition keepalive :: "bool \<Rightarrow> u32 \<Rightarrow> ('p, 'h) MQTTClient \<Rightarrow> network \<Rightarrow>
    (int \<times> ('p, 'h) MQTTClient \<times> network \<times> kcall list) c_result" where
  "keepalive sem_ok now c net =
     (if mc_keepAliveInterval c = 0 then Inr (MQTT_SUCCESS, c, net, [])
      else if ping_outstanding c \<noteq> 0 then Inr (MQTT_FAILURE, c, net, [])
      else bindR (into_buf c (MQTTSerialize_pingreq (int (buf_size c)))) (\<lambda>(len, c1).
        if len > 0 then
          bindR (sendPacket sem_ok c1 len net) (\<lambda>(rc, net', ks).
            Inr (rc, if rc = MQTT_SUCCESS then c1\<lparr>tick_ping := now, ping_outstanding := 0\<rparr> else c1, net', ks))
        else Inr (MQTT_SUCCESS, c1, net, [])))"

definition MQTTCleanSession :: "('p, 'h) MQTTClient \<Rightarrow> ('p, 'h) MQTTClient" where
  "MQTTCleanSession c = c\<lparr>messageHandlers := map (\<lambda>(_, h). (None, h)) (messageHandlers c)\<rparr>"

definition MQTTCloseSession :: "('p, 'h) MQTTClient \<Rightarrow> ('p, 'h) MQTTClient" where
  "MQTTCloseSession c =
     (let c1 = c\<lparr>ping_outstanding := 0, isconnected := 0\<rparr>
      in if mc_cleansession c1 \<noteq> 0 then MQTTCleanSession c1 else c1)"

text \<open>
  The acknowledgement step shared by the PUBLISH, PUBREC and PUBREL branches of
  \<open>MQTT_cycle\<close>.
\<close>

definition send_ack :: "bool \<Rightarrow> ('p, 'h) MQTTClient \<Rightarrow> u8 \<Rightarrow> u16 \<Rightarrow> network \<Rightarrow>
    (int \<times> ('p, 'h) MQTTClient \<times> network \<times> kcall list) c_result" where
  "send_ack sem_ok c type pid net =
     bindR (into_buf c (MQTTSerialize_ack (int (buf_size c)) type 0 pid)) (\<lambda>(len, c1).
       if len \<le> 0 then Inr (MQTT_FAILURE, c1, net, [])
       else bindR (sendPacket sem_ok c1 len net) (\<lambda>(rc, net', ks). Inr (rc, c1, net', ks)))"

text \<open>
  The PUBLISH branch.  \<open>stk\<close> is what the local variables hold before
  \<open>MQTTDeserialize_publish\<close> writes them.
\<close>

definition cycle_publish :: "('p \<Rightarrow> bytes) \<Rightarrow> bool \<Rightarrow> publish_out \<Rightarrow> ('p, 'h) MQTTClient \<Rightarrow> network \<Rightarrow>
    (int \<times> ('p, 'h) MQTTClient \<times> network \<times> kcall list \<times> ('h \<times> publish_out) list) c_result" where
  "cycle_publish mem sem_ok stk c net =
     bindR (MQTTDeserialize_publish (readbuf c) (stk\<lparr>po_payloadlen := 0\<rparr>)) (\<lambda>(r, msg).
       if r \<noteq> 1 then Inr (MQTT_SUCCESS, c, net, [], [])
       else let calls = map (\<lambda>h. (h, msg)) (snd (deliverMessage mem c (po_topicName msg)))
            in if po_qos msg = 0 then Inr (MQTT_SUCCESS, c, net, [], calls)
               else if po_qos msg = 1 \<or> po_qos msg = 2 then
                 bindR (send_ack sem_ok c (if po_qos msg = 1 then PUBACK else PUBREC) (po_packetid msg) net)
                   (\<lambda>(rc, c1, net', ks). Inr (rc, c1, net', ks, calls))
               else Inr (MQTT_FAILURE, c, net, [], calls))"

definition cycle_pubrec_pubrel :: "bool \<Rightarrow> int \<Rightarrow> u16 \<Rightarrow> ('p, 'h) MQTTClient \<Rightarrow> network \<Rightarrow>
    (int \<times> ('p, 'h) MQTTClient \<times> network \<times> kcall list) c_result" where
  "cycle_pubrec_pubrel sem_ok packet_type pid0 c net =
     bindR (MQTTDeserialize_ack (readbuf c) \<lparr>ao_packettype = 0, ao_dup = 0, ao_packetid = pid0\<rparr>) (\<lambda>(r, a).
       if r \<noteq> 1 then Inr (MQTT_FAILURE, c, net, [])
       else send_ack sem_ok c (if packet_type = uint PUBREC then PUBREL else PUBCOMP) (ao_packetid a) net)"

text \<open>
  \<open>MQTT_cycle\<close>: its result, the client, the network, the kernel calls and the callbacks.
\<close>

definition MQTT_cycle :: "('p \<Rightarrow> bytes) \<Rightarrow> bool \<Rightarrow> bool \<Rightarrow> bool \<Rightarrow> publish_out \<Rightarrow> ('p, 'h) MQTTClient \<Rightarrow> network \<Rightarrow>
    (int \<times> ('p, 'h) MQTTClient \<times> network \<times> kcall list \<times> ('h \<times> publish_out) list) c_result" where
  "MQTT_cycle mem fifo_sem mutex_ok tx_sem stk c0 net0 =
     bindR (readPacket fifo_sem mutex_ok c0 net0) (\<lambda>(packet_type, c, net).
     bindR (if packet_type \<in> {0, uint CONNACK, uint PUBACK, uint SUBACK, uint UNSUBACK, uint PUBCOMP}
            then Inr (MQTT_SUCCESS, c, net, [], [])
            else if packet_type = uint PUBLISH then cycle_publish mem tx_sem stk c net
            else if packet_type = uint PUBREC \<or> packet_type = uint PUBREL then
              bindR (cycle_pubrec_pubrel tx_sem packet_type (po_packetid stk) c net)
                (\<lambda>(rc, c1, net', ks). Inr (rc, c1, net', ks, []))
            else if packet_type = uint PINGRESP then Inr (MQTT_SUCCESS, c\<lparr>ping_outstanding := 0\<rparr>, net, [], [])
            else Inr (packet_type, c, net, [], [])) (\<lambda>(rc, c1, net', ks, calls).
       Inr (if rc = MQTT_SUCCESS then (packet_type, c1, net', ks, calls)
            else (rc, if isconnected c1 \<noteq> 0 then MQTTCloseSession c1 else c1, net', ks, calls))))"

definition MQTTIsConnected :: "('p, 'h) MQTTClient \<Rightarrow> int" where
  "MQTTIsConnected c = isconnected c"

text \<open>
  One turn of the loop of \<open>waitfor\<close>: what the other threads did to the network state before
  it, the outcomes of the semaphore and the mutex, and the clock at its end.  \<open>waitfor\<close> runs
  over a finite sequence of turns; \<open>None\<close> means that it is still waiting after them.
\<close>

record poll =
  pl_env :: "network \<Rightarrow> network"
  pl_sem :: bool
  pl_mutex :: bool
  pl_now :: u32

fun waitfor :: "poll list \<Rightarrow> ('p, 'h) MQTTClient \<Rightarrow> int \<Rightarrow> u32 \<Rightarrow> network \<Rightarrow>
    (int \<times> ('p, 'h) MQTTClient \<times> network) option c_result" where
  "waitfor [] c packet_type timeout net = Inr None"
| "waitfor (p # ps) c packet_type timeout net =
     bindR (readPacket (pl_sem p) (pl_mutex p) c (pl_env p net)) (\<lambda>(rc, c', net').
       if rc \<noteq> packet_type \<and> is_timeout timeout (pl_now p) \<noteq> 0
       then waitfor ps c' packet_type timeout net'
       else Inr (Some (rc, c', net')))"

text \<open>\<open>await\<close>: the client's calls go on only when \<open>waitfor\<close> has returned.\<close>

definition await :: "'a option c_result \<Rightarrow> ('a \<Rightarrow> 'b c_result) \<Rightarrow> 'b option c_result" where
  "await m f = bindR m (\<lambda>x. case x of None \<Rightarrow> Inr None | Some y \<Rightarrow> bindR (f y) (\<lambda>z. Inr (Some z)))"

definition MQTTConnectWithResults :: "bool \<Rightarrow> u32 \<Rightarrow> poll list \<Rightarrow> ('p, 'h) MQTTClient \<Rightarrow>
    MQTTPacket_connectData option \<Rightarrow> network \<Rightarrow> (int \<times> ('p, 'h) MQTTClient \<times> network) option c_result" where
  "MQTTConnectWithResults tx_sem now polls c opts net =
     (if isconnected c \<noteq> 0 then Inr (Some (MQTT_FAILURE, c, net))
      else let ou = (case opts of Some x \<Rightarrow> x | None \<Rightarrow> MQTTPacket_connectData_initializer);
               c1 = c\<lparr>mc_keepAliveInterval := ucast (keepAliveInterval ou), mc_cleansession := uint (cleansession ou)\<rparr>
           in bindR (MQTTSerialize_connect (int (buf_size c1)) ou) (\<lambda>lb.
              bindR (into_buf c1 lb) (\<lambda>(len, c2).
                if len \<le> 0 then Inr (Some (MQTT_FAILURE, c2, net))
                else bindR (sendPacket tx_sem c2 len net) (\<lambda>(rc, net1, _).
                  if rc \<noteq> MQTT_SUCCESS then Inr (Some (rc, c2, net1))
                  else await (waitfor polls c2 (uint CONNACK) (timeout_init now 1000) net1) (\<lambda>(r, c3, net2).
                    if r = uint CONNACK then
                      bindR (MQTTDeserialize_connack (readbuf c3) \<lparr>co_sessionPresent = 0, co_rc = 0\<rparr>) (\<lambda>(dr, d).
                        let rc' = (if dr = 1 then uint (co_rc d) else MQTT_FAILURE)
                        in Inr (rc', if rc' = MQTT_SUCCESS then c3\<lparr>isconnected := 1, ping_outstanding := 0\<rparr> else c3, net2))
                    else Inr (MQTT_FAILURE, c3, net2))))))"

definition MQTTConnect :: "bool \<Rightarrow> u32 \<Rightarrow> poll list \<Rightarrow> ('p, 'h) MQTTClient \<Rightarrow> network \<Rightarrow>
    (int \<times> ('p, 'h) MQTTClient \<times> network) option c_result" where
  "MQTTConnect tx_sem now polls c net = MQTTConnectWithResults tx_sem now polls c (Some (condata c)) net"

section \<open>Subscriptions\<close>

fun find_index :: "('a \<Rightarrow> bool) \<Rightarrow> 'a list \<Rightarrow> nat" where
  "find_index P [] = 0"
| "find_index P (x # xs) = (if P x then 0 else Suc (find_index P xs))"

definition has_filter :: "('p \<Rightarrow> bytes) \<Rightarrow> bytes \<Rightarrow> 'p option \<times> 'h option \<Rightarrow> bool" where
  "has_filter mem topic slot = (case fst slot of Some p \<Rightarrow> mem p = topic | None \<Rightarrow> False)"

definition MQTTSetMessageHandler :: "('p \<Rightarrow> bytes) \<Rightarrow> ('p, 'h) MQTTClient \<Rightarrow> 'p \<Rightarrow> 'h option \<Rightarrow>
    int \<times> ('p, 'h) MQTTClient" where
  "MQTTSetMessageHandler mem c topicFilter messageHandler =
     (let hs = messageHandlers c; i = find_index (has_filter mem (mem topicFilter)) hs
      in case messageHandler of
           None \<Rightarrow> if i < length hs then (MQTT_SUCCESS, c\<lparr>messageHandlers := hs[i := (None, None)]\<rparr>)
                   else (MQTT_FAILURE, c)
         | Some h \<Rightarrow>
             let i' = (if i < length hs then i else find_index (\<lambda>slot. fst slot = None) hs)
             in if i' < length hs
                then (MQTT_SUCCESS, c\<lparr>messageHandlers := hs[i' := (Some topicFilter, Some h)]\<rparr>)
                else (MQTT_FAILURE, c))"

definition close_on_failure :: "int \<Rightarrow> ('p, 'h) MQTTClient \<Rightarrow> ('p, 'h) MQTTClient" where
  "close_on_failure rc c = (if rc = MQTT_FAILURE then MQTTCloseSession c else c)"

definition topic_cstr :: "bytes \<Rightarrow> MQTTString" where
  "topic_cstr t = MQTTString_initializer\<lparr>cstring := Some t\<rparr>"

definition MQTTSubscribeWithResults :: "('p \<Rightarrow> bytes) \<Rightarrow> bool \<Rightarrow> u32 \<Rightarrow> poll list \<Rightarrow> ('p, 'h) MQTTClient \<Rightarrow>
    'p \<Rightarrow> int \<Rightarrow> 'h option \<Rightarrow> network \<Rightarrow> (int \<times> ('p, 'h) MQTTClient \<times> network) option c_result" where
  "MQTTSubscribeWithResults mem tx_sem now polls c topicFilter qos messageHandler net =
     (if isconnected c = 0 then Inr (Some (MQTT_FAILURE, MQTTCloseSession c, net))
      else let (pid, c1) = getNextPacketId c
           in bindR (MQTTSerialize_subscribe (int (buf_size c1)) 0 (ucast pid) 1 [topic_cstr (mem topicFilter)] [qos]) (\<lambda>lb.
              bindR (into_buf c1 lb) (\<lambda>(len, c2).
                if len \<le> 0 then Inr (Some (MQTT_FAILURE, MQTTCloseSession c2, net))
                else bindR (sendPacket tx_sem c2 len net) (\<lambda>(rc, net1, _).
                  if rc \<noteq> MQTT_SUCCESS then Inr (Some (rc, close_on_failure rc c2, net1))
                  else await (waitfor polls c2 (uint SUBACK) (timeout_init now 500) net1) (\<lambda>(r, c3, net2).
                    if r = uint SUBACK then
                      bindR (MQTTDeserialize_suback (readbuf c3) 1
                               \<lparr>so_packetid = 0, so_count = 0, so_grantedQoSs = [0]\<rparr>) (\<lambda>(dr, so).
                        let (rc', c4) = (if dr = 1 \<and> hd (so_grantedQoSs so) \<noteq> 0x80
                                         then MQTTSetMessageHandler mem c3 topicFilter messageHandler else (rc, c3))
                        in Inr (rc', close_on_failure rc' c4, net2))
                    else Inr (MQTT_FAILURE, MQTTCloseSession c3, net2))))))"

definition MQTTSubscribe :: "('p \<Rightarrow> bytes) \<Rightarrow> bool \<Rightarrow> u32 \<Rightarrow> poll list \<Rightarrow> ('p, 'h) MQTTClient \<Rightarrow>
    'p \<Rightarrow> int \<Rightarrow> 'h option \<Rightarrow> network \<Rightarrow> (int \<times> ('p, 'h) MQTTClient \<times> network) option c_result" where
  "MQTTSubscribe mem tx_sem now polls c topicFilter qos messageHandler net =
     MQTTSubscribeWithResults mem tx_sem now polls c topicFilter qos messageHandler net"

definition MQTTUnsubscribe :: "('p \<Rightarrow> bytes) \<Rightarrow> bool \<Rightarrow> u32 \<Rightarrow> poll list \<Rightarrow> ('p, 'h) MQTTClient \<Rightarrow>
    'p \<Rightarrow> network \<Rightarrow> (int \<times> ('p, 'h) MQTTClient \<times> network) option c_result" where
  "MQTTUnsubscribe mem tx_sem now polls c topicFilter net =
     (if isconnected c = 0 then Inr (Some (MQTT_FAILURE, MQTTCloseSession c, net))
      else let (pid, c1) = getNextPacketId c
           in bindR (MQTTSerialize_unsubscribe (int (buf_size c1)) 0 (ucast pid) 1 [topic_cstr (mem topicFilter)]) (\<lambda>lb.
              bindR (into_buf c1 lb) (\<lambda>(len, c2).
                if len \<le> 0 then Inr (Some (MQTT_FAILURE, MQTTCloseSession c2, net))
                else bindR (sendPacket tx_sem c2 len net) (\<lambda>(rc, net1, _).
                  if rc \<noteq> MQTT_SUCCESS then Inr (Some (rc, close_on_failure rc c2, net1))
                  else await (waitfor polls c2 (uint UNSUBACK) (timeout_init now (command_timeout_ms c2)) net1) (\<lambda>(r, c3, net2).
                    if r = uint UNSUBACK then
                      bindR (MQTTDeserialize_unsuback (readbuf c3) 0) (\<lambda>(dr, _).
                        Inr (rc, if dr = 1 then snd (MQTTSetMessageHandler mem c3 topicFilter None) else c3, net2))
                    else Inr (MQTT_FAILURE, MQTTCloseSession c3, net2))))))"

section \<open>Publishing\<close>

text \<open>Waiting for the acknowledgement of a QoS 1 or 2 publication.\<close>

definition await_ack :: "poll list \<Rightarrow> u8 \<Rightarrow> u32 \<Rightarrow> ('p, 'h) MQTTClient \<Rightarrow> network \<Rightarrow>
    (int \<times> ('p, 'h) MQTTClient \<times> network) option c_result" where
  "await_ack polls type timeout c net =
     await (waitfor polls c (uint type) timeout net) (\<lambda>(r, c', net').
       if r = uint type then
         bindR (MQTTDeserialize_ack (readbuf c') \<lparr>ao_packettype = 0, ao_dup = 0, ao_packetid = 0\<rparr>) (\<lambda>(dr, _).
           let rc = (if dr \<noteq> 1 then MQTT_FAILURE else MQTT_SUCCESS) in Inr (rc, close_on_failure rc c', net'))
       else Inr (MQTT_FAILURE, MQTTCloseSession c', net'))"

text \<open>\<open>MQTTPublish\<close> also returns the message, whose identifier it sets for QoS 1 and 2.\<close>

definition publish_id :: "('p, 'h) MQTTClient \<Rightarrow> MQTTMessage \<Rightarrow> MQTTMessage \<times> ('p, 'h) MQTTClient" where
  "publish_id c message =
     (if m_qos message = 1 \<or> m_qos message = 2
      then let (n, c') = getNextPacketId c in (message\<lparr>m_id := ucast n\<rparr>, c')
      else (message, c))"

definition MQTTPublish :: "bool \<Rightarrow> u32 \<Rightarrow> poll list \<Rightarrow> ('p, 'h) MQTTClient \<Rightarrow> bytes \<Rightarrow> MQTTMessage \<Rightarrow> network \<Rightarrow>
    (int \<times> ('p, 'h) MQTTClient \<times> network) option c_result" where
  "MQTTPublish tx_sem now polls c topicName message net =
     (if isconnected c = 0 then Inr (Some (MQTT_FAILURE, MQTTCloseSession c, net))
      else let (msg, c1) = publish_id c message
           in bindR (MQTTSerialize_publish (int (buf_size c1)) 0 (m_qos msg) (m_retained msg) (m_id msg)
                       (topic_cstr topicName) (m_payload msg) (sint (m_payloadlen msg))) (\<lambda>lb.
              bindR (into_buf c1 lb) (\<lambda>(len, c2).
                if len \<le> 0 then Inr (Some (MQTT_FAILURE, MQTTCloseSession c2, net))
                else bindR (sendPacket tx_sem c2 len net) (\<lambda>(rc, net1, _).
                  if rc \<noteq> MQTT_SUCCESS then Inr (Some (rc, close_on_failure rc c2, net1))
                  else if m_qos msg = 1 then await_ack polls PUBACK (timeout_init now 500) c2 net1
                  else if m_qos msg = 2 then await_ack polls PUBCOMP (timeout_init now 500) c2 net1
                  else Inr (Some (rc, c2, net1))))))"

definition MQTTDisconnect :: "bool \<Rightarrow> ('p, 'h) MQTTClient \<Rightarrow> network \<Rightarrow>
    (int \<times> ('p, 'h) MQTTClient \<times> network) c_result" where
  "MQTTDisconnect tx_sem c net =
     bindR (into_buf c (MQTTSerialize_disconnect (int (buf_size c)))) (\<lambda>(len, c1).
       if len > 0 then bindR (sendPacket tx_sem c1 len net) (\<lambda>(rc, net', _). Inr (rc, MQTTCloseSession c1, net'))
       else Inr (MQTT_FAILURE, MQTTCloseSession c1, net))"

end
