(* ===== verification/Mqtt_Receive.thy ===== *)
theory Mqtt_Receive
  imports Mqtt_Client
begin

text \<open>
  The receive path of the MQTT client: the network FIFO is a byte source of the packet reader, a
  complete packet in it is delivered exactly, no input makes the reader write outside the
  client's read buffer, and \<open>waitfor\<close> returns once its deadline has passed.
\<close>

section \<open>Sources that may run dry\<close>

locale safe_source =
  fixes invar :: "'w \<Rightarrow> bool"
    and getfn :: "'w getfn"
  assumes get_safe: "invar w \<Longrightarrow>
    \<exists>ds w'. getfn n w = Inr (int (length ds), ds, w') \<and> length ds \<le> nat n \<and> invar w'"
begin

lemma decode_loop_safe:
  assumes "invar w" and "len \<le> 4" and "0 \<le> v" and "v < 128 ^ len"
  shows "\<exists>l v' w'. decode_loop getfn len (128 ^ len) v w = Inr (l, v', w') \<and> invar w' \<and> 0 \<le> v' \<and> v' < 128 ^ 4"
  using assms
proof (induction "4 - len" arbitrary: len v w)
  case 0
  then show ?case by (simp add: decode_loop.simps [of _ 4] MAX_NO_OF_REMAINING_LENGTH_BYTES_def)
next
  case (Suc k)
  obtain ds w' where g: "getfn 1 w = Inr (int (length ds), ds, w')" "length ds \<le> nat 1" "invar w'"
    using get_safe [OF Suc.prems(1)] by blast
  let ?v = "v + uint (hd ds AND 127) * 128 ^ len"
  have d: "0 \<le> uint (hd ds AND 127)" "uint (hd ds AND 127) \<le> 127"
    by (simp_all add: u8_and_127)
  then have "uint (hd ds AND 127) * 128 ^ len \<le> 127 * 128 ^ len" by (intro mult_right_mono) simp_all
  then have v: "0 \<le> ?v" "?v < 128 ^ Suc len"
    using Suc.prems(3,4) d(1) unfolding power_Suc by (simp, linarith)
  have "(128 :: int) ^ len \<le> 128 ^ 4" "(128 :: int) ^ Suc len \<le> 128 ^ 4"
    using Suc.hyps(2) by (intro power_increasing; simp)+
  moreover have "\<exists>l v' w''. decode_loop getfn (Suc len) (128 ^ Suc len) ?v w' = Inr (l, v', w'') \<and>
      invar w'' \<and> 0 \<le> v' \<and> v' < 128 ^ 4"
    using Suc.hyps(2) v g(3) by (intro Suc.hyps(1)) simp_all
  ultimately show ?case
    using g v Suc.prems Suc.hyps(2)
    by (auto simp: decode_loop.simps [of _ len] MAX_NO_OF_REMAINING_LENGTH_BYTES_def Let_def mult.commute)
qed

lemma read_safe:
  assumes "invar w"
  shows "\<exists>rc b w'. MQTTPacket_read buflen getfn w = Inr (rc, b, w') \<and> invar w' \<and> int (length b) \<le> max 5 buflen"
proof -
  obtain h w1 where h: "getfn 1 w = Inr (int (length h), h, w1)" "length h \<le> nat 1" "invar w1"
    using get_safe [OF assms] by blast
  obtain l n w2 where n: "MQTTPacket_decode getfn w1 = Inr (l, n, w2)" "invar w2" "0 \<le> n" "n < 128 ^ 4"
    using decode_loop_safe [OF h(3), of 0 0] by (auto simp: MQTTPacket_decode_def)
  have e: "length (MQTTPacket_encode n) \<le> 4" using encode_length_le [of n 3] n by simp
  obtain d w3 where d: "getfn n w2 = Inr (int (length d), d, w3)" "length d \<le> nat n" "invar w3"
    using get_safe [OF n(2)] by blast
  show ?thesis
  proof (cases "length h = 1 \<and> n + (1 + int (length (MQTTPacket_encode n))) \<le> buflen \<and> n \<noteq> 0")
    case True
    then have "int (length h) + int (length (MQTTPacket_encode n)) + int (length d) \<le> buflen"
      using d(2) n(3) by linarith
    then show ?thesis using True h n d by (auto simp: MQTTPacket_read_def Let_def)
  next
    case False
    then show ?thesis using h n d e by (auto simp: MQTTPacket_read_def Let_def)
  qed
qed

end

section \<open>The network FIFO\<close>

lemma net_getfn_spec:
  assumes "net_fifo_inv f"
  shows "\<exists>f'. net_getfn ok n f = (let ds = (if ok then take (nat n) (net_fifo_elems f) else [])
      in Inr (int (length ds), ds, f')) \<and>
    net_fifo_inv f' \<and> net_fifo_elems f' = (if ok then drop (nat n) (net_fifo_elems f) else net_fifo_elems f)"
proof (cases ok)
  case True
  then show ?thesis
    using net_fifo_read_queue [OF assms, of "nat n"] by (auto simp: net_getfn_def split_beta Let_def)
next
  case False
  then show ?thesis using assms by (auto simp: net_getfn_def net_fifo_read_def)
qed

interpretation netsrc: byte_source net_fifo_inv net_fifo_elems "net_getfn True"
proof unfold_locales
  fix w b bs
  assume "net_fifo_inv w" "net_fifo_elems w = b # bs"
  then show "\<exists>w'. net_getfn True 1 w = Inr (1, [b], w') \<and> net_fifo_inv w' \<and> net_fifo_elems w' = bs"
    using net_getfn_spec [of w True 1] by auto
next
  fix w bs rest
  assume "net_fifo_inv w" "net_fifo_elems w = bs @ rest" "bs \<noteq> []"
  then show "\<exists>w'. net_getfn True (int (length bs)) w = Inr (int (length bs), bs, w') \<and> net_fifo_inv w' \<and>
      net_fifo_elems w' = rest"
    using net_getfn_spec [of w True "int (length bs)"] by auto
qed

interpretation netsafe: safe_source net_fifo_inv "net_getfn ok" for ok
proof unfold_locales
  fix w n
  assume "net_fifo_inv w"
  then show "\<exists>ds w'. net_getfn ok n w = Inr (int (length ds), ds, w') \<and> length ds \<le> nat n \<and> net_fifo_inv w'"
    using net_getfn_spec [of w ok n] by (auto simp: Let_def)
qed

definition client_inv :: "('p, 'h) MQTTClient \<Rightarrow> bool" where
  "client_inv c \<longleftrightarrow> length (buf c) = buf_size c \<and> length (readbuf c) = readbuf_size c \<and>
     5 \<le> readbuf_size c \<and> 4 \<le> buf_size c \<and> buf_size c \<le> NET_TX_BUF_SIZE \<and>
     length (messageHandlers c) = MAX_MESSAGE_HANDLERS"

section \<open>A turn for each read\<close>

text \<open>The reader cannot tell two sources apart that answer the same from states that \<open>g\<close> relates.\<close>

lemma decode_simulates:
  assumes "\<And>n w. ga n (g w) = bindR (gb n w) (\<lambda>(r, ds, w'). Inr (r, ds, g w'))"
  shows "decode_loop ga len m v (g w) = bindR (decode_loop gb len m v w) (\<lambda>(l, x, w'). Inr (l, x, g w'))"
proof (induction "4 - len" arbitrary: len m v w)
  case 0
  then show ?case by (simp add: decode_loop.simps [of _ len] MAX_NO_OF_REMAINING_LENGTH_BYTES_def)
next
  case (Suc k)
  have "k = 4 - Suc len" using Suc.hyps(2) by simp
  note IH = Suc.hyps(1) [OF this]
  show ?case
    using Suc.hyps(2) by (cases "gb 1 w") (auto simp: decode_loop.simps [of _ len] assms IH MAX_NO_OF_REMAINING_LENGTH_BYTES_def Let_def)
qed

lemma read_simulates:
  assumes "\<And>n w. ga n (g w) = bindR (gb n w) (\<lambda>(r, ds, w'). Inr (r, ds, g w'))"
  shows "MQTTPacket_read buflen ga (g w) = bindR (MQTTPacket_read buflen gb w) (\<lambda>(r, b, w'). Inr (r, b, g w'))"
proof (cases "gb 1 w")
  case (Inr x)
  obtain r h w1 where x: "x = (r, h, w1)" by (cases x)
  note d = decode_simulates [where ga = ga and g = g and gb = gb, OF assms, of 0 1 0 w1]
  show ?thesis
  proof (cases "decode_loop gb 0 1 0 w1")
    case (Inr y)
    obtain l n w2 where y: "y = (l, n, w2)" by (cases y)
    show ?thesis
      using Inr \<open>gb 1 w = Inr x\<close> d
      by (cases "gb n w2") (auto simp: MQTTPacket_read_def MQTTPacket_decode_def assms x y Let_def)
  qed (use Inr d in \<open>auto simp: MQTTPacket_read_def MQTTPacket_decode_def assms x Let_def\<close>)
qed (simp add: MQTTPacket_read_def assms)

lemma readPacket_turns_same: "readPacket_turns (\<lambda>_. \<lparr>rt_env = id, rt_mutex = ok\<rparr>) sem_ok c net = readPacket sem_ok ok c net"
proof -
  let ?ts = "\<lambda>_. \<lparr>rt_env = id, rt_mutex = ok\<rparr>"
  have g: "net_getfn ok n (snd w) = bindR (turn_getfn ?ts n w) (\<lambda>(r, ds, w'). Inr (r, ds, snd w'))" for n and w :: "nat \<times> net_fifo_t"
    by (cases "net_getfn ok n (snd w)") (auto simp: turn_getfn_def)
  have "MQTTPacket_read n (net_getfn ok) f = bindR (MQTTPacket_read n (turn_getfn ?ts) (0, f)) (\<lambda>(r, b, w'). Inr (r, b, snd w'))" for n f
    using read_simulates [where ga = "net_getfn ok" and g = snd and gb = "turn_getfn ?ts" and w = "(0, f)" and buflen = n, OF g] by simp
  then show ?thesis
    by (cases "MQTTPacket_read (int (readbuf_size c)) (turn_getfn ?ts) (0, net_rx_fifo net)")
      (auto simp: readPacket_def readPacket_turns_def)
qed

text \<open>Whatever the turns, the FIFO stays a safe source.\<close>

definition turns_ok :: "(nat \<Rightarrow> read_turn) \<Rightarrow> bool" where
  "turns_ok ts \<longleftrightarrow> (\<forall>k f. net_fifo_inv f \<longrightarrow> net_fifo_inv (rt_env (ts k) f))"

interpretation turnsafe: safe_source "\<lambda>w. turns_ok ts \<and> net_fifo_inv (snd w)" "turn_getfn ts" for ts
proof unfold_locales
  fix w :: "nat \<times> net_fifo_t" and n
  assume "turns_ok ts \<and> net_fifo_inv (snd w)"
  then have "net_fifo_inv (rt_env (ts (fst w)) (snd w))" by (simp add: turns_ok_def)
  from netsafe.get_safe [OF this, of "rt_mutex (ts (fst w))" n]
  show "\<exists>ds w'. turn_getfn ts n w = Inr (int (length ds), ds, w') \<and> length ds \<le> nat n \<and> turns_ok ts \<and> net_fifo_inv (snd w')"
    using \<open>turns_ok ts \<and> net_fifo_inv (snd w)\<close> by (auto simp: turn_getfn_def Let_def)
qed

text \<open>Turns in which every read gets the mutex and the rest of the firmware only appends to the FIFO.\<close>

definition turns_append :: "(nat \<Rightarrow> read_turn) \<Rightarrow> bool" where
  "turns_append ts \<longleftrightarrow> (\<forall>k. rt_mutex (ts k) \<and>
     (\<forall>f. net_fifo_inv f \<longrightarrow> net_fifo_inv (rt_env (ts k) f) \<and> (\<exists>new. net_fifo_elems (rt_env (ts k) f) = net_fifo_elems f @ new)))"

text \<open>The source with the bytes still expected of it, which the FIFO holds at its front.\<close>

definition expect_getfn :: "(nat \<Rightarrow> read_turn) \<Rightarrow> ((nat \<times> net_fifo_t) \<times> bytes) getfn" where
  "expect_getfn ts count w = bindR (turn_getfn ts count (fst w)) (\<lambda>(rc, ds, w'). Inr (rc, ds, w', drop (nat count) (snd w)))"

definition expects :: "(nat \<Rightarrow> read_turn) \<Rightarrow> (nat \<times> net_fifo_t) \<times> bytes \<Rightarrow> bool" where
  "expects ts w \<longleftrightarrow> turns_append ts \<and> net_fifo_inv (snd (fst w)) \<and> (\<exists>new. net_fifo_elems (snd (fst w)) = snd w @ new)"

lemma expect_get:
  assumes "expects ts w" "snd w = bs @ rest" "bs \<noteq> []"
  shows "\<exists>w'. expect_getfn ts (int (length bs)) w = Inr (int (length bs), bs, w') \<and> expects ts w' \<and> snd w' = rest"
proof -
  let ?t = "ts (fst (fst w))"
  obtain new more where e: "net_fifo_elems (snd (fst w)) = bs @ rest @ new"
      "net_fifo_elems (rt_env ?t (snd (fst w))) = bs @ rest @ new @ more" "net_fifo_inv (rt_env ?t (snd (fst w)))" "rt_mutex ?t"
    using assms(1,2) by (fastforce simp: expects_def turns_append_def)
  obtain f' where "net_getfn True (int (length bs)) (rt_env ?t (snd (fst w))) = Inr (int (length bs), bs, f')"
      "net_fifo_inv f'" "net_fifo_elems f' = rest @ new @ more"
    using netsrc.get_bytes [OF e(3,2) assms(3)] by auto
  then show ?thesis
    using assms e(4) by (auto simp: expect_getfn_def turn_getfn_def Let_def expects_def)
qed

interpretation expected: byte_source "expects ts" snd "expect_getfn ts" for ts
proof unfold_locales
  fix w b bs
  assume "expects ts w" "snd w = b # bs"
  then show "\<exists>w'. expect_getfn ts 1 w = Inr (1, [b], w') \<and> expects ts w' \<and> snd w' = bs"
    using expect_get [of ts w "[b]" bs] by simp
qed (rule expect_get)

lemma readPacket_turns_packet:
  assumes "client_inv c" and "network_inv net" and "net_fifo_elems (net_rx_fifo net) = packet h d @ rest"
    and "length (packet h d) \<le> readbuf_size c" and "length d < 268435456" and "turns_append ts"
  shows "\<exists>f' new. readPacket_turns ts True c net = Inr (uint (hdr_type h),
      c\<lparr>readbuf := packet h d @ drop (length (packet h d)) (readbuf c)\<rparr>, net\<lparr>net_rx_fifo := f'\<rparr>) \<and>
    net_fifo_inv f' \<and> net_fifo_elems f' = rest @ new"
proof -
  have "expects ts ((0, net_rx_fifo net), packet h d @ rest)" using assms(2,3,6) by (simp add: expects_def network_inv_def)
  from expected.read_packet [OF this, of h d rest "length (packet h d)" "int (readbuf_size c)"]
  obtain w' where r: "MQTTPacket_read (int (readbuf_size c)) (expect_getfn ts) ((0, net_rx_fifo net), packet h d @ rest) =
      Inr (uint (hdr_type h), packet h d, w')" "expects ts w'" "snd w' = rest"
    using assms(4,5) by (auto simp: packet_def)
  have g: "turn_getfn ts n (fst w) = bindR (expect_getfn ts n w) (\<lambda>(r, ds, w'). Inr (r, ds, fst w'))" for n w
    by (cases "turn_getfn ts n (fst w)") (auto simp: expect_getfn_def)
  have "MQTTPacket_read (int (readbuf_size c)) (turn_getfn ts) (0, net_rx_fifo net) = Inr (uint (hdr_type h), packet h d, fst w')"
    using read_simulates [where ga = "turn_getfn ts" and g = fst and gb = "expect_getfn ts" and w = "((0, net_rx_fifo net), packet h d @ rest)", OF g] r(1)
    by simp
  then show ?thesis
    using assms(1,4) r(2,3) by (cases "fst w'") (auto simp: readPacket_turns_def store_front_def client_inv_def expects_def)
qed

lemma readPacket_turns_total:
  assumes "client_inv c" and "network_inv net" and "turns_ok ts"
  shows "\<exists>rc rb f'. readPacket_turns ts sem_ok c net = Inr (rc, c\<lparr>readbuf := rb\<rparr>, net\<lparr>net_rx_fifo := f'\<rparr>) \<and>
    client_inv (c\<lparr>readbuf := rb\<rparr>) \<and> network_inv (net\<lparr>net_rx_fifo := f'\<rparr>)"
proof (cases sem_ok)
  case False
  then show ?thesis
    using assms by (intro exI [of _ 0] exI [of _ "readbuf c"] exI [of _ "net_rx_fifo net"]) (simp add: readPacket_turns_def)
next
  case True
  have "turns_ok ts \<and> net_fifo_inv (snd (0 :: nat, net_rx_fifo net))" using assms(2,3) by (simp add: network_inv_def)
  from turnsafe.read_safe [OF this, of "int (readbuf_size c)"]
  obtain rc b w' where r: "MQTTPacket_read (int (readbuf_size c)) (turn_getfn ts) (0, net_rx_fifo net) = Inr (rc, b, w')"
      "net_fifo_inv (snd w')" and "int (length b) \<le> max 5 (int (readbuf_size c))" by auto
  then have b: "length b \<le> length (readbuf c)" using assms(1) by (simp add: client_inv_def)
  have "readPacket_turns ts sem_ok c net =
      Inr (rc, c\<lparr>readbuf := b @ drop (length b) (readbuf c)\<rparr>, net\<lparr>net_rx_fifo := snd w'\<rparr>)"
    using True r(1) b by (cases w') (simp add: readPacket_turns_def store_front_def)
  moreover have "client_inv (c\<lparr>readbuf := b @ drop (length b) (readbuf c)\<rparr>)" "network_inv (net\<lparr>net_rx_fifo := snd w'\<rparr>)"
    using assms b r(2) by (simp_all add: client_inv_def network_inv_def)
  ultimately show ?thesis by blast
qed

section \<open>Reading packets\<close>

lemma readPacket_packet:
  assumes "client_inv c" and "network_inv net" and "net_fifo_elems (net_rx_fifo net) = packet h d @ rest"
    and "length (packet h d) \<le> readbuf_size c" and "length d < 268435456"
  shows "\<exists>f'. readPacket True True c net = Inr (uint (hdr_type h),
      c\<lparr>readbuf := packet h d @ drop (length (packet h d)) (readbuf c)\<rparr>, net\<lparr>net_rx_fifo := f'\<rparr>) \<and>
    net_fifo_inv f' \<and> net_fifo_elems f' = rest"
proof -
  have "net_fifo_inv (net_rx_fifo net)" using assms(2) by (simp add: network_inv_def)
  from netsrc.read_packet [OF this, of h d rest "length (packet h d)" "int (readbuf_size c)"]
  obtain f' where "MQTTPacket_read (int (readbuf_size c)) (net_getfn True) (net_rx_fifo net) =
      Inr (uint (hdr_type h), packet h d, f')" "net_fifo_inv f'" "net_fifo_elems f' = rest"
    using assms(3-5) by (auto simp: packet_def)
  then show ?thesis
    using assms(1,4) by (auto simp: readPacket_def store_front_def client_inv_def)
qed

text \<open>
  C11: \<open>readPacket\<close> delivers a packet exactly.  When the FIFO starts with a complete packet
  that fits the read buffer, the packet type is returned, the read buffer starts with the packet,
  and what follows it in the FIFO stays there for the next call.  So it is also when the network thread
  appends bytes between the reads of the packet.
\<close>

theorem readPacket_complete:
  assumes "client_inv c" and "network_inv net" and "net_fifo_elems (net_rx_fifo net) = packet h d @ rest"
    and "length (packet h d) \<le> readbuf_size c" and "length d < 268435456"
  shows "(\<exists>f'. readPacket True True c net = Inr (uint (hdr_type h),
      c\<lparr>readbuf := packet h d @ drop (length (packet h d)) (readbuf c)\<rparr>, net\<lparr>net_rx_fifo := f'\<rparr>) \<and>
    net_fifo_inv f' \<and> net_fifo_elems f' = rest) \<and>
    (turns_append ts \<longrightarrow> (\<exists>f' new. readPacket_turns ts True c net = Inr (uint (hdr_type h),
      c\<lparr>readbuf := packet h d @ drop (length (packet h d)) (readbuf c)\<rparr>, net\<lparr>net_rx_fifo := f'\<rparr>) \<and>
    net_fifo_inv f' \<and> net_fifo_elems f' = rest @ new))"
  using readPacket_packet [OF assms] readPacket_turns_packet [OF assms] by blast

text \<open>A packet in the receive buffer, on its way through the network thread to the client.\<close>

lemma staged_packet_read:
  assumes "client_inv c" and "network_inv net" and "net_fifo_elems (net_rx_fifo net) = []"
    and "length p \<le> net_fifo_cap (net_rx_fifo net)" and "length p \<le> readbuf_size c" and "length p \<le> 1460"
    and p: "p = packet h d"
  defines "net1 \<equiv> net\<lparr>net_rx_len := of_nat (length p), net_rx_buf := p @ replicate (NET_RX_BUF_SIZE - length p) 0\<rparr>"
  shows "\<exists>net2 ks f'. network_thread_step True NET_RX_BUF_WRITE_EVENT net1 = Inr (net2, ks) \<and>
    readPacket True True c net2 = Inr (uint (hdr_type h), c\<lparr>readbuf := p @ drop (length p) (readbuf c)\<rparr>, net2\<lparr>net_rx_fifo := f'\<rparr>) \<and>
    net_fifo_elems f' = []"
proof -
  have len: "0 < length p" "length d \<le> length p" by (simp_all add: p packet_def)
  have net1: "network_inv net1" using assms(2,6) by (simp add: network_inv_def net_sizes net1_def)
  obtain f where move: "network_thread_step True NET_RX_BUF_WRITE_EVENT net1 =
      Inr (net1\<lparr>net_rx_fifo := f\<rparr>, [Rt_mutex_release, Rt_sem_release Net_rx_sem, Rt_sem_release Net_fifo_sem])"
      "net_fifo_inv f" "net_fifo_elems f = p"
    using net_thread_moves [OF net1 len(1)] assms(3,4,6) by (auto simp: net_sizes net1_def)
  have net2: "network_inv (net1\<lparr>net_rx_fifo := f\<rparr>)" using net1 move(2) by (simp add: network_inv_def)
  obtain f' where "readPacket True True c (net1\<lparr>net_rx_fifo := f\<rparr>) = Inr (uint (hdr_type h),
      c\<lparr>readbuf := p @ drop (length p) (readbuf c)\<rparr>, (net1\<lparr>net_rx_fifo := f\<rparr>)\<lparr>net_rx_fifo := f'\<rparr>)" "net_fifo_elems f' = []"
    using readPacket_packet [OF assms(1) net2, of h d "[]"] move(3) assms(5,6) len p by auto
  with move(1) show ?thesis by blast
qed

definition demo_client :: "(bytes, nat) MQTTClient" where
  "demo_client = \<lparr>condata = demo_options, next_packetid = 0, command_timeout_ms = 0, buf_size = 1024,
     readbuf_size = 1024, buf = replicate 1024 0, readbuf = replicate 1024 0, mc_keepAliveInterval = 0,
     ping_outstanding = 0, isconnected = 0, mc_cleansession = 0, tick_ping = 0,
     messageHandlers = replicate 5 (None, None), defaultMessageHandler = None\<rparr>"

lemma demo_client_inv: "client_inv demo_client"
  by (simp add: client_inv_def demo_client_def net_sizes MAX_MESSAGE_HANDLERS_def)

lemma demo_net_with:
  assumes "length bs \<le> 1460" and "bs \<noteq> []"
  shows "\<exists>s. network_inv s \<and> net_fifo_elems (net_rx_fifo s) = bs"
proof -
  have nf: "\<not> is_fifo_full demo_fifo" using demo_fifo_queue net.is_full_iff [of demo_fifo] by simp
  let ?s = "demo_network (of_nat (length bs)) bs"
  have "network_inv ?s" using assms by (intro demo_network_inv) simp_all
  from push_data_cases [OF this] nf demo_fifo_queue assms
  obtain f' where "net_fifo_inv f'" "net_fifo_elems f' = bs" by auto
  with \<open>network_inv ?s\<close> have "network_inv (?s\<lparr>net_rx_fifo := f'\<rparr>)" "net_fifo_elems (net_rx_fifo (?s\<lparr>net_rx_fifo := f'\<rparr>)) = bs"
    by (simp_all add: network_inv_def)
  then show ?thesis by blast
qed

lemma demo_turns: "turns_append (\<lambda>_. \<lparr>rt_env = id, rt_mutex = True\<rparr>)" "turns_ok (\<lambda>k. \<lparr>rt_env = id, rt_mutex = odd k\<rparr>)"
  by (simp_all add: turns_append_def turns_ok_def)

theorem readPacket_complete_witness:
  "\<exists>net f' f'' new. readPacket True True demo_client net = Inr (uint (hdr_type 0x20),
      demo_client\<lparr>readbuf := packet 0x20 [0, 0] @ drop (length (packet 0x20 [0, 0])) (readbuf demo_client)\<rparr>,
      net\<lparr>net_rx_fifo := f'\<rparr>) \<and> net_fifo_inv f' \<and> net_fifo_elems f' = [5] \<and>
    readPacket_turns (\<lambda>_. \<lparr>rt_env = id, rt_mutex = True\<rparr>) True demo_client net = Inr (uint (hdr_type 0x20),
      demo_client\<lparr>readbuf := packet 0x20 [0, 0] @ drop (length (packet 0x20 [0, 0])) (readbuf demo_client)\<rparr>,
      net\<lparr>net_rx_fifo := f''\<rparr>) \<and> net_fifo_elems f'' = [5] @ new"
proof -
  obtain net where "network_inv net" "net_fifo_elems (net_rx_fifo net) = packet 0x20 [0, 0] @ [5]"
    using demo_net_with [of "packet 0x20 [0, 0] @ [5]"] by (auto simp: packet_def encode_2)
  from readPacket_complete [OF demo_client_inv this] demo_turns(1) show ?thesis
    by (fastforce simp: packet_def encode_2 demo_client_def)
qed

lemma readPacket_total:
  assumes "client_inv c" and "network_inv net"
  shows "\<exists>rc rb f'. readPacket sem_ok mutex_ok c net = Inr (rc, c\<lparr>readbuf := rb\<rparr>, net\<lparr>net_rx_fifo := f'\<rparr>) \<and>
    client_inv (c\<lparr>readbuf := rb\<rparr>) \<and> network_inv (net\<lparr>net_rx_fifo := f'\<rparr>)"
proof (cases sem_ok)
  case False
  then show ?thesis
    using assms by (intro exI [of _ 0] exI [of _ "readbuf c"] exI [of _ "net_rx_fifo net"]) (simp add: readPacket_def)
next
  case True
  have "net_fifo_inv (net_rx_fifo net)" using assms(2) by (simp add: network_inv_def)
  from netsafe.read_safe [OF this, of "int (readbuf_size c)" mutex_ok]
  obtain rc b f' where r: "MQTTPacket_read (int (readbuf_size c)) (net_getfn mutex_ok) (net_rx_fifo net) = Inr (rc, b, f')"
      "net_fifo_inv f'" and "int (length b) \<le> max 5 (int (readbuf_size c))" by blast
  then have b: "length b \<le> length (readbuf c)" using assms(1) by (simp add: client_inv_def)
  have "readPacket sem_ok mutex_ok c net =
      Inr (rc, c\<lparr>readbuf := b @ drop (length b) (readbuf c)\<rparr>, net\<lparr>net_rx_fifo := f'\<rparr>)"
    using True r(1) b by (simp add: readPacket_def store_front_def)
  moreover have "client_inv (c\<lparr>readbuf := b @ drop (length b) (readbuf c)\<rparr>)" "network_inv (net\<lparr>net_rx_fifo := f'\<rparr>)"
    using assms b r(2) by (simp_all add: client_inv_def network_inv_def)
  ultimately show ?thesis by blast
qed

text \<open>
  C20: no input makes the packet reader leave the read buffer.  For any state of the FIFO and any
  outcome of the semaphore and the mutex, \<open>readPacket\<close> completes without a fault, the read
  buffer keeps its size and the network layer its invariant.  This holds as well when each read gets the mutex or not and the
  rest of the firmware changes the FIFO in between, within its invariant.
\<close>

theorem readPacket_safe:
  assumes "client_inv c" and "network_inv net"
  shows "(\<exists>rc rb f'. readPacket sem_ok mutex_ok c net = Inr (rc, c\<lparr>readbuf := rb\<rparr>, net\<lparr>net_rx_fifo := f'\<rparr>) \<and>
      client_inv (c\<lparr>readbuf := rb\<rparr>) \<and> network_inv (net\<lparr>net_rx_fifo := f'\<rparr>)) \<and>
    (turns_ok ts \<longrightarrow> (\<exists>rc rb f'. readPacket_turns ts sem_ok c net = Inr (rc, c\<lparr>readbuf := rb\<rparr>, net\<lparr>net_rx_fifo := f'\<rparr>) \<and>
      client_inv (c\<lparr>readbuf := rb\<rparr>) \<and> network_inv (net\<lparr>net_rx_fifo := f'\<rparr>)))"
  using readPacket_total [OF assms] readPacket_turns_total [OF assms] by blast

theorem readPacket_safe_witness:
  "(\<exists>rc rb f'. readPacket True False demo_client (demo_network 0 []) =
      Inr (rc, demo_client\<lparr>readbuf := rb\<rparr>, (demo_network 0 [])\<lparr>net_rx_fifo := f'\<rparr>) \<and>
    client_inv (demo_client\<lparr>readbuf := rb\<rparr>) \<and> network_inv ((demo_network 0 [])\<lparr>net_rx_fifo := f'\<rparr>)) \<and>
   (\<exists>rc rb f'. readPacket_turns (\<lambda>k. \<lparr>rt_env = id, rt_mutex = odd k\<rparr>) True demo_client (demo_network 0 []) =
      Inr (rc, demo_client\<lparr>readbuf := rb\<rparr>, (demo_network 0 [])\<lparr>net_rx_fifo := f'\<rparr>))"
proof -
  have "network_inv (demo_network 0 [])" by (rule demo_network_inv) simp_all
  from readPacket_safe [OF demo_client_inv this, of True False "\<lambda>k. \<lparr>rt_env = id, rt_mutex = odd k\<rparr>"] demo_turns(2)
  show ?thesis by blast
qed

section \<open>Waiting\<close>

lemma waitfor_total:
  assumes "client_inv c" and "network_inv net" and "\<forall>p \<in> set ps. \<forall>n. network_inv n \<longrightarrow> network_inv (pl_env p n)"
  shows "\<exists>r. waitfor ps c t tmo net = Inr r \<and>
    (case r of None \<Rightarrow> \<forall>p \<in> set ps. is_timeout tmo (pl_now p) \<noteq> 0
     | Some (rc, c', net') \<Rightarrow> (\<exists>rb. c' = c\<lparr>readbuf := rb\<rparr>) \<and> client_inv c' \<and> network_inv net')"
  using assms
proof (induction ps arbitrary: c net)
  case Nil
  then show ?case by simp
next
  case (Cons p ps)
  then have env: "network_inv (pl_env p net)" by simp
  obtain rc rb f' where r: "readPacket (pl_sem p) (pl_mutex p) c (pl_env p net) =
        Inr (rc, c\<lparr>readbuf := rb\<rparr>, (pl_env p net)\<lparr>net_rx_fifo := f'\<rparr>)"
      "client_inv (c\<lparr>readbuf := rb\<rparr>)" "network_inv ((pl_env p net)\<lparr>net_rx_fifo := f'\<rparr>)"
    using readPacket_total [OF Cons.prems(1) env] by blast
  show ?case
  proof (cases "rc \<noteq> t \<and> is_timeout tmo (pl_now p) \<noteq> 0")
    case True
    from Cons.IH [OF r(2,3)] Cons.prems(3)
    obtain x where "waitfor ps (c\<lparr>readbuf := rb\<rparr>) t tmo ((pl_env p net)\<lparr>net_rx_fifo := f'\<rparr>) = Inr x"
      "case x of None \<Rightarrow> \<forall>p \<in> set ps. is_timeout tmo (pl_now p) \<noteq> 0
        | Some (rc, c', net') \<Rightarrow> (\<exists>b. c' = (c\<lparr>readbuf := rb\<rparr>)\<lparr>readbuf := b\<rparr>) \<and> client_inv c' \<and> network_inv net'"
      by auto
    then show ?thesis using True r by (auto split: option.splits)
  next
    case False
    then show ?thesis using r by auto
  qed
qed

lemma is_timeout_expired: "sint (tmo - now) \<le> 0 \<Longrightarrow> is_timeout tmo now = 0"
  by (simp add: is_timeout_def Let_def)

text \<open>
  \<open>waitfor\<close> always comes back.  If the clock reaches the deadline at some turn, whatever
  the other threads do meanwhile to the network state within its invariant, \<open>waitfor\<close> returns
  a packet type, and only the read buffer of the client has changed.
\<close>

theorem waitfor_returns:
  assumes "client_inv c" and "network_inv net" and "\<forall>p \<in> set ps. \<forall>n. network_inv n \<longrightarrow> network_inv (pl_env p n)"
    and "p \<in> set ps" and "sint (tmo - pl_now p) \<le> 0"
  shows "\<exists>rc rb net'. waitfor ps c t tmo net = Inr (Some (rc, c\<lparr>readbuf := rb\<rparr>, net')) \<and>
    client_inv (c\<lparr>readbuf := rb\<rparr>) \<and> network_inv net'"
proof -
  have "is_timeout tmo (pl_now p) = 0" by (rule is_timeout_expired [OF assms(5)])
  then show ?thesis
    using waitfor_total [OF assms(1-3), of t tmo] assms(4) by (auto split: option.splits)
qed

definition demo_poll :: "u32 \<Rightarrow> poll" where
  "demo_poll now = \<lparr>pl_env = id, pl_sem = True, pl_mutex = True, pl_now = now\<rparr>"

theorem waitfor_returns_witness:
  "\<exists>rc rb net'. waitfor [demo_poll 5, demo_poll 1001] demo_client 2 1000 (demo_network 0 []) =
      Inr (Some (rc, demo_client\<lparr>readbuf := rb\<rparr>, net')) \<and>
    client_inv (demo_client\<lparr>readbuf := rb\<rparr>) \<and> network_inv net'"
  by (rule waitfor_returns [OF demo_client_inv demo_network_inv, where p = "demo_poll 1001"])
    (simp_all add: demo_poll_def)

text \<open>
  the deadline test also fires early.  \<open>is_timeout\<close> returns the remaining time as a
  \<open>uint8_t\<close>: whenever that is a positive multiple of 256 the result is 0, the code for an
  expired timeout, and a single empty turn ends the wait.
\<close>

theorem is_timeout_spurious:
  assumes "0 < k" and "k < 8388608"
  shows "sint (now + of_nat (256 * k) - now :: u32) = 256 * int k \<and> is_timeout (now + of_nat (256 * k)) now = 0 \<and>
    waitfor [demo_poll now\<lparr>pl_sem := False\<rparr>] c (uint CONNACK) (now + of_nat (256 * k)) net = Inr (Some (0, c, net))"
proof -
  have s: "sint (now + of_nat (256 * k) - now :: u32) = 256 * int k"
    using assms by (simp add: signed_of_nat signed_take_bit_int_eq_self flip: of_nat_mult)
  have "(of_int (256 * int k) :: u8) = 256 * of_int (int k)" by (simp only: of_int_mult of_int_numeral)
  also have "(256 :: u8) = 0" by simp
  finally have "(of_int (256 * int k) :: u8) = 0" by (simp only: mult_zero_left)
  then have "is_timeout (now + of_nat (256 * k)) now = 0" unfolding is_timeout_def s by (simp add: Let_def)
  with s show ?thesis by (simp add: readPacket_def demo_poll_def)
qed

theorem is_timeout_spurious_witness:
  "sint (7 + of_nat (256 * 1) - 7 :: u32) = 256 * int 1 \<and> is_timeout (7 + of_nat (256 * 1)) 7 = 0 \<and>
    waitfor [demo_poll 7\<lparr>pl_sem := False\<rparr>] demo_client (uint CONNACK) (7 + of_nat (256 * 1)) (demo_network 0 []) =
      Inr (Some (0, demo_client, demo_network 0 []))"
  by (rule is_timeout_spurious) simp_all

end
