(* ===== verification/Mqtt_Nonblock.thy ===== *)
theory Mqtt_Nonblock
  imports Mqtt_Receive
begin

text \<open>
  The packet reader of \<open>MQTTPacket.c\<close> that returns when its source is empty and goes on at the next call:
  \<open>MQTTPacket_decodenb\<close> and \<open>MQTTPacket_readnb\<close>.  A packet that arrives in any pieces is returned exactly when its last byte has come,
  as \<open>MQTTPacket_read\<close> returns it from a source that holds all of it; no traffic makes the reader write outside a buffer of five bytes
  or more.
\<close>

section \<open>The reader\<close>

text \<open>\<open>MQTTTransport\<close> without its callback and the handle of the source, which are the \<open>getfn\<close> and the state \<open>w\<close> of the source.\<close>

record MQTTTransport =
  tr_multiplier :: int
  tr_rem_len :: int
  tr_len :: int
  tr_state :: u8

function decodenb_loop :: "'w getfn \<Rightarrow> MQTTTransport \<Rightarrow> 'w \<Rightarrow> (int \<times> MQTTTransport \<times> 'w) c_result" where
  "decodenb_loop getfn trp w =
     (if int MAX_NO_OF_REMAINING_LENGTH_BYTES \<le> tr_len trp then Inr (MQTTPACKET_READ_ERROR, trp, w)
      else bindR (getfn 1 w) (\<lambda>(frc, bs, w').
        if frc = -1 then Inr (MQTTPACKET_READ_ERROR, trp, w')
        else if frc = 0 then Inr (0, trp, w')
        else bindR (buf_at bs 0) (\<lambda>c.
          let trp' = trp\<lparr>tr_len := tr_len trp + 1, tr_rem_len := tr_rem_len trp + uint (c AND 127) * tr_multiplier trp,
                tr_multiplier := tr_multiplier trp * 128\<rparr>
          in if c AND 128 \<noteq> 0 then decodenb_loop getfn trp' w' else Inr (tr_len trp', trp', w'))))"
  by pat_completeness auto
termination
  by (relation "measure (\<lambda>(g, trp, w). nat (int MAX_NO_OF_REMAINING_LENGTH_BYTES - tr_len trp))") auto

declare decodenb_loop.simps [simp del]

definition MQTTPacket_decodenb :: "'w getfn \<Rightarrow> MQTTTransport \<Rightarrow> 'w \<Rightarrow> (int \<times> MQTTTransport \<times> 'w) c_result" where
  "MQTTPacket_decodenb getfn trp w =
     decodenb_loop getfn (if tr_len trp = 0 then trp\<lparr>tr_multiplier := 1, tr_rem_len := 0\<rparr> else trp) w"

text \<open>The exit of \<open>MQTTPacket_readnb\<close>, and its three states, each falling through to the next.\<close>

type_synonym 'w readnb_result = "(int \<times> bytes \<times> MQTTTransport \<times> 'w) c_result"

definition readnb_exit :: "int \<Rightarrow> bytes \<Rightarrow> MQTTTransport \<Rightarrow> 'w \<Rightarrow> 'w readnb_result" where
  "readnb_exit rc arr trp w = Inr (rc, arr, trp\<lparr>tr_state := 0\<rparr>, w)"

definition readnb_type :: "bytes \<Rightarrow> MQTTTransport \<Rightarrow> 'w \<Rightarrow> 'w readnb_result" where
  "readnb_type arr trp w = bindR (buf_at arr 0) (\<lambda>h. readnb_exit (uint (hdr_type h)) arr trp w)"

definition readnb_body :: "'w getfn \<Rightarrow> bytes \<Rightarrow> MQTTTransport \<Rightarrow> 'w \<Rightarrow> 'w readnb_result" where
  "readnb_body getfn arr trp w =
     (if tr_rem_len trp \<noteq> 0
      then bindR (getfn (tr_rem_len trp) w) (\<lambda>(frc, bs, w').
        bindR (store_at arr (nat (tr_len trp)) bs) (\<lambda>arr.
          if frc = -1 then readnb_exit (-1) arr trp w'
          else if frc = 0 then Inr (0, arr, trp, w')
          else let trp = trp\<lparr>tr_rem_len := tr_rem_len trp - frc, tr_len := tr_len trp + frc\<rparr>
               in if tr_rem_len trp \<noteq> 0 then Inr (0, arr, trp, w') else readnb_type arr trp w'))
      else readnb_type arr trp w)"

definition readnb_length :: "'w getfn \<Rightarrow> int \<Rightarrow> bytes \<Rightarrow> MQTTTransport \<Rightarrow> 'w \<Rightarrow> 'w readnb_result" where
  "readnb_length getfn buflen arr trp w =
     bindR (MQTTPacket_decodenb getfn trp w) (\<lambda>(frc, trp, w).
       if frc = MQTTPACKET_READ_ERROR then readnb_exit (-1) arr trp w
       else if frc = 0 then Inr (0, arr, trp, w)
       else let e = MQTTPacket_encode (tr_rem_len trp)
            in bindR (store_at arr 1 e) (\<lambda>arr.
              let trp = trp\<lparr>tr_len := 1 + int (length e)\<rparr>
              in if buflen < tr_rem_len trp + tr_len trp then readnb_exit (-1) arr trp w
                 else readnb_body getfn arr (trp\<lparr>tr_state := tr_state trp + 1\<rparr>) w))"

definition readnb_header :: "'w getfn \<Rightarrow> int \<Rightarrow> bytes \<Rightarrow> MQTTTransport \<Rightarrow> 'w \<Rightarrow> 'w readnb_result" where
  "readnb_header getfn buflen arr trp w =
     bindR (getfn 1 w) (\<lambda>(frc, bs, w').
       bindR (store_at arr 0 bs) (\<lambda>arr.
         if frc = -1 then readnb_exit (-1) arr trp w'
         else if frc = 0 then Inr (0, arr, trp, w')
         else readnb_length getfn buflen arr (trp\<lparr>tr_len := 0, tr_state := tr_state trp + 1\<rparr>) w'))"

definition MQTTPacket_readnb :: "'w getfn \<Rightarrow> int \<Rightarrow> bytes \<Rightarrow> MQTTTransport \<Rightarrow> 'w \<Rightarrow> 'w readnb_result" where
  "MQTTPacket_readnb getfn buflen arr trp w =
     (if tr_state trp = 1 then readnb_length getfn buflen arr trp w
      else if tr_state trp = 2 then readnb_body getfn arr trp w
      else readnb_header getfn buflen arr (trp\<lparr>tr_state := 0\<rparr>) w)"

section \<open>What the reader has of a packet\<close>

text \<open>\<open>nb_state\<close>: the reader has taken the bytes \<open>u\<close> of the packet with the header \<open>h\<close> and the contents \<open>d\<close>.\<close>

definition nb_length_state :: "int \<Rightarrow> bytes \<Rightarrow> bytes \<Rightarrow> MQTTTransport \<Rightarrow> bool" where
  "nb_length_state n e1 e2 trp \<longleftrightarrow> tr_len trp = int (length e1) \<and> MQTTPacket_encode n = e1 @ e2 \<and>
     (e1 \<noteq> [] \<longrightarrow> (\<exists>k \<ge> 0. e2 = MQTTPacket_encode k \<and> tr_rem_len trp + k * tr_multiplier trp = n))"

definition nb_body_state :: "u8 \<Rightarrow> bytes \<Rightarrow> bytes \<Rightarrow> bytes \<Rightarrow> bytes \<Rightarrow> MQTTTransport \<Rightarrow> bool" where
  "nb_body_state h d1 d2 u arr trp \<longleftrightarrow> tr_rem_len trp = int (length d2) \<and> tr_len trp = int (length u) \<and>
     u = h # MQTTPacket_encode (int (length (d1 @ d2))) @ d1 \<and> take (length u) arr = u"

definition nb_state :: "u8 \<Rightarrow> bytes \<Rightarrow> bytes \<Rightarrow> bytes \<Rightarrow> MQTTTransport \<Rightarrow> bool" where
  "nb_state h d u arr trp \<longleftrightarrow>
     (if tr_state trp = 1
      then \<exists>e1 e2. u = h # e1 \<and> e2 \<noteq> [] \<and> take 1 arr = [h] \<and> nb_length_state (int (length d)) e1 e2 trp
      else if tr_state trp = 2 then \<exists>d1 d2. d = d1 @ d2 \<and> d2 \<noteq> [] \<and> nb_body_state h d1 d2 u arr trp
      else u = [])"

lemma store_at_fits:
  "i + length bs \<le> length arr \<Longrightarrow> \<exists>arr'. store_at arr i bs = Inr arr' \<and> length arr' = length arr \<and>
     take (i + length bs) arr' = take i arr @ bs"
  by (simp add: store_at_def)

lemma encode_nonempty [simp]: "MQTTPacket_encode n \<noteq> []"
  by (simp add: MQTTPacket_encode.simps [of n] Let_def)

lemma encode_small: "0 \<le> n \<Longrightarrow> n < 268435456 \<Longrightarrow> length (MQTTPacket_encode n) \<le> 4"
  using encode_length_le [of n 3] by simp

text \<open>
  The outcome of a call that finds the bytes \<open>v\<close> after the bytes \<open>u\<close> it has: they are stored and the call returns 0, or the packet is
  complete and its type is returned, with the bytes after it left in the source.
\<close>

definition nb_outcome :: "('w \<Rightarrow> bool) \<Rightarrow> ('w \<Rightarrow> bytes) \<Rightarrow> u8 \<Rightarrow> bytes \<Rightarrow> bytes \<Rightarrow> bytes \<Rightarrow> nat \<Rightarrow> 'w readnb_result \<Rightarrow> bool" where
  "nb_outcome invar unread h d u v n r \<longleftrightarrow>
     (\<exists>rc arr trp w. r = Inr (rc, arr, trp, w) \<and> length arr = n \<and> invar w \<and>
       (if length (u @ v) < length (packet h d) then rc = 0 \<and> unread w = [] \<and> nb_state h d (u @ v) arr trp
        else rc = uint (hdr_type h) \<and> take (length (packet h d)) arr = packet h d \<and> tr_state trp = 0 \<and>
          unread w = drop (length (packet h d) - length u) v))"

definition comes_along :: "bytes \<Rightarrow> bytes \<Rightarrow> bool" where
  "comes_along v p \<longleftrightarrow> (\<exists>v2. p = v @ v2) \<or> (\<exists>rest. v = p @ rest)"

lemma comes_along_append [simp]: "comes_along (u @ v) (u @ p) \<longleftrightarrow> comes_along v p"
  by (simp add: comes_along_def)

lemma comes_along_Cons [simp]: "comes_along (x # v) (x # p) \<longleftrightarrow> comes_along v p"
  by (simp add: comes_along_def)

lemma comes_along_prefix: "comes_along v (p @ q) \<Longrightarrow> comes_along v p"
  by (auto simp: comes_along_def append_eq_append_conv2)

lemma nb_outcome_shift:
  assumes "nb_outcome invar unread h d (u @ u') v n r" and "length (u @ u') \<le> length (packet h d)"
  shows "nb_outcome invar unread h d u (u' @ v) n r"
proof -
  have "drop (length (packet h d) - length (u @ u')) v = drop (length (packet h d) - length u) (u' @ v)" using assms(2) by simp
  then have "nb_outcome invar unread h d (u @ u') v n r \<longleftrightarrow> nb_outcome invar unread h d u (u' @ v) n r"
    by (simp only: nb_outcome_def append_assoc)
  with assms(1) show ?thesis by simp
qed

section \<open>Sources that deliver what they have\<close>

locale stream_source =
  fixes invar :: "'w \<Rightarrow> bool"
    and unread :: "'w \<Rightarrow> bytes"
    and getfn :: "'w getfn"
  assumes get_stream: "invar w \<Longrightarrow> \<exists>w'. getfn n w = Inr (int (length (take (nat n) (unread w))), take (nat n) (unread w), w') \<and>
    invar w' \<and> unread w' = drop (nat n) (unread w)"

sublocale stream_source \<subseteq> byte_source invar unread getfn
proof unfold_locales
  fix w b bs
  assume "invar w" "unread w = b # bs"
  then show "\<exists>w'. getfn 1 w = Inr (1, [b], w') \<and> invar w' \<and> unread w' = bs" using get_stream [of w 1] by simp
next
  fix w bs rest
  assume "invar w" "unread w = bs @ rest" "bs \<noteq> []"
  then show "\<exists>w'. getfn (int (length bs)) w = Inr (int (length bs), bs, w') \<and> invar w' \<and> unread w' = rest"
    using get_stream [of w "int (length bs)"] by simp
qed

sublocale stream_source \<subseteq> safe_source invar getfn
proof unfold_locales
  fix w n
  assume "invar w"
  then show "\<exists>ds w'. getfn n w = Inr (int (length ds), ds, w') \<and> length ds \<le> nat n \<and> invar w'"
    using get_stream [of w n] by (metis length_take min.cobounded2)
qed

context stream_source
begin

lemma get_one:
  assumes "invar w" and "unread w = b # bs"
  obtains w' where "getfn 1 w = Inr (1, [b], w')" "invar w'" "unread w' = bs"
  using get_stream [OF assms(1), of 1] assms(2) by auto

lemma get_none:
  assumes "invar w" and "unread w = []"
  obtains w' where "getfn n w = Inr (0, [], w')" "invar w'" "unread w' = []"
  using get_stream [OF assms(1), of n] assms(2) by auto

text \<open>One digit of the remaining length.\<close>

lemma decodenb_digit:
  assumes "invar w" and "unread w = c # bs" and "tr_len trp < 4"
  obtains w' where "invar w'" "unread w' = bs"
    "decodenb_loop getfn trp w =
      (let trp' = trp\<lparr>tr_len := tr_len trp + 1, tr_rem_len := tr_rem_len trp + uint (c AND 127) * tr_multiplier trp,
             tr_multiplier := tr_multiplier trp * 128\<rparr>
       in if c AND 128 \<noteq> 0 then decodenb_loop getfn trp' w' else Inr (tr_len trp', trp', w'))"
proof -
  obtain w' where "getfn 1 w = Inr (1, [c], w')" "invar w'" "unread w' = bs" using get_one [OF assms(1,2)] .
  then show thesis using assms(3) by (intro that [of w']) (simp_all add: decodenb_loop.simps [of getfn trp] MAX_NO_OF_REMAINING_LENGTH_BYTES_def buf_at_def)
qed

text \<open>
  The decoder on the encoding of \<open>k\<close> of which \<open>v\<close> has arrived: it stops where \<open>v\<close> ends, or returns the number of bytes when the
  encoding is complete.
\<close>

lemma decodenb_loop_encode:
  assumes "invar w" and "0 \<le> k" and "tr_len trp + int (length (MQTTPacket_encode k)) \<le> 4"
    and "unread w = v" and "MQTTPacket_encode k = v @ v2 \<or> v = MQTTPacket_encode k @ rest"
  shows "\<exists>rc trp' w'. decodenb_loop getfn trp w = Inr (rc, trp', w') \<and> invar w' \<and> tr_state trp' = tr_state trp \<and>
    (if length v < length (MQTTPacket_encode k)
     then rc = 0 \<and> unread w' = [] \<and> tr_len trp' = tr_len trp + int (length v) \<and>
       (\<exists>k' \<ge> 0. v2 = MQTTPacket_encode k' \<and> tr_rem_len trp' + k' * tr_multiplier trp' = tr_rem_len trp + k * tr_multiplier trp)
     else rc = tr_len trp' \<and> unread w' = drop (length (MQTTPacket_encode k)) v \<and>
       tr_len trp' = tr_len trp + int (length (MQTTPacket_encode k)) \<and> tr_rem_len trp' = tr_rem_len trp + k * tr_multiplier trp)"
  using assms
proof (induction k arbitrary: trp w v rule: MQTTPacket_encode.induct)
  case (1 k)
  have len: "tr_len trp < 4" using "1.prems"(3) by (cases "MQTTPacket_encode k") auto
  show ?case
  proof (cases v)
    case Nil
    then obtain w' where "getfn 1 w = Inr (0, [], w')" "invar w'" "unread w' = []" using get_none [OF "1.prems"(1)] "1.prems"(4) by metis
    moreover have "v2 = MQTTPacket_encode k" using Nil "1.prems"(5) by auto
    ultimately show ?thesis using Nil len "1.prems"(2)
      by (auto simp: decodenb_loop.simps [of getfn trp] MAX_NO_OF_REMAINING_LENGTH_BYTES_def intro!: exI [of _ k])
  next
    case (Cons c cs)
    obtain w' where w': "invar w'" "unread w' = cs"
      "decodenb_loop getfn trp w =
        (let trp' = trp\<lparr>tr_len := tr_len trp + 1, tr_rem_len := tr_rem_len trp + uint (c AND 127) * tr_multiplier trp,
               tr_multiplier := tr_multiplier trp * 128\<rparr>
         in if c AND 128 \<noteq> 0 then decodenb_loop getfn trp' w' else Inr (tr_len trp', trp', w'))"
      using decodenb_digit [OF "1.prems"(1) _ len, of c cs] "1.prems"(4) Cons by blast
    show ?thesis
    proof (cases "k < 128")
      case True
      then have e: "MQTTPacket_encode k = [of_int k]" using "1.prems"(2) by (simp add: encode_nonneg)
      then have "c = of_int k" using "1.prems"(5) Cons by auto
      then show ?thesis using w' e True "1.prems"(2) digit_last [of k] Cons by simp
    next
      case False
      let ?d = "of_int (k mod 128) OR 0x80 :: u8"
      let ?t = "trp\<lparr>tr_len := tr_len trp + 1, tr_rem_len := tr_rem_len trp + k mod 128 * tr_multiplier trp,
        tr_multiplier := tr_multiplier trp * 128\<rparr>"
      have e: "MQTTPacket_encode k = ?d # MQTTPacket_encode (k div 128)" using False "1.prems"(2) by (simp add: encode_nonneg [of k])
      have c: "c = ?d" using "1.prems"(5) Cons e by auto
      have run: "decodenb_loop getfn trp w = decodenb_loop getfn ?t w'"
        using w'(3) c digit_more [of "k mod 128"] by simp
      have q: "k sdiv 128 = k div 128" "0 < k div 128" "0 \<le> k div 128"
        using False "1.prems"(2) by (auto simp: signed_divide_int_def sgn_if)
      have sum: "tr_rem_len ?t + k div 128 * tr_multiplier ?t = tr_rem_len trp + k * tr_multiplier trp"
        using digit_sum [of k "k mod 128" "k div 128" "tr_rem_len trp" "tr_multiplier trp"] by simp
      have l: "tr_len ?t + int (length (MQTTPacket_encode (k div 128))) \<le> 4" using "1.prems"(3) e by simp
      have arr: "MQTTPacket_encode (k div 128) = cs @ v2 \<or> cs = MQTTPacket_encode (k div 128) @ rest"
        using "1.prems"(5) e Cons by auto
      obtain rc trp' w'' where ih: "decodenb_loop getfn ?t w' = Inr (rc, trp', w'')" "invar w''" "tr_state trp' = tr_state ?t"
        "if length cs < length (MQTTPacket_encode (k div 128))
         then rc = 0 \<and> unread w'' = [] \<and> tr_len trp' = tr_len ?t + int (length cs) \<and>
           (\<exists>k' \<ge> 0. v2 = MQTTPacket_encode k' \<and> tr_rem_len trp' + k' * tr_multiplier trp' = tr_rem_len ?t + k div 128 * tr_multiplier ?t)
         else rc = tr_len trp' \<and> unread w'' = drop (length (MQTTPacket_encode (k div 128))) cs \<and>
           tr_len trp' = tr_len ?t + int (length (MQTTPacket_encode (k div 128))) \<and>
           tr_rem_len trp' = tr_rem_len ?t + k div 128 * tr_multiplier ?t"
        using "1.IH" [OF refl refl _ w'(1), of ?t cs, unfolded q(1), OF q(2,3) l w'(2) arr] by blast
      have s: "tr_state ?t = tr_state trp" "tr_len ?t = tr_len trp + 1" by simp_all
      show ?thesis
        using ih(2-4) unfolding run e Cons sum s
        by (intro exI [of _ rc] exI [of _ trp'] exI [of _ w'']) (simp add: ih(1) split: if_splits)
    qed
  qed
qed

lemma decodenb_call:
  assumes "invar w" and "0 \<le> n" and "n < 268435456" and "nb_length_state n e1 e2 trp" and "e2 \<noteq> []" and "comes_along (unread w) e2"
  shows "\<exists>rc trp' w'. MQTTPacket_decodenb getfn trp w = Inr (rc, trp', w') \<and> invar w' \<and> tr_state trp' = tr_state trp \<and>
    (if length (unread w) < length e2
     then rc = 0 \<and> unread w' = [] \<and> nb_length_state n (e1 @ unread w) (drop (length (unread w)) e2) trp'
     else 0 < rc \<and> unread w' = drop (length e2) (unread w) \<and> tr_rem_len trp' = n)"
proof -
  let ?t = "if tr_len trp = 0 then trp\<lparr>tr_multiplier := 1, tr_rem_len := 0\<rparr> else trp"
  have e: "tr_len trp = int (length e1)" "MQTTPacket_encode n = e1 @ e2" using assms(4) by (simp_all add: nb_length_state_def)
  have t: "tr_len ?t = int (length e1)" "tr_state ?t = tr_state trp" using e(1) by simp_all
  obtain k where k: "0 \<le> k" "e2 = MQTTPacket_encode k" "tr_rem_len ?t + k * tr_multiplier ?t = n"
  proof (cases "e1 = []")
    case True
    then show thesis using that [of n] e assms(2) by simp
  next
    case False
    then show thesis using that assms(4) e(1) by (auto simp: nb_length_state_def)
  qed
  have l: "tr_len ?t + int (length (MQTTPacket_encode k)) \<le> 4"
    using encode_small [OF assms(2,3)] unfolding e(2) t k(2) by simp
  have along: "MQTTPacket_encode k = unread w @ drop (length (unread w)) e2 \<or> unread w = MQTTPacket_encode k @ drop (length e2) (unread w)"
    using assms(6) k(2) by (auto simp: comes_along_def)
  obtain rc trp' w' where r: "decodenb_loop getfn ?t w = Inr (rc, trp', w')" "invar w'" "tr_state trp' = tr_state trp"
    and d: "if length (unread w) < length e2
      then rc = 0 \<and> unread w' = [] \<and> tr_len trp' = int (length e1) + int (length (unread w)) \<and>
        (\<exists>k' \<ge> 0. drop (length (unread w)) e2 = MQTTPacket_encode k' \<and> tr_rem_len trp' + k' * tr_multiplier trp' = n)
      else rc = tr_len trp' \<and> unread w' = drop (length e2) (unread w) \<and>
        tr_len trp' = int (length e1) + int (length e2) \<and> tr_rem_len trp' = n"
    using decodenb_loop_encode [OF assms(1) k(1) l refl along] unfolding t k(3) k(2) [symmetric] by blast
  have "0 < int (length e2)" using assms(5) by simp
  then have "0 < int (length e1) + int (length e2)" by linarith
  moreover have "e2 = unread w @ drop (length (unread w)) e2" if "length (unread w) < length e2"
    using assms(6) that by (auto simp: comes_along_def)
  ultimately show ?thesis
    using d e(2) by (intro exI [of _ rc] exI [of _ trp'] exI [of _ w'])
      (simp add: MQTTPacket_decodenb_def r nb_length_state_def split: if_splits)
qed

lemma type_call:
  assumes "invar w" and "take (length (packet h d)) arr = packet h d" and "length (u @ v) \<ge> length (packet h d)"
    and "unread w = drop (length (packet h d) - length u) v"
  shows "nb_outcome invar unread h d u v (length arr) (readnb_type arr trp w)"
proof -
  have "arr \<noteq> []" "arr ! 0 = h" using assms(2) by (cases arr; simp add: packet_def)+
  then show ?thesis using assms by (simp add: nb_outcome_def readnb_type_def readnb_exit_def buf_at_def)
qed

lemma body_call:
  assumes "invar w" and "nb_body_state h d1 d2 u arr trp" and "d = d1 @ d2" and "tr_state trp = 2"
    and "comes_along (unread w) d2" and "length (packet h d) \<le> length arr"
  shows "nb_outcome invar unread h d u (unread w) (length arr) (readnb_body getfn arr trp w)"
proof -
  have s: "tr_rem_len trp = int (length d2)" "tr_len trp = int (length u)" "u = h # MQTTPacket_encode (int (length d)) @ d1"
    "take (length u) arr = u" using assms(2) unfolding assms(3) nb_body_state_def by blast+
  have p: "packet h d = u @ d2" using s(3) assms(3) by (simp add: packet_def)
  show ?thesis
  proof (cases "d2 = []")
    case True
    then show ?thesis using type_call [OF assms(1), of h d arr u "unread w" trp] s p by (simp add: readnb_body_def)
  next
    case False
    let ?v = "take (length d2) (unread w)"
    obtain w' where g: "getfn (int (length d2)) w = Inr (int (length ?v), ?v, w')" "invar w'" "unread w' = drop (length d2) (unread w)"
      using get_stream [OF assms(1), of "int (length d2)"] by auto
    obtain arr' where a: "store_at arr (length u) ?v = Inr arr'" "length arr' = length arr" "take (length u + length ?v) arr' = u @ ?v"
      using store_at_fits [of "length u" ?v arr] assms(6) unfolding s(4) p by fastforce
    show ?thesis
    proof (cases "length d2 \<le> length (unread w)")
      case True
      then have "?v = d2" "length ?v = length d2" using assms(5) by (auto simp: comes_along_def)
      then show ?thesis
        using True type_call [OF g(2), of h d arr' u "unread w"] g a p s(1,2) False by (simp add: readnb_body_def Let_def)
    next
      case more: False
      then have v: "?v = unread w" "d2 = unread w @ drop (length (unread w)) d2" using assms(5) by (auto simp: comes_along_def)
      let ?r = "drop (length (unread w)) d2"
      have r: "length ?r = length d2 - length (unread w)" "?r \<noteq> []" using more by simp_all
      show ?thesis
      proof (cases "unread w = []")
        case True
        have "arr' = arr" using a(1) True by (simp add: store_at_def split: if_splits)
        moreover have "nb_state h d u arr trp" using assms(2-4) False by (auto simp: nb_state_def)
        ultimately show ?thesis using g a True False p s(1,2) by (simp add: nb_outcome_def readnb_body_def)
      next
        case some: False
        let ?t = "trp\<lparr>tr_rem_len := int (length d2) - int (length (unread w)), tr_len := int (length u) + int (length (unread w))\<rparr>"
        have whole: "(d1 @ unread w) @ ?r = d" using assms(3) v(2) by simp
        have t: "take (length (u @ unread w)) arr' = u @ unread w" using a(3) unfolding v(1) by simp
        have "nb_body_state h (d1 @ unread w) ?r (u @ unread w) arr' ?t"
          unfolding nb_body_state_def whole using t s(3) r(1) more by (intro conjI) simp_all
        with whole r(2) have "\<exists>d1 d2. d = d1 @ d2 \<and> d2 \<noteq> [] \<and> nb_body_state h d1 d2 (u @ unread w) arr' ?t" by metis
        then have "nb_state h d (u @ unread w) arr' ?t" using assms(4) unfolding nb_state_def by simp
        then show ?thesis using g a some more p s(1,2) v(1) False by (simp add: nb_outcome_def readnb_body_def Let_def)
      qed
    qed
  qed
qed

lemma length_call:
  assumes "invar w" and "nb_length_state (int (length d)) e1 e2 trp" and "e2 \<noteq> []" and "u = h # e1" and "tr_state trp = 1"
    and "comes_along (unread w) (e2 @ d)" and "take 1 arr = [h]" and "length d < 268435456"
    and "length (packet h d) \<le> length arr" and "int (length (packet h d)) \<le> buflen"
  shows "nb_outcome invar unread h d u (unread w) (length arr) (readnb_length getfn buflen arr trp w)"
proof -
  let ?e = "MQTTPacket_encode (int (length d))"
  have e: "?e = e1 @ e2" using assms(2) by (simp add: nb_length_state_def)
  have along: "comes_along (unread w) e2" using assms(6) by (rule comes_along_prefix)
  obtain rc t' w' where r: "MQTTPacket_decodenb getfn trp w = Inr (rc, t', w')" "invar w'" "tr_state t' = 1"
    and o: "if length (unread w) < length e2
      then rc = 0 \<and> unread w' = [] \<and> nb_length_state (int (length d)) (e1 @ unread w) (drop (length (unread w)) e2) t'
      else 0 < rc \<and> unread w' = drop (length e2) (unread w) \<and> tr_rem_len t' = int (length d)"
    using decodenb_call [OF assms(1) _ _ assms(2,3) along] assms(5,8) by auto
  have p: "packet h d = u @ e2 @ d" using assms(4) e by (simp add: packet_def)
  show ?thesis
  proof (cases "length (unread w) < length e2")
    case True
    then have "nb_state h d (u @ unread w) arr t'"
      using o r(3) assms(4,7) unfolding nb_state_def by (auto intro!: exI [of _ "e1 @ unread w"] exI [of _ "drop (length (unread w)) e2"])
    then show ?thesis using True o r p by (simp add: readnb_length_def MQTTPACKET_READ_ERROR_def nb_outcome_def)
  next
    case False
    then have v: "unread w = e2 @ unread w'" using along o by (auto simp: comes_along_def)
    obtain arr' where a: "store_at arr 1 ?e = Inr arr'" "length arr' = length arr" "take (1 + length ?e) arr' = h # ?e"
      using store_at_fits [of 1 ?e arr] assms(7,9) by (auto simp: packet_def)
    let ?t = "t'\<lparr>tr_len := 1 + int (length ?e), tr_state := 2\<rparr>"
    have b: "nb_body_state h [] d (h # ?e) arr' ?t" using a(3) o False by (simp add: nb_body_state_def)
    have c: "comes_along (unread w') d" using assms(6) v by simp
    have "nb_outcome invar unread h d (h # ?e) (unread w') (length arr) (readnb_body getfn arr' ?t w')"
      using body_call [OF r(2) b _ _ c] assms(9) a(2) by simp
    moreover have "h # ?e = u @ e2" using assms(4) e by simp
    ultimately have "nb_outcome invar unread h d u (unread w) (length arr) (readnb_body getfn arr' ?t w')"
      using nb_outcome_shift [of invar unread h d u e2 "unread w'"] p v by simp
    moreover have "readnb_length getfn buflen arr trp w = readnb_body getfn arr' ?t w'"
      using r o a(1) False assms(10) by (simp add: readnb_length_def MQTTPACKET_READ_ERROR_def packet_def Let_def)
    ultimately show ?thesis by simp
  qed
qed

lemma header_call:
  assumes "invar w" and "tr_state trp = 0" and "comes_along (unread w) (packet h d)" and "length d < 268435456"
    and "length (packet h d) \<le> length arr" and "int (length (packet h d)) \<le> buflen"
  shows "nb_outcome invar unread h d [] (unread w) (length arr) (readnb_header getfn buflen arr trp w)"
proof (cases "unread w")
  case Nil
  then obtain w' where "getfn 1 w = Inr (0, [], w')" "invar w'" "unread w' = []" using get_none [OF assms(1)] by metis
  then show ?thesis using Nil assms(2) by (simp add: readnb_header_def nb_outcome_def store_at_def nb_state_def packet_def)
next
  case (Cons x v)
  then have x: "x = h" "comes_along v (MQTTPacket_encode (int (length d)) @ d)" using assms(3) by (auto simp: packet_def comes_along_def)
  obtain w' where g: "getfn 1 w = Inr (1, [h], w')" "invar w'" "unread w' = v" using get_one [OF assms(1) Cons] x(1) by blast
  obtain arr' where a: "store_at arr 0 [h] = Inr arr'" "length arr' = length arr" "take 1 arr' = [h]"
    using store_at_fits [of 0 "[h]" arr] assms(5) by (auto simp: packet_def)
  let ?t = "trp\<lparr>tr_len := 0, tr_state := 1\<rparr>"
  have "nb_length_state (int (length d)) [] (MQTTPacket_encode (int (length d))) ?t" by (simp add: nb_length_state_def)
  from length_call [OF g(2) this _ HOL.refl _ _ a(3) assms(4)] x(2) g(3) a(2) assms(5,6)
  have "nb_outcome invar unread h d [h] v (length arr) (readnb_length getfn buflen arr' ?t w')" by simp
  then have "nb_outcome invar unread h d [] (h # v) (length arr) (readnb_length getfn buflen arr' ?t w')"
    using nb_outcome_shift [of invar unread h d "[]" "[h]" v] by (simp add: packet_def)
  then show ?thesis using g a(1) assms(2) x(1) Cons by (simp add: readnb_header_def)
qed

text \<open>One call, from any state.\<close>

lemma readnb_call:
  assumes "invar w" and "nb_state h d u arr trp" and "comes_along (u @ unread w) (packet h d)" and "length d < 268435456"
    and "length (packet h d) \<le> length arr" and "int (length (packet h d)) \<le> buflen"
  shows "nb_outcome invar unread h d u (unread w) (length arr) (MQTTPacket_readnb getfn buflen arr trp w)"
proof -
  consider "tr_state trp = 1" | "tr_state trp = 2" | "tr_state trp \<noteq> 1" "tr_state trp \<noteq> 2" by blast
  then show ?thesis
  proof cases
    case 1
    then obtain e1 e2 where e: "u = h # e1" "e2 \<noteq> []" "take 1 arr = [h]" "nb_length_state (int (length d)) e1 e2 trp"
      using assms(2) by (auto simp: nb_state_def)
    then have "comes_along (unread w) (e2 @ d)" using assms(3) by (simp add: packet_def nb_length_state_def)
    from length_call [OF assms(1) e(4,2,1) 1 this e(3) assms(4-6)] 1 show ?thesis by (simp add: MQTTPacket_readnb_def)
  next
    case 2
    then obtain d1 d2 where d: "d = d1 @ d2" "nb_body_state h d1 d2 u arr trp" using assms(2) by (auto simp: nb_state_def)
    then have "comes_along (unread w) d2" using assms(3) by (simp add: packet_def nb_body_state_def)
    from body_call [OF assms(1) d(2,1) 2 this assms(5)] 2 show ?thesis by (simp add: MQTTPacket_readnb_def)
  next
    case 3
    then have "u = []" using assms(2) by (simp add: nb_state_def)
    then show ?thesis using header_call [OF assms(1) _ _ assms(4-6), of "trp\<lparr>tr_state := 0\<rparr>"] assms(3) 3
      by (simp add: MQTTPacket_readnb_def)
  qed
qed

end
section \<open>Any traffic\<close>

definition digits_ok :: "MQTTTransport \<Rightarrow> bool" where
  "digits_ok trp \<longleftrightarrow> 0 \<le> tr_len trp \<and> tr_len trp \<le> 4 \<and> tr_multiplier trp = 128 ^ nat (tr_len trp) \<and> 0 \<le> tr_rem_len trp \<and>
     tr_rem_len trp < tr_multiplier trp"

text \<open>What a call leaves in the transport: the digits so far, or a rest that fits into the buffer of \<open>n\<close> bytes.\<close>

definition nb_inv :: "nat \<Rightarrow> MQTTTransport \<Rightarrow> bool" where
  "nb_inv n trp \<longleftrightarrow> (tr_state trp = 1 \<longrightarrow> tr_len trp = 0 \<or> digits_ok trp) \<and>
     (tr_state trp = 2 \<longrightarrow> 0 \<le> tr_rem_len trp \<and> 0 \<le> tr_len trp \<and> tr_len trp + tr_rem_len trp \<le> int n)"

definition nb_safe :: "('w \<Rightarrow> bool) \<Rightarrow> nat \<Rightarrow> 'w readnb_result \<Rightarrow> bool" where
  "nb_safe invar n r \<longleftrightarrow> (\<exists>rc arr trp w. r = Inr (rc, arr, trp, w) \<and> length arr = n \<and> nb_inv n trp \<and> invar w \<and> -1 \<le> rc \<and> rc < 16)"

lemma nb_inv_idle [simp]: "nb_inv n (trp\<lparr>tr_state := 0\<rparr>)"
  by (simp add: nb_inv_def)

lemma hdr_type_bound: "uint (hdr_type h) < 16"
proof -
  have "hdr_type h = take_bit 4 (drop_bit 4 h)" by (simp add: hdr_type_def get_field_def mask_eq_exp_minus_1 flip: take_bit_eq_mask)
  then show ?thesis by (simp only: unsigned_take_bit_eq) (simp add: take_bit_eq_mod)
qed

lemma type_safe:
  assumes "invar w" and "arr \<noteq> []"
  shows "nb_safe invar (length arr) (readnb_type arr trp w)"
  using assms hdr_type_bound by (auto simp: nb_safe_def readnb_type_def readnb_exit_def buf_at_def intro: order_trans [of _ 0])

context safe_source
begin

lemma decodenb_loop_safe:
  assumes "invar w" and "digits_ok trp"
  shows "\<exists>rc trp' w'. decodenb_loop getfn trp w = Inr (rc, trp', w') \<and> invar w' \<and> tr_state trp' = tr_state trp \<and>
    (rc = -1 \<or> digits_ok trp') "
  using assms
proof (induction "nat (4 - tr_len trp)" arbitrary: trp w)
  case 0
  then show ?case
    by (simp add: decodenb_loop.simps [of getfn trp] MAX_NO_OF_REMAINING_LENGTH_BYTES_def MQTTPACKET_READ_ERROR_def)
next
  case (Suc k)
  obtain ds w' where g: "getfn 1 w = Inr (int (length ds), ds, w')" "length ds \<le> nat 1" "invar w'"
    using get_safe [OF Suc.prems(1)] by blast
  let ?m = "tr_multiplier trp" let ?c = "uint (hd ds AND 127)"
  let ?t = "trp\<lparr>tr_len := tr_len trp + 1, tr_rem_len := tr_rem_len trp + ?c * ?m, tr_multiplier := ?m * 128\<rparr>"
  have len: "tr_len trp < 4" using Suc.hyps(2) by simp
  have "0 \<le> ?c" "?c \<le> 127" by (simp_all add: u8_and_127)
  moreover have "0 \<le> ?m" using Suc.prems(2) by (simp add: digits_ok_def)
  ultimately have "?c * ?m \<le> 127 * ?m" "0 \<le> ?c * ?m" by (intro mult_right_mono mult_nonneg_nonneg; simp)+
  then have "0 \<le> tr_rem_len trp + ?c * ?m" "tr_rem_len trp + ?c * ?m < ?m * 128"
    using Suc.prems(2) unfolding digits_ok_def by linarith+
  then have t: "digits_ok ?t"
    using Suc.prems(2) len by (simp add: digits_ok_def nat_add_distrib)
  have "k = nat (4 - tr_len ?t)" using Suc.hyps(2) len by simp
  from Suc.hyps(1) [OF this g(3) t] g(2) t show ?case
    using len g(1,3) Suc.prems(2)
    by (cases ds) (auto simp: decodenb_loop.simps [of getfn trp] MAX_NO_OF_REMAINING_LENGTH_BYTES_def buf_at_def Let_def)
qed

lemma body_safe:
  assumes "invar w" and "nb_inv (length arr) trp" and "tr_state trp = 2" and "arr \<noteq> []"
  shows "nb_safe invar (length arr) (readnb_body getfn arr trp w)"
proof (cases "tr_rem_len trp = 0")
  case True
  then show ?thesis using type_safe [where invar = invar, OF assms(1,4), of trp] by (simp add: readnb_body_def)
next
  case False
  have i: "0 \<le> tr_rem_len trp" "0 \<le> tr_len trp" "tr_len trp + tr_rem_len trp \<le> int (length arr)"
    using assms(2,3) by (simp_all add: nb_inv_def)
  obtain ds w' where g: "getfn (tr_rem_len trp) w = Inr (int (length ds), ds, w')" "length ds \<le> nat (tr_rem_len trp)" "invar w'"
    using get_safe [OF assms(1)] by blast
  have "nat (tr_len trp) + length ds \<le> length arr" using i g(2) by linarith
  then obtain arr' where a: "store_at arr (nat (tr_len trp)) ds = Inr arr'" "length arr' = length arr"
    using store_at_fits by blast
  have n: "arr' \<noteq> []" using a(2) assms(4) by auto
  let ?t = "trp\<lparr>tr_rem_len := tr_rem_len trp - int (length ds), tr_len := tr_len trp + int (length ds)\<rparr>"
  have "nb_inv (length arr) ?t" using i g(2) assms(3) by (simp add: nb_inv_def)
  with type_safe [where invar = invar, OF g(3) n, of ?t] show ?thesis
    using False g a assms(2) by (auto simp: readnb_body_def Let_def nb_safe_def)
qed

lemma length_safe:
  assumes "invar w" and "nb_inv (length arr) trp" and "tr_state trp = 1" and "5 \<le> length arr" and "buflen \<le> int (length arr)"
  shows "nb_safe invar (length arr) (readnb_length getfn buflen arr trp w)"
proof -
  let ?t0 = "if tr_len trp = 0 then trp\<lparr>tr_multiplier := 1, tr_rem_len := 0\<rparr> else trp"
  have "digits_ok ?t0" using assms(2,3) by (auto simp: nb_inv_def digits_ok_def)
  from decodenb_loop_safe [OF assms(1) this]
  obtain rc t w' where d: "MQTTPacket_decodenb getfn trp w = Inr (rc, t, w')" "invar w'" "tr_state t = 1" "rc = -1 \<or> digits_ok t"
    using assms(3) by (auto simp: MQTTPacket_decodenb_def)
  show ?thesis
  proof (cases "rc = -1 \<or> rc = 0")
    case True
    then show ?thesis
      using d by (auto simp: readnb_length_def MQTTPACKET_READ_ERROR_def readnb_exit_def nb_safe_def nb_inv_def)
  next
    case False
    let ?e = "MQTTPacket_encode (tr_rem_len t)"
    have dk: "digits_ok t" using d(4) False by simp
    then have "(128 :: int) ^ nat (tr_len t) \<le> 128 ^ 4" by (intro power_increasing) (auto simp: digits_ok_def)
    then have r: "0 \<le> tr_rem_len t" "tr_rem_len t < 268435456" using dk by (auto simp: digits_ok_def)
    obtain arr' where a: "store_at arr 1 ?e = Inr arr'" "length arr' = length arr"
      using store_at_fits [of 1 ?e arr] encode_small [OF r] assms(4) by auto
    let ?t = "t\<lparr>tr_len := 1 + int (length ?e)\<rparr>"
    have n: "arr' \<noteq> []" using a(2) assms(4) by auto
    have "nb_safe invar (length arr) (readnb_body getfn arr' (?t\<lparr>tr_state := 2\<rparr>) w')"
      if "tr_rem_len t + (1 + int (length ?e)) \<le> buflen"
      using body_safe [OF d(2) _ _ n, of "?t\<lparr>tr_state := 2\<rparr>"] that r assms(5) a(2) by (simp add: nb_inv_def)
    then show ?thesis
      using False d a by (auto simp: readnb_length_def MQTTPACKET_READ_ERROR_def readnb_exit_def nb_safe_def Let_def)
  qed
qed

lemma readnb_safe:
  assumes "invar w" and "nb_inv (length arr) trp" and "5 \<le> length arr" and "buflen \<le> int (length arr)"
  shows "nb_safe invar (length arr) (MQTTPacket_readnb getfn buflen arr trp w)"
proof -
  have n: "arr \<noteq> []" using assms(3) by auto
  have "nb_safe invar (length arr) (readnb_header getfn buflen arr (trp\<lparr>tr_state := 0\<rparr>) w)"
  proof -
    obtain ds w' where g: "getfn 1 w = Inr (int (length ds), ds, w')" "length ds \<le> nat 1" "invar w'"
      using get_safe [OF assms(1)] by blast
    obtain arr' where a: "store_at arr 0 ds = Inr arr'" "length arr' = length arr"
      using store_at_fits [of 0 ds arr] g(2) assms(3) by auto
    have "nb_safe invar (length arr) (readnb_length getfn buflen arr' (trp\<lparr>tr_len := 0, tr_state := 1\<rparr>) w')"
      using length_safe [OF g(3), of arr' "trp\<lparr>tr_len := 0, tr_state := 1\<rparr>" buflen] a(2) assms(3,4) by (simp add: nb_inv_def)
    then show ?thesis using g a by (auto simp: readnb_header_def nb_safe_def)
  qed
  then show ?thesis
    using length_safe [OF assms(1,2) _ assms(3,4)] body_safe [OF assms(1,2) _ n] by (auto simp: MQTTPacket_readnb_def)
qed

end
section \<open>On the network FIFO\<close>

lemma net_stream:
  assumes "net_fifo_inv f"
  shows "\<exists>f'. net_getfn True n f = Inr (int (length (take (nat n) (net_fifo_elems f))), take (nat n) (net_fifo_elems f), f') \<and>
    net_fifo_inv f' \<and> net_fifo_cap f' = net_fifo_cap f \<and> net_fifo_elems f' = drop (nat n) (net_fifo_elems f)"
  using net_fifo_read_queue [OF assms, of "nat n"] by (auto simp: net_getfn_def split_beta Let_def)

interpretation netstream: stream_source "\<lambda>f. net_fifo_inv f \<and> net_fifo_cap f = cap" net_fifo_elems "net_getfn True" for cap
  by unfold_locales (use net_stream in blast)

text \<open>
  A caller that tries again whenever the network thread has put the next bytes into the FIFO, until a call does not return 0.  The
  chunks that have not arrived by then are returned.
\<close>

fun nb_calls :: "int \<Rightarrow> bytes list \<Rightarrow> bytes \<Rightarrow> MQTTTransport \<Rightarrow> net_fifo_t \<Rightarrow>
    (int \<times> bytes \<times> MQTTTransport \<times> net_fifo_t \<times> bytes list) c_result" where
  "nb_calls buflen [] arr trp f = Inr (0, arr, trp, f, [])"
| "nb_calls buflen (c # cs) arr trp f =
     bindR (MQTTPacket_readnb (net_getfn True) buflen arr trp (foldl fifo_push f c)) (\<lambda>(rc, arr, trp, f).
       if rc \<noteq> 0 then Inr (rc, arr, trp, f, cs) else nb_calls buflen cs arr trp f)"

lemma nb_calls_packet:
  assumes "net_fifo_inv f" and "net_fifo_elems f = []" and "\<forall>c \<in> set cs. length c \<le> net_fifo_cap f"
    and "nb_state h d u arr trp" and "u @ concat cs = packet h d @ rest" and "length u < length (packet h d)"
    and "length d < 268435456" and "length (packet h d) \<le> length arr" and "int (length (packet h d)) \<le> buflen"
    and "hdr_type h \<noteq> 0"
  shows "\<exists>arr' trp' f' cs'. nb_calls buflen cs arr trp f = Inr (uint (hdr_type h), arr', trp', f', cs') \<and>
    take (length (packet h d)) arr' = packet h d \<and> tr_state trp' = 0 \<and> net_fifo_inv f' \<and> net_fifo_elems f' @ concat cs' = rest"
  using assms
proof (induction cs arbitrary: f u arr trp)
  case Nil
  then show ?case by (metis append.right_neutral concat.simps(1) length_append not_add_less1)
next
  case (Cons c cs)
  let ?f = "foldl fifo_push f c"
  have f: "net_fifo_inv ?f" "net_fifo_cap ?f = net_fifo_cap f" "net_fifo_elems ?f = c"
    using net.push_all [of f c] Cons.prems(1-3) by auto
  have whole: "(u @ c) @ concat cs = packet h d @ rest" using Cons.prems(5) by simp
  then have along: "comes_along (u @ net_fifo_elems ?f) (packet h d)"
    unfolding f(3) comes_along_def by (metis append_eq_append_conv2)
  have "nb_outcome (\<lambda>f'. net_fifo_inv f' \<and> net_fifo_cap f' = net_fifo_cap f) net_fifo_elems h d u c (length arr)
      (MQTTPacket_readnb (net_getfn True) buflen arr trp ?f)"
    using netstream.readnb_call [of ?f "net_fifo_cap f" h d u arr trp buflen] f along Cons.prems(4,7-9) by simp
  then obtain rc arr' trp' f' where r: "MQTTPacket_readnb (net_getfn True) buflen arr trp ?f = Inr (rc, arr', trp', f')"
    "length arr' = length arr" "net_fifo_inv f'" "net_fifo_cap f' = net_fifo_cap f"
    and o: "if length (u @ c) < length (packet h d) then rc = 0 \<and> net_fifo_elems f' = [] \<and> nb_state h d (u @ c) arr' trp'
      else rc = uint (hdr_type h) \<and> take (length (packet h d)) arr' = packet h d \<and> tr_state trp' = 0 \<and>
        net_fifo_elems f' = drop (length (packet h d) - length u) c"
    unfolding nb_outcome_def by blast
  show ?case
  proof (cases "length (u @ c) < length (packet h d)")
    case True
    then have "\<exists>arr'' trp'' f'' cs'. nb_calls buflen cs arr' trp' f' = Inr (uint (hdr_type h), arr'', trp'', f'', cs') \<and>
      take (length (packet h d)) arr'' = packet h d \<and> tr_state trp'' = 0 \<and> net_fifo_inv f'' \<and> net_fifo_elems f'' @ concat cs' = rest"
      using o r Cons.prems(3) by (intro Cons.IH [OF r(3) _ _ _ whole True Cons.prems(7) _ Cons.prems(9,10)])
        (use Cons.prems(8) in simp_all)
    then show ?thesis using r(1) o True by simp
  next
    case False
    have "rest = drop (length (packet h d)) ((u @ c) @ concat cs)" using whole by simp
    then have "drop (length (packet h d) - length u) c @ concat cs = rest" using False Cons.prems(6) by simp
    moreover have "uint (hdr_type h) \<noteq> 0" using Cons.prems(10) by (simp add: unsigned_eq_0_iff)
    ultimately show ?thesis using r o False by simp
  qed
qed

text \<open>
  C12: a packet that arrives in any pieces, empty ones and one that begins the next packet included, is returned by
  \<open>MQTTPacket_readnb\<close> at the call that finds its last byte, with all its bytes in the buffer; what follows it stays unread.  The result is
  that of \<open>MQTTPacket_read\<close> on a FIFO that holds the packet from the start.
\<close>

theorem readnb_in_pieces:
  assumes "net_fifo_inv f" and "net_fifo_elems f = []" and "\<forall>c \<in> set cs. length c \<le> net_fifo_cap f"
    and "concat cs = packet h d @ rest" and "hdr_type h \<noteq> 0" and "tr_state trp = 0"
    and "length d < 268435456" and "length (packet h d) \<le> length arr" and "int (length (packet h d)) \<le> buflen"
  shows "(\<exists>arr' trp' f' cs'. nb_calls buflen cs arr trp f = Inr (uint (hdr_type h), arr', trp', f', cs') \<and>
      take (length (packet h d)) arr' = packet h d \<and> tr_state trp' = 0 \<and> net_fifo_inv f' \<and> net_fifo_elems f' @ concat cs' = rest) \<and>
    (\<forall>f0. net_fifo_inv f0 \<and> net_fifo_elems f0 = packet h d @ rest \<longrightarrow>
      (\<exists>f'. MQTTPacket_read buflen (net_getfn True) f0 = Inr (uint (hdr_type h), packet h d, f') \<and> net_fifo_elems f' = rest))"
proof (intro conjI allI impI)
  have "nb_state h d [] arr trp" using assms(6) by (simp add: nb_state_def)
  from nb_calls_packet [OF assms(1-3) this _ _ assms(7-9,5), of rest] assms(4)
  show "\<exists>arr' trp' f' cs'. nb_calls buflen cs arr trp f = Inr (uint (hdr_type h), arr', trp', f', cs') \<and>
      take (length (packet h d)) arr' = packet h d \<and> tr_state trp' = 0 \<and> net_fifo_inv f' \<and> net_fifo_elems f' @ concat cs' = rest"
    by (simp add: packet_def)
next
  fix f0
  assume f0: "net_fifo_inv f0 \<and> net_fifo_elems f0 = packet h d @ rest"
  from netsrc.read_packet [of f0 h d rest "length (packet h d)" buflen] f0 assms(7,9)
  show "\<exists>f'. MQTTPacket_read buflen (net_getfn True) f0 = Inr (uint (hdr_type h), packet h d, f') \<and> net_fifo_elems f' = rest"
    by (auto simp: packet_def)
qed

definition idle_transport :: MQTTTransport where
  "idle_transport = \<lparr>tr_multiplier = 0, tr_rem_len = 0, tr_len = 0, tr_state = 0\<rparr>"

theorem readnb_in_pieces_witness:
  "\<exists>arr' trp' f' cs'. nb_calls 100 [[0x30], [], [5, 0], [1, 97, 98], [99, 0xd0, 0]] (replicate 100 0) idle_transport demo_fifo =
      Inr (3, arr', trp', f', cs') \<and> take 7 arr' = [0x30, 5, 0, 1, 97, 98, 99] \<and> tr_state trp' = 0 \<and> net_fifo_inv f' \<and>
      net_fifo_elems f' @ concat cs' = [0xd0, 0]"
proof -
  have p: "packet 0x30 [0, 1, 97, 98, 99] = [0x30, 5, 0, 1, 97, 98, 99]" by (simp add: packet_def encode_nonneg)
  have t: "hdr_type 0x30 = 3" by (simp add: hdr_type_def get_field_def drop_bit_eq_div flip: word_unat_eq_iff)
  have l: "length [0x30, 5, 0, 1, 97, 98, 99 :: u8] = 7" "uint (3 :: u8) = 3" by simp_all
  show ?thesis
    by (rule conjunct1 [OF readnb_in_pieces [of demo_fifo "[[0x30], [], [5, 0], [1, 97, 98], [99, 0xd0, 0]]" "0x30" "[0, 1, 97, 98, 99]"
        "[0xd0, 0]" idle_transport "replicate 100 0" 100], unfolded p t l])
      (use demo_fifo_queue in \<open>simp_all add: idle_transport_def\<close>)
qed

text \<open>
  C21: no traffic makes the reader write outside a buffer of at least five bytes of which it has been told no more than the size: every
  call returns -1, 0 or a type, and leaves the transport ready for the next one.
\<close>

theorem readnb_safe_calls:
  assumes "net_fifo_inv f" and "nb_inv (length arr) trp" and "5 \<le> length arr" and "buflen \<le> int (length arr)"
  shows "\<exists>rc arr' trp' f' cs'. nb_calls buflen cs arr trp f = Inr (rc, arr', trp', f', cs') \<and> length arr' = length arr \<and>
    nb_inv (length arr) trp' \<and> net_fifo_inv f' \<and> -1 \<le> rc \<and> rc < 16"
  using assms
proof (induction cs arbitrary: f arr trp)
  case (Cons c cs)
  have "net_fifo_inv (foldl fifo_push f c)" using Cons.prems(1)
    by (induction c arbitrary: f) (simp_all add: net.push_invar)
  from netsafe.readnb_safe [OF this Cons.prems(2-4), of True]
  obtain rc arr' trp' f' where r: "MQTTPacket_readnb (net_getfn True) buflen arr trp (foldl fifo_push f c) = Inr (rc, arr', trp', f')"
    "length arr' = length arr" "nb_inv (length arr') trp'" "net_fifo_inv f'" "-1 \<le> rc" "rc < 16" by (auto simp: nb_safe_def)
  then show ?case using Cons.IH [OF r(4,3)] Cons.prems(3,4) by simp
qed simp

theorem readnb_safe_calls_witness:
  "\<exists>rc arr' trp' f' cs'. nb_calls 5 [[0x30], [255, 255], [255, 127, 1]] (replicate 5 0) idle_transport demo_fifo = Inr (rc, arr', trp', f', cs') \<and>
    length arr' = 5"
  using readnb_safe_calls [of demo_fifo "replicate 5 0" idle_transport 5 "[[0x30], [255, 255], [255, 127, 1]]"] demo_fifo_queue
  by (auto simp: idle_transport_def nb_inv_def)

text \<open>A smaller buffer is overrun by the remaining length, which is stored before it is compared with \<open>buflen\<close>.\<close>

lemma readnb_small_buffer:
  "MQTTPacket_readnb bufchar 4 [0, 0, 0, 0] idle_transport [0x30, 255, 255, 255, 127] = Inl OutOfBounds"
  by code_simp

end
