(* ===== verification/Mqtt_Format.thy ===== *)
theory Mqtt_Format
  imports Mqtt_Roundtrip
begin

text \<open>
  \<open>MQTTFormat.c\<close>: a packet as a line of text.  The text buffer is the whole array behind \<open>strbuf\<close>, which may be larger or
  smaller than the size the caller gives for it.
\<close>

section \<open>Formatted output\<close>

text \<open>
  \<open>snprintf(&strbuf[i], n, ...)\<close>: its size is unsigned, it stores what fits with a NUL behind it, and it returns the length of the
  whole text.
\<close>

definition snprintf_at :: "bytes \<Rightarrow> nat \<Rightarrow> int \<Rightarrow> bytes \<Rightarrow> (nat \<times> bytes) c_result" where
  "snprintf_at strbuf i n txt =
     (let sz = unat (of_int n :: u32)
      in bindR (store_at strbuf i (if sz = 0 then [] else take (sz - 1) txt @ [0])) (\<lambda>b. Inr (length txt, b)))"

definition fmt_d :: "int \<Rightarrow> bytes" where
  "fmt_d x = (if x < 0 then str_bytes ''-'' @ dec (nat (- x)) else dec (nat x))"

text \<open>\<open>%.*s\<close>: at most \<open>p\<close> bytes, up to a NUL; a negative \<open>p\<close> is no bound.\<close>

definition fmt_s :: "int \<Rightarrow> bytes option \<Rightarrow> bytes c_result" where
  "fmt_s p src = (case src of
       None \<Rightarrow> if p = 0 then Inr [] else Inl OutOfBounds
     | Some d \<Rightarrow> let d' = (if p < 0 then d else take (nat p) d)
                 in if 0 \<in> set d' \<or> 0 \<le> p \<and> nat p \<le> length d then Inr (cstr d') else Inl OutOfBounds)"

definition fmt_str :: "MQTTString \<Rightarrow> bytes c_result" where
  "fmt_str s = fmt_s (ls_len s) (ls_data s)"

definition MQTTPacket_names :: "bytes list" where
  "MQTTPacket_names = map str_bytes
     [''RESERVED'', ''CONNECT'', ''CONNACK'', ''PUBLISH'', ''PUBACK'', ''PUBREC'', ''PUBREL'', ''PUBCOMP'', ''SUBSCRIBE'', ''SUBACK'',
      ''UNSUBSCRIBE'', ''UNSUBACK'', ''PINGREQ'', ''PINGRESP'', ''DISCONNECT'']"

definition MQTTPacket_getName :: "u16 \<Rightarrow> bytes c_result" where
  "MQTTPacket_getName packetid =
     (if unat packetid < length MQTTPacket_names then Inr (MQTTPacket_names ! unat packetid) else Inl OutOfBounds)"

text \<open>\<open>strindex += snprintf(&strbuf[strindex], strbuflen - strindex, ...)\<close>.\<close>

definition append_text :: "int \<Rightarrow> bytes \<Rightarrow> nat \<times> bytes \<Rightarrow> (nat \<times> bytes) c_result" where
  "append_text strbuflen txt st =
     bindR (snprintf_at (snd st) (fst st) (strbuflen - int (fst st)) txt) (\<lambda>(n, b). Inr (fst st + n, b))"

section \<open>One packet\<close>

definition fmt_will :: "int \<Rightarrow> MQTTPacket_connectData \<Rightarrow> nat \<times> bytes \<Rightarrow> (nat \<times> bytes) c_result" where
  "fmt_will strbuflen data st =
     (if willFlag data = 0 then Inr st
      else bindR (fmt_str (w_topicName (will data))) (\<lambda>topic.
           bindR (fmt_str (w_message (will data))) (\<lambda>message.
             append_text strbuflen (str_bytes '', will QoS '' @ fmt_d (uint (w_qos (will data)))
               @ str_bytes '', will retain '' @ fmt_d (uint (w_retained (will data)))
               @ str_bytes '', will topic '' @ topic @ str_bytes '', will message '' @ message) st)))"

definition fmt_credential :: "int \<Rightarrow> bytes \<Rightarrow> MQTTString \<Rightarrow> nat \<times> bytes \<Rightarrow> (nat \<times> bytes) c_result" where
  "fmt_credential strbuflen head s st =
     (if ls_data s \<noteq> None \<and> ls_len s > 0
      then bindR (fmt_str s) (\<lambda>t. append_text strbuflen (head @ t) st) else Inr st)"

definition MQTTStringFormat_connect :: "bytes \<Rightarrow> int \<Rightarrow> MQTTPacket_connectData \<Rightarrow> (nat \<times> bytes) c_result" where
  "MQTTStringFormat_connect strbuf strbuflen data =
     bindR (fmt_str (clientID data)) (\<lambda>cid.
     bindR (snprintf_at strbuf 0 strbuflen (str_bytes ''CONNECT MQTT version '' @ fmt_d (uint (MQTTVersion data))
       @ str_bytes '', client id '' @ cid @ str_bytes '', clean session '' @ fmt_d (uint (cleansession data))
       @ str_bytes '', keep alive '' @ fmt_d (uint (keepAliveInterval data)))) (\<lambda>st.
     bindR (fmt_will strbuflen data st) (\<lambda>st1.
     bindR (fmt_credential strbuflen (str_bytes '', user name '') (username data) st1) (\<lambda>st2.
       fmt_credential strbuflen (str_bytes '', password '') (password data) st2))))"

definition MQTTStringFormat_connack :: "bytes \<Rightarrow> int \<Rightarrow> u8 \<Rightarrow> u8 \<Rightarrow> (nat \<times> bytes) c_result" where
  "MQTTStringFormat_connack strbuf strbuflen connack_rc sessionPresent =
     snprintf_at strbuf 0 strbuflen (str_bytes ''CONNACK session present '' @ fmt_d (uint sessionPresent)
       @ str_bytes '', rc '' @ fmt_d (uint connack_rc))"

definition MQTTStringFormat_publish ::
    "bytes \<Rightarrow> int \<Rightarrow> u8 \<Rightarrow> int \<Rightarrow> u8 \<Rightarrow> u16 \<Rightarrow> MQTTString \<Rightarrow> bytes \<Rightarrow> int \<Rightarrow> (nat \<times> bytes) c_result" where
  "MQTTStringFormat_publish strbuf strbuflen dup qos retained packetid topicName payload payloadlen =
     bindR (fmt_s (if ls_len topicName < 20 then ls_len topicName else 20) (ls_data topicName)) (\<lambda>topic.
     bindR (fmt_s (if payloadlen < 20 then payloadlen else 20) (Some payload)) (\<lambda>pl.
       snprintf_at strbuf 0 strbuflen (str_bytes ''PUBLISH dup '' @ fmt_d (uint dup) @ str_bytes '', QoS '' @ fmt_d qos
         @ str_bytes '', retained '' @ fmt_d (uint retained) @ str_bytes '', packet id '' @ fmt_d (uint packetid)
         @ str_bytes '', topic '' @ topic @ str_bytes '', payload length '' @ fmt_d payloadlen
         @ str_bytes '', payload '' @ pl)))"

definition MQTTStringFormat_ack :: "bytes \<Rightarrow> int \<Rightarrow> u8 \<Rightarrow> u8 \<Rightarrow> u16 \<Rightarrow> (nat \<times> bytes) c_result" where
  "MQTTStringFormat_ack strbuf strbuflen packettype dup packetid =
     bindR (MQTTPacket_getName (ucast packettype)) (\<lambda>name.
     bindR (snprintf_at strbuf 0 strbuflen (name @ str_bytes '', packet id '' @ fmt_d (uint packetid))) (\<lambda>st.
       if dup \<noteq> 0 then append_text strbuflen (str_bytes '', dup '' @ fmt_d (uint dup)) st else Inr st))"

definition MQTTStringFormat_subscribe ::
    "bytes \<Rightarrow> int \<Rightarrow> u8 \<Rightarrow> u16 \<Rightarrow> int \<Rightarrow> MQTTString list \<Rightarrow> int list \<Rightarrow> (nat \<times> bytes) c_result" where
  "MQTTStringFormat_subscribe strbuf strbuflen dup packetid count topicFilters requestedQoSs =
     (case (topicFilters, requestedQoSs) of
        (t # _, q # _) \<Rightarrow> bindR (fmt_str t) (\<lambda>topic.
          snprintf_at strbuf 0 strbuflen (str_bytes ''SUBSCRIBE dup '' @ fmt_d (uint dup) @ str_bytes '', packet id ''
            @ fmt_d (uint packetid) @ str_bytes '' count '' @ fmt_d count @ str_bytes '' topic '' @ topic
            @ str_bytes '' qos '' @ fmt_d q))
      | _ \<Rightarrow> Inl OutOfBounds)"

definition MQTTStringFormat_suback :: "bytes \<Rightarrow> int \<Rightarrow> u16 \<Rightarrow> int \<Rightarrow> int list \<Rightarrow> (nat \<times> bytes) c_result" where
  "MQTTStringFormat_suback strbuf strbuflen packetid count grantedQoSs =
     (case grantedQoSs of
        q # _ \<Rightarrow> snprintf_at strbuf 0 strbuflen (str_bytes ''SUBACK packet id '' @ fmt_d (uint packetid) @ str_bytes '' count ''
          @ fmt_d count @ str_bytes '' granted qos '' @ fmt_d q)
      | [] \<Rightarrow> Inl OutOfBounds)"

definition MQTTStringFormat_unsubscribe ::
    "bytes \<Rightarrow> int \<Rightarrow> u8 \<Rightarrow> u16 \<Rightarrow> int \<Rightarrow> MQTTString list \<Rightarrow> (nat \<times> bytes) c_result" where
  "MQTTStringFormat_unsubscribe strbuf strbuflen dup packetid count topicFilters =
     (case topicFilters of
        t # _ \<Rightarrow> bindR (fmt_str t) (\<lambda>topic.
          snprintf_at strbuf 0 strbuflen (str_bytes ''UNSUBSCRIBE dup '' @ fmt_d (uint dup) @ str_bytes '', packet id ''
            @ fmt_d (uint packetid) @ str_bytes '' count '' @ fmt_d count @ str_bytes '' topic '' @ topic))
      | [] \<Rightarrow> Inl OutOfBounds)"

section \<open>Any packet of a buffer\<close>

text \<open>
  What the local variables hold before the deserializers assign them: they are not initialised, except the topic of a publication.
\<close>

record locals =
  l_dup :: u8
  l_retained :: u8
  l_packettype :: u8
  l_packetid :: u16
  l_qos :: int
  l_payload :: bytes
  l_payloadlen :: int
  l_sessionPresent :: u8
  l_connack_rc :: u8
  l_grantedQoS :: int
  l_topicFilter :: MQTTString
  l_requestedQoS :: int
  l_data :: MQTTPacket_connectData

definition fmt_header :: "bytes \<Rightarrow> u8 c_result" where
  "fmt_header buf =
     bindR (readChar (buf, 0)) (\<lambda>(header, c).
     bindR (MQTTPacket_decodeBuf (fst c)) (\<lambda>_. Inr (hdr_type header)))"

definition format_publish :: "locals \<Rightarrow> bytes \<Rightarrow> int \<Rightarrow> bytes \<Rightarrow> bytes c_result" where
  "format_publish l strbuf strbuflen buf =
     bindR (MQTTDeserialize_publish buf \<lparr>po_dup = l_dup l, po_qos = l_qos l, po_retained = l_retained l, po_packetid = l_packetid l,
       po_topicName = MQTTString_initializer, po_payload = l_payload l, po_payloadlen = l_payloadlen l\<rparr>) (\<lambda>(rc, p).
       if rc = 1 then bindR (MQTTStringFormat_publish strbuf strbuflen (po_dup p) (po_qos p) (po_retained p) (po_packetid p)
         (po_topicName p) (po_payload p) (po_payloadlen p)) (\<lambda>(_, b). Inr b)
       else Inr strbuf)"

definition format_ack :: "locals \<Rightarrow> bytes \<Rightarrow> int \<Rightarrow> bytes \<Rightarrow> bytes c_result" where
  "format_ack l strbuf strbuflen buf =
     bindR (MQTTDeserialize_ack buf \<lparr>ao_packettype = l_packettype l, ao_dup = l_dup l, ao_packetid = l_packetid l\<rparr>) (\<lambda>(rc, a).
       if rc = 1 then bindR (MQTTStringFormat_ack strbuf strbuflen (ao_packettype a) (ao_dup a) (ao_packetid a)) (\<lambda>(_, b). Inr b)
       else Inr strbuf)"

definition format_name :: "u8 \<Rightarrow> bytes \<Rightarrow> int \<Rightarrow> bytes c_result" where
  "format_name t strbuf strbuflen =
     bindR (MQTTPacket_getName (ucast t)) (\<lambda>name. bindR (snprintf_at strbuf 0 strbuflen name) (\<lambda>(_, b). Inr b))"

definition MQTTFormat_toClientString :: "locals \<Rightarrow> bytes \<Rightarrow> int \<Rightarrow> bytes \<Rightarrow> bytes c_result" where
  "MQTTFormat_toClientString l strbuf strbuflen buf =
     bindR (fmt_header buf) (\<lambda>t.
       if t = CONNACK then
         bindR (MQTTDeserialize_connack buf \<lparr>co_sessionPresent = l_sessionPresent l, co_rc = l_connack_rc l\<rparr>) (\<lambda>(rc, c).
           if rc = 1 then bindR (MQTTStringFormat_connack strbuf strbuflen (co_rc c) (co_sessionPresent c)) (\<lambda>(_, b). Inr b)
           else Inr strbuf)
       else if t = PUBLISH then format_publish l strbuf strbuflen buf
       else if t \<in> {PUBACK, PUBREC, PUBREL, PUBCOMP} then format_ack l strbuf strbuflen buf
       else if t = SUBACK then
         bindR (MQTTDeserialize_suback buf 1 \<lparr>so_packetid = l_packetid l, so_count = 0, so_grantedQoSs = [l_grantedQoS l]\<rparr>) (\<lambda>(rc, s).
           if rc = 1
           then bindR (MQTTStringFormat_suback strbuf strbuflen (so_packetid s) (int (so_count s)) (so_grantedQoSs s)) (\<lambda>(_, b). Inr b)
           else Inr strbuf)
       else if t = UNSUBACK then
         bindR (MQTTDeserialize_unsuback buf (l_packetid l)) (\<lambda>(rc, k).
           if rc = 1 then bindR (MQTTStringFormat_ack strbuf strbuflen UNSUBACK 0 k) (\<lambda>(_, b). Inr b) else Inr strbuf)
       else if t \<in> {PINGREQ, PINGRESP, DISCONNECT} then format_name t strbuf strbuflen
       else Inr strbuf)"

definition MQTTFormat_toServerString :: "locals \<Rightarrow> bytes \<Rightarrow> int \<Rightarrow> bytes \<Rightarrow> int \<Rightarrow> bytes c_result" where
  "MQTTFormat_toServerString l strbuf strbuflen buf buflen =
     bindR (fmt_header buf) (\<lambda>t.
     bindR (if t = CONNECT then
         bindR (MQTTDeserialize_connect buf buflen (l_data l)) (\<lambda>(rc, d).
           if rc = 1 then bindR (MQTTStringFormat_connect strbuf strbuflen d) (\<lambda>(_, b). Inr b) else Inr strbuf)
       else if t = PUBLISH then format_publish l strbuf strbuflen buf
       else if t \<in> {PUBACK, PUBREC, PUBREL, PUBCOMP} then format_ack l strbuf strbuflen buf
       else if t = SUBSCRIBE then
         bindR (MQTTDeserialize_subscribe buf \<lparr>sb_dup = l_dup l, sb_packetid = l_packetid l, sb_count = 0,
           sb_topicFilters = [l_topicFilter l], sb_requestedQoSs = [l_requestedQoS l]\<rparr>) (\<lambda>(rc, s).
           if rc = 1 then bindR (MQTTStringFormat_subscribe strbuf strbuflen (sb_dup s) (sb_packetid s) (int (sb_count s))
             (sb_topicFilters s) (sb_requestedQoSs s)) (\<lambda>(_, b). Inr b)
           else Inr strbuf)
       else if t = UNSUBSCRIBE then
         bindR (MQTTDeserialize_unsubscribe buf \<lparr>ub_dup = l_dup l, ub_packetid = l_packetid l, ub_count = 0,
           ub_topicFilters = [l_topicFilter l]\<rparr>) (\<lambda>(rc, u).
           if rc = 1 then bindR (MQTTStringFormat_unsubscribe strbuf strbuflen (ub_dup u) (ub_packetid u) (int (ub_count u))
             (ub_topicFilters u)) (\<lambda>(_, b). Inr b)
           else Inr strbuf)
       else if t \<in> {PINGREQ, PINGRESP, DISCONNECT} then format_name t strbuf strbuflen
       else Inr strbuf) (\<lambda>b.
       if 0 \<le> strbuflen then store_at b (nat strbuflen) [0] else Inl OutOfBounds))"

section \<open>Text inside its buffer\<close>

lemma snprintf_at_size:
  assumes "0 \<le> n" "n < 4294967296"
  shows "snprintf_at b i n txt = bindR (store_at b i (if n = 0 then [] else take (nat n - 1) txt @ [0])) (\<lambda>b. Inr (length txt, b))"
proof -
  have "unat (of_int n :: u32) = nat n" using assms by (simp add: unsigned_of_int take_bit_int_eq_self unat_eq_nat_uint)
  then show ?thesis using assms(1) by (simp add: snprintf_at_def Let_def)
qed

text \<open>The text with its NUL at the start of the buffer.\<close>

definition with_text :: "bytes \<Rightarrow> bytes \<Rightarrow> bytes" where
  "with_text txt b = txt @ 0 # drop (Suc (length txt)) b"

lemma append_text_fits:
  assumes "int (length t + length txt) < n" "n \<le> int (length b)" "n < 4294967296"
  shows "append_text n txt (length t, with_text t b) = Inr (length (t @ txt), with_text (t @ txt) b)"
  using assms by (simp add: append_text_def snprintf_at_size store_at_def with_text_def Suc_le_eq take_Cons' drop_Cons' add.commute)

lemma snprintf_fits:
  assumes "int (length txt) < n" "n \<le> int (length b)" "n < 4294967296"
  shows "snprintf_at b 0 n txt = Inr (length txt, with_text txt b)"
  using assms by (simp add: snprintf_at_size store_at_def with_text_def)

lemma store_at_length: "store_at b i v = Inr b' \<Longrightarrow> length b' = length b"
  by (auto simp: store_at_def split: if_splits)

lemma snprintf_at_length: "snprintf_at b i n txt = Inr (k, b') \<Longrightarrow> length b' = length b"
  by (auto simp: snprintf_at_def bindR_eq_Inr Let_def dest: store_at_length)

lemma append_text_length: "append_text n txt st = Inr st' \<Longrightarrow> length (snd st') = length (snd st)"
  by (auto simp: append_text_def bindR_eq_Inr dest: snprintf_at_length)

text \<open>One call never writes behind the size it is given, and ends the text with a NUL.\<close>

lemma snprintf_bounded:
  assumes "0 < n" "n \<le> int (length b)" "n < 4294967296"
  shows "\<exists>b'. snprintf_at b 0 n txt = Inr (length txt, b') \<and> length b' = length b \<and> drop (nat n) b' = drop (nat n) b \<and>
    0 \<in> set (take (nat n) b')"
proof -
  define v where "v = take (nat n - 1) txt @ [0 :: u8]"
  have l: "length v \<le> nat n" "nat n \<le> length b" using assms by (auto simp: v_def)
  then have "store_at b 0 v = Inr (v @ drop (length v) b)" by (simp add: store_at_def)
  then have "snprintf_at b 0 n txt = Inr (length txt, v @ drop (length v) b)"
    using assms by (simp only: snprintf_at_size v_def [symmetric]) simp
  moreover have "0 \<in> set v" by (simp add: v_def)
  then have "0 \<in> set (take (nat n) (v @ drop (length v) b))" using l(1) by simp
  ultimately show ?thesis using l by (intro exI [of _ "v @ drop (length v) b"]) simp
qed

section \<open>A publication as text\<close>

lemma fmt_s_take: "0 \<le> p \<Longrightarrow> nat p \<le> length d \<Longrightarrow> fmt_s p (Some d) = Inr (cstr (take (nat p) d))"
  by (simp add: fmt_s_def Let_def)

lemma fmt_header_publish: "MQTTDeserialize_publish buf p = Inr (1, p') \<Longrightarrow> fmt_header buf = Inr PUBLISH"
  by (auto simp: MQTTDeserialize_publish_def fmt_header_def body_cursor_def bindR_eq_Inr Let_def split: if_splits)

definition publish_text :: "u8 \<Rightarrow> int \<Rightarrow> u8 \<Rightarrow> u16 \<Rightarrow> bytes \<Rightarrow> bytes \<Rightarrow> bytes" where
  "publish_text dup qos retained pid topic payload =
     str_bytes ''PUBLISH dup '' @ fmt_d (uint dup) @ str_bytes '', QoS '' @ fmt_d qos
       @ str_bytes '', retained '' @ fmt_d (uint retained) @ str_bytes '', packet id '' @ fmt_d (uint pid)
       @ str_bytes '', topic '' @ cstr (take 20 topic) @ str_bytes '', payload length '' @ fmt_d (int (length payload))
       @ str_bytes '', payload '' @ cstr (take 20 payload)"

lemma format_publish_text:
  "MQTTStringFormat_publish strbuf n dup qos retained pid (len_str topic t) (payload @ junk) (int (length payload)) =
     snprintf_at strbuf 0 n (publish_text dup qos retained pid topic payload)"
  by (cases "length topic < 20"; cases "length payload < 20")
    (simp_all add: MQTTStringFormat_publish_def len_str_def fmt_s_take publish_text_def)

definition demo_locals :: locals where
  "demo_locals = \<lparr>l_dup = 0, l_retained = 0, l_packettype = 0, l_packetid = 0, l_qos = 0, l_payload = [], l_payloadlen = 0,
     l_sessionPresent = 0, l_connack_rc = 0, l_grantedQoS = 0, l_topicFilter = MQTTString_initializer, l_requestedQoS = 0,
     l_data = MQTTPacket_connectData_initializer\<rparr>"

theorem publish_is_printed:
  assumes "str_ok topicName" and "0 \<le> qos" and "qos \<le> 2" and "dup \<in> {0, 1}" and "retained \<in> {0, 1}"
    and "MQTTPacket_len (MQTTSerialize_publishLength qos topicName (int (length payload))) \<le> buflen" and "buflen < 268435456"
    and "txt = publish_text dup qos retained (if qos > 0 then pid else l_packetid l) (str_content topicName) payload"
    and "int (length txt) < strbuflen" and "strbuflen \<le> int (length strbuf)" and "strbuflen < 4294967296"
  shows "\<exists>b. MQTTSerialize_publish buflen dup qos retained pid topicName payload (int (length payload)) = Inr (int (length b), b) \<and>
    MQTTFormat_toClientString l strbuf strbuflen (b @ junk) = Inr (with_text txt strbuf)"
proof -
  let ?d = "publish_body topicName qos pid payload (int (length payload))"
  define b where "b = packet (publish_header dup qos retained) ?d"
  have ser: "MQTTSerialize_publish buflen dup qos retained pid topicName payload (int (length payload)) = Inr (int (length b), b)"
    "int (length b) \<le> buflen"
    using publish_packet [OF assms(1) _ _ assms(2-7) b_def] by auto
  have small: "length ?d < 268435456" using ser(2) assms(7) by (simp add: b_def packet_def)
  note parse = publish_parse [OF assms(1) _ _ assms(2-5) small, of junk, simplified, folded b_def]
  have "MQTTFormat_toClientString l strbuf strbuflen (b @ junk) = Inr (with_text txt strbuf)"
    using snprintf_fits [OF assms(9-11)] unfolding assms(8)
    by (cases "qos > 0") (simp_all add: MQTTFormat_toClientString_def fmt_header_publish [OF parse] format_publish_def parse
      format_publish_text msgTypes_defs)
  with ser(1) show ?thesis by blast
qed

section \<open>Text outside its buffer\<close>

lemma formats_length:
  "MQTTStringFormat_publish b n dp q r k tp pl pn = Inr (i, b') \<Longrightarrow> length b' = length b"
  "MQTTStringFormat_ack b n t dp k = Inr (i, b') \<Longrightarrow> length b' = length b"
  "MQTTStringFormat_subscribe b n dp k c ts qs = Inr (i, b') \<Longrightarrow> length b' = length b"
  "MQTTStringFormat_unsubscribe b n dp k c ts = Inr (i, b') \<Longrightarrow> length b' = length b"
  by (auto simp: MQTTStringFormat_publish_def MQTTStringFormat_ack_def MQTTStringFormat_subscribe_def MQTTStringFormat_unsubscribe_def
    bindR_eq_Inr split: if_splits list.splits dest!: snprintf_at_length append_text_length)

lemma format_connect_length: "MQTTStringFormat_connect b n d = Inr (i, b') \<Longrightarrow> length b' = length b"
  by (auto simp: MQTTStringFormat_connect_def fmt_will_def fmt_credential_def bindR_eq_Inr split: if_splits
    dest!: snprintf_at_length append_text_length)

lemma format_any_length:
  "format_publish l b n buf = Inr b' \<Longrightarrow> length b' = length b" "format_ack l b n buf = Inr b' \<Longrightarrow> length b' = length b"
  "format_name t b n = Inr b' \<Longrightarrow> length b' = length b"
  by (auto simp: format_publish_def format_ack_def format_name_def bindR_eq_Inr split: if_splits dest: formats_length snprintf_at_length)

theorem publish_is_printed_witness:
  "\<exists>b. MQTTSerialize_publish 1024 0 1 0 7 demo_topic (str_bytes ''hello'') (int (length (str_bytes ''hello''))) = Inr (int (length b), b) \<and>
    MQTTFormat_toClientString demo_locals (replicate 200 9) 200 (b @ [5]) =
      Inr (with_text (publish_text 0 1 0 7 (str_content demo_topic) (str_bytes ''hello'')) (replicate 200 9))"
  by (rule publish_is_printed [OF demo_topic_ok(1)])
    (simp_all add: MQTTSerialize_publishLength_def demo_topic_ok MQTTPacket_len_def publish_text_def str_bytes_def fmt_d_def dec.simps cstr_def)

theorem server_string_overflows:
  assumes "int (length strbuf) = strbuflen"
  shows "MQTTFormat_toServerString l strbuf strbuflen buf buflen = Inl OutOfBounds"
proof (cases "MQTTFormat_toServerString l strbuf strbuflen buf buflen")
  case (Inl e)
  then show ?thesis by (cases e) simp
next
  case (Inr b)
  then obtain b' where b': "length b' = length strbuf" "store_at b' (nat strbuflen) [0] = Inr b"
    by (auto simp: MQTTFormat_toServerString_def bindR_eq_Inr split: if_splits
      dest: formats_length format_connect_length format_any_length)
  then show ?thesis using assms by (simp add: store_at_def split: if_splits)
qed

definition ack_text :: "u8 \<Rightarrow> u16 \<Rightarrow> bytes" where
  "ack_text packettype pid = MQTTPacket_names ! unat packettype @ str_bytes '', packet id '' @ fmt_d (uint pid)"

lemma ack_overflows:
  assumes "unat packettype < 15" and "0 < strbuflen" and "strbuflen < 2147483648" and "int (length strbuf) = strbuflen"
  shows "MQTTStringFormat_ack strbuf strbuflen packettype dup pid = Inl OutOfBounds \<longleftrightarrow>
    dup \<noteq> 0 \<and> strbuflen < int (length (ack_text packettype pid))"
proof -
  let ?h = "ack_text packettype pid"
  have n: "MQTTPacket_getName (ucast packettype) = Inr (MQTTPacket_names ! unat packettype)"
    using assms(1) by (simp add: MQTTPacket_getName_def MQTTPacket_names_def unsigned_ucast_eq take_bit_nat_eq_self)
  obtain b where b: "snprintf_at strbuf 0 strbuflen ?h = Inr (length ?h, b)" "length b = length strbuf"
    using snprintf_bounded [OF assms(2), of strbuf ?h] assms(3,4) by auto
  have "append_text strbuflen t (length ?h, b) = Inl OutOfBounds \<longleftrightarrow> strbuflen < int (length ?h)" for t
  proof (cases "strbuflen < int (length ?h)")
    case True
    then show ?thesis using b(2) assms(4) by (simp add: append_text_def snprintf_at_def store_at_def Let_def)
  next
    case False
    then show ?thesis using b(2) assms(3,4) by (auto simp: append_text_def snprintf_at_size store_at_def)
  qed
  then show ?thesis using b(1) by (simp add: MQTTStringFormat_ack_def n ack_text_def)
qed

theorem server_string_overflows_witness:
  "MQTTFormat_toServerString demo_locals (replicate 80 0) 80 [0xC0, 0] 2 = Inl OutOfBounds"
  by (rule server_string_overflows) simp

text \<open>A server that sets the reserved flag of an acknowledgement reaches it.\<close>

theorem puback_overflows:
  assumes "0 < strbuflen" and "strbuflen < int (length (ack_text PUBACK pid))" and "int (length strbuf) = strbuflen"
  shows "MQTTFormat_toClientString l strbuf strbuflen (0x48 # 2 # writeInt (uint pid) @ junk) = Inl OutOfBounds"
proof -
  have h: "hdr_type 0x48 = PUBACK" "hdr_dup 0x48 = 1" by (simp_all add: hdr_defs get_field_def PUBACK_def)
  have d: "MQTTDeserialize_ack (0x48 # 2 # writeInt (uint pid) @ junk) a = Inr (1, a\<lparr>ao_packettype := PUBACK, ao_dup := 1, ao_packetid := pid\<rparr>)"
    for a by (simp add: MQTTDeserialize_ack_def ack_body h Let_def)
  have "length (ack_text PUBACK pid) < 2147483648"
    using dec_u16_length [of pid] by (simp add: ack_text_def fmt_d_def MQTTPacket_names_def PUBACK_def str_bytes_def)
  then have "MQTTStringFormat_ack strbuf strbuflen PUBACK 1 pid = Inl OutOfBounds"
    using ack_overflows [of PUBACK strbuflen strbuf 1 pid] assms by (simp add: PUBACK_def)
  moreover have "fmt_header (0x48 # 2 # writeInt (uint pid) @ junk) = Inr PUBACK"
    using ack_body [of pid junk] by (auto simp: fmt_header_def h body_cursor_def bindR_eq_Inr)
  ultimately show ?thesis by (simp add: MQTTFormat_toClientString_def format_ack_def d msgTypes_defs)
qed

theorem puback_overflows_witness:
  "MQTTFormat_toClientString demo_locals (replicate 16 0) 16 (0x48 # 2 # writeInt (uint (513 :: u16)) @ []) = Inl OutOfBounds"
  by (rule puback_overflows) (simp_all add: ack_text_def MQTTPacket_names_def PUBACK_def str_bytes_def)

end
