(* ===== verification/Rtc_Calendar.thy ===== *)
theory Rtc_Calendar
  imports Mqtt_Packet
begin

text \<open>
  The calendar of the RTC driver, \<open>Drivers/BSP/src/ibox_rtc.c\<close>: conversions between the
  seconds counter and a date, the weekday, and the fixed-width time string.  The reference is the
  Gregorian calendar of the years 1970 to 2099, in which every fourth year is a leap year.
\<close>

section \<open>The driver\<close>

record RTC_DateTime_Type =
  year :: u16
  month :: u16
  day :: u16
  hour :: u16
  minute :: u16
  second :: u8

definition ULY :: "u8 list" where "ULY = [0, 31, 28, 31, 30, 31, 30, 31, 31, 30, 31, 30, 31]"
definition LY :: "u8 list" where "LY = [0, 31, 29, 31, 30, 31, 30, 31, 31, 30, 31, 30, 31]"
definition MONTH_DAYS :: "u16 list" where
  "MONTH_DAYS = [0, 0, 31, 59, 90, 120, 151, 181, 212, 243, 273, 304, 334]"

definition SECONDS_IN_A_DAY :: u32 where "SECONDS_IN_A_DAY = 86400"
definition SECONDS_IN_A_HOUR :: u32 where "SECONDS_IN_A_HOUR = 3600"
definition SECONDS_IN_A_MIN :: u32 where "SECONDS_IN_A_MIN = 60"
definition DAYS_IN_A_YEAR :: u32 where "DAYS_IN_A_YEAR = 365"
definition DAYS_IN_A_LEAP_YEAR :: u32 where "DAYS_IN_A_LEAP_YEAR = 366"

text \<open>\<open>RTC_GetWeek\<close>; the loop reads \<open>mdays[0]\<close> to \<open>mdays[month - 1]\<close>.\<close>

definition mdays :: "int list" where "mdays = [0, 31, 28, 31, 30, 31, 30, 31, 31, 30, 31, 30]"

definition RTC_GetWeek :: "int \<Rightarrow> int \<Rightarrow> int \<Rightarrow> int c_result" where
  "RTC_GetWeek yr mon days =
     (if nat mon \<le> length mdays then
        (let y = yr - 1;
             d1 = days + sum_list (take (nat mon) mdays);
             d2 = (if mon > 2 \<and> (yr smod 400 = 0 \<or> yr AND 3 = 0 \<and> yr smod 100 \<noteq> 0) then d1 + 1 else d1)
         in Inr ((y + y sdiv 4 - y sdiv 100 + y sdiv 400 + d2) smod 7))
      else Inl OutOfBounds)"

definition RTC_DateTimeToSecond :: "RTC_DateTime_Type \<Rightarrow> u32 c_result" where
  "RTC_DateTimeToSecond dt =
     (if unat (month dt) < length MONTH_DAYS then
        (let s1 = (ucast (year dt) - 1970) * DAYS_IN_A_YEAR;
             s2 = s1 + (ucast (year dt) div 4 - 1970 div 4);
             s3 = s2 + ucast (MONTH_DAYS ! unat (month dt));
             s4 = s3 + ucast (day dt);
             s5 = (if year dt AND 3 = 0 \<and> month dt \<le> 2 then s4 - 1 else s4);
             s6 = s5 * SECONDS_IN_A_DAY + ucast (hour dt) * SECONDS_IN_A_HOUR
                + ucast (minute dt) * SECONDS_IN_A_MIN + ucast (second dt)
         in Inr (s6 + 1))
      else Inl OutOfBounds)"

text \<open>
  The year loop of \<open>RTC_SecondToDateTime\<close>; \<open>Days_in_year\<close> is always the length of the
  current year, 365 for the first one.
\<close>

definition Days_in_year :: "u16 \<Rightarrow> u32" where
  "Days_in_year yr = (if yr AND 3 \<noteq> 0 then DAYS_IN_A_YEAR else DAYS_IN_A_LEAP_YEAR)"

lemma Days_in_year_pos: "0 < unat (Days_in_year yr)"
  by (simp add: Days_in_year_def DAYS_IN_A_YEAR_def DAYS_IN_A_LEAP_YEAR_def)

function year_loop :: "u32 \<Rightarrow> u16 \<Rightarrow> u32 \<times> u16" where
  "year_loop Days yr =
     (if Days > Days_in_year yr then year_loop (Days - Days_in_year yr) (yr + 1) else (Days, yr))"
  by pat_completeness auto
termination
proof (relation "measure (\<lambda>(d, y). unat d)")
  fix Days yr
  assume "Days_in_year yr < Days"
  then show "((Days - Days_in_year yr, yr + 1), Days, yr) \<in> measure (\<lambda>(d, y). unat d)"
    using Days_in_year_pos [of yr] unat_sub [OF less_imp_le [of "Days_in_year yr" Days]]
    by (simp add: word_less_nat_alt)
qed simp

declare year_loop.simps [simp del]

text \<open>The month loop over the rest of the table; a date past the table leaves the month alone.\<close>

fun month_loop :: "u8 list \<Rightarrow> u16 \<Rightarrow> u32 \<Rightarrow> u16 \<Rightarrow> u32 \<times> u16" where
  "month_loop [] x Days m0 = (Days, m0)"
| "month_loop (l # ls) x Days m0 =
     (if Days \<le> ucast l then (Days, x) else month_loop ls (x + 1) (Days - ucast l) m0)"

definition RTC_SecondToDateTime :: "u32 \<Rightarrow> RTC_DateTime_Type \<Rightarrow> RTC_DateTime_Type" where
  "RTC_SecondToDateTime seconds dt =
     (let Days = seconds div SECONDS_IN_A_DAY;
          s1 = seconds mod SECONDS_IN_A_DAY;
          h = s1 div SECONDS_IN_A_HOUR;
          s2 = s1 mod SECONDS_IN_A_HOUR;
          (d1, yr) = year_loop Days 1970;
          tbl = (if yr AND 3 \<noteq> 0 then ULY else LY);
          (d2, mo) = month_loop (tl tbl) 1 d1 (month dt)
      in \<lparr>year = yr, month = mo, day = ucast (d2 + 1), hour = ucast h,
          minute = ucast (s2 div SECONDS_IN_A_MIN), second = ucast (s2 mod SECONDS_IN_A_MIN)\<rparr>)"

text \<open>\<open>counter\<close> is the RTC counter register.\<close>

definition RTC_GetTime :: "u32 \<Rightarrow> RTC_DateTime_Type \<Rightarrow> RTC_DateTime_Type" where
  "RTC_GetTime counter dt = RTC_SecondToDateTime (counter + 60 * 60 * 8) dt"

definition RTC_SetTime :: "RTC_DateTime_Type \<Rightarrow> u32 c_result" where
  "RTC_SetTime dt = RTC_DateTimeToSecond dt"

definition dig :: "bytes \<Rightarrow> nat \<Rightarrow> int" where
  "dig t i = uint (t ! i) - 48"

definition str_datetime :: "bytes \<Rightarrow> RTC_DateTime_Type c_result" where
  "str_datetime t =
     (if 14 \<le> length t then
        Inr \<lparr>year = of_int (dig t 0 * 1000 + dig t 1 * 100 + dig t 2 * 10 + dig t 3),
             month = of_int (dig t 4 * 10 + dig t 5), day = of_int (dig t 6 * 10 + dig t 7),
             hour = of_int (dig t 8 * 10 + dig t 9), minute = of_int (dig t 10 * 10 + dig t 11),
             second = of_int (dig t 12 * 10 + dig t 13)\<rparr>
      else Inl OutOfBounds)"

definition RTC_StrSetTime :: "bytes \<Rightarrow> u32 c_result" where
  "RTC_StrSetTime t = bindR (str_datetime t) RTC_SetTime"

definition datetime_str :: "RTC_DateTime_Type \<Rightarrow> bytes" where
  "datetime_str dt = dec (unat (year dt)) @ dec_pad 2 (unat (month dt)) @ dec_pad 2 (unat (day dt))
     @ dec_pad 2 (unat (hour dt)) @ dec_pad 2 (unat (minute dt)) @ dec_pad 2 (unat (second dt))"

definition RTC_Get_str :: "u32 \<Rightarrow> RTC_DateTime_Type \<Rightarrow> bytes" where
  "RTC_Get_str counter dt = datetime_str (RTC_GetTime counter dt)"

section \<open>Reference calendar\<close>

definition leap :: "nat \<Rightarrow> bool" where "leap y \<longleftrightarrow> y mod 4 = 0"
definition ylen :: "nat \<Rightarrow> nat" where "ylen y = (if leap y then 366 else 365)"

definition months :: "nat \<Rightarrow> nat list" where
  "months y = [31, if leap y then 29 else 28, 31, 30, 31, 30, 31, 31, 30, 31, 30, 31]"

text \<open>Days from 1970-01-01 to the first day of a year, and to a date.\<close>

definition days_to_year :: "nat \<Rightarrow> nat" where
  "days_to_year y = 365 * (y - 1970) + (y - 1969) div 4"

definition daynum :: "nat \<Rightarrow> nat \<Rightarrow> nat \<Rightarrow> nat" where
  "daynum y m d = days_to_year y + sum_list (take (m - 1) (months y)) + (d - 1)"

definition valid_date :: "nat \<Rightarrow> nat \<Rightarrow> nat \<Rightarrow> bool" where
  "valid_date y m d \<longleftrightarrow> 1970 \<le> y \<and> y < 2100 \<and> 1 \<le> m \<and> m \<le> 12 \<and> 1 \<le> d \<and> d \<le> months y ! (m - 1)"

lemma days_to_year_Suc:
  assumes "1970 \<le> y"
  shows "days_to_year (Suc y) = days_to_year y + ylen y"
proof -
  obtain k where k: "y = 1970 + k" using assms by (metis le_iff_add)
  have "leap y \<longleftrightarrow> Suc (Suc k) mod 4 = 0" unfolding leap_def k by presburger
  moreover have "Suc (Suc k) div 4 = (if Suc (Suc k) mod 4 = 0 then Suc (Suc k div 4) else Suc k div 4)"
    by (rule div_Suc)
  ultimately show ?thesis by (simp add: days_to_year_def ylen_def k)
qed

text \<open>The year and the day in it of a day number, counting up from a year.\<close>

function split_year :: "nat \<Rightarrow> nat \<Rightarrow> nat \<times> nat" where
  "split_year n y = (if ylen y \<le> n then split_year (n - ylen y) (Suc y) else (n, y))"
  by pat_completeness auto
termination
  by (relation "measure fst") (auto simp: ylen_def split: if_splits)

declare split_year.simps [simp del]

fun split_month :: "nat list \<Rightarrow> nat \<Rightarrow> nat \<Rightarrow> nat \<times> nat" where
  "split_month [] m n = (n, m)"
| "split_month (l # ls) m n = (if n < l then (n, m) else split_month ls (Suc m) (n - l))"

text \<open>The date of a day number.\<close>

definition date_of :: "nat \<Rightarrow> nat \<times> nat \<times> nat" where
  "date_of n = (let (k, y) = split_year n 1970; (d, m) = split_month (months y) 1 k in (y, m, d + 1))"

lemma split_year_add:
  assumes "1970 \<le> z" and "k < ylen (z + j)"
  shows "split_year (days_to_year (z + j) - days_to_year z + k) z = (k, z + j)"
  using assms
proof (induction j arbitrary: z)
  case 0
  then show ?case by (simp add: split_year.simps)
next
  case (Suc j)
  have mono: "days_to_year (Suc z) \<le> days_to_year (Suc z + j)"
    by (simp add: days_to_year_def)
  have "split_year (days_to_year (Suc z + j) - days_to_year (Suc z) + k) (Suc z) = (k, Suc z + j)"
    using Suc.IH [of "Suc z"] Suc.prems by simp
  moreover have "days_to_year (z + Suc j) - days_to_year z + k =
      ylen z + (days_to_year (Suc z + j) - days_to_year (Suc z) + k)"
    using mono days_to_year_Suc [OF Suc.prems(1)] by simp
  ultimately show ?case by (simp add: split_year.simps [of _ z])
qed

lemma split_year_lt: "fst (split_year n y) < ylen (snd (split_year n y))"
proof (induction n y rule: split_year.induct)
  case (1 n y)
  then show ?case by (simp add: split_year.simps [of n y])
qed

lemma split_month_take:
  "i < length ls \<Longrightarrow> k < ls ! i \<Longrightarrow> split_month ls m (sum_list (take i ls) + k) = (k, m + i)"
proof (induction ls arbitrary: m i)
  case (Cons l ls)
  then show ?case by (cases i) (auto simp: add.assoc)
qed simp

lemma month_in_year:
  "i < length ls \<Longrightarrow> k < ls ! i \<Longrightarrow> sum_list (take i ls) + k < sum_list (ls :: nat list)"
proof (induction ls arbitrary: i)
  case (Cons l ls)
  then show ?case by (cases i) (auto simp: add.assoc)
qed simp

lemma sum_months: "sum_list (months y) = ylen y"
  by (simp add: months_def ylen_def)

lemma date_of_daynum:
  assumes "valid_date y m d"
  shows "date_of (daynum y m d) = (y, m, d)"
proof -
  have v: "1970 \<le> y" "m - 1 < length (months y)" "d - 1 < months y ! (m - 1)" "1 \<le> m" "1 \<le> d"
    using assms by (auto simp: valid_date_def months_def)
  let ?k = "sum_list (take (m - 1) (months y)) + (d - 1)"
  have "?k < ylen y" using month_in_year [OF v(2,3)] by (simp add: sum_months)
  moreover have "days_to_year 1970 = 0" by (simp add: days_to_year_def)
  ultimately have "split_year (daynum y m d) 1970 = (?k, y)"
    using split_year_add [of 1970 ?k "y - 1970"] v(1) by (simp add: daynum_def add.assoc)
  then show ?thesis
    using split_month_take [OF v(2,3), of 1] v(4,5) by (simp add: date_of_def)
qed

section \<open>The loops of the driver\<close>

lemma u16_and_3: "(y AND 3 = (0 :: u16)) \<longleftrightarrow> leap (unat y)"
proof -
  have "(3 :: u16) = mask 2" by (simp add: mask_eq_exp_minus_1)
  then have "y AND 3 = take_bit 2 y" by (simp only: take_bit_eq_mask)
  then show ?thesis by (simp only: word_unat_eq_iff unsigned_take_bit_eq) (simp add: leap_def take_bit_eq_mod)
qed

lemma unat_Days_in_year: "unat (Days_in_year y) = ylen (unat y)"
  by (simp add: Days_in_year_def ylen_def u16_and_3 DAYS_IN_A_YEAR_def DAYS_IN_A_LEAP_YEAR_def)

lemma year_loop_spec:
  assumes "unat Days = Suc n" and "unat yr + n < 65535"
  shows "\<exists>d y. year_loop Days yr = (d, y) \<and> unat d = Suc (fst (split_year n (unat yr))) \<and>
    unat y = snd (split_year n (unat yr))"
  using assms
proof (induction Days yr arbitrary: n rule: year_loop.induct)
  case (1 Days yr)
  show ?case
  proof (cases "Days > Days_in_year yr")
    case True
    then have le: "ylen (unat yr) \<le> n" using "1.prems"(1) by (simp add: word_less_nat_alt unat_Days_in_year)
    have y: "0 < ylen (unat yr)" by (simp add: ylen_def)
    have d: "unat (Days - Days_in_year yr) = Suc (n - ylen (unat yr))"
      using unat_sub [OF less_imp_le [OF True]] "1.prems"(1) le by (simp add: unat_Days_in_year)
    have yr: "unat (yr + 1) = Suc (unat yr)" using "1.prems"(2) by (simp add: unat_inc_u16)
    from "1.IH" [OF True d] "1.prems"(2) yr le y show ?thesis
      using True by (simp add: year_loop.simps [of Days] split_year.simps [of n "unat yr"])
  next
    case False
    then have "n < ylen (unat yr)" using "1.prems"(1) by (simp add: word_less_nat_alt unat_Days_in_year)
    then show ?thesis
      using False "1.prems" by (simp add: year_loop.simps [of Days] split_year.simps [of n "unat yr"])
  qed
qed

lemma month_loop_spec:
  assumes "unat Days = Suc n" and "n < sum_list ls" and "\<forall>l \<in> set ls. l < 256" and "unat x + length ls < 65535"
  shows "\<exists>d m. month_loop (map of_nat ls) x Days m0 = (d, m) \<and>
    unat d = Suc (fst (split_month ls (unat x) n)) \<and> unat m = snd (split_month ls (unat x) n)"
  using assms
proof (induction ls arbitrary: x Days n)
  case (Cons l ls)
  have l: "unat (ucast (of_nat l :: u8) :: u32) = l"
    using Cons.prems(3) by (simp add: unsigned_ucast_eq unsigned_of_nat take_bit_nat_eq_self)
  show ?case
  proof (cases "n < l")
    case True
    then show ?thesis using Cons.prems l by (simp add: word_le_nat_alt)
  next
    case False
    then have le: "ucast (of_nat l :: u8) \<le> Days" using Cons.prems l by (simp add: word_le_nat_alt)
    have d: "unat (Days - ucast (of_nat l :: u8)) = Suc (n - l)"
      using unat_sub [OF le] Cons.prems(1) l False by simp
    have x: "unat (x + 1) = Suc (unat x)" using Cons.prems(4) by (simp add: unat_inc_u16)
    from Cons.IH [OF d, of "x + 1"] Cons.prems False x l show ?thesis by (simp add: word_le_nat_alt)
  qed
qed simp

lemma month_tables: "tl (if (yr :: u16) AND 3 \<noteq> 0 then ULY else LY) = map of_nat (months (unat yr))"
  by (simp add: u16_and_3 ULY_def LY_def months_def)

text \<open>
  What the driver shows for a day number: the date of the day before, with the day of the month
  increased by one.
\<close>

lemma SecondToDateTime_date:
  assumes "unat s div 86400 = Suc n"
  shows "let dt' = RTC_SecondToDateTime s dt; (y, m, d) = date_of n in
    unat (year dt') = y \<and> unat (month dt') = m \<and> unat (day dt') = d + 1"
proof -
  let ?D = "s div SECONDS_IN_A_DAY"
  have D: "unat ?D = Suc n" using assms by (simp add: SECONDS_IN_A_DAY_def unat_div)
  have "unat s div 86400 \<le> 4294967295 div 86400"
    by (rule div_le_mono) (use unat_u32_lt [of s] in linarith)
  then have nb: "n < 49711" using assms by simp
  obtain d y where y: "year_loop ?D 1970 = (d, y)" "unat d = Suc (fst (split_year n 1970))"
      "unat y = snd (split_year n 1970)"
    using year_loop_spec [OF D, of 1970] nb by auto
  obtain k z where kz: "split_year n 1970 = (k, z)" by fastforce
  have k: "k < sum_list (months z)" using split_year_lt [of n 1970] by (simp add: kz sum_months)
  have "\<forall>l \<in> set (months z). l < 256" "length (months z) = 12" by (simp_all add: months_def)
  from month_loop_spec [of d k "months z" 1 "month dt"] this k y kz
  obtain d2 m where m: "month_loop (map of_nat (months z)) 1 d (month dt) = (d2, m)"
      "unat d2 = Suc (fst (split_month (months z) 1 k))" "unat m = snd (split_month (months z) 1 k)"
    by auto
  have "fst (split_month ls i j) \<le> j" for ls i j by (induction ls i j rule: split_month.induct) auto
  then have "unat d2 \<le> Suc k" using m(2) by simp
  moreover have "k < 366" using k by (simp add: sum_months ylen_def split: if_splits)
  ultimately have "unat (ucast (d2 + 1) :: u16) = unat d2 + 1"
    by (simp add: unsigned_ucast_eq unat_word_ariths take_bit_nat_eq_self)
  then show ?thesis
    using y m kz month_tables [of y] by (simp add: RTC_SecondToDateTime_def Let_def date_of_def split_beta)
qed

section \<open>Setting the clock\<close>

definition nat_date :: "RTC_DateTime_Type \<Rightarrow> bool" where
  "nat_date dt \<longleftrightarrow> valid_date (unat (year dt)) (unat (month dt)) (unat (day dt)) \<and>
     unat (hour dt) < 24 \<and> unat (minute dt) < 60 \<and> unat (second dt) < 60"

definition day_seconds :: "RTC_DateTime_Type \<Rightarrow> nat" where
  "day_seconds dt = unat (hour dt) * 3600 + unat (minute dt) * 60 + unat (second dt)"

text \<open>The day count of \<open>RTC_DateTimeToSecond\<close> over the natural numbers.\<close>

lemma day_count:
  assumes "valid_date y m d"
  shows "(y - 1970) * 365 + (y div 4 - 492) + unat (MONTH_DAYS ! m) + d - (if leap y \<and> m \<le> 2 then 1 else 0) =
    daynum y m d + 1"
proof -
  have v: "1970 \<le> y" "1 \<le> m" "m \<le> 12" "1 \<le> d" using assms by (simp_all add: valid_date_def)
  obtain k where k: "y = 1970 + k" using v(1) by (metis le_iff_add)
  have q: "y div 4 - 492 = (y - 1969) div 4 + (if leap y then 1 else 0)"
  proof -
    have "y div 4 = (Suc (Suc k) + 492 * 4) div 4" by (simp add: k)
    also have "\<dots> = 492 + Suc (Suc k) div 4" by (simp only: div_mult_self1)
    finally have "y div 4 = 492 + Suc (Suc k) div 4" .
    moreover have "leap y \<longleftrightarrow> Suc (Suc k) mod 4 = 0" unfolding leap_def k by presburger
    ultimately show ?thesis using div_Suc [of "Suc k" 4] by (simp add: k)
  qed
  have "unat (MONTH_DAYS ! m) + (if leap y \<and> 2 < m then 1 else 0) = sum_list (take (m - 1) (months y))"
  proof -
    from v(2,3) have "m = 1 \<or> m = 2 \<or> m = 3 \<or> m = 4 \<or> m = 5 \<or> m = 6 \<or> m = 7 \<or> m = 8 \<or> m = 9 \<or> m = 10 \<or> m = 11 \<or> m = 12"
      by arith
    then show ?thesis by (elim disjE) (simp_all add: MONTH_DAYS_def months_def)
  qed
  then show ?thesis
    using q v(4) by (auto simp: daynum_def days_to_year_def split: if_splits)
qed

lemma ucast_u32_of_nat: "(ucast (x :: 'a :: len word) :: u32) = of_nat (unat x)"
  by simp

lemma unat_of_nat_u32: "n < 4294967296 \<Longrightarrow> unat (of_nat n :: u32) = n"
  by (simp add: unat_of_nat)

lemma year_words:
  fixes yr :: u16
  assumes "1970 \<le> unat yr"
  shows "(ucast yr - 1970 :: u32) = of_nat (unat yr - 1970)"
    and "(ucast yr div 4 - 1970 div 4 :: u32) = of_nat (unat yr div 4 - 492)"
proof -
  show "(ucast yr - 1970 :: u32) = of_nat (unat yr - 1970)"
    using assms by (simp add: of_nat_diff)
  have u: "unat (ucast yr :: u32) = unat yr"
    unfolding ucast_u32_of_nat using unat_u16_lt [of yr] by (intro unat_of_nat_u32) linarith
  have "unat yr div 4 \<le> unat yr" by (rule div_le_dividend)
  then have "unat yr div 4 < 4294967296" using unat_u16_lt [of yr] by linarith
  then have "(ucast yr div 4 :: u32) = of_nat (unat yr div 4)"
    unfolding word_unat_eq_iff unat_div u by (simp add: unat_of_nat_u32)
  moreover have "492 \<le> unat yr div 4" using div_le_mono [OF assms, of 4] by simp
  moreover have "(1970 div 4 :: u32) = of_nat 492" by simp
  ultimately show "(ucast yr div 4 - 1970 div 4 :: u32) = of_nat (unat yr div 4 - 492)"
    by (simp only: of_nat_diff)
qed

lemma DateTimeToSecond_value:
  assumes "nat_date dt"
  shows "\<exists>s. RTC_DateTimeToSecond dt = Inr s \<and>
    unat s = 86400 * (daynum (unat (year dt)) (unat (month dt)) (unat (day dt)) + 1) + day_seconds dt + 1"
proof -
  let ?y = "unat (year dt)" and ?m = "unat (month dt)" and ?d = "unat (day dt)"
  have v: "valid_date ?y ?m ?d" using assms by (simp add: nat_date_def)
  then have y: "1970 \<le> ?y" "?y < 2100" and m: "?m < length MONTH_DAYS" "1 \<le> ?m" "?m \<le> 12" and d: "1 \<le> ?d"
    by (simp_all add: valid_date_def MONTH_DAYS_def)
  let ?n = "(?y - 1970) * 365 + (?y div 4 - 492) + unat (MONTH_DAYS ! ?m) + ?d"
  let ?k = "if leap ?y \<and> ?m \<le> 2 then 1 else 0 :: nat"
  let ?N = "(?n - ?k) * 86400 + day_seconds dt + 1"
  have k: "?k \<le> ?n" using d by simp
  have s4: "(ucast (year dt) - 1970) * DAYS_IN_A_YEAR + (ucast (year dt) div 4 - 1970 div 4) +
      ucast (MONTH_DAYS ! ?m) + ucast (day dt) = (of_nat ?n :: u32)"
    unfolding year_words [OF y(1)] unfolding ucast_u32_of_nat DAYS_IN_A_YEAR_def
    by (simp only: of_nat_add of_nat_mult of_nat_numeral)
  have le: "month dt \<le> 2 \<longleftrightarrow> ?m \<le> 2" by (simp add: word_le_nat_alt)
  have s5: "(if year dt AND 3 = 0 \<and> month dt \<le> 2 then of_nat ?n - 1 else of_nat ?n :: u32) = of_nat (?n - ?k)"
    using k by (simp add: u16_and_3 le of_nat_diff)
  have s6: "of_nat (?n - ?k) * SECONDS_IN_A_DAY + ucast (hour dt) * SECONDS_IN_A_HOUR +
      ucast (minute dt) * SECONDS_IN_A_MIN + ucast (second dt) + 1 = (of_nat ?N :: u32)"
    unfolding ucast_u32_of_nat day_seconds_def SECONDS_IN_A_DAY_def SECONDS_IN_A_HOUR_def SECONDS_IN_A_MIN_def
    by (simp only: of_nat_add of_nat_mult of_nat_numeral of_nat_1 add.assoc)
  have ser: "RTC_DateTimeToSecond dt = Inr (of_nat ?N)"
    unfolding RTC_DateTimeToSecond_def Let_def s4 s5 s6 by (simp only: m(1) if_True)
  have nk: "?n - ?k = daynum ?y ?m ?d + 1" by (rule day_count [OF v])
  have "(?y - 1970) * 365 \<le> 129 * 365" "?y div 4 - 492 \<le> 33" using y by auto
  moreover have "unat (MONTH_DAYS ! ?m) \<le> 334"
  proof -
    have "\<forall>x \<in> set MONTH_DAYS. unat x \<le> 334" by (simp add: MONTH_DAYS_def)
    then show ?thesis using m(1) nth_mem by blast
  qed
  moreover have "?d \<le> 31"
  proof -
    have "\<forall>x \<in> set (months ?y). x \<le> 31" by (simp add: months_def)
    moreover have "months ?y ! (?m - 1) \<in> set (months ?y)" using m(2,3) by (intro nth_mem) (simp add: months_def)
    ultimately show ?thesis using v by (auto simp: valid_date_def intro: le_trans)
  qed
  ultimately have "?n \<le> 47483" by linarith
  then have "?n - ?k \<le> 47483" by linarith
  moreover have "day_seconds dt < 86400" using assms by (simp add: nat_date_def day_seconds_def)
  ultimately have "?N < 4294967296" by linarith
  then have "unat (of_nat ?N :: u32) = ?N" by (rule unat_of_nat_u32)
  with ser nk show ?thesis by (metis mult.commute)
qed


section \<open>What the clock shows\<close>

lemma SecondToDateTime_time:
  "let dt' = RTC_SecondToDateTime s dt in day_seconds dt' = unat s mod 86400 \<and>
    unat (hour dt') < 24 \<and> unat (minute dt') < 60 \<and> unat (second dt') < 60"
proof -
  let ?t = "unat s mod 86400"
  have h: "?t div 3600 < 24" by (rule less_mult_imp_div_less) simp
  have m: "?t mod 3600 div 60 < 60" by (rule less_mult_imp_div_less) simp
  have "?t div 3600 * 3600 + (?t mod 3600 div 60 * 60 + ?t mod 3600 mod 60) = ?t" by simp
  moreover have "?t mod 3600 mod 60 < 60" by simp
  moreover have "unat (ucast (s mod 86400 div 3600) :: u16) = ?t div 3600"
    using h by (simp add: unsigned_ucast_eq unat_div unat_mod take_bit_nat_eq_self)
  moreover have "unat (ucast (s mod 86400 mod 3600 div 60) :: u16) = ?t mod 3600 div 60"
    using m by (simp add: unsigned_ucast_eq unat_div unat_mod take_bit_nat_eq_self)
  moreover have "unat (ucast (s mod 86400 mod 3600 mod 60) :: u8) = ?t mod 3600 mod 60"
    using \<open>?t mod 3600 mod 60 < 60\<close> by (simp add: unsigned_ucast_eq unat_mod take_bit_nat_eq_self)
  ultimately show ?thesis
    using h m
    by (simp only: RTC_SecondToDateTime_def Let_def split_beta RTC_DateTime_Type.select_convs day_seconds_def
        SECONDS_IN_A_DAY_def SECONDS_IN_A_HOUR_def SECONDS_IN_A_MIN_def add.assoc simp_thms)
qed

lemma day_split:
  assumes "u = 86400 * n + t" and "t < (86400 :: nat)"
  shows "u div 86400 = n" and "u mod 86400 = t"
  using assms by (simp_all only: div_mult_self4 mod_mult_self4 div_less mod_less)

text \<open>
  C26: For a counter value in the day of a valid date other than the first of a month,
  \<open>RTC_SecondToDateTime\<close> shows exactly that date and the time of day.
\<close>

theorem SecondToDateTime_correct:
  assumes "valid_date y m d" and "1 < d" and "unat s = 86400 * daynum y m d + t" and "t < 86400"
  shows "let dt' = RTC_SecondToDateTime s dt in
    unat (year dt') = y \<and> unat (month dt') = m \<and> unat (day dt') = d \<and> day_seconds dt' = t"
proof -
  have v: "valid_date y m (d - 1)" using assms(1,2) by (auto simp: valid_date_def)
  have "daynum y m d = Suc (daynum y m (d - 1))" using assms(2) by (simp add: daynum_def)
  then have "unat s div 86400 = Suc (daynum y m (d - 1))" "unat s mod 86400 = t"
    using day_split [OF assms(3,4)] by simp_all
  from SecondToDateTime_date [OF this(1), of dt] SecondToDateTime_time [of s dt] this(2) assms(2)
  show ?thesis using date_of_daynum [OF v] by (simp add: Let_def)
qed

theorem SecondToDateTime_correct_witness:
  "let dt' = RTC_SecondToDateTime 1524139200 \<lparr>year = 0, month = 0, day = 0, hour = 0, minute = 0, second = 0\<rparr> in
    unat (year dt') = 2018 \<and> unat (month dt') = 4 \<and> unat (day dt') = 19 \<and> day_seconds dt' = 43200"
proof (rule SecondToDateTime_correct)
  show "valid_date 2018 4 19" by (simp add: valid_date_def months_def)
  show "unat (1524139200 :: u32) = 86400 * daynum 2018 4 19 + 43200"
    by (simp add: daynum_def days_to_year_def months_def leap_def)
qed simp_all

text \<open>
  On the day after the last of a month, which is the first of the next month, the driver stays
  in the old month and shows a day that the month does not have.
\<close>

theorem SecondToDateTime_first_of_month:
  assumes "valid_date y m (months y ! (m - 1))" and "unat s div 86400 = daynum y m (months y ! (m - 1)) + 1"
  shows "let dt' = RTC_SecondToDateTime s dt in
    unat (year dt') = y \<and> unat (month dt') = m \<and> unat (day dt') = months y ! (m - 1) + 1 \<and> \<not> nat_date dt'"
  using SecondToDateTime_date [of s _ dt] assms(2) date_of_daynum [OF assms(1)]
  by (auto simp: Let_def nat_date_def valid_date_def)

theorem SecondToDateTime_first_of_month_witness:
  "let dt' = RTC_SecondToDateTime 2678400 \<lparr>year = 0, month = 0, day = 0, hour = 0, minute = 0, second = 0\<rparr> in
    unat (year dt') = 1970 \<and> unat (month dt') = 1 \<and> unat (day dt') = months 1970 ! (1 - 1) + 1 \<and> \<not> nat_date dt'"
proof (rule SecondToDateTime_first_of_month)
  show "valid_date 1970 1 (months 1970 ! (1 - 1))" by (simp add: valid_date_def months_def)
  show "unat (2678400 :: u32) div 86400 = daynum 1970 1 (months 1970 ! (1 - 1)) + 1"
    by (simp add: daynum_def days_to_year_def months_def)
qed

lemma daynum_bound:
  assumes "valid_date y m d"
  shows "daynum y m d \<le> 47483"
proof -
  have v: "1970 \<le> y" "y < 2100" "m - 1 < length (months y)" "d - 1 < months y ! (m - 1)"
    using assms by (auto simp: valid_date_def months_def)
  have "sum_list (take (m - 1) (months y)) + (d - 1) < 367"
    using month_in_year [OF v(3,4)] by (simp add: sum_months ylen_def split: if_splits)
  moreover have "days_to_year y \<le> 47117" using v(1,2) by (auto simp: days_to_year_def)
  ultimately show ?thesis by (simp add: daynum_def)
qed

text \<open>
  Setting the clock to a valid date and time and reading it back shows the same month and time
  of day eight hours and one second later, but the day of the month increased by one.
\<close>

theorem SetTime_GetTime_drift:
  assumes "nat_date dt" and "day_seconds dt + 28801 < 86400"
  shows "\<exists>c. RTC_SetTime dt = Inr c \<and> (let dt' = RTC_GetTime c dt0 in
    year dt' = year dt \<and> month dt' = month dt \<and> day dt' = day dt + 1 \<and> day_seconds dt' = day_seconds dt + 28801)"
proof -
  let ?n = "daynum (unat (year dt)) (unat (month dt)) (unat (day dt))"
  have v: "valid_date (unat (year dt)) (unat (month dt)) (unat (day dt))" using assms(1) by (simp add: nat_date_def)
  obtain c where c: "RTC_DateTimeToSecond dt = Inr c" "unat c = 86400 * (?n + 1) + day_seconds dt + 1"
    using DateTimeToSecond_value [OF assms(1)] by blast
  have "unat (c + 28800) = unat c + 28800"
    using c(2) assms(2) daynum_bound [OF v] by (simp add: unat_word_ariths)
  then have "unat (c + 28800) = 86400 * Suc ?n + (day_seconds dt + 28801)" using c(2) by simp
  then have s: "unat (c + 28800) div 86400 = Suc ?n" "unat (c + 28800) mod 86400 = day_seconds dt + 28801"
    by (rule day_split [OF _ assms(2)])+
  have "unat (day dt) \<le> 31"
    using v by (auto simp: valid_date_def months_def nth_Cons split: nat.splits if_splits)
  then have d: "unat (day dt + 1) = unat (day dt) + 1" by (simp add: unat_inc_u16)
  from SecondToDateTime_date [OF s(1), of dt0] SecondToDateTime_time [of "c + 28800" dt0] s(2) d c(1)
  have "let dt' = RTC_GetTime c dt0 in
      year dt' = year dt \<and> month dt' = month dt \<and> day dt' = day dt + 1 \<and> day_seconds dt' = day_seconds dt + 28801"
    by (simp add: RTC_GetTime_def date_of_daynum [OF v] Let_def word_unat_eq_iff)
  then show ?thesis using c(1) by (simp add: RTC_SetTime_def)
qed

theorem SetTime_GetTime_drift_witness:
  "\<exists>c. RTC_SetTime \<lparr>year = 2018, month = 4, day = 19, hour = 7, minute = 35, second = 28\<rparr> = Inr c \<and>
    (let dt' = RTC_GetTime c \<lparr>year = 0, month = 0, day = 0, hour = 0, minute = 0, second = 0\<rparr> in
     year dt' = 2018 \<and> month dt' = 4 \<and> day dt' = 20 \<and> day_seconds dt' = 27328 + 28801)"
  using SetTime_GetTime_drift [of "\<lparr>year = 2018, month = 4, day = 19, hour = 7, minute = 35, second = 28\<rparr>"
      "\<lparr>year = 0, month = 0, day = 0, hour = 0, minute = 0, second = 0\<rparr>"]
  by (simp add: nat_date_def valid_date_def months_def day_seconds_def)

section \<open>The weekday\<close>

lemma mdays_sum:
  assumes "1 \<le> m" and "m \<le> 12"
  shows "sum_list (take m mdays) + (if 2 < m \<and> leap y then 1 else 0) = int (sum_list (take (m - 1) (months y)))"
proof -
  from assms have "m = 1 \<or> m = 2 \<or> m = 3 \<or> m = 4 \<or> m = 5 \<or> m = 6 \<or> m = 7 \<or> m = 8 \<or> m = 9 \<or> m = 10 \<or> m = 11 \<or> m = 12"
    by arith
  then show ?thesis by (elim disjE) (simp_all add: mdays_def months_def)
qed


lemma century:
  assumes "1969 \<le> (z :: int)" and "z < 2099"
  shows "z div 400 - z div 100 = - 15"
proof (cases "z < 2000")
  case True
  then have "z div 400 = 4" "z div 100 = 19"
    using assms int_div_pos_eq [of z 400 4 "z - 1600"] int_div_pos_eq [of z 100 19 "z - 1900"] by simp_all
  then show ?thesis by simp
next
  case False
  then have "z div 400 = 5" "z div 100 = 20"
    using assms int_div_pos_eq [of z 400 5 "z - 2000"] int_div_pos_eq [of z 100 20 "z - 2000"] by simp_all
  then show ?thesis by simp
qed

lemma smod_mod: "0 \<le> (a :: int) \<Longrightarrow> 0 < b \<Longrightarrow> a smod b = a mod b"
  by (cases "a = 0") (simp_all add: signed_modulo_int_def)

lemma gregorian_leap:
  assumes "1970 \<le> y" and "y < 2100"
  shows "(int y smod 400 = 0 \<or> int y AND 3 = 0 \<and> int y smod 100 \<noteq> 0) \<longleftrightarrow> leap y"
proof -
  have "int y AND 3 = int y mod 4" using take_bit_eq_mask [of 2 "int y"] by (simp add: take_bit_eq_mod mask_eq_exp_minus_1)
  moreover have "int y smod 400 = int y mod 400" "int y smod 100 = int y mod 100"
    by (rule smod_mod; simp)+
  moreover have "int y = 2000" if "int y mod 100 = 0"
  proof -
    have "int y = 100 * (int y div 100)" using that by (metis add.right_neutral mult_div_mod_eq)
    moreover from this have "19 < int y div 100" "int y div 100 < 21" using assms by linarith+
    ultimately show ?thesis by linarith
  qed
  moreover have "int y mod 400 = 0 \<Longrightarrow> int y mod 100 = 0" using mod_mod_cancel [of 100 400 "int y"] by simp
  moreover have "int y mod 4 = 0 \<longleftrightarrow> leap y" by (metis leap_def of_nat_0_eq_iff of_nat_mod of_nat_numeral)
  ultimately show ?thesis by (auto simp: leap_def)
qed

text \<open>
  For a valid date \<open>RTC_GetWeek\<close> returns the day of the week, counted from Sunday: the day
  number from 1970-01-01, a Thursday, modulo seven.
\<close>

theorem GetWeek_correct:
  assumes "valid_date y m d"
  shows "RTC_GetWeek (int y) (int m) (int d) = Inr (int ((4 + daynum y m d) mod 7))"
proof -
  have v: "1970 \<le> y" "y < 2100" "1 \<le> m" "m \<le> 12" "1 \<le> d" using assms by (simp_all add: valid_date_def)
  obtain k where k: "y = 1970 + k" using v(1) by (metis le_iff_add)
  let ?S = "int (sum_list (take (m - 1) (months y)))" and ?q = "int (Suc k div 4)"
  have q: "(int y - 1) div 4 = 492 + ?q"
    using div_mult_self1 [of 4 "int (Suc k)" 492] by (simp add: k zdiv_int)
  have n: "int (4 + daynum y m d) = 3 + 365 * int k + ?q + ?S + int d"
    using v(5) by (simp add: daynum_def days_to_year_def k)
  have c: "(int y - 1) div 400 = (int y - 1) div 100 - 15" using century [of "int y - 1"] v by simp
  have sum: "sum_list (take m mdays) + (if 2 < m \<and> leap y then 1 else 0) = ?S" by (rule mdays_sum [OF v(3,4)])
  let ?w = "int y - 1 + (int y - 1) div 4 - (int y - 1) div 100 + (int y - 1) div 400 + (int d + ?S)"
  have w: "?w = int (4 + daynum y m d) + 7 * (349 - 52 * int k)" unfolding n q c by (simp add: k)
  then have mod: "?w mod 7 = int ((4 + daynum y m d) mod 7)" by (simp only: mod_mult_self2 zmod_int of_nat_numeral)
  have pos: "0 \<le> ?w" unfolding q c by (simp add: k)
  have sd: "(int y - 1) sdiv b = (int y - 1) div b" if "0 < b" for b
    using that v(1) by (simp add: signed_divide_int_def sgn_if)
  have smod: "?w smod 7 = ?w mod 7" using pos by (rule smod_mod) simp
  have d2: "(if int m > 2 \<and> leap y then int d + sum_list (take m mdays) + 1 else int d + sum_list (take m mdays)) = int d + ?S"
    using sum by (simp split: if_splits)
  have "length mdays = 12" by (simp add: mdays_def)
  then show ?thesis
    using v(4) mod smod d2 by (simp add: RTC_GetWeek_def Let_def gregorian_leap [OF v(1,2)] sd)
qed

theorem GetWeek_correct_witness: "RTC_GetWeek 2018 4 19 = Inr 4"
  using GetWeek_correct [of 2018 4 19]
  by (simp add: valid_date_def months_def daynum_def days_to_year_def leap_def)

section \<open>The time string\<close>

lemma str_datetime_14:
  "str_datetime [a, b, c, d, e, f, g, h, i, j, k, l, m, n] = Inr
    \<lparr>year = of_int ((uint a - 48) * 1000 + (uint b - 48) * 100 + (uint c - 48) * 10 + (uint d - 48)),
     month = of_int ((uint e - 48) * 10 + (uint f - 48)), day = of_int ((uint g - 48) * 10 + (uint h - 48)),
     hour = of_int ((uint i - 48) * 10 + (uint j - 48)), minute = of_int ((uint k - 48) * 10 + (uint l - 48)),
     second = of_int ((uint m - 48) * 10 + (uint n - 48))\<rparr>"
  by (simp add: str_datetime_def dig_def)

lemma dec_4:
  assumes "1000 \<le> n" and "n < 10000"
  shows "dec n = [of_nat (48 + n div 1000), of_nat (48 + n div 100 mod 10), of_nat (48 + n div 10 mod 10),
    of_nat (48 + n mod 10)]"
proof -
  have "\<not> n < 10" "\<not> n div 10 < 10" "\<not> n div 10 div 10 < 10" "n div 10 div 10 div 10 < 10"
    using assms by linarith+
  then show ?thesis
    by (simp add: dec.simps [of n] dec.simps [of "n div 10"] dec.simps [of "n div 100"] dec.simps [of "n div 1000"]
        div_mult2_eq [symmetric])
qed

lemma dec_pad_2:
  assumes "n < 100"
  shows "dec_pad 2 n = [of_nat (48 + n div 10), of_nat (48 + n mod 10)]"
  using assms by (auto simp: dec_pad_def Let_def dec.simps [of n] dec.simps [of "n div 10"])

lemma digit_byte:
  assumes "n < 10"
  shows "uint (of_nat (48 + n) :: u8) - 48 = int n"
proof -
  have "uint (of_nat (48 + n) :: u8) = int (48 + n)"
    unfolding unsigned_of_nat using assms by (simp add: take_bit_nat_eq_self del: of_nat_add)
  then show ?thesis by simp
qed

lemma dec_digit_sum: "int (n div 10) * 10 + int (n mod 10) = int n"
  by (metis div_mult_mod_eq of_nat_add of_nat_mult of_nat_numeral)

lemma two_digits:
  assumes "n < 100"
  shows "(uint (of_nat (48 + n div 10) :: u8) - 48) * 10 + (uint (of_nat (48 + n mod 10) :: u8) - 48) = int n"
proof -
  have "n div 10 < 10" "n mod 10 < 10" using assms by auto
  from this [THEN digit_byte] show ?thesis by (simp only: dec_digit_sum)
qed

lemma four_digits:
  assumes "n < 10000"
  shows "(uint (of_nat (48 + n div 1000) :: u8) - 48) * 1000 + (uint (of_nat (48 + n div 100 mod 10) :: u8) - 48) * 100
    + (uint (of_nat (48 + n div 10 mod 10) :: u8) - 48) * 10 + (uint (of_nat (48 + n mod 10) :: u8) - 48) = int n"
proof -
  have d: "n div 1000 < 10" "n div 100 mod 10 < 10" "n div 10 mod 10 < 10" "n mod 10 < 10" using assms by auto
  have "int (n div 1000) * 10 + int (n div 100 mod 10) = int (n div 100)"
    using dec_digit_sum [of "n div 100"] by (simp add: div_mult2_eq [symmetric])
  moreover have "int (n div 100) * 10 + int (n div 10 mod 10) = int (n div 10)"
    using dec_digit_sum [of "n div 10"] by (simp add: div_mult2_eq [symmetric])
  ultimately have "int (n div 1000) * 1000 + int (n div 100 mod 10) * 100 + int (n div 10 mod 10) * 10 + int (n mod 10) = int n"
    using dec_digit_sum [of n] by linarith
  then show ?thesis by (simp only: d [THEN digit_byte])
qed

text \<open>
  The time string written by \<open>RTC_Get_str\<close> is read back by \<open>RTC_StrSetTime\<close> to the
  same date and time, for four-digit years and fields of two digits.
\<close>

theorem time_string_roundtrip:
  assumes "1000 \<le> year dt" and "year dt < 10000" and "month dt < 100" and "day dt < 100" and "hour dt < 100"
    and "minute dt < 100" and "second dt < 100"
  shows "str_datetime (datetime_str dt) = Inr dt"
proof -
  have n: "1000 \<le> unat (year dt)" "unat (year dt) < 10000" "unat (month dt) < 100" "unat (day dt) < 100"
      "unat (hour dt) < 100" "unat (minute dt) < 100" "unat (second dt) < 100"
    using assms by (simp_all add: word_le_nat_alt word_less_nat_alt)
  have w: "of_int (int (unat x)) = (x :: 'a :: len word)" for x by simp
  show ?thesis
    unfolding datetime_str_def dec_4 [OF n(1,2)] dec_pad_2 [OF n(3)] dec_pad_2 [OF n(4)] dec_pad_2 [OF n(5)]
      dec_pad_2 [OF n(6)] dec_pad_2 [OF n(7)]
    by (simp only: append.simps str_datetime_14 four_digits [OF n(2)] two_digits n w) simp
qed

theorem time_string_roundtrip_witness:
  "str_datetime (datetime_str \<lparr>year = 2018, month = 4, day = 19, hour = 7, minute = 35, second = 28\<rparr>) =
    Inr \<lparr>year = 2018, month = 4, day = 19, hour = 7, minute = 35, second = 28\<rparr>"
  by (rule time_string_roundtrip) simp_all

end
