(* ===== verification/Rtc_Order.thy ===== *)
theory Rtc_Order
  imports Rtc_Calendar "HOL-Library.Product_Lexorder"
begin

text \<open>
  Dates and times in their order: records of \<open>RTC_DateTime_Type\<close> are an instance of \<open>linorder\<close>, field by field from the year on, and
  the seconds counter of the driver orders them in the same way.
\<close>

section \<open>The order of dates\<close>

definition date_key :: "'a RTC_DateTime_Type_scheme \<Rightarrow> u16 \<times> u16 \<times> u16 \<times> u16 \<times> u16 \<times> u8 \<times> 'a" where
  "date_key dt = (year dt, month dt, day dt, hour dt, minute dt, second dt, RTC_DateTime_Type.more dt)"

lemma date_key_eq: "date_key a = date_key b \<Longrightarrow> a = b"
  by (cases a; cases b) (simp add: date_key_def)

instantiation RTC_DateTime_Type_ext :: (linorder) linorder
begin

definition less_eq_RTC_DateTime_Type_ext :: "'a RTC_DateTime_Type_scheme \<Rightarrow> 'a RTC_DateTime_Type_scheme \<Rightarrow> bool" where
  "a \<le> b \<longleftrightarrow> date_key a \<le> date_key b"

definition less_RTC_DateTime_Type_ext :: "'a RTC_DateTime_Type_scheme \<Rightarrow> 'a RTC_DateTime_Type_scheme \<Rightarrow> bool" where
  "a < b \<longleftrightarrow> date_key a < date_key b"

instance
  by standard (auto simp: less_eq_RTC_DateTime_Type_ext_def less_RTC_DateTime_Type_ext_def intro: date_key_eq)

end

section \<open>Days and seconds in their order\<close>

lemma months_before:
  assumes "i < j" and "j < length ls" and "k < ls ! i"
  shows "sum_list (take i ls) + k < sum_list (take j (ls :: nat list))"
proof -
  have "take i (take j ls) = take i ls" "i < length (take j ls)" "k < take j ls ! i" using assms by (simp_all add: min_def)
  then show ?thesis using month_in_year [of i "take j ls" k] by simp
qed

lemma days_to_year_mono: "y \<le> z \<Longrightarrow> days_to_year y \<le> days_to_year z"
  by (simp add: days_to_year_def add_mono div_le_mono)

lemma daynum_less:
  assumes "valid_date y m d" and "valid_date z n e"
    and "y < z \<or> y = z \<and> (m < n \<or> m = n \<and> d < e)"
  shows "daynum y m d < daynum z n e"
proof -
  have v: "1970 \<le> y" "m - 1 < length (months y)" "d - 1 < months y ! (m - 1)" "1 \<le> m" "1 \<le> d"
    and w: "n - 1 < length (months z)" "1 \<le> n"
    using assms(1,2) by (auto simp: valid_date_def months_def)
  consider "y < z" | "y = z" "m < n" | "y = z" "m = n" "d < e" using assms(3) by blast
  then show ?thesis
  proof cases
    case 1
    have "daynum y m d < days_to_year (Suc y)"
      using month_in_year [OF v(2,3)] days_to_year_Suc [OF v(1)] by (simp add: daynum_def sum_months)
    also have "\<dots> \<le> days_to_year z" using 1 by (intro days_to_year_mono) simp
    finally show ?thesis by (simp add: daynum_def)
  next
    case 2
    have "m - 1 < n - 1" using 2 v(4) by simp
    from months_before [OF this _ v(3)] w(1) 2 show ?thesis by (simp add: daynum_def)
  next
    case 3
    then show ?thesis using v(5) by (simp add: daynum_def)
  qed
qed

text \<open>The seconds of a date and time, as the counter keeps them.\<close>

definition clock :: "RTC_DateTime_Type \<Rightarrow> nat" where
  "clock dt = 86400 * daynum (unat (year dt)) (unat (month dt)) (unat (day dt)) + day_seconds dt"

lemma day_seconds_less: "nat_date dt \<Longrightarrow> day_seconds dt < 86400"
  by (simp add: nat_date_def day_seconds_def)

lemma clock_less:
  assumes "nat_date a" and "nat_date b" and "a < b"
  shows "clock a < clock b"
proof -
  let ?da = "daynum (unat (year a)) (unat (month a)) (unat (day a))" and ?db = "daynum (unat (year b)) (unat (month b)) (unat (day b))"
  have lex: "year a < year b \<or> year a = year b \<and> (month a < month b \<or> month a = month b \<and> (day a < day b \<or> day a = day b \<and>
      (hour a < hour b \<or> hour a = hour b \<and> (minute a < minute b \<or> minute a = minute b \<and> second a < second b))))"
    using assms(3) by (auto simp: less_RTC_DateTime_Type_ext_def date_key_def less_prod_def)
  show ?thesis
  proof (cases "year a = year b \<and> month a = month b \<and> day a = day b")
    case True
    then have "hour a < hour b \<or> hour a = hour b \<and> (minute a < minute b \<or> minute a = minute b \<and> second a < second b)"
      using lex by auto
    then have "day_seconds a < day_seconds b"
      using assms(1,2) by (auto simp: day_seconds_def nat_date_def word_less_nat_alt)
    then show ?thesis using True by (simp add: clock_def)
  next
    case False
    then have "?da < ?db" using lex assms(1,2) by (intro daynum_less) (auto simp: nat_date_def word_less_nat_alt)
    then show ?thesis using day_seconds_less [OF assms(1)] by (simp add: clock_def)
  qed
qed

lemma DateTimeToSecond_clock:
  assumes "nat_date dt"
  obtains s where "RTC_DateTimeToSecond dt = Inr s" "unat s = clock dt + 86401"
  using DateTimeToSecond_value [OF assms] by (auto simp: clock_def)

text \<open>
  C27: the seconds counter orders dates as the calendar does: of two valid dates and times from 1970 to 2099 the earlier one has the smaller
  counter value, and different ones have different values, so that the counter does not wrap around in these years.
\<close>

theorem counter_orders_dates:
  assumes "nat_date a" and "nat_date b"
  shows "\<exists>s t. RTC_DateTimeToSecond a = Inr s \<and> RTC_DateTimeToSecond b = Inr t \<and> (s < t \<longleftrightarrow> a < b) \<and> (s = t \<longleftrightarrow> a = b)"
proof -
  obtain s t where s: "RTC_DateTimeToSecond a = Inr s" "unat s = clock a + 86401"
    and t: "RTC_DateTimeToSecond b = Inr t" "unat t = clock b + 86401"
    using DateTimeToSecond_clock [OF assms(1)] DateTimeToSecond_clock [OF assms(2)] by metis
  consider "a < b" | "a = b" | "b < a" by (rule linorder_cases)
  then have "(clock a < clock b \<longleftrightarrow> a < b) \<and> (clock a = clock b \<longleftrightarrow> a = b)"
    using clock_less [OF assms] clock_less [OF assms(2,1)] by cases auto
  moreover have "s < t \<longleftrightarrow> clock a < clock b" "s = t \<longleftrightarrow> clock a = clock b"
    using s(2) t(2) by (simp_all add: word_less_nat_alt word_unat_eq_iff)
  ultimately show ?thesis using s(1) t(1) by simp
qed

theorem counter_orders_dates_witness:
  "\<exists>s t. RTC_DateTimeToSecond \<lparr>year = 2018, month = 2, day = 28, hour = 23, minute = 59, second = 59\<rparr> = Inr s \<and>
    RTC_DateTimeToSecond \<lparr>year = 2018, month = 3, day = 1, hour = 0, minute = 0, second = 0\<rparr> = Inr t \<and> s < t"
proof -
  let ?a = "\<lparr>year = 2018, month = 2, day = 28, hour = 23, minute = 59, second = 59\<rparr> :: RTC_DateTime_Type"
  let ?b = "\<lparr>year = 2018, month = 3, day = 1, hour = 0, minute = 0, second = 0\<rparr> :: RTC_DateTime_Type"
  have "nat_date ?a" "nat_date ?b" by (simp_all add: nat_date_def valid_date_def months_def leap_def)
  moreover have "?a < ?b" by (simp add: less_RTC_DateTime_Type_ext_def date_key_def less_prod_def)
  ultimately show ?thesis using counter_orders_dates [of ?a ?b] by auto
qed

end
