(* ===== verification/Board.thy ===== *)
theory Board
  imports IBox_Prelude
begin

text \<open>
  The board configuration \<open>ibox_config\<close> (\<open>Drivers/BSP/inc/ibox_board.h\<close>,
  \<open>Drivers/BSP/src/ibox_board.c\<close>) and the delays of \<open>Drivers/BSP/src/ibox_sys.c\<close>.
  A \<open>char\<close> array is the list of its bytes, so a string in it ends at the first NUL.
\<close>

section \<open>Configuration\<close>

definition MAX_IP_LEN :: nat where "MAX_IP_LEN = 16"
definition MAX_MAC_LEN :: nat where "MAX_MAC_LEN = 18"
definition MAX_DSN_LEN :: nat where "MAX_DSN_LEN = 20"
definition MAX_WIFI_SSID_LEN :: nat where "MAX_WIFI_SSID_LEN = 10"
definition MAX_WIFI_PASS_LEN :: nat where "MAX_WIFI_PASS_LEN = 11"
definition MAX_APN_LEN :: nat where "MAX_APN_LEN = 8"

lemmas max_lens = MAX_IP_LEN_def MAX_MAC_LEN_def MAX_DSN_LEN_def MAX_WIFI_SSID_LEN_def
  MAX_WIFI_PASS_LEN_def MAX_APN_LEN_def

record IBOX_CONFIG =
  device_sn :: u32
  server_ip :: bytes
  server_dsn :: bytes
  server_port :: u16
  local_port :: u16
  gsm_apn :: bytes
  eth_mac :: bytes
  dns_ip :: bytes
  use_dns :: u8
  period :: u8
  wifi_ssid :: bytes
  wifi_password :: bytes
  wifi_mac :: bytes
  wifi_ip :: bytes
  gprs_imei :: "64 word"
  mqtt_username :: bytes
  mqtt_password :: bytes

text \<open>
  An array of a given length initialised by a string literal: the rest of the array is zero, and
  a literal that is too long is cut (C drops at most its NUL; nothing here is longer).
\<close>

definition char_array :: "nat \<Rightarrow> string \<Rightarrow> bytes" where
  "char_array n s = take n (str_bytes s @ replicate n 0)"

definition ibox_config :: IBOX_CONFIG where
  "ibox_config =
     \<lparr>device_sn = 888888888, server_ip = char_array MAX_IP_LEN ''192.168.199.138'',
      server_dsn = char_array MAX_DSN_LEN ''lot.zxbike.cc'', server_port = 61613, local_port = 8000,
      gsm_apn = char_array MAX_APN_LEN ''CMNET'', eth_mac = char_array MAX_MAC_LEN ''00:7B:04:AA:58:69'',
      dns_ip = char_array MAX_IP_LEN ''114.114.114.114'', use_dns = 0, period = 5,
      wifi_ssid = char_array MAX_WIFI_SSID_LEN ''ziroom102'',
      wifi_password = char_array MAX_WIFI_PASS_LEN ''4001001111'',
      wifi_mac = char_array MAX_MAC_LEN ''0'', wifi_ip = char_array MAX_IP_LEN ''0'',
      gprs_imei = 865691033833807, mqtt_username = char_array 20 ''admin'',
      mqtt_password = char_array 20 ''password''\<rparr>"

text \<open>Every string of a well-formed configuration is terminated inside its array.\<close>

definition cstr_field :: "nat \<Rightarrow> bytes \<Rightarrow> bool" where
  "cstr_field n b \<longleftrightarrow> length b = n \<and> 0 \<in> set b"

definition config_wf :: "IBOX_CONFIG \<Rightarrow> bool" where
  "config_wf cfg \<longleftrightarrow> cstr_field MAX_IP_LEN (server_ip cfg) \<and> cstr_field MAX_DSN_LEN (server_dsn cfg) \<and>
     cstr_field MAX_APN_LEN (gsm_apn cfg) \<and> cstr_field MAX_MAC_LEN (eth_mac cfg) \<and>
     cstr_field MAX_IP_LEN (dns_ip cfg) \<and> cstr_field MAX_WIFI_SSID_LEN (wifi_ssid cfg) \<and>
     cstr_field MAX_WIFI_PASS_LEN (wifi_password cfg) \<and> cstr_field MAX_MAC_LEN (wifi_mac cfg) \<and>
     cstr_field MAX_IP_LEN (wifi_ip cfg) \<and> cstr_field 20 (mqtt_username cfg) \<and> cstr_field 20 (mqtt_password cfg)"

lemma ibox_config_wf: "config_wf ibox_config"
  by code_simp

section \<open>C strings in arrays\<close>

text \<open>
  The string an array holds.  Without a NUL in the array the string functions read past it.
\<close>

definition string_of :: "bytes \<Rightarrow> bytes c_result" where
  "string_of b = (if 0 \<in> set b then Inr (cstr b) else Inl OutOfBounds)"

text \<open>\<open>sprintf\<close> into an array: the formatted text and its NUL must fit.\<close>

definition sprintf_into :: "nat \<Rightarrow> bytes \<Rightarrow> bytes c_result" where
  "sprintf_into n txt = (if length txt < n then Inr txt else Inl OutOfBounds)"

lemma length_cstr_lt: "0 \<in> set b \<Longrightarrow> length (cstr b) < length b"
  unfolding cstr_def by (induction b) auto

lemma string_of_field: "cstr_field n b \<Longrightarrow> string_of b = Inr (cstr b) \<and> length (cstr b) < n"
  using length_cstr_lt [of b] by (auto simp: string_of_def cstr_field_def)

lemma config_strings:
  assumes "config_wf cfg"
  shows "string_of (server_ip cfg) = Inr (cstr (server_ip cfg))" "string_of (server_dsn cfg) = Inr (cstr (server_dsn cfg))"
    "string_of (gsm_apn cfg) = Inr (cstr (gsm_apn cfg))" "string_of (wifi_ssid cfg) = Inr (cstr (wifi_ssid cfg))"
    "string_of (wifi_password cfg) = Inr (cstr (wifi_password cfg))"
  using assms by (auto simp: config_wf_def dest!: string_of_field)

section \<open>Delays\<close>

text \<open>
  \<open>sys_delay_ms\<close> with the RTOS: what the delay does, and how long.  \<open>critical\<close> is the
  result of \<open>rt_critical_level()\<close>.
\<close>

datatype delay = Rt_thread_delay u32 | Delay_ms u32

definition RT_TICK_PER_SECOND :: u32 where "RT_TICK_PER_SECOND = 100"

definition sys_delay_ms :: "u16 \<Rightarrow> u32 \<Rightarrow> delay" where
  "sys_delay_ms critical ms =
     (let delay_tick = (if ms < 10 then 1 else ms div (1000 div RT_TICK_PER_SECOND))
      in if critical \<noteq> 0 then Rt_thread_delay delay_tick else Delay_ms ms)"

end
