(* ===== verification/At_Common.thy ===== *)
theory At_Common
  imports Uart Net_Layer Board
begin

text \<open>
  What the AT-command drivers of the GPRS and the WiFi module have in common: the line buffer a
  state machine fills from UART3, searching and parsing in it, the actions of a step, and the
  contract of a modem driver with the facts that hold of every run.
\<close>

section \<open>Lines and replies\<close>

text \<open>
  The static array of a state machine after \<open>memset\<close> and \<open>get_line_from_uart3\<close>: the line, its
  NUL, and zeros.  A \<open>char\<close> is unsigned, as in the ARM ABI.
\<close>

definition rx_array :: "bytes \<Rightarrow> bytes" where
  "rx_array l = l @ replicate (UART3_RX_SIZE - length l) 0"

definition find_str :: "bytes \<Rightarrow> string \<Rightarrow> nat option" where
  "find_str rx pat = strstr (cstr rx) (str_bytes pat)"

definition has_str_in :: "bytes \<Rightarrow> string \<Rightarrow> bool" where
  "has_str_in rx pat \<longleftrightarrow> find_str rx pat \<noteq> None"

text \<open>
  The parsing loops \<^verbatim>\<open>while (*p != sep) { n = n * 10 + (*p - '0'); p++; }\<close> over a
  \<open>uint16_t\<close>: the number and the bytes after the separator.  Without a separator the pointer leaves
  the array.
\<close>

fun parse_until :: "u8 \<Rightarrow> u16 \<Rightarrow> bytes \<Rightarrow> (u16 \<times> bytes) c_result" where
  "parse_until sep n [] = Inl OutOfBounds"
| "parse_until sep n (b # bs) =
     (if b = sep then Inr (n, bs) else parse_until sep (n * 10 + (ucast b - 48)) bs)"

section \<open>Steps\<close>

datatype at_action = Uart3_tx bytes | Sys_delay u32 | Kernel kcall

text \<open>
  What a step reads from outside: the successive results of \<open>get_sys_time_s()\<close>, and whether
  \<open>rt_sem_take\<close> in \<open>net_rx_write\<close> succeeds.
\<close>

record at_env =
  clk :: "nat \<Rightarrow> u32"
  rx_sem_ok :: bool

definition tx_cmd :: "string \<Rightarrow> at_action" where
  "tx_cmd s = Uart3_tx (uart3_send_str (at_cmd s))"

definition tx_str :: "string \<Rightarrow> at_action" where
  "tx_str s = Uart3_tx (uart3_send_str (str_bytes s))"

text \<open>\<open>uart3_send_str\<close> of a string held in an array.\<close>

definition tx_field :: "bytes \<Rightarrow> at_action c_result" where
  "tx_field b = bindR (string_of b) (\<lambda>s. Inr (Uart3_tx (uart3_send_str s)))"

section \<open>Runs of a driver\<close>

text \<open>
  The driver's thread calls the state machine; other events, as the receive interrupt, come between
  the calls.  A
  byte that arrives during a call is counted as arriving after it: a call reads at most one line,
  at its start, and otherwise only empties the ring.
\<close>

text \<open>
  A run as a function: the calls and the events in their order, and the outcome, which is the error of the first call that leaves
  an array.  \<open>at_reach\<close> are the states of the runs so far without an error (\<open>at_reach_run\<close>).
\<close>

fun at_run :: "(at_env \<Rightarrow> 's \<Rightarrow> ('s \<times> at_action list) c_result) \<Rightarrow> ('d \<Rightarrow> 's \<Rightarrow> 's) \<Rightarrow> (at_env + 'd) list \<Rightarrow> 's \<Rightarrow> 's c_result" where
  "at_run step irq [] s = Inr s"
| "at_run step irq (Inl e # xs) s = bindR (step e s) (\<lambda>(s1, _). at_run step irq xs s1)"
| "at_run step irq (Inr d # xs) s = at_run step irq xs (irq d s)"

inductive at_reach :: "(at_env \<Rightarrow> 's \<Rightarrow> ('s \<times> at_action list) c_result) \<Rightarrow> ('d \<Rightarrow> 's \<Rightarrow> 's) \<Rightarrow> 's \<Rightarrow> 's \<Rightarrow> bool"
  for step irq s0 where
  start: "at_reach step irq s0 s0"
| call: "at_reach step irq s0 s \<Longrightarrow> step e s = Inr (s', as) \<Longrightarrow> at_reach step irq s0 s'"
| event: "at_reach step irq s0 s \<Longrightarrow> at_reach step irq s0 (irq d s)"

lemma at_reach_events: "at_reach step irq s0 s \<Longrightarrow> at_reach step irq s0 (fold irq ds s)"
  by (induction ds arbitrary: s) (auto intro: at_reach.event)

lemma at_run_append: "at_run step irq (xs @ ys) s = bindR (at_run step irq xs s) (at_run step irq ys)"
proof (induction xs arbitrary: s)
  case (Cons x xs)
  show ?case
  proof (cases x)
    case (Inl e)
    then show ?thesis using Cons.IH by (cases "step e s") (simp_all add: split_beta)
  qed (simp add: Cons.IH)
qed simp

lemma at_reach_run: "at_reach step irq s0 s \<longleftrightarrow> (\<exists>xs. at_run step irq xs s0 = Inr s)"
proof
  show "at_reach step irq s0 s \<Longrightarrow> \<exists>xs. at_run step irq xs s0 = Inr s"
  proof (induction rule: at_reach.induct)
    case start
    show ?case by (rule exI [of _ "[]"]) simp
  next
    case (call s e s' as)
    then obtain xs where "at_run step irq xs s0 = Inr s" by blast
    then show ?case using call(2) by (intro exI [of _ "xs @ [Inl e]"]) (simp add: at_run_append)
  next
    case (event s d)
    then obtain xs where "at_run step irq xs s0 = Inr s" by blast
    then show ?case by (intro exI [of _ "xs @ [Inr d]"]) (simp add: at_run_append)
  qed
  have "at_reach step irq s0 s" if "at_run step irq xs s1 = Inr s" "at_reach step irq s0 s1" for xs s1
    using that
  proof (induction xs arbitrary: s1)
    case (Cons x xs)
    then show ?case
      by (cases x) (auto simp: bindR_eq_Inr intro: at_reach.call at_reach.event)
  qed simp
  then show "\<exists>xs. at_run step irq xs s0 = Inr s \<Longrightarrow> at_reach step irq s0 s" using at_reach.start by metis
qed

text \<open>The events between the calls: a received byte, and anything the network layer does.\<close>

datatype at_event = Rx_byte u8 | Net_layer network

text \<open>Calls with a line delivered before each of them.\<close>

fun at_dialogue :: "(at_env \<Rightarrow> 's \<Rightarrow> ('s \<times> at_action list) c_result) \<Rightarrow> ('d \<Rightarrow> 's \<Rightarrow> 's) \<Rightarrow>
    (at_env \<times> 'd list) list \<Rightarrow> 's \<Rightarrow> ('s \<times> at_action list) c_result" where
  "at_dialogue step irq [] s = Inr (s, [])"
| "at_dialogue step irq ((e, l) # ls) s =
     bindR (step e (fold irq l s)) (\<lambda>(s1, as). bindR (at_dialogue step irq ls s1) (\<lambda>(s2, bs). Inr (s2, as @ bs)))"

locale at_modem =
  fixes inv :: "'s \<Rightarrow> bool"
    and step :: "at_env \<Rightarrow> 's \<Rightarrow> ('s \<times> at_action list) c_result"
    and irq :: "'d \<Rightarrow> 's \<Rightarrow> 's"
  assumes step_inv: "inv s \<Longrightarrow> step e s = Inr (s', as) \<Longrightarrow> inv s'"
    and irq_inv: "inv s \<Longrightarrow> inv (irq d s)"
begin

lemma reach_inv: "at_reach step irq s0 s \<Longrightarrow> inv s0 \<Longrightarrow> inv s"
  by (induction rule: at_reach.induct) (auto intro: step_inv irq_inv)

lemma irqs_inv: "inv s \<Longrightarrow> inv (fold irq l s)"
  by (induction l arbitrary: s) (auto intro: irq_inv)

lemma dialogue_inv: "inv s \<Longrightarrow> at_dialogue step irq ls s = Inr (s', as) \<Longrightarrow> inv s'"
proof (induction ls arbitrary: s as)
  case (Cons p ls)
  obtain e l where p: "p = (e, l)" by fastforce
  from Cons.prems(2) obtain s1 as1 bs where s1: "step e (fold irq l s) = Inr (s1, as1)"
      and s2: "at_dialogue step irq ls s1 = Inr (s', bs)"
    by (auto simp: p bindR_eq_Inr)
  have "inv s1" using step_inv [OF irqs_inv [OF Cons.prems(1)] s1] .
  then show ?case using Cons.IH s2 by blast
qed simp

end

text \<open>A driver whose faults are known: the runs end with an error exactly where a call meets the condition.\<close>

locale at_faults = at_modem +
  fixes faults :: "at_env \<Rightarrow> 'a \<Rightarrow> bool"
  assumes step_fault: "inv s \<Longrightarrow> step e s = Inl err \<longleftrightarrow> err = OutOfBounds \<and> faults e s"
begin

lemma run_inv: "at_run step irq xs s = Inr s' \<Longrightarrow> inv s \<Longrightarrow> inv s'"
  using reach_inv at_reach_run by metis

lemma run_fault:
  assumes "inv s"
  shows "at_run step irq xs s = Inl err \<longleftrightarrow>
    err = OutOfBounds \<and> (\<exists>ys e zs s1. xs = ys @ Inl e # zs \<and> at_run step irq ys s = Inr s1 \<and> faults e s1)"
proof
  assume "err = OutOfBounds \<and> (\<exists>ys e zs s1. xs = ys @ Inl e # zs \<and> at_run step irq ys s = Inr s1 \<and> faults e s1)"
  then obtain ys e zs s1 where "err = OutOfBounds" "xs = ys @ Inl e # zs" "at_run step irq ys s = Inr s1" "faults e s1" by blast
  then show "at_run step irq xs s = Inl err"
    using step_fault [OF run_inv [OF _ assms], of ys s1 e err] by (simp add: at_run_append)
next
  assume "at_run step irq xs s = Inl err"
  then show "err = OutOfBounds \<and> (\<exists>ys e zs s1. xs = ys @ Inl e # zs \<and> at_run step irq ys s = Inr s1 \<and> faults e s1)"
    using assms
  proof (induction xs arbitrary: s)
    case (Cons x xs)
    show ?case
    proof (cases x)
      case (Inr d)
      then have "at_run step irq xs (irq d s) = Inl err" using Cons.prems(1) by simp
      from Cons.IH [OF this irq_inv [OF Cons.prems(2)]] obtain ys e zs s1 where
        "err = OutOfBounds" "xs = ys @ Inl e # zs" "at_run step irq ys (irq d s) = Inr s1" "faults e s1" by blast
      then show ?thesis using Inr by (intro conjI exI [of _ "x # ys"] exI [of _ e] exI [of _ zs] exI [of _ s1]) simp_all
    next
      case (Inl e)
      show ?thesis
      proof (cases "step e s")
        case (Inl err')
        then show ?thesis using \<open>x = Inl e\<close> Cons.prems step_fault [of s e err']
          by (intro conjI exI [of _ "[]"] exI [of _ e] exI [of _ xs] exI [of _ s]) simp_all
      next
        case (Inr p)
        obtain s2 as where p: "p = (s2, as)" by (cases p)
        have "at_run step irq xs s2 = Inl err" "inv s2"
          using Cons.prems \<open>x = Inl e\<close> Inr p step_inv by (simp_all add: p)
        from Cons.IH [OF this] obtain ys e' zs s1 where
          "err = OutOfBounds" "xs = ys @ Inl e' # zs" "at_run step irq ys s2 = Inr s1" "faults e' s1" by blast
        then show ?thesis using Inr p \<open>x = Inl e\<close>
          by (intro conjI exI [of _ "x # ys"] exI [of _ e'] exI [of _ zs] exI [of _ s1]) simp_all
      qed
    qed
  qed simp
qed

end

section \<open>Facts about lines\<close>

lemma length_rx_array [ibox_len]: "length l < UART3_RX_SIZE \<Longrightarrow> length (rx_array l) = UART3_RX_SIZE"
  by (simp add: rx_array_def)

lemma cstr_rx_array: "0 \<notin> set l \<Longrightarrow> length l < UART3_RX_SIZE \<Longrightarrow> cstr (rx_array l) = l"
  unfolding cstr_def rx_array_def by (subst takeWhile_append2) (auto simp: takeWhile_replicate)

lemma parse_until_digits:
  assumes "sep \<notin> set ds"
  shows "parse_until sep n (ds @ sep # r) = Inr (foldl (\<lambda>n b. n * 10 + (ucast b - 48)) n ds, r)"
  using assms by (induction ds arbitrary: n) auto

lemma foldl_dec: "foldl (\<lambda>n b. n * 10 + (ucast b - 48)) 0 (dec n) = (of_nat n :: u16)"
proof (induction n rule: dec.induct)
  case (1 n)
  have d: "(ucast (of_nat (48 + k) :: u8) - 48 :: u16) = of_nat k" if "k < 10" for k
  proof -
    have "unat (of_nat (48 + k) :: u8) = 48 + k" using that by (simp add: unat_of_nat del: of_nat_add)
    then have "(ucast (of_nat (48 + k) :: u8) :: u16) = of_nat (48 + k)" by (metis of_nat_unat)
    then show ?thesis by simp
  qed
  show ?case
  proof (cases "n < 10")
    case True
    then show ?thesis using d [OF True] by (simp add: dec.simps [of n] del: of_nat_add)
  next
    case False
    have "(of_nat (n div 10) * 10 + of_nat (n mod 10) :: u16) = of_nat n"
      by (metis div_mult_mod_eq of_nat_add of_nat_mult of_nat_numeral)
    then show ?thesis using False 1 d [of "n mod 10"] by (simp add: dec.simps [of n] del: of_nat_add)
  qed
qed

lemma dec_digits: "b \<in> set (dec n) \<Longrightarrow> 48 \<le> b \<and> b \<le> 57"
proof (induction n arbitrary: b rule: dec.induct)
  case (1 n)
  have "48 \<le> (of_nat (48 + k) :: u8) \<and> (of_nat (48 + k) :: u8) \<le> 57" if "k < 10" for k
  proof -
    have "unat (of_nat (48 + k) :: u8) = 48 + k" using that by (simp add: unat_of_nat del: of_nat_add)
    then show ?thesis using that by (simp add: word_le_nat_alt del: of_nat_add)
  qed
  then show ?case using 1 by (auto simp: dec.simps [of n] simp del: of_nat_add split: if_splits)
qed

lemma parse_until_dec:
  assumes "\<not> (48 \<le> sep \<and> sep \<le> 57)"
  shows "parse_until sep 0 (dec n @ sep # r) = Inr (of_nat n, r)"
  using parse_until_digits [of sep "dec n" 0 r] assms dec_digits [of sep n] by (auto simp: foldl_dec)

lemma parse_until_no_sep: "sep \<notin> set bs \<Longrightarrow> parse_until sep n bs = Inl OutOfBounds"
  by (induction bs arbitrary: n) auto

lemma strstr_prefix: "strstr (p @ r) p = Some 0"
proof (cases "p @ r")
  case (Cons y ys)
  then have "take (length p) (y # ys) = p" by (metis append_eq_conv_conj)
  then show ?thesis using Cons by simp
qed simp

lemma strstr_hit:
  assumes "strstr l p = Some i" and "p \<noteq> []"
  shows "i < length l \<and> l ! i = hd p"
proof -
  have h: "i + length p \<le> length l" "take (length p) (drop i l) = p" using strstr_SomeD [OF assms(1)] by auto
  have i: "i < length l" using h(1) assms(2) by (cases p) auto
  have "hd (take (length p) (drop i l)) = hd (drop i l)" using assms(2) by (intro hd_take) simp
  then show ?thesis using i h(2) by (simp add: hd_drop_conv_nth)
qed

lemma strstr_single: "strstr l [b] \<noteq> None \<longleftrightarrow> b \<in> set l"
  by (induction l) auto

text \<open>A text line: no NUL, carriage return or line feed, and short enough for the ring.\<close>

definition text_line :: "bytes \<Rightarrow> bool" where
  "text_line l \<longleftrightarrow> 0 \<notin> set l \<and> 0x0d \<notin> set l \<and> 0x0a \<notin> set l \<and> length l + 3 < UART3_RX_SIZE"

lemma find_str_line: "text_line l \<Longrightarrow> find_str (rx_array l) p = strstr l (str_bytes p)"
  by (simp add: find_str_def text_line_def cstr_rx_array)

lemma has_str_line: "text_line l \<Longrightarrow> has_str_in (rx_array l) p \<longleftrightarrow> strstr l (str_bytes p) \<noteq> None"
  by (simp add: has_str_in_def find_str_line)

definition reply :: "string \<Rightarrow> bytes \<Rightarrow> bool" where
  "reply p l \<longleftrightarrow> text_line l \<and> strstr l (str_bytes p) \<noteq> None"

lemma replyD: "reply p l \<Longrightarrow> text_line l \<and> has_str_in (rx_array l) p"
  by (simp add: reply_def has_str_line)

text \<open>The bytes a step has transmitted.\<close>

fun tx_bytes :: "at_action list \<Rightarrow> bytes" where
  "tx_bytes [] = []"
| "tx_bytes (Uart3_tx b # as) = b @ tx_bytes as"
| "tx_bytes (Sys_delay ms # as) = tx_bytes as"
| "tx_bytes (Kernel k # as) = tx_bytes as"

lemma tx_bytes_append [simp]: "tx_bytes (as @ bs) = tx_bytes as @ tx_bytes bs"
  by (induction as rule: tx_bytes.induct) auto

lemma uart3_send_str_cstr: "uart3_send_str s = cstr s"
  unfolding cstr_def by (induction s) auto

lemma cstr_no_nul: "0 \<notin> set s \<Longrightarrow> cstr s = s"
  unfolding cstr_def by (auto simp: takeWhile_eq_all_conv)

lemma nul_notin_cstr: "0 \<notin> set (cstr s)"
  unfolding cstr_def by (metis (mono_tags) set_takeWhileD)

lemma nul_notin_dec: "0 \<notin> set (dec n)"
  using dec_digits [of 0 n] by auto

section \<open>Drivers that read one line per call\<close>

text \<open>The ring between two lines: at most the line feed of the last line is unread.\<close>

definition quiet :: "uart3_rx \<Rightarrow> bool" where
  "quiet q \<longleftrightarrow> uart3_inv q \<and> (uart3_elems q = [] \<or> uart3_elems q = [0x0a])"

lemma quiet_clear [simp]: "quiet (uart3_rx_buf_clear q)"
  by (simp add: quiet_def)

text \<open>An empty ring and a stopped clock, for the examples.\<close>

definition demo_uart3 :: uart3_rx where
  "demo_uart3 = \<lparr>u3_buf = replicate UART3_RX_SIZE 0, u3_wr_index = 0, u3_count = 0, u3_re_index = 0\<rparr>"

definition demo_env :: at_env where
  "demo_env = \<lparr>clk = (\<lambda>_. 0), rx_sem_ok = True\<rparr>"

lemma demo_env_sel [simp]: "clk demo_env n = 0" "rx_sem_ok demo_env"
  by (simp_all add: demo_env_def)

lemma demo_uart3_quiet [simp]: "quiet demo_uart3"
proof -
  have "demo_uart3 = uart3_rx_buf_clear demo_uart3" by (simp add: demo_uart3_def uart3_rx_buf_clear_def)
  then show ?thesis by (metis quiet_clear)
qed

lemma fold_USART3_rx:
  assumes "uart3_inv q" and "length (uart3_elems q) + length bs < UART3_RX_SIZE"
  shows "uart3_inv (fold (\<lambda>d q. USART3_rx q d) bs q) \<and>
    uart3_elems (fold (\<lambda>d q. USART3_rx q d) bs q) = uart3_elems q @ bs"
  using assms
proof (induction bs arbitrary: q)
  case (Cons b bs)
  from Cons.IH [of "USART3_rx q b"] USART3_rx_step [OF Cons.prems(1), of b] Cons.prems(2) show ?case by simp
qed simp

lemma take_line_filter: "0x0d \<notin> set l \<Longrightarrow> take_line (l @ 0x0d # r) = (filter (\<lambda>b. b \<noteq> 0x0a) l, r)"
  by (induction l) auto

locale at_reader =
  fixes uart :: "'s \<Rightarrow> uart3_rx"
    and set_uart :: "uart3_rx \<Rightarrow> 's \<Rightarrow> 's"
    and dispatch :: "at_env \<Rightarrow> u16 \<Rightarrow> bytes \<Rightarrow> 's \<Rightarrow> ('s \<times> at_action list) c_result"
    and step :: "at_env \<Rightarrow> 's \<Rightarrow> ('s \<times> at_action list) c_result"
    and irq :: "u8 \<Rightarrow> 's \<Rightarrow> 's"
  assumes step_eq: "step e s =
      (let (l, q) = get_line_from_uart3 (uart s) in dispatch e (of_nat (length l)) (rx_array l) (set_uart q s))"
    and irq_eq: "irq d s = set_uart (USART3_rx (uart s) d) s"
    and uart_set [simp]: "uart (set_uart q s) = q"
    and set_set [simp]: "set_uart q (set_uart q' s) = set_uart q s"
    and set_uart_id [simp]: "set_uart (uart s) s = s"
begin

lemma fold_irq: "fold irq bs s = set_uart (fold (\<lambda>d q. USART3_rx q d) bs (uart s)) s"
  by (induction bs arbitrary: s) (simp_all add: irq_eq)

lemma step_raw_line:
  assumes "quiet (uart s)" and "0x0d \<notin> set l" and "length l + 3 < UART3_RX_SIZE"
  defines "t \<equiv> filter (\<lambda>b. b \<noteq> 0x0a) l"
  shows "\<exists>q. quiet q \<and> step e (fold irq (l @ crlf) s) = dispatch e (of_nat (length t)) (rx_array t) (set_uart q s)"
proof -
  let ?q = "fold (\<lambda>d q. USART3_rx q d) (l @ crlf) (uart s)"
  have "uart3_inv (uart s)" "length (uart3_elems (uart s)) \<le> 1" using assms(1) by (auto simp: quiet_def)
  then have q: "uart3_inv ?q" "uart3_elems ?q = uart3_elems (uart s) @ l @ crlf"
    using fold_USART3_rx [of "uart s" "l @ crlf"] assms(3) by (simp_all add: crlf_def)
  have "take_line (uart3_elems ?q) = (t, [0x0a])"
    using assms(1,2) take_line_filter [of l "[0x0a]"] q(2) by (auto simp: quiet_def crlf_def t_def)
  with line3_loop_take_line [OF q(1), of "[]"] have "fst (get_line_from_uart3 ?q) = t"
      "quiet (snd (get_line_from_uart3 ?q))"
    by (simp_all add: get_line_from_uart3_def quiet_def)
  then show ?thesis by (intro exI [of _ "snd (get_line_from_uart3 ?q)"]) (simp add: step_eq fold_irq split_beta)
qed

lemma step_line:
  assumes "quiet (uart s)" and "0x0d \<notin> set l" and "0x0a \<notin> set l" and "length l + 3 < UART3_RX_SIZE"
  shows "\<exists>q. quiet q \<and> step e (fold irq (l @ crlf) s) = dispatch e (of_nat (length l)) (rx_array l) (set_uart q s)"
proof -
  have "filter (\<lambda>b. b \<noteq> 0x0a) l = l" using assms(3) by (auto simp: filter_id_conv)
  then show ?thesis using step_raw_line [OF assms(1,2,4), of e] by simp
qed

text \<open>One exchange: a reply that the dispatcher answers with a new state and actions.\<close>

lemma exchange:
  assumes "quiet (uart s)" and "text_line l"
    and "\<And>q. quiet q \<Longrightarrow> \<exists>s1. dispatch e (of_nat (length l)) (rx_array l) (set_uart q s) = Inr (s1, as) \<and> P s1"
    and "\<And>s1. P s1 \<Longrightarrow> \<exists>s2. at_dialogue step irq ls s1 = Inr (s2, bs) \<and> Q s2"
  shows "\<exists>s2. at_dialogue step irq ((e, l @ crlf) # ls) s = Inr (s2, as @ bs) \<and> Q s2"
proof -
  obtain q where "quiet q" "step e (fold irq (l @ crlf) s) = dispatch e (of_nat (length l)) (rx_array l) (set_uart q s)"
    using step_line [OF assms(1), of l e] assms(2) by (auto simp: text_line_def)
  then obtain s1 where "step e (fold irq (l @ crlf) s) = Inr (s1, as)" "P s1" using assms(3) by metis
  then show ?thesis using assms(4) [of s1] by auto
qed

lemma step_silent:
  assumes "quiet (uart s)"
  shows "\<exists>q. quiet q \<and> step e s = dispatch e 0 (rx_array []) (set_uart q s)"
proof -
  have q: "uart3_inv (uart s)" "take_line (uart3_elems (uart s)) = ([], [])" using assms by (auto simp: quiet_def)
  with line3_loop_take_line [OF q(1), of "[]"] have "fst (get_line_from_uart3 (uart s)) = []"
      "quiet (snd (get_line_from_uart3 (uart s)))"
    by (simp_all add: get_line_from_uart3_def quiet_def)
  then show ?thesis by (intro exI [of _ "snd (get_line_from_uart3 (uart s))"]) (simp add: step_eq split_beta)
qed

lemma exchange_silent:
  assumes "quiet (uart s)"
    and "\<And>q. quiet q \<Longrightarrow> \<exists>s1. dispatch e 0 (rx_array []) (set_uart q s) = Inr (s1, as) \<and> P s1"
    and "\<And>s1. P s1 \<Longrightarrow> \<exists>s2. at_dialogue step irq ls s1 = Inr (s2, bs) \<and> Q s2"
  shows "\<exists>s2. at_dialogue step irq ((e, []) # ls) s = Inr (s2, as @ bs) \<and> Q s2"
proof -
  obtain q where "quiet q" "step e s = dispatch e 0 (rx_array []) (set_uart q s)"
    using step_silent [OF assms(1)] by blast
  then obtain s1 where "step e s = Inr (s1, as)" "P s1" using assms(2) by metis
  then show ?thesis using assms(3) [of s1] by auto
qed

end

end
