(* ===== verification/Gprs.thy ===== *)
theory Gprs
  imports At_Common
begin

text \<open>
  The GPRS driver for the SIM800L, \<open>Drivers/BSP/src/ibox_gprs.c\<close>: the AT state machine, one
  definition per case of its \<open>switch\<close>, with the helpers it calls.  The driver is the link of the
  builds without \<open>USE_WIFI\<close>.
\<close>

section \<open>State\<close>

datatype GPRS_STATUS_ENUM =
    GPRS_STATUS_CHECK | GPRS_STATUS_INIT | GPRS_STATUS_SET_MISC | GPRS_STATUS_CHECK_CSQ
  | GPRS_STATUS_CHECK_REG | GPRS_STATUS_CHECK_CGATT | GPRS_STATUS_SET_APN | GPRS_STATUS_SET_CIICR
  | GPRS_STATUS_GET_IP | GPRS_STATUS_RESTART_TCP | GPRS_STATUS_START_TCP | GPRS_STATUS_TCP_CONNECT
  | GPRS_STATUS_COMMUNICATE | GPRS_STATUS_RX_PROC | GPRS_STATUS_FRAME_PROC

record gprs =
  gprs_status :: GPRS_STATUS_ENUM
  gprs_status_error_count :: u8
  gprs_link_error_count :: u8
  gprs_error_count :: u8
  gprs_timeout :: u32
  gprs_tcp_error_count :: u32
  gprs_send_flag :: u8
  gprs_send_timeout_flag :: u8
  gprs_tx_counter :: u16
  gprs_rx_counter :: u16
  g_uart3 :: uart3_rx
  g_net :: network

definition GPRS_SEND_STR_SIZE :: nat where "GPRS_SEND_STR_SIZE = 64"

type_synonym gprs_result = "(gprs \<times> at_action list) c_result"

definition gprs_clear_rx :: "gprs \<Rightarrow> gprs" where
  "gprs_clear_rx s = s\<lparr>g_uart3 := uart3_rx_buf_clear (g_uart3 s)\<rparr>"

text \<open>The reset line and the UART configuration are register writes.\<close>

definition gprs_init :: "gprs \<Rightarrow> gprs \<times> at_action list" where
  "gprs_init s = (gprs_clear_rx s, [Sys_delay 2])"

section \<open>Helpers\<close>

definition gprs_server_connect :: "IBOX_CONFIG \<Rightarrow> gprs \<Rightarrow> at_action list c_result" where
  "gprs_server_connect cfg s =
     bindR (tx_field (if use_dns cfg = 0 \<or> gprs_tcp_error_count s \<ge> 3 then server_ip cfg else server_dsn cfg)) (\<lambda>host.
     bindR (sprintf_into 6 (dec (unat (server_port cfg)))) (\<lambda>port.
       Inr [tx_str ''AT+CIPSTART=\"TCP\",\"'', host, tx_str ''\",\"'', Uart3_tx (uart3_send_str port),
            Uart3_tx (uart3_send_str (str_bytes ''\"'' @ crlf))]))"

definition gprs_send_data :: "gprs \<Rightarrow> at_action list c_result" where
  "gprs_send_data s =
     bindR (sprintf_into GPRS_SEND_STR_SIZE (str_bytes ''AT+CIPSEND='' @ dec (unat (gprs_tx_counter s)) @ crlf)) (\<lambda>str.
     bindR (uart3_send_data (net_uart3_tx_buf (g_net s)) (unat (gprs_tx_counter s))) (\<lambda>d.
       Inr [Uart3_tx (uart3_send_str str), Sys_delay 50, Uart3_tx d]))"

definition gprs_apn_cmd :: "IBOX_CONFIG \<Rightarrow> bytes c_result" where
  "gprs_apn_cmd cfg =
     bindR (string_of (gsm_apn cfg)) (\<lambda>apn.
       sprintf_into GPRS_SEND_STR_SIZE (str_bytes ''AT+CSTT=\"'' @ apn @ str_bytes ''\"'' @ crlf))"

text \<open>
  The \<open>else\<close> branch of the states that wait for a reply: after more than two seconds the command
  is repeated, or after the fifth repetition the link error is counted.
\<close>

definition gprs_retry :: "at_env \<Rightarrow> bytes c_result \<Rightarrow> gprs \<Rightarrow> gprs_result" where
  "gprs_retry e cmd s =
     (if clk e 0 - gprs_timeout s > 2 then
        (let s1 = s\<lparr>gprs_timeout := clk e 1, gprs_status_error_count := gprs_status_error_count s + 1\<rparr>
         in if gprs_status_error_count s1 > 5 then
              Inr (s1\<lparr>gprs_link_error_count := gprs_link_error_count s1 + 1, gprs_status_error_count := 0\<rparr>, [])
            else bindR cmd (\<lambda>c. Inr (s1, [Uart3_tx (uart3_send_str c)])))
      else Inr (s, []))"

section \<open>The states\<close>

definition gprs_check :: "at_env \<Rightarrow> gprs \<Rightarrow> gprs_result" where
  "gprs_check e s =
     Inr ((gprs_clear_rx s)\<lparr>gprs_status_error_count := 0, gprs_timeout := clk e 0, gprs_status := GPRS_STATUS_INIT\<rparr>,
          [tx_cmd ''AT''])"

definition gprs_init_state :: "at_env \<Rightarrow> bytes \<Rightarrow> gprs \<Rightarrow> gprs_result" where
  "gprs_init_state e rx s =
     (if has_str_in rx ''OK'' then
        Inr (s\<lparr>gprs_status_error_count := 0, gprs_timeout := clk e 0, gprs_status := GPRS_STATUS_SET_MISC\<rparr>,
             [tx_cmd ''AT+CPIN?''])
      else gprs_retry e (Inr (at_cmd ''AT'')) s)"

definition gprs_set_misc :: "at_env \<Rightarrow> bytes \<Rightarrow> gprs \<Rightarrow> gprs_result" where
  "gprs_set_misc e rx s =
     (if has_str_in rx ''READY'' then
        Inr ((gprs_clear_rx s)\<lparr>gprs_status := GPRS_STATUS_CHECK_CSQ, gprs_timeout := clk e 0, gprs_status_error_count := 0\<rparr>,
             [tx_cmd ''AT+CIPSHUT'', Sys_delay 1000, tx_cmd ''AT+CIPRXGET=1'', Sys_delay 200,
              tx_cmd ''AT+CIPSPRT=0'', Sys_delay 200, tx_cmd ''AT+CSQ''])
      else gprs_retry e (Inr (at_cmd ''AT+CPIN?'')) s)"

text \<open>The signal strength: one digit when a comma follows the first, else two.\<close>

definition gprs_csq_value :: "bytes \<Rightarrow> nat \<Rightarrow> u16 c_result" where
  "gprs_csq_value rx i =
     bindR (buf_at rx (i + 7)) (\<lambda>b7. bindR (buf_at rx (i + 6)) (\<lambda>b6.
       Inr (if b7 \<noteq> of_char CHR '','' then (ucast b6 - 0x30) * 10 + (ucast b7 - 0x30) else ucast b6 - 0x30)))"

definition gprs_check_csq :: "at_env \<Rightarrow> bytes \<Rightarrow> gprs \<Rightarrow> gprs_result" where
  "gprs_check_csq e rx s =
     (case find_str rx ''+CSQ:'' of
        Some i \<Rightarrow> bindR (gprs_csq_value rx i) (\<lambda>sq.
          if sq \<ge> 10 \<and> sq \<le> 31 then
            Inr (s\<lparr>gprs_status := GPRS_STATUS_CHECK_REG, gprs_timeout := clk e 0, gprs_status_error_count := 0\<rparr>,
                 [tx_cmd ''AT+CREG?''])
          else Inr (s, []))
      | None \<Rightarrow> gprs_retry e (Inr (at_cmd ''AT+CSQ'')) s)"

definition gprs_check_reg :: "at_env \<Rightarrow> bytes \<Rightarrow> gprs \<Rightarrow> gprs_result" where
  "gprs_check_reg e rx s =
     (case find_str rx ''+CREG:'' of
        Some i \<Rightarrow> bindR (buf_at rx (i + 9)) (\<lambda>b.
          if b = of_char CHR ''1'' \<or> b = of_char CHR ''5'' then
            Inr ((gprs_clear_rx s)\<lparr>gprs_timeout := clk e 0, gprs_status_error_count := 0,
                   gprs_status := GPRS_STATUS_CHECK_CGATT\<rparr>, [tx_cmd ''AT+CGATT?''])
          else Inr (s, []))
      | None \<Rightarrow> gprs_retry e (Inr (at_cmd ''AT+CREG?'')) s)"

definition gprs_check_cgatt :: "IBOX_CONFIG \<Rightarrow> at_env \<Rightarrow> bytes \<Rightarrow> gprs \<Rightarrow> gprs_result" where
  "gprs_check_cgatt cfg e rx s =
     (if has_str_in rx ''+CGATT: 1'' then
        bindR (gprs_apn_cmd cfg) (\<lambda>c.
          Inr (s\<lparr>gprs_status_error_count := 0, gprs_status := GPRS_STATUS_SET_APN, gprs_timeout := clk e 0\<rparr>,
               [Uart3_tx (uart3_send_str c)]))
      else gprs_retry e (Inr (at_cmd ''AT+CGATT?'')) s)"

definition gprs_set_apn :: "IBOX_CONFIG \<Rightarrow> at_env \<Rightarrow> bytes \<Rightarrow> gprs \<Rightarrow> gprs_result" where
  "gprs_set_apn cfg e rx s =
     (if has_str_in rx ''OK'' then
        Inr (s\<lparr>gprs_status_error_count := 0, gprs_timeout := clk e 0, gprs_status := GPRS_STATUS_SET_CIICR\<rparr>,
             [tx_cmd ''AT+CIICR''])
      else if has_str_in rx ''ERROR'' then
        Inr (s\<lparr>gprs_status_error_count := 0, gprs_timeout := clk e 0, gprs_status := GPRS_STATUS_CHECK\<rparr>, [])
      else gprs_retry e (gprs_apn_cmd cfg) s)"

definition gprs_set_ciicr :: "at_env \<Rightarrow> bytes \<Rightarrow> gprs \<Rightarrow> gprs_result" where
  "gprs_set_ciicr e rx s =
     (if has_str_in rx ''OK'' then
        Inr (s\<lparr>gprs_status_error_count := 0, gprs_timeout := clk e 0, gprs_status := GPRS_STATUS_GET_IP\<rparr>,
             [tx_cmd ''AT+CIFSR''])
      else if has_str_in rx ''ERROR'' then
        Inr (s\<lparr>gprs_timeout := clk e 0, gprs_status := GPRS_STATUS_CHECK\<rparr>, [])
      else gprs_retry e (Inr (at_cmd ''AT+CIICR'')) s)"

definition gprs_get_ip :: "at_env \<Rightarrow> bytes \<Rightarrow> gprs \<Rightarrow> gprs_result" where
  "gprs_get_ip e rx s =
     (if has_str_in rx ''.'' then Inr (s\<lparr>gprs_status := GPRS_STATUS_START_TCP\<rparr>, [])
      else if has_str_in rx ''ERROR'' then Inr (s\<lparr>gprs_status := GPRS_STATUS_INIT\<rparr>, [])
      else gprs_retry e (Inr (at_cmd ''AT+CIFSR'')) s)"

definition gprs_start_tcp :: "IBOX_CONFIG \<Rightarrow> at_env \<Rightarrow> gprs \<Rightarrow> gprs_result" where
  "gprs_start_tcp cfg e s =
     bindR (gprs_server_connect cfg s) (\<lambda>as.
       Inr ((gprs_clear_rx s)\<lparr>gprs_timeout := clk e 0, gprs_status := GPRS_STATUS_TCP_CONNECT\<rparr>, as))"

definition gprs_restart_tcp :: "gprs \<Rightarrow> gprs_result" where
  "gprs_restart_tcp s =
     Inr ((gprs_clear_rx s)\<lparr>gprs_tcp_error_count := gprs_tcp_error_count s + 1, gprs_status := GPRS_STATUS_START_TCP,
            gprs_tx_counter := 0, gprs_send_flag := 0, gprs_send_timeout_flag := 0\<rparr>,
          [tx_cmd ''AT+CIPCLOSE'', Sys_delay 1000])"

text \<open>
  Waiting for the connection; the timeout is tested after a reply too.  \<open>RT_TICK_PER_SECOND * 10\<close>
  is compared with seconds.
\<close>

definition gprs_tcp_reply :: "at_env \<Rightarrow> bytes \<Rightarrow> gprs \<Rightarrow> gprs \<times> nat" where
  "gprs_tcp_reply e rx s =
     (if has_str_in rx ''CONNECT OK'' then
        (s\<lparr>gprs_timeout := clk e 0, gprs_status := GPRS_STATUS_COMMUNICATE, gprs_send_flag := 1\<rparr>, 1)
      else if has_str_in rx ''ALREADY CONNECT'' then
        (s\<lparr>gprs_timeout := clk e 0, gprs_tcp_error_count := gprs_tcp_error_count s + 1,
           gprs_status := GPRS_STATUS_INIT\<rparr>, 1)
      else if has_str_in rx ''CONNECT FAIL'' then
        (s\<lparr>gprs_timeout := clk e 0, gprs_tcp_error_count := gprs_tcp_error_count s + 1,
           gprs_status := GPRS_STATUS_INIT\<rparr>, 1)
      else (s, 0))"

definition gprs_tcp_connect :: "at_env \<Rightarrow> bytes \<Rightarrow> gprs \<Rightarrow> gprs_result" where
  "gprs_tcp_connect e rx s =
     (let (s1, k) = gprs_tcp_reply e rx s
      in if clk e k - gprs_timeout s1 > RT_TICK_PER_SECOND * 10 then
           Inr (s1\<lparr>gprs_tcp_error_count := gprs_tcp_error_count s1 + 1, gprs_status := GPRS_STATUS_INIT\<rparr>, [])
         else Inr (s1, []))"

definition gprs_communicate :: "at_env \<Rightarrow> bytes \<Rightarrow> gprs \<Rightarrow> gprs_result" where
  "gprs_communicate e rx s =
     (if has_str_in rx ''CLOSED'' then Inr (s\<lparr>gprs_status := GPRS_STATUS_RESTART_TCP\<rparr>, [])
      else if has_str_in rx ''+PDP DEACT'' then
        Inr (s\<lparr>gprs_timeout := clk e 0, gprs_status := GPRS_STATUS_INIT\<rparr>, [])
      else if has_str_in rx ''+CIPRXGET: 1'' then
        Inr (s\<lparr>gprs_tcp_error_count := 0, gprs_status := GPRS_STATUS_RX_PROC, gprs_timeout := clk e 0\<rparr>,
             [tx_cmd ''AT+CIPRXGET=2,1460''])
      else if has_str_in rx ''SEND OK'' then
        Inr (s\<lparr>gprs_send_flag := 1, gprs_send_timeout_flag := 0, gprs_tx_counter := 0\<rparr>, [])
      else if has_str_in rx ''SEND FAIL'' then
        Inr (s\<lparr>gprs_timeout := clk e 0, gprs_status := GPRS_STATUS_INIT, gprs_send_flag := 1,
               gprs_send_timeout_flag := 0\<rparr>, [])
      else if has_str_in rx ''ERROR'' then Inr (s\<lparr>gprs_status := GPRS_STATUS_RESTART_TCP\<rparr>, [])
      else if gprs_tx_counter s \<noteq> 0 \<and> gprs_send_flag s \<noteq> 0 then
        bindR (gprs_send_data s) (\<lambda>as.
          Inr (s\<lparr>gprs_timeout := clk e 0, gprs_send_flag := 0, gprs_send_timeout_flag := 1\<rparr>, as))
      else if clk e 0 - gprs_timeout s > RT_TICK_PER_SECOND * 10 \<and> gprs_send_timeout_flag s \<noteq> 0 then
        Inr (s\<lparr>gprs_status := GPRS_STATUS_RESTART_TCP\<rparr>, [])
      else Inr (s, []))"

definition gprs_rx_proc :: "at_env \<Rightarrow> bytes \<Rightarrow> gprs \<Rightarrow> gprs_result" where
  "gprs_rx_proc e rx s =
     (case find_str rx ''+CIPRXGET: 3'' of
        Some i \<Rightarrow> bindR (parse_until (of_char CHR '','') 0 (drop (i + 13) rx)) (\<lambda>(n, _).
          Inr (s\<lparr>gprs_rx_counter := n,
                 gprs_status := if n \<noteq> 0 then GPRS_STATUS_FRAME_PROC else GPRS_STATUS_RESTART_TCP,
                 gprs_timeout := clk e 0\<rparr>, []))
      | None \<Rightarrow>
          (if clk e 0 - gprs_timeout s > RT_TICK_PER_SECOND * 10 then
             Inr (s\<lparr>gprs_status := GPRS_STATUS_RESTART_TCP\<rparr>, [])
           else Inr (s, [])))"

definition gprs_frame_proc :: "at_env \<Rightarrow> u16 \<Rightarrow> bytes \<Rightarrow> gprs \<Rightarrow> gprs_result" where
  "gprs_frame_proc e len rx s =
     (if len \<noteq> 0 then
        (if unat len \<noteq> 2 * unat (gprs_rx_counter s) then Inr (s\<lparr>gprs_status := GPRS_STATUS_COMMUNICATE\<rparr>, [])
         else bindR (net_rx_write (rx_sem_ok e) rx (gprs_rx_counter s) (g_net s)) (\<lambda>(_, n, ks).
           Inr (s\<lparr>gprs_status := GPRS_STATUS_COMMUNICATE, g_net := n\<rparr>, map Kernel ks)))
      else if clk e 0 - gprs_timeout s > RT_TICK_PER_SECOND * 2 then
        Inr (s\<lparr>gprs_status := GPRS_STATUS_COMMUNICATE\<rparr>, [])
      else Inr (s, []))"

definition gprs_dispatch :: "IBOX_CONFIG \<Rightarrow> at_env \<Rightarrow> u16 \<Rightarrow> bytes \<Rightarrow> gprs \<Rightarrow> gprs_result" where
  "gprs_dispatch cfg e len rx s =
     (case gprs_status s of
        GPRS_STATUS_CHECK \<Rightarrow> gprs_check e s
      | GPRS_STATUS_INIT \<Rightarrow> gprs_init_state e rx s
      | GPRS_STATUS_SET_MISC \<Rightarrow> gprs_set_misc e rx s
      | GPRS_STATUS_CHECK_CSQ \<Rightarrow> gprs_check_csq e rx s
      | GPRS_STATUS_CHECK_REG \<Rightarrow> gprs_check_reg e rx s
      | GPRS_STATUS_CHECK_CGATT \<Rightarrow> gprs_check_cgatt cfg e rx s
      | GPRS_STATUS_SET_APN \<Rightarrow> gprs_set_apn cfg e rx s
      | GPRS_STATUS_SET_CIICR \<Rightarrow> gprs_set_ciicr e rx s
      | GPRS_STATUS_GET_IP \<Rightarrow> gprs_get_ip e rx s
      | GPRS_STATUS_START_TCP \<Rightarrow> gprs_start_tcp cfg e s
      | GPRS_STATUS_RESTART_TCP \<Rightarrow> gprs_restart_tcp s
      | GPRS_STATUS_TCP_CONNECT \<Rightarrow> gprs_tcp_connect e rx s
      | GPRS_STATUS_COMMUNICATE \<Rightarrow> gprs_communicate e rx s
      | GPRS_STATUS_RX_PROC \<Rightarrow> gprs_rx_proc e rx s
      | GPRS_STATUS_FRAME_PROC \<Rightarrow> gprs_frame_proc e len rx s)"

definition gprs_at_fsm :: "IBOX_CONFIG \<Rightarrow> at_env \<Rightarrow> gprs \<Rightarrow> gprs_result" where
  "gprs_at_fsm cfg e s =
     (let (l, q) = get_line_from_uart3 (g_uart3 s)
      in gprs_dispatch cfg e (of_nat (length l)) (rx_array l) (s\<lparr>g_uart3 := q\<rparr>))"

definition gprs_irq :: "u8 \<Rightarrow> gprs \<Rightarrow> gprs" where
  "gprs_irq d s = s\<lparr>g_uart3 := USART3_rx (g_uart3 s) d\<rparr>"

lemmas gprs_state_defs = gprs_check_def gprs_init_state_def gprs_set_misc_def gprs_check_csq_def
  gprs_check_reg_def gprs_check_cgatt_def gprs_set_apn_def gprs_set_ciicr_def gprs_get_ip_def
  gprs_start_tcp_def gprs_restart_tcp_def gprs_tcp_reply_def gprs_tcp_connect_def
  gprs_communicate_def gprs_rx_proc_def gprs_frame_proc_def


section \<open>Protocol of the dialogue\<close>

text \<open>
  The status after a step, given the line it has read: the dialogue the driver keeps with the
  module.  A status is left forwards only on the module's reply to the command sent before.
\<close>

fun gprs_next :: "bytes \<Rightarrow> GPRS_STATUS_ENUM \<Rightarrow> GPRS_STATUS_ENUM list" where
  "gprs_next l GPRS_STATUS_CHECK = [GPRS_STATUS_INIT]"
| "gprs_next l GPRS_STATUS_INIT = (if has_str_in l ''OK'' then [GPRS_STATUS_SET_MISC] else [GPRS_STATUS_INIT])"
| "gprs_next l GPRS_STATUS_SET_MISC =
     (if has_str_in l ''READY'' then [GPRS_STATUS_CHECK_CSQ] else [GPRS_STATUS_SET_MISC])"
| "gprs_next l GPRS_STATUS_CHECK_CSQ =
     (if has_str_in l ''+CSQ:'' then [GPRS_STATUS_CHECK_CSQ, GPRS_STATUS_CHECK_REG] else [GPRS_STATUS_CHECK_CSQ])"
| "gprs_next l GPRS_STATUS_CHECK_REG =
     (if has_str_in l ''+CREG:'' then [GPRS_STATUS_CHECK_REG, GPRS_STATUS_CHECK_CGATT] else [GPRS_STATUS_CHECK_REG])"
| "gprs_next l GPRS_STATUS_CHECK_CGATT =
     (if has_str_in l ''+CGATT: 1'' then [GPRS_STATUS_SET_APN] else [GPRS_STATUS_CHECK_CGATT])"
| "gprs_next l GPRS_STATUS_SET_APN =
     (if has_str_in l ''OK'' then [GPRS_STATUS_SET_CIICR]
      else if has_str_in l ''ERROR'' then [GPRS_STATUS_CHECK] else [GPRS_STATUS_SET_APN])"
| "gprs_next l GPRS_STATUS_SET_CIICR =
     (if has_str_in l ''OK'' then [GPRS_STATUS_GET_IP]
      else if has_str_in l ''ERROR'' then [GPRS_STATUS_CHECK] else [GPRS_STATUS_SET_CIICR])"
| "gprs_next l GPRS_STATUS_GET_IP =
     (if has_str_in l ''.'' then [GPRS_STATUS_START_TCP]
      else if has_str_in l ''ERROR'' then [GPRS_STATUS_INIT] else [GPRS_STATUS_GET_IP])"
| "gprs_next l GPRS_STATUS_RESTART_TCP = [GPRS_STATUS_START_TCP]"
| "gprs_next l GPRS_STATUS_START_TCP = [GPRS_STATUS_TCP_CONNECT]"
| "gprs_next l GPRS_STATUS_TCP_CONNECT =
     (if has_str_in l ''CONNECT OK'' then [GPRS_STATUS_COMMUNICATE, GPRS_STATUS_INIT]
      else [GPRS_STATUS_TCP_CONNECT, GPRS_STATUS_INIT])"
| "gprs_next l GPRS_STATUS_COMMUNICATE =
     (if has_str_in l ''CLOSED'' then [GPRS_STATUS_RESTART_TCP]
      else if has_str_in l ''+PDP DEACT'' then [GPRS_STATUS_INIT]
      else if has_str_in l ''+CIPRXGET: 1'' then [GPRS_STATUS_RX_PROC]
      else [GPRS_STATUS_COMMUNICATE, GPRS_STATUS_RESTART_TCP, GPRS_STATUS_INIT])"
| "gprs_next l GPRS_STATUS_RX_PROC =
     (if has_str_in l ''+CIPRXGET: 3'' then [GPRS_STATUS_FRAME_PROC, GPRS_STATUS_RESTART_TCP]
      else [GPRS_STATUS_RX_PROC, GPRS_STATUS_RESTART_TCP])"
| "gprs_next l GPRS_STATUS_FRAME_PROC = [GPRS_STATUS_FRAME_PROC, GPRS_STATUS_COMMUNICATE]"

lemma gprs_retry_fields:
  assumes "gprs_retry e c s = Inr (s', as)"
  shows "gprs_status s' = gprs_status s" "g_uart3 s' = g_uart3 s" "g_net s' = g_net s"
    "gprs_tx_counter s' = gprs_tx_counter s" "gprs_send_flag s' = gprs_send_flag s"
    "gprs_status_error_count s \<le> 5 \<Longrightarrow> gprs_status_error_count s' \<le> 5"
  using assms by (auto simp: gprs_retry_def Let_def bindR_eq_Inr split: if_splits)

lemma gprs_clear_rx_sel [simp]:
  "gprs_status (gprs_clear_rx s) = gprs_status s" "g_net (gprs_clear_rx s) = g_net s"
  "gprs_tx_counter (gprs_clear_rx s) = gprs_tx_counter s" "uart3_inv (g_uart3 (gprs_clear_rx s))"
  "gprs_status_error_count (gprs_clear_rx s) = gprs_status_error_count s"
  "gprs_tcp_error_count (gprs_clear_rx s) = gprs_tcp_error_count s" "quiet (g_uart3 (gprs_clear_rx s))"
  "gprs_send_flag (gprs_clear_rx s) = gprs_send_flag s"
  by (simp_all add: gprs_clear_rx_def)

lemma gprs_dispatch_next:
  assumes "gprs_dispatch cfg e len rx s = Inr (s', as)"
  shows "gprs_status s' \<in> set (gprs_next rx (gprs_status s))"
  using assms
  by (cases "gprs_status s")
    (auto simp: gprs_dispatch_def gprs_state_defs has_str_in_def Let_def bindR_eq_Inr gprs_retry_fields(1)
      split: if_splits option.splits)

definition gprs_inv :: "gprs \<Rightarrow> bool" where
  "gprs_inv s \<longleftrightarrow> gprs_status_error_count s \<le> 5 \<and> uart3_inv (g_uart3 s) \<and> network_inv (g_net s)"

lemma gprs_dispatch_inv:
  assumes "gprs_dispatch cfg e len rx s = Inr (s', as)" and "gprs_inv s"
  shows "gprs_inv s'"
  using assms
  by (cases "gprs_status s")
    (auto simp: gprs_dispatch_def gprs_state_defs gprs_inv_def Let_def bindR_eq_Inr gprs_retry_fields
      intro: net_rx_write_inv split: if_splits option.splits)

interpretation gm: at_modem gprs_inv "gprs_at_fsm cfg" gprs_irq for cfg
proof unfold_locales
  fix s e s' as d
  assume s: "gprs_inv s"
  then have "uart3_inv (snd (get_line_from_uart3 (g_uart3 s)))" by (simp add: gprs_inv_def get_line_from_uart3_inv)
  then show "gprs_inv s'" if "gprs_at_fsm cfg e s = Inr (s', as)"
    using that s by (auto simp: gprs_at_fsm_def split_beta gprs_inv_def elim!: gprs_dispatch_inv [unfolded gprs_inv_def])
  show "gprs_inv (gprs_irq d s)"
    using s u3.rx_invar by (simp add: gprs_inv_def gprs_irq_def)
qed


interpretation gr: at_reader g_uart3 "\<lambda>q s. s\<lparr>g_uart3 := q\<rparr>" "gprs_dispatch cfg" "gprs_at_fsm cfg" gprs_irq for cfg
  by unfold_locales (simp_all add: gprs_at_fsm_def gprs_irq_def)


section \<open>Bringing the link up\<close>

definition gprs_at :: "GPRS_STATUS_ENUM \<Rightarrow> u32 \<Rightarrow> gprs \<Rightarrow> bool" where
  "gprs_at st c s \<longleftrightarrow> quiet (g_uart3 s) \<and> gprs_status s = st \<and> gprs_tcp_error_count s = c"

text \<open>The replies that report a usable signal and a registered module.\<close>

definition csq_reply :: "bytes \<Rightarrow> bool" where
  "csq_reply l \<longleftrightarrow> text_line l \<and> (case find_str (rx_array l) ''+CSQ:'' of None \<Rightarrow> False
     | Some i \<Rightarrow> (case gprs_csq_value (rx_array l) i of Inl _ \<Rightarrow> False | Inr sq \<Rightarrow> 10 \<le> sq \<and> sq \<le> 31))"

definition creg_reply :: "bytes \<Rightarrow> bool" where
  "creg_reply l \<longleftrightarrow> text_line l \<and> (case find_str (rx_array l) ''+CREG:'' of None \<Rightarrow> False
     | Some i \<Rightarrow> buf_at (rx_array l) (i + 9) \<in> {Inr (of_char CHR ''1''), Inr (of_char CHR ''5'')})"

text \<open>One exchange of the bring-up: from a status to the next, with the commands sent.\<close>

lemma bringup_check:
  assumes "gprs_at GPRS_STATUS_CHECK c s"
    and "\<And>s1. gprs_at GPRS_STATUS_INIT c s1 \<Longrightarrow>
      \<exists>s2. at_dialogue (gprs_at_fsm cfg) gprs_irq ls s1 = Inr (s2, bs) \<and> Q s2"
  shows "\<exists>s2. at_dialogue (gprs_at_fsm cfg) gprs_irq ((e, []) # ls) s = Inr (s2, [tx_cmd ''AT''] @ bs) \<and> Q s2"
  using assms
  by (intro gr.exchange_silent [where P = "gprs_at GPRS_STATUS_INIT c"])
    (auto simp: gprs_at_def gprs_dispatch_def gprs_check_def  )

lemma bringup_init:
  assumes "gprs_at GPRS_STATUS_INIT c s"
    and "reply ''OK'' l"
    and "\<And>s1. gprs_at GPRS_STATUS_SET_MISC c s1 \<Longrightarrow>
      \<exists>s2. at_dialogue (gprs_at_fsm cfg) gprs_irq ls s1 = Inr (s2, bs) \<and> Q s2"
  shows "\<exists>s2. at_dialogue (gprs_at_fsm cfg) gprs_irq ((e, l @ crlf) # ls) s = Inr (s2, [tx_cmd ''AT+CPIN?''] @ bs) \<and> Q s2"
  using assms
  by (intro gr.exchange [where P = "gprs_at GPRS_STATUS_SET_MISC c"])
    (auto simp: gprs_at_def gprs_dispatch_def gprs_init_state_def  dest!: replyD)

lemma bringup_set_misc:
  assumes "gprs_at GPRS_STATUS_SET_MISC c s"
    and "reply ''READY'' l"
    and "\<And>s1. gprs_at GPRS_STATUS_CHECK_CSQ c s1 \<Longrightarrow>
      \<exists>s2. at_dialogue (gprs_at_fsm cfg) gprs_irq ls s1 = Inr (s2, bs) \<and> Q s2"
  shows "\<exists>s2. at_dialogue (gprs_at_fsm cfg) gprs_irq ((e, l @ crlf) # ls) s = Inr (s2, [tx_cmd ''AT+CIPSHUT'', Sys_delay 1000, tx_cmd ''AT+CIPRXGET=1'', Sys_delay 200,
      tx_cmd ''AT+CIPSPRT=0'', Sys_delay 200, tx_cmd ''AT+CSQ''] @ bs) \<and> Q s2"
  using assms
  by (intro gr.exchange [where P = "gprs_at GPRS_STATUS_CHECK_CSQ c"])
    (auto simp: gprs_at_def gprs_dispatch_def gprs_set_misc_def  dest!: replyD)

lemma bringup_check_csq:
  assumes "gprs_at GPRS_STATUS_CHECK_CSQ c s"
    and "csq_reply l"
    and "\<And>s1. gprs_at GPRS_STATUS_CHECK_REG c s1 \<Longrightarrow>
      \<exists>s2. at_dialogue (gprs_at_fsm cfg) gprs_irq ls s1 = Inr (s2, bs) \<and> Q s2"
  shows "\<exists>s2. at_dialogue (gprs_at_fsm cfg) gprs_irq ((e, l @ crlf) # ls) s = Inr (s2, [tx_cmd ''AT+CREG?''] @ bs) \<and> Q s2"
  using assms
  by (intro gr.exchange [where P = "gprs_at GPRS_STATUS_CHECK_REG c"])
    (auto simp: gprs_at_def gprs_dispatch_def gprs_check_csq_def csq_reply_def split: option.splits sum.splits )

lemma bringup_check_reg:
  assumes "gprs_at GPRS_STATUS_CHECK_REG c s"
    and "creg_reply l"
    and "\<And>s1. gprs_at GPRS_STATUS_CHECK_CGATT c s1 \<Longrightarrow>
      \<exists>s2. at_dialogue (gprs_at_fsm cfg) gprs_irq ls s1 = Inr (s2, bs) \<and> Q s2"
  shows "\<exists>s2. at_dialogue (gprs_at_fsm cfg) gprs_irq ((e, l @ crlf) # ls) s = Inr (s2, [tx_cmd ''AT+CGATT?''] @ bs) \<and> Q s2"
  using assms
  by (intro gr.exchange [where P = "gprs_at GPRS_STATUS_CHECK_CGATT c"])
    (auto simp: gprs_at_def gprs_dispatch_def gprs_check_reg_def creg_reply_def split: option.splits )

lemma bringup_check_cgatt:
  assumes "gprs_at GPRS_STATUS_CHECK_CGATT c s"
    and "reply ''+CGATT: 1'' l"
    and "gprs_apn_cmd cfg = Inr apn"
    and "\<And>s1. gprs_at GPRS_STATUS_SET_APN c s1 \<Longrightarrow>
      \<exists>s2. at_dialogue (gprs_at_fsm cfg) gprs_irq ls s1 = Inr (s2, bs) \<and> Q s2"
  shows "\<exists>s2. at_dialogue (gprs_at_fsm cfg) gprs_irq ((e, l @ crlf) # ls) s = Inr (s2, [Uart3_tx (uart3_send_str apn)] @ bs) \<and> Q s2"
  using assms
  by (intro gr.exchange [where P = "gprs_at GPRS_STATUS_SET_APN c"])
    (auto simp: gprs_at_def gprs_dispatch_def gprs_check_cgatt_def  dest!: replyD)

lemma bringup_set_apn:
  assumes "gprs_at GPRS_STATUS_SET_APN c s"
    and "reply ''OK'' l"
    and "\<And>s1. gprs_at GPRS_STATUS_SET_CIICR c s1 \<Longrightarrow>
      \<exists>s2. at_dialogue (gprs_at_fsm cfg) gprs_irq ls s1 = Inr (s2, bs) \<and> Q s2"
  shows "\<exists>s2. at_dialogue (gprs_at_fsm cfg) gprs_irq ((e, l @ crlf) # ls) s = Inr (s2, [tx_cmd ''AT+CIICR''] @ bs) \<and> Q s2"
  using assms
  by (intro gr.exchange [where P = "gprs_at GPRS_STATUS_SET_CIICR c"])
    (auto simp: gprs_at_def gprs_dispatch_def gprs_set_apn_def  dest!: replyD)

lemma bringup_set_ciicr:
  assumes "gprs_at GPRS_STATUS_SET_CIICR c s"
    and "reply ''OK'' l"
    and "\<And>s1. gprs_at GPRS_STATUS_GET_IP c s1 \<Longrightarrow>
      \<exists>s2. at_dialogue (gprs_at_fsm cfg) gprs_irq ls s1 = Inr (s2, bs) \<and> Q s2"
  shows "\<exists>s2. at_dialogue (gprs_at_fsm cfg) gprs_irq ((e, l @ crlf) # ls) s = Inr (s2, [tx_cmd ''AT+CIFSR''] @ bs) \<and> Q s2"
  using assms
  by (intro gr.exchange [where P = "gprs_at GPRS_STATUS_GET_IP c"])
    (auto simp: gprs_at_def gprs_dispatch_def gprs_set_ciicr_def  dest!: replyD)

lemma bringup_get_ip:
  assumes "gprs_at GPRS_STATUS_GET_IP c s"
    and "reply ''.'' l"
    and "\<And>s1. gprs_at GPRS_STATUS_START_TCP c s1 \<Longrightarrow>
      \<exists>s2. at_dialogue (gprs_at_fsm cfg) gprs_irq ls s1 = Inr (s2, bs) \<and> Q s2"
  shows "\<exists>s2. at_dialogue (gprs_at_fsm cfg) gprs_irq ((e, l @ crlf) # ls) s = Inr (s2, [] @ bs) \<and> Q s2"
  using assms
  by (intro gr.exchange [where P = "gprs_at GPRS_STATUS_START_TCP c"])
    (auto simp: gprs_at_def gprs_dispatch_def gprs_get_ip_def  dest!: replyD)

lemma bringup_start_tcp:
  assumes "gprs_at GPRS_STATUS_START_TCP c s" and "\<And>s. gprs_tcp_error_count s = c \<Longrightarrow> gprs_server_connect cfg s = Inr as"
    and "\<And>s1. gprs_at GPRS_STATUS_TCP_CONNECT c s1 \<Longrightarrow>
      \<exists>s2. at_dialogue (gprs_at_fsm cfg) gprs_irq ls s1 = Inr (s2, bs) \<and> Q s2"
  shows "\<exists>s2. at_dialogue (gprs_at_fsm cfg) gprs_irq ((e, []) # ls) s = Inr (s2, as @ bs) \<and> Q s2"
  using assms
  by (intro gr.exchange_silent [where P = "gprs_at GPRS_STATUS_TCP_CONNECT c"])
    (auto simp: gprs_at_def gprs_dispatch_def gprs_start_tcp_def)

lemma bringup_tcp_connect:
  assumes "gprs_at GPRS_STATUS_TCP_CONNECT c s" and "reply ''CONNECT OK'' l" and "clk e 1 - clk e 0 \<le> 1000"
  shows "\<exists>s2. at_dialogue (gprs_at_fsm cfg) gprs_irq [(e, l @ crlf)] s = Inr (s2, [] @ []) \<and>
    gprs_at GPRS_STATUS_COMMUNICATE c s2 \<and> gprs_send_flag s2 = 1"
  using assms
  by (intro gr.exchange [where P = "\<lambda>s. gprs_at GPRS_STATUS_COMMUNICATE c s \<and> gprs_send_flag s = 1"])
    (auto simp: gprs_at_def gprs_dispatch_def gprs_tcp_connect_def gprs_tcp_reply_def RT_TICK_PER_SECOND_def not_less
      dest!: replyD)


lemma gprs_apn_cmd_wf:
  assumes "config_wf cfg"
  shows "gprs_apn_cmd cfg = Inr (str_bytes ''AT+CSTT=\"'' @ cstr (gsm_apn cfg) @ str_bytes ''\"'' @ crlf)"
  using string_of_field [of MAX_APN_LEN "gsm_apn cfg"] assms
  by (simp add: gprs_apn_cmd_def config_wf_def sprintf_into_def max_lens GPRS_SEND_STR_SIZE_def str_bytes_def crlf_def)

definition gprs_host :: "IBOX_CONFIG \<Rightarrow> u32 \<Rightarrow> bytes" where
  "gprs_host cfg errors = cstr (if use_dns cfg = 0 \<or> errors \<ge> 3 then server_ip cfg else server_dsn cfg)"

lemma gprs_server_connect_wf:
  assumes "config_wf cfg"
  shows "gprs_server_connect cfg s = Inr [tx_str ''AT+CIPSTART=\"TCP\",\"'', Uart3_tx (gprs_host cfg (gprs_tcp_error_count s)),
      tx_str ''\",\"'', Uart3_tx (dec (unat (server_port cfg))), Uart3_tx (str_bytes ''\"'' @ crlf)]"
proof -
  have p: "sprintf_into 6 (dec (unat (server_port cfg))) = Inr (dec (unat (server_port cfg)))"
    using dec_u16_length [of "server_port cfg"] by (simp add: sprintf_into_def)
  have "uart3_send_str (str_bytes ''\"'' @ crlf) = str_bytes ''\"'' @ crlf" by (simp add: str_bytes_def crlf_def)
  then show ?thesis
    using p config_strings [OF assms]
    by (simp add: gprs_server_connect_def tx_field_def gprs_host_def uart3_send_str_cstr cstr_no_nul nul_notin_cstr nul_notin_dec)
qed

lemma tx_bytes_cmd: "tx_bytes (tx_cmd c # as) = cstr (at_cmd c) @ tx_bytes as" "tx_bytes (tx_str c # as) = cstr (str_bytes c) @ tx_bytes as"
  by (simp_all add: tx_cmd_def tx_str_def uart3_send_str_cstr)

text \<open>
  C24: The driver brings the link up: from the check of the module, with replies that contain what
  each command waits for, it reaches the communication state and may send; the commands it has
  transmitted on the way are exactly those of the SIM800L bring-up, ending with the connection to
  the configured server.
\<close>

theorem gprs_bringup:
  assumes "config_wf cfg" and "quiet (g_uart3 s)" and "gprs_status s = GPRS_STATUS_CHECK"
    and "reply ''OK'' l1" and "reply ''READY'' l2" and "csq_reply l3" and "creg_reply l4" and "reply ''+CGATT: 1'' l5"
    and "reply ''OK'' l6" and "reply ''OK'' l7" and "reply ''.'' l8" and "reply ''CONNECT OK'' l9"
    and "clk e10 1 - clk e10 0 \<le> 1000"
  shows "\<exists>s2 as. at_dialogue (gprs_at_fsm cfg) gprs_irq
      [(e0, []), (e1, l1 @ crlf), (e2, l2 @ crlf), (e3, l3 @ crlf), (e4, l4 @ crlf), (e5, l5 @ crlf), (e6, l6 @ crlf),
       (e7, l7 @ crlf), (e8, l8 @ crlf), (e9, []), (e10, l9 @ crlf)] s = Inr (s2, as) \<and>
    gprs_status s2 = GPRS_STATUS_COMMUNICATE \<and> gprs_send_flag s2 = 1 \<and>
    tx_bytes as = at_cmd ''AT'' @ at_cmd ''AT+CPIN?'' @ at_cmd ''AT+CIPSHUT'' @ at_cmd ''AT+CIPRXGET=1'' @
      at_cmd ''AT+CIPSPRT=0'' @ at_cmd ''AT+CSQ'' @ at_cmd ''AT+CREG?'' @ at_cmd ''AT+CGATT?'' @
      str_bytes ''AT+CSTT=\"'' @ cstr (gsm_apn cfg) @ str_bytes ''\"'' @ crlf @ at_cmd ''AT+CIICR'' @ at_cmd ''AT+CIFSR'' @
      str_bytes ''AT+CIPSTART=\"TCP\",\"'' @ gprs_host cfg (gprs_tcp_error_count s) @ str_bytes ''\",\"'' @
      dec (unat (server_port cfg)) @ str_bytes ''\"'' @ crlf"
proof -
  let ?apn = "str_bytes ''AT+CSTT=\"'' @ cstr (gsm_apn cfg) @ str_bytes ''\"'' @ crlf"
  let ?c = "gprs_tcp_error_count s"
  let ?as = "[tx_cmd ''AT''] @ [tx_cmd ''AT+CPIN?''] @ [tx_cmd ''AT+CIPSHUT'', Sys_delay 1000, tx_cmd ''AT+CIPRXGET=1'',
        Sys_delay 200, tx_cmd ''AT+CIPSPRT=0'', Sys_delay 200, tx_cmd ''AT+CSQ''] @ [tx_cmd ''AT+CREG?''] @
      [tx_cmd ''AT+CGATT?''] @ [Uart3_tx (uart3_send_str ?apn)] @ [tx_cmd ''AT+CIICR''] @ [tx_cmd ''AT+CIFSR''] @ [] @
      [tx_str ''AT+CIPSTART=\"TCP\",\"'', Uart3_tx (gprs_host cfg ?c), tx_str ''\",\"'',
        Uart3_tx (dec (unat (server_port cfg))), Uart3_tx (str_bytes ''\"'' @ crlf)] @ [] @ []"
  have s: "gprs_at GPRS_STATUS_CHECK ?c s" using assms by (simp add: gprs_at_def)
  have "\<exists>s2. at_dialogue (gprs_at_fsm cfg) gprs_irq
      [(e0, []), (e1, l1 @ crlf), (e2, l2 @ crlf), (e3, l3 @ crlf), (e4, l4 @ crlf), (e5, l5 @ crlf), (e6, l6 @ crlf),
       (e7, l7 @ crlf), (e8, l8 @ crlf), (e9, []), (e10, l9 @ crlf)] s = Inr (s2, ?as) \<and>
      (gprs_at GPRS_STATUS_COMMUNICATE ?c s2 \<and> gprs_send_flag s2 = 1)"
    by (intro bringup_check [OF s] bringup_init [OF _ assms(4)] bringup_set_misc [OF _ assms(5)]
        bringup_check_csq [OF _ assms(6)] bringup_check_reg [OF _ assms(7)]
        bringup_check_cgatt [OF _ assms(8) gprs_apn_cmd_wf [OF assms(1)]] bringup_set_apn [OF _ assms(9)]
        bringup_set_ciicr [OF _ assms(10)] bringup_get_ip [OF _ assms(11)] bringup_start_tcp
        bringup_tcp_connect [OF _ assms(12,13)]) (simp_all add: gprs_server_connect_wf [OF assms(1)])
  then obtain s2 where s2: "at_dialogue (gprs_at_fsm cfg) gprs_irq
      [(e0, []), (e1, l1 @ crlf), (e2, l2 @ crlf), (e3, l3 @ crlf), (e4, l4 @ crlf), (e5, l5 @ crlf), (e6, l6 @ crlf),
       (e7, l7 @ crlf), (e8, l8 @ crlf), (e9, []), (e10, l9 @ crlf)] s = Inr (s2, ?as)"
      "gprs_status s2 = GPRS_STATUS_COMMUNICATE" "gprs_send_flag s2 = 1"
    by (auto simp: gprs_at_def)
  have apn: "uart3_send_str ?apn = ?apn"
    unfolding uart3_send_str_cstr by (intro cstr_no_nul) (simp add: nul_notin_cstr str_bytes_def crlf_def)
  show ?thesis
    by (intro exI conjI, rule s2(1), rule s2(2), rule s2(3))
      (simp add: apn, simp add: tx_cmd_def tx_str_def at_cmd_def str_bytes_def crlf_def)
qed


definition demo_gprs :: "GPRS_STATUS_ENUM \<Rightarrow> gprs" where
  "demo_gprs st = \<lparr>gprs_status = st, gprs_status_error_count = 0, gprs_link_error_count = 0, gprs_error_count = 0,
     gprs_timeout = 0, gprs_tcp_error_count = 0, gprs_send_flag = 0, gprs_send_timeout_flag = 0, gprs_tx_counter = 0,
     gprs_rx_counter = 0, g_uart3 = demo_uart3, g_net = demo_network 0 []\<rparr>"

lemma demo_gprs_sel [simp]: "g_uart3 (demo_gprs st) = demo_uart3" "gprs_status (demo_gprs st) = st"
  "gprs_tcp_error_count (demo_gprs st) = 0" "gprs_tx_counter (demo_gprs st) = 0" "g_net (demo_gprs st) = demo_network 0 []"
  "gprs_timeout (demo_gprs st) = 0" "gprs_status_error_count (demo_gprs st) = 0"
  by (simp_all add: demo_gprs_def)

lemma demo_gprs_inv: "gprs_inv (demo_gprs st)"
  using demo_network_inv [of "[]" 0] demo_uart3_quiet by (simp add: gprs_inv_def quiet_def)

theorem gprs_bringup_witness:
  "\<exists>s2 as. at_dialogue (gprs_at_fsm ibox_config) gprs_irq
      [(demo_env, []), (demo_env, str_bytes ''OK'' @ crlf), (demo_env, str_bytes ''+CPIN: READY'' @ crlf),
       (demo_env, str_bytes ''+CSQ: 21,0'' @ crlf), (demo_env, str_bytes ''+CREG: 0,1'' @ crlf),
       (demo_env, str_bytes ''+CGATT: 1'' @ crlf), (demo_env, str_bytes ''OK'' @ crlf), (demo_env, str_bytes ''OK'' @ crlf),
       (demo_env, str_bytes ''10.0.0.7'' @ crlf), (demo_env, []), (demo_env, str_bytes ''CONNECT OK'' @ crlf)]
      (demo_gprs GPRS_STATUS_CHECK) = Inr (s2, as) \<and>
    gprs_status s2 = GPRS_STATUS_COMMUNICATE"
proof -
  have r: "reply ''OK'' (str_bytes ''OK'')" "reply ''READY'' (str_bytes ''+CPIN: READY'')"
      "reply ''+CGATT: 1'' (str_bytes ''+CGATT: 1'')" "reply ''.'' (str_bytes ''10.0.0.7'')"
      "reply ''CONNECT OK'' (str_bytes ''CONNECT OK'')"
    by (simp_all add: reply_def text_line_def str_bytes_def UART3_RX_SIZE_def)
  have c: "csq_reply (str_bytes ''+CSQ: 21,0'')"
  proof -
    have t: "text_line (str_bytes ''+CSQ: 21,0'')" by (simp add: text_line_def str_bytes_def UART3_RX_SIZE_def)
    have "gprs_csq_value (rx_array (str_bytes ''+CSQ: 21,0'')) 0 = Inr 21"
      by (simp add: gprs_csq_value_def buf_at_def rx_array_def str_bytes_def UART3_RX_SIZE_def)
    then show ?thesis using t by (simp add: csq_reply_def find_str_line [OF t]) (simp add: str_bytes_def)
  qed
  have g: "creg_reply (str_bytes ''+CREG: 0,1'')"
  proof -
    have t: "text_line (str_bytes ''+CREG: 0,1'')" by (simp add: text_line_def str_bytes_def UART3_RX_SIZE_def)
    have "buf_at (rx_array (str_bytes ''+CREG: 0,1'')) 9 = Inr (of_char CHR ''1'')"
      by (simp add: buf_at_def rx_array_def str_bytes_def UART3_RX_SIZE_def)
    then show ?thesis using t by (simp add: creg_reply_def find_str_line [OF t]) (simp add: str_bytes_def)
  qed
  have "clk demo_env 1 - clk demo_env 0 \<le> 1000" by (simp add: demo_env_def)
  from gprs_bringup [OF ibox_config_wf _ _ r(1,2) c g r(3) r(1) r(1) r(4) r(5) this,
      of "demo_gprs GPRS_STATUS_CHECK" demo_env demo_env demo_env demo_env demo_env demo_env demo_env demo_env demo_env demo_env]
  show ?thesis by auto
qed

section \<open>Every run\<close>

text \<open>
  In every step the driver keeps to the dialogue \<open>gprs_next\<close>: it leaves a status forwards only on
  the module's reply; in particular the communication state is entered only on \<open>CONNECT OK\<close> or
  from the handling of received data.
\<close>

theorem gprs_follows_protocol:
  assumes "gprs_at_fsm cfg e s = Inr (s', as)"
  shows "gprs_status s' \<in> set (gprs_next (rx_array (fst (get_line_from_uart3 (g_uart3 s)))) (gprs_status s))"
  using gprs_dispatch_next [of cfg e] assms by (fastforce simp: gprs_at_fsm_def split_beta)

theorem gprs_follows_protocol_witness:
  "\<exists>s' as. gprs_at_fsm ibox_config demo_env (demo_gprs GPRS_STATUS_CHECK) = Inr (s', as) \<and>
    gprs_status s' \<in> set (gprs_next (rx_array (fst (get_line_from_uart3 demo_uart3))) GPRS_STATUS_CHECK)"
proof -
  obtain s' as where "gprs_at_fsm ibox_config demo_env (demo_gprs GPRS_STATUS_CHECK) = Inr (s', as)"
    by (auto simp: gprs_at_fsm_def split_beta gprs_dispatch_def gprs_check_def demo_gprs_def)
  with gprs_follows_protocol [OF this] show ?thesis by auto
qed

text \<open>
  In every run from a consistent state, whatever bytes arrive and however the clock runs, the
  error counter of the current status stays at most five and the receive ring and the network
  buffers stay consistent.
\<close>

theorem gprs_runs_safe:
  assumes "at_reach (gprs_at_fsm cfg) gprs_irq s0 s" and "gprs_inv s0"
  shows "gprs_status_error_count s \<le> 5 \<and> uart3_inv (g_uart3 s) \<and> network_inv (g_net s)"
  using gm.reach_inv [OF assms] by (simp add: gprs_inv_def)

theorem gprs_runs_safe_witness: "gprs_status_error_count (demo_gprs GPRS_STATUS_CHECK) \<le> 5"
  using gprs_runs_safe [OF at_reach.start demo_gprs_inv] by blast

fun gprs_on_event :: "at_event \<Rightarrow> gprs \<Rightarrow> gprs" where
  "gprs_on_event (Rx_byte d) s = gprs_irq d s"
| "gprs_on_event (Net_layer n) s = s\<lparr>g_net := n\<rparr>"

lemma gprs_dispatch_tx_counter:
  assumes "gprs_dispatch cfg e len rx s = Inr (s', as)" and "gprs_tx_counter s = 0"
  shows "gprs_tx_counter s' = 0"
  using assms
  by (cases "gprs_status s")
    (auto simp: gprs_dispatch_def gprs_state_defs Let_def bindR_eq_Inr gprs_retry_fields split: if_splits option.splits)

interpretation gs: at_modem "\<lambda>s :: gprs. gprs_tx_counter s = 0" "gprs_at_fsm cfg" gprs_on_event for cfg
proof unfold_locales
  fix s s' :: gprs and e as d
  assume s: "gprs_tx_counter s = 0"
  show "gprs_tx_counter s' = 0" if "gprs_at_fsm cfg e s = Inr (s', as)"
    using that s by (simp add: gprs_at_fsm_def split_beta) (erule gprs_dispatch_tx_counter, simp)
  show "gprs_tx_counter (gprs_on_event d s) = 0" using s by (cases d) (simp_all add: gprs_irq_def)
qed

text \<open>
  The GPRS build never transmits user data: \<open>gprs_tx_counter\<close>, which nothing outside the driver
  sets, is zero in every run, so the communication state transmits nothing but the request for
  received data, whatever the network layer has put into the transmit buffer.
\<close>

theorem gprs_never_sends:
  assumes "at_reach (gprs_at_fsm cfg) gprs_on_event s0 s" and "gprs_tx_counter s0 = 0"
    and "gprs_status s = GPRS_STATUS_COMMUNICATE" and "gprs_at_fsm cfg e s = Inr (s', as)"
  shows "gprs_tx_counter s = 0 \<and> set as \<subseteq> {tx_cmd ''AT+CIPRXGET=2,1460''}"
proof -
  have "gprs_tx_counter s = 0" using gs.reach_inv [OF assms(1,2)] .
  then show ?thesis
    using assms(3,4)
    by (auto simp: gprs_at_fsm_def split_beta gprs_dispatch_def gprs_communicate_def split: if_splits)
qed

theorem gprs_never_sends_witness:
  "\<exists>s' as. gprs_at_fsm ibox_config demo_env (gprs_on_event (Net_layer (demo_network 0 [])) (demo_gprs GPRS_STATUS_COMMUNICATE)) = Inr (s', as) \<and>
    set as \<subseteq> {tx_cmd ''AT+CIPRXGET=2,1460''}"
proof -
  let ?s = "gprs_on_event (Net_layer (demo_network 0 [])) (demo_gprs GPRS_STATUS_COMMUNICATE)"
  have r: "at_reach (gprs_at_fsm ibox_config) gprs_on_event (demo_gprs GPRS_STATUS_COMMUNICATE) ?s"
    by (intro at_reach.event at_reach.start)
  have "gprs_tx_counter ?s = 0" "gprs_status ?s = GPRS_STATUS_COMMUNICATE" by simp_all
  then have "\<exists>s' as. gprs_at_fsm ibox_config demo_env ?s = Inr (s', as)"
    by (auto simp: gprs_at_fsm_def split_beta gprs_dispatch_def gprs_communicate_def split: if_split)
  then obtain s' as where "gprs_at_fsm ibox_config demo_env ?s = Inr (s', as)" by blast
  with gprs_never_sends [OF r _ _ this] show ?thesis by auto
qed

section \<open>Received data\<close>

lemma mode2_not_mode3:
  assumes "of_char CHR ''+'' \<notin> set r"
  shows "strstr (str_bytes ''+CIPRXGET: 2,'' @ r) (str_bytes ''+CIPRXGET: 3'') = None"
proof (cases "strstr (str_bytes ''+CIPRXGET: 2,'' @ r) (str_bytes ''+CIPRXGET: 3'')")
  case (Some i)
  let ?l = "str_bytes ''+CIPRXGET: 2,'' @ r" and ?p = "str_bytes ''+CIPRXGET: 3''"
  have h: "i < length ?l" "?l ! i = of_char CHR ''+''" "take (length ?p) (drop i ?l) = ?p"
    using strstr_hit [OF Some] strstr_SomeD [OF Some] by (simp_all add: str_bytes_def)
  have "i = 0"
  proof (cases "i < 13")
    case True
    then have "i \<in> set [0..<13]" by simp
    then show ?thesis using h(2) by (auto simp: upt_rec str_bytes_def split: if_splits)
  next
    case False
    have "length (str_bytes ''+CIPRXGET: 2,'') = 13" by (simp add: str_bytes_def)
    then have "?l ! i = r ! (i - 13)" "i - 13 < length r" using h(1) False by (auto simp: nth_append)
    then show ?thesis using h(2) assms nth_mem by metis
  qed
  then show ?thesis using h(3) by (simp add: str_bytes_def)
qed

text \<open>
  Received data is never taken over: the driver asks for it in mode 2 (\<open>AT+CIPRXGET=2,1460\<close>) but
  waits for a reply of mode 3, so a mode 2 reply leaves it waiting, and it restarts the connection
  when \<open>RT_TICK_PER_SECOND * 10\<close>, meant as ten seconds, has passed as a thousand seconds.
\<close>

theorem gprs_mode2_reply_ignored:
  assumes "quiet (g_uart3 s)" and "gprs_status s = GPRS_STATUS_RX_PROC"
    and "text_line (str_bytes ''+CIPRXGET: 2,'' @ r)" and "of_char CHR ''+'' \<notin> set r"
  shows "\<exists>q. gprs_at_fsm cfg e (fold gprs_irq (str_bytes ''+CIPRXGET: 2,'' @ r @ crlf) s) =
    Inr (s\<lparr>g_uart3 := q, gprs_status :=
      (if clk e 0 - gprs_timeout s > 1000 then GPRS_STATUS_RESTART_TCP else GPRS_STATUS_RX_PROC)\<rparr>, [])"
proof -
  let ?l = "str_bytes ''+CIPRXGET: 2,'' @ r"
  obtain q where "gprs_at_fsm cfg e (fold gprs_irq (?l @ crlf) s) =
      gprs_dispatch cfg e (of_nat (length ?l)) (rx_array ?l) (s\<lparr>g_uart3 := q\<rparr>)"
    using gr.step_line [OF assms(1), of ?l cfg e] assms(3) by (auto simp: text_line_def)
  moreover have "find_str (rx_array ?l) ''+CIPRXGET: 3'' = None"
    using mode2_not_mode3 [OF assms(4)] by (simp add: find_str_line [OF assms(3)])
  moreover have "s\<lparr>g_uart3 := q, gprs_status := GPRS_STATUS_RX_PROC\<rparr> = s\<lparr>g_uart3 := q\<rparr>"
    using assms(2) by (cases s) simp
  ultimately show ?thesis
    using assms(2) by (auto simp: gprs_dispatch_def gprs_rx_proc_def RT_TICK_PER_SECOND_def intro!: exI [of _ q])
qed

theorem gprs_mode2_reply_ignored_witness:
  "\<exists>q. gprs_at_fsm ibox_config demo_env (fold gprs_irq (str_bytes ''+CIPRXGET: 2,'' @ str_bytes ''4,0'' @ crlf)
      (demo_gprs GPRS_STATUS_RX_PROC)) = Inr ((demo_gprs GPRS_STATUS_RX_PROC)\<lparr>g_uart3 := q, gprs_status := GPRS_STATUS_RX_PROC\<rparr>, [])"
proof -
  have "text_line (str_bytes ''+CIPRXGET: 2,'' @ str_bytes ''4,0'')" "of_char CHR ''+'' \<notin> set (str_bytes ''4,0'')"
    by (simp_all add: text_line_def str_bytes_def UART3_RX_SIZE_def)
  from gprs_mode2_reply_ignored [OF _ _ this, of "demo_gprs GPRS_STATUS_RX_PROC" ibox_config demo_env]
  show ?thesis by (simp add: demo_env_def)
qed

section \<open>Reading the IMEI\<close>

text \<open>The C library's \<open>atoll\<close> on a string of digits, with an optional sign after white space.\<close>

definition is_digit :: "u8 \<Rightarrow> bool" where "is_digit b \<longleftrightarrow> 48 \<le> b \<and> b \<le> 57"
definition is_space :: "u8 \<Rightarrow> bool" where "is_space b \<longleftrightarrow> b = 32 \<or> 9 \<le> b \<and> b \<le> 13"

definition atoll :: "bytes \<Rightarrow> int" where
  "atoll t =
     (case dropWhile is_space t of
        [] \<Rightarrow> 0
      | b # bs \<Rightarrow>
          if b = 45 then - undec 0 (takeWhile is_digit bs)
          else if b = 43 then undec 0 (takeWhile is_digit bs)
          else undec 0 (takeWhile is_digit (b # bs)))"

lemma line3_loop_count:
  "unat (u3_count (snd (line3_loop q out))) + length (fst (line3_loop q out)) \<le> unat (u3_count q) + length out"
proof (induction q out rule: line3_loop.induct)
  case (1 q out)
  show ?case
  proof (cases "u3_count q = 0")
    case True
    then show ?thesis by (simp add: line3_loop.simps [of q])
  next
    case False
    obtain d q' where g: "uart3_get q = (d, q')" by fastforce
    then have "unat (u3_count q') = unat (u3_count q) - 1" "0 < unat (u3_count q)"
      using False by (auto simp: uart3_get_def Let_def unat_dec unat_gt_0)
    with 1 [OF False g [symmetric] refl] show ?thesis
      using False g by (auto simp: line3_loop.simps [of q])
  qed
qed

text \<open>
  The loop reads lines into \<open>imei_buf[20]\<close> until one has 15 characters or is empty.  A line of 20 or
  more overruns the array.
\<close>

function imei_loop :: "uart3_rx \<Rightarrow> (64 word) option c_result" where
  "imei_loop q =
     (let (l, q') = get_line_from_uart3 q
      in if length l \<ge> 20 then Inl OutOfBounds
         else if length l = 15 then Inr (Some (of_int (atoll (cstr l))))
         else if l \<noteq> [] then imei_loop q' else Inr None)"
  by pat_completeness auto
termination
proof (relation "measure (\<lambda>q. unat (u3_count q))")
  fix q l q' p
  assume "p = get_line_from_uart3 q" "(l, q') = p" "l \<noteq> []"
  then show "(q', q) \<in> measure (\<lambda>q. unat (u3_count q))"
    using line3_loop_count [of q "[]"] by (cases l) (auto simp: get_line_from_uart3_def dest!: sym [of "(_, _)"])
qed simp

text \<open>\<open>rxd\<close> is what the module sends during the last delay.\<close>

definition gprs_get_imei :: "bytes \<Rightarrow> gprs \<Rightarrow> IBOX_CONFIG \<Rightarrow> (gprs \<times> IBOX_CONFIG \<times> at_action list) c_result" where
  "gprs_get_imei rxd s cfg =
     (let s1 = fold gprs_irq rxd (gprs_clear_rx s)
      in bindR (imei_loop (g_uart3 s1)) (\<lambda>r.
           Inr (gprs_clear_rx s1, case r of Some n \<Rightarrow> cfg\<lparr>gprs_imei := n\<rparr> | None \<Rightarrow> cfg,
                [Sys_delay 3000, tx_cmd ''ATE0'', Sys_delay 1000, tx_cmd ''AT+GSN'', Sys_delay 1000])))"

end
