(* ===== verification/Wifi.thy ===== *)
theory Wifi
  imports At_Common
begin

text \<open>
  The WiFi driver for the ESP8266, \<open>Drivers/BSP/src/ibox_wifi.c\<close>, and the thread that runs it,
  \<open>Application/src/wireless_net.c\<close>: the AT state machine, one definition per case of its
  \<open>switch\<close>, with the helpers it calls.  This is the link of the firmware's build (\<open>USE_WIFI\<close>).
\<close>

section \<open>State\<close>

datatype ESP8266_STATUS_ENUM =
    ESP8266_STATUS_CHECK | ESP8266_STATUS_CHECK_MODE | ESP8266_STATUS_WAIT_CHECK_MODE
  | ESP8266_STATUS_SET_MODE | ESP8266_STATUS_WAIT_SET_MODE | ESP8266_STATUS_RESET
  | ESP8266_STATUS_WAIT_RESET | ESP8266_STATUS_WAIT_CLOSE_ECHO | ESP8266_STATUS_WIFI_CONNECT
  | ESP8266_STATUS_WAIT_CONNECTED | ESP8266_STATUS_WAIT_GOT_IP | ESP8266_STATUS_LINK_OK
  | ESP8266_STATUS_GET_IP | ESP8266_STATUS_GET_MAC | ESP8266_STATUS_RESTART_CONNECT_SEVER
  | ESP8266_STATUS_CONNECT_SERVER | ESP8266_STATUS_WAIT_LINK_SERVER | ESP8266_STATUS_COMMUNICATE

text \<open>
  The variables of the driver; \<open>w_config\<close> is \<open>ibox_config\<close>, into which the driver writes the
  module's addresses, and \<open>w_net\<close> the network layer, which holds \<open>wifi_tx_len\<close> and
  \<open>uart3_tx_buf\<close>.
\<close>

record wifi =
  wifi_status_error_count :: u8
  wifi_link_error_count :: u8
  wifi_error_count :: u8
  wifi_tcp_error_count :: u8
  wifi_timeout :: u32
  wifi_send_flag :: u8
  esp8266_status :: ESP8266_STATUS_ENUM
  w_config :: IBOX_CONFIG
  w_uart3 :: uart3_rx
  w_net :: network

type_synonym wifi_result = "(wifi \<times> at_action list) c_result"

definition wifi_clear_rx :: "wifi \<Rightarrow> wifi" where
  "wifi_clear_rx s = s\<lparr>w_uart3 := uart3_rx_buf_clear (w_uart3 s)\<rparr>"

text \<open>The reset and enable lines and the UART configuration are register writes.\<close>

definition wifi_init :: "wifi \<Rightarrow> wifi \<times> at_action list" where
  "wifi_init s = (wifi_clear_rx s, [Sys_delay 1000, Sys_delay 2000])"

definition get_esp8266_status :: "wifi \<Rightarrow> ESP8266_STATUS_ENUM" where
  "get_esp8266_status s = esp8266_status s"

section \<open>Helpers\<close>

definition wifi_server_connect :: "wifi \<Rightarrow> at_action list c_result" where
  "wifi_server_connect s =
     (let cfg = w_config s
      in bindR (tx_field (if use_dns cfg = 0 \<or> wifi_tcp_error_count s \<ge> 3 then server_ip cfg else server_dsn cfg)) (\<lambda>host.
         bindR (sprintf_into 6 (dec (unat (server_port cfg)))) (\<lambda>port.
           Inr [tx_str ''AT+CIPSTART=\"TCP\",\"'', host, tx_str ''\",'', Uart3_tx (uart3_send_str port),
                Uart3_tx (uart3_send_str crlf)])))"

definition esp8266_send_data :: "wifi \<Rightarrow> at_action list c_result" where
  "esp8266_send_data s =
     (let n = unat (net_wifi_tx_len (w_net s))
      in bindR (sprintf_into 20 (str_bytes ''AT+CIPSEND='' @ dec n @ crlf)) (\<lambda>str.
         bindR (uart3_send_data (net_uart3_tx_buf (w_net s)) n) (\<lambda>d.
           Inr [Uart3_tx (uart3_send_str str), Sys_delay 50, Uart3_tx d])))"

text \<open>
  \<^verbatim>\<open>sscanf(rx, "%*[^\"]\"%[^\"]", dst)\<close>: the text between the first two quotation marks.  Both
  conversions need at least one character; nothing is stored when one fails.  The text and its NUL
  are stored without a limit.
\<close>

definition scan_quoted :: "bytes \<Rightarrow> bytes option" where
  "scan_quoted t =
     (case dropWhile (\<lambda>b. b \<noteq> 34) t of
        [] \<Rightarrow> None
      | _ # r \<Rightarrow>
          (let v = takeWhile (\<lambda>b. b \<noteq> 34) r
           in if takeWhile (\<lambda>b. b \<noteq> 34) t = [] \<or> v = [] then None else Some v))"

definition sscanf_quoted :: "bytes \<Rightarrow> bytes \<Rightarrow> bytes c_result" where
  "sscanf_quoted rx dst =
     (case scan_quoted (cstr rx) of
        None \<Rightarrow> Inr dst
      | Some v \<Rightarrow> if length v < length dst then Inr (v @ 0 # drop (length v + 1) dst) else Inl OutOfBounds)"

text \<open>
  The \<open>else\<close> branch of the states that wait for a reply: after the time limit the error is counted
  and the command repeated, or the driver goes back to a status that repeats it.
\<close>

definition wifi_retry :: "u32 \<Rightarrow> at_env \<Rightarrow> (wifi \<Rightarrow> wifi \<times> at_action list) \<Rightarrow> wifi \<Rightarrow> wifi_result" where
  "wifi_retry lim e again s =
     (if clk e 0 - wifi_timeout s > lim then
        (let s1 = s\<lparr>wifi_timeout := clk e 1, wifi_status_error_count := wifi_status_error_count s + 1\<rparr>
         in if wifi_status_error_count s1 > 5 then
              Inr (s1\<lparr>wifi_error_count := wifi_error_count s1 + 1, wifi_status_error_count := 0\<rparr>, [])
            else Inr (again s1))
      else Inr (s, []))"

definition again_cmd :: "string \<Rightarrow> wifi \<Rightarrow> wifi \<times> at_action list" where
  "again_cmd c s = (s, [tx_cmd c])"

definition again_status :: "ESP8266_STATUS_ENUM \<Rightarrow> wifi \<Rightarrow> wifi \<times> at_action list" where
  "again_status st s = (s\<lparr>esp8266_status := st\<rparr>, [])"

text \<open>The assignments that most transitions share.\<close>

definition wifi_enter :: "at_env \<Rightarrow> ESP8266_STATUS_ENUM \<Rightarrow> wifi \<Rightarrow> wifi" where
  "wifi_enter e st s = s\<lparr>wifi_status_error_count := 0, wifi_timeout := clk e 0, esp8266_status := st\<rparr>"

section \<open>The states\<close>

definition wifi_check :: "at_env \<Rightarrow> wifi \<Rightarrow> wifi_result" where
  "wifi_check e s = Inr (wifi_enter e ESP8266_STATUS_CHECK_MODE (wifi_clear_rx s), [tx_cmd ''ATE0''])"

definition wifi_check_mode :: "at_env \<Rightarrow> bytes \<Rightarrow> wifi \<Rightarrow> wifi_result" where
  "wifi_check_mode e rx s =
     (if has_str_in rx ''OK'' then Inr (wifi_enter e ESP8266_STATUS_WAIT_CHECK_MODE s, [tx_cmd ''AT+CWMODE?''])
      else wifi_retry 2 e (again_cmd ''ATE0'') s)"

definition wifi_wait_check_mode :: "at_env \<Rightarrow> bytes \<Rightarrow> wifi \<Rightarrow> wifi_result" where
  "wifi_wait_check_mode e rx s =
     (case find_str rx ''+CWMODE:'' of
        Some i \<Rightarrow> bindR (buf_at rx (i + 8)) (\<lambda>b.
          Inr (wifi_enter e (if b - 48 = 1 then ESP8266_STATUS_LINK_OK else ESP8266_STATUS_SET_MODE) s, []))
      | None \<Rightarrow> wifi_retry 2 e (again_cmd ''AT+CWMODE?'') s)"

definition wifi_set_mode :: "at_env \<Rightarrow> wifi \<Rightarrow> wifi_result" where
  "wifi_set_mode e s = Inr (wifi_clear_rx (wifi_enter e ESP8266_STATUS_WAIT_SET_MODE s), [tx_cmd ''AT+CWMODE=1''])"

definition wifi_wait_set_mode :: "at_env \<Rightarrow> bytes \<Rightarrow> wifi \<Rightarrow> wifi_result" where
  "wifi_wait_set_mode e rx s =
     (if has_str_in rx ''OK'' then Inr (s, []) else wifi_retry 3 e (again_cmd ''AT+CWMODE=1'') s)"

definition wifi_reset :: "at_env \<Rightarrow> wifi \<Rightarrow> wifi_result" where
  "wifi_reset e s = Inr (wifi_enter e ESP8266_STATUS_WAIT_RESET s, [tx_cmd ''AT+RST''])"

definition wifi_wait_reset :: "at_env \<Rightarrow> bytes \<Rightarrow> wifi \<Rightarrow> wifi_result" where
  "wifi_wait_reset e rx s =
     (if has_str_in rx ''OK'' then
        Inr (wifi_enter e ESP8266_STATUS_WAIT_CLOSE_ECHO (wifi_clear_rx s), [Sys_delay 2000, tx_cmd ''ATE0''])
      else wifi_retry 4 e (again_status ESP8266_STATUS_RESET) s)"

definition wifi_wait_close_echo :: "at_env \<Rightarrow> bytes \<Rightarrow> wifi \<Rightarrow> wifi_result" where
  "wifi_wait_close_echo e rx s =
     (if has_str_in rx ''OK'' then Inr (wifi_enter e ESP8266_STATUS_WIFI_CONNECT s, [])
      else wifi_retry 3 e (again_cmd ''ATE0'') s)"

definition wifi_connect :: "at_env \<Rightarrow> wifi \<Rightarrow> wifi_result" where
  "wifi_connect e s =
     bindR (tx_field (wifi_ssid (w_config s))) (\<lambda>ssid. bindR (tx_field (wifi_password (w_config s))) (\<lambda>pass.
       Inr (wifi_enter e ESP8266_STATUS_WAIT_CONNECTED (wifi_clear_rx s),
            [tx_str ''AT+CWJAP=\"'', ssid, tx_str ''\",\"'', pass, Uart3_tx (uart3_send_str (str_bytes ''\"'' @ crlf))])))"

definition wifi_wait_connected :: "at_env \<Rightarrow> bytes \<Rightarrow> wifi \<Rightarrow> wifi_result" where
  "wifi_wait_connected e rx s =
     (if has_str_in rx ''WIFI CONNECTED'' then Inr (wifi_enter e ESP8266_STATUS_WAIT_GOT_IP s, [])
      else wifi_retry 3 e (again_status ESP8266_STATUS_WIFI_CONNECT) s)"

definition wifi_wait_got_ip :: "at_env \<Rightarrow> bytes \<Rightarrow> wifi \<Rightarrow> wifi_result" where
  "wifi_wait_got_ip e rx s =
     (if has_str_in rx ''WIFI GOT IP'' then Inr (wifi_enter e ESP8266_STATUS_LINK_OK s, [])
      else wifi_retry 4 e (again_status ESP8266_STATUS_WIFI_CONNECT) s)"

definition wifi_link_ok :: "at_env \<Rightarrow> wifi \<Rightarrow> wifi_result" where
  "wifi_link_ok e s = Inr (wifi_clear_rx (wifi_enter e ESP8266_STATUS_GET_IP s), [tx_cmd ''AT+CIFSR''])"

definition wifi_get_ip :: "at_env \<Rightarrow> bytes \<Rightarrow> wifi \<Rightarrow> wifi_result" where
  "wifi_get_ip e rx s =
     (if has_str_in rx ''+CIFSR:STAIP,'' then
        bindR (sscanf_quoted rx (wifi_ip (w_config s))) (\<lambda>ip.
        bindR (string_of ip) (\<lambda>t.
          Inr ((wifi_enter e (if t = str_bytes ''0.0.0.0'' then ESP8266_STATUS_WIFI_CONNECT else ESP8266_STATUS_GET_MAC) s)
                 \<lparr>w_config := (w_config s)\<lparr>wifi_ip := ip\<rparr>\<rparr>, [])))
      else wifi_retry 3 e (again_status ESP8266_STATUS_LINK_OK) s)"

definition wifi_get_mac :: "at_env \<Rightarrow> bytes \<Rightarrow> wifi \<Rightarrow> wifi_result" where
  "wifi_get_mac e rx s =
     (if has_str_in rx ''+CIFSR:STAMAC,'' then
        bindR (sscanf_quoted rx (wifi_mac (w_config s))) (\<lambda>mac.
          Inr (wifi_clear_rx (wifi_enter e ESP8266_STATUS_CONNECT_SERVER s)
                 \<lparr>w_config := (w_config s)\<lparr>wifi_mac := mac\<rparr>\<rparr>, []))
      else if clk e 0 - wifi_timeout s > 5 then
        Inr (s\<lparr>wifi_error_count := wifi_error_count s + 1, esp8266_status := ESP8266_STATUS_RESET,
               wifi_status_error_count := 0\<rparr>, [])
      else Inr (s, []))"

definition wifi_restart_connect :: "wifi \<Rightarrow> wifi_result" where
  "wifi_restart_connect s =
     Inr ((wifi_clear_rx s)\<lparr>esp8266_status := ESP8266_STATUS_CONNECT_SERVER\<rparr>, [tx_cmd ''AT+CIPCLOSE'', Sys_delay 1000])"

definition wifi_connect_server :: "at_env \<Rightarrow> wifi \<Rightarrow> wifi_result" where
  "wifi_connect_server e s =
     bindR (wifi_server_connect s) (\<lambda>as. Inr (wifi_enter e ESP8266_STATUS_WAIT_LINK_SERVER (wifi_clear_rx s), as))"

text \<open>Here the error counter is not reset after the fifth error.\<close>

definition wifi_wait_link_server :: "at_env \<Rightarrow> bytes \<Rightarrow> wifi \<Rightarrow> wifi_result" where
  "wifi_wait_link_server e rx s =
     (if has_str_in rx ''ERROR'' then
        Inr (s\<lparr>wifi_tcp_error_count := wifi_tcp_error_count s + 1, esp8266_status := ESP8266_STATUS_CONNECT_SERVER\<rparr>, [])
      else if has_str_in rx ''CONNECT'' then
        Inr (wifi_clear_rx (wifi_enter e ESP8266_STATUS_COMMUNICATE (s\<lparr>wifi_tcp_error_count := 0\<rparr>)), [])
      else if clk e 0 - wifi_timeout s > 3 then
        (let s1 = s\<lparr>wifi_timeout := clk e 1, wifi_status_error_count := wifi_status_error_count s + 1\<rparr>
         in if wifi_status_error_count s1 > 5 then Inr (s1\<lparr>wifi_error_count := wifi_error_count s1 + 1\<rparr>, [])
            else Inr (s1\<lparr>esp8266_status := ESP8266_STATUS_CONNECT_SERVER\<rparr>, []))
      else Inr (s, []))"

text \<open>A line in the communication state.\<close>

definition wifi_receive :: "at_env \<Rightarrow> bytes \<Rightarrow> wifi \<Rightarrow> wifi_result" where
  "wifi_receive e rx s =
     (if has_str_in rx ''CLOSED'' then Inr (s\<lparr>esp8266_status := ESP8266_STATUS_RESTART_CONNECT_SEVER\<rparr>, [])
      else if has_str_in rx ''ERROR'' then Inr (s\<lparr>esp8266_status := ESP8266_STATUS_WIFI_CONNECT\<rparr>, [])
      else if has_str_in rx ''SEND OK'' then
        Inr (s\<lparr>w_net := (w_net s)\<lparr>net_wifi_tx_len := 0\<rparr>, wifi_send_flag := 1\<rparr>, map Kernel net_tx_sem_release)
      else case find_str rx ''+IPD,'' of
        None \<Rightarrow> Inr (s, [])
      | Some i \<Rightarrow> bindR (parse_until (of_char CHR '':'') 0 (drop (i + 5) rx)) (\<lambda>(n, rest).
          bindR (net_rx_write (rx_sem_ok e) rest n (w_net s)) (\<lambda>(_, net, ks).
            Inr (s\<lparr>w_net := net\<rparr>, map Kernel ks))))"

text \<open>Without a line: send what the network layer has put into the transmit buffer.\<close>

definition wifi_transmit :: "at_env \<Rightarrow> wifi \<Rightarrow> wifi_result" where
  "wifi_transmit e s =
     (let send = net_wifi_tx_len (w_net s) \<noteq> 0 \<and> wifi_send_flag s \<noteq> 0
      in bindR (if send then esp8266_send_data s else Inr []) (\<lambda>as.
         let s1 = (if send then s\<lparr>wifi_timeout := clk e 0, wifi_send_flag := 0\<rparr> else s)
         in if clk e (if send then 1 else 0) - wifi_timeout s1 > 5 \<and> wifi_send_flag s1 = 0 then
              Inr (s1\<lparr>esp8266_status := ESP8266_STATUS_RESTART_CONNECT_SEVER\<rparr>, as)
            else Inr (s1, as)))"

definition wifi_communicate :: "at_env \<Rightarrow> u16 \<Rightarrow> bytes \<Rightarrow> wifi \<Rightarrow> wifi_result" where
  "wifi_communicate e len rx s = (if len \<noteq> 0 then wifi_receive e rx s else wifi_transmit e s)"

definition esp8266_dispatch :: "at_env \<Rightarrow> u16 \<Rightarrow> bytes \<Rightarrow> wifi \<Rightarrow> wifi_result" where
  "esp8266_dispatch e len rx s =
     (case esp8266_status s of
        ESP8266_STATUS_CHECK \<Rightarrow> wifi_check e s
      | ESP8266_STATUS_CHECK_MODE \<Rightarrow> wifi_check_mode e rx s
      | ESP8266_STATUS_WAIT_CHECK_MODE \<Rightarrow> wifi_wait_check_mode e rx s
      | ESP8266_STATUS_SET_MODE \<Rightarrow> wifi_set_mode e s
      | ESP8266_STATUS_WAIT_SET_MODE \<Rightarrow> wifi_wait_set_mode e rx s
      | ESP8266_STATUS_RESET \<Rightarrow> wifi_reset e s
      | ESP8266_STATUS_WAIT_RESET \<Rightarrow> wifi_wait_reset e rx s
      | ESP8266_STATUS_WAIT_CLOSE_ECHO \<Rightarrow> wifi_wait_close_echo e rx s
      | ESP8266_STATUS_WIFI_CONNECT \<Rightarrow> wifi_connect e s
      | ESP8266_STATUS_WAIT_CONNECTED \<Rightarrow> wifi_wait_connected e rx s
      | ESP8266_STATUS_WAIT_GOT_IP \<Rightarrow> wifi_wait_got_ip e rx s
      | ESP8266_STATUS_LINK_OK \<Rightarrow> wifi_link_ok e s
      | ESP8266_STATUS_GET_IP \<Rightarrow> wifi_get_ip e rx s
      | ESP8266_STATUS_GET_MAC \<Rightarrow> wifi_get_mac e rx s
      | ESP8266_STATUS_RESTART_CONNECT_SEVER \<Rightarrow> wifi_restart_connect s
      | ESP8266_STATUS_CONNECT_SERVER \<Rightarrow> wifi_connect_server e s
      | ESP8266_STATUS_WAIT_LINK_SERVER \<Rightarrow> wifi_wait_link_server e rx s
      | ESP8266_STATUS_COMMUNICATE \<Rightarrow> wifi_communicate e len rx s)"

definition esp8266_at_fsm :: "at_env \<Rightarrow> wifi \<Rightarrow> wifi_result" where
  "esp8266_at_fsm e s =
     (let (l, q) = get_line_from_uart3 (w_uart3 s)
      in esp8266_dispatch e (of_nat (length l)) (rx_array l) (s\<lparr>w_uart3 := q\<rparr>))"

definition wifi_irq :: "u8 \<Rightarrow> wifi \<Rightarrow> wifi" where
  "wifi_irq d s = s\<lparr>w_uart3 := USART3_rx (w_uart3 s) d\<rparr>"

text \<open>One round of \<open>wireless_thread_entry\<close> with \<open>USE_WIFI\<close>: the link flag follows the status.\<close>

definition wireless_step :: "at_env \<Rightarrow> wifi \<times> u8 \<Rightarrow> ((wifi \<times> u8) \<times> at_action list) c_result" where
  "wireless_step e w =
     bindR (esp8266_at_fsm e (fst w)) (\<lambda>(s, as).
       Inr ((s, if get_esp8266_status s = ESP8266_STATUS_COMMUNICATE then 1 else 0), as))"

lemmas wifi_state_defs = wifi_check_def wifi_check_mode_def wifi_wait_check_mode_def wifi_set_mode_def
  wifi_wait_set_mode_def wifi_reset_def wifi_wait_reset_def wifi_wait_close_echo_def wifi_connect_def
  wifi_wait_connected_def wifi_wait_got_ip_def wifi_link_ok_def wifi_get_ip_def wifi_get_mac_def
  wifi_restart_connect_def wifi_connect_server_def wifi_wait_link_server_def wifi_communicate_def
  wifi_receive_def wifi_transmit_def


section \<open>Invariant\<close>

text \<open>
  The statuses in which a time-out goes back to a status that sends the command again; that
  status resets the error counter.
\<close>

definition wifi_fallback :: "ESP8266_STATUS_ENUM list" where
  "wifi_fallback = [ESP8266_STATUS_WAIT_RESET, ESP8266_STATUS_WAIT_CONNECTED, ESP8266_STATUS_WAIT_GOT_IP,
     ESP8266_STATUS_GET_IP, ESP8266_STATUS_WAIT_LINK_SERVER]"

definition wifi_inv :: "wifi \<Rightarrow> bool" where
  "wifi_inv s \<longleftrightarrow> uart3_inv (w_uart3 s) \<and> network_inv (w_net s) \<and> config_wf (w_config s) \<and>
     wifi_status_error_count s \<le> 5 \<and>
     (esp8266_status s \<in> set wifi_fallback \<longrightarrow> wifi_status_error_count s = 0)"

lemma wifi_clear_rx_sel [simp]:
  "esp8266_status (wifi_clear_rx s) = esp8266_status s" "w_net (wifi_clear_rx s) = w_net s"
  "w_config (wifi_clear_rx s) = w_config s" "uart3_inv (w_uart3 (wifi_clear_rx s))" "quiet (w_uart3 (wifi_clear_rx s))"
  "wifi_status_error_count (wifi_clear_rx s) = wifi_status_error_count s"
  "wifi_send_flag (wifi_clear_rx s) = wifi_send_flag s" "wifi_error_count (wifi_clear_rx s) = wifi_error_count s"
  "wifi_tcp_error_count (wifi_clear_rx s) = wifi_tcp_error_count s" "wifi_timeout (wifi_clear_rx s) = wifi_timeout s"
  by (simp_all add: wifi_clear_rx_def)

lemma wifi_enter_sel [simp]:
  "esp8266_status (wifi_enter e st s) = st" "w_net (wifi_enter e st s) = w_net s"
  "w_config (wifi_enter e st s) = w_config s" "w_uart3 (wifi_enter e st s) = w_uart3 s"
  "wifi_status_error_count (wifi_enter e st s) = 0" "wifi_send_flag (wifi_enter e st s) = wifi_send_flag s"
  "wifi_error_count (wifi_enter e st s) = wifi_error_count s"
  "wifi_tcp_error_count (wifi_enter e st s) = wifi_tcp_error_count s" "wifi_timeout (wifi_enter e st s) = clk e 0"
  by (simp_all add: wifi_enter_def)

lemma wifi_retry_cmd:
  assumes "wifi_retry lim e (again_cmd c) s = Inr (s', as)"
  shows "esp8266_status s' = esp8266_status s" "w_uart3 s' = w_uart3 s" "w_net s' = w_net s" "w_config s' = w_config s"
    "wifi_send_flag s' = wifi_send_flag s" "wifi_status_error_count s \<le> 5 \<Longrightarrow> wifi_status_error_count s' \<le> 5"
  using assms by (auto simp: wifi_retry_def again_cmd_def Let_def split: if_splits)

lemma wifi_retry_status:
  assumes "wifi_retry lim e (again_status st) s = Inr (s', as)"
  shows "w_uart3 s' = w_uart3 s" "w_net s' = w_net s" "w_config s' = w_config s" "wifi_send_flag s' = wifi_send_flag s"
    "as = []" "wifi_status_error_count s \<le> 5 \<Longrightarrow> wifi_status_error_count s' \<le> 5"
    "esp8266_status s' = esp8266_status s \<or> esp8266_status s' = st"
    "wifi_status_error_count s = 0 \<Longrightarrow> wifi_error_count s' = wifi_error_count s \<and>
       (esp8266_status s' = st \<or> s' = s)"
  using assms by (auto simp: wifi_retry_def again_status_def Let_def split: if_splits)

lemma sscanf_quoted_field:
  assumes "sscanf_quoted rx dst = Inr d" and "cstr_field n dst"
  shows "cstr_field n d"
  using assms by (auto simp: sscanf_quoted_def cstr_field_def split: option.splits if_splits)

lemma wifi_inv_upd:
  "wifi_inv s \<Longrightarrow> wifi_inv (wifi_enter e st s)"
  "wifi_inv s \<Longrightarrow> wifi_inv (wifi_clear_rx s)"
  by (simp_all add: wifi_inv_def)

lemma wifi_retry_cmd_inv:
  assumes "wifi_retry lim e (again_cmd c) s = Inr (s', as)" and "wifi_inv s" and "esp8266_status s \<notin> set wifi_fallback"
  shows "wifi_inv s'"
  using assms wifi_retry_cmd [OF assms(1)] by (simp add: wifi_inv_def)

lemma wifi_retry_status_inv:
  assumes "wifi_retry lim e (again_status st) s = Inr (s', as)" and "wifi_inv s"
    and "esp8266_status s \<in> set wifi_fallback" and "st \<notin> set wifi_fallback"
  shows "wifi_inv s'"
  using assms(2-) wifi_retry_status [OF assms(1)] by (auto simp: wifi_inv_def)

lemma config_wf_upd:
  "config_wf cfg \<Longrightarrow> cstr_field MAX_IP_LEN ip \<Longrightarrow> config_wf (cfg\<lparr>wifi_ip := ip\<rparr>)"
  "config_wf cfg \<Longrightarrow> cstr_field MAX_MAC_LEN mac \<Longrightarrow> config_wf (cfg\<lparr>wifi_mac := mac\<rparr>)"
  by (simp_all add: config_wf_def)

lemma config_wf_fields: "config_wf cfg \<Longrightarrow> cstr_field MAX_IP_LEN (wifi_ip cfg) \<and> cstr_field MAX_MAC_LEN (wifi_mac cfg)"
  by (simp add: config_wf_def)

lemma wifi_inv_frame:
  assumes "wifi_inv s" and "w_uart3 s' = w_uart3 s" and "w_config s' = w_config s" and "network_inv (w_net s')"
    and "wifi_status_error_count s' = wifi_status_error_count s"
    and "esp8266_status s' = esp8266_status s \<or> esp8266_status s' \<notin> set wifi_fallback"
  shows "wifi_inv s'"
  using assms by (auto simp: wifi_inv_def)

lemma wifi_receive_frame:
  assumes "wifi_receive e rx s = Inr (s', as)" and "network_inv (w_net s)"
  shows "w_uart3 s' = w_uart3 s \<and> w_config s' = w_config s \<and> network_inv (w_net s') \<and>
    wifi_status_error_count s' = wifi_status_error_count s \<and>
    (esp8266_status s' = esp8266_status s \<or> esp8266_status s' \<notin> set wifi_fallback)"
proof -
  have n: "network_inv ((w_net s)\<lparr>net_wifi_tx_len := 0\<rparr>)" using assms(2) by (simp add: network_inv_def)
  show ?thesis
    using assms(1) n net_rx_write_inv [OF assms(2)] assms(2)
    unfolding wifi_receive_def
    by (auto simp: bindR_eq_Inr wifi_fallback_def split: if_split_asm option.split_asm)
qed

lemma wifi_transmit_frame:
  assumes "wifi_transmit e s = Inr (s', as)"
  shows "w_uart3 s' = w_uart3 s \<and> w_config s' = w_config s \<and> w_net s' = w_net s \<and>
    wifi_status_error_count s' = wifi_status_error_count s \<and>
    (esp8266_status s' = esp8266_status s \<or> esp8266_status s' \<notin> set wifi_fallback)"
  using assms unfolding wifi_transmit_def Let_def
  by (auto simp: bindR_eq_Inr wifi_fallback_def split: if_split_asm)

lemma wifi_communicate_inv:
  assumes "wifi_communicate e len rx s = Inr (s', as)" and "wifi_inv s"
  shows "wifi_inv s'"
proof -
  have n: "network_inv (w_net s)" using assms(2) by (simp add: wifi_inv_def)
  show ?thesis
  proof (cases "len = 0")
    case True
    then have "wifi_transmit e s = Inr (s', as)" using assms(1) by (simp add: wifi_communicate_def)
    from wifi_transmit_frame [OF this] n show ?thesis by (intro wifi_inv_frame [OF assms(2)]) simp_all
  next
    case False
    then have "wifi_receive e rx s = Inr (s', as)" using assms(1) by (simp add: wifi_communicate_def)
    from wifi_receive_frame [OF this n] show ?thesis by (intro wifi_inv_frame [OF assms(2)]) simp_all
  qed
qed

lemma esp8266_dispatch_inv:
  assumes "esp8266_dispatch e len rx s = Inr (s', as)" and "wifi_inv s"
  shows "wifi_inv s'"
proof (cases "esp8266_status s")
  case ESP8266_STATUS_CHECK
  then show ?thesis
    using assms by (auto simp: esp8266_dispatch_def wifi_check_def bindR_eq_Inr  intro: wifi_inv_upd split: if_splits)
next
  case ESP8266_STATUS_CHECK_MODE
  then show ?thesis
    using assms by (auto simp: esp8266_dispatch_def wifi_check_mode_def bindR_eq_Inr wifi_fallback_def intro: wifi_inv_upd wifi_retry_cmd_inv split: if_splits option.splits)
next
  case ESP8266_STATUS_WAIT_CHECK_MODE
  then show ?thesis
    using assms by (auto simp: esp8266_dispatch_def wifi_wait_check_mode_def bindR_eq_Inr wifi_fallback_def intro: wifi_inv_upd wifi_retry_cmd_inv split: if_splits option.splits)
next
  case ESP8266_STATUS_SET_MODE
  then show ?thesis
    using assms by (auto simp: esp8266_dispatch_def wifi_set_mode_def bindR_eq_Inr  intro: wifi_inv_upd split: if_splits)
next
  case ESP8266_STATUS_WAIT_SET_MODE
  then show ?thesis
    using assms by (auto simp: esp8266_dispatch_def wifi_wait_set_mode_def bindR_eq_Inr wifi_fallback_def intro: wifi_inv_upd wifi_retry_cmd_inv split: if_splits option.splits)
next
  case ESP8266_STATUS_RESET
  then show ?thesis
    using assms by (auto simp: esp8266_dispatch_def wifi_reset_def bindR_eq_Inr  intro: wifi_inv_upd split: if_splits)
next
  case ESP8266_STATUS_WAIT_RESET
  then show ?thesis
    using assms by (auto simp: esp8266_dispatch_def wifi_wait_reset_def bindR_eq_Inr wifi_fallback_def intro: wifi_inv_upd wifi_retry_status_inv split: if_splits option.splits)
next
  case ESP8266_STATUS_WAIT_CLOSE_ECHO
  then show ?thesis
    using assms by (auto simp: esp8266_dispatch_def wifi_wait_close_echo_def bindR_eq_Inr wifi_fallback_def intro: wifi_inv_upd wifi_retry_cmd_inv split: if_splits option.splits)
next
  case ESP8266_STATUS_WIFI_CONNECT
  then show ?thesis
    using assms by (auto simp: esp8266_dispatch_def wifi_connect_def bindR_eq_Inr  intro: wifi_inv_upd split: if_splits)
next
  case ESP8266_STATUS_WAIT_CONNECTED
  then show ?thesis
    using assms by (auto simp: esp8266_dispatch_def wifi_wait_connected_def bindR_eq_Inr wifi_fallback_def intro: wifi_inv_upd wifi_retry_status_inv split: if_splits option.splits)
next
  case ESP8266_STATUS_WAIT_GOT_IP
  then show ?thesis
    using assms by (auto simp: esp8266_dispatch_def wifi_wait_got_ip_def bindR_eq_Inr wifi_fallback_def intro: wifi_inv_upd wifi_retry_status_inv split: if_splits option.splits)
next
  case ESP8266_STATUS_LINK_OK
  then show ?thesis
    using assms by (auto simp: esp8266_dispatch_def wifi_link_ok_def bindR_eq_Inr  intro: wifi_inv_upd split: if_splits)
next
  case ESP8266_STATUS_GET_IP
  then show ?thesis
    using assms wifi_retry_status_inv [of 3 e ESP8266_STATUS_LINK_OK s s' as]
    by (auto simp: esp8266_dispatch_def wifi_get_ip_def bindR_eq_Inr wifi_fallback_def wifi_inv_def config_wf_upd
        config_wf_fields sscanf_quoted_field split: if_splits)
next
  case ESP8266_STATUS_GET_MAC
  then show ?thesis
    using assms
    by (auto simp: esp8266_dispatch_def wifi_get_mac_def bindR_eq_Inr wifi_fallback_def wifi_inv_def config_wf_upd
        config_wf_fields sscanf_quoted_field split: if_splits)
next
  case ESP8266_STATUS_RESTART_CONNECT_SEVER
  then show ?thesis
    using assms by (auto simp: esp8266_dispatch_def wifi_restart_connect_def Let_def wifi_fallback_def wifi_inv_def split: if_splits)
next
  case ESP8266_STATUS_CONNECT_SERVER
  then show ?thesis
    using assms by (auto simp: esp8266_dispatch_def wifi_connect_server_def bindR_eq_Inr  intro: wifi_inv_upd split: if_splits)
next
  case ESP8266_STATUS_WAIT_LINK_SERVER
  then show ?thesis
    using assms by (auto simp: esp8266_dispatch_def wifi_wait_link_server_def Let_def wifi_fallback_def wifi_inv_def split: if_splits)
next
  case ESP8266_STATUS_COMMUNICATE
  then show ?thesis
    using assms by (auto simp: esp8266_dispatch_def intro: wifi_communicate_inv)
qed


interpretation wm: at_modem wifi_inv esp8266_at_fsm wifi_irq
proof unfold_locales
  fix s e s' as d
  assume s: "wifi_inv s"
  have "wifi_inv (s\<lparr>w_uart3 := snd (get_line_from_uart3 (w_uart3 s))\<rparr>)"
    using s by (simp add: wifi_inv_def get_line_from_uart3_inv)
  then show "wifi_inv s'" if "esp8266_at_fsm e s = Inr (s', as)"
    using that by (simp add: esp8266_at_fsm_def split_beta esp8266_dispatch_inv)
  show "wifi_inv (wifi_irq d s)" using s u3.rx_invar by (simp add: wifi_inv_def wifi_irq_def)
qed

interpretation wr: at_reader w_uart3 "\<lambda>q s. s\<lparr>w_uart3 := q\<rparr>" esp8266_dispatch esp8266_at_fsm wifi_irq
  by unfold_locales (simp_all add: esp8266_at_fsm_def wifi_irq_def)

definition demo_wifi :: "ESP8266_STATUS_ENUM \<Rightarrow> wifi" where
  "demo_wifi st = \<lparr>wifi_status_error_count = 0, wifi_link_error_count = 0, wifi_error_count = 0,
     wifi_tcp_error_count = 0, wifi_timeout = 0, wifi_send_flag = 1, esp8266_status = st, w_config = ibox_config,
     w_uart3 = demo_uart3, w_net = demo_network 0 []\<rparr>"

lemma demo_wifi_sel [simp]: "w_uart3 (demo_wifi st) = demo_uart3" "esp8266_status (demo_wifi st) = st"
  "w_config (demo_wifi st) = ibox_config" "w_net (demo_wifi st) = demo_network 0 []" "wifi_send_flag (demo_wifi st) = 1"
  "wifi_status_error_count (demo_wifi st) = 0" "wifi_timeout (demo_wifi st) = 0" "wifi_tcp_error_count (demo_wifi st) = 0"
  by (simp_all add: demo_wifi_def)

lemma demo_wifi_inv: "wifi_inv (demo_wifi st)"
  using demo_network_inv [of "[]" 0] demo_uart3_quiet ibox_config_wf by (simp add: wifi_inv_def quiet_def)

text \<open>The driver with events from outside: bytes and the network layer.\<close>

fun wifi_on_event :: "at_event \<Rightarrow> wifi \<Rightarrow> wifi" where
  "wifi_on_event (Rx_byte d) s = wifi_irq d s"
| "wifi_on_event (Net_layer n) s = s\<lparr>w_net := n\<rparr>"

interpretation ws: at_modem "\<lambda>s :: wifi. esp8266_status s = ESP8266_STATUS_WAIT_SET_MODE" esp8266_at_fsm wifi_on_event
proof unfold_locales
  fix s s' :: wifi and e as d
  assume s: "esp8266_status s = ESP8266_STATUS_WAIT_SET_MODE"
  show "esp8266_status s' = ESP8266_STATUS_WAIT_SET_MODE" if "esp8266_at_fsm e s = Inr (s', as)"
    using that s wifi_retry_cmd(1) [of 3 e]
    by (auto simp: esp8266_at_fsm_def split_beta esp8266_dispatch_def wifi_wait_set_mode_def split: if_splits)
  show "esp8266_status (wifi_on_event d s) = ESP8266_STATUS_WAIT_SET_MODE"
    using s by (cases d) (simp_all add: wifi_irq_def)
qed

text \<open>
  A module that is not in station mode is never connected: once the driver has asked it to change
  the mode, it stays in that status for ever, even when the module answers \<open>OK\<close>.
\<close>

theorem wifi_set_mode_stuck:
  assumes "at_reach esp8266_at_fsm wifi_on_event s0 s" and "esp8266_status s0 = ESP8266_STATUS_WAIT_SET_MODE"
  shows "esp8266_status s = ESP8266_STATUS_WAIT_SET_MODE"
  using ws.reach_inv [OF assms] .

theorem wifi_set_mode_stuck_witness:
  "\<exists>s as. esp8266_at_fsm demo_env (fold wifi_irq (str_bytes ''OK'' @ crlf) (demo_wifi ESP8266_STATUS_WAIT_SET_MODE)) = Inr (s, as) \<and>
    esp8266_status s = ESP8266_STATUS_WAIT_SET_MODE"
proof -
  let ?s0 = "demo_wifi ESP8266_STATUS_WAIT_SET_MODE"
  have t: "text_line (str_bytes ''OK'')" by (simp add: text_line_def str_bytes_def UART3_RX_SIZE_def)
  have ok: "has_str_in (rx_array (str_bytes ''OK'')) ''OK''" by (simp add: has_str_line [OF t]) (simp add: str_bytes_def)
  obtain q where "esp8266_at_fsm demo_env (fold wifi_irq (str_bytes ''OK'' @ crlf) ?s0) =
      esp8266_dispatch demo_env (of_nat (length (str_bytes ''OK''))) (rx_array (str_bytes ''OK'')) (?s0\<lparr>w_uart3 := q\<rparr>)"
    using wr.step_line [of ?s0 "str_bytes ''OK''" demo_env] t by (auto simp: text_line_def)
  then obtain s as where s: "esp8266_at_fsm demo_env (fold wifi_irq (str_bytes ''OK'' @ crlf) ?s0) = Inr (s, as)"
    using ok by (simp add: esp8266_dispatch_def wifi_wait_set_mode_def)
  have "at_reach esp8266_at_fsm wifi_on_event ?s0 (fold wifi_on_event (map Rx_byte l) ?s0)" for l
    by (intro at_reach_events at_reach.start)
  moreover have "fold wifi_on_event (map Rx_byte l) x = fold wifi_irq l x" for l x by (induction l arbitrary: x) auto
  ultimately have "at_reach esp8266_at_fsm wifi_on_event ?s0 s" using s by (metis at_reach.call)
  then show ?thesis using s wifi_set_mode_stuck [of ?s0 s] by auto
qed

section \<open>Bringing the link up\<close>

definition wifi_at :: "ESP8266_STATUS_ENUM \<Rightarrow> IBOX_CONFIG \<Rightarrow> u8 \<Rightarrow> wifi \<Rightarrow> bool" where
  "wifi_at st cfg c s \<longleftrightarrow> quiet (w_uart3 s) \<and> esp8266_status s = st \<and> w_config s = cfg \<and> wifi_tcp_error_count s = c"

definition cwmode_reply :: "bytes \<Rightarrow> bool" where
  "cwmode_reply l \<longleftrightarrow> text_line l \<and> (case find_str (rx_array l) ''+CWMODE:'' of None \<Rightarrow> False
     | Some i \<Rightarrow> buf_at (rx_array l) (i + 8) = Inr (of_char CHR ''1''))"

text \<open>The reply of \<open>AT+CIFSR\<close> with an address in quotation marks.\<close>

definition cifsr_line :: "string \<Rightarrow> bytes \<Rightarrow> bytes" where
  "cifsr_line key v = str_bytes (''+CIFSR:'' @ key @ '',\"'') @ v @ str_bytes ''\"''"

definition addr_text :: "nat \<Rightarrow> bytes \<Rightarrow> bool" where
  "addr_text n v \<longleftrightarrow> v \<noteq> [] \<and> length v < n \<and> (\<forall>b \<in> set v. b \<noteq> 0 \<and> b \<noteq> 0x0a \<and> b \<noteq> 0x0d \<and> b \<noteq> 34)"

lemma scan_quoted_mid:
  assumes "pre \<noteq> []" and "34 \<notin> set pre" and "v \<noteq> []" and "34 \<notin> set v"
  shows "scan_quoted (pre @ 34 # v @ [34]) = Some v"
proof -
  have "takeWhile (\<lambda>b. b \<noteq> 34) (pre @ 34 # v @ [34]) = pre" "dropWhile (\<lambda>b. b \<noteq> 34) (pre @ 34 # v @ [34]) = 34 # v @ [34]"
      "takeWhile (\<lambda>b. b \<noteq> 34) (v @ [34]) = v"
    using assms(2,4) by (auto simp: takeWhile_tail dropWhile_append3 takeWhile_append2)
  then show ?thesis using assms(1,3) by (simp add: scan_quoted_def)
qed

lemma cifsr_line_scan:
  assumes "addr_text n v" and "n \<le> 20" and "key = ''STAIP'' \<or> key = ''STAMAC''"
  shows "text_line (cifsr_line key v)" and "scan_quoted (cifsr_line key v) = Some v"
    and "reply (''+CIFSR:'' @ key @ '','') (cifsr_line key v)"
proof -
  show t: "text_line (cifsr_line key v)"
  proof -
    have "set (cifsr_line key v) \<subseteq> set (str_bytes ''+CIFSR:STAIP,STAMAC\"'') \<union> set v"
      using assms(3) by (auto simp: cifsr_line_def str_bytes_def)
    moreover have "\<forall>b \<in> set (str_bytes ''+CIFSR:STAIP,STAMAC\"''). b \<noteq> 0 \<and> b \<noteq> 0x0a \<and> b \<noteq> 0x0d"
      by (simp add: str_bytes_def)
    moreover have "length (cifsr_line key v) \<le> length v + 20"
      using assms(3) by (auto simp: cifsr_line_def str_bytes_def)
    ultimately show ?thesis using assms(1,2) unfolding text_line_def addr_text_def UART3_RX_SIZE_def by fastforce
  qed
  have c: "cifsr_line key v = str_bytes (''+CIFSR:'' @ key @ '','') @ 34 # v @ [34]"
    by (simp add: cifsr_line_def str_bytes_def)
  have "str_bytes (''+CIFSR:'' @ key @ '','') \<noteq> []" "34 \<notin> set (str_bytes (''+CIFSR:'' @ key @ '',''))"
    using assms(3) by (auto simp: str_bytes_def)
  moreover have "v \<noteq> []" "34 \<notin> set v" using assms(1) by (auto simp: addr_text_def)
  ultimately show "scan_quoted (cifsr_line key v) = Some v" unfolding c by (rule scan_quoted_mid)
  have "strstr (cifsr_line key v) (str_bytes (''+CIFSR:'' @ key @ '','')) = Some 0" unfolding c by (rule strstr_prefix)
  then show "reply (''+CIFSR:'' @ key @ '','') (cifsr_line key v)" using t by (simp add: reply_def)
qed

definition field_with :: "bytes \<Rightarrow> bytes \<Rightarrow> bytes" where
  "field_with v dst = v @ 0 # drop (length v + 1) dst"

lemma sscanf_cifsr:
  assumes "addr_text n v" and "n \<le> 20" and "key = ''STAIP'' \<or> key = ''STAMAC''" and "length dst = n"
  shows "sscanf_quoted (rx_array (cifsr_line key v)) dst = Inr (field_with v dst)"
  using cifsr_line_scan [OF assms(1-3)] assms(1,4)
  by (auto simp: sscanf_quoted_def text_line_def cstr_rx_array addr_text_def field_with_def)

lemma cstr_field_with: "addr_text n v \<Longrightarrow> string_of (field_with v dst) = Inr v"
  by (auto simp: string_of_def cstr_def field_with_def addr_text_def takeWhile_tail)

lemma wifi_up_check:
  assumes "wifi_at ESP8266_STATUS_CHECK cfg c s"
    and "\<And>s1. wifi_at ESP8266_STATUS_CHECK_MODE (cfg) c s1 \<Longrightarrow> \<exists>s2. at_dialogue esp8266_at_fsm wifi_irq ls s1 = Inr (s2, bs) \<and> Q s2"
  shows "\<exists>s2. at_dialogue esp8266_at_fsm wifi_irq ((e, []) # ls) s = Inr (s2, [tx_cmd ''ATE0''] @ bs) \<and> Q s2"
  using assms
  by (intro wr.exchange_silent [where P = "wifi_at ESP8266_STATUS_CHECK_MODE (cfg) c"])
    (auto simp: wifi_at_def esp8266_dispatch_def wifi_check_def)

lemma wifi_up_check_mode:
  assumes "wifi_at ESP8266_STATUS_CHECK_MODE cfg c s"
    and "reply ''OK'' l"
    and "\<And>s1. wifi_at ESP8266_STATUS_WAIT_CHECK_MODE (cfg) c s1 \<Longrightarrow> \<exists>s2. at_dialogue esp8266_at_fsm wifi_irq ls s1 = Inr (s2, bs) \<and> Q s2"
  shows "\<exists>s2. at_dialogue esp8266_at_fsm wifi_irq ((e, l @ crlf) # ls) s = Inr (s2, [tx_cmd ''AT+CWMODE?''] @ bs) \<and> Q s2"
  using assms
  by (intro wr.exchange [where P = "wifi_at ESP8266_STATUS_WAIT_CHECK_MODE (cfg) c"])
    (auto simp: wifi_at_def esp8266_dispatch_def wifi_check_mode_def dest!: replyD)

lemma wifi_up_wait_check_mode:
  assumes "wifi_at ESP8266_STATUS_WAIT_CHECK_MODE cfg c s"
    and "cwmode_reply l"
    and "\<And>s1. wifi_at ESP8266_STATUS_LINK_OK (cfg) c s1 \<Longrightarrow> \<exists>s2. at_dialogue esp8266_at_fsm wifi_irq ls s1 = Inr (s2, bs) \<and> Q s2"
  shows "\<exists>s2. at_dialogue esp8266_at_fsm wifi_irq ((e, l @ crlf) # ls) s = Inr (s2, [] @ bs) \<and> Q s2"
  using assms
  by (intro wr.exchange [where P = "wifi_at ESP8266_STATUS_LINK_OK (cfg) c"])
    (auto simp: wifi_at_def esp8266_dispatch_def wifi_wait_check_mode_def cwmode_reply_def split: option.splits)

lemma wifi_up_link_ok:
  assumes "wifi_at ESP8266_STATUS_LINK_OK cfg c s"
    and "\<And>s1. wifi_at ESP8266_STATUS_GET_IP (cfg) c s1 \<Longrightarrow> \<exists>s2. at_dialogue esp8266_at_fsm wifi_irq ls s1 = Inr (s2, bs) \<and> Q s2"
  shows "\<exists>s2. at_dialogue esp8266_at_fsm wifi_irq ((e, []) # ls) s = Inr (s2, [tx_cmd ''AT+CIFSR''] @ bs) \<and> Q s2"
  using assms
  by (intro wr.exchange_silent [where P = "wifi_at ESP8266_STATUS_GET_IP (cfg) c"])
    (auto simp: wifi_at_def esp8266_dispatch_def wifi_link_ok_def)

text \<open>The configuration with the two addresses the module reports.\<close>

definition with_addrs :: "IBOX_CONFIG \<Rightarrow> bytes \<Rightarrow> bytes \<Rightarrow> IBOX_CONFIG" where
  "with_addrs cfg ip mac = cfg\<lparr>wifi_mac := field_with mac (wifi_mac cfg), wifi_ip := field_with ip (wifi_ip cfg)\<rparr>"

lemma wifi_up_get_ip:
  assumes "wifi_at ESP8266_STATUS_GET_IP cfg c s" and "config_wf cfg" and "addr_text MAX_IP_LEN ip"
    and "ip \<noteq> str_bytes ''0.0.0.0''"
    and "\<And>s1. wifi_at ESP8266_STATUS_GET_MAC (cfg\<lparr>wifi_ip := field_with ip (wifi_ip cfg)\<rparr>) c s1 \<Longrightarrow>
      \<exists>s2. at_dialogue esp8266_at_fsm wifi_irq ls s1 = Inr (s2, bs) \<and> Q s2"
  shows "\<exists>s2. at_dialogue esp8266_at_fsm wifi_irq ((e, cifsr_line ''STAIP'' ip @ crlf) # ls) s = Inr (s2, [] @ bs) \<and> Q s2"
proof (rule wr.exchange [where P = "wifi_at ESP8266_STATUS_GET_MAC (cfg\<lparr>wifi_ip := field_with ip (wifi_ip cfg)\<rparr>) c"])
  have n: "MAX_IP_LEN \<le> 20" by (simp add: max_lens)
  note c = cifsr_line_scan [OF assms(3) n, of "''STAIP''"]
  show "text_line (cifsr_line ''STAIP'' ip)" using c by simp
  fix q
  assume "quiet q"
  moreover have "length (wifi_ip cfg) = MAX_IP_LEN" using assms(2) by (simp add: config_wf_def cstr_field_def)
  ultimately show "\<exists>s1. esp8266_dispatch e (of_nat (length (cifsr_line ''STAIP'' ip))) (rx_array (cifsr_line ''STAIP'' ip))
      (s\<lparr>w_uart3 := q\<rparr>) = Inr (s1, []) \<and> wifi_at ESP8266_STATUS_GET_MAC (cfg\<lparr>wifi_ip := field_with ip (wifi_ip cfg)\<rparr>) c s1"
    using assms(1,4) sscanf_cifsr [OF assms(3) n, of "''STAIP''" "wifi_ip cfg"] cstr_field_with [OF assms(3)] c(3) [THEN replyD]
    by (simp add: wifi_at_def esp8266_dispatch_def wifi_get_ip_def)
qed (use assms(1,5) in \<open>simp_all add: wifi_at_def\<close>)

lemma wifi_up_get_mac:
  assumes "wifi_at ESP8266_STATUS_GET_MAC (cfg\<lparr>wifi_ip := i\<rparr>) c s" and "config_wf cfg" and "addr_text MAX_MAC_LEN mac"
    and "\<And>s1. wifi_at ESP8266_STATUS_CONNECT_SERVER (cfg\<lparr>wifi_mac := field_with mac (wifi_mac cfg), wifi_ip := i\<rparr>) c s1 \<Longrightarrow>
      \<exists>s2. at_dialogue esp8266_at_fsm wifi_irq ls s1 = Inr (s2, bs) \<and> Q s2"
  shows "\<exists>s2. at_dialogue esp8266_at_fsm wifi_irq ((e, cifsr_line ''STAMAC'' mac @ crlf) # ls) s = Inr (s2, [] @ bs) \<and> Q s2"
proof (rule wr.exchange [where P = "wifi_at ESP8266_STATUS_CONNECT_SERVER (cfg\<lparr>wifi_mac := field_with mac (wifi_mac cfg), wifi_ip := i\<rparr>) c"])
  have n: "MAX_MAC_LEN \<le> 20" by (simp add: max_lens)
  note c = cifsr_line_scan [OF assms(3) n, of "''STAMAC''"]
  show "text_line (cifsr_line ''STAMAC'' mac)" using c by simp
  fix q
  assume "quiet q"
  moreover have "length (wifi_mac cfg) = MAX_MAC_LEN" using assms(2) by (simp add: config_wf_def cstr_field_def)
  ultimately show "\<exists>s1. esp8266_dispatch e (of_nat (length (cifsr_line ''STAMAC'' mac))) (rx_array (cifsr_line ''STAMAC'' mac))
      (s\<lparr>w_uart3 := q\<rparr>) = Inr (s1, []) \<and>
      wifi_at ESP8266_STATUS_CONNECT_SERVER (cfg\<lparr>wifi_mac := field_with mac (wifi_mac cfg), wifi_ip := i\<rparr>) c s1"
    using assms(1) sscanf_cifsr [OF assms(3) n, of "''STAMAC''" "wifi_mac cfg"] c(3) [THEN replyD]
    by (cases cfg) (simp add: wifi_at_def esp8266_dispatch_def wifi_get_mac_def)
qed (use assms(1,4) in \<open>simp_all add: wifi_at_def\<close>)

definition wifi_host :: "IBOX_CONFIG \<Rightarrow> u8 \<Rightarrow> bytes" where
  "wifi_host cfg errors = cstr (if use_dns cfg = 0 \<or> errors \<ge> 3 then server_ip cfg else server_dsn cfg)"

lemma wifi_server_connect_wf:
  assumes "string_of (server_ip (w_config s)) = Inr (cstr (server_ip (w_config s)))"
    and "string_of (server_dsn (w_config s)) = Inr (cstr (server_dsn (w_config s)))"
  shows "wifi_server_connect s = Inr [tx_str ''AT+CIPSTART=\"TCP\",\"'',
      Uart3_tx (wifi_host (w_config s) (wifi_tcp_error_count s)), tx_str ''\",'',
      Uart3_tx (dec (unat (server_port (w_config s)))), Uart3_tx crlf]"
proof -
  have p: "sprintf_into 6 (dec (unat (server_port (w_config s)))) = Inr (dec (unat (server_port (w_config s))))"
    using dec_u16_length [of "server_port (w_config s)"] by (simp add: sprintf_into_def)
  have "uart3_send_str crlf = crlf" by (simp add: crlf_def)
  then show ?thesis
    using p assms
    by (simp add: wifi_server_connect_def tx_field_def wifi_host_def uart3_send_str_cstr cstr_no_nul nul_notin_cstr
        nul_notin_dec Let_def)
qed

lemma wifi_up_connect_server:
  assumes "wifi_at ESP8266_STATUS_CONNECT_SERVER cfg' c s"
    and "\<And>s. w_config s = cfg' \<Longrightarrow> wifi_tcp_error_count s = c \<Longrightarrow> wifi_server_connect s = Inr as"
    and "\<And>s1. wifi_at ESP8266_STATUS_WAIT_LINK_SERVER cfg' c s1 \<Longrightarrow>
      \<exists>s2. at_dialogue esp8266_at_fsm wifi_irq ls s1 = Inr (s2, bs) \<and> Q s2"
  shows "\<exists>s2. at_dialogue esp8266_at_fsm wifi_irq ((e, []) # ls) s = Inr (s2, as @ bs) \<and> Q s2"
  using assms
  by (intro wr.exchange_silent [where P = "wifi_at ESP8266_STATUS_WAIT_LINK_SERVER cfg' c"])
    (auto simp: wifi_at_def esp8266_dispatch_def wifi_connect_server_def)

lemma wifi_up_wait_link_server:
  assumes "wifi_at ESP8266_STATUS_WAIT_LINK_SERVER cfg' c s" and "reply ''CONNECT'' l" and "\<not> reply ''ERROR'' l"
  shows "\<exists>s2. at_dialogue esp8266_at_fsm wifi_irq [(e, l @ crlf)] s = Inr (s2, [] @ []) \<and>
    wifi_at ESP8266_STATUS_COMMUNICATE cfg' 0 s2"
  using assms
  by (intro wr.exchange [where P = "wifi_at ESP8266_STATUS_COMMUNICATE cfg' 0"])
    (auto simp: wifi_at_def esp8266_dispatch_def wifi_wait_link_server_def reply_def has_str_line)

text \<open>
  C9: The WiFi driver brings the link up when the module is in station mode and has joined the network:
  with the expected replies it reaches the communication state, has stored the reported addresses in
  the configuration, and has transmitted exactly the four commands of the bring-up, the last one
  opening the connection to the configured server.
\<close>

theorem wifi_bringup:
  assumes "quiet (w_uart3 s)" and "esp8266_status s = ESP8266_STATUS_CHECK" and "config_wf (w_config s)"
    and "reply ''OK'' l1" and "cwmode_reply l2" and "addr_text MAX_IP_LEN ip" and "ip \<noteq> str_bytes ''0.0.0.0''"
    and "addr_text MAX_MAC_LEN mac" and "reply ''CONNECT'' l3" and "\<not> reply ''ERROR'' l3"
  shows "\<exists>s2 as. at_dialogue esp8266_at_fsm wifi_irq
      [(e0, []), (e1, l1 @ crlf), (e2, l2 @ crlf), (e3, []), (e4, cifsr_line ''STAIP'' ip @ crlf),
       (e5, cifsr_line ''STAMAC'' mac @ crlf), (e6, []), (e7, l3 @ crlf)] s = Inr (s2, as) \<and>
    get_esp8266_status s2 = ESP8266_STATUS_COMMUNICATE \<and> cstr (wifi_ip (w_config s2)) = ip \<and>
    cstr (wifi_mac (w_config s2)) = mac \<and>
    tx_bytes as = at_cmd ''ATE0'' @ at_cmd ''AT+CWMODE?'' @ at_cmd ''AT+CIFSR'' @ str_bytes ''AT+CIPSTART=\"TCP\",\"'' @
      wifi_host (w_config s) (wifi_tcp_error_count s) @ str_bytes ''\",'' @ dec (unat (server_port (w_config s))) @ crlf"
proof -
  let ?cfg = "w_config s" and ?c = "wifi_tcp_error_count s"
  let ?cfg' = "?cfg\<lparr>wifi_mac := field_with mac (wifi_mac ?cfg), wifi_ip := field_with ip (wifi_ip ?cfg)\<rparr>"
  let ?ls = "[(e0, []), (e1, l1 @ crlf), (e2, l2 @ crlf), (e3, []), (e4, cifsr_line ''STAIP'' ip @ crlf),
       (e5, cifsr_line ''STAMAC'' mac @ crlf), (e6, []), (e7, l3 @ crlf)]"
  let ?as = "[tx_cmd ''ATE0''] @ [tx_cmd ''AT+CWMODE?''] @ [] @ [tx_cmd ''AT+CIFSR''] @ [] @ [] @
    [tx_str ''AT+CIPSTART=\"TCP\",\"'', Uart3_tx (wifi_host ?cfg ?c), tx_str ''\",'',
     Uart3_tx (dec (unat (server_port ?cfg))), Uart3_tx crlf] @ [] @ []"
  have s: "wifi_at ESP8266_STATUS_CHECK ?cfg ?c s" using assms by (simp add: wifi_at_def)
  have con: "wifi_server_connect x = Inr [tx_str ''AT+CIPSTART=\"TCP\",\"'', Uart3_tx (wifi_host ?cfg ?c), tx_str ''\",'',
     Uart3_tx (dec (unat (server_port ?cfg))), Uart3_tx crlf]" if "w_config x = ?cfg'" "wifi_tcp_error_count x = ?c" for x
    using that wifi_server_connect_wf [of x] config_strings [OF assms(3)] by (simp add: wifi_host_def)
  have "\<exists>s2. at_dialogue esp8266_at_fsm wifi_irq ?ls s = Inr (s2, ?as) \<and> wifi_at ESP8266_STATUS_COMMUNICATE ?cfg' 0 s2"
    by (intro wifi_up_check [OF s] wifi_up_check_mode [OF _ assms(4)] wifi_up_wait_check_mode [OF _ assms(5)]
        wifi_up_link_ok wifi_up_get_ip [OF _ assms(3,6,7)] wifi_up_get_mac [OF _ assms(3,8)]
        wifi_up_connect_server wifi_up_wait_link_server [OF _ assms(9,10)]) (assumption | rule con)+
  then obtain s2 where s2: "at_dialogue esp8266_at_fsm wifi_irq ?ls s = Inr (s2, ?as)"
      "esp8266_status s2 = ESP8266_STATUS_COMMUNICATE" "w_config s2 = ?cfg'"
    by (auto simp: wifi_at_def)
  have c: "cstr (field_with v d) = v" if "addr_text n v" for n v d
    using cstr_field_with [OF that, of d] by (auto simp: string_of_def split: if_splits)
  show ?thesis
    by (intro exI conjI, rule s2(1))
      (simp_all add: get_esp8266_status_def s2 c [OF assms(6)] c [OF assms(8)] tx_cmd_def tx_str_def at_cmd_def str_bytes_def
        crlf_def)
qed

theorem wifi_bringup_witness:
  "\<exists>s2 as. at_dialogue esp8266_at_fsm wifi_irq
      [(demo_env, []), (demo_env, str_bytes ''OK'' @ crlf), (demo_env, str_bytes ''+CWMODE:1'' @ crlf), (demo_env, []),
       (demo_env, cifsr_line ''STAIP'' (str_bytes ''10.0.0.7'') @ crlf),
       (demo_env, cifsr_line ''STAMAC'' (str_bytes ''a2:20'') @ crlf), (demo_env, []),
       (demo_env, str_bytes ''CONNECT'' @ crlf)] (demo_wifi ESP8266_STATUS_CHECK) = Inr (s2, as) \<and>
    get_esp8266_status s2 = ESP8266_STATUS_COMMUNICATE"
proof -
  have t: "text_line (str_bytes ''+CWMODE:1'')" by (simp add: text_line_def str_bytes_def UART3_RX_SIZE_def)
  have "buf_at (rx_array (str_bytes ''+CWMODE:1'')) 8 = Inr (of_char CHR ''1'')"
    by (simp add: buf_at_def rx_array_def str_bytes_def UART3_RX_SIZE_def)
  then have m: "cwmode_reply (str_bytes ''+CWMODE:1'')"
    using t by (simp add: cwmode_reply_def find_str_line [OF t]) (simp add: str_bytes_def)
  have r: "reply ''OK'' (str_bytes ''OK'')" "reply ''CONNECT'' (str_bytes ''CONNECT'')" "\<not> reply ''ERROR'' (str_bytes ''CONNECT'')"
      "addr_text MAX_IP_LEN (str_bytes ''10.0.0.7'')" "str_bytes ''10.0.0.7'' \<noteq> str_bytes ''0.0.0.0''"
      "addr_text MAX_MAC_LEN (str_bytes ''a2:20'')"
    by (simp_all add: reply_def text_line_def str_bytes_def UART3_RX_SIZE_def addr_text_def max_lens)
  from wifi_bringup [OF _ _ _ r(1) m r(4-6) r(2,3), of "demo_wifi ESP8266_STATUS_CHECK"
      demo_env demo_env demo_env demo_env demo_env demo_env demo_env demo_env]
  show ?thesis using ibox_config_wf by auto
qed

end
