(* ===== verification/Wifi_Data.thy ===== *)
theory Wifi_Data
  imports Wifi
begin

text \<open>
  Data over the WiFi link: what the driver of theory \<open>Wifi\<close> delivers to the network layer from the
  module's \<open>+IPD\<close> lines, what it transmits, and what happens when an acknowledgement is lost.
\<close>

section \<open>Data from the server\<close>

text \<open>The line by which the module delivers data.\<close>

definition ipd_line :: "nat \<Rightarrow> bytes \<Rightarrow> bytes" where
  "ipd_line n payload = str_bytes ''+IPD,'' @ dec n @ str_bytes '':'' @ payload"

text \<open>None of the words the driver looks for first occurs before the first NUL of the line.\<close>

definition no_event :: "bytes \<Rightarrow> bool" where
  "no_event l \<longleftrightarrow> \<not> has_str_in (rx_array l) ''CLOSED'' \<and> \<not> has_str_in (rx_array l) ''ERROR'' \<and> \<not> has_str_in (rx_array l) ''SEND OK''"

lemma cstr_append: "0 \<notin> set a \<Longrightarrow> cstr (a @ b) = a @ cstr b"
  unfolding cstr_def by (rule takeWhile_append2) auto

lemma ipd_parse:
  assumes "no_event (ipd_line n p)"
  shows "wifi_receive e (rx_array (ipd_line n p)) s =
    bindR (net_rx_write (rx_sem_ok e) (p @ replicate (UART3_RX_SIZE - length (ipd_line n p)) 0) (of_nat n) (w_net s)) (\<lambda>(_, net, ks).
      Inr (s\<lparr>w_net := net\<rparr>, map Kernel ks))"
proof -
  let ?z = "replicate (UART3_RX_SIZE - length (ipd_line n p)) (0 :: u8)"
  have a: "rx_array (ipd_line n p) = str_bytes ''+IPD,'' @ dec n @ 58 # p @ ?z"
    by (simp add: rx_array_def ipd_line_def) (simp add: str_bytes_def)
  have z: "0 \<notin> set (str_bytes ''+IPD,'')" by (simp add: str_bytes_def)
  have f: "find_str (rx_array (ipd_line n p)) ''+IPD,'' = Some 0"
    unfolding a find_str_def cstr_append [OF z] by (rule strstr_prefix)
  have "length (str_bytes ''+IPD,'') = 5" by (simp add: str_bytes_def)
  then have d: "drop 5 (rx_array (ipd_line n p)) = dec n @ 58 # p @ ?z" unfolding a by simp
  have "parse_until (of_char CHR '':'') 0 (dec n @ 58 # p @ ?z) = Inr (of_nat n, p @ ?z)"
    using parse_until_dec [of 58 n "p @ ?z"] by simp
  then show ?thesis
    using assms f unfolding wifi_receive_def no_event_def by (simp add: d)
qed

lemma net_rx_write_ok:
  assumes "unat n \<le> length p" and "unat n \<le> NET_RX_BUF_SIZE"
  shows "net_rx_write True p n net = Inr (1, net\<lparr>net_rx_len := n, net_rx_buf := take (unat n) p @ replicate (NET_RX_BUF_SIZE - unat n) 0\<rparr>,
    [Rt_event_send NET_RX_BUF_WRITE_EVENT])"
  using assms by (simp add: net_rx_write_def memcpy_def)

lemma net_rx_write_overrun:
  assumes "\<not> (unat n \<le> length p \<and> unat n \<le> NET_RX_BUF_SIZE)"
  shows "net_rx_write True p n net = Inl OutOfBounds"
  using assms by (auto simp: net_rx_write_def memcpy_def)

text \<open>A data line in the communication state; \<open>t\<close> is what the line reader leaves of the data.\<close>

lemma ipd_step:
  assumes "quiet (w_uart3 s)" and "esp8266_status s = ESP8266_STATUS_COMMUNICATE" and "0x0d \<notin> set p"
    and "length (ipd_line n p) + 3 < UART3_RX_SIZE"
  defines "t \<equiv> filter (\<lambda>b. b \<noteq> 0x0a) p"
  assumes "no_event (ipd_line n t)"
  shows "\<exists>q. quiet q \<and> esp8266_at_fsm e (fold wifi_irq (ipd_line n p @ crlf) s) =
    bindR (net_rx_write (rx_sem_ok e) (t @ replicate (UART3_RX_SIZE - length (ipd_line n t)) 0) (of_nat n) (w_net s)) (\<lambda>(_, net, ks).
      Inr (s\<lparr>w_uart3 := q, w_net := net\<rparr>, map Kernel ks))"
proof -
  have pre: "0x0d \<notin> set (str_bytes ''+IPD,'')" "0x0d \<notin> set (dec n)" "0x0d \<notin> set (str_bytes '':'')"
      "0x0a \<notin> set (str_bytes ''+IPD,'')" "0x0a \<notin> set (dec n)" "0x0a \<notin> set (str_bytes '':'')"
    using dec_digits [of "0x0d" n] dec_digits [of "0x0a" n] by (auto simp: str_bytes_def)
  have f: "filter (\<lambda>b. b \<noteq> 0x0a) (ipd_line n p) = ipd_line n t"
  proof -
    have "filter (\<lambda>b. b \<noteq> 0x0a) xs = xs" if "0x0a \<notin> set xs" for xs :: bytes using that by (auto simp: filter_id_conv)
    then show ?thesis using pre(4-6) by (simp add: ipd_line_def t_def)
  qed
  have cr: "0x0d \<notin> set (ipd_line n p)" using pre assms(3) by (simp add: ipd_line_def)
  have len: "length (ipd_line n t) \<le> length (ipd_line n p)" by (simp add: ipd_line_def t_def)
  have "ipd_line n t \<noteq> []" by (simp add: ipd_line_def str_bytes_def)
  then have "(of_nat (length (ipd_line n t)) :: u16) \<noteq> 0"
    using len assms(4) eq_of_nat_u16 [of "length (ipd_line n t)" 0] by (auto simp: UART3_RX_SIZE_def)
  then show ?thesis
    using wr.step_raw_line [OF assms(1) cr assms(4), of e] assms(2) ipd_parse [OF assms(6)]
    unfolding f by (auto simp: esp8266_dispatch_def wifi_communicate_def)
qed

text \<open>What arrives of the bytes of a \<open>+IPD\<close> line: line feeds are dropped, and zeros stand for them at the end.\<close>

definition carried :: "bytes \<Rightarrow> bytes" where
  "carried p = filter (\<lambda>b. b \<noteq> 0x0a) p @ replicate (count_list p 0x0a) 0"

lemma filter_count: "length (filter (\<lambda>b. b \<noteq> 0x0a) xs) + count_list xs 0x0a = length xs" for xs :: bytes
  by (induction xs) auto

lemma carried_length [simp]: "length (carried p) = length p"
  by (simp add: carried_def filter_count)

lemma carried_same: "carried p = p \<longleftrightarrow> 0x0a \<notin> set p"
proof
  assume e: "carried p = p"
  have "0x0a \<notin> set (carried p)" by (auto simp: carried_def)
  then show "0x0a \<notin> set p" unfolding e .
next
  assume "0x0a \<notin> set p"
  moreover from this have "count_list p 0x0a = 0" by (simp add: count_list_0_iff)
  ultimately show "carried p = p" by (auto simp: carried_def filter_id_conv)
qed

lemma ipd_carries:
  assumes "quiet (w_uart3 s)" and "esp8266_status s = ESP8266_STATUS_COMMUNICATE" and "rx_sem_ok e"
    and "0x0d \<notin> set p" and "length (ipd_line (length p) p) + 3 < UART3_RX_SIZE"
    and "no_event (ipd_line (length p) (filter (\<lambda>b. b \<noteq> 0x0a) p))"
  shows "\<exists>q. quiet q \<and> esp8266_at_fsm e (fold wifi_irq (ipd_line (length p) p @ crlf) s) =
    Inr (s\<lparr>w_uart3 := q, w_net := (w_net s)\<lparr>net_rx_len := of_nat (length p),
           net_rx_buf := carried p @ replicate (NET_RX_BUF_SIZE - length p) 0\<rparr>\<rparr>,
         [Kernel (Rt_event_send NET_RX_BUF_WRITE_EVENT)])"
proof -
  let ?t = "filter (\<lambda>b. b \<noteq> 0x0a) p"
  let ?src = "?t @ replicate (UART3_RX_SIZE - length (ipd_line (length p) ?t)) 0"
  have n: "length p < 1460" "unat (of_nat (length p) :: u16) = length p" "length p \<le> NET_RX_BUF_SIZE"
    using assms(5) by (simp_all add: ipd_line_def UART3_RX_SIZE_def net_sizes)
  have l: "length (ipd_line (length p) ?t) \<le> length (ipd_line (length p) p)" "length (ipd_line (length p) ?t) \<ge> length ?t"
    by (simp_all add: ipd_line_def)
  have fit: "length p \<le> length ?src" using assms(5) n(1) l by (simp add: ipd_line_def UART3_RX_SIZE_def)
  have "count_list p 0x0a = length p - length ?t" using filter_count [of p] by linarith
  then have "take (length p) ?src = carried p" using fit by (simp add: carried_def min_absorb1)
  then show ?thesis
    using ipd_step [OF assms(1,2,4,5,6), of e] assms(3) n fit net_rx_write_ok [of "of_nat (length p)" ?src "w_net s"] by auto
qed

lemma ipd_delivers:
  assumes "quiet (w_uart3 s)" and "esp8266_status s = ESP8266_STATUS_COMMUNICATE" and "rx_sem_ok e"
    and "0x0d \<notin> set p" and "0x0a \<notin> set p" and "length (ipd_line (length p) p) + 3 < UART3_RX_SIZE"
    and "no_event (ipd_line (length p) p)"
  shows "\<exists>q. quiet q \<and> esp8266_at_fsm e (fold wifi_irq (ipd_line (length p) p @ crlf) s) =
    Inr (s\<lparr>w_uart3 := q, w_net := (w_net s)\<lparr>net_rx_len := of_nat (length p),
           net_rx_buf := p @ replicate (NET_RX_BUF_SIZE - length p) 0\<rparr>\<rparr>,
         [Kernel (Rt_event_send NET_RX_BUF_WRITE_EVENT)])"
proof -
  have "filter (\<lambda>b. b \<noteq> 0x0a) p = p" "carried p = p" using assms(5) by (simp_all add: carried_same) (auto simp: filter_id_conv)
  then show ?thesis using ipd_carries [OF assms(1-4,6)] assms(7) by simp
qed

text \<open>
  Data without line feeds and carriage returns that the module delivers by \<open>+IPD\<close> is handed to the
  network layer complete and unchanged, with its event.
\<close>

theorem wifi_ipd_delivers:
  assumes "quiet (w_uart3 s)" and "esp8266_status s = ESP8266_STATUS_COMMUNICATE" and "rx_sem_ok e"
    and "0x0d \<notin> set p" and "0x0a \<notin> set p" and "length (ipd_line (length p) p) + 3 < UART3_RX_SIZE"
    and "no_event (ipd_line (length p) p)"
  shows "\<exists>q. quiet q \<and> esp8266_at_fsm e (fold wifi_irq (ipd_line (length p) p @ crlf) s) =
    Inr (s\<lparr>w_uart3 := q, w_net := (w_net s)\<lparr>net_rx_len := of_nat (length p),
           net_rx_buf := p @ replicate (NET_RX_BUF_SIZE - length p) 0\<rparr>\<rparr>,
         [Kernel (Rt_event_send NET_RX_BUF_WRITE_EVENT)])"
  using assms by (rule ipd_delivers)

lemma demo_ipd: "no_event (ipd_line 3 (str_bytes ''abc''))" "length (ipd_line 3 (str_bytes ''abc'')) = 10"
proof -
  have d: "dec 3 = [51]" by (simp add: dec.simps)
  have "text_line (ipd_line 3 (str_bytes ''abc''))" by (simp add: d ipd_line_def text_line_def str_bytes_def UART3_RX_SIZE_def)
  from has_str_line [OF this] show "no_event (ipd_line 3 (str_bytes ''abc''))"
    by (simp add: no_event_def) (simp add: d ipd_line_def str_bytes_def)
  show "length (ipd_line 3 (str_bytes ''abc'')) = 10" by (simp add: d ipd_line_def str_bytes_def)
qed

theorem wifi_ipd_delivers_witness:
  "\<exists>s' as. esp8266_at_fsm demo_env (fold wifi_irq (ipd_line 3 (str_bytes ''abc'') @ crlf) (demo_wifi ESP8266_STATUS_COMMUNICATE)) =
      Inr (s', as) \<and> take 3 (net_rx_buf (w_net s')) = str_bytes ''abc''"
proof -
  have l: "length (str_bytes ''abc'') = 3" by (simp add: str_bytes_def)
  have "0x0d \<notin> set (str_bytes ''abc'')" "0x0a \<notin> set (str_bytes ''abc'')" by (simp_all add: str_bytes_def)
  then obtain q where "esp8266_at_fsm demo_env (fold wifi_irq (ipd_line 3 (str_bytes ''abc'') @ crlf) (demo_wifi ESP8266_STATUS_COMMUNICATE)) =
      Inr ((demo_wifi ESP8266_STATUS_COMMUNICATE)\<lparr>w_uart3 := q, w_net := (demo_network 0 [])\<lparr>net_rx_len := of_nat 3,
        net_rx_buf := str_bytes ''abc'' @ replicate (NET_RX_BUF_SIZE - 3) 0\<rparr>\<rparr>, [Kernel (Rt_event_send NET_RX_BUF_WRITE_EVENT)])"
    using wifi_ipd_delivers [of "demo_wifi ESP8266_STATUS_COMMUNICATE" demo_env "str_bytes ''abc''", unfolded l] demo_ipd
    by (auto simp: UART3_RX_SIZE_def)
  then show ?thesis using l by simp
qed

text \<open>
  Line feeds are lost: of data that contains them the network layer gets the rest of the bytes
  followed by zeros, with the original length, so a binary MQTT packet with a byte 10 arrives
  corrupted.
\<close>

theorem wifi_ipd_drops_line_feeds:
  assumes "quiet (w_uart3 s)" and "esp8266_status s = ESP8266_STATUS_COMMUNICATE" and "rx_sem_ok e"
    and "0x0d \<notin> set p" and "0x0a \<in> set p" and "length (ipd_line (length p) p) + 3 < UART3_RX_SIZE"
    and "no_event (ipd_line (length p) (filter (\<lambda>b. b \<noteq> 0x0a) p))"
  shows "\<exists>s' as. esp8266_at_fsm e (fold wifi_irq (ipd_line (length p) p @ crlf) s) = Inr (s', as) \<and>
    unat (net_rx_len (w_net s')) = length p \<and>
    take (length p) (net_rx_buf (w_net s')) = filter (\<lambda>b. b \<noteq> 0x0a) p @ replicate (count_list p 0x0a) 0 \<and>
    take (length p) (net_rx_buf (w_net s')) \<noteq> p"
proof -
  have n: "unat (of_nat (length p) :: u16) = length p" using assms(6) by (simp add: ipd_line_def UART3_RX_SIZE_def)
  have t: "take (length p) (carried p @ ys) = carried p" for ys using carried_length [of p] by (metis append_eq_conv_conj)
  show ?thesis
    using ipd_carries [OF assms(1-4,6,7)] n assms(5) carried_same [of p] t unfolding carried_def [symmetric] by auto
qed

lemma demo_ipd_lf: "no_event (ipd_line 2 (filter (\<lambda>b. b \<noteq> 0x0a) [0x0a, 97]))"
proof -
  have d: "dec 2 = [50]" by (simp add: dec.simps)
  have "text_line (ipd_line 2 [97])" by (simp add: d ipd_line_def text_line_def str_bytes_def UART3_RX_SIZE_def)
  from has_str_line [OF this] show ?thesis by (simp add: no_event_def) (simp add: d ipd_line_def str_bytes_def)
qed

theorem wifi_ipd_drops_line_feeds_witness:
  "\<exists>s' as. esp8266_at_fsm demo_env (fold wifi_irq (ipd_line 2 [0x0a, 97] @ crlf) (demo_wifi ESP8266_STATUS_COMMUNICATE)) = Inr (s', as) \<and>
    take 2 (net_rx_buf (w_net s')) = [97, 0]"
proof -
  have l: "length [0x0a, 97 :: u8] = 2" by simp
  have d: "length (ipd_line 2 [0x0a, 97]) = 9" by (simp add: ipd_line_def str_bytes_def dec.simps)
  have "\<exists>s' as. esp8266_at_fsm demo_env (fold wifi_irq (ipd_line 2 [0x0a, 97] @ crlf) (demo_wifi ESP8266_STATUS_COMMUNICATE)) = Inr (s', as) \<and>
    unat (net_rx_len (w_net s')) = 2 \<and>
    take 2 (net_rx_buf (w_net s')) = filter (\<lambda>b. b \<noteq> 0x0a) [0x0a, 97] @ replicate (count_list [0x0a, 97 :: u8] 0x0a) 0 \<and>
    take 2 (net_rx_buf (w_net s')) \<noteq> [0x0a, 97]"
    by (rule wifi_ipd_drops_line_feeds [of "demo_wifi ESP8266_STATUS_COMMUNICATE" demo_env "[0x0a, 97]", unfolded l])
      (use demo_ipd_lf d in \<open>simp_all add: UART3_RX_SIZE_def\<close>)
  then show ?thesis by auto
qed

text \<open>
  A length in \<open>+IPD\<close> that is larger than the receive buffer is not rejected: \<open>net_rx_write\<close> copies
  outside its arrays.
\<close>

theorem wifi_ipd_overrun:
  assumes "quiet (w_uart3 s)" and "esp8266_status s = ESP8266_STATUS_COMMUNICATE" and "rx_sem_ok e"
    and "0x0d \<notin> set p" and "length (ipd_line n p) + 3 < UART3_RX_SIZE" and "NET_RX_BUF_SIZE < n" and "n < 65536"
    and "no_event (ipd_line n (filter (\<lambda>b. b \<noteq> 0x0a) p))"
  shows "esp8266_at_fsm e (fold wifi_irq (ipd_line n p @ crlf) s) = Inl OutOfBounds"
proof -
  have n: "unat (of_nat n :: u16) = n" using assms(7) by simp
  show ?thesis
    using ipd_step [OF assms(1,2,4,5,8), of e] assms(3,6) n net_rx_write_overrun [of "of_nat n"] by auto
qed

theorem wifi_ipd_overrun_witness:
  "esp8266_at_fsm demo_env (fold wifi_irq (ipd_line 2000 [97] @ crlf) (demo_wifi ESP8266_STATUS_COMMUNICATE)) = Inl OutOfBounds"
proof (rule wifi_ipd_overrun)
  have d: "dec 2000 = [50, 48, 48, 48]" by (simp add: dec.simps)
  have t: "text_line (ipd_line 2000 [97])" by (simp add: d ipd_line_def text_line_def str_bytes_def UART3_RX_SIZE_def)
  from has_str_line [OF this] show "no_event (ipd_line 2000 (filter (\<lambda>b. b \<noteq> 0x0a) [97]))"
    by (simp add: no_event_def) (simp add: d ipd_line_def str_bytes_def)
  show "length (ipd_line 2000 [97]) + 3 < UART3_RX_SIZE" using t by (simp add: text_line_def)
qed (simp_all add: net_sizes)

section \<open>Data to the server\<close>

lemma uart3_send_data_take: "n \<le> length d \<Longrightarrow> uart3_send_data d n = Inr (take n d)"
  by (induction d n rule: uart3_send_data.induct) auto

lemma esp8266_send_data_ok:
  assumes "unat (net_wifi_tx_len (w_net s)) \<le> length (net_uart3_tx_buf (w_net s))"
  shows "esp8266_send_data s = Inr [Uart3_tx (str_bytes ''AT+CIPSEND='' @ dec (unat (net_wifi_tx_len (w_net s))) @ crlf),
    Sys_delay 50, Uart3_tx (take (unat (net_wifi_tx_len (w_net s))) (net_uart3_tx_buf (w_net s)))]"
proof -
  let ?t = "str_bytes ''AT+CIPSEND='' @ dec (unat (net_wifi_tx_len (w_net s))) @ crlf"
  have "length ?t < 20" using dec_u16_length [of "net_wifi_tx_len (w_net s)"] by (simp add: str_bytes_def crlf_def)
  moreover have "uart3_send_str ?t = ?t"
    unfolding uart3_send_str_cstr by (intro cstr_no_nul) (simp add: nul_notin_dec str_bytes_def crlf_def)
  ultimately show ?thesis
    using uart3_send_data_take [OF assms] by (simp add: esp8266_send_data_def sprintf_into_def Let_def)
qed

text \<open>
  Sending: with data in the transmit buffer and the last packet acknowledged, an idle step transmits
  the send command with the length and exactly the data, and marks the packet as pending; while a
  packet is pending, the communication state transmits nothing.
\<close>

theorem wifi_sends_once:
  assumes "quiet (w_uart3 s)" and "esp8266_status s = ESP8266_STATUS_COMMUNICATE"
    and "net_wifi_tx_len (w_net s) \<noteq> 0"
    and "unat (net_wifi_tx_len (w_net s)) \<le> length (net_uart3_tx_buf (w_net s))"
  shows "\<exists>s' as. esp8266_at_fsm e s = Inr (s', as) \<and> wifi_send_flag s' = 0 \<and> w_net s' = w_net s \<and>
    tx_bytes as = (if wifi_send_flag s = 0 then [] else
      str_bytes ''AT+CIPSEND='' @ dec (unat (net_wifi_tx_len (w_net s))) @ crlf @
      take (unat (net_wifi_tx_len (w_net s))) (net_uart3_tx_buf (w_net s)))"
proof -
  obtain q where q: "esp8266_at_fsm e s = esp8266_dispatch e 0 (rx_array []) (s\<lparr>w_uart3 := q\<rparr>)"
    using wr.step_silent [OF assms(1)] by blast
  have "esp8266_send_data (s\<lparr>w_uart3 := q\<rparr>) = esp8266_send_data s" by (simp add: esp8266_send_data_def)
  then show ?thesis
    using q assms(2,3) esp8266_send_data_ok [OF assms(4)]
    by (auto simp: esp8266_dispatch_def wifi_communicate_def wifi_transmit_def Let_def)
qed

definition demo_wifi_tx :: "u8 \<Rightarrow> wifi" where
  "demo_wifi_tx flag = (demo_wifi ESP8266_STATUS_COMMUNICATE)
     \<lparr>wifi_send_flag := flag, w_net := (demo_network 0 [])\<lparr>net_wifi_tx_len := 2, net_uart3_tx_buf := [104, 105]\<rparr>\<rparr>"

theorem wifi_sends_once_witness:
  "\<exists>s' as. esp8266_at_fsm demo_env (demo_wifi_tx 1) = Inr (s', as) \<and> wifi_send_flag s' = 0 \<and>
    tx_bytes as = str_bytes ''AT+CIPSEND='' @ dec 2 @ crlf @ [104, 105]"
  using wifi_sends_once [of "demo_wifi_tx 1" demo_env] by (auto simp: demo_wifi_tx_def)

lemma dispatch_keeps_net:
  assumes "esp8266_dispatch e len rx s = Inr (s', as)" and "esp8266_status s \<noteq> ESP8266_STATUS_COMMUNICATE"
  shows "w_net s' = w_net s \<and> wifi_send_flag s' = wifi_send_flag s"
proof (cases "esp8266_status s")
  case ESP8266_STATUS_CHECK
  then show ?thesis
    using assms by (auto simp: esp8266_dispatch_def wifi_check_def bindR_eq_Inr Let_def dest: wifi_retry_cmd wifi_retry_status
        split: if_splits option.splits)
next
  case ESP8266_STATUS_CHECK_MODE
  then show ?thesis
    using assms by (auto simp: esp8266_dispatch_def wifi_check_mode_def bindR_eq_Inr Let_def dest: wifi_retry_cmd wifi_retry_status
        split: if_splits option.splits)
next
  case ESP8266_STATUS_WAIT_CHECK_MODE
  then show ?thesis
    using assms by (auto simp: esp8266_dispatch_def wifi_wait_check_mode_def bindR_eq_Inr Let_def dest: wifi_retry_cmd wifi_retry_status
        split: if_splits option.splits)
next
  case ESP8266_STATUS_SET_MODE
  then show ?thesis
    using assms by (auto simp: esp8266_dispatch_def wifi_set_mode_def bindR_eq_Inr Let_def dest: wifi_retry_cmd wifi_retry_status
        split: if_splits option.splits)
next
  case ESP8266_STATUS_WAIT_SET_MODE
  then show ?thesis
    using assms by (auto simp: esp8266_dispatch_def wifi_wait_set_mode_def bindR_eq_Inr Let_def dest: wifi_retry_cmd wifi_retry_status
        split: if_splits option.splits)
next
  case ESP8266_STATUS_RESET
  then show ?thesis
    using assms by (auto simp: esp8266_dispatch_def wifi_reset_def bindR_eq_Inr Let_def dest: wifi_retry_cmd wifi_retry_status
        split: if_splits option.splits)
next
  case ESP8266_STATUS_WAIT_RESET
  then show ?thesis
    using assms by (auto simp: esp8266_dispatch_def wifi_wait_reset_def bindR_eq_Inr Let_def dest: wifi_retry_cmd wifi_retry_status
        split: if_splits option.splits)
next
  case ESP8266_STATUS_WAIT_CLOSE_ECHO
  then show ?thesis
    using assms by (auto simp: esp8266_dispatch_def wifi_wait_close_echo_def bindR_eq_Inr Let_def dest: wifi_retry_cmd wifi_retry_status
        split: if_splits option.splits)
next
  case ESP8266_STATUS_WIFI_CONNECT
  then show ?thesis
    using assms by (auto simp: esp8266_dispatch_def wifi_connect_def bindR_eq_Inr Let_def dest: wifi_retry_cmd wifi_retry_status
        split: if_splits option.splits)
next
  case ESP8266_STATUS_WAIT_CONNECTED
  then show ?thesis
    using assms by (auto simp: esp8266_dispatch_def wifi_wait_connected_def bindR_eq_Inr Let_def dest: wifi_retry_cmd wifi_retry_status
        split: if_splits option.splits)
next
  case ESP8266_STATUS_WAIT_GOT_IP
  then show ?thesis
    using assms by (auto simp: esp8266_dispatch_def wifi_wait_got_ip_def bindR_eq_Inr Let_def dest: wifi_retry_cmd wifi_retry_status
        split: if_splits option.splits)
next
  case ESP8266_STATUS_LINK_OK
  then show ?thesis
    using assms by (auto simp: esp8266_dispatch_def wifi_link_ok_def bindR_eq_Inr Let_def dest: wifi_retry_cmd wifi_retry_status
        split: if_splits option.splits)
next
  case ESP8266_STATUS_GET_IP
  then show ?thesis
    using assms by (auto simp: esp8266_dispatch_def wifi_get_ip_def bindR_eq_Inr Let_def dest: wifi_retry_cmd wifi_retry_status
        split: if_splits option.splits)
next
  case ESP8266_STATUS_GET_MAC
  then show ?thesis
    using assms by (auto simp: esp8266_dispatch_def wifi_get_mac_def bindR_eq_Inr Let_def dest: wifi_retry_cmd wifi_retry_status
        split: if_splits option.splits)
next
  case ESP8266_STATUS_RESTART_CONNECT_SEVER
  then show ?thesis
    using assms by (auto simp: esp8266_dispatch_def wifi_restart_connect_def bindR_eq_Inr Let_def dest: wifi_retry_cmd wifi_retry_status
        split: if_splits option.splits)
next
  case ESP8266_STATUS_CONNECT_SERVER
  then show ?thesis
    using assms by (auto simp: esp8266_dispatch_def wifi_connect_server_def bindR_eq_Inr Let_def dest: wifi_retry_cmd wifi_retry_status
        split: if_splits option.splits)
next
  case ESP8266_STATUS_WAIT_LINK_SERVER
  then show ?thesis
    using assms by (auto simp: esp8266_dispatch_def wifi_wait_link_server_def bindR_eq_Inr Let_def dest: wifi_retry_cmd wifi_retry_status
        split: if_splits option.splits)
next
  case ESP8266_STATUS_COMMUNICATE
  then show ?thesis using assms(2) by simp
qed

lemma communicate_pending:
  assumes "wifi_communicate e len rx s = Inr (s', as)" and "wifi_send_flag s = 0" and "\<not> has_str_in rx ''SEND OK''"
  shows "wifi_send_flag s' = 0 \<and> net_wifi_tx_len (w_net s') = net_wifi_tx_len (w_net s) \<and>
    tx_bytes as = [] \<and> Kernel (Rt_sem_release Net_tx_sem) \<notin> set as"
proof (cases "len = 0")
  case True
  then have "wifi_transmit e s = Inr (s', as)" using assms(1) by (simp add: wifi_communicate_def)
  then show ?thesis using assms(2) by (auto simp: wifi_transmit_def Let_def split: if_splits)
next
  case False
  have w: "net_wifi_tx_len n' = net_wifi_tx_len n \<and> tx_bytes (map Kernel ks) = [] \<and> Rt_sem_release Net_tx_sem \<notin> set ks"
    if "net_rx_write ok p l n = Inr (r, n', ks)" for ok p l n r n' ks
    using that by (auto simp: net_rx_write_def split: if_splits sum.splits)
  have "wifi_receive e rx s = Inr (s', as)" using assms(1) False by (simp add: wifi_communicate_def)
  then show ?thesis
    using assms(2,3) unfolding wifi_receive_def
    by (auto simp: bindR_eq_Inr dest!: w split: if_split_asm option.split_asm)
qed

text \<open>The runs in which the module acknowledges nothing: no step reads a line with \<open>SEND OK\<close>.\<close>

definition esp8266_unacked :: "at_env \<Rightarrow> wifi \<Rightarrow> wifi_result" where
  "esp8266_unacked e s =
     (if has_str_in (rx_array (fst (get_line_from_uart3 (w_uart3 s)))) ''SEND OK'' then Inl OutOfBounds
      else esp8266_at_fsm e s)"

lemma unacked_step:
  assumes "esp8266_unacked e s = Inr (s', as)" and "wifi_send_flag s = 0"
  shows "wifi_send_flag s' = 0 \<and> net_wifi_tx_len (w_net s') = net_wifi_tx_len (w_net s) \<and>
    (esp8266_status s = ESP8266_STATUS_COMMUNICATE \<longrightarrow> tx_bytes as = [] \<and> Kernel (Rt_sem_release Net_tx_sem) \<notin> set as)"
proof -
  let ?l = "fst (get_line_from_uart3 (w_uart3 s))" and ?s = "s\<lparr>w_uart3 := snd (get_line_from_uart3 (w_uart3 s))\<rparr>"
  have d: "esp8266_dispatch e (of_nat (length ?l)) (rx_array ?l) ?s = Inr (s', as)" "\<not> has_str_in (rx_array ?l) ''SEND OK''"
    using assms(1) by (auto simp: esp8266_unacked_def esp8266_at_fsm_def split_beta split: if_splits)
  show ?thesis
  proof (cases "esp8266_status s = ESP8266_STATUS_COMMUNICATE")
    case True
    then show ?thesis using d assms(2) communicate_pending [of e _ "rx_array ?l" ?s s' as] by (simp add: esp8266_dispatch_def)
  next
    case False
    then show ?thesis using dispatch_keeps_net [OF d(1)] assms(2) by simp
  qed
qed

interpretation wp: at_modem "\<lambda>s :: wifi. wifi_send_flag s = 0 \<and> net_wifi_tx_len (w_net s) = n" esp8266_unacked wifi_irq for n
proof unfold_locales
  fix s s' :: wifi and e as d
  assume s: "wifi_send_flag s = 0 \<and> net_wifi_tx_len (w_net s) = n"
  then show "wifi_send_flag s' = 0 \<and> net_wifi_tx_len (w_net s') = n" if "esp8266_unacked e s = Inr (s', as)"
    using unacked_step [OF that] by simp
  show "wifi_send_flag (wifi_irq d s) = 0 \<and> net_wifi_tx_len (w_net (wifi_irq d s)) = n"
    using s by (simp add: wifi_irq_def)
qed

text \<open>
  C10: A lost acknowledgement stops the link for good: in every run in which no line contains
  \<open>SEND OK\<close>, a packet that is pending stays pending, and the communication state, also after the
  driver has reconnected, neither transmits nor gives the transmit buffer back to the network layer.
\<close>

theorem wifi_pending_for_ever:
  assumes "at_reach esp8266_unacked wifi_irq s0 s" and "wifi_send_flag s0 = 0"
    and "esp8266_status s = ESP8266_STATUS_COMMUNICATE" and "esp8266_unacked e s = Inr (s', as)"
  shows "wifi_send_flag s' = 0 \<and> net_wifi_tx_len (w_net s') = net_wifi_tx_len (w_net s0) \<and>
    tx_bytes as = [] \<and> Kernel (Rt_sem_release Net_tx_sem) \<notin> set as"
  using wp.reach_inv [OF assms(1), of "net_wifi_tx_len (w_net s0)"] unacked_step [OF assms(4)] assms(2,3) by simp

theorem wifi_pending_for_ever_witness:
  "\<exists>s' as. esp8266_at_fsm demo_env (demo_wifi_tx 0) = Inr (s', as) \<and> wifi_send_flag s' = 0 \<and> tx_bytes as = []"
proof -
  let ?s = "demo_wifi_tx 0"
  have q: "quiet (w_uart3 ?s)" and st: "esp8266_status ?s = ESP8266_STATUS_COMMUNICATE" and f: "wifi_send_flag ?s = 0"
    by (simp_all add: demo_wifi_tx_def)
  have "fst (get_line_from_uart3 demo_uart3) = []"
    using line3_loop_take_line [of demo_uart3 "[]"] demo_uart3_quiet by (auto simp: get_line_from_uart3_def quiet_def)
  then have e: "esp8266_unacked demo_env ?s = esp8266_at_fsm demo_env ?s"
    by (simp add: esp8266_unacked_def demo_wifi_tx_def has_str_in_def find_str_def rx_array_def cstr_def str_bytes_def
        UART3_RX_SIZE_def)
  have "\<exists>s' as. esp8266_at_fsm demo_env ?s = Inr (s', as)"
    using wr.step_silent [OF q, of demo_env] st f
    by (auto simp: esp8266_dispatch_def wifi_communicate_def wifi_transmit_def Let_def)
  then obtain s' as where u: "esp8266_unacked demo_env ?s = Inr (s', as)" using e by auto
  show ?thesis
    using wifi_pending_for_ever [OF at_reach.start f st u] u unfolding e by (intro exI [of _ s'] exI [of _ as]) simp
qed

end
