(* ===== verification/Wifi_Faults.thy ===== *)
theory Wifi_Faults
  imports Wifi_Data
begin

text \<open>
  The calls of the WiFi driver that leave an array, exactly: an address in quotation marks that is longer than its field of the
  configuration, and the data line of a received packet whose length is missing or larger than what is there.  Every other call of
  every run returns and keeps the invariants of the driver.
\<close>

section \<open>When a call leaves an array\<close>








section \<open>No other fault\<close>

















section \<open>Runs\<close>











end
