(* ===== verification/Mqtt_Session.thy ===== *)
theory Mqtt_Session
  imports Mqtt_Receive "HOL-Library.Multiset"
begin

text \<open>
  The client's side of a session: topic filters, the table of message handlers, packet
  identifiers, and what the client calls promise about the connection state.
\<close>

section \<open>Topic filters\<close>

text \<open>A topic is split into its levels at the separators; empty levels count.\<close>

function levels :: "bytes \<Rightarrow> bytes list" where
  "levels x = takeWhile (\<lambda>b. b \<noteq> 47) x #
     (case dropWhile (\<lambda>b. b \<noteq> 47) x of [] \<Rightarrow> [] | _ # r \<Rightarrow> levels r)"
  by pat_completeness auto
termination
proof (relation "measure length")
  fix x r :: bytes and b
  assume "dropWhile (\<lambda>b. b \<noteq> 47) x = b # r"
  then have "length (b # r) \<le> length x" by (metis length_dropWhile_le)
  then show "(r, x) \<in> measure length" by simp
qed simp

declare levels.simps [simp del]

fun join :: "bytes list \<Rightarrow> bytes" where
  "join [] = []"
| "join [x] = x"
| "join (x # y # r) = x @ 47 # join (y # r)"

lemma join_Cons: "join (x # r) = x @ (if r = [] then [] else 47 # join r)"
  by (cases r) simp_all

lemma levels_ne [simp]: "levels x \<noteq> []"
  by (simp add: levels.simps)

lemma join_levels: "join (levels x) = x"
proof (induction x rule: levels.induct)
  case (1 x)
  show ?case
  proof (cases "dropWhile (\<lambda>b. b \<noteq> 47) x")
    case Nil
    then have "takeWhile (\<lambda>b. b \<noteq> 47) x = x" by (metis append_Nil2 takeWhile_dropWhile_id)
    then show ?thesis by (simp only: levels.simps [of x] Nil list.case join.simps)
  next
    case (Cons b r)
    then have "b = 47" by (metis (mono_tags, lifting) dropWhile_eq_Cons_conv)
    then show ?thesis
      using Cons 1 takeWhile_dropWhile_id [of "\<lambda>b. b \<noteq> 47" x] by (simp add: levels.simps [of x] join_Cons)
  qed
qed

lemma levels_plain: "n \<in> set (levels x) \<Longrightarrow> 47 \<notin> set n"
proof (induction x rule: levels.induct)
  case (1 x)
  show ?case
  proof (cases "dropWhile (\<lambda>b. b \<noteq> 47) x")
    case Nil
    then show ?thesis using 1(2) set_takeWhileD [of _ "\<lambda>b. b \<noteq> 47" x] unfolding levels.simps [of x] Nil by auto
  next
    case (Cons b r)
    then show ?thesis
      using 1(2) 1(1) [OF Cons] set_takeWhileD [of _ "\<lambda>b. b \<noteq> 47" x] unfolding levels.simps [of x] Cons by auto
  qed
qed

text \<open>
  MQTT's matching, section 4.7.1 of the standard: \<open>+\<close> matches any one level, also an empty one, and a final \<open>#\<close> its parent level
  and any number of levels below it.
\<close>

fun mqtt_match :: "bytes list \<Rightarrow> bytes list \<Rightarrow> bool" where
  "mqtt_match [] ns \<longleftrightarrow> ns = []"
| "mqtt_match (f # fs) [] \<longleftrightarrow> f = [35] \<and> fs = []"
| "mqtt_match (f # fs) (n # ns) \<longleftrightarrow>
     (if f = [35] then fs = [] else (f = [43] \<or> f = n) \<and> mqtt_match fs ns)"

text \<open>Every wildcard of the filter meets a level of the name, and that level is not empty.\<close>

fun wildcards_filled :: "bytes list \<Rightarrow> bytes list \<Rightarrow> bool" where
  "wildcards_filled [] ns \<longleftrightarrow> True"
| "wildcards_filled (f # fs) [] \<longleftrightarrow> False"
| "wildcards_filled (f # fs) (n # ns) \<longleftrightarrow>
     (if f = [35] then n \<noteq> [] else (f = [43] \<longrightarrow> n \<noteq> []) \<and> wildcards_filled fs ns)"

text \<open>
  The format the code assumes: \<open>+\<close> and \<open>#\<close> fill a level, and \<open>#\<close> is the last one.
\<close>

definition literal :: "bytes \<Rightarrow> bool" where
  "literal f \<longleftrightarrow> 47 \<notin> set f \<and> 43 \<notin> set f \<and> 35 \<notin> set f"

fun filter_ok :: "bytes list \<Rightarrow> bool" where
  "filter_ok [] \<longleftrightarrow> False"
| "filter_ok [f] \<longleftrightarrow> f = [43] \<or> f = [35] \<or> literal f"
| "filter_ok (f # g # fs) \<longleftrightarrow> (f = [43] \<or> literal f) \<and> filter_ok (g # fs)"

definition tmatch :: "bytes \<Rightarrow> bytes \<Rightarrow> bool" where
  "tmatch f n \<longleftrightarrow> topic_loop f n = ([], [])"

lemma isTopicMatched_tmatch: "isTopicMatched f t \<longleftrightarrow> tmatch f (topic_data t)"
  by (auto simp: isTopicMatched_def tmatch_def split_beta prod_eq_iff)

text \<open>A tail of a topic is empty or starts with a separator.\<close>

definition tail :: "bytes \<Rightarrow> bool" where
  "tail x \<longleftrightarrow> x = [] \<or> hd x = 47"

lemma tmatch_literal:
  assumes "literal f" and "47 \<notin> set n" and "tail F" and "tail N"
  shows "tmatch (f @ F) (n @ N) \<longleftrightarrow> f = n \<and> tmatch F N"
  using assms
proof (induction f arbitrary: n)
  case Nil
  show ?case
  proof (cases n)
    case Nil
    then show ?thesis by simp
  next
    case (Cons x xs)
    with Nil.prems show ?thesis by (cases F) (auto simp: tmatch_def tail_def)
  qed
next
  case (Cons a f)
  then have a: "a \<noteq> 47" "a \<noteq> 43" "a \<noteq> 35" and f: "literal f" by (auto simp: literal_def)
  show ?case
  proof (cases n)
    case Nil
    with Cons.prems a show ?thesis by (cases N) (auto simp: tmatch_def tail_def)
  next
    case (Cons x xs)
    then show ?thesis using Cons.IH [OF f, of xs] Cons.prems a by (auto simp: tmatch_def)
  qed
qed

lemma tmatch_plus:
  assumes "n \<noteq> []" and "47 \<notin> set n" and "tail N"
  shows "tmatch (43 # F) (n @ N) \<longleftrightarrow> tmatch F N"
proof -
  have "dropWhile (\<lambda>x. x \<noteq> 47) (xs @ N) = N" if "47 \<notin> set xs" for xs
    using that assms(3) by (induction xs) (auto simp: tail_def dropWhile_eq_self_iff)
  with assms show ?thesis by (cases n) (auto simp: tmatch_def)
qed

lemma tmatch_simps [simp]:
  "tmatch [] []" "tmatch (47 # F) (47 # N) \<longleftrightarrow> tmatch F N" "\<not> tmatch [] (x # N)" "\<not> tmatch (x # F) []"
  by (simp_all add: tmatch_def)

lemma tmatch_hash: "n \<noteq> [] \<Longrightarrow> 47 \<notin> set n \<Longrightarrow> tmatch [35] (n @ N)"
  by (cases n) (auto simp: tmatch_def)

lemma tmatch_wild_empty: "tail N \<Longrightarrow> f = 43 \<or> f = 35 \<Longrightarrow> \<not> tmatch (f # F) N"
  by (cases N) (auto simp: tmatch_def tail_def)

lemma literal_not_wild: "literal f \<Longrightarrow> f \<noteq> [43] \<and> f \<noteq> [35]"
  by (auto simp: literal_def)

lemma tmatch_join:
  "filter_ok fs \<Longrightarrow> ns \<noteq> [] \<Longrightarrow> \<forall>n \<in> set ns. 47 \<notin> set n \<Longrightarrow>
     tmatch (join fs) (join ns) \<longleftrightarrow> mqtt_match fs ns \<and> wildcards_filled fs ns"
proof (induction fs ns rule: mqtt_match.induct)
  case (1 ns)
  then show ?case by simp
next
  case (2 f fs)
  then show ?case by simp
next
  case (3 f fs n ns)
  have n: "47 \<notin> set n" and ns: "\<forall>n \<in> set ns. 47 \<notin> set n" using "3.prems" by auto
  have fs: "fs \<noteq> [] \<Longrightarrow> filter_ok fs" using "3.prems"(1) by (cases fs) simp_all
  let ?F = "if fs = [] then [] else 47 # join fs" and ?N = "if ns = [] then [] else 47 # join ns"
  have t: "tail ?F" "tail ?N" by (simp_all add: tail_def)
  have rest: "tmatch ?F ?N \<longleftrightarrow> mqtt_match fs ns \<and> wildcards_filled fs ns" if "f \<noteq> [35]"
  proof -
    have "fs \<noteq> [] \<Longrightarrow> ns \<noteq> [] \<Longrightarrow> tmatch (join fs) (join ns) \<longleftrightarrow> mqtt_match fs ns \<and> wildcards_filled fs ns"
      using "3.IH" [OF that fs _ ns] by simp
    then show ?thesis by (cases fs; cases ns) simp_all
  qed
  consider "f = [35]" | "f = [43]" | "f \<noteq> [35]" "f \<noteq> [43]" "literal f"
    using "3.prems"(1) by (cases fs) (auto dest: literal_not_wild)
  then show ?case
  proof cases
    case 1
    then have "fs = []" using "3.prems"(1) by (cases fs) (auto simp: literal_def)
    then show ?thesis
      using 1 tmatch_hash [OF _ n, of ?N] tmatch_wild_empty [OF t(2), of 35] by (cases "n = []") (simp_all add: join_Cons)
  next
    case 2
    then show ?thesis
      using rest tmatch_plus [OF _ n t(2), of ?F] tmatch_wild_empty [OF t(2), of 43 ?F]
      by (cases "n = []") (simp_all only: join_Cons, simp_all)
  next
    case 3
    then show ?thesis using rest tmatch_literal [OF 3(3) n t] by (simp only: join_Cons mqtt_match.simps wildcards_filled.simps) auto
  qed
qed

text \<open>The matching of the code on whole strings.\<close>

definition topic_spec :: "bytes \<Rightarrow> bytes \<Rightarrow> bool" where
  "topic_spec f n \<longleftrightarrow> mqtt_match (levels f) (levels n) \<and> wildcards_filled (levels f) (levels n)"

lemma isTopicMatched_spec: "filter_ok (levels f) \<Longrightarrow> isTopicMatched f t \<longleftrightarrow> topic_spec f (topic_data t)"
  using tmatch_join [of "levels f" "levels (topic_data t)"] levels_plain [of _ "topic_data t"]
  by (simp add: isTopicMatched_tmatch topic_spec_def join_levels)

text \<open>
  C6: For every filter in the format the code assumes, and for every topic name, the character loop of \<open>isTopicMatched\<close> accepts exactly
  the names that MQTT's matching accepts and in which every wildcard meets a level that is there and not empty.  That restriction is where
  it deviates from the standard: \<open>sport/#\<close> does not match \<open>sport\<close>, and neither \<open>+\<close> nor \<open>#\<close> matches the empty level of \<open>/a\<close>.  A filter
  without wildcards accepts the names that MQTT accepts, no other.
\<close>

theorem isTopicMatched_correct:
  assumes "filter_ok (levels f)"
  shows "isTopicMatched f t \<longleftrightarrow>
    mqtt_match (levels f) (levels (topic_data t)) \<and> wildcards_filled (levels f) (levels (topic_data t))"
  using isTopicMatched_spec [OF assms] by (simp add: topic_spec_def)

lemma level_demo:
  "levels (str_bytes ''mqtt/+/#'') = [str_bytes ''mqtt'', [43], [35]]" "levels (str_bytes ''sport/#'') = [str_bytes ''sport'', [35]]"
  "levels (str_bytes ''mqtt/a/b'') = [str_bytes ''mqtt'', str_bytes ''a'', str_bytes ''b'']" "levels (str_bytes ''sport'') = [str_bytes ''sport'']"
  by (simp_all add: levels.simps str_bytes_def)

theorem isTopicMatched_correct_witness:
  "isTopicMatched (str_bytes ''mqtt/+/#'') (len_str (str_bytes ''mqtt/a/b'') MQTTString_initializer) \<and>
   \<not> isTopicMatched (str_bytes ''sport/#'') (len_str (str_bytes ''sport'') MQTTString_initializer) \<and>
   mqtt_match (levels (str_bytes ''sport/#'')) (levels (str_bytes ''sport''))"
proof -
  have d: "topic_data (len_str x MQTTString_initializer) = x" for x by (simp add: topic_data_def len_str_def)
  have "filter_ok (levels (str_bytes ''mqtt/+/#''))" "filter_ok (levels (str_bytes ''sport/#''))"
    unfolding level_demo by (simp_all add: literal_def str_bytes_def)
  then show ?thesis
    using isTopicMatched_correct [of "str_bytes ''mqtt/+/#''" "len_str (str_bytes ''mqtt/a/b'') MQTTString_initializer"]
      isTopicMatched_correct [of "str_bytes ''sport/#''" "len_str (str_bytes ''sport'') MQTTString_initializer"]
    unfolding d level_demo by (simp add: str_bytes_def)
qed

text \<open>Where no wildcard meets a missing or empty level the code is MQTT's matching.\<close>

lemma filled_without_empty:
  "mqtt_match fs ns \<Longrightarrow> filter_ok fs \<Longrightarrow> \<forall>n \<in> set ns. n \<noteq> [] \<Longrightarrow> last fs \<noteq> [35] \<or> length fs \<le> length ns \<Longrightarrow> wildcards_filled fs ns"
proof (induction fs ns rule: mqtt_match.induct)
  case (3 f fs n ns)
  then show ?case by (cases fs) (auto split: if_splits)
qed auto

section \<open>The table of message handlers\<close>

text \<open>
  What the application relies on: the table is a finite map from filters to callbacks with room for a fixed number of entries.
  \<open>map_set\<close> is one call on that map, given as the number of free places and the map: an entry is updated, taken from a free place, or
  removed, and the call fails, changing nothing, when there is no place left or nothing to remove.
\<close>

definition map_set :: "bytes \<Rightarrow> 'h option \<Rightarrow> nat \<times> (bytes \<Rightarrow> 'h option) \<Rightarrow> int \<times> nat \<times> (bytes \<Rightarrow> 'h option)" where
  "map_set k ho = (\<lambda>(n, m). case ho of
       None \<Rightarrow> if m k = None then (MQTT_FAILURE, n, m) else (MQTT_SUCCESS, Suc n, m(k := None))
     | Some h \<Rightarrow> if m k \<noteq> None then (MQTT_SUCCESS, n, m(k \<mapsto> h))
                 else if n = 0 then (MQTT_FAILURE, n, m) else (MQTT_SUCCESS, n - 1, m(k \<mapsto> h)))"

text \<open>A series of calls: their results in order and the state after them.\<close>

primrec run_calls :: "('a \<Rightarrow> 's \<Rightarrow> int \<times> 's) \<Rightarrow> 'a list \<Rightarrow> 's \<Rightarrow> int list \<times> 's" where
  "run_calls f [] s = ([], s)"
| "run_calls f (x # xs) s = (let (rc, s1) = f x s; (rcs, s2) = run_calls f xs s1 in (rc # rcs, s2))"

locale handler_slots =
  fixes wf :: "'t \<Rightarrow> bool"
    and key :: "'p \<Rightarrow> bytes"
    and lookup :: "'t \<Rightarrow> bytes \<Rightarrow> 'h option"
    and free :: "'t \<Rightarrow> nat"
    and set_handler :: "'t \<Rightarrow> 'p \<Rightarrow> 'h option \<Rightarrow> int \<times> 't"
  assumes set_wf: "wf t \<Longrightarrow> wf (snd (set_handler t p ho))"
    and set_some: "wf t \<Longrightarrow> map_set (key p) (Some h) (free t, lookup t) =
      (fst (set_handler t p (Some h)), free (snd (set_handler t p (Some h))), lookup (snd (set_handler t p (Some h))))"
begin

lemma set_ok:
  "wf t \<Longrightarrow> lookup t (key p) \<noteq> None \<or> 0 < free t \<Longrightarrow>
     fst (set_handler t p (Some h)) = MQTT_SUCCESS \<and> lookup (snd (set_handler t p (Some h))) = (lookup t)(key p \<mapsto> h)"
  using set_some [of t p h] by (auto simp: map_set_def split: if_splits)

lemma set_free: "wf t \<Longrightarrow> free t \<le> Suc (free (snd (set_handler t p (Some h))))"
  using set_some [of t p h] by (auto simp: map_set_def split: if_splits)

end

text \<open>Removing a handler needs the filters of the table to be different from each other.\<close>

locale handler_table = handler_slots +
  fixes uniq :: "'a \<Rightarrow> bool"
  assumes set_uniq: "wf t \<Longrightarrow> uniq t \<Longrightarrow> uniq (snd (set_handler t p ho))"
    and set_none: "wf t \<Longrightarrow> uniq t \<Longrightarrow> map_set (key p) None (free t, lookup t) =
      (fst (set_handler t p None), free (snd (set_handler t p None)), lookup (snd (set_handler t p None)))"
begin

lemma set_map:
  "wf t \<Longrightarrow> uniq t \<Longrightarrow> map_set (key p) ho (free t, lookup t) =
     (fst (set_handler t p ho), free (snd (set_handler t p ho)), lookup (snd (set_handler t p ho)))"
  using set_some set_none by (cases ho) simp_all

lemma run_calls_map:
  "wf t \<and> uniq t \<Longrightarrow> run_calls (\<lambda>(p, ho) t. set_handler t p ho) xs t = (rcs, t') \<Longrightarrow>
     (wf t' \<and> uniq t') \<and> run_calls (\<lambda>(p, ho). map_set (key p) ho) xs (free t, lookup t) = (rcs, free t', lookup t')"
proof (induction xs arbitrary: t rcs)
  case (Cons x xs)
  obtain p ho rc t1 rcs1 where x: "x = (p, ho)" "set_handler t p ho = (rc, t1)" "rcs = rc # rcs1"
      "run_calls (\<lambda>(p, ho) t. set_handler t p ho) xs t1 = (rcs1, t')"
    using Cons.prems(2) by (auto simp: Let_def split: prod.splits)
  have "wf t1 \<and> uniq t1" "map_set (key p) ho (free t, lookup t) = (rc, free t1, lookup t1)"
    using set_wf [of t p ho] set_uniq [of t p ho] set_map [of t p ho] Cons.prems(1) by (simp_all add: x(2))
  then show ?case using Cons.IH [OF _ x(4)] x(1,3) by simp
qed simp

end

definition handler_lookup :: "('p \<Rightarrow> bytes) \<Rightarrow> ('p, 'h) MQTTClient \<Rightarrow> bytes \<Rightarrow> 'h option" where
  "handler_lookup mem c topic =
     (case find (has_filter mem topic) (messageHandlers c) of Some s \<Rightarrow> snd s | None \<Rightarrow> None)"

definition free_slots :: "('p, 'h) MQTTClient \<Rightarrow> nat" where
  "free_slots c = length (filter (\<lambda>s. fst s = None) (messageHandlers c))"

text \<open>An occupied slot has a callback, and no two slots have the same filter.\<close>

definition slots_ok :: "('p option \<times> 'h option) list \<Rightarrow> bool" where
  "slots_ok hs \<longleftrightarrow> (\<forall>s \<in> set hs. fst s \<noteq> None \<longrightarrow> snd s \<noteq> None)"

definition slot_filters :: "('p \<Rightarrow> bytes) \<Rightarrow> ('p option \<times> 'h option) list \<Rightarrow> bytes list" where
  "slot_filters mem hs = map mem (List.map_filter fst hs)"

definition table_ok :: "('p \<Rightarrow> bytes) \<Rightarrow> ('p, 'h) MQTTClient \<Rightarrow> bool" where
  "table_ok mem c \<longleftrightarrow> slots_ok (messageHandlers c) \<and> distinct (slot_filters mem (messageHandlers c))"

lemma slots_ok_simps [simp]:
  "slots_ok []" "slots_ok (s # hs) \<longleftrightarrow> (fst s \<noteq> None \<longrightarrow> snd s \<noteq> None) \<and> slots_ok hs"
  by (auto simp: slots_ok_def)

lemma slot_filters_simps [simp]:
  "slot_filters mem [] = []"
  "slot_filters mem (s # hs) = (case fst s of Some p \<Rightarrow> [mem p] | None \<Rightarrow> []) @ slot_filters mem hs"
  by (simp_all add: slot_filters_def List.map_filter_def split: option.split)

lemma find_index_found: "find_index P xs < length xs \<longleftrightarrow> (\<exists>x \<in> set xs. P x)"
  by (induction xs) auto

lemma find_index_le: "find_index P xs \<le> length xs"
  by (induction xs) auto

lemma slot_filters_found: "k \<in> set (slot_filters mem hs) \<longleftrightarrow> find_index (has_filter mem k) hs < length hs"
  by (induction hs) (auto simp: has_filter_def split: option.splits)

lemma find_found: "find (has_filter mem k) hs = None \<longleftrightarrow> k \<notin> set (slot_filters mem hs)"
  by (induction hs) (auto simp: has_filter_def split: option.splits)

lemma find_update_same:
  "find_index (has_filter mem (mem p)) hs < length hs \<Longrightarrow>
     find (has_filter mem k) (hs[find_index (has_filter mem (mem p)) hs := (Some p, Some h)]) =
       (if k = mem p then Some (Some p, Some h) else find (has_filter mem k) hs)"
  by (induction hs) (auto simp: has_filter_def split: option.splits)

lemma find_update_free:
  "\<not> find_index (has_filter mem (mem p)) hs < length hs \<Longrightarrow> find_index (\<lambda>s. fst s = None) hs < length hs \<Longrightarrow>
     find (has_filter mem k) (hs[find_index (\<lambda>s. fst s = None) hs := (Some p, Some h)]) =
       (if k = mem p then Some (Some p, Some h) else find (has_filter mem k) hs)"
  by (induction hs) (auto simp: has_filter_def split: option.splits)

lemma find_update_remove:
  "distinct (slot_filters mem hs) \<Longrightarrow> find_index (has_filter mem j) hs < length hs \<Longrightarrow>
     find (has_filter mem k) (hs[find_index (has_filter mem j) hs := (None, None)]) =
       (if k = j then None else find (has_filter mem k) hs)"
  by (induction hs) (auto simp: has_filter_def find_found split: option.splits)

lemma filters_update_same:
  "find_index (has_filter mem (mem p)) hs < length hs \<Longrightarrow>
     slot_filters mem (hs[find_index (has_filter mem (mem p)) hs := (Some p, ho)]) = slot_filters mem hs"
  by (induction hs) (auto simp: has_filter_def split: option.splits)

lemma filters_update_free:
  "find_index (\<lambda>s. fst s = None) hs < length hs \<Longrightarrow>
     mset (slot_filters mem (hs[find_index (\<lambda>s. fst s = None) hs := (Some p, ho)])) = mset (mem p # slot_filters mem hs)"
  by (induction hs) (auto split: option.splits)

lemma filters_update_remove:
  "find_index (has_filter mem j) hs < length hs \<Longrightarrow>
     mset (j # slot_filters mem (hs[find_index (has_filter mem j) hs := (None, None)])) = mset (slot_filters mem hs)"
  by (induction hs) (auto simp: has_filter_def split: option.splits)

lemma free_update:
  "i < length hs \<Longrightarrow> length (filter (\<lambda>s. fst s = None) (hs[i := v])) + (if fst (hs ! i) = None then 1 else 0) =
     length (filter (\<lambda>s. fst s = None) hs) + (if fst v = None then 1 else 0)"
proof (induction hs arbitrary: i)
  case (Cons a hs)
  show ?case
  proof (cases i)
    case (Suc j)
    then show ?thesis using Cons.IH [of j] Cons.prems by (simp split: if_splits)
  qed (simp split: if_splits)
qed simp

lemma find_index_nth: "find_index P xs < length xs \<Longrightarrow> P (xs ! find_index P xs)"
  by (induction xs) auto

lemma has_filter_occupied: "has_filter mem k s \<Longrightarrow> fst s \<noteq> None"
  by (auto simp: has_filter_def split: option.splits)

lemma find_slot:
  "slots_ok hs \<Longrightarrow> (case find (has_filter mem k) hs of Some s \<Rightarrow> snd s | None \<Rightarrow> None) = None \<longleftrightarrow>
     \<not> find_index (has_filter mem k) hs < length hs"
  by (induction hs) (auto simp: has_filter_def split: option.splits)

lemma slots_ok_update: "slots_ok hs \<Longrightarrow> fst v \<noteq> None \<longrightarrow> snd v \<noteq> None \<Longrightarrow> slots_ok (hs[i := v])"
  by (auto simp: slots_ok_def dest!: set_update_subset_insert [THEN subsetD])

lemma set_handler_eq:
  "MQTTSetMessageHandler mem c p (Some h) =
     (let hs = messageHandlers c; i = find_index (has_filter mem (mem p)) hs;
          j = (if i < length hs then i else find_index (\<lambda>s. fst s = None) hs)
      in if j < length hs then (MQTT_SUCCESS, c\<lparr>messageHandlers := hs[j := (Some p, Some h)]\<rparr>) else (MQTT_FAILURE, c))"
  by (simp add: MQTTSetMessageHandler_def Let_def)

lemma free_slots_pos: "free_slots c = 0 \<longleftrightarrow> \<not> find_index (\<lambda>s. fst s = None) (messageHandlers c) < length (messageHandlers c)"
  by (auto simp: free_slots_def find_index_found filter_empty_conv)

text \<open>Installing a handler: a known filter keeps its place, a new one takes the first free place, and fails if there is none.\<close>

lemma set_handler_wf:
  "slots_ok (messageHandlers c) \<Longrightarrow> slots_ok (messageHandlers (snd (MQTTSetMessageHandler mem c p ho)))"
  by (simp add: MQTTSetMessageHandler_def Let_def slots_ok_update split: option.split)

lemma lookup_none:
  "slots_ok (messageHandlers c) \<Longrightarrow> handler_lookup mem c k = None \<longleftrightarrow>
     \<not> find_index (has_filter mem k) (messageHandlers c) < length (messageHandlers c)"
  unfolding handler_lookup_def by (rule find_slot)

lemma set_handler_some:
  assumes "slots_ok (messageHandlers c)"
  shows "map_set (mem p) (Some h) (free_slots c, handler_lookup mem c) =
    (fst (MQTTSetMessageHandler mem c p (Some h)), free_slots (snd (MQTTSetMessageHandler mem c p (Some h))),
     handler_lookup mem (snd (MQTTSetMessageHandler mem c p (Some h))))"
proof -
  let ?r = "MQTTSetMessageHandler mem c p (Some h)" and ?hs = "messageHandlers c"
  let ?i = "find_index (has_filter mem (mem p)) ?hs" and ?j = "find_index (\<lambda>s. fst s = None) ?hs"
  note none = lookup_none [OF assms, of mem "mem p"]
  consider (add) "\<not> ?i < length ?hs" "?j < length ?hs" | (full) "\<not> ?i < length ?hs" "\<not> ?j < length ?hs" | (replace) "?i < length ?hs"
    by blast
  then show ?thesis
  proof cases
    case add
    have r: "?r = (MQTT_SUCCESS, c\<lparr>messageHandlers := ?hs[?j := (Some p, Some h)]\<rparr>)"
      using add by (simp add: MQTTSetMessageHandler_def Let_def)
    have l: "fst ?r = MQTT_SUCCESS" "handler_lookup mem (snd ?r) = (handler_lookup mem c)(mem p \<mapsto> h)"
      using find_update_free [OF add] by (auto simp: r handler_lookup_def fun_eq_iff)
    have "Suc (free_slots (snd ?r)) = free_slots c"
      using free_update [OF add(2), of "(Some p, Some h)"] find_index_nth [OF add(2)] by (simp add: r free_slots_def)
    then show ?thesis using none add(1) l by (simp add: map_set_def)
  next
    case full
    then have "?r = (MQTT_FAILURE, c)" by (simp add: MQTTSetMessageHandler_def Let_def)
    then show ?thesis using none full free_slots_pos [of c] by (simp add: map_set_def)
  next
    case replace
    have r: "?r = (MQTT_SUCCESS, c\<lparr>messageHandlers := ?hs[?i := (Some p, Some h)]\<rparr>)"
      using replace by (simp add: MQTTSetMessageHandler_def Let_def)
    have l: "fst ?r = MQTT_SUCCESS" "handler_lookup mem (snd ?r) = (handler_lookup mem c)(mem p \<mapsto> h)"
      using find_update_same [OF replace] by (auto simp: r handler_lookup_def fun_eq_iff)
    have "free_slots (snd ?r) = free_slots c"
      using free_update [OF replace, of "(Some p, Some h)"] has_filter_occupied [OF find_index_nth [OF replace]] by (simp add: r free_slots_def)
    then show ?thesis using none replace l by (simp add: map_set_def)
  qed
qed

text \<open>Removing one.\<close>

lemma set_handler_none:
  assumes s: "slots_ok (messageHandlers c)" and d: "distinct (slot_filters mem (messageHandlers c))"
  shows "map_set (mem p) None (free_slots c, handler_lookup mem c) =
    (fst (MQTTSetMessageHandler mem c p None), free_slots (snd (MQTTSetMessageHandler mem c p None)),
     handler_lookup mem (snd (MQTTSetMessageHandler mem c p None)))"
proof -
  let ?r = "MQTTSetMessageHandler mem c p None" and ?hs = "messageHandlers c"
  let ?i = "find_index (has_filter mem (mem p)) ?hs"
  show ?thesis
  proof (cases "?i < length ?hs")
    case True
    have r: "?r = (MQTT_SUCCESS, c\<lparr>messageHandlers := ?hs[?i := (None, None)]\<rparr>)"
      using True by (simp add: MQTTSetMessageHandler_def Let_def)
    have l: "fst ?r = MQTT_SUCCESS" "handler_lookup mem (snd ?r) = (handler_lookup mem c)(mem p := None)"
      using find_update_remove [OF d True] by (auto simp: r handler_lookup_def fun_eq_iff)
    have "free_slots (snd ?r) = Suc (free_slots c)"
      using free_update [OF True, of "(None, None)"] has_filter_occupied [OF find_index_nth [OF True]] by (simp add: r free_slots_def)
    then show ?thesis using lookup_none [OF s, of mem "mem p"] True l by (simp add: map_set_def)
  next
    case False
    then show ?thesis using lookup_none [OF s, of mem "mem p"] by (simp add: MQTTSetMessageHandler_def Let_def map_set_def)
  qed
qed

lemma set_handler_uniq:
  assumes d: "distinct (slot_filters mem (messageHandlers c))"
  shows "distinct (slot_filters mem (messageHandlers (snd (MQTTSetMessageHandler mem c p ho))))"
proof -
  let ?hs = "messageHandlers c"
  let ?i = "find_index (has_filter mem (mem p)) ?hs" and ?j = "find_index (\<lambda>s. fst s = None) ?hs"
  have "distinct (mem p # slot_filters mem (?hs[?i := (None, None)]))" if "?i < length ?hs"
    using mset_eq_imp_distinct_iff [OF filters_update_remove [OF that]] d by blast
  moreover have "distinct (slot_filters mem (?hs[?j := (Some p, ho)]))" if "\<not> ?i < length ?hs" "?j < length ?hs"
    using mset_eq_imp_distinct_iff [OF filters_update_free [OF that(2), of mem p ho]] d that(1) by (simp add: slot_filters_found)
  moreover have "distinct (slot_filters mem (?hs[?i := (Some p, ho)]))" if "?i < length ?hs"
    using filters_update_same [OF that, of ho] d by simp
  ultimately show ?thesis using d by (auto simp: MQTTSetMessageHandler_def Let_def split: option.split)
qed

interpretation handlers: handler_table "\<lambda>c. slots_ok (messageHandlers c)" mem "handler_lookup mem" free_slots
  "MQTTSetMessageHandler mem" "\<lambda>c. distinct (slot_filters mem (messageHandlers c))" for mem :: "'p \<Rightarrow> bytes"
  by unfold_locales (rule set_handler_wf set_handler_some set_handler_none set_handler_uniq; assumption)+

text \<open>
  C23: The handler table implements a finite map from topic filters to callbacks.  Every series of calls of \<open>MQTTSetMessageHandler\<close>,
  each installing, replacing or removing a handler, returns the codes of the same calls on the map and leaves the table that stands
  for the map they leave: an entry for a new filter takes a free place and fails with \<open>MQTT_FAILURE\<close> when there is none, an entry for a
  known filter is replaced also when the table is full, a removal frees the place, and fails for an unknown filter; no other entry changes.
\<close>

theorem handlers_refine_map:
  assumes "table_ok mem c" and "run_calls (\<lambda>(p, ho) c. MQTTSetMessageHandler mem c p ho) calls c = (rcs, c')"
  shows "table_ok mem c' \<and>
    run_calls (\<lambda>(p, ho). map_set (mem p) ho) calls (free_slots c, handler_lookup mem c) = (rcs, free_slots c', handler_lookup mem c')"
  using handlers.run_calls_map [of c mem calls] assms by (simp add: table_ok_def)

text \<open>Six filters into five places, the first one replaced and removed, and removed again.\<close>

definition demo_series :: "(bytes \<times> nat option) list" where
  "demo_series = [([1], Some 10), ([2], Some 20), ([3], Some 30), ([4], Some 40), ([5], Some 50), ([6], Some 60), ([1], Some 11),
     ([1], None), ([1], None), ([6], Some 60)]"

theorem handlers_refine_map_witness:
  "\<exists>c'. run_calls (\<lambda>(p, ho) c. MQTTSetMessageHandler id c p ho) demo_series demo_client =
      ([0, 0, 0, 0, 0, -1, 0, 0, -1, 0], c') \<and>
    free_slots c' = 0 \<and> handler_lookup id c' [6] = Some 60 \<and> handler_lookup id c' [1] = None \<and> handler_lookup id c' [2] = Some 20"
proof -
  obtain rcs c' where r: "run_calls (\<lambda>(p, ho) c. MQTTSetMessageHandler id c p ho) demo_series demo_client = (rcs, c')"
    by (cases "run_calls (\<lambda>(p, ho) c. MQTTSetMessageHandler id c p ho) demo_series demo_client")
  have t: "table_ok id demo_client" "free_slots demo_client = 5" "handler_lookup id demo_client = Map.empty"
    by (simp_all add: demo_client_def table_ok_def free_slots_def handler_lookup_def has_filter_def fun_eq_iff eval_nat_numeral)
  define m where "m = (Map.empty :: bytes \<Rightarrow> nat option)([1] \<mapsto> 10, [2] \<mapsto> 20, [3] \<mapsto> 30, [4] \<mapsto> 40, [5] \<mapsto> 50, [1] \<mapsto> 11, [1] := None, [6] \<mapsto> 60)"
  have "run_calls (\<lambda>(p, ho). map_set (id p) ho) demo_series (5, Map.empty) = ([0, 0, 0, 0, 0, -1, 0, 0, -1, 0], 0, m)"
    unfolding m_def demo_series_def by (simp add: map_set_def MQTT_SUCCESS_def MQTT_FAILURE_def)
  with handlers_refine_map [OF t(1) r]
  have "rcs = [0, 0, 0, 0, 0, -1, 0, 0, -1, 0] \<and> free_slots c' = 0 \<and> handler_lookup id c' = m" by (simp add: t(2,3))
  moreover have "m [6] = Some 60" "m [1] = None" "m [2] = Some 20" by (simp_all add: m_def)
  ultimately have "rcs = [0, 0, 0, 0, 0, -1, 0, 0, -1, 0] \<and> free_slots c' = 0 \<and> handler_lookup id c' [6] = Some 60 \<and>
      handler_lookup id c' [1] = None \<and> handler_lookup id c' [2] = Some 20" by simp
  then show ?thesis using r by blast
qed

section \<open>Packet identifiers\<close>

text \<open>
  packet identifiers are valid and not reused at once.  From any identifier up to 65535 the
  next one is between 1 and 65535, differs from the previous one, survives the truncation to 16
  bits on the wire, and 65535 calls run through all of them.
\<close>

theorem packet_ids_valid:
  assumes "unat (next_packetid c) \<le> 65535"
  shows "unat (fst (getNextPacketId c)) = Suc (unat (next_packetid c) mod 65535) \<and>
    next_packetid (snd (getNextPacketId c)) = fst (getNextPacketId c) \<and>
    fst (getNextPacketId c) \<noteq> next_packetid c \<and>
    unat (ucast (fst (getNextPacketId c)) :: u16) = unat (fst (getNextPacketId c))"
proof -
  have m: "next_packetid c = MAX_PACKET_ID \<longleftrightarrow> unat (next_packetid c) = 65535"
    by (auto simp: MAX_PACKET_ID_def word_unat_eq_iff)
  have s: "unat (next_packetid c) < 65535 \<Longrightarrow> unat (next_packetid c + 1) = Suc (unat (next_packetid c))"
    by (subst unat_add_lem [THEN iffD1]) simp_all
  have u: "unat (fst (getNextPacketId c)) = Suc (unat (next_packetid c) mod 65535)"
    using assms m s by (cases "unat (next_packetid c) = 65535") (auto simp: getNextPacketId_def Let_def)
  then have "fst (getNextPacketId c) \<noteq> next_packetid c"
    using assms by (cases "unat (next_packetid c) = 65535") auto
  moreover have "unat (fst (getNextPacketId c)) < 65536" unfolding u by simp
  ultimately show ?thesis
    using u by (simp add: getNextPacketId_def Let_def unsigned_ucast_eq take_bit_nat_eq_self)
qed

theorem packet_ids_valid_witness:
  "unat (fst (getNextPacketId demo_client)) = Suc (unat (next_packetid demo_client) mod 65535) \<and>
    next_packetid (snd (getNextPacketId demo_client)) = fst (getNextPacketId demo_client) \<and>
    fst (getNextPacketId demo_client) \<noteq> next_packetid demo_client \<and>
    unat (ucast (fst (getNextPacketId demo_client)) :: u16) = unat (fst (getNextPacketId demo_client))"
  by (rule packet_ids_valid) (simp add: demo_client_def)

end
