(* ===== verification/Mqtt_Calls.thy ===== *)
theory Mqtt_Calls
  imports Mqtt_Session
begin

text \<open>
  What the calls of the MQTT client promise: when the client is connected after a call, that a
  failing call closes the session, and that a publication received with QoS 1 or 2 is
  acknowledged with its identifier.
\<close>

section \<open>Frames\<close>

lemma readPacket_frame:
  "readPacket a b c net = Inr (rc, c', net') \<Longrightarrow> \<exists>rb. c' = c\<lparr>readbuf := rb\<rparr>"
  by (auto simp: readPacket_def bindR_eq_Inr split: if_splits intro: exI [of _ "readbuf c"])

lemma waitfor_frame:
  "waitfor ps c t tmo net = Inr (Some (rc, c', net')) \<Longrightarrow> \<exists>rb. c' = c\<lparr>readbuf := rb\<rparr>"
proof (induction ps arbitrary: c net)
  case (Cons p ps)
  then show ?case
    by (fastforce simp: bindR_eq_Inr split: if_splits dest: readPacket_frame)
qed simp

lemma into_buf_frame: "into_buf c lb = Inr (len, c') \<Longrightarrow> len = fst lb \<and> (\<exists>b. c' = c\<lparr>buf := b\<rparr>)"
  by (auto simp: into_buf_def bindR_eq_Inr)

lemma sendPacket_rc: "sendPacket ok c len net = Inr (rc, net', ks) \<Longrightarrow> rc = MQTT_SUCCESS \<or> rc = MQTT_FAILURE"
  by (auto simp: sendPacket_def bindR_eq_Inr)

lemma closeSession_state [simp]:
  "isconnected (MQTTCloseSession c) = 0"
  "mc_cleansession c \<noteq> 0 \<Longrightarrow> free_slots (MQTTCloseSession c) = length (messageHandlers c)"
  by (auto simp: MQTTCloseSession_def MQTTCleanSession_def Let_def free_slots_def filter_map o_def split_beta)

lemma MQTT_codes [simp]: "MQTT_SUCCESS = 0" "MQTT_FAILURE = -1"
  by (simp_all add: MQTT_SUCCESS_def MQTT_FAILURE_def)

section \<open>Postconditions\<close>

text \<open>
  \<open>post P m\<close>: \<open>P\<close> holds of the value of \<open>m\<close>, if it has one; \<open>opt P\<close>:
  \<open>P\<close> holds when the call has returned.
\<close>

definition post :: "('a \<Rightarrow> bool) \<Rightarrow> 'a c_result \<Rightarrow> bool" where
  "post P m \<longleftrightarrow> (\<forall>x. m = Inr x \<longrightarrow> P x)"

definition opt :: "('a \<Rightarrow> bool) \<Rightarrow> 'a option \<Rightarrow> bool" where
  "opt P x \<longleftrightarrow> (\<forall>y. x = Some y \<longrightarrow> P y)"

lemma post_simps [simp]:
  "post P (Inr x) \<longleftrightarrow> P x" "post P (Inl e)" "post P (bindR m f) \<longleftrightarrow> post (\<lambda>x. post P (f x)) m"
  "opt P None" "opt P (Some y) \<longleftrightarrow> P y"
  by (auto simp: post_def opt_def bindR_eq_Inr)

lemma post_await [simp]: "post (opt P) (await n g) \<longleftrightarrow> post (opt (\<lambda>x. post P (g x))) n"
proof (cases n)
  case (Inr x)
  then show ?thesis by (cases x) (simp_all add: await_def)
qed (simp add: await_def)

lemma post_mono: "post P m \<Longrightarrow> (\<And>x. P x \<Longrightarrow> Q x) \<Longrightarrow> post Q m"
  by (simp add: post_def)

lemma post_triv: "(\<And>x. Q x) \<Longrightarrow> post Q m"
  by (simp add: post_def)

lemma opt_mono: "opt P m \<Longrightarrow> (\<And>x. P x \<Longrightarrow> Q x) \<Longrightarrow> opt Q m"
  by (simp add: opt_def)

lemma post_into_buf:
  "(\<And>b. Q (fst lb, c\<lparr>buf := b\<rparr>)) \<Longrightarrow> post Q (into_buf c lb)"
  by (auto simp: post_def dest!: into_buf_frame)

lemma post_sendPacket:
  "(\<And>net' ks. Q (0, net', ks)) \<Longrightarrow> (\<And>net' ks. Q (-1, net', ks)) \<Longrightarrow> post Q (sendPacket ok c len net)"
  by (auto simp: post_def dest!: sendPacket_rc)

lemma post_waitfor:
  "(\<And>rc rb net'. Q (rc, c\<lparr>readbuf := rb\<rparr>, net')) \<Longrightarrow> post (opt Q) (waitfor ps c t tmo net)"
  by (auto simp: post_def opt_def dest!: waitfor_frame)

text \<open>The packets themselves do not matter for the state of the session.\<close>

lemmas post_packets =
  post_triv [where m = "MQTTSerialize_connect n ou" for n ou]
  post_triv [where m = "MQTTDeserialize_connack b ou" for b ou]
  post_triv [where m = "MQTTSerialize_subscribe n dp pid k ts qs" for n dp pid k ts qs]
  post_triv [where m = "MQTTDeserialize_suback b k ou" for b k ou]
  post_triv [where m = "MQTTSerialize_unsubscribe n dp pid k ts" for n dp pid k ts]
  post_triv [where m = "MQTTDeserialize_unsuback b k" for b k]
  post_triv [where m = "MQTTSerialize_publish n dp qos r pid t p l" for n dp qos r pid t p l]
  post_triv [where m = "MQTTDeserialize_ack b ou" for b ou]
  post_triv [where m = "MQTTDeserialize_publish b ou" for b ou]

lemmas post_intros = post_into_buf post_sendPacket post_waitfor post_packets

section \<open>Connecting\<close>

lemma connect_post:
  assumes "isconnected c = 0"
  shows "post (opt (\<lambda>(rc, c', net'). (isconnected c' \<noteq> 0 \<longleftrightarrow> rc = MQTT_SUCCESS) \<and>
    mc_keepAliveInterval c' = ucast (keepAliveInterval (condata c)) \<and>
    mc_cleansession c' = uint (cleansession (condata c)))) (MQTTConnect tx_sem now polls c net)"
  unfolding MQTTConnect_def MQTTConnectWithResults_def using assms
  by (auto simp: Let_def intro!: post_intros)

text \<open>
  \<open>MQTTConnect\<close> reports the connection it has.  From a client that is not connected,
  whenever the call returns, the client is connected exactly if the result is
  \<open>MQTT_SUCCESS\<close>, and the session flags are those of the options.
\<close>

theorem connect_state:
  assumes "isconnected c = 0" and "MQTTConnect tx_sem now polls c net = Inr (Some (rc, c', net'))"
  shows "(isconnected c' \<noteq> 0 \<longleftrightarrow> rc = MQTT_SUCCESS) \<and>
    mc_keepAliveInterval c' = ucast (keepAliveInterval (condata c)) \<and>
    mc_cleansession c' = uint (cleansession (condata c))"
  using connect_post [OF assms(1), of tx_sem now polls net] by (simp add: assms(2))

section \<open>Failures close the session\<close>

text \<open>
  What a call leaves behind: the connection as it was, or, after a failure, a closed session
  with, for a clean session, no handler left.
\<close>

definition closed_or_kept :: "('p, 'h) MQTTClient \<Rightarrow> int \<times> ('p, 'h) MQTTClient \<times> network \<Rightarrow> bool" where
  "closed_or_kept c = (\<lambda>(rc, c', net').
     if rc = MQTT_FAILURE
     then isconnected c' = 0 \<and> (mc_cleansession c \<noteq> 0 \<longrightarrow> free_slots c' = length (messageHandlers c'))
     else isconnected c' = isconnected c)"

lemma closeSession_slots: "length (messageHandlers (MQTTCloseSession c)) = length (messageHandlers c)"
  by (simp add: MQTTCloseSession_def MQTTCleanSession_def Let_def)

lemma closed_or_kept_simps:
  "mc_cleansession c' = mc_cleansession c \<Longrightarrow> closed_or_kept c (-1, MQTTCloseSession c', net')"
  "rc \<noteq> -1 \<Longrightarrow> isconnected c' = isconnected c \<Longrightarrow> closed_or_kept c (rc, c', net')"
  "mc_cleansession c' = mc_cleansession c \<Longrightarrow> isconnected c' = isconnected c \<Longrightarrow>
     closed_or_kept c (rc, close_on_failure rc c', net')"
  by (simp_all add: closed_or_kept_def closeSession_slots close_on_failure_def)

lemma setHandler_keeps [simp]:
  "isconnected (snd (MQTTSetMessageHandler mem c p h)) = isconnected c"
  "mc_cleansession (snd (MQTTSetMessageHandler mem c p h)) = mc_cleansession c"
  by (simp_all add: MQTTSetMessageHandler_def Let_def split: option.split)

lemma getNextPacketId_keeps [simp]:
  "isconnected (snd (getNextPacketId c)) = isconnected c"
  "mc_cleansession (snd (getNextPacketId c)) = mc_cleansession c"
  by (simp_all add: getNextPacketId_def Let_def)

lemma publish_id_keeps [simp]:
  "isconnected (snd (publish_id c m)) = isconnected c"
  "mc_cleansession (snd (publish_id c m)) = mc_cleansession c"
  by (simp_all add: publish_id_def split_beta)

lemma publish_post: "post (opt (closed_or_kept c)) (MQTTPublish tx_sem now polls c t m net)"
  unfolding MQTTPublish_def await_ack_def
  by (auto simp: Let_def split_beta closed_or_kept_simps intro!: post_intros)

lemma subscribe_post: "post (opt (closed_or_kept c)) (MQTTSubscribe mem tx_sem now polls c t q h net)"
  unfolding MQTTSubscribe_def MQTTSubscribeWithResults_def
  by (auto simp: Let_def split_beta closed_or_kept_simps intro!: post_intros)

lemma unsubscribe_post: "post (opt (closed_or_kept c)) (MQTTUnsubscribe mem tx_sem now polls c t net)"
  unfolding MQTTUnsubscribe_def
  by (auto simp: Let_def split_beta closed_or_kept_simps intro!: post_intros)

text \<open>
  a failing publish, subscribe or unsubscribe closes the session, and a succeeding one keeps
  the connection.  Whenever the call returns \<open>MQTT_FAILURE\<close> the client is not connected, and
  for a clean session every handler slot is free; otherwise the connection state is unchanged.
\<close>

theorem failure_closes_session:
  "post (opt (closed_or_kept c)) (MQTTPublish tx_sem now polls c topic m net) \<and>
   post (opt (closed_or_kept c)) (MQTTSubscribe mem tx_sem now polls c p q h net) \<and>
   post (opt (closed_or_kept c)) (MQTTUnsubscribe mem tx_sem now polls c p net)"
  by (simp add: publish_post subscribe_post unsubscribe_post)

section \<open>The connect handshake\<close>

lemma sendPacket_ok:
  assumes "client_inv c" and "network_inv net" and "b = take (length b) (buf c)" and "length b \<le> buf_size c"
  shows "\<exists>net'. sendPacket True c (int (length b)) net = Inr (0, net', [Rt_event_send NET_TX_BUF_WRITE_EVENT]) \<and>
    network_inv net' \<and> net_rx_fifo net' = net_rx_fifo net \<and> net_tx_len net' = of_nat (length b) \<and>
    take (length b) (net_tx_buf net') = b"
proof -
  have l: "length b \<le> 1460" "length b \<le> length (buf c)"
    using assms(1,4) by (simp_all add: client_inv_def net_sizes)
  let ?d = "take (length b) (buf c) @ drop (length b) (replicate NET_TX_BUF_SIZE 0)"
  have m: "memcpy (replicate NET_TX_BUF_SIZE 0) (buf c) (length b) = Inr ?d"
    using l by (simp add: memcpy_def net_sizes)
  have "network_inv (net\<lparr>net_tx_len := of_nat (length b), net_tx_buf := ?d\<rparr>)"
    using assms(2) l by (simp add: network_inv_def net_sizes)
  moreover have "take (length b) ?d = b" using assms(3) l by simp
  ultimately show ?thesis
    using l by (auto simp: sendPacket_def net_tx_write_def m)
qed

lemma into_buf_ok:
  assumes "client_inv c" and "length b \<le> buf_size c"
  shows "into_buf c (n, b) = Inr (n, c\<lparr>buf := b @ drop (length b) (buf c)\<rparr>) \<and>
    client_inv (c\<lparr>buf := b @ drop (length b) (buf c)\<rparr>)"
  using assms by (simp add: into_buf_def store_front_def client_inv_def)

lemma connack_parse:
  "MQTTDeserialize_connack (packet (set_type CONNACK 0) [sp, r] @ junk) ou =
     Inr (1, ou\<lparr>co_sessionPresent := get_field 0 1 sp, co_rc := r\<rparr>)"
  using body_cursor_cur [of "[sp, r]" 2 junk]
  by (simp add: MQTTDeserialize_connack_def CONNACK_def packet_def)

lemma connect_len_pos: "connect_ok ou \<Longrightarrow> 0 < length (packet (set_type CONNECT 0) (connect_body ou))"
  by (simp add: packet_def)

lemma connect_handshake_run:
  assumes "client_inv c" and "network_inv net" and "isconnected c = 0" and "connect_ok (condata c)"
    and "MQTTPacket_len (MQTTSerialize_connectLength (condata c)) \<le> int (buf_size c)"
    and "net_fifo_inv f" and "net_fifo_elems f = packet (set_type CONNACK 0) [sp, r] @ rest"
    and "pl_env p = (\<lambda>n. n\<lparr>net_rx_fifo := f\<rparr>)" and "pl_sem p" and "pl_mutex p"
    and "b = packet (set_type CONNECT 0) (connect_body (condata c))"
  shows "\<exists>c' net'. MQTTConnect True now (p # ps) c net = Inr (Some (uint r, c', net')) \<and>
    isconnected c' = (if r = 0 then 1 else 0) \<and> net_fifo_elems (net_rx_fifo net') = rest \<and>
    net_tx_len net' = of_nat (length b) \<and> take (length b) (net_tx_buf net') = b"
proof -
  let ?c1 = "c\<lparr>mc_keepAliveInterval := ucast (keepAliveInterval (condata c)),
    mc_cleansession := uint (cleansession (condata c))\<rparr>"
  let ?c2 = "?c1\<lparr>buf := b @ drop (length b) (buf c)\<rparr>"
  have ser: "MQTTSerialize_connect (int (buf_size c)) (condata c) = Inr (int (length b), b)"
    using serialize_connect_body [OF assms(4,5)]
    by (simp add: assms(11) Let_def packet_def connect_length [OF assms(4)])
  have n0: "0 \<le> MQTTSerialize_connectLength (condata c)" using connect_length [OF assms(4)] by simp
  have "int (buf_size c) < 268435456" using assms(1) by (simp add: client_inv_def net_sizes)
  from packet_fits(1) [OF n0 assms(5) this] have bl: "length b \<le> buf_size c"
    by (simp add: assms(11) packet_def connect_length [OF assms(4)])
  have c1: "client_inv ?c1" using assms(1) by (simp add: client_inv_def)
  note ib = into_buf_ok [OF c1, of b "int (length b)"]
  have b0: "0 < length b" using connect_len_pos [OF assms(4)] by (simp add: assms(11))
  obtain net1 where s: "sendPacket True ?c2 (int (length b)) net =
        Inr (0, net1, [Rt_event_send NET_TX_BUF_WRITE_EVENT])" "network_inv net1"
      "net_tx_len net1 = of_nat (length b)" "take (length b) (net_tx_buf net1) = b"
    using sendPacket_ok [of ?c2 net b] ib bl assms(2) by auto
  have f1: "network_inv (net1\<lparr>net_rx_fifo := f\<rparr>)" using s(2) assms(6) by (simp add: network_inv_def)
  let ?k = "packet (set_type CONNACK 0) [sp, r]"
  have kl: "length ?k = 4" by (simp add: packet_def encode_2)
  obtain f' where rp: "readPacket True True ?c2 (net1\<lparr>net_rx_fifo := f\<rparr>) = Inr (uint CONNACK,
      ?c2\<lparr>readbuf := ?k @ drop (length ?k) (readbuf c)\<rparr>, net1\<lparr>net_rx_fifo := f'\<rparr>)" "net_fifo_elems f' = rest"
    using readPacket_packet [of ?c2 "net1\<lparr>net_rx_fifo := f\<rparr>" "set_type CONNACK 0" "[sp, r]" rest] f1 ib bl
      assms(1,7) kl by (auto simp: client_inv_def CONNACK_def)
  have w: "waitfor (p # ps) ?c2 (uint CONNACK) (timeout_init now 1000) net1 =
      Inr (Some (uint CONNACK, ?c2\<lparr>readbuf := ?k @ drop (length ?k) (readbuf c)\<rparr>, net1\<lparr>net_rx_fifo := f'\<rparr>))"
    using rp(1) assms(8-10) by simp
  have "uint r = 0 \<longleftrightarrow> r = 0" by (simp add: word_uint_eq_iff)
  then show ?thesis
    using assms(3) ser ib bl b0 s rp(2)
    by (auto simp: MQTTConnect_def MQTTConnectWithResults_def Let_def await_def w connack_parse simp del: waitfor.simps)
qed

text \<open>
  C3: the connect handshake.  With admissible options that fit the send buffer, and a CONNACK in
  the FIFO at the first turn of the wait, \<open>MQTTConnect\<close> hands exactly the CONNECT packet to
  the network layer, consumes exactly the CONNACK, returns its return code, and marks the client
  connected exactly if the code is 0.
\<close>

theorem connect_handshake:
  assumes "client_inv c" and "network_inv net" and "isconnected c = 0" and "connect_ok (condata c)"
    and "MQTTPacket_len (MQTTSerialize_connectLength (condata c)) \<le> int (buf_size c)"
    and "net_fifo_inv f" and "net_fifo_elems f = packet (set_type CONNACK 0) [sp, r] @ rest"
    and "pl_env p = (\<lambda>n. n\<lparr>net_rx_fifo := f\<rparr>)" and "pl_sem p" and "pl_mutex p"
    and "b = packet (set_type CONNECT 0) (connect_body (condata c))"
  shows "\<exists>c' net'. MQTTConnect True now (p # ps) c net = Inr (Some (uint r, c', net')) \<and>
    isconnected c' = (if r = 0 then 1 else 0) \<and> net_fifo_elems (net_rx_fifo net') = rest \<and>
    net_tx_len net' = of_nat (length b) \<and> take (length b) (net_tx_buf net') = b"
  using assms by (rule connect_handshake_run)

lemma demo_client_sel [simp]: "isconnected demo_client = 0" "condata demo_client = demo_options" "buf_size demo_client = 1024"
  by (simp_all add: demo_client_def)

lemma demo_connack_fifo: "\<exists>f. net_fifo_inv f \<and> net_fifo_elems f = packet (set_type CONNACK 0) [0, 0] @ []"
proof -
  obtain s where "network_inv s" "net_fifo_elems (net_rx_fifo s) = packet (set_type CONNACK 0) [0, 0] @ []"
    using demo_net_with [of "packet (set_type CONNACK 0) [0, 0] @ []"] by (auto simp: packet_def encode_2)
  then show ?thesis by (auto simp: network_inv_def)
qed

definition demo_connect_poll :: "net_fifo_t \<Rightarrow> poll" where
  "demo_connect_poll f = \<lparr>pl_env = (\<lambda>n. n\<lparr>net_rx_fifo := f\<rparr>), pl_sem = True, pl_mutex = True, pl_now = 0\<rparr>"

theorem connect_handshake_witness:
  "\<exists>f c' net'. MQTTConnect True 0 [demo_connect_poll f] demo_client (demo_network 0 []) = Inr (Some (uint 0, c', net')) \<and>
    isconnected c' = (if 0 = (0 :: u8) then 1 else 0) \<and> net_fifo_elems (net_rx_fifo net') = [] \<and>
    net_tx_len net' = of_nat (length (packet (set_type CONNECT 0) (connect_body demo_options))) \<and>
    take (length (packet (set_type CONNECT 0) (connect_body demo_options))) (net_tx_buf net') =
      packet (set_type CONNECT 0) (connect_body demo_options)"
proof -
  obtain f where f: "net_fifo_inv f" "net_fifo_elems f = packet (set_type CONNACK 0) [0, 0] @ []"
    using demo_connack_fifo by blast
  have "MQTTPacket_len (MQTTSerialize_connectLength (condata demo_client)) \<le> int (buf_size demo_client)"
    by (simp add: demo_options_ok MQTTPacket_len_def)
  from connect_handshake [OF demo_client_inv demo_network_inv demo_client_sel(1) _ this f, of "[]" 0 "demo_connect_poll f" _ 0 "[]"]
  show ?thesis by (auto simp: demo_connect_poll_def demo_options_ok)
qed

theorem connect_state_witness:
  "\<exists>f rc c' net'. MQTTConnect True 0 [demo_connect_poll f] demo_client (demo_network 0 []) = Inr (Some (rc, c', net')) \<and>
    (isconnected c' \<noteq> 0 \<longleftrightarrow> rc = MQTT_SUCCESS) \<and> mc_keepAliveInterval c' = ucast (keepAliveInterval (condata demo_client)) \<and>
    mc_cleansession c' = uint (cleansession (condata demo_client))"
proof -
  obtain f where f: "net_fifo_inv f" "net_fifo_elems f = packet (set_type CONNACK 0) [0, 0] @ []"
    using demo_connack_fifo by blast
  have "MQTTPacket_len (MQTTSerialize_connectLength (condata demo_client)) \<le> int (buf_size demo_client)"
    by (simp add: demo_options_ok MQTTPacket_len_def)
  from connect_handshake_run [OF demo_client_inv demo_network_inv demo_client_sel(1) _ this f, of "[]" 0 "demo_connect_poll f" _ 0 "[]"]
  obtain c' net' where "MQTTConnect True 0 [demo_connect_poll f] demo_client (demo_network 0 []) = Inr (Some (uint (0 :: u8), c', net'))"
    by (auto simp: demo_connect_poll_def demo_options_ok)
  from connect_state [OF demo_client_sel(1) this] this show ?thesis by blast
qed

section \<open>Acknowledging publications\<close>

lemma deliverMessage_readbuf: "deliverMessage mem (c\<lparr>readbuf := b\<rparr>) = deliverMessage mem c"
  by (rule ext) (simp add: deliverMessage_def Let_def)

text \<open>
  Who is to be called for a topic, said without the loops: the callbacks of the slots whose filter is the topic or matches it, in the
  order of the slots, and the default callback when there is none.
\<close>

definition delivered :: "('p \<Rightarrow> bytes) \<Rightarrow> bytes \<Rightarrow> ('p option \<times> 'h option) list \<Rightarrow> 'h list" where
  "delivered mem topic = List.map_filter (\<lambda>(f, h). case f of
     Some p \<Rightarrow> if mem p = topic \<or> topic_spec (mem p) topic then h else None | None \<Rightarrow> None)"

definition receivers :: "('p \<Rightarrow> bytes) \<Rightarrow> bytes \<Rightarrow> ('p, 'h) MQTTClient \<Rightarrow> 'h list" where
  "receivers mem topic c = (if delivered mem topic (messageHandlers c) \<noteq> [] then delivered mem topic (messageHandlers c)
     else case defaultMessageHandler c of Some h \<Rightarrow> [h] | None \<Rightarrow> [])"

text \<open>The filters of the table are C strings in the format the matching assumes.\<close>

definition filters_ok :: "('p \<Rightarrow> bytes) \<Rightarrow> ('p option \<times> 'h option) list \<Rightarrow> bool" where
  "filters_ok mem hs \<longleftrightarrow> (\<forall>(f, h) \<in> set hs. case f of Some p \<Rightarrow> filter_ok (levels (mem p)) \<and> 0 \<notin> set (mem p) | None \<Rightarrow> True)"

lemma strncmp_eq_iff: "length a = length b \<Longrightarrow> 0 \<notin> set b \<Longrightarrow> strncmp_eq (length b) a b \<longleftrightarrow> a = b"
  by (induction a b rule: list_induct2) auto

lemma topic_data_len_str [simp]: "topic_data (len_str x s) = x"
  by (simp add: topic_data_def len_str_def)

lemma equals_len_str: "0 \<notin> set b \<Longrightarrow> MQTTPacket_equals (len_str x s) b \<longleftrightarrow> b = x"
  using strncmp_eq_iff [of x b] by (auto simp: MQTTPacket_equals_def len_str_def)

lemma handler_matches_iff:
  "filter_ok (levels (mem p)) \<Longrightarrow> 0 \<notin> set (mem p) \<Longrightarrow>
     handler_matches mem (len_str x s) (Some p, h) \<longleftrightarrow> mem p = x \<or> topic_spec (mem p) x"
  by (simp add: handler_matches_def equals_len_str isTopicMatched_spec)

lemma deliver_loop_delivered: "filters_ok mem hs \<Longrightarrow> deliver_loop mem (len_str x s) hs = delivered mem x hs"
proof (induction hs)
  case (Cons slot hs)
  obtain f h where slot: "slot = (f, h)" by (cases slot)
  have "filters_ok mem hs" using Cons.prems by (simp add: filters_ok_def)
  note IH = Cons.IH [OF this]
  show ?case
  proof (cases f)
    case None
    then show ?thesis using IH by (simp add: slot handler_matches_def delivered_def List.map_filter_def)
  next
    case (Some p)
    then have "handler_matches mem (len_str x s) slot \<longleftrightarrow> mem p = x \<or> topic_spec (mem p) x"
      using Cons.prems handler_matches_iff [of mem p] by (simp add: slot filters_ok_def)
    then show ?thesis using IH Some by (simp add: slot delivered_def List.map_filter_def split: option.split)
  qed
qed (simp add: delivered_def List.map_filter_def)

lemma deliverMessage_receivers:
  "filters_ok mem (messageHandlers c) \<Longrightarrow> snd (deliverMessage mem c (len_str x s)) = receivers mem x c"
  by (simp add: deliverMessage_def receivers_def deliver_loop_delivered Let_def split: option.split)

lemma writeInt_u16: "writeInt (uint (pid :: u16)) = [ucast (drop_bit 8 pid), ucast pid]"
proof -
  have "of_nat (unat pid div 256) = (ucast (drop_bit 8 pid) :: u8)"
    by (rule word_unat_eq_iff [THEN iffD2]) (simp add: unat_of_nat unsigned_ucast_eq unsigned_drop_bit_eq take_bit_drop_bit drop_bit_eq_div take_bit_eq_mod unat_div)
  moreover have "of_nat (unat pid mod 256) = (ucast pid :: u8)"
    by (rule word_unat_eq_iff [THEN iffD2]) (simp add: unat_of_nat unsigned_ucast_eq take_bit_eq_mod)
  moreover have "uint pid div 256 = int (unat pid div 256)" "uint pid mod 256 = int (unat pid mod 256)"
    by (simp_all add: zdiv_int zmod_int)
  moreover have "0 \<le> uint pid" by simp
  then have "uint pid sdiv 256 = uint pid div 256" "uint pid smod 256 = uint pid mod 256"
    by (simp_all add: signed_divide_int_def signed_modulo_int_def sgn_if order_le_less) blast+
  ultimately show ?thesis by (simp add: writeInt_def)
qed

lemma ack_headers:
  "set_qos 0 (set_dup 0 (set_type PUBACK 0)) = 0x40" "set_qos 0 (set_dup 0 (set_type PUBREC 0)) = 0x50"
  "PUBACK \<noteq> PUBREL" "PUBREC \<noteq> PUBREL"
  by (simp_all add: set_type_def set_qos_def set_dup_def set_field_def mask_eq_exp_minus_1 push_bit_eq_mult msgTypes_defs)

lemma ack_bytes:
  "snd (MQTTSerialize_ack 4 (if qos = 1 then PUBACK else PUBREC) 0 pid) =
     [if qos = (1 :: int) then 0x40 else 0x50, 2, ucast (drop_bit 8 pid), ucast pid]"
  by (simp add: MQTTSerialize_ack_def Let_def encode_2 writeInt_u16 ack_headers)

lemma send_ack_ok:
  assumes "client_inv c" and "network_inv net" and "snd (MQTTSerialize_ack 4 type 0 pid) = b"
  shows "\<exists>c' net'. send_ack True c type pid net = Inr (0, c', net', [Rt_event_send NET_TX_BUF_WRITE_EVENT]) \<and>
    isconnected c' = isconnected c \<and> network_inv net' \<and> net_rx_fifo net' = net_rx_fifo net \<and>
    net_tx_len net' = 4 \<and> take 4 (net_tx_buf net') = b"
proof -
  have b: "length b = 4" and sz: "4 \<le> buf_size c"
    using assms(1,3) by (auto simp: MQTTSerialize_ack_def Let_def encode_2 client_inv_def)
  then have ser: "MQTTSerialize_ack (int (buf_size c)) type 0 pid = (int (length b), b)"
    using assms(3) by (auto simp: MQTTSerialize_ack_def Let_def encode_2)
  let ?c = "c\<lparr>buf := b @ drop (length b) (buf c)\<rparr>"
  have ib: "into_buf c (int (length b), b) = Inr (int (length b), ?c)" "client_inv ?c"
    using into_buf_ok [OF assms(1), of b] b sz by simp_all
  from sendPacket_ok [OF ib(2) assms(2), of b] b sz
  obtain net' where "sendPacket True ?c (int (length b)) net = Inr (0, net', [Rt_event_send NET_TX_BUF_WRITE_EVENT])"
    "network_inv net'" "net_rx_fifo net' = net_rx_fifo net" "net_tx_len net' = of_nat (length b)"
    "take (length b) (net_tx_buf net') = b" by auto
  then show ?thesis using ib(1) b by (auto simp: send_ack_def ser)
qed

text \<open>
  C4: A publication with QoS 1 or 2 is delivered and acknowledged.  When the FIFO starts with a PUBLISH packet that fits the read buffer,
  one \<open>MQTT_cycle\<close> calls, in the order of the table, the callback of every slot whose filter is the topic or matches it in the sense of
  C6, and the default callback if there is none; each call gets the topic, the payload, its length, the identifier and the flags of the
  packet.  It hands the four bytes of a PUBACK (QoS 1) or a PUBREC (QoS 2) with the identifier of the packet to the network layer,
  leaves the rest of the FIFO, and keeps the connection.
\<close>

theorem cycle_acknowledges_publish:
  assumes "client_inv c" and "network_inv net" and "str_ok t" and "qos = 1 \<or> qos = 2"
    and "dup \<in> {0, 1}" and "retained \<in> {0, 1}"
    and "net_fifo_elems (net_rx_fifo net) =
      packet (publish_header dup qos retained) (publish_body t qos pid payload (int (length payload))) @ rest"
    and "length (packet (publish_header dup qos retained) (publish_body t qos pid payload (int (length payload)))) \<le> readbuf_size c"
    and "length payload < 1000000" and "filters_ok mem (messageHandlers c)"
  shows "\<exists>c' net' calls. MQTT_cycle mem True True True stk c net =
      Inr (uint PUBLISH, c', net', [Rt_event_send NET_TX_BUF_WRITE_EVENT], calls) \<and>
    isconnected c' = isconnected c \<and> net_fifo_elems (net_rx_fifo net') = rest \<and>
    net_tx_len net' = 4 \<and>
    take 4 (net_tx_buf net') = [if qos = 1 then 0x40 else 0x50, 2, ucast (drop_bit 8 pid), ucast pid] \<and>
    map fst calls = receivers mem (str_content t) c \<and>
    (\<forall>(h, msg) \<in> set calls. topic_data (po_topicName msg) = str_content t \<and> take (length payload) (po_payload msg) = payload \<and>
      po_payloadlen msg = int (length payload) \<and> po_packetid msg = pid \<and> po_qos msg = qos \<and> po_dup msg = dup \<and>
      po_retained msg = retained)"
proof -
  let ?h = "publish_header dup qos retained" and ?d = "publish_body t qos pid payload (int (length payload))"
  let ?type = "if qos = 1 then PUBACK else PUBREC"
  have q: "0 \<le> qos" "qos \<le> 2" "qos < 4" "0 < qos" using assms(4) by auto
  have dl: "length ?d < 268435456"
    using assms(3,9) q(4) by (simp add: publish_body_def str_ok_def)
  let ?c = "c\<lparr>readbuf := packet ?h ?d @ drop (length (packet ?h ?d)) (readbuf c)\<rparr>"
  have ty: "hdr_type ?h = PUBLISH" using publish_header_fields(1) [OF assms(5,6) q(1,3)] .
  obtain f' where rp: "readPacket True True c net = Inr (uint PUBLISH, ?c, net\<lparr>net_rx_fifo := f'\<rparr>)"
      and f': "net_fifo_inv f'" "net_fifo_elems f' = rest"
    using readPacket_packet [OF assms(1,2,7,8) dl] by (auto simp: ty)
  have inv: "client_inv ?c" "network_inv (net\<lparr>net_rx_fifo := f'\<rparr>)"
    using assms(1,2,8) f'(1) by (simp_all add: client_inv_def network_inv_def)
  obtain c' net' where ack: "send_ack True ?c ?type pid (net\<lparr>net_rx_fifo := f'\<rparr>) =
      Inr (0, c', net', [Rt_event_send NET_TX_BUF_WRITE_EVENT])" "isconnected c' = isconnected c"
      "net_rx_fifo net' = f'" "net_tx_len net' = 4" "take 4 (net_tx_buf net') = snd (MQTTSerialize_ack 4 ?type 0 pid)"
    using send_ack_ok [OF inv refl, of ?type pid] by auto
  define msg where "msg = (stk\<lparr>po_payloadlen := 0\<rparr>)\<lparr>po_dup := dup, po_qos := qos, po_retained := retained,
      po_packetid := pid, po_topicName := len_str (str_content t) (po_topicName stk),
      po_payload := payload @ drop (length (packet ?h ?d)) (readbuf c), po_payloadlen := int (length payload)\<rparr>"
  have parse: "MQTTDeserialize_publish (readbuf ?c) (stk\<lparr>po_payloadlen := 0\<rparr>) = Inr (1, msg)"
    using publish_parse [OF assms(3) _ _ q(1,2) assms(5,6) dl] q(4) by (simp add: msg_def)
  have sel: "po_qos msg = qos" "po_packetid msg = pid" "po_topicName msg = len_str (str_content t) (po_topicName stk)"
    "take (length payload) (po_payload msg) = payload" "po_payloadlen msg = int (length payload)"
    "po_dup msg = dup" "po_retained msg = retained"
    by (simp_all add: msg_def)
  let ?calls = "map (\<lambda>h. (h, msg)) (snd (deliverMessage mem c (po_topicName msg)))"
  have "deliverMessage mem ?c = deliverMessage mem c" by (rule deliverMessage_readbuf)
  then have "cycle_publish mem True stk ?c (net\<lparr>net_rx_fifo := f'\<rparr>) =
      Inr (0, c', net', [Rt_event_send NET_TX_BUF_WRITE_EVENT], ?calls)"
    using parse ack(1) assms(4) q(4) sel(1,2) unfolding cycle_publish_def by (auto simp: Let_def)
  then have "MQTT_cycle mem True True True stk c net =
      Inr (uint PUBLISH, c', net', [Rt_event_send NET_TX_BUF_WRITE_EVENT], ?calls)"
    by (simp add: MQTT_cycle_def rp msgTypes_defs)
  moreover have "map fst ?calls = receivers mem (str_content t) c"
    using deliverMessage_receivers [OF assms(10)] by (simp add: sel(3) comp_def)
  moreover have "\<forall>(h, msg) \<in> set ?calls. topic_data (po_topicName msg) = str_content t \<and> take (length payload) (po_payload msg) = payload \<and>
      po_payloadlen msg = int (length payload) \<and> po_packetid msg = pid \<and> po_qos msg = qos \<and> po_dup msg = dup \<and> po_retained msg = retained"
    using sel by auto
  ultimately show ?thesis
    using ack(2-5) f'(2) ack_bytes [of qos pid] by (intro exI [of _ c'] exI [of _ net'] exI [of _ ?calls] conjI) simp_all
qed

text \<open>Two of three handlers match the topic \<open>mqtt/msg\<close>.\<close>

definition demo_listening :: "(bytes, nat) MQTTClient" where
  "demo_listening = demo_client\<lparr>isconnected := 1, messageHandlers :=
     [(Some (str_bytes ''mqtt/+''), Some 7), (Some (str_bytes ''mqtt/led''), Some 8), (None, None),
      (Some (str_bytes ''mqtt/msg''), Some 9), (None, None)]\<rparr>"

lemma demo_listening_ok:
  "client_inv demo_listening" "filters_ok id (messageHandlers demo_listening)"
  "receivers id (str_bytes ''mqtt/msg'') demo_listening = [7, 9]"
  "isconnected demo_listening = 1" "readbuf_size demo_listening = 1024"
proof -
  show "client_inv demo_listening" using demo_client_inv
    by (simp add: client_inv_def demo_listening_def MAX_MESSAGE_HANDLERS_def)
  have l: "levels (str_bytes ''mqtt/+'') = [str_bytes ''mqtt'', [43]]" "levels (str_bytes ''mqtt/led'') = [str_bytes ''mqtt'', str_bytes ''led'']"
    "levels (str_bytes ''mqtt/msg'') = [str_bytes ''mqtt'', str_bytes ''msg'']"
    by (simp_all add: levels.simps str_bytes_def)
  show "filters_ok id (messageHandlers demo_listening)"
    by (simp add: filters_ok_def demo_listening_def l) (simp add: literal_def str_bytes_def)
  show "receivers id (str_bytes ''mqtt/msg'') demo_listening = [7, 9]"
    by (simp add: receivers_def delivered_def List.map_filter_def demo_listening_def topic_spec_def l) (simp add: str_bytes_def)
qed (simp_all add: demo_listening_def demo_client_def)

theorem cycle_acknowledges_publish_witness:
  "\<exists>net c' net' calls. MQTT_cycle id True True True demo_publish_out demo_listening net =
      Inr (uint PUBLISH, c', net', [Rt_event_send NET_TX_BUF_WRITE_EVENT], calls) \<and>
    isconnected c' = 1 \<and> net_fifo_elems (net_rx_fifo net') = [] \<and> net_tx_len net' = 4 \<and>
    take 4 (net_tx_buf net') = [0x50, 2, 0, 9] \<and> map fst calls = [7, 9] \<and>
    (\<forall>(h, msg) \<in> set calls. topic_data (po_topicName msg) = str_bytes ''mqtt/msg'' \<and> take (length [1, 2 :: u8]) (po_payload msg) = [1, 2] \<and>
      po_payloadlen msg = 2 \<and> po_packetid msg = 9 \<and> po_qos msg = 2 \<and> po_dup msg = 0 \<and> po_retained msg = 0)"
proof -
  let ?p = "packet (publish_header 0 2 0) (publish_body demo_topic 2 9 [1, 2] (int (length [1, 2 :: u8])))"
  have l: "length ?p = 16"
    by (simp add: packet_def publish_body_def demo_topic_ok str_bytes_def encode_nonneg)
  then have "?p @ [] \<noteq> []" by auto
  then obtain net where "network_inv net" "net_fifo_elems (net_rx_fifo net) = ?p @ []"
    using demo_net_with [of "?p @ []"] l by auto
  from cycle_acknowledges_publish [OF demo_listening_ok(1) this(1) demo_topic_ok(1) _ _ _ this(2), of id demo_publish_out] l
  show ?thesis
    by (intro exI [of _ net]) (simp add: demo_listening_ok demo_topic_ok)
qed

section \<open>The subscribe handshake\<close>

lemma suback_parse:
  "MQTTDeserialize_suback (packet (set_type SUBACK 0) (writeInt (uint (pid :: u16)) @ [q]) @ junk) 1
      \<lparr>so_packetid = 0, so_count = 0, so_grantedQoSs = [0]\<rparr> =
    Inr (1, \<lparr>so_packetid = pid, so_count = 1, so_grantedQoSs = [uint q]\<rparr>)"
proof -
  have "body_cursor (MQTTPacket_encode 3 @ (writeInt (uint pid) @ [q]) @ junk) =
      Inr (int (length (MQTTPacket_encode 3)), cur (writeInt (uint pid) @ [q]) junk)"
    by (rule body_cursor_cur) simp_all
  moreover have "suback_loop 1 (cur [q] junk) \<lparr>so_packetid = pid, so_count = 0, so_grantedQoSs = [0]\<rparr> =
      Inr (True, \<lparr>so_packetid = pid, so_count = 1, so_grantedQoSs = [uint q]\<rparr>)"
    by (simp add: suback_loop.simps [of _ "cur [q] junk"] suback_loop.simps [of _ "cur [] junk"])
  ultimately show ?thesis by (simp add: MQTTDeserialize_suback_def SUBACK_def packet_def)
qed

lemma topic_cstr_ok: "length t < 65536 \<Longrightarrow> str_ok (topic_cstr t)" "str_content (topic_cstr t) = t"
  by (simp_all add: topic_cstr_def MQTTString_initializer_def str_ok_def str_content_def)

lemma setHandler_inv:
  "client_inv c \<Longrightarrow> client_inv (snd (MQTTSetMessageHandler mem c p h))"
  by (simp add: MQTTSetMessageHandler_def Let_def client_inv_def split: option.split)

lemma setHandler_readbuf:
  "messageHandlers d = messageHandlers c \<Longrightarrow>
     messageHandlers (snd (MQTTSetMessageHandler mem d p h)) = messageHandlers (snd (MQTTSetMessageHandler mem c p h)) \<and>
     fst (MQTTSetMessageHandler mem d p h) = fst (MQTTSetMessageHandler mem c p h)"
  by (simp add: MQTTSetMessageHandler_def Let_def split: option.split)

text \<open>The SUBSCRIBE packet of MQTT with one filter: the fixed header, the identifier, the filter with its length, the QoS asked for.\<close>

definition subscribe_bytes :: "u16 \<Rightarrow> bytes \<Rightarrow> int \<Rightarrow> bytes" where
  "subscribe_bytes pid t q = packet 0x82 ([ucast (drop_bit 8 pid), ucast pid] @ wstr t @ [of_int q])"

lemma subscribe_packet:
  assumes "length t < 65536" and "MQTTPacket_len (5 + int (length t)) \<le> buflen" and "buflen < 268435456"
  shows "MQTTSerialize_subscribe buflen 0 pid 1 [topic_cstr t] [q] =
      Inr (int (length (subscribe_bytes pid t q)), subscribe_bytes pid t q) \<and>
    0 < length (subscribe_bytes pid t q) \<and> int (length (subscribe_bytes pid t q)) \<le> buflen"
proof -
  let ?n = "5 + int (length t)"
  have ok: "str_ok (topic_cstr t)" by (rule topic_cstr_ok(1) [OF assms(1)])
  have l: "MQTTSerialize_subscribeLength 1 [topic_cstr t] = Inr ?n"
    by (simp add: MQTTSerialize_subscribeLength_def topic_cstr_ok(2) MQTTstrlen_ok [OF ok])
  have w: "write_topics_qos (Suc 0) [topic_cstr t] [q] = Inr (wstr t @ [of_int q])"
    by (simp add: writeMQTTString_ok [OF ok] topic_cstr_ok(2))
  have "set_qos 1 (set_dup 0 (set_type SUBSCRIBE 0)) = 0x82"
    by (simp add: set_type_def set_qos_def set_dup_def set_field_def mask_eq_exp_minus_1 push_bit_eq_mult SUBSCRIBE_def)
  then have b: "subscribe_bytes pid t q =
      set_qos 1 (set_dup 0 (set_type SUBSCRIBE 0)) # MQTTPacket_encode ?n @ writeInt (uint pid) @ wstr t @ [of_int q]"
    by (simp add: subscribe_bytes_def packet_def writeInt_u16)
  have "MQTTSerialize_subscribe buflen 0 pid 1 [topic_cstr t] [q] =
      Inr (int (length (subscribe_bytes pid t q)), subscribe_bytes pid t q)"
    using assms(2) l w by (simp add: MQTTSerialize_subscribe_def Let_def b)
  moreover have "int (length (subscribe_bytes pid t q)) \<le> buflen" unfolding b using packet_fits(1) [OF _ assms(2,3)] by simp
  ultimately show ?thesis by (simp add: b)
qed

lemma subscribe_handshake_run:
  assumes "client_inv c" and "network_inv net" and "isconnected c \<noteq> 0" and "length (mem p) < 65536"
    and "MQTTPacket_len (5 + int (length (mem p))) \<le> int (buf_size c)"
    and "net_fifo_inv f" and "net_fifo_elems f = packet (set_type SUBACK 0) (writeInt (uint (pid :: u16)) @ [q]) @ rest"
    and "q \<noteq> 0x80" and "5 < readbuf_size c"
    and "pl_env pl = (\<lambda>n. n\<lparr>net_rx_fifo := f\<rparr>)" and "pl_sem pl" and "pl_mutex pl"
    and "fst (MQTTSetMessageHandler mem c p (Some h)) = MQTT_SUCCESS"
    and "b = subscribe_bytes (ucast (fst (getNextPacketId c))) (mem p) qos"
  shows "\<exists>c' net'. MQTTSubscribe mem True now (pl # ps) c p qos (Some h) net = Inr (Some (MQTT_SUCCESS, c', net')) \<and>
    client_inv c' \<and> network_inv net' \<and> isconnected c' = isconnected c \<and> buf_size c' = buf_size c \<and>
    readbuf_size c' = readbuf_size c \<and>
    messageHandlers c' = messageHandlers (snd (MQTTSetMessageHandler mem c p (Some h))) \<and>
    next_packetid c' = fst (getNextPacketId c) \<and> net_fifo_elems (net_rx_fifo net') = rest \<and>
    net_tx_len net' = of_nat (length b) \<and> take (length b) (net_tx_buf net') = b"
proof -
  obtain id c1 where g: "getNextPacketId c = (id, c1)" by (cases "getNextPacketId c")
  have c1: "client_inv c1" "isconnected c1 = isconnected c" "buf_size c1 = buf_size c" "readbuf_size c1 = readbuf_size c"
    "messageHandlers c1 = messageHandlers c" "readbuf c1 = readbuf c"
    using g assms(1) by (auto simp: getNextPacketId_def Let_def client_inv_def)
  have "int (buf_size c) < 268435456" using assms(1) by (simp add: client_inv_def net_sizes)
  from subscribe_packet [OF assms(4,5) this, of "ucast id" qos]
  have b: "MQTTSerialize_subscribe (int (buf_size c)) 0 (ucast id) 1 [topic_cstr (mem p)] [qos] = Inr (int (length b), b)"
    "0 < length b" "length b \<le> buf_size c" using g assms(14) by auto
  let ?c2 = "c1\<lparr>buf := b @ drop (length b) (buf c1)\<rparr>"
  note ib = into_buf_ok [OF c1(1), of b "int (length b)"]
  obtain net1 where s: "sendPacket True ?c2 (int (length b)) net =
        Inr (0, net1, [Rt_event_send NET_TX_BUF_WRITE_EVENT])" "network_inv net1"
      "net_tx_len net1 = of_nat (length b)" "take (length b) (net_tx_buf net1) = b"
    using sendPacket_ok [of ?c2 net b] ib b(3) c1(3) assms(2) by auto
  have f1: "network_inv (net1\<lparr>net_rx_fifo := f\<rparr>)" using s(2) assms(6) by (simp add: network_inv_def)
  let ?k = "packet (set_type SUBACK 0) (writeInt (uint pid) @ [q])"
  have kl: "length ?k = 5" by (simp add: packet_def encode_nonneg)
  let ?c3 = "?c2\<lparr>readbuf := ?k @ drop (length ?k) (readbuf c1)\<rparr>"
  obtain f' where rp: "readPacket True True ?c2 (net1\<lparr>net_rx_fifo := f\<rparr>) = Inr (uint SUBACK, ?c3, net1\<lparr>net_rx_fifo := f'\<rparr>)"
      "net_fifo_inv f'" "net_fifo_elems f' = rest"
    using readPacket_packet [of ?c2 "net1\<lparr>net_rx_fifo := f\<rparr>" "set_type SUBACK 0" "writeInt (uint pid) @ [q]" rest] f1 ib b(3)
      c1(3,4) assms(7,9) kl by (auto simp: SUBACK_def)
  have w: "waitfor (pl # ps) ?c2 (uint SUBACK) (timeout_init now 500) net1 = Inr (Some (uint SUBACK, ?c3, net1\<lparr>net_rx_fifo := f'\<rparr>))"
    using rp(1) assms(10-12) by simp
  have c3: "client_inv ?c3" using ib b(3) c1 kl assms(9) by (simp add: client_inv_def)
  let ?r = "MQTTSetMessageHandler mem ?c3 p (Some h)"
  have r: "fst ?r = MQTT_SUCCESS" "messageHandlers (snd ?r) = messageHandlers (snd (MQTTSetMessageHandler mem c p (Some h)))"
    using setHandler_readbuf [of ?c3 c mem p "Some h"] c1(5) assms(13) by simp_all
  have q: "uint q \<noteq> 0x80" using assms(8) by (simp add: word_uint_eq_iff)
  have "MQTTSubscribe mem True now (pl # ps) c p qos (Some h) net = Inr (Some (MQTT_SUCCESS, snd ?r, net1\<lparr>net_rx_fifo := f'\<rparr>))"
    using assms(3) g b ib c1(3) s q r(1)
    by (simp add: MQTTSubscribe_def MQTTSubscribeWithResults_def Let_def await_def w suback_parse split_beta
        close_on_failure_def del: waitfor.simps)
  moreover have "client_inv (snd ?r)" by (rule setHandler_inv [OF c3])
  moreover have "network_inv (net1\<lparr>net_rx_fifo := f'\<rparr>)" using s(2) rp(2) by (simp add: network_inv_def)
  moreover have "isconnected (snd ?r) = isconnected c" using c1 by simp
  moreover have "buf_size (snd ?r) = buf_size c" "readbuf_size (snd ?r) = readbuf_size c"
    using c1 by (simp_all add: MQTTSetMessageHandler_def Let_def)
  moreover have "next_packetid (snd ?r) = fst (getNextPacketId c)"
    using g by (auto simp: MQTTSetMessageHandler_def getNextPacketId_def Let_def split: option.split)
  ultimately show ?thesis using r(2) s(3,4) rp(3)
    by (intro exI [of _ "snd ?r"] exI [of _ "net1\<lparr>net_rx_fifo := f'\<rparr>"]) simp
qed

lemma handler_lookup_cong: "messageHandlers c = messageHandlers d \<Longrightarrow> handler_lookup mem c = handler_lookup mem d"
  by (simp add: handler_lookup_def fun_eq_iff)

text \<open>
  C5: The subscribe handshake.  On a connected client with a free handler slot, a topic that fits the send buffer, and a SUBACK that grants
  the subscription in the FIFO at the first turn of the wait, \<open>MQTTSubscribe\<close> hands exactly the SUBSCRIBE packet with the next packet
  identifier, the filter and the QoS to the network layer, consumes exactly the SUBACK, returns \<open>MQTT_SUCCESS\<close>, installs the handler under
  the filter and changes no other entry, and keeps the connection.  The identifier \<open>pid\<close> of the SUBACK is arbitrary: the code does not
  compare it with the one it sent.
\<close>

theorem subscribe_installs:
  assumes "client_inv c" and "network_inv net" and "isconnected c \<noteq> 0" and "length (mem p) < 65536"
    and "MQTTPacket_len (5 + int (length (mem p))) \<le> int (buf_size c)"
    and "net_fifo_inv f" and "net_fifo_elems f = packet (set_type SUBACK 0) (writeInt (uint (pid :: u16)) @ [q]) @ rest"
    and "q \<noteq> 0x80" and "5 < readbuf_size c"
    and "pl_env pl = (\<lambda>n. n\<lparr>net_rx_fifo := f\<rparr>)" and "pl_sem pl" and "pl_mutex pl"
    and "slots_ok (messageHandlers c)" and "0 < free_slots c"
    and "b = subscribe_bytes (ucast (fst (getNextPacketId c))) (mem p) qos"
  shows "\<exists>c' net'. MQTTSubscribe mem True now (pl # ps) c p qos (Some h) net = Inr (Some (MQTT_SUCCESS, c', net')) \<and>
    isconnected c' = isconnected c \<and> handler_lookup mem c' = (handler_lookup mem c)(mem p \<mapsto> h) \<and>
    next_packetid c' = fst (getNextPacketId c) \<and> net_fifo_elems (net_rx_fifo net') = rest \<and>
    net_tx_len net' = of_nat (length b) \<and> take (length b) (net_tx_buf net') = b"
proof -
  have h: "fst (MQTTSetMessageHandler mem c p (Some h)) = MQTT_SUCCESS"
    "handler_lookup mem (snd (MQTTSetMessageHandler mem c p (Some h))) = (handler_lookup mem c)(mem p \<mapsto> h)"
    using handlers.set_ok [OF assms(13)] assms(14) by blast+
  from subscribe_handshake_run [OF assms(1-12) h(1) assms(15), of now ps]
  obtain c' net' where "MQTTSubscribe mem True now (pl # ps) c p qos (Some h) net = Inr (Some (MQTT_SUCCESS, c', net'))"
    "isconnected c' = isconnected c" "messageHandlers c' = messageHandlers (snd (MQTTSetMessageHandler mem c p (Some h)))"
    "next_packetid c' = fst (getNextPacketId c)" "net_fifo_elems (net_rx_fifo net') = rest"
    "net_tx_len net' = of_nat (length b)" "take (length b) (net_tx_buf net') = b"
    by blast
  then show ?thesis using h(2) handler_lookup_cong [of c'] by auto
qed

definition demo_online :: "(bytes, nat) MQTTClient" where
  "demo_online = demo_client\<lparr>isconnected := 1\<rparr>"

lemma demo_suback_fifo:
  "\<exists>f. net_fifo_inv f \<and> net_fifo_elems f = packet (set_type SUBACK 0) (writeInt (uint (1 :: u16)) @ [0]) @ []"
proof -
  obtain s where "network_inv s"
    "net_fifo_elems (net_rx_fifo s) = packet (set_type SUBACK 0) (writeInt (uint (1 :: u16)) @ [0]) @ []"
    using demo_net_with [of "packet (set_type SUBACK 0) (writeInt (uint (1 :: u16)) @ [0]) @ []"]
    by (auto simp: packet_def encode_nonneg)
  then show ?thesis by (auto simp: network_inv_def)
qed

theorem subscribe_installs_witness:
  "\<exists>f c' net'. MQTTSubscribe id True 0 [demo_connect_poll f] demo_online [97] 1 (Some 7) (demo_network 0 []) =
      Inr (Some (MQTT_SUCCESS, c', net')) \<and> isconnected c' = isconnected demo_online \<and>
    handler_lookup id c' = (handler_lookup id demo_online)(id [97] \<mapsto> 7) \<and> net_fifo_elems (net_rx_fifo net') = [] \<and>
    net_tx_len net' = 8 \<and> take 8 (net_tx_buf net') = [0x82, 6, 0, 1, 0, 1, 97, 1]"
proof -
  obtain f where f: "net_fifo_inv f" "net_fifo_elems f = packet (set_type SUBACK 0) (writeInt (uint (1 :: u16)) @ [0]) @ []"
    using demo_suback_fifo by blast
  have "client_inv demo_online" using demo_client_inv by (simp add: demo_online_def client_inv_def)
  moreover have "network_inv (demo_network 0 [])" by (rule demo_network_inv) simp_all
  moreover have "slots_ok (messageHandlers demo_online)" "0 < free_slots demo_online" "5 < readbuf_size demo_online"
    "isconnected demo_online \<noteq> 0" "MQTTPacket_len (5 + int (length (id [97 :: u8]))) \<le> int (buf_size demo_online)"
    by (simp_all add: demo_online_def demo_client_def free_slots_def MQTTPacket_len_def eval_nat_numeral)
  moreover have b: "subscribe_bytes (ucast (fst (getNextPacketId demo_online))) (id [97]) 1 = [0x82, 6, 0, 1, 0, 1, 97, 1]"
    by (simp add: subscribe_bytes_def packet_def getNextPacketId_def demo_online_def demo_client_def MAX_PACKET_ID_def wstr_def
        encode_nonneg writeInt_def signed_divide_int_def signed_modulo_int_def)
  moreover have "pl_env (demo_connect_poll f) = (\<lambda>n. n\<lparr>net_rx_fifo := f\<rparr>)" "pl_sem (demo_connect_poll f)"
    "pl_mutex (demo_connect_poll f)" by (simp_all add: demo_connect_poll_def)
  ultimately have "\<exists>c' net'. MQTTSubscribe id True 0 [demo_connect_poll f] demo_online [97] 1 (Some 7) (demo_network 0 []) =
        Inr (Some (MQTT_SUCCESS, c', net')) \<and> isconnected c' = isconnected demo_online \<and>
      handler_lookup id c' = (handler_lookup id demo_online)(id [97] \<mapsto> 7) \<and>
      next_packetid c' = fst (getNextPacketId demo_online) \<and> net_fifo_elems (net_rx_fifo net') = [] \<and>
      net_tx_len net' = of_nat (length [0x82, 6, 0, 1, 0, 1, 97, 1 :: u8]) \<and>
      take (length [0x82, 6, 0, 1, 0, 1, 97, 1 :: u8]) (net_tx_buf net') = [0x82, 6, 0, 1, 0, 1, 97, 1]"
    by (intro subscribe_installs [where mem = id and c = demo_online and p = "[97]" and net = "demo_network 0 []" and
        f = f and pid = 1 and q = 0 and rest = "[]" and pl = "demo_connect_poll f" and now = 0 and ps = "[]" and
        qos = 1 and h = 7, OF _ _ _ _ _ f _ _ _ _ _ _ _ b [symmetric]]) simp_all
  moreover have "length [0x82, 6, 0, 1, 0, 1, 97, 1 :: u8] = 8" by simp
  ultimately show ?thesis by (simp only:) auto
qed

end
