(* ===== verification/Main_Thread.thy ===== *)
theory Main_Thread
  imports Mqtt_Calls Board
begin

text \<open>
  The application thread of \<open>Application/src/main_thread.c\<close>: the MQTT session it sets up, the
  four subscriptions, the periodic loop, and the restart after a failure.  Topic filters are
  pointers into string constants or into the local array \<open>sub_temp\<close>, which the thread
  overwrites between two subscriptions.
\<close>

section \<open>Memory and callbacks\<close>

datatype topic_ptr = Lit bytes | Sub_temp

fun tmem :: "bytes \<Rightarrow> topic_ptr \<Rightarrow> bytes" where
  "tmem sub_temp (Lit b) = b"
| "tmem sub_temp Sub_temp = sub_temp"

datatype callback = Mqtt_config_callback | Mqtt_action_callback | Mqtt_sub_default_callback

type_synonym client = "(topic_ptr, callback) MQTTClient"

definition MQTT_WILLPUBTOPIC :: bytes where "MQTT_WILLPUBTOPIC = str_bytes ''/mqtt/will''"
definition MQTT_WILLMSG :: bytes where "MQTT_WILLMSG = str_bytes ''Goodbye!''"
definition MQTT_MSGPUBTOPIC :: bytes where "MQTT_MSGPUBTOPIC = str_bytes ''mqtt/msg''"
definition MQTT_DOALLSUBTOPIC :: bytes where "MQTT_DOALLSUBTOPIC = str_bytes ''mqtt/action''"
definition MQTT_CIGSUBTOPIC :: bytes where "MQTT_CIGSUBTOPIC = str_bytes ''mqtt/config''"

text \<open>\<open>%010d\<close> of a value passed as \<open>int\<close>.\<close>

definition fmt_010d :: "u32 \<Rightarrow> bytes" where
  "fmt_010d n = (let i = sint n in if i < 0 then 45 # dec_pad 9 (nat (- i)) else dec_pad 10 (nat i))"

definition action_topic :: "u32 \<Rightarrow> bytes" where
  "action_topic sn = str_bytes ''mqtt/action-'' @ fmt_010d sn"

definition config_topic :: "u32 \<Rightarrow> bytes" where
  "config_topic sn = str_bytes ''mqtt/con-'' @ fmt_010d sn"

text \<open>
  The callbacks.  \<open>json\<close> stands for \<open>cJSON_Parse\<close> and \<open>cJSON_GetObjectItem\<close>: the
  integer value of a member of the object a C string parses to.  A DAC voltage is given in
  hundredths.
\<close>

datatype effect = RTC_SetCounter u32 | Dac_set_vol int

definition mqtt_config_callback :: "(bytes \<Rightarrow> string \<Rightarrow> int option) \<Rightarrow> publish_out \<Rightarrow> effect list" where
  "mqtt_config_callback json msg =
     (case json (cstr (po_payload msg)) ''rtc'' of Some v \<Rightarrow> [RTC_SetCounter (of_int v)] | None \<Rightarrow> [])"

definition mqtt_action_callback :: "(bytes \<Rightarrow> string \<Rightarrow> int option) \<Rightarrow> publish_out \<Rightarrow> effect list" where
  "mqtt_action_callback json msg =
     (case json (cstr (po_payload msg)) ''dac'' of Some v \<Rightarrow> [Dac_set_vol v] | None \<Rightarrow> [])"

text \<open>
  The default callback terminates the payload in place.  The payload pointer is into the read
  buffer, at the position where the rest \<open>po_payload\<close> starts.
\<close>

definition mqtt_sub_default_callback :: "bytes \<Rightarrow> publish_out \<Rightarrow> bytes c_result" where
  "mqtt_sub_default_callback rb msg =
     (let i = int (length rb) - int (length (po_payload msg)) + po_payloadlen msg
      in if 0 \<le> i \<and> i < int (length rb) then Inr (rb[nat i := 0]) else Inl OutOfBounds)"

section \<open>Initialisation\<close>

text \<open>\<open>bufs\<close> is what the two calls of \<open>rt_malloc\<close> return.\<close>

definition MQTT_init :: "IBOX_CONFIG \<Rightarrow> bytes option \<times> bytes option \<Rightarrow> client \<Rightarrow> client" where
  "MQTT_init cfg bufs c =
     (let d = MQTTPacket_connectData_initializer
            \<lparr>clientID := topic_cstr (str_bytes ''iBoxClient-'' @ fmt_010d (device_sn cfg)),
             keepAliveInterval := 300, cleansession := 1,
             username := topic_cstr (cstr (mqtt_username cfg)), password := topic_cstr (cstr (mqtt_password cfg)),
             willFlag := 1,
             will := \<lparr>w_topicName = topic_cstr MQTT_WILLPUBTOPIC, w_message = topic_cstr MQTT_WILLMSG,
                      w_retained = 0, w_qos = 1\<rparr>\<rparr>;
          c1 = c\<lparr>condata := d, buf_size := 1024, readbuf_size := 1024\<rparr>
      in case bufs of
           (Some b, Some rb) \<Rightarrow> c1\<lparr>buf := b, readbuf := rb, defaultMessageHandler := Some Mqtt_sub_default_callback\<rparr>
         | (b, rb) \<Rightarrow> c1\<lparr>buf := case b of Some x \<Rightarrow> x | None \<Rightarrow> [], readbuf := case rb of Some x \<Rightarrow> x | None \<Rightarrow> []\<rparr>)"

section \<open>The thread\<close>

record main_st =
  ms_client :: client
  ms_net :: network
  ms_sub_temp :: bytes
  ms_publish_time :: u32
  ms_effects :: "effect list"

text \<open>
  The callbacks of one \<open>MQTT_cycle\<close>, on the client's read buffer and the log of commands to
  the RTC and the DAC.
\<close>

fun run_callbacks :: "(bytes \<Rightarrow> string \<Rightarrow> int option) \<Rightarrow> (callback \<times> publish_out) list \<Rightarrow> client \<Rightarrow>
    (client \<times> effect list) c_result" where
  "run_callbacks json [] c = Inr (c, [])"
| "run_callbacks json ((cb, msg) # calls) c =
     bindR (case cb of
              Mqtt_config_callback \<Rightarrow> Inr (c, mqtt_config_callback json msg)
            | Mqtt_action_callback \<Rightarrow> Inr (c, mqtt_action_callback json msg)
            | Mqtt_sub_default_callback \<Rightarrow>
                bindR (mqtt_sub_default_callback (readbuf c) msg) (\<lambda>rb. Inr (c\<lparr>readbuf := rb\<rparr>, []))) (\<lambda>(c1, es).
     bindR (run_callbacks json calls c1) (\<lambda>(c2, es'). Inr (c2, es @ es')))"

text \<open>What the system decides during one blocking client call.\<close>

record call_env =
  ce_tx_sem :: bool
  ce_now :: u32
  ce_polls :: "poll list"

definition do_subscribe :: "call_env \<Rightarrow> topic_ptr \<Rightarrow> int \<Rightarrow> callback \<Rightarrow> main_st \<Rightarrow> (int \<times> main_st) option c_result" where
  "do_subscribe e p qos cb st =
     await (MQTTSubscribe (tmem (ms_sub_temp st)) (ce_tx_sem e) (ce_now e) (ce_polls e) (ms_client st) p qos (Some cb)
              (ms_net st)) (\<lambda>(ret, c, net). Inr (ret, st\<lparr>ms_client := c, ms_net := net\<rparr>))"

text \<open>The call sequence stops at the first subscription that does not return \<open>MQTT_SUCCESS\<close>.\<close>

definition then_ok :: "(int \<times> main_st) option c_result \<Rightarrow> (main_st \<Rightarrow> (int \<times> main_st) option c_result) \<Rightarrow>
    (int \<times> main_st) option c_result" where
  "then_ok m f = bindR m (\<lambda>x. case x of
       None \<Rightarrow> Inr None
     | Some (ret, st) \<Rightarrow> if ret \<noteq> MQTT_SUCCESS then Inr (Some (ret, st)) else f st)"

definition subscribe_topics :: "IBOX_CONFIG \<Rightarrow> call_env \<Rightarrow> call_env \<Rightarrow> call_env \<Rightarrow> call_env \<Rightarrow> main_st \<Rightarrow>
    (int \<times> main_st) option c_result" where
  "subscribe_topics cfg e1 e2 e3 e4 st =
     then_ok (do_subscribe e1 (Lit MQTT_DOALLSUBTOPIC) 0 Mqtt_action_callback st) (\<lambda>st1.
     then_ok (do_subscribe e2 Sub_temp 2 Mqtt_action_callback
                (st1\<lparr>ms_sub_temp := action_topic (device_sn cfg)\<rparr>)) (\<lambda>st2.
     then_ok (do_subscribe e3 (Lit MQTT_CIGSUBTOPIC) 0 Mqtt_config_callback st2) (\<lambda>st3.
     do_subscribe e4 Sub_temp 1 Mqtt_config_callback
       (st3\<lparr>ms_sub_temp := config_topic (device_sn cfg)\<rparr>))))"

text \<open>\<open>msg\<close> is the string \<open>create_msg\<close> returns; \<open>now_s\<close> the RTC counter.\<close>

definition MQTT_msg_publish :: "call_env \<Rightarrow> u32 \<Rightarrow> bytes option \<Rightarrow> main_st \<Rightarrow> (int \<times> main_st) option c_result" where
  "MQTT_msg_publish e now_s msg st =
     (case msg of
        None \<Rightarrow> Inr (Some (-1, st))
      | Some s \<Rightarrow>
          let message = \<lparr>m_qos = 1, m_retained = 0, m_dup = 0, m_id = ucast now_s, m_payload = s,
                m_payloadlen = ucast (of_nat (length s) :: u16)\<rparr>
          in await (MQTTPublish (ce_tx_sem e) (ce_now e) (ce_polls e) (ms_client st) MQTT_MSGPUBTOPIC message (ms_net st))
               (\<lambda>(ret, c, net). Inr (ret, st\<lparr>ms_client := c, ms_net := net\<rparr>)))"

text \<open>The places of the thread, and the inputs of one step.\<close>

datatype main_pc = Mqtt_start | Mqtt_loop | Mqtt_disconnect | Mqtt_restart

record main_env =
  me_connect :: call_env
  me_sub1 :: call_env
  me_sub2 :: call_env
  me_sub3 :: call_env
  me_sub4 :: call_env
  me_now :: "nat \<Rightarrow> u32"
  me_ping_sem :: bool
  me_fifo_sem :: bool
  me_mutex :: bool
  me_ack_sem :: bool
  me_stack :: publish_out
  me_json :: "bytes \<Rightarrow> string \<Rightarrow> int option"
  me_publish :: call_env
  me_msg :: "bytes option"
  me_disc_sem :: bool

definition main_start :: "IBOX_CONFIG \<Rightarrow> main_env \<Rightarrow> main_st \<Rightarrow> (main_pc \<times> main_st) option c_result" where
  "main_start cfg e st =
     bindR (await (MQTTConnect (ce_tx_sem (me_connect e)) (ce_now (me_connect e)) (ce_polls (me_connect e))
                     (ms_client st) (ms_net st))
              (\<lambda>(ret, c, net). Inr (ret, st\<lparr>ms_client := c, ms_net := net\<rparr>))) (\<lambda>x. case x of
       None \<Rightarrow> Inr None
     | Some (ret, st1) \<Rightarrow>
         if ret \<noteq> MQTT_SUCCESS then Inr (Some (Mqtt_restart, st1))
         else bindR (subscribe_topics cfg (me_sub1 e) (me_sub2 e) (me_sub3 e) (me_sub4 e) st1) (\<lambda>y. case y of
           None \<Rightarrow> Inr None
         | Some (ret', st2) \<Rightarrow>
             if ret' \<noteq> MQTT_SUCCESS then Inr (Some (Mqtt_disconnect, st2))
             else Inr (Some (Mqtt_loop, st2\<lparr>ms_client := (ms_client st2)\<lparr>tick_ping := me_now e 0\<rparr>\<rparr>))))"

text \<open>
  One turn of the loop; \<open>me_now e i\<close> is the i-th reading of \<open>get_sys_time_s\<close> in it.  The
  comparison with \<open>keepAliveInterval - 20\<close> is unsigned.
\<close>

definition main_ping :: "main_env \<Rightarrow> main_st \<Rightarrow> (bool \<times> main_st) c_result" where
  "main_ping e st =
     (let c = ms_client st
      in if me_now e 0 - tick_ping c > of_int (uint (keepAliveInterval (condata c)) - 20) then
           bindR (keepalive (me_ping_sem e) (me_now e 1) c (ms_net st)) (\<lambda>(ret, c1, net1, _).
             if ret \<noteq> MQTT_SUCCESS then Inr (False, st\<lparr>ms_client := c1, ms_net := net1\<rparr>)
             else Inr (True, st\<lparr>ms_client := c1\<lparr>tick_ping := me_now e 2\<rparr>, ms_net := net1\<rparr>))
         else Inr (True, st))"

definition main_publish :: "IBOX_CONFIG \<Rightarrow> main_env \<Rightarrow> main_st \<Rightarrow> (main_pc \<times> main_st) option c_result" where
  "main_publish cfg e st =
     (if me_now e 3 - ms_publish_time st > of_nat (unat (period cfg) * 60) then
        bindR (MQTT_msg_publish (me_publish e) (me_now e 4) (me_msg e) st) (\<lambda>x. case x of
          None \<Rightarrow> Inr None
        | Some (ret, st1) \<Rightarrow>
            if ret \<noteq> MQTT_SUCCESS then Inr (Some (Mqtt_disconnect, st1))
            else Inr (Some (Mqtt_loop, st1\<lparr>ms_publish_time := me_now e 5\<rparr>)))
      else Inr (Some (Mqtt_loop, st)))"

definition main_loop :: "IBOX_CONFIG \<Rightarrow> main_env \<Rightarrow> main_st \<Rightarrow> (main_pc \<times> main_st) option c_result" where
  "main_loop cfg e st =
     bindR (main_ping e st) (\<lambda>(ok, st1).
       if \<not> ok then Inr (Some (Mqtt_disconnect, st1))
       else bindR (MQTT_cycle (tmem (ms_sub_temp st1)) (me_fifo_sem e) (me_mutex e) (me_ack_sem e) (me_stack e)
                     (ms_client st1) (ms_net st1)) (\<lambda>(ret, c, net, _, calls).
            bindR (run_callbacks (me_json e) calls c) (\<lambda>(c', es).
         let st2 = st1\<lparr>ms_client := c', ms_net := net, ms_effects := ms_effects st1 @ es\<rparr>
         in if ret < 0 then Inr (Some (Mqtt_disconnect, st2)) else main_publish cfg e st2)))"

definition main_step :: "IBOX_CONFIG \<Rightarrow> main_env \<Rightarrow> main_pc \<times> main_st \<Rightarrow> (main_pc \<times> main_st) option c_result" where
  "main_step cfg e s = (case s of
       (Mqtt_start, st) \<Rightarrow> main_start cfg e st
     | (Mqtt_loop, st) \<Rightarrow> main_loop cfg e st
     | (Mqtt_disconnect, st) \<Rightarrow>
         bindR (MQTTDisconnect (me_disc_sem e) (ms_client st) (ms_net st)) (\<lambda>(_, c, net).
           Inr (Some (Mqtt_restart, st\<lparr>ms_client := c, ms_net := net\<rparr>)))
     | (Mqtt_restart, st) \<Rightarrow> Inr (Some (Mqtt_start, st)))"

text \<open>The states the thread can be in; between two steps other threads may change the network.\<close>

inductive reachable :: "IBOX_CONFIG \<Rightarrow> main_pc \<times> main_st \<Rightarrow> main_pc \<times> main_st \<Rightarrow> bool" for cfg s0 where
  refl: "reachable cfg s0 s0"
| step: "reachable cfg s0 (pc, st) \<Longrightarrow> main_step cfg e (pc, st) = Inr (Some s') \<Longrightarrow> reachable cfg s0 s'"
| env: "reachable cfg s0 (pc, st) \<Longrightarrow> reachable cfg s0 (pc, st\<lparr>ms_net := net\<rparr>)"

section \<open>Reconnecting\<close>

lemma post_then_ok:
  "post (opt (\<lambda>(ret, st). if ret \<noteq> MQTT_SUCCESS then P (ret, st) else post (opt P) (f st))) m \<Longrightarrow>
     post (opt P) (then_ok m f)"
  unfolding then_ok_def by (cases m) (auto split: option.splits)

lemma post_D: "post P m \<Longrightarrow> m = Inr x \<Longrightarrow> P x"
  by (simp add: post_def)

text \<open>A blocking client call inside a step, seen through the postcondition of the call.\<close>

lemma post_call:
  assumes "post (opt P) m" and "\<And>x. P x \<Longrightarrow> post (opt Q) (g x)"
  shows "post (opt Q) (bindR m (\<lambda>x. case x of None \<Rightarrow> Inr None | Some y \<Rightarrow> g y))"
proof (cases m)
  case (Inr x)
  with assms show ?thesis by (cases x) simp_all
qed simp

lemma post_nested: "(\<And>x. post Q (f x)) \<Longrightarrow> post (\<lambda>x. post Q (f x)) m"
  by (simp add: post_def)

lemma post_True [simp]: "post (\<lambda>x. True) m"
  by (simp add: post_def)

definition offline_at_start :: "main_pc \<times> main_st \<Rightarrow> bool" where
  "offline_at_start s \<longleftrightarrow> fst s \<in> {Mqtt_start, Mqtt_restart} \<longrightarrow> isconnected (ms_client (snd s)) = 0"

lemma main_start_offline:
  assumes "isconnected (ms_client st) = 0"
  shows "post (opt offline_at_start) (main_start cfg e st)"
proof -
  let ?m = "await (MQTTConnect (ce_tx_sem (me_connect e)) (ce_now (me_connect e)) (ce_polls (me_connect e))
    (ms_client st) (ms_net st)) (\<lambda>(ret, c, net). Inr (ret, st\<lparr>ms_client := c, ms_net := net\<rparr>))"
  have "post (opt (\<lambda>(ret, st1). ret \<noteq> 0 \<longrightarrow> isconnected (ms_client st1) = 0)) ?m"
    unfolding post_await
    by (rule post_mono [OF connect_post [OF assms]]) (auto elim!: opt_mono)
  then show ?thesis
    unfolding main_start_def
    by (rule post_call) (auto simp: offline_at_start_def intro!: post_nested split: option.split)
qed

lemma main_publish_offline: "post (opt offline_at_start) (main_publish cfg e st)"
  by (auto simp: main_publish_def offline_at_start_def intro!: post_nested split: option.split)

lemma main_loop_offline: "post (opt offline_at_start) (main_loop cfg e st)"
  by (auto simp: main_loop_def Let_def main_publish_offline offline_at_start_def [of "(Mqtt_disconnect, x)" for x]
      intro!: post_nested)

lemma disconnect_offline: "post (\<lambda>(rc, c', net'). isconnected c' = 0) (MQTTDisconnect sem c net)"
  by (auto simp: MQTTDisconnect_def post_def bindR_eq_Inr split: if_splits)

lemma main_step_offline:
  assumes "offline_at_start s" and "main_step cfg e s = Inr (Some s')"
  shows "offline_at_start s'"
proof -
  obtain pc st where s: "s = (pc, st)" by (cases s)
  have "post (opt offline_at_start) (main_step cfg e s)"
  proof (cases pc)
    case Mqtt_start
    with assms(1) s have "isconnected (ms_client st) = 0" by (simp add: offline_at_start_def)
    with Mqtt_start s show ?thesis by (simp add: main_step_def main_start_offline)
  next
    case Mqtt_loop
    with s show ?thesis by (simp add: main_step_def main_loop_offline)
  next
    case Mqtt_disconnect
    with s show ?thesis
      by (auto simp: main_step_def offline_at_start_def intro!: post_mono [OF disconnect_offline])
  next
    case Mqtt_restart
    with assms(1) s show ?thesis by (simp add: main_step_def offline_at_start_def)
  qed
  with assms(2) show ?thesis by simp
qed

text \<open>
  the application thread always tries to connect from a disconnected client.  In every state
  it reaches, whatever the system and the broker do, the client is not connected when the thread
  is at the start or waits for the restart: \<open>MQTTConnect\<close> is never refused because of a
  stale connection.
\<close>

theorem restart_is_disconnected:
  assumes "isconnected (ms_client st0) = 0" and "reachable cfg (Mqtt_start, st0) (pc, st)"
    and "pc = Mqtt_start \<or> pc = Mqtt_restart"
  shows "isconnected (ms_client st) = 0"
proof -
  have "offline_at_start (pc, st)"
    using assms(2)
  proof (induction "(pc, st)" arbitrary: pc st rule: reachable.induct)
    case refl
    then show ?case using assms(1) by (simp add: offline_at_start_def)
  next
    case (step pc' st' e)
    then show ?case using main_step_offline by blast
  next
    case (env pc' st' net)
    then show ?case by (simp add: offline_at_start_def)
  qed
  with assms(3) show ?thesis by (auto simp: offline_at_start_def)
qed

definition demo_main :: main_st where
  "demo_main = \<lparr>ms_client = \<lparr>condata = demo_options, next_packetid = 0, command_timeout_ms = 0, buf_size = 1024,
     readbuf_size = 1024, buf = replicate 1024 0, readbuf = replicate 1024 0, mc_keepAliveInterval = 0,
     ping_outstanding = 0, isconnected = 0, mc_cleansession = 0, tick_ping = 0,
     messageHandlers = replicate 5 (None, None), defaultMessageHandler = Some Mqtt_sub_default_callback\<rparr>,
     ms_net = demo_network 0 [], ms_sub_temp = [], ms_publish_time = 0, ms_effects = []\<rparr>"

theorem restart_is_disconnected_witness: "isconnected (ms_client demo_main) = 0"
  by (rule restart_is_disconnected [OF _ reachable.refl]) (simp_all add: demo_main_def)

section \<open>The subscription through the local array\<close>

lemma subscribe_effect:
  "post (opt (\<lambda>(rc, c', net'). rc = MQTT_SUCCESS \<longrightarrow> messageHandlers c' = messageHandlers c \<or>
     messageHandlers c' = messageHandlers (snd (MQTTSetMessageHandler mem c p h))))
   (MQTTSubscribe mem tx_sem now polls c p q h net)"
  unfolding MQTTSubscribe_def MQTTSubscribeWithResults_def
  by (auto simp: Let_def split_beta close_on_failure_def getNextPacketId_def MQTTSetMessageHandler_def
      split: option.splits intro!: post_intros)

definition ptrs :: "client \<Rightarrow> topic_ptr set" where
  "ptrs c = {p. Some p \<in> fst ` set (messageHandlers c)}"

lemma ptrs_set: "ptrs (snd (MQTTSetMessageHandler mem c p (Some h))) \<subseteq> insert p (ptrs c)"
  by (auto simp: ptrs_def set_handler_eq Let_def dest!: set_update_subset_insert [THEN subsetD])

lemma ptrs_cong: "messageHandlers c = messageHandlers d \<Longrightarrow> ptrs c = ptrs d"
  by (simp add: ptrs_def)

lemma do_subscribe_post:
  "post (opt (\<lambda>(ret, st'). ret = MQTT_SUCCESS \<longrightarrow> ptrs (ms_client st') \<subseteq> insert p (ptrs (ms_client st)) \<and>
     ms_sub_temp st' = ms_sub_temp st)) (do_subscribe e p q cb st)"
proof -
  let ?m = "tmem (ms_sub_temp st)" and ?c = "ms_client st"
  have "ptrs c' \<subseteq> insert p (ptrs ?c)"
    if "messageHandlers c' = messageHandlers ?c \<or>
      messageHandlers c' = messageHandlers (snd (MQTTSetMessageHandler ?m ?c p (Some cb)))" for c'
    using that ptrs_set [of ?m ?c p cb] by (metis ptrs_cong subset_insertI)
  then have "post (opt (\<lambda>(rc, c', net'). rc = MQTT_SUCCESS \<longrightarrow> ptrs c' \<subseteq> insert p (ptrs ?c)))
    (MQTTSubscribe ?m (ce_tx_sem e) (ce_now e) (ce_polls e) ?c p q (Some cb) (ms_net st))"
    by (intro post_mono [OF subscribe_effect]) (auto elim!: opt_mono)
  then show ?thesis
    unfolding do_subscribe_def post_await by (rule post_mono) (auto elim!: opt_mono)
qed

lemma post_sub_then:
  assumes "ptrs (ms_client st) \<subseteq> A"
    and "\<And>st1. ptrs (ms_client st1) \<subseteq> insert p A \<Longrightarrow> ms_sub_temp st1 = ms_sub_temp st \<Longrightarrow>
      post (opt (\<lambda>(ret, st'). ret = MQTT_SUCCESS \<longrightarrow> P st')) (f st1)"
  shows "post (opt (\<lambda>(ret, st'). ret = MQTT_SUCCESS \<longrightarrow> P st')) (then_ok (do_subscribe e p q cb st) f)"
proof (rule post_then_ok, rule post_mono [OF do_subscribe_post], erule opt_mono, clarify)
  fix ret :: int and st1 :: main_st
  assume a: "ret = MQTT_SUCCESS \<longrightarrow> ptrs (ms_client st1) \<subseteq> insert p (ptrs (ms_client st)) \<and> ms_sub_temp st1 = ms_sub_temp st"
  show "if ret \<noteq> MQTT_SUCCESS then ret = MQTT_SUCCESS \<longrightarrow> P st1
    else post (opt (\<lambda>(ret, st'). ret = MQTT_SUCCESS \<longrightarrow> P st')) (f st1)"
  proof (cases "ret = MQTT_SUCCESS")
    case True
    with a assms(1) have "ptrs (ms_client st1) \<subseteq> insert p A" "ms_sub_temp st1 = ms_sub_temp st" by auto
    from assms(2) [OF this] True show ?thesis by simp
  qed simp
qed

lemma subscribe_topics_ptrs:
  assumes "ptrs (ms_client st) = {}"
  shows "post (opt (\<lambda>(ret, st'). ret = MQTT_SUCCESS \<longrightarrow>
      ptrs (ms_client st') \<subseteq> {Lit MQTT_DOALLSUBTOPIC, Sub_temp, Lit MQTT_CIGSUBTOPIC} \<and>
      ms_sub_temp st' = config_topic (device_sn cfg))) (subscribe_topics cfg e1 e2 e3 e4 st)"
proof -
  let ?A = "{Lit MQTT_DOALLSUBTOPIC, Sub_temp, Lit MQTT_CIGSUBTOPIC}"
  have last: "post (opt (\<lambda>(ret, st'). ret = MQTT_SUCCESS \<longrightarrow> ptrs (ms_client st') \<subseteq> ?A \<and>
      ms_sub_temp st' = config_topic (device_sn cfg)))
      (do_subscribe e4 Sub_temp 1 Mqtt_config_callback (st3\<lparr>ms_sub_temp := config_topic (device_sn cfg)\<rparr>))"
    if "ptrs (ms_client st3) \<subseteq> insert (Lit MQTT_CIGSUBTOPIC) (insert Sub_temp {Lit MQTT_DOALLSUBTOPIC})" for st3
    by (rule post_mono [OF do_subscribe_post], erule opt_mono) (use that in auto)
  show ?thesis
    unfolding subscribe_topics_def
    by (rule post_sub_then [of _ "{}"], simp add: assms,
        rule post_sub_then [of _ "{Lit MQTT_DOALLSUBTOPIC}"], simp,
        rule post_sub_then [of _ "insert Sub_temp {Lit MQTT_DOALLSUBTOPIC}"], simp, rule last)
qed

lemma lookup_ptrs:
  "\<forall>p \<in> ptrs c. mem p \<noteq> t \<Longrightarrow> handler_lookup mem c t = None"
  by (auto simp: handler_lookup_def ptrs_def has_filter_def find_Some_iff split: option.splits)
    (metis fst_conv imageI nth_mem)

text \<open>
  the device's own action topic ends up without a handler.  The thread passes the local array
  \<open>sub_temp\<close> as the filter for \<^verbatim>\<open>mqtt/action-<sn>\<close>, and then writes the configuration topic into
  the same array: whenever all four subscriptions return \<open>MQTT_SUCCESS\<close> on a client without
  handlers, no handler is found for the action topic.
\<close>

theorem own_action_topic_unhandled:
  assumes "ptrs (ms_client st) = {}" and "subscribe_topics cfg e1 e2 e3 e4 st = Inr (Some (MQTT_SUCCESS, st'))"
  shows "handler_lookup (tmem (ms_sub_temp st')) (ms_client st') (action_topic (device_sn cfg)) = None"
proof (rule lookup_ptrs, rule ballI)
  fix p
  assume "p \<in> ptrs (ms_client st')"
  moreover have "ptrs (ms_client st') \<subseteq> {Lit MQTT_DOALLSUBTOPIC, Sub_temp, Lit MQTT_CIGSUBTOPIC}"
    "ms_sub_temp st' = config_topic (device_sn cfg)"
    using subscribe_topics_ptrs [OF assms(1), of cfg e1 e2 e3 e4] by (simp_all add: assms(2))
  ultimately show "tmem (ms_sub_temp st') p \<noteq> action_topic (device_sn cfg)"
    by (auto simp: action_topic_def config_topic_def MQTT_DOALLSUBTOPIC_def MQTT_CIGSUBTOPIC_def str_bytes_def)
qed

definition sub_ready :: "nat \<Rightarrow> main_st \<Rightarrow> bool" where
  "sub_ready n st \<longleftrightarrow> client_inv (ms_client st) \<and> network_inv (ms_net st) \<and> isconnected (ms_client st) \<noteq> 0 \<and>
     buf_size (ms_client st) = 1024 \<and> readbuf_size (ms_client st) = 1024 \<and>
     slots_ok (messageHandlers (ms_client st)) \<and> n \<le> free_slots (ms_client st)"

lemma sub_ready_temp [simp]: "sub_ready n (st\<lparr>ms_sub_temp := t\<rparr>) = sub_ready n st"
  by (simp add: sub_ready_def)

definition demo_call :: "net_fifo_t \<Rightarrow> call_env" where
  "demo_call f = \<lparr>ce_tx_sem = True, ce_now = 0, ce_polls = [demo_connect_poll f]\<rparr>"

lemma demo_subscribe:
  assumes "sub_ready (Suc n) st" and "length (tmem (ms_sub_temp st) p) < 100"
    and "net_fifo_inv f" and "net_fifo_elems f = packet (set_type SUBACK 0) (writeInt (uint (1 :: u16)) @ [0]) @ []"
  shows "\<exists>st'. do_subscribe (demo_call f) p q cb st = Inr (Some (MQTT_SUCCESS, st')) \<and> sub_ready n st' \<and>
    ms_sub_temp st' = ms_sub_temp st"
proof -
  let ?c = "ms_client st" and ?m = "tmem (ms_sub_temp st)"
  have r: "client_inv ?c" "network_inv (ms_net st)" "isconnected ?c \<noteq> 0" "slots_ok (messageHandlers ?c)"
    "buf_size ?c = 1024" "readbuf_size ?c = 1024" "Suc n \<le> free_slots ?c"
    using assms(1) by (simp_all add: sub_ready_def)
  let ?s = "MQTTSetMessageHandler ?m ?c p (Some cb)"
  have s: "fst ?s = MQTT_SUCCESS" "slots_ok (messageHandlers (snd ?s))" "n \<le> free_slots (snd ?s)"
    using handlers.set_ok [OF r(4), of ?m p cb] set_handler_wf [OF r(4), of ?m p "Some cb"]
      handlers.set_free [OF r(4), of ?m p cb] r(7) by auto
  have "MQTTPacket_len (5 + int (length (?m p))) \<le> int (buf_size ?c)"
    using assms(2) r(5) by (simp add: MQTTPacket_len_def Let_def)
  from subscribe_handshake_run [where mem = ?m and p = p and pl = "demo_connect_poll f" and h = cb and now = 0 and
      ps = "[]" and qos = q, OF r(1-3) _ this assms(3,4)] assms(2) r s(1)
  obtain c' net' where "MQTTSubscribe ?m True 0 [demo_connect_poll f] ?c p q (Some cb) (ms_net st) =
        Inr (Some (MQTT_SUCCESS, c', net'))" "client_inv c'" "network_inv net'" "isconnected c' = isconnected ?c"
      "buf_size c' = 1024" "readbuf_size c' = 1024" "messageHandlers c' = messageHandlers (snd ?s)"
    by (auto simp: demo_connect_poll_def)
  then show ?thesis
    using s r by (auto simp: do_subscribe_def demo_call_def await_def sub_ready_def free_slots_def)
qed

definition demo_main_online :: main_st where
  "demo_main_online = demo_main\<lparr>ms_client := (ms_client demo_main)\<lparr>isconnected := 1\<rparr>\<rparr>"

definition demo_config :: IBOX_CONFIG where
  "demo_config = ibox_config\<lparr>device_sn := 7, period := 1\<rparr>"

lemma demo_main_online_ready: "sub_ready 4 demo_main_online" "ptrs (ms_client demo_main_online) = {}"
proof -
  have "network_inv (demo_network 0 [])" by (rule demo_network_inv) simp_all
  then show "sub_ready 4 demo_main_online"
    by (simp add: sub_ready_def demo_main_online_def demo_main_def client_inv_def net_sizes MAX_MESSAGE_HANDLERS_def
        slots_ok_def free_slots_def)
  show "ptrs (ms_client demo_main_online) = {}"
    by (auto simp: ptrs_def demo_main_online_def demo_main_def)
qed

lemma dec_length_7: "fmt_010d 7 = replicate 9 48 @ [55]"
  by (simp add: fmt_010d_def dec_pad_def dec.simps [of 7] Let_def)

lemma demo_topics_ok:
  "\<exists>f st'. subscribe_topics demo_config (demo_call f) (demo_call f) (demo_call f) (demo_call f) demo_main_online =
     Inr (Some (MQTT_SUCCESS, st'))"
proof -
  obtain f where f: "net_fifo_inv f" "net_fifo_elems f = packet (set_type SUBACK 0) (writeInt (uint (1 :: u16)) @ [0]) @ []"
    using demo_suback_fifo by blast
  have lens: "length MQTT_DOALLSUBTOPIC < 100" "length MQTT_CIGSUBTOPIC < 100" "length (action_topic 7) < 100"
    "length (config_topic 7) < 100"
    by (simp_all add: MQTT_DOALLSUBTOPIC_def MQTT_CIGSUBTOPIC_def action_topic_def config_topic_def str_bytes_def dec_length_7)
  note sub = demo_subscribe [OF _ _ f]
  have "sub_ready (Suc 3) demo_main_online" using demo_main_online_ready(1) by simp
  then obtain s1 where s1: "do_subscribe (demo_call f) (Lit MQTT_DOALLSUBTOPIC) 0 Mqtt_action_callback demo_main_online =
      Inr (Some (MQTT_SUCCESS, s1))" "sub_ready (Suc 2) s1"
    using sub [of 3 demo_main_online "Lit MQTT_DOALLSUBTOPIC"] lens by (auto simp: eval_nat_numeral)
  obtain s2 where s2: "do_subscribe (demo_call f) Sub_temp 2 Mqtt_action_callback (s1\<lparr>ms_sub_temp := action_topic 7\<rparr>) =
      Inr (Some (MQTT_SUCCESS, s2))" "sub_ready (Suc 1) s2"
    using sub [of 2 "s1\<lparr>ms_sub_temp := action_topic 7\<rparr>" Sub_temp] lens s1(2) by (auto simp: eval_nat_numeral)
  obtain s3 where s3: "do_subscribe (demo_call f) (Lit MQTT_CIGSUBTOPIC) 0 Mqtt_config_callback s2 =
      Inr (Some (MQTT_SUCCESS, s3))" "sub_ready (Suc 0) s3"
    using sub [of 1 s2 "Lit MQTT_CIGSUBTOPIC"] lens s2(2) by auto
  obtain s4 where "do_subscribe (demo_call f) Sub_temp 1 Mqtt_config_callback (s3\<lparr>ms_sub_temp := config_topic 7\<rparr>) =
      Inr (Some (MQTT_SUCCESS, s4))"
    using sub [of 0 "s3\<lparr>ms_sub_temp := config_topic 7\<rparr>" Sub_temp] lens s3(2) by auto
  moreover have "device_sn demo_config = 7" by (simp add: demo_config_def)
  ultimately have "subscribe_topics demo_config (demo_call f) (demo_call f) (demo_call f) (demo_call f) demo_main_online =
      Inr (Some (MQTT_SUCCESS, s4))"
    by (simp add: subscribe_topics_def then_ok_def s1(1) s2(1) s3(1))
  then show ?thesis by blast
qed

theorem own_action_topic_unhandled_witness:
  "\<exists>f st'. subscribe_topics demo_config (demo_call f) (demo_call f) (demo_call f) (demo_call f) demo_main_online =
      Inr (Some (MQTT_SUCCESS, st')) \<and>
    handler_lookup (tmem (ms_sub_temp st')) (ms_client st') (action_topic (device_sn demo_config)) = None"
  using own_action_topic_unhandled [OF demo_main_online_ready(2)] demo_topics_ok by blast

section \<open>The default callback\<close>

text \<open>
  a publication that fills the read buffer makes the default callback write past its end.
  When a PUBLISH packet (QoS 0) is exactly as long as the read buffer, it is accepted, and the
  terminating NUL that \<open>mqtt_sub_default_callback\<close> stores behind the payload is outside the
  buffer; one byte less and it is inside.
\<close>

theorem default_callback_overrun:
  assumes "str_ok t" and "length payload < 1000000"
  shows "\<exists>msg. MQTTDeserialize_publish (packet (publish_header 0 0 0) (publish_body t 0 0 payload (int (length payload)))) ou =
      Inr (1, msg) \<and>
    mqtt_sub_default_callback (packet (publish_header 0 0 0) (publish_body t 0 0 payload (int (length payload)))) msg =
      Inl OutOfBounds \<and>
    (\<exists>msg' rb. MQTTDeserialize_publish (packet (publish_header 0 0 0) (publish_body t 0 0 payload (int (length payload))) @ [x]) ou =
        Inr (1, msg') \<and>
      mqtt_sub_default_callback (packet (publish_header 0 0 0) (publish_body t 0 0 payload (int (length payload))) @ [x]) msg' = Inr rb)"
proof -
  let ?d = "publish_body t 0 0 payload (int (length payload))"
  have "length ?d < 268435456" using assms by (simp add: publish_body_def str_ok_def)
  note parse = publish_parse [OF assms(1) _ _ _ _ _ _ this, of 0 0]
  have l: "length payload \<le> length (packet (publish_header 0 0 0) ?d)" by (simp add: packet_def publish_body_def)
  show ?thesis
    using parse [of "[]" ou] parse [of "[x]" ou] l by (auto simp: mqtt_sub_default_callback_def Let_def)
qed

theorem default_callback_overrun_witness:
  "\<exists>msg. MQTTDeserialize_publish (packet (publish_header 0 0 0) (publish_body demo_topic 0 0 [1] (int (length [1 :: u8])))) demo_publish_out =
      Inr (1, msg) \<and>
    mqtt_sub_default_callback (packet (publish_header 0 0 0) (publish_body demo_topic 0 0 [1] (int (length [1 :: u8])))) msg =
      Inl OutOfBounds \<and>
    (\<exists>msg' rb. MQTTDeserialize_publish (packet (publish_header 0 0 0) (publish_body demo_topic 0 0 [1] (int (length [1 :: u8]))) @ [0]) demo_publish_out =
        Inr (1, msg') \<and>
      mqtt_sub_default_callback (packet (publish_header 0 0 0) (publish_body demo_topic 0 0 [1] (int (length [1 :: u8]))) @ [0]) msg' = Inr rb)"
  by (rule default_callback_overrun [OF demo_topic_ok(1)]) simp

end
