(* ===== verification/Dhcp.thy ===== *)
theory Dhcp
  imports Board
begin

text \<open>
  The DHCP client \<open>Middlewares/Eth/dhcp.c\<close>: the messages it builds, the parser of the server's options
  and the state machine \<open>DHCP_run\<close>.  Calls of the socket library and writes of chip registers are
  the actions of a run; what the chip and the timer give back are its inputs.  The message buffer is
  the list of its bytes, the layout that of \<open>RIP_MSG\<close>.
\<close>

section \<open>Constants and state\<close>

definition OPT_SIZE :: nat where "OPT_SIZE = 312"
definition RIP_MSG_SIZE :: nat where "RIP_MSG_SIZE = 236 + OPT_SIZE"
definition MAX_DHCP_RETRY :: int where "MAX_DHCP_RETRY = 2"
definition DHCP_WAIT_TIME :: u32 where "DHCP_WAIT_TIME = 10"
definition DHCP_SERVER_PORT :: u16 where "DHCP_SERVER_PORT = 67"
definition DHCP_CLIENT_PORT :: u16 where "DHCP_CLIENT_PORT = 68"
definition INFINITE_LEASETIME :: u32 where "INFINITE_LEASETIME = 0xffffffff"

definition DHCP_DISCOVER :: u8 where "DHCP_DISCOVER = 1"
definition DHCP_OFFER :: u8 where "DHCP_OFFER = 2"
definition DHCP_REQUEST :: u8 where "DHCP_REQUEST = 3"
definition DHCP_DECLINE :: u8 where "DHCP_DECLINE = 4"
definition DHCP_ACK :: u8 where "DHCP_ACK = 5"
definition DHCP_NAK :: u8 where "DHCP_NAK = 6"

lemmas dhcp_consts = RIP_MSG_SIZE_def OPT_SIZE_def MAX_DHCP_RETRY_def DHCP_WAIT_TIME_def DHCP_SERVER_PORT_def
  DHCP_CLIENT_PORT_def INFINITE_LEASETIME_def DHCP_DISCOVER_def DHCP_OFFER_def DHCP_REQUEST_def DHCP_DECLINE_def
  DHCP_ACK_def DHCP_NAK_def

datatype DHCP_STATE = STATE_DHCP_INIT | STATE_DHCP_DISCOVER | STATE_DHCP_REQUEST | STATE_DHCP_LEASED
  | STATE_DHCP_REREQUEST | STATE_DHCP_RELEASE | STATE_DHCP_STOP

datatype DHCP_RET = DHCP_FAILED | DHCP_RUNNING | DHCP_IP_ASSIGN | DHCP_IP_CHANGED | DHCP_IP_LEASED | DHCP_STOPPED

record dhcp =
  DHCP_SIP :: bytes
  OLD_allocated_ip :: bytes
  DHCP_allocated_ip :: bytes
  DHCP_allocated_gw :: bytes
  DHCP_allocated_sn :: bytes
  DHCP_allocated_dns :: bytes
  dhcp_state :: DHCP_STATE
  dhcp_retry_count :: int
  dhcp_lease_time :: u32
  dhcp_tick_1s :: u32
  dhcp_tick_next :: u32
  DHCP_XID :: u32
  pDHCPMSG :: bytes
  DHCP_CHADDR :: bytes

text \<open>
  What the client does to the chip.  \<open>Udp_sendto\<close> has the payload, the destination and the port.
\<close>

datatype eth_action = Set_SIPR bytes | Set_SUBR bytes | Set_GAR bytes | Set_SHAR bytes | Set_RTR u16 | Set_RCR u8
  | Reset_chip | Open_udp u16 | Udp_sendto bytes bytes u16 | Close_udp

text \<open>
  What one call of \<open>DHCP_run\<close> finds: whether the socket is open, the size of the received data, the
  bytes that \<open>recvfrom\<close> stores, the value it returns and the port it stores, the
  value of the uninitialised result of the parser, whether the conflict probe times out, and the
  value of the retry register.
\<close>

record dhcp_in =
  in_sr_udp :: bool
  in_rsr :: u16
  in_data :: bytes
  in_len :: u16
  in_port :: u16
  in_stale :: u8
  in_probe_timeout :: bool
  in_rcr :: u8

section \<open>Callbacks\<close>

text \<open>A callback reads the client's variables and changes the application's state of type \<open>'e\<close>.\<close>

type_synonym 'e dhcp_cb = "dhcp \<Rightarrow> 'e \<Rightarrow> 'e \<times> eth_action list"

record 'e dhcp_cbs =
  dhcp_ip_assign :: "dhcp \<Rightarrow> 'e \<Rightarrow> 'e \<times> eth_action list"
  dhcp_ip_update :: "dhcp \<Rightarrow> 'e \<Rightarrow> 'e \<times> eth_action list"
  dhcp_ip_conflict :: "dhcp \<Rightarrow> 'e \<Rightarrow> 'e \<times> eth_action list"

definition default_ip_assign :: "'e dhcp_cb" where
  "default_ip_assign s e =
     (e, [Set_SIPR (DHCP_allocated_ip s), Set_SUBR (DHCP_allocated_sn s), Set_GAR (DHCP_allocated_gw s)])"

definition default_ip_update :: "'e dhcp_cb" where
  "default_ip_update s e =
     (let (e', as) = default_ip_assign s e in (e', Reset_chip # as @ [Set_SHAR (DHCP_CHADDR s)]))"

definition default_ip_conflict :: "'e dhcp_cb" where
  "default_ip_conflict s e = (e, [Reset_chip, Set_SHAR (DHCP_CHADDR s)])"

definition reg_dhcp_cbfunc :: "'e dhcp_cb option \<Rightarrow> 'e dhcp_cb option \<Rightarrow> 'e dhcp_cb option \<Rightarrow> 'e dhcp_cbs" where
  "reg_dhcp_cbfunc ip_assign ip_update ip_conflict =
     \<lparr>dhcp_ip_assign = (case ip_assign of None \<Rightarrow> default_ip_assign | Some f \<Rightarrow> f),
      dhcp_ip_update = (case ip_update of None \<Rightarrow> default_ip_update | Some f \<Rightarrow> f),
      dhcp_ip_conflict = (case ip_conflict of None \<Rightarrow> default_ip_conflict | Some f \<Rightarrow> f)\<rparr>"

section \<open>Messages\<close>

text \<open>
  The macro \<open>DEVICE_NAME\<close> turns its argument into a string without expanding it: the host name is the
  text of the C expression.
\<close>

definition HOST_NAME :: bytes where
  "HOST_NAME = str_bytes ''iBoxClient-ibox_config.device_sn''"

definition u32_be :: "u32 \<Rightarrow> bytes" where
  "u32_be w = [ucast (drop_bit 24 w), ucast (drop_bit 16 w), ucast (drop_bit 8 w), ucast w]"

definition put_at :: "nat \<Rightarrow> bytes \<Rightarrow> bytes \<Rightarrow> bytes" where
  "put_at i b m = take i m @ b @ drop (i + length b) m"

definition makeDHCPMSG :: "dhcp \<Rightarrow> bytes" where
  "makeDHCPMSG s =
     [1, 1, 6, 0] @ u32_be (DHCP_XID s) @ [0, 0] @ [0x80, 0] @ replicate 4 0 @ replicate 4 0 @ replicate 4 0 @ replicate 4 0
       @ DHCP_CHADDR s @ replicate 10 0 @ replicate 64 0 @ replicate 128 0 @ [0x63, 0x82, 0x53, 0x63]"

definition type_and_client :: "u8 \<Rightarrow> dhcp \<Rightarrow> bytes" where
  "type_and_client t s = [53, 1, t] @ [61, 7, 1] @ DHCP_CHADDR s"

definition host_option :: bytes where
  "host_option = [12, of_nat (length HOST_NAME)] @ HOST_NAME"

definition requested_and_server :: "dhcp \<Rightarrow> bytes" where
  "requested_and_server s = [50, 4] @ DHCP_allocated_ip s @ [54, 4] @ DHCP_SIP s"

definition fill_opt :: "bytes \<Rightarrow> bytes" where
  "fill_opt m = m @ replicate (RIP_MSG_SIZE - length m) 0"

definition broadcast :: bytes where "broadcast = [255, 255, 255, 255]"

definition dhcp_sendto :: "bytes \<Rightarrow> bytes \<Rightarrow> dhcp \<Rightarrow> dhcp \<times> eth_action list" where
  "dhcp_sendto m ip s = (s\<lparr>pDHCPMSG := m\<rparr>, [Udp_sendto m ip DHCP_SERVER_PORT])"

definition send_DHCP_DISCOVER :: "dhcp \<Rightarrow> dhcp \<times> eth_action list" where
  "send_DHCP_DISCOVER s =
     dhcp_sendto (fill_opt (makeDHCPMSG s @ type_and_client DHCP_DISCOVER s @ host_option
       @ [55, 6, 1, 3, 6, 15, 58, 59] @ [255])) broadcast s"

definition send_DHCP_REQUEST :: "dhcp \<Rightarrow> dhcp \<times> eth_action list" where
  "send_DHCP_REQUEST s =
     (let unicast = dhcp_state s \<in> {STATE_DHCP_LEASED, STATE_DHCP_REREQUEST};
          m = (if unicast then put_at 12 (DHCP_allocated_ip s) (put_at 10 [0, 0] (makeDHCPMSG s)) else makeDHCPMSG s);
          ip = (if unicast then DHCP_SIP s else broadcast)
      in dhcp_sendto (fill_opt (m @ type_and_client DHCP_REQUEST s
           @ (if ip ! 3 = 255 then requested_and_server s else []) @ host_option
           @ [55, 8, 1, 3, 6, 15, 58, 59, 31, 33] @ [255])) ip s)"

definition send_DHCP_DECLINE :: "dhcp \<Rightarrow> dhcp \<times> eth_action list" where
  "send_DHCP_DECLINE s =
     dhcp_sendto (fill_opt (put_at 10 [0, 0] (makeDHCPMSG s) @ type_and_client DHCP_DECLINE s
       @ requested_and_server s @ [255])) broadcast s"

section \<open>Replies\<close>

definition read_bytes :: "bytes \<Rightarrow> nat \<Rightarrow> nat \<Rightarrow> bytes c_result" where
  "read_bytes m p n = (if p + n \<le> length m then Inr (take n (drop p m)) else Inl OutOfBounds)"

definition be_u32 :: "bytes \<Rightarrow> u32" where
  "be_u32 b = foldl (\<lambda>w x. push_bit 8 w + ucast x) 0 b"

text \<open>
  The loop over the options, from index \<open>p\<close> to the end \<open>e\<close> of the received data.  The option's own
  length is used only where the code uses it.
\<close>

function dhcp_options :: "bytes \<Rightarrow> nat \<Rightarrow> nat \<Rightarrow> u8 \<Rightarrow> dhcp \<Rightarrow> (u8 \<times> dhcp) c_result" where
  "dhcp_options m e p type s =
     (if p < e then
        bindR (buf_at m p) (\<lambda>code.
          if code = 255 then Inr (type, s)
          else if code = 0 then dhcp_options m e (p + 1) type s
          else if code = 53 then bindR (buf_at m (p + 2)) (\<lambda>t. dhcp_options m e (p + 3) t s)
          else if code = 1 then
            bindR (read_bytes m (p + 2) 4) (\<lambda>b. dhcp_options m e (p + 6) type (s\<lparr>DHCP_allocated_sn := b\<rparr>))
          else if code = 3 then
            bindR (buf_at m (p + 1)) (\<lambda>l. bindR (read_bytes m (p + 2) 4) (\<lambda>b.
              dhcp_options m e (p + 2 + unat l) type (s\<lparr>DHCP_allocated_gw := b\<rparr>)))
          else if code = 6 then
            bindR (buf_at m (p + 1)) (\<lambda>l. bindR (read_bytes m (p + 2) 4) (\<lambda>b.
              dhcp_options m e (p + 2 + unat l) type (s\<lparr>DHCP_allocated_dns := b\<rparr>)))
          else if code = 51 then
            bindR (read_bytes m (p + 2) 4) (\<lambda>b. dhcp_options m e (p + 6) type (s\<lparr>dhcp_lease_time := be_u32 b\<rparr>))
          else if code = 54 then
            bindR (read_bytes m (p + 2) 4) (\<lambda>b. dhcp_options m e (p + 6) type (s\<lparr>DHCP_SIP := b\<rparr>))
          else bindR (buf_at m (p + 1)) (\<lambda>l. dhcp_options m e (p + 2 + unat l) type s))
      else Inr (type, s))"
  by pat_completeness auto
termination
  by (relation "measure (\<lambda>(m, e, p, type, s). e - p)") auto

declare dhcp_options.simps [simp del]

definition parseDHCPMSG :: "dhcp_in \<Rightarrow> dhcp \<Rightarrow> (u8 \<times> dhcp) c_result" where
  "parseDHCPMSG i s =
     (if in_rsr i > 0 then
        (let d = in_data i; m = d @ drop (length d) (pDHCPMSG s); s1 = s\<lparr>pDHCPMSG := m\<rparr>
         in if length d \<le> length (pDHCPMSG s) then
              (if in_port i = DHCP_SERVER_PORT then
                 (if take 6 (drop 28 m) \<noteq> DHCP_CHADDR s then Inr (0, s1)
                  else dhcp_options m (unat (in_len i)) 240 0 s1)
               else Inr (in_stale i, s1))
            else Inl OutOfBounds)
      else Inr (0, s))"

section \<open>Time-outs\<close>

definition reset_DHCP_timeout :: "dhcp \<Rightarrow> dhcp" where
  "reset_DHCP_timeout s = s\<lparr>dhcp_tick_1s := 0, dhcp_tick_next := DHCP_WAIT_TIME, dhcp_retry_count := 0\<rparr>"

definition DHCP_time_handler :: "dhcp \<Rightarrow> dhcp" where
  "DHCP_time_handler s = s\<lparr>dhcp_tick_1s := dhcp_tick_1s s + 1\<rparr>"

definition check_DHCP_timeout :: "dhcp \<Rightarrow> DHCP_RET \<times> dhcp \<times> eth_action list" where
  "check_DHCP_timeout s =
     (if dhcp_retry_count s < MAX_DHCP_RETRY then
        (if dhcp_tick_next s < dhcp_tick_1s s then
           (let (s1, as) =
              (case dhcp_state s of
                 STATE_DHCP_DISCOVER \<Rightarrow> send_DHCP_DISCOVER s
               | STATE_DHCP_REQUEST \<Rightarrow> send_DHCP_REQUEST s
               | STATE_DHCP_REREQUEST \<Rightarrow> send_DHCP_REQUEST s
               | _ \<Rightarrow> (s, []))
            in (DHCP_RUNNING, s1\<lparr>dhcp_tick_1s := 0, dhcp_tick_next := 0 + DHCP_WAIT_TIME,
                                  dhcp_retry_count := dhcp_retry_count s1 + 1\<rparr>, as))
         else (DHCP_RUNNING, s, []))
      else
        (case dhcp_state s of
           STATE_DHCP_DISCOVER \<Rightarrow> (DHCP_FAILED, reset_DHCP_timeout (s\<lparr>dhcp_state := STATE_DHCP_INIT\<rparr>), [])
         | STATE_DHCP_REQUEST \<Rightarrow>
             (let (s1, as) = send_DHCP_DISCOVER s
              in (DHCP_RUNNING, reset_DHCP_timeout (s1\<lparr>dhcp_state := STATE_DHCP_DISCOVER\<rparr>), as))
         | STATE_DHCP_REREQUEST \<Rightarrow>
             (let (s1, as) = send_DHCP_DISCOVER s
              in (DHCP_RUNNING, reset_DHCP_timeout (s1\<lparr>dhcp_state := STATE_DHCP_DISCOVER\<rparr>), as))
         | _ \<Rightarrow> (DHCP_RUNNING, reset_DHCP_timeout s, [])))"

text \<open>
  The wait after a conflict: the loop is left by the timer only, so each turn is a call of the
  timer handler.
\<close>

function wait_decline :: "u32 \<Rightarrow> dhcp \<Rightarrow> dhcp" where
  "wait_decline ret s = (if dhcp_tick_1s s - ret < 2 then wait_decline ret (DHCP_time_handler s) else s)"
  by pat_completeness auto
termination
proof (relation "measure (\<lambda>(ret, s). 2 - unat (dhcp_tick_1s s - ret))")
  fix ret and s :: dhcp
  assume a: "dhcp_tick_1s s - ret < 2"
  then have "unat (dhcp_tick_1s s - ret) < 2" by (simp add: word_less_nat_alt)
  moreover have "unat (dhcp_tick_1s s - ret + 1) = unat (dhcp_tick_1s s - ret) + 1"
    using calculation by (simp add: unat_word_ariths)
  ultimately show "((ret, DHCP_time_handler s), ret, s) \<in> measure (\<lambda>(ret, s). 2 - unat (dhcp_tick_1s s - ret))"
    by (simp add: DHCP_time_handler_def algebra_simps)
qed simp

declare wait_decline.simps [simp del]

definition check_DHCP_leasedIP :: "dhcp_in \<Rightarrow> dhcp \<Rightarrow> bool \<times> dhcp \<times> eth_action list" where
  "check_DHCP_leasedIP i s =
     (let probe = [Set_RCR 3, Udp_sendto (str_bytes ''CHECK_IP_CONFLICT'') (DHCP_allocated_ip s) 5000, Set_RCR (in_rcr i)]
      in if in_probe_timeout i then (True, s, probe)
         else (let (s1, as) = send_DHCP_DECLINE s
               in (False, wait_decline (dhcp_tick_1s s1) s1, probe @ as)))"

section \<open>The state machine\<close>

definition dhcp_request_state :: "'e dhcp_cbs \<Rightarrow> dhcp_in \<Rightarrow> u8 \<Rightarrow> dhcp \<Rightarrow> 'e \<Rightarrow> DHCP_RET \<times> dhcp \<times> 'e \<times> eth_action list" where
  "dhcp_request_state cbs i type s e =
     (if type = DHCP_ACK then
        (let (ok, s1, as) = check_DHCP_leasedIP i s
         in if ok then
              (let (e', bs) = dhcp_ip_assign cbs s1 e
               in (DHCP_RUNNING, (reset_DHCP_timeout s1)\<lparr>dhcp_state := STATE_DHCP_LEASED\<rparr>, e', as @ bs))
            else
              (let s2 = reset_DHCP_timeout s1; (e', bs) = dhcp_ip_conflict cbs s2 e
               in (DHCP_RUNNING, s2\<lparr>dhcp_state := STATE_DHCP_INIT\<rparr>, e', as @ bs)))
      else if type = DHCP_NAK then (DHCP_RUNNING, (reset_DHCP_timeout s)\<lparr>dhcp_state := STATE_DHCP_DISCOVER\<rparr>, e, [])
      else (let (ret, s1, as) = check_DHCP_timeout s in (ret, s1, e, as)))"

definition dhcp_rerequest_state :: "'e dhcp_cbs \<Rightarrow> u8 \<Rightarrow> dhcp \<Rightarrow> 'e \<Rightarrow> DHCP_RET \<times> dhcp \<times> 'e \<times> eth_action list" where
  "dhcp_rerequest_state cbs type s e =
     (if type = DHCP_ACK then
        (let s1 = s\<lparr>dhcp_retry_count := 0\<rparr>;
             (ret, e', as) = (if OLD_allocated_ip s1 \<noteq> DHCP_allocated_ip s1
                              then (let (e', as) = dhcp_ip_update cbs s1 e in (DHCP_IP_CHANGED, e', as))
                              else (DHCP_IP_LEASED, e, []))
         in (ret, (reset_DHCP_timeout s1)\<lparr>dhcp_state := STATE_DHCP_LEASED\<rparr>, e', as))
      else if type = DHCP_NAK then (DHCP_IP_LEASED, (reset_DHCP_timeout s)\<lparr>dhcp_state := STATE_DHCP_DISCOVER\<rparr>, e, [])
      else (let (ret, s1, as) = check_DHCP_timeout s in (ret, s1, e, as)))"

definition dhcp_switch :: "'e dhcp_cbs \<Rightarrow> dhcp_in \<Rightarrow> u8 \<Rightarrow> dhcp \<Rightarrow> 'e \<Rightarrow> DHCP_RET \<times> dhcp \<times> 'e \<times> eth_action list" where
  "dhcp_switch cbs i type s e =
     (case dhcp_state s of
        STATE_DHCP_INIT \<Rightarrow>
          (let (s1, as) = send_DHCP_DISCOVER (s\<lparr>DHCP_allocated_ip := [0, 0, 0, 0]\<rparr>)
           in (DHCP_RUNNING, s1\<lparr>dhcp_state := STATE_DHCP_DISCOVER\<rparr>, e, as))
      | STATE_DHCP_DISCOVER \<Rightarrow>
          (if type = DHCP_OFFER then
             (let (s1, as) = send_DHCP_REQUEST (s\<lparr>DHCP_allocated_ip := take 4 (drop 16 (pDHCPMSG s))\<rparr>)
              in (DHCP_RUNNING, s1\<lparr>dhcp_state := STATE_DHCP_REQUEST\<rparr>, e, as))
           else (let (ret, s1, as) = check_DHCP_timeout s in (ret, s1, e, as)))
      | STATE_DHCP_REQUEST \<Rightarrow> dhcp_request_state cbs i type s e
      | STATE_DHCP_LEASED \<Rightarrow>
          (if dhcp_lease_time s \<noteq> INFINITE_LEASETIME \<and> dhcp_lease_time s div 2 < dhcp_tick_1s s then
             (let s1 = s\<lparr>OLD_allocated_ip := DHCP_allocated_ip s, DHCP_XID := DHCP_XID s + 1\<rparr>;
                  (s2, as) = send_DHCP_REQUEST s1
              in (DHCP_IP_LEASED, (reset_DHCP_timeout s2)\<lparr>dhcp_state := STATE_DHCP_REREQUEST\<rparr>, e, as))
           else (DHCP_IP_LEASED, s, e, []))
      | STATE_DHCP_REREQUEST \<Rightarrow> dhcp_rerequest_state cbs type s e
      | _ \<Rightarrow> (DHCP_RUNNING, s, e, []))"

definition DHCP_run :: "'e dhcp_cbs \<Rightarrow> dhcp_in \<Rightarrow> dhcp \<Rightarrow> 'e \<Rightarrow> (DHCP_RET \<times> dhcp \<times> 'e \<times> eth_action list) c_result" where
  "DHCP_run cbs i s e =
     (if dhcp_state s = STATE_DHCP_STOP then Inr (DHCP_STOPPED, s, e, [])
      else
        (let op = (if in_sr_udp i then [] else [Open_udp DHCP_CLIENT_PORT])
         in bindR (parseDHCPMSG i s) (\<lambda>(type, s1).
              let (ret, s2, e', as) = dhcp_switch cbs i type s1 e
              in Inr (ret, s2, e', op @ as))))"

definition DHCP_stop :: "dhcp \<Rightarrow> dhcp \<times> eth_action list" where
  "DHCP_stop s = (s\<lparr>dhcp_state := STATE_DHCP_STOP\<rparr>, [Close_udp])"

text \<open>\<open>shar\<close> is the hardware address the chip holds, \<open>buf\<close> the buffer of the caller.\<close>

definition DHCP_init :: "bytes \<Rightarrow> bytes \<Rightarrow> dhcp \<Rightarrow> dhcp \<times> eth_action list" where
  "DHCP_init shar buf s =
     (let zero = (foldl (OR) 0 shar = 0);
          mac = (if zero then [0x00, 0x08, 0xdc, 0, 0, 0] else shar)
      in ((reset_DHCP_timeout (s\<lparr>DHCP_CHADDR := mac, pDHCPMSG := buf, DHCP_XID := 1\<rparr>))\<lparr>dhcp_state := STATE_DHCP_INIT\<rparr>,
          (if zero then [Set_SHAR mac] else []) @
          [Set_SIPR [0, 0, 0, 0], Set_SIPR [0, 0, 0, 0], Set_GAR [0, 0, 0, 0]]))"

definition getIPfromDHCP :: "dhcp \<Rightarrow> bytes" where "getIPfromDHCP s = DHCP_allocated_ip s"
definition getGWfromDHCP :: "dhcp \<Rightarrow> bytes" where "getGWfromDHCP s = DHCP_allocated_gw s"
definition getSNfromDHCP :: "dhcp \<Rightarrow> bytes" where "getSNfromDHCP s = DHCP_allocated_sn s"
definition getDNSfromDHCP :: "dhcp \<Rightarrow> bytes" where "getDNSfromDHCP s = DHCP_allocated_dns s"
definition getDHCPLeasetime :: "dhcp \<Rightarrow> u32" where "getDHCPLeasetime s = dhcp_lease_time s"

section \<open>What the parser may change\<close>

definition same_client :: "dhcp \<Rightarrow> dhcp \<Rightarrow> bool" where
  "same_client s s' \<longleftrightarrow>
     OLD_allocated_ip s' = OLD_allocated_ip s \<and> DHCP_allocated_ip s' = DHCP_allocated_ip s \<and> dhcp_state s' = dhcp_state s \<and>
     dhcp_retry_count s' = dhcp_retry_count s \<and> dhcp_tick_1s s' = dhcp_tick_1s s \<and> dhcp_tick_next s' = dhcp_tick_next s \<and>
     DHCP_XID s' = DHCP_XID s \<and> DHCP_CHADDR s' = DHCP_CHADDR s"

definition four_bytes :: "dhcp \<Rightarrow> bool" where
  "four_bytes s \<longleftrightarrow> length (DHCP_SIP s) = 4 \<and> length (DHCP_allocated_gw s) = 4 \<and> length (DHCP_allocated_sn s) = 4 \<and>
     length (DHCP_allocated_dns s) = 4"

lemma same_client_refl [simp]: "same_client s s"
  by (simp add: same_client_def)

lemma same_client_trans: "same_client s t \<Longrightarrow> same_client t u \<Longrightarrow> same_client s u"
  by (simp add: same_client_def)

lemma same_client_upd [simp]:
  "same_client s (t\<lparr>DHCP_allocated_sn := b\<rparr>) = same_client s t" "same_client s (t\<lparr>DHCP_allocated_gw := b\<rparr>) = same_client s t"
  "same_client s (t\<lparr>DHCP_allocated_dns := b\<rparr>) = same_client s t" "same_client s (t\<lparr>DHCP_SIP := b\<rparr>) = same_client s t"
  "same_client s (t\<lparr>dhcp_lease_time := w\<rparr>) = same_client s t" "same_client s (t\<lparr>pDHCPMSG := b\<rparr>) = same_client s t"
  "same_client (s\<lparr>DHCP_allocated_sn := b\<rparr>) t = same_client s t" "same_client (s\<lparr>DHCP_allocated_gw := b\<rparr>) t = same_client s t"
  "same_client (s\<lparr>DHCP_allocated_dns := b\<rparr>) t = same_client s t" "same_client (s\<lparr>DHCP_SIP := b\<rparr>) t = same_client s t"
  "same_client (s\<lparr>dhcp_lease_time := w\<rparr>) t = same_client s t" "same_client (s\<lparr>pDHCPMSG := b\<rparr>) t = same_client s t"
  by (simp_all add: same_client_def)

lemma read_bytes_length: "read_bytes m p n = Inr b \<Longrightarrow> length b = n"
  by (auto simp: read_bytes_def split: if_splits)

lemma dhcp_options_frame:
  "dhcp_options m e p type s = Inr (type', s') \<Longrightarrow>
     same_client s s' \<and> pDHCPMSG s' = pDHCPMSG s \<and> (four_bytes s \<longrightarrow> four_bytes s')"
proof (induction m e p type s rule: dhcp_options.induct)
  case (1 m e p type s)
  note IH = "1.IH"
  show ?case
  proof (cases "p < e \<and> p < length m")
    case False
    then show ?thesis
      using "1.prems" by (auto simp: dhcp_options.simps [of m e p] buf_at_def split: if_splits)
  next
    case True
    then have c: "p < e" "buf_at m p = Inr (m ! p)" by (auto simp: buf_at_def)
    note IH' = IH [OF c(1,2)]
    let ?c = "m ! p"
    consider "?c = 255" | "?c = 0" | "?c = 53" | "?c = 1" | "?c = 3" | "?c = 6" | "?c = 51" | "?c = 54"
      | "?c \<notin> {255, 0, 53, 1, 3, 6, 51, 54}" by auto
    then show ?thesis
    proof cases
      case 1
      then show ?thesis using "1.prems" c by (auto simp: dhcp_options.simps [of m e p])
    next
      case 2
      then show ?thesis using "1.prems" c IH'(1) by (auto simp: dhcp_options.simps [of m e p])
    next
      case 3
      then show ?thesis using "1.prems" c IH'(2) by (auto simp: dhcp_options.simps [of m e p] bindR_eq_Inr)
    next
      case 4
      then show ?thesis
        using "1.prems" c IH'(3) by (auto simp: dhcp_options.simps [of m e p] bindR_eq_Inr four_bytes_def dest: read_bytes_length)
    next
      case 5
      then show ?thesis
        using "1.prems" c IH'(4) by (auto simp: dhcp_options.simps [of m e p] bindR_eq_Inr four_bytes_def dest: read_bytes_length)
    next
      case 6
      then show ?thesis
        using "1.prems" c IH'(5) by (auto simp: dhcp_options.simps [of m e p] bindR_eq_Inr four_bytes_def dest: read_bytes_length)
    next
      case 7
      then show ?thesis
        using "1.prems" c IH'(6) by (auto simp: dhcp_options.simps [of m e p] bindR_eq_Inr four_bytes_def dest: read_bytes_length)
    next
      case 8
      then show ?thesis
        using "1.prems" c IH'(7) by (auto simp: dhcp_options.simps [of m e p] bindR_eq_Inr four_bytes_def dest: read_bytes_length)
    next
      case 9
      then show ?thesis using "1.prems" c IH'(8) by (auto simp: dhcp_options.simps [of m e p] bindR_eq_Inr)
    qed
  qed
qed

lemma parseDHCPMSG_frame:
  assumes "parseDHCPMSG i s = Inr (type, s')"
  shows "same_client s s'" "length (pDHCPMSG s') = length (pDHCPMSG s)" "four_bytes s \<Longrightarrow> four_bytes s'"
  using assms
  by (auto simp: parseDHCPMSG_def Let_def four_bytes_def split: if_splits dest!: dhcp_options_frame)

section \<open>The invariant\<close>

definition dhcp_sizes :: "dhcp \<Rightarrow> bool" where
  "dhcp_sizes s \<longleftrightarrow> four_bytes s \<and> length (OLD_allocated_ip s) = 4 \<and> length (DHCP_allocated_ip s) = 4 \<and>
     length (DHCP_CHADDR s) = 6 \<and> length (pDHCPMSG s) = RIP_MSG_SIZE"

definition dhcp_wf :: "dhcp \<Rightarrow> bool" where
  "dhcp_wf s \<longleftrightarrow> dhcp_sizes s \<and> 0 \<le> dhcp_retry_count s \<and> dhcp_retry_count s \<le> MAX_DHCP_RETRY \<and>
     dhcp_tick_next s = DHCP_WAIT_TIME \<and>
     (dhcp_state s = STATE_DHCP_REREQUEST \<longrightarrow> OLD_allocated_ip s = DHCP_allocated_ip s)"

lemma HOST_NAME_length: "length HOST_NAME = 32"
  by (simp add: HOST_NAME_def str_bytes_def)

lemmas dhcp_msg_defs = makeDHCPMSG_def type_and_client_def host_option_def requested_and_server_def fill_opt_def
  put_at_def u32_be_def broadcast_def

text \<open>Each sender fills the buffer with a message of full size and sends it to the server's port.\<close>

definition sends :: "dhcp \<Rightarrow> dhcp \<times> eth_action list \<Rightarrow> bool" where
  "sends s r \<longleftrightarrow> (\<exists>m ip. r = (s\<lparr>pDHCPMSG := m\<rparr>, [Udp_sendto m ip DHCP_SERVER_PORT]) \<and> length m = RIP_MSG_SIZE)"

lemma fill_opt_length: "length m \<le> RIP_MSG_SIZE \<Longrightarrow> length (fill_opt m) = RIP_MSG_SIZE"
  by (simp add: fill_opt_def)

lemma sends_sendto: "length m \<le> RIP_MSG_SIZE \<Longrightarrow> sends s (dhcp_sendto (fill_opt m) ip s)"
  by (auto simp: sends_def dhcp_sendto_def fill_opt_length)

lemma makeDHCPMSG_length: "dhcp_sizes s \<Longrightarrow> length (makeDHCPMSG s) = 240"
  by (simp add: dhcp_sizes_def makeDHCPMSG_def u32_be_def)

lemma option_lengths:
  "dhcp_sizes s \<Longrightarrow> length (type_and_client t s) = 12" "length host_option = 34"
  "dhcp_sizes s \<Longrightarrow> length (requested_and_server s) = 12"
  by (simp_all add: dhcp_sizes_def four_bytes_def type_and_client_def host_option_def requested_and_server_def HOST_NAME_length)

lemma put_at_length [simp]: "i + length b \<le> length m \<Longrightarrow> length (put_at i b m) = length m"
  by (simp add: put_at_def)

lemma senders:
  assumes "dhcp_sizes s"
  shows "sends s (send_DHCP_DISCOVER s)" "sends s (send_DHCP_REQUEST s)" "sends s (send_DHCP_DECLINE s)"
proof -
  have "length (DHCP_allocated_ip s) = 4" using assms by (simp add: dhcp_sizes_def)
  with assms show "sends s (send_DHCP_DISCOVER s)" "sends s (send_DHCP_REQUEST s)" "sends s (send_DHCP_DECLINE s)"
    unfolding send_DHCP_DISCOVER_def send_DHCP_REQUEST_def send_DHCP_DECLINE_def Let_def
    by (intro sends_sendto; simp add: makeDHCPMSG_length option_lengths dhcp_consts)+
qed

lemma sends_wf: "dhcp_wf s \<Longrightarrow> sends s (s1, as) \<Longrightarrow> dhcp_wf s1 \<and> dhcp_state s1 = dhcp_state s"
  by (auto simp: sends_def dhcp_wf_def dhcp_sizes_def four_bytes_def)

lemma dhcp_wf_upd:
  "dhcp_wf s \<Longrightarrow> st \<noteq> STATE_DHCP_REREQUEST \<Longrightarrow> dhcp_wf (s\<lparr>dhcp_state := st\<rparr>)"
  "dhcp_wf s \<Longrightarrow> dhcp_wf (s\<lparr>dhcp_tick_1s := w\<rparr>)"
  "dhcp_wf s \<Longrightarrow> 0 \<le> n \<Longrightarrow> n \<le> MAX_DHCP_RETRY \<Longrightarrow> dhcp_wf (s\<lparr>dhcp_retry_count := n\<rparr>)"
  "dhcp_wf s \<Longrightarrow> dhcp_wf (reset_DHCP_timeout s)"
  by (auto simp: dhcp_wf_def dhcp_sizes_def four_bytes_def reset_DHCP_timeout_def MAX_DHCP_RETRY_def)

lemma parse_wf: "dhcp_wf s \<Longrightarrow> parseDHCPMSG i s = Inr (type, s') \<Longrightarrow> dhcp_wf s'"
  using parseDHCPMSG_frame [of i s type s'] by (auto simp: dhcp_wf_def dhcp_sizes_def same_client_def)

lemma wait_decline_frame: "\<exists>w. wait_decline ret s = s\<lparr>dhcp_tick_1s := w\<rparr>"
proof (induction ret s rule: wait_decline.induct)
  case (1 ret s)
  then show ?case
    by (cases "dhcp_tick_1s s - ret < 2") (auto simp: wait_decline.simps [of ret s] DHCP_time_handler_def intro: exI [of _ "dhcp_tick_1s s"])
qed

lemma resend_wf:
  assumes "dhcp_wf s" "sends s r" "0 \<le> n" "n \<le> MAX_DHCP_RETRY"
  shows "dhcp_wf ((fst r)\<lparr>dhcp_tick_1s := 0, dhcp_tick_next := DHCP_WAIT_TIME, dhcp_retry_count := n\<rparr>)"
  using assms by (auto simp: sends_def dhcp_wf_def dhcp_sizes_def four_bytes_def)

text \<open>Where a time-out may lead.\<close>

fun timeout_next :: "DHCP_STATE \<Rightarrow> DHCP_STATE" where
  "timeout_next STATE_DHCP_DISCOVER = STATE_DHCP_INIT"
| "timeout_next STATE_DHCP_REQUEST = STATE_DHCP_DISCOVER"
| "timeout_next STATE_DHCP_REREQUEST = STATE_DHCP_DISCOVER"
| "timeout_next st = st"

lemma check_timeout_wf:
  assumes wf: "dhcp_wf s" and c: "check_DHCP_timeout s = (ret, s', as)"
  shows "dhcp_wf s'" "ret \<in> {DHCP_RUNNING, DHCP_FAILED}" "dhcp_state s' \<in> {dhcp_state s, timeout_next (dhcp_state s)}"
proof -
  have sz: "dhcp_sizes s" using wf by (simp add: dhcp_wf_def)
  obtain m ip where dis: "send_DHCP_DISCOVER s = (s\<lparr>pDHCPMSG := m\<rparr>, [Udp_sendto m ip DHCP_SERVER_PORT])" "length m = RIP_MSG_SIZE"
    using senders(1) [OF sz] by (auto simp: sends_def)
  obtain m' ip' where req: "send_DHCP_REQUEST s = (s\<lparr>pDHCPMSG := m'\<rparr>, [Udp_sendto m' ip' DHCP_SERVER_PORT])" "length m' = RIP_MSG_SIZE"
    using senders(2) [OF sz] by (auto simp: sends_def)
  note upd = dhcp_wf_def dhcp_sizes_def four_bytes_def reset_DHCP_timeout_def MAX_DHCP_RETRY_def
  have "dhcp_wf s' \<and> ret \<in> {DHCP_RUNNING, DHCP_FAILED} \<and> dhcp_state s' \<in> {dhcp_state s, timeout_next (dhcp_state s)}"
    using wf c dis req
    by (cases "dhcp_state s") (auto simp: check_DHCP_timeout_def upd split: if_splits)
  then show "dhcp_wf s'" "ret \<in> {DHCP_RUNNING, DHCP_FAILED}" "dhcp_state s' \<in> {dhcp_state s, timeout_next (dhcp_state s)}"
    by auto
qed

lemma leasedIP_wf:
  assumes "dhcp_wf s" "check_DHCP_leasedIP i s = (ok, s', as)"
  shows "dhcp_wf s'" "ok \<Longrightarrow> s' = s"
proof -
  have "dhcp_sizes s" using assms(1) by (simp add: dhcp_wf_def)
  then obtain s1 bs where d: "send_DHCP_DECLINE s = (s1, bs)" "sends s (s1, bs)"
    using senders(3) by (metis surj_pair)
  then have "dhcp_wf (wait_decline (dhcp_tick_1s s1) s1)"
    using sends_wf [OF assms(1) d(2)] wait_decline_frame [of "dhcp_tick_1s s1" s1] dhcp_wf_upd(2) by auto
  with assms d show "dhcp_wf s'" "ok \<Longrightarrow> s' = s"
    by (auto simp: check_DHCP_leasedIP_def Let_def split: if_splits)
qed

text \<open>The moves of the state machine on a message type, and what each call may return.\<close>

inductive dhcp_next :: "u8 \<Rightarrow> DHCP_STATE \<Rightarrow> DHCP_STATE \<Rightarrow> bool" where
  start: "dhcp_next t STATE_DHCP_INIT STATE_DHCP_DISCOVER"
| offered: "dhcp_next DHCP_OFFER STATE_DHCP_DISCOVER STATE_DHCP_REQUEST"
| assigned: "dhcp_next DHCP_ACK STATE_DHCP_REQUEST STATE_DHCP_LEASED"
| conflict: "dhcp_next DHCP_ACK STATE_DHCP_REQUEST STATE_DHCP_INIT"
| refused: "st \<in> {STATE_DHCP_REQUEST, STATE_DHCP_REREQUEST} \<Longrightarrow> dhcp_next DHCP_NAK st STATE_DHCP_DISCOVER"
| renew: "dhcp_next t STATE_DHCP_LEASED STATE_DHCP_REREQUEST"
| renewed: "dhcp_next DHCP_ACK STATE_DHCP_REREQUEST STATE_DHCP_LEASED"
| waiting: "st \<noteq> STATE_DHCP_INIT \<Longrightarrow> dhcp_next t st st"
| late: "st \<in> {STATE_DHCP_DISCOVER, STATE_DHCP_REQUEST, STATE_DHCP_REREQUEST} \<Longrightarrow> dhcp_next t st (timeout_next st)"

inductive_cases dhcp_next_LEASED: "dhcp_next t st STATE_DHCP_LEASED"

definition switch_ok :: "u8 \<Rightarrow> dhcp \<Rightarrow> DHCP_RET \<times> dhcp \<times> 'e \<times> eth_action list \<Rightarrow> bool" where
  "switch_ok type s r \<longleftrightarrow>
     (case r of (ret, s', e', as) \<Rightarrow> dhcp_wf s' \<and> ret \<in> {DHCP_RUNNING, DHCP_FAILED, DHCP_IP_LEASED} \<and>
        dhcp_next type (dhcp_state s) (dhcp_state s'))"

lemma timeout_switch_ok:
  assumes "dhcp_wf s" "dhcp_state s \<in> {STATE_DHCP_DISCOVER, STATE_DHCP_REQUEST, STATE_DHCP_REREQUEST}"
  shows "switch_ok type s (let (ret, s1, as) = check_DHCP_timeout s in (ret, s1, e, as))"
proof -
  obtain ret s1 as where c: "check_DHCP_timeout s = (ret, s1, as)" by (metis surj_pair)
  from check_timeout_wf [OF assms(1) c] assms(2) show ?thesis
    using dhcp_next.late [of "dhcp_state s" type] by (auto simp: c switch_ok_def intro: dhcp_next.waiting)
qed

lemma request_switch_ok:
  assumes "dhcp_wf s" "dhcp_state s = STATE_DHCP_REQUEST"
  shows "switch_ok type s (dhcp_request_state cbs i type s e)"
proof -
  obtain ok s1 as where c: "check_DHCP_leasedIP i s = (ok, s1, as)" by (metis surj_pair)
  note wf = leasedIP_wf [OF assms(1) c]
  consider "type = DHCP_ACK" | "type = DHCP_NAK" "type \<noteq> DHCP_ACK" | "type \<noteq> DHCP_ACK" "type \<noteq> DHCP_NAK" by blast
  then show ?thesis
  proof cases
    case 1
    with wf assms(2) show ?thesis
      by (auto simp: dhcp_request_state_def c switch_ok_def Let_def split_beta intro: dhcp_wf_upd dhcp_next.intros)
  next
    case 2
    with assms show ?thesis
      by (auto simp: dhcp_request_state_def switch_ok_def intro: dhcp_wf_upd dhcp_next.refused)
  next
    case 3
    with timeout_switch_ok [of s type e] assms show ?thesis by (simp add: dhcp_request_state_def)
  qed
qed

lemma rerequest_switch_ok:
  assumes "dhcp_wf s" "dhcp_state s = STATE_DHCP_REREQUEST"
  shows "switch_ok type s (dhcp_rerequest_state cbs type s e)"
proof -
  consider "type = DHCP_ACK" | "type = DHCP_NAK" "type \<noteq> DHCP_ACK" | "type \<noteq> DHCP_ACK" "type \<noteq> DHCP_NAK" by blast
  then show ?thesis
  proof cases
    case 1
    have "OLD_allocated_ip s = DHCP_allocated_ip s" "dhcp_wf (s\<lparr>dhcp_retry_count := 0\<rparr>)"
      using assms by (auto simp: dhcp_wf_def dhcp_sizes_def four_bytes_def MAX_DHCP_RETRY_def)
    with 1 assms(2) show ?thesis
      by (auto simp: dhcp_rerequest_state_def switch_ok_def Let_def intro: dhcp_wf_upd dhcp_next.renewed)
  next
    case 2
    with assms show ?thesis
      by (auto simp: dhcp_rerequest_state_def switch_ok_def intro: dhcp_wf_upd dhcp_next.refused)
  next
    case 3
    with timeout_switch_ok [of s type e] assms show ?thesis by (simp add: dhcp_rerequest_state_def)
  qed
qed

lemma sizes_upd:
  "dhcp_sizes s \<Longrightarrow> length b = 4 \<Longrightarrow> dhcp_sizes (s\<lparr>DHCP_allocated_ip := b\<rparr>)"
  "dhcp_sizes s \<Longrightarrow> length b = 4 \<Longrightarrow> dhcp_sizes (s\<lparr>OLD_allocated_ip := b, DHCP_XID := w\<rparr>)"
  by (simp_all add: dhcp_sizes_def four_bytes_def)

lemma switch_ok_switch:
  assumes "dhcp_wf s" "dhcp_state s \<noteq> STATE_DHCP_STOP"
  shows "switch_ok type s (dhcp_switch cbs i type s e)"
proof (cases "dhcp_state s")
  case STATE_DHCP_INIT
  let ?s = "s\<lparr>DHCP_allocated_ip := [0, 0, 0, 0]\<rparr>"
  have "dhcp_wf ?s" using assms STATE_DHCP_INIT by (simp add: dhcp_wf_def dhcp_sizes_def four_bytes_def)
  moreover obtain s1 as where "send_DHCP_DISCOVER ?s = (s1, as)" "sends ?s (s1, as)"
    using senders(1) [of ?s] calculation by (metis dhcp_wf_def surj_pair)
  ultimately show ?thesis
    using STATE_DHCP_INIT sends_wf [of ?s s1 as]
    by (auto simp: dhcp_switch_def switch_ok_def intro: dhcp_wf_upd dhcp_next.start)
next
  case STATE_DHCP_DISCOVER
  let ?s = "s\<lparr>DHCP_allocated_ip := take 4 (drop 16 (pDHCPMSG s))\<rparr>"
  have "dhcp_wf ?s" using assms STATE_DHCP_DISCOVER by (simp add: dhcp_wf_def dhcp_sizes_def four_bytes_def dhcp_consts)
  moreover obtain s1 as where "send_DHCP_REQUEST ?s = (s1, as)" "sends ?s (s1, as)"
    using senders(2) [of ?s] calculation by (metis dhcp_wf_def surj_pair)
  ultimately show ?thesis
    using STATE_DHCP_DISCOVER sends_wf [of ?s s1 as] timeout_switch_ok [OF assms(1), of type e]
    by (cases "type = DHCP_OFFER") (auto simp: dhcp_switch_def switch_ok_def intro: dhcp_wf_upd dhcp_next.offered)
next
  case STATE_DHCP_REQUEST
  with request_switch_ok [OF assms(1)] show ?thesis by (simp add: dhcp_switch_def)
next
  case STATE_DHCP_LEASED
  let ?s = "s\<lparr>OLD_allocated_ip := DHCP_allocated_ip s, DHCP_XID := DHCP_XID s + 1\<rparr>"
  have "dhcp_wf ?s" using assms by (simp add: dhcp_wf_def dhcp_sizes_def four_bytes_def)
  moreover obtain s1 as where "send_DHCP_REQUEST ?s = (s1, as)" and s1: "sends ?s (s1, as)"
    using senders(2) [of ?s] calculation by (metis dhcp_wf_def surj_pair)
  moreover have "dhcp_wf ((reset_DHCP_timeout s1)\<lparr>dhcp_state := STATE_DHCP_REREQUEST\<rparr>)"
    using s1 calculation(1) by (auto simp: sends_def dhcp_wf_def dhcp_sizes_def four_bytes_def reset_DHCP_timeout_def MAX_DHCP_RETRY_def)
  ultimately show ?thesis
    using STATE_DHCP_LEASED assms(1)
    by (auto simp: dhcp_switch_def switch_ok_def Let_def intro: dhcp_next.renew dhcp_next.waiting)
next
  case STATE_DHCP_REREQUEST
  with rerequest_switch_ok [OF assms(1)] show ?thesis by (simp add: dhcp_switch_def)
qed (use assms in \<open>auto simp: dhcp_switch_def switch_ok_def intro: dhcp_next.waiting\<close>)

section \<open>Runs of the client\<close>

text \<open>
  A run: the initialisation with the chip's address and a buffer of the message size, then calls of
  \<open>DHCP_run\<close> with any input, seconds of the timer, \<open>DHCP_stop\<close>, and changes by the application.
\<close>

inductive dhcp_reach :: "'e dhcp_cbs \<Rightarrow> dhcp \<Rightarrow> 'e \<Rightarrow> bool" for cbs :: "'e dhcp_cbs" where
  init: "dhcp_sizes (s\<lparr>pDHCPMSG := buf\<rparr>) \<Longrightarrow> length shar = 6 \<Longrightarrow> dhcp_reach cbs (fst (DHCP_init shar buf s)) e"
| run: "dhcp_reach cbs s e \<Longrightarrow> DHCP_run cbs i s e = Inr (ret, s', e', as) \<Longrightarrow> dhcp_reach cbs s' e'"
| second: "dhcp_reach cbs s e \<Longrightarrow> dhcp_reach cbs (DHCP_time_handler s) e"
| stop: "dhcp_reach cbs s e \<Longrightarrow> dhcp_reach cbs (fst (DHCP_stop s)) e"
| app: "dhcp_reach cbs s e \<Longrightarrow> dhcp_reach cbs s e'"

lemma init_wf: "dhcp_sizes (s\<lparr>pDHCPMSG := buf\<rparr>) \<Longrightarrow> length shar = 6 \<Longrightarrow> dhcp_wf (fst (DHCP_init shar buf s))"
  by (auto simp: DHCP_init_def Let_def dhcp_wf_def dhcp_sizes_def four_bytes_def reset_DHCP_timeout_def MAX_DHCP_RETRY_def)

lemma run_ok:
  assumes "dhcp_wf s" "DHCP_run cbs i s e = Inr (ret, s', e', as)" "dhcp_state s \<noteq> STATE_DHCP_STOP"
  obtains t s1 where "parseDHCPMSG i s = Inr (t, s1)" "dhcp_state s1 = dhcp_state s" "dhcp_wf s1"
    "dhcp_switch cbs i t s1 e = (ret, s', e', drop (if in_sr_udp i then 0 else 1) as)"
    "switch_ok t s1 (ret, s', e', drop (if in_sr_udp i then 0 else 1) as)"
proof -
  from assms(2,3) obtain t s1 where p: "parseDHCPMSG i s = Inr (t, s1)"
    by (cases "parseDHCPMSG i s") (auto simp: DHCP_run_def)
  have s1: "dhcp_wf s1" "dhcp_state s1 = dhcp_state s"
    using parse_wf [OF assms(1) p] parseDHCPMSG_frame(1) [OF p] by (simp_all add: same_client_def)
  have "dhcp_switch cbs i t s1 e = (ret, s', e', drop (if in_sr_udp i then 0 else 1) as)"
    using assms(2,3) p by (auto simp: DHCP_run_def split: prod.splits)
  with that p s1 switch_ok_switch [of s1 t cbs i e] assms(3) show thesis by simp
qed

lemma run_wf: "dhcp_wf s \<Longrightarrow> DHCP_run cbs i s e = Inr (ret, s', e', as) \<Longrightarrow> dhcp_wf s'"
  by (cases "dhcp_state s = STATE_DHCP_STOP", simp add: DHCP_run_def) (erule (2) run_ok, simp add: switch_ok_def)

lemma reach_wf: "dhcp_reach cbs s e \<Longrightarrow> dhcp_wf s"
proof (induction rule: dhcp_reach.induct)
  case (run s e i ret s' e' as)
  then show ?case by (blast intro: run_wf)
qed (simp_all add: init_wf DHCP_time_handler_def DHCP_stop_def dhcp_wf_upd)

lemma sender_ip [simp]:
  "DHCP_allocated_ip (fst (send_DHCP_DISCOVER s)) = DHCP_allocated_ip s"
  "DHCP_allocated_ip (fst (send_DHCP_REQUEST s)) = DHCP_allocated_ip s"
  "DHCP_allocated_ip (fst (send_DHCP_DECLINE s)) = DHCP_allocated_ip s"
  by (simp_all add: send_DHCP_DISCOVER_def send_DHCP_REQUEST_def send_DHCP_DECLINE_def dhcp_sendto_def Let_def)

lemma timeout_ip: "DHCP_allocated_ip (fst (snd (check_DHCP_timeout s))) = DHCP_allocated_ip s"
  by (cases "dhcp_state s") (simp_all add: check_DHCP_timeout_def reset_DHCP_timeout_def split_beta Let_def)

lemma leasedIP_ip: "DHCP_allocated_ip (fst (snd (check_DHCP_leasedIP i s))) = DHCP_allocated_ip s"
proof -
  obtain w where "wait_decline (dhcp_tick_1s (fst (send_DHCP_DECLINE s))) (fst (send_DHCP_DECLINE s)) = (fst (send_DHCP_DECLINE s))\<lparr>dhcp_tick_1s := w\<rparr>"
    using wait_decline_frame by blast
  then show ?thesis by (simp add: check_DHCP_leasedIP_def split_beta Let_def)
qed

lemma switch_ip:
  assumes "dhcp_state s \<notin> {STATE_DHCP_INIT, STATE_DHCP_DISCOVER}"
  shows "DHCP_allocated_ip (fst (snd (dhcp_switch cbs i type s e))) = DHCP_allocated_ip s"
  using assms
  by (cases "dhcp_state s")
    (simp_all add: dhcp_switch_def dhcp_request_state_def dhcp_rerequest_state_def reset_DHCP_timeout_def timeout_ip
      leasedIP_ip split_beta Let_def)

lemma switch_update_unused:
  assumes "dhcp_wf s"
  shows "dhcp_switch (cbs\<lparr>dhcp_ip_update := f\<rparr>) i type s e = dhcp_switch cbs i type s e"
proof (cases "dhcp_state s")
  case STATE_DHCP_REREQUEST
  then have "OLD_allocated_ip s = DHCP_allocated_ip s" using assms by (simp add: dhcp_wf_def)
  then show ?thesis using STATE_DHCP_REREQUEST by (simp add: dhcp_switch_def dhcp_rerequest_state_def Let_def)
qed (simp_all add: dhcp_switch_def dhcp_request_state_def split_beta Let_def)

end
