(* ===== verification/Dhcp_Lease.thy ===== *)
theory Dhcp_Lease
  imports Dhcp
begin

text \<open>
  The DHCP client against a server: options as type, length and value, the exchange that obtains a
  lease, what a callback must do to install it, and a client that gets no answer.
\<close>

section \<open>Options\<close>

definition tlv :: "(u8 \<times> bytes) list \<Rightarrow> bytes" where
  "tlv opts = concat (map (\<lambda>(c, v). c # of_nat (length v) # v) opts)"

lemma tlv_simps [simp]: "tlv [] = []" "tlv ((c, v) # os) = c # of_nat (length v) # v @ tlv os"
  by (simp_all add: tlv_def)

text \<open>Options of the lengths that their definitions prescribe.\<close>

definition option_ok :: "u8 \<times> bytes \<Rightarrow> bool" where
  "option_ok cv \<longleftrightarrow>
     (case cv of (c, v) \<Rightarrow> c \<notin> {0, 255} \<and> length v < 256 \<and> (c = 53 \<longrightarrow> length v = 1) \<and>
        (c \<in> {1, 51, 54} \<longrightarrow> length v = 4) \<and> (c \<in> {3, 6} \<longrightarrow> 4 \<le> length v))"

definition apply_option :: "u8 \<times> dhcp \<Rightarrow> u8 \<times> bytes \<Rightarrow> u8 \<times> dhcp" where
  "apply_option ts cv =
     (case (ts, cv) of ((t, s), (c, v)) \<Rightarrow>
        if c = 53 then (v ! 0, s)
        else if c = 1 then (t, s\<lparr>DHCP_allocated_sn := v\<rparr>)
        else if c = 3 then (t, s\<lparr>DHCP_allocated_gw := take 4 v\<rparr>)
        else if c = 6 then (t, s\<lparr>DHCP_allocated_dns := take 4 v\<rparr>)
        else if c = 51 then (t, s\<lparr>dhcp_lease_time := be_u32 v\<rparr>)
        else if c = 54 then (t, s\<lparr>DHCP_SIP := v\<rparr>)
        else (t, s))"

lemma dhcp_options_step:
  assumes "option_ok (c, v)" "drop p m = c # of_nat (length v) # v @ r" "p < e"
  shows "dhcp_options m e p t s =
           (case apply_option (t, s) (c, v) of (t', s') \<Rightarrow> dhcp_options m e (p + 2 + length v) t' s')"
proof -
  have d: "p < length m" "m ! p = c" "drop (Suc p) m = of_nat (length v) # v @ r" using drop_ConsD [OF assms(2)] by auto
  have d': "Suc p < length m" "m ! Suc p = of_nat (length v)" "drop (Suc (Suc p)) m = v @ r" using drop_ConsD [OF d(3)] by auto
  have l: "Suc (Suc p) + length v \<le> length m" using arg_cong [OF d'(3), of length] d'(1) by simp
  have u: "unat (of_nat (length v) :: u8) = length v" using assms(1) by (simp add: option_ok_def unat_of_nat)
  have rd: "k \<le> length v \<Longrightarrow> read_bytes m (Suc (Suc p)) k = Inr (take k v)" for k
    using d'(3) l by (simp add: read_bytes_def)
  have hd: "length v = Suc 0 \<Longrightarrow> buf_at m (Suc (Suc p)) = Inr (v ! 0)"
    using d'(3) l drop_ConsD [of "Suc (Suc p)" m "v ! 0" r] by (cases v) (auto simp: buf_at_def)
  have n: "p + 6 = 6 + p" "p + 3 = Suc (Suc (Suc p))" by simp_all
  consider "c = 53" | "c = 1" | "c = 3" | "c = 6" | "c = 51" | "c = 54" | "c \<notin> {53, 1, 3, 6, 51, 54}" by blast
  then show ?thesis
    by cases (use assms d(1,2) d'(1,2) l u rd hd in
      \<open>simp_all add: dhcp_options.simps [of m e p] buf_at_def option_ok_def apply_option_def n\<close>)
qed

lemma dhcp_options_tlv:
  assumes "list_all option_ok opts" "drop p m = tlv opts @ 255 # r" "p + length (tlv opts) < e"
  shows "dhcp_options m e p t s = Inr (foldl apply_option (t, s) opts)"
  using assms
proof (induction opts arbitrary: p t s)
  case Nil
  then show ?case using drop_ConsD [of p m 255 r] by (simp add: dhcp_options.simps [of m e p] buf_at_def)
next
  case (Cons cv opts)
  obtain c v where cv: "cv = (c, v)" by (cases cv)
  have d: "drop p m = c # of_nat (length v) # v @ (tlv opts @ 255 # r)" using Cons.prems(2) by (simp add: cv)
  have "drop (p + 2 + length v) m = tlv opts @ 255 # r"
  proof -
    have "drop (p + 2 + length v) m = drop (2 + length v) (drop p m)" by (simp add: ac_simps)
    then show ?thesis by (simp add: d)
  qed
  moreover obtain t' s' where "apply_option (t, s) (c, v) = (t', s')" by (metis surj_pair)
  ultimately show ?case
    using Cons.prems Cons.IH [of "p + 2 + length v" t' s'] dhcp_options_step [OF _ d, of e t s] by (simp add: cv)
qed

text \<open>
  A server's message: sixteen header bytes, the address for the client, the rest of the header with the
  client's hardware address, and the options.  Transaction and cookie are not looked at.
\<close>

definition server_msg :: "bytes \<Rightarrow> bytes \<Rightarrow> bytes \<Rightarrow> bytes \<Rightarrow> bytes \<Rightarrow> (u8 \<times> bytes) list \<Rightarrow> bytes" where
  "server_msg pre yi mid mac rest opts = pre @ yi @ mid @ mac @ rest @ tlv opts @ [255]"

definition server_msg_ok :: "bytes \<Rightarrow> bytes \<Rightarrow> bytes \<Rightarrow> bytes \<Rightarrow> (u8 \<times> bytes) list \<Rightarrow> bool" where
  "server_msg_ok pre yi mid rest opts \<longleftrightarrow> length pre = 16 \<and> length yi = 4 \<and> length mid = 8 \<and> length rest = 206 \<and>
     list_all option_ok opts \<and> length (tlv opts) < 308"

text \<open>The input of a call that finds such a message in the socket.\<close>

definition receives :: "dhcp_in \<Rightarrow> bytes \<Rightarrow> bool" where
  "receives i m \<longleftrightarrow> in_sr_udp i \<and> in_rsr i > 0 \<and> in_data i = m \<and> in_len i = of_nat (length m) \<and> in_port i = DHCP_SERVER_PORT"

lemma server_msg_length:
  "server_msg_ok pre yi mid rest opts \<Longrightarrow> length mac = 6 \<Longrightarrow>
     length (server_msg pre yi mid mac rest opts) = 241 + length (tlv opts)"
  by (simp add: server_msg_def server_msg_ok_def)

lemma server_msg_fields:
  assumes "server_msg_ok pre yi mid rest opts" "length mac = 6"
  shows "take 4 (drop 16 (server_msg pre yi mid mac rest opts @ z)) = yi"
    "take 6 (drop 28 (server_msg pre yi mid mac rest opts @ z)) = mac"
    "drop 240 (server_msg pre yi mid mac rest opts @ z) = tlv opts @ 255 # z"
  using assms by (simp_all add: server_msg_def server_msg_ok_def)

lemma parse_server_msg:
  assumes "dhcp_sizes s" "server_msg_ok pre yi mid rest opts" "receives i (server_msg pre yi mid (DHCP_CHADDR s) rest opts)"
  obtains z where "parseDHCPMSG i s =
      Inr (foldl apply_option (0, s\<lparr>pDHCPMSG := server_msg pre yi mid (DHCP_CHADDR s) rest opts @ z\<rparr>) opts)"
proof -
  let ?m = "server_msg pre yi mid (DHCP_CHADDR s) rest opts"
  have c: "length (DHCP_CHADDR s) = 6" "length (pDHCPMSG s) = 548" using assms(1) by (simp_all add: dhcp_sizes_def dhcp_consts)
  note f = server_msg_fields [OF assms(2) c(1)]
  have l: "length ?m = 241 + length (tlv opts)" "length (tlv opts) < 308"
    using server_msg_length [OF assms(2) c(1)] assms(2) by (simp_all add: server_msg_ok_def)
  have u: "unat (in_len i) = 241 + length (tlv opts)"
    using assms(3) l unat_of_nat_u16 [of "241 + length (tlv opts)"] by (simp add: receives_def del: unat_of_nat_u16 of_nat_add)
  let ?z = "drop (length ?m) (pDHCPMSG s)"
  have "dhcp_options (?m @ ?z) (241 + length (tlv opts)) 240 0 (s\<lparr>pDHCPMSG := ?m @ ?z\<rparr>) =
        Inr (foldl apply_option (0, s\<lparr>pDHCPMSG := ?m @ ?z\<rparr>) opts)"
    using assms(2) by (intro dhcp_options_tlv [OF _ f(3)]) (auto simp: server_msg_ok_def)
  with assms(3) c l u f(2) have "parseDHCPMSG i s = Inr (foldl apply_option (0, s\<lparr>pDHCPMSG := ?m @ ?z\<rparr>) opts)"
    by (simp add: parseDHCPMSG_def receives_def Let_def)
  then show thesis by (rule that)
qed

section \<open>Obtaining a lease\<close>

text \<open>The options a server sends: the type, itself, the lease time, the network, and others.\<close>

definition server_opts :: "u8 \<Rightarrow> bytes \<Rightarrow> bytes \<Rightarrow> bytes \<Rightarrow> bytes \<Rightarrow> bytes \<Rightarrow> (u8 \<times> bytes) list \<Rightarrow> (u8 \<times> bytes) list" where
  "server_opts t sid lt sn gw dn extra = [(53, [t]), (54, sid), (51, lt), (1, sn), (3, gw), (6, dn)] @ extra"

definition other_options :: "(u8 \<times> bytes) list \<Rightarrow> bool" where
  "other_options extra \<longleftrightarrow> list_all (\<lambda>(c, v). c \<notin> {53, 1, 3, 6, 51, 54}) extra"

lemma other_options_ignored: "other_options extra \<Longrightarrow> foldl apply_option (t, s) extra = (t, s)"
  by (induction extra) (auto simp: other_options_def apply_option_def)

lemma server_opts_apply:
  assumes "other_options extra"
  shows "foldl apply_option (0, s) (server_opts t sid lt sn gw dn extra) =
    (t, s\<lparr>DHCP_SIP := sid, dhcp_lease_time := be_u32 lt, DHCP_allocated_sn := sn, DHCP_allocated_gw := take 4 gw,
          DHCP_allocated_dns := take 4 dn\<rparr>)"
  using other_options_ignored [OF assms] by (simp add: server_opts_def apply_option_def)

text \<open>The client's messages in the same terms.\<close>

definition client_msg :: "bytes \<Rightarrow> bytes \<Rightarrow> dhcp \<Rightarrow> (u8 \<times> bytes) list \<Rightarrow> bytes" where
  "client_msg flags ci s opts = fill_opt (put_at 12 ci (put_at 10 flags (makeDHCPMSG s)) @ tlv opts @ [255])"

definition discover_msg :: "dhcp \<Rightarrow> bytes" where
  "discover_msg s = client_msg [0x80, 0] [0, 0, 0, 0] s
     [(53, [DHCP_DISCOVER]), (61, 1 # DHCP_CHADDR s), (12, HOST_NAME), (55, [1, 3, 6, 15, 58, 59])]"

definition request_msg :: "bytes \<Rightarrow> bytes \<Rightarrow> dhcp \<Rightarrow> bytes" where
  "request_msg ip sid s = client_msg [0x80, 0] [0, 0, 0, 0] s
     [(53, [DHCP_REQUEST]), (61, 1 # DHCP_CHADDR s), (50, ip), (54, sid), (12, HOST_NAME), (55, [1, 3, 6, 15, 58, 59, 31, 33])]"

lemma makeDHCPMSG_put: "put_at 12 [0, 0, 0, 0] (put_at 10 [0x80, 0] (makeDHCPMSG s)) = makeDHCPMSG s"
  by (simp add: makeDHCPMSG_def put_at_def u32_be_def numeral_eq_Suc)

lemma send_DISCOVER_msg:
  assumes "dhcp_sizes s"
  shows "send_DHCP_DISCOVER s = (s\<lparr>pDHCPMSG := discover_msg s\<rparr>, [Udp_sendto (discover_msg s) broadcast DHCP_SERVER_PORT])"
proof -
  have "length (DHCP_CHADDR s) = 6" using assms by (simp add: dhcp_sizes_def)
  then show ?thesis
    by (simp add: send_DHCP_DISCOVER_def dhcp_sendto_def discover_msg_def client_msg_def makeDHCPMSG_put type_and_client_def host_option_def)
qed

lemma send_REQUEST_msg:
  assumes "dhcp_sizes s" "dhcp_state s = STATE_DHCP_DISCOVER"
  shows "send_DHCP_REQUEST s =
    (let m = request_msg (DHCP_allocated_ip s) (DHCP_SIP s) s in (s\<lparr>pDHCPMSG := m\<rparr>, [Udp_sendto m broadcast DHCP_SERVER_PORT]))"
proof -
  have "length (DHCP_CHADDR s) = 6" "length (DHCP_allocated_ip s) = 4" "length (DHCP_SIP s) = 4"
    using assms by (simp_all add: dhcp_sizes_def four_bytes_def)
  then show ?thesis
    using assms(2)
    by (simp add: send_DHCP_REQUEST_def dhcp_sendto_def request_msg_def client_msg_def makeDHCPMSG_put type_and_client_def
        host_option_def requested_and_server_def broadcast_def Let_def)
qed

text \<open>Only these fields of the client enter its messages.\<close>

lemma msg_fields:
  assumes "DHCP_XID s = DHCP_XID s'" "DHCP_CHADDR s = DHCP_CHADDR s'"
  shows "discover_msg s = discover_msg s'" "request_msg ip sid s = request_msg ip sid s'"
  using assms by (simp_all add: discover_msg_def request_msg_def client_msg_def makeDHCPMSG_def)

lemma run_discover:
  assumes "dhcp_wf s" "dhcp_state s = STATE_DHCP_INIT" "in_rsr i = 0" "in_sr_udp i"
  shows "DHCP_run cbs i s e =
    Inr (DHCP_RUNNING, s\<lparr>DHCP_allocated_ip := [0, 0, 0, 0], pDHCPMSG := discover_msg s, dhcp_state := STATE_DHCP_DISCOVER\<rparr>, e,
         [Udp_sendto (discover_msg s) broadcast DHCP_SERVER_PORT])"
proof -
  let ?s = "s\<lparr>DHCP_allocated_ip := [0, 0, 0, 0]\<rparr>"
  have "dhcp_sizes ?s" using assms(1) by (simp add: dhcp_wf_def dhcp_sizes_def four_bytes_def)
  then have "send_DHCP_DISCOVER ?s = (?s\<lparr>pDHCPMSG := discover_msg s\<rparr>, [Udp_sendto (discover_msg s) broadcast DHCP_SERVER_PORT])"
    using send_DISCOVER_msg [of ?s] msg_fields(1) [of s ?s] by simp
  then show ?thesis using assms(2-4) by (simp add: DHCP_run_def parseDHCPMSG_def dhcp_switch_def)
qed

text \<open>The state after a server's message was parsed.\<close>

abbreviation with_network :: "dhcp \<Rightarrow> bytes \<Rightarrow> bytes \<Rightarrow> bytes \<Rightarrow> bytes \<Rightarrow> bytes \<Rightarrow> dhcp" where
  "with_network s sid lt sn gw dn \<equiv>
     s\<lparr>DHCP_SIP := sid, dhcp_lease_time := be_u32 lt, DHCP_allocated_sn := sn, DHCP_allocated_gw := take 4 gw,
       DHCP_allocated_dns := take 4 dn\<rparr>"

lemma run_offer:
  assumes wf: "dhcp_wf s" and st: "dhcp_state s = STATE_DHCP_DISCOVER"
    and opts: "opts = server_opts DHCP_OFFER sid lt sn gw dn extra" "other_options extra"
    and msg: "server_msg_ok pre yi mid rest opts" "receives i (server_msg pre yi mid (DHCP_CHADDR s) rest opts)"
  obtains s' where "DHCP_run cbs i s e = Inr (DHCP_RUNNING, s', e, [Udp_sendto (request_msg yi sid s) broadcast DHCP_SERVER_PORT])"
    "dhcp_state s' = STATE_DHCP_REQUEST" "DHCP_allocated_ip s' = yi" "DHCP_SIP s' = sid" "DHCP_CHADDR s' = DHCP_CHADDR s" "dhcp_wf s'"
proof -
  have sz: "dhcp_sizes s" using wf by (simp add: dhcp_wf_def)
  obtain z where p: "parseDHCPMSG i s = Inr (foldl apply_option (0, s\<lparr>pDHCPMSG := server_msg pre yi mid (DHCP_CHADDR s) rest opts @ z\<rparr>) opts)"
    using parse_server_msg [OF sz msg] .
  let ?b = "server_msg pre yi mid (DHCP_CHADDR s) rest opts @ z"
  let ?s = "with_network (s\<lparr>pDHCPMSG := ?b\<rparr>) sid lt sn gw dn" and ?m = "request_msg yi sid s"
  have p': "parseDHCPMSG i s = Inr (DHCP_OFFER, ?s)"
    using p server_opts_apply [OF opts(2), of _ DHCP_OFFER sid lt sn gw dn] by (simp add: opts(1))
  have yi: "take 4 (drop 16 ?b) = yi" "length yi = 4"
    using server_msg_fields(1) [OF msg(1), of "DHCP_CHADDR s" z] sz msg(1) by (simp_all add: dhcp_sizes_def server_msg_ok_def)
  have "dhcp_wf ?s" using parse_wf [OF wf p'] .
  then have sz': "dhcp_sizes (?s\<lparr>DHCP_allocated_ip := yi\<rparr>)" using sizes_upd(1) [of ?s yi] yi(2) by (simp add: dhcp_wf_def)
  then have "send_DHCP_REQUEST (?s\<lparr>DHCP_allocated_ip := yi\<rparr>) =
      (?s\<lparr>DHCP_allocated_ip := yi, pDHCPMSG := ?m\<rparr>, [Udp_sendto ?m broadcast DHCP_SERVER_PORT])"
    using send_REQUEST_msg [of "?s\<lparr>DHCP_allocated_ip := yi\<rparr>"] st msg_fields(2) [of s "?s\<lparr>DHCP_allocated_ip := yi\<rparr>" yi sid] by (simp add: Let_def)
  then have run: "DHCP_run cbs i s e = Inr (DHCP_RUNNING, ?s\<lparr>DHCP_allocated_ip := yi, pDHCPMSG := ?m, dhcp_state := STATE_DHCP_REQUEST\<rparr>, e,
      [Udp_sendto ?m broadcast DHCP_SERVER_PORT])"
    using p' st msg(2) yi(1) by (simp add: DHCP_run_def dhcp_switch_def receives_def)
  from that [OF run] run_wf [OF wf run] show thesis by simp
qed

lemma run_ack:
  assumes wf: "dhcp_wf s" and st: "dhcp_state s = STATE_DHCP_REQUEST"
    and opts: "opts = server_opts DHCP_ACK sid lt sn gw dn extra" "other_options extra"
    and msg: "server_msg_ok pre yi mid rest opts" "receives i (server_msg pre yi mid (DHCP_CHADDR s) rest opts)"
    and unique: "in_probe_timeout i"
  obtains b where
    "DHCP_run cbs i s e =
       (let s1 = with_network (s\<lparr>pDHCPMSG := b\<rparr>) sid lt sn gw dn; (e', as) = dhcp_ip_assign cbs s1 e
        in Inr (DHCP_RUNNING, (reset_DHCP_timeout s1)\<lparr>dhcp_state := STATE_DHCP_LEASED\<rparr>, e',
             [Set_RCR 3, Udp_sendto (str_bytes ''CHECK_IP_CONFLICT'') (DHCP_allocated_ip s) 5000, Set_RCR (in_rcr i)] @ as))"
proof -
  have sz: "dhcp_sizes s" using wf by (simp add: dhcp_wf_def)
  obtain z where p: "parseDHCPMSG i s = Inr (foldl apply_option (0, s\<lparr>pDHCPMSG := server_msg pre yi mid (DHCP_CHADDR s) rest opts @ z\<rparr>) opts)"
    using parse_server_msg [OF sz msg] .
  let ?b = "server_msg pre yi mid (DHCP_CHADDR s) rest opts @ z"
  have "parseDHCPMSG i s = Inr (DHCP_ACK, with_network (s\<lparr>pDHCPMSG := ?b\<rparr>) sid lt sn gw dn)"
    using p server_opts_apply [OF opts(2), of _ DHCP_ACK sid lt sn gw dn] by (simp add: opts(1))
  then have "DHCP_run cbs i s e =
       (let s1 = with_network (s\<lparr>pDHCPMSG := ?b\<rparr>) sid lt sn gw dn; (e', as) = dhcp_ip_assign cbs s1 e
        in Inr (DHCP_RUNNING, (reset_DHCP_timeout s1)\<lparr>dhcp_state := STATE_DHCP_LEASED\<rparr>, e',
             [Set_RCR 3, Udp_sendto (str_bytes ''CHECK_IP_CONFLICT'') (DHCP_allocated_ip s) 5000, Set_RCR (in_rcr i)] @ as))"
    using st msg(2) unique
    by (simp add: DHCP_run_def dhcp_switch_def dhcp_request_state_def check_DHCP_leasedIP_def receives_def split_beta Let_def)
  then show thesis by (rule that)
qed

section \<open>Handlers that install the address\<close>

text \<open>
  The registers of the chip that the callbacks write, and the effect of the actions on them; a
  software reset initialises all registers (\<open>MR_RST\<close> in \<open>w5500.h\<close>).
\<close>

record chip =
  SIPR :: bytes
  SUBR :: bytes
  GAR :: bytes
  SHAR :: bytes

definition chip_reset :: chip where
  "chip_reset = \<lparr>SIPR = [0, 0, 0, 0], SUBR = [0, 0, 0, 0], GAR = [0, 0, 0, 0], SHAR = [0, 0, 0, 0, 0, 0]\<rparr>"

fun chip_step :: "eth_action \<Rightarrow> chip \<Rightarrow> chip" where
  "chip_step (Set_SIPR b) c = c\<lparr>SIPR := b\<rparr>"
| "chip_step (Set_SUBR b) c = c\<lparr>SUBR := b\<rparr>"
| "chip_step (Set_GAR b) c = c\<lparr>GAR := b\<rparr>"
| "chip_step (Set_SHAR b) c = c\<lparr>SHAR := b\<rparr>"
| "chip_step Reset_chip c = chip_reset"
| "chip_step _ c = c"

definition chip_run :: "eth_action list \<Rightarrow> chip \<Rightarrow> chip" where
  "chip_run as c = fold chip_step as c"

lemma chip_run_simps [simp]:
  "chip_run [] c = c" "chip_run (a # as) c = chip_run as (chip_step a c)" "chip_run (as @ bs) c = chip_run bs (chip_run as c)"
  by (simp_all add: chip_run_def)

text \<open>The contract of the callback for a new address: the chip then has the network of the lease.\<close>

locale address_handler =
  fixes h :: "dhcp \<Rightarrow> 'e \<Rightarrow> 'e \<times> eth_action list"
  assumes installs: "let c' = chip_run (snd (h s e)) c in
    SIPR c' = DHCP_allocated_ip s \<and> SUBR c' = DHCP_allocated_sn s \<and> GAR c' = DHCP_allocated_gw s \<and> SHAR c' = SHAR c"
begin

lemma ack_installs:
  assumes "dhcp_wf s" "dhcp_state s = STATE_DHCP_REQUEST" "dhcp_ip_assign cbs = h"
    "opts = server_opts DHCP_ACK sid lt sn gw dn extra" "other_options extra"
    "server_msg_ok pre yi mid rest opts" "receives i (server_msg pre yi mid (DHCP_CHADDR s) rest opts)" "in_probe_timeout i"
  shows "\<exists>s' e' as. DHCP_run cbs i s e = Inr (DHCP_RUNNING, s', e', as) \<and> dhcp_state s' = STATE_DHCP_LEASED \<and>
           DHCP_allocated_ip s' = DHCP_allocated_ip s \<and> dhcp_lease_time s' = be_u32 lt \<and>
           chip_run as c = c\<lparr>SIPR := DHCP_allocated_ip s, SUBR := sn, GAR := take 4 gw\<rparr>"
proof -
  from run_ack [OF assms(1,2,4-8), of cbs e] obtain b where r:
    "DHCP_run cbs i s e =
       (let s1 = with_network (s\<lparr>pDHCPMSG := b\<rparr>) sid lt sn gw dn; (e', as) = dhcp_ip_assign cbs s1 e
        in Inr (DHCP_RUNNING, (reset_DHCP_timeout s1)\<lparr>dhcp_state := STATE_DHCP_LEASED\<rparr>, e',
             [Set_RCR 3, Udp_sendto (str_bytes ''CHECK_IP_CONFLICT'') (DHCP_allocated_ip s) 5000, Set_RCR (in_rcr i)] @ as))"
    by metis
  have "chip_run (snd (h (with_network (s\<lparr>pDHCPMSG := b\<rparr>) sid lt sn gw dn) e)) c = c\<lparr>SIPR := DHCP_allocated_ip s, SUBR := sn, GAR := take 4 gw\<rparr>"
    using installs [of "with_network (s\<lparr>pDHCPMSG := b\<rparr>) sid lt sn gw dn" e c] by (simp add: Let_def)
  with r assms(3) show ?thesis by (auto simp: Let_def reset_DHCP_timeout_def split: prod.splits)
qed

end

interpretation default_handler: address_handler default_ip_assign
  by unfold_locales (simp add: default_ip_assign_def Let_def)

section \<open>Malformed and missing answers\<close>

text \<open>The longest options read five bytes past their first; the loop stays in the buffer that much earlier.\<close>

lemma dhcp_options_total:
  "e + 5 \<le> length m \<Longrightarrow> \<exists>r. dhcp_options m e p t s = Inr r"
proof (induction m e p t s rule: dhcp_options.induct)
  case (1 m e p t s)
  show ?case
  proof (cases "p < e")
    case True
    then have b: "buf_at m p = Inr (m ! p)" "buf_at m (p + 1) = Inr (m ! (p + 1))" "buf_at m (p + 2) = Inr (m ! (p + 2))"
      "read_bytes m (p + 2) 4 = Inr (take 4 (drop (p + 2) m))"
      using "1.prems" by (auto simp: buf_at_def read_bytes_def)
    show ?thesis
      using "1.IH" [OF True b(1)] "1.prems" True b by (subst dhcp_options.simps) (simp del: drop_drop)
  qed (simp add: dhcp_options.simps)
qed

text \<open>
  a call of \<open>DHCP_run\<close> never leaves its arrays on datagrams of at most 543 bytes, whatever they
  contain; a datagram longer than the message buffer of 548 bytes always overruns it.
\<close>

theorem dhcp_run_bounds:
  assumes "dhcp_reach cbs s e" "in_len i = of_nat (length (in_data i))"
  shows "(length (in_data i) \<le> 543 \<longrightarrow> (\<exists>r. DHCP_run cbs i s e = Inr r)) \<and>
    (RIP_MSG_SIZE < length (in_data i) \<and> in_rsr i > 0 \<and> dhcp_state s \<noteq> STATE_DHCP_STOP \<longrightarrow>
       DHCP_run cbs i s e = Inl OutOfBounds)"
proof -
  have l: "length (pDHCPMSG s) = 548" using reach_wf [OF assms(1)] by (simp add: dhcp_wf_def dhcp_sizes_def dhcp_consts)
  have "\<exists>r. parseDHCPMSG i s = Inr r" if "length (in_data i) \<le> 543"
  proof -
    have "unat (in_len i) \<le> 543" using that by (simp add: assms(2))
    then show ?thesis
      using that l dhcp_options_total [of "unat (in_len i)" "in_data i @ drop (length (in_data i)) (pDHCPMSG s)"]
      by (simp add: parseDHCPMSG_def Let_def)
  qed
  then have "\<exists>r. DHCP_run cbs i s e = Inr r" if "length (in_data i) \<le> 543"
    using that by (auto simp: DHCP_run_def split_beta Let_def) (metis surj_pair)
  moreover have "DHCP_run cbs i s e = Inl OutOfBounds"
    if "RIP_MSG_SIZE < length (in_data i)" "in_rsr i > 0" "dhcp_state s \<noteq> STATE_DHCP_STOP"
    using that l by (simp add: DHCP_run_def parseDHCPMSG_def dhcp_consts)
  ultimately show ?thesis by blast
qed

text \<open>
  the second retransmission is given no time: when its wait is over, a client that waits for an
  offer with one retry left sends the message again, and its very next call without an answer
  already fails and goes back to the start.
\<close>

theorem dhcp_second_retry_not_awaited:
  assumes "dhcp_wf s" "dhcp_state s = STATE_DHCP_DISCOVER" "dhcp_retry_count s = 1" "DHCP_WAIT_TIME < dhcp_tick_1s s"
    "in_rsr i = 0" "in_sr_udp i"
  shows "\<exists>s1 s2. DHCP_run cbs i s e = Inr (DHCP_RUNNING, s1, e, [Udp_sendto (discover_msg s) broadcast DHCP_SERVER_PORT]) \<and>
    dhcp_tick_1s s1 = 0 \<and> DHCP_run cbs i s1 e = Inr (DHCP_FAILED, s2, e, []) \<and> dhcp_state s2 = STATE_DHCP_INIT"
proof -
  have "dhcp_sizes s" "dhcp_tick_next s = DHCP_WAIT_TIME" using assms(1) by (simp_all add: dhcp_wf_def)
  then show ?thesis
    using assms(2-6) send_DISCOVER_msg [of s]
    by (simp add: DHCP_run_def parseDHCPMSG_def dhcp_switch_def check_DHCP_timeout_def dhcp_consts reset_DHCP_timeout_def)
qed

section \<open>Every run\<close>

text \<open>A client with the board's hardware address, and the inputs of a session with a server.\<close>

definition demo_mac :: bytes where "demo_mac = [0x00, 0x7b, 0x04, 0xaa, 0x58, 0x69]"

definition blank_dhcp :: dhcp where
  "blank_dhcp = \<lparr>DHCP_SIP = [0, 0, 0, 0], OLD_allocated_ip = [0, 0, 0, 0], DHCP_allocated_ip = [0, 0, 0, 0],
     DHCP_allocated_gw = [0, 0, 0, 0], DHCP_allocated_sn = [0, 0, 0, 0], DHCP_allocated_dns = [0, 0, 0, 0],
     dhcp_state = STATE_DHCP_INIT, dhcp_retry_count = 0, dhcp_lease_time = INFINITE_LEASETIME, dhcp_tick_1s = 0,
     dhcp_tick_next = DHCP_WAIT_TIME, DHCP_XID = 0, pDHCPMSG = [], DHCP_CHADDR = [0, 0, 0, 0, 0, 0]\<rparr>"

definition demo_dhcp :: dhcp where
  "demo_dhcp = fst (DHCP_init demo_mac (replicate 548 0) blank_dhcp)"

definition quiet_in :: dhcp_in where
  "quiet_in = \<lparr>in_sr_udp = True, in_rsr = 0, in_data = [], in_len = 0, in_port = 0, in_stale = 0, in_probe_timeout = True, in_rcr = 8\<rparr>"

definition demo_opts :: "u8 \<Rightarrow> (u8 \<times> bytes) list" where
  "demo_opts t = server_opts t [192, 168, 1, 1] [0, 0, 14, 16] [255, 255, 255, 0] [192, 168, 1, 1] [8, 8, 8, 8] []"

definition demo_msg :: "u8 \<Rightarrow> bytes" where
  "demo_msg t = server_msg (replicate 16 0) [192, 168, 1, 7] (replicate 8 0) demo_mac (replicate 206 0) (demo_opts t)"

definition demo_in :: "u8 \<Rightarrow> dhcp_in" where
  "demo_in t = quiet_in\<lparr>in_rsr := 300, in_data := demo_msg t, in_len := of_nat (length (demo_msg t)), in_port := DHCP_SERVER_PORT\<rparr>"

lemma demo_dhcp_start: "dhcp_wf demo_dhcp" "dhcp_state demo_dhcp = STATE_DHCP_INIT" "DHCP_CHADDR demo_dhcp = demo_mac"
proof -
  have "foldl (OR) 0 demo_mac \<noteq> 0" by code_simp
  then show "dhcp_wf demo_dhcp" "dhcp_state demo_dhcp = STATE_DHCP_INIT" "DHCP_CHADDR demo_dhcp = demo_mac"
    by (simp_all add: demo_dhcp_def blank_dhcp_def DHCP_init_def dhcp_wf_def dhcp_sizes_def four_bytes_def reset_DHCP_timeout_def
        dhcp_consts demo_mac_def)
qed

lemma demo_reach: "dhcp_reach cbs demo_dhcp e"
  unfolding demo_dhcp_def by (rule dhcp_reach.init) (simp_all add: blank_dhcp_def dhcp_sizes_def four_bytes_def dhcp_consts demo_mac_def)

lemma quiet_in_sel [simp]: "in_rsr quiet_in = 0" "in_sr_udp quiet_in" "in_probe_timeout quiet_in"
  by (simp_all add: quiet_in_def)

lemma demo_receives: "receives (demo_in t) (demo_msg t)" "in_probe_timeout (demo_in t)"
  by (simp_all add: receives_def demo_in_def)

lemma demo_opts_ok: "other_options []" "server_msg_ok (replicate 16 0) [192, 168, 1, 7] (replicate 8 0) (replicate 206 0) (demo_opts t)"
  by (simp_all add: other_options_def server_msg_ok_def demo_opts_def server_opts_def option_ok_def)

text \<open>The run up to the request.\<close>

lemma demo_requesting:
  obtains s where "dhcp_reach cbs s e" "dhcp_state s = STATE_DHCP_REQUEST" "DHCP_CHADDR s = demo_mac" "dhcp_wf s"
proof -
  note r1 = run_discover [OF demo_dhcp_start(1,2), of quiet_in cbs e, simplified]
  let ?s1 = "demo_dhcp\<lparr>DHCP_allocated_ip := [0, 0, 0, 0], pDHCPMSG := discover_msg demo_dhcp, dhcp_state := STATE_DHCP_DISCOVER\<rparr>"
  have "receives (demo_in DHCP_OFFER) (server_msg (replicate 16 0) [192, 168, 1, 7] (replicate 8 0) (DHCP_CHADDR ?s1) (replicate 206 0) (demo_opts DHCP_OFFER))"
    using demo_receives(1) by (simp add: demo_dhcp_start demo_msg_def)
  from run_offer [OF run_wf [OF demo_dhcp_start(1) r1] _ demo_opts_def demo_opts_ok this, of cbs e]
  obtain s2 as where "DHCP_run cbs (demo_in DHCP_OFFER) ?s1 e = Inr (DHCP_RUNNING, s2, e, as)" "dhcp_state s2 = STATE_DHCP_REQUEST"
    "DHCP_CHADDR s2 = demo_mac" "dhcp_wf s2"
    by (simp add: demo_dhcp_start) blast
  moreover have "dhcp_reach cbs ?s1 e" using dhcp_reach.run [OF demo_reach r1] .
  ultimately show thesis using that [OF dhcp_reach.run] by metis
qed

lemma demo_leasing:
  assumes "dhcp_state s = STATE_DHCP_REQUEST" "DHCP_CHADDR s = demo_mac" "dhcp_wf s" "dhcp_ip_assign cbs = default_ip_assign"
  obtains s' e' as where "DHCP_run cbs (demo_in DHCP_ACK) s e = Inr (DHCP_RUNNING, s', e', as)" "dhcp_state s' = STATE_DHCP_LEASED"
proof -
  have "receives (demo_in DHCP_ACK) (server_msg (replicate 16 0) [192, 168, 1, 7] (replicate 8 0) (DHCP_CHADDR s) (replicate 206 0) (demo_opts DHCP_ACK))"
    using demo_receives(1) by (simp add: assms(2) demo_msg_def)
  from default_handler.ack_installs [OF assms(3,1,4) demo_opts_def demo_opts_ok this demo_receives(2), of e] show thesis
    using that by blast
qed

definition default_cbs :: "unit dhcp_cbs" where
  "default_cbs = reg_dhcp_cbfunc None None None"

lemma default_cbs_assign: "dhcp_ip_assign default_cbs = default_ip_assign"
  by (simp add: default_cbs_def reg_dhcp_cbfunc_def)

text \<open>
  C16: every call of \<open>DHCP_run\<close> in a run keeps the invariant (array sizes, at most two retries, the wait
  time) and makes a move of \<open>dhcp_next\<close> on the type of the message it parsed; a stopped client does
  nothing.  In particular it never returns \<open>DHCP_IP_ASSIGN\<close> or \<open>DHCP_IP_CHANGED\<close>.
\<close>

theorem dhcp_follows_protocol:
  assumes "dhcp_reach cbs s e" "DHCP_run cbs i s e = Inr (ret, s', e', as)"
  shows "dhcp_wf s' \<and>
    (if dhcp_state s = STATE_DHCP_STOP then ret = DHCP_STOPPED \<and> s' = s \<and> e' = e \<and> as = []
     else ret \<in> {DHCP_RUNNING, DHCP_FAILED, DHCP_IP_LEASED} \<and>
       (\<exists>t s1. parseDHCPMSG i s = Inr (t, s1) \<and> dhcp_next t (dhcp_state s) (dhcp_state s')))"
proof (cases "dhcp_state s = STATE_DHCP_STOP")
  case True
  then show ?thesis using assms reach_wf [OF assms(1)] by (auto simp: DHCP_run_def)
next
  case False
  obtain t s1 where "parseDHCPMSG i s = Inr (t, s1)" "dhcp_state s1 = dhcp_state s"
    "switch_ok t s1 (ret, s', e', drop (if in_sr_udp i then 0 else 1) as)"
    using run_ok [OF reach_wf [OF assms(1)] assms(2) False] by metis
  with False show ?thesis by (auto simp: switch_ok_def)
qed

theorem dhcp_follows_protocol_witness:
  "\<exists>s' as. DHCP_run default_cbs quiet_in demo_dhcp () = Inr (DHCP_RUNNING, s', (), as) \<and> dhcp_wf s' \<and>
     (\<exists>t s1. parseDHCPMSG quiet_in demo_dhcp = Inr (t, s1) \<and> dhcp_next t STATE_DHCP_INIT (dhcp_state s'))"
  using run_discover [OF demo_dhcp_start(1,2), of quiet_in default_cbs "()"]
    dhcp_follows_protocol [OF demo_reach [of default_cbs "()"], of quiet_in] by (auto simp: demo_dhcp_start(2))

text \<open>
  The options of a message as positions: the size of the one at \<open>p\<close>, by its length byte or, for those of a fixed length, by its code, and
  the positions that are reached from \<open>p\<close> before the end \<open>e\<close> or the end option.
\<close>

definition option_size :: "bytes \<Rightarrow> nat \<Rightarrow> nat" where
  "option_size m p = (if m ! p = 0 then 1 else if m ! p = 53 then 3 else if m ! p \<in> {1, 51, 54} then 6 else 2 + unat (m ! (p + 1)))"

inductive option_from :: "bytes \<Rightarrow> nat \<Rightarrow> nat \<Rightarrow> nat \<Rightarrow> bool" for m e where
  here: "option_from m e p p"
| later: "p < e \<Longrightarrow> m ! p \<noteq> 255 \<Longrightarrow> option_from m e (p + option_size m p) q \<Longrightarrow> option_from m e p q"

inductive_cases option_fromE: "option_from m e p q"

text \<open>The last option of type 53 has the value \<open>t\<close>.\<close>

definition message_type :: "bytes \<Rightarrow> nat \<Rightarrow> nat \<Rightarrow> u8 \<Rightarrow> bool" where
  "message_type m e p t \<longleftrightarrow> (\<exists>q. option_from m e p q \<and> q < e \<and> q + 2 < length m \<and> m ! q = 53 \<and> m ! (q + 2) = t \<and>
     (\<forall>r. option_from m e (q + 3) r \<and> r < e \<longrightarrow> m ! r \<noteq> 53))"

lemma dhcp_options_advance:
  assumes "dhcp_options m e p type s = Inr res" and "p < e" and "m ! p \<noteq> 255"
  shows "\<exists>type' s1. dhcp_options m e (p + option_size m p) type' s1 = Inr res \<and>
    (if m ! p = 53 then p + 2 < length m \<and> type' = m ! (p + 2) else type' = type)"
  using assms unfolding dhcp_options.simps [of m e p type s]
  by (auto simp: bindR_eq_Inr buf_at_def option_size_def split: if_splits)

lemma dhcp_options_end: "dhcp_options m e p type s = Inr (t, s') \<Longrightarrow> \<not> p < e \<or> m ! p = 255 \<Longrightarrow> t = type"
  unfolding dhcp_options.simps [of m e p type s] by (auto simp: bindR_eq_Inr buf_at_def split: if_splits)

lemma dhcp_options_type:
  "dhcp_options m e p type s = Inr (t, s') \<Longrightarrow>
     (t = type \<and> (\<forall>r. option_from m e p r \<and> r < e \<longrightarrow> m ! r \<noteq> 53)) \<or> message_type m e p t"
proof (induction "e - p" arbitrary: p type s rule: less_induct)
  case less
  show ?case
  proof (cases "p < e \<and> m ! p \<noteq> 255")
    case False
    then have "t = type" using dhcp_options_end [OF less.prems] by blast
    moreover have "m ! r \<noteq> 53" if "option_from m e p r" "r < e" for r
      using that(1) by (rule option_fromE) (use False that(2) in auto)
    ultimately show ?thesis by blast
  next
    case True
    from dhcp_options_advance [OF less.prems] True obtain type' s1 where
      o: "dhcp_options m e (p + option_size m p) type' s1 = Inr (t, s')"
      and ty: "if m ! p = 53 then p + 2 < length m \<and> type' = m ! (p + 2) else type' = type" by blast
    have "0 < option_size m p" by (simp add: option_size_def)
    then have "e - (p + option_size m p) < e - p" using True by linarith
    from less.hyps [OF this o] show ?thesis
    proof
      assume n: "t = type' \<and> (\<forall>r. option_from m e (p + option_size m p) r \<and> r < e \<longrightarrow> m ! r \<noteq> 53)"
      show ?thesis
      proof (cases "m ! p = 53")
        case 53: True
        then have "option_size m p = 3" by (simp add: option_size_def)
        then have "message_type m e p t"
          unfolding message_type_def using n ty 53 True option_from.here by (intro exI [of _ p]) auto
        then show ?thesis ..
      next
        case False
        have "m ! r \<noteq> 53" if "option_from m e p r" "r < e" for r
          using that(1) by (rule option_fromE) (use n False that(2) in auto)
        then show ?thesis using n ty False by simp
      qed
    next
      assume "message_type m e (p + option_size m p) t"
      then have "message_type m e p t" unfolding message_type_def using option_from.later True by blast
      then show ?thesis ..
    qed
  qed
qed

text \<open>
  C19: An address is leased for the first time only on an acknowledgement.  The client was waiting for the answer to its request, a datagram
  was received, and nobody answered the probe for the address.  If the datagram came from the server port, it has the client's own
  hardware address, and the last message type among its options is \<open>DHCP_ACK\<close>.  If it came from another port, the message type is the
  variable that the parser has not initialised, and that happened to hold the code of an acknowledgement: nothing is asked of the
  datagram then.
\<close>

theorem dhcp_lease_needs_ack:
  assumes "dhcp_reach cbs s e" "DHCP_run cbs i s e = Inr (ret, s', e', as)" "dhcp_state s' = STATE_DHCP_LEASED"
    "dhcp_state s \<notin> {STATE_DHCP_LEASED, STATE_DHCP_REREQUEST}"
    "m = in_data i @ drop (length (in_data i)) (pDHCPMSG s)"
  shows "dhcp_state s = STATE_DHCP_REQUEST \<and> in_rsr i > 0 \<and> in_probe_timeout i \<and>
    (if in_port i = DHCP_SERVER_PORT
     then take 6 (drop 28 m) = DHCP_CHADDR s \<and> message_type m (unat (in_len i)) 240 DHCP_ACK
     else in_stale i = DHCP_ACK)"
proof -
  note wf = reach_wf [OF assms(1)]
  have "dhcp_state s \<noteq> STATE_DHCP_STOP" using assms(2,3) by (auto simp: DHCP_run_def)
  from run_ok [OF wf assms(2) this] obtain t s1 where p: "parseDHCPMSG i s = Inr (t, s1)" "dhcp_state s1 = dhcp_state s"
    and sw: "dhcp_switch cbs i t s1 e = (ret, s', e', drop (if in_sr_udp i then 0 else 1) as)"
    and ok': "switch_ok t s1 (ret, s', e', drop (if in_sr_udp i then 0 else 1) as)"
    by metis
  have ok: "dhcp_next t (dhcp_state s) STATE_DHCP_LEASED" using ok' p(2) assms(3) by (simp add: switch_ok_def)
  from ok assms(4) have t: "t = DHCP_ACK" "dhcp_state s = STATE_DHCP_REQUEST" by (auto elim: dhcp_next_LEASED)
  have "message_type m (unat (in_len i)) 240 DHCP_ACK"
    if "dhcp_options m (unat (in_len i)) 240 0 (s\<lparr>pDHCPMSG := m\<rparr>) = Inr (DHCP_ACK, s1)"
    using dhcp_options_type [OF that] by (auto simp: DHCP_ACK_def)
  then have "in_rsr i > 0 \<and> (if in_port i = DHCP_SERVER_PORT
      then take 6 (drop 28 m) = DHCP_CHADDR s \<and> message_type m (unat (in_len i)) 240 DHCP_ACK else in_stale i = DHCP_ACK)"
    using p(1) t(1) by (auto simp: parseDHCPMSG_def Let_def DHCP_ACK_def assms(5) split: if_splits)
  moreover have "in_probe_timeout i"
    using sw t p(2) assms(3)
    by (auto simp: dhcp_switch_def dhcp_request_state_def check_DHCP_leasedIP_def Let_def split: if_splits prod.splits)
  ultimately show ?thesis using t by simp
qed

theorem dhcp_lease_needs_ack_witness:
  "\<exists>s s' as m. DHCP_run default_cbs (demo_in DHCP_ACK) s () = Inr (DHCP_RUNNING, s', (), as) \<and> dhcp_state s' = STATE_DHCP_LEASED \<and>
     dhcp_state s = STATE_DHCP_REQUEST \<and> m = in_data (demo_in DHCP_ACK) @ drop (length (in_data (demo_in DHCP_ACK))) (pDHCPMSG s) \<and>
     take 6 (drop 28 m) = demo_mac \<and> message_type m (unat (in_len (demo_in DHCP_ACK))) 240 DHCP_ACK"
proof -
  obtain s where s: "dhcp_reach default_cbs s ()" "dhcp_state s = STATE_DHCP_REQUEST" "DHCP_CHADDR s = demo_mac" "dhcp_wf s"
    using demo_requesting .
  obtain s' as where r: "DHCP_run default_cbs (demo_in DHCP_ACK) s () = Inr (DHCP_RUNNING, s', (), as)" "dhcp_state s' = STATE_DHCP_LEASED"
    using demo_leasing [OF s(2-4) default_cbs_assign] by (metis old.unit.exhaust)
  have "in_port (demo_in DHCP_ACK) = DHCP_SERVER_PORT" by (simp add: demo_in_def)
  with dhcp_lease_needs_ack [OF s(1) r _ refl] s(2,3) r show ?thesis by auto
qed

text \<open>
  a renewed lease is never a new address: in a run, a client that has asked for an address keeps
  it until it starts over, whatever address the acknowledgements carry, and the callback for a
  changed address is never called.
\<close>

theorem dhcp_never_notices_change:
  assumes "dhcp_reach cbs s e"
  shows "DHCP_run (cbs\<lparr>dhcp_ip_update := f\<rparr>) i s e = DHCP_run cbs i s e \<and>
    (dhcp_state s \<notin> {STATE_DHCP_INIT, STATE_DHCP_DISCOVER} \<longrightarrow>
       DHCP_run cbs i s e = Inr (ret, s', e', as) \<longrightarrow> DHCP_allocated_ip s' = DHCP_allocated_ip s)"
proof (cases "dhcp_state s = STATE_DHCP_STOP \<or> (\<exists>x. parseDHCPMSG i s = Inl x)")
  case True
  then show ?thesis by (auto simp: DHCP_run_def)
next
  case False
  then obtain t s1 where p: "parseDHCPMSG i s = Inr (t, s1)" by (cases "parseDHCPMSG i s") auto
  have wf: "dhcp_wf s1" using parse_wf [OF reach_wf [OF assms] p] .
  have s1: "dhcp_state s1 = dhcp_state s" "DHCP_allocated_ip s1 = DHCP_allocated_ip s"
    using parseDHCPMSG_frame(1) [OF p] by (simp_all add: same_client_def)
  show ?thesis
    using switch_update_unused [OF wf, of f cbs i t e] switch_ip [of s1 cbs i t e] s1 False
    by (auto simp: DHCP_run_def p split: prod.splits)
qed

theorem dhcp_never_notices_change_witness:
  "\<exists>s s' as. dhcp_state s = STATE_DHCP_REQUEST \<and> DHCP_run default_cbs (demo_in DHCP_ACK) s () = Inr (DHCP_RUNNING, s', (), as) \<and>
     DHCP_allocated_ip s' = DHCP_allocated_ip s"
proof -
  obtain s where s: "dhcp_reach default_cbs s ()" "dhcp_state s = STATE_DHCP_REQUEST" "DHCP_CHADDR s = demo_mac" "dhcp_wf s"
    using demo_requesting .
  obtain s' as where r: "DHCP_run default_cbs (demo_in DHCP_ACK) s () = Inr (DHCP_RUNNING, s', (), as)" "dhcp_state s' = STATE_DHCP_LEASED"
    using demo_leasing [OF s(2-4) default_cbs_assign] by (metis old.unit.exhaust)
  with dhcp_never_notices_change [OF s(1), of default_ip_update "demo_in DHCP_ACK" DHCP_RUNNING s' "()" as] s(2) show ?thesis by auto
qed

theorem dhcp_run_bounds_witness:
  "DHCP_run default_cbs (quiet_in\<lparr>in_rsr := 608, in_data := replicate 600 0, in_len := 600\<rparr>) demo_dhcp () = Inl OutOfBounds"
  using dhcp_run_bounds [OF demo_reach [of default_cbs "()"], of "quiet_in\<lparr>in_rsr := 608, in_data := replicate 600 0, in_len := 600\<rparr>"]
  by (simp add: dhcp_consts demo_dhcp_start(2))

theorem dhcp_second_retry_not_awaited_witness:
  "\<exists>s1 s2. DHCP_run default_cbs quiet_in (demo_dhcp\<lparr>dhcp_state := STATE_DHCP_DISCOVER, dhcp_retry_count := 1, dhcp_tick_1s := 11\<rparr>) () =
      Inr (DHCP_RUNNING, s1, (), [Udp_sendto (discover_msg demo_dhcp) broadcast DHCP_SERVER_PORT]) \<and>
    DHCP_run default_cbs quiet_in s1 () = Inr (DHCP_FAILED, s2, (), [])"
proof -
  let ?s = "demo_dhcp\<lparr>dhcp_state := STATE_DHCP_DISCOVER, dhcp_retry_count := 1, dhcp_tick_1s := 11\<rparr>"
  have "dhcp_wf ?s" using demo_dhcp_start(1) by (intro dhcp_wf_upd) (simp_all add: dhcp_consts)
  moreover have "discover_msg ?s = discover_msg demo_dhcp" by (rule msg_fields) simp_all
  ultimately show ?thesis
    using dhcp_second_retry_not_awaited [of ?s quiet_in default_cbs "()"] by (auto simp: dhcp_consts)
qed

text \<open>
  the option parser inverts the encoding: options of their prescribed lengths, in any order and
  with others between them, set exactly the fields they are for, and the loop ends at the end option.
\<close>

theorem dhcp_options_roundtrip:
  assumes "list_all option_ok opts" "p + length (tlv opts) < e" "length pre = p"
  shows "dhcp_options (pre @ tlv opts @ 255 # r) e p t s = Inr (foldl apply_option (t, s) opts)"
  using assms by (intro dhcp_options_tlv) auto

theorem dhcp_options_roundtrip_witness:
  "dhcp_options ([9, 9] @ tlv [(12, [65]), (53, [5]), (3, [10, 0, 0, 1, 10, 0, 0, 2])] @ 255 # []) 20 2 0 demo_dhcp =
     Inr (5, demo_dhcp\<lparr>DHCP_allocated_gw := [10, 0, 0, 1]\<rparr>)"
  using dhcp_options_roundtrip [of "[(12, [65]), (53, [5]), (3, [10, 0, 0, 1, 10, 0, 0, 2])]" 2 20 "[9, 9]" "[]" 0 demo_dhcp]
  by (simp add: option_ok_def apply_option_def)

end
