(* ===== verification/Dns.thy ===== *)
theory Dns
  imports Board
begin

text \<open>
  The DNS client \<open>Middlewares/Eth/dns.c\<close>: domain names, the query, the parser of replies and the
  request loop.  A pointer into the message is its index; the message is the whole shared buffer,
  since the parser is not told how much of it was received.
\<close>

section \<open>Constants and header\<close>

definition MAX_DOMAIN_NAME :: nat where "MAX_DOMAIN_NAME = 16"
definition MAXCNAME :: nat where "MAXCNAME = MAX_DOMAIN_NAME + MAX_DOMAIN_NAME div 2"
definition MAX_DNS_BUF_SIZE :: u16 where "MAX_DNS_BUF_SIZE = 256"
definition MAX_DNS_RETRY :: u8 where "MAX_DNS_RETRY = 2"
definition DNS_WAIT_TIME :: u32 where "DNS_WAIT_TIME = 3"
definition DNS_MSG_ID :: u16 where "DNS_MSG_ID = 0x1122"

lemma MAXCNAME_eq: "MAXCNAME = 24"
  by (simp add: MAXCNAME_def MAX_DOMAIN_NAME_def)

record dhdr =
  dh_id :: u16
  qr :: u8
  opcode :: u8
  aa :: u8
  tc :: u8
  rd :: u8
  ra :: u8
  rcode :: u8
  qdcount :: u16
  ancount :: u16
  nscount :: u16
  arcount :: u16

definition get16 :: "bytes \<Rightarrow> nat \<Rightarrow> u16 c_result" where
  "get16 s i = bindR (buf_at s i) (\<lambda>h. bindR (buf_at s (i + 1)) (\<lambda>l. Inr (push_bit 8 (ucast h) + ucast l)))"

definition put16 :: "u16 \<Rightarrow> bytes" where
  "put16 i = [ucast (drop_bit 8 i), ucast i]"

section \<open>Names\<close>

text \<open>
  One segment length at \<open>cp\<close>, following an indirection: the length, the index after it, whether a
  pointer has been followed, and how much the compressed name has grown.
\<close>

definition segment :: "bytes \<Rightarrow> nat \<Rightarrow> bool \<Rightarrow> (nat \<times> nat \<times> bool \<times> int) c_result" where
  "segment msg cp indirect =
     bindR (buf_at msg cp) (\<lambda>b.
       if b AND 0xc0 = 0xc0 then
         bindR (buf_at msg (cp + 1)) (\<lambda>l.
           let t = unat (b AND 0x3f) * 256 + unat l
           in bindR (buf_at msg t) (\<lambda>b'. Inr (unat b', t + 1, True, if indirect then 0 else 2)))
       else Inr (unat b, cp + 1, indirect, if indirect then 0 else 1))"

text \<open>
  The loop of \<open>parse_name\<close>.  \<open>cap\<close> is the size of the output array and \<open>out\<close> what has been written
  to it; the result is the length of the compressed name, or -1.
\<close>

function parse_loop :: "bytes \<Rightarrow> nat \<Rightarrow> nat \<Rightarrow> bool \<Rightarrow> int \<Rightarrow> int \<Rightarrow> bytes \<Rightarrow> (int \<times> bytes) c_result" where
  "parse_loop msg cap cp indirect clen len out =
     bindR (segment msg cp indirect) (\<lambda>(slen, cp1, ind, k).
       if slen = 0 then Inr (clen + k, out)
       else let len1 = len - (int slen + 1)
            in if len1 < 0 then Inr (-1, out)
               else if cp1 + slen \<le> length msg \<and> length out + slen + 1 \<le> cap then
                 parse_loop msg cap (cp1 + slen) ind (clen + k + (if ind then 0 else int slen)) len1
                   (out @ take slen (drop cp1 msg) @ [46])
               else Inl OutOfBounds)"
  by pat_completeness auto
termination
  by (relation "measure (\<lambda>(msg, cap, cp, indirect, clen, len, out). nat len)") auto

declare parse_loop.simps [simp del]

text \<open>The root name is a single dot; the terminating NUL is stored without a check.\<close>

definition parse_name :: "bytes \<Rightarrow> nat \<Rightarrow> nat \<Rightarrow> int \<Rightarrow> (int \<times> bytes) c_result" where
  "parse_name msg compressed cap len =
     bindR (parse_loop msg cap compressed False 0 len []) (\<lambda>(clen, out).
       if clen = -1 then Inr (-1, out)
       else let out1 = (if out = [] then [46] else out) @ [0]
            in if length out1 \<le> cap then Inr (clen, out1) else Inl OutOfBounds)"

section \<open>Records\<close>

text \<open>The result \<open>None\<close> is the null pointer.\<close>

definition skip_name :: "bytes \<Rightarrow> nat \<Rightarrow> nat option c_result" where
  "skip_name msg cp =
     bindR (parse_name msg cp MAXCNAME (int MAXCNAME)) (\<lambda>(len, _).
       Inr (if len = -1 then None else Some (cp + nat len)))"

definition dns_question :: "bytes \<Rightarrow> nat \<Rightarrow> nat option c_result" where
  "dns_question msg cp = bindR (skip_name msg cp) (\<lambda>r. Inr (map_option (\<lambda>cp. cp + 4) r))"

definition then_ptr :: "nat option c_result \<Rightarrow> (nat \<Rightarrow> (nat option \<times> bytes) c_result) \<Rightarrow> bytes \<Rightarrow> (nat option \<times> bytes) c_result" where
  "then_ptr m f ip = bindR m (\<lambda>r. case r of None \<Rightarrow> Inr (None, ip) | Some cp \<Rightarrow> f cp)"

definition TYPE_A :: u16 where "TYPE_A = 1"
definition TYPE_NS :: u16 where "TYPE_NS = 2"
definition TYPE_CNAME :: u16 where "TYPE_CNAME = 5"
definition TYPE_SOA :: u16 where "TYPE_SOA = 6"
definition TYPE_MB :: u16 where "TYPE_MB = 7"
definition TYPE_MG :: u16 where "TYPE_MG = 8"
definition TYPE_MR :: u16 where "TYPE_MR = 9"
definition TYPE_PTR :: u16 where "TYPE_PTR = 12"
definition TYPE_HINFO :: u16 where "TYPE_HINFO = 13"
definition TYPE_MX :: u16 where "TYPE_MX = 15"

lemmas dns_types = TYPE_A_def TYPE_NS_def TYPE_CNAME_def TYPE_SOA_def TYPE_MB_def TYPE_MG_def TYPE_MR_def
  TYPE_PTR_def TYPE_HINFO_def TYPE_MX_def

definition dns_answer :: "bytes \<Rightarrow> nat \<Rightarrow> bytes \<Rightarrow> (nat option \<times> bytes) c_result" where
  "dns_answer msg cp0 ip =
     then_ptr (skip_name msg cp0) (\<lambda>cp1.
       bindR (get16 msg cp1) (\<lambda>type.
         let cp = cp1 + 10
         in if type = TYPE_A then
              (if cp + 4 \<le> length msg then Inr (Some (cp + 4), take 4 (drop cp msg)) else Inl OutOfBounds)
            else if type \<in> {TYPE_CNAME, TYPE_MB, TYPE_MG, TYPE_MR, TYPE_NS, TYPE_PTR} then
              then_ptr (skip_name msg cp) (\<lambda>c. Inr (Some c, ip)) ip
            else if type = TYPE_HINFO then
              bindR (buf_at msg cp) (\<lambda>l1. let c = cp + 1 + unat l1 in
              bindR (buf_at msg c) (\<lambda>l2. Inr (Some (c + 1 + unat l2), ip)))
            else if type = TYPE_MX then then_ptr (skip_name msg (cp + 2)) (\<lambda>c. Inr (Some c, ip)) ip
            else if type = TYPE_SOA then
              then_ptr (skip_name msg cp) (\<lambda>c. then_ptr (skip_name msg c) (\<lambda>c'. Inr (Some (c' + 20), ip)) ip) ip
            else Inr (Some cp, ip))) ip"

fun questions :: "bytes \<Rightarrow> nat \<Rightarrow> nat \<Rightarrow> nat option c_result" where
  "questions msg cp 0 = Inr (Some cp)"
| "questions msg cp (Suc n) =
     bindR (dns_question msg cp) (\<lambda>r. case r of None \<Rightarrow> Inr None | Some c \<Rightarrow> questions msg c n)"

fun answers :: "bytes \<Rightarrow> nat \<Rightarrow> nat \<Rightarrow> bytes \<Rightarrow> (nat option \<times> bytes) c_result" where
  "answers msg cp 0 ip = Inr (Some cp, ip)"
| "answers msg cp (Suc n) ip =
     bindR (dns_answer msg cp ip) (\<lambda>(r, ip'). case r of None \<Rightarrow> Inr (None, ip') | Some c \<Rightarrow> answers msg c n ip')"

section \<open>Replies\<close>

text \<open>
  The header.  \<open>memset\<close> with the size of the pointer clears only the first four bytes of the record:
  the flags \<open>aa\<close> to \<open>ra\<close> keep what the record held unless their bit is set.
\<close>

definition parse_header :: "dhdr \<Rightarrow> bytes \<Rightarrow> dhdr c_result" where
  "parse_header d msg =
     bindR (get16 msg 0) (\<lambda>i. bindR (get16 msg 2) (\<lambda>tmp. bindR (get16 msg 4) (\<lambda>q. bindR (get16 msg 6) (\<lambda>a.
     bindR (get16 msg 8) (\<lambda>ns. bindR (get16 msg 10) (\<lambda>ar.
       Inr (d\<lparr>dh_id := i, qr := if tmp AND 0x8000 \<noteq> 0 then 1 else 0, opcode := ucast (drop_bit 11 tmp AND 0xf),
              aa := if tmp AND 0x0400 \<noteq> 0 then 1 else aa d, tc := if tmp AND 0x0200 \<noteq> 0 then 1 else tc d,
              rd := if tmp AND 0x0100 \<noteq> 0 then 1 else rd d, ra := if tmp AND 0x0080 \<noteq> 0 then 1 else ra d,
              rcode := ucast (tmp AND 0xf), qdcount := q, ancount := a, nscount := ns, arcount := ar\<rparr>)))))))"

definition parseDNSMSG :: "dhdr \<Rightarrow> bytes \<Rightarrow> bytes \<Rightarrow> (int \<times> dhdr \<times> bytes) c_result" where
  "parseDNSMSG pdhdr msg ip =
     bindR (parse_header pdhdr msg) (\<lambda>d.
     bindR (questions msg 12 (unat (qdcount d))) (\<lambda>r. case r of None \<Rightarrow> Inr (-1, d, ip) | Some cp \<Rightarrow>
     bindR (answers msg cp (unat (ancount d)) ip) (\<lambda>(r', ip'). case r' of None \<Rightarrow> Inr (-1, d, ip') | Some _ \<Rightarrow>
       Inr (if rcode d = 0 then 1 else 0, d, ip'))))"

section \<open>Queries\<close>

text \<open>The labels of a name: each segment up to a dot with its length in front.\<close>

function write_labels :: "bytes \<Rightarrow> bytes" where
  "write_labels dname =
     (let l = takeWhile (\<lambda>b. b \<noteq> 46) dname; r = dropWhile (\<lambda>b. b \<noteq> 46) dname
      in of_nat (length l) #
         (if l = [] then [] else if r = [] then l @ [0] else l @ write_labels (tl r)))"
  by pat_completeness auto
termination
proof (relation "measure length")
  fix dname l r :: bytes
  assume "l = takeWhile (\<lambda>b. b \<noteq> 46) dname" "r = dropWhile (\<lambda>b. b \<noteq> 46) dname" "l \<noteq> []" "r \<noteq> []"
  then have "length dname = length l + length r" by (metis length_append takeWhile_dropWhile_id)
  then show "(tl r, dname) \<in> measure length" using \<open>l \<noteq> []\<close> \<open>r \<noteq> []\<close> by (cases r) auto
qed simp

declare write_labels.simps [simp del]

text \<open>
  \<open>dns_makequery\<close>: the new message number and the bytes stored.  \<open>strcpy\<close> into \<open>sname\<close> overruns when
  the name does not fit; the buffer must hold the query.
\<close>

definition dns_makequery :: "u16 \<Rightarrow> bytes \<Rightarrow> nat \<Rightarrow> u16 \<Rightarrow> (u16 \<times> bytes) c_result" where
  "dns_makequery op name bufsize msgid =
     (let q = put16 (msgid + 1) @ put16 (push_bit 11 op OR 0x0100) @ put16 1 @ put16 0 @ put16 0 @ put16 0
              @ write_labels name @ put16 1 @ put16 1
      in if length name < MAXCNAME \<and> length q \<le> bufsize then Inr (msgid + 1, q) else Inl OutOfBounds)"

section \<open>The request\<close>

record dns =
  dns_1s_tick :: u32
  retry_count :: u8
  DNS_MSGID :: u16
  pDNSMSG :: bytes

definition check_DNS_timeout :: "dns \<Rightarrow> int \<times> dns" where
  "check_DNS_timeout s =
     (if dns_1s_tick s \<ge> DNS_WAIT_TIME then
        (let s1 = s\<lparr>dns_1s_tick := 0\<rparr>
         in if retry_count s1 \<ge> MAX_DNS_RETRY then (-1, s1\<lparr>retry_count := 0\<rparr>)
            else (0, s1\<lparr>retry_count := retry_count s1 + 1\<rparr>))
      else (1, s))"

definition DNS_init :: "bytes \<Rightarrow> dns \<Rightarrow> dns" where
  "DNS_init buf s = s\<lparr>pDNSMSG := buf, DNS_MSGID := DNS_MSG_ID\<rparr>"

definition DNS_time_handler :: "dns \<Rightarrow> dns" where
  "DNS_time_handler s = s\<lparr>dns_1s_tick := dns_1s_tick s + 1\<rparr>"

text \<open>
  The socket calls of a request, and what one turn of its loop finds: the seconds that pass before
  the turn, the size of the received data, and the bytes that \<open>recvfrom\<close> stores (none when it fails).
\<close>

datatype dns_action = Socket_udp | Sendto bytes bytes | Recvfrom | Close_socket

record dns_turn =
  dt_rsr :: u16
  dt_datagram :: bytes
  dt_ticks :: nat

text \<open>
  The loop of \<open>DNS_run\<close>.  \<open>len\<close> is the local variable, which the test for received data overwrites;
  \<open>dhp\<close> is the uninitialised header record.  When the turns are used up, the loop is still
  waiting: \<open>None\<close>.
\<close>

fun run_loop :: "dns_turn list \<Rightarrow> bytes \<Rightarrow> dhdr \<Rightarrow> bytes \<Rightarrow> dns \<Rightarrow> (int \<times> bytes \<times> dns \<times> dns_action list) option c_result" where
  "run_loop [] dip dhp ip s = Inr None"
| "run_loop (t # ts) dip dhp ip s =
     (let s0 = (DNS_time_handler ^^ dt_ticks t) s; len = dt_rsr t
      in if len > 0 then
           (let n = unat (if len > MAX_DNS_BUF_SIZE then MAX_DNS_BUF_SIZE else len);
                d = take n (dt_datagram t);
                s1 = s0\<lparr>pDNSMSG := d @ drop (length d) (pDNSMSG s0)\<rparr>
            in if length d \<le> length (pDNSMSG s0) then
                 bindR (parseDNSMSG dhp (pDNSMSG s1) ip) (\<lambda>(ret, _, ip').
                   Inr (Some (ret, ip', s1, [Recvfrom, Close_socket])))
               else Inl OutOfBounds)
         else
           (let (r, s1) = check_DNS_timeout s0
            in if r < 0 then Inr (Some (0, ip, s1, []))
               else bindR (run_loop ts dip dhp ip s1) (\<lambda>x.
                 Inr (map_option (\<lambda>(ret, ip', s', as).
                   (ret, ip', s', (if r = 0 then [Sendto dip (take (unat len) (pDNSMSG s1))] else []) @ as)) x))))"

definition DNS_run :: "dns_turn list \<Rightarrow> bytes \<Rightarrow> dhdr \<Rightarrow> bytes \<Rightarrow> bytes \<Rightarrow> dns \<Rightarrow>
    (int \<times> bytes \<times> dns \<times> dns_action list) option c_result" where
  "DNS_run turns dip dhp name ip s =
     bindR (string_of name) (\<lambda>nm.
     bindR (dns_makequery 0 nm (length (pDNSMSG s)) (DNS_MSGID s)) (\<lambda>(mid, q).
       let s1 = s\<lparr>DNS_MSGID := mid, pDNSMSG := q @ drop (length q) (pDNSMSG s)\<rparr>
       in bindR (run_loop turns dip dhp ip s1) (\<lambda>x.
            Inr (map_option (\<lambda>(ret, ip', s', as). (ret, ip', s', [Socket_udp, Sendto dip q] @ as)) x))))"

section \<open>Names that are encoded and decoded\<close>

text \<open>A domain name by its labels: as text, and as a DNS message holds it.\<close>

definition label_ok :: "bytes \<Rightarrow> bool" where
  "label_ok l \<longleftrightarrow> l \<noteq> [] \<and> 46 \<notin> set l \<and> length l < 64"

fun dotted :: "bytes list \<Rightarrow> bytes" where
  "dotted [] = []"
| "dotted [l] = l"
| "dotted (l # ls) = l @ 46 # dotted ls"

definition labels :: "bytes list \<Rightarrow> bytes" where
  "labels ls = concat (map (\<lambda>l. of_nat (length l) # l) ls)"

definition human :: "bytes list \<Rightarrow> bytes" where
  "human ls = concat (map (\<lambda>l. l @ [46]) ls)"

lemma labels_simps [simp]:
  "labels [] = []" "labels (l # ls) = of_nat (length l) # l @ labels ls"
  by (simp_all add: labels_def)

lemma human_simps [simp]: "human [] = []" "human (l # ls) = l @ 46 # human ls"
  by (simp_all add: human_def)

lemma length_labels: "length (labels ls) = length (human ls)"
  by (induction ls) auto

lemma human_dotted: "ls \<noteq> [] \<Longrightarrow> human ls = dotted ls @ [46]"
  by (induction ls rule: dotted.induct) auto

lemma takeWhile_label: "46 \<notin> set l \<Longrightarrow> takeWhile (\<lambda>b. b \<noteq> 46) (l @ 46 # r) = l"
  "46 \<notin> set l \<Longrightarrow> dropWhile (\<lambda>b. b \<noteq> 46) (l @ 46 # r) = 46 # r"
  by (subst takeWhile_append2, auto) (subst dropWhile_append2, auto)

lemma takeWhile_last_label: "46 \<notin> set l \<Longrightarrow> takeWhile (\<lambda>b. b \<noteq> (46 :: u8)) l = l"
  "46 \<notin> set l \<Longrightarrow> dropWhile (\<lambda>b. b \<noteq> (46 :: u8)) l = []"
  by (auto simp: takeWhile_eq_all_conv dropWhile_eq_Nil_conv)

lemma write_labels_dotted:
  "ls \<noteq> [] \<Longrightarrow> list_all label_ok ls \<Longrightarrow> write_labels (dotted ls) = labels ls @ [0]"
proof (induction ls rule: dotted.induct)
  case (2 l)
  then show ?case by (simp add: write_labels.simps [of l] label_ok_def takeWhile_last_label)
next
  case (3 l m ls)
  then show ?case
    by (simp add: write_labels.simps [of "l @ 46 # dotted (m # ls)"] label_ok_def takeWhile_label)
qed simp

text \<open>A length byte of at most 63 is not an indirection.\<close>

lemma small_length_byte:
  assumes "n < 64"
  shows "(of_nat n :: u8) AND 0xc0 \<noteq> 0xc0" "unat (of_nat n :: u8) = n"
proof -
  have "\<forall>n \<in> set [0..<64]. (of_nat n :: u8) AND 0xc0 \<noteq> 0xc0" by code_simp
  then show "(of_nat n :: u8) AND 0xc0 \<noteq> 0xc0" using assms by simp
  show "unat (of_nat n :: u8) = n" using assms by (simp add: unat_of_nat)
qed

lemma segment_plain:
  assumes "drop cp msg = of_nat n # r" "n < 64"
  shows "segment msg cp ind = Inr (n, Suc cp, ind, if ind then 0 else 1)"
  using drop_ConsD [OF assms(1)] small_length_byte [OF assms(2)] by (simp add: segment_def buf_at_def)

lemma parse_loop_labels:
  assumes "list_all label_ok ls" "drop cp msg = labels ls @ 0 # post"
    "int (length (human ls)) \<le> len" "length out + length (human ls) \<le> cap"
  shows "parse_loop msg cap cp ind clen len out =
           Inr (clen + (if ind then 0 else int (length (labels ls)) + 1), out @ human ls)"
  using assms
proof (induction ls arbitrary: cp clen len out)
  case Nil
  then have "segment msg cp ind = Inr (0, Suc cp, ind, if ind then 0 else 1)"
    using segment_plain [of cp msg 0] by simp
  then show ?case by (simp add: parse_loop.simps [of _ _ cp])
next
  case (Cons l ls)
  let ?n = "length l"
  have seg: "segment msg cp ind = Inr (?n, Suc cp, ind, if ind then 0 else 1)"
    using Cons.prems(1,2) by (intro segment_plain) (auto simp: label_ok_def)
  have d: "drop (Suc cp) msg = l @ labels ls @ 0 # post"
    using Cons.prems(2) by (auto dest: drop_ConsD)
  have "drop (Suc (cp + ?n)) msg = drop ?n (drop (Suc cp) msg)" by (simp add: add.commute)
  with d have d': "drop (Suc (cp + ?n)) msg = labels ls @ 0 # post" "take ?n (drop (Suc cp) msg) = l"
    by simp_all
  have fits: "Suc (cp + ?n) \<le> length msg" using arg_cong [OF d, of length] by (simp split: nat_diff_split_asm)
  have "l \<noteq> []" using Cons.prems(1) by (simp add: label_ok_def)
  then show ?case
    using Cons.prems(1,3,4) fits d'
    by (simp add: parse_loop.simps [of _ _ cp] seg Let_def Cons.IH [of "Suc (cp + ?n)"])
qed

text \<open>An indirection at the front of a name continues at its target.\<close>

lemma parse_loop_pointer:
  assumes "drop cp msg = 0xc0 # of_nat t # r" "t < 256" "drop t msg = of_nat n # r'" "n < 64"
  shows "parse_loop msg cap cp False clen len out = parse_loop msg cap t True (clen + 2) len out"
proof -
  have "segment msg cp False = Inr (n, Suc t, True, 2)"
    using drop_ConsD [OF assms(1)] drop_ConsD [of "Suc cp" msg "of_nat t" r] drop_ConsD [OF assms(3)] assms(2)
      small_length_byte [OF assms(4)]
    by (simp add: segment_def buf_at_def unat_of_nat)
  moreover have "segment msg t True = Inr (n, Suc t, True, 0)"
    using segment_plain [OF assms(3,4)] by simp
  ultimately show ?thesis by (simp add: parse_loop.simps [of msg cap cp] parse_loop.simps [of msg cap t])
qed

text \<open>What \<open>parse_name\<close> does with a name of the message, written out or reached by an indirection.\<close>

definition parsed :: "nat \<Rightarrow> nat \<Rightarrow> bytes list \<Rightarrow> (int \<times> bytes) c_result" where
  "parsed cap clen ls = (if length (human ls) < cap then Inr (int clen, human ls @ [0]) else Inl OutOfBounds)"

lemma parse_name_labels:
  assumes "list_all label_ok ls" "ls \<noteq> []" "drop cp msg = labels ls @ 0 # post" "length (human ls) \<le> cap"
  shows "parse_name msg cp cap (int cap) = parsed cap (length (labels ls) + 1) ls"
  using parse_loop_labels [OF assms(1,3), of "int cap" "[]" cap False 0] assms(2,4)
  by (cases ls) (auto simp: parse_name_def parsed_def Let_def)

lemma labels_head: "list_all label_ok ls \<Longrightarrow> \<exists>n r. labels ls @ 0 # post = of_nat n # r \<and> n < 64"
proof (cases ls)
  case Nil
  then have "labels ls @ 0 # post = of_nat 0 # post" by simp
  then show ?thesis by (intro exI [of _ 0] exI [of _ post]) simp
next
  case (Cons l ms)
  moreover assume "list_all label_ok ls"
  ultimately show ?thesis by (auto simp: label_ok_def)
qed

lemma parse_name_pointer:
  assumes "list_all label_ok ls" "ls \<noteq> []" "drop t msg = labels ls @ 0 # post" "length (human ls) \<le> cap"
    "drop cp msg = 0xc0 # of_nat t # r" "t < 256"
  shows "parse_name msg cp cap (int cap) = parsed cap 2 ls"
proof -
  obtain n r' where n: "labels ls @ 0 # post = of_nat n # r'" "n < 64" using labels_head [OF assms(1)] by blast
  have "parse_loop msg cap cp False 0 (int cap) [] = parse_loop msg cap t True 2 (int cap) []"
    using parse_loop_pointer [OF assms(5,6), of n r'] assms(3) n by simp
  with parse_loop_labels [OF assms(1,3), of "int cap" "[]" cap True 2] assms(2,4) show ?thesis
    by (cases ls) (auto simp: parse_name_def parsed_def Let_def)
qed

text \<open>
  the question a query carries is read back by the parser: for a name of at most 22 characters the
  parser skips exactly the question and has written the name with a final dot; a name of 23
  characters, which \<open>dns_makequery\<close> still accepts, makes it store the NUL one byte past its array.
\<close>

theorem dns_query_question:
  assumes "list_all label_ok ls" "ls \<noteq> []" "length (dotted ls) < MAXCNAME"
    "dns_makequery 0 (dotted ls) cap mid = Inr (mid', q)"
  shows "parse_name (q @ rest) 12 MAXCNAME (int MAXCNAME) =
           (if length (dotted ls) = 23 then Inl OutOfBounds
            else Inr (int (length (dotted ls)) + 2, dotted ls @ [46, 0])) \<and>
         (length (dotted ls) < 23 \<longrightarrow> dns_question (q @ rest) 12 = Inr (Some (length q)))"
proof -
  have q: "q = put16 (mid + 1) @ put16 0x0100 @ put16 1 @ put16 0 @ put16 0 @ put16 0 @ labels ls @ [0] @ put16 1 @ put16 1"
    using assms(4) by (auto simp: dns_makequery_def Let_def write_labels_dotted assms(1,2) split: if_splits)
  then have d: "drop 12 (q @ rest) = labels ls @ 0 # (put16 1 @ put16 1 @ rest)" by (simp add: put16_def)
  have h: "human ls = dotted ls @ [46]" using assms(2) by (rule human_dotted)
  have "length q = 12 + length (labels ls) + 5" unfolding q by (simp add: put16_def)
  moreover have "parse_name (q @ rest) 12 MAXCNAME (int MAXCNAME) = parsed MAXCNAME (length (labels ls) + 1) ls"
    using assms(3) by (intro parse_name_labels [OF assms(1,2) d]) (simp add: h)
  ultimately show ?thesis
    using assms(3) by (auto simp: parsed_def h length_labels MAXCNAME_eq dns_question_def skip_name_def)
qed

definition lot_zxbike :: "bytes list" where
  "lot_zxbike = [str_bytes ''lot'', str_bytes ''zxbike'', str_bytes ''cc'']"

definition lot_query :: bytes where
  "lot_query = [0x11, 0x23, 1, 0, 0, 1, 0, 0, 0, 0, 0, 0] @ labels lot_zxbike @ [0, 0, 1, 0, 1]"

theorem dns_query_question_witness:
  "dns_question (lot_query @ [7]) 12 = Inr (Some 31)"
proof -
  have "list_all label_ok lot_zxbike" "lot_zxbike \<noteq> []" "length (dotted lot_zxbike) < 23" "length lot_query = 31"
    by code_simp+
  moreover have "dns_makequery 0 (dotted lot_zxbike) 256 0x1122 = Inr (0x1123, lot_query)"
    by code_simp
  ultimately show ?thesis
    using dns_query_question [of lot_zxbike 256 "0x1122" "0x1123" lot_query "[7]"] by (simp add: MAXCNAME_eq)
qed

section \<open>A reply with the address\<close>

text \<open>
  The usual reply: the question again, and one A record whose name is an indirection to it.
\<close>

definition a_reply :: "u16 \<Rightarrow> u16 \<Rightarrow> bytes list \<Rightarrow> bytes \<Rightarrow> bytes \<Rightarrow> bytes" where
  "a_reply i flags ls ttl ip =
     put16 i @ put16 flags @ put16 1 @ put16 1 @ put16 0 @ put16 0 @ labels ls @ [0] @ put16 1 @ put16 1
       @ [0xc0, 12] @ put16 1 @ put16 1 @ ttl @ put16 4 @ ip"

lemma u16_bytes: "push_bit 8 (ucast (ucast (drop_bit 8 w) :: u8)) + ucast (ucast w :: u8) = (w :: u16)"
  by (subst disjunctive_add) (auto intro!: bit_word_eqI simp: bit_simps)

lemma get16_put16: "drop i s = put16 w @ r \<Longrightarrow> get16 s i = Inr w"
  using drop_ConsD [of i s] drop_ConsD [of "Suc i" s] u16_bytes [of w] by (simp add: get16_def put16_def buf_at_def)

lemma get16_header:
  assumes "m = put16 a @ put16 b @ put16 c @ put16 d @ put16 e @ put16 f @ r"
  shows "get16 m 0 = Inr a" "get16 m 2 = Inr b" "get16 m 4 = Inr c" "get16 m 6 = Inr d" "get16 m 8 = Inr e"
    "get16 m 10 = Inr f"
  unfolding assms by (simp_all add: get16_def put16_def buf_at_def u16_bytes)

lemma parse_header_a_reply:
  assumes "flags AND 0xf = 0"
  shows "\<exists>d'. parse_header d (a_reply i flags ls ttl ip @ rest) = Inr d' \<and>
           qdcount d' = 1 \<and> ancount d' = 1 \<and> rcode d' = 0 \<and> dh_id d' = i"
proof -
  note g = get16_header [of "a_reply i flags ls ttl ip @ rest", OF a_reply_def [THEN arg_cong2 [where f = append, OF _ refl], simplified append_assoc]]
  show ?thesis using assms by (simp add: parse_header_def g)
qed

lemma a_reply_answer:
  assumes "list_all label_ok ls" "ls \<noteq> []" "length (dotted ls) < 23" "length ttl = 4" "length ip = 4"
  shows "dns_question (a_reply i flags ls ttl ip @ rest) 12 = Inr (Some (17 + length (labels ls)))"
    "dns_answer (a_reply i flags ls ttl ip @ rest) (17 + length (labels ls)) ip0 =
       Inr (Some (33 + length (labels ls)), ip)"
proof -
  define m where "m = a_reply i flags ls ttl ip @ rest"
  let ?n = "length (labels ls)"
  have h: "length (human ls) < MAXCNAME" "length (human ls) \<le> MAXCNAME"
    using assms(3) human_dotted [OF assms(2)] by (simp_all add: MAXCNAME_eq)
  let ?r = "put16 1 @ put16 1 @ [0xc0, 12] @ put16 1 @ put16 1 @ ttl @ put16 4 @ ip @ rest"
  have d: "drop 12 m = labels ls @ 0 # ?r" by (simp add: m_def a_reply_def put16_def)
  have "drop (Suc ?n) (drop 12 m) = ?r" unfolding d by simp
  then have "drop (13 + ?n) m = ?r" by (simp add: add.commute)
  then have e: "drop (k + (13 + ?n)) m = drop k ?r" for k by (simp only: drop_drop [symmetric])
  have p: "drop (17 + ?n) m = 0xc0 # of_nat 12 # put16 1 @ put16 1 @ ttl @ put16 4 @ ip @ rest"
    using e [of 4] by (simp add: put16_def)
  have ty: "get16 m (19 + ?n) = Inr 1"
    using e [of 6] by (intro get16_put16 [of _ _ _ "put16 1 @ ttl @ put16 4 @ ip @ rest"]) (simp add: put16_def)
  have ip: "drop (29 + ?n) m = ip @ rest" using e [of 16] assms(4) by (simp add: put16_def)
  have l: "33 + ?n \<le> length m" using assms(4,5) by (simp add: m_def a_reply_def put16_def)
  show "dns_question (a_reply i flags ls ttl ip @ rest) 12 = Inr (Some (17 + ?n))"
    unfolding m_def [symmetric]
    using parse_name_labels [OF assms(1,2) d h(2)] h by (simp add: dns_question_def skip_name_def parsed_def)
  show "dns_answer (a_reply i flags ls ttl ip @ rest) (17 + ?n) ip0 = Inr (Some (33 + ?n), ip)"
    unfolding m_def [symmetric]
    using parse_name_pointer [OF assms(1,2) d h(2) p] h ty ip l assms(5)
    by (simp add: dns_answer_def skip_name_def parsed_def then_ptr_def TYPE_A_def Let_def)
qed

lemma a_reply_parsed:
  assumes "list_all label_ok ls" "ls \<noteq> []" "length (dotted ls) < 23" "length ttl = 4" "length ip = 4"
    "flags AND 0xf = 0"
  shows "\<exists>d'. parseDNSMSG d (a_reply i flags ls ttl ip @ rest) ip0 = Inr (1, d', ip)"
proof -
  obtain d' where d': "parse_header d (a_reply i flags ls ttl ip @ rest) = Inr d'"
      "qdcount d' = 1" "ancount d' = 1" "rcode d' = 0"
    using parse_header_a_reply [OF assms(6)] by blast
  with a_reply_answer [OF assms(1-5)] show ?thesis
    by (simp add: parseDNSMSG_def unsigned_1)
qed

text \<open>
  a reply of that form, with any identification and any flags whose response code is zero, gives
  success and its address, whatever follows it in the buffer.
\<close>

theorem dns_a_reply:
  assumes "list_all label_ok ls" "ls \<noteq> []" "length (dotted ls) < 23" "length ttl = 4" "length ip = 4"
    "flags AND 0xf = 0"
  shows "\<exists>d'. parseDNSMSG d (a_reply i flags ls ttl ip @ rest) ip0 = Inr (1, d', ip)"
  using assms by (rule a_reply_parsed)

definition no_dhdr :: dhdr where
  "no_dhdr = \<lparr>dh_id = 0, qr = 0, opcode = 0, aa = 0, tc = 0, rd = 0, ra = 0, rcode = 0,
     qdcount = 0, ancount = 0, nscount = 0, arcount = 0\<rparr>"

theorem dns_a_reply_witness:
  "\<exists>d'. parseDNSMSG no_dhdr (a_reply 0x1123 0x8180 lot_zxbike [0, 0, 1, 44] [47, 96, 3, 9] @ [1, 2]) [] = Inr (1, d', [47, 96, 3, 9])"
proof (rule dns_a_reply)
  show "list_all label_ok lot_zxbike" "lot_zxbike \<noteq> []" "length (dotted lot_zxbike) < 23" by code_simp+
qed simp_all

section \<open>A request\<close>

lemma ticks: "(DNS_time_handler ^^ n) s = s\<lparr>dns_1s_tick := dns_1s_tick s + of_nat n\<rparr>"
  by (induction n) (simp_all add: DNS_time_handler_def ac_simps)

definition passed :: "dns_turn list \<Rightarrow> nat" where
  "passed ts = sum_list (map dt_ticks ts)"

lemma passed_simps [simp]: "passed [] = 0" "passed (t # ts) = dt_ticks t + passed ts"
  by (simp_all add: passed_def)

lemma unat_tick: "unat (w :: u32) + n < 3 \<Longrightarrow> unat (w + of_nat n) = unat w + n"
  by (subst unat_add_lem [THEN iffD1]) (simp_all add: unat_of_nat)

text \<open>Turns without data before the wait is over change nothing but the clock.\<close>

lemma run_loop_quiet:
  assumes "\<forall>t \<in> set qs. dt_rsr t = 0" "unat (dns_1s_tick s) + passed qs < 3"
  shows "run_loop (qs @ ts) dip dhp ip s =
           run_loop ts dip dhp ip (s\<lparr>dns_1s_tick := dns_1s_tick s + of_nat (passed qs)\<rparr>)"
  using assms
proof (induction qs arbitrary: s)
  case (Cons t qs)
  let ?s = "s\<lparr>dns_1s_tick := dns_1s_tick s + of_nat (dt_ticks t)\<rparr>"
  have u: "unat (dns_1s_tick s + of_nat (dt_ticks t)) = unat (dns_1s_tick s) + dt_ticks t"
    using Cons.prems(2) by (intro unat_tick) simp
  then have "check_DNS_timeout ?s = (1, ?s)"
    using Cons.prems(2) by (simp add: check_DNS_timeout_def DNS_WAIT_TIME_def word_le_nat_alt)
  moreover have "bindR m (\<lambda>x. Inr (map_option (\<lambda>(ret, ip', s', as). (ret, ip', s', [] @ as)) x)) = m"
    for m :: "(int \<times> bytes \<times> dns \<times> dns_action list) option c_result"
    by (cases m) (auto simp: option.map_id)
  ultimately show ?case
    using Cons.prems Cons.IH [of ?s] u by (simp add: ticks ac_simps)
qed simp

lemma run_loop_reply:
  assumes "list_all label_ok ls" "ls \<noteq> []" "length (dotted ls) < 23" "length ttl = 4" "length ip = 4"
    "flags AND 0xf = 0" "256 \<le> length (pDNSMSG s)" "dt_datagram t = a_reply i flags ls ttl ip"
    "dt_rsr t = of_nat (8 + length (dt_datagram t))"
  shows "\<exists>s'. run_loop (t # ts) dip dhp ip0 s = Inr (Some (1, ip, s', [Recvfrom, Close_socket]))"
proof -
  let ?d = "a_reply i flags ls ttl ip" and ?s = "(DNS_time_handler ^^ dt_ticks t) s"
  let ?n = "length ?d"
  have n: "?n \<le> 56"
    using assms(3,4,5) by (simp add: a_reply_def put16_def length_labels human_dotted [OF assms(2)])
  have rsr: "unat (dt_rsr t) = 8 + ?n" "dt_rsr t > 0" "\<not> dt_rsr t > MAX_DNS_BUF_SIZE"
    using n unat_of_nat_u16 [of "8 + ?n"]
    by (simp_all add: assms(8,9) word_less_nat_alt MAX_DNS_BUF_SIZE_def del: of_nat_add unat_of_nat_u16)
  obtain d' where "parseDNSMSG dhp (?d @ drop ?n (pDNSMSG s)) ip0 = Inr (1, d', ip)"
    using a_reply_parsed [OF assms(1-6)] by blast
  then show ?thesis using rsr n assms(7,8) by (simp add: Let_def ticks)
qed

text \<open>Silent turns of at most a second each: the seconds after which the loop has certainly given up.\<close>

definition patience :: "dns \<Rightarrow> nat" where
  "patience s = (if dns_1s_tick s < 3 then 9 - 3 * min (unat (retry_count s)) 2 - unat (dns_1s_tick s) else 10)"

definition silent :: "dns_turn \<Rightarrow> bool" where
  "silent t \<longleftrightarrow> dt_rsr t = 0 \<and> dt_ticks t \<le> 1"

lemma unat_step_u32: "k \<le> 1 \<Longrightarrow> unat (w + of_nat k :: u32) = (if unat w + k = 4294967296 then 0 else unat w + k)"
proof -
  assume k: "k \<le> 1"
  have w: "unat w < 4294967296" by (rule unat_u32_lt)
  have "unat (of_nat k :: u32) = k" using k by (simp add: unat_of_nat)
  then have "unat (w + of_nat k) = (unat w + k) mod 4294967296" by (simp add: unat_word_ariths)
  also have "\<dots> = (if unat w + k = 4294967296 then 0 else unat w + k)"
  proof (cases "unat w + k = 4294967296")
    case False
    then have "unat w + k < 4294967296" using k w by linarith
    then show ?thesis using False by simp
  qed simp
  finally show ?thesis .
qed

lemma patience_tick:
  "k \<le> 1 \<Longrightarrow> dns_1s_tick s + of_nat k < 3 \<Longrightarrow>
     patience (s\<lparr>dns_1s_tick := dns_1s_tick s + of_nat k\<rparr>) + k \<le> patience s"
  by (auto simp: patience_def word_less_nat_alt unat_step_u32 split: if_splits)

lemma patience_retry:
  assumes "k \<le> 1" "dns_1s_tick s + of_nat k \<ge> 3" "retry_count s < 2"
  shows "patience (s\<lparr>dns_1s_tick := 0, retry_count := retry_count s + 1\<rparr>) + k \<le> patience s"
proof -
  have r: "unat (retry_count s) < 2" using assms(3) by (simp add: word_less_nat_alt)
  then have "unat (retry_count s + 1) = unat (retry_count s) + 1" by (simp add: unat_word_ariths)
  then show ?thesis
    using assms(1,2) r by (auto simp: patience_def word_less_nat_alt word_le_nat_alt unat_step_u32 split: if_splits)
qed

lemma run_loop_silent:
  assumes "list_all silent ts" "patience s \<le> passed ts"
  shows "run_loop ts dip dhp ip s =
    Inr (Some (0, ip, s\<lparr>dns_1s_tick := 0, retry_count := 0\<rparr>, replicate (2 - unat (retry_count s)) (Sendto dip [])))"
  using assms
proof (induction ts arbitrary: s)
  case Nil
  have "0 < patience s" by (auto simp: patience_def word_less_nat_alt min_def)
  with Nil show ?case by simp
next
  case (Cons t ts)
  let ?s = "s\<lparr>dns_1s_tick := dns_1s_tick s + of_nat (dt_ticks t)\<rparr>"
  have t: "dt_rsr t = 0" "dt_ticks t \<le> 1" "list_all silent ts"
    using Cons.prems(1) by (simp_all add: silent_def [of t])
  consider "\<not> dns_1s_tick ?s \<ge> 3" | "dns_1s_tick ?s \<ge> 3" "retry_count s \<ge> 2" | "dns_1s_tick ?s \<ge> 3" "retry_count s < 2"
    by fastforce
  then show ?case
  proof cases
    case 1
    then have "dns_1s_tick s + of_nat (dt_ticks t) < 3" by (simp add: linorder_not_le)
    from patience_tick [OF t(2) this] Cons.prems(2) have "patience ?s \<le> passed ts" by simp
    with Cons.IH [OF t(3), of ?s] 1 t(1) show ?thesis
      by (simp add: ticks check_DNS_timeout_def DNS_WAIT_TIME_def)
  next
    case 2
    then have "unat (retry_count s) \<ge> 2" by (simp add: word_le_nat_alt)
    with 2 t(1) show ?thesis
      by (simp add: ticks check_DNS_timeout_def DNS_WAIT_TIME_def MAX_DNS_RETRY_def)
  next
    case 3
    let ?s' = "s\<lparr>dns_1s_tick := 0, retry_count := retry_count s + 1\<rparr>"
    have r: "unat (retry_count s) < 2" using 3 by (simp add: word_less_nat_alt)
    then have "unat (retry_count s + 1) = unat (retry_count s) + 1" by (simp add: unat_word_ariths)
    with r have "2 - unat (retry_count s) = Suc (2 - unat (retry_count s + 1))" by simp
    moreover have "patience ?s' \<le> passed ts" using patience_retry [OF t(2), of s] 3 Cons.prems(2) by simp
    moreover have "\<not> 2 \<le> retry_count s" using 3 by (simp add: linorder_not_le)
    then have "check_DNS_timeout ?s = (0, ?s')"
      using 3 by (simp add: check_DNS_timeout_def DNS_WAIT_TIME_def MAX_DNS_RETRY_def Let_def)
    ultimately show ?thesis using Cons.IH [OF t(3), of ?s'] t(1) by (simp add: ticks)
  qed
qed

lemma length_write_labels: "length (write_labels n) \<le> length n + 2"
proof (induction n rule: write_labels.induct)
  case (1 n)
  let ?l = "takeWhile (\<lambda>b. b \<noteq> 46) n" and ?r = "dropWhile (\<lambda>b. b \<noteq> 46) n"
  have "length n = length ?l + length ?r" by (metis length_append takeWhile_dropWhile_id)
  moreover have "?l \<noteq> [] \<Longrightarrow> ?r \<noteq> [] \<Longrightarrow> length (write_labels (tl ?r)) \<le> length ?r + 1"
    using "1.IH" [OF refl refl] by (cases ?r) auto
  ultimately show ?case by (subst write_labels.simps) (auto simp: Let_def)
qed

text \<open>The query for the configured server name always fits.\<close>

lemma makequery_config:
  assumes "config_wf cfg" "256 \<le> cap"
  obtains q where "dns_makequery 0 (cstr (server_dsn cfg)) cap mid = Inr (mid + 1, q)" "length q \<le> 256"
proof -
  have "length (cstr (server_dsn cfg)) < 20"
    using assms(1) string_of_field by (auto simp: config_wf_def MAX_DSN_LEN_def)
  with length_write_labels [of "cstr (server_dsn cfg)"] assms(2) that show ?thesis
    by (auto simp: dns_makequery_def Let_def put16_def MAXCNAME_eq)
qed

text \<open>
  C18: a request for the configured server returns even when no server answers: silent turns of at
  most a second each that last ten seconds make it return 0 with the address unchanged, whatever
  counters earlier requests left.  It has then asked once; its retransmissions, as many as the
  retry counter had left, are empty, and the socket stays open.
\<close>

theorem dns_run_gives_up:
  assumes "config_wf cfg" "256 \<le> length (pDNSMSG s)" "list_all silent turns" "10 \<le> passed turns"
  shows "\<exists>q s'. DNS_run turns dip dhp (server_dsn cfg) ip s =
           Inr (Some (0, ip, s', [Socket_udp, Sendto dip q] @ replicate (2 - unat (retry_count s)) (Sendto dip []))) \<and>
         dns_1s_tick s' = 0 \<and> retry_count s' = 0 \<and>
         dns_makequery 0 (cstr (server_dsn cfg)) (length (pDNSMSG s)) (DNS_MSGID s) = Inr (DNS_MSGID s + 1, q)"
proof -
  obtain q where q: "dns_makequery 0 (cstr (server_dsn cfg)) (length (pDNSMSG s)) (DNS_MSGID s) = Inr (DNS_MSGID s + 1, q)"
    using makequery_config [OF assms(1,2)] by blast
  let ?s = "s\<lparr>DNS_MSGID := DNS_MSGID s + 1, pDNSMSG := q @ drop (length q) (pDNSMSG s)\<rparr>"
  have "patience ?s \<le> passed turns" using assms(4) by (auto simp: patience_def)
  with run_loop_silent [OF assms(3), of ?s] q config_strings(2) [OF assms(1)] show ?thesis
    by (simp add: DNS_run_def)
qed

definition dns_idle :: dns where
  "dns_idle = \<lparr>dns_1s_tick = 7, retry_count = 0, DNS_MSGID = DNS_MSG_ID, pDNSMSG = replicate 256 0\<rparr>"

definition silent_second :: dns_turn where
  "silent_second = \<lparr>dt_rsr = 0, dt_datagram = [], dt_ticks = 1\<rparr>"

theorem dns_run_gives_up_witness:
  "\<exists>q s'. DNS_run (replicate 10 silent_second) [8, 8, 8, 8] no_dhdr (server_dsn ibox_config) [0, 0, 0, 0] dns_idle =
     Inr (Some (0, [0, 0, 0, 0], s', [Socket_udp, Sendto [8, 8, 8, 8] q, Sendto [8, 8, 8, 8] [], Sendto [8, 8, 8, 8] []]))"
proof -
  have "256 \<le> length (pDNSMSG dns_idle)" "list_all silent (replicate 10 silent_second)" "10 \<le> passed (replicate 10 silent_second)"
    "retry_count dns_idle = 0"
    by (simp_all add: dns_idle_def silent_second_def silent_def passed_def list_all_iff sum_list_replicate)
  then show ?thesis
    using dns_run_gives_up [OF ibox_config_wf, of dns_idle "replicate 10 silent_second" "[8, 8, 8, 8]" no_dhdr "[0, 0, 0, 0]"]
    by (auto simp: numeral_2_eq_2)
qed

lemma run_resolves:
  assumes "config_wf cfg" "cstr (server_dsn cfg) = dotted ls" "list_all label_ok ls" "ls \<noteq> []"
    "256 \<le> length (pDNSMSG s)" "\<forall>t \<in> set qs. dt_rsr t = 0" "unat (dns_1s_tick s) + passed qs < 3"
    "length ttl = 4" "length ip = 4" "flags AND 0xf = 0" "dt_datagram t = a_reply i flags ls ttl ip"
    "dt_rsr t = of_nat (8 + length (dt_datagram t))"
  shows "\<exists>q s'. DNS_run (qs @ t # ts) dip dhp (server_dsn cfg) ip0 s =
           Inr (Some (1, ip, s', [Socket_udp, Sendto dip q, Recvfrom, Close_socket])) \<and>
         dns_makequery 0 (dotted ls) (length (pDNSMSG s)) (DNS_MSGID s) = Inr (DNS_MSGID s + 1, q)"
proof -
  obtain q where q: "dns_makequery 0 (cstr (server_dsn cfg)) (length (pDNSMSG s)) (DNS_MSGID s) = Inr (DNS_MSGID s + 1, q)"
      "length q \<le> 256"
    using makequery_config [OF assms(1,5)] by blast
  let ?s = "s\<lparr>DNS_MSGID := DNS_MSGID s + 1, pDNSMSG := q @ drop (length q) (pDNSMSG s)\<rparr>"
  have ls: "length (dotted ls) < 23"
    using assms(1) string_of_field [of 20 "server_dsn cfg"] by (auto simp: config_wf_def MAX_DSN_LEN_def assms(2) [symmetric])
  let ?s' = "?s\<lparr>dns_1s_tick := dns_1s_tick s + of_nat (passed qs)\<rparr>"
  have "256 \<le> length (pDNSMSG ?s')" using assms(5) q(2) by simp
  then obtain s' where "run_loop (t # ts) dip dhp ip0 ?s' = Inr (Some (1, ip, s', [Recvfrom, Close_socket]))"
    using run_loop_reply [OF assms(3,4) ls assms(8-10) _ assms(11,12)] by blast
  with run_loop_quiet [OF assms(6), of ?s "t # ts" dip dhp ip0] assms(7) have
    "run_loop (qs @ t # ts) dip dhp ip0 ?s = Inr (Some (1, ip, s', [Recvfrom, Close_socket]))"
    by simp
  with q config_strings(2) [OF assms(1)] show ?thesis by (simp add: DNS_run_def assms(2))
qed

text \<open>
  C17: a request for the configured server, answered before its first wait is over by a reply with the
  address, returns 1 and that address, after exactly one query to the DNS server.
\<close>

theorem dns_run_resolves:
  assumes "config_wf cfg" "cstr (server_dsn cfg) = dotted ls" "list_all label_ok ls" "ls \<noteq> []"
    "256 \<le> length (pDNSMSG s)" "\<forall>t \<in> set qs. dt_rsr t = 0" "unat (dns_1s_tick s) + passed qs < 3"
    "length ttl = 4" "length ip = 4" "flags AND 0xf = 0" "dt_datagram t = a_reply i flags ls ttl ip"
    "dt_rsr t = of_nat (8 + length (dt_datagram t))"
  shows "\<exists>q s'. DNS_run (qs @ t # ts) dip dhp (server_dsn cfg) ip0 s =
           Inr (Some (1, ip, s', [Socket_udp, Sendto dip q, Recvfrom, Close_socket])) \<and>
         dns_makequery 0 (dotted ls) (length (pDNSMSG s)) (DNS_MSGID s) = Inr (DNS_MSGID s + 1, q)"
  using assms by (rule run_resolves)

theorem dns_run_resolves_witness:
  "\<exists>q s'. DNS_run [\<lparr>dt_rsr = 55, dt_datagram = a_reply 9 0x8180 lot_zxbike [0, 0, 1, 44] [47, 96, 3, 9], dt_ticks = 1\<rparr>]
       [8, 8, 8, 8] no_dhdr (server_dsn ibox_config) [0, 0, 0, 0] (dns_idle\<lparr>dns_1s_tick := 0\<rparr>) =
     Inr (Some (1, [47, 96, 3, 9], s', [Socket_udp, Sendto [8, 8, 8, 8] q, Recvfrom, Close_socket]))"
proof -
  let ?t = "\<lparr>dt_rsr = 55, dt_datagram = a_reply 9 0x8180 lot_zxbike [0, 0, 1, 44] [47, 96, 3, 9], dt_ticks = 1\<rparr>"
  have c: "cstr (server_dsn ibox_config) = dotted lot_zxbike" "list_all label_ok lot_zxbike" "lot_zxbike \<noteq> []"
    "length (a_reply 9 0x8180 lot_zxbike [0, 0, 1, 44] [47, 96, 3, 9]) = 47"
    by code_simp+
  then show ?thesis
    using dns_run_resolves [OF ibox_config_wf c(1-3), of "dns_idle\<lparr>dns_1s_tick := 0\<rparr>" "[]" "[0, 0, 1, 44]" "[47, 96, 3, 9]" "0x8180" ?t 9 "[]"
        "[8, 8, 8, 8]" no_dhdr "[0, 0, 0, 0]"]
    by (auto simp: dns_idle_def)
qed

end
