(* ===== verification/Ethernet.thy ===== *)
theory Ethernet
  imports Dhcp_Lease Dns Net_Layer
begin

text \<open>
  The wired network: the driver \<open>Drivers/BSP/src/ibox_Ethernet.c\<close> and a round of the thread
  \<open>Application/src/wired_net.c\<close>, which runs the DHCP client, resolves the server's name and serves the
  TCP socket.
\<close>

section \<open>Scanning addresses\<close>

text \<open>
  \<open>sscanf\<close> with \<open>%X\<close> or \<open>%d\<close>: leading white space and a sign are accepted, for \<open>%X\<close> also the prefix
  \<open>0x\<close>; the result is the value as it is stored in four bytes and the rest of the text.
\<close>

definition isspace :: "u8 \<Rightarrow> bool" where
  "isspace b \<longleftrightarrow> b = 32 \<or> (9 \<le> b \<and> b \<le> 13)"

definition hex_digit :: "u8 \<Rightarrow> bool" where
  "hex_digit b \<longleftrightarrow> (48 \<le> b \<and> b \<le> 57) \<or> (65 \<le> b \<and> b \<le> 70) \<or> (97 \<le> b \<and> b \<le> 102)"

definition dec_digit :: "u8 \<Rightarrow> bool" where
  "dec_digit b \<longleftrightarrow> 48 \<le> b \<and> b \<le> 57"

definition hex_val :: "u8 \<Rightarrow> nat" where
  "hex_val b = (if b \<le> 57 then unat b - 48 else if b \<le> 70 then unat b - 55 else unat b - 87)"

fun strip_0x :: "bytes \<Rightarrow> bytes" where
  "strip_0x (a # b # c # r) = (if a = 48 \<and> (b = 120 \<or> b = 88) \<and> hex_digit c then c # r else a # b # c # r)"
| "strip_0x b = b"

definition scan_number :: "bool \<Rightarrow> bytes \<Rightarrow> (u32 \<times> bytes) option" where
  "scan_number hex txt =
     (let b = dropWhile isspace txt;
          neg = (b \<noteq> [] \<and> hd b = 45);
          b1 = (if b \<noteq> [] \<and> (hd b = 43 \<or> hd b = 45) then tl b else b);
          b2 = (if hex then strip_0x b1 else b1);
          dig = (if hex then hex_digit else dec_digit);
          ds = takeWhile dig b2;
          v = of_nat (foldl (\<lambda>n d. n * (if hex then 16 else 10) + hex_val d) 0 ds)
      in if ds = [] then None else Some (if neg then - v else v, dropWhile dig b2))"

fun scan_fields :: "bool \<Rightarrow> u8 \<Rightarrow> nat \<Rightarrow> bytes \<Rightarrow> u32 list" where
  "scan_fields hex sep 0 txt = []"
| "scan_fields hex sep (Suc n) txt =
     (case scan_number hex txt of
        None \<Rightarrow> []
      | Some (v, r) \<Rightarrow> v # (if r \<noteq> [] \<and> hd r = sep then scan_fields hex sep n (tl r) else []))"

definition u32_le :: "u32 \<Rightarrow> bytes" where
  "u32_le w = rev (u32_be w)"

text \<open>
  The fields are stored as \<open>int\<close> at consecutive bytes, each overwriting the upper bytes of the one
  before.
\<close>

definition store_ints :: "u32 list \<Rightarrow> bytes \<Rightarrow> bytes" where
  "store_ints vs m = foldl (\<lambda>m (k, v). put_at k (u32_le v) m) m (enumerate 0 vs)"

section \<open>The driver\<close>

record ETH_MSG =
  em_mac :: bytes
  em_ip :: bytes
  em_sub :: bytes
  em_gw :: bytes
  em_dns :: bytes
  em_dns_sip :: bytes

text \<open>The store to \<open>mac[5]\<close> covers three bytes of the next member \<open>ip\<close>.\<close>

definition set_w5500_mac :: "IBOX_CONFIG \<Rightarrow> ETH_MSG \<Rightarrow> (ETH_MSG \<times> eth_action list) c_result" where
  "set_w5500_mac cfg e =
     bindR (string_of (eth_mac cfg)) (\<lambda>txt.
       let m = store_ints (scan_fields True 58 6 txt) (em_mac e @ em_ip e);
           e' = e\<lparr>em_mac := take 6 m, em_ip := drop 6 m\<rparr>
       in Inr (e', [Set_SHAR (em_mac e')]))"

definition eth_ip_assign :: "ETH_MSG dhcp_cb" where
  "eth_ip_assign s e =
     (let e' = e\<lparr>em_ip := getIPfromDHCP s, em_gw := getGWfromDHCP s, em_sub := getSNfromDHCP s\<rparr>
      in (e', [Set_SUBR (em_sub e'), Set_GAR (em_gw e'), Set_SIPR (em_ip e'), Set_RTR 2000, Set_RCR 3]))"

definition eth_ip_update :: "ETH_MSG dhcp_cb" where
  "eth_ip_update s e = (let (e', as) = eth_ip_assign s e in (e', Reset_chip # as @ [Set_SHAR (em_mac e')]))"

definition eth_ip_conflict :: "ETH_MSG dhcp_cb" where
  "eth_ip_conflict s e = (e, [Reset_chip, Set_SHAR (em_mac e)])"

definition eth_callbacks :: "ETH_MSG dhcp_cbs" where
  "eth_callbacks = reg_dhcp_cbfunc (Some eth_ip_assign) (Some eth_ip_update) (Some eth_ip_conflict)"

text \<open>
  The TCP socket: what a call of \<open>ethernet_run\<close> does and what it finds.  \<open>er_recv\<close> is the value \<open>recv\<close>
  returns, negative on errors, and the bytes it stores.
\<close>

datatype sock_action = Keepalive u16 | Connect bytes u16 | Send bytes | Close_tcp | Open_tcp u16 | Net kcall

record er_in =
  er_status :: "u8 option"
  er_recvbuf :: u16
  er_malloc :: "bytes option"
  er_recv :: "int \<times> bytes"
  er_sem :: bool

definition SOCK_CLOSED :: u8 where "SOCK_CLOSED = 0x00"
definition SOCK_INIT :: u8 where "SOCK_INIT = 0x13"
definition SOCK_ESTABLISHED :: u8 where "SOCK_ESTABLISHED = 0x17"
definition SOCK_CLOSE_WAIT :: u8 where "SOCK_CLOSE_WAIT = 0x1C"

lemmas sock_states = SOCK_CLOSED_def SOCK_INIT_def SOCK_ESTABLISHED_def SOCK_CLOSE_WAIT_def

text \<open>
  The driver's variables, the network layer and the \<open>ETH_MSG\<close>.  \<open>rt_malloc\<close> gives a block of 2048 bytes
  with any content, or fails, which the code does not test; \<open>recv\<close> writes to the front of the block.
\<close>

record eth =
  eth_tx_len :: u16
  eth_msg_get :: ETH_MSG
  eth_net :: network

definition eth_receive :: "er_in \<Rightarrow> eth \<Rightarrow> (eth \<times> sock_action list) c_result" where
  "eth_receive i s =
     (if er_recvbuf i > 0 then
        (case er_malloc i of
           None \<Rightarrow> Inl OutOfBounds
         | Some block \<Rightarrow>
            let data_ptr = snd (er_recv i) @ drop (length (snd (er_recv i))) block;
                data_len = word_of_int (fst (er_recv i)) :: u16
            in if length (snd (er_recv i)) > length block then Inl OutOfBounds
               else if data_len > 0 then
                 bindR (net_rx_write (er_sem i) data_ptr data_len (eth_net s)) (\<lambda>(_, net, ks).
                   Inr (s\<lparr>eth_net := net\<rparr>, map Net ks))
               else Inr (s, []))
      else Inr (s, []))"

definition eth_transmit :: "eth \<Rightarrow> (eth \<times> sock_action list) c_result" where
  "eth_transmit s =
     (if eth_tx_len s \<noteq> 0 then
        (if unat (eth_tx_len s) \<le> length (net_tx_buf (eth_net s)) then
           Inr (s\<lparr>eth_tx_len := 0\<rparr>, [Send (take (unat (eth_tx_len s)) (net_tx_buf (eth_net s)))])
         else Inl OutOfBounds)
      else Inr (s, []))"

definition ethernet_run :: "IBOX_CONFIG \<Rightarrow> er_in \<Rightarrow> eth \<Rightarrow> (u8 \<times> eth \<times> sock_action list) c_result" where
  "ethernet_run cfg i s =
     (case er_status i of
        None \<Rightarrow> Inr (0, s, [])
      | Some st \<Rightarrow>
          if st = SOCK_INIT then Inr (st, s, [Keepalive 2, Connect (em_dns_sip (eth_msg_get s)) (server_port cfg)])
          else if st = SOCK_ESTABLISHED then
            bindR (eth_receive i s) (\<lambda>(s1, as). bindR (eth_transmit s1) (\<lambda>(s2, bs). Inr (st, s2, as @ bs)))
          else if st = SOCK_CLOSE_WAIT then Inr (st, s, [Close_tcp])
          else if st = SOCK_CLOSED then Inr (st, s, [Open_tcp (local_port cfg)])
          else Inr (st, s, []))"

section \<open>The wired thread\<close>

text \<open>
  The static array \<open>dsn_ip\<close> is modelled with the three bytes that follow it, which the stores of
  \<open>sscanf\<close> reach.  DHCP and DNS use the same message buffer, kept here in the DHCP client's state.
\<close>

record wired =
  w_dhcp :: dhcp
  w_dns :: dns
  w_eth :: eth
  dsn_ip_mem :: bytes
  is_wired_link_ok :: u8
  dns_parse_ok :: u8

datatype wired_action = Dhcp_act eth_action | Dns_act dns_action | Sock_act sock_action | Delay nat

definition wired_start :: "IBOX_CONFIG \<Rightarrow> wired \<Rightarrow> wired c_result" where
  "wired_start cfg s =
     bindR (string_of (dns_ip cfg)) (\<lambda>txt.
       Inr (s\<lparr>dns_parse_ok := 0, dsn_ip_mem := store_ints (scan_fields False 46 4 txt) (dsn_ip_mem s)\<rparr>))"

record wired_in =
  wi_link :: bool
  wi_dhcp :: dhcp_in
  wi_dns :: "dns_turn list"
  wi_dhdr :: dhdr
  wi_seconds :: nat
  wi_run :: er_in

text \<open>
  The name resolution of a round, during which \<open>wi_seconds\<close> pass for the DHCP client; the result as the thread stores it, in a \<open>uint8_t\<close>.  \<open>None\<close>: still
  waiting for the reply.
\<close>

definition wired_dns :: "IBOX_CONFIG \<Rightarrow> wired_in \<Rightarrow> wired \<Rightarrow> (wired \<times> wired_action list) option c_result" where
  "wired_dns cfg i s =
     (if dns_parse_ok s = 0 then
        bindR (DNS_run (wi_dns i) (take 4 (dsn_ip_mem s)) (wi_dhdr i) (server_dsn cfg)
                 (em_dns_sip (eth_msg_get (w_eth s))) ((w_dns s)\<lparr>pDNSMSG := pDHCPMSG (w_dhcp s)\<rparr>)) (\<lambda>r.
          Inr (map_option (\<lambda>(ret, ip, d, as).
            let s1 = s\<lparr>w_dns := d, w_dhcp := (DHCP_time_handler ^^ wi_seconds i) (w_dhcp s)\<lparr>pDHCPMSG := pDNSMSG d\<rparr>,
                       w_eth := (w_eth s)\<lparr>eth_msg_get := (eth_msg_get (w_eth s))\<lparr>em_dns_sip := ip\<rparr>\<rparr>\<rparr>
            in (if (word_of_int ret :: u8) = 1 then s1\<lparr>dns_parse_ok := 1\<rparr> else s1, map Dns_act as)) r))
      else Inr (Some (s, [])))"

definition wired_step :: "IBOX_CONFIG \<Rightarrow> wired_in \<Rightarrow> wired \<Rightarrow> (wired \<times> wired_action list) option c_result" where
  "wired_step cfg i s =
     (if wi_link i then
        bindR (DHCP_run eth_callbacks (wi_dhcp i) (w_dhcp s) (eth_msg_get (w_eth s))) (\<lambda>(_, d, m, as).
        bindR (wired_dns cfg i (s\<lparr>w_dhcp := d, w_eth := (w_eth s)\<lparr>eth_msg_get := m\<rparr>\<rparr>)) (\<lambda>r.
          case r of
            None \<Rightarrow> Inr None
          | Some (s1, bs) \<Rightarrow>
              bindR (ethernet_run cfg (wi_run i) (w_eth s1)) (\<lambda>(st, e, cs).
                Inr (Some (s1\<lparr>w_eth := e, is_wired_link_ok := if st = SOCK_ESTABLISHED then 1 else 0\<rparr>,
                  map Dhcp_act as @ bs @ map Sock_act cs @ [Delay (unat RT_TICK_PER_SECOND div 20)])))))
      else Inr (Some (s, [Delay (unat RT_TICK_PER_SECOND * 10)])))"

text \<open>
  \<open>ethernet_init\<close>: \<open>shar\<close> is the hardware address that \<open>DHCP_init\<close> reads back from the chip and \<open>buf\<close> the
  shared buffer \<open>dhcp_dns_buf\<close>.
\<close>

definition ethernet_init :: "IBOX_CONFIG \<Rightarrow> bytes \<Rightarrow> bytes \<Rightarrow> wired \<Rightarrow> (wired \<times> eth_action list) c_result" where
  "ethernet_init cfg shar buf s =
     bindR (set_w5500_mac cfg (eth_msg_get (w_eth s))) (\<lambda>(m, as).
       let (d, bs) = DHCP_init shar buf (w_dhcp s)
       in Inr (s\<lparr>w_eth := (w_eth s)\<lparr>eth_msg_get := m\<rparr>, w_dhcp := d, w_dns := DNS_init buf (w_dns s)\<rparr>, as @ bs))"

text \<open>The timer of a second, \<open>timer_1s_timeout\<close> in \<open>application.c\<close>.\<close>

definition wired_second :: "wired \<Rightarrow> wired" where
  "wired_second s = s\<lparr>w_dhcp := DHCP_time_handler (w_dhcp s), w_dns := DNS_time_handler (w_dns s)\<rparr>"

section \<open>The DNS server's address\<close>

lemma dec_digit_of: "d < 10 \<Longrightarrow> dec_digit (of_nat (48 + d)) \<and> hex_val (of_nat (48 + d)) = d"
proof -
  have "\<forall>d \<in> set [0..<10]. dec_digit (of_nat (48 + d)) \<and> hex_val (of_nat (48 + d)) = d" by code_simp
  then show "d < 10 \<Longrightarrow> dec_digit (of_nat (48 + d)) \<and> hex_val (of_nat (48 + d)) = d" by simp
qed

lemma dec_scan: "list_all dec_digit (dec n) \<and> foldl (\<lambda>n d. n * 10 + hex_val d) 0 (dec n) = n \<and> dec n \<noteq> []"
proof (induction n rule: dec.induct)
  case (1 n)
  then show ?case
    using dec_digit_of [of n] dec_digit_of [of "n mod 10"] by (cases "n < 10") (simp_all add: dec.simps [of n] del: of_nat_add)
qed

lemma dec_digit_bounds: "dec_digit b \<Longrightarrow> \<not> isspace b \<and> b \<noteq> 43 \<and> b \<noteq> 45"
  by (auto simp: dec_digit_def isspace_def word_le_nat_alt)

lemma scan_dec:
  assumes "r = [] \<or> \<not> dec_digit (hd r)"
  shows "scan_number False (dec n @ r) = Some (of_nat n, r)"
proof -
  have d: "list_all dec_digit (dec n)" "foldl (\<lambda>n d. n * 10 + hex_val d) 0 (dec n) = n" "dec n \<noteq> []" using dec_scan by auto
  then obtain x xs where x: "dec n = x # xs" "dec_digit x" by (cases "dec n") auto
  note nb = dec_digit_bounds [OF x(2)]
  have "dropWhile isspace (dec n @ r) = dec n @ r" "hd (dec n @ r) \<noteq> 43" "hd (dec n @ r) \<noteq> 45"
    using nb by (simp_all add: x(1))
  moreover have "takeWhile dec_digit (dec n @ r) = dec n" "dropWhile dec_digit (dec n @ r) = r"
    using d(1) assms by (cases r; simp add: list_all_iff)+
  ultimately show ?thesis using d(2,3) by (simp add: scan_number_def Let_def)
qed

definition dotted_quad :: "nat \<Rightarrow> nat \<Rightarrow> nat \<Rightarrow> nat \<Rightarrow> bytes" where
  "dotted_quad a b c d = dec a @ 46 # dec b @ 46 # dec c @ 46 # dec d"

lemma scan_quad: "scan_fields False 46 4 (dotted_quad a b c d) = [of_nat a, of_nat b, of_nat c, of_nat d]"
proof -
  have "\<not> dec_digit 46" by (simp add: dec_digit_def)
  then show ?thesis
    using scan_dec [of "[]" d] by (simp add: dotted_quad_def numeral_eq_Suc scan_dec)
qed

lemma u32_le_byte: "n < 256 \<Longrightarrow> u32_le (of_nat n) = [of_nat n, 0, 0, 0]"
proof -
  have "\<forall>n \<in> set [0..<256]. u32_le (of_nat n) = [of_nat n, 0, 0, 0]" by code_simp
  then show "n < 256 \<Longrightarrow> u32_le (of_nat n) = [of_nat n, 0, 0, 0]" by simp
qed

text \<open>
  the wired thread reads its DNS server from the configuration: any dotted address is stored byte
  by byte.  The four stores are 32 bits wide, so the three bytes after the array are cleared.
\<close>

theorem wired_dns_server:
  assumes "string_of (dns_ip cfg) = Inr (dotted_quad a b c d)" "a < 256" "b < 256" "c < 256" "d < 256"
    "length (dsn_ip_mem s) = 7"
  shows "\<exists>s'. wired_start cfg s = Inr s' \<and> dsn_ip_mem s' = [of_nat a, of_nat b, of_nat c, of_nat d, 0, 0, 0] \<and>
    dns_parse_ok s' = 0"
proof -
  obtain x0 x1 x2 x3 x4 x5 x6 where "dsn_ip_mem s = [x0, x1, x2, x3, x4, x5, x6]"
    using assms(6) by (auto simp: length_Suc_conv numeral_eq_Suc)
  then have "store_ints [of_nat a, of_nat b, of_nat c, of_nat d] (dsn_ip_mem s) = [of_nat a, of_nat b, of_nat c, of_nat d, 0, 0, 0]"
    using u32_le_byte [OF assms(2)] u32_le_byte [OF assms(3)] u32_le_byte [OF assms(4)] u32_le_byte [OF assms(5)]
    by (simp add: store_ints_def put_at_def)
  then show ?thesis by (simp add: wired_start_def assms(1) scan_quad)
qed

definition blank_eth :: eth where
  "blank_eth = \<lparr>eth_tx_len = 0, eth_msg_get = \<lparr>em_mac = demo_mac, em_ip = [0, 0, 0, 0], em_sub = [0, 0, 0, 0], em_gw = [0, 0, 0, 0],
     em_dns = [0, 0, 0, 0], em_dns_sip = [0, 0, 0, 0]\<rparr>, eth_net = demo_network 0 []\<rparr>"

definition demo_wired :: wired where
  "demo_wired = \<lparr>w_dhcp = demo_dhcp, w_dns = dns_idle\<lparr>dns_1s_tick := 0\<rparr>, w_eth = blank_eth, dsn_ip_mem = [9, 9, 9, 9, 9, 9, 9],
     is_wired_link_ok = 0, dns_parse_ok = 0\<rparr>"

theorem wired_dns_server_witness:
  "\<exists>s'. wired_start ibox_config demo_wired = Inr s' \<and> dsn_ip_mem s' = [114, 114, 114, 114, 0, 0, 0]"
proof -
  have "string_of (dns_ip ibox_config) = Inr (dotted_quad 114 114 114 114)" by code_simp
  from wired_dns_server [OF this, of demo_wired] show ?thesis by (auto simp: demo_wired_def)
qed

text \<open>The hardware address of the board's configuration; storing it clears bytes of the address next to it.\<close>

lemma config_mac:
  "set_w5500_mac ibox_config ((eth_msg_get blank_eth)\<lparr>em_ip := [192, 168, 1, 7]\<rparr>) =
     Inr (eth_msg_get blank_eth\<lparr>em_mac := demo_mac, em_ip := [0, 0, 0, 7]\<rparr>, [Set_SHAR demo_mac])"
  by code_simp

section \<open>The lease reaches the chip\<close>

interpretation eth_handler: address_handler eth_ip_assign
  by unfold_locales (simp add: eth_ip_assign_def getIPfromDHCP_def getGWfromDHCP_def getSNfromDHCP_def Let_def)

lemma eth_callbacks_sel [simp]:
  "dhcp_ip_assign eth_callbacks = eth_ip_assign" "dhcp_ip_conflict eth_callbacks = eth_ip_conflict"
  by (simp_all add: eth_callbacks_def reg_dhcp_cbfunc_def)

lemma ack_eth_msg:
  assumes "dhcp_wf s" "dhcp_state s = STATE_DHCP_REQUEST" "opts = server_opts DHCP_ACK sid lt sn gw dn extra" "other_options extra"
    "server_msg_ok pre yi mid rest opts" "receives i (server_msg pre yi mid (DHCP_CHADDR s) rest opts)" "in_probe_timeout i"
    "DHCP_run eth_callbacks i s e = Inr (ret, s', e', as)"
  shows "e' = e\<lparr>em_ip := DHCP_allocated_ip s, em_gw := take 4 gw, em_sub := sn\<rparr>"
  using run_ack [OF assms(1-7), of eth_callbacks e] assms(8)
  by (auto simp: eth_ip_assign_def getIPfromDHCP_def getGWfromDHCP_def getSNfromDHCP_def Let_def)

text \<open>
  C13: with a server that offers an address and acknowledges it, three calls of \<open>DHCP_run\<close> lease it: the
  client broadcasts a discover, then a request for exactly the offered address and server, then
  probes for the address; when nobody answers, the chip's address, mask and gateway and the driver's record
  are those of the lease.  Transaction numbers play no role.
\<close>

theorem wired_obtains_lease:
  assumes "dhcp_wf s" "dhcp_state s = STATE_DHCP_INIT" "in_rsr i1 = 0" "in_sr_udp i1"
    and offer: "offer = server_opts DHCP_OFFER sid lt sn gw dn extra" "other_options extra" "server_msg_ok pre yi mid rest offer"
      "receives i2 (server_msg pre yi mid (DHCP_CHADDR s) rest offer)"
    and ack: "ack = server_opts DHCP_ACK sid' lt' sn' gw' dn' extra'" "other_options extra'" "server_msg_ok pre' yi' mid' rest' ack"
      "receives i3 (server_msg pre' yi' mid' (DHCP_CHADDR s) rest' ack)" "in_probe_timeout i3"
  shows "\<exists>s1 s2 s3 as.
    DHCP_run eth_callbacks i1 s e = Inr (DHCP_RUNNING, s1, e, [Udp_sendto (discover_msg s) broadcast DHCP_SERVER_PORT]) \<and>
    DHCP_run eth_callbacks i2 s1 e = Inr (DHCP_RUNNING, s2, e, [Udp_sendto (request_msg yi sid s) broadcast DHCP_SERVER_PORT]) \<and>
    DHCP_run eth_callbacks i3 s2 e = Inr (DHCP_RUNNING, s3, e\<lparr>em_ip := yi, em_gw := take 4 gw', em_sub := sn'\<rparr>, as) \<and>
    dhcp_state s3 = STATE_DHCP_LEASED \<and> DHCP_allocated_ip s3 = yi \<and> dhcp_lease_time s3 = be_u32 lt' \<and>
    chip_run as c = c\<lparr>SIPR := yi, SUBR := sn', GAR := take 4 gw'\<rparr>"
proof -
  let ?s1 = "s\<lparr>DHCP_allocated_ip := [0, 0, 0, 0], pDHCPMSG := discover_msg s, dhcp_state := STATE_DHCP_DISCOVER\<rparr>"
  note r1 = run_discover [OF assms(1-4), of eth_callbacks e]
  have w1: "dhcp_wf ?s1" using run_wf [OF assms(1) r1] .
  have q: "request_msg yi sid ?s1 = request_msg yi sid s" by (rule msg_fields) simp_all
  obtain s2 where r2: "DHCP_run eth_callbacks i2 ?s1 e = Inr (DHCP_RUNNING, s2, e, [Udp_sendto (request_msg yi sid s) broadcast DHCP_SERVER_PORT])"
    and s2: "dhcp_state s2 = STATE_DHCP_REQUEST" "DHCP_allocated_ip s2 = yi" "DHCP_CHADDR s2 = DHCP_CHADDR s" "dhcp_wf s2"
    using run_offer [OF w1 _ offer(1-3), of i2 eth_callbacks e] offer(4) q by auto
  have rec: "receives i3 (server_msg pre' yi' mid' (DHCP_CHADDR s2) rest' ack)" using ack(4) s2(3) by simp
  obtain s3 e3 as where r3: "DHCP_run eth_callbacks i3 s2 e = Inr (DHCP_RUNNING, s3, e3, as)"
    and s3: "dhcp_state s3 = STATE_DHCP_LEASED" "DHCP_allocated_ip s3 = yi" "dhcp_lease_time s3 = be_u32 lt'"
      "chip_run as c = c\<lparr>SIPR := yi, SUBR := sn', GAR := take 4 gw'\<rparr>"
    using eth_handler.ack_installs [OF s2(4,1) eth_callbacks_sel(1) ack(1-3) rec ack(5), of e c] s2(2) by auto
  have "e3 = e\<lparr>em_ip := yi, em_gw := take 4 gw', em_sub := sn'\<rparr>"
    using ack_eth_msg [OF s2(4,1) ack(1-3) rec ack(5) r3] s2(2) by simp
  with r1 r2 r3 s3 show ?thesis by blast
qed

theorem wired_obtains_lease_witness:
  "\<exists>s1 s2 s3 e3 as.
    DHCP_run eth_callbacks quiet_in demo_dhcp (eth_msg_get blank_eth) =
      Inr (DHCP_RUNNING, s1, eth_msg_get blank_eth, [Udp_sendto (discover_msg demo_dhcp) broadcast DHCP_SERVER_PORT]) \<and>
    DHCP_run eth_callbacks (demo_in DHCP_OFFER) s1 (eth_msg_get blank_eth) = Inr (DHCP_RUNNING, s2, eth_msg_get blank_eth,
      [Udp_sendto (request_msg [192, 168, 1, 7] [192, 168, 1, 1] demo_dhcp) broadcast DHCP_SERVER_PORT]) \<and>
    DHCP_run eth_callbacks (demo_in DHCP_ACK) s2 (eth_msg_get blank_eth) = Inr (DHCP_RUNNING, s3, e3, as) \<and>
    chip_run as chip_reset = chip_reset\<lparr>SIPR := [192, 168, 1, 7], SUBR := [255, 255, 255, 0], GAR := [192, 168, 1, 1]\<rparr>"
  using wired_obtains_lease [OF demo_dhcp_start(1,2) quiet_in_sel(1,2) demo_opts_def demo_opts_ok _ demo_opts_def demo_opts_ok,
      of "demo_in DHCP_OFFER" "demo_in DHCP_ACK" "eth_msg_get blank_eth" chip_reset]
    demo_receives [of DHCP_OFFER] demo_receives [of DHCP_ACK]
  by (auto simp: demo_msg_def demo_dhcp_start(3))

section \<open>From the name to the connection\<close>

text \<open>The query of DNS for the address of a name: the header with its number, one question, type A, class IN.\<close>

definition a_query :: "u16 \<Rightarrow> bytes list \<Rightarrow> bytes" where
  "a_query mid ls = put16 mid @ [1, 0, 0, 1, 0, 0, 0, 0, 0, 0] @ labels ls @ [0, 0, 1, 0, 1]"

lemma makequery_a_query:
  assumes "list_all label_ok ls" "ls \<noteq> []" "dns_makequery 0 (dotted ls) cap mid = Inr (mid + 1, q)"
  shows "q = a_query (mid + 1) ls"
proof -
  have "q = put16 (mid + 1) @ put16 0x0100 @ put16 1 @ put16 0 @ put16 0 @ put16 0 @ labels ls @ [0] @ put16 1 @ put16 1"
    using assms by (auto simp: dns_makequery_def Let_def write_labels_dotted split: if_splits)
  moreover have "put16 0x0100 = [1, 0]" "put16 1 = [0, 1]" "put16 0 = [0, 0]" by (simp_all add: put16_def)
  ultimately show ?thesis by (simp add: a_query_def)
qed

text \<open>
  What may come after a round: more rounds with any input, seconds of the timer, and the other threads changing the network layer, with
  the actions of the rounds.
\<close>

inductive wired_more :: "IBOX_CONFIG \<Rightarrow> wired \<Rightarrow> wired \<Rightarrow> wired_action list \<Rightarrow> bool" for cfg s0 where
  start: "wired_more cfg s0 s0 []"
| round: "wired_more cfg s0 s as \<Longrightarrow> wired_step cfg i s = Inr (Some (s', bs)) \<Longrightarrow> wired_more cfg s0 s' (as @ bs)"
| second: "wired_more cfg s0 s as \<Longrightarrow> wired_more cfg s0 (wired_second s) as"
| network: "wired_more cfg s0 s as \<Longrightarrow> wired_more cfg s0 (s\<lparr>w_eth := (w_eth s)\<lparr>eth_net := net\<rparr>\<rparr>) as"

text \<open>The callbacks of the DHCP client do not touch the address of the server.\<close>

definition keeps_server :: "ETH_MSG dhcp_cb \<Rightarrow> bool" where
  "keeps_server f \<longleftrightarrow> (\<forall>d e. em_dns_sip (fst (f d e)) = em_dns_sip e)"

lemma eth_callbacks_keep:
  "keeps_server (dhcp_ip_assign eth_callbacks)" "keeps_server (dhcp_ip_update eth_callbacks)" "keeps_server (dhcp_ip_conflict eth_callbacks)"
  by (simp_all add: keeps_server_def eth_callbacks_def reg_dhcp_cbfunc_def eth_ip_assign_def eth_ip_update_def eth_ip_conflict_def Let_def)

lemma switch_keeps_server: "em_dns_sip (fst (snd (snd (dhcp_switch eth_callbacks i type s e)))) = em_dns_sip e"
  using eth_callbacks_keep unfolding keeps_server_def
  by (cases "dhcp_state s") (simp_all add: dhcp_switch_def dhcp_request_state_def dhcp_rerequest_state_def Let_def split_beta)

lemma DHCP_run_keeps_server: "DHCP_run eth_callbacks i s e = Inr (ret, s', e', as) \<Longrightarrow> em_dns_sip e' = em_dns_sip e"
  using switch_keeps_server [of i _ _ e] by (auto simp: DHCP_run_def bindR_eq_Inr Let_def split_beta split: if_splits)

lemma ethernet_run_server:
  assumes "ethernet_run cfg i s = Inr (st, s', as)"
  shows "eth_msg_get s' = eth_msg_get s" "Connect h p \<in> set as \<Longrightarrow> h = em_dns_sip (eth_msg_get s) \<and> p = server_port cfg"
  using assms
  by (auto simp: ethernet_run_def eth_receive_def eth_transmit_def bindR_eq_Inr Let_def split: option.splits if_splits)

text \<open>A resolved name stays resolved.\<close>

definition resolved :: "bytes \<Rightarrow> wired \<Rightarrow> bool" where
  "resolved ip s \<longleftrightarrow> dns_parse_ok s = 1 \<and> em_dns_sip (eth_msg_get (w_eth s)) = ip"

lemma wired_step_resolved:
  assumes "resolved ip s" "wired_step cfg i s = Inr (Some (s', as))"
  shows "resolved ip s' \<and> Dns_act a \<notin> set as \<and> (Sock_act (Connect h p) \<in> set as \<longrightarrow> h = ip \<and> p = server_port cfg)"
proof (cases "wi_link i")
  case False
  then show ?thesis using assms by (auto simp: wired_step_def)
next
  case True
  have p: "dns_parse_ok s \<noteq> 0" using assms(1) by (simp add: resolved_def)
  obtain ret d m das st e cs where
    dhcp: "DHCP_run eth_callbacks (wi_dhcp i) (w_dhcp s) (eth_msg_get (w_eth s)) = Inr (ret, d, m, das)"
    and run: "ethernet_run cfg (wi_run i) ((w_eth s)\<lparr>eth_msg_get := m\<rparr>) = Inr (st, e, cs)"
    and s': "w_eth s' = e" "dns_parse_ok s' = dns_parse_ok s" and as: "as = map Dhcp_act das @ map Sock_act cs @ [Delay 5]"
    using assms(2) True p by (auto simp: wired_step_def wired_dns_def bindR_eq_Inr RT_TICK_PER_SECOND_def split: prod.splits)
  show ?thesis
    using assms(1) DHCP_run_keeps_server [OF dhcp] ethernet_run_server [OF run] s' by (auto simp: resolved_def as)
qed

lemma wired_more_resolved:
  assumes "wired_more cfg s s' as" "resolved ip s"
  shows "resolved ip s' \<and> Dns_act a \<notin> set as \<and> (Sock_act (Connect h p) \<in> set as \<longrightarrow> h = ip \<and> p = server_port cfg)"
  using assms
proof (induction rule: wired_more.induct)
  case (round s1 as i s' bs)
  then show ?case using wired_step_resolved [of ip s1 cfg i s' bs a h p] by auto
qed (auto simp: resolved_def wired_second_def)

lemma resolving_round:
  assumes "config_wf cfg" "cstr (server_dsn cfg) = dotted ls" "list_all label_ok ls" "ls \<noteq> []" "dns_parse_ok s = 0" "wi_link i"
    and dhcp: "dhcp_wf (w_dhcp s)" "DHCP_run eth_callbacks (wi_dhcp i) (w_dhcp s) (eth_msg_get (w_eth s)) = Inr (ret, d, m, das)"
    and dns: "wi_dns i = qs @ t # ts" "\<forall>t \<in> set qs. dt_rsr t = 0" "unat (dns_1s_tick (w_dns s)) + passed qs < 3"
      "length ttl = 4" "length ip = 4" "flags AND 0xf = 0" "dt_datagram t = a_reply ident flags ls ttl ip"
      "dt_rsr t = of_nat (8 + length (dt_datagram t))"
    and sock: "er_status (wi_run i) = Some SOCK_INIT"
  shows "\<exists>s'. wired_step cfg i s = Inr (Some (s', map Dhcp_act das @
      map Dns_act [Socket_udp, Sendto (take 4 (dsn_ip_mem s)) (a_query (DNS_MSGID (w_dns s) + 1) ls), Recvfrom, Close_socket] @
      map Sock_act [Keepalive 2, Connect ip (server_port cfg)] @ [Delay 5])) \<and> resolved ip s'"
proof -
  let ?s = "s\<lparr>w_dhcp := d, w_eth := (w_eth s)\<lparr>eth_msg_get := m\<rparr>\<rparr>"
  let ?n = "(w_dns s)\<lparr>pDNSMSG := pDHCPMSG d\<rparr>"
  have "256 \<le> length (pDNSMSG ?n)" using run_wf [OF dhcp] by (simp add: dhcp_wf_def dhcp_sizes_def dhcp_consts)
  then obtain q n' where "DNS_run (wi_dns i) (take 4 (dsn_ip_mem s)) (wi_dhdr i) (server_dsn cfg) (em_dns_sip m) ?n =
      Inr (Some (1, ip, n', [Socket_udp, Sendto (take 4 (dsn_ip_mem s)) q, Recvfrom, Close_socket]))"
    "dns_makequery 0 (dotted ls) (length (pDNSMSG ?n)) (DNS_MSGID ?n) = Inr (DNS_MSGID ?n + 1, q)"
    using run_resolves [OF assms(1-4) _ dns(2) _ dns(4-8), of ?n ts "take 4 (dsn_ip_mem s)" "wi_dhdr i" "em_dns_sip m"] dns(1,3)
    by auto
  with makequery_a_query [OF assms(3,4) this(2)] show ?thesis
    using assms(5,6) dhcp(2) sock
    by (simp add: wired_step_def wired_dns_def ethernet_run_def Let_def RT_TICK_PER_SECOND_def sock_states resolved_def)
qed

text \<open>
  C14: The round of the thread in which the DNS server answers connects to the server found.  With the socket ready, the round sends the
  configured DNS server exactly one query, for the address of the configured name, stores the address of the reply and opens the
  connection to it and to the configured port.  After it the name stays resolved: in whatever rounds, seconds and changes of the network
  layer follow, leases, renewals and conflicts of the DHCP client included, no round asks a DNS server again, and every connection is
  opened to that address and port.
\<close>

theorem wired_resolves_and_connects:
  assumes "config_wf cfg" "cstr (server_dsn cfg) = dotted ls" "list_all label_ok ls" "ls \<noteq> []" "dns_parse_ok s = 0" "wi_link i"
    and dhcp: "dhcp_wf (w_dhcp s)" "DHCP_run eth_callbacks (wi_dhcp i) (w_dhcp s) (eth_msg_get (w_eth s)) = Inr (ret, d, m, das)"
    and dns: "wi_dns i = qs @ t # ts" "\<forall>t \<in> set qs. dt_rsr t = 0" "unat (dns_1s_tick (w_dns s)) + passed qs < 3"
      "length ttl = 4" "length ip = 4" "flags AND 0xf = 0" "dt_datagram t = a_reply ident flags ls ttl ip"
      "dt_rsr t = of_nat (8 + length (dt_datagram t))"
    and sock: "er_status (wi_run i) = Some SOCK_INIT"
  shows "\<exists>s'. wired_step cfg i s = Inr (Some (s', map Dhcp_act das @
      map Dns_act [Socket_udp, Sendto (take 4 (dsn_ip_mem s)) (a_query (DNS_MSGID (w_dns s) + 1) ls), Recvfrom, Close_socket] @
      map Sock_act [Keepalive 2, Connect ip (server_port cfg)] @ [Delay 5])) \<and>
    em_dns_sip (eth_msg_get (w_eth s')) = ip \<and> dns_parse_ok s' = 1 \<and>
    (\<forall>s2 as. wired_more cfg s' s2 as \<longrightarrow> em_dns_sip (eth_msg_get (w_eth s2)) = ip \<and> dns_parse_ok s2 = 1 \<and>
      (\<forall>a. Dns_act a \<notin> set as) \<and> (\<forall>h p. Sock_act (Connect h p) \<in> set as \<longrightarrow> h = ip \<and> p = server_port cfg))"
proof -
  from resolving_round [OF assms] obtain s' where s': "wired_step cfg i s = Inr (Some (s', map Dhcp_act das @
      map Dns_act [Socket_udp, Sendto (take 4 (dsn_ip_mem s)) (a_query (DNS_MSGID (w_dns s) + 1) ls), Recvfrom, Close_socket] @
      map Sock_act [Keepalive 2, Connect ip (server_port cfg)] @ [Delay 5]))" "resolved ip s'" by blast
  then show ?thesis using wired_more_resolved [OF _ s'(2)] unfolding resolved_def by blast
qed

definition demo_reply :: dns_turn where
  "demo_reply = \<lparr>dt_rsr = 55, dt_datagram = a_reply 9 0x8180 lot_zxbike [0, 0, 1, 44] [47, 96, 3, 9], dt_ticks = 1\<rparr>"

definition demo_er :: "u8 \<Rightarrow> er_in" where
  "demo_er st = \<lparr>er_status = Some st, er_recvbuf = 4, er_malloc = Some (replicate 2048 0), er_recv = (4, [32, 2, 0, 0]), er_sem = True\<rparr>"

definition demo_round :: "u8 \<Rightarrow> wired_in" where
  "demo_round st = \<lparr>wi_link = True, wi_dhcp = quiet_in, wi_dns = [demo_reply], wi_dhdr = no_dhdr, wi_seconds = 1, wi_run = demo_er st\<rparr>"

text \<open>The round, and one more round behind it.\<close>

theorem wired_resolves_and_connects_witness:
  "\<exists>s' as s2 bs. wired_step ibox_config (demo_round SOCK_INIT) demo_wired = Inr (Some (s', as @
      map Dns_act [Socket_udp, Sendto [9, 9, 9, 9] (a_query (DNS_MSGID dns_idle + 1) lot_zxbike), Recvfrom, Close_socket] @
      map Sock_act [Keepalive 2, Connect [47, 96, 3, 9] 61613] @ [Delay 5])) \<and> dns_parse_ok s' = 1 \<and>
    wired_step ibox_config (demo_round SOCK_INIT\<lparr>wi_link := False\<rparr>) (wired_second s') = Inr (Some (s2, bs)) \<and>
    em_dns_sip (eth_msg_get (w_eth s2)) = [47, 96, 3, 9] \<and> (\<forall>a. Dns_act a \<notin> set bs)"
proof -
  have c: "cstr (server_dsn ibox_config) = dotted lot_zxbike" "list_all label_ok lot_zxbike" "lot_zxbike \<noteq> []"
    "length (a_reply 9 0x8180 lot_zxbike [0, 0, 1, 44] [47, 96, 3, 9]) = 47" "server_port ibox_config = 61613"
    by code_simp+
  have w: "dhcp_wf (w_dhcp demo_wired)" "dhcp_state (w_dhcp demo_wired) = STATE_DHCP_INIT" using demo_dhcp_start by (simp_all add: demo_wired_def)
  note r = wired_resolves_and_connects [where cfg = ibox_config and s = demo_wired and i = "demo_round SOCK_INIT" and ls = lot_zxbike
    and qs = "[]" and t = demo_reply and ts = "[]" and ttl = "[0, 0, 1, 44]" and ip = "[47, 96, 3, 9]" and flags = "0x8180" and ident = 9]
  have "wi_dhcp (demo_round SOCK_INIT) = quiet_in" by (simp add: demo_round_def)
  with run_discover [OF w quiet_in_sel(1,2), of eth_callbacks "eth_msg_get (w_eth demo_wired)"] obtain s' where
    s': "wired_step ibox_config (demo_round SOCK_INIT) demo_wired = Inr (Some (s', map Dhcp_act [Udp_sendto (discover_msg (w_dhcp demo_wired)) broadcast DHCP_SERVER_PORT] @
      map Dns_act [Socket_udp, Sendto (take 4 (dsn_ip_mem demo_wired)) (a_query (DNS_MSGID (w_dns demo_wired) + 1) lot_zxbike), Recvfrom, Close_socket] @
      map Sock_act [Keepalive 2, Connect [47, 96, 3, 9] (server_port ibox_config)] @ [Delay 5]))" "dns_parse_ok s' = 1"
    and more: "\<And>s2 as. wired_more ibox_config s' s2 as \<Longrightarrow> em_dns_sip (eth_msg_get (w_eth s2)) = [47, 96, 3, 9] \<and> (\<forall>a. Dns_act a \<notin> set as)"
    using c(4) r [OF ibox_config_wf c(1-3) _ _ w(1)] by (auto simp: demo_round_def demo_er_def demo_reply_def demo_wired_def dns_idle_def)
  obtain s2 bs where s2: "wired_step ibox_config (demo_round SOCK_INIT\<lparr>wi_link := False\<rparr>) (wired_second s') = Inr (Some (s2, bs))"
    by (simp add: wired_step_def)
  from more [OF wired_more.round [OF wired_more.second [OF wired_more.start] this]] s' s2 show ?thesis
    by (auto simp: demo_wired_def c(5))
qed

section \<open>Data on the connection\<close>

lemma net_rx_write_too_long:
  "1460 < unat len \<Longrightarrow> net_rx_write True p len net = Inl OutOfBounds"
  by (simp add: net_rx_write_def memcpy_def net_sizes)

lemma recv_error_length: "- 1001 \<le> n \<Longrightarrow> n < 0 \<Longrightarrow> 1460 < unat (word_of_int n :: u16)"
proof -
  assume n: "- 1001 \<le> n" "n < 0"
  have "unat (word_of_int n :: u16) = nat (n mod 65536)" by (simp add: unat_eq_nat_uint uint_word_of_int)
  also have "n mod 65536 = n + 65536"
    using n mod_pos_pos_trivial [of "n + 65536" 65536] by simp
  finally show ?thesis using n by simp
qed

text \<open>
  what the wired socket receives is handed to the network layer unchanged up to 1460 bytes.  The
  socket's buffer holds 2048: a longer read overruns the receive buffer, and so does every error of
  \<open>recv\<close>, whose negative code is taken for a length.
\<close>

theorem ethernet_receives:
  assumes "er_status i = Some SOCK_ESTABLISHED" "er_recvbuf i > 0" "er_malloc i = Some block" "length block = 2048" "er_sem i"
    "eth_tx_len s = 0"
  shows "(er_recv i = (int (length bs), bs) \<and> 0 < length bs \<and> length bs \<le> 1460 \<longrightarrow>
      (\<exists>net. ethernet_run cfg i s = Inr (SOCK_ESTABLISHED, s\<lparr>eth_net := net\<rparr>, [Net (Rt_event_send NET_RX_BUF_WRITE_EVENT)]) \<and>
        net_rx_write True bs (of_nat (length bs)) (eth_net s) = Inr (1, net, [Rt_event_send NET_RX_BUF_WRITE_EVENT]))) \<and>
    (er_recv i = (int (length bs), bs) \<and> 1460 < length bs \<and> length bs \<le> 2048 \<longrightarrow> ethernet_run cfg i s = Inl OutOfBounds) \<and>
    (er_recv i = (n, []) \<and> - 1001 \<le> n \<and> n < 0 \<longrightarrow> ethernet_run cfg i s = Inl OutOfBounds)"
proof (intro conjI impI)
  assume a: "er_recv i = (int (length bs), bs) \<and> 0 < length bs \<and> length bs \<le> 1460"
  then have u: "unat (of_nat (length bs) :: u16) = length bs" "(of_nat (length bs) :: u16) > 0" by (simp_all add: word_less_nat_alt)
  let ?net = "(eth_net s)\<lparr>net_rx_len := of_nat (length bs), net_rx_buf := bs @ replicate (1460 - length bs) 0\<rparr>"
  have w: "net_rx_write True (bs @ r) (of_nat (length bs)) (eth_net s) = Inr (1, ?net, [Rt_event_send NET_RX_BUF_WRITE_EVENT])" for r
    using a u by (simp add: net_rx_write_def memcpy_def net_sizes)
  then show "\<exists>net. ethernet_run cfg i s = Inr (SOCK_ESTABLISHED, s\<lparr>eth_net := net\<rparr>, [Net (Rt_event_send NET_RX_BUF_WRITE_EVENT)]) \<and>
        net_rx_write True bs (of_nat (length bs)) (eth_net s) = Inr (1, net, [Rt_event_send NET_RX_BUF_WRITE_EVENT])"
    using w [of "[]"] a u assms by (simp add: ethernet_run_def eth_receive_def eth_transmit_def sock_states)
next
  assume "er_recv i = (int (length bs), bs) \<and> 1460 < length bs \<and> length bs \<le> 2048"
  moreover then have "1460 < unat (of_nat (length bs) :: u16)" by simp
  moreover then have "(of_nat (length bs) :: u16) > 0" by (simp add: word_less_nat_alt)
  ultimately show "ethernet_run cfg i s = Inl OutOfBounds"
    using assms net_rx_write_too_long by (simp add: ethernet_run_def eth_receive_def sock_states)
next
  assume "er_recv i = (n, []) \<and> - 1001 \<le> n \<and> n < 0"
  moreover then have "1460 < unat (word_of_int n :: u16)" using recv_error_length by blast
  moreover then have "(word_of_int n :: u16) > 0" by (simp add: word_less_nat_alt)
  ultimately show "ethernet_run cfg i s = Inl OutOfBounds"
    using assms net_rx_write_too_long by (simp add: ethernet_run_def eth_receive_def sock_states)
qed

text \<open>
  Runs of the thread: rounds with any input, seconds, and the other threads changing the network layer.
\<close>

inductive wired_reach :: "IBOX_CONFIG \<Rightarrow> wired \<Rightarrow> wired \<Rightarrow> bool" for cfg s0 where
  start: "wired_start cfg s0 = Inr s \<Longrightarrow> wired_reach cfg s0 s"
| round: "wired_reach cfg s0 s \<Longrightarrow> wired_step cfg i s = Inr (Some (s', as)) \<Longrightarrow> wired_reach cfg s0 s'"
| second: "wired_reach cfg s0 s \<Longrightarrow> wired_reach cfg s0 (wired_second s)"
| network: "wired_reach cfg s0 s \<Longrightarrow> wired_reach cfg s0 (s\<lparr>w_eth := (w_eth s)\<lparr>eth_net := net\<rparr>\<rparr>)"

lemma ethernet_run_idle:
  assumes "eth_tx_len s = 0" "ethernet_run cfg i s = Inr (st, s', as)"
  shows "eth_tx_len s' = 0" "Send b \<notin> set as"
  using assms
  by (auto simp: ethernet_run_def eth_receive_def eth_transmit_def bindR_eq_Inr Let_def split: option.splits if_splits)

lemma wired_dns_eth:
  "wired_dns cfg i s = Inr (Some (s', as)) \<Longrightarrow> eth_tx_len (w_eth s') = eth_tx_len (w_eth s) \<and> Sock_act a \<notin> set as"
  by (auto simp: wired_dns_def bindR_eq_Inr Let_def split: if_splits)

lemma wired_step_idle:
  assumes "eth_tx_len (w_eth s) = 0" "wired_step cfg i s = Inr (Some (s', as))"
  shows "eth_tx_len (w_eth s') = 0 \<and> Sock_act (Send b) \<notin> set as"
proof (cases "wi_link i")
  case False
  then show ?thesis using assms by (auto simp: wired_step_def)
next
  case True
  then obtain d m das s1 bs st e cs where
    dns: "wired_dns cfg i (s\<lparr>w_dhcp := d, w_eth := (w_eth s)\<lparr>eth_msg_get := m\<rparr>\<rparr>) = Inr (Some (s1, bs))"
    and run: "ethernet_run cfg (wi_run i) (w_eth s1) = Inr (st, e, cs)" and s': "w_eth s' = e"
    and as: "as = map Dhcp_act das @ bs @ map Sock_act cs @ [Delay 5]"
    using assms(2) by (auto simp: wired_step_def bindR_eq_Inr RT_TICK_PER_SECOND_def split: option.splits prod.splits)
  have "eth_tx_len (w_eth s1) = 0" "Sock_act (Send b) \<notin> set bs" using wired_dns_eth [OF dns] assms(1) by simp_all
  with ethernet_run_idle [OF _ run] show ?thesis by (auto simp: s' as)
qed

text \<open>
  the wired connection never sends user data: nothing sets \<open>eth_tx_len\<close>, so in every run that starts
  with its initial value no round transmits on the TCP socket, whatever the network layer has to send.
\<close>

theorem eth_never_sends:
  assumes "wired_reach cfg s0 s" "eth_tx_len (w_eth s0) = 0" "wired_step cfg i s = Inr (Some (s', as))"
  shows "Sock_act (Send b) \<notin> set as"
proof -
  have "eth_tx_len (w_eth s) = 0"
    using assms(1,2)
  proof (induction rule: wired_reach.induct)
    case (round s i s' as)
    then show ?case using wired_step_idle by blast
  qed (auto simp: wired_start_def wired_second_def bindR_eq_Inr)
  then show ?thesis using wired_step_idle assms(3) by blast
qed

lemma demo_round_step:
  assumes "dhcp_wf (w_dhcp s)" "dhcp_state (w_dhcp s) = STATE_DHCP_INIT" "dns_parse_ok s = 0" "dns_1s_tick (w_dns s) = 0"
  shows "\<exists>s' as. wired_step ibox_config (demo_round SOCK_INIT) s = Inr (Some (s', as))"
proof -
  have c: "cstr (server_dsn ibox_config) = dotted lot_zxbike" "list_all label_ok lot_zxbike" "lot_zxbike \<noteq> []"
    "length (a_reply 9 0x8180 lot_zxbike [0, 0, 1, 44] [47, 96, 3, 9]) = 47"
    by code_simp+
  have "wi_dhcp (demo_round SOCK_INIT) = quiet_in" by (simp add: demo_round_def)
  then obtain ret d m das where d: "DHCP_run eth_callbacks (wi_dhcp (demo_round SOCK_INIT)) (w_dhcp s) (eth_msg_get (w_eth s)) = Inr (ret, d, m, das)"
    using run_discover [OF assms(1,2) quiet_in_sel(1,2), of eth_callbacks "eth_msg_get (w_eth s)"] by simp
  show ?thesis
    using resolving_round [OF ibox_config_wf c(1-3) assms(3) _ assms(1) d, of "[]" demo_reply "[]" "[0, 0, 1, 44]" "[47, 96, 3, 9]" "0x8180" 9] c(4) assms(4)
    by (auto simp: demo_round_def demo_er_def demo_reply_def)
qed

theorem eth_never_sends_witness:
  "\<exists>s s' as. wired_start ibox_config demo_wired = Inr s \<and> wired_step ibox_config (demo_round SOCK_INIT) s = Inr (Some (s', as)) \<and>
     Sock_act (Send [1, 2]) \<notin> set as"
proof -
  have "string_of (dns_ip ibox_config) = Inr (dotted_quad 114 114 114 114)" by code_simp
  then obtain s where s: "wired_start ibox_config demo_wired = Inr s" "w_dhcp s = demo_dhcp" "dns_parse_ok s = 0" "dns_1s_tick (w_dns s) = 0"
    by (simp add: wired_start_def demo_wired_def)
  then obtain s' as where "wired_step ibox_config (demo_round SOCK_INIT) s = Inr (Some (s', as))"
    using demo_round_step [of s] demo_dhcp_start by auto
  then show ?thesis
    using eth_never_sends [OF wired_reach.start [OF s(1)]] s(1) by (auto simp: demo_wired_def blank_eth_def)
qed

theorem ethernet_receives_witness:
  "\<exists>net. ethernet_run ibox_config (demo_er SOCK_ESTABLISHED) blank_eth =
      Inr (SOCK_ESTABLISHED, blank_eth\<lparr>eth_net := net\<rparr>, [Net (Rt_event_send NET_RX_BUF_WRITE_EVENT)]) \<and>
    net_rx_write True [32, 2, 0, 0] 4 (eth_net blank_eth) = Inr (1, net, [Rt_event_send NET_RX_BUF_WRITE_EVENT])"
  using ethernet_receives [where i = "demo_er SOCK_ESTABLISHED" and s = blank_eth and bs = "[32, 2, 0, 0]" and block = "replicate 2048 0" and cfg = ibox_config]
  by (simp add: demo_er_def blank_eth_def)

end
