(* ===== verification/Wizchip.thy ===== *)
theory Wizchip
  imports IBox_Prelude "HOL-Library.Monad_Syntax"
begin

text \<open>
  Register access of the W5500: the SPI frames of \<open>w5500.c\<close>, the register macros of \<open>w5500.h\<close> and the
  transfers to and from the socket buffers.  The bytes the chip answers are an input, consumed by the reads;
  an operation that still waits for an answer has no result (\<open>None\<close>).  Every frame is recorded.
\<close>

section \<open>Frames\<close>

datatype spi_frame = Spi_write bytes | Spi_read bytes nat

text \<open>
  The state of the library: answers and frames, the variables of \<open>socket.c\<close>, and whether an array has been
  accessed outside its bounds.
\<close>

record wiz =
  answers :: bytes
  spi :: "spi_frame list"
  sock_any_port :: u16
  sock_io_mode :: u16
  sock_is_sending :: u16
  sock_remained_size :: "u16 list"
  sock_pack_info :: "u8 list"
  outside :: bool

text \<open>The address and control bytes of a frame; writing sets bit 2.\<close>

definition spi_head :: "u32 \<Rightarrow> bytes" where
  "spi_head a = [ucast (drop_bit 16 (a AND 0x00FF0000)), ucast (drop_bit 8 (a AND 0x0000FF00)), ucast (a AND 0x000000FF)]"

definition W5500_SPI_READ :: u32 where "W5500_SPI_READ = 0x00"
definition W5500_SPI_WRITE :: u32 where "W5500_SPI_WRITE = 0x04"
definition W5500_SPI_VDM_OP :: u32 where "W5500_SPI_VDM_OP = 0x00"

definition emit :: "spi_frame \<Rightarrow> wiz \<Rightarrow> wiz" where
  "emit f w = w\<lparr>spi := spi w @ [f]\<rparr>"

definition WIZCHIP_READ :: "u32 \<Rightarrow> wiz \<Rightarrow> (u8 \<times> wiz) option" where
  "WIZCHIP_READ a w =
     (case answers w of
        [] \<Rightarrow> None
      | v # vs \<Rightarrow> Some (v, emit (Spi_read (spi_head (a OR (W5500_SPI_READ OR W5500_SPI_VDM_OP))) 1) (w\<lparr>answers := vs\<rparr>)))"

definition WIZCHIP_WRITE :: "u32 \<Rightarrow> u8 \<Rightarrow> wiz \<Rightarrow> wiz" where
  "WIZCHIP_WRITE a v w = emit (Spi_write (spi_head (a OR (W5500_SPI_WRITE OR W5500_SPI_VDM_OP)) @ [v])) w"

definition WIZCHIP_READ_BUF :: "u32 \<Rightarrow> nat \<Rightarrow> wiz \<Rightarrow> (bytes \<times> wiz) option" where
  "WIZCHIP_READ_BUF a n w =
     (if n \<le> length (answers w)
      then Some (take n (answers w), emit (Spi_read (spi_head (a OR (W5500_SPI_READ OR W5500_SPI_VDM_OP))) n) (w\<lparr>answers := drop n (answers w)\<rparr>))
      else None)"

definition WIZCHIP_WRITE_BUF :: "u32 \<Rightarrow> bytes \<Rightarrow> nat \<Rightarrow> wiz \<Rightarrow> wiz" where
  "WIZCHIP_WRITE_BUF a b n w =
     emit (Spi_write (spi_head (a OR (W5500_SPI_WRITE OR W5500_SPI_VDM_OP)) @ take n b)) (w\<lparr>outside := (outside w \<or> length b < n)\<rparr>)"

section \<open>Addresses\<close>

definition WIZCHIP_CREG :: "u32 \<Rightarrow> u32" where
  "WIZCHIP_CREG off = push_bit 8 off"

definition WIZCHIP_SREG :: "u32 \<Rightarrow> u8 \<Rightarrow> u32" where
  "WIZCHIP_SREG off sn = push_bit 8 off + push_bit 3 (1 + 4 * ucast sn)"

definition WIZCHIP_TXBUF_BLOCK :: "u8 \<Rightarrow> u32" where "WIZCHIP_TXBUF_BLOCK sn = 2 + 4 * ucast sn"
definition WIZCHIP_RXBUF_BLOCK :: "u8 \<Rightarrow> u32" where "WIZCHIP_RXBUF_BLOCK sn = 3 + 4 * ucast sn"

definition WIZCHIP_OFFSET_INC :: "u32 \<Rightarrow> u32 \<Rightarrow> u32" where
  "WIZCHIP_OFFSET_INC a n = a + push_bit 8 n"

definition Sn_MR :: "u8 \<Rightarrow> u32" where "Sn_MR = WIZCHIP_SREG 0x00"
definition Sn_CR :: "u8 \<Rightarrow> u32" where "Sn_CR = WIZCHIP_SREG 0x01"
definition Sn_IR :: "u8 \<Rightarrow> u32" where "Sn_IR = WIZCHIP_SREG 0x02"
definition Sn_SR :: "u8 \<Rightarrow> u32" where "Sn_SR = WIZCHIP_SREG 0x03"
definition Sn_PORT :: "u8 \<Rightarrow> u32" where "Sn_PORT = WIZCHIP_SREG 0x04"
definition Sn_DIPR :: "u8 \<Rightarrow> u32" where "Sn_DIPR = WIZCHIP_SREG 0x0C"
definition Sn_DPORT :: "u8 \<Rightarrow> u32" where "Sn_DPORT = WIZCHIP_SREG 0x10"
definition Sn_MSSR :: "u8 \<Rightarrow> u32" where "Sn_MSSR = WIZCHIP_SREG 0x12"
definition Sn_TOS :: "u8 \<Rightarrow> u32" where "Sn_TOS = WIZCHIP_SREG 0x15"
definition Sn_TTL :: "u8 \<Rightarrow> u32" where "Sn_TTL = WIZCHIP_SREG 0x16"
definition Sn_RXBUF_SIZE :: "u8 \<Rightarrow> u32" where "Sn_RXBUF_SIZE = WIZCHIP_SREG 0x1E"
definition Sn_TXBUF_SIZE :: "u8 \<Rightarrow> u32" where "Sn_TXBUF_SIZE = WIZCHIP_SREG 0x1F"
definition Sn_TX_FSR :: "u8 \<Rightarrow> u32" where "Sn_TX_FSR = WIZCHIP_SREG 0x20"
definition Sn_TX_WR :: "u8 \<Rightarrow> u32" where "Sn_TX_WR = WIZCHIP_SREG 0x24"
definition Sn_RX_RSR :: "u8 \<Rightarrow> u32" where "Sn_RX_RSR = WIZCHIP_SREG 0x26"
definition Sn_RX_RD :: "u8 \<Rightarrow> u32" where "Sn_RX_RD = WIZCHIP_SREG 0x28"
definition Sn_IMR :: "u8 \<Rightarrow> u32" where "Sn_IMR = WIZCHIP_SREG 0x2C"
definition Sn_KPALVTR :: "u8 \<Rightarrow> u32" where "Sn_KPALVTR = WIZCHIP_SREG 0x2F"
definition SIPR :: u32 where "SIPR = WIZCHIP_CREG 0x0F"

section \<open>Register macros\<close>

text \<open>The shape of the macros of 16-bit registers: high byte first.\<close>

definition read16 :: "u32 \<Rightarrow> wiz \<Rightarrow> (u16 \<times> wiz) option" where
  "read16 a w = do {
     (h, w1) \<leftarrow> WIZCHIP_READ a w;
     (l, w2) \<leftarrow> WIZCHIP_READ (WIZCHIP_OFFSET_INC a 1) w1;
     Some (push_bit 8 (ucast h) + ucast l, w2) }"

definition write16 :: "u32 \<Rightarrow> u16 \<Rightarrow> wiz \<Rightarrow> wiz" where
  "write16 a v w = WIZCHIP_WRITE (WIZCHIP_OFFSET_INC a 1) (ucast v) (WIZCHIP_WRITE a (ucast (drop_bit 8 v)) w)"

definition setSn_MR :: "u8 \<Rightarrow> u8 \<Rightarrow> wiz \<Rightarrow> wiz" where "setSn_MR sn v = WIZCHIP_WRITE (Sn_MR sn) v"
definition getSn_MR :: "u8 \<Rightarrow> wiz \<Rightarrow> (u8 \<times> wiz) option" where "getSn_MR sn = WIZCHIP_READ (Sn_MR sn)"
definition setSn_CR :: "u8 \<Rightarrow> u8 \<Rightarrow> wiz \<Rightarrow> wiz" where "setSn_CR sn v = WIZCHIP_WRITE (Sn_CR sn) v"
definition getSn_CR :: "u8 \<Rightarrow> wiz \<Rightarrow> (u8 \<times> wiz) option" where "getSn_CR sn = WIZCHIP_READ (Sn_CR sn)"
definition setSn_IR :: "u8 \<Rightarrow> u8 \<Rightarrow> wiz \<Rightarrow> wiz" where "setSn_IR sn v = WIZCHIP_WRITE (Sn_IR sn) (v AND 0x1F)"
definition getSn_IR :: "u8 \<Rightarrow> wiz \<Rightarrow> (u8 \<times> wiz) option" where
  "getSn_IR sn w = map_option (\<lambda>(v, w1). (v AND 0x1F, w1)) (WIZCHIP_READ (Sn_IR sn) w)"
definition setSn_IMR :: "u8 \<Rightarrow> u8 \<Rightarrow> wiz \<Rightarrow> wiz" where "setSn_IMR sn v = WIZCHIP_WRITE (Sn_IMR sn) (v AND 0x1F)"
definition getSn_IMR :: "u8 \<Rightarrow> wiz \<Rightarrow> (u8 \<times> wiz) option" where
  "getSn_IMR sn w = map_option (\<lambda>(v, w1). (v AND 0x1F, w1)) (WIZCHIP_READ (Sn_IMR sn) w)"
definition getSn_SR :: "u8 \<Rightarrow> wiz \<Rightarrow> (u8 \<times> wiz) option" where "getSn_SR sn = WIZCHIP_READ (Sn_SR sn)"
definition setSn_PORT :: "u8 \<Rightarrow> u16 \<Rightarrow> wiz \<Rightarrow> wiz" where "setSn_PORT sn = write16 (Sn_PORT sn)"
definition setSn_DIPR :: "u8 \<Rightarrow> bytes \<Rightarrow> wiz \<Rightarrow> wiz" where "setSn_DIPR sn b = WIZCHIP_WRITE_BUF (Sn_DIPR sn) b 4"
definition getSn_DIPR :: "u8 \<Rightarrow> wiz \<Rightarrow> (bytes \<times> wiz) option" where "getSn_DIPR sn = WIZCHIP_READ_BUF (Sn_DIPR sn) 4"
definition setSn_DPORT :: "u8 \<Rightarrow> u16 \<Rightarrow> wiz \<Rightarrow> wiz" where "setSn_DPORT sn = write16 (Sn_DPORT sn)"
definition getSn_DPORT :: "u8 \<Rightarrow> wiz \<Rightarrow> (u16 \<times> wiz) option" where "getSn_DPORT sn = read16 (Sn_DPORT sn)"
definition setSn_MSSR :: "u8 \<Rightarrow> u16 \<Rightarrow> wiz \<Rightarrow> wiz" where "setSn_MSSR sn = write16 (Sn_MSSR sn)"
definition getSn_MSSR :: "u8 \<Rightarrow> wiz \<Rightarrow> (u16 \<times> wiz) option" where "getSn_MSSR sn = read16 (Sn_MSSR sn)"
definition setSn_TOS :: "u8 \<Rightarrow> u8 \<Rightarrow> wiz \<Rightarrow> wiz" where "setSn_TOS sn = WIZCHIP_WRITE (Sn_TOS sn)"
definition getSn_TOS :: "u8 \<Rightarrow> wiz \<Rightarrow> (u8 \<times> wiz) option" where "getSn_TOS sn = WIZCHIP_READ (Sn_TOS sn)"
definition setSn_TTL :: "u8 \<Rightarrow> u8 \<Rightarrow> wiz \<Rightarrow> wiz" where "setSn_TTL sn = WIZCHIP_WRITE (Sn_TTL sn)"
definition getSn_TTL :: "u8 \<Rightarrow> wiz \<Rightarrow> (u8 \<times> wiz) option" where "getSn_TTL sn = WIZCHIP_READ (Sn_TTL sn)"
definition setSn_KPALVTR :: "u8 \<Rightarrow> u8 \<Rightarrow> wiz \<Rightarrow> wiz" where "setSn_KPALVTR sn = WIZCHIP_WRITE (Sn_KPALVTR sn)"
definition getSn_KPALVTR :: "u8 \<Rightarrow> wiz \<Rightarrow> (u8 \<times> wiz) option" where "getSn_KPALVTR sn = WIZCHIP_READ (Sn_KPALVTR sn)"
definition setSn_TX_WR :: "u8 \<Rightarrow> u16 \<Rightarrow> wiz \<Rightarrow> wiz" where "setSn_TX_WR sn = write16 (Sn_TX_WR sn)"
definition getSn_TX_WR :: "u8 \<Rightarrow> wiz \<Rightarrow> (u16 \<times> wiz) option" where "getSn_TX_WR sn = read16 (Sn_TX_WR sn)"
definition setSn_RX_RD :: "u8 \<Rightarrow> u16 \<Rightarrow> wiz \<Rightarrow> wiz" where "setSn_RX_RD sn = write16 (Sn_RX_RD sn)"
definition getSn_RX_RD :: "u8 \<Rightarrow> wiz \<Rightarrow> (u16 \<times> wiz) option" where "getSn_RX_RD sn = read16 (Sn_RX_RD sn)"

definition getSn_RxMAX :: "u8 \<Rightarrow> wiz \<Rightarrow> (u32 \<times> wiz) option" where
  "getSn_RxMAX sn w = map_option (\<lambda>(v, w1). (push_bit 10 (ucast v), w1)) (WIZCHIP_READ (Sn_RXBUF_SIZE sn) w)"

definition getSn_TxMAX :: "u8 \<Rightarrow> wiz \<Rightarrow> (u32 \<times> wiz) option" where
  "getSn_TxMAX sn w = map_option (\<lambda>(v, w1). (push_bit 10 (ucast v), w1)) (WIZCHIP_READ (Sn_TXBUF_SIZE sn) w)"

definition getSIPR :: "wiz \<Rightarrow> (bytes \<times> wiz) option" where "getSIPR = WIZCHIP_READ_BUF SIPR 4"

section \<open>Sizes that change while they are read\<close>

text \<open>Reads a 16-bit size until it has been read twice alike; zero needs no second reading.\<close>

partial_function (option) size_loop :: "u32 \<Rightarrow> u16 \<Rightarrow> wiz \<Rightarrow> (u16 \<times> wiz) option" where
  [code]: "size_loop a val w = do {
     (val1, w1) \<leftarrow> read16 a w;
     (val', w2) \<leftarrow> (if val1 \<noteq> 0 then read16 a w1 else Some (val, w1));
     if val' \<noteq> val1 then size_loop a val' w2 else Some (val', w2) }"

definition getSn_TX_FSR :: "u8 \<Rightarrow> wiz \<Rightarrow> (u16 \<times> wiz) option" where
  "getSn_TX_FSR sn = size_loop (Sn_TX_FSR sn) 0"

definition getSn_RX_RSR :: "u8 \<Rightarrow> wiz \<Rightarrow> (u16 \<times> wiz) option" where
  "getSn_RX_RSR sn = size_loop (Sn_RX_RSR sn) 0"

section \<open>Transfers\<close>

definition wiz_send_data :: "u8 \<Rightarrow> bytes \<Rightarrow> u16 \<Rightarrow> wiz \<Rightarrow> wiz option" where
  "wiz_send_data sn wizdata len w =
     (if len = 0 then Some w
      else do {
        (ptr, w1) \<leftarrow> getSn_TX_WR sn w;
        let addrsel = push_bit 8 (ucast ptr) + push_bit 3 (WIZCHIP_TXBUF_BLOCK sn);
        let w2 = WIZCHIP_WRITE_BUF addrsel wizdata (unat len) w1;
        Some (setSn_TX_WR sn (ptr + len) w2) })"

definition wiz_recv_data :: "u8 \<Rightarrow> u16 \<Rightarrow> wiz \<Rightarrow> (bytes \<times> wiz) option" where
  "wiz_recv_data sn len w =
     (if len = 0 then Some ([], w)
      else do {
        (ptr, w1) \<leftarrow> getSn_RX_RD sn w;
        let addrsel = push_bit 8 (ucast ptr) + push_bit 3 (WIZCHIP_RXBUF_BLOCK sn);
        (b, w2) \<leftarrow> WIZCHIP_READ_BUF addrsel (unat len) w1;
        Some (b, setSn_RX_RD sn (ptr + len) w2) })"

definition wiz_recv_ignore :: "u8 \<Rightarrow> u16 \<Rightarrow> wiz \<Rightarrow> wiz option" where
  "wiz_recv_ignore sn len w = do {
     (ptr, w1) \<leftarrow> getSn_RX_RD sn w;
     Some (setSn_RX_RD sn (ptr + len) w1) }"

end
