(* ===== verification/Wiz_Socket.thy ===== *)
theory Wiz_Socket
  imports Wizchip
begin

text \<open>
  The socket library \<open>Middlewares/Eth/socket.c\<close>, in its configuration for the W5500.  Every function returns
  its result and the state, or has no result while it still waits for the chip.
\<close>

section \<open>Constants\<close>

definition WIZCHIP_SOCK_NUM :: nat where "WIZCHIP_SOCK_NUM = 8"

definition SOCK_OK :: int where "SOCK_OK = 1"
definition SOCK_BUSY :: int where "SOCK_BUSY = 0"
definition SOCKERR_SOCKNUM :: int where "SOCKERR_SOCKNUM = -1"
definition SOCKERR_SOCKOPT :: int where "SOCKERR_SOCKOPT = -2"
definition SOCKERR_SOCKINIT :: int where "SOCKERR_SOCKINIT = -3"
definition SOCKERR_SOCKCLOSED :: int where "SOCKERR_SOCKCLOSED = -4"
definition SOCKERR_SOCKMODE :: int where "SOCKERR_SOCKMODE = -5"
definition SOCKERR_SOCKFLAG :: int where "SOCKERR_SOCKFLAG = -6"
definition SOCKERR_SOCKSTATUS :: int where "SOCKERR_SOCKSTATUS = -7"
definition SOCKERR_ARG :: int where "SOCKERR_ARG = -10"
definition SOCKERR_PORTZERO :: int where "SOCKERR_PORTZERO = -11"
definition SOCKERR_IPINVALID :: int where "SOCKERR_IPINVALID = -12"
definition SOCKERR_TIMEOUT :: int where "SOCKERR_TIMEOUT = -13"
definition SOCKERR_DATALEN :: int where "SOCKERR_DATALEN = -14"
definition SOCKFATAL_PACKLEN :: int where "SOCKFATAL_PACKLEN = -1001"

definition Sn_MR_TCP :: u8 where "Sn_MR_TCP = 1"
definition Sn_MR_UDP :: u8 where "Sn_MR_UDP = 2"
definition Sn_MR_IPRAW :: u8 where "Sn_MR_IPRAW = 3"
definition Sn_MR_MACRAW :: u8 where "Sn_MR_MACRAW = 4"

definition Sn_CR_OPEN :: u8 where "Sn_CR_OPEN = 0x01"
definition Sn_CR_LISTEN :: u8 where "Sn_CR_LISTEN = 0x02"
definition Sn_CR_CONNECT :: u8 where "Sn_CR_CONNECT = 0x04"
definition Sn_CR_DISCON :: u8 where "Sn_CR_DISCON = 0x08"
definition Sn_CR_CLOSE :: u8 where "Sn_CR_CLOSE = 0x10"
definition Sn_CR_SEND :: u8 where "Sn_CR_SEND = 0x20"
definition Sn_CR_SEND_KEEP :: u8 where "Sn_CR_SEND_KEEP = 0x22"
definition Sn_CR_RECV :: u8 where "Sn_CR_RECV = 0x40"

definition Sn_IR_SENDOK :: u8 where "Sn_IR_SENDOK = 0x10"
definition Sn_IR_TIMEOUT :: u8 where "Sn_IR_TIMEOUT = 0x08"

definition SR_CLOSED :: u8 where "SR_CLOSED = 0x00"
definition SR_INIT :: u8 where "SR_INIT = 0x13"
definition SR_LISTEN :: u8 where "SR_LISTEN = 0x14"
definition SR_ESTABLISHED :: u8 where "SR_ESTABLISHED = 0x17"
definition SR_CLOSE_WAIT :: u8 where "SR_CLOSE_WAIT = 0x1C"
definition SR_UDP :: u8 where "SR_UDP = 0x22"
definition SR_IPRAW :: u8 where "SR_IPRAW = 0x32"
definition SR_MACRAW :: u8 where "SR_MACRAW = 0x42"

definition SOCK_ANY_PORT_NUM :: u16 where "SOCK_ANY_PORT_NUM = 0xC000"
definition PACK_COMPLETED :: u8 where "PACK_COMPLETED = 0x00"
definition PACK_REMAINED :: u8 where "PACK_REMAINED = 0x01"
definition PACK_FIRST :: u8 where "PACK_FIRST = 0x80"

type_synonym sock_result = "(int \<times> wiz) option"

section \<open>Per-socket variables\<close>

text \<open>The index check lets the number 8 through, one more than the arrays have.\<close>

definition sock_number_ok :: "u8 \<Rightarrow> bool" where
  "sock_number_ok sn \<longleftrightarrow> \<not> unat sn > WIZCHIP_SOCK_NUM"

definition touch :: "u8 \<Rightarrow> wiz \<Rightarrow> wiz" where
  "touch sn w = w\<lparr>outside := (outside w \<or> WIZCHIP_SOCK_NUM \<le> unat sn)\<rparr>"

definition remained :: "u8 \<Rightarrow> wiz \<Rightarrow> u16" where
  "remained sn w = (if unat sn < length (sock_remained_size w) then sock_remained_size w ! unat sn else 0)"

definition set_remained :: "u8 \<Rightarrow> u16 \<Rightarrow> wiz \<Rightarrow> wiz" where
  "set_remained sn v w = touch sn (w\<lparr>sock_remained_size := (sock_remained_size w)[unat sn := v]\<rparr>)"

definition pack_info :: "u8 \<Rightarrow> wiz \<Rightarrow> u8" where
  "pack_info sn w = (if unat sn < length (sock_pack_info w) then sock_pack_info w ! unat sn else 0)"

definition set_pack_info :: "u8 \<Rightarrow> u8 \<Rightarrow> wiz \<Rightarrow> wiz" where
  "set_pack_info sn v w = touch sn (w\<lparr>sock_pack_info := (sock_pack_info w)[unat sn := v]\<rparr>)"

definition nonblock :: "u8 \<Rightarrow> wiz \<Rightarrow> bool" where
  "nonblock sn w \<longleftrightarrow> sock_io_mode w AND push_bit (unat sn) 1 \<noteq> 0"

definition is_sending :: "u8 \<Rightarrow> wiz \<Rightarrow> bool" where
  "is_sending sn w \<longleftrightarrow> sock_is_sending w AND push_bit (unat sn) 1 \<noteq> 0"

definition clear_sending :: "u8 \<Rightarrow> wiz \<Rightarrow> wiz" where
  "clear_sending sn w = w\<lparr>sock_is_sending := sock_is_sending w AND NOT (push_bit (unat sn) 1)\<rparr>"

definition clear_io_mode :: "u8 \<Rightarrow> wiz \<Rightarrow> wiz" where
  "clear_io_mode sn w = w\<lparr>sock_io_mode := sock_io_mode w AND NOT (push_bit (unat sn) 1)\<rparr>"

section \<open>Commands\<close>

partial_function (option) wait_CR :: "u8 \<Rightarrow> wiz \<Rightarrow> wiz option" where
  [code]: "wait_CR sn w = do {
     (v, w1) \<leftarrow> getSn_CR sn w;
     if v \<noteq> 0 then wait_CR sn w1 else Some w1 }"

definition command :: "u8 \<Rightarrow> u8 \<Rightarrow> wiz \<Rightarrow> wiz option" where
  "command sn c w = wait_CR sn (setSn_CR sn c w)"

partial_function (option) wait_closed :: "u8 \<Rightarrow> wiz \<Rightarrow> wiz option" where
  [code]: "wait_closed sn w = do {
     (v, w1) \<leftarrow> getSn_SR sn w;
     if v \<noteq> SR_CLOSED then wait_closed sn w1 else Some w1 }"

partial_function (option) wait_open :: "u8 \<Rightarrow> wiz \<Rightarrow> wiz option" where
  [code]: "wait_open sn w = do {
     (v, w1) \<leftarrow> getSn_SR sn w;
     if v = SR_CLOSED then wait_open sn w1 else Some w1 }"

section \<open>Opening and closing\<close>

definition sock_close :: "u8 \<Rightarrow> wiz \<Rightarrow> sock_result" where
  "sock_close sn w =
     (if \<not> sock_number_ok sn then Some (SOCKERR_SOCKNUM, w)
      else do {
        w1 \<leftarrow> command sn Sn_CR_CLOSE w;
        let w2 = clear_sending sn (clear_io_mode sn (setSn_IR sn 0xFF w1));
        let w3 = set_pack_info sn 0 (set_remained sn 0 w2);
        w4 \<leftarrow> wait_closed sn w3;
        Some (SOCK_OK, w4) })"

text \<open>The checks of the protocol and of the flags; only TCP needs an address of the own.\<close>

definition flag_error :: "u8 \<Rightarrow> u8 \<Rightarrow> bool" where
  "flag_error protocol flag \<longleftrightarrow>
     flag AND 0x04 \<noteq> 0 \<or>
     (flag \<noteq> 0 \<and>
      (if protocol = Sn_MR_TCP then flag AND (0x20 OR 0x01) = 0
       else if protocol = Sn_MR_UDP then
         (flag AND 0x20 \<noteq> 0 \<and> flag AND 0x80 = 0) \<or> (flag AND 0x10 \<noteq> 0 \<and> flag AND 0x80 = 0)
       else False))"

definition pick_port :: "u16 \<Rightarrow> wiz \<Rightarrow> u16 \<times> wiz" where
  "pick_port port w =
     (if port = 0 then
        (let next_port = sock_any_port w + 1
         in (sock_any_port w, w\<lparr>sock_any_port := if next_port = 0xFFF0 then SOCK_ANY_PORT_NUM else next_port\<rparr>))
      else (port, w))"

definition sock_open :: "u8 \<Rightarrow> u8 \<Rightarrow> u16 \<Rightarrow> u8 \<Rightarrow> wiz \<Rightarrow> sock_result" where
  "sock_open sn protocol port flag w = do {
     (_, w1) \<leftarrow> sock_close sn w;
     let w2 = setSn_MR sn (protocol OR (flag AND 0xF0)) w1;
     let (p, w3) = pick_port port w2;
     w4 \<leftarrow> command sn Sn_CR_OPEN (setSn_PORT sn p w3);
     let w5 = clear_io_mode sn w4;
     let w6 = w5\<lparr>sock_io_mode := sock_io_mode w5 OR push_bit (unat sn) (ucast (flag AND 0x01))\<rparr>;
     let w7 = set_pack_info sn PACK_COMPLETED (set_remained sn 0 (clear_sending sn w6));
     w8 \<leftarrow> wait_open sn w7;
     Some (sint sn, w8) }"

definition sock_socket :: "u8 \<Rightarrow> u8 \<Rightarrow> u16 \<Rightarrow> u8 \<Rightarrow> wiz \<Rightarrow> sock_result" where
  "sock_socket sn protocol port flag w =
     (if \<not> sock_number_ok sn then Some (SOCKERR_SOCKNUM, w)
      else if protocol = Sn_MR_TCP then do {
        (taddr, w1) \<leftarrow> getSIPR w;
        if taddr = replicate 4 0 then Some (SOCKERR_SOCKINIT, w1)
        else if flag_error protocol flag then Some (SOCKERR_SOCKFLAG, w1)
        else sock_open sn protocol port flag w1 }
      else if protocol \<in> {Sn_MR_UDP, Sn_MR_MACRAW, Sn_MR_IPRAW} then
        (if flag_error protocol flag then Some (SOCKERR_SOCKFLAG, w) else sock_open sn protocol port flag w)
      else Some (SOCKERR_SOCKMODE, w))"

text \<open>The check of the mode that the TCP functions share.\<close>

definition tcp_mode :: "u8 \<Rightarrow> (wiz \<Rightarrow> sock_result) \<Rightarrow> wiz \<Rightarrow> sock_result" where
  "tcp_mode sn k w =
     (if \<not> sock_number_ok sn then Some (SOCKERR_SOCKNUM, w)
      else do {
        (m, w1) \<leftarrow> getSn_MR sn w;
        if m AND 0x0F \<noteq> Sn_MR_TCP then Some (SOCKERR_SOCKMODE, w1) else k w1 })"

definition sock_listen :: "u8 \<Rightarrow> wiz \<Rightarrow> sock_result" where
  "sock_listen sn = tcp_mode sn (\<lambda>w1. do {
     (st, w2) \<leftarrow> getSn_SR sn w1;
     if st \<noteq> SR_INIT then Some (SOCKERR_SOCKINIT, w2)
     else do {
       w3 \<leftarrow> command sn Sn_CR_LISTEN w2;
       (st2, w4) \<leftarrow> getSn_SR sn w3;
       if st2 \<noteq> SR_LISTEN then do { (_, w5) \<leftarrow> sock_close sn w4; Some (SOCKERR_SOCKCLOSED, w5) }
       else Some (SOCK_OK, w4) } })"

partial_function (option) connect_wait :: "u8 \<Rightarrow> wiz \<Rightarrow> sock_result" where
  [code]: "connect_wait sn w = do {
     (st, w1) \<leftarrow> getSn_SR sn w;
     if st = SR_ESTABLISHED then Some (SOCK_OK, w1)
     else do {
       (ir, w2) \<leftarrow> getSn_IR sn w1;
       if ir AND Sn_IR_TIMEOUT \<noteq> 0 then Some (SOCKERR_TIMEOUT, setSn_IR sn Sn_IR_TIMEOUT w2)
       else do {
         (st2, w3) \<leftarrow> getSn_SR sn w2;
         if st2 = SR_CLOSED then Some (SOCKERR_SOCKCLOSED, w3) else connect_wait sn w3 } } }"

definition sock_connect :: "u8 \<Rightarrow> bytes \<Rightarrow> u16 \<Rightarrow> wiz \<Rightarrow> sock_result" where
  "sock_connect sn addr port = tcp_mode sn (\<lambda>w1. do {
     (st, w2) \<leftarrow> getSn_SR sn w1;
     if st \<noteq> SR_INIT then Some (SOCKERR_SOCKINIT, w2)
     else if take 4 addr = replicate 4 0xFF \<or> take 4 addr = replicate 4 0 then Some (SOCKERR_IPINVALID, w2)
     else if port = 0 then Some (SOCKERR_PORTZERO, w2)
     else do {
       w3 \<leftarrow> command sn Sn_CR_CONNECT (setSn_DPORT sn port (setSn_DIPR sn addr w2));
       if nonblock sn w3 then Some (SOCK_BUSY, w3) else connect_wait sn w3 } })"

partial_function (option) disconnect_wait :: "u8 \<Rightarrow> wiz \<Rightarrow> sock_result" where
  [code]: "disconnect_wait sn w = do {
     (st, w1) \<leftarrow> getSn_SR sn w;
     if st = SR_CLOSED then Some (SOCK_OK, w1)
     else do {
       (ir, w2) \<leftarrow> getSn_IR sn w1;
       if ir AND Sn_IR_TIMEOUT \<noteq> 0 then do { (_, w3) \<leftarrow> sock_close sn w2; Some (SOCKERR_TIMEOUT, w3) }
       else disconnect_wait sn w2 } }"

definition sock_disconnect :: "u8 \<Rightarrow> wiz \<Rightarrow> sock_result" where
  "sock_disconnect sn = tcp_mode sn (\<lambda>w1. do {
     w2 \<leftarrow> command sn Sn_CR_DISCON w1;
     let w3 = clear_sending sn w2;
     if nonblock sn w3 then Some (SOCK_BUSY, w3) else disconnect_wait sn w3 })"

section \<open>TCP data\<close>

text \<open>Room for the data: the buffer is waited for as long as the connection stands.\<close>

partial_function (option) send_room :: "u8 \<Rightarrow> u16 \<Rightarrow> wiz \<Rightarrow> sock_result" where
  [code]: "send_room sn len w = do {
     (freesize, w1) \<leftarrow> getSn_TX_FSR sn w;
     (tmp, w2) \<leftarrow> getSn_SR sn w1;
     if tmp \<noteq> SR_ESTABLISHED \<and> tmp \<noteq> SR_CLOSE_WAIT then do { (_, w3) \<leftarrow> sock_close sn w2; Some (SOCKERR_SOCKSTATUS, w3) }
     else if nonblock sn w2 \<and> len > freesize then Some (SOCK_BUSY, w2)
     else if len \<le> freesize then Some (SOCK_OK, w2)
     else send_room sn len w2 }"

definition send_data :: "u8 \<Rightarrow> bytes \<Rightarrow> u16 \<Rightarrow> wiz \<Rightarrow> sock_result" where
  "send_data sn buf len w = do {
     (m, w1) \<leftarrow> getSn_TxMAX sn w;
     let maxsize = ucast m;
     let n = (if len > maxsize then maxsize else len);
     (r, w2) \<leftarrow> send_room sn n w1;
     if r \<noteq> SOCK_OK then Some (r, w2)
     else do {
       w3 \<leftarrow> wiz_send_data sn buf n w2;
       w4 \<leftarrow> command sn Sn_CR_SEND w3;
       Some (uint n, w4\<lparr>sock_is_sending := sock_is_sending w4 OR push_bit (unat sn) 1\<rparr>) } }"

definition sock_send :: "u8 \<Rightarrow> bytes \<Rightarrow> u16 \<Rightarrow> wiz \<Rightarrow> sock_result" where
  "sock_send sn buf len = tcp_mode sn (\<lambda>w1.
     if len = 0 then Some (SOCKERR_DATALEN, w1)
     else do {
       (tmp, w2) \<leftarrow> getSn_SR sn w1;
       if tmp \<noteq> SR_ESTABLISHED \<and> tmp \<noteq> SR_CLOSE_WAIT then Some (SOCKERR_SOCKSTATUS, w2)
       else if is_sending sn w2 then do {
         (ir, w3) \<leftarrow> getSn_IR sn w2;
         if ir AND Sn_IR_SENDOK \<noteq> 0 then send_data sn buf len (clear_sending sn (setSn_IR sn Sn_IR_SENDOK w3))
         else if ir AND Sn_IR_TIMEOUT \<noteq> 0 then do { (_, w4) \<leftarrow> sock_close sn w3; Some (SOCKERR_TIMEOUT, w4) }
         else Some (SOCK_BUSY, w3) }
       else send_data sn buf len w2 })"

text \<open>The size of the received data; the result \<open>SOCK_OK\<close> goes on with it.\<close>

partial_function (option) recv_size :: "u8 \<Rightarrow> wiz \<Rightarrow> (int \<times> u16 \<times> wiz) option" where
  [code]: "recv_size sn w = do {
     (recvsize, w1) \<leftarrow> getSn_RX_RSR sn w;
     (tmp, w2) \<leftarrow> getSn_SR sn w1;
     if tmp = SR_CLOSE_WAIT \<and> recvsize \<noteq> 0 then Some (SOCK_OK, recvsize, w2)
     else if tmp \<noteq> SR_ESTABLISHED \<and> tmp \<noteq> SR_CLOSE_WAIT then do {
       (_, w3) \<leftarrow> sock_close sn w2; Some (SOCKERR_SOCKSTATUS, recvsize, w3) }
     else do {
       (drained, w3) \<leftarrow> (if tmp = SR_CLOSE_WAIT then do {
            (f, wa) \<leftarrow> getSn_TX_FSR sn w2; (m, wb) \<leftarrow> getSn_TxMAX sn wa; Some (ucast f = m, wb) }
          else Some (False, w2));
       if drained then do { (_, w4) \<leftarrow> sock_close sn w3; Some (SOCKERR_SOCKSTATUS, recvsize, w4) }
       else if nonblock sn w3 \<and> recvsize = 0 then Some (SOCK_BUSY, recvsize, w3)
       else if recvsize \<noteq> 0 then Some (SOCK_OK, recvsize, w3)
       else recv_size sn w3 } }"

text \<open>The result and the bytes stored in the buffer of the caller.\<close>

definition sock_recv :: "u8 \<Rightarrow> u16 \<Rightarrow> wiz \<Rightarrow> (int \<times> bytes \<times> wiz) option" where
  "sock_recv sn len w =
     (if \<not> sock_number_ok sn then Some (SOCKERR_SOCKNUM, [], w)
      else do {
        (m, w1) \<leftarrow> getSn_MR sn w;
        if m AND 0x0F \<noteq> Sn_MR_TCP then Some (SOCKERR_SOCKMODE, [], w1)
        else if len = 0 then Some (SOCKERR_DATALEN, [], w1)
        else do {
          (mx, w2) \<leftarrow> getSn_RxMAX sn w1;
          let maxsize = ucast mx;
          let n1 = (if maxsize < len then maxsize else len);
          (r, recvsize, w3) \<leftarrow> recv_size sn w2;
          if r \<noteq> SOCK_OK then Some (r, [], w3)
          else do {
            let n = (if recvsize < n1 then recvsize else n1);
            (b, w4) \<leftarrow> wiz_recv_data sn n w3;
            w5 \<leftarrow> command sn Sn_CR_RECV w4;
            Some (uint n, b, w5) } } })"

section \<open>Datagrams\<close>

definition datagram_mode :: "u8 \<Rightarrow> bool" where
  "datagram_mode m \<longleftrightarrow> m AND 0x0F \<in> {Sn_MR_UDP, Sn_MR_MACRAW, Sn_MR_IPRAW}"

partial_function (option) sendto_room :: "u8 \<Rightarrow> u16 \<Rightarrow> wiz \<Rightarrow> sock_result" where
  [code]: "sendto_room sn len w = do {
     (freesize, w1) \<leftarrow> getSn_TX_FSR sn w;
     (tmp, w2) \<leftarrow> getSn_SR sn w1;
     if tmp = SR_CLOSED then Some (SOCKERR_SOCKCLOSED, w2)
     else if nonblock sn w2 \<and> len > freesize then Some (SOCK_BUSY, w2)
     else if len \<le> freesize then Some (SOCK_OK, w2)
     else sendto_room sn len w2 }"

partial_function (option) sendto_wait :: "u8 \<Rightarrow> int \<Rightarrow> wiz \<Rightarrow> sock_result" where
  [code]: "sendto_wait sn n w = do {
     (tmp, w1) \<leftarrow> getSn_IR sn w;
     if tmp AND Sn_IR_SENDOK \<noteq> 0 then Some (n, setSn_IR sn Sn_IR_SENDOK w1)
     else if tmp AND Sn_IR_TIMEOUT \<noteq> 0 then Some (SOCKERR_TIMEOUT, setSn_IR sn Sn_IR_TIMEOUT w1)
     else sendto_wait sn n w1 }"

text \<open>
  The condition \<open>Sn_MR_MACRAW != Sn_MR_MACRAW\<close> is 0, so the checks of the address and the port read the mode
  only for a zero address or port and never refuse.
\<close>

definition zero_check :: "bool \<Rightarrow> int \<Rightarrow> u8 \<Rightarrow> wiz \<Rightarrow> (int option \<times> wiz) option" where
  "zero_check z err sn w =
     (if z then do {
        (m, w1) \<leftarrow> getSn_MR sn w;
        if m AND (if Sn_MR_MACRAW \<noteq> Sn_MR_MACRAW then 1 else 0) \<noteq> 0 then Some (Some err, w1) else Some (None, w1) }
      else Some (None, w))"

definition sendto_data :: "u8 \<Rightarrow> bytes \<Rightarrow> u16 \<Rightarrow> bytes \<Rightarrow> u16 \<Rightarrow> wiz \<Rightarrow> sock_result" where
  "sendto_data sn buf len addr port w = do {
     (m, w1) \<leftarrow> getSn_TxMAX sn (setSn_DPORT sn port (setSn_DIPR sn addr w));
     let maxsize = ucast m;
     let n = (if len > maxsize then maxsize else len);
     (r, w2) \<leftarrow> sendto_room sn n w1;
     if r \<noteq> SOCK_OK then Some (r, w2)
     else do {
       w3 \<leftarrow> wiz_send_data sn buf n w2;
       w4 \<leftarrow> command sn Sn_CR_SEND w3;
       sendto_wait sn (uint n) w4 } }"

definition sock_sendto :: "u8 \<Rightarrow> bytes \<Rightarrow> u16 \<Rightarrow> bytes \<Rightarrow> u16 \<Rightarrow> wiz \<Rightarrow> sock_result" where
  "sock_sendto sn buf len addr port w =
     (if \<not> sock_number_ok sn then Some (SOCKERR_SOCKNUM, w)
      else do {
        (m, w1) \<leftarrow> getSn_MR sn w;
        if \<not> datagram_mode m then Some (SOCKERR_SOCKMODE, w1)
        else if len = 0 then Some (SOCKERR_DATALEN, w1)
        else do {
          (e1, w2) \<leftarrow> zero_check (take 4 addr = replicate 4 0) SOCKERR_IPINVALID sn w1;
          case e1 of Some e \<Rightarrow> Some (e, w2)
          | None \<Rightarrow> do {
              (e2, w3) \<leftarrow> zero_check (port = 0) SOCKERR_PORTZERO sn w2;
              case e2 of Some e \<Rightarrow> Some (e, w3)
              | None \<Rightarrow> do {
                  (tmp, w4) \<leftarrow> getSn_SR sn w3;
                  if tmp \<notin> {SR_MACRAW, SR_UDP, SR_IPRAW} then Some (SOCKERR_SOCKSTATUS, w4)
                  else sendto_data sn buf len addr port w4 } } } })"

partial_function (option) recvfrom_wait :: "u8 \<Rightarrow> wiz \<Rightarrow> sock_result" where
  [code]: "recvfrom_wait sn w = do {
     (pack_len, w1) \<leftarrow> getSn_RX_RSR sn w;
     (st, w2) \<leftarrow> getSn_SR sn w1;
     if st = SR_CLOSED then Some (SOCKERR_SOCKCLOSED, w2)
     else if nonblock sn w2 \<and> pack_len = 0 then Some (SOCK_BUSY, w2)
     else if pack_len \<noteq> 0 then Some (SOCK_OK, w2)
     else recvfrom_wait sn w2 }"

text \<open>What a call of \<open>recvfrom\<close> stores for its caller: the data, the address and the port.\<close>

record datagram =
  dg_data :: bytes
  dg_addr :: "bytes option"
  dg_port :: "u16 option"

definition no_datagram :: datagram where
  "no_datagram = \<lparr>dg_data = [], dg_addr = None, dg_port = None\<rparr>"

definition be16 :: "u8 \<Rightarrow> u8 \<Rightarrow> u16" where
  "be16 h l = push_bit 8 (ucast h) + ucast l"

text \<open>The header the chip puts before a datagram; \<open>Inl\<close> ends the call.\<close>

definition read_head :: "u8 \<Rightarrow> nat \<Rightarrow> wiz \<Rightarrow> (bytes \<times> wiz) option" where
  "read_head sn n w = do {
     (h, w1) \<leftarrow> wiz_recv_data sn (of_nat n) w;
     w2 \<leftarrow> command sn Sn_CR_RECV w1;
     Some (h, w2) }"

definition recv_header :: "u8 \<Rightarrow> u8 \<Rightarrow> wiz \<Rightarrow> ((int + datagram) \<times> wiz) option" where
  "recv_header m sn w =
     (if m AND 0x07 = Sn_MR_UDP then do {
        (h, w1) \<leftarrow> read_head sn 8 w;
        Some (Inr (no_datagram\<lparr>dg_addr := Some (take 4 h), dg_port := Some (be16 (h ! 4) (h ! 5))\<rparr>),
              set_pack_info sn PACK_FIRST (set_remained sn (be16 (h ! 6) (h ! 7)) w1)) }
      else if m AND 0x07 = Sn_MR_MACRAW then do {
        (h, w1) \<leftarrow> read_head sn 2 w;
        let w2 = set_remained sn (be16 (h ! 0) (h ! 1) - 2) w1;
        if be16 (h ! 0) (h ! 1) - 2 > 1514 then do { (_, w3) \<leftarrow> sock_close sn w2; Some (Inl SOCKFATAL_PACKLEN, w3) }
        else Some (Inr no_datagram, set_pack_info sn PACK_FIRST w2) }
      else do {
        (h, w1) \<leftarrow> read_head sn 6 w;
        Some (Inr (no_datagram\<lparr>dg_addr := Some (take 4 h)\<rparr>),
              set_pack_info sn PACK_FIRST (set_remained sn (be16 (h ! 4) (h ! 5)) w1)) })"

text \<open>The data: as much of the rest of the datagram as the caller takes.\<close>

definition recv_body :: "u8 \<Rightarrow> u16 \<Rightarrow> datagram \<Rightarrow> wiz \<Rightarrow> (int \<times> datagram \<times> wiz) option" where
  "recv_body sn len d w = do {
     let n = (if len < remained sn w then len else remained sn w);
     (b, w1) \<leftarrow> wiz_recv_data sn n (touch sn w);
     w2 \<leftarrow> command sn Sn_CR_RECV w1;
     let w3 = set_remained sn (remained sn w2 - n) w2;
     let w4 = (if remained sn w3 \<noteq> 0 then set_pack_info sn (pack_info sn w3 OR PACK_REMAINED) w3 else set_pack_info sn PACK_COMPLETED w3);
     Some (uint n, d\<lparr>dg_data := b\<rparr>, w4) }"

definition sock_recvfrom :: "u8 \<Rightarrow> u16 \<Rightarrow> wiz \<Rightarrow> (int \<times> datagram \<times> wiz) option" where
  "sock_recvfrom sn len w =
     (if \<not> sock_number_ok sn then Some (SOCKERR_SOCKNUM, no_datagram, w)
      else do {
        (m, w1) \<leftarrow> getSn_MR sn w;
        if \<not> datagram_mode m then Some (SOCKERR_SOCKMODE, no_datagram, w1)
        else if len = 0 then Some (SOCKERR_DATALEN, no_datagram, w1)
        else if remained sn w1 \<noteq> 0 then recv_body sn len no_datagram w1
        else do {
          (r, w2) \<leftarrow> recvfrom_wait sn (touch sn w1);
          if r \<noteq> SOCK_OK then Some (r, no_datagram, w2)
          else do {
            (h, w3) \<leftarrow> recv_header m sn w2;
            case h of Inl e \<Rightarrow> Some (e, no_datagram, w3) | Inr d \<Rightarrow> recv_body sn len d w3 } } })"

section \<open>Options\<close>

datatype ctlsock_type = CS_SET_IOMODE | CS_GET_IOMODE | CS_GET_MAXTXBUF | CS_GET_MAXRXBUF | CS_CLR_INTERRUPT | CS_GET_INTERRUPT
  | CS_SET_INTMASK | CS_GET_INTMASK

datatype sockopt_type = SO_FLAG | SO_TTL | SO_TOS | SO_MSS | SO_DESTIP | SO_DESTPORT | SO_KEEPALIVESEND | SO_KEEPALIVEAUTO
  | SO_SENDBUF | SO_RECVBUF | SO_STATUS | SO_REMAINSIZE | SO_PACKINFO

text \<open>The argument is memory of the caller, read and written in little-endian order.\<close>

definition arg8 :: "bytes \<Rightarrow> u8" where "arg8 b = (if b = [] then 0 else b ! 0)"
definition arg16 :: "bytes \<Rightarrow> u16" where "arg16 b = (if length b < 2 then 0 else be16 (b ! 1) (b ! 0))"
definition mem16 :: "u16 \<Rightarrow> bytes" where "mem16 v = [ucast v, ucast (drop_bit 8 v)]"

definition need :: "nat \<Rightarrow> bytes \<Rightarrow> wiz \<Rightarrow> wiz" where
  "need n b w = w\<lparr>outside := (outside w \<or> length b < n)\<rparr>"

text \<open>A value that is stored through the argument.\<close>

definition answer8 :: "(u8 \<times> wiz) option \<Rightarrow> (int \<times> bytes \<times> wiz) option" where
  "answer8 r = map_option (\<lambda>(v, w). (SOCK_OK, [v], w)) r"

definition answer16 :: "(u16 \<times> wiz) option \<Rightarrow> (int \<times> bytes \<times> wiz) option" where
  "answer16 r = map_option (\<lambda>(v, w). (SOCK_OK, mem16 v, w)) r"

definition sock_ctlsocket :: "u8 \<Rightarrow> ctlsock_type \<Rightarrow> bytes \<Rightarrow> wiz \<Rightarrow> (int \<times> bytes \<times> wiz) option" where
  "sock_ctlsocket sn cstype arg w =
     (if \<not> sock_number_ok sn then Some (SOCKERR_SOCKNUM, [], w)
      else case cstype of
        CS_SET_IOMODE \<Rightarrow>
          (let w1 = need 1 arg w in
           if arg8 arg = 1 then Some (SOCK_OK, [], w1\<lparr>sock_io_mode := sock_io_mode w1 OR push_bit (unat sn) 1\<rparr>)
           else if arg8 arg = 0 then Some (SOCK_OK, [], clear_io_mode sn w1)
           else Some (SOCKERR_ARG, [], w1))
      | CS_GET_IOMODE \<Rightarrow> Some (SOCK_OK, [ucast (drop_bit (unat sn) (sock_io_mode w) AND 1)], w)
      | CS_GET_MAXTXBUF \<Rightarrow> answer16 (map_option (\<lambda>(v, w1). (ucast v, w1)) (getSn_TxMAX sn w))
      | CS_GET_MAXRXBUF \<Rightarrow> answer16 (map_option (\<lambda>(v, w1). (ucast v, w1)) (getSn_RxMAX sn w))
      | CS_CLR_INTERRUPT \<Rightarrow>
          (if arg8 arg > 0x1F then Some (SOCKERR_ARG, [], need 1 arg w) else Some (SOCK_OK, [], setSn_IR sn (arg8 arg) (need 1 arg w)))
      | CS_GET_INTERRUPT \<Rightarrow> answer8 (getSn_IR sn w)
      | CS_SET_INTMASK \<Rightarrow>
          (if arg8 arg > 0x1F then Some (SOCKERR_ARG, [], need 1 arg w) else Some (SOCK_OK, [], setSn_IMR sn (arg8 arg) (need 1 arg w)))
      | CS_GET_INTMASK \<Rightarrow> answer8 (getSn_IMR sn w))"

partial_function (option) keepalive_wait :: "u8 \<Rightarrow> wiz \<Rightarrow> sock_result" where
  [code]: "keepalive_wait sn w = do {
     (c, w1) \<leftarrow> getSn_CR sn w;
     if c = 0 then Some (SOCK_OK, w1)
     else do {
       (ir, w2) \<leftarrow> getSn_IR sn w1;
       if ir AND Sn_IR_TIMEOUT \<noteq> 0 then Some (SOCKERR_TIMEOUT, setSn_IR sn Sn_IR_TIMEOUT w2) else keepalive_wait sn w2 } }"

definition sock_setsockopt :: "u8 \<Rightarrow> sockopt_type \<Rightarrow> bytes \<Rightarrow> wiz \<Rightarrow> sock_result" where
  "sock_setsockopt sn sotype arg w =
     (if \<not> sock_number_ok sn then Some (SOCKERR_SOCKNUM, w)
      else case sotype of
        SO_TTL \<Rightarrow> Some (SOCK_OK, setSn_TTL sn (arg8 arg) (need 1 arg w))
      | SO_TOS \<Rightarrow> Some (SOCK_OK, setSn_TOS sn (arg8 arg) (need 1 arg w))
      | SO_MSS \<Rightarrow> Some (SOCK_OK, setSn_MSSR sn (arg16 arg) (need 2 arg w))
      | SO_DESTIP \<Rightarrow> Some (SOCK_OK, setSn_DIPR sn arg w)
      | SO_DESTPORT \<Rightarrow> Some (SOCK_OK, setSn_DPORT sn (arg16 arg) (need 2 arg w))
      | SO_KEEPALIVESEND \<Rightarrow> tcp_mode sn (\<lambda>w1. do {
          (k, w2) \<leftarrow> getSn_KPALVTR sn w1;
          if k \<noteq> 0 then Some (SOCKERR_SOCKOPT, w2) else keepalive_wait sn (setSn_CR sn Sn_CR_SEND_KEEP w2) }) w
      | SO_KEEPALIVEAUTO \<Rightarrow> tcp_mode sn (\<lambda>w1. Some (SOCK_OK, setSn_KPALVTR sn (arg8 arg) (need 1 arg w1))) w
      | _ \<Rightarrow> Some (SOCKERR_ARG, w))"

definition sock_getsockopt :: "u8 \<Rightarrow> sockopt_type \<Rightarrow> wiz \<Rightarrow> (int \<times> bytes \<times> wiz) option" where
  "sock_getsockopt sn sotype w =
     (if \<not> sock_number_ok sn then Some (SOCKERR_SOCKNUM, [], w)
      else case sotype of
        SO_FLAG \<Rightarrow> answer8 (map_option (\<lambda>(v, w1). (v AND 0xF0, w1)) (getSn_MR sn w))
      | SO_TTL \<Rightarrow> answer8 (getSn_TTL sn w)
      | SO_TOS \<Rightarrow> answer8 (getSn_TOS sn w)
      | SO_MSS \<Rightarrow> answer16 (getSn_MSSR sn w)
      | SO_DESTIP \<Rightarrow> map_option (\<lambda>(b, w1). (SOCK_OK, b, w1)) (getSn_DIPR sn w)
      | SO_DESTPORT \<Rightarrow> answer16 (getSn_DPORT sn w)
      | SO_KEEPALIVEAUTO \<Rightarrow> do {
          (m, w1) \<leftarrow> getSn_MR sn w;
          if m AND 0x0F \<noteq> Sn_MR_TCP then Some (SOCKERR_SOCKMODE, [], w1)
          else answer16 (map_option (\<lambda>(v, w2). (ucast v, w2)) (getSn_KPALVTR sn w1)) }
      | SO_SENDBUF \<Rightarrow> answer16 (getSn_TX_FSR sn w)
      | SO_RECVBUF \<Rightarrow> answer16 (getSn_RX_RSR sn w)
      | SO_STATUS \<Rightarrow> answer8 (getSn_SR sn w)
      | SO_REMAINSIZE \<Rightarrow> do {
          (m, w1) \<leftarrow> getSn_MR sn w;
          if m = Sn_MR_TCP then answer16 (getSn_RX_RSR sn w1) else Some (SOCK_OK, mem16 (remained sn w1), touch sn w1) }
      | SO_PACKINFO \<Rightarrow> do {
          (m, w1) \<leftarrow> getSn_MR sn w;
          if m = Sn_MR_TCP then Some (SOCKERR_SOCKMODE, [], w1) else Some (SOCK_OK, [pack_info sn w1], touch sn w1) }
      | SO_KEEPALIVESEND \<Rightarrow> Some (SOCKERR_SOCKOPT, [], w))"

end
