(* ===== verification/Wiz_Transfer.thy ===== *)
theory Wiz_Transfer
  imports Wiz_Socket
begin

text \<open>
  What the socket library tells the chip: the frames of a call decoded to addresses and data, and the transfers of TCP data
  and datagrams.
\<close>

section \<open>Decoding frames\<close>

definition frame_addr :: "bytes \<Rightarrow> u32" where
  "frame_addr h = (push_bit 16 (ucast (h ! 0)) OR push_bit 8 (ucast (h ! 1)) OR ucast (h ! 2)) AND NOT 0x04"

fun written :: "spi_frame list \<Rightarrow> (u32 \<times> bytes) list" where
  "written [] = []"
| "written (Spi_write b # fs) = (frame_addr b, drop 3 b) # written fs"
| "written (Spi_read b n # fs) = written fs"

lemma written_append [simp]: "written (xs @ ys) = written xs @ written ys"
  by (induction xs rule: written.induct) simp_all

text \<open>An address whose control bits leave the write bit free.\<close>

definition addr_ok :: "u32 \<Rightarrow> bool" where
  "addr_ok a \<longleftrightarrow> a < 0x1000000 \<and> \<not> bit a 2"

lemma u32_bits_below: "a < 0x1000000 \<Longrightarrow> bit (a :: u32) n \<Longrightarrow> n < 24"
proof -
  assume "a < 0x1000000" "bit a n"
  then have "take_bit 24 a = a" by (simp add: word_unat_eq_iff unsigned_take_bit_eq take_bit_nat_eq_self word_less_nat_alt)
  with \<open>bit a n\<close> show "n < 24" by (metis bit_take_bit_iff)
qed

lemma spi_masks: "0x00FF0000 = (push_bit 16 (mask 8) :: u32)" "0x0000FF00 = (push_bit 8 (mask 8) :: u32)" "0x000000FF = (mask 8 :: u32)"
  "0x04 = (push_bit 2 1 :: u32)"
  by (simp_all add: mask_eq_exp_minus_1 push_bit_eq_mult)

lemma spi_head_bytes: "spi_head a = [ucast (drop_bit 16 a), ucast (drop_bit 8 a), ucast a]"
proof -
  have "ucast (drop_bit 16 (a AND push_bit 16 (mask 8))) = (ucast (drop_bit 16 a) :: u8)"
    "ucast (drop_bit 8 (a AND push_bit 8 (mask 8))) = (ucast (drop_bit 8 a) :: u8)" "ucast (a AND mask 8) = (ucast a :: u8)"
    by (rule bit_word_eqI, auto simp: bit_ucast_iff bit_drop_bit_eq bit_and_iff bit_push_bit_iff bit_mask_iff)+
  then show ?thesis unfolding spi_head_def spi_masks by simp
qed

lemma frame_addr_bytes: "a < 0x1000000 \<Longrightarrow> frame_addr (spi_head a @ b) = a AND NOT 0x04"
proof -
  assume a: "a < 0x1000000"
  have "push_bit 16 (ucast (ucast (drop_bit 16 a) :: u8)) OR push_bit 8 (ucast (ucast (drop_bit 8 a) :: u8)) OR ucast (ucast a :: u8) = a" (is "?l = a")
  proof (rule bit_word_eqI)
    fix n assume "n < LENGTH(32)"
    consider "n < 8" | "8 \<le> n" "n < 16" | "16 \<le> n" by linarith
    then show "bit ?l n = bit a n"
      by cases (auto simp: bit_simps dest: u32_bits_below [OF a])
  qed
  then show ?thesis by (simp add: frame_addr_def spi_head_bytes)
qed

lemma take_bit_less_exp_u32: "take_bit 24 (x :: u32) < 0x1000000"
  by (simp add: take_bit_eq_mod word_less_nat_alt unat_word_ariths unat_mod)

lemma frame_addr_head: "addr_ok a \<Longrightarrow> frame_addr (spi_head (a OR 0x04) @ b) = a"
proof -
  assume a: "addr_ok a"
  then have "take_bit 24 a = a"
    by (simp add: addr_ok_def word_unat_eq_iff unsigned_take_bit_eq take_bit_nat_eq_self word_less_nat_alt)
  moreover have "take_bit 24 (0x04 :: u32) = 0x04" by (simp add: take_bit_eq_mod)
  ultimately have "take_bit 24 (a OR 0x04) = a OR 0x04" by (simp only: take_bit_or)
  then have below: "a OR 0x04 < 0x1000000" using take_bit_less_exp_u32 [of "a OR 0x04"] by simp
  have four: "bit (4 :: u32) n \<longleftrightarrow> n = 2" for n
    using bit_push_bit_iff [of 2 "1 :: u32" n] by (auto simp: bit_1_iff)
  have "(a OR 0x04) AND NOT 0x04 = a"
  proof (rule bit_word_eqI)
    fix n assume "n < LENGTH(32)"
    moreover have "\<not> bit a 2" using a by (simp add: addr_ok_def)
    ultimately show "bit ((a OR 0x04) AND NOT 0x04) n = bit a n"
      unfolding bit_and_iff bit_or_iff bit_not_iff four by (auto simp: possible_bit_word)
  qed
  with below show ?thesis by (simp only: frame_addr_bytes)
qed

lemma spi_head_length [simp]: "length (spi_head a) = 3"
  by (simp add: spi_head_def)

lemma take_head [simp]: "drop 3 (spi_head a @ b) = b"
  by (simp add: spi_head_def)

text \<open>The addresses of the socket registers and buffers.\<close>

lemma addr_ok_push:
  assumes "x < 0x200000"
  shows "addr_ok (push_bit 3 x)"
proof -
  have "unat (push_bit 3 x) = 8 * unat x"
    using assms by (simp add: push_bit_eq_mult word_less_nat_alt unat_word_ariths)
  then show ?thesis using assms unfolding addr_ok_def by (simp add: word_less_nat_alt bit_push_bit_iff)
qed

lemma block_split: "push_bit 8 a + push_bit 3 b = push_bit 3 (push_bit 5 a + (b :: u32))"
  by (simp add: push_bit_eq_mult algebra_simps)

lemma u8_in_u32: "unat (ucast (sn :: u8) :: u32) < 256"
proof -
  have "unat sn < 2 ^ LENGTH(8)" by (rule unsigned_less)
  then have "unat sn < 256" by simp
  then show ?thesis unfolding unsigned_ucast_eq by (rule le_less_trans [OF take_bit_nat_less_eq_self])
qed

lemma addr_ok_sreg:
  assumes "off < 0x100"
  shows "addr_ok (WIZCHIP_SREG off sn)"
proof -
  have s: "unat (ucast sn :: u32) < 256" by (rule u8_in_u32)
  have "push_bit 5 off + (1 + 4 * ucast sn) < (0x200000 :: u32)"
    using assms s by (simp add: push_bit_eq_mult word_less_nat_alt unat_word_ariths)
  then show ?thesis unfolding WIZCHIP_SREG_def block_split by (rule addr_ok_push)
qed


definition sn_ok :: "u8 \<Rightarrow> bool" where
  "sn_ok sn \<longleftrightarrow> unat sn < WIZCHIP_SOCK_NUM"

lemma sn_small: "sn_ok sn \<Longrightarrow> unat (ucast sn :: u32) < 8"
  unfolding sn_ok_def WIZCHIP_SOCK_NUM_def unsigned_ucast_eq by (rule le_less_trans [OF take_bit_nat_less_eq_self])

lemma sn_number_ok [simp]: "sn_ok sn \<Longrightarrow> sock_number_ok sn"
  by (simp add: sn_ok_def sock_number_ok_def)

lemma addr_ok_buffer:
  assumes "sn_ok sn" "b < 4"
  shows "addr_ok (push_bit 8 (ucast (ptr :: u16)) + push_bit 3 (b + 4 * ucast sn))"
proof -
  have "unat (ucast ptr :: u32) < 65536"
    unfolding unsigned_ucast_eq using unsigned_less [of ptr] by (intro le_less_trans [OF take_bit_nat_less_eq_self]) simp
  then have "push_bit 5 (ucast ptr) + (b + 4 * ucast sn) < (0x200000 :: u32)"
    using sn_small [OF assms(1)] assms(2) by (simp add: push_bit_eq_mult word_less_nat_alt unat_word_ariths)
  then show ?thesis unfolding block_split by (rule addr_ok_push)
qed

definition tx_address :: "u8 \<Rightarrow> u16 \<Rightarrow> u32" where
  "tx_address sn ptr = push_bit 8 (ucast ptr) + push_bit 3 (WIZCHIP_TXBUF_BLOCK sn)"

lemma addr_ok_tx: "sn_ok sn \<Longrightarrow> addr_ok (tx_address sn ptr)"
  unfolding tx_address_def WIZCHIP_TXBUF_BLOCK_def by (rule addr_ok_buffer) simp_all

lemmas sn_regs = Sn_MR_def Sn_CR_def Sn_IR_def Sn_SR_def Sn_PORT_def Sn_DIPR_def Sn_DPORT_def Sn_MSSR_def Sn_TOS_def Sn_TTL_def
  Sn_RXBUF_SIZE_def Sn_TXBUF_SIZE_def Sn_TX_FSR_def Sn_TX_WR_def Sn_RX_RSR_def Sn_RX_RD_def Sn_IMR_def Sn_KPALVTR_def

lemma addr_ok_regs [simp]:
  "addr_ok (Sn_MR sn)" "addr_ok (Sn_CR sn)" "addr_ok (Sn_IR sn)" "addr_ok (Sn_SR sn)" "addr_ok (Sn_PORT sn)" "addr_ok (Sn_DIPR sn)"
  "addr_ok (Sn_DPORT sn)" "addr_ok (Sn_TX_WR sn)" "addr_ok (Sn_RX_RD sn)"
  by (simp_all add: sn_regs addr_ok_sreg)

text \<open>The second byte of a 16-bit register is the next register.\<close>

lemma inc_sreg: "WIZCHIP_OFFSET_INC (WIZCHIP_SREG off sn) 1 = WIZCHIP_SREG (off + 1) sn"
  by (simp add: WIZCHIP_OFFSET_INC_def WIZCHIP_SREG_def push_bit_add)

lemma addr_ok_inc [simp]:
  "addr_ok (WIZCHIP_OFFSET_INC (Sn_PORT sn) 1)" "addr_ok (WIZCHIP_OFFSET_INC (Sn_DPORT sn) 1)" "addr_ok (WIZCHIP_OFFSET_INC (Sn_TX_WR sn) 1)"
  "addr_ok (WIZCHIP_OFFSET_INC (Sn_RX_RD sn) 1)"
  by (simp_all add: sn_regs inc_sreg addr_ok_sreg)

section \<open>What a step consumes and writes\<close>

text \<open>\<open>turn w as ws\<close>: the state after the answers \<open>as\<close> and the writes \<open>ws\<close>, whatever frames were exchanged.\<close>

definition turn :: "wiz \<Rightarrow> bytes \<Rightarrow> (u32 \<times> bytes) list \<Rightarrow> wiz \<Rightarrow> bool" where
  "turn w as ws w' \<longleftrightarrow> (\<exists>fs bs. answers w = as @ bs \<and> w' = w\<lparr>answers := bs, spi := spi w @ fs\<rparr> \<and> written fs = ws)"

lemma turn_refl [simp]: "turn w [] [] w"
  by (auto simp: turn_def intro: exI [of _ "[]"])

lemma turn_trans [trans]: "turn w as ws w1 \<Longrightarrow> turn w1 bs xs w2 \<Longrightarrow> turn w (as @ bs) (ws @ xs) w2"
  unfolding turn_def by (elim exE conjE) (rule exI, rule exI, auto)

lemma turn_answers: "turn w as ws w1 \<Longrightarrow> answers w = as @ answers w1"
  by (auto simp: turn_def)

lemma turn_written: "turn w as ws w1 \<Longrightarrow> written (spi w1) = written (spi w) @ ws"
  by (auto simp: turn_def)

lemma turn_read: "answers w = v # r \<Longrightarrow> \<exists>w1. WIZCHIP_READ a w = Some (v, w1) \<and> turn w [v] [] w1 \<and> answers w1 = r"
  by (auto simp: WIZCHIP_READ_def turn_def emit_def)

lemma turn_write: "addr_ok a \<Longrightarrow> turn w [] [(a, [v])] (WIZCHIP_WRITE a v w)"
  by (auto simp: WIZCHIP_WRITE_def turn_def emit_def W5500_SPI_WRITE_def W5500_SPI_VDM_OP_def frame_addr_head)

lemma turn_write_buf: "addr_ok a \<Longrightarrow> n \<le> length b \<Longrightarrow> turn w [] [(a, take n b)] (WIZCHIP_WRITE_BUF a b n w)"
  by (auto simp: WIZCHIP_WRITE_BUF_def turn_def emit_def W5500_SPI_WRITE_def W5500_SPI_VDM_OP_def frame_addr_head)

lemma turn_read_buf: "answers w = d @ r \<Longrightarrow> \<exists>w1. WIZCHIP_READ_BUF a (length d) w = Some (d, w1) \<and> turn w d [] w1 \<and> answers w1 = r"
  by (auto simp: WIZCHIP_READ_BUF_def turn_def emit_def)

text \<open>Steps that consume answers and go on: \<open>does m w as ws x r\<close> says that \<open>m\<close> returns \<open>x\<close> and leaves the answers \<open>r\<close>.\<close>

definition does :: "(wiz \<Rightarrow> ('a \<times> wiz) option) \<Rightarrow> wiz \<Rightarrow> bytes \<Rightarrow> (u32 \<times> bytes) list \<Rightarrow> 'a \<Rightarrow> bytes \<Rightarrow> bool" where
  "does m w as ws x r \<longleftrightarrow> (\<exists>w1. m w = Some (x, w1) \<and> turn w as ws w1 \<and> answers w1 = r)"

lemma doesE: "does m w as ws x r \<Longrightarrow> (\<And>w1. m w = Some (x, w1) \<Longrightarrow> turn w as ws w1 \<Longrightarrow> answers w1 = r \<Longrightarrow> P) \<Longrightarrow> P"
  by (auto simp: does_def)

lemma turn_vars:
  assumes "turn w as ws w1"
  shows "sock_io_mode w1 = sock_io_mode w" "sock_is_sending w1 = sock_is_sending w" "sock_remained_size w1 = sock_remained_size w"
    "sock_pack_info w1 = sock_pack_info w" "sock_any_port w1 = sock_any_port w" "outside w1 = outside w"
    "nonblock sn w1 = nonblock sn w" "is_sending sn w1 = is_sending sn w" "remained sn w1 = remained sn w" "pack_info sn w1 = pack_info sn w"
  using assms by (auto simp: turn_def nonblock_def is_sending_def remained_def pack_info_def)

lemma does_read: "answers w = v # r \<Longrightarrow> does (WIZCHIP_READ a) w [v] [] v r"
  using turn_read by (simp add: does_def)

lemma does_byte:
  "answers w = v # r \<Longrightarrow> does (getSn_MR sn) w [v] [] v r" "answers w = v # r \<Longrightarrow> does (getSn_SR sn) w [v] [] v r"
  "answers w = v # r \<Longrightarrow> does (getSn_CR sn) w [v] [] v r" "answers w = v # r \<Longrightarrow> does (getSn_IR sn) w [v] [] (v AND 0x1F) r"
  "answers w = v # r \<Longrightarrow> does (getSn_TxMAX sn) w [v] [] (push_bit 10 (ucast v)) r"
  "answers w = v # r \<Longrightarrow> does (getSn_RxMAX sn) w [v] [] (push_bit 10 (ucast v)) r"
  using turn_read [of w v r] unfolding does_def getSn_MR_def getSn_SR_def getSn_CR_def getSn_IR_def getSn_TxMAX_def getSn_RxMAX_def
  by fastforce+

lemma does_read16: "answers w = h # l # r \<Longrightarrow> does (read16 a) w [h, l] [] (be16 h l) r"
proof -
  assume "answers w = h # l # r"
  then obtain w1 where w1: "WIZCHIP_READ a w = Some (h, w1)" "turn w [h] [] w1" "answers w1 = l # r" using turn_read by blast
  then obtain w2 where w2: "WIZCHIP_READ (WIZCHIP_OFFSET_INC a 1) w1 = Some (l, w2)" "turn w1 [l] [] w2" "answers w2 = r" using turn_read by blast
  show ?thesis using turn_trans [OF w1(2) w2(2)] w1 w2 by (simp add: does_def read16_def be16_def)
qed

lemma turn_write16:
  "addr_ok a \<Longrightarrow> addr_ok (WIZCHIP_OFFSET_INC a 1) \<Longrightarrow>
   turn w [] [(a, [ucast (drop_bit 8 v)]), (WIZCHIP_OFFSET_INC a 1, [ucast v])] (write16 a v w)"
  unfolding write16_def using turn_trans [OF turn_write turn_write, of a "WIZCHIP_OFFSET_INC a 1"] by simp

lemma wait_CR_done:
  "answers w = bs @ 0 # r \<Longrightarrow> \<forall>b \<in> set bs. b \<noteq> 0 \<Longrightarrow> \<exists>w1. wait_CR sn w = Some w1 \<and> turn w (bs @ [0]) [] w1 \<and> answers w1 = r"
proof (induction bs arbitrary: w)
  case Nil
  then obtain w1 where "getSn_CR sn w = Some (0, w1)" "turn w [0] [] w1" "answers w1 = r" using does_byte(3) [of w 0 r sn] by (auto elim: doesE)
  then show ?case by (subst wait_CR.simps) auto
next
  case (Cons b bs)
  then obtain w1 where w1: "getSn_CR sn w = Some (b, w1)" "turn w [b] [] w1" "answers w1 = bs @ 0 # r"
    using does_byte(3) [of w b "bs @ 0 # r" sn] by (auto elim: doesE)
  then obtain w2 where "wait_CR sn w1 = Some w2" "turn w1 (bs @ [0]) [] w2" "answers w2 = r" using Cons.IH [of w1] Cons.prems(2) by auto
  with w1 Cons.prems(2) turn_trans [OF w1(2), of "bs @ [0]" "[]" w2] show ?case by (subst wait_CR.simps) auto
qed

lemma command_done:
  assumes "answers w = bs @ 0 # r" "\<forall>b \<in> set bs. b \<noteq> 0"
  shows "\<exists>w1. command sn c w = Some w1 \<and> turn w (bs @ [0]) [(Sn_CR sn, [c])] w1 \<and> answers w1 = r"
proof -
  have t: "turn w [] [(Sn_CR sn, [c])] (setSn_CR sn c w)" unfolding setSn_CR_def by (rule turn_write) simp
  then obtain w1 where "wait_CR sn (setSn_CR sn c w) = Some w1" "turn (setSn_CR sn c w) (bs @ [0]) [] w1" "answers w1 = r"
    using wait_CR_done [of "setSn_CR sn c w" bs r sn] assms turn_answers [OF t] by auto
  then show ?thesis using turn_trans [OF t] by (auto simp: command_def)
qed

text \<open>A size that two readings agree on, and the empty size, which one reading shows.\<close>

lemma size_stable: "answers w = h # l # h # l # r \<Longrightarrow> be16 h l \<noteq> 0 \<Longrightarrow> does (size_loop a v) w [h, l, h, l] [] (be16 h l) r"
proof -
  assume a: "answers w = h # l # h # l # r" "be16 h l \<noteq> 0"
  obtain w1 where w1: "read16 a w = Some (be16 h l, w1)" "turn w [h, l] [] w1" "answers w1 = h # l # r"
    using does_read16 [OF a(1)] by (auto elim: doesE)
  obtain w2 where w2: "read16 a w1 = Some (be16 h l, w2)" "turn w1 [h, l] [] w2" "answers w2 = r"
    using does_read16 [OF w1(3)] by (auto elim: doesE)
  show ?thesis using turn_trans [OF w1(2) w2(2)] w1 w2 a(2) unfolding does_def by (subst size_loop.simps) simp
qed

lemma size_zero: "answers w = 0 # 0 # r \<Longrightarrow> does (size_loop a 0) w [0, 0] [] 0 r"
proof -
  assume a: "answers w = 0 # 0 # r"
  have "be16 0 0 = 0" by (simp add: be16_def)
  then obtain w1 where "read16 a w = Some (0, w1)" "turn w [0, 0] [] w1" "answers w1 = r"
    using does_read16 [OF a, of a] by (auto elim: doesE)
  then show ?thesis unfolding does_def by (subst size_loop.simps) simp
qed

end
