(* ===== verification/Wiz_Data.thy ===== *)
theory Wiz_Data
  imports Wiz_Transfer
begin

text \<open>
  Data through the sockets of the W5500: what a call of \<open>send\<close> writes, what \<open>recv\<close> and \<open>recvfrom\<close> return, and the calls whose
  checks do not do what they are for.
\<close>

section \<open>TCP\<close>

lemma send_data_done:
  assumes sn: "sn_ok sn" and w: "answers w = tx # fh # fl # fh # fl # sr # ph # pl # bs @ 0 # r"
    and sr: "sr \<in> {SR_ESTABLISHED, SR_CLOSE_WAIT}" and len: "len \<noteq> 0" "unat len \<le> length buf" "len \<le> be16 fh fl" "len \<le> ucast (push_bit 10 (ucast tx :: u32))"
    and bs: "\<forall>b \<in> set bs. b \<noteq> 0"
  shows "\<exists>w1. send_data sn buf len w = Some (uint len, w1\<lparr>sock_is_sending := sock_is_sending w OR push_bit (unat sn) 1\<rparr>) \<and>
    turn w ([tx, fh, fl, fh, fl, sr, ph, pl] @ bs @ [0])
      [(tx_address sn (be16 ph pl), take (unat len) buf), (Sn_TX_WR sn, [ucast (drop_bit 8 (be16 ph pl + len))]),
       (WIZCHIP_OFFSET_INC (Sn_TX_WR sn) 1, [ucast (be16 ph pl + len)]), (Sn_CR sn, [Sn_CR_SEND])] w1 \<and> answers w1 = r"
proof -
  obtain w1 where w1: "getSn_TxMAX sn w = Some (push_bit 10 (ucast tx), w1)" "turn w [tx] [] w1" "answers w1 = fh # fl # fh # fl # sr # ph # pl # bs @ 0 # r"
    using does_byte(5) [OF w] by (auto elim: doesE)
  have "be16 fh fl \<noteq> 0" using len(1,3) by (auto simp: word_le_nat_alt word_unat_eq_iff)
  then obtain w2 where w2: "getSn_TX_FSR sn w1 = Some (be16 fh fl, w2)" "turn w1 [fh, fl, fh, fl] [] w2" "answers w2 = sr # ph # pl # bs @ 0 # r"
    using size_stable [OF w1(3), of "Sn_TX_FSR sn" 0] unfolding getSn_TX_FSR_def by (auto elim: doesE)
  obtain w3 where w3: "getSn_SR sn w2 = Some (sr, w3)" "turn w2 [sr] [] w3" "answers w3 = ph # pl # bs @ 0 # r"
    using does_byte(2) [OF w2(3)] by (auto elim: doesE)
  have room: "send_room sn len w1 = Some (SOCK_OK, w3)"
    using w2(1) w3(1) sr len(3) by (subst send_room.simps) (auto simp: not_less [symmetric])
  obtain w4 where w4: "getSn_TX_WR sn w3 = Some (be16 ph pl, w4)" "turn w3 [ph, pl] [] w4" "answers w4 = bs @ 0 # r"
    using does_read16 [OF w3(3)] unfolding getSn_TX_WR_def by (auto elim: doesE)
  let ?w5 = "WIZCHIP_WRITE_BUF (tx_address sn (be16 ph pl)) buf (unat len) w4"
  let ?w6 = "setSn_TX_WR sn (be16 ph pl + len) ?w5"
  have t5: "turn w4 [] [(tx_address sn (be16 ph pl), take (unat len) buf)] ?w5" using addr_ok_tx [OF sn] len(2) by (rule turn_write_buf)
  have t6: "turn ?w5 [] [(Sn_TX_WR sn, [ucast (drop_bit 8 (be16 ph pl + len))]), (WIZCHIP_OFFSET_INC (Sn_TX_WR sn) 1, [ucast (be16 ph pl + len)])] ?w6"
    unfolding setSn_TX_WR_def by (rule turn_write16) simp_all
  have sent: "wiz_send_data sn buf len w3 = Some ?w6"
    using w4(1) len(1) by (simp add: wiz_send_data_def tx_address_def)
  have "answers ?w6 = bs @ 0 # r" using turn_answers [OF turn_trans [OF t5 t6]] w4(3) by simp
  then obtain w7 where w7: "command sn Sn_CR_SEND ?w6 = Some w7" "turn ?w6 (bs @ [0]) [(Sn_CR sn, [Sn_CR_SEND])] w7" "answers w7 = r"
    using command_done bs by blast
  have "turn w ([tx] @ [fh, fl, fh, fl] @ [sr] @ [ph, pl] @ [] @ [] @ (bs @ [0]))
    ([] @ [] @ [] @ [] @ [(tx_address sn (be16 ph pl), take (unat len) buf)] @ [(Sn_TX_WR sn, [ucast (drop_bit 8 (be16 ph pl + len))]),
       (WIZCHIP_OFFSET_INC (Sn_TX_WR sn) 1, [ucast (be16 ph pl + len)])] @ [(Sn_CR sn, [Sn_CR_SEND])]) w7"
    by (intro turn_trans [OF w1(2)] turn_trans [OF w2(2)] turn_trans [OF w3(2)] turn_trans [OF w4(2)] turn_trans [OF t5] turn_trans [OF t6] w7(2))
  then have t: "turn w ([tx, fh, fl, fh, fl, sr, ph, pl] @ bs @ [0])
      [(tx_address sn (be16 ph pl), take (unat len) buf), (Sn_TX_WR sn, [ucast (drop_bit 8 (be16 ph pl + len))]),
       (WIZCHIP_OFFSET_INC (Sn_TX_WR sn) 1, [ucast (be16 ph pl + len)]), (Sn_CR sn, [Sn_CR_SEND])] w7" by simp
  have "send_data sn buf len w = Some (uint len, w7\<lparr>sock_is_sending := sock_is_sending w7 OR push_bit (unat sn) 1\<rparr>)"
    using w1(1) room sent w7(1) len(4) by (simp add: send_data_def Let_def not_less [symmetric])
  with t w7(3) turn_vars(2) [OF t] show ?thesis by auto
qed

lemma bit_nonzero: "bit (y :: u16) k \<Longrightarrow> y \<noteq> 0"
  by auto

text \<open>
  C32: a call of \<open>send\<close> on a connected socket with room for the data returns their number and tells the chip exactly four things: the
  bytes, at the write pointer of the transmit memory of the socket, the pointer moved on by their number, high byte and low byte, and the
  command to send.
\<close>

theorem socket_send_transfers:
  assumes "sn_ok sn" and "answers w = mr # s1 # tx # fh # fl # fh # fl # s2 # ph # pl # bs @ 0 # r"
    and "mr AND 0x0F = Sn_MR_TCP" "{s1, s2} \<subseteq> {SR_ESTABLISHED, SR_CLOSE_WAIT}" "\<not> is_sending sn w"
    and "len \<noteq> 0" "unat len \<le> length buf" "len \<le> be16 fh fl" "len \<le> ucast (push_bit 10 (ucast tx :: u32))" "\<forall>b \<in> set bs. b \<noteq> 0"
  shows "\<exists>w1. sock_send sn buf len w = Some (uint len, w1) \<and> answers w1 = r \<and> is_sending sn w1 \<and>
    written (spi w1) = written (spi w) @
      [(tx_address sn (be16 ph pl), take (unat len) buf), (Sn_TX_WR sn, [ucast (drop_bit 8 (be16 ph pl + len))]),
       (WIZCHIP_OFFSET_INC (Sn_TX_WR sn) 1, [ucast (be16 ph pl + len)]), (Sn_CR sn, [Sn_CR_SEND])]"
proof -
  obtain wa where wa: "getSn_MR sn w = Some (mr, wa)" "turn w [mr] [] wa" "answers wa = s1 # tx # fh # fl # fh # fl # s2 # ph # pl # bs @ 0 # r"
    using does_byte(1) [OF assms(2)] by (auto elim: doesE)
  obtain wb where wb: "getSn_SR sn wa = Some (s1, wb)" "turn wa [s1] [] wb" "answers wb = tx # fh # fl # fh # fl # s2 # ph # pl # bs @ 0 # r"
    using does_byte(2) [OF wa(3)] by (auto elim: doesE)
  have s2: "s2 \<in> {SR_ESTABLISHED, SR_CLOSE_WAIT}" using assms(4) by simp
  obtain w1 where w1: "send_data sn buf len wb = Some (uint len, w1\<lparr>sock_is_sending := sock_is_sending wb OR push_bit (unat sn) 1\<rparr>)"
    "turn wb ([tx, fh, fl, fh, fl, s2, ph, pl] @ bs @ [0])
      [(tx_address sn (be16 ph pl), take (unat len) buf), (Sn_TX_WR sn, [ucast (drop_bit 8 (be16 ph pl + len))]),
       (WIZCHIP_OFFSET_INC (Sn_TX_WR sn) 1, [ucast (be16 ph pl + len)]), (Sn_CR sn, [Sn_CR_SEND])] w1" "answers w1 = r"
    using send_data_done [OF assms(1) wb(3) s2 assms(6-10)] by blast
  have ab: "turn w ([mr] @ [s1]) ([] @ []) wb" using wa(2) wb(2) by (rule turn_trans)
  have idle: "\<not> is_sending sn wb" using turn_vars(8) [OF ab] assms(5) by simp
  have eq: "sock_send sn buf len w = send_data sn buf len wb"
    using wa(1) wb(1) assms(1,3,4,6) idle by (auto simp: sock_send_def tcp_mode_def)
  have "written (spi wb) = written (spi w)" using ab by (auto simp: turn_def)
  moreover have "is_sending sn (w1\<lparr>sock_is_sending := x OR push_bit (unat sn) 1\<rparr>)" for x
  proof -
    have n: "unat sn < 16" using assms(1) by (simp only: sn_ok_def WIZCHIP_SOCK_NUM_def)
    have "bit (push_bit (unat sn) (1 :: u16)) (unat sn)"
      unfolding bit_push_bit_iff by (simp add: n bit_1_iff)
    then have "bit ((x OR push_bit (unat sn) 1) AND push_bit (unat sn) (1 :: u16)) (unat sn)"
      unfolding bit_and_iff bit_or_iff by blast
    then have "(x OR push_bit (unat sn) 1) AND push_bit (unat sn) (1 :: u16) \<noteq> 0" by (rule bit_nonzero)
    then show ?thesis by (simp add: is_sending_def)
  qed
  ultimately show ?thesis using eq w1 by (auto simp: turn_def)
qed

definition wiz_start :: "bytes \<Rightarrow> wiz" where
  "wiz_start as = \<lparr>answers = as, spi = [], sock_any_port = SOCK_ANY_PORT_NUM, sock_io_mode = 0, sock_is_sending = 0,
     sock_remained_size = replicate 8 0, sock_pack_info = replicate 8 0, outside = False\<rparr>"

lemma wiz_start_simps [simp]: "answers (wiz_start as) = as" "written (spi (wiz_start as)) = []" "\<not> is_sending sn (wiz_start as)"
  "\<not> nonblock sn (wiz_start as)" "remained sn (wiz_start as) = 0"
  by (simp_all add: wiz_start_def is_sending_def nonblock_def remained_def)

lemma byte_wrap: "(4865 :: u8) = 1"
  by simp

theorem socket_send_transfers_witness:
  "\<exists>w1. sock_send 0 [0xAA, 0x55] 2 (wiz_start [0x21, 0x17, 2, 8, 0, 8, 0, 0x17, 0x12, 0xFF, 0x20, 0]) = Some (2, w1) \<and>
     written (spi w1) = [(tx_address 0 0x12FF, [0xAA, 0x55]), (Sn_TX_WR 0, [0x13]), (WIZCHIP_OFFSET_INC (Sn_TX_WR 0) 1, [0x01]), (Sn_CR 0, [0x20])]"
  using socket_send_transfers [of 0 "wiz_start [0x21, 0x17, 2, 8, 0, 8, 0, 0x17, 0x12, 0xFF, 0x20, 0]" "0x21" "0x17" 2 8 0 "0x17" "0x12" "0xFF" "[0x20]" "[]" 2 "[0xAA, 0x55]"]
  by (auto simp: sn_ok_def WIZCHIP_SOCK_NUM_def Sn_MR_TCP_def SR_ESTABLISHED_def be16_def Sn_CR_SEND_def push_bit_eq_mult byte_wrap)

lemma recv_data_done:
  assumes "answers w = ph # pl # d @ r" "unat len = length d" "d \<noteq> []"
  shows "\<exists>w1. wiz_recv_data sn len w = Some (d, w1) \<and> answers w1 = r \<and>
    turn w ([ph, pl] @ d) [(Sn_RX_RD sn, [ucast (drop_bit 8 (be16 ph pl + len))]), (WIZCHIP_OFFSET_INC (Sn_RX_RD sn) 1, [ucast (be16 ph pl + len)])] w1"
proof -
  obtain wa where wa: "getSn_RX_RD sn w = Some (be16 ph pl, wa)" "turn w [ph, pl] [] wa" "answers wa = d @ r"
    using does_read16 [OF assms(1)] unfolding getSn_RX_RD_def by (auto elim: doesE)
  obtain wb where wb: "WIZCHIP_READ_BUF (push_bit 8 (ucast (be16 ph pl)) + push_bit 3 (WIZCHIP_RXBUF_BLOCK sn)) (length d) wa = Some (d, wb)"
    "turn wa d [] wb" "answers wb = r" using turn_read_buf [OF wa(3)] by blast
  let ?w1 = "setSn_RX_RD sn (be16 ph pl + len) wb"
  have t: "turn wb [] [(Sn_RX_RD sn, [ucast (drop_bit 8 (be16 ph pl + len))]), (WIZCHIP_OFFSET_INC (Sn_RX_RD sn) 1, [ucast (be16 ph pl + len)])] ?w1"
    unfolding setSn_RX_RD_def by (rule turn_write16) simp_all
  have "len \<noteq> 0" using assms(2,3) by auto
  then have "wiz_recv_data sn len w = Some (d, ?w1)" using wa(1) wb(1) assms(2) by (simp add: wiz_recv_data_def)
  moreover have "answers ?w1 = r" using turn_answers [OF t] wb(3) by simp
  ultimately show ?thesis using turn_trans [OF wa(2) turn_trans [OF wb(2) t]] by auto
qed


lemma unat_of_length: "unat (n :: u16) = k \<Longrightarrow> n = of_nat k" "unat (n :: u16) = k \<Longrightarrow> uint n = int k"
  by auto

lemma recv_size_done:
  assumes "answers w = h # l # h # l # s # r" "be16 h l \<noteq> 0" "s \<in> {SR_ESTABLISHED, SR_CLOSE_WAIT}"
  shows "\<exists>w1. recv_size sn w = Some (SOCK_OK, be16 h l, w1) \<and> turn w [h, l, h, l, s] [] w1 \<and> answers w1 = r"
proof -
  obtain wa where wa: "getSn_RX_RSR sn w = Some (be16 h l, wa)" "turn w [h, l, h, l] [] wa" "answers wa = s # r"
    using size_stable [OF assms(1,2), of "Sn_RX_RSR sn" 0] unfolding getSn_RX_RSR_def by (auto elim: doesE)
  obtain wb where wb: "getSn_SR sn wa = Some (s, wb)" "turn wa [s] [] wb" "answers wb = r"
    using does_byte(2) [OF wa(3)] by (auto elim: doesE)
  have "recv_size sn w = Some (SOCK_OK, be16 h l, wb)"
    using wa(1) wb(1) assms(2,3) by (subst recv_size.simps) (auto simp: SR_ESTABLISHED_def SR_CLOSE_WAIT_def)
  with turn_trans [OF wa(2) wb(2)] wb(3) show ?thesis by auto
qed

text \<open>
  A call of \<open>recv\<close> on a connected socket returns what is waiting, at most as much as the caller's buffer and the receive memory
  hold: exactly these bytes, in order, their number as the result, the read pointer moved on by it and the command that frees the memory.
\<close>

theorem socket_recv_transfers:
  assumes "sn_ok sn" and w: "answers w = mr # rx # h # l # h # l # s # ph # pl # d @ bs @ 0 # r"
    and "mr AND 0x0F = Sn_MR_TCP" "s \<in> {SR_ESTABLISHED, SR_CLOSE_WAIT}" "len \<noteq> 0" "ucast (push_bit 10 (ucast rx :: u32)) \<noteq> (0 :: u16)"
    and d: "length d = min (min (unat len) (unat (ucast (push_bit 10 (ucast rx :: u32)) :: u16))) (unat (be16 h l))" "be16 h l \<noteq> 0"
    and bs: "\<forall>b \<in> set bs. b \<noteq> 0"
  shows "\<exists>w1. sock_recv sn len w = Some (int (length d), d, w1) \<and> answers w1 = r \<and>
    written (spi w1) = written (spi w) @
      [(Sn_RX_RD sn, [ucast (drop_bit 8 (be16 ph pl + of_nat (length d)))]),
       (WIZCHIP_OFFSET_INC (Sn_RX_RD sn) 1, [ucast (be16 ph pl + of_nat (length d))]), (Sn_CR sn, [Sn_CR_RECV])]"
proof -
  let ?max = "ucast (push_bit 10 (ucast rx :: u32)) :: u16" let ?n1 = "if ?max < len then ?max else len"
  let ?n = "if be16 h l < ?n1 then be16 h l else ?n1"
  have n: "unat ?n = length d" using d(1) by (simp add: word_less_nat_alt min_def)
  then have n': "?n = of_nat (length d)" "uint ?n = int (length d)" by (rule unat_of_length)+
  have "d \<noteq> []" using d assms(5,6) by (auto simp: min_def unat_eq_zero split: if_splits)
  obtain wa where wa: "getSn_MR sn w = Some (mr, wa)" "turn w [mr] [] wa" "answers wa = rx # h # l # h # l # s # ph # pl # d @ bs @ 0 # r"
    using does_byte(1) [OF w] by (auto elim: doesE)
  obtain wb where wb: "getSn_RxMAX sn wa = Some (push_bit 10 (ucast rx), wb)" "turn wa [rx] [] wb" "answers wb = h # l # h # l # s # ph # pl # d @ bs @ 0 # r"
    using does_byte(6) [OF wa(3)] by (auto elim: doesE)
  obtain wc where wc: "recv_size sn wb = Some (SOCK_OK, be16 h l, wc)" "turn wb [h, l, h, l, s] [] wc" "answers wc = ph # pl # d @ bs @ 0 # r"
    using recv_size_done [OF wb(3) d(2) assms(4)] by blast
  obtain wd where wd: "wiz_recv_data sn ?n wc = Some (d, wd)" "answers wd = bs @ 0 # r"
    "turn wc ([ph, pl] @ d) [(Sn_RX_RD sn, [ucast (drop_bit 8 (be16 ph pl + ?n))]), (WIZCHIP_OFFSET_INC (Sn_RX_RD sn) 1, [ucast (be16 ph pl + ?n)])] wd"
    using recv_data_done [OF wc(3) n \<open>d \<noteq> []\<close>] by blast
  obtain we where we: "command sn Sn_CR_RECV wd = Some we" "turn wd (bs @ [0]) [(Sn_CR sn, [Sn_CR_RECV])] we" "answers we = r"
    using command_done [OF wd(2) bs] by blast
  have t: "turn w ([mr] @ [rx] @ [h, l, h, l, s] @ ([ph, pl] @ d) @ bs @ [0])
    ([] @ [] @ [] @ [(Sn_RX_RD sn, [ucast (drop_bit 8 (be16 ph pl + ?n))]), (WIZCHIP_OFFSET_INC (Sn_RX_RD sn) 1, [ucast (be16 ph pl + ?n)])] @
     [(Sn_CR sn, [Sn_CR_RECV])]) we"
    by (intro turn_trans [OF wa(2)] turn_trans [OF wb(2)] turn_trans [OF wc(2)] turn_trans [OF wd(3)] we(2))
  have "sock_recv sn len w = Some (uint ?n, d, we)"
    using wa(1) wb(1) wc(1) wd(1) we(1) assms(1,3,5) unfolding sock_recv_def Let_def by simp
  then have "sock_recv sn len w = Some (int (length d), d, we)" unfolding n'(2) .
  moreover have "written (spi we) = written (spi w) @
      [(Sn_RX_RD sn, [ucast (drop_bit 8 (be16 ph pl + ?n))]), (WIZCHIP_OFFSET_INC (Sn_RX_RD sn) 1, [ucast (be16 ph pl + ?n)]), (Sn_CR sn, [Sn_CR_RECV])]"
    using t by (auto simp: turn_def)
  ultimately show ?thesis using we(3) unfolding n'(1) by blast
qed

theorem socket_recv_transfers_witness:
  "\<exists>w1. sock_recv 0 100 (wiz_start [0x21, 2, 0, 3, 0, 3, 0x17, 0xFF, 0xFE, 7, 8, 9, 0x40, 0]) = Some (3, [7, 8, 9], w1) \<and>
     written (spi w1) = [(Sn_RX_RD 0, [0]), (WIZCHIP_OFFSET_INC (Sn_RX_RD 0) 1, [1]), (Sn_CR 0, [0x40])]"
  using socket_recv_transfers [of 0 "wiz_start [0x21, 2, 0, 3, 0, 3, 0x17, 0xFF, 0xFE, 7, 8, 9, 0x40, 0]" "0x21" 2 0 3 "0x17" "0xFF" "0xFE" "[7, 8, 9]" "[0x40]" "[]" 100]
  by (auto simp: sn_ok_def WIZCHIP_SOCK_NUM_def Sn_MR_TCP_def SR_ESTABLISHED_def be16_def Sn_CR_RECV_def push_bit_eq_mult)

end
