(* ===== verification/Wiz_Udp.thy ===== *)
theory Wiz_Udp
  imports Wiz_Data
begin

text \<open>
  Datagrams through the sockets of the W5500: \<open>recvfrom\<close> and \<open>sendto\<close>.
\<close>

section \<open>Receiving\<close>

text \<open>The arrays of \<open>socket.c\<close> have their eight elements.\<close>

definition arrays_ok :: "wiz \<Rightarrow> bool" where
  "arrays_ok w \<longleftrightarrow> length (sock_remained_size w) = WIZCHIP_SOCK_NUM \<and> length (sock_pack_info w) = WIZCHIP_SOCK_NUM"

lemma turn_arrays: "turn w as ws w1 \<Longrightarrow> arrays_ok w1 = arrays_ok w"
  by (simp add: arrays_ok_def turn_vars)

lemma set_vars [simp]:
  "answers (set_remained sn v w) = answers w" "answers (set_pack_info sn p w) = answers w" "answers (touch sn w) = answers w"
  "spi (set_remained sn v w) = spi w" "spi (set_pack_info sn p w) = spi w" "spi (touch sn w) = spi w"
  "arrays_ok (set_remained sn v w) = arrays_ok w" "arrays_ok (set_pack_info sn p w) = arrays_ok w" "arrays_ok (touch sn w) = arrays_ok w"
  "remained sn (set_pack_info sn p w) = remained sn w" "pack_info sn (set_remained sn v w) = pack_info sn w"
  "remained sn (touch sn w) = remained sn w" "pack_info sn (touch sn w) = pack_info sn w" "nonblock sn (touch sn w) = nonblock sn w"
  by (simp_all add: set_remained_def set_pack_info_def touch_def arrays_ok_def remained_def pack_info_def nonblock_def)

lemma set_read [simp]:
  "sn_ok sn \<Longrightarrow> arrays_ok w \<Longrightarrow> remained sn (set_remained sn v w) = v"
  "sn_ok sn \<Longrightarrow> arrays_ok w \<Longrightarrow> pack_info sn (set_pack_info sn p w) = p"
  by (simp_all add: set_remained_def set_pack_info_def touch_def arrays_ok_def remained_def pack_info_def sn_ok_def)

lemma recv_body_done:
  assumes "sn_ok sn" "arrays_ok w" "answers w = ph # pl # d @ bs @ 0 # r" "\<forall>b \<in> set bs. b \<noteq> 0"
    and n: "unat n = length d" "n = (if len < remained sn w then len else remained sn w)" "d \<noteq> []"
  shows "\<exists>w1. recv_body sn len g w = Some (int (length d), g\<lparr>dg_data := d\<rparr>, w1) \<and> answers w1 = r \<and> arrays_ok w1 \<and>
    remained sn w1 = remained sn w - n \<and> pack_info sn w1 = (if remained sn w \<noteq> n then pack_info sn w OR PACK_REMAINED else PACK_COMPLETED)"
proof -
  have a: "answers (touch sn w) = ph # pl # d @ bs @ 0 # r" using assms(3) by simp
  obtain wa where wa: "wiz_recv_data sn n (touch sn w) = Some (d, wa)" "answers wa = bs @ 0 # r"
    "turn (touch sn w) ([ph, pl] @ d) [(Sn_RX_RD sn, [ucast (drop_bit 8 (be16 ph pl + n))]), (WIZCHIP_OFFSET_INC (Sn_RX_RD sn) 1, [ucast (be16 ph pl + n)])] wa"
    using recv_data_done [OF a n(1,3)] by blast
  obtain wb where wb: "command sn Sn_CR_RECV wa = Some wb" "turn wa (bs @ [0]) [(Sn_CR sn, [Sn_CR_RECV])] wb" "answers wb = r"
    using command_done [OF wa(2) assms(4)] by blast
  note v = turn_vars [OF turn_trans [OF wa(3) wb(2)]] turn_arrays [OF turn_trans [OF wa(3) wb(2)]]
  have "recv_body sn len g w = Some (uint n, g\<lparr>dg_data := d\<rparr>,
     if remained sn w - n \<noteq> 0 then set_pack_info sn (pack_info sn w OR PACK_REMAINED) (set_remained sn (remained sn w - n) wb)
     else set_pack_info sn PACK_COMPLETED (set_remained sn (remained sn w - n) wb))"
    using wa(1) wb(1) assms(1,2) v unfolding recv_body_def n(2) [symmetric] by simp
  then show ?thesis using unat_of_length(2) [OF n(1)] wb(3) v assms(1,2) by auto
qed

lemma recvfrom_wait_done:
  assumes "answers w = h # l # h # l # s # r" "be16 h l \<noteq> 0" "s \<noteq> SR_CLOSED"
  shows "\<exists>w1. recvfrom_wait sn w = Some (SOCK_OK, w1) \<and> turn w [h, l, h, l, s] [] w1 \<and> answers w1 = r"
proof -
  obtain wa where wa: "getSn_RX_RSR sn w = Some (be16 h l, wa)" "turn w [h, l, h, l] [] wa" "answers wa = s # r"
    using size_stable [OF assms(1,2), of "Sn_RX_RSR sn" 0] unfolding getSn_RX_RSR_def by (auto elim: doesE)
  obtain wb where wb: "getSn_SR sn wa = Some (s, wb)" "turn wa [s] [] wb" "answers wb = r"
    using does_byte(2) [OF wa(3)] by (auto elim: doesE)
  have "recvfrom_wait sn w = Some (SOCK_OK, wb)"
    using wa(1) wb(1) assms(2,3) by (subst recvfrom_wait.simps) auto
  with turn_trans [OF wa(2) wb(2)] wb(3) show ?thesis by auto
qed

text \<open>The header of a UDP datagram: address, port and length, high bytes first.\<close>

lemma recv_header_udp:
  assumes "sn_ok sn" "arrays_ok w" "m AND 0x07 = Sn_MR_UDP" "\<forall>b \<in> set bs. b \<noteq> 0"
    and a: "answers w = ph # pl # [i1, i2, i3, i4, q1, q2, n1, n2] @ bs @ 0 # r"
  shows "\<exists>w1. recv_header m sn w = Some (Inr \<lparr>dg_data = [], dg_addr = Some [i1, i2, i3, i4], dg_port = Some (be16 q1 q2)\<rparr>, w1) \<and>
    answers w1 = r \<and> arrays_ok w1 \<and> remained sn w1 = be16 n1 n2 \<and> pack_info sn w1 = PACK_FIRST"
proof -
  have n: "unat (8 :: u16) = length [i1, i2, i3, i4, q1, q2, n1, n2]" by simp
  obtain wa where wa: "wiz_recv_data sn 8 w = Some ([i1, i2, i3, i4, q1, q2, n1, n2], wa)" "answers wa = bs @ 0 # r"
    "turn w ([ph, pl] @ [i1, i2, i3, i4, q1, q2, n1, n2])
       [(Sn_RX_RD sn, [ucast (drop_bit 8 (be16 ph pl + 8))]), (WIZCHIP_OFFSET_INC (Sn_RX_RD sn) 1, [ucast (be16 ph pl + 8)])] wa"
    using recv_data_done [OF a n] by blast
  obtain wb where wb: "command sn Sn_CR_RECV wa = Some wb" "turn wa (bs @ [0]) [(Sn_CR sn, [Sn_CR_RECV])] wb" "answers wb = r"
    using command_done [OF wa(2) assms(4)] by blast
  have "read_head sn 8 w = Some ([i1, i2, i3, i4, q1, q2, n1, n2], wb)" using wa(1) wb(1) by (simp add: read_head_def)
  then show ?thesis using turn_arrays [OF turn_trans [OF wa(3) wb(2)]] wb(3) assms(1-3)
    by (auto simp: recv_header_def no_datagram_def)
qed

lemma udp_mode: "m AND 0x0F = Sn_MR_UDP \<Longrightarrow> m AND 0x07 = Sn_MR_UDP \<and> datagram_mode m"
proof -
  assume a: "m AND 0x0F = Sn_MR_UDP"
  have "m AND 0x07 = (m AND 0x0F) AND 0x07" by (simp add: and.assoc)
  then show ?thesis unfolding a by (simp add: datagram_mode_def a Sn_MR_UDP_def)
qed

text \<open>
  a UDP datagram that the caller's buffer cannot hold at once is split, not cut.  The first call returns its beginning with the address
  and the port of the sender, the number of bytes that are left is kept and the packet is marked as begun and unfinished; the next call
  returns the rest, and only then is the packet complete and the next header read.
\<close>

theorem datagram_split:
  assumes sn: "sn_ok sn" "arrays_ok w" "remained sn w = 0"
    and w: "answers w = mr # h # l # h # l # s # ph # pl # [i1, i2, i3, i4, q1, q2, n1, n2] @ b1 @ 0 # p1 # p2 # d1 @ b2 @ 0 #
      mr' # p3 # p4 # d2 @ b3 @ 0 # r"
    and m: "mr AND 0x0F = Sn_MR_UDP" "mr' AND 0x0F = Sn_MR_UDP" "be16 h l \<noteq> 0" "s \<noteq> SR_CLOSED"
    and d: "d1 \<noteq> []" "d2 \<noteq> []" "unat (be16 n1 n2) = length d1 + length d2" "unat len1 = length d1" "be16 n1 n2 - len1 \<le> len2"
    and b: "\<forall>b \<in> set (b1 @ b2 @ b3). b \<noteq> 0"
  shows "\<exists>w1 w2. sock_recvfrom sn len1 w = Some (int (length d1), \<lparr>dg_data = d1, dg_addr = Some [i1, i2, i3, i4], dg_port = Some (be16 q1 q2)\<rparr>, w1) \<and>
    unat (remained sn w1) = length d2 \<and> pack_info sn w1 = PACK_FIRST OR PACK_REMAINED \<and>
    sock_recvfrom sn len2 w1 = Some (int (length d2), \<lparr>dg_data = d2, dg_addr = None, dg_port = None\<rparr>, w2) \<and>
    remained sn w2 = 0 \<and> pack_info sn w2 = PACK_COMPLETED \<and> answers w2 = r"
proof -
  let ?n = "be16 n1 n2" let ?g = "\<lparr>dg_data = [], dg_addr = Some [i1, i2, i3, i4], dg_port = Some (be16 q1 q2)\<rparr>"
  have len: "len1 < ?n" "unat (?n - len1) = length d2" "len1 \<noteq> 0" "?n - len1 \<noteq> 0"
  proof -
    show "len1 < ?n" using d(2,3,4) by (simp add: word_less_nat_alt)
    then show u: "unat (?n - len1) = length d2" using d(3,4) by (simp add: unat_sub word_le_nat_alt)
    show "len1 \<noteq> 0" using d(1,4) by auto
    show "?n - len1 \<noteq> 0" using d(2) u by auto
  qed
  have len2: "len2 \<noteq> 0" using d(2,5) len(2) by (auto simp: word_le_nat_alt)
  have all: "(if len2 < ?n - len1 then len2 else ?n - len1) = ?n - len1" using d(5) by (simp add: not_less [symmetric])
  obtain wa where wa: "getSn_MR sn w = Some (mr, wa)" "turn w [mr] [] wa"
    "answers wa = h # l # h # l # s # ph # pl # [i1, i2, i3, i4, q1, q2, n1, n2] @ b1 @ 0 # p1 # p2 # d1 @ b2 @ 0 # mr' # p3 # p4 # d2 @ b3 @ 0 # r"
    using does_byte(1) [OF w] by (auto elim: doesE)
  have t: "answers (touch sn wa) = h # l # h # l # s # ph # pl # [i1, i2, i3, i4, q1, q2, n1, n2] @ b1 @ 0 # p1 # p2 # d1 @ b2 @ 0 # mr' # p3 # p4 # d2 @ b3 @ 0 # r"
    using wa(3) by simp
  obtain wb where wb: "recvfrom_wait sn (touch sn wa) = Some (SOCK_OK, wb)" "turn (touch sn wa) [h, l, h, l, s] [] wb"
    "answers wb = ph # pl # [i1, i2, i3, i4, q1, q2, n1, n2] @ b1 @ 0 # p1 # p2 # d1 @ b2 @ 0 # mr' # p3 # p4 # d2 @ b3 @ 0 # r"
    using recvfrom_wait_done [OF t m(3,4)] by blast
  have arr: "arrays_ok wb" using sn(2) turn_arrays [OF wa(2)] turn_arrays [OF wb(2)] by simp
  obtain wc where wc: "recv_header mr sn wb = Some (Inr ?g, wc)" "answers wc = p1 # p2 # d1 @ b2 @ 0 # mr' # p3 # p4 # d2 @ b3 @ 0 # r"
    "arrays_ok wc" "remained sn wc = ?n" "pack_info sn wc = PACK_FIRST"
    using recv_header_udp [OF sn(1) arr _ _ wb(3), of mr] udp_mode [OF m(1)] b by auto
  obtain w1 where w1: "recv_body sn len1 ?g wc = Some (int (length d1), ?g\<lparr>dg_data := d1\<rparr>, w1)" "answers w1 = mr' # p3 # p4 # d2 @ b3 @ 0 # r"
    "arrays_ok w1" "remained sn w1 = ?n - len1" "pack_info sn w1 = PACK_FIRST OR PACK_REMAINED"
    using recv_body_done [OF sn(1) wc(3,2) _ d(4) _ d(1), of len1 ?g] wc(4,5) len(1,4) b by auto
  obtain wd where wd: "getSn_MR sn w1 = Some (mr', wd)" "turn w1 [mr'] [] wd" "answers wd = p3 # p4 # d2 @ b3 @ 0 # r"
    using does_byte(1) [OF w1(2)] by (auto elim: doesE)
  have rest: "remained sn wd = ?n - len1" "arrays_ok wd" using turn_vars(9) [OF wd(2)] turn_arrays [OF wd(2)] w1(3,4) by simp_all
  have pick: "?n - len1 = (if len2 < remained sn wd then len2 else remained sn wd)" unfolding rest(1) all ..
  obtain w2 where w2: "recv_body sn len2 no_datagram wd = Some (int (length d2), no_datagram\<lparr>dg_data := d2\<rparr>, w2)" "answers w2 = r"
    "remained sn w2 = 0" "pack_info sn w2 = PACK_COMPLETED"
    using recv_body_done [OF sn(1) rest(2) wd(3) _ len(2) pick d(2), of no_datagram] rest(1) b by auto
  have "sock_recvfrom sn len1 w = recv_body sn len1 ?g wc"
    using wa(1) wb(1) wc(1) sn(1,3) len(3) udp_mode [OF m(1)] turn_vars(9) [OF wa(2), of sn] by (simp add: sock_recvfrom_def)
  moreover have "sock_recvfrom sn len2 w1 = recv_body sn len2 no_datagram wd"
    using wd(1) sn(1) len2 len(4) rest(1) udp_mode [OF m(2)] by (simp add: sock_recvfrom_def)
  ultimately show ?thesis using w1 w2 len(2) by (auto simp: no_datagram_def)
qed

theorem datagram_split_witness:
  "\<exists>w1 w2. sock_recvfrom 1 2 (wiz_start ([2, 0, 11, 0, 11, 0x22, 0, 0, 8, 8, 8, 8, 0, 53, 0, 3, 0, 0, 8, 65, 66, 0x40, 0] @ [2, 0, 10, 67, 0])) =
       Some (2, \<lparr>dg_data = [65, 66], dg_addr = Some [8, 8, 8, 8], dg_port = Some 53\<rparr>, w1) \<and>
     sock_recvfrom 1 10 w1 = Some (1, \<lparr>dg_data = [67], dg_addr = None, dg_port = None\<rparr>, w2)"
  using datagram_split [of 1 "wiz_start ([2, 0, 11, 0, 11, 0x22, 0, 0, 8, 8, 8, 8, 0, 53, 0, 3, 0, 0, 8, 65, 66, 0x40, 0] @ [2, 0, 10, 67, 0])"
    2 0 11 "0x22" 0 0 8 8 8 8 0 53 0 3 "[]" 0 8 "[65, 66]" "[0x40]" 2 0 10 "[67]" "[]" "[]" 2 10]
  by (auto simp: sn_ok_def WIZCHIP_SOCK_NUM_def Sn_MR_UDP_def SR_CLOSED_def be16_def arrays_ok_def wiz_start_def remained_def)

end
