(* ===== verification/Wiz_Safety.thy ===== *)
theory Wiz_Safety
  imports Wiz_Udp
begin

text \<open>
  Safety of the socket library: whatever the chip answers, calls with any socket number but 8 and buffers as long as announced stay inside
  the arrays, and the ports that are handed out stay in their range.
\<close>

section \<open>The invariant\<close>

definition sock_inv :: "wiz \<Rightarrow> bool" where
  "sock_inv w \<longleftrightarrow> arrays_ok w \<and> \<not> outside w \<and> SOCK_ANY_PORT_NUM \<le> sock_any_port w \<and> sock_any_port w < 0xFFF0"

lemma sock_inv_upd [simp]:
  "sock_inv (w\<lparr>answers := as\<rparr>) = sock_inv w" "sock_inv (w\<lparr>spi := fs\<rparr>) = sock_inv w" "sock_inv (w\<lparr>sock_io_mode := m\<rparr>) = sock_inv w"
  "sock_inv (w\<lparr>sock_is_sending := m\<rparr>) = sock_inv w" "sock_inv (clear_sending sn w) = sock_inv w" "sock_inv (clear_io_mode sn w) = sock_inv w"
  "sock_inv (emit f w) = sock_inv w" "sock_inv (WIZCHIP_WRITE a v w) = sock_inv w" "sock_inv (write16 a u w) = sock_inv w"
  by (simp_all add: sock_inv_def arrays_ok_def clear_sending_def clear_io_mode_def emit_def WIZCHIP_WRITE_def write16_def)

lemma sock_inv_write_buf [simp]: "n \<le> length b \<Longrightarrow> sock_inv (WIZCHIP_WRITE_BUF a b n w) = sock_inv w"
  by (simp add: WIZCHIP_WRITE_BUF_def sock_inv_def arrays_ok_def emit_def)

lemma sock_inv_need [simp]: "n \<le> length b \<Longrightarrow> sock_inv (need n b w) = sock_inv w"
  by (simp add: need_def sock_inv_def arrays_ok_def)

lemma sock_inv_touch [simp]:
  "sn_ok sn \<Longrightarrow> sock_inv (touch sn w) = sock_inv w" "sn_ok sn \<Longrightarrow> sock_inv (set_remained sn v w) = sock_inv w"
  "sn_ok sn \<Longrightarrow> sock_inv (set_pack_info sn p w) = sock_inv w"
  by (simp_all add: touch_def set_remained_def set_pack_info_def sock_inv_def arrays_ok_def sn_ok_def)

lemmas sock_setters = setSn_MR_def setSn_CR_def setSn_IR_def setSn_IMR_def setSn_PORT_def setSn_DPORT_def setSn_MSSR_def setSn_TOS_def setSn_TTL_def
  setSn_KPALVTR_def setSn_TX_WR_def setSn_RX_RD_def setSn_DIPR_def

lemma sock_inv_set [simp]:
  "sock_inv (setSn_MR sn v w) = sock_inv w" "sock_inv (setSn_CR sn v w) = sock_inv w" "sock_inv (setSn_IR sn v w) = sock_inv w"
  "sock_inv (setSn_IMR sn v w) = sock_inv w" "sock_inv (setSn_PORT sn u w) = sock_inv w" "sock_inv (setSn_DPORT sn u w) = sock_inv w"
  "sock_inv (setSn_MSSR sn u w) = sock_inv w" "sock_inv (setSn_TOS sn v w) = sock_inv w" "sock_inv (setSn_TTL sn v w) = sock_inv w"
  "sock_inv (setSn_KPALVTR sn v w) = sock_inv w" "sock_inv (setSn_TX_WR sn u w) = sock_inv w" "sock_inv (setSn_RX_RD sn u w) = sock_inv w"
  "4 \<le> length b \<Longrightarrow> sock_inv (setSn_DIPR sn b w) = sock_inv w"
  by (simp_all add: sock_setters)

text \<open>
  \<open>safe m st\<close>: a result of \<open>m\<close>, if there is one, holds a state with the invariant, which \<open>st\<close> takes out of it.  The rules below follow the
  structure of a call.
\<close>

definition safe :: "'a option \<Rightarrow> ('a \<Rightarrow> wiz) \<Rightarrow> bool" where
  "safe m st \<longleftrightarrow> (\<forall>x. m = Some x \<longrightarrow> sock_inv (st x))"

abbreviation thd :: "'a \<times> 'b \<times> 'c \<Rightarrow> 'c" where "thd x \<equiv> snd (snd x)"

lemma safeD: "safe m st \<Longrightarrow> m = Some x \<Longrightarrow> sock_inv (st x)"
  by (simp add: safe_def)

lemma safe_Some: "sock_inv (st x) \<Longrightarrow> safe (Some x) st"
  by (simp add: safe_def)

lemma safe_if: "(b \<Longrightarrow> safe m st) \<Longrightarrow> (\<not> b \<Longrightarrow> safe n st) \<Longrightarrow> safe (if b then m else n) st"
  by simp

lemma safe_bind: "safe m snd \<Longrightarrow> (\<And>x w. sock_inv w \<Longrightarrow> safe (k x w) st) \<Longrightarrow> safe (m \<bind> (\<lambda>(x, w). k x w)) st"
  by (cases m) (auto simp: safe_def)

lemma safe_bind_state: "safe m (\<lambda>w. w) \<Longrightarrow> (\<And>w. sock_inv w \<Longrightarrow> safe (k w) st) \<Longrightarrow> safe (m \<bind> k) st"
  by (cases m) (auto simp: safe_def)

lemma safe_bind3: "safe m thd \<Longrightarrow> (\<And>x y w. sock_inv w \<Longrightarrow> safe (k x y w) st) \<Longrightarrow> safe (m \<bind> (\<lambda>(x, y, w). k x y w)) st"
  by (cases m) (auto simp: safe_def)

lemma safe_map: "safe m snd \<Longrightarrow> safe (map_option (\<lambda>(v, w). (f v, w)) m) snd"
  by (cases m) (auto simp: safe_def)

lemma safe_map3: "safe m snd \<Longrightarrow> safe (map_option (\<lambda>(v, w). (r, f v, w)) m) thd"
  by (cases m) (auto simp: safe_def)

lemma safe_map_id: "safe m snd \<Longrightarrow> safe (map_option (\<lambda>(v, w). (r, v, w)) m) thd"
  by (rule safe_map3)

lemma safe_read: "sock_inv w \<Longrightarrow> safe (WIZCHIP_READ a w) snd"
  by (auto simp: safe_def WIZCHIP_READ_def split: list.splits)

lemma safe_read_buf: "sock_inv w \<Longrightarrow> safe (WIZCHIP_READ_BUF a n w) snd"
  by (auto simp: safe_def WIZCHIP_READ_BUF_def)

lemmas safe_steps = safe_Some safe_if safe_bind safe_bind_state safe_bind3 safe_map safe_map3 safe_map_id safe_read safe_read_buf

lemma safe_read16: "sock_inv w \<Longrightarrow> safe (read16 a w) snd"
  unfolding read16_def by (intro safe_steps) auto

lemmas sock_getters = getSn_MR_def getSn_CR_def getSn_IR_def getSn_IMR_def getSn_SR_def getSn_DIPR_def getSn_DPORT_def getSn_MSSR_def getSn_TOS_def
  getSn_TTL_def getSn_KPALVTR_def getSn_TX_WR_def getSn_RX_RD_def getSn_RxMAX_def getSn_TxMAX_def getSIPR_def

lemma safe_get:
  "sock_inv w \<Longrightarrow> safe (getSn_MR sn w) snd" "sock_inv w \<Longrightarrow> safe (getSn_CR sn w) snd" "sock_inv w \<Longrightarrow> safe (getSn_IR sn w) snd"
  "sock_inv w \<Longrightarrow> safe (getSn_IMR sn w) snd" "sock_inv w \<Longrightarrow> safe (getSn_SR sn w) snd" "sock_inv w \<Longrightarrow> safe (getSn_DIPR sn w) snd"
  "sock_inv w \<Longrightarrow> safe (getSn_DPORT sn w) snd" "sock_inv w \<Longrightarrow> safe (getSn_MSSR sn w) snd" "sock_inv w \<Longrightarrow> safe (getSn_TOS sn w) snd"
  "sock_inv w \<Longrightarrow> safe (getSn_TTL sn w) snd" "sock_inv w \<Longrightarrow> safe (getSn_KPALVTR sn w) snd" "sock_inv w \<Longrightarrow> safe (getSn_TX_WR sn w) snd"
  "sock_inv w \<Longrightarrow> safe (getSn_RX_RD sn w) snd" "sock_inv w \<Longrightarrow> safe (getSn_RxMAX sn w) snd" "sock_inv w \<Longrightarrow> safe (getSn_TxMAX sn w) snd"
  "sock_inv w \<Longrightarrow> safe (getSIPR w) snd"
  unfolding sock_getters by (intro safe_steps safe_read16; assumption)+

text \<open>A loop is safe when its body is, for any safe call in the place of the recursion.\<close>

lemma loop_adm2: "option.admissible (\<lambda>f. \<forall>a w. Q a \<longrightarrow> sock_inv w \<longrightarrow> safe (curry f a w) st)"
  using option_admissible [of "\<lambda>x y. Q (fst x) \<longrightarrow> sock_inv (snd x) \<longrightarrow> sock_inv (st y)"]
  by (rule back_subst [where P = option.admissible]) (auto simp: safe_def fun_eq_iff)

lemma loop_adm3: "option.admissible (\<lambda>f. \<forall>a b w. Q a \<longrightarrow> sock_inv w \<longrightarrow> safe (curry (curry f) a b w) st)"
  using option_admissible [of "\<lambda>x y. Q (fst (fst x)) \<longrightarrow> sock_inv (snd x) \<longrightarrow> sock_inv (st y)"]
  by (rule back_subst [where P = option.admissible]) (auto simp: safe_def fun_eq_iff)

lemma safe_None: "safe None st"
  by (simp add: safe_def)

lemma size_loop_safe: "\<forall>a v w. True \<longrightarrow> sock_inv w \<longrightarrow> safe (size_loop a v w) snd"
  by (rule size_loop.fixp_induct [OF loop_adm3]) (simp add: safe_None, (intro allI impI safe_steps safe_read16; simp))

lemma size_safe: "sock_inv w \<Longrightarrow> safe (getSn_TX_FSR sn w) snd" "sock_inv w \<Longrightarrow> safe (getSn_RX_RSR sn w) snd"
  unfolding getSn_TX_FSR_def getSn_RX_RSR_def using size_loop_safe by auto

lemma wait_CR_safe: "\<forall>sn w. True \<longrightarrow> sock_inv w \<longrightarrow> safe (wait_CR sn w) (\<lambda>w. w)"
  by (rule wait_CR.fixp_induct [OF loop_adm2]) (simp add: safe_None, (intro allI impI safe_steps safe_get; simp))

lemma wait_closed_safe: "\<forall>sn w. True \<longrightarrow> sock_inv w \<longrightarrow> safe (wait_closed sn w) (\<lambda>w. w)"
  by (rule wait_closed.fixp_induct [OF loop_adm2]) (simp add: safe_None, (intro allI impI safe_steps safe_get; simp))

lemma wait_open_safe: "\<forall>sn w. True \<longrightarrow> sock_inv w \<longrightarrow> safe (wait_open sn w) (\<lambda>w. w)"
  by (rule wait_open.fixp_induct [OF loop_adm2]) (simp add: safe_None, (intro allI impI safe_steps safe_get; simp))

lemmas wait_safe = wait_CR_safe [rule_format] wait_closed_safe [rule_format] wait_open_safe [rule_format]

lemma command_safe: "sock_inv w \<Longrightarrow> safe (command sn c w) (\<lambda>w. w)"
  unfolding command_def by (rule wait_safe(1)) simp_all

lemma send_data_safe: "sock_inv w \<Longrightarrow> unat len \<le> length b \<Longrightarrow> safe (wiz_send_data sn b len w) (\<lambda>w. w)"
  unfolding wiz_send_data_def Let_def by (intro safe_steps safe_get) simp_all

lemma recv_data_safe: "sock_inv w \<Longrightarrow> safe (wiz_recv_data sn len w) snd"
  unfolding wiz_recv_data_def Let_def by (intro safe_steps safe_get) simp_all

lemmas safe_ops = safe_steps safe_get size_safe command_safe send_data_safe recv_data_safe wait_safe(2,3)

section \<open>The calls\<close>

lemma sock_close_safe: "sn_ok sn \<Longrightarrow> sock_inv w \<Longrightarrow> safe (sock_close sn w) snd"
  unfolding sock_close_def Let_def by (intro safe_ops) simp_all

lemma pick_port_inv:
  assumes "pick_port port w = (p, y)" "sock_inv w"
  shows "sock_inv y" "p \<noteq> 0" "port = 0 \<Longrightarrow> SOCK_ANY_PORT_NUM \<le> p \<and> p < 0xFFF0"
  using assms
  by (auto simp: pick_port_def Let_def sock_inv_def arrays_ok_def SOCK_ANY_PORT_NUM_def word_le_nat_alt word_less_nat_alt word_unat_eq_iff
      unat_word_ariths split: if_splits)

lemma safe_pick_port: "sock_inv w \<Longrightarrow> (\<And>p y. sock_inv y \<Longrightarrow> safe (k p y) st) \<Longrightarrow> safe (case pick_port port w of (p, y) \<Rightarrow> k p y) st"
  using pick_port_inv(1) by (cases "pick_port port w") fastforce

lemma sock_open_safe: "sn_ok sn \<Longrightarrow> sock_inv w \<Longrightarrow> safe (sock_open sn p port f w) snd"
  unfolding sock_open_def Let_def by (intro safe_ops sock_close_safe safe_pick_port) simp_all

lemma sock_socket_safe: "sn_ok sn \<Longrightarrow> sock_inv w \<Longrightarrow> safe (sock_socket sn p port f w) snd"
  unfolding sock_socket_def by (intro safe_ops sock_open_safe) simp_all

lemma tcp_mode_safe: "sock_inv w \<Longrightarrow> (\<And>w. sock_inv w \<Longrightarrow> safe (k w) snd) \<Longrightarrow> safe (tcp_mode sn k w) snd"
  unfolding tcp_mode_def by (intro safe_ops) simp_all

lemma sock_listen_safe: "sn_ok sn \<Longrightarrow> sock_inv w \<Longrightarrow> safe (sock_listen sn w) snd"
  unfolding sock_listen_def by (intro tcp_mode_safe safe_ops sock_close_safe) simp_all

lemma connect_wait_safe: "\<forall>sn w. True \<longrightarrow> sock_inv w \<longrightarrow> safe (connect_wait sn w) snd"
  by (rule connect_wait.fixp_induct [OF loop_adm2]) (simp add: safe_None, (intro allI impI safe_steps safe_get; simp))

lemma sock_connect_safe: "4 \<le> length a \<Longrightarrow> sock_inv w \<Longrightarrow> safe (sock_connect sn a port w) snd"
  unfolding sock_connect_def by (intro tcp_mode_safe safe_ops connect_wait_safe [rule_format]) simp_all

lemma disconnect_wait_safe: "\<forall>sn w. sn_ok sn \<longrightarrow> sock_inv w \<longrightarrow> safe (disconnect_wait sn w) snd"
  by (rule disconnect_wait.fixp_induct [OF loop_adm2]) (simp add: safe_None, (intro allI impI safe_steps safe_get sock_close_safe; simp))

lemma sock_disconnect_safe: "sn_ok sn \<Longrightarrow> sock_inv w \<Longrightarrow> safe (sock_disconnect sn w) snd"
  unfolding sock_disconnect_def Let_def by (intro tcp_mode_safe safe_ops disconnect_wait_safe [rule_format]) simp_all

lemma send_room_safe: "\<forall>sn len w. sn_ok sn \<longrightarrow> sock_inv w \<longrightarrow> safe (send_room sn len w) snd"
  by (rule send_room.fixp_induct [OF loop_adm3]) (simp add: safe_None, (intro allI impI safe_ops sock_close_safe; simp))

lemma at_most [simp]: "unat len \<le> n \<Longrightarrow> unat (if m < len then m else (len :: u16)) \<le> n"
  by (simp add: word_less_nat_alt)

lemma tcp_data_safe: "sn_ok sn \<Longrightarrow> unat len \<le> length b \<Longrightarrow> sock_inv w \<Longrightarrow> safe (send_data sn b len w) snd"
  unfolding send_data_def Let_def by (intro safe_ops send_room_safe [rule_format]) simp_all

lemma sock_send_safe: "sn_ok sn \<Longrightarrow> unat len \<le> length b \<Longrightarrow> sock_inv w \<Longrightarrow> safe (sock_send sn b len w) snd"
  unfolding sock_send_def by (intro tcp_mode_safe safe_ops sock_close_safe tcp_data_safe) simp_all

lemma recv_size_safe: "\<forall>sn w. sn_ok sn \<longrightarrow> sock_inv w \<longrightarrow> safe (recv_size sn w) thd"
  by (rule recv_size.fixp_induct [OF loop_adm2]) (simp add: safe_None, (intro allI impI safe_ops sock_close_safe; simp))

lemma sock_recv_safe: "sn_ok sn \<Longrightarrow> sock_inv w \<Longrightarrow> safe (sock_recv sn len w) thd"
  unfolding sock_recv_def Let_def by (intro safe_ops recv_size_safe [rule_format]) simp_all

lemma zero_check_safe: "sock_inv w \<Longrightarrow> safe (zero_check z e sn w) snd"
  unfolding zero_check_def by (intro safe_ops) simp_all

lemma sendto_room_safe: "\<forall>sn len w. True \<longrightarrow> sock_inv w \<longrightarrow> safe (sendto_room sn len w) snd"
  by (rule sendto_room.fixp_induct [OF loop_adm3]) (simp add: safe_None, (intro allI impI safe_ops; simp))

lemma sendto_wait_safe: "\<forall>sn n w. True \<longrightarrow> sock_inv w \<longrightarrow> safe (sendto_wait sn n w) snd"
  by (rule sendto_wait.fixp_induct [OF loop_adm3]) (simp add: safe_None, (intro allI impI safe_ops; simp))

lemma sendto_data_safe: "4 \<le> length a \<Longrightarrow> unat len \<le> length b \<Longrightarrow> sock_inv w \<Longrightarrow> safe (sendto_data sn b len a port w) snd"
  unfolding sendto_data_def Let_def by (intro safe_ops sendto_room_safe [rule_format] sendto_wait_safe [rule_format]) simp_all

lemma safe_option: "(\<And>x. v = Some x \<Longrightarrow> safe (k x) st) \<Longrightarrow> (v = None \<Longrightarrow> safe m st) \<Longrightarrow> safe (case v of None \<Rightarrow> m | Some x \<Rightarrow> k x) st"
  by (cases v) simp_all

lemma safe_sum: "(\<And>x. v = Inl x \<Longrightarrow> safe (k x) st) \<Longrightarrow> (\<And>y. v = Inr y \<Longrightarrow> safe (m y) st) \<Longrightarrow> safe (case v of Inl x \<Rightarrow> k x | Inr y \<Rightarrow> m y) st"
  by (cases v) simp_all

lemma sock_sendto_safe: "4 \<le> length a \<Longrightarrow> unat len \<le> length b \<Longrightarrow> sock_inv w \<Longrightarrow> safe (sock_sendto sn b len a port w) snd"
  unfolding sock_sendto_def by (intro safe_ops zero_check_safe safe_option sendto_data_safe) simp_all

lemma recvfrom_wait_safe: "\<forall>sn w. True \<longrightarrow> sock_inv w \<longrightarrow> safe (recvfrom_wait sn w) snd"
  by (rule recvfrom_wait.fixp_induct [OF loop_adm2]) (simp add: safe_None, (intro allI impI safe_ops; simp))

lemma read_head_safe: "sock_inv w \<Longrightarrow> safe (read_head sn n w) snd"
  unfolding read_head_def by (intro safe_ops) simp_all

lemma recv_header_safe: "sn_ok sn \<Longrightarrow> sock_inv w \<Longrightarrow> safe (recv_header m sn w) snd"
  unfolding recv_header_def Let_def by (intro safe_ops read_head_safe sock_close_safe) simp_all

lemma recv_body_safe: "sn_ok sn \<Longrightarrow> sock_inv w \<Longrightarrow> safe (recv_body sn len d w) thd"
  unfolding recv_body_def Let_def by (intro safe_ops) simp_all

lemma sock_recvfrom_safe: "sn_ok sn \<Longrightarrow> sock_inv w \<Longrightarrow> safe (sock_recvfrom sn len w) thd"
  unfolding sock_recvfrom_def by (intro safe_ops recv_body_safe recvfrom_wait_safe [rule_format] recv_header_safe safe_sum) simp_all

lemma answer_safe: "safe m snd \<Longrightarrow> safe (answer8 m) thd" "safe m' snd \<Longrightarrow> safe (answer16 m') thd"
  unfolding answer8_def answer16_def by (intro safe_steps; assumption)+

lemma ctlsocket_safe: "1 \<le> length arg \<Longrightarrow> sock_inv w \<Longrightarrow> safe (sock_ctlsocket sn c arg w) thd"
  unfolding sock_ctlsocket_def Let_def by (cases c; simp only: ctlsock_type.case; intro safe_ops answer_safe) simp_all

lemma keepalive_wait_safe: "\<forall>sn w. True \<longrightarrow> sock_inv w \<longrightarrow> safe (keepalive_wait sn w) snd"
  by (rule keepalive_wait.fixp_induct [OF loop_adm2]) (simp add: safe_None, (intro allI impI safe_ops; simp))

lemma setsockopt_safe: "4 \<le> length arg \<Longrightarrow> sock_inv w \<Longrightarrow> safe (sock_setsockopt sn t arg w) snd"
  unfolding sock_setsockopt_def
  by (cases t; simp only: sockopt_type.case; intro safe_ops tcp_mode_safe keepalive_wait_safe [rule_format]) simp_all

lemma getsockopt_safe: "sn_ok sn \<Longrightarrow> sock_inv w \<Longrightarrow> safe (sock_getsockopt sn t w) thd"
  unfolding sock_getsockopt_def by (cases t; simp only: sockopt_type.case; intro safe_ops answer_safe) simp_all

section \<open>Socket numbers\<close>

text \<open>
  The chip has the sockets 0 to 7.  The check of the number lets 8 through as well, so a number is one of three kinds: a socket, 8, or
  refused, and then the call touches nothing.
\<close>

lemma number_kinds: "sn \<noteq> 8 \<Longrightarrow> sn_ok sn \<or> \<not> sock_number_ok sn"
  by (auto simp: sn_ok_def sock_number_ok_def WIZCHIP_SOCK_NUM_def word_unat_eq_iff)

lemma number_refused:
  assumes "\<not> sock_number_ok sn"
  shows "sock_socket sn p port f w = Some (SOCKERR_SOCKNUM, w)" "sock_close sn w = Some (SOCKERR_SOCKNUM, w)"
    "sock_listen sn w = Some (SOCKERR_SOCKNUM, w)" "sock_connect sn a port w = Some (SOCKERR_SOCKNUM, w)"
    "sock_disconnect sn w = Some (SOCKERR_SOCKNUM, w)" "sock_send sn b len w = Some (SOCKERR_SOCKNUM, w)"
    "sock_recv sn len w = Some (SOCKERR_SOCKNUM, [], w)" "sock_sendto sn b len a port w = Some (SOCKERR_SOCKNUM, w)"
    "sock_recvfrom sn len w = Some (SOCKERR_SOCKNUM, no_datagram, w)" "sock_ctlsocket sn c arg w = Some (SOCKERR_SOCKNUM, [], w)"
    "sock_setsockopt sn t arg w = Some (SOCKERR_SOCKNUM, w)" "sock_getsockopt sn t w = Some (SOCKERR_SOCKNUM, [], w)"
  using assms by (simp_all add: sock_socket_def sock_close_def sock_listen_def sock_connect_def sock_disconnect_def sock_send_def sock_recv_def
      sock_sendto_def sock_recvfrom_def sock_ctlsocket_def sock_setsockopt_def sock_getsockopt_def tcp_mode_def)

lemma any_number: "sn \<noteq> 8 \<Longrightarrow> (sn_ok sn \<Longrightarrow> safe m st) \<Longrightarrow> (\<not> sock_number_ok sn \<Longrightarrow> safe m st) \<Longrightarrow> safe m st"
  using number_kinds by blast

lemma calls_safe:
  assumes "sn \<noteq> 8" "sock_inv w"
  shows "safe (sock_socket sn p port f w) snd" "safe (sock_close sn w) snd" "safe (sock_listen sn w) snd"
    "4 \<le> length a \<Longrightarrow> safe (sock_connect sn a port w) snd" "safe (sock_disconnect sn w) snd"
    "unat len \<le> length b \<Longrightarrow> safe (sock_send sn b len w) snd" "safe (sock_recv sn len w) thd"
    "unat len \<le> length b \<Longrightarrow> 4 \<le> length a \<Longrightarrow> safe (sock_sendto sn b len a port w) snd" "safe (sock_recvfrom sn len w) thd"
    "1 \<le> length arg \<Longrightarrow> safe (sock_ctlsocket sn c arg w) thd" "4 \<le> length arg \<Longrightarrow> safe (sock_setsockopt sn t arg w) snd"
    "safe (sock_getsockopt sn t w) thd"
  by (rule any_number [OF assms(1)]; simp add: assms(2) number_refused safe_Some
      sock_socket_safe sock_close_safe sock_listen_safe sock_connect_safe sock_disconnect_safe sock_send_safe sock_recv_safe sock_sendto_safe
      sock_recvfrom_safe ctlsocket_safe setsockopt_safe getsockopt_safe)+

section \<open>What the receiving calls store\<close>

lemma wiz_recv_data_length: "wiz_recv_data sn n w = Some (b, y) \<Longrightarrow> length b = unat n"
  by (auto simp: wiz_recv_data_def WIZCHIP_READ_BUF_def Let_def bind_eq_Some_conv split: if_split_asm)

lemma least_len: "unat (if len < k then len else (k :: u16)) \<le> unat len" "unat (if k < len then k else (len :: u16)) \<le> unat len"
  by (simp_all add: word_less_nat_alt)

lemma recv_size_result: "recv_size sn w = Some y \<Longrightarrow> fst y \<in> {SOCK_OK, SOCK_BUSY, SOCKERR_SOCKSTATUS}"
  by (erule recv_size.raw_induct [where P = "\<lambda>sn w y. fst y \<in> {SOCK_OK, SOCK_BUSY, SOCKERR_SOCKSTATUS}", rotated])
    (fastforce simp: bind_eq_Some_conv split: if_split_asm)

lemma recv_tail_result:
  assumes "do { (q, size, w3) \<leftarrow> recv_size sn w2;
     if q \<noteq> SOCK_OK then Some (q, [], w3)
     else do {
       (b, w4) \<leftarrow> wiz_recv_data sn (if size < n1 then size else n1) w3;
       w5 \<leftarrow> command sn Sn_CR_RECV w4;
       Some (uint (if size < n1 then size else n1), b, w5) } } = Some (r, b, y)"
  shows "(r = int (length b) \<and> length b \<le> unat n1) \<or> (b = [] \<and> r \<in> {SOCK_BUSY, SOCKERR_SOCKSTATUS})"
proof -
  obtain q size w3 where q: "recv_size sn w2 = Some (q, size, w3)" using assms by (cases "recv_size sn w2") auto
  define n where "n = (if size < n1 then size else n1)"
  have n: "unat n \<le> unat n1" by (simp add: n_def word_less_nat_alt)
  have a: "(if q \<noteq> SOCK_OK then Some (q, [], w3)
     else do { (b, w4) \<leftarrow> wiz_recv_data sn n w3; w5 \<leftarrow> command sn Sn_CR_RECV w4; Some (uint n, b, w5) }) = Some (r, b, y)"
    using assms unfolding q n_def by simp
  show ?thesis
  proof (cases "q = SOCK_OK")
    case True
    with a obtain w4 where b: "wiz_recv_data sn n w3 = Some (b, w4)" "r = uint n" by (auto simp: bind_eq_Some_conv)
    then show ?thesis using wiz_recv_data_length [OF b(1)] n by simp
  next
    case False
    then show ?thesis using a recv_size_result [OF q] by simp
  qed
qed

lemma recv_answers:
  assumes "sock_recv sn len w = Some (r, b, w')"
  shows "(r = int (length b) \<and> length b \<le> unat len) \<or>
    (b = [] \<and> r \<in> {SOCK_BUSY, SOCKERR_SOCKNUM, SOCKERR_SOCKMODE, SOCKERR_DATALEN, SOCKERR_SOCKSTATUS})"
proof (cases "sock_number_ok sn")
  case False
  then show ?thesis using assms by (simp add: sock_recv_def)
next
  case True
  then obtain m w1 where m: "getSn_MR sn w = Some (m, w1)" using assms by (cases "getSn_MR sn w") (auto simp: sock_recv_def)
  show ?thesis
  proof (cases "m AND 0x0F \<noteq> Sn_MR_TCP \<or> len = 0")
    case True
    then show ?thesis using assms m \<open>sock_number_ok sn\<close> by (auto simp: sock_recv_def split: if_split_asm)
  next
    case False
    then obtain mx w2 where mx: "getSn_RxMAX sn w1 = Some (mx, w2)"
      using assms m True by (cases "getSn_RxMAX sn w1") (auto simp: sock_recv_def)
    define n1 where "n1 = (if ucast mx < len then ucast mx else len)"
    have "unat n1 \<le> unat len" by (simp add: n1_def word_less_nat_alt)
    moreover have "(r = int (length b) \<and> length b \<le> unat n1) \<or> (b = [] \<and> r \<in> {SOCK_BUSY, SOCKERR_SOCKSTATUS})"
      using assms m mx True False unfolding sock_recv_def Let_def n1_def by (intro recv_tail_result) simp
    ultimately show ?thesis by auto
  qed
qed

lemma sock_recv_stores: "sock_recv sn len w = Some (r, b, w') \<Longrightarrow> length b \<le> unat len"
  by (drule recv_answers) auto

lemma recv_body_stores:
  assumes "recv_body sn len d w = Some (r, d', w')"
  shows "length (dg_data d') \<le> unat len" "dg_addr d' = dg_addr d"
  using assms least_len(1) [of len "remained sn w"] by (auto simp: recv_body_def Let_def bind_eq_Some_conv dest!: wiz_recv_data_length)

lemma recv_header_stores: "recv_header m sn w = Some (Inr d, w') \<Longrightarrow> \<forall>a. dg_addr d = Some a \<longrightarrow> length a = 4"
  by (auto simp: recv_header_def read_head_def Let_def no_datagram_def bind_eq_Some_conv dest!: wiz_recv_data_length split: if_split_asm)

lemma sum_caseE:
  "(case h of Inl e \<Rightarrow> f e | Inr d \<Rightarrow> g d) = Some y \<Longrightarrow> (\<And>e. h = Inl e \<Longrightarrow> f e = Some y \<Longrightarrow> P) \<Longrightarrow>
   (\<And>d. h = Inr d \<Longrightarrow> g d = Some y \<Longrightarrow> P) \<Longrightarrow> P"
  by (cases h) auto

lemma sock_recvfrom_stores:
  assumes "sock_recvfrom sn len w = Some (r, d, w')"
  shows "length (dg_data d) \<le> unat len \<and> (\<forall>a. dg_addr d = Some a \<longrightarrow> length a = 4)"
proof -
  have "d = no_datagram \<or> (\<exists>h v u. recv_body sn len h v = Some (r, d, w') \<and> (h = no_datagram \<or> (\<exists>m x. recv_header m sn x = Some (Inr h, u))))"
    using assms unfolding sock_recvfrom_def by (auto simp: bind_eq_Some_conv split: if_split_asm elim!: sum_caseE)
  then show ?thesis using recv_body_stores recv_header_stores by (fastforce simp: no_datagram_def)
qed

section \<open>Runs\<close>

text \<open>
  Any sequence of calls with socket numbers from \<open>S\<close> and buffers and arguments as long as the call needs, while the chip delivers any
  answers.  The buffer that \<open>recv\<close> or \<open>recvfrom\<close> stores to is the caller's: the calls return the bytes they store.
\<close>

inductive sock_run :: "u8 set \<Rightarrow> wiz \<Rightarrow> wiz \<Rightarrow> bool" for S w0 where
  start: "sock_run S w0 w0"
| chip: "sock_run S w0 w \<Longrightarrow> sock_run S w0 (w\<lparr>answers := as\<rparr>)"
| socket: "sock_run S w0 w \<Longrightarrow> sn \<in> S \<Longrightarrow> sock_socket sn p port f w = Some (r, w') \<Longrightarrow> sock_run S w0 w'"
| close: "sock_run S w0 w \<Longrightarrow> sn \<in> S \<Longrightarrow> sock_close sn w = Some (r, w') \<Longrightarrow> sock_run S w0 w'"
| listen: "sock_run S w0 w \<Longrightarrow> sn \<in> S \<Longrightarrow> sock_listen sn w = Some (r, w') \<Longrightarrow> sock_run S w0 w'"
| connect: "sock_run S w0 w \<Longrightarrow> sn \<in> S \<Longrightarrow> 4 \<le> length a \<Longrightarrow> sock_connect sn a port w = Some (r, w') \<Longrightarrow> sock_run S w0 w'"
| disconnect: "sock_run S w0 w \<Longrightarrow> sn \<in> S \<Longrightarrow> sock_disconnect sn w = Some (r, w') \<Longrightarrow> sock_run S w0 w'"
| send: "sock_run S w0 w \<Longrightarrow> sn \<in> S \<Longrightarrow> unat len \<le> length b \<Longrightarrow> sock_send sn b len w = Some (r, w') \<Longrightarrow> sock_run S w0 w'"
| recv: "sock_run S w0 w \<Longrightarrow> sn \<in> S \<Longrightarrow> sock_recv sn len w = Some (r, b, w') \<Longrightarrow> sock_run S w0 w'"
| sendto: "sock_run S w0 w \<Longrightarrow> sn \<in> S \<Longrightarrow> unat len \<le> length b \<Longrightarrow> 4 \<le> length a \<Longrightarrow> sock_sendto sn b len a port w = Some (r, w') \<Longrightarrow>
    sock_run S w0 w'"
| recvfrom: "sock_run S w0 w \<Longrightarrow> sn \<in> S \<Longrightarrow> sock_recvfrom sn len w = Some (r, d, w') \<Longrightarrow> sock_run S w0 w'"
| ctlsocket: "sock_run S w0 w \<Longrightarrow> sn \<in> S \<Longrightarrow> 1 \<le> length arg \<Longrightarrow> sock_ctlsocket sn c arg w = Some (r, b, w') \<Longrightarrow> sock_run S w0 w'"
| setsockopt: "sock_run S w0 w \<Longrightarrow> sn \<in> S \<Longrightarrow> 4 \<le> length arg \<Longrightarrow> sock_setsockopt sn t arg w = Some (r, w') \<Longrightarrow> sock_run S w0 w'"
| getsockopt: "sock_run S w0 w \<Longrightarrow> sn \<in> S \<Longrightarrow> sock_getsockopt sn t w = Some (r, b, w') \<Longrightarrow> sock_run S w0 w'"

lemma sock_run_inv: "sock_run S w0 w \<Longrightarrow> 8 \<notin> S \<Longrightarrow> sock_inv w0 \<Longrightarrow> sock_inv w"
proof (induction rule: sock_run.induct)
  case (connect w sn a port r w')
  then have "sn \<noteq> 8" by auto
  then show ?case using connect calls_safe(4) safeD by fastforce
next
  case (send w sn len b r w')
  then have "sn \<noteq> 8" by auto
  then show ?case using send calls_safe(6) safeD by fastforce
next
  case (sendto w sn len b a port r w')
  then have "sn \<noteq> 8" by auto
  then show ?case using sendto calls_safe(8) safeD by fastforce
next
  case (ctlsocket w sn arg c r b w')
  then have "sn \<noteq> 8" by auto
  then show ?case using ctlsocket calls_safe(10) safeD by fastforce
next
  case (setsockopt w sn arg t r w')
  then have "sn \<noteq> 8" by auto
  then show ?case using setsockopt calls_safe(11) safeD by fastforce
qed (simp_all, (metis calls_safe(1,2,3,5,7,9,12) safeD fst_conv snd_conv)+)

lemma wait_closed_outside: "wait_closed sn w = Some y \<Longrightarrow> outside w \<longrightarrow> outside y"
  by (erule wait_closed.raw_induct [where P = "\<lambda>sn w y. outside w \<longrightarrow> outside y", rotated])
    (auto simp: bind_eq_Some_conv getSn_SR_def WIZCHIP_READ_def emit_def split: if_splits list.splits)

lemma close_eight: "sock_close 8 w = Some (r, w') \<Longrightarrow> r = SOCK_OK \<and> outside w'"
proof -
  have "outside (set_pack_info 8 0 v)" for v by (simp add: set_pack_info_def touch_def WIZCHIP_SOCK_NUM_def)
  then show "sock_close 8 w = Some (r, w') \<Longrightarrow> r = SOCK_OK \<and> outside w'"
    by (auto simp: sock_close_def Let_def bind_eq_Some_conv sock_number_ok_def WIZCHIP_SOCK_NUM_def dest!: wait_closed_outside)
qed

text \<open>
  C33: after any sequence of calls with any socket numbers but 8, refused ones included, and any answers of the chip, the library has stayed
  inside its arrays and the buffers it reads, the port it hands out next to a socket without one lies between 0xC000 and 0xFFEF, and what
  the next \<open>recv\<close> or \<open>recvfrom\<close> stores is at most as long as the caller says.  The number 8, which the check of the number lets through,
  is excepted for a reason: \<open>close\<close> with it succeeds and stores behind the arrays.
\<close>

theorem socket_library_safe:
  assumes "sock_run S w0 w" "sock_inv w0"
  shows "(8 \<notin> S \<longrightarrow> \<not> outside w \<and> length (sock_remained_size w) = 8 \<and> length (sock_pack_info w) = 8 \<and>
      (\<exists>p w'. pick_port 0 w = (p, w') \<and> 0xC000 \<le> p \<and> p < 0xFFF0 \<and> sock_inv w')) \<and>
    (\<forall>r b w'. sock_recv sn len w = Some (r, b, w') \<longrightarrow> length b \<le> unat len) \<and>
    (\<forall>r d w'. sock_recvfrom sn len w = Some (r, d, w') \<longrightarrow> length (dg_data d) \<le> unat len \<and> (\<forall>a. dg_addr d = Some a \<longrightarrow> length a = 4)) \<and>
    (\<forall>r w'. sock_close 8 w = Some (r, w') \<longrightarrow> r = SOCK_OK \<and> outside w')"
proof -
  have "\<not> outside w \<and> length (sock_remained_size w) = 8 \<and> length (sock_pack_info w) = 8 \<and>
      (\<exists>p w'. pick_port 0 w = (p, w') \<and> 0xC000 \<le> p \<and> p < 0xFFF0 \<and> sock_inv w')" if "8 \<notin> S"
  proof -
    have w: "sock_inv w" using sock_run_inv [OF assms(1) that assms(2)] .
    obtain p y where p: "pick_port 0 w = (p, y)" by (cases "pick_port 0 w")
    show ?thesis using w p pick_port_inv(1,3) [OF p w] by (simp add: sock_inv_def arrays_ok_def WIZCHIP_SOCK_NUM_def SOCK_ANY_PORT_NUM_def)
  qed
  then show ?thesis using sock_recv_stores sock_recvfrom_stores close_eight by blast
qed

lemma wiz_start_inv: "sock_inv (wiz_start as)"
  by (simp add: sock_inv_def arrays_ok_def wiz_start_def SOCK_ANY_PORT_NUM_def WIZCHIP_SOCK_NUM_def)

lemma close_demo: "map_option fst (sock_close 2 (wiz_start [0, 0])) = Some 1" "map_option fst (sock_close 8 (wiz_start [0, 0])) = Some 1"
  by code_simp+

theorem socket_library_safe_witness:
  "(\<exists>w. sock_close 2 (wiz_start [0, 0]) = Some (1, w) \<and> \<not> outside w \<and> length (sock_remained_size w) = 8) \<and>
   sock_run {200} (wiz_start []) (wiz_start []) \<and> sock_close 200 (wiz_start []) = Some (SOCKERR_SOCKNUM, wiz_start []) \<and>
   (\<exists>w. sock_close 8 (wiz_start [0, 0]) = Some (1, w) \<and> outside w)"
proof (intro conjI)
  obtain w where w: "sock_close 2 (wiz_start [0, 0]) = Some (1, w)" using close_demo(1) by auto
  then have run: "sock_run {2} (wiz_start [0, 0]) w" using sock_run.close [OF sock_run.start, of 2 "{2}"] by simp
  show "\<exists>w. sock_close 2 (wiz_start [0, 0]) = Some (1, w) \<and> \<not> outside w \<and> length (sock_remained_size w) = 8"
    using socket_library_safe [OF run wiz_start_inv] w by simp
  show "sock_run {200} (wiz_start []) (wiz_start [])" by (rule sock_run.start)
  show "sock_close 200 (wiz_start []) = Some (SOCKERR_SOCKNUM, wiz_start [])"
    by (rule number_refused) (simp add: sock_number_ok_def WIZCHIP_SOCK_NUM_def)
  obtain w where w: "sock_close 8 (wiz_start [0, 0]) = Some (1, w)" using close_demo(2) by auto
  then show "\<exists>w. sock_close 8 (wiz_start [0, 0]) = Some (1, w) \<and> outside w"
    using socket_library_safe [OF sock_run.start [of "{8}" "wiz_start [0, 0]"] wiz_start_inv] by blast
qed


section \<open>Checks that do not hold\<close>

text \<open>
  the check of the socket number refuses the numbers above 8 and nothing else: \<open>close\<close> with the number 8, which the chip does not have,
  succeeds and stores behind the arrays.
\<close>

theorem socket_number_check:
  "sock_close 8 w = Some (r, w') \<Longrightarrow> r = SOCK_OK \<and> outside w'"
  "8 < unat sn \<Longrightarrow> sock_close sn w = Some (SOCKERR_SOCKNUM, w)"
  using close_eight by (simp_all add: sock_close_def sock_number_ok_def WIZCHIP_SOCK_NUM_def)

theorem socket_number_check_witness:
  "(\<exists>w. sock_close 8 (wiz_start [0, 0]) = Some (SOCK_OK, w) \<and> outside w) \<and> sock_close 9 (wiz_start []) = Some (SOCKERR_SOCKNUM, wiz_start [])"
proof -
  obtain w where w: "sock_close 8 (wiz_start [0, 0]) = Some (1, w)" using close_demo(2) by auto
  then show ?thesis using socket_number_check(1) [OF w] socket_number_check(2) [of 9 "wiz_start []"] by simp
qed

lemma sendto_room_result: "sendto_room sn len w = Some y \<Longrightarrow> fst y \<in> {SOCKERR_SOCKCLOSED, SOCK_BUSY, SOCK_OK}"
  by (erule sendto_room.raw_induct [where P = "\<lambda>sn len w y. fst y \<in> {SOCKERR_SOCKCLOSED, SOCK_BUSY, SOCK_OK}", rotated])
    (fastforce simp: bind_eq_Some_conv split: if_split_asm)

lemma sendto_wait_result: "sendto_wait sn n w = Some y \<Longrightarrow> fst y \<in> {n, SOCKERR_TIMEOUT}"
  by (erule sendto_wait.raw_induct [where P = "\<lambda>sn n w y. fst y \<in> {n, SOCKERR_TIMEOUT}", rotated])
    (fastforce simp: bind_eq_Some_conv split: if_split_asm)

lemma sendto_tail_result:
  "do { (q, w2) \<leftarrow> sendto_room sn n w1;
     if q \<noteq> SOCK_OK then Some (q, w2)
     else do { w3 \<leftarrow> wiz_send_data sn b n w2; w4 \<leftarrow> command sn Sn_CR_SEND w3; sendto_wait sn (uint n) w4 } } = Some (r, y) \<Longrightarrow>
   r \<in> {SOCKERR_SOCKCLOSED, SOCK_BUSY, SOCKERR_TIMEOUT, uint n}"
  by (auto simp: bind_eq_Some_conv split: if_split_asm dest!: sendto_room_result sendto_wait_result)

lemma bind_pairE: "m \<bind> (\<lambda>(x, w). k x w) = Some y \<Longrightarrow> (\<And>x w. k x w = Some y \<Longrightarrow> P) \<Longrightarrow> P"
  by (cases m) auto

lemma sendto_data_result:
  assumes "sendto_data sn b len a port w = Some (r, y)"
  shows "r \<in> {SOCKERR_SOCKCLOSED, SOCK_BUSY, SOCKERR_TIMEOUT} \<or> (0 \<le> r \<and> r \<le> uint len)"
proof -
  obtain m w1 where "do { (q, w2) \<leftarrow> sendto_room sn (if len > ucast (m :: u32) then ucast m else len) w1;
     if q \<noteq> SOCK_OK then Some (q, w2)
     else do { w3 \<leftarrow> wiz_send_data sn b (if len > ucast m then ucast m else len) w2; w4 \<leftarrow> command sn Sn_CR_SEND w3;
       sendto_wait sn (uint (if len > ucast m then ucast m else len)) w4 } } = Some (r, y)"
    using assms unfolding sendto_data_def Let_def
    by (rule bind_pairE)
  then have "r \<in> {SOCKERR_SOCKCLOSED, SOCK_BUSY, SOCKERR_TIMEOUT, uint (if len > ucast m then ucast m else len)}" by (rule sendto_tail_result)
  moreover have "uint (if len > ucast m then ucast m else len) \<le> uint len" by (simp add: word_less_def)
  moreover have "0 \<le> uint (if len > ucast m then ucast m else len)" by (rule uint_ge_0)
  ultimately show ?thesis by blast
qed

text \<open>
  \<open>sendto\<close> never refuses a destination: its two checks compare a constant with itself, so the address 0.0.0.0 and the port 0, for which
  the errors exist, are sent to like any other.  What it returns is at most the length, or one of the other errors.
\<close>

theorem sendto_never_refuses:
  assumes "sock_sendto sn b len a port w = Some (r, w')"
  shows "r \<noteq> SOCKERR_IPINVALID \<and> r \<noteq> SOCKERR_PORTZERO \<and> r \<le> uint len"
proof -
  have z: "zero_check z e sn v = Some (x, v') \<Longrightarrow> x = None" for z e v x v'
    by (auto simp: zero_check_def bind_eq_Some_conv split: if_split_asm)
  have "r \<in> {SOCKERR_SOCKNUM, SOCKERR_SOCKMODE, SOCKERR_DATALEN, SOCKERR_SOCKSTATUS} \<or> (\<exists>v. sendto_data sn b len a port v = Some (r, w'))"
    using assms unfolding sock_sendto_def by (auto simp: bind_eq_Some_conv split: if_split_asm option.split_asm dest: z)
  then have "r \<in> {SOCKERR_SOCKNUM, SOCKERR_SOCKMODE, SOCKERR_DATALEN, SOCKERR_SOCKSTATUS} \<or>
      r \<in> {SOCKERR_SOCKCLOSED, SOCK_BUSY, SOCKERR_TIMEOUT} \<or> (0 \<le> r \<and> r \<le> uint len)"
    using sendto_data_result by blast
  moreover have "r \<in> {SOCKERR_SOCKNUM, SOCKERR_SOCKMODE, SOCKERR_DATALEN, SOCKERR_SOCKSTATUS} \<or>
      r \<in> {SOCKERR_SOCKCLOSED, SOCK_BUSY, SOCKERR_TIMEOUT} \<or> (0 \<le> r \<and> r \<le> k) \<Longrightarrow> 0 \<le> k \<Longrightarrow>
      r \<noteq> SOCKERR_IPINVALID \<and> r \<noteq> SOCKERR_PORTZERO \<and> r \<le> k" for k
    by (auto simp: SOCKERR_IPINVALID_def SOCKERR_PORTZERO_def SOCKERR_SOCKNUM_def SOCKERR_SOCKMODE_def
      SOCKERR_DATALEN_def SOCKERR_SOCKSTATUS_def SOCKERR_SOCKCLOSED_def SOCK_BUSY_def SOCKERR_TIMEOUT_def)
  ultimately show ?thesis by (metis uint_ge_0)
qed

lemma nowhere_demo:
  "map_option fst (sock_sendto 0 [7] 1 [0, 0, 0, 0] 0 (wiz_start [2, 2, 2, 0x22, 2, 8, 0, 8, 0, 0x22, 0, 0, 0, 0x10])) = Some 1"
  by code_simp

theorem sendto_never_refuses_witness:
  "\<exists>r w'. sock_sendto 0 [7] 1 [0, 0, 0, 0] 0 (wiz_start [2, 2, 2, 0x22, 2, 8, 0, 8, 0, 0x22, 0, 0, 0, 0x10]) = Some (r, w') \<and> r = 1 \<and>
     r \<noteq> SOCKERR_IPINVALID \<and> r \<noteq> SOCKERR_PORTZERO"
proof -
  obtain w' where w: "sock_sendto 0 [7] 1 [0, 0, 0, 0] 0 (wiz_start [2, 2, 2, 0x22, 2, 8, 0, 8, 0, 0x22, 0, 0, 0, 0x10]) = Some (1, w')"
    using nowhere_demo by auto
  then show ?thesis using sendto_never_refuses [OF w] by blast
qed


section \<open>Results\<close>

text \<open>
  C35: what a caller of \<open>recv\<close> can rely on, whatever the chip answers: the result is the number of the bytes stored, at most the length it
  has asked for, or one of the documented codes, and then nothing has been stored.
\<close>

theorem recv_result:
  assumes "sock_recv sn len w = Some (r, b, w')"
  shows "(r = int (length b) \<and> length b \<le> unat len) \<or>
    (b = [] \<and> r \<in> {SOCK_BUSY, SOCKERR_SOCKNUM, SOCKERR_SOCKMODE, SOCKERR_DATALEN, SOCKERR_SOCKSTATUS})"
  using assms by (rule recv_answers)

lemma recv_demo:
  "map_option (\<lambda>x. (fst x, fst (snd x))) (sock_recv 0 100 (wiz_start [0x21, 2, 0, 3, 0, 3, 0x17, 0xFF, 0xFE, 7, 8, 9, 0x40, 0])) = Some (3, [7, 8, 9])"
  by code_simp

theorem recv_result_witness:
  "\<exists>r b w'. sock_recv 0 100 (wiz_start [0x21, 2, 0, 3, 0, 3, 0x17, 0xFF, 0xFE, 7, 8, 9, 0x40, 0]) = Some (r, b, w') \<and> r = 3 \<and> length b \<le> 100"
proof -
  obtain w' where w: "sock_recv 0 100 (wiz_start [0x21, 2, 0, 3, 0, 3, 0x17, 0xFF, 0xFE, 7, 8, 9, 0x40, 0]) = Some (3, [7, 8, 9], w')"
    using recv_demo by auto
  then show ?thesis using recv_result [OF w] by auto
qed

end
