(* ===== verification/Wizchip_Conf.thy ===== *)
theory Wizchip_Conf
  imports Wiz_Safety
begin

text \<open>
  The configuration of the chip, \<open>Middlewares/Eth/wizchip_conf.c\<close> in its variant for the W5500: reset, buffer sizes, interrupts, the
  physical layer, the network parameters.
\<close>

section \<open>Common registers\<close>

definition MR :: u32 where "MR = WIZCHIP_CREG 0x00"
definition GAR :: u32 where "GAR = WIZCHIP_CREG 0x01"
definition SUBR :: u32 where "SUBR = WIZCHIP_CREG 0x05"
definition SHAR :: u32 where "SHAR = WIZCHIP_CREG 0x09"
definition INTLEVEL :: u32 where "INTLEVEL = WIZCHIP_CREG 0x13"
definition IR :: u32 where "IR = WIZCHIP_CREG 0x15"
definition IMR :: u32 where "IMR = WIZCHIP_CREG 0x16"
definition SIR :: u32 where "SIR = WIZCHIP_CREG 0x17"
definition SIMR :: u32 where "SIMR = WIZCHIP_CREG 0x18"
definition RTR :: u32 where "RTR = WIZCHIP_CREG 0x19"
definition RCR :: u32 where "RCR = WIZCHIP_CREG 0x1B"
definition PHYCFGR :: u32 where "PHYCFGR = WIZCHIP_CREG 0x2E"

lemmas common_regs = MR_def GAR_def SUBR_def SHAR_def SIPR_def INTLEVEL_def IR_def IMR_def SIR_def SIMR_def RTR_def RCR_def PHYCFGR_def

definition MR_RST :: u8 where "MR_RST = 0x80"

definition setMR :: "u8 \<Rightarrow> wiz \<Rightarrow> wiz" where "setMR = WIZCHIP_WRITE MR"
definition getMR :: "wiz \<Rightarrow> (u8 \<times> wiz) option" where "getMR = WIZCHIP_READ MR"
definition setGAR :: "bytes \<Rightarrow> wiz \<Rightarrow> wiz" where "setGAR b = WIZCHIP_WRITE_BUF GAR b 4"
definition getGAR :: "wiz \<Rightarrow> (bytes \<times> wiz) option" where "getGAR = WIZCHIP_READ_BUF GAR 4"
definition setSUBR :: "bytes \<Rightarrow> wiz \<Rightarrow> wiz" where "setSUBR b = WIZCHIP_WRITE_BUF SUBR b 4"
definition getSUBR :: "wiz \<Rightarrow> (bytes \<times> wiz) option" where "getSUBR = WIZCHIP_READ_BUF SUBR 4"
definition setSHAR :: "bytes \<Rightarrow> wiz \<Rightarrow> wiz" where "setSHAR b = WIZCHIP_WRITE_BUF SHAR b 6"
definition getSHAR :: "wiz \<Rightarrow> (bytes \<times> wiz) option" where "getSHAR = WIZCHIP_READ_BUF SHAR 6"
definition setSIPR :: "bytes \<Rightarrow> wiz \<Rightarrow> wiz" where "setSIPR b = WIZCHIP_WRITE_BUF SIPR b 4"
definition setINTLEVEL :: "u16 \<Rightarrow> wiz \<Rightarrow> wiz" where "setINTLEVEL = write16 INTLEVEL"
definition getINTLEVEL :: "wiz \<Rightarrow> (u16 \<times> wiz) option" where "getINTLEVEL = read16 INTLEVEL"
definition setIR :: "u8 \<Rightarrow> wiz \<Rightarrow> wiz" where "setIR v = WIZCHIP_WRITE IR (v AND 0xF0)"
definition getIR :: "wiz \<Rightarrow> (u8 \<times> wiz) option" where "getIR w = map_option (\<lambda>(v, w1). (v AND 0xF0, w1)) (WIZCHIP_READ IR w)"
definition setIMR :: "u8 \<Rightarrow> wiz \<Rightarrow> wiz" where "setIMR = WIZCHIP_WRITE IMR"
definition getIMR :: "wiz \<Rightarrow> (u8 \<times> wiz) option" where "getIMR = WIZCHIP_READ IMR"
definition setSIR :: "u8 \<Rightarrow> wiz \<Rightarrow> wiz" where "setSIR = WIZCHIP_WRITE SIR"
definition getSIR :: "wiz \<Rightarrow> (u8 \<times> wiz) option" where "getSIR = WIZCHIP_READ SIR"
definition setSIMR :: "u8 \<Rightarrow> wiz \<Rightarrow> wiz" where "setSIMR = WIZCHIP_WRITE SIMR"
definition getSIMR :: "wiz \<Rightarrow> (u8 \<times> wiz) option" where "getSIMR = WIZCHIP_READ SIMR"
definition setRTR :: "u16 \<Rightarrow> wiz \<Rightarrow> wiz" where "setRTR = write16 RTR"
definition getRTR :: "wiz \<Rightarrow> (u16 \<times> wiz) option" where "getRTR = read16 RTR"
definition setRCR :: "u8 \<Rightarrow> wiz \<Rightarrow> wiz" where "setRCR = WIZCHIP_WRITE RCR"
definition getRCR :: "wiz \<Rightarrow> (u8 \<times> wiz) option" where "getRCR = WIZCHIP_READ RCR"
definition setPHYCFGR :: "u8 \<Rightarrow> wiz \<Rightarrow> wiz" where "setPHYCFGR = WIZCHIP_WRITE PHYCFGR"
definition getPHYCFGR :: "wiz \<Rightarrow> (u8 \<times> wiz) option" where "getPHYCFGR = WIZCHIP_READ PHYCFGR"
definition setSn_RXBUF_SIZE :: "u8 \<Rightarrow> u8 \<Rightarrow> wiz \<Rightarrow> wiz" where "setSn_RXBUF_SIZE sn = WIZCHIP_WRITE (Sn_RXBUF_SIZE sn)"
definition setSn_TXBUF_SIZE :: "u8 \<Rightarrow> u8 \<Rightarrow> wiz \<Rightarrow> wiz" where "setSn_TXBUF_SIZE sn = WIZCHIP_WRITE (Sn_TXBUF_SIZE sn)"

section \<open>Reset and buffer sizes\<close>

definition wizchip_sw_reset :: "wiz \<Rightarrow> wiz option" where
  "wizchip_sw_reset w = do {
     (mac, w1) \<leftarrow> getSHAR w;
     (gw, w2) \<leftarrow> getGAR w1;
     (sn, w3) \<leftarrow> getSUBR w2;
     (sip, w4) \<leftarrow> getSIPR w3;
     (_, w5) \<leftarrow> getMR (setMR MR_RST w4);
     Some (setSIPR sip (setSUBR sn (setGAR gw (setSHAR mac w5)))) }"

text \<open>The sum of the sizes is kept in an \<open>int8_t\<close> and compared as a signed number after every element.\<close>

fun sizes_ok :: "u8 \<Rightarrow> bytes \<Rightarrow> bool" where
  "sizes_ok tmp [] \<longleftrightarrow> True"
| "sizes_ok tmp (x # xs) \<longleftrightarrow> sint (tmp + x) \<le> 16 \<and> sizes_ok (tmp + x) xs"

definition set_sizes :: "(u8 \<Rightarrow> u8 \<Rightarrow> wiz \<Rightarrow> wiz) \<Rightarrow> bytes \<Rightarrow> wiz \<Rightarrow> wiz" where
  "set_sizes f sizes w = fold (\<lambda>i. f (of_nat i) (sizes ! i)) [0..<WIZCHIP_SOCK_NUM] w"

definition sizes_of :: "bytes option \<Rightarrow> bytes" where
  "sizes_of b = (case b of None \<Rightarrow> [] | Some b \<Rightarrow> b)"

text \<open>The receive sizes that are set are the transmit sizes; only the check reads \<open>rxsize\<close>.\<close>

definition wizchip_init :: "bytes option \<Rightarrow> bytes option \<Rightarrow> wiz \<Rightarrow> sock_result" where
  "wizchip_init txsize rxsize w = do {
     w1 \<leftarrow> wizchip_sw_reset w;
     let tx = sizes_of txsize;
     let rx = sizes_of rxsize;
     let w2 = (if txsize = None then w1 else need WIZCHIP_SOCK_NUM tx w1);
     if txsize \<noteq> None \<and> \<not> sizes_ok 0 (take WIZCHIP_SOCK_NUM tx) then Some (-1, w2)
     else (let w3 = (if txsize = None then w2 else set_sizes setSn_TXBUF_SIZE tx w2);
               w4 = (if rxsize = None then w3 else need WIZCHIP_SOCK_NUM rx w3)
           in if rxsize \<noteq> None \<and> \<not> sizes_ok 0 (take WIZCHIP_SOCK_NUM rx) then Some (-1, w4)
              else if rxsize = None then Some (0, w4)
              else Some (0, set_sizes setSn_RXBUF_SIZE tx (need WIZCHIP_SOCK_NUM tx w4))) }"

section \<open>Interrupts\<close>

definition wizchip_clrinterrupt :: "u16 \<Rightarrow> wiz \<Rightarrow> wiz" where
  "wizchip_clrinterrupt intr w = setSIR (ucast (drop_bit 8 intr)) (setIR (ucast intr) w)"

definition wizchip_getinterrupt :: "wiz \<Rightarrow> (u16 \<times> wiz) option" where
  "wizchip_getinterrupt w = do {
     (ir, w1) \<leftarrow> getIR w;
     (sir, w2) \<leftarrow> getSIR w1;
     Some (push_bit 8 (ucast sir) + ucast ir, w2) }"

definition wizchip_setinterruptmask :: "u16 \<Rightarrow> wiz \<Rightarrow> wiz" where
  "wizchip_setinterruptmask intr w = setSIMR (ucast (drop_bit 8 intr)) (setIMR (ucast intr) w)"

definition wizchip_getinterruptmask :: "wiz \<Rightarrow> (u16 \<times> wiz) option" where
  "wizchip_getinterruptmask w = do {
     (imr, w1) \<leftarrow> getIMR w;
     (simr, w2) \<leftarrow> getSIMR w1;
     Some (push_bit 8 (ucast simr) + ucast imr, w2) }"

section \<open>The physical layer\<close>

definition PHYCFGR_RST :: u8 where "PHYCFGR_RST = 0x7F"
definition PHYCFGR_OPMD :: u8 where "PHYCFGR_OPMD = 0x40"
definition PHYCFGR_OPMDC_ALLA :: u8 where "PHYCFGR_OPMDC_ALLA = 0x38"
definition PHYCFGR_OPMDC_PDOWN :: u8 where "PHYCFGR_OPMDC_PDOWN = 0x30"
definition PHYCFGR_OPMDC_100FA :: u8 where "PHYCFGR_OPMDC_100FA = 0x20"
definition PHYCFGR_OPMDC_100F :: u8 where "PHYCFGR_OPMDC_100F = 0x18"
definition PHYCFGR_OPMDC_100H :: u8 where "PHYCFGR_OPMDC_100H = 0x10"
definition PHYCFGR_OPMDC_10F :: u8 where "PHYCFGR_OPMDC_10F = 0x08"
definition PHYCFGR_OPMDC_10H :: u8 where "PHYCFGR_OPMDC_10H = 0x00"

lemmas phy_codes = PHYCFGR_RST_def PHYCFGR_OPMD_def PHYCFGR_OPMDC_ALLA_def PHYCFGR_OPMDC_PDOWN_def PHYCFGR_OPMDC_100FA_def
  PHYCFGR_OPMDC_100F_def PHYCFGR_OPMDC_100H_def PHYCFGR_OPMDC_10F_def PHYCFGR_OPMDC_10H_def

record wiz_PhyConf =
  phy_by :: u8
  phy_mode :: u8
  phy_speed :: u8
  phy_duplex :: u8

definition wizphy_getphylink :: "wiz \<Rightarrow> sock_result" where
  "wizphy_getphylink w = do { (v, w1) \<leftarrow> getPHYCFGR w; Some (if v AND 1 \<noteq> 0 then 1 else 0, w1) }"

definition wizphy_getphypmode :: "wiz \<Rightarrow> sock_result" where
  "wizphy_getphypmode w = do {
     (v, w1) \<leftarrow> getPHYCFGR w;
     Some (if v AND PHYCFGR_OPMDC_ALLA = PHYCFGR_OPMDC_PDOWN then 1 else 0, w1) }"

definition wizphy_reset :: "wiz \<Rightarrow> wiz option" where
  "wizphy_reset w = do {
     (v, w1) \<leftarrow> getPHYCFGR w;
     (v2, w2) \<leftarrow> getPHYCFGR (setPHYCFGR (v AND PHYCFGR_RST) w1);
     Some (setPHYCFGR (v2 OR NOT PHYCFGR_RST) w2) }"

text \<open>\<open>PHY_CONFBY_SW\<close>, \<open>PHY_MODE_AUTONEGO\<close>, \<open>PHY_SPEED_100\<close> and \<open>PHY_DUPLEX_FULL\<close> are 1.\<close>

definition phyconf_code :: "wiz_PhyConf \<Rightarrow> u8" where
  "phyconf_code c =
     (if phy_by c = 1 then PHYCFGR_OPMD else 0) OR
     (if phy_mode c = 1 then PHYCFGR_OPMDC_ALLA
      else if phy_duplex c = 1 then (if phy_speed c = 1 then PHYCFGR_OPMDC_100F else PHYCFGR_OPMDC_10F)
      else (if phy_speed c = 1 then PHYCFGR_OPMDC_100H else PHYCFGR_OPMDC_10H))"

definition wizphy_setphyconf :: "wiz_PhyConf \<Rightarrow> wiz \<Rightarrow> wiz option" where
  "wizphy_setphyconf c w = wizphy_reset (setPHYCFGR (phyconf_code c) w)"

definition phyconf_of :: "u8 \<Rightarrow> wiz_PhyConf" where
  "phyconf_of v =
     (let op = v AND PHYCFGR_OPMDC_ALLA in
      \<lparr>phy_by = if v AND PHYCFGR_OPMD \<noteq> 0 then 1 else 0,
       phy_mode = if op = PHYCFGR_OPMDC_ALLA \<or> op = PHYCFGR_OPMDC_100FA then 1 else 0,
       phy_speed = if op \<in> {PHYCFGR_OPMDC_100FA, PHYCFGR_OPMDC_100F, PHYCFGR_OPMDC_100H} then 1 else 0,
       phy_duplex = if op \<in> {PHYCFGR_OPMDC_100FA, PHYCFGR_OPMDC_100F, PHYCFGR_OPMDC_10F} then 1 else 0\<rparr>)"

definition wizphy_getphyconf :: "wiz \<Rightarrow> (wiz_PhyConf \<times> wiz) option" where
  "wizphy_getphyconf w = do { (v, w1) \<leftarrow> getPHYCFGR w; Some (phyconf_of v, w1) }"

definition wizphy_getphystat :: "wiz_PhyConf \<Rightarrow> wiz \<Rightarrow> (wiz_PhyConf \<times> wiz) option" where
  "wizphy_getphystat c w = do {
     (v, w1) \<leftarrow> getPHYCFGR w;
     Some (c\<lparr>phy_duplex := if v AND 4 \<noteq> 0 then 1 else 0, phy_speed := if v AND 2 \<noteq> 0 then 1 else 0\<rparr>, w1) }"

definition wizphy_setphypmode :: "u8 \<Rightarrow> wiz \<Rightarrow> sock_result" where
  "wizphy_setphypmode pmode w = do {
     (v, w1) \<leftarrow> getPHYCFGR w;
     if v AND PHYCFGR_OPMD = 0 then Some (-1, w1)
     else do {
       let op = (if pmode = 1 then PHYCFGR_OPMDC_PDOWN else PHYCFGR_OPMDC_ALLA);
       w2 \<leftarrow> wizphy_reset (setPHYCFGR ((v AND NOT PHYCFGR_OPMDC_ALLA) OR op) w1);
       (v2, w3) \<leftarrow> getPHYCFGR w2;
       Some (if v2 AND op \<noteq> 0 then 0 else -1, w3) } }"

section \<open>Network parameters\<close>

record wiz_NetInfo =
  ni_mac :: bytes
  ni_ip :: bytes
  ni_sn :: bytes
  ni_gw :: bytes
  ni_dns :: bytes
  ni_dhcp :: u8

text \<open>The variables \<open>_DNS_\<close> and \<open>_DHCP_\<close>.\<close>

record netvars =
  DNS_var :: bytes
  DHCP_var :: u8

definition wizchip_setnetinfo :: "wiz_NetInfo \<Rightarrow> netvars \<times> wiz \<Rightarrow> netvars \<times> wiz" where
  "wizchip_setnetinfo p s =
     (\<lparr>DNS_var = take 4 (ni_dns p), DHCP_var = ni_dhcp p\<rparr>,
      setSIPR (ni_ip p) (setSUBR (ni_sn p) (setGAR (ni_gw p) (setSHAR (ni_mac p) (snd s)))))"

definition wizchip_getnetinfo :: "netvars \<Rightarrow> wiz \<Rightarrow> (wiz_NetInfo \<times> wiz) option" where
  "wizchip_getnetinfo v w = do {
     (mac, w1) \<leftarrow> getSHAR w;
     (gw, w2) \<leftarrow> getGAR w1;
     (sn, w3) \<leftarrow> getSUBR w2;
     (ip, w4) \<leftarrow> getSIPR w3;
     Some (\<lparr>ni_mac = mac, ni_ip = ip, ni_sn = sn, ni_gw = gw, ni_dns = DNS_var v, ni_dhcp = DHCP_var v\<rparr>, w4) }"

text \<open>\<open>NM_WAKEONLAN\<close>, \<open>NM_PPPOE\<close>, \<open>NM_PINGBLOCK\<close> and \<open>NM_FORCEARP\<close>.\<close>

definition NM_ALL :: u8 where "NM_ALL = 0x20 OR 0x08 OR 0x10 OR 0x02"

definition wizchip_setnetmode :: "u8 \<Rightarrow> wiz \<Rightarrow> sock_result" where
  "wizchip_setnetmode netmode w =
     (if netmode AND NOT NM_ALL \<noteq> 0 then Some (-1, w)
      else do { (v, w1) \<leftarrow> getMR w; Some (0, setMR (v OR netmode) w1) })"

definition wizchip_getnetmode :: "wiz \<Rightarrow> (u8 \<times> wiz) option" where
  "wizchip_getnetmode = getMR"

record wiz_NetTimeout =
  retry_cnt :: u8
  time_100us :: u16

definition wizchip_settimeout :: "wiz_NetTimeout \<Rightarrow> wiz \<Rightarrow> wiz" where
  "wizchip_settimeout t w = setRTR (time_100us t) (setRCR (retry_cnt t) w)"

definition wizchip_gettimeout :: "wiz \<Rightarrow> (wiz_NetTimeout \<times> wiz) option" where
  "wizchip_gettimeout w = do {
     (r, w1) \<leftarrow> getRCR w;
     (t, w2) \<leftarrow> getRTR w1;
     Some (\<lparr>retry_cnt = r, time_100us = t\<rparr>, w2) }"

section \<open>Requests\<close>

text \<open>
  The requests of \<open>ctlwizchip\<close> and \<open>ctlnetwork\<close> with what their argument holds, and what is stored through it.  A physical layer
  configuration is returned as it is; \<open>CW_GET_PHYSTATUS\<close> does nothing.
\<close>

datatype ctlwizchip_type = CW_RESET_WIZCHIP | CW_INIT_WIZCHIP "bytes option" | CW_CLR_INTERRUPT u16 | CW_GET_INTERRUPT | CW_SET_INTRMASK u16
  | CW_GET_INTRMASK | CW_SET_INTRTIME u16 | CW_GET_INTRTIME | CW_GET_ID | CW_RESET_PHY | CW_SET_PHYCONF wiz_PhyConf | CW_GET_PHYCONF
  | CW_GET_PHYSTATUS | CW_SET_PHYPOWMODE u8 | CW_GET_PHYPOWMODE | CW_GET_PHYLINK

datatype ctl_reply = No_reply | Byte u8 | Half u16 | Bytes bytes | Phy wiz_PhyConf | Netinfo wiz_NetInfo | Timeout wiz_NetTimeout

definition ok_reply :: "ctl_reply \<Rightarrow> wiz option \<Rightarrow> (int \<times> ctl_reply \<times> wiz) option" where
  "ok_reply r m = map_option (\<lambda>w. (0, r, w)) m"

definition replied :: "('a \<Rightarrow> ctl_reply) \<Rightarrow> ('a \<times> wiz) option \<Rightarrow> (int \<times> ctl_reply \<times> wiz) option" where
  "replied f m = map_option (\<lambda>(v, w). (0, f v, w)) m"

definition ctlwizchip :: "ctlwizchip_type \<Rightarrow> wiz \<Rightarrow> (int \<times> ctl_reply \<times> wiz) option" where
  "ctlwizchip c w =
     (case c of
        CW_RESET_WIZCHIP \<Rightarrow> ok_reply No_reply (wizchip_sw_reset w)
      | CW_INIT_WIZCHIP arg \<Rightarrow>
          map_option (\<lambda>(r, w1). (r, No_reply, w1)) (wizchip_init (map_option (take WIZCHIP_SOCK_NUM) arg) (map_option (drop WIZCHIP_SOCK_NUM) arg) w)
      | CW_CLR_INTERRUPT i \<Rightarrow> ok_reply No_reply (Some (wizchip_clrinterrupt i w))
      | CW_GET_INTERRUPT \<Rightarrow> replied Half (wizchip_getinterrupt w)
      | CW_SET_INTRMASK i \<Rightarrow> ok_reply No_reply (Some (wizchip_setinterruptmask i w))
      | CW_GET_INTRMASK \<Rightarrow> replied Half (wizchip_getinterruptmask w)
      | CW_SET_INTRTIME t \<Rightarrow> ok_reply No_reply (Some (setINTLEVEL t w))
      | CW_GET_INTRTIME \<Rightarrow> replied Half (getINTLEVEL w)
      | CW_GET_ID \<Rightarrow> ok_reply (Bytes (str_bytes ''W5500'' @ [0])) (Some w)
      | CW_RESET_PHY \<Rightarrow> ok_reply No_reply (wizphy_reset w)
      | CW_SET_PHYCONF p \<Rightarrow> ok_reply No_reply (wizphy_setphyconf p w)
      | CW_GET_PHYCONF \<Rightarrow> replied Phy (wizphy_getphyconf w)
      | CW_GET_PHYSTATUS \<Rightarrow> ok_reply No_reply (Some w)
      | CW_SET_PHYPOWMODE m \<Rightarrow> map_option (\<lambda>(r, w1). (r, No_reply, w1)) (wizphy_setphypmode m w)
      | CW_GET_PHYPOWMODE \<Rightarrow> replied (\<lambda>r. Byte (word_of_int r)) (wizphy_getphypmode w)
      | CW_GET_PHYLINK \<Rightarrow> replied (\<lambda>r. Byte (word_of_int r)) (wizphy_getphylink w))"

datatype ctlnetwork_type = CN_SET_NETINFO wiz_NetInfo | CN_GET_NETINFO | CN_SET_NETMODE u8 | CN_GET_NETMODE | CN_SET_TIMEOUT wiz_NetTimeout
  | CN_GET_TIMEOUT

definition ctlnetwork :: "ctlnetwork_type \<Rightarrow> netvars \<times> wiz \<Rightarrow> (int \<times> ctl_reply \<times> netvars \<times> wiz) option" where
  "ctlnetwork c s =
     (let keep = map_option (\<lambda>(r, y, w). (r, y, fst s, w)) in
      case c of
        CN_SET_NETINFO p \<Rightarrow> Some (0, No_reply, wizchip_setnetinfo p s)
      | CN_GET_NETINFO \<Rightarrow> keep (replied Netinfo (wizchip_getnetinfo (fst s) (snd s)))
      | CN_SET_NETMODE m \<Rightarrow> keep (map_option (\<lambda>(r, w1). (r, No_reply, w1)) (wizchip_setnetmode m (snd s)))
      | CN_GET_NETMODE \<Rightarrow> keep (replied Byte (wizchip_getnetmode (snd s)))
      | CN_SET_TIMEOUT t \<Rightarrow> keep (ok_reply No_reply (Some (wizchip_settimeout t (snd s))))
      | CN_GET_TIMEOUT \<Rightarrow> keep (replied Timeout (wizchip_gettimeout (snd s))))"

section \<open>Buffer sizes\<close>

lemma sizes_ok_exact:
  "\<forall>x \<in> set xs. unat x \<le> 111 \<Longrightarrow> unat t \<le> 16 \<Longrightarrow> sizes_ok t xs \<longleftrightarrow> unat t + sum_list (map unat xs) \<le> 16"
proof (induction xs arbitrary: t)
  case (Cons x xs)
  have u: "unat (t + x) = unat t + unat x" using Cons.prems by (simp add: unat_word_ariths)
  have "sint (t + x) = int (unat (t + x))"
    using u Cons.prems by (simp add: sint_uint signed_take_bit_eq_if_positive uint_nat bit_iff_odd unat_word_ariths take_bit_int_eq_self del: of_nat_unat)
  then have "sint (t + x) \<le> 16 \<longleftrightarrow> unat (t + x) \<le> 16" by linarith
  then show ?case using Cons.IH [of "t + x"] Cons.prems u unfolding sizes_ok.simps(2) by (cases "unat (t + x) \<le> 16") (simp_all add: add.assoc)
qed simp

text \<open>
  the check of the buffer sizes is the test that they sum up to at most the 16 KByte the chip has, as long as no size is above 111; a
  larger one can wrap the \<open>int8_t\<close> around, and any first size from 128 on passes the comparison.
\<close>

theorem buffer_size_check:
  "((\<forall>x \<in> set xs. unat x \<le> 111) \<longrightarrow> (sizes_ok 0 xs \<longleftrightarrow> sum_list (map unat xs) \<le> 16)) \<and>
   (128 \<le> unat y \<longrightarrow> sizes_ok 0 (y # replicate n 0))"
proof (intro conjI impI)
  show "sizes_ok 0 xs \<longleftrightarrow> sum_list (map unat xs) \<le> 16" if "\<forall>x \<in> set xs. unat x \<le> 111"
    using sizes_ok_exact [of xs 0] that by simp
  show "sizes_ok 0 (y # replicate n 0)" if y: "128 \<le> unat y"
  proof -
    have "unat y < 256" using unsigned_less [of y] by simp
    then have "unat y div 128 = 1" using y by linarith
    then have "bit (unat y) 7" by (simp add: bit_iff_odd)
    then have "bit y (LENGTH(8) - Suc 0)" by (simp add: bit_unsigned_iff)
    then have "sint y < 0" by (rule iffD1 [OF bit_last_iff])
    moreover have "sint z \<le> 16 \<Longrightarrow> sizes_ok z (replicate n 0)" for z by (induction n) simp_all
    ultimately show ?thesis by simp
  qed
qed

theorem buffer_size_check_witness:
  "sizes_ok 0 (replicate 8 2) \<and> \<not> sizes_ok 0 [8, 8, 1] \<and> sizes_ok 0 (200 # replicate 7 0)"
  using buffer_size_check [of "replicate 8 2" 200 7] buffer_size_check [of "[8, 8, 1]"]
  by (simp add: sum_list_replicate)

section \<open>Network parameters come back\<close>

text \<open>The registers as memory, one byte per offset: what they hold after a list of writes, and what a reading of them gives.\<close>

definition store_bytes :: "u32 \<Rightarrow> bytes \<Rightarrow> (u32 \<Rightarrow> u8) \<Rightarrow> u32 \<Rightarrow> u8" where
  "store_bytes a b m = fold (\<lambda>i m. m(WIZCHIP_OFFSET_INC a (of_nat i) := b ! i)) [0..<length b] m"

definition load_bytes :: "u32 \<Rightarrow> nat \<Rightarrow> (u32 \<Rightarrow> u8) \<Rightarrow> bytes" where
  "load_bytes a n m = map (\<lambda>i. m (WIZCHIP_OFFSET_INC a (of_nat i))) [0..<n]"

definition registers_after :: "(u32 \<times> bytes) list \<Rightarrow> (u32 \<Rightarrow> u8) \<Rightarrow> u32 \<Rightarrow> u8" where
  "registers_after ws m = fold (\<lambda>(a, b). store_bytes a b) ws m"

lemma addr_ok_common: "addr_ok MR" "addr_ok SHAR" "addr_ok GAR" "addr_ok SUBR" "addr_ok SIPR" "addr_ok PHYCFGR"
  by (simp_all add: addr_ok_def common_regs WIZCHIP_CREG_def bit_push_bit_iff push_bit_eq_mult word_less_nat_alt)

definition netinfo_writes :: "wiz_NetInfo \<Rightarrow> (u32 \<times> bytes) list" where
  "netinfo_writes p = [(SHAR, ni_mac p), (GAR, ni_gw p), (SUBR, ni_sn p), (SIPR, ni_ip p)]"

definition netinfo_wf :: "wiz_NetInfo \<Rightarrow> bool" where
  "netinfo_wf p \<longleftrightarrow> length (ni_mac p) = 6 \<and> length (ni_ip p) = 4 \<and> length (ni_sn p) = 4 \<and> length (ni_gw p) = 4 \<and> length (ni_dns p) = 4"

lemma turn_set_common:
  "length b = 6 \<Longrightarrow> turn w [] [(SHAR, b)] (setSHAR b w)" "length b = 4 \<Longrightarrow> turn w [] [(GAR, b)] (setGAR b w)"
  "length b = 4 \<Longrightarrow> turn w [] [(SUBR, b)] (setSUBR b w)" "length b = 4 \<Longrightarrow> turn w [] [(SIPR, b)] (setSIPR b w)"
  "turn w [] [(MR, [v])] (setMR v w)" "turn w [] [(PHYCFGR, [v])] (setPHYCFGR v w)"
  using turn_write_buf [OF addr_ok_common(2), of 6 b w] turn_write_buf [OF addr_ok_common(3), of 4 b w]
    turn_write_buf [OF addr_ok_common(4), of 4 b w] turn_write_buf [OF addr_ok_common(5), of 4 b w]
    turn_write [OF addr_ok_common(1)] turn_write [OF addr_ok_common(6)]
  by (simp_all add: setSHAR_def setGAR_def setSUBR_def setSIPR_def setMR_def setPHYCFGR_def)

lemma turn_set_addresses:
  assumes "length mac = 6" "length gw = 4" "length sn = 4" "length ip = 4"
  shows "turn w [] [(SHAR, mac), (GAR, gw), (SUBR, sn), (SIPR, ip)] (setSIPR ip (setSUBR sn (setGAR gw (setSHAR mac w))))"
  using turn_trans [OF turn_trans [OF turn_trans [OF turn_set_common(1) turn_set_common(2)] turn_set_common(3)] turn_set_common(4)] assms
  by fastforce

lemma setnetinfo_turn:
  assumes "netinfo_wf p"
  shows "turn w [] (netinfo_writes p) (snd (wizchip_setnetinfo p (v, w)))"
  using assms turn_set_addresses [of "ni_mac p" "ni_gw p" "ni_sn p" "ni_ip p"]
  by (simp add: wizchip_setnetinfo_def netinfo_writes_def netinfo_wf_def)

lemma getnetinfo_reads:
  assumes "answers w = mac @ gw @ sn @ ip @ r" "length mac = 6" "length gw = 4" "length sn = 4" "length ip = 4"
  shows "\<exists>w1. wizchip_getnetinfo v w = Some (\<lparr>ni_mac = mac, ni_ip = ip, ni_sn = sn, ni_gw = gw, ni_dns = DNS_var v, ni_dhcp = DHCP_var v\<rparr>, w1) \<and>
    turn w (mac @ gw @ sn @ ip) [] w1 \<and> answers w1 = r"
proof -
  obtain w1 where w1: "getSHAR w = Some (mac, w1)" "turn w mac [] w1" "answers w1 = gw @ sn @ ip @ r"
    using turn_read_buf [OF assms(1), of SHAR] assms(2) unfolding getSHAR_def by auto
  obtain w2 where w2: "getGAR w1 = Some (gw, w2)" "turn w1 gw [] w2" "answers w2 = sn @ ip @ r"
    using turn_read_buf [OF w1(3), of GAR] assms(3) unfolding getGAR_def by auto
  obtain w3 where w3: "getSUBR w2 = Some (sn, w3)" "turn w2 sn [] w3" "answers w3 = ip @ r"
    using turn_read_buf [OF w2(3), of SUBR] assms(4) unfolding getSUBR_def by auto
  obtain w4 where w4: "getSIPR w3 = Some (ip, w4)" "turn w3 ip [] w4" "answers w4 = r"
    using turn_read_buf [OF w3(3), of SIPR] assms(5) unfolding getSIPR_def by auto
  have "turn w (mac @ gw @ sn @ ip) ([] @ [] @ [] @ []) w4"
    by (intro turn_trans [OF w1(2)] turn_trans [OF w2(2)] turn_trans [OF w3(2)] w4(2))
  then show ?thesis using w1(1) w2(1) w3(1) w4(1,3) by (simp add: wizchip_getnetinfo_def)
qed

lemma list_of_four: "length xs = 4 \<Longrightarrow> \<exists>a b c d. xs = [a, b, c, d]"
  by (auto simp: numeral_eq_Suc length_Suc_conv)

lemma list_of_six: "length xs = 6 \<Longrightarrow> \<exists>a b c d e f. xs = [a, b, c, d, e, f]"
  by (auto simp: numeral_eq_Suc length_Suc_conv)

lemma registers_hold:
  assumes "netinfo_wf p"
  shows "load_bytes SHAR 6 (registers_after (netinfo_writes p) m) = ni_mac p" "load_bytes GAR 4 (registers_after (netinfo_writes p) m) = ni_gw p"
    "load_bytes SUBR 4 (registers_after (netinfo_writes p) m) = ni_sn p" "load_bytes SIPR 4 (registers_after (netinfo_writes p) m) = ni_ip p"
proof -
  obtain a b c d e f where mac: "ni_mac p = [a, b, c, d, e, f]" using assms list_of_six [of "ni_mac p"] by (auto simp: netinfo_wf_def)
  obtain g h i j where gw: "ni_gw p = [g, h, i, j]" using assms list_of_four [of "ni_gw p"] by (auto simp: netinfo_wf_def)
  obtain k l n q where sn: "ni_sn p = [k, l, n, q]" using assms list_of_four [of "ni_sn p"] by (auto simp: netinfo_wf_def)
  obtain r s t u where ip: "ni_ip p = [r, s, t, u]" using assms list_of_four [of "ni_ip p"] by (auto simp: netinfo_wf_def)
  note defs = load_bytes_def registers_after_def netinfo_writes_def store_bytes_def mac gw sn ip common_regs WIZCHIP_CREG_def WIZCHIP_OFFSET_INC_def
    push_bit_eq_mult upt_rec
  show "load_bytes SHAR 6 (registers_after (netinfo_writes p) m) = ni_mac p" "load_bytes GAR 4 (registers_after (netinfo_writes p) m) = ni_gw p"
    "load_bytes SUBR 4 (registers_after (netinfo_writes p) m) = ni_sn p" "load_bytes SIPR 4 (registers_after (netinfo_writes p) m) = ni_ip p"
    by (simp_all add: defs)
qed

text \<open>
  the network parameters that are set are read back: when the chip answers with what the registers hold after the writes, \<open>getnetinfo\<close>
  returns all that \<open>setnetinfo\<close> was given, the DNS address and the mode from the variables of the library.
\<close>

theorem netinfo_roundtrip:
  assumes "netinfo_wf p"
  shows "\<exists>ws v w1. wizchip_setnetinfo p (v0, w) = (v, w1) \<and> written (spi w1) = written (spi w) @ ws \<and>
    (\<forall>m r. let regs = registers_after ws m in
       \<exists>w2. wizchip_getnetinfo v (w1\<lparr>answers := load_bytes SHAR 6 regs @ load_bytes GAR 4 regs @ load_bytes SUBR 4 regs @ load_bytes SIPR 4 regs @ r\<rparr>) =
         Some (p, w2) \<and> answers w2 = r \<and> written (spi w2) = written (spi w1))"
proof -
  let ?v = "\<lparr>DNS_var = ni_dns p, DHCP_var = ni_dhcp p\<rparr>"
  obtain w1 where w1: "wizchip_setnetinfo p (v0, w) = (?v, w1)" using assms by (simp add: wizchip_setnetinfo_def netinfo_wf_def)
  have t: "turn w [] (netinfo_writes p) w1" using setnetinfo_turn [OF assms, of w v0] w1 by simp
  have "\<exists>w2. wizchip_getnetinfo ?v (w1\<lparr>answers := ni_mac p @ ni_gw p @ ni_sn p @ ni_ip p @ r\<rparr>) = Some (p, w2) \<and> answers w2 = r \<and>
      written (spi w2) = written (spi w1)" for r
    using getnetinfo_reads [of "w1\<lparr>answers := ni_mac p @ ni_gw p @ ni_sn p @ ni_ip p @ r\<rparr>" "ni_mac p" "ni_gw p" "ni_sn p" "ni_ip p" r ?v] assms
    by (auto simp: netinfo_wf_def dest: turn_written)
  then show ?thesis using w1 turn_written [OF t] unfolding Let_def by (intro exI [of _ "netinfo_writes p"] exI [of _ ?v] exI [of _ w1]) (simp add: registers_hold [OF assms])
qed

definition demo_info :: wiz_NetInfo where
  "demo_info = \<lparr>ni_mac = [0, 8, 220, 1, 2, 3], ni_ip = [192, 168, 1, 5], ni_sn = [255, 255, 255, 0], ni_gw = [192, 168, 1, 1], ni_dns = [8, 8, 8, 8], ni_dhcp = 2\<rparr>"

theorem netinfo_roundtrip_witness:
  "\<exists>ws v w1. wizchip_setnetinfo demo_info (\<lparr>DNS_var = [0, 0, 0, 0], DHCP_var = 0\<rparr>, wiz_start []) = (v, w1) \<and>
    (\<forall>m. let regs = registers_after ws m in
       \<exists>w2. wizchip_getnetinfo v (w1\<lparr>answers := load_bytes SHAR 6 regs @ load_bytes GAR 4 regs @ load_bytes SUBR 4 regs @ load_bytes SIPR 4 regs @ [7]\<rparr>) =
         Some (demo_info, w2) \<and> answers w2 = [7])"
proof -
  have "netinfo_wf demo_info" by (simp add: netinfo_wf_def demo_info_def)
  from netinfo_roundtrip [OF this, of "\<lparr>DNS_var = [0, 0, 0, 0], DHCP_var = 0\<rparr>" "wiz_start []"] show ?thesis
    unfolding Let_def by blast
qed

section \<open>Start\<close>

lemma sw_reset_turn:
  assumes "answers w = mac @ gw @ sn @ ip @ m # r" "length mac = 6" "length gw = 4" "length sn = 4" "length ip = 4"
  shows "\<exists>w1. wizchip_sw_reset w = Some w1 \<and> answers w1 = r \<and>
    turn w (mac @ gw @ sn @ ip @ [m]) ((MR, [MR_RST]) # [(SHAR, mac), (GAR, gw), (SUBR, sn), (SIPR, ip)]) w1"
proof -
  obtain w1 where w1: "getSHAR w = Some (mac, w1)" "turn w mac [] w1" "answers w1 = gw @ sn @ ip @ m # r"
    using turn_read_buf [OF assms(1), of SHAR] assms(2) unfolding getSHAR_def by auto
  obtain w2 where w2: "getGAR w1 = Some (gw, w2)" "turn w1 gw [] w2" "answers w2 = sn @ ip @ m # r"
    using turn_read_buf [OF w1(3), of GAR] assms(3) unfolding getGAR_def by auto
  obtain w3 where w3: "getSUBR w2 = Some (sn, w3)" "turn w2 sn [] w3" "answers w3 = ip @ m # r"
    using turn_read_buf [OF w2(3), of SUBR] assms(4) unfolding getSUBR_def by auto
  obtain w4 where w4: "getSIPR w3 = Some (ip, w4)" "turn w3 ip [] w4" "answers w4 = m # r"
    using turn_read_buf [OF w3(3), of SIPR] assms(5) unfolding getSIPR_def by auto
  have t5: "turn w4 [] [(MR, [MR_RST])] (setMR MR_RST w4)" by (rule turn_set_common)
  then have "answers (setMR MR_RST w4) = m # r" using turn_answers w4(3) by fastforce
  then obtain w5 where w5: "getMR (setMR MR_RST w4) = Some (m, w5)" "turn (setMR MR_RST w4) [m] [] w5" "answers w5 = r"
    using turn_read unfolding getMR_def by blast
  let ?w6 = "setSIPR ip (setSUBR sn (setGAR gw (setSHAR mac w5)))"
  have t6: "turn w5 [] [(SHAR, mac), (GAR, gw), (SUBR, sn), (SIPR, ip)] ?w6" using assms by (intro turn_set_addresses)
  have "turn w (mac @ gw @ sn @ ip @ [] @ [m] @ []) ([] @ [] @ [] @ [] @ [(MR, [MR_RST])] @ [] @ [(SHAR, mac), (GAR, gw), (SUBR, sn), (SIPR, ip)]) ?w6"
    by (intro turn_trans [OF w1(2)] turn_trans [OF w2(2)] turn_trans [OF w3(2)] turn_trans [OF w4(2)] turn_trans [OF t5] turn_trans [OF w5(2)] t6)
  moreover have "answers ?w6 = r" using turn_answers [OF t6] w5(3) by simp
  ultimately show ?thesis using w1(1) w2(1) w3(1) w4(1) w5(1) by (simp add: wizchip_sw_reset_def)
qed

lemma set_sizes_turn:
  assumes "\<And>sn v w. sn_ok sn \<Longrightarrow> turn w [] [(reg sn, [v])] (f sn v w)"
  shows "turn w [] (map (\<lambda>i. (reg (of_nat i), [sizes ! i])) [0..<WIZCHIP_SOCK_NUM]) (set_sizes f sizes w)"
proof -
  have "turn w [] (map (\<lambda>i. (reg (of_nat i), [sizes ! i])) [0..<n]) (fold (\<lambda>i. f (of_nat i) (sizes ! i)) [0..<n] w)" if "n \<le> 8" for n
    using that
  proof (induction n)
    case (Suc n)
    have "sn_ok (of_nat n)" using Suc.prems by (simp add: sn_ok_def WIZCHIP_SOCK_NUM_def unat_of_nat)
    with turn_trans [OF Suc.IH assms] Suc.prems show ?case by fastforce
  qed simp
  then show ?thesis unfolding set_sizes_def WIZCHIP_SOCK_NUM_def by simp
qed

lemma addr_ok_sizes [simp]: "addr_ok (Sn_TXBUF_SIZE sn)" "addr_ok (Sn_RXBUF_SIZE sn)"
  by (simp_all add: sn_regs addr_ok_sreg)

text \<open>
  the start of the chip resets it with its addresses kept and gives every socket its share of the memory, when the shares are within
  the 16 KByte of either direction.  The shares of the receive memory that are written are those of the transmit memory.
\<close>

theorem chip_start:
  assumes "answers w = mac @ gw @ sn @ ip @ m # r" "length mac = 6" "length gw = 4" "length sn = 4" "length ip = 4"
    and "length tx = 8" "length rx = 8" "sizes_ok 0 tx" "sizes_ok 0 rx" "\<not> outside w"
  shows "\<exists>w1. wizchip_init (Some tx) (Some rx) w = Some (0, w1) \<and> answers w1 = r \<and> \<not> outside w1 \<and>
    written (spi w1) = written (spi w) @ [(MR, [0x80]), (SHAR, mac), (GAR, gw), (SUBR, sn), (SIPR, ip)] @
      map (\<lambda>i. (Sn_TXBUF_SIZE (of_nat i), [tx ! i])) [0..<8] @ map (\<lambda>i. (Sn_RXBUF_SIZE (of_nat i), [tx ! i])) [0..<8]"
proof -
  obtain w1 where w1: "wizchip_sw_reset w = Some w1" "answers w1 = r"
    "turn w (mac @ gw @ sn @ ip @ [m]) ((MR, [MR_RST]) # [(SHAR, mac), (GAR, gw), (SUBR, sn), (SIPR, ip)]) w1"
    using sw_reset_turn [OF assms(1-5)] by blast
  let ?w2 = "set_sizes setSn_TXBUF_SIZE tx w1" let ?w3 = "set_sizes setSn_RXBUF_SIZE tx ?w2"
  have t2: "turn w1 [] (map (\<lambda>i. (Sn_TXBUF_SIZE (of_nat i), [tx ! i])) [0..<WIZCHIP_SOCK_NUM]) ?w2"
    by (rule set_sizes_turn) (simp add: setSn_TXBUF_SIZE_def turn_write)
  have t3: "turn ?w2 [] (map (\<lambda>i. (Sn_RXBUF_SIZE (of_nat i), [tx ! i])) [0..<WIZCHIP_SOCK_NUM]) ?w3"
    by (rule set_sizes_turn) (simp add: setSn_RXBUF_SIZE_def turn_write)
  have n: "need 8 b v = v" if "length b = 8" for b v using that by (simp add: need_def)
  have "wizchip_init (Some tx) (Some rx) w = Some (0, ?w3)"
    using w1(1) assms(6-9) n [OF assms(6)] n [OF assms(7)] by (simp add: wizchip_init_def sizes_of_def WIZCHIP_SOCK_NUM_def)
  moreover note turn_written [OF w1(3)] turn_written [OF t2] turn_written [OF t3] turn_answers [OF t2] turn_answers [OF t3]
    turn_vars(6) [OF turn_trans [OF turn_trans [OF w1(3) t2] t3]]
  ultimately show ?thesis using w1(2) assms(10) by (simp add: MR_RST_def WIZCHIP_SOCK_NUM_def del: upt_rec_numeral)
qed

theorem chip_start_witness:
  "\<exists>w1. wizchip_init (Some (replicate 8 2)) (Some (replicate 8 2)) (wiz_start (replicate 18 0 @ [0])) = Some (0, w1) \<and> answers w1 = []"
proof -
  have "sizes_ok 0 (replicate 8 2)" by code_simp
  then show ?thesis
    using chip_start [of "wiz_start (replicate 18 0 @ [0])" "replicate 6 0" "replicate 4 0" "replicate 4 0" "replicate 4 0" 0 "[]" "replicate 8 2" "replicate 8 2"]
    by (auto simp: replicate_add [symmetric] wiz_start_def simp flip: append_assoc)
qed

section \<open>The configuration of the physical layer comes back\<close>

definition phy_wf :: "wiz_PhyConf \<Rightarrow> bool" where
  "phy_wf c \<longleftrightarrow> {phy_by c, phy_mode c, phy_speed c, phy_duplex c} \<subseteq> {0, 1}"

lemma phyconf_code_back:
  assumes "phy_wf c"
  shows "phyconf_of ((phyconf_code c AND PHYCFGR_RST) OR NOT PHYCFGR_RST) = (if phy_mode c = 1 then c\<lparr>phy_speed := 0, phy_duplex := 0\<rparr> else c)"
    "phyconf_code c AND PHYCFGR_RST = phyconf_code c"
proof -
  obtain b m s d where c: "c = \<lparr>phy_by = b, phy_mode = m, phy_speed = s, phy_duplex = d\<rparr>" by (cases c)
  have "b \<in> {0, 1}" "m \<in> {0, 1}" "s \<in> {0, 1}" "d \<in> {0, 1}" using assms by (auto simp: phy_wf_def c)
  then show "phyconf_of ((phyconf_code c AND PHYCFGR_RST) OR NOT PHYCFGR_RST) = (if phy_mode c = 1 then c\<lparr>phy_speed := 0, phy_duplex := 0\<rparr> else c)"
    "phyconf_code c AND PHYCFGR_RST = phyconf_code c"
    unfolding c by (auto simp: phyconf_of_def phyconf_code_def phy_codes Let_def)
qed

text \<open>
  a configuration of the physical layer that is set is read back: setting writes it, pulls the reset and releases it, and the value it
  leaves in the register is read as the same configuration.  Automatic negotiation is read back with speed and duplex cleared.
\<close>

theorem phyconf_roundtrip:
  assumes "phy_wf c" "answers w = phyconf_code c # (phyconf_code c AND PHYCFGR_RST) # r"
  shows "\<exists>w1 v. wizphy_setphyconf c w = Some w1 \<and> answers w1 = r \<and>
    written (spi w1) = written (spi w) @ [(PHYCFGR, [phyconf_code c]), (PHYCFGR, [phyconf_code c AND PHYCFGR_RST]), (PHYCFGR, [v])] \<and>
    phyconf_of v = (if phy_mode c = 1 then c\<lparr>phy_speed := 0, phy_duplex := 0\<rparr> else c)"
proof -
  let ?v = "phyconf_code c" let ?w1 = "setPHYCFGR ?v w"
  have t1: "turn w [] [(PHYCFGR, [?v])] ?w1" by (rule turn_set_common)
  then have a1: "answers ?w1 = ?v # (?v AND PHYCFGR_RST) # r" using turn_answers assms(2) by fastforce
  then obtain w2 where w2: "getPHYCFGR ?w1 = Some (?v, w2)" "turn ?w1 [?v] [] w2" "answers w2 = (?v AND PHYCFGR_RST) # r"
    using turn_read unfolding getPHYCFGR_def by blast
  let ?w3 = "setPHYCFGR (?v AND PHYCFGR_RST) w2"
  have t3: "turn w2 [] [(PHYCFGR, [?v AND PHYCFGR_RST])] ?w3" by (rule turn_set_common)
  then have a3: "answers ?w3 = (?v AND PHYCFGR_RST) # r" using turn_answers w2(3) by fastforce
  then obtain w4 where w4: "getPHYCFGR ?w3 = Some (?v AND PHYCFGR_RST, w4)" "turn ?w3 [?v AND PHYCFGR_RST] [] w4" "answers w4 = r"
    using turn_read unfolding getPHYCFGR_def by blast
  let ?x = "(?v AND PHYCFGR_RST) OR NOT PHYCFGR_RST" let ?w5 = "setPHYCFGR ?x w4"
  have t5: "turn w4 [] [(PHYCFGR, [?x])] ?w5" by (rule turn_set_common)
  have "wizphy_setphyconf c w = Some ?w5" using w2(1) w4(1) by (simp add: wizphy_setphyconf_def wizphy_reset_def)
  moreover have "answers ?w5 = r" using turn_answers [OF t5] w4(3) by simp
  moreover note turn_written [OF t1] turn_written [OF w2(2)] turn_written [OF t3] turn_written [OF w4(2)] turn_written [OF t5]
  ultimately show ?thesis using phyconf_code_back(1) [OF assms(1)] by (intro exI [of _ ?w5] exI [of _ ?x]) simp
qed

theorem phyconf_roundtrip_witness:
  "\<exists>w1 v. wizphy_setphyconf \<lparr>phy_by = 1, phy_mode = 0, phy_speed = 1, phy_duplex = 1\<rparr> (wiz_start [0x58, 0x58]) = Some w1 \<and> answers w1 = [] \<and>
     phyconf_of v = \<lparr>phy_by = 1, phy_mode = 0, phy_speed = 1, phy_duplex = 1\<rparr>"
  using phyconf_roundtrip [of "\<lparr>phy_by = 1, phy_mode = 0, phy_speed = 1, phy_duplex = 1\<rparr>" "wiz_start [0x58, 0x58]" "[]"]
  by (auto simp: phy_wf_def phyconf_code_def phy_codes wiz_start_def)

end
