(* ===== verification/Wiz_Driver.thy ===== *)
theory Wiz_Driver
  imports Ethernet Wizchip_Conf
begin

text \<open>
  The wired driver on the chip: the actions of \<open>ibox_Ethernet.c\<close> carried out by the socket library and the register macros, and what the
  driver finds on its socket read from the chip.
\<close>

section \<open>The socket of the driver\<close>

definition CUS_COMM_SOCKET :: u8 where "CUS_COMM_SOCKET = 2"
definition CUS_DHCP_SOCKET :: u8 where "CUS_DHCP_SOCKET = 0"
definition Sn_MR_ND :: u8 where "Sn_MR_ND = 0x20"

text \<open>
  What a call of \<open>ethernet_run\<close> finds: the state of the socket and, when it is established, the number of received bytes and, when there
  are any, what \<open>recv\<close> returns.  \<open>block\<close> is the result of \<open>rt_malloc\<close>, \<open>sem\<close> that of the semaphore.
\<close>

definition chip_input :: "bytes option \<Rightarrow> bool \<Rightarrow> wiz \<Rightarrow> (er_in \<times> wiz) option" where
  "chip_input block sem w = do {
     (r, st, w1) \<leftarrow> sock_getsockopt CUS_COMM_SOCKET SO_STATUS w;
     let i = \<lparr>er_status = None, er_recvbuf = 0, er_malloc = block, er_recv = (0, []), er_sem = sem\<rparr>;
     if r \<noteq> SOCK_OK then Some (i, w1)
     else if arg8 st \<noteq> SR_ESTABLISHED then Some (i\<lparr>er_status := Some (arg8 st)\<rparr>, w1)
     else do {
       (_, n, w2) \<leftarrow> sock_getsockopt CUS_COMM_SOCKET SO_RECVBUF w1;
       let arg = arg16 n;
       if arg > 0 then do {
         (len, data, w3) \<leftarrow> sock_recv CUS_COMM_SOCKET arg w2;
         Some (i\<lparr>er_status := Some (arg8 st), er_recvbuf := arg, er_recv := (len, data)\<rparr>, w3) }
       else Some (i\<lparr>er_status := Some (arg8 st)\<rparr>, w2) } }"

definition chip_sock :: "sock_action \<Rightarrow> wiz \<Rightarrow> wiz option" where
  "chip_sock a w =
     (case a of
        Keepalive v \<Rightarrow> map_option snd (sock_setsockopt CUS_COMM_SOCKET SO_KEEPALIVEAUTO (mem16 v) w)
      | Connect ip port \<Rightarrow> map_option snd (sock_connect CUS_COMM_SOCKET ip port w)
      | Send b \<Rightarrow> map_option snd (sock_send CUS_COMM_SOCKET b (of_nat (length b)) w)
      | Close_tcp \<Rightarrow> map_option snd (sock_close CUS_COMM_SOCKET w)
      | Open_tcp port \<Rightarrow> map_option snd (sock_socket CUS_COMM_SOCKET Sn_MR_TCP port Sn_MR_ND w)
      | Net k \<Rightarrow> Some w)"

fun chip_socks :: "sock_action list \<Rightarrow> wiz \<Rightarrow> wiz option" where
  "chip_socks [] w = Some w"
| "chip_socks (a # as) w = do { w1 \<leftarrow> chip_sock a w; chip_socks as w1 }"

text \<open>A call of \<open>ethernet_run\<close> on the chip; \<open>None\<close>: it still waits for the chip.\<close>

definition ethernet_run_chip :: "IBOX_CONFIG \<Rightarrow> bytes option \<Rightarrow> bool \<Rightarrow> eth \<Rightarrow> wiz \<Rightarrow> (u8 \<times> eth \<times> sock_action list \<times> wiz) c_result option" where
  "ethernet_run_chip cfg block sem s w = do {
     (i, w1) \<leftarrow> chip_input block sem w;
     (case ethernet_run cfg i s of
        Inl e \<Rightarrow> Some (Inl e)
      | Inr (st, s1, as) \<Rightarrow> map_option (\<lambda>w2. Inr (st, s1, as, w2)) (chip_socks as w1)) }"

definition chip_action :: "eth_action \<Rightarrow> wiz \<Rightarrow> wiz option" where
  "chip_action a w =
     (case a of
        Set_SIPR b \<Rightarrow> Some (setSIPR b w)
      | Set_SUBR b \<Rightarrow> Some (setSUBR b w)
      | Set_GAR b \<Rightarrow> Some (setGAR b w)
      | Set_SHAR b \<Rightarrow> Some (setSHAR b w)
      | Set_RTR v \<Rightarrow> Some (setRTR v w)
      | Set_RCR v \<Rightarrow> Some (setRCR v w)
      | Reset_chip \<Rightarrow> map_option snd (getMR (setMR MR_RST w))
      | Open_udp port \<Rightarrow> map_option snd (sock_socket CUS_DHCP_SOCKET Sn_MR_UDP port 0 w)
      | Udp_sendto b ip port \<Rightarrow> map_option snd (sock_sendto CUS_DHCP_SOCKET b (of_nat (length b)) ip port w)
      | Close_udp \<Rightarrow> map_option snd (sock_close CUS_DHCP_SOCKET w))"


section \<open>Received data\<close>

lemma arg16_mem16: "arg16 (mem16 v) = v"
proof -
  have "push_bit 8 (ucast (ucast (drop_bit 8 v) :: u8)) + ucast (ucast v :: u8) = (v :: u16)"
  proof (subst disjunctive_add)
    show "push_bit 8 (ucast (ucast (drop_bit 8 v) :: u8)) OR ucast (ucast v :: u8) = v"
      by (rule bit_word_eqI) (auto simp: bit_simps)
  qed (auto simp: bit_simps)
  then show ?thesis by (simp add: arg16_def mem16_def be16_def)
qed

lemma comm_socket: "sn_ok CUS_COMM_SOCKET"
  by (simp add: sn_ok_def CUS_COMM_SOCKET_def WIZCHIP_SOCK_NUM_def)

text \<open>The input of a round with \<open>d\<close> waiting in the receive memory of the established socket.\<close>

lemma chip_input_received:
  assumes w: "answers w = SR_ESTABLISHED # h # l # h # l # mr # rx # h # l # h # l # st # ph # pl # d @ bs @ 0 # r"
    and m: "mr AND 0x0F = Sn_MR_TCP" "st \<in> {SR_ESTABLISHED, SR_CLOSE_WAIT}" "\<forall>b \<in> set bs. b \<noteq> 0"
    and d: "unat (be16 h l) = length d" "d \<noteq> []" "length d \<le> unat (ucast (push_bit 10 (ucast rx :: u32)) :: u16)"
  shows "\<exists>w1. chip_input block sem w = Some (\<lparr>er_status = Some SR_ESTABLISHED, er_recvbuf = be16 h l, er_malloc = block,
        er_recv = (int (length d), d), er_sem = sem\<rparr>, w1) \<and> answers w1 = r \<and>
    written (spi w1) = written (spi w) @ [(Sn_RX_RD CUS_COMM_SOCKET, [ucast (drop_bit 8 (be16 ph pl + of_nat (length d)))]),
      (WIZCHIP_OFFSET_INC (Sn_RX_RD CUS_COMM_SOCKET) 1, [ucast (be16 ph pl + of_nat (length d))]), (Sn_CR CUS_COMM_SOCKET, [Sn_CR_RECV])]"
proof -
  have n: "be16 h l \<noteq> 0" "be16 h l > 0" using d(1,2) by (auto simp: word_less_nat_alt)
  obtain wa where wa: "getSn_SR CUS_COMM_SOCKET w = Some (SR_ESTABLISHED, wa)" "turn w [SR_ESTABLISHED] [] wa"
    "answers wa = h # l # h # l # mr # rx # h # l # h # l # st # ph # pl # d @ bs @ 0 # r"
    using does_byte(2) [OF w] by (auto elim: doesE)
  obtain wb where wb: "getSn_RX_RSR CUS_COMM_SOCKET wa = Some (be16 h l, wb)" "turn wa [h, l, h, l] [] wb"
    "answers wb = mr # rx # h # l # h # l # st # ph # pl # d @ bs @ 0 # r"
    using size_stable [OF wa(3) n(1), of "Sn_RX_RSR CUS_COMM_SOCKET" 0] unfolding getSn_RX_RSR_def by (auto elim: doesE)
  have max: "ucast (push_bit 10 (ucast rx :: u32)) \<noteq> (0 :: u16)" using d(2,3) by auto
  have len: "length d = min (min (unat (be16 h l)) (unat (ucast (push_bit 10 (ucast rx :: u32)) :: u16))) (unat (be16 h l))" using d(1,3) by simp
  obtain w1 where w1: "sock_recv CUS_COMM_SOCKET (be16 h l) wb = Some (int (length d), d, w1)" "answers w1 = r"
    "written (spi w1) = written (spi wb) @ [(Sn_RX_RD CUS_COMM_SOCKET, [ucast (drop_bit 8 (be16 ph pl + of_nat (length d)))]),
      (WIZCHIP_OFFSET_INC (Sn_RX_RD CUS_COMM_SOCKET) 1, [ucast (be16 ph pl + of_nat (length d))]), (Sn_CR CUS_COMM_SOCKET, [Sn_CR_RECV])]"
    using socket_recv_transfers [OF comm_socket wb(3) m(1,2) n(1) max len n(1) m(3)] by blast
  have "chip_input block sem w = Some (\<lparr>er_status = Some SR_ESTABLISHED, er_recvbuf = be16 h l, er_malloc = block,
        er_recv = (int (length d), d), er_sem = sem\<rparr>, w1)"
    using wa(1) wb(1) w1(1) n comm_socket
    by (simp add: chip_input_def sock_getsockopt_def answer8_def answer16_def arg16_mem16 arg8_def Let_def)
  then show ?thesis using w1(2,3) turn_written [OF turn_trans [OF wa(2) wb(2)]] by simp
qed

lemma driver_receives:
  assumes w: "answers w = SR_ESTABLISHED # h # l # h # l # mr # rx # h # l # h # l # st # ph # pl # d @ bs @ 0 # r"
    and m: "mr AND 0x0F = Sn_MR_TCP" "st \<in> {SR_ESTABLISHED, SR_CLOSE_WAIT}" "\<forall>b \<in> set bs. b \<noteq> 0"
    and d: "unat (be16 h l) = length d" "d \<noteq> []" "length d \<le> unat (ucast (push_bit 10 (ucast rx :: u32)) :: u16)"
    and s: "eth_tx_len s = 0" "length block = 2048"
  shows "(length d \<le> 1460 \<longrightarrow> (\<exists>net w1. ethernet_run_chip cfg (Some block) True s w =
        Some (Inr (SR_ESTABLISHED, s\<lparr>eth_net := net\<rparr>, [Net (Rt_event_send NET_RX_BUF_WRITE_EVENT)], w1)) \<and>
      net_rx_write True d (of_nat (length d)) (eth_net s) = Inr (1, net, [Rt_event_send NET_RX_BUF_WRITE_EVENT]) \<and>
      answers w1 = r \<and> last (written (spi w1)) = (Sn_CR CUS_COMM_SOCKET, [Sn_CR_RECV]))) \<and>
    (1460 < length d \<and> length d \<le> 2048 \<longrightarrow> ethernet_run_chip cfg (Some block) True s w = Some (Inl OutOfBounds))"
proof -
  let ?i = "\<lparr>er_status = Some SR_ESTABLISHED, er_recvbuf = be16 h l, er_malloc = Some block, er_recv = (int (length d), d), er_sem = True\<rparr>"
  obtain w1 where w1: "chip_input (Some block) True w = Some (?i, w1)" "answers w1 = r"
    "last (written (spi w1)) = (Sn_CR CUS_COMM_SOCKET, [Sn_CR_RECV])"
    using chip_input_received [OF w m d, of "Some block" True] by auto
  have "be16 h l > 0" using d(1,2) by (auto simp: word_less_nat_alt)
  note e = ethernet_receives [of ?i block s d cfg, simplified, OF _ this s(2,1)]
  have st: "SR_ESTABLISHED = SOCK_ESTABLISHED" by (simp add: SR_ESTABLISHED_def SOCK_ESTABLISHED_def)
  show ?thesis using e w1 d(2) by (auto simp: ethernet_run_chip_def chip_sock_def st)
qed

text \<open>
  what waits in the receive memory of the established socket is, after one call of the driver, in the receive buffer of the network
  layer with its length, the thread of the network layer is told, and the chip has been told to free the memory.  The buffers do not fit
  each other, though: 1461 bytes or more, which the chip can hold, overrun the buffer of the network layer.
\<close>

theorem wired_data_arrives:
  assumes w: "answers w = SR_ESTABLISHED # h # l # h # l # mr # rx # h # l # h # l # st # ph # pl # d @ bs @ 0 # r"
    and m: "mr AND 0x0F = Sn_MR_TCP" "st \<in> {SR_ESTABLISHED, SR_CLOSE_WAIT}" "\<forall>b \<in> set bs. b \<noteq> 0"
    and d: "unat (be16 h l) = length d" "d \<noteq> []" "length d \<le> unat (ucast (push_bit 10 (ucast rx :: u32)) :: u16)"
    and s: "eth_tx_len s = 0" "length block = 2048"
  shows "(length d \<le> 1460 \<longrightarrow> (\<exists>net w1. ethernet_run_chip cfg (Some block) True s w =
        Some (Inr (SR_ESTABLISHED, s\<lparr>eth_net := net\<rparr>, [Net (Rt_event_send NET_RX_BUF_WRITE_EVENT)], w1)) \<and>
      net_rx_write True d (of_nat (length d)) (eth_net s) = Inr (1, net, [Rt_event_send NET_RX_BUF_WRITE_EVENT]) \<and>
      answers w1 = r \<and> last (written (spi w1)) = (Sn_CR CUS_COMM_SOCKET, [Sn_CR_RECV]))) \<and>
    (1460 < length d \<and> length d \<le> 2048 \<longrightarrow> ethernet_run_chip cfg (Some block) True s w = Some (Inl OutOfBounds))"
  using driver_receives [OF assms] .


theorem wired_data_arrives_witness:
  "\<exists>net w1. ethernet_run_chip ibox_config (Some (replicate 2048 0)) True blank_eth
      (wiz_start [0x17, 0, 3, 0, 3, 0x21, 2, 0, 3, 0, 3, 0x17, 0, 9, 7, 8, 9, 0x40, 0]) =
    Some (Inr (SR_ESTABLISHED, blank_eth\<lparr>eth_net := net\<rparr>, [Net (Rt_event_send NET_RX_BUF_WRITE_EVENT)], w1)) \<and> answers w1 = []"
proof -
  have a: "answers (wiz_start [0x17, 0, 3, 0, 3, 0x21, 2, 0, 3, 0, 3, 0x17, 0, 9, 7, 8, 9, 0x40, 0]) =
      SR_ESTABLISHED # 0 # 3 # 0 # 3 # 0x21 # 2 # 0 # 3 # 0 # 3 # SR_ESTABLISHED # 0 # 9 # [7, 8, 9] @ [0x40] @ 0 # []"
    by (simp add: SR_ESTABLISHED_def)
  have b: "(0x21 :: u8) AND 0x0F = Sn_MR_TCP" "unat (be16 0 3) = length [7 :: u8, 8, 9]" "eth_tx_len blank_eth = 0"
    "length [7 :: u8, 8, 9] \<le> unat (ucast (push_bit 10 (ucast (2 :: u8) :: u32)) :: u16)"
    by (simp_all add: Sn_MR_TCP_def be16_def blank_eth_def push_bit_eq_mult)
  show ?thesis
    using wired_data_arrives [OF a b(1) _ _ b(2) _ b(4,3), of "replicate 2048 0" ibox_config] by auto
qed


section \<open>The lease on the chip\<close>

fun chip_actions :: "eth_action list \<Rightarrow> wiz \<Rightarrow> wiz option" where
  "chip_actions [] w = Some w"
| "chip_actions (a # as) w = do { w1 \<leftarrow> chip_action a w; chip_actions as w1 }"

lemma addr_ok_timeouts: "addr_ok RTR" "addr_ok (WIZCHIP_OFFSET_INC RTR 1)" "addr_ok RCR"
  by (simp_all add: addr_ok_def common_regs WIZCHIP_CREG_def WIZCHIP_OFFSET_INC_def bit_push_bit_iff push_bit_eq_mult word_less_nat_alt
      bit_iff_odd uint_word_ariths)

lemma turn_set_timeouts:
  "turn w [] [(RTR, [ucast (drop_bit 8 v)]), (WIZCHIP_OFFSET_INC RTR 1, [ucast v])] (setRTR v w)" "turn w [] [(RCR, [n])] (setRCR n w)"
  unfolding setRTR_def setRCR_def by (rule turn_write16 turn_write, (rule addr_ok_timeouts)+)+

text \<open>
  a new lease is put into effect on the chip: the update resets it and writes the subnet mask, the gateway and the address of the lease
  to the registers the chip works with, then the retransmission time of 200 ms and three repetitions, and the hardware address, which the
  reset has cleared, last.
\<close>

theorem lease_on_chip:
  assumes "answers w = m # r" "length (em_mac e) = 6" "length (getIPfromDHCP s) = 4" "length (getGWfromDHCP s) = 4" "length (getSNfromDHCP s) = 4"
  shows "\<exists>w1. chip_actions (snd (eth_ip_update s e)) w = Some w1 \<and> answers w1 = r \<and>
    written (spi w1) = written (spi w) @ [(MR, [0x80]), (SUBR, getSNfromDHCP s), (GAR, getGWfromDHCP s), (SIPR, getIPfromDHCP s),
      (RTR, [0x07]), (WIZCHIP_OFFSET_INC RTR 1, [0xD0]), (RCR, [3]), (SHAR, em_mac e)]"
proof -
  have t1: "turn w [] [(MR, [MR_RST])] (setMR MR_RST w)" by (rule turn_set_common)
  then have "answers (setMR MR_RST w) = m # r" using turn_answers assms(1) by fastforce
  then obtain w1 where w1: "getMR (setMR MR_RST w) = Some (m, w1)" "turn (setMR MR_RST w) [m] [] w1" "answers w1 = r"
    using turn_read unfolding getMR_def by blast
  let ?w2 = "setSUBR (getSNfromDHCP s) w1" let ?w3 = "setGAR (getGWfromDHCP s) ?w2" let ?w4 = "setSIPR (getIPfromDHCP s) ?w3"
  let ?w5 = "setRTR 2000 ?w4" let ?w6 = "setRCR 3 ?w5" let ?w7 = "setSHAR (em_mac e) ?w6"
  note t = turn_set_common(3) [OF assms(5), of w1] turn_set_common(2) [OF assms(4), of ?w2] turn_set_common(4) [OF assms(3), of ?w3]
    turn_set_timeouts(1) [of ?w4 2000] turn_set_timeouts(2) [of ?w5 3] turn_set_common(1) [OF assms(2), of ?w6]
  have "chip_actions (snd (eth_ip_update s e)) w = Some ?w7"
    using w1(1) by (simp add: eth_ip_update_def eth_ip_assign_def chip_action_def Let_def)
  moreover have "answers ?w7 = r" using t [THEN turn_answers] w1(3) by simp
  moreover have "(ucast (drop_bit 8 (2000 :: u16)) :: u8) = 0x07" "(ucast (2000 :: u16) :: u8) = 0xD0" by (simp_all add: drop_bit_eq_div)
  ultimately show ?thesis
    using turn_written [OF t1] turn_written [OF w1(2)] t [THEN turn_written] by (intro exI [of _ ?w7]) (simp add: MR_RST_def)
qed

theorem lease_on_chip_witness:
  "\<exists>w1. chip_actions (snd (eth_ip_update demo_dhcp (eth_msg_get blank_eth))) (wiz_start [0]) = Some w1 \<and> answers w1 = []"
proof -
  have "length (em_mac (eth_msg_get blank_eth)) = 6" "length (getIPfromDHCP demo_dhcp) = 4" "length (getGWfromDHCP demo_dhcp) = 4"
    "length (getSNfromDHCP demo_dhcp) = 4" by code_simp+
  then show ?thesis using lease_on_chip [of "wiz_start [0]" 0 "[]" "eth_msg_get blank_eth" demo_dhcp] by auto
qed

end
