(* ===== verification/Gateway.thy ===== *)
theory Gateway
  imports Main_Thread Wifi_Data Wiz_Driver
begin

text \<open>
  The whole gateway: what happens between the MQTT client and the server's side of a link while a call of the client waits.  The threads
  and the receive interrupt run in the order in which they wake each other up.
\<close>

section \<open>The WiFi link while the client waits\<close>

text \<open>
  One line from the module: the receive interrupts of its bytes, a step of the driver, and the network thread if the driver has sent it
  the event.
\<close>

definition wifi_line :: "at_env \<Rightarrow> bytes \<Rightarrow> wifi \<Rightarrow> wifi c_result" where
  "wifi_line e l s =
     bindR (esp8266_at_fsm e (fold wifi_irq (l @ crlf) s)) (\<lambda>(s1, as).
       if Kernel (Rt_event_send NET_RX_BUF_WRITE_EVENT) \<in> set as
       then bindR (network_thread_step True NET_RX_BUF_WRITE_EVENT (w_net s1)) (\<lambda>(net, _). Inr (s1\<lparr>w_net := net\<rparr>))
       else Inr s1)"

fun wifi_lines :: "at_env \<Rightarrow> bytes list \<Rightarrow> wifi \<Rightarrow> wifi c_result" where
  "wifi_lines e [] s = Inr s"
| "wifi_lines e (l # ls) s = bindR (wifi_line e l s) (wifi_lines e ls)"

text \<open>
  The network thread takes a packet over from the transmit buffer, the driver transmits it, and the module answers with lines.  The result
  has the bytes on the wire to the module.
\<close>

definition wifi_exchange :: "at_env \<Rightarrow> bytes list \<Rightarrow> wifi \<Rightarrow> (wifi \<times> bytes) c_result" where
  "wifi_exchange e ls s =
     bindR (network_thread_step True NET_TX_BUF_WRITE_EVENT (w_net s)) (\<lambda>(net, _).
     bindR (esp8266_at_fsm e (s\<lparr>w_net := net\<rparr>)) (\<lambda>(s1, as).
     bindR (wifi_lines e ls s1) (\<lambda>s2. Inr (s2, tx_bytes as))))"

text \<open>What such an exchange makes of the buffers of the network layer.\<close>

definition exchanged :: "at_env \<Rightarrow> bytes list \<Rightarrow> wifi \<Rightarrow> network \<Rightarrow> network" where
  "exchanged e ls s net = (case wifi_exchange e ls (s\<lparr>w_net := net\<rparr>) of Inr (s', _) \<Rightarrow> w_net s' | Inl _ \<Rightarrow> net)"

lemma thread_takes_over:
  assumes "network_inv net"
  shows "network_thread_step True NET_TX_BUF_WRITE_EVENT net =
    Inr (net\<lparr>net_wifi_tx_len := net_tx_len net,
      net_uart3_tx_buf := take (unat (net_tx_len net)) (net_tx_buf net) @ drop (unat (net_tx_len net)) (net_uart3_tx_buf net)\<rparr>, [])"
proof -
  have "unat (net_tx_len net) \<le> length (net_uart3_tx_buf net)" "unat (net_tx_len net) \<le> length (net_tx_buf net)"
    using assms by (simp_all add: network_inv_def net_sizes)
  then have "memcpy (net_uart3_tx_buf net) (net_tx_buf net) (unat (net_tx_len net)) =
      Inr (take (unat (net_tx_len net)) (net_tx_buf net) @ drop (unat (net_tx_len net)) (net_uart3_tx_buf net))"
    by (simp add: memcpy_def)
  moreover have "NET_TX_BUF_WRITE_EVENT AND NET_RX_BUF_WRITE_EVENT = 0" "NET_TX_BUF_WRITE_EVENT AND NET_TX_BUF_WRITE_EVENT \<noteq> 0"
    by (simp_all add: NET_TX_BUF_WRITE_EVENT_def NET_RX_BUF_WRITE_EVENT_def)
  ultimately show ?thesis by (simp add: network_thread_step_def net_tx_event_def)
qed

lemma driver_transmits:
  assumes "quiet (w_uart3 s)" and "esp8266_status s = ESP8266_STATUS_COMMUNICATE" and "wifi_send_flag s \<noteq> 0"
    and "net_wifi_tx_len (w_net s) \<noteq> 0" and "unat (net_wifi_tx_len (w_net s)) \<le> length (net_uart3_tx_buf (w_net s))"
    and "clk e 1 - clk e 0 \<le> 5"
  shows "\<exists>q as. quiet q \<and> esp8266_at_fsm e s = Inr (s\<lparr>w_uart3 := q, wifi_timeout := clk e 0, wifi_send_flag := 0\<rparr>, as) \<and>
    tx_bytes as = str_bytes ''AT+CIPSEND='' @ dec (unat (net_wifi_tx_len (w_net s))) @ crlf @
      take (unat (net_wifi_tx_len (w_net s))) (net_uart3_tx_buf (w_net s))"
proof -
  obtain q where q: "quiet q" "esp8266_at_fsm e s = esp8266_dispatch e 0 (rx_array []) (s\<lparr>w_uart3 := q\<rparr>)"
    using wr.step_silent [OF assms(1)] by blast
  have "esp8266_send_data (s\<lparr>w_uart3 := q\<rparr>) = esp8266_send_data s" by (simp add: esp8266_send_data_def)
  moreover have "\<not> 5 < clk e (Suc 0) - clk e 0" using assms(6) by (simp add: not_less)
  ultimately show ?thesis
    using q assms(2-4) esp8266_send_data_ok [OF assms(5)]
    by (auto simp: esp8266_dispatch_def wifi_communicate_def wifi_transmit_def Let_def)
qed

lemma send_ok_line:
  assumes "quiet (w_uart3 s)" and "esp8266_status s = ESP8266_STATUS_COMMUNICATE"
  shows "\<exists>q. quiet q \<and> wifi_line e (str_bytes ''SEND OK'') s =
    Inr (s\<lparr>w_uart3 := q, w_net := (w_net s)\<lparr>net_wifi_tx_len := 0\<rparr>, wifi_send_flag := 1\<rparr>)"
proof -
  let ?l = "str_bytes ''SEND OK''"
  have l: "text_line ?l" "of_nat (length ?l) \<noteq> (0 :: u16)" by (simp_all add: text_line_def str_bytes_def UART3_RX_SIZE_def)
  obtain q where q: "quiet q" "esp8266_at_fsm e (fold wifi_irq (?l @ crlf) s) =
      esp8266_dispatch e (of_nat (length ?l)) (rx_array ?l) (s\<lparr>w_uart3 := q\<rparr>)"
    using wr.step_line [OF assms(1), of ?l e] l(1) by (auto simp: text_line_def)
  have w: "\<not> has_str_in (rx_array ?l) ''CLOSED''" "\<not> has_str_in (rx_array ?l) ''ERROR''" "has_str_in (rx_array ?l) ''SEND OK''"
    unfolding has_str_line [OF l(1)] by (simp_all add: str_bytes_def)
  show ?thesis
    using q l(2) w assms(2)
    by (auto simp: wifi_line_def esp8266_dispatch_def wifi_communicate_def wifi_receive_def net_tx_sem_release_def)
qed

lemma data_line:
  assumes "quiet (w_uart3 s)" and "esp8266_status s = ESP8266_STATUS_COMMUNICATE" and "rx_sem_ok e"
    and "network_inv (w_net s)" and "net_fifo_elems (net_rx_fifo (w_net s)) = []"
    and p: "0x0d \<notin> set p" "0x0a \<notin> set p" "length (ipd_line (length p) p) + 3 < UART3_RX_SIZE" "no_event (ipd_line (length p) p)"
    and "p \<noteq> []" and "length p \<le> net_fifo_cap (net_rx_fifo (w_net s))"
  shows "\<exists>q net. quiet q \<and> wifi_line e (ipd_line (length p) p) s = Inr (s\<lparr>w_uart3 := q, w_net := net\<rparr>) \<and> network_inv net \<and>
    net_fifo_elems (net_rx_fifo net) = p \<and> net_tx_len net = net_tx_len (w_net s) \<and> net_tx_buf net = net_tx_buf (w_net s)"
proof -
  let ?net = "(w_net s)\<lparr>net_rx_len := of_nat (length p), net_rx_buf := p @ replicate (NET_RX_BUF_SIZE - length p) 0\<rparr>"
  obtain q where q: "quiet q" "esp8266_at_fsm e (fold wifi_irq (ipd_line (length p) p @ crlf) s) =
      Inr (s\<lparr>w_uart3 := q, w_net := ?net\<rparr>, [Kernel (Rt_event_send NET_RX_BUF_WRITE_EVENT)])"
    using ipd_delivers [OF assms(1-3) p] by blast
  have len: "0 < length p" "length p \<le> 1460" using assms(10) p(3) by (simp_all add: ipd_line_def UART3_RX_SIZE_def)
  have inv: "network_inv ?net" using assms(4) len by (simp add: network_inv_def net_sizes)
  obtain f where f: "network_thread_step True NET_RX_BUF_WRITE_EVENT ?net =
      Inr (?net\<lparr>net_rx_fifo := f\<rparr>, [Rt_mutex_release, Rt_sem_release Net_rx_sem, Rt_sem_release Net_fifo_sem])"
      "net_fifo_inv f" "net_fifo_elems f = p"
    using net_thread_moves [OF inv len(1)] len(2) assms(5,11) by (auto simp: net_sizes)
  have "network_inv (?net\<lparr>net_rx_fifo := f\<rparr>)" using inv f(2) by (simp add: network_inv_def)
  then show ?thesis using q f(1,3)
    by (intro exI [of _ q] exI [of _ "?net\<lparr>net_rx_fifo := f\<rparr>"]) (simp add: wifi_line_def)
qed

text \<open>A packet waiting in the transmit buffer is transmitted, and the server's answer reaches the FIFO of the client.\<close>

lemma exchange_runs:
  assumes "quiet (w_uart3 s)" and "esp8266_status s = ESP8266_STATUS_COMMUNICATE" and "wifi_send_flag s \<noteq> 0" and "rx_sem_ok e"
    and "clk e 1 - clk e 0 \<le> 5" and inv: "network_inv (w_net s)" and "net_fifo_elems (net_rx_fifo (w_net s)) = []"
    and b: "net_tx_len (w_net s) = of_nat (length b)" "take (length b) (net_tx_buf (w_net s)) = b" "b \<noteq> []" "length b \<le> 1460"
    and p: "0x0d \<notin> set p" "0x0a \<notin> set p" "length (ipd_line (length p) p) + 3 < UART3_RX_SIZE" "no_event (ipd_line (length p) p)"
    and "p \<noteq> []" and "length p \<le> net_fifo_cap (net_rx_fifo (w_net s))"
  shows "\<exists>s'. wifi_exchange e [str_bytes ''SEND OK'', ipd_line (length p) p] s =
      Inr (s', str_bytes ''AT+CIPSEND='' @ dec (length b) @ crlf @ b) \<and>
    network_inv (w_net s') \<and> net_fifo_elems (net_rx_fifo (w_net s')) = p \<and> quiet (w_uart3 s') \<and>
    esp8266_status s' = ESP8266_STATUS_COMMUNICATE \<and> wifi_send_flag s' = 1 \<and>
    net_tx_len (w_net s') = net_tx_len (w_net s) \<and> net_tx_buf (w_net s') = net_tx_buf (w_net s)"
proof -
  have n: "unat (of_nat (length b) :: u16) = length b" "(of_nat (length b) :: u16) \<noteq> 0"
    using b(3,4) eq_of_nat_u16 [of "length b" 0] by (simp_all add: unat_of_nat_u16)
  let ?net = "(w_net s)\<lparr>net_wifi_tx_len := of_nat (length b), net_uart3_tx_buf := b @ drop (length b) (net_uart3_tx_buf (w_net s))\<rparr>"
  let ?s1 = "s\<lparr>w_net := ?net\<rparr>"
  have t: "network_thread_step True NET_TX_BUF_WRITE_EVENT (w_net s) = Inr (?net, [])"
    using thread_takes_over [OF inv] b(1,2) n(1) by simp
  have i1: "network_inv ?net" using inv b(4) by (simp add: network_inv_def)
  obtain q as where q: "quiet q" "esp8266_at_fsm e ?s1 = Inr (?s1\<lparr>w_uart3 := q, wifi_timeout := clk e 0, wifi_send_flag := 0\<rparr>, as)"
    "tx_bytes as = str_bytes ''AT+CIPSEND='' @ dec (length b) @ crlf @ b"
    using driver_transmits [of ?s1 e] assms(1-3,5) n b(4) i1 by (auto simp: network_inv_def)
  let ?s2 = "?s1\<lparr>w_uart3 := q, wifi_timeout := clk e 0, wifi_send_flag := 0\<rparr>"
  obtain q2 where q2: "quiet q2" "wifi_line e (str_bytes ''SEND OK'') ?s2 =
      Inr (?s2\<lparr>w_uart3 := q2, w_net := ?net\<lparr>net_wifi_tx_len := 0\<rparr>, wifi_send_flag := 1\<rparr>)"
    using send_ok_line [of ?s2 e] q(1) assms(2) by auto
  let ?s3 = "?s2\<lparr>w_uart3 := q2, w_net := ?net\<lparr>net_wifi_tx_len := 0\<rparr>, wifi_send_flag := 1\<rparr>"
  have i3: "network_inv (w_net ?s3)" using i1 by (simp add: network_inv_def)
  obtain q3 net where q3: "quiet q3" "wifi_line e (ipd_line (length p) p) ?s3 = Inr (?s3\<lparr>w_uart3 := q3, w_net := net\<rparr>)"
    "network_inv net" "net_fifo_elems (net_rx_fifo net) = p" "net_tx_len net = net_tx_len (w_net s)" "net_tx_buf net = net_tx_buf (w_net s)"
    using data_line [OF _ _ assms(4) i3 _ p assms(16)] q2(1) assms(2,7,17) by auto
  show ?thesis using t q(2,3) q2(2) q3 assms(2) by (simp add: wifi_exchange_def)
qed

section \<open>A publication from end to end\<close>

text \<open>What \<open>MQTTPublish\<close> leaves in the transmit buffer before it waits.\<close>

lemma publish_staged:
  assumes "client_inv c" and "network_inv net" and "isconnected c \<noteq> 0" and "length t < 65536"
    and m: "m_qos msg = 1" "m_retained msg \<in> {0, 1}" "0 \<le> sint (m_payloadlen msg)" "sint (m_payloadlen msg) \<le> int (length (m_payload msg))"
    and "MQTTPacket_len (MQTTSerialize_publishLength 1 (topic_cstr t) (sint (m_payloadlen msg))) \<le> int (buf_size c)"
  defines "pid \<equiv> ucast (fst (getNextPacketId c)) :: u16"
  defines "b \<equiv> packet (publish_header 0 1 (m_retained msg)) (publish_body (topic_cstr t) 1 pid (m_payload msg) (sint (m_payloadlen msg)))"
  defines "c2 \<equiv> (snd (getNextPacketId c))\<lparr>buf := b @ drop (length b) (buf c)\<rparr>"
  defines "net1 \<equiv> net\<lparr>net_tx_len := of_nat (length b), net_tx_buf := b @ replicate (NET_TX_BUF_SIZE - length b) 0\<rparr>"
  shows "MQTTPublish True now polls c t msg net = await_ack polls PUBACK (timeout_init now 500) c2 net1 \<and>
    client_inv c2 \<and> network_inv net1 \<and> b \<noteq> [] \<and> length b \<le> 1460"
proof -
  let ?c1 = "snd (getNextPacketId c)"
  have c1: "client_inv ?c1" "buf_size ?c1 = buf_size c" "buf ?c1 = buf c"
    using assms(1) by (simp_all add: getNextPacketId_def Let_def client_inv_def)
  have size: "buf_size c \<le> 1460" "length (buf c) = buf_size c" using assms(1) by (simp_all add: client_inv_def net_sizes)
  have ser: "MQTTSerialize_publish (int (buf_size c)) 0 1 (m_retained msg) pid (topic_cstr t) (m_payload msg) (sint (m_payloadlen msg)) =
      Inr (int (length b), b)" "int (length b) \<le> int (buf_size c)"
    using publish_packet [OF topic_cstr_ok(1) [OF assms(4)] m(3,4) _ _ _ m(2) assms(9) _ HOL.refl, of 0 pid] size
    by (simp_all add: b_def)
  have b: "b \<noteq> []" "length b \<le> 1460" using ser(2) size by (auto simp: b_def packet_def)
  have ib: "into_buf ?c1 (int (length b), b) = Inr (int (length b), c2)" "client_inv c2"
    using into_buf_ok [OF c1(1), of b "int (length b)"] ser(2) c1(2,3) by (simp_all add: c2_def)
  have u: "unat (of_nat (length b) :: u16) = length b" using b(2) by (simp add: unat_of_nat_u16)
  have "memcpy (replicate NET_TX_BUF_SIZE 0) (buf c2) (length b) = Inr (b @ replicate (NET_TX_BUF_SIZE - length b) 0)"
    using b(2) ser(2) size by (simp add: memcpy_def c2_def net_sizes)
  then have "net_tx_write True (buf c2) (of_nat (length b)) net = Inr (1, net1, [Rt_event_send NET_TX_BUF_WRITE_EVENT])"
    using u by (simp add: net_tx_write_def net1_def)
  then have "sendPacket True c2 (int (length b)) net = Inr (0, net1, [Rt_event_send NET_TX_BUF_WRITE_EVENT])"
    by (simp add: sendPacket_def)
  moreover have "publish_id c msg = (msg\<lparr>m_id := pid\<rparr>, ?c1)" using m(1) by (simp add: publish_id_def pid_def split_beta)
  ultimately have "MQTTPublish True now polls c t msg net = await_ack polls PUBACK (timeout_init now 500) c2 net1"
    using assms(3) m(1) ser(1) c1(2) ib(1) b(1) by (simp add: MQTTPublish_def)
  moreover have "network_inv net1" using assms(2) b(2) u by (simp add: network_inv_def net1_def net_sizes)
  ultimately show ?thesis using ib(2) b by simp
qed

text \<open>The wait ends with the acknowledgement; the identifier in it is not looked at.\<close>

lemma puback_received:
  assumes "client_inv c" and "network_inv (pl_env pl net)" and "pl_sem pl" and "pl_mutex pl"
    and "net_fifo_elems (net_rx_fifo (pl_env pl net)) = packet (set_type PUBACK 0) (writeInt (uint (q :: u16))) @ rest"
  shows "\<exists>rb f'. await_ack (pl # pls) PUBACK tmo c net = Inr (Some (MQTT_SUCCESS, c\<lparr>readbuf := rb\<rparr>, (pl_env pl net)\<lparr>net_rx_fifo := f'\<rparr>)) \<and>
    net_fifo_elems f' = rest"
proof -
  let ?k = "packet (set_type PUBACK 0) (writeInt (uint q))"
  have k: "?k = set_type PUBACK 0 # 2 # writeInt (uint q)" by (simp add: packet_def encode_2)
  then have "length ?k \<le> readbuf_size c" using assms(1) by (simp add: client_inv_def)
  then obtain f' where f: "readPacket True True c (pl_env pl net) = Inr (uint PUBACK,
      c\<lparr>readbuf := ?k @ drop (length ?k) (readbuf c)\<rparr>, (pl_env pl net)\<lparr>net_rx_fifo := f'\<rparr>)" "net_fifo_elems f' = rest"
    using readPacket_packet [OF assms(1,2,5)] by (auto simp: PUBACK_def)
  have "\<exists>ao. MQTTDeserialize_ack (?k @ drop (length ?k) (readbuf c)) \<lparr>ao_packettype = 0, ao_dup = 0, ao_packetid = 0\<rparr> = Inr (1, ao)"
    unfolding k by (simp add: MQTTDeserialize_ack_def Let_def ack_body)
  then show ?thesis using f assms(3,4) by (auto simp: await_ack_def await_def close_on_failure_def)
qed

lemma puback_line:
  assumes "k = packet (set_type PUBACK 0) (writeInt (uint (q :: u16)))"
  shows "length k = 4" "no_event (ipd_line 4 k)" "length (ipd_line 4 k) = 11"
proof -
  obtain h l where "writeInt (uint q) = [h, l]" by (simp add: writeInt_def)
  moreover have "set_type PUBACK 0 = (0x40 :: u8)" by (simp add: set_type_def PUBACK_def set_field_def mask_eq_exp_minus_1 push_bit_eq_mult)
  ultimately have k: "k = [0x40, 2, h, l]" by (simp add: assms packet_def encode_2)
  then show "length k = 4" by simp
  have d: "dec 4 = [52]" by (simp add: dec.simps)
  have i: "ipd_line 4 k = [43, 73, 80, 68, 44, 52, 58, 0x40, 2, h, l]" unfolding ipd_line_def d k by (simp add: str_bytes_def)
  then show "length (ipd_line 4 k) = 11" by simp
  show "no_event (ipd_line 4 k)"
    unfolding i no_event_def has_str_in_def find_str_def
    by (cases "h = 0"; cases "l = 0") (simp_all add: rx_array_def cstr_def str_bytes_def takeWhile_replicate)
qed

text \<open>
  C1: A message published with QoS 1, as the application thread publishes, gets through.  \<open>MQTTPublish\<close> stages one packet \<open>b\<close> in the
  transmit buffer of the network layer and waits (\<open>staged\<close> is the network layer at that moment, however long the wait is going to be): a
  parser of the protocol reads \<open>b\<close> as the topic, the payload and the identifier the client has taken.  While it waits, the network
  thread and the WiFi driver run on that very state and the server answers: the module is sent the command to send and exactly \<open>b\<close>; the
  line \<open>SEND OK\<close> frees the transmit buffer, the data line with the acknowledgement goes through the driver and the network thread to the
  FIFO, and the call returns success on the network layer the exchange has left, with the session kept and the FIFO empty.  The identifier
  \<open>q\<close> in the acknowledgement need not be that of the message: the client does not compare them.
\<close>

theorem publish_over_wifi:
  assumes s: "quiet (w_uart3 s)" "esp8266_status s = ESP8266_STATUS_COMMUNICATE" "wifi_send_flag s \<noteq> 0" "rx_sem_ok e" "clk e 1 - clk e 0 \<le> 5"
      "network_inv (w_net s)" "net_fifo_elems (net_rx_fifo (w_net s)) = []" "4 \<le> net_fifo_cap (net_rx_fifo (w_net s))"
    and c: "client_inv c" "isconnected c \<noteq> 0" "length t < 65536"
    and m: "m_qos msg = 1" "m_retained msg \<in> {0, 1}" "0 \<le> sint (m_payloadlen msg)" "sint (m_payloadlen msg) \<le> int (length (m_payload msg))"
      "MQTTPacket_len (MQTTSerialize_publishLength 1 (topic_cstr t) (sint (m_payloadlen msg))) \<le> int (buf_size c)"
    and k: "k = packet (set_type PUBACK 0) (writeInt (uint (q :: u16)))" "0x0d \<notin> set k" "0x0a \<notin> set k"
    and pl: "pl_env pl = exchanged e [str_bytes ''SEND OK'', ipd_line 4 k] s" "pl_sem pl" "pl_mutex pl"
  shows "\<exists>b c2 staged s' c' f'.
    (\<forall>ps. MQTTPublish True now ps c t msg (w_net s) = await_ack ps PUBACK (timeout_init now 500) c2 staged) \<and>
    net_tx_len staged = of_nat (length b) \<and> take (length b) (net_tx_buf staged) = b \<and>
    MQTTDeserialize_publish (b @ junk) ou = Inr (1, ou\<lparr>po_dup := 0, po_qos := 1, po_retained := m_retained msg,
      po_packetid := ucast (fst (getNextPacketId c)), po_topicName := len_str t (po_topicName ou),
      po_payload := take (nat (sint (m_payloadlen msg))) (m_payload msg) @ junk, po_payloadlen := sint (m_payloadlen msg)\<rparr>) \<and>
    wifi_exchange e [str_bytes ''SEND OK'', ipd_line 4 k] (s\<lparr>w_net := staged\<rparr>) =
      Inr (s', str_bytes ''AT+CIPSEND='' @ dec (length b) @ crlf @ b) \<and>
    esp8266_status s' = ESP8266_STATUS_COMMUNICATE \<and> wifi_send_flag s' = 1 \<and>
    net_tx_len (w_net s') = of_nat (length b) \<and> take (length b) (net_tx_buf (w_net s')) = b \<and>
    MQTTPublish True now (pl # pls) c t msg (w_net s) = Inr (Some (MQTT_SUCCESS, c', (w_net s')\<lparr>net_rx_fifo := f'\<rparr>)) \<and>
    isconnected c' \<noteq> 0 \<and> next_packetid c' = fst (getNextPacketId c) \<and> net_fifo_elems f' = []"
proof -
  let ?pid = "ucast (fst (getNextPacketId c)) :: u16"
  let ?d = "publish_body (topic_cstr t) 1 ?pid (m_payload msg) (sint (m_payloadlen msg))"
  define b where "b = packet (publish_header 0 1 (m_retained msg)) ?d"
  let ?c2 = "(snd (getNextPacketId c))\<lparr>buf := b @ drop (length b) (buf c)\<rparr>"
  let ?net1 = "(w_net s)\<lparr>net_tx_len := of_nat (length b), net_tx_buf := b @ replicate (NET_TX_BUF_SIZE - length b) 0\<rparr>"
  have st: "\<forall>ps. MQTTPublish True now ps c t msg (w_net s) = await_ack ps PUBACK (timeout_init now 500) ?c2 ?net1"
      "client_inv ?c2" "network_inv ?net1" "b \<noteq> []" "length b \<le> 1460"
    using publish_staged [OF c(1) s(6) c(2,3) m] unfolding b_def by blast+
  note kl = puback_line [OF k(1)]
  have "k \<noteq> []" using kl(1) by auto
  then obtain s' where x: "wifi_exchange e [str_bytes ''SEND OK'', ipd_line 4 k] (s\<lparr>w_net := ?net1\<rparr>) =
      Inr (s', str_bytes ''AT+CIPSEND='' @ dec (length b) @ crlf @ b)" "network_inv (w_net s')"
      "net_fifo_elems (net_rx_fifo (w_net s')) = k" "esp8266_status s' = ESP8266_STATUS_COMMUNICATE" "wifi_send_flag s' = 1"
      "net_tx_len (w_net s') = net_tx_len ?net1" "net_tx_buf (w_net s') = net_tx_buf ?net1"
    using exchange_runs [of "s\<lparr>w_net := ?net1\<rparr>" e b k] s st(3-5) k(2,3) kl by (auto simp: UART3_RX_SIZE_def)
  have E: "pl_env pl ?net1 = w_net s'" using pl(1) x(1) by (simp add: exchanged_def)
  obtain rb f' where a: "await_ack (pl # pls) PUBACK (timeout_init now 500) ?c2 ?net1 =
      Inr (Some (MQTT_SUCCESS, ?c2\<lparr>readbuf := rb\<rparr>, (w_net s')\<lparr>net_rx_fifo := f'\<rparr>))" "net_fifo_elems f' = []"
    using puback_received [OF st(2) _ pl(2,3), of ?net1 q "[]" pls "timeout_init now 500"] E x(2,3) k(1) by auto
  have "length ?d < 268435456" using st(5) by (simp add: b_def packet_def)
  then have "MQTTDeserialize_publish (b @ junk) ou = Inr (1, ou\<lparr>po_dup := 0, po_qos := 1, po_retained := m_retained msg,
      po_packetid := ?pid, po_topicName := len_str t (po_topicName ou),
      po_payload := take (nat (sint (m_payloadlen msg))) (m_payload msg) @ junk, po_payloadlen := sint (m_payloadlen msg)\<rparr>)"
    using publish_parse [OF topic_cstr_ok(1) [OF c(3)] m(3,4) _ _ _ m(2), of 1 0 ?pid] by (simp add: b_def topic_cstr_ok(2))
  moreover have "isconnected ?c2 \<noteq> 0" "next_packetid ?c2 = fst (getNextPacketId c)"
    using c(2) by (simp_all add: getNextPacketId_def Let_def)
  ultimately show ?thesis using st(1) a x(1,4-7)
    by (intro exI [of _ b] exI [of _ ?c2] exI [of _ ?net1] exI [of _ s'] exI [of _ "?c2\<lparr>readbuf := rb\<rparr>"] exI [of _ f']) simp
qed

definition demo_message :: MQTTMessage where
  "demo_message = \<lparr>m_qos = 1, m_retained = 0, m_dup = 0, m_id = 0, m_payload = [1, 2, 3], m_payloadlen = 3\<rparr>"

definition demo_wait :: "bytes \<Rightarrow> poll" where
  "demo_wait k = \<lparr>pl_env = exchanged demo_env [str_bytes ''SEND OK'', ipd_line 4 k] (demo_wifi ESP8266_STATUS_COMMUNICATE),
     pl_sem = True, pl_mutex = True, pl_now = 0\<rparr>"

lemma demo_message_sel:
  "m_qos demo_message = 1" "m_retained demo_message = 0" "m_payload demo_message = [1, 2, 3]" "m_payloadlen demo_message = 3"
  by (simp_all add: demo_message_def)

theorem publish_over_wifi_witness:
  "\<exists>b c2 staged s' c' f'.
    (\<forall>ps. MQTTPublish True 0 ps (demo_client\<lparr>isconnected := 1\<rparr>) (str_bytes ''mqtt/msg'') demo_message (demo_network 0 []) =
      await_ack ps PUBACK (timeout_init 0 500) c2 staged) \<and>
    net_tx_len staged = of_nat (length b) \<and> take (length b) (net_tx_buf staged) = b \<and>
    MQTTDeserialize_publish b demo_publish_out =
      Inr (1, demo_publish_out\<lparr>po_dup := 0, po_qos := 1, po_retained := 0, po_packetid := 1,
        po_topicName := len_str (str_bytes ''mqtt/msg'') MQTTString_initializer, po_payload := [1, 2, 3], po_payloadlen := 3\<rparr>) \<and>
    wifi_exchange demo_env [str_bytes ''SEND OK'', ipd_line 4 [0x40, 2, 0, 1]] (demo_wifi ESP8266_STATUS_COMMUNICATE\<lparr>w_net := staged\<rparr>) =
      Inr (s', str_bytes ''AT+CIPSEND='' @ dec (length b) @ crlf @ b) \<and>
    MQTTPublish True 0 [demo_wait [0x40, 2, 0, 1]] (demo_client\<lparr>isconnected := 1\<rparr>) (str_bytes ''mqtt/msg'') demo_message
      (demo_network 0 []) = Inr (Some (MQTT_SUCCESS, c', (w_net s')\<lparr>net_rx_fifo := f'\<rparr>)) \<and>
    isconnected c' \<noteq> 0 \<and> next_packetid c' = 1 \<and> net_fifo_elems f' = []"
proof -
  let ?c = "demo_client\<lparr>isconnected := 1\<rparr>" let ?k = "[0x40, 2, 0, 1] :: bytes"
  have c: "client_inv ?c" "buf_size ?c = 1024" "fst (getNextPacketId ?c) = 1"
    using demo_client_inv by (simp_all add: client_inv_def) (simp add: getNextPacketId_def demo_client_def MAX_PACKET_ID_def)
  have k: "?k = packet (set_type PUBACK 0) (writeInt (uint (1 :: u16)))"
    by (simp add: packet_def encode_2 set_type_def PUBACK_def set_field_def mask_eq_exp_minus_1 push_bit_eq_mult writeInt_def signed_divide_int_def signed_modulo_int_def)
  have m: "MQTTPacket_len (MQTTSerialize_publishLength 1 (topic_cstr (str_bytes ''mqtt/msg'')) (sint (m_payloadlen demo_message))) \<le> int (buf_size ?c)"
    by (simp add: c(2) demo_message_def MQTTSerialize_publishLength_def MQTTPacket_len_def MQTTstrlen_def topic_cstr_def
        MQTTString_initializer_def str_bytes_def)
  have n: "network_inv (demo_network 0 [])" by (rule demo_network_inv) simp_all
  have l: "length (str_bytes ''mqtt/msg'') < 65536" by (simp add: str_bytes_def)
  from publish_over_wifi [of "demo_wifi ESP8266_STATUS_COMMUNICATE" demo_env ?c "str_bytes ''mqtt/msg''" demo_message ?k 1 "demo_wait ?k" 0 "[]" demo_publish_out "[]"]
  show ?thesis
    using c k [symmetric] l m n demo_fifo_queue demo_uart3_quiet by (simp add: demo_wait_def demo_message_sel demo_publish_out_def) blast
qed

section \<open>The wired link\<close>

text \<open>
  C15: An MQTT packet waiting in the receive memory of the wired chip arrives at the client: one call of the driver reads it over the SPI bus
  into the receive buffer of the network layer and tells the network thread, one round of that thread moves it to the FIFO, and
  \<open>readPacket\<close> returns it complete, whatever the chip answers to the polls in between.
\<close>

theorem wired_packet_reaches_client:
  assumes w: "answers w = SR_ESTABLISHED # h # l # h # l # mr # rx # h # l # h # l # st # ph # pl # packet hdr d @ bs @ 0 # r"
    and m: "mr AND 0x0F = Sn_MR_TCP" "st \<in> {SR_ESTABLISHED, SR_CLOSE_WAIT}" "\<forall>b \<in> set bs. b \<noteq> 0"
    and d: "unat (be16 h l) = length (packet hdr d)" "length (packet hdr d) \<le> unat (ucast (push_bit 10 (ucast rx :: u32)) :: u16)"
    and s: "eth_tx_len s = 0" "length block = 2048" "network_inv (eth_net s)" "net_fifo_elems (net_rx_fifo (eth_net s)) = []"
    and c: "client_inv c" "length (packet hdr d) \<le> net_fifo_cap (net_rx_fifo (eth_net s))" "length (packet hdr d) \<le> readbuf_size c"
      "length (packet hdr d) \<le> 1460"
  shows "\<exists>s1 w1 net2 ks f'. ethernet_run_chip cfg (Some block) True s w =
      Some (Inr (SR_ESTABLISHED, s1, [Net (Rt_event_send NET_RX_BUF_WRITE_EVENT)], w1)) \<and> answers w1 = r \<and>
    network_thread_step True NET_RX_BUF_WRITE_EVENT (eth_net s1) = Inr (net2, ks) \<and>
    readPacket True True c net2 = Inr (uint (hdr_type hdr),
      c\<lparr>readbuf := packet hdr d @ drop (length (packet hdr d)) (readbuf c)\<rparr>, net2\<lparr>net_rx_fifo := f'\<rparr>) \<and>
    net_fifo_elems f' = []"
proof -
  let ?p = "packet hdr d"
  let ?net = "(eth_net s)\<lparr>net_rx_len := of_nat (length ?p), net_rx_buf := ?p @ replicate (NET_RX_BUF_SIZE - length ?p) 0\<rparr>"
  have "?p \<noteq> []" by (simp add: packet_def)
  from driver_receives [OF w m d(1) this d(2) s(1,2), of cfg] c(4)
  obtain net w1 where e: "ethernet_run_chip cfg (Some block) True s w =
        Some (Inr (SR_ESTABLISHED, s\<lparr>eth_net := net\<rparr>, [Net (Rt_event_send NET_RX_BUF_WRITE_EVENT)], w1))" "answers w1 = r"
      "net_rx_write True ?p (of_nat (length ?p)) (eth_net s) = Inr (1, net, [Rt_event_send NET_RX_BUF_WRITE_EVENT])" by blast
  have "unat (of_nat (length ?p) :: u16) = length ?p" using c(4) by (simp add: unat_of_nat_u16)
  then have "net = ?net" using e(3) net_rx_write_ok [of "of_nat (length ?p)" ?p "eth_net s"] c(4) by (simp add: net_sizes)
  then obtain net2 ks f' where "network_thread_step True NET_RX_BUF_WRITE_EVENT net = Inr (net2, ks)"
      "readPacket True True c net2 = Inr (uint (hdr_type hdr), c\<lparr>readbuf := ?p @ drop (length ?p) (readbuf c)\<rparr>, net2\<lparr>net_rx_fifo := f'\<rparr>)"
      "net_fifo_elems f' = []"
    using staged_packet_read [OF c(1) s(3,4) c(2,3,4) HOL.refl] by auto
  with e(1,2) show ?thesis by (intro exI conjI) auto
qed

theorem wired_packet_reaches_client_witness:
  "\<exists>s1 w1 net2 ks f'. ethernet_run_chip ibox_config (Some (replicate 2048 0)) True (blank_eth\<lparr>eth_net := demo_network 0 []\<rparr>)
      (wiz_start ([0x17, 0, 4, 0, 4, 0x21, 2, 0, 4, 0, 4, 0x17, 0, 9] @ packet 0x20 [0, 0] @ [0x40, 0])) =
      Some (Inr (SR_ESTABLISHED, s1, [Net (Rt_event_send NET_RX_BUF_WRITE_EVENT)], w1)) \<and> answers w1 = [] \<and>
    network_thread_step True NET_RX_BUF_WRITE_EVENT (eth_net s1) = Inr (net2, ks) \<and>
    readPacket True True demo_client net2 = Inr (uint (hdr_type 0x20),
      demo_client\<lparr>readbuf := packet 0x20 [0, 0] @ drop (length (packet 0x20 [0, 0])) (readbuf demo_client)\<rparr>, net2\<lparr>net_rx_fifo := f'\<rparr>) \<and>
    net_fifo_elems f' = []"
proof (rule wired_packet_reaches_client [where h = 0 and l = 4 and mr = "0x21" and rx = 2 and st = SR_ESTABLISHED and ph = 0 and pl = 9 and bs = "[0x40]"])
  have p: "length (packet 0x20 [0, 0]) = 4" by (simp add: packet_def encode_2)
  show "answers (wiz_start ([0x17, 0, 4, 0, 4, 0x21, 2, 0, 4, 0, 4, 0x17, 0, 9] @ packet 0x20 [0, 0] @ [0x40, 0])) =
      SR_ESTABLISHED # 0 # 4 # 0 # 4 # 0x21 # 2 # 0 # 4 # 0 # 4 # SR_ESTABLISHED # 0 # 9 # packet 0x20 [0, 0] @ [0x40] @ 0 # []"
    by (simp add: SR_ESTABLISHED_def)
  show "unat (be16 0 4) = length (packet 0x20 [0, 0])"
    "length (packet 0x20 [0, 0]) \<le> unat (ucast (push_bit 10 (ucast (2 :: u8) :: u32)) :: u16)"
    by (simp_all add: p be16_def push_bit_eq_mult)
  show "length (packet 0x20 [0, 0]) \<le> net_fifo_cap (net_rx_fifo (eth_net (blank_eth\<lparr>eth_net := demo_network 0 []\<rparr>)))"
    "net_fifo_elems (net_rx_fifo (eth_net (blank_eth\<lparr>eth_net := demo_network 0 []\<rparr>))) = []"
    using demo_fifo_queue by (simp_all add: p)
  show "length (packet 0x20 [0, 0]) \<le> readbuf_size demo_client" by (simp add: p demo_client_def)
  show "length (packet 0x20 [0, 0]) \<le> 1460" by (simp add: p)
  show "network_inv (eth_net (blank_eth\<lparr>eth_net := demo_network 0 []\<rparr>))" using demo_network_inv [of "[]" 0] by simp
qed (simp_all add: Sn_MR_TCP_def blank_eth_def demo_client_inv)

end
