(* ===== verification/Board_Io.thy ===== *)
theory Board_Io
  imports Ethernet
begin

text \<open>
  The small drivers of the board: the pins of the LEDs, of the switched outputs and inputs and of the watchdog, the analog inputs, the
  reset key, the bytes of the SPI bus, and the timer that runs every second (\<open>application.c\<close>).
\<close>

section \<open>Pins\<close>

datatype gpio_port = GPIOE | GPIOF | GPIOG

text \<open>The output and input data registers of the ports.\<close>

record gpio =
  odr :: "gpio_port \<Rightarrow> u16"
  idr :: "gpio_port \<Rightarrow> u16"

definition GPIO_SetBits :: "gpio_port \<Rightarrow> u16 \<Rightarrow> gpio \<Rightarrow> gpio" where
  "GPIO_SetBits p m g = g\<lparr>odr := (odr g)(p := odr g p OR m)\<rparr>"

definition GPIO_ResetBits :: "gpio_port \<Rightarrow> u16 \<Rightarrow> gpio \<Rightarrow> gpio" where
  "GPIO_ResetBits p m g = g\<lparr>odr := (odr g)(p := odr g p AND NOT m)\<rparr>"

definition GPIO_ReadOutputDataBit :: "gpio_port \<Rightarrow> u16 \<Rightarrow> gpio \<Rightarrow> u8" where
  "GPIO_ReadOutputDataBit p m g = (if odr g p AND m \<noteq> 0 then 1 else 0)"

definition GPIO_ReadInputDataBit :: "gpio_port \<Rightarrow> u16 \<Rightarrow> gpio \<Rightarrow> u8" where
  "GPIO_ReadInputDataBit p m g = (if idr g p AND m \<noteq> 0 then 1 else 0)"

definition GPIO_WriteBit :: "gpio_port \<Rightarrow> u16 \<Rightarrow> bool \<Rightarrow> gpio \<Rightarrow> gpio" where
  "GPIO_WriteBit p m v g = (if v then GPIO_SetBits p m g else GPIO_ResetBits p m g)"

text \<open>\<open>if (output is 1) reset else set\<close>, of \<open>led_toggle\<close> and \<open>wdog_feed\<close>.\<close>

definition toggle_pin :: "gpio_port \<Rightarrow> u16 \<Rightarrow> gpio \<Rightarrow> gpio" where
  "toggle_pin p m g = (if GPIO_ReadOutputDataBit p m g = 1 then GPIO_ResetBits p m g else GPIO_SetBits p m g)"

section \<open>LEDs, watchdog, inputs and outputs\<close>

datatype led_typedef = LED_SYS | LED_LORA | LED_NET

fun led_pin :: "led_typedef \<Rightarrow> u16" where
  "led_pin LED_SYS = 0x0200"
| "led_pin LED_LORA = 0x0400"
| "led_pin LED_NET = 0x1000"

definition led_port :: "led_typedef \<Rightarrow> gpio_port" where "led_port led = GPIOE"

definition led_on :: "led_typedef \<Rightarrow> gpio \<Rightarrow> gpio" where "led_on led = GPIO_ResetBits (led_port led) (led_pin led)"
definition led_off :: "led_typedef \<Rightarrow> gpio \<Rightarrow> gpio" where "led_off led = GPIO_SetBits (led_port led) (led_pin led)"
definition led_toggle :: "led_typedef \<Rightarrow> gpio \<Rightarrow> gpio" where "led_toggle led = toggle_pin (led_port led) (led_pin led)"

text \<open>The LED is on when its pin is low.\<close>

definition lit :: "led_typedef \<Rightarrow> gpio \<Rightarrow> bool" where
  "lit led g \<longleftrightarrow> odr g (led_port led) AND led_pin led = 0"

definition wdog_feed :: "gpio \<Rightarrow> gpio" where "wdog_feed = toggle_pin GPIOG 0x0040"

datatype Output_TypeDef = IO_OUT1 | IO_OUT2
datatype Input_TypeDef = IO_IN1 | IO_IN2

fun out_pin :: "Output_TypeDef \<Rightarrow> u16" where
  "out_pin IO_OUT1 = 0x0001"
| "out_pin IO_OUT2 = 0x0002"

fun in_pin :: "Input_TypeDef \<Rightarrow> u16" where
  "in_pin IO_IN1 = 0x0001"
| "in_pin IO_IN2 = 0x0002"

definition IO_Output :: "Output_TypeDef \<Rightarrow> bool \<Rightarrow> gpio \<Rightarrow> gpio" where
  "IO_Output pin v = GPIO_WriteBit GPIOE (out_pin pin) v"

definition Read_IO :: "Input_TypeDef \<Rightarrow> gpio \<Rightarrow> u8" where
  "Read_IO pin = GPIO_ReadInputDataBit GPIOF (in_pin pin)"

text \<open>The levels \<open>IO_init\<close> leaves: the first output is set twice, the second one not at all.\<close>

definition IO_init :: "gpio \<Rightarrow> gpio" where
  "IO_init g = GPIO_SetBits GPIOE 0x0001 (GPIO_SetBits GPIOE 0x0001 g)"

section \<open>Analog inputs\<close>

definition AD_TIMES :: nat where "AD_TIMES = 10"
definition TOTAL_AD_CHANNEL :: nat where "TOTAL_AD_CHANNEL = 3"

text \<open>
  The mean of ten conversions of a channel in the buffer of the DMA, scaled to hundredths of a volt.  The arithmetic in floating point is
  exact here: \<open>temp\<close> has 12 bits, so that \<open>temp / 4096 * 330\<close> has 21, and its conversion cuts the fraction off.
\<close>

definition get_adc_voltage :: "u8 \<Rightarrow> u16 list \<Rightarrow> u16" where
  "get_adc_voltage ch buf =
     (if ch = 0 \<or> ch = 1 then
        (let temp = sum_list (map (\<lambda>i. unat (buf ! (unat ch + i * TOTAL_AD_CHANNEL))) [0..<AD_TIMES]) div AD_TIMES
         in if temp > 4000 then 0 else of_nat (temp * 330 div 4096))
      else 0)"

section \<open>The reset key\<close>

datatype key_action = Delay_ms nat | Clear_pending | System_reset

text \<open>The handler of the key; the reset does not return.\<close>

definition EXTI15_10_IRQHandler :: "bool \<Rightarrow> gpio \<Rightarrow> key_action list" where
  "EXTI15_10_IRQHandler pending g =
     (if pending then
        (if GPIO_ReadInputDataBit GPIOE 0x8000 g = 0 then [Delay_ms 20, System_reset] else [Delay_ms 20, Clear_pending, Clear_pending])
      else [Clear_pending])"

section \<open>Bytes on the SPI bus\<close>

text \<open>Waiting for a flag, at most \<open>t\<close> readings; \<open>f k\<close> is the reading number \<open>k\<close>.  The result is the number of readings.\<close>

fun await_flag :: "nat \<Rightarrow> (nat \<Rightarrow> bool) \<Rightarrow> nat \<Rightarrow> nat" where
  "await_flag 0 f k = k"
| "await_flag (Suc t) f k = (if f k then Suc k else await_flag t f (Suc k))"

text \<open>
  A byte in exchange for a byte: the number of readings of the two flags and the data register at the end, which is returned whether the
  flags have come or not.
\<close>

definition spi_readwritebyte :: "(nat \<Rightarrow> bool) \<Rightarrow> (nat \<Rightarrow> bool) \<Rightarrow> u8 \<Rightarrow> nat \<times> u8" where
  "spi_readwritebyte txe rxne dr = (await_flag 200 txe 0 + await_flag 200 rxne 0, dr)"

section \<open>The timer of one second\<close>

record board =
  b_wired :: wired
  b_gpio :: gpio
  is_wireless_link_ok :: u8
  is_lora_link_ok :: u8

definition timer_1s_timeout :: "board \<Rightarrow> board" where
  "timer_1s_timeout s =
     (let s1 = s\<lparr>b_wired := wired_second (b_wired s), b_gpio := led_toggle LED_SYS (b_gpio s)\<rparr>;
          s2 = (if is_wired_link_ok (b_wired s1) \<noteq> 0 \<or> is_wireless_link_ok s1 \<noteq> 0 then s1\<lparr>b_gpio := led_toggle LED_NET (b_gpio s1)\<rparr> else s1)
      in if is_lora_link_ok s2 \<noteq> 0 then s2\<lparr>b_gpio := led_toggle LED_LORA (b_gpio s2)\<rparr> else s2)"

section \<open>Properties\<close>

lemma toggle_lit: "lit led (led_toggle led' g) = (if led = led' then \<not> lit led g else lit led g)"
proof -
  have dist: "led \<noteq> led' \<Longrightarrow> led_pin led AND led_pin led' = 0" by (cases led; cases led') simp_all
  have ne: "led_pin led \<noteq> 0" by (cases led) simp_all
  have set: "(x OR led_pin led') AND led_pin led = (x AND led_pin led) OR (led_pin led AND led_pin led')" for x
    by (simp add: and.commute bit.conj_disj_distrib)
  have reset: "(x AND NOT (led_pin led')) AND led_pin led = (x AND led_pin led) AND NOT (led_pin led AND led_pin led')" for x
    by (rule bit_word_eqI) (auto simp: bit_simps)
  have none: "(x AND m) AND NOT m = 0" for x m :: u16 by (rule bit_word_eqI) (auto simp: bit_simps)
  show ?thesis
  proof (cases "led = led'")
    case True
    then show ?thesis using ne set reset none
      by (auto simp: led_toggle_def toggle_pin_def lit_def GPIO_ReadOutputDataBit_def GPIO_SetBits_def GPIO_ResetBits_def led_port_def)
  next
    case False
    then show ?thesis using dist set reset
      by (simp add: led_toggle_def toggle_pin_def lit_def GPIO_ReadOutputDataBit_def GPIO_SetBits_def GPIO_ResetBits_def led_port_def)
  qed
qed

lemma timer_1s_step:
  "b_wired (timer_1s_timeout s) = wired_second (b_wired s)"
  "is_wireless_link_ok (timer_1s_timeout s) = is_wireless_link_ok s" "is_lora_link_ok (timer_1s_timeout s) = is_lora_link_ok s"
  "lit LED_SYS (b_gpio (timer_1s_timeout s)) \<longleftrightarrow> \<not> lit LED_SYS (b_gpio s)"
  "lit LED_NET (b_gpio (timer_1s_timeout s)) \<longleftrightarrow>
     (lit LED_NET (b_gpio s) \<noteq> (is_wired_link_ok (b_wired s) \<noteq> 0 \<or> is_wireless_link_ok s \<noteq> 0))"
  "lit LED_LORA (b_gpio (timer_1s_timeout s)) \<longleftrightarrow> (lit LED_LORA (b_gpio s) \<noteq> (is_lora_link_ok s \<noteq> 0))"
  by (auto simp: timer_1s_timeout_def Let_def toggle_lit wired_second_def)

lemma wired_second_link: "is_wired_link_ok ((wired_second ^^ n) w) = is_wired_link_ok w"
  by (induction n) (simp_all add: wired_second_def)

text \<open>
  what the timer does in \<open>n\<close> seconds without a change of the links: the DHCP and DNS clients have been told of each of them, the system LED
  has changed every second, and the LEDs of the network and of the radio likewise when there is a link, and not at all without one.
\<close>

theorem seconds_pass:
  "b_wired ((timer_1s_timeout ^^ n) s) = (wired_second ^^ n) (b_wired s) \<and>
   lit LED_SYS (b_gpio ((timer_1s_timeout ^^ n) s)) = (lit LED_SYS (b_gpio s) \<noteq> odd n) \<and>
   lit LED_NET (b_gpio ((timer_1s_timeout ^^ n) s)) =
     (lit LED_NET (b_gpio s) \<noteq> (odd n \<and> (is_wired_link_ok (b_wired s) \<noteq> 0 \<or> is_wireless_link_ok s \<noteq> 0))) \<and>
   lit LED_LORA (b_gpio ((timer_1s_timeout ^^ n) s)) = (lit LED_LORA (b_gpio s) \<noteq> (odd n \<and> is_lora_link_ok s \<noteq> 0))"
proof -
  have flags: "is_wireless_link_ok ((timer_1s_timeout ^^ n) s) = is_wireless_link_ok s" "is_lora_link_ok ((timer_1s_timeout ^^ n) s) = is_lora_link_ok s" for n
    by (induction n) (simp_all add: timer_1s_step)
  show ?thesis
  proof (induction n)
    case (Suc n)
    then show ?case using wired_second_link [of n "b_wired s"] by (auto simp: timer_1s_step flags)
  qed simp
qed

lemma mean_below: "(\<forall>x \<in> set xs. x \<le> m) \<Longrightarrow> length xs = n \<Longrightarrow> sum_list xs \<le> n * (m :: nat)"
  by (induction xs arbitrary: n) fastforce+

text \<open>
  the voltage of an analog input: with \<open>t\<close> the mean of its ten conversions, the result is \<open>t / 4096 * 3.30\<close> volts in hundredths,
  less than one hundredth too low and at most 322; above 4000, that is from 3.23 volts on, it is 0 like that of an unknown channel.
\<close>

theorem adc_voltage_bounds:
  assumes "ch = 0 \<or> ch = 1" "t = sum_list (map (\<lambda>i. unat (buf ! (unat ch + i * 3))) [0..<10]) div 10"
  shows "(t \<le> 4000 \<longrightarrow> unat (get_adc_voltage ch buf) \<le> 322 \<and>
      4096 * unat (get_adc_voltage ch buf) \<le> 330 * t \<and> 330 * t < 4096 * (unat (get_adc_voltage ch buf) + 1)) \<and>
    (4000 < t \<longrightarrow> get_adc_voltage ch buf = 0)"
proof -
  have g: "get_adc_voltage ch buf = (if t > 4000 then 0 else of_nat (t * 330 div 4096))"
    using assms by (simp only: get_adc_voltage_def Let_def AD_TIMES_def TOTAL_AD_CHANNEL_def if_True)
  have "t * 330 div 4096 \<le> 322" if "t \<le> 4000" using that by linarith
  moreover then have "unat (of_nat (t * 330 div 4096) :: u16) = t * 330 div 4096" if "t \<le> 4000"
    using that by (simp add: take_bit_nat_eq_self)
  moreover have "4096 * (t * 330 div 4096) \<le> 330 * t" "330 * t < 4096 * (t * 330 div 4096 + 1)"
    using dividend_less_div_times [of 4096 "t * 330"] by (linarith, simp)
  ultimately show ?thesis unfolding g by auto
qed

theorem adc_voltage_bounds_witness:
  "4096 * unat (get_adc_voltage 1 (concat (replicate 10 [0, 2048, 0]))) \<le> 330 * 2048 \<and> get_adc_voltage 0 (concat (replicate 10 [4095, 0, 0])) = 0"
proof -
  have l: "concat (replicate 10 [a, b, c :: u16]) = [a,b,c,a,b,c,a,b,c,a,b,c,a,b,c,a,b,c,a,b,c,a,b,c,a,b,c,a,b,c]" for a b c
    by (simp add: numeral_eq_Suc)
  have m: "2048 = sum_list (map (\<lambda>i. unat (concat (replicate 10 [0, 2048, 0 :: u16]) ! (unat (1 :: u8) + i * 3))) [0..<10]) div 10"
    "4095 = sum_list (map (\<lambda>i. unat (concat (replicate 10 [4095, 0, 0 :: u16]) ! (unat (0 :: u8) + i * 3))) [0..<10]) div 10"
    unfolding l by (simp_all add: upt_rec)
  show ?thesis using adc_voltage_bounds [OF _ m(1)] adc_voltage_bounds [OF _ m(2)] by auto
qed

lemma await_flag_bound: "await_flag t f k \<le> k + t"
proof (induction t arbitrary: k)
  case (Suc t)
  then show ?case using Suc.IH [of "Suc k"] by simp
qed simp

text \<open>A byte takes at most 400 readings of the flags, even on a bus that never answers.\<close>

lemma spi_readings: "fst (spi_readwritebyte txe rxne dr) \<le> 400"
  using await_flag_bound [of 200 txe 0] await_flag_bound [of 200 rxne 0] by (simp add: spi_readwritebyte_def)

end
