(* ===== verification/Spec2Isabelle.thy ===== *)
theory Spec2Isabelle
  imports Lora_Fifo Lora_Air Fsk_Settings Fsk_Radio Radio_Dispatch Uart_Interrupts Mqtt_Nonblock Mqtt_Format Rtc_Order Gprs Wifi_Faults Gateway Board_Io
begin

text \<open>
  Verification of the iBoxClient firmware: a gateway on an STM32F103 that collects data from a LoRa radio and an RS-485 bus and talks
  to an MQTT server over WiFi, GPRS or a wired network.

  \<^bold>\<open>The program and its parts.\<close>  The threads of the firmware run on the RT-Thread kernel.  The application thread
  (\<open>Application/src/main_thread.c\<close>) sets up an MQTT session, subscribes, publishes and pings; it calls the MQTT client
  (\<open>Middlewares/MQTT\<close>), which reads packets byte by byte from the network layer (\<open>Application/src/network.c\<close>) and hands it
  packets to send.  The network thread moves data between two staging buffers and the receive FIFO on events.  Below it a link driver
  fills and empties the staging buffers: the AT state machine of the ESP8266 (\<open>ibox_wifi.c\<close>, run by \<open>wireless_net.c\<close>) or of
  the SIM800L (\<open>ibox_gprs.c\<close>), both on the UART3 ring that the receive interrupt fills, or the W5500 (\<open>ibox_Ethernet.c\<close>,
  run by \<open>wired_net.c\<close>) with its DHCP and DNS clients, socket library and SPI frames (\<open>Middlewares/Eth\<close>, \<open>w5500.c\<close>).  The
  LoRa thread (\<open>lora_thread.c\<close>) runs the state machine of the SX1276 (\<open>SX1276/src/radio\<close>).  Around them stand the RTC calendar,
  the RS-485 line reader and the small drivers of the board.

  \<^bold>\<open>Theories and what they model.\<close>

  \<^item> \<open>IBox_Prelude\<close>: machine words, C strings as byte lists, shared lemmas.  \<open>Ring_Spec\<close>: the contracts of the queues, the locales
    \<open>bounded_fifo\<close> (interpreted in \<open>Lora_Fifo\<close> and \<open>Net_Layer\<close>) and \<open>lossy_ring\<close> (in \<open>Uart\<close> twice and \<open>Rs485\<close>).
  \<^item> \<open>Lora_Fifo\<close> is \<open>fifo.c\<close>; \<open>Uart\<close> is \<open>ibox_uart.c\<close>; \<open>Rs485\<close> is \<open>ibox_485.c\<close>: rings refined to the list of unread bytes,
    line readers refined to functions on that list.  \<open>Uart_Interrupts\<close> runs the readers access by access with the receive interrupts
    in between (\<open>interleaved\<close>, \<open>line_run\<close>): what the other theories take as one step is justified there for the byte reader of UART3
    while its ring does not overflow, and the races of an overflow and of the line counter are shown.
  \<^item> \<open>Net_Layer\<close> is \<open>network.c\<close>: the receive FIFO, staging buffers and one round of the network thread.  Its writes check the
    array bounds, so an overrun is the fault \<open>OutOfBounds\<close>.
  \<^item> \<open>Mqtt_Packet\<close> and \<open>Mqtt_Serialize\<close> are \<open>MQTTPacket.c\<close> and the serializers and deserializers; \<open>Mqtt_Roundtrip\<close> proves that
    they invert each other.  The packet reader relies on the locale \<open>byte_getter\<close>, extended to \<open>byte_source\<close> (interpreted on the
    buffer reader and on the network FIFO) and \<open>safe_source\<close>.  \<open>Mqtt_Nonblock\<close> is the reader that returns when its source is empty
    (\<open>MQTTPacket_readnb\<close>), proved for any locale \<open>stream_source\<close> and run on the network FIFO with a packet that arrives in pieces.
    \<open>Mqtt_Format\<close> is \<open>MQTTFormat.c\<close>, packets as text: what is printed, and where the text leaves its buffer.
  \<^item> \<open>Mqtt_Client\<close> is \<open>MQTTClient_iBox.c\<close>.  \<open>Mqtt_Receive\<close>: complete packets are delivered, no input overruns the read buffer,
    waiting ends; the reader has an outcome of the mutex and a change of the FIFO per read there, one outcome in the calls.
    \<open>Mqtt_Session\<close>: topic matching against the matching of MQTT on levels, the handler table as a finite map of bounded size (locales
    \<open>handler_slots\<close> and \<open>handler_table\<close>).  \<open>Mqtt_Calls\<close>: what each call promises, handshakes and acknowledgements.
  \<^item> \<open>Board\<close> is the configuration record; \<open>Main_Thread\<close> is \<open>main_thread.c\<close>.  \<open>Rtc_Calendar\<close> is \<open>ibox_rtc.c\<close> against the Gregorian
    calendar, \<open>Rtc_Order\<close> the order of dates.  \<open>Board_Io\<close> holds LEDs, pins, key, watchdog, analog inputs, SPI bytes and the timer of \<open>application.c\<close>.
  \<^item> \<open>At_Common\<close>: what the modem drivers share, with the locales \<open>at_modem\<close> (an invariant kept by steps and interrupts holds in
    every run that returns), \<open>at_faults\<close> (which runs do not return) and \<open>at_reader\<close> (what a step sees of the bytes received before
    it).  \<open>Gprs\<close> is \<open>ibox_gprs.c\<close>; \<open>Wifi\<close> and \<open>Wifi_Data\<close> are \<open>ibox_wifi.c\<close> and \<open>wireless_net.c\<close>; \<open>Wifi_Faults\<close> says exactly
    which runs of the WiFi driver leave an array.  The drivers interpret the locales.
  \<^item> \<open>Dhcp\<close> and \<open>Dhcp_Lease\<close> are \<open>dhcp.c\<close> (locale \<open>address_handler\<close> for the callback, interpreted on the default one and on the
    driver's); \<open>Dns\<close> is \<open>dns.c\<close>; \<open>Ethernet\<close> is \<open>ibox_Ethernet.c\<close> and a round of \<open>wired_net.c\<close>, with calls of the socket library as
    actions and its answers as inputs.
  \<^item> \<open>Wizchip\<close> is \<open>w5500.c\<close> and the register macros of \<open>w5500.h\<close>; \<open>Wiz_Socket\<close> is \<open>socket.c\<close>; \<open>Wizchip_Conf\<close> is
    \<open>wizchip_conf.c\<close>.  \<open>Wiz_Transfer\<close>, \<open>Wiz_Data\<close> and \<open>Wiz_Udp\<close> decode the frames a call sends and follow the data through it;
    \<open>Wiz_Safety\<close> shows that no sequence of calls leaves the arrays but by the socket number 8, which the check of the library lets through.  \<open>Wiz_Driver\<close> carries the actions of \<open>Ethernet\<close> out on the chip
    and reads its inputs from it.
  \<^item> \<open>Sx1276\<close> holds the register access of \<open>sx1276-Hal.c\<close>, the setters and getters of \<open>sx1276-LoRaMisc.c\<close> and the initialisation;
    \<open>Sx1276_Config\<close> refines them to an abstract modem (locale \<open>modem_setting\<close>, interpreted for ten settings).
    \<open>Sx1276_Process\<close> is the state machine of \<open>sx1276-LoRa.c\<close>, the dispatch of \<open>sx1276.c\<close> and \<open>lora_thread.c\<close>;
    \<open>Lora_Radio\<close> follows its states, \<open>Lora_Thread\<close> proves the invariant over any calls and the protocol, \<open>Lora_Packets\<close> and
    \<open>Lora_Air\<close> what is received and sent.
  \<^item> \<open>Fsk_Modem\<close> holds the settings of the other modem of the radio, \<open>sx1276-FskMisc.c\<close> and the readings and initialisation of
    \<open>sx1276-Fsk.c\<close>; \<open>Fsk_Process\<close> is its state machine.  The firmware compiles it and never selects it.  \<open>Fsk_Settings\<close>: which settings
    are read back as set; \<open>Fsk_Radio\<close>: packets are sent and put together from the FIFO, and on this board none is ever received.
    \<open>Radio_Dispatch\<close> has the functions of \<open>sx1276.c\<close> over both modems.
  \<^item> \<open>Gateway\<close> runs the parts together: a publication of the client through the network thread and the WiFi driver to the module, with
    the server's answer on the way back, and a packet from the wired chip to the client.  This theory does the latter for the module.

  \<^bold>\<open>How state and effects correspond to the code.\<close>  A component's static variables are a record; an operation takes it and returns
  it.  An array is a list of its declared length, an index or count of 8, 16 or 32 bits a word of that width, a C string the bytes up
  to the first zero.  An access outside an array is an error value: \<open>Inl OutOfBounds\<close> of the sum type \<open>c_result\<close>, \<open>None\<close> in the radio,
  the flag \<open>outside\<close> in the socket library.  Kernel calls that may block return what an argument says; the calls an operation makes
  that no one waits for are returned in order.  What hardware decides is an input: the byte of a receive interrupt, the tick counter,
  the pins and registers of the radio (\<open>rf_input\<close>), the bytes the W5500 answers.

  \<^bold>\<open>Loops.\<close>  Loops that end in every case are functions with a measure.  Loops that wait for the outside are followed over a list of what
  the outside does: the rounds of a thread, the turns of the DNS request, the dialogue of a modem; the statements say how many are
  enough (the patience of the DNS client bounds the turns until it gives up).  The loops of the socket library that poll the chip are
  partial functions over the list of its answers, and their result is \<open>None\<close> exactly while an answer is missing; the statements about
  finished calls give the answers under which they finish, the safety statements hold for any.

  \<^bold>\<open>What the statements show.\<close>  First the way of data: packets and handshakes from the wire to the MQTT client, messages built and
  parsed, subscriptions, leases, names, LoRa packets, socket data.  Then that no traffic leads a component out of its invariant or its
  memory, and that state machines follow an abstract protocol.  Where the code breaks a promise of a comment or of its own checks, the
  statement is the behaviour it has.

  \<^bold>\<open>Not modelled.\<close>  The CPU temperature, which is computed in floating point (the RSSI of a packet is modelled in exact
  ten-thousandths of a dBm, rounding left aside); the set-up of clocks, pins, DMA and peripherals, the DAC, the vector table and the
  start-up code, which are register writes without state of their own; the creation of threads; the JSON text of messages (cJSON is
  a parameter of the callbacks); CmBacktrace and SystemView; the RT-Thread kernel and the peripheral library of the manufacturer;
  \<open>Middlewares/Eth/network.c\<close> and \<open>ibox_dac.c\<close>, which nothing calls.
\<close>

section \<open>From the modem to the MQTT client\<close>

lemma carried_packet_stored:
  assumes "network_inv net" and "net_fifo_elems (net_rx_fifo net) = []" and "length p \<le> net_fifo_cap (net_rx_fifo net)" and "length p \<le> 1460"
    and "p \<noteq> []"
  shows "\<exists>f. network_thread_step True NET_RX_BUF_WRITE_EVENT
      (net\<lparr>net_rx_len := of_nat (length p), net_rx_buf := carried p @ replicate (NET_RX_BUF_SIZE - length p) 0\<rparr>) =
    Inr (net\<lparr>net_rx_len := of_nat (length p), net_rx_buf := carried p @ replicate (NET_RX_BUF_SIZE - length p) 0, net_rx_fifo := f\<rparr>,
      [Rt_mutex_release, Rt_sem_release Net_rx_sem, Rt_sem_release Net_fifo_sem]) \<and> net_fifo_elems f = carried p"
proof -
  let ?n = "net\<lparr>net_rx_len := of_nat (length p), net_rx_buf := carried p @ replicate (NET_RX_BUF_SIZE - length p) 0\<rparr>"
  have "network_inv ?n" using assms(1,4) by (simp add: network_inv_def net_sizes)
  moreover have "take (length (carried p)) (net_rx_buf ?n) = carried p"
    by (simp del: carried_length add: append_eq_conv_conj [symmetric])
  ultimately show ?thesis using net_thread_moves [of ?n "carried p"] assms by (auto simp: net_sizes)
qed

text \<open>
  C2: What arrives of an MQTT packet that the server sends, when the WiFi module delivers it as one \<open>+IPD\<close> line, byte by byte through the
  receive interrupt, and the packet has no carriage return and the line shows none of the words by which the driver recognises events
  (either is taken for the end or the meaning of a line).  One step of the WiFi driver takes the line over and sends the event on which
  one round of the network thread moves the data to the receive FIFO: there they are without the line feeds, with zeros for them at the end.
  So the packet arrives exactly when it has no line feed, and then \<open>readPacket\<close> returns it complete; a packet with a line feed is corrupted
  on the way.
\<close>

theorem server_packet_reaches_client:
  assumes "wifi_inv s" and "quiet (w_uart3 s)" and "esp8266_status s = ESP8266_STATUS_COMMUNICATE" and "rx_sem_ok e"
    and "client_inv c" and "net_fifo_elems (net_rx_fifo (w_net s)) = []"
    and "length (packet h d) \<le> net_fifo_cap (net_rx_fifo (w_net s))" and "length (packet h d) \<le> readbuf_size c"
    and "0x0d \<notin> set (packet h d)"
    and "length (ipd_line (length (packet h d)) (packet h d)) + 3 < UART3_RX_SIZE"
    and "no_event (ipd_line (length (packet h d)) (filter (\<lambda>b. b \<noteq> 0x0a) (packet h d)))"
  shows "\<exists>s1 net2 ks. esp8266_at_fsm e (fold wifi_irq (ipd_line (length (packet h d)) (packet h d) @ crlf) s) =
      Inr (s1, [Kernel (Rt_event_send NET_RX_BUF_WRITE_EVENT)]) \<and>
    network_thread_step True NET_RX_BUF_WRITE_EVENT (w_net s1) = Inr (net2, ks) \<and>
    net_fifo_elems (net_rx_fifo net2) = filter (\<lambda>b. b \<noteq> 0x0a) (packet h d) @ replicate (count_list (packet h d) 0x0a) 0 \<and>
    (net_fifo_elems (net_rx_fifo net2) = packet h d \<longleftrightarrow> 0x0a \<notin> set (packet h d)) \<and>
    (0x0a \<notin> set (packet h d) \<longrightarrow> (\<exists>f'. readPacket True True c net2 = Inr (uint (hdr_type h),
       c\<lparr>readbuf := packet h d @ drop (length (packet h d)) (readbuf c)\<rparr>, net2\<lparr>net_rx_fifo := f'\<rparr>) \<and> net_fifo_elems f' = []))"
proof -
  let ?p = "packet h d"
  let ?net1 = "(w_net s)\<lparr>net_rx_len := of_nat (length ?p), net_rx_buf := carried ?p @ replicate (NET_RX_BUF_SIZE - length ?p) 0\<rparr>"
  obtain q where step: "esp8266_at_fsm e (fold wifi_irq (ipd_line (length ?p) ?p @ crlf) s) =
      Inr (s\<lparr>w_uart3 := q, w_net := ?net1\<rparr>, [Kernel (Rt_event_send NET_RX_BUF_WRITE_EVENT)])"
    using ipd_carries [OF assms(2,3,4,9-11)] by blast
  have n: "length ?p \<le> 1460" "?p \<noteq> []" "network_inv (w_net s)"
    using assms(1,10) by (simp_all add: ipd_line_def UART3_RX_SIZE_def packet_def wifi_inv_def)
  obtain f where f: "network_thread_step True NET_RX_BUF_WRITE_EVENT ?net1 =
      Inr (?net1\<lparr>net_rx_fifo := f\<rparr>, [Rt_mutex_release, Rt_sem_release Net_rx_sem, Rt_sem_release Net_fifo_sem])" "net_fifo_elems f = carried ?p"
    using carried_packet_stored [OF n(3) assms(6,7) n(1,2)] by auto
  have read: "\<exists>f'. readPacket True True c (?net1\<lparr>net_rx_fifo := f\<rparr>) = Inr (uint (hdr_type h),
       c\<lparr>readbuf := ?p @ drop (length ?p) (readbuf c)\<rparr>, ?net1\<lparr>net_rx_fifo := f'\<rparr>) \<and> net_fifo_elems f' = []" if "0x0a \<notin> set ?p"
    using staged_packet_read [OF assms(5) n(3) assms(6-8) n(1) HOL.refl] f(1) that by (auto simp: carried_same [THEN iffD2])
  show ?thesis
    using step f read carried_same [of ?p] unfolding carried_def [symmetric]
    by (intro exI [of _ "s\<lparr>w_uart3 := q, w_net := ?net1\<rparr>"] exI [of _ "?net1\<lparr>net_rx_fifo := f\<rparr>"]) auto
qed

lemma demo_carried:
  assumes "p = [0x20, 2, x, 0]" "(x :: u8) \<in> {0, 0x0a}"
  shows "length (ipd_line (length p) p) + 3 < UART3_RX_SIZE" "no_event (ipd_line (length p) (filter (\<lambda>b. b \<noteq> 0x0a) p))"
proof -
  have d: "dec 4 = [52]" by (simp add: dec.simps)
  have l: "ipd_line 4 q = [43, 73, 80, 68, 44, 52, 58] @ q" for q by (simp add: ipd_line_def d) (simp add: str_bytes_def)
  have n: "length p = 4" by (simp add: assms(1))
  show "length (ipd_line (length p) p) + 3 < UART3_RX_SIZE" unfolding n l by (simp add: n UART3_RX_SIZE_def)
  have "cstr (rx_array ([43, 73, 80, 68, 44, 52, 58] @ filter (\<lambda>b. b \<noteq> 0x0a) p)) = [43, 73, 80, 68, 44, 52, 58, 0x20, 2]"
    using assms by (auto simp: rx_array_def cstr_def UART3_RX_SIZE_def)
  then show "no_event (ipd_line (length p) (filter (\<lambda>b. b \<noteq> 0x0a) p))"
    unfolding n l by (simp add: no_event_def has_str_in_def find_str_def) (simp add: str_bytes_def)
qed

theorem server_packet_reaches_client_witness:
  "(\<exists>s1 net2 ks f'. esp8266_at_fsm demo_env (fold wifi_irq (ipd_line (length (packet 0x20 [0, 0])) (packet 0x20 [0, 0]) @ crlf)
        (demo_wifi ESP8266_STATUS_COMMUNICATE)) = Inr (s1, [Kernel (Rt_event_send NET_RX_BUF_WRITE_EVENT)]) \<and>
    network_thread_step True NET_RX_BUF_WRITE_EVENT (w_net s1) = Inr (net2, ks) \<and>
    readPacket True True demo_client net2 = Inr (uint (hdr_type 0x20),
      demo_client\<lparr>readbuf := packet 0x20 [0, 0] @ drop (length (packet 0x20 [0, 0])) (readbuf demo_client)\<rparr>,
      net2\<lparr>net_rx_fifo := f'\<rparr>) \<and> net_fifo_elems f' = []) \<and>
   (\<exists>s1 net2 ks. esp8266_at_fsm demo_env (fold wifi_irq (ipd_line (length (packet 0x20 [0x0a, 0])) (packet 0x20 [0x0a, 0]) @ crlf)
        (demo_wifi ESP8266_STATUS_COMMUNICATE)) = Inr (s1, [Kernel (Rt_event_send NET_RX_BUF_WRITE_EVENT)]) \<and>
    network_thread_step True NET_RX_BUF_WRITE_EVENT (w_net s1) = Inr (net2, ks) \<and> net_fifo_elems (net_rx_fifo net2) = [0x20, 2, 0, 0])"
proof -
  have p: "packet 0x20 [x, 0] = [0x20, 2, x, 0]" for x by (simp add: packet_def encode_2)
  have r: "length [0x20, 2, x, 0 :: u8] \<le> net_fifo_cap (net_rx_fifo (w_net (demo_wifi ESP8266_STATUS_COMMUNICATE)))"
    "net_fifo_elems (net_rx_fifo (w_net (demo_wifi ESP8266_STATUS_COMMUNICATE))) = []"
    "length [0x20, 2, x, 0 :: u8] \<le> readbuf_size demo_client" for x
    using demo_fifo_queue by (simp_all add: demo_network_def demo_client_def)
  note t = server_packet_reaches_client [OF demo_wifi_inv _ _ _ demo_client_inv, where h = "0x20" and e = demo_env]
  show ?thesis
  proof (intro conjI)
    show "\<exists>s1 net2 ks f'. esp8266_at_fsm demo_env (fold wifi_irq (ipd_line (length (packet 0x20 [0, 0])) (packet 0x20 [0, 0]) @ crlf)
        (demo_wifi ESP8266_STATUS_COMMUNICATE)) = Inr (s1, [Kernel (Rt_event_send NET_RX_BUF_WRITE_EVENT)]) \<and>
      network_thread_step True NET_RX_BUF_WRITE_EVENT (w_net s1) = Inr (net2, ks) \<and>
      readPacket True True demo_client net2 = Inr (uint (hdr_type 0x20),
        demo_client\<lparr>readbuf := packet 0x20 [0, 0] @ drop (length (packet 0x20 [0, 0])) (readbuf demo_client)\<rparr>,
        net2\<lparr>net_rx_fifo := f'\<rparr>) \<and> net_fifo_elems f' = []"
      using t [where d = "[0, 0]", unfolded p] demo_carried [of "[0x20, 2, 0, 0]" 0] r demo_client_inv unfolding p
      by (simp del: fold.simps) blast
    show "\<exists>s1 net2 ks. esp8266_at_fsm demo_env (fold wifi_irq (ipd_line (length (packet 0x20 [0x0a, 0])) (packet 0x20 [0x0a, 0]) @ crlf)
        (demo_wifi ESP8266_STATUS_COMMUNICATE)) = Inr (s1, [Kernel (Rt_event_send NET_RX_BUF_WRITE_EVENT)]) \<and>
      network_thread_step True NET_RX_BUF_WRITE_EVENT (w_net s1) = Inr (net2, ks) \<and> net_fifo_elems (net_rx_fifo net2) = [0x20, 2, 0, 0]"
      using t [where d = "[0x0a, 0]", unfolded p] demo_carried [of "[0x20, 2, 0x0a, 0]" "0x0a"] r demo_client_inv unfolding p
      by (simp del: fold.simps) blast
  qed
qed

end
